(* ===== verification/Prelude.thy ===== *)
theory Prelude
  imports Complex_Main "HOL-Library.List_Lexorder" "HOL-Library.Char_ord"
    "HOL-Library.Product_Lexorder" "HOL-Library.Multiset"
begin

text \<open>
  Shared vocabulary of the development: the parts of Go's \<open>strings\<close> package that the program
  uses, the keep-the-first deduplication loop that recurs all over the code (a \<open>seen\<close> map and
  an output slice), ordering by a key, and two's complement wrap-around of Go's 64-bit \<open>int\<close>.

  A Go string is a byte sequence and is modelled as \<open>string\<close>. White space and letter case are
  those of ASCII: \<open>strings.TrimSpace\<close>, \<open>strings.Fields\<close> and \<open>strings.ToLower\<close> agree with the
  definitions below on ASCII text; the Unicode white space and case tables are not modelled.
\<close>

named_theorems str_norm \<open>normal forms of the string operations\<close>

section \<open>Go strings\<close>

type_synonym gostring = string

definition is_space :: "char \<Rightarrow> bool" where
  "is_space c \<longleftrightarrow> (of_char c :: nat) \<in> {9, 10, 11, 12, 13, 32}"

definition trim_left :: "string \<Rightarrow> string" where
  "trim_left s = dropWhile is_space s"

definition trim_right :: "string \<Rightarrow> string" where
  "trim_right s = rev (dropWhile is_space (rev s))"

text \<open>\<open>strings.TrimSpace\<close>.\<close>

definition trim_space :: "string \<Rightarrow> string" where
  "trim_space s = trim_right (trim_left s)"

text \<open>\<open>strings.ToLower\<close> on one byte and on a string.\<close>

definition lower_char :: "char \<Rightarrow> char" where
  "lower_char c = (let n = (of_char c :: nat) in if 65 \<le> n \<and> n \<le> 90 then char_of (n + 32) else c)"

definition to_lower :: "string \<Rightarrow> string" where
  "to_lower s = map lower_char s"

text \<open>\<open>strings.Fields\<close>: the maximal runs of bytes that are not white space.\<close>

function fields :: "string \<Rightarrow> string list" where
  "fields s =
     (case dropWhile is_space s of
        [] \<Rightarrow> []
      | c # r \<Rightarrow> (c # takeWhile (\<lambda>x. \<not> is_space x) r) # fields (dropWhile (\<lambda>x. \<not> is_space x) r))"
  by pat_completeness auto
termination
proof (relation "measure length", goal_cases)
  case 1
  show ?case by simp
next
  case (2 s c r)
  have "length (dropWhile (\<lambda>x. \<not> is_space x) r) \<le> length r" by (rule length_dropWhile_le)
  also have "\<dots> < length (c # r)" by simp
  also have "\<dots> \<le> length s" using length_dropWhile_le [of is_space s] 2 by simp
  finally show ?case by simp
qed

declare fields.simps [simp del]

text \<open>\<open>strings.Join\<close>, \<open>strings.HasPrefix\<close>, \<open>strings.Contains\<close> and \<open>strings.Split\<close> at a byte.\<close>

fun join_with :: "string \<Rightarrow> string list \<Rightarrow> string" where
  "join_with sep [] = []"
| "join_with sep [x] = x"
| "join_with sep (x # y # xs) = x @ sep @ join_with sep (y # xs)"

definition has_prefix :: "string \<Rightarrow> string \<Rightarrow> bool" where
  "has_prefix s p \<longleftrightarrow> take (length p) s = p"

fun str_contains :: "string \<Rightarrow> string \<Rightarrow> bool" where
  "str_contains [] sub \<longleftrightarrow> sub = []"
| "str_contains (c # s) sub \<longleftrightarrow> has_prefix (c # s) sub \<or> str_contains s sub"

fun split_at :: "char \<Rightarrow> string \<Rightarrow> string list" where
  "split_at d [] = [[]]"
| "split_at d (c # s) =
     (if c = d then [] # split_at d s
      else (case split_at d s of [] \<Rightarrow> [[c]] | w # ws \<Rightarrow> (c # w) # ws))"

text \<open>\<open>strings.Join(strings.Fields(strings.TrimSpace(s)), \<dots>)\<close> with one blank, the program's
  usual way to normalise white space.\<close>

definition collapse :: "string \<Rightarrow> string" where
  "collapse s = join_with '' '' (fields (trim_space s))"

subsection \<open>Trimming and lower case\<close>

lemma trim_left_idem [simp]: "trim_left (trim_left s) = trim_left s"
  by (simp add: trim_left_def)

lemma trim_right_idem [simp]: "trim_right (trim_right s) = trim_right s"
  by (simp add: trim_right_def)

lemma trim_right_Nil_iff: "trim_right s = [] \<longleftrightarrow> (\<forall>c \<in> set s. is_space c)"
  by (simp add: trim_right_def)

lemma trim_right_Cons: "\<not> is_space c \<Longrightarrow> trim_right (c # s) = c # trim_right s"
  by (simp add: trim_right_def dropWhile_append)

lemma trim_left_trim_right:
  "trim_left (trim_right (trim_left s)) = trim_right (trim_left s)"
proof (cases "trim_left s")
  case Nil
  show ?thesis unfolding Nil by (simp add: trim_left_def trim_right_def)
next
  case (Cons c r)
  then have "\<not> is_space c"
    unfolding trim_left_def using hd_dropWhile [of is_space s] by force
  then show ?thesis
    using Cons by (simp add: trim_right_Cons) (simp add: trim_left_def)
qed

lemma trim_space_idem [simp, str_norm]: "trim_space (trim_space s) = trim_space s"
  by (simp add: trim_space_def trim_left_trim_right)

lemma trim_space_Nil [simp, str_norm]: "trim_space [] = []"
  by (simp add: trim_space_def trim_left_def trim_right_def)

lemma trim_space_eq_Nil_iff: "trim_space s = [] \<longleftrightarrow> (\<forall>c \<in> set s. is_space c)"
proof -
  have "trim_space s = [] \<longleftrightarrow> (\<forall>c \<in> set (trim_left s). is_space c)"
    by (simp add: trim_space_def trim_right_Nil_iff)
  also have "\<dots> \<longleftrightarrow> (\<forall>c \<in> set s. is_space c)"
    by (metis (full_types) dropWhile_eq_Nil_conv hd_dropWhile hd_in_set set_dropWhileD trim_left_def)
  finally show ?thesis .
qed

lemma trim_space_id:
  assumes "s \<noteq> []" "\<not> is_space (hd s)" "\<not> is_space (last s)"
  shows "trim_space s = s"
proof -
  have "trim_left s = s"
    using assms(1,2) by (cases s) (simp_all add: trim_left_def)
  moreover have "trim_right s = s"
    using assms(1,3) by (cases s rule: rev_cases) (simp_all add: trim_right_def)
  ultimately show ?thesis by (simp add: trim_space_def)
qed

lemma lower_char_idem [simp]: "lower_char (lower_char c) = lower_char c"
proof -
  have "(of_char c :: nat) < 256" by (metis of_char_of of_char_mod_256 mod_less_divisor zero_less_numeral)
  then show ?thesis by (simp add: lower_char_def Let_def of_char_of)
qed

lemma to_lower_idem [simp, str_norm]: "to_lower (to_lower s) = to_lower s"
  by (simp add: to_lower_def)

lemma to_lower_Nil_iff [simp]: "to_lower s = [] \<longleftrightarrow> s = []"
  by (simp add: to_lower_def)

lemma length_to_lower [simp]: "length (to_lower s) = length s"
  by (simp add: to_lower_def)

lemma is_space_lower_char [simp]: "is_space (lower_char c) = is_space c"
  by (auto simp: is_space_def lower_char_def Let_def of_char_of)

lemma dropWhile_map_lower:
  "dropWhile is_space (map lower_char s) = map lower_char (dropWhile is_space s)"
  by (induction s) simp_all

lemma takeWhile_map_lower:
  "takeWhile (\<lambda>x. \<not> is_space x) (map lower_char s) = map lower_char (takeWhile (\<lambda>x. \<not> is_space x) s)"
  by (induction s) simp_all

lemma dropWhile_map_lower_not:
  "dropWhile (\<lambda>x. \<not> is_space x) (map lower_char s) = map lower_char (dropWhile (\<lambda>x. \<not> is_space x) s)"
  by (induction s) simp_all

lemma trim_space_to_lower [str_norm]: "trim_space (to_lower s) = to_lower (trim_space s)"
  by (simp add: trim_space_def trim_left_def trim_right_def to_lower_def dropWhile_map_lower
      rev_map)

subsection \<open>Fields and white space normalisation\<close>

lemma fields_Nil [simp]: "fields [] = []"
  by (simp add: fields.simps)

lemma fields_space_Cons: "is_space c \<Longrightarrow> fields (c # s) = fields s"
  by (subst fields.simps, subst (2) fields.simps) simp

lemma fields_word_Cons:
  "\<not> is_space c \<Longrightarrow>
   fields (c # s) = (c # takeWhile (\<lambda>x. \<not> is_space x) s) # fields (dropWhile (\<lambda>x. \<not> is_space x) s)"
  by (subst fields.simps) simp

definition word :: "string \<Rightarrow> bool" where
  "word w \<longleftrightarrow> w \<noteq> [] \<and> (\<forall>c \<in> set w. \<not> is_space c)"

lemma trim_space_word: "word w \<Longrightarrow> trim_space w = w"
  by (rule trim_space_id) (auto simp: word_def)

lemma fields_words: "w \<in> set (fields s) \<Longrightarrow> word w"
proof (induction s rule: fields.induct)
  case (1 s)
  show ?case
  proof (cases "dropWhile is_space s")
    case Nil
    with 1(2) show ?thesis by (subst (asm) fields.simps) simp
  next
    case (Cons c r)
    then have c: "\<not> is_space c" using hd_dropWhile [of is_space s] by force
    from 1(2) Cons consider
        "w = c # takeWhile (\<lambda>x. \<not> is_space x) r"
      | "w \<in> set (fields (dropWhile (\<lambda>x. \<not> is_space x) r))"
      by (subst (asm) fields.simps) auto
    then show ?thesis
    proof cases
      case 1
      with c show ?thesis by (auto simp: word_def dest: set_takeWhileD)
    next
      case 2
      with Cons show ?thesis by (rule "1.IH")
    qed
  qed
qed

lemma fields_word_append:
  assumes "word w" "s = [] \<or> is_space (hd s)"
  shows "fields (w @ s) = w # fields s"
proof -
  obtain c r where w: "w = c # r" and c: "\<not> is_space c" and r: "\<forall>x \<in> set r. \<not> is_space x"
    using assms(1) by (cases w) (auto simp: word_def)
  have t: "takeWhile (\<lambda>x. \<not> is_space x) s = []" and d: "dropWhile (\<lambda>x. \<not> is_space x) s = s"
    using assms(2) by (cases s; simp)+
  have "takeWhile (\<lambda>x. \<not> is_space x) (r @ s) = r @ takeWhile (\<lambda>x. \<not> is_space x) s"
    using r by (intro takeWhile_append2) simp
  moreover have "dropWhile (\<lambda>x. \<not> is_space x) (r @ s) = dropWhile (\<lambda>x. \<not> is_space x) s"
    using r by (intro dropWhile_append2) simp
  ultimately show ?thesis
    using c t d by (simp add: w fields_word_Cons)
qed

lemma is_space_blank [simp]: "is_space (CHR '' '')"
  by (simp add: is_space_def)

lemma fields_join:
  "(\<And>w. w \<in> set ws \<Longrightarrow> word w) \<Longrightarrow> fields (join_with '' '' ws) = ws"
proof (induction "'' ''" ws rule: join_with.induct)
  case 1
  then show ?case by simp
next
  case (2 x)
  then have "fields (x @ []) = x # fields []" by (intro fields_word_append) auto
  then show ?case by simp
next
  case (3 x y xs)
  have "fields (x @ (CHR '' '' # join_with '' '' (y # xs)))
      = x # fields (CHR '' '' # join_with '' '' (y # xs))"
    using 3(2) by (intro fields_word_append) auto
  also have "\<dots> = x # fields (join_with '' '' (y # xs))"
    by (simp add: fields_space_Cons)
  finally show ?case using 3 by simp
qed

lemma hd_join: "ws \<noteq> [] \<Longrightarrow> hd ws \<noteq> [] \<Longrightarrow> hd (join_with sep ws) = hd (hd ws)"
  by (cases "(sep, ws)" rule: join_with.cases) auto

lemma join_eq_Nil: "(\<And>w. w \<in> set ws \<Longrightarrow> w \<noteq> []) \<Longrightarrow> join_with sep ws = [] \<longleftrightarrow> ws = []"
  by (cases "(sep, ws)" rule: join_with.cases) auto

lemma last_join:
  "ws \<noteq> [] \<Longrightarrow> (\<And>w. w \<in> set ws \<Longrightarrow> w \<noteq> []) \<Longrightarrow> last (join_with sep ws) = last (last ws)"
proof (induction sep ws rule: join_with.induct)
  case (3 sep x y xs)
  have "join_with sep (y # xs) \<noteq> []" using 3(3) by (subst join_eq_Nil) auto
  then show ?case using 3 by simp
qed simp_all

lemma trim_space_join:
  assumes "\<And>w. w \<in> set ws \<Longrightarrow> word w"
  shows "trim_space (join_with '' '' ws) = join_with '' '' ws"
proof (cases "ws = []")
  case True
  then show ?thesis by simp
next
  case False
  have ne: "\<And>w. w \<in> set ws \<Longrightarrow> w \<noteq> []" using assms by (auto simp: word_def)
  have "hd ws \<in> set ws" "last ws \<in> set ws" using False by simp_all
  then have "\<not> is_space (hd (hd ws))" "\<not> is_space (last (last ws))"
    using assms by (auto simp: word_def)
  moreover have "hd ws \<noteq> []" using ne False by simp
  ultimately show ?thesis
    using False by (intro trim_space_id) (simp_all add: hd_join last_join ne join_eq_Nil)
qed

lemma collapse_idem [simp, str_norm]: "collapse (collapse s) = collapse s"
  by (simp add: collapse_def trim_space_join fields_words fields_join)

lemma trim_collapse [simp, str_norm]: "trim_space (collapse s) = collapse s"
  by (simp add: collapse_def trim_space_join fields_words)

lemma fields_to_lower: "fields (map lower_char s) = map (map lower_char) (fields s)"
proof (induction s rule: fields.induct)
  case (1 s)
  show ?case
  proof (cases "dropWhile is_space s")
    case Nil
    then show ?thesis
      by (subst fields.simps, subst (2) fields.simps)
         (simp add: dropWhile_map_lower del: dropWhile_eq_Nil_conv)
  next
    case (Cons c r)
    then show ?thesis using 1 [OF Cons]
      by (subst fields.simps, subst (2) fields.simps)
         (simp add: dropWhile_map_lower takeWhile_map_lower dropWhile_map_lower_not)
  qed
qed

lemma join_map_lower: "join_with '' '' (map (map lower_char) ws) = map lower_char (join_with '' '' ws)"
  by (induction "'' ''" ws rule: join_with.induct) (simp_all add: lower_char_def Let_def)

lemma collapse_to_lower [str_norm]: "collapse (to_lower s) = to_lower (collapse s)"
  using trim_space_to_lower [of s]
  by (simp add: collapse_def to_lower_def fields_to_lower join_map_lower)

text \<open>Words are split independently at blanks, also after a map that turns more characters into blanks.\<close>

lemma fields_spaces: "\<forall>c \<in> set a. is_space c \<Longrightarrow> fields (a @ b) = fields b"
  by (induction a) (simp_all add: fields_space_Cons)

lemma fields_append: "b = [] \<or> is_space (hd b) \<Longrightarrow> fields (a @ b) = fields a @ fields b"
proof (induction a rule: fields.induct)
  case (1 s)
  show ?case
  proof (cases "dropWhile is_space s")
    case Nil
    then have sp: "\<forall>c \<in> set s. is_space c" by simp
    then show ?thesis using fields_spaces [OF sp, of b] fields_spaces [OF sp, of "[]"] by simp
  next
    case (Cons c r)
    let ?ns = "\<lambda>x. \<not> is_space x"
    have c: "\<not> is_space c" using Cons hd_dropWhile [of is_space s] by force
    obtain p where s: "s = p @ c # r" and sp: "\<forall>x \<in> set p. is_space x"
      using Cons takeWhile_dropWhile_id [of is_space s] set_takeWhileD by metis
    have tl: "takeWhile ?ns (r @ b) = takeWhile ?ns r \<and> dropWhile ?ns (r @ b) = dropWhile ?ns r @ b"
    proof (cases "\<exists>x \<in> set r. is_space x")
      case True
      then show ?thesis by (auto simp: takeWhile_append1 dropWhile_append1)
    next
      case False
      then have "takeWhile ?ns (r @ b) = r @ takeWhile ?ns b" "dropWhile ?ns (r @ b) = dropWhile ?ns b"
        "takeWhile ?ns r = r" "dropWhile ?ns r = []"
        by (simp_all add: takeWhile_append2 dropWhile_append2 takeWhile_eq_all_conv dropWhile_eq_Nil_conv)
      moreover have "takeWhile ?ns b = []" "dropWhile ?ns b = b" using "1.prems" by (cases b; simp)+
      ultimately show ?thesis by (metis append_Nil append_Nil2)
    qed
    have "fields (s @ b) = fields (c # (r @ b))" using fields_spaces [OF sp, of "c # r @ b"] by (simp add: s)
    also have "\<dots> = (c # takeWhile ?ns r) # fields (dropWhile ?ns r @ b)" using c by (simp add: fields_word_Cons tl)
    also have "\<dots> = (c # takeWhile ?ns r) # fields (dropWhile ?ns r) @ fields b" using "1.IH" [OF Cons "1.prems"] by simp
    also have "\<dots> = fields s @ fields b" using c fields_spaces [OF sp, of "c # r"] by (simp add: s fields_word_Cons)
    finally show ?thesis .
  qed
qed

lemma fields_map_blank:
  assumes d: "\<And>c. is_space c \<Longrightarrow> is_space (d c)"
  shows "fields (map d s) = concat (map (\<lambda>w. fields (map d w)) (fields s))"
proof (induction s rule: fields.induct)
  case (1 s)
  show ?case
  proof (cases "dropWhile is_space s")
    case Nil
    then have "\<forall>c \<in> set s. is_space c" by simp
    then have "fields (map d s) = []" "fields s = []"
      using fields_spaces [of "map d s" "[]"] fields_spaces [of s "[]"] d by auto
    then show ?thesis by simp
  next
    case (Cons c r)
    let ?ns = "\<lambda>x. \<not> is_space x"
    let ?w = "c # takeWhile ?ns r" and ?rest = "dropWhile ?ns r"
    have c: "\<not> is_space c" using Cons hd_dropWhile [of is_space s] by force
    obtain p where "s = p @ c # r" and sp: "\<forall>x \<in> set p. is_space x"
      using Cons takeWhile_dropWhile_id [of is_space s] set_takeWhileD by metis
    then have s: "s = p @ ?w @ ?rest" by simp
    have "map d ?rest = [] \<or> is_space (hd (map d ?rest))"
      using hd_dropWhile [of ?ns r] d by (cases ?rest) force+
    then have "fields (map d ?w @ map d ?rest) = fields (map d ?w) @ fields (map d ?rest)" by (rule fields_append)
    moreover have "fields (map d s) = fields (map d ?w @ map d ?rest)"
    proof -
      have "map d s = map d p @ map d ?w @ map d ?rest" using arg_cong [OF s, of "map d"] by (simp only: map_append)
      moreover have "\<forall>x \<in> set (map d p). is_space x" using sp d by auto
      ultimately show ?thesis by (simp only: fields_spaces)
    qed
    moreover have "fields s = ?w # fields ?rest"
      using c fields_spaces [OF sp, of "c # r"] by (simp add: s fields_word_Cons)
    ultimately show ?thesis using "1.IH" [OF Cons] by simp
  qed
qed

section \<open>Keep-the-first deduplication\<close>

text \<open>
  The loop \<open>for \<dots> { if _, ok := seen[x]; ok { continue }; seen[x] = \<dots>; out = append(out, x) }\<close>.
\<close>

fun uniq_from :: "'a list \<Rightarrow> 'a list \<Rightarrow> 'a list" where
  "uniq_from seen [] = []"
| "uniq_from seen (x # xs) =
     (if x \<in> set seen then uniq_from seen xs else x # uniq_from (x # seen) xs)"

abbreviation uniq :: "'a list \<Rightarrow> 'a list" where
  "uniq xs \<equiv> uniq_from [] xs"

lemma set_uniq_from [simp]: "set (uniq_from seen xs) = set xs - set seen"
  by (induction xs arbitrary: seen) auto

lemma distinct_uniq_from [simp]: "distinct (uniq_from seen xs)"
  by (induction xs arbitrary: seen) auto

lemma uniq_from_distinct: "distinct xs \<Longrightarrow> set xs \<inter> set seen = {} \<Longrightarrow> uniq_from seen xs = xs"
  by (induction xs arbitrary: seen) auto

lemma uniq_idem [simp]: "uniq (uniq xs) = uniq xs"
  by (rule uniq_from_distinct) auto

lemma length_uniq_le: "length (uniq_from seen xs) \<le> length xs"
  by (induction xs arbitrary: seen) (auto simp: le_SucI)

lemma uniq_eq_Nil_iff [simp]: "uniq xs = [] \<longleftrightarrow> xs = []"
  by (cases xs) auto

text \<open>The variant that trims each string and drops the empty ones first.\<close>

definition uniq_trimmed :: "string list \<Rightarrow> string list" where
  "uniq_trimmed xs = uniq (filter (\<lambda>s. s \<noteq> []) (map trim_space xs))"

lemma distinct_uniq_trimmed [simp]: "distinct (uniq_trimmed xs)"
  by (simp add: uniq_trimmed_def)

lemma set_uniq_trimmed: "set (uniq_trimmed xs) = {s \<in> trim_space ` set xs. s \<noteq> []}"
  by (auto simp: uniq_trimmed_def)

lemma uniq_trimmed_idem [simp]: "uniq_trimmed (uniq_trimmed xs) = uniq_trimmed xs"
proof -
  have "map trim_space (uniq_trimmed xs) = uniq_trimmed xs"
    by (rule map_idI) (auto simp: set_uniq_trimmed)
  moreover have "filter (\<lambda>s. s \<noteq> []) (uniq_trimmed xs) = uniq_trimmed xs"
    by (rule filter_True) (auto simp: set_uniq_trimmed)
  ultimately show ?thesis
    by (subst uniq_trimmed_def) (simp add: uniq_from_distinct)
qed

text \<open>The loop that compares a key of each element.\<close>

fun uniq_on :: "('a \<Rightarrow> 'k) \<Rightarrow> 'k list \<Rightarrow> 'a list \<Rightarrow> 'a list" where
  "uniq_on key seen [] = []"
| "uniq_on key seen (x # xs) =
     (if key x \<in> set seen then uniq_on key seen xs else x # uniq_on key (key x # seen) xs)"

lemma uniq_on_spec:
  "distinct (map key (uniq_on key seen xs)) \<and> key ` set (uniq_on key seen xs) = key ` set xs - set seen \<and>
   set (uniq_on key seen xs) \<subseteq> set xs"
proof (induction xs arbitrary: seen)
  case (Cons x xs)
  show ?case
  proof (cases "key x \<in> set seen")
    case True
    with Cons.IH [of seen] show ?thesis by simp blast
  next
    case False
    have "key x \<notin> key ` set (uniq_on key (key x # seen) xs)" using Cons.IH [of "key x # seen"] by simp
    with False Cons.IH [of "key x # seen"] show ?thesis by simp blast
  qed
qed simp

lemma distinct_uniq_on: "distinct (map key (uniq_on key seen xs))"
  and keys_uniq_on: "key ` set (uniq_on key [] xs) = key ` set xs"
  and set_uniq_on: "set (uniq_on key seen xs) \<subseteq> set xs"
  using uniq_on_spec [of key seen xs] uniq_on_spec [of key "[]" xs] by auto

lemma uniq_on_eq_Nil_iff [simp]: "uniq_on key [] xs = [] \<longleftrightarrow> xs = []"
  by (cases xs) auto

section \<open>Go's 64-bit integers\<close>

text \<open>Go's \<open>int\<close> and \<open>int64\<close> arithmetic wraps at 64 bits; \<open>wrap64\<close> is the value an exact
  result is reduced to.\<close>

definition wrap64 :: "int \<Rightarrow> int" where
  "wrap64 n = (n + 2 ^ 63) mod 2 ^ 64 - 2 ^ 63"

definition in_int64 :: "int \<Rightarrow> bool" where
  "in_int64 n \<longleftrightarrow> - (2 ^ 63) \<le> n \<and> n < 2 ^ 63"

lemma wrap64_id: "in_int64 n \<Longrightarrow> wrap64 n = n"
  by (simp add: in_int64_def wrap64_def)

lemma wrap64_in: "in_int64 (wrap64 n)"
  by (auto simp: in_int64_def wrap64_def)

section \<open>Ordering by a key\<close>

lemma sort_key_min:
  assumes "x \<in> set (take n (sort_key f xs))" "y \<in> set xs" "y \<notin> set (take n (sort_key f xs))"
  shows "f x \<le> f y"
proof -
  let ?s = "sort_key f xs"
  have "sorted (map f (take n ?s @ drop n ?s))" by simp
  then have le: "\<forall>a \<in> set (take n ?s). \<forall>b \<in> set (drop n ?s). f a \<le> f b"
    by (simp only: map_append sorted_append) auto
  have "y \<in> set (take n ?s) \<union> set (drop n ?s)"
    using assms(2) by (metis append_take_drop_id set_append set_sort)
  then show ?thesis using assms le by auto
qed

end
