(* ===== verification/World.thy ===== *)
theory World
  imports Prelude "HOL-Library.Word"
begin

text \<open>
  Effects. An operation of the program is an action: it maps a world to a result (an error or a
  value) and the next world. A world holds the database tables (of any type) and what the
  environment decides: whether the n-th effect fails (a driver error, a cancelled context, a full
  disk), what the n-th reading of the clock returns, and the n-th draw of random bytes. Nothing is
  assumed about these three oracles. A transaction restores the tables when its body or its commit
  fails, which is what \<open>BeginTx\<close>/\<open>Commit\<close>/\<open>Rollback\<close> give.
\<close>

named_theorems act_success \<open>what a successful run of an action implies\<close>
named_theorems act_env \<open>actions that leave the fault oracle alone\<close>
named_theorems act_keeps \<open>preservation of table predicates by actions\<close>

section \<open>Errors\<close>

text \<open>The sentinel errors of \<open>domain/errors.go\<close>, a violated SQL constraint, any other driver
  error, and errors made with \<open>errors.New\<close> or \<open>fmt.Errorf\<close>. Wrapping with \<open>%w\<close> keeps the
  wrapped error, so it is not represented.\<close>

datatype err =
    ErrNotFound | ErrInvalidInput | ErrUnauthorized | ErrTenantMismatch
  | ErrConstraint | ErrDriver | ErrMsg string

section \<open>Time\<close>

text \<open>A \<open>time.Time\<close> is its number of nanoseconds since the Unix epoch; the zero time is the first
  instant of the year 1. A \<open>time.Duration\<close> is a number of nanoseconds.\<close>

type_synonym gotime = int

definition zero_time :: gotime where
  "zero_time = - 62135596800 * 10 ^ 9"

definition is_zero :: "gotime \<Rightarrow> bool" where
  "is_zero t \<longleftrightarrow> t = zero_time"

abbreviation (input) millisecond :: int where "millisecond \<equiv> 10 ^ 6"
abbreviation (input) second :: int where "second \<equiv> 10 ^ 9"

section \<open>Worlds and actions\<close>

record 't world =
  tabs :: 't
  steps :: nat
  faulty :: "nat \<Rightarrow> bool"
  clock :: "nat \<Rightarrow> gotime"
  entropy :: "nat \<Rightarrow> 8 word list"

type_synonym ('t, 'a) act = "'t world \<Rightarrow> (err + 'a) \<times> 't world"

definition return_act :: "'a \<Rightarrow> ('t, 'a) act" where
  "return_act x w = (Inr x, w)"

definition fail_act :: "err \<Rightarrow> ('t, 'a) act" where
  "fail_act e w = (Inl e, w)"

definition bind_act :: "('t, 'a) act \<Rightarrow> ('a \<Rightarrow> ('t, 'b) act) \<Rightarrow> ('t, 'b) act" where
  "bind_act m f w = (case m w of (Inl e, w1) \<Rightarrow> (Inl e, w1) | (Inr x, w1) \<Rightarrow> f x w1)"

text \<open>Run an action and hand its result to the continuation, error or not.\<close>

definition try_act :: "('t, 'a) act \<Rightarrow> (err + 'a \<Rightarrow> ('t, 'b) act) \<Rightarrow> ('t, 'b) act" where
  "try_act m f w = (case m w of (r, w1) \<Rightarrow> f r w1)"

text \<open>\<open>_ = op()\<close>, or a helper that only logs its error.\<close>

definition ignore_act :: "('t, 'a) act \<Rightarrow> ('t, unit) act" where
  "ignore_act m = try_act m (\<lambda>_. return_act ())"

definition tick :: "'t world \<Rightarrow> 't world" where
  "tick w = w\<lparr>steps := steps w + 1\<rparr>"

text \<open>One SQL statement: it may fail for an external reason; otherwise it runs on the tables.\<close>

definition exec :: "('t \<Rightarrow> err + ('a \<times> 't)) \<Rightarrow> ('t, 'a) act" where
  "exec f w =
     (if faulty w (steps w) then (Inl ErrDriver, tick w)
      else (case f (tabs w) of
              Inl e \<Rightarrow> (Inl e, tick w)
            | Inr (x, t) \<Rightarrow> (Inr x, tick w\<lparr>tabs := t\<rparr>)))"

text \<open>A statement that only reads.\<close>

definition query :: "('t \<Rightarrow> 'a) \<Rightarrow> ('t, 'a) act" where
  "query f = exec (\<lambda>t. Inr (f t, t))"

definition now_act :: "('t, gotime) act" where
  "now_act w = (Inr (clock w (steps w)), tick w)"

definition random_act :: "('t, 8 word list) act" where
  "random_act w = (Inr (entropy w (steps w)), tick w)"

text \<open>A transaction whose body says whether it reached \<open>Commit\<close> or returned early, leaving the
  deferred rollback to undo it.\<close>

definition in_tx_if :: "('t, bool \<times> 'a) act \<Rightarrow> ('t, 'a) act" where
  "in_tx_if m w =
     (if faulty w (steps w) then (Inl ErrDriver, tick w)
      else (case m (tick w) of
              (Inl e, w1) \<Rightarrow> (Inl e, w1\<lparr>tabs := tabs w\<rparr>)
            | (Inr (False, x), w1) \<Rightarrow> (Inr x, w1\<lparr>tabs := tabs w\<rparr>)
            | (Inr (True, x), w1) \<Rightarrow>
                if faulty w1 (steps w1) then (Inl ErrDriver, tick w1\<lparr>tabs := tabs w\<rparr>)
                else (Inr x, tick w1)))"

definition in_tx :: "('t, 'a) act \<Rightarrow> ('t, 'a) act" where
  "in_tx m = in_tx_if (bind_act m (\<lambda>x. return_act (True, x)))"

text \<open>\<open>for i, x := range xs\<close> with an early return on error, collecting the results.\<close>

fun map_act :: "('a \<Rightarrow> ('t, 'b) act) \<Rightarrow> 'a list \<Rightarrow> ('t, 'b list) act" where
  "map_act f [] = return_act []"
| "map_act f (x # xs) =
     bind_act (f x) (\<lambda>y. bind_act (map_act f xs) (\<lambda>ys. return_act (y # ys)))"

fun fold_act :: "('a \<Rightarrow> 's \<Rightarrow> ('t, 's) act) \<Rightarrow> 'a list \<Rightarrow> 's \<Rightarrow> ('t, 's) act" where
  "fold_act f [] s = return_act s"
| "fold_act f (x # xs) s = bind_act (f x s) (fold_act f xs)"

section \<open>Identifiers\<close>

definition hex_digit :: "nat \<Rightarrow> char" where
  "hex_digit n = (if n < 10 then char_of (48 + n) else char_of (87 + n))"

text \<open>\<open>hex.EncodeToString\<close> and \<open>newID\<close>.\<close>

definition hex_encode :: "8 word list \<Rightarrow> string" where
  "hex_encode bs = concat (map (\<lambda>b. [hex_digit (unat b div 16), hex_digit (unat b mod 16)]) bs)"

definition new_id :: "string \<Rightarrow> ('t, string) act" where
  "new_id p = bind_act random_act (\<lambda>raw. return_act (p @ ''_'' @ hex_encode raw))"

lemma hex_digit_inj: "m < 16 \<Longrightarrow> n < 16 \<Longrightarrow> hex_digit m = hex_digit n \<Longrightarrow> m = n"
proof -
  assume m: "m < 16" and n: "n < 16" and eq: "hex_digit m = hex_digit n"
  have code: "(of_char (hex_digit k) :: nat) = (if k < 10 then 48 + k else 87 + k)" if "k < 16" for k
    using that unfolding hex_digit_def by (cases "k < 10") (simp_all add: of_char_of)
  have "(if m < 10 then 48 + m else 87 + m) = (if n < 10 then 48 + n else 87 + n)"
    using code [OF m] code [OF n] eq by metis
  with m n show "m = n" by presburger
qed

lemma hex_encode_inj: "length as = length bs \<Longrightarrow> hex_encode as = hex_encode bs \<Longrightarrow> as = bs"
proof (induction as bs rule: list_induct2)
  case Nil
  then show ?case by simp
next
  case (Cons a as b bs)
  have lt: "unat x div 16 < 16" for x :: "8 word"
    using unsigned_less [of x, where 'a = nat] by (simp add: div_less_dividend less_mult_imp_div_less)
  have "hex_digit (unat a div 16) = hex_digit (unat b div 16)"
    "hex_digit (unat a mod 16) = hex_digit (unat b mod 16)"
    "hex_encode as = hex_encode bs"
    using Cons.prems by (simp_all add: hex_encode_def)
  then have "unat a div 16 = unat b div 16" "unat a mod 16 = unat b mod 16"
    using lt by (simp_all add: hex_digit_inj)
  then have "unat a = unat b" by (metis div_mult_mod_eq)
  then have "a = b" by (simp add: word_unat_eq_iff)
  with Cons.IH \<open>hex_encode as = hex_encode bs\<close> show ?case by simp
qed

section \<open>Running actions\<close>

lemma tick_simps [simp]:
  "tabs (tick w) = tabs w" "faulty (tick w) = faulty w" "clock (tick w) = clock w"
  "entropy (tick w) = entropy w" "steps (tick w) = steps w + 1"
  by (simp_all add: tick_def)

lemma return_act_success [act_success]:
  "return_act x w = (Inr y, w') \<longleftrightarrow> y = x \<and> w' = w"
  by (auto simp: return_act_def)

lemma fail_act_success [act_success]: "fail_act e w = (Inr y, w') \<longleftrightarrow> False"
  by (simp add: fail_act_def)

lemma bind_return [simp]: "bind_act (return_act x) f = f x"
  by (simp add: fun_eq_iff bind_act_def return_act_def)

lemma bind_act_success [act_success]:
  "bind_act m f w = (Inr y, w') \<longleftrightarrow> (\<exists>x w1. m w = (Inr x, w1) \<and> f x w1 = (Inr y, w'))"
  by (auto simp: bind_act_def split: prod.splits sum.splits)

lemma ignore_act_success [act_success]:
  "ignore_act m w = (Inr u, w') \<longleftrightarrow> w' = snd (m w)"
  by (auto simp: ignore_act_def try_act_def return_act_def split: prod.splits)

lemma exec_success:
  "exec f w = (Inr x, w') \<longleftrightarrow>
   \<not> faulty w (steps w) \<and> f (tabs w) = Inr (x, tabs w') \<and> w' = tick w\<lparr>tabs := tabs w'\<rparr>"
  by (auto simp: exec_def split: sum.splits)

lemma exec_successD: "exec f w = (Inr x, w') \<Longrightarrow> f (tabs w) = Inr (x, tabs w')"
  by (simp add: exec_success)

lemma query_success [act_success]:
  "query f w = (Inr x, w') \<longleftrightarrow> \<not> faulty w (steps w) \<and> x = f (tabs w) \<and> w' = tick w"
  by (auto simp: query_def exec_def)

lemma now_act_success [act_success]:
  "now_act w = (Inr t, w') \<longleftrightarrow> t = clock w (steps w) \<and> w' = tick w"
  by (auto simp: now_act_def)

lemma random_act_success [act_success]:
  "random_act w = (Inr t, w') \<longleftrightarrow> t = entropy w (steps w) \<and> w' = tick w"
  by (auto simp: random_act_def)

lemma new_id_success [act_success]:
  "new_id p w = (Inr i, w') \<longleftrightarrow> i = p @ ''_'' @ hex_encode (entropy w (steps w)) \<and> w' = tick w"
  by (auto simp: new_id_def act_success)

lemma in_tx_if_run:
  assumes "\<not> faulty w (steps w)" "m (tick w) = (Inr (b, y), w1)"
  shows "in_tx_if m w =
    (if b then if faulty w1 (steps w1) then (Inl ErrDriver, tick w1\<lparr>tabs := tabs w\<rparr>) else (Inr y, tick w1)
     else (Inr y, w1\<lparr>tabs := tabs w\<rparr>))"
  using assms unfolding in_tx_if_def by (cases b) simp_all

lemma in_tx_if_success:
  assumes "in_tx_if m w = (Inr x, w')"
  shows "\<exists>b w1. m (tick w) = (Inr (b, x), w1) \<and> tabs w' = (if b then tabs w1 else tabs w)"
proof (cases "faulty w (steps w)")
  case True
  with assms show ?thesis by (simp add: in_tx_if_def)
next
  case False
  obtain r w1 where m: "m (tick w) = (r, w1)" by (cases "m (tick w)")
  show ?thesis
  proof (cases r)
    case (Inl e)
    with False m assms show ?thesis unfolding in_tx_if_def by simp
  next
    case (Inr p)
    obtain b y where p: "p = (b, y)" by (cases p)
    have run: "in_tx_if m w =
      (if b then if faulty w1 (steps w1) then (Inl ErrDriver, tick w1\<lparr>tabs := tabs w\<rparr>) else (Inr y, tick w1)
       else (Inr y, w1\<lparr>tabs := tabs w\<rparr>))"
      using m Inr p by (intro in_tx_if_run [OF False]) simp
    then have "y = x" and "tabs w' = (if b then tabs w1 else tabs w)"
      using assms by (simp_all split: if_splits)
    with m Inr p show ?thesis by blast
  qed
qed

lemma bind_return_True:
  "bind_act m (\<lambda>x. return_act (True, x)) w = (Inr (b, x), w1) \<longleftrightarrow> b \<and> m w = (Inr x, w1)"
  by (cases "m w"; cases "fst (m w)") (auto simp add: bind_act_def return_act_def)

lemma in_tx_success:
  assumes "in_tx m w = (Inr x, w')"
  shows "\<exists>w1. m (tick w) = (Inr x, w1) \<and> tabs w' = tabs w1"
proof -
  obtain b w1 where run: "bind_act m (\<lambda>x. return_act (True, x)) (tick w) = (Inr (b, x), w1)"
    and t: "tabs w' = (if b then tabs w1 else tabs w)"
    using in_tx_if_success [OF assms [unfolded in_tx_def]] by blast
  have "b" "m (tick w) = (Inr x, w1)" using run unfolding bind_return_True by simp_all
  with t have "m (tick w) = (Inr x, w1) \<and> tabs w' = tabs w1" by simp
  then show ?thesis ..
qed

text \<open>Atomicity: a transaction that returns an error has not changed the tables.\<close>

lemma in_tx_if_rollback: "fst (in_tx_if m w) = Inl e \<Longrightarrow> tabs (snd (in_tx_if m w)) = tabs w"
  unfolding in_tx_if_def by (simp split: if_splits prod.splits sum.splits bool.splits)

lemma in_tx_if_error: "in_tx_if m w = (Inl e, w') \<Longrightarrow> tabs w' = tabs w"
  using in_tx_if_rollback [of m w e] by simp

lemma in_tx_error: "in_tx m w = (Inl e, w') \<Longrightarrow> tabs w' = tabs w"
  unfolding in_tx_def by (rule in_tx_if_error)

lemma exec_no_effect: "fst (exec f w) = Inl e \<Longrightarrow> tabs (snd (exec f w)) = tabs w"
  unfolding exec_def by (simp split: if_splits prod.splits sum.splits)

lemma exec_error: "exec f w = (Inl e, w') \<Longrightarrow> tabs w' = tabs w"
  using exec_no_effect [of f w e] by simp

text \<open>Elimination rules for a successful run, one action at a time.\<close>

lemma bind_actE:
  assumes "bind_act m f w = (Inr y, w')"
  obtains x w1 where "m w = (Inr x, w1)" "f x w1 = (Inr y, w')"
  using assms unfolding bind_act_success by blast

lemma queryE:
  assumes "query f w = (Inr x, w')"
  shows "x = f (tabs w)" "tabs w' = tabs w" "w' = tick w"
  using assms unfolding query_success by simp_all

lemma now_actE:
  assumes "now_act w = (Inr t, w')"
  shows "t = clock w (steps w)" "tabs w' = tabs w"
  using assms unfolding now_act_success by simp_all

lemma new_idE:
  assumes "new_id p w = (Inr i, w')"
  shows "i = p @ ''_'' @ hex_encode (entropy w (steps w))" "tabs w' = tabs w"
  using assms unfolding new_id_success by simp_all

lemma return_actE:
  assumes "return_act x w = (Inr y, w')"
  shows "y = x" "w' = w"
  using assms unfolding return_act_success by simp_all

text \<open>An identifier is a word: it has no white space and is not empty.\<close>

lemma hex_digit_not_space: "n < 16 \<Longrightarrow> \<not> is_space (hex_digit n)"
proof -
  assume n: "n < 16"
  then have "(of_char (hex_digit n) :: nat) = (if n < 10 then 48 + n else 87 + n)"
    unfolding hex_digit_def by (cases "n < 10") (simp_all add: of_char_of)
  then show ?thesis unfolding is_space_def by (simp split: if_splits)
qed

lemma hex_encode_not_space: "c \<in> set (hex_encode bs) \<Longrightarrow> \<not> is_space c"
proof -
  assume "c \<in> set (hex_encode bs)"
  then obtain b where "b \<in> set bs" and c: "c = hex_digit (unat b div 16) \<or> c = hex_digit (unat b mod 16)"
    by (auto simp: hex_encode_def)
  have "unat b div 16 < 16"
    using unsigned_less [of b, where 'a = nat] by (simp add: div_less_dividend less_mult_imp_div_less)
  moreover have "unat b mod 16 < 16" by simp
  ultimately show ?thesis using c hex_digit_not_space by blast
qed

lemma new_id_word: "new_id p w = (Inr i, w') \<Longrightarrow> word p \<Longrightarrow> word i"
  by (drule new_idE(1)) (auto simp: word_def is_space_def [of "CHR ''_''"] dest: hex_encode_not_space)

section \<open>Preservation\<close>

text \<open>\<open>keeps P m\<close>: whatever the outcome, \<open>m\<close> preserves the table predicate \<open>P\<close>.\<close>

definition keeps :: "('t \<Rightarrow> bool) \<Rightarrow> ('t, 'a) act \<Rightarrow> bool" where
  "keeps P m \<longleftrightarrow> (\<forall>w. P (tabs w) \<longrightarrow> P (tabs (snd (m w))))"

lemma keepsD: "keeps P m \<Longrightarrow> P (tabs w) \<Longrightarrow> P (tabs (snd (m w)))"
  by (simp add: keeps_def)

lemma keeps_run: "keeps P m \<Longrightarrow> m w = (r, w') \<Longrightarrow> P (tabs w) \<Longrightarrow> P (tabs w')"
  by (auto dest: keepsD [of P m w])

lemma keeps_return [act_keeps]: "keeps P (return_act x)"
  by (simp add: keeps_def return_act_def)

lemma keeps_fail [act_keeps]: "keeps P (fail_act e)"
  by (simp add: keeps_def fail_act_def)

lemma keeps_now [act_keeps]: "keeps P now_act"
  by (simp add: keeps_def now_act_def)

lemma keeps_new_id [act_keeps]: "keeps P (new_id p)"
  by (simp add: keeps_def new_id_def random_act_def bind_act_def return_act_def)

lemma keeps_query [act_keeps]: "keeps P (query f)"
  by (simp add: keeps_def query_def exec_def)

lemma keeps_bind:
  "keeps P m \<Longrightarrow> (\<And>x. keeps P (f x)) \<Longrightarrow> keeps P (bind_act m f)"
  by (auto simp: keeps_def bind_act_def split: prod.splits sum.splits)

text \<open>The same rule when the continuation needs to know what the first action returned.\<close>

lemma keeps_bind_result [act_keeps]:
  fixes m :: "('t, 'a) act"
  assumes "keeps P m" "\<And>x w w1. m w = (Inr x, w1) \<Longrightarrow> keeps P (f x)"
  shows "keeps P (bind_act m f)"
  unfolding keeps_def
proof (intro allI impI)
  fix w :: "'t world"
  assume P: "P (tabs w)"
  obtain r w1 where m: "m w = (r, w1)" by (cases "m w")
  then have P1: "P (tabs w1)" using keepsD [OF assms(1) P] by simp
  show "P (tabs (snd (bind_act m f w)))"
  proof (cases r)
    case (Inl e)
    with m P1 show ?thesis by (simp add: bind_act_def)
  next
    case (Inr x)
    with m have "bind_act m f w = f x w1" by (simp add: bind_act_def)
    with keepsD [OF assms(2) P1] m Inr show ?thesis by simp
  qed
qed

lemma keeps_try [act_keeps]:
  "keeps P m \<Longrightarrow> (\<And>r. keeps P (f r)) \<Longrightarrow> keeps P (try_act m f)"
  by (auto simp: keeps_def try_act_def split: prod.splits)

lemma keeps_ignore [act_keeps]: "keeps P m \<Longrightarrow> keeps P (ignore_act m)"
  unfolding ignore_act_def by (intro act_keeps)

lemma keeps_exec:
  "(\<And>t x t'. P t \<Longrightarrow> f t = Inr (x, t') \<Longrightarrow> P t') \<Longrightarrow> keeps P (exec f)"
  by (auto simp: keeps_def exec_def split: sum.splits)

lemma keeps_if [act_keeps]:
  "(b \<Longrightarrow> keeps P m) \<Longrightarrow> (\<not> b \<Longrightarrow> keeps P n) \<Longrightarrow> keeps P (if b then m else n)"
  by simp

lemma keeps_in_tx_if [act_keeps]:
  fixes m :: "('t, bool \<times> 'a) act"
  assumes "keeps P m"
  shows "keeps P (in_tx_if m)"
  unfolding keeps_def
proof (intro allI impI)
  fix w :: "'t world"
  assume P: "P (tabs w)"
  obtain r w1 where m: "m (tick w) = (r, w1)" by (cases "m (tick w)")
  then have "P (tabs w1)" using keepsD [OF assms, of "tick w"] P by simp
  then show "P (tabs (snd (in_tx_if m w)))"
    using P m unfolding in_tx_if_def by (simp split: sum.splits bool.splits)
qed

lemma keeps_in_tx [act_keeps]: "keeps P m \<Longrightarrow> keeps P (in_tx m)"
  unfolding in_tx_def by (intro act_keeps)

lemma keeps_map_act [act_keeps]: "(\<And>x. x \<in> set xs \<Longrightarrow> keeps P (f x)) \<Longrightarrow> keeps P (map_act f xs)"
  by (induction xs) (auto intro!: act_keeps)

lemma keeps_fold_act [act_keeps]:
  "(\<And>x s. x \<in> set xs \<Longrightarrow> keeps P (f x s)) \<Longrightarrow> keeps P (fold_act f xs s)"
  by (induction xs arbitrary: s) (auto intro!: act_keeps)

text \<open>What a successful loop did: its results are those of the single steps.\<close>

lemma map_act_length: "map_act f xs w = (Inr ys, w') \<Longrightarrow> length ys = length xs"
  by (induction xs arbitrary: ys w) (auto simp: act_success)

section \<open>Successful runs\<close>

text \<open>\<open>yields P m Q\<close>: from tables that satisfy \<open>P\<close>, a run of \<open>m\<close> that succeeds with \<open>x\<close> ends in tables
  that satisfy \<open>Q x\<close>. The rules follow the combinators, one each.\<close>

definition yields :: "('t \<Rightarrow> bool) \<Rightarrow> ('t, 'a) act \<Rightarrow> ('a \<Rightarrow> 't \<Rightarrow> bool) \<Rightarrow> bool" where
  "yields P m Q \<longleftrightarrow> (\<forall>w x w'. P (tabs w) \<longrightarrow> m w = (Inr x, w') \<longrightarrow> Q x (tabs w'))"

lemma yieldsI: "(\<And>w x w'. P (tabs w) \<Longrightarrow> m w = (Inr x, w') \<Longrightarrow> Q x (tabs w')) \<Longrightarrow> yields P m Q"
  by (simp add: yields_def)

lemma yieldsD: "yields P m Q \<Longrightarrow> m w = (Inr x, w') \<Longrightarrow> P (tabs w) \<Longrightarrow> Q x (tabs w')"
  by (simp add: yields_def)

named_theorems act_yields \<open>success rules of the combinators\<close>

lemma yields_return: "(\<And>t. P t \<Longrightarrow> Q x t) \<Longrightarrow> yields P (return_act x) Q"
  by (simp add: yields_def return_act_def)

lemma yields_fail [act_yields]: "yields P (fail_act e) Q"
  by (simp add: yields_def fail_act_def)

lemma yields_bind:
  assumes "yields P m Q" "\<And>x. yields (Q x) (f x) R"
  shows "yields P (bind_act m f) R"
proof (rule yieldsI)
  fix w x w' assume "P (tabs w)" "bind_act m f w = (Inr x, w')"
  then obtain y w1 where "m w = (Inr y, w1)" "f y w1 = (Inr x, w')" by (elim bind_actE)
  with \<open>P (tabs w)\<close> show "R x (tabs w')" using yieldsD [OF assms(1)] yieldsD [OF assms(2)] by metis
qed

lemma yields_if [act_yields]:
  "(b \<Longrightarrow> yields P m Q) \<Longrightarrow> (\<not> b \<Longrightarrow> yields P n Q) \<Longrightarrow> yields P (if b then m else n) Q"
  by simp

lemma yields_exec: "(\<And>t x t'. P t \<Longrightarrow> f t = Inr (x, t') \<Longrightarrow> Q x t') \<Longrightarrow> yields P (exec f) Q"
  by (rule yieldsI) (auto dest: exec_successD)

lemma yields_query: "(\<And>t. P t \<Longrightarrow> Q (f t) t) \<Longrightarrow> yields P (query f) Q"
  by (rule yieldsI) (simp add: query_success)

lemma yields_now: "(\<And>t n. P t \<Longrightarrow> Q n t) \<Longrightarrow> yields P now_act Q"
  by (rule yieldsI) (simp add: now_actE)

lemma yields_new_id: "word p \<Longrightarrow> (\<And>t i. P t \<Longrightarrow> word i \<Longrightarrow> Q i t) \<Longrightarrow> yields P (new_id p) Q"
  by (rule yieldsI) (simp add: new_idE(2) new_id_word)

lemma yields_in_tx: "yields P m Q \<Longrightarrow> yields P (in_tx m) Q"
proof (rule yieldsI)
  fix w x w'
  assume "yields P m Q" "P (tabs w)" "in_tx m w = (Inr x, w')"
  then show "Q x (tabs w')" using in_tx_success [of m w x w'] yieldsD by fastforce
qed

lemma yields_fold:
  "(\<And>x s. x \<in> set xs \<Longrightarrow> yields (I s) (f x s) I) \<Longrightarrow> yields (I s) (fold_act f xs s) I"
proof (induction xs arbitrary: s)
  case Nil
  then show ?case by (simp add: yields_return)
next
  case (Cons x xs)
  have "yields (I s) (f x s) I" using Cons.prems by simp
  moreover have "yields (I s') (fold_act f xs s') I" for s' using Cons by simp
  ultimately show ?case by (simp add: yields_bind)
qed

text \<open>The loop with a history: the invariant speaks of the elements done and their results.\<close>

lemma yields_map:
  assumes "\<And>done x ys. yields (I done ys) (f x) (\<lambda>y. I (done @ [x]) (ys @ [y]))"
  shows "yields (I zs ys) (map_act f xs) (\<lambda>rs. I (zs @ xs) (ys @ rs))"
proof (induction xs arbitrary: zs ys)
  case Nil
  then show ?case by (simp add: yields_return)
next
  case (Cons x xs)
  have rest: "yields (I (zs @ [x]) (ys @ [y]))
      (bind_act (map_act f xs) (\<lambda>rs. return_act (y # rs))) (\<lambda>rs. I (zs @ x # xs) (ys @ rs))" for y
    using Cons.IH [of "zs @ [x]" "ys @ [y]"] by (intro yields_bind) (auto intro: yields_return)
  show ?case
    unfolding map_act.simps by (rule yields_bind [OF assms [of zs ys x] rest])
qed

lemma yields_fold_history:
  assumes "\<And>done x s. x \<in> set xs \<Longrightarrow> yields (I done s) (f x s) (I (done @ [x]))"
  shows "yields (I zs s) (fold_act f xs s) (I (zs @ xs))"
  using assms
proof (induction xs arbitrary: zs s)
  case Nil
  then show ?case by (simp add: yields_return)
next
  case (Cons x xs)
  have first: "yields (I zs s) (f x s) (I (zs @ [x]))" using Cons.prems by simp
  have rest: "yields (I (zs @ [x]) s') (fold_act f xs s') (I (zs @ x # xs))" for s'
    using Cons.IH [of "zs @ [x]" s'] Cons.prems by simp
  show ?case unfolding fold_act.simps by (rule yields_bind [OF first rest])
qed

lemma yields_weaken:
  "yields P' m Q' \<Longrightarrow> (\<And>t. P t \<Longrightarrow> P' t) \<Longrightarrow> (\<And>x t. Q' x t \<Longrightarrow> Q x t) \<Longrightarrow> yields P m Q"
  by (fastforce simp: yields_def)

text \<open>A transaction keeps a predicate that its body restores on success, whatever the body goes
  through on the way.\<close>

lemma keeps_tx_yields: "yields P m (\<lambda>_. P) \<Longrightarrow> keeps P (in_tx m)"
proof -
  assume Y: "yields P m (\<lambda>_. P)"
  show ?thesis
    unfolding keeps_def
  proof (intro allI impI)
    fix w :: "'a world" assume P: "P (tabs w)"
    obtain r w' where run: "in_tx m w = (r, w')" by (cases "in_tx m w")
    show "P (tabs (snd (in_tx m w)))"
    proof (cases r)
      case (Inl e)
      with run P in_tx_error [of m w e w'] show ?thesis by simp
    next
      case (Inr x)
      with run P yieldsD [OF yields_in_tx [OF Y], of w x w'] show ?thesis by simp
    qed
  qed
qed

section \<open>Reads, and atomic operations\<close>

text \<open>\<open>reads m\<close>: the tables never change. \<open>atomic m\<close>: when an error is returned, they have not changed.\<close>

definition reads :: "('t, 'a) act \<Rightarrow> bool" where
  "reads m \<longleftrightarrow> (\<forall>w. tabs (snd (m w)) = tabs w)"

definition atomic :: "('t, 'a) act \<Rightarrow> bool" where
  "atomic m \<longleftrightarrow> (\<forall>w e. fst (m w) = Inl e \<longrightarrow> tabs (snd (m w)) = tabs w)"

named_theorems act_atomic \<open>atomicity and read-only rules of the combinators\<close>

lemma atomicD: "atomic m \<Longrightarrow> m w = (Inl e, w') \<Longrightarrow> tabs w' = tabs w"
  by (metis atomic_def fst_conv snd_conv)

lemma readsD: "reads m \<Longrightarrow> m w = (r, w') \<Longrightarrow> tabs w' = tabs w"
  by (metis reads_def snd_conv)

lemma reads_keeps: "reads m \<Longrightarrow> keeps P m"
  by (simp add: reads_def keeps_def)

lemma reads_basic [act_atomic]:
  "reads (return_act x)" "reads (fail_act e)" "reads now_act" "reads (query f)" "reads random_act"
  by (simp_all add: reads_def return_act_def fail_act_def now_act_def query_def exec_def random_act_def)

lemma reads_bind [act_atomic]: "reads m \<Longrightarrow> (\<And>x. reads (f x)) \<Longrightarrow> reads (bind_act m f)"
  unfolding reads_def bind_act_def by (simp split: prod.splits sum.splits) (metis snd_conv)

lemma reads_new_id [act_atomic]: "reads (new_id p)"
  unfolding new_id_def by (intro act_atomic)

lemma reads_if [act_atomic]:
  "(b \<Longrightarrow> reads m) \<Longrightarrow> (\<not> b \<Longrightarrow> reads n) \<Longrightarrow> reads (if b then m else n)" by simp

lemma atomic_reads: "reads m \<Longrightarrow> atomic m"
  by (simp add: reads_def atomic_def)

lemma atomic_exec [act_atomic]: "atomic (exec f)"
  unfolding atomic_def using exec_no_effect by blast

lemma atomic_in_tx [act_atomic]: "atomic (in_tx m)" "atomic (in_tx_if m')"
  unfolding atomic_def in_tx_def using in_tx_if_rollback by blast+

lemma atomic_bind:
  assumes "reads m" "\<And>x. atomic (f x)"
  shows "atomic (bind_act m f)"
  unfolding atomic_def
proof (intro allI impI)
  fix w e assume err: "fst (bind_act m f w) = Inl e"
  obtain r w1 where m: "m w = (r, w1)" by (cases "m w")
  then have t: "tabs w1 = tabs w" by (rule readsD [OF assms(1)])
  show "tabs (snd (bind_act m f w)) = tabs w"
  proof (cases r)
    case (Inl e')
    with m t show ?thesis by (simp add: bind_act_def)
  next
    case (Inr x)
    with m have "bind_act m f w = f x w1" by (simp add: bind_act_def)
    with err assms(2) [of x] t show ?thesis by (simp add: atomic_def)
  qed
qed

text \<open>After the last write only operations that cannot fail may follow.\<close>

lemma atomic_bind_return: "atomic m \<Longrightarrow> atomic (bind_act m (\<lambda>x. return_act (f x)))"
  unfolding atomic_def bind_act_def return_act_def
  by (simp split: prod.splits sum.splits) (metis fst_conv snd_conv)

lemma atomic_if [act_atomic]:
  "(b \<Longrightarrow> atomic m) \<Longrightarrow> (\<not> b \<Longrightarrow> atomic n) \<Longrightarrow> atomic (if b then m else n)" by simp

lemma keeps_atomic:
  fixes m :: "('t, 'a) act"
  assumes "yields P m (\<lambda>_. P)" and "atomic m"
  shows "keeps P m"
  unfolding keeps_def
proof (intro allI impI)
  fix w :: "'t world"
  assume P: "P (tabs w)"
  obtain r w' where run: "m w = (r, w')" by (cases "m w")
  show "P (tabs (snd (m w)))"
  proof (cases r)
    case (Inl e)
    with run P atomicD [OF assms(2), of w e w'] show ?thesis by simp
  next
    case (Inr x)
    with run P yieldsD [OF assms(1), of w x w'] show ?thesis by simp
  qed
qed

section \<open>Absence of faults\<close>

text \<open>A world where nothing fails, the clock gains a second per effect and the n-th draw of random
  bytes is the one byte n; used to run operations on concrete data.\<close>

definition calm_world :: "'t \<Rightarrow> 't world" where
  "calm_world t = \<lparr>tabs = t, steps = 0, faulty = (\<lambda>_. False),
     clock = (\<lambda>n. (1700000000 + int n) * second), entropy = (\<lambda>n. [of_nat n])\<rparr>"

definition fault_free :: "'t world \<Rightarrow> bool" where
  "fault_free w \<longleftrightarrow> (\<forall>n. \<not> faulty w n)"

lemma fault_free_tick [simp]: "fault_free (tick w) = fault_free w"
  by (simp add: fault_free_def)

lemma fault_free_tabs [simp]: "fault_free (w\<lparr>tabs := t\<rparr>) = fault_free w"
  by (simp add: fault_free_def)

lemma exec_fault_free:
  "fault_free w \<Longrightarrow> exec f w = (case f (tabs w) of Inl e \<Rightarrow> (Inl e, tick w)
     | Inr (x, t) \<Rightarrow> (Inr x, tick w\<lparr>tabs := t\<rparr>))"
  by (simp add: exec_def fault_free_def)

lemma query_fault_free: "fault_free w \<Longrightarrow> query f w = (Inr (f (tabs w)), tick w)"
  by (simp add: query_def exec_def fault_free_def)

text \<open>No action changes which effects fail or how the clock runs.\<close>

definition env_act :: "('t, 'a) act \<Rightarrow> bool" where
  "env_act m \<longleftrightarrow> (\<forall>w. faulty (snd (m w)) = faulty w \<and> clock (snd (m w)) = clock w)"

lemma env_basic [act_env]:
  "env_act (return_act x)" "env_act (fail_act e)" "env_act now_act" "env_act random_act" "env_act (exec f)" "env_act (query g)"
  by (simp_all add: env_act_def return_act_def fail_act_def now_act_def random_act_def exec_def query_def
      split: sum.split prod.split)

lemma env_bind [act_env]: "env_act m \<Longrightarrow> (\<And>x. env_act (f x)) \<Longrightarrow> env_act (bind_act m f)"
  unfolding env_act_def bind_act_def by (auto split: prod.split sum.split) (metis snd_conv)+

lemma env_try [act_env]: "env_act m \<Longrightarrow> (\<And>r. env_act (f r)) \<Longrightarrow> env_act (try_act m f)"
  unfolding env_act_def try_act_def by (auto split: prod.split) (metis snd_conv)+

lemma env_ignore [act_env]: "env_act m \<Longrightarrow> env_act (ignore_act m)"
  unfolding ignore_act_def by (intro act_env)

lemma env_new_id [act_env]: "env_act (new_id p)"
  unfolding new_id_def by (intro act_env)

lemma env_if [act_env]: "env_act m \<Longrightarrow> env_act n \<Longrightarrow> env_act (if b then m else n)"
  by simp

lemma env_in_tx_if: "env_act m \<Longrightarrow> env_act (in_tx_if m)"
proof -
  assume m: "env_act m"
  have "faulty (snd (in_tx_if m w)) = faulty w \<and> clock (snd (in_tx_if m w)) = clock w" for w
    using m [unfolded env_act_def, rule_format, of "tick w"] unfolding in_tx_if_def
    by (auto split: prod.split sum.split bool.split)
  then show ?thesis unfolding env_act_def by blast
qed

lemma env_in_tx [act_env]: "env_act m \<Longrightarrow> env_act (in_tx m)"
  unfolding in_tx_def by (intro env_in_tx_if act_env)

lemma env_map [act_env]: "(\<And>x. env_act (f x)) \<Longrightarrow> env_act (map_act f xs)"
  by (induction xs) (auto intro!: act_env)

lemma env_fold [act_env]: "(\<And>x s. env_act (f x s)) \<Longrightarrow> env_act (fold_act f xs s)"
  by (induction xs arbitrary: s) (auto intro!: act_env)

lemma env_run: "env_act m \<Longrightarrow> m w = (r, w') \<Longrightarrow> fault_free w' = fault_free w"
  unfolding env_act_def fault_free_def by (metis snd_conv)

lemma env_clock: "env_act m \<Longrightarrow> m w = (r, w') \<Longrightarrow> clock w' = clock w"
  unfolding env_act_def by (metis snd_conv)

end
