(* ===== verification/QueryCache.thy ===== *)
theory QueryCache
  imports World "HOL-Library.AList"
begin

text \<open>
  The query-embedding cache of the memory service (\<open>query_embedding_cache.go\<close>): a bounded
  least-recently-used cache from normalised queries to embeddings. As in the code, the state is a
  doubly linked list (\<open>qc_list\<close>, front first) whose elements carry an identity, and an index
  (\<open>qc_index\<close>, the code's \<open>byKey\<close>) from keys to list elements. The mutex makes every operation atomic. The
  abstract specification is a recency-ordered association list; the operations refine it.
\<close>

section \<open>State\<close>

type_synonym embedding = "real list"

text \<open>A \<open>*list.Element\<close> (its address is \<open>el_id\<close>) holding a \<open>queryEmbeddingCacheEntry\<close>.\<close>

record element =
  el_id :: nat
  el_key :: string
  el_embedding :: embedding

record query_cache =
  qc_capacity :: int
  qc_list :: "element list"
  qc_index :: "(string \<times> nat) list"
  qc_next :: nat

definition default_query_embedding_cache_capacity :: int where
  "default_query_embedding_cache_capacity = 4096"

text \<open>\<open>newQueryEmbeddingCache\<close>: no cache (nil) for a non-positive capacity.\<close>

definition new_query_embedding_cache :: "int \<Rightarrow> query_cache option" where
  "new_query_embedding_cache n =
     (if n \<le> 0 then None else Some \<lparr>qc_capacity = n, qc_list = [], qc_index = [], qc_next = 0\<rparr>)"

section \<open>Operations\<close>

text \<open>\<open>list.MoveToFront\<close>, \<open>list.Remove\<close> and \<open>list.Back\<close> act on an element by its identity.\<close>

definition move_to_front :: "nat \<Rightarrow> element list \<Rightarrow> element list" where
  "move_to_front i es = filter (\<lambda>e. el_id e = i) es @ filter (\<lambda>e. el_id e \<noteq> i) es"

definition element_at :: "nat \<Rightarrow> element list \<Rightarrow> element option" where
  "element_at i es = find (\<lambda>e. el_id e = i) es"

definition clone_embedding :: "embedding \<Rightarrow> embedding" where
  "clone_embedding v = (if v = [] then [] else v)"

lemma clone_embedding_eq [simp]: "clone_embedding v = v"
  by (simp add: clone_embedding_def)

definition cache_get :: "query_cache option \<Rightarrow> string \<Rightarrow> embedding option \<times> query_cache option" where
  "cache_get co k =
     (case co of
        None \<Rightarrow> (None, None)
      | Some c \<Rightarrow>
          if trim_space k = [] then (None, Some c)
          else (case map_of (qc_index c) k of
                  None \<Rightarrow> (None, Some c)
                | Some i \<Rightarrow>
                    let c' = c\<lparr>qc_list := move_to_front i (qc_list c)\<rparr>
                    in case element_at i (qc_list c) of
                         None \<Rightarrow> (None, Some c')
                       | Some e \<Rightarrow>
                           if el_embedding e = [] then (None, Some c')
                           else (Some (clone_embedding (el_embedding e)), Some c')))"

text \<open>The eviction loop of \<open>Set\<close>: drop the back element while the index is too large.\<close>

function evict :: "query_cache \<Rightarrow> query_cache" where
  "evict c =
     (if int (length (qc_index c)) > qc_capacity c \<and> qc_list c \<noteq> [] then
        evict (c\<lparr>qc_index := AList.delete (el_key (last (qc_list c))) (qc_index c), qc_list := butlast (qc_list c)\<rparr>)
      else c)"
  by pat_completeness auto
termination
  by (relation "measure (\<lambda>c. length (qc_list c))") auto

declare evict.simps [simp del]

definition cache_set :: "query_cache option \<Rightarrow> string \<Rightarrow> embedding \<Rightarrow> query_cache option" where
  "cache_set co k v =
     (case co of
        None \<Rightarrow> None
      | Some c \<Rightarrow>
          if trim_space k = [] \<or> v = [] then Some c
          else (case map_of (qc_index c) k of
                  Some i \<Rightarrow>
                    Some (c\<lparr>qc_list := move_to_front i
                              (map (\<lambda>e. if el_id e = i then e\<lparr>el_embedding := clone_embedding v\<rparr> else e) (qc_list c))\<rparr>)
                | None \<Rightarrow>
                    Some (evict (c\<lparr>qc_list := \<lparr>el_id = qc_next c, el_key = k, el_embedding = clone_embedding v\<rparr> # qc_list c,
                                  qc_index := AList.update k (qc_next c) (qc_index c),
                                  qc_next := qc_next c + 1\<rparr>))))"

definition normalize_query_cache_key :: "string \<Rightarrow> string" where
  "normalize_query_cache_key q = to_lower (collapse q)"

definition get_cached_query_embedding ::
  "query_cache option \<Rightarrow> string \<Rightarrow> embedding option \<times> query_cache option" where
  "get_cached_query_embedding c q =
     (if c = None then (None, c)
      else let k = normalize_query_cache_key q
           in if k = [] then (None, c) else cache_get c k)"

definition set_cached_query_embedding ::
  "query_cache option \<Rightarrow> string \<Rightarrow> embedding \<Rightarrow> query_cache option" where
  "set_cached_query_embedding c q v =
     (if c = None then c
      else let k = normalize_query_cache_key q
           in if k = [] then c else cache_set c k v)"

section \<open>Abstract specification\<close>

text \<open>A recency list: the most recently used key first, no key twice, at most \<open>n\<close> entries.\<close>

type_synonym lru = "(string \<times> embedding) list"

definition lru_touch :: "string \<Rightarrow> lru \<Rightarrow> lru" where
  "lru_touch k l = filter (\<lambda>p. fst p = k) l @ filter (\<lambda>p. fst p \<noteq> k) l"

definition lru_put :: "nat \<Rightarrow> string \<Rightarrow> embedding \<Rightarrow> lru \<Rightarrow> lru" where
  "lru_put n k v l = take n ((k, v) # filter (\<lambda>p. fst p \<noteq> k) l)"

definition abs_cache :: "query_cache \<Rightarrow> lru" where
  "abs_cache c = map (\<lambda>e. (el_key e, el_embedding e)) (qc_list c)"

text \<open>
  Well-formedness: element identities and keys are unique, the index holds exactly one entry per
  list element, fresh identities are unused, and every stored embedding belongs to a usable key
  and is not empty. The invariant adds the bound on the size, which \<open>Set\<close> breaks for one entry
  before it evicts.
\<close>

definition cache_wf :: "query_cache \<Rightarrow> bool" where
  "cache_wf c \<longleftrightarrow>
     0 < qc_capacity c \<and>
     distinct (map el_id (qc_list c)) \<and>
     distinct (map el_key (qc_list c)) \<and>
     distinct (map fst (qc_index c)) \<and>
     set (qc_index c) = (\<lambda>e. (el_key e, el_id e)) ` set (qc_list c) \<and>
     (\<forall>e \<in> set (qc_list c). el_id e < qc_next c \<and> trim_space (el_key e) \<noteq> [] \<and> el_embedding e \<noteq> [])"

definition cache_inv :: "query_cache \<Rightarrow> bool" where
  "cache_inv c \<longleftrightarrow> cache_wf c \<and> int (length (qc_list c)) \<le> qc_capacity c"

definition cache_ok :: "query_cache option \<Rightarrow> bool" where
  "cache_ok co \<longleftrightarrow> (case co of None \<Rightarrow> True | Some c \<Rightarrow> cache_inv c)"

definition abs_cache_opt :: "query_cache option \<Rightarrow> lru" where
  "abs_cache_opt co = (case co of None \<Rightarrow> [] | Some c \<Rightarrow> abs_cache c)"

lemma cache_ok_simps [simp]:
  "cache_ok None" "cache_ok (Some c) = cache_inv c"
  "abs_cache_opt None = []" "abs_cache_opt (Some c) = abs_cache c"
  by (simp_all add: cache_ok_def abs_cache_opt_def)

subsection \<open>Lists of elements\<close>

lemma filter_id_key:
  assumes "distinct (map el_id es)" "distinct (map el_key es)" "e \<in> set es"
  shows "filter (\<lambda>x. el_id x = el_id e) es = filter (\<lambda>x. el_key x = el_key e) es"
    and "filter (\<lambda>x. el_id x \<noteq> el_id e) es = filter (\<lambda>x. el_key x \<noteq> el_key e) es"
proof -
  have "\<And>x. x \<in> set es \<Longrightarrow> (el_id x = el_id e) = (el_key x = el_key e)"
    using assms by (auto simp: distinct_map dest: inj_onD)
  then show "filter (\<lambda>x. el_id x = el_id e) es = filter (\<lambda>x. el_key x = el_key e) es"
    and "filter (\<lambda>x. el_id x \<noteq> el_id e) es = filter (\<lambda>x. el_key x \<noteq> el_key e) es"
    by (auto intro: filter_cong)
qed

lemma filter_unique:
  "distinct (map f es) \<Longrightarrow> e \<in> set es \<Longrightarrow> filter (\<lambda>x. f x = f e) es = [e]"
  by (induction es) (auto simp: filter_empty_conv image_iff)

lemma set_move_to_front [simp]: "set (move_to_front i es) = set es"
  by (auto simp: move_to_front_def)

lemma distinct_map_move [simp]: "distinct (map f es) \<Longrightarrow> distinct (map f (move_to_front i es))"
  by (auto simp: move_to_front_def distinct_map inj_on_def)

lemma length_move_to_front [simp]: "length (move_to_front i es) = length es"
  by (simp add: move_to_front_def sum_length_filter_compl)

lemma element_at_Some:
  "distinct (map el_id es) \<Longrightarrow> e \<in> set es \<Longrightarrow> element_at (el_id e) es = Some e"
  by (induction es) (auto simp: element_at_def)

subsection \<open>The index\<close>

lemma index_lookup:
  assumes "cache_wf c"
  shows "map_of (qc_index c) k = Some i \<longleftrightarrow> (\<exists>e \<in> set (qc_list c). el_key e = k \<and> el_id e = i)"
  using assms by (auto simp: cache_wf_def map_of_eq_Some_iff)

lemma index_None:
  assumes "cache_wf c"
  shows "map_of (qc_index c) k = None \<longleftrightarrow> k \<notin> el_key ` set (qc_list c)"
  using assms index_lookup [OF assms, of k] by (cases "map_of (qc_index c) k") auto

lemma length_index:
  assumes "cache_wf c"
  shows "length (qc_index c) = length (qc_list c)"
proof -
  have "distinct (qc_index c)" "distinct (qc_list c)"
    using assms by (auto simp: cache_wf_def distinct_map)
  then have "length (qc_index c) = card (set (qc_index c))" "length (qc_list c) = card (set (qc_list c))"
    by (simp_all add: distinct_card)
  moreover have "inj_on (\<lambda>e. (el_key e, el_id e)) (set (qc_list c))"
    using assms by (auto simp: cache_wf_def distinct_map inj_on_def)
  ultimately show ?thesis using assms by (simp add: cache_wf_def card_image)
qed

lemma map_of_abs:
  assumes "cache_wf c" "e \<in> set (qc_list c)"
  shows "map_of (abs_cache c) (el_key e) = Some (el_embedding e)"
  using assms by (auto simp: cache_wf_def abs_cache_def distinct_map inj_on_def map_of_eq_Some_iff
      comp_def)

lemma dom_abs: "fst ` set (abs_cache c) = el_key ` set (qc_list c)"
  by (force simp: abs_cache_def)

lemma abs_move_to_front:
  assumes "cache_wf c" "e \<in> set (qc_list c)"
  shows "abs_cache (c\<lparr>qc_list := move_to_front (el_id e) (qc_list c)\<rparr>) = lru_touch (el_key e) (abs_cache c)"
proof -
  have d: "distinct (map el_id (qc_list c))" "distinct (map el_key (qc_list c))"
    using assms by (auto simp: cache_wf_def)
  show ?thesis
    using filter_id_key [OF d assms(2)]
    by (simp add: abs_cache_def move_to_front_def lru_touch_def filter_map comp_def)
qed

lemma wf_move_to_front: "cache_wf c \<Longrightarrow> cache_wf (c\<lparr>qc_list := move_to_front i (qc_list c)\<rparr>)"
  by (simp add: cache_wf_def)

section \<open>Refinement\<close>

lemma cache_inv_new:
  "0 < n \<Longrightarrow> \<exists>c. new_query_embedding_cache n = Some c \<and> cache_inv c \<and> abs_cache c = []"
  by (simp add: new_query_embedding_cache_def cache_inv_def cache_wf_def abs_cache_def)

lemma cache_get_abs:
  assumes "cache_inv c" "trim_space k \<noteq> []"
  shows "fst (cache_get (Some c) k) = map_of (abs_cache c) k"
    and "\<exists>c'. snd (cache_get (Some c) k) = Some c' \<and> cache_inv c' \<and> qc_capacity c' = qc_capacity c \<and>
              abs_cache c' = lru_touch k (abs_cache c)"
proof -
  have wf: "cache_wf c" and sz: "int (length (qc_list c)) \<le> qc_capacity c"
    using assms by (auto simp: cache_inv_def)
  have "fst (cache_get (Some c) k) = map_of (abs_cache c) k \<and>
        (\<exists>c'. snd (cache_get (Some c) k) = Some c' \<and> cache_inv c' \<and> qc_capacity c' = qc_capacity c \<and>
              abs_cache c' = lru_touch k (abs_cache c))"
  proof (cases "map_of (qc_index c) k")
    case None
    then have nk: "k \<notin> el_key ` set (qc_list c)" using index_None [OF wf] by simp
    then have "map_of (abs_cache c) k = None" by (simp add: map_of_eq_None_iff dom_abs)
    moreover have "lru_touch k (abs_cache c) = abs_cache c"
    proof -
      have "\<forall>p \<in> set (abs_cache c). fst p \<noteq> k" using nk dom_abs [of c] by blast
      then show ?thesis by (simp add: lru_touch_def filter_empty_conv)
    qed
    ultimately show ?thesis using None assms by (simp add: cache_get_def)
  next
    case (Some i)
    then obtain e where e: "e \<in> set (qc_list c)" "el_key e = k" "el_id e = i"
      using index_lookup [OF wf] by blast
    have "element_at i (qc_list c) = Some e" "el_embedding e \<noteq> []"
      using wf e element_at_Some by (auto simp: cache_wf_def)
    then show ?thesis
      using Some assms e map_of_abs [OF wf e(1)] abs_move_to_front [OF wf e(1)] wf_move_to_front [OF wf]
      by (simp add: cache_get_def cache_inv_def Let_def)
  qed
  then show "fst (cache_get (Some c) k) = map_of (abs_cache c) k"
    and "\<exists>c'. snd (cache_get (Some c) k) = Some c' \<and> cache_inv c' \<and> qc_capacity c' = qc_capacity c \<and>
              abs_cache c' = lru_touch k (abs_cache c)"
    by auto
qed

subsection \<open>Eviction\<close>

lemma wf_drop_back:
  assumes wf: "cache_wf c" and ne: "qc_list c \<noteq> []"
  shows "cache_wf (c\<lparr>qc_index := AList.delete (el_key (last (qc_list c))) (qc_index c),
                     qc_list := butlast (qc_list c)\<rparr>)"
proof -
  obtain es e where es: "qc_list c = es @ [e]" using ne by (cases "qc_list c" rule: rev_cases) auto
  have "el_key e \<notin> el_key ` set es" using wf es by (auto simp: cache_wf_def)
  then have "{p \<in> set (qc_index c). fst p \<noteq> el_key e} = (\<lambda>x. (el_key x, el_id x)) ` set es"
    using wf es by (auto simp: cache_wf_def image_iff)
  moreover have "set (AList.delete (el_key e) (qc_index c)) = {p \<in> set (qc_index c). fst p \<noteq> el_key e}"
    by (auto simp: AList.delete_eq)
  ultimately show ?thesis
    using wf es by (auto simp: cache_wf_def AList.distinct_delete)
qed

lemma evict_spec:
  "cache_wf c \<Longrightarrow>
   cache_inv (evict c) \<and> qc_capacity (evict c) = qc_capacity c \<and>
   abs_cache (evict c) = take (nat (qc_capacity c)) (abs_cache c)"
proof (induction c rule: evict.induct)
  case (1 c)
  show ?case
  proof (cases "int (length (qc_index c)) > qc_capacity c \<and> qc_list c \<noteq> []")
    case True
    let ?d = "c\<lparr>qc_index := AList.delete (el_key (last (qc_list c))) (qc_index c),
               qc_list := butlast (qc_list c)\<rparr>"
    have e: "evict c = evict ?d" using True by (simp add: evict.simps [of c])
    have wf: "cache_wf ?d" using wf_drop_back [OF "1.prems"] True by blast
    have "int (length (qc_list c)) > qc_capacity c" using True length_index [OF "1.prems"] by simp
    then have "take (nat (qc_capacity c)) (abs_cache ?d) = take (nat (qc_capacity c)) (abs_cache c)"
      by (simp add: abs_cache_def butlast_conv_take take_map)
    then show ?thesis using "1.IH" [OF True wf] by (simp add: e)
  next
    case False
    then have "int (length (qc_list c)) \<le> qc_capacity c"
      using "1.prems" length_index [OF "1.prems"] by (auto simp: cache_wf_def)
    moreover have "evict c = c" using False by (subst evict.simps) auto
    ultimately show ?thesis using "1.prems"
      by (simp add: cache_inv_def abs_cache_def)
  qed
qed

lemma update_new: "k \<notin> fst ` set al \<Longrightarrow> AList.update k v al = al @ [(k, v)]"
  by (induction al) auto

lemma wf_push_front:
  assumes wf: "cache_wf c" and k: "trim_space k \<noteq> []" "k \<notin> el_key ` set (qc_list c)" and v: "v \<noteq> []"
  shows "cache_wf (c\<lparr>qc_list := \<lparr>el_id = qc_next c, el_key = k, el_embedding = v\<rparr> # qc_list c,
                     qc_index := AList.update k (qc_next c) (qc_index c),
                     qc_next := qc_next c + 1\<rparr>)"
proof -
  have nk: "k \<notin> fst ` set (qc_index c)" using wf k(2) by (force simp: cache_wf_def)
  show ?thesis
    using wf k v nk by (auto simp: cache_wf_def update_new [OF nk] less_Suc_eq)
qed

subsection \<open>Set\<close>

lemma lru_put_present:
  assumes "distinct (map fst l)" "k \<in> fst ` set l" "length l \<le> n"
  shows "lru_put n k v l = (k, v) # filter (\<lambda>p. fst p \<noteq> k) l"
proof -
  have "length (filter (\<lambda>p. fst p \<noteq> k) l) < length l"
    using assms(2) by (auto simp: length_filter_less)
  then show ?thesis using assms(3) by (simp add: lru_put_def)
qed

lemma lru_touch_overwrite:
  assumes "distinct (map fst l)" "k \<in> fst ` set l"
  shows "lru_touch k (map (\<lambda>p. if fst p = k then (k, v) else p) l) = (k, v) # filter (\<lambda>p. fst p \<noteq> k) l"
proof -
  let ?f = "\<lambda>p. if fst p = k then (k, v) else p"
  obtain p where p: "p \<in> set l" "fst p = k" using assms(2) by auto
  have "filter (\<lambda>p. fst p = k) l = [p]" using filter_unique [OF assms(1) p(1)] p by simp
  moreover have "filter (\<lambda>p. fst p = k) (map ?f l) = map ?f (filter (\<lambda>p. fst p = k) l)"
    by (induction l) auto
  moreover have "filter (\<lambda>p. fst p \<noteq> k) (map ?f l) = filter (\<lambda>p. fst p \<noteq> k) l"
    by (induction l) auto
  ultimately show ?thesis using p by (simp add: lru_touch_def)
qed

lemma pairs_zip: "(\<lambda>e. (el_key e, el_id e)) ` set es = set (zip (map el_key es) (map el_id es))"
  by (induction es) auto

lemma wf_replace:
  assumes wf: "cache_wf c"
    and ids: "map el_id es = map el_id (qc_list c)" and keys: "map el_key es = map el_key (qc_list c)"
    and ne: "\<forall>e \<in> set es. el_embedding e \<noteq> []"
  shows "cache_wf (c\<lparr>qc_list := es\<rparr>)"
proof -
  have "(\<lambda>e. (el_key e, el_id e)) ` set es = (\<lambda>e. (el_key e, el_id e)) ` set (qc_list c)"
    by (simp only: pairs_zip ids keys)
  moreover have "el_id ` set es = el_id ` set (qc_list c)" "el_key ` set es = el_key ` set (qc_list c)"
    using ids keys by (metis set_map)+
  then have "\<forall>e \<in> set es. el_id e < qc_next c \<and> trim_space (el_key e) \<noteq> []"
    using wf unfolding cache_wf_def by (metis (no_types, lifting) imageE imageI)
  ultimately show ?thesis using wf ids keys ne by (simp add: cache_wf_def)
qed

lemma wf_overwrite:
  assumes "cache_wf c" "v \<noteq> []"
  shows "cache_wf (c\<lparr>qc_list := map (\<lambda>e. if el_id e = i then e\<lparr>el_embedding := v\<rparr> else e) (qc_list c)\<rparr>)"
  using assms by (intro wf_replace) (auto simp: cache_wf_def)

lemma cache_set_Some:
  "trim_space k \<noteq> [] \<Longrightarrow> v \<noteq> [] \<Longrightarrow> map_of (qc_index c) k = Some i \<Longrightarrow>
   cache_set (Some c) k v = Some (c\<lparr>qc_list := move_to_front i
     (map (\<lambda>e. if el_id e = i then e\<lparr>el_embedding := v\<rparr> else e) (qc_list c))\<rparr>)"
  unfolding cache_set_def clone_embedding_eq by simp

lemma cache_set_abs:
  assumes inv: "cache_inv c" and k: "trim_space k \<noteq> []" and v: "v \<noteq> []"
  shows "\<exists>c'. cache_set (Some c) k v = Some c' \<and> cache_inv c' \<and> qc_capacity c' = qc_capacity c \<and>
              abs_cache c' = lru_put (nat (qc_capacity c)) k v (abs_cache c)"
proof -
  have wf: "cache_wf c" and sz: "int (length (qc_list c)) \<le> qc_capacity c"
    using inv by (auto simp: cache_inv_def)
  show ?thesis
  proof (cases "map_of (qc_index c) k")
    case None
    then have nk: "k \<notin> el_key ` set (qc_list c)" using index_None [OF wf] by simp
    let ?d = "c\<lparr>qc_list := \<lparr>el_id = qc_next c, el_key = k, el_embedding = v\<rparr> # qc_list c,
                qc_index := AList.update k (qc_next c) (qc_index c), qc_next := qc_next c + 1\<rparr>"
    have "cache_wf ?d" by (rule wf_push_front [OF wf k nk v])
    moreover have "filter (\<lambda>p. fst p \<noteq> k) (abs_cache c) = abs_cache c"
      using nk dom_abs [of c] by (intro filter_True) force
    then have "take (nat (qc_capacity c)) (abs_cache ?d) = lru_put (nat (qc_capacity c)) k v (abs_cache c)"
      by (simp add: lru_put_def) (simp add: abs_cache_def)
    ultimately show ?thesis
      using evict_spec [of ?d] None k v by (simp add: cache_set_def)
  next
    case (Some i)
    then obtain e where e: "e \<in> set (qc_list c)" "el_key e = k" "el_id e = i"
      using index_lookup [OF wf] by blast
    let ?es = "map (\<lambda>e. if el_id e = i then e\<lparr>el_embedding := v\<rparr> else e) (qc_list c)"
    let ?d = "c\<lparr>qc_list := ?es\<rparr>" and ?e = "e\<lparr>el_embedding := v\<rparr>"
    have wfd: "cache_wf ?d" by (rule wf_overwrite [OF wf v])
    have ed: "?e \<in> set (qc_list ?d)" using e by force
    have ids: "distinct (map el_id (qc_list c))" "distinct (map el_key (qc_list c))"
      using wf by (auto simp: cache_wf_def)
    have same: "\<And>x. x \<in> set (qc_list c) \<Longrightarrow> (el_id x = i) = (el_key x = k)"
      using ids e by (auto simp: distinct_map dest: inj_onD)
    have "abs_cache ?d = map (\<lambda>p. if fst p = k then (k, v) else p) (abs_cache c)"
      using same by (auto simp: abs_cache_def)
    moreover have "distinct (map fst (abs_cache c))" "k \<in> fst ` set (abs_cache c)"
      using ids e by (auto simp: abs_cache_def comp_def image_image)
    moreover have "length (abs_cache c) \<le> nat (qc_capacity c)"
      using sz by (simp add: abs_cache_def)
    ultimately have "lru_touch k (abs_cache ?d) = lru_put (nat (qc_capacity c)) k v (abs_cache c)"
      by (simp add: lru_put_present lru_touch_overwrite)
    then show ?thesis
      using abs_move_to_front [OF wfd ed] wf_move_to_front [OF wfd, of i] e cache_set_Some [OF k v Some] sz
      by (simp add: cache_inv_def)
  qed
qed

section \<open>The contract of a cache of embeddings, and its client\<close>

text \<open>
  What \<open>embedSearchQueries\<close> relies on: reading does not change what is cached, and writing a query
  adds at most that query's entry. Nothing is promised to stay: an entry may be evicted at any time.
\<close>

locale embedding_memo =
  fixes get :: "'c \<Rightarrow> string \<Rightarrow> embedding option \<times> 'c"
    and put :: "'c \<Rightarrow> string \<Rightarrow> embedding \<Rightarrow> 'c"
    and cached :: "'c \<Rightarrow> string \<Rightarrow> embedding option"
    and key :: "string \<Rightarrow> string"
    and good :: "'c \<Rightarrow> bool"
  assumes get_good: "good c \<Longrightarrow> good (snd (get c q))"
    and get_hit: "good c \<Longrightarrow> fst (get c q) = Some v \<Longrightarrow> cached c (key q) = Some v"
    and get_cached: "good c \<Longrightarrow> cached (snd (get c q)) k = Some v \<Longrightarrow> cached c k = Some v"
    and put_good: "good c \<Longrightarrow> good (put c q v)"
    and put_cached: "good c \<Longrightarrow> cached (put c q v) k = Some u \<Longrightarrow> k = key q \<and> u = v \<or> cached c k = Some u"
begin

text \<open>Every entry is the embedding of some query with its key.\<close>

definition sound :: "(string \<Rightarrow> embedding) \<Rightarrow> 'c \<Rightarrow> bool" where
  "sound emb c \<longleftrightarrow> (\<forall>k v. cached c k = Some v \<longrightarrow> (\<exists>q. key q = k \<and> v = emb q))"

text \<open>The two loops of the client.\<close>

fun ask :: "'c \<Rightarrow> string list \<Rightarrow> embedding option list \<times> 'c" where
  "ask c [] = ([], c)"
| "ask c (q # qs) = (let r = get c q; rs = ask (snd r) qs in (fst r # fst rs, snd rs))"

fun remember :: "'c \<Rightarrow> (string \<times> embedding) list \<Rightarrow> 'c" where
  "remember c [] = c"
| "remember c ((q, v) # ps) = remember (put c q v) ps"

lemma sound_get: "good c \<Longrightarrow> sound emb c \<Longrightarrow> sound emb (snd (get c q))"
  unfolding sound_def using get_cached by blast

lemma sound_put: "good c \<Longrightarrow> sound emb c \<Longrightarrow> sound emb (put c q (emb q))"
  unfolding sound_def using put_cached by blast

lemma ask_sound:
  "good c \<Longrightarrow> sound emb c \<Longrightarrow> good (snd (ask c qs)) \<and> sound emb (snd (ask c qs)) \<and>
   length (fst (ask c qs)) = length qs \<and>
   (\<forall>i < length qs. \<forall>v. fst (ask c qs) ! i = Some v \<longrightarrow> (\<exists>q. key q = key (qs ! i) \<and> v = emb q))"
proof (induction qs arbitrary: c)
  case (Cons q qs)
  have IH: "good (snd (ask (snd (get c q)) qs)) \<and> sound emb (snd (ask (snd (get c q)) qs)) \<and>
   length (fst (ask (snd (get c q)) qs)) = length qs \<and>
   (\<forall>i < length qs. \<forall>v. fst (ask (snd (get c q)) qs) ! i = Some v \<longrightarrow> (\<exists>p. key p = key (qs ! i) \<and> v = emb p))"
    using Cons.IH get_good sound_get Cons.prems by blast
  moreover have "\<exists>p. key p = key q \<and> v = emb p" if "fst (get c q) = Some v" for v
    using get_hit [OF Cons.prems(1) that] Cons.prems(2) unfolding sound_def by blast
  ultimately show ?case by (auto simp: Let_def nth_Cons less_Suc_eq_0_disj)
qed simp

lemma remember_sound:
  "good c \<Longrightarrow> sound emb c \<Longrightarrow> good (remember c (map (\<lambda>q. (q, emb q)) qs)) \<and>
   sound emb (remember c (map (\<lambda>q. (q, emb q)) qs))"
  by (induction qs arbitrary: c) (auto simp: put_good sound_put)

end

text \<open>The cache of the service provides it.\<close>

lemma map_of_lru_touch: "distinct (map fst l) \<Longrightarrow> map_of (lru_touch k l) = map_of l"
proof
  fix j
  have "map_of (filter (\<lambda>p. fst p = k) l) j = (if j = k then map_of l j else None)"
    by (induction l) (auto split: if_splits)
  moreover have "map_of (filter (\<lambda>p. fst p \<noteq> k) l) j = (if j = k then None else map_of l j)"
    by (induction l) auto
  ultimately show "map_of (lru_touch k l) j = map_of l j"
    by (cases "j = k") (simp_all add: lru_touch_def map_add_def split: option.splits)
qed

lemma map_of_lru_put: "map_of (lru_put n k v l) j = Some u \<Longrightarrow> j = k \<and> u = v \<or> map_of l j = Some u"
proof -
  assume "map_of (lru_put n k v l) j = Some u"
  have take: "map_of (take n xs) j = Some u \<Longrightarrow> map_of xs j = Some u" for xs :: "(string \<times> embedding) list"
    by (metis append_take_drop_id map_add_Some_iff map_of_append)
  have "map_of (filter (\<lambda>p. fst p \<noteq> k) l) j = (if j = k then None else map_of l j)"
    by (induction l) auto
  then have rest: "map_of (filter (\<lambda>p. fst p \<noteq> k) l) j = Some u \<Longrightarrow> map_of l j = Some u"
    by (simp split: if_splits)
  from \<open>map_of (lru_put n k v l) j = Some u\<close> have "map_of ((k, v) # filter (\<lambda>p. fst p \<noteq> k) l) j = Some u"
    unfolding lru_put_def by (rule take)
  with rest show ?thesis by (auto split: if_splits)
qed

lemma cache_set_skip: "trim_space k = [] \<or> v = [] \<Longrightarrow> cache_set (Some c) k v = Some c"
  by (auto simp: cache_set_def)

lemma distinct_abs: "cache_inv c \<Longrightarrow> distinct (map fst (abs_cache c))"
  by (simp add: cache_inv_def cache_wf_def abs_cache_def comp_def)

lemma get_cached_cases:
  assumes "cache_ok co"
  shows "cache_ok (snd (get_cached_query_embedding co q)) \<and>
    map_of (abs_cache_opt (snd (get_cached_query_embedding co q))) = map_of (abs_cache_opt co) \<and>
    (fst (get_cached_query_embedding co q) = None \<or>
     fst (get_cached_query_embedding co q) = map_of (abs_cache_opt co) (normalize_query_cache_key q))"
proof (cases co)
  case None
  then show ?thesis by (simp add: get_cached_query_embedding_def)
next
  case (Some c)
  let ?k = "normalize_query_cache_key q"
  have inv: "cache_inv c" using assms Some by simp
  show ?thesis
  proof (cases "trim_space ?k = []")
    case True
    then show ?thesis using Some assms by (auto simp: get_cached_query_embedding_def cache_get_def Let_def)
  next
    case False
    then have "?k \<noteq> []" by auto
    with Some have g: "get_cached_query_embedding co q = cache_get (Some c) ?k"
      by (simp add: get_cached_query_embedding_def Let_def)
    obtain c' where c': "snd (cache_get (Some c) ?k) = Some c'" "cache_inv c'"
      "abs_cache c' = lru_touch ?k (abs_cache c)" using cache_get_abs(2) [OF inv False] by blast
    show ?thesis unfolding g using c' cache_get_abs(1) [OF inv False] Some
      by (simp add: map_of_lru_touch [OF distinct_abs [OF inv]])
  qed
qed

lemma set_cached_cases:
  assumes "cache_ok co"
  shows "cache_ok (set_cached_query_embedding co q v) \<and>
    (map_of (abs_cache_opt (set_cached_query_embedding co q v)) j = Some u \<longrightarrow>
      j = normalize_query_cache_key q \<and> u = v \<or> map_of (abs_cache_opt co) j = Some u)"
proof (cases co)
  case None
  then show ?thesis by (simp add: set_cached_query_embedding_def)
next
  case (Some c)
  let ?k = "normalize_query_cache_key q"
  have inv: "cache_inv c" using assms Some by simp
  show ?thesis
  proof (cases "trim_space ?k = [] \<or> v = []")
    case True
    then have "set_cached_query_embedding co q v = co"
      using Some cache_set_skip by (auto simp: set_cached_query_embedding_def Let_def)
    then show ?thesis using assms by simp
  next
    case False
    then have "?k \<noteq> []" by auto
    with Some have s: "set_cached_query_embedding co q v = cache_set (Some c) ?k v"
      by (simp add: set_cached_query_embedding_def Let_def)
    obtain c' where "cache_set (Some c) ?k v = Some c'" "cache_inv c'"
      "abs_cache c' = lru_put (nat (qc_capacity c)) ?k v (abs_cache c)"
      using cache_set_abs [OF inv] False by blast
    then show ?thesis unfolding s using Some by (auto dest: map_of_lru_put)
  qed
qed

interpretation qc: embedding_memo get_cached_query_embedding set_cached_query_embedding
  "\<lambda>c. map_of (abs_cache_opt c)" normalize_query_cache_key cache_ok
  using get_cached_cases set_cached_cases by unfold_locales (auto, metis option.distinct(1))

section \<open>Embedding the queries of a search\<close>

text \<open>\<open>embedSearchQueries\<close> of \<open>search_setup.go\<close>; \<open>embed_all\<close> is \<open>embedContents\<close>, which calls the embedder.
  The answers of the cache come first, then one call for the queries that missed, whose results are
  put in place and remembered.\<close>

fun lookup_queries :: "query_cache option \<Rightarrow> string list \<Rightarrow> embedding option list \<times> query_cache option" where
  "lookup_queries c [] = ([], c)"
| "lookup_queries c (q # qs) =
     (let r = get_cached_query_embedding c q; rs = lookup_queries (snd r) qs in (fst r # fst rs, snd rs))"

fun remember_queries :: "query_cache option \<Rightarrow> (string \<times> embedding) list \<Rightarrow> query_cache option" where
  "remember_queries c [] = c"
| "remember_queries c ((q, v) # ps) = remember_queries (set_cached_query_embedding c q v) ps"

definition pending_queries :: "string list \<Rightarrow> embedding option list \<Rightarrow> string list" where
  "pending_queries qs rs = map fst (filter (\<lambda>p. snd p = None) (zip qs rs))"

fun fill_pending :: "embedding option list \<Rightarrow> embedding list \<Rightarrow> embedding list" where
  "fill_pending [] vs = []"
| "fill_pending (Some v # rs) vs = v # fill_pending rs vs"
| "fill_pending (None # rs) [] = [] # fill_pending rs []"
| "fill_pending (None # rs) (v # vs) = clone_embedding v # fill_pending rs vs"

definition embed_search_queries ::
  "(string list \<Rightarrow> ('t, embedding list) act) \<Rightarrow> query_cache option \<Rightarrow> string list \<Rightarrow>
   't world \<Rightarrow> ((err + embedding list) \<times> query_cache option) \<times> 't world" where
  "embed_search_queries embed_all c qs w =
     (if qs = [] then ((Inr [], c), w)
      else let rs = fst (lookup_queries c qs); c1 = snd (lookup_queries c qs);
               pending = pending_queries qs rs in
        if pending = [] then ((Inr (fill_pending rs []), c1), w)
        else (case embed_all pending w of
                (Inl e, w1) \<Rightarrow> ((Inl e, c1), w1)
              | (Inr vs, w1) \<Rightarrow>
                  if length vs \<noteq> length pending
                  then ((Inl (ErrMsg ''search query embedding count mismatch''), c1), w1)
                  else ((Inr (fill_pending rs vs), remember_queries c1 (zip pending vs)), w1)))"

lemma lookup_queries_ask: "lookup_queries c qs = qc.ask c qs"
  by (induction qs arbitrary: c) simp_all

lemma remember_queries_eq: "remember_queries c ps = qc.remember c ps"
  by (induction c ps rule: remember_queries.induct) simp_all

lemma fill_pending_nth:
  "length rs = length qs \<Longrightarrow> i < length qs \<Longrightarrow>
   length (fill_pending rs (map emb (pending_queries qs rs))) = length qs \<and>
   fill_pending rs (map emb (pending_queries qs rs)) ! i =
     (case rs ! i of Some v \<Rightarrow> v | None \<Rightarrow> emb (qs ! i))"
proof (induction qs rs arbitrary: i rule: list_induct2')
  case (4 q qs r rs)
  have step: "i < Suc n \<longleftrightarrow> i = 0 \<or> (\<exists>j. i = Suc j \<and> j < n)" for i n :: nat
    by (cases i) auto
  have len: "length (fill_pending rs (map emb (pending_queries qs rs))) = length qs"
    using 4 by (cases qs) (auto simp: pending_queries_def)
  show ?case
    using 4 len by (cases r; cases i) (auto simp: pending_queries_def split: option.splits)
qed simp_all

text \<open>C36 The cache is a bounded least-recently-used map: on a well-formed cache, \<open>Get\<close> answers what the
  recency list holds and moves the key to the front, \<open>Set\<close> puts the entry in front and keeps the most
  recent entries up to the capacity, and both keep the cache well formed and within its capacity.\<close>

theorem cache_refines_lru:
  assumes "cache_inv c" and "trim_space k \<noteq> []" and "v \<noteq> []"
  shows "fst (cache_get (Some c) k) = map_of (abs_cache c) k \<and>
    (\<exists>c'. snd (cache_get (Some c) k) = Some c' \<and> cache_inv c' \<and> abs_cache c' = lru_touch k (abs_cache c)) \<and>
    (\<exists>c'. cache_set (Some c) k v = Some c' \<and> cache_inv c' \<and> int (length (qc_list c')) \<le> qc_capacity c \<and>
      abs_cache c' = lru_put (nat (qc_capacity c)) k v (abs_cache c))"
proof -
  have "\<exists>c'. cache_set (Some c) k v = Some c' \<and> cache_inv c' \<and> int (length (qc_list c')) \<le> qc_capacity c \<and>
      abs_cache c' = lru_put (nat (qc_capacity c)) k v (abs_cache c)"
    using cache_set_abs [OF assms] by (metis cache_inv_def)
  then show ?thesis using cache_get_abs [OF assms(1,2)] by blast
qed

text \<open>Embedding the queries of a search through the cache: with an embedder that computes \<open>emb\<close>, and a
  cache whose entries are embeddings of queries with their key, the call succeeds, returns one
  embedding per query, each of them \<open>emb\<close> of a query that is the asked one up to letter case and
  white space, and leaves the cache in the same condition. It need not be the embedding of the query
  itself: the key forgets the case that the embedder sees.\<close>

theorem cached_embeddings_sound:
  assumes "cache_ok c"
    and "\<forall>k v. map_of (abs_cache_opt c) k = Some v \<longrightarrow> (\<exists>q. normalize_query_cache_key q = k \<and> v = emb q)"
    and "\<And>ps w. \<exists>w'. embed_all ps w = (Inr (map emb ps), w')"
  shows "\<exists>vs c' w'. embed_search_queries embed_all c qs w = ((Inr vs, c'), w') \<and> length vs = length qs \<and>
    (\<forall>i < length qs. \<exists>q. normalize_query_cache_key q = normalize_query_cache_key (qs ! i) \<and> vs ! i = emb q) \<and>
    cache_ok c' \<and>
    (\<forall>k v. map_of (abs_cache_opt c') k = Some v \<longrightarrow> (\<exists>q. normalize_query_cache_key q = k \<and> v = emb q))"
proof (cases "qs = []")
  case True
  then show ?thesis using assms(1,2) by (simp add: embed_search_queries_def)
next
  case False
  let ?rs = "fst (lookup_queries c qs)" and ?c1 = "snd (lookup_queries c qs)"
  let ?p = "pending_queries qs ?rs"
  have ask: "cache_ok ?c1 \<and> qc.sound emb ?c1 \<and> length ?rs = length qs \<and>
   (\<forall>i < length qs. \<forall>v. ?rs ! i = Some v \<longrightarrow>
     (\<exists>q. normalize_query_cache_key q = normalize_query_cache_key (qs ! i) \<and> v = emb q))"
    using qc.ask_sound [OF assms(1), of emb qs] assms(2) unfolding lookup_queries_ask qc.sound_def by blast
  let ?out = "fill_pending ?rs (map emb ?p)"
  have out: "?out ! i = (case ?rs ! i of Some v \<Rightarrow> v | None \<Rightarrow> emb (qs ! i))" "length ?out = length qs"
    if "i < length qs" for i
    using fill_pending_nth [of ?rs qs i emb] ask that by simp_all
  have len: "length ?out = length qs" using out(2) [of 0] False by simp
  have nth: "\<forall>i < length qs. \<exists>q. normalize_query_cache_key q = normalize_query_cache_key (qs ! i) \<and> ?out ! i = emb q"
    using out ask by (auto split: option.splits)
  show ?thesis
  proof (cases "?p = []")
    case True
    then have "embed_search_queries embed_all c qs w = ((Inr ?out, ?c1), w)"
      using False by (simp add: embed_search_queries_def Let_def)
    with len nth ask show ?thesis unfolding qc.sound_def by blast
  next
    case nonempty: False
    obtain w' where "embed_all ?p w = (Inr (map emb ?p), w')" using assms(3) by blast
    then have run: "embed_search_queries embed_all c qs w =
        ((Inr ?out, remember_queries ?c1 (zip ?p (map emb ?p))), w')"
      using False nonempty by (simp add: embed_search_queries_def Let_def)
    have "zip ?p (map emb ?p) = map (\<lambda>q. (q, emb q)) ?p" by (simp add: zip_map2 zip_same_conv_map)
    then have "cache_ok (remember_queries ?c1 (zip ?p (map emb ?p))) \<and>
        qc.sound emb (remember_queries ?c1 (zip ?p (map emb ?p)))"
      using qc.remember_sound [of ?c1 emb ?p] ask by (simp add: remember_queries_eq)
    with run len nth show ?thesis unfolding qc.sound_def by blast
  qed
qed

section \<open>Instances on concrete data\<close>

definition sample_cache :: query_cache where
  "sample_cache = \<lparr>qc_capacity = 2, qc_list = [\<lparr>el_id = 0, el_key = ''a'', el_embedding = [1]\<rparr>],
     qc_index = [(''a'', 0)], qc_next = 1\<rparr>"

lemma sample_cache_ok: "cache_inv sample_cache"
  by (simp add: sample_cache_def cache_inv_def cache_wf_def trim_space_def trim_left_def trim_right_def is_space_def)

lemma cache_refines_lru_witness:
  "fst (cache_get (Some sample_cache) ''a'') = map_of (abs_cache sample_cache) ''a'' \<and> ''a'' \<noteq> []"
  using cache_refines_lru [OF sample_cache_ok, of "''a''" "[2]"]
  by (simp add: trim_space_def trim_left_def trim_right_def is_space_def)

lemma cached_embeddings_sound_witness:
  "\<exists>vs c' w'. embed_search_queries (\<lambda>ps w. (Inr (map (\<lambda>_. [1]) ps), w)) (Some sample_cache) [''A'', ''b'']
      (calm_world ()) = ((Inr vs, c'), w') \<and> length vs = 2"
proof -
  have "normalize_query_cache_key ''a'' = ''a''"
    by (simp add: normalize_query_cache_key_def collapse_def fields.simps trim_space_def trim_left_def
        trim_right_def is_space_def to_lower_def lower_char_def)
  then have "\<forall>k v. map_of (abs_cache_opt (Some sample_cache)) k = Some v \<longrightarrow>
      (\<exists>q. normalize_query_cache_key q = k \<and> v = (\<lambda>_. [1]) q)"
    by (auto simp: sample_cache_def abs_cache_def split: if_splits)
  from cached_embeddings_sound [OF _ this, of "\<lambda>ps w. (Inr (map (\<lambda>_. [1]) ps), w)" "[''A'', ''b'']" "calm_world ()"]
  show ?thesis using sample_cache_ok by auto
qed

end
