(* ===== verification/Domain.thy ===== *)
theory Domain
  imports World
begin

text \<open>
  The shared data of \<open>internal/domain\<close>. The string types with a fixed set of constants
  (\<open>MemoryTier\<close>, \<open>MemoryKind\<close>, \<open>PostprocessJobStatus\<close>, ...) are datatypes with one constructor per
  constant and one for any other string, the empty one included; \<open>..._text\<close> and \<open>..._of\<close> are the
  conversions \<open>string(x)\<close> and \<open>T(s)\<close>, proved inverse of each other. Structs are records. A
  \<open>float64\<close> is a real number and an \<open>int\<close> an integer; where a computation can leave 64 bits the
  wrap-around is written out.
\<close>

section \<open>Memories\<close>

datatype memory_tier =
  TierWorking | TierEpisodic | TierSemantic | TierAuto | TierOther string

definition tier_text :: "memory_tier \<Rightarrow> string" where
  "tier_text t = (case t of TierWorking \<Rightarrow> ''working'' | TierEpisodic \<Rightarrow> ''episodic''
     | TierSemantic \<Rightarrow> ''semantic'' | TierAuto \<Rightarrow> ''auto'' | TierOther s \<Rightarrow> s)"

definition tier_of :: "string \<Rightarrow> memory_tier" where
  "tier_of s = (if s = ''working'' then TierWorking else if s = ''episodic'' then TierEpisodic
     else if s = ''semantic'' then TierSemantic else if s = ''auto'' then TierAuto else TierOther s)"

datatype memory_created_by = ByAuto | ByUser | BySystem | ByOther string

definition created_by_text :: "memory_created_by \<Rightarrow> string" where
  "created_by_text c = (case c of ByAuto \<Rightarrow> ''auto'' | ByUser \<Rightarrow> ''user'' | BySystem \<Rightarrow> ''system''
     | ByOther s \<Rightarrow> s)"

definition created_by_of :: "string \<Rightarrow> memory_created_by" where
  "created_by_of s = (if s = ''auto'' then ByAuto else if s = ''user'' then ByUser
     else if s = ''system'' then BySystem else ByOther s)"

datatype memory_kind =
  KindRawTurn | KindObservation | KindSummary | KindEvent | KindOther string

definition kind_text :: "memory_kind \<Rightarrow> string" where
  "kind_text k = (case k of KindRawTurn \<Rightarrow> ''raw_turn'' | KindObservation \<Rightarrow> ''observation''
     | KindSummary \<Rightarrow> ''summary'' | KindEvent \<Rightarrow> ''event'' | KindOther s \<Rightarrow> s)"

definition kind_of :: "string \<Rightarrow> memory_kind" where
  "kind_of s = (if s = ''raw_turn'' then KindRawTurn else if s = ''observation'' then KindObservation
     else if s = ''summary'' then KindSummary else if s = ''event'' then KindEvent else KindOther s)"

lemma tier_text_of [simp]: "tier_text (tier_of s) = s"
  by (simp add: tier_text_def tier_of_def)

lemma created_by_text_of [simp]: "created_by_text (created_by_of s) = s"
  by (simp add: created_by_text_def created_by_of_def)

lemma kind_text_of [simp]: "kind_text (kind_of s) = s"
  by (simp add: kind_text_def kind_of_def)

record answer_metadata =
  am_answer_kind :: string
  am_source_sentence :: string
  am_surface_span :: string
  am_temporal_anchor :: string
  am_relative_time_phrase :: string
  am_resolved_time_start :: string
  am_resolved_time_end :: string
  am_time_granularity :: string
  am_support_memory_ids :: "string list"
  am_support_lines :: "string list"

definition empty_metadata :: answer_metadata where
  "empty_metadata = \<lparr>am_answer_kind = [], am_source_sentence = [], am_surface_span = [],
     am_temporal_anchor = [], am_relative_time_phrase = [], am_resolved_time_start = [],
     am_resolved_time_end = [], am_time_granularity = [], am_support_memory_ids = [],
     am_support_lines = []\<rparr>"

record memory =
  m_id :: string
  m_tenant :: string
  m_content :: string
  m_query_view :: string
  m_tier :: memory_tier
  m_tags :: "string list"
  m_source :: string
  m_created_by :: memory_created_by
  m_kind :: memory_kind
  m_canonical_key :: string
  m_source_turn_hash :: string
  m_source_fact_index :: int
  m_extractor :: string
  m_extractor_version :: string
  m_importance :: real
  m_recall_count :: int
  m_answer_metadata :: answer_metadata
  m_created_at :: gotime
  m_updated_at :: gotime
  m_last_accessed_at :: gotime
  m_last_recalled_at :: gotime

text \<open>The zero value of the struct.\<close>

definition zero_memory :: memory where
  "zero_memory = \<lparr>m_id = [], m_tenant = [], m_content = [], m_query_view = [],
     m_tier = TierOther [], m_tags = [], m_source = [], m_created_by = ByOther [],
     m_kind = KindOther [], m_canonical_key = [], m_source_turn_hash = [],
     m_source_fact_index = 0, m_extractor = [], m_extractor_version = [], m_importance = 0,
     m_recall_count = 0, m_answer_metadata = empty_metadata, m_created_at = zero_time,
     m_updated_at = zero_time, m_last_accessed_at = zero_time, m_last_recalled_at = zero_time\<rparr>"

record memory_search_filters =
  sf_tiers :: "memory_tier list"
  sf_kinds :: "memory_kind list"

section \<open>Entity facts, tenants and vectors\<close>

record entity_fact =
  f_id :: string
  f_tenant :: string
  f_entity :: string
  f_relation :: string
  f_relation_raw :: string
  f_value :: string
  f_memory :: string
  f_created_at :: gotime
  f_observed_at :: gotime
  f_valid_from :: gotime
  f_valid_to :: "gotime option"
  f_invalidated_by :: string
  f_confidence :: real

record tenant =
  t_id :: string
  t_name :: string
  t_created_at :: gotime

record vector_candidate =
  vc_memory :: string
  vc_similarity :: real

record vector_upsert =
  vu_tenant :: string
  vu_memory :: string
  vu_embedding :: "real list"

section \<open>Index state and postprocess jobs\<close>

datatype index_op = OpUpsert | OpDelete | OpOther string

definition index_op_text :: "index_op \<Rightarrow> string" where
  "index_op_text x = (case x of OpUpsert \<Rightarrow> ''upsert'' | OpDelete \<Rightarrow> ''delete'' | OpOther s \<Rightarrow> s)"

datatype index_state = IxPending | IxIndexed | IxFailed | IxTombstoned | IxOther string

definition index_state_text :: "index_state \<Rightarrow> string" where
  "index_state_text x = (case x of IxPending \<Rightarrow> ''pending'' | IxIndexed \<Rightarrow> ''indexed''
     | IxFailed \<Rightarrow> ''failed'' | IxTombstoned \<Rightarrow> ''tombstoned'' | IxOther s \<Rightarrow> s)"

datatype job_type = ParserExtract | VectorUpsert | OtherJobType string

datatype job_status =
  Queued | Running | Succeeded | Failed | DeadLetter | OtherStatus string

record postprocess_job =
  j_id :: string
  j_ingest :: string
  j_tenant :: string
  j_memory :: string
  j_type :: job_type
  j_status :: job_status
  j_attempts :: int
  j_max_attempts :: int
  j_available_at :: gotime
  j_lease_owner :: string
  j_leased_until :: gotime
  j_last_error :: string
  j_created_at :: gotime
  j_updated_at :: gotime

record job_filter =
  jf_tenant :: string
  jf_statuses :: "job_status list"
  jf_types :: "job_type list"
  jf_limit :: int

record job_enqueue =
  je_ingest :: string
  je_tenant :: string
  je_memory :: string
  je_type :: job_type
  je_max_attempts :: int

record claim_options =
  co_owner :: string
  co_limit :: int
  co_now :: gotime
  co_lease_until :: gotime

record ingest_item =
  ii_memory :: memory
  ii_queue_parser :: bool
  ii_queue_vector :: bool

record ingest_receipt =
  ir_ingest :: string
  ir_memory_ids :: "string list"
  ir_job_ids :: "string list"
  ir_accepted_at :: gotime

end
