(* ===== verification/Options.thy ===== *)
theory Options
  imports Domain
begin

text \<open>
  The options of the memory service (\<open>core/memory/service.go\<close>) and of its postprocess workers
  (\<open>postprocess_worker.go\<close>): the records, their defaults and the normalisation each goes through
  before it is used. The properties: what is normalised is in range, and normalising twice is
  normalising once, so that options can be passed through several layers.
\<close>

section \<open>Records\<close>

record structured_options =
  so_enabled :: bool
  so_dual_write_observations :: bool
  so_dual_write_events :: bool
  so_max_observations :: int

record search_tuning =
  st_expansion_enabled :: bool
  st_max_extra_queries :: int
  st_weak_lexical_threshold :: real
  st_plan_confidence_threshold :: real
  st_window_multiplier :: int
  st_window_min :: int
  st_window_max :: int
  st_window_temporal_boost :: int
  st_window_multi_hop_boost :: int
  st_window_filter_boost :: int
  st_early_rerank_base :: int
  st_early_rerank_max :: int

record retrieval_options =
  ro_answer_type_routing :: bool
  ro_early_rank_rerank :: bool
  ro_temporal_resolver :: bool
  ro_open_domain_resolver :: bool
  ro_profile_support_links :: bool
  ro_search_tuning :: search_tuning

record wal_weights =
  ww_recency :: real
  ww_relevance :: real
  ww_importance :: real

record match_weights =
  mw_recency :: real
  mw_relevance :: real
  mw_importance :: real
  mw_query_overlap :: real
  mw_routing :: real

record ranking_options =
  rk_algorithm :: string
  rk_wal :: wal_weights
  rk_match :: match_weights

record rerank_options =
  rr_enabled :: bool
  rr_window :: int
  rr_blend :: real

record multi_hop_options =
  mh_entity_fact_bridge :: bool
  mh_llm_decomposition :: bool
  mh_max_decomposition_queries :: int
  mh_pairwise_rerank :: bool
  mh_token_expansion_fallback :: bool
  mh_graph_path :: bool
  mh_graph_max_hops :: int
  mh_graph_seed_limit :: int
  mh_graph_path_limit :: int
  mh_graph_min_score :: real
  mh_graph_weight :: real
  mh_graph_temporal_validity :: bool
  mh_graph_singleton_invalidation :: bool

record parser_options =
  po_enabled :: bool
  po_provider :: string
  po_model :: string
  po_store_raw_turn :: bool
  po_max_facts :: int
  po_dedupe_threshold :: real
  po_update_threshold :: real
  po_answer_span_retention :: bool

record worker_options =
  wo_enabled :: bool
  wo_poll_interval :: int
  wo_batch_size :: int
  wo_worker_count :: int
  wo_lease :: int
  wo_max_attempts :: int
  wo_retry_base :: int
  wo_retry_max :: int

section \<open>Defaults\<close>

definition default_structured_options :: structured_options where
  "default_structured_options = \<lparr>so_enabled = False, so_dual_write_observations = False,
     so_dual_write_events = False, so_max_observations = 3\<rparr>"

definition default_ranking_options :: ranking_options where
  "default_ranking_options = \<lparr>rk_algorithm = ''wal'',
     rk_wal = \<lparr>ww_recency = 1, ww_relevance = 1, ww_importance = 1\<rparr>,
     rk_match = \<lparr>mw_recency = 5 / 100, mw_relevance = 70 / 100, mw_importance = 10 / 100,
       mw_query_overlap = 10 / 100, mw_routing = 5 / 100\<rparr>\<rparr>"

definition default_search_tuning :: search_tuning where
  "default_search_tuning = \<lparr>st_expansion_enabled = False, st_max_extra_queries = 2,
     st_weak_lexical_threshold = 62 / 100, st_plan_confidence_threshold = 0,
     st_window_multiplier = 5, st_window_min = 50, st_window_max = 200,
     st_window_temporal_boost = 40, st_window_multi_hop_boost = 80, st_window_filter_boost = 30,
     st_early_rerank_base = 25, st_early_rerank_max = 25\<rparr>"

definition default_retrieval_options :: retrieval_options where
  "default_retrieval_options = \<lparr>ro_answer_type_routing = True, ro_early_rank_rerank = True,
     ro_temporal_resolver = True, ro_open_domain_resolver = False,
     ro_profile_support_links = False, ro_search_tuning = default_search_tuning\<rparr>"

definition default_parser_options :: parser_options where
  "default_parser_options = \<lparr>po_enabled = False, po_provider = ''heuristic'', po_model = [],
     po_store_raw_turn = True, po_max_facts = 4, po_dedupe_threshold = 88 / 100,
     po_update_threshold = 94 / 100, po_answer_span_retention = False\<rparr>"

definition default_multi_hop_options :: multi_hop_options where
  "default_multi_hop_options = \<lparr>mh_entity_fact_bridge = True, mh_llm_decomposition = False,
     mh_max_decomposition_queries = 3, mh_pairwise_rerank = True,
     mh_token_expansion_fallback = True, mh_graph_path = False, mh_graph_max_hops = 2,
     mh_graph_seed_limit = 12, mh_graph_path_limit = 128, mh_graph_min_score = 12 / 100,
     mh_graph_weight = 25 / 100, mh_graph_temporal_validity = False,
     mh_graph_singleton_invalidation = True\<rparr>"

definition default_rerank_options :: rerank_options where
  "default_rerank_options = \<lparr>rr_enabled = True, rr_window = 50, rr_blend = 40 / 100\<rparr>"

definition default_worker_options :: worker_options where
  "default_worker_options = \<lparr>wo_enabled = True, wo_poll_interval = 250 * millisecond,
     wo_batch_size = 32, wo_worker_count = 2, wo_lease = 30 * second, wo_max_attempts = 5,
     wo_retry_base = 500 * millisecond, wo_retry_max = 60 * second\<rparr>"

section \<open>Normalisation\<close>

definition positive_or :: "int \<Rightarrow> int \<Rightarrow> int" where
  "positive_or d x = (if x \<le> 0 then d else x)"

definition nonneg_or :: "int \<Rightarrow> int \<Rightarrow> int" where
  "nonneg_or d x = (if x < 0 then d else x)"

definition unit_or :: "real \<Rightarrow> real \<Rightarrow> real" where
  "unit_or d x = (if x < 0 \<or> x > 1 then d else x)"

text \<open>\<open>if x < 0 { x = 0 }; if x > 1 { x = 1 }\<close>.\<close>

definition clip_unit :: "real \<Rightarrow> real" where
  "clip_unit x = (let y = (if x < 0 then 0 else x) in if y > 1 then 1 else y)"

definition apply_structured_options :: "structured_options \<Rightarrow> structured_options" where
  "apply_structured_options o' = o'\<lparr>so_max_observations :=
     positive_or (so_max_observations default_structured_options) (so_max_observations o')\<rparr>"

definition normalize_ranking_options :: "ranking_options \<Rightarrow> ranking_options" where
  "normalize_ranking_options inp =
     (let a0 = (if trim_space (rk_algorithm inp) = [] then rk_algorithm default_ranking_options
                else rk_algorithm inp);
          a1 = to_lower (trim_space a0);
          a2 = (if a1 \<noteq> ''match'' then ''wal'' else a1);
          w = rk_wal inp; m = rk_match inp in
      \<lparr>rk_algorithm = a2,
       rk_wal = (if ww_recency w + ww_relevance w + ww_importance w = 0
                 then rk_wal default_ranking_options else w),
       rk_match = (if mw_recency m + mw_relevance m + mw_importance m + mw_query_overlap m + mw_routing m = 0
                   then rk_match default_ranking_options else m)\<rparr>)"

definition normalize_search_tuning :: "search_tuning \<Rightarrow> search_tuning" where
  "normalize_search_tuning inp =
     (let def = default_search_tuning;
          wmin = positive_or (st_window_min def) (st_window_min inp);
          wmax = positive_or (st_window_max def) (st_window_max inp);
          ebase = positive_or (st_early_rerank_base def) (st_early_rerank_base inp);
          emax = positive_or (st_early_rerank_max def) (st_early_rerank_max inp) in
      \<lparr>st_expansion_enabled = st_expansion_enabled inp,
       st_max_extra_queries = positive_or (st_max_extra_queries def) (st_max_extra_queries inp),
       st_weak_lexical_threshold =
         unit_or (st_weak_lexical_threshold def) (st_weak_lexical_threshold inp),
       st_plan_confidence_threshold =
         unit_or (st_plan_confidence_threshold def) (st_plan_confidence_threshold inp),
       st_window_multiplier = positive_or (st_window_multiplier def) (st_window_multiplier inp),
       st_window_min = wmin,
       st_window_max = (if wmax < wmin then wmin else wmax),
       st_window_temporal_boost =
         nonneg_or (st_window_temporal_boost def) (st_window_temporal_boost inp),
       st_window_multi_hop_boost =
         nonneg_or (st_window_multi_hop_boost def) (st_window_multi_hop_boost inp),
       st_window_filter_boost =
         nonneg_or (st_window_filter_boost def) (st_window_filter_boost inp),
       st_early_rerank_base = ebase,
       st_early_rerank_max = (if emax < ebase then ebase else emax)\<rparr>)"

definition normalize_retrieval_options :: "retrieval_options \<Rightarrow> retrieval_options" where
  "normalize_retrieval_options inp =
     inp\<lparr>ro_search_tuning := normalize_search_tuning (ro_search_tuning inp)\<rparr>"

definition normalize_parser_options :: "parser_options \<Rightarrow> parser_options" where
  "normalize_parser_options inp =
     (let p = to_lower (trim_space (po_provider inp));
          dedupe = clip_unit (po_dedupe_threshold inp);
          upd = clip_unit (po_update_threshold inp) in
      inp\<lparr>po_provider := (if p = [] then po_provider default_parser_options else p),
        po_model := trim_space (po_model inp),
        po_max_facts := positive_or (po_max_facts default_parser_options) (po_max_facts inp),
        po_dedupe_threshold := (if dedupe > upd then upd else dedupe),
        po_update_threshold := upd\<rparr>)"

definition normalize_multi_hop_options :: "multi_hop_options \<Rightarrow> multi_hop_options" where
  "normalize_multi_hop_options inp =
     (let def = default_multi_hop_options in
      inp\<lparr>mh_max_decomposition_queries :=
            positive_or (mh_max_decomposition_queries def) (mh_max_decomposition_queries inp),
        mh_graph_max_hops := positive_or (mh_graph_max_hops def) (mh_graph_max_hops inp),
        mh_graph_seed_limit := positive_or (mh_graph_seed_limit def) (mh_graph_seed_limit inp),
        mh_graph_path_limit := positive_or (mh_graph_path_limit def) (mh_graph_path_limit inp),
        mh_graph_min_score := clip_unit (mh_graph_min_score inp),
        mh_graph_weight := clip_unit (mh_graph_weight inp)\<rparr>)"

definition normalize_rerank_options :: "rerank_options \<Rightarrow> rerank_options" where
  "normalize_rerank_options inp =
     (let def = default_rerank_options; b = clip_unit (rr_blend inp) in
      inp\<lparr>rr_window := positive_or (rr_window def) (rr_window inp),
        rr_blend := (if b = 0 then rr_blend def else b)\<rparr>)"

definition normalize_worker_options :: "worker_options \<Rightarrow> worker_options" where
  "normalize_worker_options inp =
     (let def = default_worker_options;
          base = positive_or (wo_retry_base def) (wo_retry_base inp);
          mx = positive_or (wo_retry_max def) (wo_retry_max inp) in
      inp\<lparr>wo_poll_interval := positive_or (wo_poll_interval def) (wo_poll_interval inp),
        wo_batch_size := positive_or (wo_batch_size def) (wo_batch_size inp),
        wo_worker_count := positive_or (wo_worker_count def) (wo_worker_count inp),
        wo_lease := positive_or (wo_lease def) (wo_lease inp),
        wo_max_attempts := positive_or (wo_max_attempts def) (wo_max_attempts inp),
        wo_retry_base := (if base > mx then mx else base),
        wo_retry_max := mx\<rparr>)"

section \<open>Properties\<close>

lemma positive_or_idem [simp]: "positive_or d (positive_or d x) = positive_or d x"
  by (simp add: positive_or_def)

lemma positive_or_pos: "0 < d \<Longrightarrow> 0 < positive_or d x"
  by (simp add: positive_or_def)

lemma positive_or_id: "0 < x \<Longrightarrow> positive_or d x = x"
  by (simp add: positive_or_def)

lemma clip_unit_range: "0 \<le> clip_unit x" "clip_unit x \<le> 1"
  by (simp_all add: clip_unit_def Let_def)

lemma clip_unit_id: "0 \<le> x \<Longrightarrow> x \<le> 1 \<Longrightarrow> clip_unit x = x"
  by (simp add: clip_unit_def Let_def)

lemmas default_options = default_structured_options_def default_ranking_options_def
  default_search_tuning_def default_retrieval_options_def default_parser_options_def
  default_multi_hop_options_def default_rerank_options_def default_worker_options_def

text \<open>What normalised search tuning and worker options guarantee to the code that reads them.\<close>

definition tuning_ok :: "search_tuning \<Rightarrow> bool" where
  "tuning_ok t \<longleftrightarrow> 0 < st_max_extra_queries t \<and> 0 < st_window_multiplier t \<and> 0 < st_window_min t \<and>
     st_window_min t \<le> st_window_max t \<and> 0 \<le> st_window_temporal_boost t \<and>
     0 \<le> st_window_multi_hop_boost t \<and> 0 \<le> st_window_filter_boost t \<and>
     0 \<le> st_weak_lexical_threshold t \<and> st_weak_lexical_threshold t \<le> 1 \<and>
     0 \<le> st_plan_confidence_threshold t \<and> st_plan_confidence_threshold t \<le> 1 \<and>
     0 < st_early_rerank_base t \<and> st_early_rerank_base t \<le> st_early_rerank_max t"

definition worker_ok :: "worker_options \<Rightarrow> bool" where
  "worker_ok w \<longleftrightarrow> 0 < wo_poll_interval w \<and> 0 < wo_batch_size w \<and> 0 < wo_worker_count w \<and>
     0 < wo_lease w \<and> 0 < wo_max_attempts w \<and> 0 < wo_retry_base w \<and> wo_retry_base w \<le> wo_retry_max w"

lemma normalize_search_tuning_ok: "tuning_ok (normalize_search_tuning t)"
  by (simp add: tuning_ok_def normalize_search_tuning_def Let_def positive_or_def nonneg_or_def
      unit_or_def default_search_tuning_def)

lemma normalize_worker_ok: "worker_ok (normalize_worker_options w)"
  by (simp add: worker_ok_def normalize_worker_options_def Let_def positive_or_def
      default_worker_options_def)

text \<open>Options in range are left alone.\<close>

lemma normalize_search_tuning_id: "tuning_ok t \<Longrightarrow> normalize_search_tuning t = t"
  by (simp add: tuning_ok_def normalize_search_tuning_def Let_def positive_or_def nonneg_or_def
      unit_or_def)

lemma normalize_worker_id: "worker_ok w \<Longrightarrow> normalize_worker_options w = w"
  by (simp add: worker_ok_def normalize_worker_options_def Let_def positive_or_def)

lemma normalize_ranking_idem:
  "normalize_ranking_options (normalize_ranking_options o') = normalize_ranking_options o'"
proof -
  have alg: "rk_algorithm (normalize_ranking_options x) = ''match'' \<or>
      rk_algorithm (normalize_ranking_options x) = ''wal''" for x
    by (simp add: normalize_ranking_options_def Let_def)
  have same: "trim_space ''match'' = ''match''" "trim_space ''wal'' = ''wal''"
    "to_lower ''match'' = ''match''" "to_lower ''wal'' = ''wal''"
    by (simp_all add: trim_space_def trim_left_def trim_right_def is_space_def to_lower_def
        lower_char_def)
  have "rk_algorithm (normalize_ranking_options y) = rk_algorithm y"
    if "rk_algorithm y = ''match'' \<or> rk_algorithm y = ''wal''" for y
    using that same by (auto simp: normalize_ranking_options_def Let_def)
  from this [OF alg [of o']]
  have 1: "rk_algorithm (normalize_ranking_options (normalize_ranking_options o'))
    = rk_algorithm (normalize_ranking_options o')" .
  have 2: "rk_wal (normalize_ranking_options (normalize_ranking_options o')) =
      rk_wal (normalize_ranking_options o')"
    by (simp add: normalize_ranking_options_def Let_def default_ranking_options_def)
  have 3: "rk_match (normalize_ranking_options (normalize_ranking_options o')) =
      rk_match (normalize_ranking_options o')"
    by (simp add: normalize_ranking_options_def Let_def default_ranking_options_def)
  show ?thesis by (rule ranking_options.equality) (simp_all add: 1 2 3)
qed

lemma normalize_parser_idem:
  "normalize_parser_options (normalize_parser_options p) = normalize_parser_options p"
proof -
  let ?n = "normalize_parser_options p"
  have prov: "to_lower (trim_space (po_provider ?n)) = po_provider ?n" "po_provider ?n \<noteq> []"
    by (simp_all add: normalize_parser_options_def Let_def str_norm default_parser_options_def
        trim_space_def [of "''heuristic''"] trim_left_def trim_right_def is_space_def
        to_lower_def [of "''heuristic''"] lower_char_def)
  have rest: "trim_space (po_model ?n) = po_model ?n" "0 < po_max_facts ?n"
    "0 \<le> po_dedupe_threshold ?n" "po_dedupe_threshold ?n \<le> po_update_threshold ?n"
    "po_update_threshold ?n \<le> 1"
    using clip_unit_range
    by (simp_all add: normalize_parser_options_def Let_def positive_or_def default_parser_options_def)
  have id: "normalize_parser_options q = q"
    if "to_lower (trim_space (po_provider q)) = po_provider q" "po_provider q \<noteq> []"
      "trim_space (po_model q) = po_model q" "0 < po_max_facts q"
      "0 \<le> po_dedupe_threshold q" "po_dedupe_threshold q \<le> po_update_threshold q"
      "po_update_threshold q \<le> 1" for q
    using that by (simp add: normalize_parser_options_def Let_def positive_or_id clip_unit_id)
  show ?thesis using prov rest by (rule id)
qed

lemma normalize_multi_hop_idem:
  "normalize_multi_hop_options (normalize_multi_hop_options m) = normalize_multi_hop_options m"
  by (simp add: normalize_multi_hop_options_def Let_def clip_unit_id clip_unit_range)

lemma normalize_rerank_idem:
  "normalize_rerank_options (normalize_rerank_options r) = normalize_rerank_options r"
  by (simp add: normalize_rerank_options_def Let_def clip_unit_id clip_unit_range
      default_rerank_options_def)

text \<open>Every normaliser of the options is idempotent, so options that went through one layer are
  not changed by the next; the search tuning and the worker options that come out are in the ranges
  the search and the workers rely on (positive limits, windows and leases, a retry base that is at
  most the retry maximum), and the ranking algorithm is one of the two that exist.\<close>

theorem options_normalised:
  "normalize_search_tuning (normalize_search_tuning t) = normalize_search_tuning t \<and>
   normalize_worker_options (normalize_worker_options w) = normalize_worker_options w \<and>
   normalize_ranking_options (normalize_ranking_options r) = normalize_ranking_options r \<and>
   normalize_parser_options (normalize_parser_options p) = normalize_parser_options p \<and>
   normalize_multi_hop_options (normalize_multi_hop_options m) = normalize_multi_hop_options m \<and>
   normalize_rerank_options (normalize_rerank_options k) = normalize_rerank_options k \<and>
   tuning_ok (normalize_search_tuning t) \<and> worker_ok (normalize_worker_options w) \<and>
   rk_algorithm (normalize_ranking_options r) \<in> {''wal'', ''match''}"
  using normalize_search_tuning_id [OF normalize_search_tuning_ok]
    normalize_worker_id [OF normalize_worker_ok] normalize_ranking_idem normalize_parser_idem
    normalize_multi_hop_idem normalize_rerank_idem normalize_search_tuning_ok normalize_worker_ok
  by (simp add: normalize_ranking_options_def Let_def)

end
