(* ===== verification/Sha256.thy ===== *)
theory Sha256
  imports World
begin

unbundle bit_operations_syntax

text \<open>
  \<open>sha256.New\<close>, \<open>Write\<close> and \<open>Sum\<close> of the standard library, which the program uses to name memories by
  their content: the function of FIPS 180-4 on byte sequences, with 32-bit words.
\<close>

type_synonym w32 = "32 word"

text \<open>The constants are the first 32 bits of the fractional parts of the cube roots of the first 64
  primes and of the square roots of the first 8, computed as integer roots of scaled primes.\<close>

definition small_primes :: "nat list" where
  "small_primes = filter (\<lambda>n. list_all (\<lambda>d. n mod d \<noteq> 0) [2..<n]) [2..<312]"

definition floor_root :: "nat \<Rightarrow> nat \<Rightarrow> nat" where
  "floor_root k n = fold (\<lambda>i r. if (r + 2 ^ i) ^ k \<le> n then r + 2 ^ i else r) (rev [0..<40]) 0"

definition root_word :: "nat \<Rightarrow> nat \<Rightarrow> w32" where
  "root_word k p = of_nat (floor_root k (p * 2 ^ (32 * k)))"

definition round_constants :: "w32 list" where
  "round_constants = map (root_word 3) small_primes"

definition initial_hash :: "w32 list" where
  "initial_hash = map (root_word 2) (take 8 small_primes)"

lemma first_primes: "filter (\<lambda>n. list_all (\<lambda>d. n mod d \<noteq> 0) [2..<n]) [2..<20] = [2, 3, 5, 7, 11, 13, 17, 19::nat]"
  by code_simp

lemma length_initial_hash [simp]: "length initial_hash = 8"
proof -
  have "[2..<312] = [2..<20] @ [20..<312::nat]" using upt_add_eq_append [of 2 20 292] by simp
  moreover have "take 8 ([2, 3, 5, 7, 11, 13, 17, 19] @ xs) = [2, 3, 5, 7, 11, 13, 17, 19]" for xs :: "nat list"
    by simp
  ultimately have "take 8 small_primes = [2, 3, 5, 7, 11, 13, 17, 19]"
    unfolding small_primes_def by (simp only: filter_append first_primes)
  then show ?thesis by (simp add: initial_hash_def)
qed

definition rotr :: "nat \<Rightarrow> w32 \<Rightarrow> w32" where
  "rotr n x = drop_bit n x OR push_bit (32 - n) x"

definition small_sigma0 :: "w32 \<Rightarrow> w32" where
  "small_sigma0 x = rotr 7 x XOR rotr 18 x XOR drop_bit 3 x"

definition small_sigma1 :: "w32 \<Rightarrow> w32" where
  "small_sigma1 x = rotr 17 x XOR rotr 19 x XOR drop_bit 10 x"

definition big_sigma0 :: "w32 \<Rightarrow> w32" where
  "big_sigma0 x = rotr 2 x XOR rotr 13 x XOR rotr 22 x"

definition big_sigma1 :: "w32 \<Rightarrow> w32" where
  "big_sigma1 x = rotr 6 x XOR rotr 11 x XOR rotr 25 x"

text \<open>The message schedule, newest word first.\<close>

primrec schedule_rev :: "nat \<Rightarrow> w32 list \<Rightarrow> w32 list" where
  "schedule_rev 0 ws = ws"
| "schedule_rev (Suc n) ws =
     schedule_rev n ((small_sigma1 (ws ! 1) + ws ! 6 + small_sigma0 (ws ! 14) + ws ! 15) # ws)"

definition schedule :: "w32 list \<Rightarrow> w32 list" where
  "schedule block = rev (schedule_rev 48 (rev block))"

definition hash_round :: "w32 \<times> w32 \<Rightarrow> w32 list \<Rightarrow> w32 list" where
  "hash_round kw s = (case s of [a, b, c, d, e, f, g, h] \<Rightarrow>
     (let t1 = h + big_sigma1 e + ((e AND f) XOR (NOT e AND g)) + fst kw + snd kw;
          t2 = big_sigma0 a + ((a AND b) XOR (a AND c) XOR (b AND c))
      in [t1 + t2, a, b, c, d + t1, e, f, g]) | _ \<Rightarrow> s)"

definition compress :: "w32 list \<Rightarrow> w32 list \<Rightarrow> w32 list" where
  "compress block s = map2 (+) s (fold hash_round (zip round_constants (schedule block)) s)"

definition bytes_be :: "nat \<Rightarrow> nat \<Rightarrow> 8 word list" where
  "bytes_be k n = map (\<lambda>i. of_nat (n div 256 ^ (k - 1 - i) mod 256)) [0..<k]"

definition pad_message :: "8 word list \<Rightarrow> 8 word list" where
  "pad_message bs = bs @ [0x80] @ replicate ((119 - length bs mod 64) mod 64) 0 @ bytes_be 8 (8 * length bs)"

fun words_of_bytes :: "8 word list \<Rightarrow> w32 list" where
  "words_of_bytes (a # b # c # d # bs) =
     of_nat (((unat a * 256 + unat b) * 256 + unat c) * 256 + unat d) # words_of_bytes bs"
| "words_of_bytes _ = []"

fun hash_blocks :: "w32 list \<Rightarrow> w32 list \<Rightarrow> w32 list" where
  "hash_blocks [] s = s"
| "hash_blocks (w # ws) s = hash_blocks (drop 15 ws) (compress (w # take 15 ws) s)"

definition sha256 :: "8 word list \<Rightarrow> 8 word list" where
  "sha256 bs = concat (map (\<lambda>x. bytes_be 4 (unat x)) (hash_blocks (words_of_bytes (pad_message bs)) initial_hash))"

definition bytes_of_string :: "string \<Rightarrow> 8 word list" where
  "bytes_of_string s = map (\<lambda>c. of_nat (of_char c)) s"

end
