(* ===== verification/Stamps.thy ===== *)
theory Stamps
  imports Domain
begin

text \<open>
  Timestamps as the SQLite tables hold them: TEXT columns written with
  \<open>t.UTC().Format(time.RFC3339Nano)\<close>, or the empty string where there is no time. SQL compares and
  sorts them as text. The layout has a fixed width up to the second, so that the order of the text
  is the order of the seconds; below the second RFC3339Nano drops the trailing zeros (and the dot
  when nothing is left), so that there the order is the lexicographic order of what it prints. The
  model is exact for the years 0 to 9999, outside of which the width changes.
\<close>

datatype stamp = NoStamp | Stamp gotime

section \<open>The fraction of a second, as printed\<close>

text \<open>The nine digits of a number of nanoseconds, most significant first, without trailing zeros.\<close>

fun digits_msb :: "nat \<Rightarrow> nat \<Rightarrow> nat list" where
  "digits_msb 0 n = []"
| "digits_msb (Suc k) n = (n div 10 ^ k) # digits_msb k (n mod 10 ^ k)"

fun drop_trailing_zeros :: "nat list \<Rightarrow> nat list" where
  "drop_trailing_zeros [] = []"
| "drop_trailing_zeros (d # ds) =
     (case drop_trailing_zeros ds of [] \<Rightarrow> (if d = 0 then [] else [d]) | ys \<Rightarrow> d # ys)"

definition digit_char :: "nat \<Rightarrow> char" where
  "digit_char d = char_of (48 + d)"

definition frac_text :: "nat \<Rightarrow> string" where
  "frac_text n = (let ds = drop_trailing_zeros (digits_msb 9 n) in
     (if ds = [] then [] else CHR ''.'' # map digit_char ds) @ ''Z'')"

definition time_second :: "gotime \<Rightarrow> int" where
  "time_second t = t div 10 ^ 9"

definition time_nanos :: "gotime \<Rightarrow> nat" where
  "time_nanos t = nat (t mod 10 ^ 9)"

section \<open>The printed fraction determines the nanoseconds\<close>

fun digits_val :: "nat \<Rightarrow> nat list \<Rightarrow> nat" where
  "digits_val k [] = 0"
| "digits_val k (d # ds) = d * 10 ^ (k - 1) + digits_val (k - 1) ds"

lemma digits_val_msb: "n < 10 ^ k \<Longrightarrow> digits_val k (digits_msb k n) = n"
proof (induction k arbitrary: n)
  case (Suc k)
  have "n mod 10 ^ k < 10 ^ k" by simp
  with Suc.IH show ?case by (simp add: div_mult_mod_eq)
qed simp

lemma digits_msb_bound: "n < 10 ^ k \<Longrightarrow> d \<in> set (digits_msb k n) \<Longrightarrow> d < 10"
proof (induction k arbitrary: n)
  case (Suc k)
  have "n div 10 ^ k < 10" using Suc.prems(1) by (simp add: less_mult_imp_div_less)
  moreover have "n mod 10 ^ k < 10 ^ k" by simp
  ultimately show ?case using Suc.prems(2) Suc.IH by fastforce
qed simp

lemma digits_val_drop: "digits_val k (drop_trailing_zeros ds) = digits_val k ds"
proof (induction ds arbitrary: k)
  case (Cons d ds)
  show ?case
    using Cons.IH [of "k - 1"] by (cases "drop_trailing_zeros ds") simp_all
qed simp

lemma set_drop_trailing_zeros: "set (drop_trailing_zeros ds) \<subseteq> set ds"
proof (induction ds)
  case (Cons d ds)
  then show ?case by (cases "drop_trailing_zeros ds") auto
qed simp

lemma digit_char_inj: "d < 10 \<Longrightarrow> e < 10 \<Longrightarrow> digit_char d = digit_char e \<Longrightarrow> d = e"
proof -
  assume d: "d < 10" and e: "e < 10" and eq: "digit_char d = digit_char e"
  have "(of_char (digit_char k) :: nat) = 48 + k" if "k < 10" for k
    using that unfolding digit_char_def by (simp add: of_char_of)
  from this [OF d] this [OF e] eq have "48 + d = 48 + e" by metis
  then show ?thesis by simp
qed

lemma map_digit_char_inj:
  "\<forall>d \<in> set ds. d < 10 \<Longrightarrow> \<forall>e \<in> set es. e < 10 \<Longrightarrow> map digit_char ds = map digit_char es \<Longrightarrow> ds = es"
proof (induction ds arbitrary: es)
  case (Cons d ds)
  then obtain e es' where "es = e # es'" by (cases es) auto
  with Cons show ?case by (auto intro: digit_char_inj)
qed simp

lemma frac_text_inj:
  assumes m: "m < 10 ^ 9" and n: "n < 10 ^ 9" and eq: "frac_text m = frac_text n"
  shows "m = n"
proof -
  let ?d = "\<lambda>n. drop_trailing_zeros (digits_msb 9 n)"
  have bound: "\<forall>d \<in> set (?d k). d < 10" if "k < 10 ^ 9" for k
    using digits_msb_bound [OF that] set_drop_trailing_zeros by blast
  have "(?d m = []) = (?d n = [])"
    using eq by (auto simp: frac_text_def Let_def split: if_splits)
  then have "map digit_char (?d m) = map digit_char (?d n)"
    using eq by (auto simp: frac_text_def Let_def split: if_splits)
  then have "?d m = ?d n" using bound [OF m] bound [OF n] by (rule_tac map_digit_char_inj)
  then have "digits_val 9 (digits_msb 9 m) = digits_val 9 (digits_msb 9 n)"
    by (metis digits_val_drop)
  then show ?thesis using digits_val_msb [OF m] digits_val_msb [OF n] by simp
qed

lemma time_nanos_less: "time_nanos t < 10 ^ 9"
  unfolding time_nanos_def by (simp add: nat_less_iff)

lemma time_split: "t = time_second t * 10 ^ 9 + int (time_nanos t)"
  unfolding time_second_def time_nanos_def by simp

section \<open>The order of the text\<close>

definition stamp_key :: "gotime \<Rightarrow> int \<times> string" where
  "stamp_key t = (time_second t, frac_text (time_nanos t))"

lemma stamp_key_inj: "stamp_key s = stamp_key t \<Longrightarrow> s = t"
  unfolding stamp_key_def
  using frac_text_inj [OF time_nanos_less time_nanos_less, of s t] time_split [of s] time_split [of t]
  by simp

instantiation stamp :: linorder
begin

definition less_eq_stamp :: "stamp \<Rightarrow> stamp \<Rightarrow> bool" where
  "less_eq_stamp s t = (case s of NoStamp \<Rightarrow> True
     | Stamp x \<Rightarrow> (case t of NoStamp \<Rightarrow> False | Stamp y \<Rightarrow> stamp_key x \<le> stamp_key y))"

definition less_stamp :: "stamp \<Rightarrow> stamp \<Rightarrow> bool" where
  "less_stamp s t = (s \<le> t \<and> \<not> t \<le> (s :: stamp))"

instance
proof
  fix x y z :: stamp
  show "(x < y) = (x \<le> y \<and> \<not> y \<le> x)" by (rule less_stamp_def)
  show "x \<le> x" by (simp add: less_eq_stamp_def split: stamp.split)
  show "x \<le> y \<Longrightarrow> y \<le> z \<Longrightarrow> x \<le> z"
    by (auto simp: less_eq_stamp_def split: stamp.splits)
  show "x \<le> y \<Longrightarrow> y \<le> x \<Longrightarrow> x = y"
    by (auto simp: less_eq_stamp_def split: stamp.splits intro: stamp_key_inj)
  show "x \<le> y \<or> y \<le> x" by (auto simp: less_eq_stamp_def split: stamp.splits)
qed

end

lemma NoStamp_least [simp]: "NoStamp \<le> s"
  by (simp add: less_eq_stamp_def)

lemma Stamp_le_NoStamp [simp]: "Stamp t \<le> NoStamp \<longleftrightarrow> False"
  by (simp add: less_eq_stamp_def)

lemma Stamp_le_iff: "Stamp s \<le> Stamp t \<longleftrightarrow> stamp_key s \<le> stamp_key t"
  by (simp add: less_eq_stamp_def)

lemma Stamp_le_seconds: "Stamp s \<le> Stamp t \<Longrightarrow> time_second s \<le> time_second t"
  by (auto simp: Stamp_le_iff stamp_key_def less_eq_prod_def)

text \<open>Text order implies time order up to the second.\<close>

lemma Stamp_le_second_bound: "Stamp s \<le> Stamp t \<Longrightarrow> s < t + 10 ^ 9"
proof -
  assume "Stamp s \<le> Stamp t"
  then have "time_second s \<le> time_second t" by (rule Stamp_le_seconds)
  then have "time_second s * 10 ^ 9 \<le> time_second t * 10 ^ 9" by simp
  moreover have "int (time_nanos s) < 10 ^ 9"
    using time_nanos_less [of s] of_nat_less_iff [of "time_nanos s" "10 ^ 9", where 'a = int] by simp
  ultimately show ?thesis using time_split [of s] time_split [of t] by linarith
qed

lemma Stamp_less_if_seconds: "time_second s < time_second t \<Longrightarrow> Stamp s \<le> Stamp t"
  by (simp add: Stamp_le_iff stamp_key_def less_eq_prod_def)

lemma Stamp_le_whole_seconds:
  "time_nanos s = 0 \<Longrightarrow> time_nanos t = 0 \<Longrightarrow> Stamp s \<le> Stamp t \<longleftrightarrow> s \<le> t"
  using time_split [of s] time_split [of t]
  by (auto simp: Stamp_le_iff stamp_key_def less_eq_prod_def)

section \<open>Parsing a column\<close>

text \<open>\<open>parseStoredTime\<close> and \<open>parseOptionalStoredTime\<close>: the empty string is an error for the
  first and the zero time for the second.\<close>

definition parse_stored_time :: "stamp \<Rightarrow> err + gotime" where
  "parse_stored_time s = (case s of NoStamp \<Rightarrow> Inl (ErrMsg ''cannot parse time'') | Stamp t \<Rightarrow> Inr t)"

definition parse_optional_stored_time :: "stamp \<Rightarrow> err + gotime" where
  "parse_optional_stored_time s = (case s of NoStamp \<Rightarrow> Inr zero_time | Stamp t \<Rightarrow> parse_stored_time (Stamp t))"

end
