(* ===== verification/Tables.thy ===== *)
theory Tables
  imports Stamps
begin

text \<open>
  The SQLite database of \<open>internal/repository/sqlite\<close>: one list of rows per table, in rowid order,
  and the generic pieces of the SQL statements (UPDATE ... WHERE with its number of affected rows,
  ORDER BY ... DESC, LIMIT). The schema is that of \<open>migrations.go\<close> with \<open>foreign_keys\<close> on. Columns
  that hold JSON (tags, answer metadata, embeddings) hold the decoded value.

  A statement is a function from the database to an error or a result and the next database; the
  repositories run it with \<open>exec\<close>. Rows that an ORDER BY leaves tied keep their rowid order.
\<close>

section \<open>Rows\<close>

record job_row =
  jr_id :: string
  jr_ingest :: string
  jr_tenant :: string
  jr_memory :: string
  jr_type :: job_type
  jr_status :: job_status
  jr_attempts :: int
  jr_max_attempts :: int
  jr_available_at :: stamp
  jr_lease_owner :: string
  jr_leased_until :: stamp
  jr_last_error :: string
  jr_created_at :: stamp
  jr_updated_at :: stamp

record index_row =
  xr_id :: string
  xr_tenant :: string
  xr_memory :: string
  xr_op :: index_op
  xr_state :: index_state
  xr_last_error :: string
  xr_attempts :: int
  xr_created_at :: stamp
  xr_updated_at :: stamp

record fts_row =
  ft_content :: string
  ft_tenant :: string
  ft_memory :: string

record embedding_row =
  er_tenant :: string
  er_memory :: string
  er_embedding :: "real list"
  er_updated_at :: stamp

text \<open>\<open>memory_id\<close> may be NULL.\<close>

record fact_row =
  fr_id :: string
  fr_tenant :: string
  fr_entity :: string
  fr_relation :: string
  fr_relation_raw :: string
  fr_value :: string
  fr_memory :: "string option"
  fr_observed_at :: stamp
  fr_valid_from :: stamp
  fr_valid_to :: stamp
  fr_invalidated_by :: string
  fr_created_at :: stamp

record database =
  db_tenants :: "tenant list"
  db_memories :: "memory list"
  db_fts :: "fts_row list"
  db_embeddings :: "embedding_row list"
  db_facts :: "fact_row list"
  db_index_jobs :: "index_row list"
  db_jobs :: "job_row list"

type_synonym 'a db_act = "(database, 'a) act"
type_synonym db_world = "database world"

definition empty_database :: database where
  "empty_database = \<lparr>db_tenants = [], db_memories = [], db_fts = [], db_embeddings = [],
     db_facts = [], db_index_jobs = [], db_jobs = []\<rparr>"

section \<open>Statements\<close>

definition update_where :: "('r \<Rightarrow> bool) \<Rightarrow> ('r \<Rightarrow> 'r) \<Rightarrow> 'r list \<Rightarrow> 'r list" where
  "update_where p f rs = map (\<lambda>r. if p r then f r else r) rs"

definition count_where :: "('r \<Rightarrow> bool) \<Rightarrow> 'r list \<Rightarrow> int" where
  "count_where p rs = int (length (filter p rs))"

text \<open>ORDER BY key DESC.\<close>

definition order_desc :: "('r \<Rightarrow> 'k::linorder) \<Rightarrow> 'r list \<Rightarrow> 'r list" where
  "order_desc key rs = rev (sort_key key (rev rs))"

text \<open>LIMIT n, for a positive n.\<close>

definition limit_rows :: "int \<Rightarrow> 'r list \<Rightarrow> 'r list" where
  "limit_rows n rs = take (nat n) rs"

text \<open>\<open>QueryRow(...).Scan\<close> of the first row, or \<open>sql.ErrNoRows\<close>.\<close>

definition err_no_rows :: err where
  "err_no_rows = ErrMsg ''sql: no rows in result set''"

definition first_row :: "'r list \<Rightarrow> err + 'r" where
  "first_row rs = (case rs of [] \<Rightarrow> Inl err_no_rows | r # _ \<Rightarrow> Inr r)"

text \<open>Lift a computation that may fail (parsing, validation) to an action.\<close>

definition lift_act :: "err + 'a \<Rightarrow> ('t, 'a) act" where
  "lift_act r w = (r, w)"

text \<open>The results of a loop that stops at the first failure.\<close>

fun map_result :: "('a \<Rightarrow> err + 'b) \<Rightarrow> 'a list \<Rightarrow> err + 'b list" where
  "map_result f [] = Inr []"
| "map_result f (x # xs) = (case f x of Inl e \<Rightarrow> Inl e | Inr y \<Rightarrow>
     (case map_result f xs of Inl e \<Rightarrow> Inl e | Inr ys \<Rightarrow> Inr (y # ys)))"

text \<open>\<open>cmpIndex\<close>: the position of an id, past the end when it is missing.\<close>

fun cmp_index :: "string list \<Rightarrow> string \<Rightarrow> nat" where
  "cmp_index [] x = 1"
| "cmp_index (i # is) x = (if i = x then 0 else Suc (cmp_index is x))"

section \<open>Lemmas\<close>

lemma update_where_simps [simp]:
  "update_where p f [] = []"
  "update_where p f (r # rs) = (if p r then f r else r) # update_where p f rs"
  by (simp_all add: update_where_def)

lemma length_update_where [simp]: "length (update_where p f rs) = length rs"
  by (simp add: update_where_def)

lemma set_update_where: "set (update_where p f rs) = f ` {r \<in> set rs. p r} \<union> {r \<in> set rs. \<not> p r}"
  by (auto simp: update_where_def)

lemma map_update_where: "(\<And>r. p r \<Longrightarrow> g (f r) = g r) \<Longrightarrow> map g (update_where p f rs) = map g rs"
  by (induction rs) auto

lemma update_where_none: "(\<And>r. r \<in> set rs \<Longrightarrow> \<not> p r) \<Longrightarrow> update_where p f rs = rs"
  by (induction rs) auto

lemma count_where_pos_iff: "0 < count_where p rs \<longleftrightarrow> (\<exists>r \<in> set rs. p r)"
  by (induction rs) (auto simp: count_where_def)

lemma count_where_zero_iff: "count_where p rs = 0 \<longleftrightarrow> (\<forall>r \<in> set rs. \<not> p r)"
  by (auto simp: count_where_def filter_empty_conv)

lemma count_where_key: "count_where (\<lambda>r. f r = i) rs \<noteq> 0 \<longleftrightarrow> i \<in> f ` set rs"
  unfolding count_where_zero_iff by auto

lemma first_row_filter: "first_row (filter p rs) = Inr r \<Longrightarrow> r \<in> set rs \<and> p r"
  by (induction rs) (auto simp: first_row_def split: if_splits)

lemma set_order_desc [simp]: "set (order_desc k rs) = set rs"
  by (simp add: order_desc_def)

lemma length_order_desc [simp]: "length (order_desc k rs) = length rs"
  by (simp add: order_desc_def)

lemma mset_order_desc [simp]: "mset (order_desc k rs) = mset rs"
  by (simp add: order_desc_def)

lemma sorted_order_desc: "sorted_wrt (\<lambda>a b. k b \<le> k a) (order_desc k rs)"
proof -
  have "sorted_wrt (\<lambda>a b. k a \<le> k b) (sort_key k (rev rs))"
    using sorted_sort_key [of k "rev rs"] by (simp add: sorted_wrt_map)
  then show ?thesis by (simp add: order_desc_def sorted_wrt_rev)
qed

lemma set_limit_rows: "set (limit_rows n rs) \<subseteq> set rs"
  by (simp add: limit_rows_def set_take_subset)

lemma length_limit_rows: "int (length (limit_rows n rs)) \<le> max 0 n"
  by (simp add: limit_rows_def)

lemma sorted_wrt_limit_rows: "sorted_wrt P rs \<Longrightarrow> sorted_wrt P (limit_rows n rs)"
  by (simp add: limit_rows_def sorted_wrt_take)

lemma lift_act_success [act_success]: "lift_act r w = (Inr x, w') \<longleftrightarrow> r = Inr x \<and> w' = w"
  by (auto simp: lift_act_def)

lemma keeps_lift [act_keeps]: "keeps P (lift_act r)"
  by (simp add: keeps_def lift_act_def)

lemma reads_lift [act_atomic]: "reads (lift_act r)"
  by (simp add: reads_def lift_act_def)

lemma map_result_total:
  "(\<And>x. x \<in> set xs \<Longrightarrow> f x = Inr (g x)) \<Longrightarrow> map_result f xs = Inr (map g xs)"
  by (induction xs) auto

lemma map_result_success:
  "map_result f xs = Inr ys \<Longrightarrow> length ys = length xs \<and> (\<forall>i < length xs. f (xs ! i) = Inr (ys ! i))"
  by (induction xs arbitrary: ys) (auto simp: less_Suc_eq_0_disj split: sum.splits)


text \<open>Sorting loaded rows by \<open>cmpIndex\<close> restores the order in which the ids were asked for.\<close>

lemma cmp_index_upt: "distinct ids \<Longrightarrow> map (cmp_index ids) ids = [0..<length ids]"
proof (induction ids)
  case (Cons i ids)
  have "map (cmp_index (i # ids)) ids = map (Suc \<circ> cmp_index ids) ids"
    using Cons.prems by (intro map_cong) auto
  also have "\<dots> = map Suc (map (cmp_index ids) ids)" by simp
  also have "\<dots> = map Suc [0..<length ids]" using Cons by (simp only: distinct.simps)
  also have "\<dots> = [Suc 0..<Suc (length ids)]" by (simp add: map_Suc_upt)
  finally have "map (cmp_index (i # ids)) (i # ids) = 0 # [Suc 0..<Suc (length ids)]" by simp
  then show ?case by (simp only: length_Cons upt_conv_Cons [OF zero_less_Suc])
qed simp

lemma cmp_index_inj: "distinct ids \<Longrightarrow> inj_on (cmp_index ids) (set ids)"
  by (metis cmp_index_upt distinct_map distinct_upt)

lemma order_by_ids:
  assumes ids: "distinct ids" and xs: "distinct (map key xs)" "set (map key xs) = set ids"
  shows "map key (sort_key (\<lambda>x. cmp_index ids (key x)) xs) = ids"
proof -
  let ?s = "sort_key (\<lambda>x. cmp_index ids (key x)) xs"
  have m: "mset ?s = mset xs" by simp
  then have "distinct (map key ?s)" using xs(1) by (metis mset_eq_imp_distinct_iff mset_map)
  moreover have set_s: "set (map key ?s) = set ids" using xs(2) by simp
  ultimately have d: "distinct (map (cmp_index ids) (map key ?s))"
    using cmp_index_inj [OF ids] by (subst distinct_map) (simp only: set_s)
  have "sorted (map (cmp_index ids) (map key ?s))"
    using sorted_sort_key [of "\<lambda>x. cmp_index ids (key x)" xs] by (simp add: comp_def)
  moreover have "set (map (cmp_index ids) (map key ?s)) = set (map (cmp_index ids) ids)"
    using set_s by (metis list.set_map)
  ultimately have "map (cmp_index ids) (map key ?s) = map (cmp_index ids) ids"
    using d cmp_index_upt [OF ids] by (intro sorted_distinct_set_unique) simp_all
  then show ?thesis
    using cmp_index_inj [OF ids] set_s by (metis Un_absorb inj_on_map_eq_map)
qed


lemma order_by_ids_filter:
  assumes ids: "distinct ids" and xs: "distinct (map key xs)"
    and sub: "\<And>i. i \<in> set ids \<Longrightarrow> P i \<longleftrightarrow> i \<in> key ` set xs" and all: "key ` set xs \<subseteq> set ids"
  shows "map key (sort_key (\<lambda>x. cmp_index ids (key x)) xs) = filter P ids"
proof -
  let ?s = "sort_key (\<lambda>x. cmp_index ids (key x)) xs"
  have set_s: "set (map key ?s) = set (filter P ids)" using sub all by auto
  have "mset ?s = mset xs" by simp
  then have "distinct (map key ?s)" using xs by (metis mset_eq_imp_distinct_iff mset_map)
  moreover have inj: "inj_on (cmp_index ids) (set (filter P ids))"
    using cmp_index_inj [OF ids] by (rule inj_on_subset) auto
  ultimately have d: "distinct (map (cmp_index ids) (map key ?s))"
    by (subst distinct_map) (simp only: set_s)
  have "sorted (map (cmp_index ids) (map key ?s))"
    using sorted_sort_key [of "\<lambda>x. cmp_index ids (key x)" xs] by (simp add: comp_def)
  moreover have "sorted (map (cmp_index ids) (filter P ids))"
  proof -
    have "sorted (map (cmp_index ids) ids)" by (simp add: cmp_index_upt [OF ids])
    then show ?thesis by (rule sorted_filter)
  qed
  moreover have "distinct (map (cmp_index ids) (filter P ids))"
    using ids inj by (simp add: distinct_map)
  moreover have "set (map (cmp_index ids) (map key ?s)) = set (map (cmp_index ids) (filter P ids))"
    using set_s by (metis list.set_map)
  ultimately have "map (cmp_index ids) (map key ?s) = map (cmp_index ids) (filter P ids)"
    using d by (intro sorted_distinct_set_unique) simp_all
  then show ?thesis
    using inj set_s by (metis Un_absorb inj_on_map_eq_map)
qed

end
