(* ===== verification/JobQueue.thy ===== *)
theory JobQueue
  imports Tables
begin

text \<open>
  The postprocess job queue of \<open>repository/sqlite/memory_jobs.go\<close>, with its statements of
  \<open>queries.go\<close>: enqueue (an upsert on tenant, memory and job type), claim, mark succeeded or
  failed, get and list. The first part translates the operations as actions on the database; the
  second gives the table functions they compute and shows that a successful run is exactly that
  function; the third has the table invariant and the queue as a step relation.
\<close>

section \<open>Supported types and statuses\<close>

definition is_job_type_supported :: "job_type \<Rightarrow> bool" where
  "is_job_type_supported t = (case t of ParserExtract \<Rightarrow> True | VectorUpsert \<Rightarrow> True | _ \<Rightarrow> False)"

definition is_status_supported :: "job_status \<Rightarrow> bool" where
  "is_status_supported s = (case s of Queued \<Rightarrow> True | Running \<Rightarrow> True | Succeeded \<Rightarrow> True
     | Failed \<Rightarrow> True | DeadLetter \<Rightarrow> True | _ \<Rightarrow> False)"

definition unique_valid_statuses :: "job_status list \<Rightarrow> job_status list" where
  "unique_valid_statuses xs = uniq (filter is_status_supported xs)"

definition unique_valid_types :: "job_type list \<Rightarrow> job_type list" where
  "unique_valid_types xs = uniq (filter is_job_type_supported xs)"

section \<open>Statements\<close>

text \<open>\<open>UpsertMemoryPostprocessJobSQL\<close>: the conflict on (tenant, memory, type) resets the row; a
  conflict on the primary key is an error.\<close>

definition job_key :: "job_row \<Rightarrow> string \<times> string \<times> job_type" where
  "job_key r = (jr_tenant r, jr_memory r, jr_type r)"

definition requeue_row :: "job_row \<Rightarrow> job_row \<Rightarrow> job_row" where
  "requeue_row excluded r = r\<lparr>jr_ingest := jr_ingest excluded, jr_status := Queued,
     jr_attempts := 0, jr_max_attempts := jr_max_attempts excluded,
     jr_available_at := jr_available_at excluded, jr_lease_owner := [],
     jr_leased_until := NoStamp, jr_last_error := [], jr_updated_at := jr_updated_at excluded\<rparr>"

definition upsert_job_rows :: "job_row \<Rightarrow> job_row list \<Rightarrow> err + job_row list" where
  "upsert_job_rows new rows =
     (if \<exists>r \<in> set rows. jr_id r = jr_id new then Inl ErrConstraint
      else if \<exists>r \<in> set rows. job_key r = job_key new
           then Inr (update_where (\<lambda>r. job_key r = job_key new) (requeue_row new) rows)
      else Inr (rows @ [new]))"

definition upsert_job_stmt :: "job_row \<Rightarrow> database \<Rightarrow> err + (unit \<times> database)" where
  "upsert_job_stmt new db = (case upsert_job_rows new (db_jobs db) of
     Inl e \<Rightarrow> Inl e | Inr rows \<Rightarrow> Inr ((), db\<lparr>db_jobs := rows\<rparr>))"

text \<open>\<open>ListMemoryPostprocessJobIDsForClaimSQL\<close>.\<close>

definition claimable :: "stamp \<Rightarrow> job_row \<Rightarrow> bool" where
  "claimable now r \<longleftrightarrow> jr_available_at r \<le> now \<and> (jr_status r = Queued \<or> jr_status r = Failed) \<and>
     (jr_leased_until r = NoStamp \<or> jr_leased_until r \<le> now)"

definition claim_order :: "job_row \<Rightarrow> stamp \<times> stamp" where
  "claim_order r = (jr_available_at r, jr_created_at r)"

definition claimable_ids :: "stamp \<Rightarrow> int \<Rightarrow> job_row list \<Rightarrow> string list" where
  "claimable_ids now limit rows =
     map jr_id (limit_rows limit (sort_key claim_order (filter (claimable now) rows)))"

text \<open>\<open>MarkMemoryPostprocessJobClaimedSQL\<close>, \<open>...SucceededSQL\<close> and \<open>...FailedSQL\<close>; the result is
  the number of affected rows.\<close>

definition claim_row :: "string \<Rightarrow> stamp \<Rightarrow> stamp \<Rightarrow> job_row \<Rightarrow> job_row" where
  "claim_row owner lease now r = r\<lparr>jr_status := Running, jr_lease_owner := owner,
     jr_leased_until := lease, jr_updated_at := now\<rparr>"

definition succeed_row :: "stamp \<Rightarrow> job_row \<Rightarrow> job_row" where
  "succeed_row now r = r\<lparr>jr_status := Succeeded, jr_last_error := [], jr_lease_owner := [],
     jr_leased_until := NoStamp, jr_updated_at := now\<rparr>"

definition fail_row :: "job_status \<Rightarrow> int \<Rightarrow> stamp \<Rightarrow> string \<Rightarrow> stamp \<Rightarrow> job_row \<Rightarrow> job_row" where
  "fail_row status attempts next_at msg now r = r\<lparr>jr_status := status, jr_attempts := attempts,
     jr_available_at := next_at, jr_last_error := msg, jr_lease_owner := [],
     jr_leased_until := NoStamp, jr_updated_at := now\<rparr>"

definition update_job_stmt ::
  "string \<Rightarrow> (job_row \<Rightarrow> job_row) \<Rightarrow> database \<Rightarrow> err + (int \<times> database)" where
  "update_job_stmt i f db = Inr (count_where (\<lambda>r. jr_id r = i) (db_jobs db),
     db\<lparr>db_jobs := update_where (\<lambda>r. jr_id r = i) f (db_jobs db)\<rparr>)"

section \<open>Operations\<close>

definition upsert_postprocess_job_tx :: "job_enqueue \<Rightarrow> stamp \<Rightarrow> string db_act" where
  "upsert_postprocess_job_tx job now =
     (if trim_space (je_tenant job) = [] \<or> trim_space (je_memory job) = [] then fail_act ErrInvalidInput
      else if \<not> is_job_type_supported (je_type job) then fail_act ErrInvalidInput
      else
        let max_attempts = (if je_max_attempts job \<le> 0 then 5 else je_max_attempts job) in
        bind_act (if trim_space (je_ingest job) = [] then new_id ''ing'' else return_act (je_ingest job))
          (\<lambda>ingest.
        bind_act (new_id ''ppj'') (\<lambda>i.
        bind_act (exec (upsert_job_stmt
          \<lparr>jr_id = i, jr_ingest = ingest, jr_tenant = je_tenant job, jr_memory = je_memory job,
           jr_type = je_type job, jr_status = Queued, jr_attempts = 0,
           jr_max_attempts = max_attempts, jr_available_at = now, jr_lease_owner = [],
           jr_leased_until = NoStamp, jr_last_error = [], jr_created_at = now,
           jr_updated_at = now\<rparr>)) (\<lambda>_.
        bind_act (query (\<lambda>db. first_row (filter (\<lambda>r. jr_tenant r = je_tenant job \<and>
             jr_memory r = je_memory job \<and> jr_type r = je_type job) (db_jobs db)))) (\<lambda>found.
        bind_act (lift_act found) (\<lambda>r. return_act (jr_id r)))))))"

definition enqueue_one :: "int \<Rightarrow> gotime \<Rightarrow> job_enqueue \<Rightarrow> postprocess_job db_act" where
  "enqueue_one default_max now job =
     (if trim_space (je_tenant job) = [] \<or> trim_space (je_memory job) = [] then fail_act ErrInvalidInput
      else if \<not> is_job_type_supported (je_type job) then fail_act ErrInvalidInput
      else
        let max_attempts = (if je_max_attempts job \<le> 0 then default_max else je_max_attempts job) in
        bind_act (if trim_space (je_ingest job) = [] then new_id ''ing'' else return_act (je_ingest job))
          (\<lambda>ingest.
        bind_act (upsert_postprocess_job_tx
            (job\<lparr>je_ingest := ingest, je_max_attempts := max_attempts\<rparr>) (Stamp now)) (\<lambda>i.
        return_act \<lparr>j_id = i, j_ingest = ingest, j_tenant = je_tenant job, j_memory = je_memory job,
          j_type = je_type job, j_status = Queued, j_attempts = 0, j_max_attempts = max_attempts,
          j_available_at = now, j_lease_owner = [], j_leased_until = zero_time, j_last_error = [],
          j_created_at = now, j_updated_at = now\<rparr>)))"

definition enqueue_postprocess_jobs :: "job_enqueue list \<Rightarrow> int \<Rightarrow> postprocess_job list db_act" where
  "enqueue_postprocess_jobs jobs default_max_attempts =
     (if jobs = [] then return_act []
      else
        let default_max = (if default_max_attempts \<le> 0 then 5 else default_max_attempts) in
        bind_act now_act (\<lambda>now. in_tx (map_act (enqueue_one default_max now) jobs)))"

text \<open>\<open>scanPostprocessJob\<close>.\<close>

definition scan_postprocess_job :: "job_row \<Rightarrow> err + postprocess_job" where
  "scan_postprocess_job r =
     (case parse_stored_time (jr_available_at r) of Inl e \<Rightarrow> Inl e | Inr available \<Rightarrow>
     (case parse_optional_stored_time (jr_leased_until r) of Inl e \<Rightarrow> Inl e | Inr leased \<Rightarrow>
     (case parse_stored_time (jr_created_at r) of Inl e \<Rightarrow> Inl e | Inr created \<Rightarrow>
     (case parse_stored_time (jr_updated_at r) of Inl e \<Rightarrow> Inl e | Inr updated \<Rightarrow>
        Inr \<lparr>j_id = jr_id r, j_ingest = jr_ingest r, j_tenant = jr_tenant r,
          j_memory = jr_memory r, j_type = jr_type r, j_status = jr_status r,
          j_attempts = jr_attempts r, j_max_attempts = jr_max_attempts r,
          j_available_at = available, j_lease_owner = jr_lease_owner r, j_leased_until = leased,
          j_last_error = jr_last_error r, j_created_at = created, j_updated_at = updated\<rparr>))))"

definition list_jobs_by_ids_tx :: "string list \<Rightarrow> postprocess_job list db_act" where
  "list_jobs_by_ids_tx raw =
     (let ids = uniq_trimmed raw in
      if ids = [] then return_act []
      else bind_act (query (\<lambda>db. filter (\<lambda>r. jr_id r \<in> set ids) (db_jobs db))) (\<lambda>rows.
           bind_act (lift_act (map_result scan_postprocess_job rows)) (\<lambda>loaded.
           return_act (sort_key (\<lambda>j. cmp_index ids (j_id j)) loaded))))"

definition claim_loop :: "string \<Rightarrow> stamp \<Rightarrow> stamp \<Rightarrow> string list \<Rightarrow> string list db_act" where
  "claim_loop owner lease now ids =
     fold_act (\<lambda>i claimed. bind_act (exec (update_job_stmt i (claim_row owner lease now)))
       (\<lambda>affected. return_act (if affected > 0 then claimed @ [i] else claimed))) ids []"

text \<open>The effective time and lease of a claim.\<close>

definition claim_lease :: "claim_options \<Rightarrow> gotime \<Rightarrow> gotime" where
  "claim_lease opts now = (if is_zero (co_lease_until opts) \<or> \<not> now < co_lease_until opts
                           then now + 30 * second else co_lease_until opts)"

definition claim_limit :: "claim_options \<Rightarrow> int" where
  "claim_limit opts = (if co_limit opts \<le> 0 then 1 else co_limit opts)"

definition claim_postprocess_jobs :: "claim_options \<Rightarrow> postprocess_job list db_act" where
  "claim_postprocess_jobs opts =
     (let owner = trim_space (co_owner opts) in
      if owner = [] then fail_act ErrInvalidInput
      else
        bind_act (if is_zero (co_now opts) then now_act else return_act (co_now opts)) (\<lambda>now.
        in_tx_if
          (bind_act (query (\<lambda>db. claimable_ids (Stamp now) (claim_limit opts) (db_jobs db))) (\<lambda>ids.
           if ids = [] then return_act (False, [])
           else bind_act (claim_loop owner (Stamp (claim_lease opts now)) (Stamp now) ids) (\<lambda>claimed.
                if claimed = [] then return_act (False, [])
                else bind_act (list_jobs_by_ids_tx claimed) (\<lambda>jobs. return_act (True, jobs)))))))"

definition mark_postprocess_job_succeeded :: "string \<Rightarrow> gotime \<Rightarrow> unit db_act" where
  "mark_postprocess_job_succeeded raw now =
     (let i = trim_space raw in
      if i = [] then fail_act ErrInvalidInput
      else bind_act (if is_zero now then now_act else return_act now) (\<lambda>t.
           bind_act (exec (update_job_stmt i (succeed_row (Stamp t)))) (\<lambda>affected.
           if affected = 0 then fail_act ErrNotFound else return_act ())))"

definition mark_postprocess_job_failed ::
  "string \<Rightarrow> gotime \<Rightarrow> gotime \<Rightarrow> int \<Rightarrow> job_status \<Rightarrow> string \<Rightarrow> unit db_act" where
  "mark_postprocess_job_failed raw now next_available attempts status last_error =
     (let i = trim_space raw in
      if i = [] then fail_act ErrInvalidInput
      else if status \<noteq> Failed \<and> status \<noteq> DeadLetter then fail_act ErrInvalidInput
      else if attempts < 0 then fail_act ErrInvalidInput
      else bind_act (if is_zero now then now_act else return_act now) (\<lambda>t.
           let next_at = (if is_zero next_available then t else next_available) in
           bind_act (exec (update_job_stmt i
             (fail_row status attempts (Stamp next_at) (trim_space last_error) (Stamp t)))) (\<lambda>affected.
           if affected = 0 then fail_act ErrNotFound else return_act ())))"

definition get_postprocess_job :: "string \<Rightarrow> postprocess_job option db_act" where
  "get_postprocess_job raw =
     (let i = trim_space raw in
      if i = [] then fail_act ErrInvalidInput
      else bind_act (query (\<lambda>db. filter (\<lambda>r. jr_id r = i) (db_jobs db))) (\<lambda>rows.
           case rows of [] \<Rightarrow> return_act None
           | r # _ \<Rightarrow> bind_act (lift_act (scan_postprocess_job r)) (\<lambda>j. return_act (Some j))))"

definition list_filter :: "job_filter \<Rightarrow> job_row \<Rightarrow> bool" where
  "list_filter flt r \<longleftrightarrow>
     (trim_space (jf_tenant flt) \<noteq> [] \<longrightarrow> jr_tenant r = trim_space (jf_tenant flt)) \<and>
     (unique_valid_statuses (jf_statuses flt) \<noteq> [] \<longrightarrow>
        jr_status r \<in> set (unique_valid_statuses (jf_statuses flt))) \<and>
     (unique_valid_types (jf_types flt) \<noteq> [] \<longrightarrow>
        jr_type r \<in> set (unique_valid_types (jf_types flt)))"

definition list_limit :: "int \<Rightarrow> int" where
  "list_limit n = (let l = (if n \<le> 0 then 50 else n) in if l > 200 then 200 else l)"

definition list_postprocess_jobs :: "job_filter \<Rightarrow> postprocess_job list db_act" where
  "list_postprocess_jobs flt =
     bind_act (query (\<lambda>db. limit_rows (list_limit (jf_limit flt))
        (order_desc jr_updated_at (filter (list_filter flt) (db_jobs db))))) (\<lambda>rows.
     lift_act (map_result scan_postprocess_job rows))"

section \<open>The table invariant\<close>

text \<open>Identifiers and (tenant, memory, type) keys are unique; a row is leased exactly while it
  runs; its type and status are among those the code knows, its counters are in range and the times
  that are read back as required ones are present.\<close>

definition job_row_ok :: "job_row \<Rightarrow> bool" where
  "job_row_ok r \<longleftrightarrow> word (jr_id r) \<and> trim_space (jr_tenant r) \<noteq> [] \<and> trim_space (jr_memory r) \<noteq> [] \<and>
     is_job_type_supported (jr_type r) \<and> is_status_supported (jr_status r) \<and>
     0 \<le> jr_attempts r \<and> 0 < jr_max_attempts r \<and>
     jr_available_at r \<noteq> NoStamp \<and> jr_created_at r \<noteq> NoStamp \<and> jr_updated_at r \<noteq> NoStamp \<and>
     (jr_status r = Running \<longleftrightarrow> jr_leased_until r \<noteq> NoStamp) \<and>
     (jr_status r = Running \<longleftrightarrow> jr_lease_owner r \<noteq> [])"

definition job_table_ok :: "job_row list \<Rightarrow> bool" where
  "job_table_ok rows \<longleftrightarrow> distinct (map jr_id rows) \<and> distinct (map job_key rows) \<and>
     (\<forall>r \<in> set rows. job_row_ok r)"

abbreviation jobs_ok :: "database \<Rightarrow> bool" where
  "jobs_ok db \<equiv> job_table_ok (db_jobs db)"

lemma job_row_okD:
  "job_row_ok r \<Longrightarrow> word (jr_id r)"
  "job_row_ok r \<Longrightarrow> trim_space (jr_id r) = jr_id r"
  by (simp_all add: job_row_ok_def trim_space_word)

lemma job_table_okD:
  "job_table_ok rows \<Longrightarrow> distinct (map jr_id rows)"
  "job_table_ok rows \<Longrightarrow> distinct (map job_key rows)"
  "job_table_ok rows \<Longrightarrow> r \<in> set rows \<Longrightarrow> job_row_ok r"
  by (simp_all add: job_table_ok_def)

text \<open>An update that keeps the identifier and the key of the rows it changes, and leaves them well
  formed, keeps the table well formed.\<close>

lemma job_table_ok_update:
  assumes ok: "job_table_ok rows"
    and same: "\<And>r. jr_id (f r) = jr_id r" "\<And>r. job_key (f r) = job_key r"
    and good: "\<And>r. r \<in> set rows \<Longrightarrow> p r \<Longrightarrow> job_row_ok (f r)"
  shows "job_table_ok (update_where p f rows)"
  unfolding job_table_ok_def
proof (intro conjI ballI)
  show "distinct (map jr_id (update_where p f rows))"
    using job_table_okD(1) [OF ok] same(1) by (simp add: map_update_where)
  show "distinct (map job_key (update_where p f rows))"
    using job_table_okD(2) [OF ok] same(2) by (simp add: map_update_where)
next
  fix r assume "r \<in> set (update_where p f rows)"
  then show "job_row_ok r"
    using job_table_okD(3) [OF ok] good by (auto simp: set_update_where)
qed

lemma row_update_key [simp]:
  "job_key (requeue_row n r) = job_key r" "jr_id (requeue_row n r) = jr_id r"
  "job_key (claim_row ow l t r) = job_key r" "jr_id (claim_row ow l t r) = jr_id r"
  "job_key (succeed_row t r) = job_key r" "jr_id (succeed_row t r) = jr_id r"
  "job_key (fail_row s a na m t r) = job_key r" "jr_id (fail_row s a na m t r) = jr_id r"
  by (simp_all add: job_key_def requeue_row_def claim_row_def succeed_row_def fail_row_def)

lemma requeue_row_ok:
  "job_row_ok r \<Longrightarrow> job_row_ok n \<Longrightarrow> jr_status n = Queued \<Longrightarrow> job_row_ok (requeue_row n r)"
  by (simp add: job_row_ok_def requeue_row_def is_status_supported_def)

lemma claim_row_ok:
  "job_row_ok r \<Longrightarrow> ow \<noteq> [] \<Longrightarrow> job_row_ok (claim_row ow (Stamp l) (Stamp t) r)"
  by (simp add: job_row_ok_def claim_row_def is_status_supported_def)

lemma succeed_row_ok: "job_row_ok r \<Longrightarrow> job_row_ok (succeed_row (Stamp t) r)"
  by (simp add: job_row_ok_def succeed_row_def is_status_supported_def)

lemma fail_row_ok:
  "job_row_ok r \<Longrightarrow> s = Failed \<or> s = DeadLetter \<Longrightarrow> 0 \<le> a \<Longrightarrow>
   job_row_ok (fail_row s a (Stamp na) m (Stamp t) r)"
  by (auto simp: job_row_ok_def fail_row_def is_status_supported_def)

lemma upsert_job_rows_ok:
  assumes ok: "job_table_ok rows" and new: "job_row_ok new" "jr_status new = Queued"
    and up: "upsert_job_rows new rows = Inr rows'"
  shows "job_table_ok rows'"
proof (cases "\<exists>r \<in> set rows. job_key r = job_key new")
  case True
  with up have "rows' = update_where (\<lambda>r. job_key r = job_key new) (requeue_row new) rows"
    by (auto simp: upsert_job_rows_def split: if_splits)
  then show ?thesis
    using job_table_ok_update [OF ok] job_table_okD(3) [OF ok] requeue_row_ok new by simp
next
  case False
  with up have "rows' = rows @ [new]" and "\<forall>r \<in> set rows. jr_id r \<noteq> jr_id new"
    by (auto simp: upsert_job_rows_def split: if_splits)
  then show ?thesis using ok new(1) False by (auto simp: job_table_ok_def)
qed

text \<open>Every operation keeps it, whatever fails on the way.\<close>

lemma keeps_update_job:
  assumes "\<And>r. jr_id (f r) = jr_id r" "\<And>r. job_key (f r) = job_key r"
    and "\<And>r. job_row_ok r \<Longrightarrow> job_row_ok (f r)"
  shows "keeps jobs_ok (exec (update_job_stmt i f))"
proof (rule keeps_exec)
  fix t x t' assume ok: "jobs_ok t" and run: "update_job_stmt i f t = Inr (x, t')"
  have "job_table_ok (update_where (\<lambda>r. jr_id r = i) f (db_jobs t))"
    using assms job_table_okD(3) [OF ok] by (intro job_table_ok_update [OF ok]) auto
  with run show "jobs_ok t'" by (auto simp: update_job_stmt_def)
qed

lemma keeps_upsert_job:
  assumes "job_row_ok new" "jr_status new = Queued"
  shows "keeps jobs_ok (exec (upsert_job_stmt new))"
  by (rule keeps_exec) (auto simp: upsert_job_stmt_def intro: upsert_job_rows_ok [OF _ assms]
      split: sum.splits)

lemma word_ppj: "word ''ppj''" and word_ing: "word ''ing''" and word_idx: "word ''idx''"
  and word_mem: "word ''mem''" and word_fact: "word ''fact''"
  by (simp_all add: word_def is_space_def)

lemma keeps_upsert_postprocess_job: "keeps jobs_ok (upsert_postprocess_job_tx job (Stamp t))"
  unfolding upsert_postprocess_job_tx_def Let_def
  by (intro act_keeps keeps_upsert_job)
     (auto simp: job_row_ok_def is_status_supported_def dest: new_id_word [OF _ word_ppj])

lemma keeps_enqueue: "keeps jobs_ok (enqueue_postprocess_jobs jobs m)"
  unfolding enqueue_postprocess_jobs_def enqueue_one_def Let_def
  by (intro act_keeps keeps_upsert_postprocess_job)

lemma keeps_list_by_ids: "keeps P (list_jobs_by_ids_tx ids)"
  unfolding list_jobs_by_ids_tx_def Let_def by (intro act_keeps)

lemma keeps_claim_loop:
  "ow \<noteq> [] \<Longrightarrow> keeps jobs_ok (claim_loop ow (Stamp l) (Stamp t) ids)"
  unfolding claim_loop_def
  by (intro act_keeps keeps_update_job) (simp_all add: claim_row_ok)

lemma keeps_claim: "keeps jobs_ok (claim_postprocess_jobs opts)"
  unfolding claim_postprocess_jobs_def Let_def
  by (intro act_keeps keeps_claim_loop keeps_list_by_ids)

lemma keeps_mark_succeeded: "keeps jobs_ok (mark_postprocess_job_succeeded i t)"
  unfolding mark_postprocess_job_succeeded_def Let_def
  by (intro act_keeps keeps_update_job) (simp_all add: succeed_row_ok)

lemma keeps_mark_failed: "keeps jobs_ok (mark_postprocess_job_failed i t na a s m)"
  unfolding mark_postprocess_job_failed_def Let_def
  by (intro act_keeps keeps_update_job) (auto intro: fail_row_ok)

lemma keeps_get_job: "keeps P (get_postprocess_job i)"
  unfolding get_postprocess_job_def Let_def
  by (intro act_keeps) (auto intro!: act_keeps split: list.split)

lemma keeps_list_jobs: "keeps P (list_postprocess_jobs flt)"
  unfolding list_postprocess_jobs_def by (intro act_keeps)


section \<open>What the operations compute\<close>

definition stamp_time :: "stamp \<Rightarrow> gotime" where
  "stamp_time s = (case s of NoStamp \<Rightarrow> zero_time | Stamp t \<Rightarrow> t)"

lemma stamp_time_Stamp [simp]: "stamp_time (Stamp t) = t"
  by (simp add: stamp_time_def)

text \<open>The job that is read back from a well-formed row.\<close>

definition job_of_row :: "job_row \<Rightarrow> postprocess_job" where
  "job_of_row r = \<lparr>j_id = jr_id r, j_ingest = jr_ingest r, j_tenant = jr_tenant r,
     j_memory = jr_memory r, j_type = jr_type r, j_status = jr_status r,
     j_attempts = jr_attempts r, j_max_attempts = jr_max_attempts r,
     j_available_at = stamp_time (jr_available_at r), j_lease_owner = jr_lease_owner r,
     j_leased_until = stamp_time (jr_leased_until r), j_last_error = jr_last_error r,
     j_created_at = stamp_time (jr_created_at r), j_updated_at = stamp_time (jr_updated_at r)\<rparr>"

lemma scan_job_ok: "job_row_ok r \<Longrightarrow> scan_postprocess_job r = Inr (job_of_row r)"
  by (auto simp: job_row_ok_def scan_postprocess_job_def job_of_row_def parse_stored_time_def
      parse_optional_stored_time_def stamp_time_def split: stamp.splits)

lemma scan_jobs_ok:
  "(\<And>r. r \<in> set rows \<Longrightarrow> job_row_ok r) \<Longrightarrow>
   map_result scan_postprocess_job rows = Inr (map job_of_row rows)"
  by (simp add: map_result_total scan_job_ok)

lemma j_id_job_of_row [simp]: "j_id (job_of_row r) = jr_id r"
  by (simp add: job_of_row_def)

lemma j_id_comp_job_of_row [simp]: "j_id \<circ> job_of_row = jr_id"
  by (simp add: fun_eq_iff)

lemma list_jobs_by_ids_run:
  assumes run: "list_jobs_by_ids_tx ids w = (Inr jobs, w')" and ok: "jobs_ok (tabs w)"
    and ids: "distinct ids" "set ids \<subseteq> jr_id ` set (db_jobs (tabs w))"
  shows "tabs w' = tabs w" and "map j_id jobs = ids"
    and "set jobs = job_of_row ` {r \<in> set (db_jobs (tabs w)). jr_id r \<in> set ids}"
proof -
  let ?rows = "filter (\<lambda>r. jr_id r \<in> set ids) (db_jobs (tabs w))"
  have word: "\<forall>i \<in> set ids. word i"
    using ids(2) job_table_okD(3) [OF ok] job_row_okD(1) by blast
  have "map trim_space ids = ids" using word by (intro map_idI) (simp add: trim_space_word)
  moreover have "filter (\<lambda>s. s \<noteq> []) ids = ids" using word by (auto simp: word_def intro!: filter_True)
  ultimately have uniq: "uniq_trimmed ids = ids"
    using ids(1) by (simp add: uniq_trimmed_def uniq_from_distinct)
  have scan: "map_result scan_postprocess_job ?rows = Inr (map job_of_row ?rows)"
    using job_table_okD(3) [OF ok] by (intro scan_jobs_ok) auto
  have "tabs w' = tabs w \<and> jobs = sort_key (\<lambda>j. cmp_index ids (j_id j)) (map job_of_row ?rows)"
  proof (cases "ids = []")
    case True
    with run show ?thesis by (simp add: list_jobs_by_ids_tx_def uniq_trimmed_def Let_def return_act_def)
  next
    case False
    with run obtain rows loaded w1 w2 where
      q: "query (\<lambda>db. filter (\<lambda>r. jr_id r \<in> set ids) (db_jobs db)) w = (Inr rows, w1)"
      and l: "lift_act (map_result scan_postprocess_job rows) w1 = (Inr loaded, w2)"
      and r: "return_act (sort_key (\<lambda>j. cmp_index ids (j_id j)) loaded) w2 = (Inr jobs, w')"
      by (auto simp: list_jobs_by_ids_tx_def uniq Let_def elim!: bind_actE)
    have "rows = ?rows" "tabs w1 = tabs w" using queryE [OF q] by simp_all
    with l r scan show ?thesis by (simp add: act_success)
  qed
  then have t: "tabs w' = tabs w"
    and j: "jobs = sort_key (\<lambda>j. cmp_index ids (j_id j)) (map job_of_row ?rows)" by simp_all
  have keys: "map j_id (map job_of_row ?rows) = map jr_id ?rows" by simp
  have d: "distinct (map jr_id ?rows)"
    using job_table_okD(1) [OF ok] by (simp add: distinct_map_filter)
  have "set (map jr_id ?rows) = set ids" using ids(2) by auto
  then show "map j_id jobs = ids"
    unfolding j using order_by_ids [OF ids(1), of j_id "map job_of_row ?rows"] d keys by simp
  show "tabs w' = tabs w" by (rule t)
  show "set jobs = job_of_row ` {r \<in> set (db_jobs (tabs w)). jr_id r \<in> set ids}"
    unfolding j by auto
qed

text \<open>The loop that claims: all the rows with a listed id, and no other.\<close>

lemma update_job_run:
  assumes "exec (update_job_stmt i f) w = (Inr n, w')"
  shows "n = count_where (\<lambda>r. jr_id r = i) (db_jobs (tabs w))"
    and "tabs w' = (tabs w)\<lparr>db_jobs := update_where (\<lambda>r. jr_id r = i) f (db_jobs (tabs w))\<rparr>"
  using exec_successD [OF assms] by (simp_all add: update_job_stmt_def)

lemma claim_rows_twice:
  "update_where (\<lambda>r. jr_id r \<in> I) (claim_row ow l t) (update_where (\<lambda>r. jr_id r = i) (claim_row ow l t) rows)
   = update_where (\<lambda>r. jr_id r = i \<or> jr_id r \<in> I) (claim_row ow l t) rows"
  by (induction rows) (auto simp: claim_row_def)

lemma ids_update [simp]: "jr_id ` set (update_where p (claim_row ow l t) rows) = jr_id ` set rows"
  by (metis list.set_map map_update_where row_update_key(4))

lemma claim_loop_run:
  assumes "fold_act (\<lambda>i claimed. bind_act (exec (update_job_stmt i (claim_row ow l t)))
       (\<lambda>affected. return_act (if affected > 0 then claimed @ [i] else claimed))) ids acc w = (Inr out, w')"
  shows "out = acc @ filter (\<lambda>i. i \<in> jr_id ` set (db_jobs (tabs w))) ids \<and>
    tabs w' = (tabs w)\<lparr>db_jobs := update_where (\<lambda>r. jr_id r \<in> set ids) (claim_row ow l t) (db_jobs (tabs w))\<rparr>"
  using assms
proof (induction ids arbitrary: acc w)
  case Nil
  then show ?case by (simp add: act_success update_where_none)
next
  case (Cons i ids)
  from Cons.prems obtain n acc' w1 w2 where
    up: "exec (update_job_stmt i (claim_row ow l t)) w = (Inr n, w1)"
    and acc: "return_act (if n > 0 then acc @ [i] else acc) w1 = (Inr acc', w2)"
    and rest: "fold_act (\<lambda>i claimed. bind_act (exec (update_job_stmt i (claim_row ow l t)))
       (\<lambda>affected. return_act (if affected > 0 then claimed @ [i] else claimed))) ids acc' w2 = (Inr out, w')"
    by (auto elim!: bind_actE)
  have w2: "w2 = w1" and acc': "acc' = (if n > 0 then acc @ [i] else acc)"
    using acc by (simp_all add: act_success)
  have n: "n > 0 \<longleftrightarrow> i \<in> jr_id ` set (db_jobs (tabs w))"
    unfolding update_job_run(1) [OF up] count_where_pos_iff by auto
  note IH = Cons.IH [OF rest]
  have "out = acc @ filter (\<lambda>i. i \<in> jr_id ` set (db_jobs (tabs w))) (i # ids)"
    using IH n acc' by (simp add: w2 update_job_run(2) [OF up])
  moreover have "tabs w' = (tabs w)\<lparr>db_jobs :=
      update_where (\<lambda>r. jr_id r \<in> set (i # ids)) (claim_row ow l t) (db_jobs (tabs w))\<rparr>"
    using IH by (simp add: w2 update_job_run(2) [OF up] claim_rows_twice)
  ultimately show ?case by simp
qed


text \<open>The rows after a claim.\<close>

definition claim_rows :: "string \<Rightarrow> gotime \<Rightarrow> gotime \<Rightarrow> string list \<Rightarrow> job_row list \<Rightarrow> job_row list" where
  "claim_rows ow lease now ids rows =
     update_where (\<lambda>r. jr_id r \<in> set ids) (claim_row ow (Stamp lease) (Stamp now)) rows"

lemma claim_lease_after: "now < claim_lease opts now"
  by (simp add: claim_lease_def)

lemma claimable_ids_subset: "set (claimable_ids now l rows) \<subseteq> jr_id ` set rows"
  using set_limit_rows by (fastforce simp: claimable_ids_def)

lemma claimable_ids_distinct: "distinct (map jr_id rows) \<Longrightarrow> distinct (claimable_ids now l rows)"
proof -
  assume d: "distinct (map jr_id rows)"
  have "mset (map jr_id (sort_key claim_order (filter (claimable now) rows)))
      = mset (map jr_id (filter (claimable now) rows))" by simp
  then have "distinct (map jr_id (sort_key claim_order (filter (claimable now) rows)))"
    using distinct_map_filter [OF d] mset_eq_imp_distinct_iff by blast
  then show ?thesis by (simp add: claimable_ids_def limit_rows_def take_map [symmetric])
qed

lemma claim_run:
  assumes run: "claim_postprocess_jobs opts w = (Inr jobs, w')" and ok: "jobs_ok (tabs w)"
  obtains now where "\<not> is_zero (co_now opts) \<longrightarrow> now = co_now opts"
    and "map j_id jobs = claimable_ids (Stamp now) (claim_limit opts) (db_jobs (tabs w))"
    and "tabs w' = (tabs w)\<lparr>db_jobs := claim_rows (trim_space (co_owner opts)) (claim_lease opts now) now
           (map j_id jobs) (db_jobs (tabs w))\<rparr>"
    and "set jobs = job_of_row ` {r \<in> set (db_jobs (tabs w')). jr_id r \<in> set (map j_id jobs)}"
    and "trim_space (co_owner opts) \<noteq> []"
proof -
  let ?ow = "trim_space (co_owner opts)"
  have ow: "?ow \<noteq> []"
    using run by (auto simp: claim_postprocess_jobs_def fail_act_def)
  let ?body = "\<lambda>now. bind_act (query (\<lambda>db. claimable_ids (Stamp now) (claim_limit opts) (db_jobs db))) (\<lambda>ids.
           if ids = [] then return_act (False, [])
           else bind_act (claim_loop ?ow (Stamp (claim_lease opts now)) (Stamp now) ids) (\<lambda>claimed.
                if claimed = [] then return_act (False, [])
                else bind_act (list_jobs_by_ids_tx claimed) (\<lambda>jobs. return_act (True, jobs))))"
  from run ow obtain now w0 where
    now: "(if is_zero (co_now opts) then now_act else return_act (co_now opts)) w = (Inr now, w0)"
    and tx: "in_tx_if (?body now) w0 = (Inr jobs, w')"
    by (auto simp: claim_postprocess_jobs_def Let_def elim!: bind_actE)
  have now1: "\<not> is_zero (co_now opts) \<longrightarrow> now = co_now opts" and t0: "tabs w0 = tabs w"
    using now by (auto simp: act_success split: if_splits)
  obtain b w2 where body: "?body now (tick w0) = (Inr (b, jobs), w2)"
    and tw: "tabs w' = (if b then tabs w2 else tabs w0)"
    using in_tx_if_success [OF tx] by blast
  let ?ids = "claimable_ids (Stamp now) (claim_limit opts) (db_jobs (tabs w))"
  from body obtain ids w3 where
    q: "query (\<lambda>db. claimable_ids (Stamp now) (claim_limit opts) (db_jobs db)) (tick w0) = (Inr ids, w3)"
    and cont: "(if ids = [] then return_act (False, [])
           else bind_act (claim_loop ?ow (Stamp (claim_lease opts now)) (Stamp now) ids) (\<lambda>claimed.
                if claimed = [] then return_act (False, [])
                else bind_act (list_jobs_by_ids_tx claimed) (\<lambda>jobs. return_act (True, jobs)))) w3
        = (Inr (b, jobs), w2)"
    by (elim bind_actE)
  have ids: "ids = ?ids" and t3: "tabs w3 = tabs w" using queryE [OF q] t0 by simp_all
  show thesis
  proof (cases "ids = []")
    case True
    with cont have "\<not> b" "jobs = []" by (simp_all add: act_success)
    with True ids tw t0 show thesis
      by (intro that [OF now1 _ _ _ ow]) (simp_all add: claim_rows_def update_where_none)
  next
    case False
    with cont obtain claimed w4 where
      loop: "claim_loop ?ow (Stamp (claim_lease opts now)) (Stamp now) ids w3 = (Inr claimed, w4)"
      and cont2: "(if claimed = [] then return_act (False, [])
                else bind_act (list_jobs_by_ids_tx claimed) (\<lambda>jobs. return_act (True, jobs))) w4
        = (Inr (b, jobs), w2)"
      by (auto elim!: bind_actE)
    have sub: "set ids \<subseteq> jr_id ` set (db_jobs (tabs w))" unfolding ids by (rule claimable_ids_subset)
    have claimed: "claimed = ids" and t4: "tabs w4 = (tabs w)\<lparr>db_jobs :=
        claim_rows ?ow (claim_lease opts now) now ids (db_jobs (tabs w))\<rparr>"
      using claim_loop_run [OF loop [unfolded claim_loop_def]] sub t3
      by (auto simp: claim_rows_def intro!: filter_True)
    from cont2 False claimed obtain jobs' w5 where
      l: "list_jobs_by_ids_tx ids w4 = (Inr jobs', w5)"
      and "return_act (True, jobs') w5 = (Inr (b, jobs), w2)"
      by (auto elim!: bind_actE)
    then have b: "b" and j: "jobs' = jobs" and w2: "w2 = w5" by (simp_all add: act_success)
    have "jobs_ok (tabs (snd (claim_loop ?ow (Stamp (claim_lease opts now)) (Stamp now) ids w3)))"
      using keepsD [OF keeps_claim_loop [OF ow]] ok t3 by simp
    then have ok4: "jobs_ok (tabs w4)" by (simp add: loop)
    have d: "distinct ids" unfolding ids by (intro claimable_ids_distinct job_table_okD(1) [OF ok])
    have sub4: "set ids \<subseteq> jr_id ` set (db_jobs (tabs w4))" using sub by (simp add: t4 claim_rows_def)
    note L = list_jobs_by_ids_run [OF l ok4 d sub4]
    have "tabs w' = tabs w4" using tw b w2 L(1) by simp
    with L(2,3) j ids t4 show thesis
      by (intro that [OF now1 _ _ _ ow]) simp_all
  qed
qed

text \<open>The other operations, as table functions.\<close>

lemma mark_succeeded_run:
  assumes "mark_postprocess_job_succeeded raw now w = (Inr u, w')"
  obtains t where "\<not> is_zero now \<Longrightarrow> t = now" "trim_space raw \<in> jr_id ` set (db_jobs (tabs w))"
    and "tabs w' = (tabs w)\<lparr>db_jobs := update_where (\<lambda>r. jr_id r = trim_space raw)
           (succeed_row (Stamp t)) (db_jobs (tabs w))\<rparr>"
proof -
  let ?i = "trim_space raw"
  have "?i \<noteq> []" using assms by (auto simp: mark_postprocess_job_succeeded_def fail_act_def)
  with assms obtain t w1 n w2 where
    t: "(if is_zero now then now_act else return_act now) w = (Inr t, w1)"
    and up: "exec (update_job_stmt ?i (succeed_row (Stamp t))) w1 = (Inr n, w2)"
    and fin: "(if n = 0 then fail_act ErrNotFound else return_act ()) w2 = (Inr u, w')"
    by (auto simp: mark_postprocess_job_succeeded_def Let_def elim!: bind_actE)
  have t1: "\<not> is_zero now \<Longrightarrow> t = now" and w1: "tabs w1 = tabs w"
    using t by (auto simp: act_success split: if_splits)
  have "n \<noteq> 0" "w' = w2" using fin by (auto simp: act_success split: if_splits)
  then have "?i \<in> jr_id ` set (db_jobs (tabs w))"
    using update_job_run(1) [OF up] w1 by (simp add: count_where_key)
  with t1 show thesis using update_job_run(2) [OF up] w1 \<open>w' = w2\<close> by (intro that) simp_all
qed

lemma mark_failed_run:
  assumes "mark_postprocess_job_failed raw now next_at a s msg w = (Inr u, w')"
  obtains t where "\<not> is_zero now \<Longrightarrow> t = now" "trim_space raw \<in> jr_id ` set (db_jobs (tabs w))"
    and "s = Failed \<or> s = DeadLetter" "0 \<le> a"
    and "tabs w' = (tabs w)\<lparr>db_jobs := update_where (\<lambda>r. jr_id r = trim_space raw)
           (fail_row s a (Stamp (if is_zero next_at then t else next_at)) (trim_space msg) (Stamp t))
           (db_jobs (tabs w))\<rparr>"
proof -
  let ?i = "trim_space raw"
  have pre: "?i \<noteq> []" "s = Failed \<or> s = DeadLetter" "0 \<le> a"
    using assms by (auto simp: mark_postprocess_job_failed_def fail_act_def Let_def split: if_splits)
  with assms obtain t w1 n w2 where
    t: "(if is_zero now then now_act else return_act now) w = (Inr t, w1)"
    and up: "exec (update_job_stmt ?i
       (fail_row s a (Stamp (if is_zero next_at then t else next_at)) (trim_space msg) (Stamp t))) w1 = (Inr n, w2)"
    and fin: "(if n = 0 then fail_act ErrNotFound else return_act ()) w2 = (Inr u, w')"
    by (auto simp: mark_postprocess_job_failed_def Let_def not_less elim!: bind_actE)
  have t1: "\<not> is_zero now \<Longrightarrow> t = now" and w1: "tabs w1 = tabs w"
    using t by (auto simp: act_success split: if_splits)
  have "n \<noteq> 0" "w' = w2" using fin by (auto simp: act_success split: if_splits)
  then have "?i \<in> jr_id ` set (db_jobs (tabs w))"
    using update_job_run(1) [OF up] w1 by (simp add: count_where_key)
  with t1 pre show thesis using update_job_run(2) [OF up] w1 \<open>w' = w2\<close> by (intro that) simp_all
qed

section \<open>The queue as a transition system\<close>

datatype queue_event =
    EvEnqueue "string \<times> string \<times> job_type"
  | EvClaim "string list"
  | EvSucceed string
  | EvFail string job_status

inductive queue_step :: "job_row list \<Rightarrow> queue_event \<Rightarrow> job_row list \<Rightarrow> bool" where
  enqueue: "job_row_ok new \<Longrightarrow> jr_status new = Queued \<Longrightarrow> upsert_job_rows new rows = Inr rows' \<Longrightarrow>
    queue_step rows (EvEnqueue (job_key new)) rows'"
| claim: "ow \<noteq> [] \<Longrightarrow> now < lease \<Longrightarrow> ids = claimable_ids (Stamp now) limit rows \<Longrightarrow>
    queue_step rows (EvClaim ids) (claim_rows ow lease now ids rows)"
| succeed: "i \<in> jr_id ` set rows \<Longrightarrow>
    queue_step rows (EvSucceed i) (update_where (\<lambda>r. jr_id r = i) (succeed_row (Stamp t)) rows)"
| fail: "i \<in> jr_id ` set rows \<Longrightarrow> s = Failed \<or> s = DeadLetter \<Longrightarrow> 0 \<le> a \<Longrightarrow>
    queue_step rows (EvFail i s)
      (update_where (\<lambda>r. jr_id r = i) (fail_row s a (Stamp na) msg (Stamp t)) rows)"

inductive queue_run :: "job_row list \<Rightarrow> queue_event list \<Rightarrow> job_row list \<Rightarrow> bool" where
  finished: "queue_run rows [] rows"
| step: "queue_step rows e rows1 \<Longrightarrow> queue_run rows1 es rows2 \<Longrightarrow> queue_run rows (e # es) rows2"

inductive_cases queue_claimE: "queue_step rows (EvClaim ids) rows'"
inductive_cases queue_enqueueE: "queue_step rows (EvEnqueue k) rows'"
inductive_cases queue_succeedE: "queue_step rows (EvSucceed i) rows'"
inductive_simps queue_run_Nil [simp]: "queue_run rows [] rows'"
inductive_simps queue_run_Cons: "queue_run rows (e # es) rows'"

lemma queue_run_append:
  "queue_run rows (es @ fs) rows' \<longleftrightarrow> (\<exists>mid. queue_run rows es mid \<and> queue_run mid fs rows')"
  by (induction es arbitrary: rows) (auto simp: queue_run_Cons)

lemma queue_step_ok: "queue_step rows e rows' \<Longrightarrow> job_table_ok rows \<Longrightarrow> job_table_ok rows'"
proof (induction rule: queue_step.induct)
  case (enqueue new rows rows')
  then show ?case using upsert_job_rows_ok by blast
next
  case (claim ow now lease ids limit rows)
  then show ?case
    unfolding claim_rows_def using job_table_okD(3) [OF claim.prems]
    by (intro job_table_ok_update) (auto intro: claim_row_ok)
next
  case (succeed i rows t)
  then show ?case using job_table_okD(3) [OF succeed.prems]
    by (intro job_table_ok_update) (auto intro: succeed_row_ok)
next
  case (fail i rows s a na msg t)
  then show ?case using job_table_okD(3) [OF fail.prems]
    by (intro job_table_ok_update) (auto intro: fail_row_ok)
qed

lemma queue_run_ok: "queue_run rows es rows' \<Longrightarrow> job_table_ok rows \<Longrightarrow> job_table_ok rows'"
  by (induction rule: queue_run.induct) (auto dest: queue_step_ok)

text \<open>A job that is neither queued nor failed stays so until it is failed or enqueued again.\<close>

definition blocked :: "string \<Rightarrow> string \<times> string \<times> job_type \<Rightarrow> job_row list \<Rightarrow> bool" where
  "blocked i k rows \<longleftrightarrow> (\<exists>r \<in> set rows. jr_id r = i \<and> job_key r = k \<and> jr_status r \<noteq> Queued \<and>
     jr_status r \<noteq> Failed)"

lemma claimable_ids_status:
  "i \<in> set (claimable_ids now l rows) \<Longrightarrow>
   \<exists>r \<in> set rows. jr_id r = i \<and> claimable now r"
  using set_limit_rows by (fastforce simp: claimable_ids_def)

lemma blocked_not_claimable:
  assumes "blocked i k rows" "distinct (map jr_id rows)"
  shows "i \<notin> set (claimable_ids now l rows)"
proof
  assume "i \<in> set (claimable_ids now l rows)"
  then obtain r where r: "r \<in> set rows" "jr_id r = i" "claimable now r"
    using claimable_ids_status by blast
  obtain r' where r': "r' \<in> set rows" "jr_id r' = i" "jr_status r' \<noteq> Queued" "jr_status r' \<noteq> Failed"
    using assms(1) by (auto simp: blocked_def)
  have "r = r'" using r r' assms(2) by (auto simp: distinct_map dest: inj_onD)
  with r r' show False by (simp add: claimable_def)
qed

lemma blocked_step:
  assumes "queue_step rows e rows'" "blocked i k rows" "job_table_ok rows"
    and "e \<noteq> EvFail i Failed" "e \<noteq> EvEnqueue k"
  shows "blocked i k rows'"
  using assms
proof (induction rule: queue_step.induct)
  case (enqueue new rows rows')
  then obtain r where r: "r \<in> set rows" "jr_id r = i" "job_key r = k" "jr_status r \<noteq> Queued"
    "jr_status r \<noteq> Failed" by (auto simp: blocked_def)
  with enqueue have "r \<in> set rows'"
    by (auto simp: upsert_job_rows_def set_update_where split: if_splits)
  with r show ?case by (auto simp: blocked_def)
next
  case (claim ow now lease ids limit rows)
  then obtain r where r: "r \<in> set rows" "jr_id r = i" "job_key r = k" "jr_status r \<noteq> Queued"
    "jr_status r \<noteq> Failed" by (auto simp: blocked_def)
  have "i \<notin> set ids"
    using blocked_not_claimable [OF claim.prems(1)] job_table_okD(1) [OF claim.prems(2)] claim by simp
  with r have "r \<in> set (claim_rows ow lease now ids rows)"
    by (auto simp: claim_rows_def set_update_where)
  with r show ?case by (auto simp: blocked_def)
next
  case (succeed j rows t)
  then obtain r where r: "r \<in> set rows" "jr_id r = i" "job_key r = k" "jr_status r \<noteq> Queued"
    "jr_status r \<noteq> Failed" by (auto simp: blocked_def)
  let ?r = "if jr_id r = j then succeed_row (Stamp t) r else r"
  have "?r \<in> set (update_where (\<lambda>r. jr_id r = j) (succeed_row (Stamp t)) rows)"
    using r by (auto simp: set_update_where)
  moreover have "jr_id ?r = i" "job_key ?r = k" "jr_status ?r \<noteq> Queued" "jr_status ?r \<noteq> Failed"
    using r by (auto simp: succeed_row_def job_key_def)
  ultimately show ?case unfolding blocked_def by blast
next
  case (fail j rows s a na msg t)
  then obtain r where r: "r \<in> set rows" "jr_id r = i" "job_key r = k" "jr_status r \<noteq> Queued"
    "jr_status r \<noteq> Failed" by (auto simp: blocked_def)
  let ?r = "if jr_id r = j then fail_row s a (Stamp na) msg (Stamp t) r else r"
  have "?r \<in> set (update_where (\<lambda>r. jr_id r = j) (fail_row s a (Stamp na) msg (Stamp t)) rows)"
    using r by (auto simp: set_update_where)
  moreover have "jr_id ?r = i" "job_key ?r = k" "jr_status ?r \<noteq> Queued" "jr_status ?r \<noteq> Failed"
    using r fail by (auto simp: fail_row_def job_key_def)
  ultimately show ?case unfolding blocked_def by blast
qed

lemma blocked_run:
  "queue_run rows es rows' \<Longrightarrow> blocked i k rows \<Longrightarrow> job_table_ok rows \<Longrightarrow>
   EvFail i Failed \<notin> set es \<Longrightarrow> EvEnqueue k \<notin> set es \<Longrightarrow> blocked i k rows'"
  by (induction rule: queue_run.induct) (auto dest: queue_step_ok blocked_step)

lemma claimed_blocked:
  assumes "queue_step rows (EvClaim ids) rows'" "i \<in> set ids"
  shows "\<exists>r \<in> set rows. jr_id r = i \<and> blocked i (job_key r) rows'"
proof -
  from assms(1) obtain ow now lease limit where
    ids: "ids = claimable_ids (Stamp now) limit rows" and
    rows': "rows' = claim_rows ow lease now ids rows" by (auto elim: queue_claimE)
  obtain r where r: "r \<in> set rows" "jr_id r = i"
    using assms(2) claimable_ids_subset unfolding ids by blast
  then have "claim_row ow (Stamp lease) (Stamp now) r \<in> set rows'"
    using assms(2) by (auto simp: rows' claim_rows_def set_update_where)
  then have "blocked i (job_key r) rows'"
    unfolding blocked_def using r by (intro bexI) (auto simp: claim_row_def job_key_def)
  with r show ?thesis by blast
qed


lemma upsert_tx_run:
  assumes run: "upsert_postprocess_job_tx job (Stamp t) w = (Inr i, w')"
  obtains new rows r where "job_row_ok new" "jr_status new = Queued" "jr_available_at new = Stamp t"
    and "job_key new = (je_tenant job, je_memory job, je_type job)"
    and "upsert_job_rows new (db_jobs (tabs w)) = Inr rows" "tabs w' = (tabs w)\<lparr>db_jobs := rows\<rparr>"
    and "r \<in> set rows" "jr_id r = i" "job_key r = job_key new" "jr_status r = Queued"
    "jr_attempts r = 0" "jr_available_at r = Stamp t"
proof -
  have pre: "trim_space (je_tenant job) \<noteq> []" "trim_space (je_memory job) \<noteq> []"
    "is_job_type_supported (je_type job)"
    using run by (auto simp: upsert_postprocess_job_tx_def fail_act_def split: if_splits)
  let ?max = "if je_max_attempts job \<le> 0 then 5 else je_max_attempts job"
  let ?new = "\<lambda>ing id. \<lparr>jr_id = id, jr_ingest = ing, jr_tenant = je_tenant job, jr_memory = je_memory job,
           jr_type = je_type job, jr_status = Queued, jr_attempts = 0,
           jr_max_attempts = ?max, jr_available_at = Stamp t, jr_lease_owner = [],
           jr_leased_until = NoStamp, jr_last_error = [], jr_created_at = Stamp t,
           jr_updated_at = Stamp t\<rparr>"
  let ?sel = "\<lambda>db. first_row (filter (\<lambda>r. jr_tenant r = je_tenant job \<and>
             jr_memory r = je_memory job \<and> jr_type r = je_type job) (db_jobs db))"
  from run pre obtain ing w1 id w3 u w4 found w5 w6 r where
    ing: "(if trim_space (je_ingest job) = [] then new_id ''ing'' else return_act (je_ingest job)) w = (Inr ing, w1)"
    and nid: "new_id ''ppj'' w1 = (Inr id, w3)"
    and ins: "exec (upsert_job_stmt (?new ing id)) w3 = (Inr u, w4)"
    and sel: "query ?sel w4 = (Inr found, w5)"
    and found: "lift_act found w5 = (Inr r, w6)" "return_act (jr_id r) w6 = (Inr i, w')"
    by (auto simp: upsert_postprocess_job_tx_def Let_def elim!: bind_actE split del: if_split)
  have t1: "tabs w1 = tabs w" using ing by (auto simp: act_success split: if_splits)
  have word: "word id" using new_id_word [OF nid word_ppj] .
  have t3: "tabs w3 = tabs w" using new_idE [OF nid] t1 by simp
  have new_ok: "job_row_ok (?new ing id)"
    using word pre by (simp add: job_row_ok_def is_status_supported_def)
  obtain rows where rows: "upsert_job_rows (?new ing id) (db_jobs (tabs w)) = Inr rows"
    and t4: "tabs w4 = (tabs w)\<lparr>db_jobs := rows\<rparr>"
    using exec_successD [OF ins] t3 by (auto simp: upsert_job_stmt_def split: sum.splits)
  have t2: "tabs w' = tabs w4" and fr: "found = Inr r" and i: "i = jr_id r"
    using queryE [OF sel] found by (simp_all add: act_success)
  have key: "job_key (?new ing id) = (je_tenant job, je_memory job, je_type job)"
    by (simp add: job_key_def)
  have "?sel (tabs w4) = Inr r" using queryE(1) [OF sel] fr by simp
  from first_row_filter [OF this] have r: "r \<in> set rows" "job_key r = job_key (?new ing id)"
    using t4 by (simp_all add: job_key_def)
  have "jr_status r = Queued \<and> jr_attempts r = 0 \<and> jr_available_at r = Stamp t"
    using rows r
    by (auto simp: upsert_job_rows_def set_update_where requeue_row_def job_key_def split: if_splits)
  with new_ok key rows t2 t4 r i show thesis by (intro that [of "?new ing id" rows r]) simp_all
qed

lemma enqueue_one_run:
  assumes run: "enqueue_one m t job w = (Inr j, w')"
  shows "queue_step (db_jobs (tabs w)) (EvEnqueue (je_tenant job, je_memory job, je_type job)) (db_jobs (tabs w'))"
    and "tabs w' = (tabs w)\<lparr>db_jobs := db_jobs (tabs w')\<rparr>"
proof -
  have pre: "trim_space (je_tenant job) \<noteq> []" "trim_space (je_memory job) \<noteq> []"
    "is_job_type_supported (je_type job)"
    using run by (auto simp: enqueue_one_def fail_act_def split: if_splits)
  let ?max = "if je_max_attempts job \<le> 0 then m else je_max_attempts job"
  from run pre obtain ing w1 i w2 where
    ing: "(if trim_space (je_ingest job) = [] then new_id ''ing'' else return_act (je_ingest job)) w = (Inr ing, w1)"
    and up: "upsert_postprocess_job_tx (job\<lparr>je_ingest := ing, je_max_attempts := ?max\<rparr>) (Stamp t) w1 = (Inr i, w2)"
    and w': "w' = w2"
    by (auto simp: enqueue_one_def Let_def act_success elim!: bind_actE split del: if_split)
  have t1: "tabs w1 = tabs w" using ing by (auto simp: act_success split: if_splits)
  obtain new rows where new: "job_row_ok new" "jr_status new = Queued"
    and key: "job_key new = (je_tenant job, je_memory job, je_type job)"
    and rows: "upsert_job_rows new (db_jobs (tabs w)) = Inr rows"
    and t: "tabs w' = (tabs w)\<lparr>db_jobs := rows\<rparr>"
    by (rule upsert_tx_run [OF up]) (simp add: t1 w')
  show "queue_step (db_jobs (tabs w)) (EvEnqueue (je_tenant job, je_memory job, je_type job)) (db_jobs (tabs w'))"
    using queue_step.enqueue [OF new rows] key t by simp
  show "tabs w' = (tabs w)\<lparr>db_jobs := db_jobs (tabs w')\<rparr>" using t by simp
qed

text \<open>A batch of requests is a run of enqueue events, and leaves each of them queued.\<close>

definition enqueue_key :: "job_enqueue \<Rightarrow> string \<times> string \<times> job_type" where
  "enqueue_key e = (je_tenant e, je_memory e, je_type e)"

definition queued_at :: "gotime \<Rightarrow> string \<times> string \<times> job_type \<Rightarrow> job_row list \<Rightarrow> bool" where
  "queued_at t k rows \<longleftrightarrow> (\<exists>r \<in> set rows. job_key r = k \<and> jr_status r = Queued \<and> jr_attempts r = 0 \<and>
     jr_available_at r = Stamp t)"

lemma queued_at_upsert:
  assumes "upsert_job_rows new rows = Inr rows'" "queued_at t k rows"
    "jr_available_at new = Stamp t"
  shows "queued_at t k rows'"
proof -
  from assms(2) obtain r where r: "r \<in> set rows" "job_key r = k" "jr_status r = Queued"
    "jr_attempts r = 0" "jr_available_at r = Stamp t" by (auto simp: queued_at_def)
  show ?thesis
  proof (cases "\<exists>r \<in> set rows. job_key r = job_key new")
    case True
    with assms(1) have rows': "rows' = update_where (\<lambda>r. job_key r = job_key new) (requeue_row new) rows"
      by (auto simp: upsert_job_rows_def split: if_splits)
    let ?r = "if job_key r = job_key new then requeue_row new r else r"
    have "?r \<in> set rows'" using r(1) by (auto simp: rows' set_update_where)
    moreover have "job_key ?r = k" using r(2) by simp
    moreover have "jr_status ?r = Queued" "jr_attempts ?r = 0" "jr_available_at ?r = Stamp t"
      using r assms(3) by (simp_all add: requeue_row_def)
    ultimately show ?thesis unfolding queued_at_def by blast
  next
    case False
    with assms(1) have "rows' = rows @ [new]" by (auto simp: upsert_job_rows_def split: if_splits)
    with r show ?thesis by (auto simp: queued_at_def)
  qed
qed

text \<open>The rows whose key is not one of a given set: what a request about these keys must leave alone.\<close>

definition rows_off :: "(string \<times> string \<times> job_type) set \<Rightarrow> job_row list \<Rightarrow> job_row set" where
  "rows_off K rows = {r \<in> set rows. job_key r \<notin> K}"

lemma rows_off_upsert:
  assumes "upsert_job_rows new rows = Inr rows'" "job_key new \<in> K"
  shows "rows_off K rows' = rows_off K rows"
  using assms
  by (auto simp: upsert_job_rows_def rows_off_def set_update_where image_iff split: if_splits; metis row_update_key(1))

lemma rows_off_mono:
  assumes "rows_off K rows' = rows_off K rows" "K \<subseteq> L"
  shows "rows_off L rows' = rows_off L rows"
proof -
  have "rows_off L rs = {r \<in> rows_off K rs. job_key r \<notin> L}" for rs using assms(2) by (auto simp: rows_off_def)
  then show ?thesis using assms(1) by simp
qed

lemma enqueue_batch_run:
  assumes "map_act (enqueue_one m t) es w = (Inr js, w')" "0 < m" "jobs_ok (tabs w)"
  shows "queue_run (db_jobs (tabs w)) (map (\<lambda>e. EvEnqueue (enqueue_key e)) es) (db_jobs (tabs w'))
    \<and> length js = length es \<and> tabs w' = (tabs w)\<lparr>db_jobs := db_jobs (tabs w')\<rparr>"
  using assms
proof (induction es arbitrary: w js w')
  case Nil
  then show ?case by (simp add: return_act_success)
next
  case (Cons e es)
  from Cons.prems(1) obtain j w1 js' w2 where one: "enqueue_one m t e w = (Inr j, w1)"
    and rest: "map_act (enqueue_one m t) es w1 = (Inr js', w2)"
    and fin: "return_act (j # js') w2 = (Inr js, w')"
    by (auto elim!: bind_actE)
  note O = enqueue_one_run [OF one]
  have ok1: "jobs_ok (tabs w1)" using queue_step_ok [OF O(1) Cons.prems(3)] .
  note IH = Cons.IH [OF rest Cons.prems(2) ok1]
  have "js = j # js'" "w' = w2" using fin by (simp_all add: return_act_success)
  moreover have "tabs w2 = (tabs w)\<lparr>db_jobs := db_jobs (tabs w2)\<rparr>"
  proof -
    have "tabs w2 = (tabs w1)\<lparr>db_jobs := db_jobs (tabs w2)\<rparr>" using IH by blast
    also have "\<dots> = (tabs w)\<lparr>db_jobs := db_jobs (tabs w2)\<rparr>" by (subst O(2)) simp
    finally show ?thesis .
  qed
  moreover have "queue_run (db_jobs (tabs w)) (EvEnqueue (enqueue_key e) #
      map (\<lambda>e. EvEnqueue (enqueue_key e)) es) (db_jobs (tabs w2))"
    using queue_run.step [OF O(1)] IH by (simp add: enqueue_key_def)
  ultimately show ?case using IH by simp
qed

lemma enqueue_run:
  assumes run: "enqueue_postprocess_jobs es m w = (Inr js, w')" and ok: "jobs_ok (tabs w)"
  shows "queue_run (db_jobs (tabs w)) (map (\<lambda>e. EvEnqueue (enqueue_key e)) es) (db_jobs (tabs w'))
    \<and> length js = length es \<and> tabs w' = (tabs w)\<lparr>db_jobs := db_jobs (tabs w')\<rparr>"
proof (cases "es = []")
  case True
  with run show ?thesis by (simp add: enqueue_postprocess_jobs_def return_act_success)
next
  case False
  let ?m = "if m \<le> 0 then 5 else m"
  have m: "0 < ?m" by simp
  from run False obtain t w1 where t: "now_act w = (Inr t, w1)"
    and tx: "in_tx (map_act (enqueue_one ?m t) es) w1 = (Inr js, w')"
    by (auto simp: enqueue_postprocess_jobs_def Let_def elim!: bind_actE)
  obtain w2 where body: "map_act (enqueue_one ?m t) es (tick w1) = (Inr js, w2)"
    and w2: "tabs w' = tabs w2" using in_tx_success [OF tx] by blast
  have "tabs (tick w1) = tabs w" using now_actE [OF t] by simp
  with enqueue_batch_run [OF body m] ok w2 show ?thesis by simp
qed

text \<open>An operation that returns an error has changed nothing.\<close>

lemma now_act_run: "now_act w = (Inr (clock w (steps w)), tick w)"
  by (simp add: now_act_def)

lemma enqueue_error: "enqueue_postprocess_jobs es m w = (Inl e, w') \<Longrightarrow> tabs w' = tabs w"
proof (cases "es = []")
  case True
  then show "enqueue_postprocess_jobs es m w = (Inl e, w') \<Longrightarrow> tabs w' = tabs w"
    by (simp add: enqueue_postprocess_jobs_def return_act_def)
next
  case False
  assume "enqueue_postprocess_jobs es m w = (Inl e, w')"
  with False have "in_tx (map_act (enqueue_one (if m \<le> 0 then 5 else m) (clock w (steps w))) es) (tick w)
      = (Inl e, w')"
    by (simp add: enqueue_postprocess_jobs_def Let_def bind_act_def now_act_run)
  from in_tx_error [OF this] show ?thesis by simp
qed

lemma claim_error: "claim_postprocess_jobs opts w = (Inl e, w') \<Longrightarrow> tabs w' = tabs w"
proof -
  assume run: "claim_postprocess_jobs opts w = (Inl e, w')"
  show ?thesis
  proof (cases "trim_space (co_owner opts) = []")
    case True
    with run show ?thesis by (auto simp: claim_postprocess_jobs_def fail_act_def)
  next
    case False
    obtain t w1 where n: "(if is_zero (co_now opts) then now_act else return_act (co_now opts)) w = (Inr t, w1)"
      and t1: "tabs w1 = tabs w"
      by (cases "is_zero (co_now opts)") (auto simp: now_act_def return_act_def)
    from run False n obtain m :: "(bool \<times> postprocess_job list) db_act"
      where "in_tx_if m w1 = (Inl e, w')"
      by (auto simp: claim_postprocess_jobs_def Let_def bind_act_def)
    from in_tx_if_error [OF this] t1 show ?thesis by simp
  qed
qed

lemma claim_step:
  assumes "claim_postprocess_jobs opts w = (Inr jobs, w')" "jobs_ok (tabs w)"
  shows "queue_step (db_jobs (tabs w)) (EvClaim (map j_id jobs)) (db_jobs (tabs w'))"
proof -
  obtain now where ids: "map j_id jobs = claimable_ids (Stamp now) (claim_limit opts) (db_jobs (tabs w))"
    and t: "tabs w' = (tabs w)\<lparr>db_jobs := claim_rows (trim_space (co_owner opts)) (claim_lease opts now) now
           (map j_id jobs) (db_jobs (tabs w))\<rparr>"
    and ow: "trim_space (co_owner opts) \<noteq> []"
    by (rule claim_run [OF assms]) (rule that)
  have "db_jobs (tabs w') = claim_rows (trim_space (co_owner opts)) (claim_lease opts now) now
           (map j_id jobs) (db_jobs (tabs w))" unfolding t by simp
  with queue_step.claim [OF ow claim_lease_after ids] show ?thesis by simp
qed

section \<open>Properties\<close>

text \<open>Claiming is exactly this table update: at the time \<open>now\<close> that the call fixes, the jobs
  returned are the claimable ones (due, queued or failed, at most the limit, in the order of due and
  creation time), each now running under the caller's name with the lease of the call, and no other
  row and no other table changes.\<close>

theorem claim_functional:
  assumes "claim_postprocess_jobs opts w = (Inr jobs, w')" and "jobs_ok (tabs w)"
  shows "\<exists>now. (\<not> is_zero (co_now opts) \<longrightarrow> now = co_now opts) \<and>
    map j_id jobs = claimable_ids (Stamp now) (claim_limit opts) (db_jobs (tabs w)) \<and>
    tabs w' = (tabs w)\<lparr>db_jobs := claim_rows (trim_space (co_owner opts)) (claim_lease opts now) now
      (map j_id jobs) (db_jobs (tabs w))\<rparr> \<and>
    (\<forall>j \<in> set jobs. j_status j = Running \<and> j_lease_owner j = trim_space (co_owner opts) \<and>
      j_leased_until j = claim_lease opts now \<and> now < j_leased_until j)"
proof -
  obtain now where now: "\<not> is_zero (co_now opts) \<longrightarrow> now = co_now opts"
    and ids: "map j_id jobs = claimable_ids (Stamp now) (claim_limit opts) (db_jobs (tabs w))"
    and t: "tabs w' = (tabs w)\<lparr>db_jobs := claim_rows (trim_space (co_owner opts)) (claim_lease opts now) now
           (map j_id jobs) (db_jobs (tabs w))\<rparr>"
    and set: "set jobs = job_of_row ` {r \<in> set (db_jobs (tabs w')). jr_id r \<in> set (map j_id jobs)}"
    by (rule claim_run [OF assms]) (rule that)
  have "j_status j = Running \<and> j_lease_owner j = trim_space (co_owner opts) \<and>
      j_leased_until j = claim_lease opts now \<and> now < j_leased_until j" if j: "j \<in> set jobs" for j
  proof -
    from j set obtain r where "r \<in> set (db_jobs (tabs w'))" "jr_id r \<in> set (map j_id jobs)"
      "j = job_of_row r" by blast
    then show ?thesis
      using claim_lease_after [of now opts]
      by (auto simp: t claim_rows_def set_update_where claim_row_def job_of_row_def)
  qed
  with now ids t show ?thesis by blast
qed

text \<open>The claim query is fair: it returns distinct jobs, all of them claimable, never more than
  the limit; and a claimable job that is left out means that the limit is reached by jobs that were
  due (or, at the same time, created) no later.\<close>

theorem claim_due_first:
  assumes "job_table_ok rows" and "0 < limit" and "ids = claimable_ids now limit rows"
  shows "distinct ids \<and> int (length ids) \<le> limit \<and>
    (\<forall>i \<in> set ids. \<exists>r \<in> set rows. jr_id r = i \<and> claimable now r) \<and>
    (\<forall>r \<in> set rows. claimable now r \<and> jr_id r \<notin> set ids \<longrightarrow>
       int (length ids) = limit \<and>
       (\<forall>q \<in> set rows. jr_id q \<in> set ids \<longrightarrow> claim_order q \<le> claim_order r))"
proof -
  let ?c = "filter (claimable now) rows"
  let ?s = "sort_key claim_order ?c"
  have d: "distinct (map jr_id rows)" using job_table_okD(1) [OF assms(1)] .
  have ids: "ids = map jr_id (take (nat limit) ?s)"
    by (simp add: assms(3) claimable_ids_def limit_rows_def)
  have same: "q = r" if "q \<in> set rows" "r \<in> set rows" "jr_id q = jr_id r" for q r
    using d that by (auto simp: distinct_map dest: inj_onD)
  have left: "int (length ids) = limit \<and> (\<forall>q \<in> set rows. jr_id q \<in> set ids \<longrightarrow> claim_order q \<le> claim_order r)"
    if r: "r \<in> set rows" "claimable now r" "jr_id r \<notin> set ids" for r
  proof
    have notin: "r \<notin> set (take (nat limit) ?s)" using r(3) by (auto simp: ids)
    have "\<not> length ?s \<le> nat limit"
    proof
      assume "length ?s \<le> nat limit"
      then have "take (nat limit) ?s = ?s" by simp
      with notin have "r \<notin> set ?s" by simp
      with r show False by simp
    qed
    then show "int (length ids) = limit" using assms(2) by (simp add: ids)
    show "\<forall>q \<in> set rows. jr_id q \<in> set ids \<longrightarrow> claim_order q \<le> claim_order r"
    proof (intro ballI impI)
      fix q assume q: "q \<in> set rows" "jr_id q \<in> set ids"
      then obtain q' where q': "q' \<in> set (take (nat limit) ?s)" "jr_id q' = jr_id q"
        by (auto simp: ids)
      have "q' \<in> set rows" using set_take_subset [of "nat limit" ?s] q'(1) by auto
      then have "q' = q" using same q q' by blast
      then show "claim_order q \<le> claim_order r"
        using sort_key_min [OF q'(1) _ notin] r by simp
    qed
  qed
  have "int (length ids) \<le> limit" using assms(2) by (simp add: ids)
  moreover have "distinct ids" unfolding assms(3) by (rule claimable_ids_distinct [OF d])
  moreover have "\<forall>i \<in> set ids. \<exists>r \<in> set rows. jr_id r = i \<and> claimable now r"
    using claimable_ids_status unfolding assms(3) by blast
  ultimately show ?thesis using left by blast
qed

text \<open>C1 Mutual exclusion: when two claims return the same job, then between them the job was
  reported as failed, or enqueued again.\<close>

theorem exclusive_claim:
  assumes "queue_run rows ([EvClaim ids] @ es @ [EvClaim ids']) rows'" and "job_table_ok rows"
    and "i \<in> set ids" and "i \<in> set ids'"
  shows "\<exists>r \<in> set rows. jr_id r = i \<and> (EvFail i Failed \<in> set es \<or> EvEnqueue (job_key r) \<in> set es)"
proof -
  from assms(1) obtain rows1 rows2 where c1: "queue_step rows (EvClaim ids) rows1"
    and es: "queue_run rows1 es rows2" and c2: "queue_step rows2 (EvClaim ids') rows'"
    by (auto simp: queue_run_append queue_run_Cons)
  obtain r where r: "r \<in> set rows" "jr_id r = i" "blocked i (job_key r) rows1"
    using claimed_blocked [OF c1 assms(3)] by blast
  have ok1: "job_table_ok rows1" using queue_step_ok [OF c1 assms(2)] .
  have ok2: "job_table_ok rows2" using queue_run_ok [OF es ok1] .
  have "\<not> blocked i (job_key r) rows2"
  proof
    assume "blocked i (job_key r) rows2"
    from blocked_not_claimable [OF this job_table_okD(1) [OF ok2]] have "i \<notin> set ids'"
      using c2 by (auto elim!: queue_claimE)
    with assms(4) show False by simp
  qed
  then show ?thesis using blocked_run [OF es r(3) ok1] r by blast
qed

lemma update_where_in:
  "r \<in> set rows \<Longrightarrow> p r \<Longrightarrow> f r \<in> set (update_where p f rows)"
  by (auto simp: set_update_where)

text \<open>C39 A second enqueue of a job that is being run is lost when the first run ends. After the claim
  the row is running; the enqueue puts it back to queued, unowned and with no attempt counted, so it
  is to be run again; but the report of the first run, which does not check who holds the lease, marks
  that row as succeeded, and from then on, however often other jobs are claimed, enqueued or reported,
  no claim at any time returns it until it is enqueued or failed once more.\<close>

theorem requeue_while_running_lost:
  assumes "queue_step rows (EvClaim ids) rows1" and "queue_step rows1 (EvEnqueue (job_key r)) rows2"
    and "queue_step rows2 (EvSucceed (jr_id r)) rows3" and "queue_run rows3 es rows4"
    and "job_table_ok rows" and "r \<in> set rows" and "jr_id r \<in> set ids"
    and "EvFail (jr_id r) Failed \<notin> set es" and "EvEnqueue (job_key r) \<notin> set es"
  shows "(\<exists>q \<in> set rows1. jr_id q = jr_id r \<and> job_key q = job_key r \<and> jr_status q = Running) \<and>
    (\<exists>q \<in> set rows2. jr_id q = jr_id r \<and> job_key q = job_key r \<and> jr_status q = Queued \<and>
       jr_attempts q = 0 \<and> jr_lease_owner q = []) \<and>
    (\<exists>q \<in> set rows3. jr_id q = jr_id r \<and> job_key q = job_key r \<and> jr_status q = Succeeded) \<and>
    jr_id r \<notin> set (claimable_ids (Stamp now) limit rows4)"
proof -
  from assms(1) obtain ow lease nw where
    rows1: "rows1 = update_where (\<lambda>q. jr_id q \<in> set ids) (claim_row ow (Stamp lease) (Stamp nw)) rows"
    by (auto simp: claim_rows_def elim!: queue_claimE)
  define q1 where "q1 = claim_row ow (Stamp lease) (Stamp nw) r"
  have q1: "q1 \<in> set rows1" "jr_id q1 = jr_id r" "job_key q1 = job_key r" "jr_status q1 = Running"
    unfolding rows1 q1_def using assms(6,7) by (auto intro: update_where_in) (simp add: claim_row_def)
  from assms(2) obtain new where new: "job_key new = job_key r" "upsert_job_rows new rows1 = Inr rows2"
    by (auto elim: queue_enqueueE)
  with q1(1,3) have rows2: "rows2 = update_where (\<lambda>q. job_key q = job_key r) (requeue_row new) rows1"
    by (auto simp: upsert_job_rows_def split: if_splits)
  define q2 where "q2 = requeue_row new q1"
  have q2: "q2 \<in> set rows2" "jr_id q2 = jr_id r" "job_key q2 = job_key r" "jr_status q2 = Queued"
    "jr_attempts q2 = 0" "jr_lease_owner q2 = []"
    unfolding rows2 q2_def using q1 by (auto intro: update_where_in) (simp_all add: requeue_row_def)
  from assms(3) obtain t where rows3: "rows3 = update_where (\<lambda>q. jr_id q = jr_id r) (succeed_row (Stamp t)) rows2"
    by (auto elim: queue_succeedE)
  define q3 where "q3 = succeed_row (Stamp t) q2"
  have q3: "q3 \<in> set rows3" "jr_id q3 = jr_id r" "job_key q3 = job_key r" "jr_status q3 = Succeeded"
    unfolding rows3 q3_def using q2 by (auto intro: update_where_in) (simp add: succeed_row_def)
  have ok3: "job_table_ok rows3" using assms(1-3,5) by (metis queue_step_ok)
  have "blocked (jr_id r) (job_key r) rows3" unfolding blocked_def using q3 by (intro bexI [of _ q3]) simp_all
  then have "blocked (jr_id r) (job_key r) rows4"
    using blocked_run [OF assms(4) _ ok3] assms(8,9) by blast
  then have "jr_id r \<notin> set (claimable_ids (Stamp now) limit rows4)"
    using blocked_not_claimable job_table_okD(1) [OF queue_run_ok [OF assms(4) ok3]] by blast
  with q1 q2 q3 show ?thesis by blast
qed

text \<open>C3 The operations of the repository are steps of the transition system: a successful claim,
  success or failure report is the step of its name, and a successful enqueue of a batch is a run of
  one step per request, with one job returned per request.\<close>

theorem queue_operations_refine:
  assumes "jobs_ok (tabs w)"
  shows "(claim_postprocess_jobs opts w = (Inr jobs, w') \<longrightarrow>
      queue_step (db_jobs (tabs w)) (EvClaim (map j_id jobs)) (db_jobs (tabs w'))) \<and>
    (mark_postprocess_job_succeeded raw t w = (Inr (), w') \<longrightarrow>
      queue_step (db_jobs (tabs w)) (EvSucceed (trim_space raw)) (db_jobs (tabs w'))) \<and>
    (mark_postprocess_job_failed raw t next_at attempts status msg w = (Inr (), w') \<longrightarrow>
      queue_step (db_jobs (tabs w)) (EvFail (trim_space raw) status) (db_jobs (tabs w'))) \<and>
    (enqueue_postprocess_jobs reqs max_attempts w = (Inr jobs, w') \<longrightarrow>
      queue_run (db_jobs (tabs w)) (map (\<lambda>e. EvEnqueue (enqueue_key e)) reqs) (db_jobs (tabs w')) \<and>
      length jobs = length reqs)"
proof (intro conjI impI)
  assume "claim_postprocess_jobs opts w = (Inr jobs, w')"
  from claim_step [OF this assms]
  show "queue_step (db_jobs (tabs w)) (EvClaim (map j_id jobs)) (db_jobs (tabs w'))" .
next
  assume "mark_postprocess_job_succeeded raw t w = (Inr (), w')"
  then show "queue_step (db_jobs (tabs w)) (EvSucceed (trim_space raw)) (db_jobs (tabs w'))"
    by (rule mark_succeeded_run) (auto intro: queue_step.succeed)
next
  assume "mark_postprocess_job_failed raw t next_at attempts status msg w = (Inr (), w')"
  then show "queue_step (db_jobs (tabs w)) (EvFail (trim_space raw) status) (db_jobs (tabs w'))"
    by (rule mark_failed_run) (auto intro: queue_step.fail)
next
  assume run: "enqueue_postprocess_jobs reqs max_attempts w = (Inr jobs, w')"
  show "queue_run (db_jobs (tabs w)) (map (\<lambda>e. EvEnqueue (enqueue_key e)) reqs) (db_jobs (tabs w'))"
    "length jobs = length reqs"
    using enqueue_run [OF run assms] by simp_all
qed

text \<open>The table invariant (unique identifiers and keys, leased exactly while running, counters and
  times in range) is kept by every operation of the queue, whether it succeeds, fails half-way or
  is hit by a driver error; and enqueue and claim change nothing at all when they return an error.\<close>

theorem queue_operations_keep_invariant:
  assumes "jobs_ok (tabs w)"
  shows "jobs_ok (tabs (snd (enqueue_postprocess_jobs reqs max_attempts w))) \<and>
    jobs_ok (tabs (snd (claim_postprocess_jobs opts w))) \<and>
    jobs_ok (tabs (snd (mark_postprocess_job_succeeded raw t w))) \<and>
    jobs_ok (tabs (snd (mark_postprocess_job_failed raw t next_at attempts status msg w))) \<and>
    (fst (enqueue_postprocess_jobs reqs max_attempts w) = Inl e \<longrightarrow>
       tabs (snd (enqueue_postprocess_jobs reqs max_attempts w)) = tabs w) \<and>
    (fst (claim_postprocess_jobs opts w) = Inl e \<longrightarrow>
       tabs (snd (claim_postprocess_jobs opts w)) = tabs w)"
proof (intro conjI impI)
  show "jobs_ok (tabs (snd (enqueue_postprocess_jobs reqs max_attempts w)))"
    by (rule keepsD [OF keeps_enqueue assms])
  show "jobs_ok (tabs (snd (claim_postprocess_jobs opts w)))"
    by (rule keepsD [OF keeps_claim assms])
  show "jobs_ok (tabs (snd (mark_postprocess_job_succeeded raw t w)))"
    by (rule keepsD [OF keeps_mark_succeeded assms])
  show "jobs_ok (tabs (snd (mark_postprocess_job_failed raw t next_at attempts status msg w)))"
    by (rule keepsD [OF keeps_mark_failed assms])
next
  assume "fst (enqueue_postprocess_jobs reqs max_attempts w) = Inl e"
  then show "tabs (snd (enqueue_postprocess_jobs reqs max_attempts w)) = tabs w"
    by (intro enqueue_error [of reqs max_attempts w e]) (simp add: prod_eq_iff)
next
  assume "fst (claim_postprocess_jobs opts w) = Inl e"
  then show "tabs (snd (claim_postprocess_jobs opts w)) = tabs w"
    by (intro claim_error [of opts w e]) (simp add: prod_eq_iff)
qed

text \<open>Listing returns at most 200 jobs, newest update first (in the order of the stored text), all
  of them of the tenant, statuses and types that the filter names, and it never fails on a
  well-formed table except for the driver.\<close>

theorem list_jobs_functional:
  assumes "jobs_ok (tabs w)" and "\<not> faulty w (steps w)"
  shows "\<exists>rows. fst (list_postprocess_jobs flt w) = Inr (map job_of_row rows) \<and>
    length rows \<le> 200 \<and> sorted_wrt (\<lambda>a b. jr_updated_at b \<le> jr_updated_at a) rows \<and>
    set rows \<subseteq> {r \<in> set (db_jobs (tabs w)). list_filter flt r} \<and>
    tabs (snd (list_postprocess_jobs flt w)) = tabs w"
proof -
  let ?rows = "limit_rows (list_limit (jf_limit flt))
        (order_desc jr_updated_at (filter (list_filter flt) (db_jobs (tabs w))))"
  have sub: "set ?rows \<subseteq> {r \<in> set (db_jobs (tabs w)). list_filter flt r}"
    using set_limit_rows by fastforce
  then have "map_result scan_postprocess_job ?rows = Inr (map job_of_row ?rows)"
    using job_table_okD(3) [OF assms(1)] by (intro scan_jobs_ok) blast
  then have "list_postprocess_jobs flt w = (Inr (map job_of_row ?rows), tick w)"
    using assms(2) by (simp add: list_postprocess_jobs_def query_def exec_def bind_act_def lift_act_def)
  moreover have "length ?rows \<le> 200"
    using length_limit_rows [of "list_limit (jf_limit flt)"
        "order_desc jr_updated_at (filter (list_filter flt) (db_jobs (tabs w)))"]
    by (simp add: list_limit_def Let_def split: if_splits)
  moreover have "sorted_wrt (\<lambda>a b. jr_updated_at b \<le> jr_updated_at a) ?rows"
    by (intro sorted_wrt_limit_rows sorted_order_desc)
  ultimately show ?thesis using sub by (intro exI [of _ ?rows]) simp
qed

section \<open>Instances on concrete data\<close>

definition sample_job :: job_row where
  "sample_job = \<lparr>jr_id = ''ppj_1'', jr_ingest = ''ing_1'', jr_tenant = ''t1'', jr_memory = ''m1'',
     jr_type = VectorUpsert, jr_status = Queued, jr_attempts = 0, jr_max_attempts = 5,
     jr_available_at = Stamp (1700000000 * second), jr_lease_owner = [], jr_leased_until = NoStamp,
     jr_last_error = [], jr_created_at = Stamp (1700000000 * second),
     jr_updated_at = Stamp (1700000000 * second)\<rparr>"

definition sample_queue :: database where
  "sample_queue = empty_database\<lparr>db_jobs := [sample_job]\<rparr>"

definition sample_claim :: claim_options where
  "sample_claim = \<lparr>co_owner = ''w'', co_limit = 2, co_now = 1700000001 * second,
     co_lease_until = zero_time\<rparr>"

definition sample_claimed :: job_row where
  "sample_claimed = claim_row ''w'' (Stamp (1700000031 * second)) (Stamp (1700000001 * second)) sample_job"

lemmas claim_eval = claim_postprocess_jobs_def claim_loop_def list_jobs_by_ids_tx_def
  claimable_ids_def claimable_def claim_limit_def claim_lease_def claim_row_def update_job_stmt_def
  scan_postprocess_job_def parse_stored_time_def parse_optional_stored_time_def limit_rows_def
  count_where_def in_tx_if_def bind_act_def return_act_def exec_def query_def lift_act_def
  calm_world_def tick_def is_zero_def zero_time_def uniq_trimmed_def Let_def
  trim_space_def trim_left_def trim_right_def is_space_def empty_database_def
  Stamp_less_if_seconds time_second_def

lemma sample_job_ok: "job_row_ok sample_job"
  by (simp add: sample_job_def job_row_ok_def word_def is_space_def trim_space_def trim_left_def
      trim_right_def is_job_type_supported_def is_status_supported_def)

lemma sample_claimed_ok: "job_row_ok sample_claimed"
  unfolding sample_claimed_def by (rule claim_row_ok [OF sample_job_ok]) simp

lemma sample_tables_ok: "job_table_ok [sample_job]" "job_table_ok [sample_claimed]"
  "jobs_ok (tabs (calm_world sample_queue))"
  using sample_job_ok sample_claimed_ok by (simp_all add: sample_queue_def job_table_ok_def calm_world_def)

lemma sample_claim_run:
  "claim_postprocess_jobs sample_claim (calm_world sample_queue) =
     (Inr [job_of_row sample_claimed],
      calm_world sample_queue\<lparr>tabs := sample_queue\<lparr>db_jobs := [sample_claimed]\<rparr>, steps := 5\<rparr>)"
  by (simp add: sample_claim_def sample_queue_def sample_job_def sample_claimed_def claim_eval
      job_of_row_def stamp_time_def)

lemma claim_functional_witness:
  "\<exists>now. map j_id [job_of_row sample_claimed] =
     claimable_ids (Stamp now) (claim_limit sample_claim) (db_jobs (tabs (calm_world sample_queue)))"
  using claim_functional [OF sample_claim_run sample_tables_ok(3)] by blast

lemma claim_due_first_witness: "distinct (claimable_ids (Stamp (1700000001 * second)) 2 [sample_job])"
  using claim_due_first [OF sample_tables_ok(1), of 2] by simp

lemma sample_claim_step:
  "queue_step [sample_job] (EvClaim [''ppj_1'']) [sample_claimed]"
proof -
  have "[''ppj_1''] = claimable_ids (Stamp (1700000001 * second)) 2 [sample_job]"
    by (simp add: sample_job_def claimable_ids_def claimable_def limit_rows_def
        Stamp_less_if_seconds time_second_def)
  from queue_step.claim [OF _ _ this, of "''w''" "1700000031 * second"] show ?thesis
    by (simp add: claim_rows_def sample_claimed_def sample_job_def)
qed

lemma sample_fail_step:
  "queue_step [sample_claimed] (EvFail ''ppj_1'' Failed) [sample_job\<lparr>jr_status := Failed, jr_attempts := 1,
     jr_updated_at := Stamp (1700000000 * second)\<rparr>]"
proof -
  have "''ppj_1'' \<in> jr_id ` set [sample_claimed]" by (simp add: sample_claimed_def sample_job_def claim_row_def)
  from queue_step.fail [OF this, of Failed 1 "1700000000 * second" "[]" "1700000000 * second"]
  show ?thesis by (simp add: sample_claimed_def sample_job_def claim_row_def fail_row_def)
qed

lemma exclusive_claim_witness:
  "\<exists>r \<in> set [sample_job]. jr_id r = ''ppj_1'' \<and> (EvFail ''ppj_1'' Failed \<in> set [EvFail ''ppj_1'' Failed] \<or>
     EvEnqueue (job_key r) \<in> set [EvFail ''ppj_1'' Failed])"
proof -
  let ?failed = "sample_job\<lparr>jr_status := Failed, jr_attempts := 1, jr_updated_at := Stamp (1700000000 * second)\<rparr>"
  have "[''ppj_1''] = claimable_ids (Stamp (1700000001 * second)) 2 [?failed]"
    by (simp add: sample_job_def claimable_ids_def claimable_def limit_rows_def
        Stamp_less_if_seconds time_second_def)
  from queue_step.claim [OF _ _ this, of "''w''" "1700000031 * second"]
  obtain rows where "queue_step [?failed] (EvClaim [''ppj_1'']) rows" by auto
  then have "queue_run [sample_job] ([EvClaim [''ppj_1'']] @ [EvFail ''ppj_1'' Failed] @ [EvClaim [''ppj_1'']]) rows"
    using sample_claim_step sample_fail_step by (auto simp: queue_run_Cons)
  from exclusive_claim [OF this sample_tables_ok(1)] show ?thesis by simp
qed

lemma requeue_while_running_lost_witness:
  "\<exists>rows2 rows3. queue_step [sample_claimed] (EvEnqueue (job_key sample_job)) rows2 \<and>
     queue_step rows2 (EvSucceed ''ppj_1'') rows3 \<and>
     (\<exists>q \<in> set rows2. jr_id q = ''ppj_1'' \<and> jr_status q = Queued) \<and>
     (\<exists>q \<in> set rows3. jr_id q = ''ppj_1'' \<and> jr_status q = Succeeded) \<and>
     ''ppj_1'' \<notin> set (claimable_ids (Stamp (1900000000 * second)) 10 rows3)"
proof -
  let ?new = "sample_job\<lparr>jr_id := ''ppj_2''\<rparr>"
  have new: "job_row_ok ?new" "jr_status ?new = Queued" "job_key ?new = job_key sample_job"
    using sample_job_ok by (simp_all add: job_row_ok_def sample_job_def word_def is_space_def job_key_def)
  have "upsert_job_rows ?new [sample_claimed] = Inr [requeue_row ?new sample_claimed]"
    by (simp add: upsert_job_rows_def sample_claimed_def claim_row_def sample_job_def job_key_def)
  from queue_step.enqueue [OF new(1,2) this]
  have s1: "queue_step [sample_claimed] (EvEnqueue (job_key sample_job)) [requeue_row ?new sample_claimed]"
    using new(3) by simp
  have id: "jr_id sample_job = ''ppj_1''" by (simp add: sample_job_def)
  have "''ppj_1'' \<in> jr_id ` set [requeue_row ?new sample_claimed]"
    by (simp add: sample_claimed_def sample_job_def)
  from queue_step.succeed [OF this] obtain rows3
    where s2: "queue_step [requeue_row ?new sample_claimed] (EvSucceed ''ppj_1'') rows3" by blast
  have run: "queue_run rows3 [] rows3" by simp
  note R = requeue_while_running_lost [where now = "1900000000 * second" and limit = 10,
      OF sample_claim_step s1 s2 [folded id] run sample_tables_ok(1)]
  show ?thesis
    using s1 s2 R by (intro exI [of _ "[requeue_row ?new sample_claimed]"] exI [of _ rows3]) (auto simp: id)
qed

lemma queue_operations_refine_witness:
  "queue_step (db_jobs (tabs (calm_world sample_queue))) (EvClaim (map j_id [job_of_row sample_claimed]))
     [sample_claimed]"
  using queue_operations_refine [OF sample_tables_ok(3), of sample_claim] sample_claim_run by fastforce

lemma queue_operations_keep_invariant_witness:
  "jobs_ok (tabs (snd (claim_postprocess_jobs sample_claim (calm_world sample_queue))))"
  using queue_operations_keep_invariant [OF sample_tables_ok(3)] by blast

lemma list_jobs_functional_witness:
  "\<exists>rows. fst (list_postprocess_jobs \<lparr>jf_tenant = [], jf_statuses = [], jf_types = [], jf_limit = 0\<rparr>
     (calm_world sample_queue)) = Inr (map job_of_row rows) \<and> length rows \<le> 200"
  using list_jobs_functional [OF sample_tables_ok(3)] by (fastforce simp: calm_world_def)

end
