(* ===== verification/FtsText.thy ===== *)
theory FtsText
  imports Tables
begin

text \<open>
  The text side of full-text search in \<open>repository/sqlite/memory.go\<close>: the text indexed for a memory
  (\<open>buildIndexedMemoryText\<close> with its clean-up of tags and speaker prefixes) and the MATCH expression
  built from a user's query (\<open>toFTSQuery\<close>). The regular expressions are fixed, so that each is
  translated to a function: their character classes are disjoint from what follows them, and the
  leftmost match is found by one pass.
\<close>

section \<open>Regular expressions\<close>

text \<open>RE2's \<open>\s\<close>, letters and \<open>[a-zA-Z0-9_]\<close>.\<close>

definition re_space :: "char \<Rightarrow> bool" where
  "re_space c \<longleftrightarrow> (of_char c :: nat) \<in> {9, 10, 12, 13, 32}"

definition re_alpha :: "char \<Rightarrow> bool" where
  "re_alpha c \<longleftrightarrow> (let n = (of_char c :: nat) in (65 \<le> n \<and> n \<le> 90) \<or> (97 \<le> n \<and> n \<le> 122))"

definition re_digit :: "char \<Rightarrow> bool" where
  "re_digit c \<longleftrightarrow> (let n = (of_char c :: nat) in 48 \<le> n \<and> n \<le> 57)"

definition word_char :: "char \<Rightarrow> bool" where
  "word_char c \<longleftrightarrow> re_alpha c \<or> re_digit c \<or> c = CHR ''_''"

text \<open>\<open>FindAllString\<close> of a repeated class: its maximal runs.\<close>

fun segments :: "(char \<Rightarrow> bool) \<Rightarrow> string \<Rightarrow> string list" where
  "segments p [] = [[]]"
| "segments p (c # s) =
     (if p c then (case segments p s of [] \<Rightarrow> [[c]] | w # ws \<Rightarrow> (c # w) # ws) else [] # segments p s)"

definition runs :: "(char \<Rightarrow> bool) \<Rightarrow> string \<Rightarrow> string list" where
  "runs p s = filter (\<lambda>w. w \<noteq> []) (segments p s)"

text \<open>\<open>indexedTagPattern.ReplaceAllString(line, " ")\<close>.\<close>

function strip_tags :: "string \<Rightarrow> string" where
  "strip_tags [] = []"
| "strip_tags (c # s) =
     (if c = CHR ''['' \<and> takeWhile (\<lambda>x. x \<noteq> CHR '']'') s \<noteq> [] \<and> dropWhile (\<lambda>x. x \<noteq> CHR '']'') s \<noteq> []
      then CHR '' '' # strip_tags (tl (dropWhile (\<lambda>x. x \<noteq> CHR '']'') s))
      else c # strip_tags s)"
  by pat_completeness auto
termination
  by (relation "measure length")
     (auto simp: less_Suc_eq_le intro: le_trans [OF diff_le_self length_dropWhile_le])

text \<open>\<open>indexedSpeakerPrefix\<close> and \<open>indexedSpeakerCapture\<close>: the name before the colon and what follows
  the match.\<close>

definition speaker_char :: "char \<Rightarrow> bool" where
  "speaker_char c \<longleftrightarrow> re_alpha c \<or> re_digit c \<or> c \<in> {CHR '' '', CHR ''.'', CHR 0x27, CHR ''-''}"

definition speaker_match :: "string \<Rightarrow> (string \<times> string) option" where
  "speaker_match s =
     (case dropWhile re_space s of
        [] \<Rightarrow> None
      | c # r \<Rightarrow>
          if \<not> re_alpha c \<or> length (takeWhile speaker_char r) > 80 then None
          else (case dropWhile speaker_char r of
                  [] \<Rightarrow> None
                | d # rest \<Rightarrow> if d = CHR '':'' then Some (c # takeWhile speaker_char r, dropWhile re_space rest)
                              else None))"

text \<open>\<open>indexedSpeakerTag.FindAllStringSubmatch\<close>: the first groups.\<close>

function speaker_tags :: "string \<Rightarrow> string list" where
  "speaker_tags [] = []"
| "speaker_tags (c # s) =
     (let rest = drop 10 s in
      if to_lower (take 11 (c # s)) \<in> {''[speaker_a:'', ''[speaker_b:''} \<and>
         takeWhile (\<lambda>x. x \<noteq> CHR '']'') rest \<noteq> [] \<and> dropWhile (\<lambda>x. x \<noteq> CHR '']'') rest \<noteq> []
      then takeWhile (\<lambda>x. x \<noteq> CHR '']'') rest # speaker_tags (tl (dropWhile (\<lambda>x. x \<noteq> CHR '']'') rest))
      else speaker_tags s)"
  by pat_completeness auto
termination
proof (relation "measure length", goal_cases)
  case 1
  show ?case by simp
next
  case (2 c s rest)
  have "length (tl (dropWhile (\<lambda>x. x \<noteq> CHR '']'') rest)) \<le> length (dropWhile (\<lambda>x. x \<noteq> CHR '']'') rest)" by simp
  also have "\<dots> \<le> length rest" by (rule length_dropWhile_le)
  also have "\<dots> \<le> length s" using 2 by simp
  finally show ?case by simp
next
  case (3 c s rest)
  show ?case by simp
qed

section \<open>The indexed text\<close>

definition newline :: char where
  "newline = CHR 0x0A"

definition clean_line :: "string \<Rightarrow> string" where
  "clean_line line =
     (let l = strip_tags line in
      collapse (case speaker_match l of None \<Rightarrow> l | Some (_, rest) \<Rightarrow> rest))"

definition clean_indexed_content_text :: "string \<Rightarrow> string" where
  "clean_indexed_content_text content =
     (if trim_space content = [] then []
      else join_with '' '' (filter (\<lambda>l. l \<noteq> []) (map clean_line (split_at newline content))))"

text \<open>The loop of \<open>add\<close> calls: normalised names of at least two bytes, each once.\<close>

definition speaker_token :: "string \<Rightarrow> string" where
  "speaker_token raw = join_with '' '' (runs word_char (to_lower (trim_space raw)))"

definition speaker_names :: "string \<Rightarrow> string list" where
  "speaker_names line = (case speaker_match line of None \<Rightarrow> [] | Some (name, _) \<Rightarrow> [name])"

definition extract_indexed_speaker_tokens :: "string \<Rightarrow> string" where
  "extract_indexed_speaker_tokens content =
     (if trim_space content = [] then []
      else join_with '' '' (uniq (filter (\<lambda>t. 2 \<le> length t) (map speaker_token
             (speaker_tags content @ concat (map speaker_names (split_at newline content)))))))"

definition build_indexed_memory_text :: "memory \<Rightarrow> string" where
  "build_indexed_memory_text m =
     (let content = collapse (m_content m);
          clean = clean_indexed_content_text content;
          query_view = collapse (m_query_view m);
          speakers = extract_indexed_speaker_tokens content;
          span = collapse (am_surface_span (m_answer_metadata m));
          sentence = collapse (am_source_sentence (m_answer_metadata m)) in
      join_with [newline]
        ((if clean \<noteq> [] then [clean] else if content \<noteq> [] then [content] else []) @
         (if speakers \<noteq> [] then [speakers] else []) @
         (if query_view \<noteq> [] then [query_view] else []) @
         (if span \<noteq> [] then [span] else []) @
         (if sentence \<noteq> [] \<and> to_lower sentence \<noteq> to_lower clean then [sentence] else []) @
         filter (\<lambda>l. l \<noteq> []) (map collapse (am_support_lines (m_answer_metadata m)))))"

section \<open>The MATCH expression\<close>

definition fts_stopwords :: "string list" where
  "fts_stopwords = [''a'', ''an'', ''the'', ''what'', ''when'', ''where'', ''who'', ''why'', ''how'',
     ''which'', ''whose'', ''did'', ''does'', ''do'', ''is'', ''are'', ''was'', ''were'', ''to'',
     ''of'', ''in'', ''on'', ''at'', ''for'', ''with'', ''about'', ''tell'', ''me'', ''it'',
     ''this'', ''that'']"

text \<open>The loop that collects tokens: it skips the short, the blocked and the repeated ones and stops
  when it has \<open>n\<close> of them.\<close>

fun collect_tokens :: "nat \<Rightarrow> (string \<Rightarrow> bool) \<Rightarrow> string list \<Rightarrow> string list \<Rightarrow> string list" where
  "collect_tokens n blocked_token tokens [] = tokens"
| "collect_tokens n blocked_token tokens (t # ts) =
     (if length t < 2 \<or> blocked_token t \<or> t \<in> set tokens then collect_tokens n blocked_token tokens ts
      else if n \<le> length (tokens @ [t]) then tokens @ [t]
      else collect_tokens n blocked_token (tokens @ [t]) ts)"

definition to_fts_query :: "string \<Rightarrow> string" where
  "to_fts_query raw =
     (let raw_tokens = runs word_char (to_lower (trim_space raw));
          tokens = collect_tokens 12 (\<lambda>t. t \<in> set fts_stopwords) [] raw_tokens;
          fallback = collect_tokens 4 (\<lambda>_. False) [] raw_tokens in
      if raw_tokens = [] then []
      else if tokens = [] then join_with '' OR '' fallback
      else if length tokens = 1 then hd tokens
      else ''('' @ join_with '' '' tokens @ '') OR ('' @ join_with '' OR '' tokens @ '')'')"

section \<open>Lemmas\<close>

lemma segments_chars: "w \<in> set (segments p s) \<Longrightarrow> c \<in> set w \<Longrightarrow> p c \<and> c \<in> set s"
proof (induction s arbitrary: w c)
  case (Cons d s)
  show ?case
  proof (cases "segments p s")
    case Nil
    with Cons.prems show ?thesis by (auto split: if_splits)
  next
    case seg: (Cons a ws)
    have a: "p x \<and> x \<in> set s" if "v \<in> set (a # ws)" "x \<in> set v" for v x
      using Cons.IH [of v x] seg that by simp
    from Cons.prems seg a show ?thesis by (fastforce split: if_splits)
  qed
qed simp

lemma runs_chars: "w \<in> set (runs p s) \<Longrightarrow> w \<noteq> [] \<and> (\<forall>c \<in> set w. p c \<and> c \<in> set s)"
  using segments_chars by (auto simp: runs_def)

lemma collect_tokens_spec:
  "set (collect_tokens n b acc ts) \<subseteq> set acc \<union> {t \<in> set ts. 2 \<le> length t \<and> \<not> b t}"
  by (induction n b acc ts rule: collect_tokens.induct) (auto simp: not_less)

lemma collect_tokens_distinct: "distinct acc \<Longrightarrow> distinct (collect_tokens n b acc ts)"
  by (induction n b acc ts rule: collect_tokens.induct) auto

lemma collect_tokens_length:
  "length acc < n \<Longrightarrow> length (collect_tokens n b acc ts) \<le> n"
  by (induction n b acc ts rule: collect_tokens.induct) auto

text \<open>The loop is the first \<open>n\<close> distinct admissible tokens.\<close>

lemma uniq_from_cong: "set s1 = set s2 \<Longrightarrow> uniq_from s1 xs = uniq_from s2 xs"
proof (induction xs arbitrary: s1 s2)
  case (Cons x xs)
  then have "set (x # s1) = set (x # s2)" by simp
  with Cons show ?case by (metis uniq_from.simps(2))
qed simp

lemma collect_tokens_eq_take:
  "length acc < n \<Longrightarrow> collect_tokens n b acc ts =
     take n (acc @ uniq_from acc (filter (\<lambda>t. 2 \<le> length t \<and> \<not> b t) ts))"
proof (induction ts arbitrary: acc)
  case (Cons t ts)
  have perm: "uniq_from (t # acc) xs = uniq_from (acc @ [t]) xs" for xs
    by (rule uniq_from_cong) simp
  show ?case
  proof (cases "length t < 2 \<or> b t \<or> t \<in> set acc")
    case True
    with Cons show ?thesis by auto
  next
    case False
    show ?thesis
    proof (cases "n \<le> length (acc @ [t])")
      case True
      with Cons.prems have "n - length acc = Suc 0" by simp
      with True False Cons.prems show ?thesis by simp
    next
      case False2: False
      with False Cons.IH [of "acc @ [t]"] show ?thesis by (simp add: perm)
    qed
  qed
qed simp

lemma in_set_join: "c \<in> set (join_with sep ws) \<Longrightarrow> c \<in> set sep \<or> (\<exists>w \<in> set ws. c \<in> set w)"
  by (induction sep ws rule: join_with.induct) auto

definition upper_char :: "char \<Rightarrow> bool" where
  "upper_char c \<longleftrightarrow> (let n = (of_char c :: nat) in 65 \<le> n \<and> n \<le> 90)"

lemma lower_char_not_upper: "\<not> upper_char (lower_char c)"
proof (cases "65 \<le> (of_char c :: nat) \<and> (of_char c :: nat) \<le> 90")
  case True
  then have "lower_char c = char_of ((of_char c :: nat) + 32)" by (simp add: lower_char_def Let_def)
  then have "(of_char (lower_char c) :: nat) = of_char c + 32"
    using True by (simp add: of_char_of)
  with True show ?thesis by (simp add: upper_char_def Let_def)
next
  case False
  then show ?thesis by (simp add: lower_char_def upper_char_def Let_def)
qed

lemma query_tokens:
  assumes "t \<in> set (runs word_char (to_lower (trim_space raw)))" "c \<in> set t"
  shows "word_char c \<and> \<not> upper_char c"
  using runs_chars [OF assms(1)] assms(2) lower_char_not_upper by (auto simp: to_lower_def)

lemma split_at_absent: "d \<notin> set s \<Longrightarrow> split_at d s = [s]"
  by (induction s) auto

lemma collapse_no_newline: "newline \<notin> set (collapse s)"
proof
  assume "newline \<in> set (collapse s)"
  then have "newline = CHR '' '' \<or> (\<exists>w \<in> set (Prelude.fields (trim_space s)). newline \<in> set w)"
    using in_set_join by (fastforce simp: collapse_def)
  moreover have "is_space newline" by (simp add: newline_def is_space_def)
  ultimately show False using fields_words by (auto simp: word_def newline_def)
qed


section \<open>Properties\<close>

lemma fts_query_chars:
  "\<forall>c \<in> set (to_fts_query raw). (word_char c \<and> \<not> upper_char c) \<or>
      c \<in> {CHR ''('', CHR '')'', CHR '' '', CHR ''O'', CHR ''R''}"
proof -
  let ?raw = "runs word_char (to_lower (trim_space raw))"
  let ?t = "collect_tokens 12 (\<lambda>t. t \<in> set fts_stopwords) [] ?raw"
  let ?f = "collect_tokens 4 (\<lambda>_. False) [] ?raw"
  let ?ok = "\<lambda>c. (word_char c \<and> \<not> upper_char c) \<or> c \<in> {CHR ''('', CHR '')'', CHR '' '', CHR ''O'', CHR ''R''}"
  have tok: "?ok c" if "t \<in> set ?raw" "c \<in> set t" for t c using query_tokens [OF that] by blast
  have subs: "set ?t \<subseteq> set ?raw" "set ?f \<subseteq> set ?raw"
    using collect_tokens_spec [of 12 _ "[]" ?raw] collect_tokens_spec [of 4 _ "[]" ?raw] by auto
  have j: "\<forall>c \<in> set (join_with sep ws). ?ok c" if "set ws \<subseteq> set ?raw" "\<forall>c \<in> set sep. ?ok c" for sep ws
    using that tok in_set_join by blast
  have seps: "\<forall>c \<in> set '' OR ''. ?ok c" "\<forall>c \<in> set '' ''. ?ok c" "\<forall>c \<in> set '') OR (''. ?ok c"
    "\<forall>c \<in> set ''(''. ?ok c" "\<forall>c \<in> set '')''. ?ok c" by simp_all
  show ?thesis
  proof (cases "?t = []")
    case True
    then show ?thesis using j [OF subs(2) seps(1)] by (simp only: to_fts_query_def Let_def) simp
  next
    case False
    show ?thesis
    proof (cases "length ?t = 1")
      case True
      then have "hd ?t \<in> set ?raw" using subs(1) False hd_in_set by blast
      with True False show ?thesis using tok by (simp only: to_fts_query_def Let_def) simp
    next
      case False2: False
      have "to_fts_query raw = [] \<or> to_fts_query raw =
          ''('' @ join_with '' '' ?t @ '') OR ('' @ join_with '' OR '' ?t @ '')''"
        using False False2 by (simp only: to_fts_query_def Let_def) simp
      then show ?thesis
        using j [OF subs(1) seps(1)] j [OF subs(1) seps(2)] seps(3,4,5) by (auto simp only: set_append set_simps)
    qed
  qed
qed

lemma fts_query_empty:
  "to_fts_query raw = [] \<longleftrightarrow> (\<forall>t \<in> set (runs word_char (to_lower (trim_space raw))). length t < 2)"
proof -
  let ?raw = "runs word_char (to_lower (trim_space raw))"
  let ?t = "collect_tokens 12 (\<lambda>t. t \<in> set fts_stopwords) [] ?raw"
  let ?f = "collect_tokens 4 (\<lambda>_. False) [] ?raw"
  have subs: "set ?t \<subseteq> set ?raw" "set ?f \<subseteq> set ?raw"
    using collect_tokens_spec [of 12 _ "[]" ?raw] collect_tokens_spec [of 4 _ "[]" ?raw] by auto
  have take_f: "?f = take 4 (uniq (filter (\<lambda>t. 2 \<le> length t) ?raw))"
    by (simp add: collect_tokens_eq_take)
  have f_Nil: "?f = [] \<longleftrightarrow> (\<forall>t \<in> set ?raw. length t < 2)"
    by (simp add: take_f filter_empty_conv not_le)
  have t_Nil: "?t = []" if "\<forall>t \<in> set ?raw. length t < 2"
  proof -
    have "{t \<in> set ?raw. 2 \<le> length t \<and> t \<notin> set fts_stopwords} = {}"
      using that by (auto simp: not_less [symmetric])
    then have "set ?t = {}"
      using collect_tokens_spec [of 12 "\<lambda>t. t \<in> set fts_stopwords" "[]" ?raw]
      by (simp only: set_simps Un_empty_left subset_empty)
    then show ?thesis by simp
  qed
  have ne: "w \<noteq> []" if "w \<in> set ?t \<or> w \<in> set ?f" for w using that subs runs_chars by blast
  have join_f: "join_with '' OR '' ?f = [] \<longleftrightarrow> ?f = []" using ne by (intro join_eq_Nil) blast
  show ?thesis
  proof (cases "?t = []")
    case True
    then show ?thesis using join_f f_Nil by (simp only: to_fts_query_def Let_def) auto
  next
    case False
    then have "hd ?t \<noteq> []" using ne hd_in_set by blast
    moreover have "?raw \<noteq> []" using False subs(1) by auto
    ultimately have "to_fts_query raw \<noteq> []" using False by (simp only: to_fts_query_def Let_def) simp
    with False t_Nil show ?thesis by blast
  qed
qed

text \<open>C38 The MATCH expression cannot be steered by the query text: besides the letters O and R of the
  joining OR, blanks and parentheses, it holds only lower-case letters, digits and underscores, so no
  quote, column filter, prefix star or FTS5 keyword of the user survives; and it is empty exactly
  when the query has no token of two or more bytes.\<close>

theorem fts_query_safe:
  "(\<forall>c \<in> set (to_fts_query raw). (word_char c \<and> \<not> upper_char c) \<or>
      c \<in> {CHR ''('', CHR '')'', CHR '' '', CHR ''O'', CHR ''R''}) \<and>
   (to_fts_query raw = [] \<longleftrightarrow>
      (\<forall>t \<in> set (runs word_char (to_lower (trim_space raw))). length t < 2))"
  using fts_query_chars fts_query_empty by blast

text \<open>The indexed text never sees the lines of a memory: the content is collapsed to one line
  before the per-line clean-up runs, so that a speaker prefix is removed, and a speaker name is
  indexed, only at the very beginning of the content.\<close>

theorem index_text_sees_one_line:
  "split_at newline (collapse (m_content m)) = [collapse (m_content m)] \<and>
   (trim_space (collapse (m_content m)) \<noteq> [] \<longrightarrow>
      clean_indexed_content_text (collapse (m_content m)) = clean_line (collapse (m_content m)))"
proof -
  have one: "split_at newline (collapse (m_content m)) = [collapse (m_content m)]"
    by (rule split_at_absent [OF collapse_no_newline])
  then show ?thesis unfolding clean_indexed_content_text_def by simp
qed

lemma index_text_sees_one_line_witness:
  "clean_indexed_content_text (collapse ''ok'') = clean_line (collapse ''ok'')"
proof -
  have "collapse (m_content (zero_memory\<lparr>m_content := ''ok''\<rparr>)) = ''ok''"
    by (simp add: zero_memory_def collapse_def fields.simps trim_space_def trim_left_def
        trim_right_def is_space_def)
  then show ?thesis
    using index_text_sees_one_line [of "zero_memory\<lparr>m_content := ''ok''\<rparr>"]
    by (simp add: trim_space_def trim_left_def trim_right_def is_space_def)
qed

lemma fts_query_safe_witness: "to_fts_query ''x OR (*'' \<noteq> [] \<and> CHR ''*'' \<notin> set (to_fts_query ''x OR (*'')"
  using fts_query_safe [of "''x OR (*''"]
  by (auto simp: trim_space_def trim_left_def trim_right_def is_space_def to_lower_def lower_char_def
      runs_def word_char_def re_alpha_def re_digit_def)

end
