(* ===== verification/MemoryRepo.thy ===== *)
theory MemoryRepo
  imports JobQueue FtsText
begin

text \<open>
  The memory repository of \<open>repository/sqlite/memory.go\<close>, \<open>memory_filters.go\<close> and the parts of
  \<open>memory_jobs.go\<close> that keep the index state and ingest asynchronously. Storing a memory writes three
  tables in one transaction: the row, its full-text row and its index job. What FTS5 matches and how
  it ranks (\<open>MATCH\<close>, \<open>bm25\<close>) is a parameter.
\<close>

record fts_engine =
  fe_match :: "string \<Rightarrow> string \<Rightarrow> bool"
  fe_bm25 :: "string \<Rightarrow> fts_row list \<Rightarrow> fts_row \<Rightarrow> real"

section \<open>Statements\<close>

text \<open>\<open>InsertMemorySQL\<close>: the primary key and the foreign key to the tenant.\<close>

definition insert_memory_stmt :: "memory \<Rightarrow> database \<Rightarrow> err + (unit \<times> database)" where
  "insert_memory_stmt m db =
     (if m_id m \<in> m_id ` set (db_memories db) \<or> m_tenant m \<notin> t_id ` set (db_tenants db)
      then Inl ErrConstraint
      else Inr ((), db\<lparr>db_memories := db_memories db @ [m]\<rparr>))"

definition insert_fts_stmt :: "fts_row \<Rightarrow> database \<Rightarrow> err + (unit \<times> database)" where
  "insert_fts_stmt r db = Inr ((), db\<lparr>db_fts := db_fts db @ [r]\<rparr>)"

definition delete_fts_stmt :: "string \<Rightarrow> string \<Rightarrow> database \<Rightarrow> err + (unit \<times> database)" where
  "delete_fts_stmt t i db =
     Inr ((), db\<lparr>db_fts := filter (\<lambda>r. \<not> (ft_tenant r = t \<and> ft_memory r = i)) (db_fts db)\<rparr>)"

text \<open>\<open>DeleteMemorySQL\<close>, with the rows that cascade: the embeddings and the facts of a deleted memory.\<close>

definition delete_memory_stmt :: "string \<Rightarrow> string \<Rightarrow> database \<Rightarrow> err + (int \<times> database)" where
  "delete_memory_stmt t i db =
     (let hit = (\<lambda>m. m_tenant m = t \<and> m_id m = i);
          n = count_where hit (db_memories db) in
      Inr (n, if n = 0 then db
        else db\<lparr>db_memories := filter (\<lambda>m. \<not> hit m) (db_memories db),
                db_embeddings := filter (\<lambda>r. er_memory r \<noteq> i) (db_embeddings db),
                db_facts := filter (\<lambda>r. fr_memory r \<noteq> Some i) (db_facts db)\<rparr>))"

text \<open>\<open>UpsertMemoryIndexJobSQL\<close> and \<open>UpdateMemoryIndexJobStateSQL\<close>.\<close>

definition index_key :: "index_row \<Rightarrow> string \<times> string \<times> index_op" where
  "index_key r = (xr_tenant r, xr_memory r, xr_op r)"

definition reindex_row :: "index_row \<Rightarrow> index_row \<Rightarrow> index_row" where
  "reindex_row excluded r = r\<lparr>xr_state := xr_state excluded, xr_last_error := xr_last_error excluded,
     xr_attempts := (if xr_state excluded = IxFailed then xr_attempts r + 1 else xr_attempts r),
     xr_updated_at := xr_updated_at excluded\<rparr>"

definition upsert_index_stmt :: "index_row \<Rightarrow> database \<Rightarrow> err + (unit \<times> database)" where
  "upsert_index_stmt new db =
     (if \<exists>r \<in> set (db_index_jobs db). xr_id r = xr_id new then Inl ErrConstraint
      else if \<exists>r \<in> set (db_index_jobs db). index_key r = index_key new
      then Inr ((), db\<lparr>db_index_jobs :=
             update_where (\<lambda>r. index_key r = index_key new) (reindex_row new) (db_index_jobs db)\<rparr>)
      else Inr ((), db\<lparr>db_index_jobs := db_index_jobs db @ [new]\<rparr>))"

definition update_index_stmt ::
  "string \<Rightarrow> string \<Rightarrow> index_op \<Rightarrow> index_state \<Rightarrow> string \<Rightarrow> stamp \<Rightarrow> database \<Rightarrow> err + (int \<times> database)" where
  "update_index_stmt t i op state msg now db =
     (let hit = (\<lambda>r. xr_tenant r = t \<and> xr_memory r = i \<and> xr_op r = op) in
      Inr (count_where hit (db_index_jobs db), db\<lparr>db_index_jobs := update_where hit
        (\<lambda>r. r\<lparr>xr_state := state, xr_last_error := msg,
           xr_attempts := (if state = IxFailed then xr_attempts r + 1 else xr_attempts r),
           xr_updated_at := now\<rparr>) (db_index_jobs db)\<rparr>))"

definition touch_stmt :: "string \<Rightarrow> string list \<Rightarrow> gotime \<Rightarrow> database \<Rightarrow> err + (unit \<times> database)" where
  "touch_stmt t ids now db = Inr ((), db\<lparr>db_memories :=
     update_where (\<lambda>m. m_tenant m = t \<and> m_id m \<in> set ids)
       (\<lambda>m. m\<lparr>m_last_accessed_at := now, m_last_recalled_at := now,
          m_recall_count := m_recall_count m + 1, m_updated_at := now\<rparr>) (db_memories db)\<rparr>)"

section \<open>Operations\<close>

definition upsert_memory_index_job_tx ::
  "string \<Rightarrow> string \<Rightarrow> index_op \<Rightarrow> index_state \<Rightarrow> string \<Rightarrow> unit db_act" where
  "upsert_memory_index_job_tx t i op state msg =
     bind_act now_act (\<lambda>now. bind_act (new_id ''idx'') (\<lambda>x.
     exec (upsert_index_stmt \<lparr>xr_id = x, xr_tenant = t, xr_memory = i, xr_op = op, xr_state = state,
       xr_last_error = trim_space msg, xr_attempts = (if state = IxFailed then 1 else 0),
       xr_created_at = Stamp now, xr_updated_at = Stamp now\<rparr>)))"

definition prepare_memory_for_store :: "memory \<Rightarrow> gotime \<Rightarrow> memory db_act" where
  "prepare_memory_for_store m now =
     (if trim_space (m_tenant m) = [] \<or> trim_space (m_content m) = [] then fail_act ErrInvalidInput
      else bind_act (if m_id m = [] then new_id ''mem'' else return_act (m_id m)) (\<lambda>i.
        return_act (m\<lparr>m_id := i,
          m_tier := (if m_tier m = TierOther [] then TierAuto else m_tier m),
          m_created_by := (if m_created_by m = ByOther [] then ByAuto else m_created_by m),
          m_kind := (if m_kind m = KindOther [] then KindRawTurn else m_kind m),
          m_source_fact_index := (if m_source_fact_index m = 0 \<and> trim_space (m_canonical_key m) = []
                                  then - 1 else m_source_fact_index m),
          m_created_at := (if is_zero (m_created_at m) then now else m_created_at m),
          m_updated_at := now,
          m_last_accessed_at := (if is_zero (m_last_accessed_at m) then now else m_last_accessed_at m),
          m_last_recalled_at := (if is_zero (m_last_recalled_at m) then 0 else m_last_recalled_at m),
          m_recall_count := (if m_recall_count m < 0 then 0 else m_recall_count m)\<rparr>)))"

definition insert_memory_tx :: "memory \<Rightarrow> unit db_act" where
  "insert_memory_tx m =
     bind_act (exec (insert_memory_stmt m)) (\<lambda>_.
     bind_act (exec (insert_fts_stmt \<lparr>ft_content = build_indexed_memory_text m,
       ft_tenant = m_tenant m, ft_memory = m_id m\<rparr>)) (\<lambda>_.
     upsert_memory_index_job_tx (m_tenant m) (m_id m) OpUpsert IxPending []))"

definition repo_store :: "memory \<Rightarrow> memory db_act" where
  "repo_store m =
     (if trim_space (m_tenant m) = [] \<or> trim_space (m_content m) = [] then fail_act ErrInvalidInput
      else bind_act now_act (\<lambda>now. bind_act (prepare_memory_for_store m now) (\<lambda>p.
           in_tx (bind_act (insert_memory_tx p) (\<lambda>_. return_act p)))))"

definition store_one :: "gotime \<Rightarrow> memory \<Rightarrow> memory db_act" where
  "store_one now m = bind_act (prepare_memory_for_store m now) (\<lambda>p.
     bind_act (insert_memory_tx p) (\<lambda>_. return_act p))"

definition repo_store_batch :: "memory list \<Rightarrow> memory list db_act" where
  "repo_store_batch ms =
     (if ms = [] then return_act []
      else bind_act now_act (\<lambda>now. in_tx (map_act (store_one now) ms)))"

definition repo_delete :: "string \<Rightarrow> string \<Rightarrow> unit db_act" where
  "repo_delete t i = in_tx
     (bind_act (upsert_memory_index_job_tx t i OpDelete IxPending []) (\<lambda>_.
      bind_act (exec (delete_fts_stmt t i)) (\<lambda>_.
      bind_act (exec (delete_memory_stmt t i)) (\<lambda>affected.
      if affected = 0 then fail_act ErrNotFound else return_act ()))))"

definition normalize_kinds_for_filter :: "memory_kind list \<Rightarrow> memory_kind list" where
  "normalize_kinds_for_filter ks =
     uniq (filter (\<lambda>k. k \<in> {KindRawTurn, KindObservation, KindSummary, KindEvent}) ks)"

definition normalize_tiers_for_filter :: "memory_tier list \<Rightarrow> memory_tier list" where
  "normalize_tiers_for_filter ts =
     uniq (filter (\<lambda>t. t \<in> {TierWorking, TierEpisodic, TierSemantic}) ts)"

text \<open>The clause of \<open>appendMemoryFilterClause\<close>, as the condition it adds.\<close>

definition memory_filter :: "memory_search_filters \<Rightarrow> memory \<Rightarrow> bool" where
  "memory_filter flt m \<longleftrightarrow>
     (normalize_kinds_for_filter (sf_kinds flt) \<noteq> [] \<longrightarrow>
        m_kind m \<in> set (normalize_kinds_for_filter (sf_kinds flt))) \<and>
     (normalize_tiers_for_filter (sf_tiers flt) \<noteq> [] \<longrightarrow>
        m_tier m \<in> set (normalize_tiers_for_filter (sf_tiers flt)))"

text \<open>\<open>SearchMemoriesSQL\<close>: the join of the full-text rows that match with their memories, by
  \<open>bm25\<close> and then the newest update; and \<open>ListMemoriesRecentSQL\<close>.\<close>

definition fts_join :: "fts_engine \<Rightarrow> string \<Rightarrow> string \<Rightarrow> database \<Rightarrow> (fts_row \<times> memory) list" where
  "fts_join fe t q db = concat (map (\<lambda>f. map (\<lambda>m. (f, m))
     (filter (\<lambda>m. m_id m = ft_memory f \<and> m_tenant m = ft_tenant f) (db_memories db)))
     (filter (\<lambda>f. ft_tenant f = t \<and> fe_match fe q (ft_content f)) (db_fts db)))"

definition fts_search_rows ::
  "fts_engine \<Rightarrow> string \<Rightarrow> string \<Rightarrow> memory_search_filters \<Rightarrow> database \<Rightarrow> memory list" where
  "fts_search_rows fe t q flt db = map snd
     (sort_key (\<lambda>p. fe_bm25 fe q (db_fts db) (fst p))
       (order_desc (\<lambda>p. Stamp (m_updated_at (snd p)))
         (filter (\<lambda>p. memory_filter flt (snd p)) (fts_join fe t q db))))"

definition recent_rows :: "string \<Rightarrow> memory_search_filters \<Rightarrow> database \<Rightarrow> memory list" where
  "recent_rows t flt db = order_desc (\<lambda>m. Stamp (m_updated_at m))
     (filter (\<lambda>m. m_tenant m = t \<and> memory_filter flt m) (db_memories db))"

definition repo_search_with_filters ::
  "fts_engine \<Rightarrow> string \<Rightarrow> string \<Rightarrow> int \<Rightarrow> memory_search_filters \<Rightarrow> memory list db_act" where
  "repo_search_with_filters fe t q top_k flt =
     (if trim_space t = [] then fail_act ErrInvalidInput
      else let k = (if top_k \<le> 0 then 20 else top_k); fts = to_fts_query q in
        query (\<lambda>db. limit_rows k
          (if fts = [] then recent_rows t flt db else fts_search_rows fe t fts flt db)))"

definition repo_search :: "fts_engine \<Rightarrow> string \<Rightarrow> string \<Rightarrow> int \<Rightarrow> memory list db_act" where
  "repo_search fe t q top_k = repo_search_with_filters fe t q top_k \<lparr>sf_tiers = [], sf_kinds = []\<rparr>"

definition repo_get_by_ids :: "string \<Rightarrow> string list \<Rightarrow> memory list db_act" where
  "repo_get_by_ids t ids =
     (if trim_space t = [] then fail_act ErrInvalidInput
      else let unique = uniq_trimmed ids in
        if unique = [] then return_act []
        else bind_act (query (\<lambda>db. filter (\<lambda>m. m_tenant m = t \<and> m_id m \<in> set unique) (db_memories db)))
          (\<lambda>rows. return_act (sort_key (\<lambda>m. cmp_index unique (m_id m)) rows)))"

definition repo_count :: "int db_act" where
  "repo_count = query (\<lambda>db. int (length (db_memories db)))"

definition repo_find_by_canonical_key :: "string \<Rightarrow> string \<Rightarrow> memory option db_act" where
  "repo_find_by_canonical_key t key =
     (if trim_space t = [] \<or> trim_space key = [] then return_act None
      else query (\<lambda>db. List.find (\<lambda>m. m_tenant m = t \<and> m_canonical_key m = key) (db_memories db)))"

definition kind_rank :: "memory_kind \<Rightarrow> nat" where
  "kind_rank k = (case k of KindRawTurn \<Rightarrow> 0 | KindEvent \<Rightarrow> 1 | KindObservation \<Rightarrow> 2 | _ \<Rightarrow> 3)"

definition repo_list_by_source_turn_hash :: "string \<Rightarrow> string \<Rightarrow> int \<Rightarrow> memory list db_act" where
  "repo_list_by_source_turn_hash t h limit =
     (if trim_space t = [] \<or> trim_space h = [] then return_act []
      else query (\<lambda>db. limit_rows (if limit \<le> 0 then 10 else limit)
        (sort_key (\<lambda>m. kind_rank (m_kind m)) (order_desc (\<lambda>m. Stamp (m_updated_at m))
          (filter (\<lambda>m. m_tenant m = t \<and> m_source_turn_hash m = h) (db_memories db))))))"

definition repo_touch :: "string \<Rightarrow> string list \<Rightarrow> unit db_act" where
  "repo_touch t ids =
     (if trim_space t = [] then fail_act ErrInvalidInput
      else let unique = uniq_trimmed ids in
        if unique = [] then return_act ()
        else bind_act now_act (\<lambda>now. exec (touch_stmt t unique now)))"

definition mark_index_state ::
  "string \<Rightarrow> string list \<Rightarrow> index_op \<Rightarrow> index_state \<Rightarrow> string \<Rightarrow> unit db_act" where
  "mark_index_state t ids op state msg =
     (if trim_space t = [] \<or> trim_space (index_op_text op) = [] \<or> trim_space (index_state_text state) = []
      then fail_act ErrInvalidInput
      else let unique = uniq_trimmed ids in
        if unique = [] then return_act ()
        else bind_act now_act (\<lambda>now. in_tx (fold_act (\<lambda>i _.
          bind_act (exec (update_index_stmt t i op state (trim_space msg) (Stamp now))) (\<lambda>affected.
          if affected = 0 then upsert_memory_index_job_tx t i op state (trim_space msg)
          else return_act ())) unique ())))"

section \<open>Asynchronous ingest\<close>

text \<open>Queue one job of an item and remember its id the first time it is seen.\<close>

definition ingest_job :: "bool \<Rightarrow> string \<Rightarrow> memory \<Rightarrow> job_type \<Rightarrow> int \<Rightarrow> gotime \<Rightarrow> string list \<Rightarrow> string list db_act" where
  "ingest_job wanted ingest m ty max_attempts now job_ids =
     (if \<not> wanted then return_act job_ids
      else bind_act (upsert_postprocess_job_tx \<lparr>je_ingest = ingest, je_tenant = m_tenant m,
             je_memory = m_id m, je_type = ty, je_max_attempts = max_attempts\<rparr> (Stamp now)) (\<lambda>j.
           return_act (if j \<in> set job_ids then job_ids else job_ids @ [j])))"

definition ingest_one ::
  "string \<Rightarrow> int \<Rightarrow> gotime \<Rightarrow> ingest_item \<Rightarrow> string list \<times> string list \<Rightarrow> (string list \<times> string list) db_act" where
  "ingest_one ingest max_attempts now item acc =
     bind_act (prepare_memory_for_store (ii_memory item) now) (\<lambda>m.
     bind_act (insert_memory_tx m) (\<lambda>_.
     bind_act (ingest_job (ii_queue_vector item) ingest m VectorUpsert max_attempts now (snd acc)) (\<lambda>j1.
     bind_act (ingest_job (ii_queue_parser item) ingest m ParserExtract max_attempts now j1) (\<lambda>j2.
     return_act (fst acc @ [m_id m], j2)))))"

definition store_batch_async_ingest :: "ingest_item list \<Rightarrow> int \<Rightarrow> ingest_receipt db_act" where
  "store_batch_async_ingest items max_attempts =
     (if items = [] then fail_act ErrInvalidInput
      else let n = (if max_attempts \<le> 0 then 5 else max_attempts) in
        bind_act (new_id ''ing'') (\<lambda>ingest. bind_act now_act (\<lambda>now.
        bind_act (in_tx (fold_act (ingest_one ingest n now) items ([], []))) (\<lambda>(ms, js).
        return_act \<lparr>ir_ingest = ingest, ir_memory_ids = ms, ir_job_ids = js, ir_accepted_at = now\<rparr>))))"

section \<open>The invariant of the store\<close>

definition fts_of :: "memory \<Rightarrow> fts_row" where
  "fts_of m = \<lparr>ft_content = build_indexed_memory_text m, ft_tenant = m_tenant m, ft_memory = m_id m\<rparr>"

definition memory_row_ok :: "memory \<Rightarrow> bool" where
  "memory_row_ok m \<longleftrightarrow> m_id m \<noteq> [] \<and> trim_space (m_tenant m) \<noteq> [] \<and> trim_space (m_content m) \<noteq> [] \<and>
     m_tier m \<noteq> TierOther [] \<and> m_created_by m \<noteq> ByOther [] \<and> m_kind m \<noteq> KindOther [] \<and>
     0 \<le> m_recall_count m"

definition index_ok :: "index_row list \<Rightarrow> bool" where
  "index_ok rows \<longleftrightarrow> distinct (map xr_id rows) \<and> distinct (map index_key rows)"

text \<open>Facts have unique identifiers and, when they come from a memory, are unique per (tenant, entity,
  relation, value, memory), the key of the dedupe index, in which NULL differs from NULL; texts are in
  normal form and not empty.\<close>

definition fact_key :: "fact_row \<Rightarrow> string \<times> string \<times> string \<times> string \<times> string option" where
  "fact_key r = (fr_tenant r, fr_entity r, fr_relation r, fr_value r, fr_memory r)"

definition fact_row_ok :: "fact_row \<Rightarrow> bool" where
  "fact_row_ok r \<longleftrightarrow> fr_id r \<noteq> [] \<and> fr_tenant r \<noteq> [] \<and> fr_entity r \<noteq> [] \<and> fr_relation r \<noteq> [] \<and> fr_value r \<noteq> [] \<and>
     trim_space (fr_tenant r) = fr_tenant r \<and> to_lower (collapse (fr_entity r)) = fr_entity r \<and>
     to_lower (collapse (fr_relation r)) = fr_relation r \<and> collapse (fr_value r) = fr_value r \<and>
     fr_created_at r \<noteq> NoStamp"

definition facts_ok :: "fact_row list \<Rightarrow> bool" where
  "facts_ok rs \<longleftrightarrow> distinct (map fr_id rs) \<and> distinct (map fact_key (filter (\<lambda>r. fr_memory r \<noteq> None) rs)) \<and>
     (\<forall>r \<in> set rs. fact_row_ok r)"

lemma facts_ok_filter: "facts_ok rs \<Longrightarrow> facts_ok (filter p rs)"
proof -
  assume ok: "facts_ok rs"
  have "filter (\<lambda>r. fr_memory r \<noteq> None) (filter p rs) = filter p (filter (\<lambda>r. fr_memory r \<noteq> None) rs)"
    by (simp add: conj_commute)
  with ok show ?thesis by (auto simp add: facts_ok_def distinct_map_filter simp del: filter_filter)
qed

text \<open>Identifiers are unique, rows are well formed and their tenants exist; the full-text table is,
  row by row, the index of the memories table; no embedding or fact refers to a memory that is gone;
  and every memory has its index job.\<close>

definition store_ok :: "database \<Rightarrow> bool" where
  "store_ok db \<longleftrightarrow> distinct (map m_id (db_memories db)) \<and> db_fts db = map fts_of (db_memories db) \<and>
     (\<forall>m \<in> set (db_memories db). memory_row_ok m \<and> m_tenant m \<in> t_id ` set (db_tenants db)) \<and>
     (\<forall>e \<in> set (db_embeddings db). er_memory e \<in> m_id ` set (db_memories db)) \<and>
     (\<forall>f \<in> set (db_facts db). \<forall>i. fr_memory f = Some i \<longrightarrow> i \<in> m_id ` set (db_memories db)) \<and>
     facts_ok (db_facts db) \<and> index_ok (db_index_jobs db) \<and>
     (\<forall>m \<in> set (db_memories db). (m_tenant m, m_id m, OpUpsert) \<in> index_key ` set (db_index_jobs db))"

text \<open>What recording a state for one (tenant, memory, operation) does to the index jobs.\<close>

definition index_marked ::
  "string \<times> string \<times> index_op \<Rightarrow> index_state \<Rightarrow> index_row list \<Rightarrow> index_row list \<Rightarrow> bool" where
  "index_marked k st rows rows' \<longleftrightarrow> index_ok rows' \<and>
     index_key ` set rows' = insert k (index_key ` set rows) \<and>
     (\<forall>r \<in> set rows'. index_key r = k \<longrightarrow> xr_state r = st) \<and>
     {r \<in> set rows'. index_key r \<noteq> k} = {r \<in> set rows. index_key r \<noteq> k}"

lemma index_marked_row:
  assumes "index_marked k st rows rows'"
  shows "\<exists>x \<in> set rows'. index_key x = k \<and> xr_state x = st"
proof -
  have "k \<in> index_key ` set rows'" using assms by (simp add: index_marked_def)
  then obtain x where "x \<in> set rows'" "index_key x = k" by blast
  with assms show ?thesis by (auto simp: index_marked_def)
qed

lemma index_update_marked:
  assumes "index_ok rows" "k \<in> index_key ` set rows"
    and "\<And>r. index_key (f r) = index_key r" "\<And>r. xr_id (f r) = xr_id r" "\<And>r. xr_state (f r) = st"
  shows "index_marked k st rows (update_where (\<lambda>r. index_key r = k) f rows)"
proof -
  have "map xr_id (update_where (\<lambda>r. index_key r = k) f rows) = map xr_id rows"
    "map index_key (update_where (\<lambda>r. index_key r = k) f rows) = map index_key rows"
    using assms(3,4) by (simp_all add: map_update_where)
  moreover from this(2) have "index_key ` set (update_where (\<lambda>r. index_key r = k) f rows) = index_key ` set rows"
    by (metis list.set_map)
  ultimately show ?thesis
    using assms by (auto simp: index_marked_def index_ok_def set_update_where)
qed

lemma yields_upsert_index:
  "yields (\<lambda>t. t = t0 \<and> index_ok (db_index_jobs t0)) (upsert_memory_index_job_tx tn i op st msg)
     (\<lambda>_ t. \<exists>rows. t = t0\<lparr>db_index_jobs := rows\<rparr> \<and> index_marked (tn, i, op) st (db_index_jobs t0) rows)"
proof -
  let ?P = "\<lambda>t. t = t0 \<and> index_ok (db_index_jobs t0)"
  have step: "\<exists>rows. t' = t0\<lparr>db_index_jobs := rows\<rparr> \<and> index_marked (tn, i, op) st (db_index_jobs t0) rows"
    if "?P t" and run: "upsert_index_stmt new t = Inr (u, t')" and k: "index_key new = (tn, i, op)"
      and s: "xr_state new = st" for new t t' u
  proof (cases "index_key new \<in> index_key ` set (db_index_jobs t0)")
    case True
    with that have t': "t' = t0\<lparr>db_index_jobs :=
        update_where (\<lambda>r. index_key r = (tn, i, op)) (reindex_row new) (db_index_jobs t0)\<rparr>"
      by (auto simp: upsert_index_stmt_def split: if_splits)
    have "index_marked (tn, i, op) st (db_index_jobs t0)
        (update_where (\<lambda>r. index_key r = (tn, i, op)) (reindex_row new) (db_index_jobs t0))"
      using that True by (intro index_update_marked) (auto simp: reindex_row_def index_key_def)
    with t' show ?thesis by blast
  next
    case False
    then have nk: "\<not> (\<exists>r \<in> set (db_index_jobs t0). index_key r = index_key new)"
      by (metis image_eqI)
    with that have "t' = t0\<lparr>db_index_jobs := db_index_jobs t0 @ [new]\<rparr>"
      and "xr_id new \<notin> xr_id ` set (db_index_jobs t0)"
      by (auto simp: upsert_index_stmt_def split: if_splits)
    moreover have "index_marked (tn, i, op) st (db_index_jobs t0) (db_index_jobs t0 @ [new])"
      using that nk False calculation(2) by (auto simp: index_marked_def index_ok_def)
    ultimately show ?thesis by blast
  qed
  show ?thesis
    unfolding upsert_memory_index_job_tx_def
    by (rule yields_bind [where Q = "\<lambda>_. ?P"], rule yields_now, assumption,
        rule yields_bind [where Q = "\<lambda>_. ?P"], rule yields_new_id [OF word_idx], assumption,
        rule yields_exec, rule step) (auto simp: index_key_def)
qed

text \<open>Inserting a memory, and what it does to the tables.\<close>

definition memory_added :: "memory \<Rightarrow> database \<Rightarrow> database \<Rightarrow> bool" where
  "memory_added m db db' \<longleftrightarrow> m_id m \<notin> m_id ` set (db_memories db) \<and> m_tenant m \<in> t_id ` set (db_tenants db) \<and>
     (\<exists>rows. db' = db\<lparr>db_memories := db_memories db @ [m], db_fts := db_fts db @ [fts_of m],
        db_index_jobs := rows\<rparr> \<and>
        index_marked (m_tenant m, m_id m, OpUpsert) IxPending (db_index_jobs db) rows)"

lemma yields_insert_memory:
  "yields (\<lambda>t. t = t0 \<and> index_ok (db_index_jobs t0)) (insert_memory_tx m) (\<lambda>_ t. memory_added m t0 t)"
proof -
  let ?t1 = "t0\<lparr>db_memories := db_memories t0 @ [m]\<rparr>"
  let ?t2 = "t0\<lparr>db_memories := db_memories t0 @ [m], db_fts := db_fts t0 @ [fts_of m]\<rparr>"
  let ?c = "m_id m \<notin> m_id ` set (db_memories t0) \<and> m_tenant m \<in> t_id ` set (db_tenants t0)"
  let ?Q1 = "\<lambda>_ t. t = ?t1 \<and> ?c \<and> index_ok (db_index_jobs t0)"
  let ?Q2 = "\<lambda>_ t. t = ?t2 \<and> ?c \<and> index_ok (db_index_jobs t0)"
  have 1: "yields (\<lambda>t. t = t0 \<and> index_ok (db_index_jobs t0)) (exec (insert_memory_stmt m)) ?Q1"
    by (rule yields_exec) (auto simp: insert_memory_stmt_def split: if_splits)
  have 2: "yields (?Q1 u) (exec (insert_fts_stmt (fts_of m))) ?Q2" for u :: unit
    by (rule yields_exec) (auto simp: insert_fts_stmt_def)
  have 3: "yields (?Q2 u) (upsert_memory_index_job_tx (m_tenant m) (m_id m) OpUpsert IxPending [])
      (\<lambda>_ t. memory_added m t0 t)" for u :: unit
  proof (cases ?c)
    case True
    show ?thesis
      by (rule yields_weaken [OF yields_upsert_index [of ?t2]]) (use True in \<open>auto simp: memory_added_def\<close>)
  next
    case False
    then show ?thesis by (auto simp: yields_def)
  qed
  show ?thesis
    unfolding insert_memory_tx_def fts_of_def [symmetric]
    by (rule yields_bind [OF 1 yields_bind [OF 2 3]])
qed

text \<open>A prepared memory: every field with its default filled in.\<close>

definition prepared :: "gotime \<Rightarrow> memory \<Rightarrow> memory \<Rightarrow> bool" where
  "prepared now m p \<longleftrightarrow> memory_row_ok p \<and> m_tenant p = m_tenant m \<and> m_content p = m_content m \<and>
     (m_id m \<noteq> [] \<longrightarrow> m_id p = m_id m) \<and> m_updated_at p = now \<and> m_tags p = m_tags m \<and>
     m_tier p = (if m_tier m = TierOther [] then TierAuto else m_tier m) \<and>
     m_kind p = (if m_kind m = KindOther [] then KindRawTurn else m_kind m) \<and>
     m_importance p = m_importance m \<and> m_canonical_key p = m_canonical_key m \<and>
     \<not> (m_source_fact_index p = 0 \<and> trim_space (m_canonical_key p) = [])"

lemma prepare_run:
  assumes "prepare_memory_for_store m now w = (Inr p, w')"
  shows "prepared now m p \<and> tabs w' = tabs w"
proof -
  have pre: "trim_space (m_tenant m) \<noteq> []" "trim_space (m_content m) \<noteq> []"
    using assms by (auto simp: prepare_memory_for_store_def fail_act_def split: if_splits)
  with assms obtain i w1 where
    i: "(if m_id m = [] then new_id ''mem'' else return_act (m_id m)) w = (Inr i, w1)"
    and ret: "w' = w1" and p: "p = m\<lparr>m_id := i,
          m_tier := (if m_tier m = TierOther [] then TierAuto else m_tier m),
          m_created_by := (if m_created_by m = ByOther [] then ByAuto else m_created_by m),
          m_kind := (if m_kind m = KindOther [] then KindRawTurn else m_kind m),
          m_source_fact_index := (if m_source_fact_index m = 0 \<and> trim_space (m_canonical_key m) = []
                                  then - 1 else m_source_fact_index m),
          m_created_at := (if is_zero (m_created_at m) then now else m_created_at m),
          m_updated_at := now,
          m_last_accessed_at := (if is_zero (m_last_accessed_at m) then now else m_last_accessed_at m),
          m_last_recalled_at := (if is_zero (m_last_recalled_at m) then 0 else m_last_recalled_at m),
          m_recall_count := (if m_recall_count m < 0 then 0 else m_recall_count m)\<rparr>"
    unfolding prepare_memory_for_store_def if_not_P [OF iffD2 [OF de_Morgan_disj, OF conjI [OF pre]]]
    by (elim bind_actE) (simp only: return_act_success)
  have "(m_id m \<noteq> [] \<longrightarrow> i = m_id m) \<and> i \<noteq> [] \<and> tabs w1 = tabs w"
  proof (cases "m_id m = []")
    case True
    with i have "new_id ''mem'' w = (Inr i, w1)" by simp
    with True new_id_word [OF this word_mem] show ?thesis by (simp add: new_idE(2) word_def)
  next
    case False
    with i show ?thesis by (simp add: return_act_success)
  qed
  then show ?thesis using pre by (simp add: p ret prepared_def memory_row_ok_def)
qed

lemma yields_prepare: "yields P (prepare_memory_for_store m now) (\<lambda>p t. P t \<and> prepared now m p)"
  by (rule yieldsI) (use prepare_run in fastforce)

lemma memory_added_ok:
  assumes "store_ok db" "memory_added m db db'" "memory_row_ok m"
  shows "store_ok db'"
  using assms by (auto simp: store_ok_def memory_added_def index_marked_def)

section \<open>Deleting, touching, marking\<close>

definition memory_deleted :: "string \<Rightarrow> string \<Rightarrow> database \<Rightarrow> database \<Rightarrow> bool" where
  "memory_deleted t i db db' \<longleftrightarrow>
     (\<exists>m \<in> set (db_memories db). m_tenant m = t \<and> m_id m = i) \<and>
     (\<exists>rows. db' = db\<lparr>db_memories := filter (\<lambda>m. \<not> (m_tenant m = t \<and> m_id m = i)) (db_memories db),
        db_fts := filter (\<lambda>r. \<not> (ft_tenant r = t \<and> ft_memory r = i)) (db_fts db),
        db_embeddings := filter (\<lambda>r. er_memory r \<noteq> i) (db_embeddings db),
        db_facts := filter (\<lambda>r. fr_memory r \<noteq> Some i) (db_facts db),
        db_index_jobs := rows\<rparr> \<and>
        index_marked (t, i, OpDelete) IxPending (db_index_jobs db) rows)"

lemma yields_delete:
  "yields (\<lambda>db. db = t0 \<and> index_ok (db_index_jobs t0)) (repo_delete t i) (\<lambda>_ db. memory_deleted t i t0 db)"
proof -
  let ?P = "\<lambda>db. db = t0 \<and> index_ok (db_index_jobs t0)"
  let ?m = "\<lambda>rows. index_marked (t, i, OpDelete) IxPending (db_index_jobs t0) rows"
  let ?Q1 = "\<lambda>_ db. \<exists>rows. db = t0\<lparr>db_index_jobs := rows\<rparr> \<and> ?m rows"
  let ?fts = "filter (\<lambda>r. \<not> (ft_tenant r = t \<and> ft_memory r = i)) (db_fts t0)"
  let ?Q2 = "\<lambda>_ db. \<exists>rows. db = t0\<lparr>db_index_jobs := rows, db_fts := ?fts\<rparr> \<and> ?m rows"
  let ?Q3 = "\<lambda>n db. n \<noteq> 0 \<longrightarrow> memory_deleted t i t0 db"
  have 2: "yields (?Q1 u) (exec (delete_fts_stmt t i)) ?Q2" for u :: unit
    by (rule yields_exec) (auto simp: delete_fts_stmt_def)
  have 3: "yields (?Q2 u) (exec (delete_memory_stmt t i)) ?Q3" for u :: unit
  proof (rule yields_exec)
    fix db n db' assume Q: "?Q2 u db" and run: "delete_memory_stmt t i db = Inr (n, db')"
    from Q obtain rows where db: "db = t0\<lparr>db_index_jobs := rows, db_fts := ?fts\<rparr>" and m: "?m rows" by blast
    show "?Q3 n db'"
    proof
      assume "n \<noteq> 0"
      moreover have "n = count_where (\<lambda>m. m_tenant m = t \<and> m_id m = i) (db_memories t0)"
        using run by (auto simp: delete_memory_stmt_def Let_def db)
      ultimately have "\<exists>m \<in> set (db_memories t0). m_tenant m = t \<and> m_id m = i"
        by (auto simp: count_where_zero_iff)
      moreover have "db' = t0\<lparr>db_memories := filter (\<lambda>m. \<not> (m_tenant m = t \<and> m_id m = i)) (db_memories t0),
        db_fts := ?fts, db_embeddings := filter (\<lambda>r. er_memory r \<noteq> i) (db_embeddings t0),
        db_facts := filter (\<lambda>r. fr_memory r \<noteq> Some i) (db_facts t0), db_index_jobs := rows\<rparr>"
        using run \<open>n \<noteq> 0\<close> by (auto simp: delete_memory_stmt_def Let_def db split: if_splits)
      ultimately show "memory_deleted t i t0 db'" using m unfolding memory_deleted_def by blast
    qed
  qed
  have 4: "yields (?Q3 n) (if n = 0 then fail_act ErrNotFound else return_act ()) (\<lambda>_ db. memory_deleted t i t0 db)"
    for n by (auto intro: act_yields yields_return)
  show ?thesis
    unfolding repo_delete_def
    by (rule yields_in_tx, rule yields_bind [OF yields_upsert_index [of t0]],
        rule yields_bind [OF 2], rule yields_bind [OF 3 4])
qed

lemma filter_fts_of:
  "filter (\<lambda>r. \<not> (ft_tenant r = t \<and> ft_memory r = i)) (map fts_of ms) =
   map fts_of (filter (\<lambda>m. \<not> (m_tenant m = t \<and> m_id m = i)) ms)"
  by (induction ms) (auto simp: fts_of_def)

lemma distinct_id_same:
  "distinct (map m_id ms) \<Longrightarrow> m \<in> set ms \<Longrightarrow> n \<in> set ms \<Longrightarrow> m_id m = m_id n \<Longrightarrow> m = n"
  by (auto simp: distinct_map dest: inj_onD)

lemma memory_deleted_ok:
  assumes ok: "store_ok db" and del: "memory_deleted t i db db'"
  shows "store_ok db'"
proof -
  let ?keep = "filter (\<lambda>m. \<not> (m_tenant m = t \<and> m_id m = i)) (db_memories db)"
  obtain m0 where m0: "m0 \<in> set (db_memories db)" "m_tenant m0 = t" "m_id m0 = i"
    using del by (auto simp: memory_deleted_def)
  obtain rows where db': "db' = db\<lparr>db_memories := ?keep,
        db_fts := filter (\<lambda>r. \<not> (ft_tenant r = t \<and> ft_memory r = i)) (db_fts db),
        db_embeddings := filter (\<lambda>r. er_memory r \<noteq> i) (db_embeddings db),
        db_facts := filter (\<lambda>r. fr_memory r \<noteq> Some i) (db_facts db),
        db_index_jobs := rows\<rparr>"
    and mk: "index_marked (t, i, OpDelete) IxPending (db_index_jobs db) rows"
    using del by (auto simp: memory_deleted_def)
  have d: "distinct (map m_id (db_memories db))" using ok by (simp add: store_ok_def)
  have keep_id: "j \<in> m_id ` set ?keep" if "j \<in> m_id ` set (db_memories db)" "j \<noteq> i" for j
    using that by auto
  have keep_sub: "set ?keep \<subseteq> set (db_memories db)" by auto
  show ?thesis
    unfolding store_ok_def
  proof (intro conjI ballI allI impI)
    show "distinct (map m_id (db_memories db'))" using d by (simp add: db' distinct_map_filter)
    show "db_fts db' = map fts_of (db_memories db')" 
      using ok filter_fts_of [of t i "db_memories db"] by (simp add: db' store_ok_def)
    show "index_ok (db_index_jobs db')" using mk by (simp add: db' index_marked_def)
    show "facts_ok (db_facts db')" using ok by (simp add: db' store_ok_def facts_ok_filter)
  next
    fix m assume m: "m \<in> set (db_memories db')"
    then have m1: "m \<in> set (db_memories db)" by (simp add: db')
    then show "memory_row_ok m" "m_tenant m \<in> t_id ` set (db_tenants db')"
      using ok by (simp_all add: db' store_ok_def)
    have "(m_tenant m, m_id m, OpUpsert) \<in> index_key ` set (db_index_jobs db)"
      using ok m1 by (simp add: store_ok_def)
    then show "(m_tenant m, m_id m, OpUpsert) \<in> index_key ` set (db_index_jobs db')"
      using mk by (simp add: db' index_marked_def)
  next
    fix e assume "e \<in> set (db_embeddings db')"
    then have "e \<in> set (db_embeddings db)" "er_memory e \<noteq> i" by (simp_all add: db')
    then have "er_memory e \<in> m_id ` set ?keep" using ok by (intro keep_id) (auto simp: store_ok_def)
    then show "er_memory e \<in> m_id ` set (db_memories db')" by (simp add: db')
  next
    fix f j assume "f \<in> set (db_facts db')" "fr_memory f = Some j"
    then have "f \<in> set (db_facts db)" "j \<noteq> i" "fr_memory f = Some j" by (auto simp: db')
    then have "j \<in> m_id ` set ?keep" using ok by (intro keep_id) (auto simp: store_ok_def)
    then show "j \<in> m_id ` set (db_memories db')" by (simp add: db')
  qed
qed

lemma touch_row_same:
  "fts_of (m\<lparr>m_last_accessed_at := a, m_last_recalled_at := b, m_recall_count := c, m_updated_at := u\<rparr>) = fts_of m"
  by (simp add: fts_of_def build_indexed_memory_text_def)

lemma touch_stmt_ok:
  assumes ok: "store_ok db" and run: "touch_stmt t ids now db = Inr (u, db')"
  shows "store_ok db'"
proof -
  let ?p = "\<lambda>m. m_tenant m = t \<and> m_id m \<in> set ids"
  let ?f = "\<lambda>m. m\<lparr>m_last_accessed_at := now, m_last_recalled_at := now,
          m_recall_count := m_recall_count m + 1, m_updated_at := now\<rparr>"
  let ?ms = "update_where ?p ?f (db_memories db)"
  have db': "db' = db\<lparr>db_memories := ?ms\<rparr>" using run by (simp add: touch_stmt_def)
  have ids: "map m_id ?ms = map m_id (db_memories db)" by (simp add: map_update_where)
  then have idset: "m_id ` set ?ms = m_id ` set (db_memories db)" by (metis list.set_map)
  have fts: "map fts_of ?ms = map fts_of (db_memories db)"
    by (rule map_update_where) (rule touch_row_same)
  have row: "\<exists>m0 \<in> set (db_memories db). m_id m = m_id m0 \<and> m_tenant m = m_tenant m0 \<and>
      (memory_row_ok m0 \<longrightarrow> memory_row_ok m)" if "m \<in> set ?ms" for m
    using that by (auto simp: set_update_where memory_row_ok_def)
  from ok ids idset fts show ?thesis
    unfolding store_ok_def db' using row by (simp) (metis (no_types, lifting))
qed

lemma keeps_touch: "keeps store_ok (repo_touch t ids)"
  unfolding repo_touch_def Let_def
  by (intro act_keeps keeps_exec) (erule touch_stmt_ok)

lemma index_marked_store_ok:
  "store_ok db \<Longrightarrow> index_marked k st (db_index_jobs db) rows \<Longrightarrow> store_ok (db\<lparr>db_index_jobs := rows\<rparr>)"
  by (auto simp: store_ok_def index_marked_def)

text \<open>Marking is a sequence of marks, one per distinct memory id.\<close>

fun index_marked_all :: "string \<Rightarrow> index_op \<Rightarrow> index_state \<Rightarrow> string list \<Rightarrow> index_row list \<Rightarrow> index_row list \<Rightarrow> bool" where
  "index_marked_all t op st [] rows rows' \<longleftrightarrow> rows' = rows"
| "index_marked_all t op st (i # ids) rows rows' \<longleftrightarrow>
     (\<exists>mid. index_marked (t, i, op) st rows mid \<and> index_marked_all t op st ids mid rows')"

lemma yields_mark_one:
  "yields (\<lambda>db. db = t0 \<and> index_ok (db_index_jobs t0))
     (bind_act (exec (update_index_stmt t i op st msg now)) (\<lambda>affected.
        if affected = 0 then upsert_memory_index_job_tx t i op st msg else return_act ()))
     (\<lambda>_ db. \<exists>rows. db = t0\<lparr>db_index_jobs := rows\<rparr> \<and> index_marked (t, i, op) st (db_index_jobs t0) rows)"
proof -
  let ?P = "\<lambda>db. db = t0 \<and> index_ok (db_index_jobs t0)"
  let ?G = "\<lambda>db. \<exists>rows. db = t0\<lparr>db_index_jobs := rows\<rparr> \<and> index_marked (t, i, op) st (db_index_jobs t0) rows"
  let ?Q = "\<lambda>n db. (n = 0 \<longrightarrow> ?P db) \<and> (n \<noteq> 0 \<longrightarrow> ?G db)"
  have 1: "yields ?P (exec (update_index_stmt t i op st msg now)) ?Q"
  proof (rule yields_exec)
    fix db n db' assume P: "?P db" and run: "update_index_stmt t i op st msg now db = Inr (n, db')"
    let ?hit = "\<lambda>r. xr_tenant r = t \<and> xr_memory r = i \<and> xr_op r = op"
    let ?f = "\<lambda>r. r\<lparr>xr_state := st, xr_last_error := msg,
           xr_attempts := (if st = IxFailed then xr_attempts r + 1 else xr_attempts r),
           xr_updated_at := now\<rparr>"
    have hit: "?hit = (\<lambda>r. index_key r = (t, i, op))" by (auto simp: index_key_def fun_eq_iff)
    have n: "n = count_where (\<lambda>r. index_key r = (t, i, op)) (db_index_jobs t0)"
      and db': "db' = t0\<lparr>db_index_jobs := update_where (\<lambda>r. index_key r = (t, i, op)) ?f (db_index_jobs t0)\<rparr>"
      using run P by (simp_all add: update_index_stmt_def Let_def hit [symmetric])
    show "?Q n db'"
    proof (intro conjI impI)
      assume "n = 0"
      then have "update_where (\<lambda>r. index_key r = (t, i, op)) ?f (db_index_jobs t0) = db_index_jobs t0"
        by (intro update_where_none) (simp add: n count_where_zero_iff)
      then show "db' = t0" "index_ok (db_index_jobs t0)" using P by (simp_all add: db')
    next
      assume "n \<noteq> 0"
      then have "(t, i, op) \<in> index_key ` set (db_index_jobs t0)" by (simp add: n count_where_key)
      then have "index_marked (t, i, op) st (db_index_jobs t0)
          (update_where (\<lambda>r. index_key r = (t, i, op)) ?f (db_index_jobs t0))"
        using P by (intro index_update_marked) (simp_all add: index_key_def)
      with db' show "?G db'" by blast
    qed
  qed
  have 2: "yields (?Q n) (if n = 0 then upsert_memory_index_job_tx t i op st msg else return_act ()) (\<lambda>_. ?G)" for n
  proof (cases "n = 0")
    case True
    then show ?thesis using yields_weaken [OF yields_upsert_index [of t0]] by simp
  next
    case False
    then show ?thesis by (simp add: yields_return)
  qed
  show ?thesis by (rule yields_bind [OF 1 2])
qed

lemma index_marked_ok: "index_marked k st rows rows' \<Longrightarrow> index_ok rows'"
  by (simp add: index_marked_def)

lemma yields_mark_all:
  "yields (\<lambda>db. db = t0 \<and> index_ok (db_index_jobs t0))
     (fold_act (\<lambda>i _. bind_act (exec (update_index_stmt t i op st msg now)) (\<lambda>affected.
        if affected = 0 then upsert_memory_index_job_tx t i op st msg else return_act ())) ids u)
     (\<lambda>_ db. \<exists>rows. db = t0\<lparr>db_index_jobs := rows\<rparr> \<and> index_marked_all t op st ids (db_index_jobs t0) rows)"
proof (induction ids arbitrary: t0 u)
  case Nil
  show ?case by (auto intro!: yields_return)
next
  case (Cons i ids)
  let ?one = "\<lambda>i. bind_act (exec (update_index_stmt t i op st msg now)) (\<lambda>affected.
        if affected = 0 then upsert_memory_index_job_tx t i op st msg else return_act ())"
  have rest: "yields (\<lambda>db. \<exists>rows. db = t0\<lparr>db_index_jobs := rows\<rparr> \<and>
        index_marked (t, i, op) st (db_index_jobs t0) rows) (fold_act (\<lambda>i _. ?one i) ids v)
      (\<lambda>_ db. \<exists>rows. db = t0\<lparr>db_index_jobs := rows\<rparr> \<and> index_marked_all t op st (i # ids) (db_index_jobs t0) rows)" for v
  proof (rule yieldsI)
    fix w x w'
    assume "\<exists>rows. tabs w = t0\<lparr>db_index_jobs := rows\<rparr> \<and> index_marked (t, i, op) st (db_index_jobs t0) rows"
      and run: "fold_act (\<lambda>i _. ?one i) ids v w = (Inr x, w')"
    then obtain rows where w: "tabs w = t0\<lparr>db_index_jobs := rows\<rparr>"
      and m: "index_marked (t, i, op) st (db_index_jobs t0) rows" by blast
    have "\<exists>rows'. tabs w' = (t0\<lparr>db_index_jobs := rows\<rparr>)\<lparr>db_index_jobs := rows'\<rparr> \<and>
        index_marked_all t op st ids rows rows'"
      using yieldsD [OF Cons.IH [of "t0\<lparr>db_index_jobs := rows\<rparr>"] run] w index_marked_ok [OF m] by simp
    with m show "\<exists>rows. tabs w' = t0\<lparr>db_index_jobs := rows\<rparr> \<and>
        index_marked_all t op st (i # ids) (db_index_jobs t0) rows" by auto
  qed
  show ?case unfolding fold_act.simps by (rule yields_bind [OF yields_mark_one rest])
qed

section \<open>Composed operations\<close>

lemma yields_keeps: "keeps P m \<Longrightarrow> yields P m (\<lambda>_. P)"
  by (rule yieldsI) (auto dest: keepsD)

lemma store_ok_jobs [simp]: "store_ok (db\<lparr>db_jobs := js\<rparr>) = store_ok db"
  by (simp add: store_ok_def)

text \<open>The two invariants of the database together.\<close>

definition db_ok :: "database \<Rightarrow> bool" where
  "db_ok db \<longleftrightarrow> store_ok db \<and> jobs_ok db"

text \<open>What storing a list of memories has done, with every other table as it was.\<close>

definition memories_added :: "gotime \<Rightarrow> memory list \<Rightarrow> memory list \<Rightarrow> database \<Rightarrow> database \<Rightarrow> bool" where
  "memories_added now ms ps db db' \<longleftrightarrow> list_all2 (prepared now) ms ps \<and>
     db_memories db' = db_memories db @ ps \<and> db_fts db' = db_fts db @ map fts_of ps \<and>
     db_tenants db' = db_tenants db \<and> db_embeddings db' = db_embeddings db \<and>
     db_facts db' = db_facts db \<and> store_ok db'"

lemma memories_added_step:
  assumes "memories_added now ms ps db db1" "prepared now m p" "memory_added p db1 db2"
  shows "memories_added now (ms @ [m]) (ps @ [p]) db db2"
proof -
  have "store_ok db2" using assms memory_added_ok by (auto simp: memories_added_def prepared_def)
  moreover have "list_all2 (prepared now) (ms @ [m]) (ps @ [p])"
    using assms(1,2) by (intro list_all2_appendI) (simp_all add: memories_added_def)
  ultimately show ?thesis
    using assms by (auto simp: memories_added_def memory_added_def)
qed

lemma memory_added_jobs: "memory_added m db db' \<Longrightarrow> db_jobs db' = db_jobs db"
  by (auto simp: memory_added_def)

lemma yields_store_one:
  "yields (\<lambda>t. memories_added now ms ps t0 t \<and> db_jobs t = js) (store_one now m)
     (\<lambda>p t. memories_added now (ms @ [m]) (ps @ [p]) t0 t \<and> db_jobs t = js)"
proof -
  let ?I = "\<lambda>t. memories_added now ms ps t0 t \<and> db_jobs t = js"
  have ins: "yields (\<lambda>t. ?I t \<and> prepared now m p)
      (bind_act (insert_memory_tx p) (\<lambda>_. return_act p))
      (\<lambda>p t. memories_added now (ms @ [m]) (ps @ [p]) t0 t \<and> db_jobs t = js)" for p
  proof (rule yields_bind)
    show "yields (\<lambda>t. ?I t \<and> prepared now m p) (insert_memory_tx p)
       (\<lambda>_ t. memories_added now (ms @ [m]) (ps @ [p]) t0 t \<and> db_jobs t = js)"
    proof (rule yieldsI)
      fix w u w' assume I: "?I (tabs w) \<and> prepared now m p" and run: "insert_memory_tx p w = (Inr u, w')"
      then have "index_ok (db_index_jobs (tabs w))" by (simp add: memories_added_def store_ok_def)
      then have add: "memory_added p (tabs w) (tabs w')"
        using yieldsD [OF yields_insert_memory run, of "tabs w"] by simp
      then show "memories_added now (ms @ [m]) (ps @ [p]) t0 (tabs w') \<and> db_jobs (tabs w') = js"
        using I memories_added_step [OF _ _ add] memory_added_jobs [OF add] by simp
    qed
  qed (simp add: yields_return)
  show ?thesis unfolding store_one_def by (rule yields_bind [OF yields_prepare ins])
qed

lemma memories_added_refl: "store_ok t \<Longrightarrow> memories_added now [] [] t t"
  by (simp add: memories_added_def)

lemma yields_store_batch:
  "yields (\<lambda>t. t = t0 \<and> store_ok t0) (repo_store_batch ms)
     (\<lambda>ps t. \<exists>now. memories_added now ms ps t0 t \<and> db_jobs t = db_jobs t0)"
proof -
  have body: "yields (\<lambda>t. memories_added now [] [] t0 t \<and> db_jobs t = db_jobs t0) (map_act (store_one now) ms)
      (\<lambda>ps t. memories_added now ms ps t0 t \<and> db_jobs t = db_jobs t0)" for now
    using yields_map [where I = "\<lambda>ms ps t. memories_added now ms ps t0 t \<and> db_jobs t = db_jobs t0"
        and zs = "[]" and ys = "[]" and xs = ms, OF yields_store_one] by simp
  show ?thesis
    unfolding repo_store_batch_def
  proof (intro yields_if)
    assume "ms = []"
    then show "yields (\<lambda>t. t = t0 \<and> store_ok t0) (return_act [])
        (\<lambda>ps t. \<exists>now. memories_added now ms ps t0 t \<and> db_jobs t = db_jobs t0)"
      by (auto intro!: yields_return memories_added_refl)
  next
    show "yields (\<lambda>t. t = t0 \<and> store_ok t0) (bind_act now_act (\<lambda>now. in_tx (map_act (store_one now) ms)))
        (\<lambda>ps t. \<exists>now. memories_added now ms ps t0 t \<and> db_jobs t = db_jobs t0)"
    proof (rule yields_bind)
      show "yields (\<lambda>t. t = t0 \<and> store_ok t0) now_act (\<lambda>_ t. t = t0 \<and> store_ok t0)"
        by (rule yields_now)
      show "yields (\<lambda>t. t = t0 \<and> store_ok t0) (in_tx (map_act (store_one now) ms))
        (\<lambda>ps t. \<exists>now. memories_added now ms ps t0 t \<and> db_jobs t = db_jobs t0)" for now
        by (rule yields_in_tx, rule yields_weaken [OF body [of now]]) (auto intro: memories_added_refl)
    qed
  qed
qed

lemma yields_store:
  "yields (\<lambda>t. t = t0 \<and> store_ok t0) (repo_store m)
     (\<lambda>p t. \<exists>now. memories_added now [m] [p] t0 t \<and> db_jobs t = db_jobs t0)"
proof -
  have tx: "yields (\<lambda>t. (t = t0 \<and> store_ok t0) \<and> prepared now m p)
      (in_tx (bind_act (insert_memory_tx p) (\<lambda>_. return_act p)))
      (\<lambda>p t. \<exists>now. memories_added now [m] [p] t0 t \<and> db_jobs t = db_jobs t0)" for now p
  proof (rule yields_in_tx, rule yields_bind)
    show "yields (\<lambda>t. (t = t0 \<and> store_ok t0) \<and> prepared now m p) (insert_memory_tx p)
        (\<lambda>_ t. memories_added now [m] [p] t0 t \<and> db_jobs t = db_jobs t0)"
    proof (rule yieldsI)
      fix w u w' assume I: "(tabs w = t0 \<and> store_ok t0) \<and> prepared now m p"
        and run: "insert_memory_tx p w = (Inr u, w')"
      then have add: "memory_added p t0 (tabs w')"
        using yieldsD [OF yields_insert_memory run, of t0] by (simp add: store_ok_def)
      with I memories_added_step [OF memories_added_refl, of t0 now m p "tabs w'"] memory_added_jobs [OF add]
      show "memories_added now [m] [p] t0 (tabs w') \<and> db_jobs (tabs w') = db_jobs t0" by simp
    qed
  qed (auto intro!: yields_return)
  show ?thesis
    unfolding repo_store_def
    by (intro act_yields yields_bind [OF yields_now, where Q = "\<lambda>_ t. t = t0 \<and> store_ok t0"]
        yields_bind [OF yields_prepare tx]) simp
qed

text \<open>Every operation keeps both invariants.\<close>

lemma memories_added_keep:
  assumes "\<And>t0. yields (\<lambda>t. t = t0 \<and> store_ok t0) m
      (\<lambda>ps t. \<exists>now. memories_added now (ms ps) (qs ps) t0 t \<and> db_jobs t = db_jobs t0)"
  shows "yields db_ok m (\<lambda>_. db_ok)"
proof (rule yieldsI)
  fix w x w' assume ok: "db_ok (tabs w)" and run: "m w = (Inr x, w')"
  obtain now where "memories_added now (ms x) (qs x) (tabs w) (tabs w')" "db_jobs (tabs w') = db_jobs (tabs w)"
    using yieldsD [OF assms run, of "tabs w"] ok by (auto simp: db_ok_def)
  with ok show "db_ok (tabs w')" by (simp add: db_ok_def memories_added_def)
qed

section \<open>Ingest\<close>

text \<open>What the queue holds for an item once it is ingested.\<close>

definition item_queued :: "gotime \<Rightarrow> ingest_item \<Rightarrow> memory \<Rightarrow> job_row list \<Rightarrow> bool" where
  "item_queued now it p rows \<longleftrightarrow>
     (ii_queue_vector it \<longrightarrow> queued_at now (m_tenant p, m_id p, VectorUpsert) rows) \<and>
     (ii_queue_parser it \<longrightarrow> queued_at now (m_tenant p, m_id p, ParserExtract) rows)"

definition item_keys :: "ingest_item \<Rightarrow> memory \<Rightarrow> (string \<times> string \<times> job_type) set" where
  "item_keys it p = (if ii_queue_vector it then {(m_tenant p, m_id p, VectorUpsert)} else {}) \<union>
     (if ii_queue_parser it then {(m_tenant p, m_id p, ParserExtract)} else {})"

definition ingest_keys :: "ingest_item list \<Rightarrow> memory list \<Rightarrow> (string \<times> string \<times> job_type) set" where
  "ingest_keys items ps = (\<Union>(it, p) \<in> set (zip items ps). item_keys it p)"

definition ingested ::
  "gotime \<Rightarrow> ingest_item list \<Rightarrow> memory list \<Rightarrow> database \<Rightarrow> database \<Rightarrow> bool" where
  "ingested now items ps db db' \<longleftrightarrow> memories_added now (map ii_memory items) ps db db' \<and> jobs_ok db' \<and>
     (\<forall>(it, p) \<in> set (zip items ps). item_queued now it p (db_jobs db')) \<and>
     rows_off (ingest_keys items ps) (db_jobs db') = rows_off (ingest_keys items ps) (db_jobs db)"

lemma memories_added_jobs_irrelevant [simp]:
  "memories_added now ms ps db (db'\<lparr>db_jobs := js\<rparr>) = memories_added now ms ps db db'"
  by (simp add: memories_added_def)

lemma yields_ingest_job:
  assumes "0 < n" and "wanted \<Longrightarrow> (m_tenant m, m_id m, ty) \<in> F"
  shows "yields (\<lambda>t. \<exists>js. t = t0\<lparr>db_jobs := js\<rparr> \<and> job_table_ok js \<and> rows_off F js = R \<and> (\<forall>k \<in> K. queued_at now k js))
     (ingest_job wanted ingest m ty n now jids)
     (\<lambda>_ t. \<exists>js. t = t0\<lparr>db_jobs := js\<rparr> \<and> job_table_ok js \<and> rows_off F js = R \<and>
        (\<forall>k \<in> K \<union> (if wanted then {(m_tenant m, m_id m, ty)} else {}). queued_at now k js))"
proof (cases wanted)
  case False
  then show ?thesis by (simp add: ingest_job_def yields_return)
next
  case True
  let ?job = "\<lparr>je_ingest = ingest, je_tenant = m_tenant m, je_memory = m_id m, je_type = ty, je_max_attempts = n\<rparr>"
  let ?Q = "\<lambda>t. \<exists>js. t = t0\<lparr>db_jobs := js\<rparr> \<and> job_table_ok js \<and> rows_off F js = R \<and>
        (\<forall>k \<in> insert (m_tenant m, m_id m, ty) K. queued_at now k js)"
  have up: "yields (\<lambda>t. \<exists>js. t = t0\<lparr>db_jobs := js\<rparr> \<and> job_table_ok js \<and> rows_off F js = R \<and> (\<forall>k \<in> K. queued_at now k js))
      (upsert_postprocess_job_tx ?job (Stamp now)) (\<lambda>_. ?Q)"
  proof (rule yieldsI)
    fix w i w' assume "\<exists>js. tabs w = t0\<lparr>db_jobs := js\<rparr> \<and> job_table_ok js \<and> rows_off F js = R \<and> (\<forall>k \<in> K. queued_at now k js)"
      and run: "upsert_postprocess_job_tx ?job (Stamp now) w = (Inr i, w')"
    then obtain js where js: "tabs w = t0\<lparr>db_jobs := js\<rparr>" "job_table_ok js" "\<forall>k \<in> K. queued_at now k js" "rows_off F js = R"
      by blast
    obtain new rows r where new: "job_row_ok new" "jr_status new = Queued" "jr_available_at new = Stamp now"
      "job_key new = (m_tenant m, m_id m, ty)"
      and rows: "upsert_job_rows new js = Inr rows" and t: "tabs w' = t0\<lparr>db_jobs := rows\<rparr>"
      and r: "r \<in> set rows" "job_key r = job_key new" "jr_status r = Queued" "jr_attempts r = 0"
        "jr_available_at r = Stamp now"
      by (rule upsert_tx_run [OF run]) (simp add: js(1))
    have "queued_at now (m_tenant m, m_id m, ty) rows" using r new(4) unfolding queued_at_def by auto
    moreover have "\<forall>k \<in> K. queued_at now k rows" using js(3) queued_at_upsert [OF rows _ new(3)] by blast
    moreover have "rows_off F rows = R" using rows_off_upsert [OF rows] new(4) assms(2) True js(4) by simp
    moreover have "job_table_ok rows" using upsert_job_rows_ok [OF js(2) new(1,2) rows] .
    ultimately show "?Q (tabs w')" using t by blast
  qed
  show ?thesis
    unfolding ingest_job_def using True
    by (simp, intro yields_bind [OF up]) (auto intro!: yields_return)
qed

lemma yields_ingest_one:
  assumes "0 < n"
  shows "yields (\<lambda>t. \<exists>ps. ingested now done ps t0 t \<and> fst acc = map m_id ps)
     (ingest_one ingest n now it acc)
     (\<lambda>acc' t. \<exists>ps. ingested now (done @ [it]) ps t0 t \<and> fst acc' = map m_id ps)"
proof (rule yieldsI)
  fix w acc' w'
  assume "\<exists>ps. ingested now done ps t0 (tabs w) \<and> fst acc = map m_id ps"
    and run: "ingest_one ingest n now it acc w = (Inr acc', w')"
  then obtain ps where ing: "ingested now done ps t0 (tabs w)" and acc: "fst acc = map m_id ps" by blast
  from run obtain p w1 u w2 j1 w3 j2 w4 where
    prep: "prepare_memory_for_store (ii_memory it) now w = (Inr p, w1)"
    and ins: "insert_memory_tx p w1 = (Inr u, w2)"
    and v: "ingest_job (ii_queue_vector it) ingest p VectorUpsert n now (snd acc) w2 = (Inr j1, w3)"
    and q: "ingest_job (ii_queue_parser it) ingest p ParserExtract n now j1 w3 = (Inr j2, w4)"
    and fin: "return_act (fst acc @ [m_id p], j2) w4 = (Inr acc', w')"
    unfolding ingest_one_def by (elim bind_actE)
  have p: "prepared now (ii_memory it) p" and t1: "tabs w1 = tabs w" using prepare_run [OF prep] by simp_all
  have add: "memory_added p (tabs w) (tabs w2)"
    using yieldsD [OF yields_insert_memory ins, of "tabs w"] ing t1
    by (simp add: ingested_def memories_added_def store_ok_def)
  have ma: "memories_added now (map ii_memory (done @ [it])) (ps @ [p]) t0 (tabs w2)"
    using memories_added_step [OF _ p add] ing by (simp add: ingested_def)
  define K where "K = {k. queued_at now k (db_jobs (tabs w))}"
  let ?F = "item_keys it p" and ?R = "rows_off (item_keys it p) (db_jobs (tabs w))"
  have t2: "\<exists>js. tabs w2 = (tabs w2)\<lparr>db_jobs := js\<rparr> \<and> job_table_ok js \<and> rows_off ?F js = ?R \<and> (\<forall>k \<in> K. queued_at now k js)"
    using memory_added_jobs [OF add] ing by (intro exI [of _ "db_jobs (tabs w)"]) (simp add: K_def ingested_def flip: memory_added_jobs [OF add])
  let ?K1 = "K \<union> (if ii_queue_vector it then {(m_tenant p, m_id p, VectorUpsert)} else {})"
  let ?K2 = "?K1 \<union> (if ii_queue_parser it then {(m_tenant p, m_id p, ParserExtract)} else {})"
  have t3: "\<exists>js. tabs w3 = (tabs w2)\<lparr>db_jobs := js\<rparr> \<and> job_table_ok js \<and> rows_off ?F js = ?R \<and> (\<forall>k \<in> ?K1. queued_at now k js)"
    by (rule yieldsD [OF yields_ingest_job [OF assms] v t2]) (simp add: item_keys_def)
  have "\<exists>js. tabs w4 = (tabs w2)\<lparr>db_jobs := js\<rparr> \<and> job_table_ok js \<and> rows_off ?F js = ?R \<and> (\<forall>k \<in> ?K2. queued_at now k js)"
    by (rule yieldsD [OF yields_ingest_job [OF assms] q t3]) (simp add: item_keys_def)
  then obtain js where t4: "tabs w4 = (tabs w2)\<lparr>db_jobs := js\<rparr>" and ok: "job_table_ok js"
    and K2: "\<forall>k \<in> ?K2. queued_at now k js" and off: "rows_off ?F js = ?R" by blast
  have len: "length done = length ps"
    using ing by (auto simp: ingested_def memories_added_def dest: list_all2_lengthD)
  have "item_queued now x y js" if "(x, y) \<in> set (zip (done @ [it]) (ps @ [p]))" for x y
  proof -
    from that len have "(x, y) \<in> set (zip done ps) \<or> x = it \<and> y = p" by auto
    then show ?thesis
    proof
      assume "(x, y) \<in> set (zip done ps)"
      then have "item_queued now x y (db_jobs (tabs w))" using ing by (auto simp: ingested_def)
      then show ?thesis using K2 by (auto simp: item_queued_def K_def)
    next
      assume "x = it \<and> y = p"
      then show ?thesis using K2 by (auto simp: item_queued_def)
    qed
  qed
  moreover have "rows_off (ingest_keys (done @ [it]) (ps @ [p])) js = rows_off (ingest_keys (done @ [it]) (ps @ [p])) (db_jobs t0)"
  proof -
    have K: "ingest_keys (done @ [it]) (ps @ [p]) = ingest_keys done ps \<union> ?F" using len by (auto simp: ingest_keys_def)
    have "rows_off (ingest_keys done ps) (db_jobs (tabs w)) = rows_off (ingest_keys done ps) (db_jobs t0)"
      using ing by (simp add: ingested_def)
    from rows_off_mono [OF off, of "ingest_keys done ps \<union> ?F"] rows_off_mono [OF this, of "ingest_keys done ps \<union> ?F"]
    show ?thesis by (simp add: K)
  qed
  ultimately have "ingested now (done @ [it]) (ps @ [p]) t0 (tabs w4)"
    using ma ok unfolding ingested_def t4 by auto
  moreover have "acc' = (fst acc @ [m_id p], j2)" "w' = w4" using fin by (simp_all add: return_act_success)
  ultimately show "\<exists>ps. ingested now (done @ [it]) ps t0 (tabs w') \<and> fst acc' = map m_id ps"
    using acc by (intro exI [of _ "ps @ [p]"]) simp
qed

lemma yields_ingest:
  "yields (\<lambda>t. t = t0 \<and> db_ok t0) (store_batch_async_ingest items n)
     (\<lambda>r t. \<exists>ps. ingested (ir_accepted_at r) items ps t0 t \<and> ir_memory_ids r = map m_id ps)"
proof (rule yieldsI)
  fix w r w' assume "tabs w = t0 \<and> db_ok t0" and run: "store_batch_async_ingest items n w = (Inr r, w')"
  then have t: "tabs w = t0" and ok: "db_ok t0" by simp_all
  let ?n = "if n \<le> 0 then 5 else n"
  have n: "0 < ?n" by simp
  from run obtain ingest w1 now w2 ms js w3 where i: "new_id ''ing'' w = (Inr ingest, w1)"
    and nw: "now_act w1 = (Inr now, w2)"
    and tx: "in_tx (fold_act (ingest_one ingest ?n now) items ([], [])) w2 = (Inr (ms, js), w3)"
    and r: "ir_memory_ids r = ms" "ir_accepted_at r = now" and w': "w' = w3"
    by (auto simp: store_batch_async_ingest_def Let_def fail_act_success return_act_success
        elim!: bind_actE split: if_splits)
  have t2: "tabs w2 = t0" using new_idE(2) [OF i] now_actE(2) [OF nw] t by simp
  have start: "\<exists>ps. ingested now [] ps t0 t0 \<and> fst ([], []) = map m_id ps"
    using ok by (intro exI [of _ "[]"]) (simp add: ingested_def memories_added_refl db_ok_def)
  have "yields (\<lambda>t. \<exists>ps. ingested now [] ps t0 t \<and> fst ([], [] :: string list) = map m_id ps)
      (fold_act (ingest_one ingest ?n now) items ([], []))
      (\<lambda>acc t. \<exists>ps. ingested now ([] @ items) ps t0 t \<and> fst acc = map m_id ps)"
    using yields_fold_history [where I = "\<lambda>done acc t. \<exists>ps. ingested now done ps t0 t \<and> fst acc = map m_id ps",
        OF yields_ingest_one [OF n]] .
  from yieldsD [OF yields_in_tx [OF this] tx] t2 start
  show "\<exists>ps. ingested (ir_accepted_at r) items ps t0 (tabs w') \<and> ir_memory_ids r = map m_id ps"
    by (simp add: r w')
qed

section \<open>Atomicity and invariants of every operation\<close>

lemma reads_prepare [act_atomic]: "reads (prepare_memory_for_store m now)"
  unfolding prepare_memory_for_store_def by (intro act_atomic)

lemma repo_atomic [act_atomic]:
  "atomic (repo_store m)" "atomic (repo_store_batch ms)" "atomic (repo_delete t i)"
  "atomic (store_batch_async_ingest items n)" "atomic (mark_index_state t ids op st msg)"
  "atomic (repo_touch t ids)"
  unfolding repo_store_def repo_store_batch_def repo_delete_def store_batch_async_ingest_def
    mark_index_state_def repo_touch_def Let_def
proof -
  show "atomic (if trim_space (m_tenant m) = [] \<or> trim_space (m_content m) = [] then fail_act ErrInvalidInput
      else bind_act now_act (\<lambda>now. bind_act (prepare_memory_for_store m now) (\<lambda>p.
           in_tx (bind_act (insert_memory_tx p) (\<lambda>_. return_act p)))))"
    by (intro atomic_if atomic_bind act_atomic atomic_reads [OF reads_basic(2)])
  show "atomic (if ms = [] then return_act [] else bind_act now_act (\<lambda>now. in_tx (map_act (store_one now) ms)))"
    by (intro atomic_if atomic_bind act_atomic atomic_reads [OF reads_basic(1)])
  show "atomic (in_tx (bind_act (upsert_memory_index_job_tx t i OpDelete IxPending []) (\<lambda>_.
      bind_act (exec (delete_fts_stmt t i)) (\<lambda>_.
      bind_act (exec (delete_memory_stmt t i)) (\<lambda>affected.
      if affected = 0 then fail_act ErrNotFound else return_act ())))))"
    by (rule atomic_in_tx)
  have ing: "atomic (bind_act (in_tx (fold_act (ingest_one ingest k now) items ([], []))) (\<lambda>(ms, js).
        return_act \<lparr>ir_ingest = ingest, ir_memory_ids = ms, ir_job_ids = js, ir_accepted_at = now\<rparr>))" for ingest k now
  proof -
    have f: "(\<lambda>(ms, js). return_act \<lparr>ir_ingest = ingest, ir_memory_ids = ms, ir_job_ids = js, ir_accepted_at = now\<rparr>)
        = (\<lambda>x :: string list \<times> string list. (return_act \<lparr>ir_ingest = ingest, ir_memory_ids = fst x, ir_job_ids = snd x,
            ir_accepted_at = now\<rparr> :: ingest_receipt db_act))" by auto
    show ?thesis unfolding f by (intro atomic_bind_return atomic_in_tx)
  qed
  show "atomic (if items = [] then fail_act ErrInvalidInput
     else bind_act (new_id ''ing'') (\<lambda>ingest. bind_act now_act (\<lambda>now.
        bind_act (in_tx (fold_act (ingest_one ingest (if n \<le> 0 then 5 else n) now) items ([], []))) (\<lambda>(ms, js).
        return_act \<lparr>ir_ingest = ingest, ir_memory_ids = ms, ir_job_ids = js, ir_accepted_at = now\<rparr>))))"
    by (intro atomic_if atomic_bind ing reads_new_id reads_basic atomic_reads [OF reads_basic(2)])
  show "atomic (if trim_space t = [] \<or> trim_space (index_op_text op) = [] \<or> trim_space (index_state_text st) = []
      then fail_act ErrInvalidInput
      else if uniq_trimmed ids = [] then return_act ()
        else bind_act now_act (\<lambda>now. in_tx (fold_act (\<lambda>i _.
          bind_act (exec (update_index_stmt t i op st (trim_space msg) (Stamp now))) (\<lambda>affected.
          if affected = 0 then upsert_memory_index_job_tx t i op st (trim_space msg)
          else return_act ())) (uniq_trimmed ids) ())))"
    by (intro atomic_if atomic_bind atomic_in_tx reads_basic atomic_reads [OF reads_basic(1)] atomic_reads [OF reads_basic(2)])
  show "atomic (if trim_space t = [] then fail_act ErrInvalidInput
      else if uniq_trimmed ids = [] then return_act ()
        else bind_act now_act (\<lambda>now. exec (touch_stmt t (uniq_trimmed ids) now)))"
    by (intro atomic_if atomic_bind atomic_exec reads_basic atomic_reads [OF reads_basic(1)] atomic_reads [OF reads_basic(2)])
qed

lemma index_marked_all_ok:
  "index_marked_all t op st ids rows rows' \<Longrightarrow> store_ok (db\<lparr>db_index_jobs := rows\<rparr>) \<Longrightarrow>
   store_ok (db\<lparr>db_index_jobs := rows'\<rparr>)"
proof (induction ids arbitrary: rows)
  case (Cons i ids)
  then obtain mid where mid: "index_marked (t, i, op) st rows mid" "index_marked_all t op st ids mid rows'" by auto
  have "store_ok (db\<lparr>db_index_jobs := mid\<rparr>)"
    using index_marked_store_ok [OF Cons.prems(2), of "(t, i, op)" st mid] mid(1) by simp
  with mid(2) Cons.IH show ?case by blast
qed simp

lemma yields_mark:
  "yields (\<lambda>db. db = t0 \<and> index_ok (db_index_jobs t0)) (mark_index_state t ids op st msg)
     (\<lambda>_ db. \<exists>rows. db = t0\<lparr>db_index_jobs := rows\<rparr> \<and>
        index_marked_all t op st (uniq_trimmed ids) (db_index_jobs t0) rows)"
proof -
  have empty: "yields (\<lambda>db. db = t0 \<and> index_ok (db_index_jobs t0)) (return_act ())
     (\<lambda>_ db. \<exists>rows. db = t0\<lparr>db_index_jobs := rows\<rparr> \<and>
        index_marked_all t op st (uniq_trimmed ids) (db_index_jobs t0) rows)" if "uniq_trimmed ids = []"
    using that by (intro yields_return exI [of _ "db_index_jobs t0"]) simp
  show ?thesis
    unfolding mark_index_state_def Let_def
    by (intro act_yields empty yields_bind [OF yields_now, where Q = "\<lambda>_ db. db = t0 \<and> index_ok (db_index_jobs t0)"]
        yields_in_tx yields_mark_all) simp_all
qed

lemma db_ok_keeps: "keeps store_ok m \<Longrightarrow> keeps jobs_ok m \<Longrightarrow> keeps db_ok m"
  by (simp add: keeps_def db_ok_def)

lemma yields_db_ok_mark: "yields db_ok (mark_index_state t ids op st msg) (\<lambda>_. db_ok)"
proof (rule yieldsI)
  fix w u w' assume ok: "db_ok (tabs w)" and run: "mark_index_state t ids op st msg w = (Inr u, w')"
  then have "index_ok (db_index_jobs (tabs w))" by (simp add: db_ok_def store_ok_def)
  then obtain rows where t: "tabs w' = (tabs w)\<lparr>db_index_jobs := rows\<rparr>"
    and m: "index_marked_all t op st (uniq_trimmed ids) (db_index_jobs (tabs w)) rows"
    using yieldsD [OF yields_mark run, of "tabs w"] by auto
  with index_marked_all_ok [OF m, of "tabs w"] ok show "db_ok (tabs w')" by (simp add: db_ok_def)
qed

lemma yields_db_ok_delete: "yields db_ok (repo_delete t i) (\<lambda>_. db_ok)"
proof (rule yieldsI)
  fix w u w' assume ok: "db_ok (tabs w)" and run: "repo_delete t i w = (Inr u, w')"
  then have del: "memory_deleted t i (tabs w) (tabs w')"
    using yieldsD [OF yields_delete run, of "tabs w"] by (simp add: db_ok_def store_ok_def)
  then have "db_jobs (tabs w') = db_jobs (tabs w)" by (auto simp: memory_deleted_def)
  with ok memory_deleted_ok [OF _ del] show "db_ok (tabs w')" by (simp add: db_ok_def)
qed

lemma yields_db_ok_ingest: "yields db_ok (store_batch_async_ingest items n) (\<lambda>_. db_ok)"
proof (rule yieldsI)
  fix w r w' assume ok: "db_ok (tabs w)" and run: "store_batch_async_ingest items n w = (Inr r, w')"
  from yieldsD [OF yields_ingest run, of "tabs w"] ok show "db_ok (tabs w')"
    by (auto simp: db_ok_def ingested_def memories_added_def)
qed

lemma keeps_jobs_touch: "keeps jobs_ok (repo_touch t ids)"
  unfolding repo_touch_def Let_def
  by (intro act_keeps keeps_exec) (auto simp: touch_stmt_def)

lemma repo_keeps_db_ok [act_keeps]:
  "keeps db_ok (repo_store m)" "keeps db_ok (repo_store_batch ms)" "keeps db_ok (repo_delete t i)"
  "keeps db_ok (repo_touch t ids)" "keeps db_ok (mark_index_state t ids op st msg)"
  "keeps db_ok (store_batch_async_ingest items n)"
  by (rule keeps_atomic repo_atomic memories_added_keep [OF yields_store] memories_added_keep [OF yields_store_batch]
      yields_db_ok_delete yields_db_ok_mark yields_db_ok_ingest db_ok_keeps keeps_touch keeps_jobs_touch)+

text \<open>The queue operations of \<open>JobQueue\<close> do not touch the store.\<close>

lemma keeps_store_upsert_job: "keeps store_ok (exec (upsert_job_stmt r))"
  by (rule keeps_exec) (auto simp: upsert_job_stmt_def split: sum.splits)

lemma keeps_store_update_job: "keeps store_ok (exec (update_job_stmt i f))"
  by (rule keeps_exec) (auto simp: update_job_stmt_def)

lemma keeps_store_upsert_tx: "keeps store_ok (upsert_postprocess_job_tx job now)"
  unfolding upsert_postprocess_job_tx_def Let_def by (intro act_keeps keeps_store_upsert_job)

lemma queue_keeps_db_ok [act_keeps]:
  "keeps db_ok (enqueue_postprocess_jobs es n)" "keeps db_ok (claim_postprocess_jobs opts)"
  "keeps db_ok (mark_postprocess_job_succeeded i now)"
  "keeps db_ok (mark_postprocess_job_failed i now na a s msg)"
proof -
  have "keeps store_ok (enqueue_postprocess_jobs es n)"
    unfolding enqueue_postprocess_jobs_def enqueue_one_def Let_def
    by (intro act_keeps keeps_store_upsert_tx)
  then show "keeps db_ok (enqueue_postprocess_jobs es n)" by (rule db_ok_keeps [OF _ keeps_enqueue])
  have "keeps store_ok (claim_postprocess_jobs opts)"
    unfolding claim_postprocess_jobs_def claim_loop_def Let_def
    by (intro act_keeps keeps_store_update_job keeps_list_by_ids)
  then show "keeps db_ok (claim_postprocess_jobs opts)" by (rule db_ok_keeps [OF _ keeps_claim])
  have "keeps store_ok (mark_postprocess_job_succeeded i now)"
    unfolding mark_postprocess_job_succeeded_def Let_def by (intro act_keeps keeps_store_update_job)
  then show "keeps db_ok (mark_postprocess_job_succeeded i now)" by (rule db_ok_keeps [OF _ keeps_mark_succeeded])
  have "keeps store_ok (mark_postprocess_job_failed i now na a s msg)"
    unfolding mark_postprocess_job_failed_def Let_def by (intro act_keeps keeps_store_update_job)
  then show "keeps db_ok (mark_postprocess_job_failed i now na a s msg)" by (rule db_ok_keeps [OF _ keeps_mark_failed])
qed


section \<open>The join of the full-text rows with their memories\<close>

lemma fts_join_match:
  assumes ok: "store_ok db" and p: "(f, m) \<in> set (fts_join fe t q db)"
  shows "f = fts_of m \<and> m \<in> set (db_memories db) \<and> m_tenant m = t \<and> fe_match fe q (build_indexed_memory_text m)"
proof -
  from p have m: "m \<in> set (db_memories db)" "m_id m = ft_memory f" "m_tenant m = ft_tenant f"
    and f: "f \<in> set (db_fts db)" "ft_tenant f = t" "fe_match fe q (ft_content f)"
    by (auto simp: fts_join_def)
  from f(1) ok obtain n where n: "n \<in> set (db_memories db)" "f = fts_of n" by (auto simp: store_ok_def)
  have "m = n"
    using distinct_id_same [of "db_memories db" m n] ok m n by (simp add: store_ok_def fts_of_def)
  with m f n show ?thesis by (simp add: fts_of_def)
qed

lemma join_one:
  assumes "distinct (map m_id ms)" "m \<in> set ms"
  shows "filter (\<lambda>n. m_id n = m_id m \<and> m_tenant n = m_tenant m) ms = [m]"
  using assms
proof (induction ms)
  case (Cons x xs)
  show ?case
  proof (cases "x = m")
    case True
    with Cons.prems have "\<forall>n \<in> set xs. m_id n \<noteq> m_id m" by (metis distinct.simps(2) image_eqI list.set_map list.simps(9))
    then have "filter (\<lambda>n. m_id n = m_id m \<and> m_tenant n = m_tenant m) xs = []"
      by (simp add: filter_empty_conv)
    with True show ?thesis by simp
  next
    case False
    with Cons.prems have "m \<in> set xs" "m_id x \<noteq> m_id m" by auto
    with Cons show ?thesis by simp
  qed
qed simp

lemma fts_of_simps [simp]:
  "ft_tenant (fts_of m) = m_tenant m" "ft_memory (fts_of m) = m_id m"
  "ft_content (fts_of m) = build_indexed_memory_text m"
  by (simp_all add: fts_of_def)

lemma fts_join_eq:
  assumes "store_ok db"
  shows "map snd (fts_join fe t q db) =
    filter (\<lambda>m. m_tenant m = t \<and> fe_match fe q (build_indexed_memory_text m)) (db_memories db)"
proof -
  let ?ms = "db_memories db"
  let ?hit = "\<lambda>m. m_tenant m = t \<and> fe_match fe q (build_indexed_memory_text m)"
  let ?join = "\<lambda>f. map (\<lambda>m. (f, m)) (filter (\<lambda>m. m_id m = ft_memory f \<and> m_tenant m = ft_tenant f) ?ms)"
  have d: "distinct (map m_id ?ms)" and fts: "db_fts db = map fts_of ?ms"
    using assms by (simp_all add: store_ok_def)
  have one: "?join (fts_of n) = [(fts_of n, n)]" if "n \<in> set ?ms" for n
    using join_one [OF d that] by simp
  have sel: "filter (\<lambda>f. ft_tenant f = t \<and> fe_match fe q (ft_content f)) (map fts_of ns) =
      map fts_of (filter ?hit ns)" for ns
    by (simp add: filter_map comp_def)
  have "map snd (concat (map ?join (map fts_of ns))) = ns" if "set ns \<subseteq> set ?ms" for ns
    using that one by (induction ns) simp_all
  from this [of "filter ?hit ?ms"] show ?thesis
    unfolding fts_join_def fts sel by fastforce
qed

lemma fts_join_distinct:
  assumes "store_ok db"
  shows "distinct (map snd (fts_join fe t q db))"
proof -
  have "distinct (map m_id (db_memories db))" using assms by (simp add: store_ok_def)
  then have "distinct (db_memories db)" by (simp add: distinct_map)
  then show ?thesis unfolding fts_join_eq [OF assms] by simp
qed

section \<open>Properties\<close>

text \<open>C2 The invariant of the store and of the queue (unique identifiers, existing tenants, a full-text
  table that is row by row the index of the memories, no dangling embedding or fact, an index job for
  every memory, a well-formed job table) is kept by every operation that writes, in every outcome:
  success, rejection, constraint violation or a driver error at any of its statements.\<close>

theorem store_invariant:
  assumes "db_ok (tabs w)"
  shows "db_ok (tabs (snd (repo_store m w))) \<and> db_ok (tabs (snd (repo_store_batch ms w))) \<and>
    db_ok (tabs (snd (repo_delete t i w))) \<and> db_ok (tabs (snd (repo_touch t ids w))) \<and>
    db_ok (tabs (snd (mark_index_state t ids op st msg w))) \<and>
    db_ok (tabs (snd (store_batch_async_ingest items n w))) \<and>
    db_ok (tabs (snd (enqueue_postprocess_jobs reqs n w))) \<and>
    db_ok (tabs (snd (claim_postprocess_jobs opts w))) \<and>
    db_ok (tabs (snd (mark_postprocess_job_succeeded j now w))) \<and>
    db_ok (tabs (snd (mark_postprocess_job_failed j now next_at attempts status msg w)))"
  by (intro conjI keepsD [where P = db_ok, OF _ assms] repo_keeps_db_ok queue_keeps_db_ok)

text \<open>Storing a batch is all or nothing: on success every memory is appended, in order, with its
  defaults filled in and its full-text row, and nothing else changes; on any error nothing changes at
  all.\<close>

theorem store_batch_functional:
  assumes "store_ok (tabs w)" and "repo_store_batch ms w = (r, w')"
  shows "case r of
      Inl e \<Rightarrow> tabs w' = tabs w
    | Inr ps \<Rightarrow> \<exists>now. list_all2 (prepared now) ms ps \<and>
        db_memories (tabs w') = db_memories (tabs w) @ ps \<and>
        db_fts (tabs w') = db_fts (tabs w) @ map fts_of ps \<and>
        db_tenants (tabs w') = db_tenants (tabs w) \<and> db_embeddings (tabs w') = db_embeddings (tabs w) \<and>
        db_facts (tabs w') = db_facts (tabs w) \<and> db_jobs (tabs w') = db_jobs (tabs w)"
proof (cases r)
  case (Inl e)
  with assms(2) atomicD [OF repo_atomic(2)] show ?thesis by simp
next
  case (Inr ps)
  with assms(2) have run: "repo_store_batch ms w = (Inr ps, w')" by simp
  from yieldsD [OF yields_store_batch run, of "tabs w"] assms(1)
  show ?thesis by (auto simp: Inr memories_added_def)
qed

text \<open>Deleting removes exactly the one memory with what hangs on it: on success the memory was there,
  it is gone together with its full-text row, embeddings and facts, every other memory (of this
  tenant or another) is still there and a delete job is pending for the index; on any error,
  \<open>ErrNotFound\<close> included, nothing changes.\<close>

theorem delete_functional:
  assumes "store_ok (tabs w)" and "repo_delete t i w = (r, w')"
  shows "case r of
      Inl e \<Rightarrow> tabs w' = tabs w
    | Inr u \<Rightarrow> (\<exists>m \<in> set (db_memories (tabs w)). m_tenant m = t \<and> m_id m = i) \<and>
        set (db_memories (tabs w')) = {m \<in> set (db_memories (tabs w)). m_id m \<noteq> i} \<and>
        (\<forall>f \<in> set (db_fts (tabs w')). ft_memory f \<noteq> i) \<and>
        (\<forall>e \<in> set (db_embeddings (tabs w')). er_memory e \<noteq> i) \<and>
        (\<forall>f \<in> set (db_facts (tabs w')). fr_memory f \<noteq> Some i) \<and>
        (\<exists>x \<in> set (db_index_jobs (tabs w')). index_key x = (t, i, OpDelete) \<and> xr_state x = IxPending)"
proof (cases r)
  case (Inl e)
  with assms(2) atomicD [OF repo_atomic(3)] show ?thesis by simp
next
  case (Inr u)
  with assms(2) have run: "repo_delete t i w = (Inr u, w')" by simp
  have del: "memory_deleted t i (tabs w) (tabs w')"
    using yieldsD [OF yields_delete run, of "tabs w"] assms(1) by (simp add: store_ok_def)
  then obtain m0 where m0: "m0 \<in> set (db_memories (tabs w))" "m_tenant m0 = t" "m_id m0 = i"
    by (auto simp: memory_deleted_def)
  have d: "distinct (map m_id (db_memories (tabs w)))" using assms(1) by (simp add: store_ok_def)
  have ms: "set (db_memories (tabs w')) = {m \<in> set (db_memories (tabs w)). m_id m \<noteq> i}"
  proof -
    have "m_tenant m = t" if "m \<in> set (db_memories (tabs w))" "m_id m = i" for m
      using distinct_id_same [OF d m0(1) that(1)] m0 that(2) by simp
    moreover have "db_memories (tabs w') =
        filter (\<lambda>m. \<not> (m_tenant m = t \<and> m_id m = i)) (db_memories (tabs w))"
      using del by (auto simp: memory_deleted_def)
    ultimately show ?thesis by auto
  qed
  have fts: "db_fts (tabs w') = map fts_of (db_memories (tabs w'))"
    using memory_deleted_ok [OF assms(1) del] by (simp add: store_ok_def)
  have "\<forall>f \<in> set (db_fts (tabs w')). ft_memory f \<noteq> i" unfolding fts using ms by (auto simp: fts_of_def)
  moreover have "(\<forall>e \<in> set (db_embeddings (tabs w')). er_memory e \<noteq> i)"
    "(\<forall>f \<in> set (db_facts (tabs w')). fr_memory f \<noteq> Some i)"
    using del by (auto simp: memory_deleted_def)
  moreover have mk: "index_marked (t, i, OpDelete) IxPending (db_index_jobs (tabs w)) (db_index_jobs (tabs w'))"
    using del by (auto simp: memory_deleted_def)
  have "\<exists>x \<in> set (db_index_jobs (tabs w')). index_key x = (t, i, OpDelete) \<and> xr_state x = IxPending"
    by (rule index_marked_row [OF mk])
  ultimately show ?thesis using m0 ms by (auto simp: Inr)
qed

text \<open>Reading by ids returns, once each and in the order in which they are first asked for, exactly the
  memories of the tenant that exist among the trimmed ids, and nothing of any other tenant.\<close>

theorem get_by_ids_functional:
  assumes "store_ok (tabs w)" and "repo_get_by_ids t ids w = (Inr ms, w')"
  shows "map m_id ms = filter (\<lambda>i. \<exists>m \<in> set (db_memories (tabs w)). m_tenant m = t \<and> m_id m = i)
      (uniq_trimmed ids) \<and>
    set ms = {m \<in> set (db_memories (tabs w)). m_tenant m = t \<and> m_id m \<in> set (uniq_trimmed ids)} \<and>
    tabs w' = tabs w"
proof -
  let ?u = "uniq_trimmed ids"
  let ?rows = "filter (\<lambda>m. m_tenant m = t \<and> m_id m \<in> set ?u) (db_memories (tabs w))"
  have t: "trim_space t \<noteq> []" using assms(2) by (auto simp: repo_get_by_ids_def fail_act_def)
  have d: "distinct (map m_id ?rows)"
    using assms(1) by (simp add: store_ok_def distinct_map_filter)
  have "ms = sort_key (\<lambda>m. cmp_index ?u (m_id m)) ?rows \<and> tabs w' = tabs w"
  proof (cases "?u = []")
    case True
    then show ?thesis using assms(2) t by (simp add: repo_get_by_ids_def return_act_def)
  next
    case False
    with assms(2) t obtain rows w1 where
      q: "query (\<lambda>db. filter (\<lambda>m. m_tenant m = t \<and> m_id m \<in> set ?u) (db_memories db)) w = (Inr rows, w1)"
      and r: "return_act (sort_key (\<lambda>m. cmp_index ?u (m_id m)) rows) w1 = (Inr ms, w')"
      by (auto simp: repo_get_by_ids_def Let_def elim!: bind_actE)
    show ?thesis using queryE [OF q] return_actE [OF r] by simp
  qed
  then have ms: "ms = sort_key (\<lambda>m. cmp_index ?u (m_id m)) ?rows" and tw: "tabs w' = tabs w" by simp_all
  have "map m_id ms = filter (\<lambda>i. \<exists>m \<in> set (db_memories (tabs w)). m_tenant m = t \<and> m_id m = i) ?u"
    unfolding ms by (rule order_by_ids_filter [OF _ d]) auto
  moreover have "set ms = {m \<in> set (db_memories (tabs w)). m_tenant m = t \<and> m_id m \<in> set ?u}"
    unfolding ms by auto
  ultimately show ?thesis using tw by blast
qed

text \<open>C4 Lexical search is confined to the tenant and to the filters and never returns more than asked
  for: every memory returned belongs to the tenant and passes the filters, no memory comes twice, there
  are at most \<open>topK\<close> (20 when that is not positive), and when the query has tokens, the text indexed
  for each of them matches it.\<close>

theorem search_isolated:
  assumes "store_ok (tabs w)" and "repo_search_with_filters fe t q top_k flt w = (Inr ms, w')"
  shows "distinct ms \<and> int (length ms) \<le> (if top_k \<le> 0 then 20 else top_k) \<and>
    (\<forall>m \<in> set ms. m \<in> set (db_memories (tabs w)) \<and> m_tenant m = t \<and> memory_filter flt m \<and>
       (to_fts_query q \<noteq> [] \<longrightarrow> fe_match fe (to_fts_query q) (build_indexed_memory_text m))) \<and>
    tabs w' = tabs w"
proof -
  let ?k = "if top_k \<le> 0 then 20 else top_k"
  let ?rows = "if to_fts_query q = [] then recent_rows t flt (tabs w)
               else fts_search_rows fe t (to_fts_query q) flt (tabs w)"
  have "trim_space t \<noteq> []" using assms(2) by (auto simp: repo_search_with_filters_def fail_act_def)
  with assms(2) have ms: "ms = limit_rows ?k ?rows" and tw: "tabs w' = tabs w"
    unfolding repo_search_with_filters_def Let_def by (simp_all add: query_success)
  have len: "int (length ms) \<le> ?k" unfolding ms using length_limit_rows [of ?k ?rows] by simp
  have d0: "distinct (map m_id (db_memories (tabs w)))" using assms(1) by (simp add: store_ok_def)
  then have dm: "distinct (db_memories (tabs w))" by (simp add: distinct_map)
  have dist: "distinct ?rows"
  proof (cases "to_fts_query q = []")
    case True
    have "distinct (recent_rows t flt (tabs w))"
      using dm by (simp add: recent_rows_def order_desc_def)
    with True show ?thesis by simp
  next
    case False
    have "mset (fts_search_rows fe t (to_fts_query q) flt (tabs w)) =
        mset (map snd (filter (\<lambda>p. memory_filter flt (snd p)) (fts_join fe t (to_fts_query q) (tabs w))))"
      by (simp add: fts_search_rows_def)
    moreover have "distinct (map snd (filter (\<lambda>p. memory_filter flt (snd p)) (fts_join fe t (to_fts_query q) (tabs w))))"
      using fts_join_distinct [OF assms(1)] by (rule distinct_map_filter)
    ultimately have "distinct (fts_search_rows fe t (to_fts_query q) flt (tabs w))"
      using mset_eq_imp_distinct_iff by blast
    with False show ?thesis by simp
  qed
  have "m \<in> set (db_memories (tabs w)) \<and> m_tenant m = t \<and> memory_filter flt m \<and>
       (to_fts_query q \<noteq> [] \<longrightarrow> fe_match fe (to_fts_query q) (build_indexed_memory_text m))" if "m \<in> set ms" for m
  proof -
    have m: "m \<in> set ?rows" by (rule subsetD [OF set_limit_rows that [unfolded ms]])
    show ?thesis
    proof (cases "to_fts_query q = []")
      case True
      with m show ?thesis by (auto simp: recent_rows_def)
    next
      case False
      with m obtain f where "(f, m) \<in> set (fts_join fe t (to_fts_query q) (tabs w))" "memory_filter flt m"
        by (auto simp: fts_search_rows_def)
      with fts_join_match [OF assms(1) this(1)] show ?thesis by blast
    qed
  qed
  moreover have "distinct ms" unfolding ms limit_rows_def using dist by (rule distinct_take)
  ultimately show ?thesis using len tw by blast
qed

text \<open>Asynchronous ingest is one transaction over memories and jobs: on success every item is stored
  with its defaults, and for each of them the jobs it asked for are queued, due at once, with no
  attempt counted; on any error neither a memory nor a job is left behind.\<close>

theorem ingest_functional:
  assumes "db_ok (tabs w)" and "store_batch_async_ingest items n w = (r, w')"
  shows "case r of
      Inl e \<Rightarrow> tabs w' = tabs w
    | Inr receipt \<Rightarrow> \<exists>ps. list_all2 (prepared (ir_accepted_at receipt)) (map ii_memory items) ps \<and>
        db_memories (tabs w') = db_memories (tabs w) @ ps \<and> ir_memory_ids receipt = map m_id ps \<and>
        (\<forall>(it, p) \<in> set (zip items ps). item_queued (ir_accepted_at receipt) it p (db_jobs (tabs w')))"
proof (cases r)
  case (Inl e)
  with assms(2) atomicD [OF repo_atomic(4)] show ?thesis by simp
next
  case (Inr receipt)
  with assms(2) have run: "store_batch_async_ingest items n w = (Inr receipt, w')" by simp
  from yieldsD [OF yields_ingest run, of "tabs w"] assms(1)
  show ?thesis by (auto simp: Inr ingested_def memories_added_def)
qed

text \<open>Marking an index state touches only the index jobs: on success each distinct trimmed memory id has
  exactly one row for the tenant and operation, in the new state, and rows of other keys are as they
  were; on any error nothing changes.\<close>

theorem mark_index_state_functional:
  assumes "index_ok (db_index_jobs (tabs w))" and "mark_index_state t ids op st msg w = (r, w')"
  shows "case r of
      Inl e \<Rightarrow> tabs w' = tabs w
    | Inr u \<Rightarrow> tabs w' = (tabs w)\<lparr>db_index_jobs := db_index_jobs (tabs w')\<rparr> \<and>
        index_marked_all t op st (uniq_trimmed ids) (db_index_jobs (tabs w)) (db_index_jobs (tabs w'))"
proof (cases r)
  case (Inl e)
  with assms(2) atomicD [OF repo_atomic(5)] show ?thesis by simp
next
  case (Inr u)
  with assms(2) have run: "mark_index_state t ids op st msg w = (Inr u, w')" by simp
  from yieldsD [OF yields_mark run, of "tabs w"] assms(1)
  obtain rows where t: "tabs w' = (tabs w)\<lparr>db_index_jobs := rows\<rparr>"
    and m: "index_marked_all t op st (uniq_trimmed ids) (db_index_jobs (tabs w)) rows" by auto
  have "db_index_jobs (tabs w') = rows" unfolding t by simp
  with t m show ?thesis by (simp add: Inr)
qed

section \<open>Instances on concrete data\<close>

definition sample_memory :: memory where
  "sample_memory = zero_memory\<lparr>m_id := ''m1'', m_tenant := ''t1'', m_content := ''likes tea'',
     m_tier := TierSemantic, m_created_by := ByUser, m_kind := KindRawTurn, m_source_fact_index := - 1\<rparr>"

definition sample_index_row :: index_row where
  "sample_index_row = \<lparr>xr_id = ''idx_1'', xr_tenant = ''t1'', xr_memory = ''m1'', xr_op = OpUpsert,
     xr_state = IxPending, xr_last_error = [], xr_attempts = 0, xr_created_at = Stamp 0, xr_updated_at = Stamp 0\<rparr>"

definition sample_store :: database where
  "sample_store = empty_database\<lparr>
     db_tenants := [\<lparr>t_id = ''t1'', t_name = ''one'', t_created_at = 0\<rparr>],
     db_memories := [sample_memory], db_fts := [fts_of sample_memory],
     db_index_jobs := [sample_index_row]\<rparr>"

lemmas trim_eval = trim_space_def trim_left_def trim_right_def is_space_def

lemma sample_store_ok: "db_ok (tabs (calm_world sample_store))" "store_ok (tabs (calm_world sample_store))"
  "index_ok (db_index_jobs (tabs (calm_world sample_store)))"
  by (simp_all add: db_ok_def store_ok_def sample_store_def calm_world_def empty_database_def
      sample_memory_def memory_row_ok_def index_ok_def facts_ok_def job_table_ok_def index_key_def
      sample_index_row_def zero_memory_def trim_eval)

lemma store_invariant_witness:
  "db_ok (tabs (snd (repo_delete ''t1'' ''m1'' (calm_world sample_store))))"
  using store_invariant [OF sample_store_ok(1)] by blast

lemma store_batch_functional_witness:
  "case fst (repo_store_batch [sample_memory] (calm_world sample_store)) of
      Inl e \<Rightarrow> tabs (snd (repo_store_batch [sample_memory] (calm_world sample_store))) = sample_store
    | Inr ps \<Rightarrow> db_memories (tabs (snd (repo_store_batch [sample_memory] (calm_world sample_store)))) =
        db_memories sample_store @ ps"
  using store_batch_functional [OF sample_store_ok(2) prod.collapse [symmetric], of "[sample_memory]"]
  by (auto simp: calm_world_def split: sum.splits)

lemma delete_functional_witness:
  "case fst (repo_delete ''t1'' ''m1'' (calm_world sample_store)) of
      Inl e \<Rightarrow> tabs (snd (repo_delete ''t1'' ''m1'' (calm_world sample_store))) = sample_store
    | Inr u \<Rightarrow> \<forall>f \<in> set (db_fts (tabs (snd (repo_delete ''t1'' ''m1'' (calm_world sample_store))))).
        ft_memory f \<noteq> ''m1''"
  using delete_functional [OF sample_store_ok(2) prod.collapse [symmetric], of "''t1''" "''m1''"]
  by (auto simp: calm_world_def split: sum.splits)

lemma sample_get_run:
  "repo_get_by_ids ''t1'' ['' m1 ''] (calm_world sample_store) =
     (Inr [sample_memory], tick (calm_world sample_store))"
  by (simp add: repo_get_by_ids_def uniq_trimmed_def trim_eval query_def exec_def bind_act_def return_act_def
      calm_world_def sample_store_def sample_memory_def empty_database_def)

lemma get_by_ids_functional_witness:
  "map m_id [sample_memory] =
     filter (\<lambda>i. \<exists>m \<in> set (db_memories (tabs (calm_world sample_store))). m_tenant m = ''t1'' \<and> m_id m = i)
       (uniq_trimmed ['' m1 ''])"
  using get_by_ids_functional [OF sample_store_ok(2) sample_get_run] by blast

lemma sample_search_run:
  "repo_search_with_filters fe ''t1'' [] 3 \<lparr>sf_tiers = [TierSemantic], sf_kinds = []\<rparr> (calm_world sample_store) =
     (Inr [sample_memory], tick (calm_world sample_store))"
  by (simp add: repo_search_with_filters_def to_fts_query_def runs_def to_lower_def trim_eval query_def
      exec_def calm_world_def sample_store_def sample_memory_def empty_database_def recent_rows_def
      memory_filter_def normalize_kinds_for_filter_def normalize_tiers_for_filter_def limit_rows_def
      order_desc_def)

lemma search_isolated_witness: "distinct [sample_memory] \<and> int (length [sample_memory]) \<le> 3"
  using search_isolated [OF sample_store_ok(2) sample_search_run] by simp

lemma ingest_functional_witness:
  "case fst (store_batch_async_ingest [\<lparr>ii_memory = sample_memory, ii_queue_parser = True, ii_queue_vector = True\<rparr>] 0
       (calm_world sample_store)) of
      Inl e \<Rightarrow> tabs (snd (store_batch_async_ingest
        [\<lparr>ii_memory = sample_memory, ii_queue_parser = True, ii_queue_vector = True\<rparr>] 0 (calm_world sample_store))) = sample_store
    | Inr receipt \<Rightarrow> True"
  using ingest_functional [OF sample_store_ok(1) prod.collapse [symmetric],
      of "[\<lparr>ii_memory = sample_memory, ii_queue_parser = True, ii_queue_vector = True\<rparr>]" 0]
  by (auto simp: calm_world_def split: sum.splits)

lemma mark_index_state_functional_witness:
  "case fst (mark_index_state ''t1'' [''m1''] OpUpsert IxIndexed [] (calm_world sample_store)) of
      Inl e \<Rightarrow> tabs (snd (mark_index_state ''t1'' [''m1''] OpUpsert IxIndexed [] (calm_world sample_store))) = sample_store
    | Inr u \<Rightarrow> index_marked_all ''t1'' OpUpsert IxIndexed (uniq_trimmed [''m1'']) [sample_index_row]
        (db_index_jobs (tabs (snd (mark_index_state ''t1'' [''m1''] OpUpsert IxIndexed [] (calm_world sample_store)))))"
  using mark_index_state_functional [OF sample_store_ok(3) prod.collapse [symmetric],
      of "''t1''" "[''m1'']" OpUpsert IxIndexed "[]"]
  by (auto simp: calm_world_def sample_store_def empty_database_def split: sum.splits)

end
