(* ===== verification/TenantService.thy ===== *)
theory TenantService
  imports MemoryRepo
begin

text \<open>
  Tenants: the repository of \<open>repository/sqlite/tenant.go\<close> and the service of \<open>core/tenant\<close>. A tenant
  row keeps its creation time, which \<open>ORDER BY created_at\<close> compares as the stored text (\<open>stamp\<close>);
  the times the program writes are in UTC.
\<close>

section \<open>The repository\<close>

definition insert_tenant_stmt :: "tenant \<Rightarrow> database \<Rightarrow> err + (unit \<times> database)" where
  "insert_tenant_stmt t db =
     (if t_id t \<in> t_id ` set (db_tenants db) then Inl ErrConstraint
      else Inr ((), db\<lparr>db_tenants := db_tenants db @ [t]\<rparr>))"

definition tenant_repo_create :: "tenant \<Rightarrow> tenant db_act" where
  "tenant_repo_create t =
     (if trim_space (t_id t) = [] \<or> trim_space (t_name t) = [] then fail_act ErrInvalidInput
      else bind_act (if is_zero (t_created_at t)
             then bind_act now_act (\<lambda>now. return_act (t\<lparr>t_created_at := now\<rparr>)) else return_act t) (\<lambda>t.
           bind_act (exec (insert_tenant_stmt t)) (\<lambda>_. return_act t)))"

definition tenant_repo_exists :: "string \<Rightarrow> bool db_act" where
  "tenant_repo_exists i =
     (if trim_space i = [] then fail_act ErrInvalidInput
      else query (\<lambda>db. \<exists>t \<in> set (db_tenants db). t_id t = i))"

definition memory_count :: "string \<Rightarrow> database \<Rightarrow> int" where
  "memory_count i db = count_where (\<lambda>m. m_tenant m = i) (db_memories db)"

definition tenant_repo_memory_count :: "string \<Rightarrow> int db_act" where
  "tenant_repo_memory_count i =
     (if trim_space i = [] then fail_act ErrInvalidInput else query (memory_count i))"

definition tenant_repo_count :: "int db_act" where
  "tenant_repo_count = query (\<lambda>db. int (length (db_tenants db)))"

definition tenant_repo_list :: "int \<Rightarrow> tenant list db_act" where
  "tenant_repo_list limit =
     query (\<lambda>db. limit_rows (if limit \<le> 0 then 100 else limit)
       (order_desc (\<lambda>t. Stamp (t_created_at t)) (db_tenants db)))"

text \<open>\<open>GROUP BY tenant_id\<close>: one row for every listed tenant that has a memory.\<close>

definition grouped_counts :: "string list \<Rightarrow> database \<Rightarrow> (string \<times> int) list" where
  "grouped_counts ids db = map (\<lambda>i. (i, memory_count i db))
     (uniq (filter (\<lambda>i. i \<in> set ids) (map m_tenant (db_memories db))))"

definition tenant_repo_list_memory_counts :: "string list \<Rightarrow> (string \<Rightarrow> int option) db_act" where
  "tenant_repo_list_memory_counts ids =
     (let args = filter (\<lambda>i. i \<noteq> []) (map trim_space ids);
          zeros = fold (\<lambda>i out. out(i \<mapsto> 0)) args Map.empty in
      if args = [] then return_act zeros
      else bind_act (query (grouped_counts args)) (\<lambda>rows.
             return_act (fold (\<lambda>(i, n) out. out(i \<mapsto> n)) rows zeros)))"

section \<open>The service\<close>

definition tenant_create :: "tenant \<Rightarrow> tenant db_act" where
  "tenant_create t =
     (if trim_space (t_id t) = [] \<or> trim_space (t_name t) = [] then fail_act ErrInvalidInput
      else tenant_repo_create t)"

definition tenant_exists :: "string \<Rightarrow> bool db_act" where
  "tenant_exists i = (if trim_space i = [] then fail_act ErrInvalidInput else tenant_repo_exists i)"

definition tenant_list :: "int \<Rightarrow> tenant list db_act" where
  "tenant_list limit = tenant_repo_list limit"

definition tenant_stats :: "string \<Rightarrow> int db_act" where
  "tenant_stats i =
     bind_act (tenant_repo_exists i) (\<lambda>e.
     if \<not> e then fail_act ErrNotFound else tenant_repo_memory_count i)"

definition tenant_list_with_stats :: "int \<Rightarrow> (tenant \<times> int) list db_act" where
  "tenant_list_with_stats limit =
     bind_act (tenant_repo_list limit) (\<lambda>ts.
     if ts = [] then return_act []
     else bind_act (tenant_repo_list_memory_counts (map t_id ts)) (\<lambda>counts.
            return_act (map (\<lambda>t. (t, case counts (t_id t) of None \<Rightarrow> 0 | Some n \<Rightarrow> n)) ts)))"

definition is_tenant_isolated :: "string \<Rightarrow> string \<Rightarrow> bool" where
  "is_tenant_isolated request resource \<longleftrightarrow> request \<noteq> [] \<and> request = resource"

section \<open>Lemmas\<close>

lemma reads_tenant [act_atomic]:
  "reads (tenant_repo_exists i)" "reads (tenant_repo_memory_count i)" "reads (tenant_repo_list n)"
  "reads (tenant_repo_list_memory_counts ids)" "reads tenant_repo_count"
  unfolding tenant_repo_exists_def tenant_repo_memory_count_def tenant_repo_list_def tenant_repo_count_def
    tenant_repo_list_memory_counts_def Let_def
  by (intro act_atomic)+

lemma tenant_exists_run:
  "tenant_repo_exists i w = (Inr e, w') \<Longrightarrow>
     e = (i \<in> t_id ` set (db_tenants (tabs w))) \<and> trim_space i \<noteq> [] \<and> tabs w' = tabs w"
  unfolding tenant_repo_exists_def by (cases "trim_space i = []") (auto simp: act_success)

lemma fold_upd_zero:
  "fold (\<lambda>i out. out(i \<mapsto> (0 :: int))) args m i = (if i \<in> set args then Some 0 else m i)"
  by (induction args arbitrary: m) auto

lemma fold_upd_rows:
  "distinct (map fst rows) \<Longrightarrow>
   fold (\<lambda>(i, n) out. out(i \<mapsto> n)) rows m i = (case map_of rows i of None \<Rightarrow> m i | Some n \<Rightarrow> Some n)"
proof (induction rows arbitrary: m)
  case (Cons r rows)
  then have "fst r \<notin> set (map fst rows)" by simp
  with Cons show ?case by (cases r) (auto split: option.splits simp: map_of_eq_None_iff image_iff)
qed simp

lemma grouped_counts_lookup:
  "map_of (grouped_counts ids db) i =
     (if i \<in> set ids \<and> i \<in> m_tenant ` set (db_memories db) then Some (memory_count i db) else None)"
  by (auto simp: grouped_counts_def map_of_map_restrict restrict_map_def)

lemma no_memories: "i \<notin> m_tenant ` set (db_memories db) \<Longrightarrow> memory_count i db = 0"
  by (auto simp: memory_count_def count_where_def filter_empty_conv)

lemma memory_counts_run:
  assumes "tenant_repo_list_memory_counts ids w = (Inr counts, w')"
  shows "tabs w' = tabs w \<and> counts i =
    (if i \<noteq> [] \<and> i \<in> trim_space ` set ids then Some (memory_count i (tabs w)) else None)"
proof -
  let ?args = "filter (\<lambda>i. i \<noteq> []) (map trim_space ids)"
  let ?zeros = "fold (\<lambda>i out. out(i \<mapsto> (0 :: int))) ?args Map.empty"
  have args: "i \<in> set ?args \<longleftrightarrow> i \<noteq> [] \<and> i \<in> trim_space ` set ids" by auto
  have zeros: "?zeros i = (if i \<in> set ?args then Some 0 else None)" by (simp only: fold_upd_zero)
  show ?thesis
  proof (cases "?args = []")
    case True
    with assms have "w' = w" "counts = ?zeros"
      unfolding tenant_repo_list_memory_counts_def Let_def by (simp_all add: act_success)
    moreover have "i \<notin> set ?args" unfolding True by simp
    ultimately show ?thesis using zeros args by auto
  next
    case False
    with assms have w': "tabs w' = tabs w"
      and counts: "counts = fold (\<lambda>(i, n) out. out(i \<mapsto> n)) (grouped_counts ?args (tabs w)) ?zeros"
      unfolding tenant_repo_list_memory_counts_def Let_def by (simp_all add: act_success split: if_splits)
    have "distinct (map fst (grouped_counts ?args (tabs w)))"
      by (simp add: grouped_counts_def comp_def)
    then have "counts i = (case map_of (grouped_counts ?args (tabs w)) i of None \<Rightarrow> ?zeros i | Some n \<Rightarrow> Some n)"
      unfolding counts by (rule fold_upd_rows)
    with w' show ?thesis
      unfolding grouped_counts_lookup zeros args by (auto simp: no_memories)
  qed
qed

lemma keeps_tenant_create: "keeps db_ok (tenant_repo_create t)"
  unfolding tenant_repo_create_def
  by (intro act_keeps keeps_exec) (auto simp: insert_tenant_stmt_def db_ok_def store_ok_def split: if_splits)

section \<open>Properties\<close>

text \<open>The statistics of a tenant count exactly its memories: with a working database a blank identifier
  is refused, an unknown tenant is \<open>ErrNotFound\<close>, and a known one gets the number of rows of the memories
  table that carry its identifier. Nothing is changed.\<close>

theorem tenant_stats_functional:
  assumes "fault_free w"
  shows "fst (tenant_stats i w) =
      (if trim_space i = [] then Inl ErrInvalidInput
       else if i \<notin> t_id ` set (db_tenants (tabs w)) then Inl ErrNotFound
       else Inr (int (length (filter (\<lambda>m. m_tenant m = i) (db_memories (tabs w)))))) \<and>
    tabs (snd (tenant_stats i w)) = tabs w"
  using assms
  by (auto simp: tenant_stats_def tenant_repo_exists_def tenant_repo_memory_count_def bind_act_def fail_act_def
      query_fault_free memory_count_def count_where_def image_iff)

text \<open>The overview of tenants lists the newest tenants, at most as many as asked for (a hundred by
  default), each with the number of its memories, provided its identifier has no surrounding blanks:
  \<open>ListMemoryCounts\<close> counts under the trimmed identifiers and the overview looks up the stored ones, so a
  tenant created with such blanks is always shown with no memories, whatever \<open>Stats\<close> says of it.\<close>

theorem list_with_stats_functional:
  assumes "tenant_list_with_stats n w = (Inr rows, w')"
  shows "map fst rows = take (nat (if n \<le> 0 then 100 else n))
      (order_desc (\<lambda>t. Stamp (t_created_at t)) (db_tenants (tabs w))) \<and>
    (\<forall>(t, k) \<in> set rows. k = (if t_id t \<noteq> [] \<and> trim_space (t_id t) = t_id t
       then memory_count (t_id t) (tabs w) else 0)) \<and>
    tabs w' = tabs w"
proof -
  from assms obtain ts w1 where ts: "tenant_repo_list n w = (Inr ts, w1)" and rest:
    "(if ts = [] then return_act [] else bind_act (tenant_repo_list_memory_counts (map t_id ts)) (\<lambda>counts.
        return_act (map (\<lambda>t. (t, case counts (t_id t) of None \<Rightarrow> 0 | Some n \<Rightarrow> n)) ts))) w1 = (Inr rows, w')"
    unfolding tenant_list_with_stats_def by (rule bind_actE)
  have list: "ts = limit_rows (if n \<le> 0 then 100 else n) (order_desc (\<lambda>t. Stamp (t_created_at t)) (db_tenants (tabs w)))"
    "tabs w1 = tabs w"
    using ts unfolding tenant_repo_list_def by (rule queryE)+
  show ?thesis
  proof (cases "ts = []")
    case True
    with rest list show ?thesis by (simp add: act_success limit_rows_def)
  next
    case False
    with rest have "bind_act (tenant_repo_list_memory_counts (map t_id ts)) (\<lambda>counts.
        return_act (map (\<lambda>t. (t, case counts (t_id t) of None \<Rightarrow> 0 | Some n \<Rightarrow> n)) ts)) w1 = (Inr rows, w')" by simp
    then obtain counts w2 where c: "tenant_repo_list_memory_counts (map t_id ts) w1 = (Inr counts, w2)"
      and rows: "rows = map (\<lambda>t. (t, case counts (t_id t) of None \<Rightarrow> 0 | Some n \<Rightarrow> n)) ts" "w' = w2"
      by (auto elim!: bind_actE dest: return_actE)
    have trimmed: "i \<in> trim_space ` set is \<Longrightarrow> trim_space i = i" for i "is" by auto
    have "k = (if t_id t \<noteq> [] \<and> trim_space (t_id t) = t_id t then memory_count (t_id t) (tabs w) else 0)"
      if "(t, k) \<in> set rows" for t k
    proof -
      from that have t: "t \<in> set ts" "k = (case counts (t_id t) of None \<Rightarrow> 0 | Some n \<Rightarrow> n)" by (auto simp: rows)
      from t(1) have "trim_space (t_id t) = t_id t \<Longrightarrow> t_id t \<in> trim_space ` set (map t_id ts)"
        by (metis image_eqI image_set)
      then show ?thesis
        using t(2) memory_counts_run [OF c, of "t_id t"] list(2) trimmed [of "t_id t" "map t_id ts"]
        by (auto split: if_splits)
    qed
    moreover have "map fst rows = ts" by (simp add: rows comp_def)
    ultimately show ?thesis using memory_counts_run [OF c] list rows(2) by (auto simp: limit_rows_def)
  qed
qed

text \<open>Creating a tenant refuses blank identifiers and names and an identifier that is taken, and leaves
  the database alone then; otherwise exactly the new row is added, with the current time when none was
  given, and the invariant of the store holds on.\<close>

theorem tenant_create_functional:
  assumes "fault_free w" and "tenant_create t w = (r, w')"
  shows "case r of
      Inl e \<Rightarrow> tabs w' = tabs w \<and>
        (e = ErrInvalidInput \<and> (trim_space (t_id t) = [] \<or> trim_space (t_name t) = []) \<or>
         e = ErrConstraint \<and> t_id t \<in> t_id ` set (db_tenants (tabs w)))
    | Inr t' \<Rightarrow> trim_space (t_id t) \<noteq> [] \<and> trim_space (t_name t) \<noteq> [] \<and>
        t_id t \<notin> t_id ` set (db_tenants (tabs w)) \<and>
        t' = (if is_zero (t_created_at t) then t\<lparr>t_created_at := clock w (steps w)\<rparr> else t) \<and>
        tabs w' = (tabs w)\<lparr>db_tenants := db_tenants (tabs w) @ [t']\<rparr> \<and> (db_ok (tabs w) \<longrightarrow> db_ok (tabs w'))"
proof (cases "trim_space (t_id t) = [] \<or> trim_space (t_name t) = []")
  case True
  with assms show ?thesis by (auto simp: tenant_create_def fail_act_def)
next
  case False
  let ?t = "(if is_zero (t_created_at t) then t\<lparr>t_created_at := clock w (steps w)\<rparr> else t)"
  let ?w = "if is_zero (t_created_at t) then tick w else w"
  have "tenant_create t w = (bind_act (exec (insert_tenant_stmt ?t)) (\<lambda>_. return_act ?t)) ?w"
    using False by (simp add: tenant_create_def tenant_repo_create_def bind_act_def now_act_def return_act_def)
  moreover have "fault_free ?w" "tabs ?w = tabs w" using assms(1) by simp_all
  ultimately have run: "(r, w') = (if t_id t \<in> t_id ` set (db_tenants (tabs w)) then (Inl ErrConstraint, tick ?w)
      else (Inr ?t, tick ?w\<lparr>tabs := (tabs w)\<lparr>db_tenants := db_tenants (tabs w) @ [?t]\<rparr>\<rparr>))"
    using assms(2) by (simp add: bind_act_def exec_fault_free insert_tenant_stmt_def return_act_def)
  have "db_ok (tabs w) \<longrightarrow> db_ok (tabs w')"
    using keepsD [OF keeps_tenant_create, of w t] assms(2) False by (auto simp: tenant_create_def)
  with run False \<open>tabs ?w = tabs w\<close> show ?thesis by (simp split: if_splits)
qed

section \<open>Witnesses\<close>

lemma tenant_stats_functional_witness: "fst (tenant_stats ''t1'' (calm_world sample_store)) = Inr 1"
  using tenant_stats_functional [of "calm_world sample_store" "''t1''"]
  by (simp add: fault_free_def calm_world_def sample_store_def sample_memory_def empty_database_def trim_eval)

definition padded_store :: database where
  "padded_store = empty_database\<lparr>db_tenants := [\<lparr>t_id = '' t1'', t_name = ''one'', t_created_at = 0\<rparr>],
     db_memories := [sample_memory\<lparr>m_tenant := '' t1''\<rparr>]\<rparr>"

lemma padded_run: "tenant_list_with_stats 5 (calm_world padded_store) =
    (Inr [(\<lparr>t_id = '' t1'', t_name = ''one'', t_created_at = 0\<rparr>, 0)], tick (tick (calm_world padded_store)))"
  by (simp add: tenant_list_with_stats_def tenant_repo_list_def tenant_repo_list_memory_counts_def bind_act_def
      query_def exec_def return_act_def limit_rows_def order_desc_def grouped_counts_def
      calm_world_def padded_store_def sample_memory_def empty_database_def trim_eval tick_def)

lemma list_with_stats_functional_witness:
  "fst (tenant_list_with_stats 5 (calm_world padded_store)) =
     Inr [(\<lparr>t_id = '' t1'', t_name = ''one'', t_created_at = 0\<rparr>, 0)] \<and>
   tabs (snd (tenant_list_with_stats 5 (calm_world padded_store))) = padded_store \<and>
   memory_count '' t1'' padded_store = 1"
  using list_with_stats_functional [OF padded_run]
  by (simp add: padded_run) (simp add: calm_world_def padded_store_def memory_count_def count_where_def
      sample_memory_def empty_database_def)

lemma tenant_create_functional_witness:
  "\<exists>t' w'. tenant_create \<lparr>t_id = ''t2'', t_name = ''two'', t_created_at = zero_time\<rparr> (calm_world sample_store) = (Inr t', w') \<and>
     t' \<in> set (db_tenants (tabs w')) \<and> db_ok (tabs w')"
proof -
  let ?t = "\<lparr>t_id = ''t2'', t_name = ''two'', t_created_at = zero_time\<rparr>"
  obtain r w' where run: "tenant_create ?t (calm_world sample_store) = (r, w')" by fastforce
  have "\<not> (\<exists>e. r = Inl e)"
    using tenant_create_functional [OF _ run]
    by (auto simp: fault_free_def calm_world_def sample_store_def empty_database_def trim_eval)
  then obtain t' where "r = Inr t'" by (cases r) auto
  with tenant_create_functional [OF _ run] run sample_store_ok(1) show ?thesis
    by (auto simp: fault_free_def calm_world_def)
qed

end
