(* ===== verification/VectorStore.thy ===== *)
theory VectorStore
  imports MemoryRepo
begin

text \<open>
  Vector stores: the interface \<open>domain.VectorStore\<close> as a record of actions, its contract as a locale,
  and the SQLite store of \<open>vectorstore/sqlitevec\<close>, which keeps the embeddings in the relational
  database and searches them by cosine similarity in process. The stores of \<open>qdrant\<close> and \<open>pgvector\<close> are
  other values of the record. A \<open>float32\<close> is a real number here.
\<close>

record vector_store =
  vs_upsert :: "string \<Rightarrow> string \<Rightarrow> real list \<Rightarrow> unit db_act"
  vs_delete :: "string \<Rightarrow> string \<Rightarrow> unit db_act"
  vs_search :: "string \<Rightarrow> real list \<Rightarrow> int \<Rightarrow> vector_candidate list db_act"
  vs_upsert_batch :: "(vector_upsert list \<Rightarrow> unit db_act) option"

section \<open>Cosine similarity\<close>

definition dot :: "real list \<Rightarrow> real list \<Rightarrow> real" where
  "dot a b = sum_list (map2 (*) a b)"

text \<open>The loop of \<open>cosineSimilarity\<close> over the common length: the inner product and both squared norms.\<close>

definition cosine_similarity :: "real list \<Rightarrow> real list \<Rightarrow> real" where
  "cosine_similarity a b =
     (let n = min (length a) (length b); x = take n a; y = take n b in
      if n = 0 then 0
      else if dot x x = 0 \<or> dot y y = 0 then 0
      else dot x y / (sqrt (dot x x) * sqrt (dot y y)))"

text \<open>Cauchy and Schwarz: the similarity lies between -1 and 1.\<close>

lemma dot_Nil [simp]: "dot [] ys = 0" "dot xs [] = 0"
  by (simp_all add: dot_def)

lemma dot_Cons [simp]: "dot (a # xs) (b # ys) = a * b + dot xs ys"
  by (simp add: dot_def)

lemma dot_commute: "length xs = length ys \<Longrightarrow> dot xs ys = dot ys xs"
  by (induction xs ys rule: list_induct2) (simp_all add: mult.commute)

lemma dot_self_nonneg [simp]: "0 \<le> dot xs xs"
  by (induction xs) simp_all

lemma dot_quadratic:
  "length xs = length ys \<Longrightarrow> 0 \<le> s\<^sup>2 * dot xs xs - 2 * s * t * dot xs ys + t\<^sup>2 * dot ys ys"
proof (induction xs ys rule: list_induct2)
  case (Cons x xs y ys)
  have "s\<^sup>2 * dot (x # xs) (x # xs) - 2 * s * t * dot (x # xs) (y # ys) + t\<^sup>2 * dot (y # ys) (y # ys)
      = (s * x - t * y)\<^sup>2 + (s\<^sup>2 * dot xs xs - 2 * s * t * dot xs ys + t\<^sup>2 * dot ys ys)"
    by (simp add: power2_eq_square algebra_simps)
  with Cons.IH show ?case by simp
qed simp

lemma dot_Cauchy_Schwarz:
  assumes "length xs = length ys"
  shows "(dot xs ys)\<^sup>2 \<le> dot xs xs * dot ys ys"
proof (cases "dot ys ys = 0")
  case True
  have "0 \<le> 1\<^sup>2 * dot xs xs - 2 * 1 * t * dot xs ys + t\<^sup>2 * dot ys ys" for t
    by (rule dot_quadratic [OF assms])
  then have *: "2 * t * dot xs ys \<le> dot xs xs" for t
    using True by (simp add: algebra_simps)
  have "dot xs ys = 0"
  proof (rule ccontr)
    assume "dot xs ys \<noteq> 0"
    then show False using * [of "(dot xs xs + 1) / (2 * dot xs ys)"] by simp
  qed
  then show ?thesis by simp
next
  case False
  then have pos: "0 < dot ys ys" using dot_self_nonneg [of ys] by linarith
  have "0 \<le> (dot ys ys)\<^sup>2 * dot xs xs - 2 * dot ys ys * dot xs ys * dot xs ys + (dot xs ys)\<^sup>2 * dot ys ys"
    by (rule dot_quadratic [OF assms])
  then have "0 \<le> dot ys ys * (dot xs xs * dot ys ys - (dot xs ys)\<^sup>2)"
    by (simp add: power2_eq_square algebra_simps)
  with pos show ?thesis by (simp add: zero_le_mult_iff)
qed

lemma cosine_bounds: "\<bar>cosine_similarity a b\<bar> \<le> 1"
proof -
  define x where "x = take (min (length a) (length b)) a"
  define y where "y = take (min (length a) (length b)) b"
  have len: "length x = length y" by (simp add: x_def y_def)
  have "\<bar>dot x y\<bar> \<le> sqrt (dot x x) * sqrt (dot y y)"
    using dot_Cauchy_Schwarz [OF len] by (metis real_sqrt_abs real_sqrt_le_mono real_sqrt_mult)
  then have "dot x x \<noteq> 0 \<Longrightarrow> dot y y \<noteq> 0 \<Longrightarrow> \<bar>dot x y / (sqrt (dot x x) * sqrt (dot y y))\<bar> \<le> 1"
    using dot_self_nonneg [of x] dot_self_nonneg [of y] by (simp add: abs_mult divide_le_eq)
  then show ?thesis unfolding cosine_similarity_def Let_def x_def [symmetric] y_def [symmetric] by auto
qed

lemma cosine_commute: "cosine_similarity a b = cosine_similarity b a"
  by (auto simp: cosine_similarity_def Let_def min.commute mult.commute intro!: dot_commute)

lemma cosine_self: "dot a a \<noteq> 0 \<Longrightarrow> cosine_similarity a a = 1"
  using dot_self_nonneg [of a] by (cases a) (auto simp: cosine_similarity_def)

section \<open>The SQLite store\<close>

definition embedding_key :: "embedding_row \<Rightarrow> string \<times> string" where
  "embedding_key r = (er_tenant r, er_memory r)"

text \<open>\<open>UpsertEmbeddingSQL\<close>, with the foreign key to the memory, and \<open>DeleteEmbeddingSQL\<close>.\<close>

definition upsert_embedding_stmt ::
  "string \<Rightarrow> string \<Rightarrow> real list \<Rightarrow> stamp \<Rightarrow> database \<Rightarrow> err + (unit \<times> database)" where
  "upsert_embedding_stmt t m e now db =
     (if \<exists>r \<in> set (db_embeddings db). embedding_key r = (t, m)
      then Inr ((), db\<lparr>db_embeddings := update_where (\<lambda>r. embedding_key r = (t, m))
             (\<lambda>r. r\<lparr>er_embedding := e, er_updated_at := now\<rparr>) (db_embeddings db)\<rparr>)
      else if m \<notin> m_id ` set (db_memories db) then Inl ErrConstraint
      else Inr ((), db\<lparr>db_embeddings := db_embeddings db @
             [\<lparr>er_tenant = t, er_memory = m, er_embedding = e, er_updated_at = now\<rparr>]\<rparr>))"

definition delete_embedding_stmt :: "string \<Rightarrow> string \<Rightarrow> database \<Rightarrow> err + (unit \<times> database)" where
  "delete_embedding_stmt t m db =
     Inr ((), db\<lparr>db_embeddings := filter (\<lambda>r. embedding_key r \<noteq> (t, m)) (db_embeddings db)\<rparr>)"

definition sv_upsert :: "string \<Rightarrow> string \<Rightarrow> real list \<Rightarrow> unit db_act" where
  "sv_upsert t m e =
     (if trim_space t = [] \<or> trim_space m = [] \<or> e = [] then fail_act ErrInvalidInput
      else bind_act now_act (\<lambda>now. exec (upsert_embedding_stmt t m e (Stamp now))))"

definition sv_upsert_batch :: "vector_upsert list \<Rightarrow> unit db_act" where
  "sv_upsert_batch us =
     (if us = [] then return_act ()
      else in_tx (bind_act now_act (\<lambda>now. fold_act (\<lambda>u _.
        if trim_space (vu_tenant u) = [] \<or> trim_space (vu_memory u) = [] \<or> vu_embedding u = []
        then fail_act ErrInvalidInput
        else exec (upsert_embedding_stmt (vu_tenant u) (vu_memory u) (vu_embedding u) (Stamp now))) us ())))"

definition sv_delete :: "string \<Rightarrow> string \<Rightarrow> unit db_act" where
  "sv_delete t m =
     (if trim_space t = [] \<or> trim_space m = [] then fail_act ErrInvalidInput
      else exec (delete_embedding_stmt t m))"

text \<open>\<open>Search\<close>: candidates in the order of the table, sorted by falling similarity and cut.
  \<open>slices.SortFunc\<close> leaves the order of equal similarities open; the model keeps the table's, and the
  contract below does not rely on it.\<close>

definition candidates :: "string \<Rightarrow> real list \<Rightarrow> embedding_row list \<Rightarrow> vector_candidate list" where
  "candidates t q rows = map (\<lambda>r. \<lparr>vc_memory = er_memory r, vc_similarity = cosine_similarity q (er_embedding r)\<rparr>)
     (filter (\<lambda>r. er_tenant r = t \<and> er_embedding r \<noteq> []) rows)"

definition sv_search :: "string \<Rightarrow> real list \<Rightarrow> int \<Rightarrow> vector_candidate list db_act" where
  "sv_search t q top_k =
     (if trim_space t = [] \<or> q = [] then fail_act ErrInvalidInput
      else query (\<lambda>db. limit_rows (if top_k \<le> 0 then 10 else top_k)
        (sort_key (\<lambda>c. - vc_similarity c) (candidates t q (db_embeddings db)))))"

definition sqlite_vector_store :: vector_store where
  "sqlite_vector_store = \<lparr>vs_upsert = sv_upsert, vs_delete = sv_delete, vs_search = sv_search,
     vs_upsert_batch = Some sv_upsert_batch\<rparr>"

section \<open>The contract\<close>

text \<open>
  What the memory service relies on. \<open>vec\<close> is what the store holds and \<open>good\<close> the condition it keeps;
  both read the database, so that a store kept elsewhere is covered by extending it. A successful
  operation has exactly its effect on \<open>vec\<close>; a search returns stored vectors of the tenant only, each
  memory once, best first, at most as many as asked for; and no operation breaks the relational store.
\<close>

locale vector_index =
  fixes vs :: vector_store
    and vec :: "database \<Rightarrow> string \<times> string \<Rightarrow> real list option"
    and good :: "database \<Rightarrow> bool"
    and sim :: "real list \<Rightarrow> real list \<Rightarrow> real"
  assumes upsert_vec: "yields (\<lambda>t. t = t0 \<and> good t0) (vs_upsert vs tn m e)
      (\<lambda>_ t. good t \<and> vec t = (vec t0)((tn, m) \<mapsto> e))"
    and delete_vec: "yields (\<lambda>t. t = t0 \<and> good t0) (vs_delete vs tn m)
      (\<lambda>_ t. good t \<and> vec t = (vec t0)((tn, m) := None))"
    and search_vec: "yields (\<lambda>t. t = t0 \<and> good t0) (vs_search vs tn q k)
      (\<lambda>cs t. t = t0 \<and> distinct (map vc_memory cs) \<and> (0 < k \<longrightarrow> int (length cs) \<le> k) \<and>
         sorted_wrt (\<lambda>a b. vc_similarity b \<le> vc_similarity a) cs \<and>
         (\<forall>c \<in> set cs. \<exists>e. vec t0 (tn, vc_memory c) = Some e \<and> vc_similarity c = sim q e))"
    and upsert_keeps: "keeps (\<lambda>t. good t \<and> db_ok t) (vs_upsert vs tn m e)"
    and delete_keeps: "keeps (\<lambda>t. good t \<and> db_ok t) (vs_delete vs tn m)"
    and batch_keeps: "vs_upsert_batch vs = Some b \<Longrightarrow> keeps (\<lambda>t. good t \<and> db_ok t) (b us)"
begin

text \<open>An upsert of several vectors, one by one: the last one for a key wins, others stay.\<close>

fun upsert_each :: "vector_upsert list \<Rightarrow> unit db_act" where
  "upsert_each [] = return_act ()"
| "upsert_each (u # us) =
     bind_act (vs_upsert vs (vu_tenant u) (vu_memory u) (vu_embedding u)) (\<lambda>_. upsert_each us)"

lemma upsert_each_vec:
  "yields (\<lambda>t. t = t0 \<and> good t0) (upsert_each us)
     (\<lambda>_ t. good t \<and> vec t = foldl (\<lambda>v u. v((vu_tenant u, vu_memory u) \<mapsto> vu_embedding u)) (vec t0) us)"
proof (induction us arbitrary: t0)
  case Nil
  then show ?case by (auto intro: yields_return)
next
  case (Cons u us)
  have rest: "yields (\<lambda>t. good t \<and> vec t = (vec t0)((vu_tenant u, vu_memory u) \<mapsto> vu_embedding u)) (upsert_each us)
     (\<lambda>_ t. good t \<and> vec t = foldl (\<lambda>v u. v((vu_tenant u, vu_memory u) \<mapsto> vu_embedding u)) (vec t0) (u # us))"
  proof (rule yieldsI)
    fix w x w' assume a: "good (tabs w) \<and> vec (tabs w) = (vec t0)((vu_tenant u, vu_memory u) \<mapsto> vu_embedding u)"
      and run: "upsert_each us w = (Inr x, w')"
    from a have "tabs w = tabs w \<and> good (tabs w)" by simp
    from yieldsD [OF Cons.IH run this] a
    show "good (tabs w') \<and> vec (tabs w') =
        foldl (\<lambda>v u. v((vu_tenant u, vu_memory u) \<mapsto> vu_embedding u)) (vec t0) (u # us)"
      by (simp only: foldl.simps)
  qed
  show ?case unfolding upsert_each.simps by (rule yields_bind [OF upsert_vec rest])
qed

end

section \<open>The SQLite store keeps the contract\<close>

definition embedding_map :: "database \<Rightarrow> string \<times> string \<Rightarrow> real list option" where
  "embedding_map db = map_of (map (\<lambda>r. (embedding_key r, er_embedding r)) (db_embeddings db))"

definition embeddings_ok :: "database \<Rightarrow> bool" where
  "embeddings_ok db \<longleftrightarrow> distinct (map embedding_key (db_embeddings db)) \<and>
     (\<forall>r \<in> set (db_embeddings db). er_embedding r \<noteq> [])"

lemma embedding_lookup:
  "embeddings_ok db \<Longrightarrow> r \<in> set (db_embeddings db) \<Longrightarrow> embedding_map db (embedding_key r) = Some (er_embedding r)"
  by (simp add: embedding_map_def embeddings_ok_def comp_def map_of_eq_Some_iff image_iff) blast

lemma map_of_update_where:
  assumes "\<exists>r \<in> set rs. k r = x" "\<And>r. k (f r) = k r" "\<And>r. v (f r) = e"
  shows "map_of (map (\<lambda>r. (k r, v r)) (update_where (\<lambda>r. k r = x) f rs)) =
    (map_of (map (\<lambda>r. (k r, v r)) rs))(x \<mapsto> e)"
  using assms
proof (induction rs)
  case (Cons r rs)
  show ?case
  proof (cases "\<exists>r \<in> set rs. k r = x")
    case True
    with Cons show ?thesis by (auto simp: fun_eq_iff)
  next
    case False
    then have "update_where (\<lambda>r. k r = x) f rs = rs" by (intro update_where_none) blast
    with False Cons.prems show ?thesis by (auto simp: fun_eq_iff)
  qed
qed simp

lemma map_of_filter_key:
  "map_of (map (\<lambda>r. (k r, v r)) (filter (\<lambda>r. k r \<noteq> x) rs)) = (map_of (map (\<lambda>r. (k r, v r)) rs))(x := None)"
  by (induction rs) (auto simp: fun_eq_iff)

lemma upsert_stmt_effect:
  assumes ok: "embeddings_ok db" and run: "upsert_embedding_stmt t m e now db = Inr (u, db')" and e: "e \<noteq> []"
  shows "embeddings_ok db' \<and> embedding_map db' = (embedding_map db)((t, m) \<mapsto> e)"
proof (cases "\<exists>r \<in> set (db_embeddings db). embedding_key r = (t, m)")
  case True
  let ?f = "\<lambda>r. r\<lparr>er_embedding := e, er_updated_at := now\<rparr>"
  let ?rs = "update_where (\<lambda>r. embedding_key r = (t, m)) ?f (db_embeddings db)"
  have db': "db' = db\<lparr>db_embeddings := ?rs\<rparr>" using run True by (auto simp: upsert_embedding_stmt_def)
  have "map embedding_key ?rs = map embedding_key (db_embeddings db)"
    by (rule map_update_where) (simp add: embedding_key_def)
  moreover have "\<forall>r \<in> set ?rs. er_embedding r \<noteq> []" using ok e by (auto simp: set_update_where embeddings_ok_def)
  ultimately have "embeddings_ok db'" using ok by (simp add: embeddings_ok_def db')
  moreover have "embedding_map db' = (embedding_map db)((t, m) \<mapsto> e)"
    unfolding embedding_map_def db' using True
    by simp (rule map_of_update_where, auto simp: embedding_key_def)
  ultimately show ?thesis ..
next
  case False
  with run have db': "db' = db\<lparr>db_embeddings := db_embeddings db @
             [\<lparr>er_tenant = t, er_memory = m, er_embedding = e, er_updated_at = now\<rparr>]\<rparr>"
    by (auto simp: upsert_embedding_stmt_def split: if_splits)
  have "embeddings_ok db'" using ok False e by (auto simp: embeddings_ok_def db' embedding_key_def)
  moreover have "embedding_map db' = (embedding_map db)((t, m) \<mapsto> e)"
  proof
    fix k
    have none: "embedding_map db (t, m) = None"
      using False by (auto simp: embedding_map_def map_of_eq_None_iff)
    then show "embedding_map db' k = ((embedding_map db)((t, m) \<mapsto> e)) k"
      by (cases "k = (t, m)")
         (auto simp: embedding_map_def db' embedding_key_def [of "\<lparr>er_tenant = t, er_memory = m, er_embedding = e, er_updated_at = now\<rparr>"] map_add_def split: option.splits)
  qed
  ultimately show ?thesis ..
qed

lemma upsert_stmt_db_ok:
  "db_ok db \<Longrightarrow> upsert_embedding_stmt t m e now db = Inr (u, db') \<Longrightarrow> db_ok db'"
  by (auto simp: db_ok_def store_ok_def upsert_embedding_stmt_def set_update_where split: if_splits)

lemma delete_stmt_effect:
  assumes "embeddings_ok db" "delete_embedding_stmt t m db = Inr (u, db')"
  shows "embeddings_ok db' \<and> embedding_map db' = (embedding_map db)((t, m) := None)"
proof -
  have db': "db' = db\<lparr>db_embeddings := filter (\<lambda>r. embedding_key r \<noteq> (t, m)) (db_embeddings db)\<rparr>"
    using assms(2) by (simp add: delete_embedding_stmt_def)
  then show ?thesis
    using assms(1) by (simp add: embeddings_ok_def embedding_map_def map_of_filter_key distinct_map_filter)
qed

lemma delete_stmt_db_ok: "db_ok db \<Longrightarrow> delete_embedding_stmt t m db = Inr (u, db') \<Longrightarrow> db_ok db'"
  by (auto simp: db_ok_def store_ok_def delete_embedding_stmt_def)

lemma candidates_sound:
  assumes "embeddings_ok db" "c \<in> set (candidates t q (db_embeddings db))"
  shows "\<exists>e. embedding_map db (t, vc_memory c) = Some e \<and> vc_similarity c = cosine_similarity q e"
proof -
  from assms(2) obtain r where r: "r \<in> set (db_embeddings db)" "er_tenant r = t"
    "c = \<lparr>vc_memory = er_memory r, vc_similarity = cosine_similarity q (er_embedding r)\<rparr>"
    by (auto simp: candidates_def)
  with embedding_lookup [OF assms(1) r(1)] show ?thesis by (simp add: embedding_key_def)
qed

lemma candidates_distinct:
  assumes "embeddings_ok db"
  shows "distinct (map vc_memory (candidates t q (db_embeddings db)))"
proof -
  let ?rs = "filter (\<lambda>r. er_tenant r = t \<and> er_embedding r \<noteq> []) (db_embeddings db)"
  have d: "distinct (map embedding_key ?rs)"
    using assms by (simp add: embeddings_ok_def distinct_map_filter)
  have "map embedding_key ?rs = map (Pair t) (map er_memory ?rs)"
    by (simp add: embedding_key_def)
  with d have "distinct (map (Pair t) (map er_memory ?rs))" by simp
  then have "distinct (map er_memory ?rs)" by (simp only: distinct_map)
  then show ?thesis by (simp add: candidates_def comp_def)
qed

lemma sv_upsert_batch_keeps: "keeps (\<lambda>t. embeddings_ok t \<and> db_ok t) (sv_upsert_batch us)"
  unfolding sv_upsert_batch_def
  by (intro act_keeps keeps_exec) (use upsert_stmt_effect upsert_stmt_db_ok in blast)

lemma sort_desc_sorted:
  fixes f :: "'a \<Rightarrow> real"
  shows "sorted_wrt (\<lambda>a b. f b \<le> f a) (sort_key (\<lambda>c. - f c) xs)"
  using sorted_sort_key [of "\<lambda>c. - f c" xs] by (simp add: sorted_map)

lemma sv_search_eq:
  assumes "sv_search t q k w = (Inr cs, w')"
  shows "tabs w' = tabs w \<and> cs = limit_rows (if k \<le> 0 then 10 else k)
    (sort_key (\<lambda>c. - vc_similarity c) (candidates t q (db_embeddings (tabs w))))"
  using assms by (auto simp: sv_search_def fail_act_def split: if_splits dest: queryE)

lemma sv_search_contract:
  assumes ok: "embeddings_ok (tabs w)" and run: "sv_search t q k w = (Inr cs, w')"
  shows "tabs w' = tabs w \<and> distinct (map vc_memory cs) \<and> (0 < k \<longrightarrow> int (length cs) \<le> k) \<and>
    sorted_wrt (\<lambda>a b. vc_similarity b \<le> vc_similarity a) cs \<and>
    (\<forall>c \<in> set cs. \<exists>e. embedding_map (tabs w) (t, vc_memory c) = Some e \<and> vc_similarity c = cosine_similarity q e)"
proof -
  let ?s = "sort_key (\<lambda>c. - vc_similarity c) (candidates t q (db_embeddings (tabs w)))"
  obtain n where cs: "tabs w' = tabs w" "cs = take n ?s" and n: "0 < k \<Longrightarrow> int n \<le> k"
    using sv_search_eq [OF run] by (cases "k \<le> 0") (auto simp: limit_rows_def split: if_splits)
  have "distinct (map vc_memory ?s)"
    using candidates_distinct [OF ok, of t q] by (simp add: distinct_map)
  then have "distinct (map vc_memory cs)" by (simp add: cs(2) take_map [symmetric])
  moreover have "sorted_wrt (\<lambda>a b. vc_similarity b \<le> vc_similarity a) cs"
    using sort_desc_sorted unfolding cs(2) by (rule sorted_wrt_take)
  moreover have "\<forall>c \<in> set cs. \<exists>e. embedding_map (tabs w) (t, vc_memory c) = Some e \<and> vc_similarity c = cosine_similarity q e"
    using candidates_sound [OF ok] cs(2) by (auto dest!: in_set_takeD)
  moreover have "0 < k \<longrightarrow> int (length cs) \<le> k" using n by (auto simp: cs(2))
  ultimately show ?thesis using cs(1) by blast
qed

lemma yields_now_exec:
  "(\<And>n t x t'. P t \<Longrightarrow> f n t = Inr (x, t') \<Longrightarrow> Q x t') \<Longrightarrow> yields P (bind_act now_act (\<lambda>n. exec (f n))) Q"
  by (rule yields_bind [OF yields_now [where Q = "\<lambda>_. P"]]) (auto intro: yields_exec)

lemma sv_upsert_contract: "yields (\<lambda>t. t = t0 \<and> embeddings_ok t0) (sv_upsert tn m e)
      (\<lambda>_ t. embeddings_ok t \<and> embedding_map t = (embedding_map t0)((tn, m) \<mapsto> e))"
  unfolding sv_upsert_def
  by (intro act_yields yields_now_exec) (use upsert_stmt_effect in blast)

lemma sv_delete_contract: "yields (\<lambda>t. t = t0 \<and> embeddings_ok t0) (sv_delete tn m)
      (\<lambda>_ t. embeddings_ok t \<and> embedding_map t = (embedding_map t0)((tn, m) := None))"
  unfolding sv_delete_def
  by (intro act_yields yields_exec) (use delete_stmt_effect in blast)

lemma sv_upsert_keeps: "keeps (\<lambda>t. embeddings_ok t \<and> db_ok t) (sv_upsert tn m e)"
  unfolding sv_upsert_def
  by (intro act_keeps keeps_exec) (use upsert_stmt_effect upsert_stmt_db_ok in blast)

lemma sv_delete_keeps: "keeps (\<lambda>t. embeddings_ok t \<and> db_ok t) (sv_delete tn m)"
  unfolding sv_delete_def
  by (intro act_keeps keeps_exec) (use delete_stmt_effect delete_stmt_db_ok in blast)

interpretation sv: vector_index sqlite_vector_store embedding_map embeddings_ok cosine_similarity
  by unfold_locales
    (simp_all only: sqlite_vector_store_def vector_store.simps option.inject sv_upsert_contract
      sv_delete_contract sv_upsert_keeps sv_delete_keeps, auto intro!: yieldsI sv_upsert_batch_keeps dest: sv_search_contract)

section \<open>Properties\<close>

definition embed_put :: "vector_upsert \<Rightarrow> (string \<times> string \<Rightarrow> real list option) \<Rightarrow> string \<times> string \<Rightarrow> real list option" where
  "embed_put u v = v((vu_tenant u, vu_memory u) \<mapsto> vu_embedding u)"

lemma sv_upsert_batch_effect: "yields (\<lambda>t. t = t0 \<and> embeddings_ok t0) (sv_upsert_batch us)
    (\<lambda>_ t. embeddings_ok t \<and> embedding_map t = fold embed_put us (embedding_map t0))"
proof (cases "us = []")
  case True
  then show ?thesis by (auto simp: sv_upsert_batch_def intro: yields_return)
next
  case False
  let ?I = "\<lambda>vs (_ :: unit) t. embeddings_ok t \<and> embedding_map t = fold embed_put vs (embedding_map t0)"
  let ?f = "\<lambda>now u (_ :: unit). if trim_space (vu_tenant u) = [] \<or> trim_space (vu_memory u) = [] \<or> vu_embedding u = []
        then fail_act ErrInvalidInput
        else exec (upsert_embedding_stmt (vu_tenant u) (vu_memory u) (vu_embedding u) (Stamp now))"
  have step: "yields (?I vs s) (?f now u s) (?I (vs @ [u]))" for vs and s :: unit and u now
  proof (intro act_yields yields_exec)
    fix t t' :: database and x :: unit
    assume "\<not> (trim_space (vu_tenant u) = [] \<or> trim_space (vu_memory u) = [] \<or> vu_embedding u = [])"
      and I: "?I vs s t" and "upsert_embedding_stmt (vu_tenant u) (vu_memory u) (vu_embedding u) (Stamp now) t = Inr (x, t')"
    then show "?I (vs @ [u]) x t'"
      using upsert_stmt_effect [of t "vu_tenant u" "vu_memory u" "vu_embedding u" "Stamp now" x t']
      by (simp only: fold_append fold.simps comp_def id_apply embed_put_def) blast
  qed
  have loop: "yields (?I [] ()) (fold_act (?f now) us ()) (?I us)" for now
    using yields_fold_history [of us ?I "?f now" "[]" "()", OF step] by simp
  have "yields (\<lambda>t. t = t0 \<and> embeddings_ok t0) (bind_act now_act (\<lambda>now. fold_act (?f now) us ())) (?I us)"
    by (rule yields_bind [OF yields_now [where Q = "\<lambda>_. ?I [] ()"] loop]) simp
  with False show ?thesis unfolding sv_upsert_batch_def by (auto intro: yields_in_tx)
qed

lemma sv_upsert_batch_atomic: "atomic (sv_upsert_batch us)"
  unfolding sv_upsert_batch_def by (intro act_atomic atomic_reads)

text \<open>A batch of embeddings goes in as a whole or not at all. When it succeeds, the store holds for
  every key the last embedding the batch gives it, and what it held before for all other keys; when it
  fails on any entry, the database is what it was. Either way no key is stored twice.\<close>

theorem vector_batch_functional:
  assumes ok: "embeddings_ok (tabs w)" and run: "sv_upsert_batch us w = (r, w')"
  shows "case r of
      Inr _ \<Rightarrow> embeddings_ok (tabs w') \<and> embedding_map (tabs w') = fold embed_put us (embedding_map (tabs w))
    | Inl _ \<Rightarrow> tabs w' = tabs w"
proof (cases r)
  case (Inl e)
  with run atomicD [OF sv_upsert_batch_atomic, of us w e w'] show ?thesis by simp
next
  case (Inr u)
  with run yieldsD [OF sv_upsert_batch_effect [of "tabs w" us], of w u w'] ok show ?thesis by auto
qed

text \<open>C37 A vector search changes nothing and returns at most the asked number of memories (ten, when
  that is not positive), each once, all of the tenant that asks, with the cosine similarity of the
  stored embedding, between -1 and 1 and falling. It is the best of them: a memory of the tenant with
  an embedding is left out only if all returned ones are at least as similar.\<close>

theorem vector_search_best:
  assumes ok: "embeddings_ok (tabs w)" and run: "sv_search t q k w = (Inr cs, w')"
  shows "tabs w' = tabs w \<and> distinct (map vc_memory cs) \<and> int (length cs) \<le> (if k \<le> 0 then 10 else k) \<and>
    sorted_wrt (\<lambda>a b. vc_similarity b \<le> vc_similarity a) cs \<and>
    (\<forall>c \<in> set cs. \<bar>vc_similarity c\<bar> \<le> 1 \<and> (\<exists>e. embedding_map (tabs w) (t, vc_memory c) = Some e \<and>
          vc_similarity c = cosine_similarity q e)) \<and>
    (\<forall>m e. embedding_map (tabs w) (t, m) = Some e \<longrightarrow> m \<notin> vc_memory ` set cs \<longrightarrow>
          (\<forall>c \<in> set cs. cosine_similarity q e \<le> vc_similarity c))"
proof -
  let ?c = "candidates t q (db_embeddings (tabs w))"
  from sv_search_eq [OF run] have w': "tabs w' = tabs w"
    and cs: "cs = take (nat (if k \<le> 0 then 10 else k)) (sort_key (\<lambda>c. - vc_similarity c) ?c)"
    by (auto simp: limit_rows_def)
  note contract = sv_search_contract [OF ok run]
  have "int (length cs) \<le> (if k \<le> 0 then 10 else k)" by (auto simp: cs)
  moreover have "\<forall>c \<in> set cs. \<bar>vc_similarity c\<bar> \<le> 1" using contract cosine_bounds by metis
  moreover have "\<forall>m e. embedding_map (tabs w) (t, m) = Some e \<longrightarrow> m \<notin> vc_memory ` set cs \<longrightarrow>
          (\<forall>c \<in> set cs. cosine_similarity q e \<le> vc_similarity c)"
  proof (intro allI impI ballI)
    fix m e c
    assume "embedding_map (tabs w) (t, m) = Some e" and out: "m \<notin> vc_memory ` set cs" and c: "c \<in> set cs"
    then obtain r where r: "r \<in> set (db_embeddings (tabs w))" "embedding_key r = (t, m)" "er_embedding r = e"
      by (auto simp: embedding_map_def dest!: map_of_SomeD)
    let ?x = "\<lparr>vc_memory = m, vc_similarity = cosine_similarity q e\<rparr>"
    have "?x \<in> set ?c" using r ok by (auto simp: candidates_def embedding_key_def embeddings_ok_def image_iff)
    moreover have "?x \<notin> set cs" using out by (metis image_eqI vector_candidate.select_convs(1))
    ultimately show "cosine_similarity q e \<le> vc_similarity c"
      using sort_key_min [of c _ "\<lambda>c. - vc_similarity c" ?c ?x] c unfolding cs by fastforce
  qed
  ultimately show ?thesis using contract by (intro conjI) blast+
qed

section \<open>Witnesses\<close>

definition sample_embeddings :: database where
  "sample_embeddings = sample_store\<lparr>db_embeddings :=
     [\<lparr>er_tenant = ''t1'', er_memory = ''m1'', er_embedding = [1], er_updated_at = Stamp 0\<rparr>]\<rparr>"

lemma sample_embeddings_ok: "embeddings_ok (tabs (calm_world sample_embeddings))"
  by (simp add: embeddings_ok_def sample_embeddings_def calm_world_def)

lemma sample_vector_search_run:
  "sv_search ''t1'' [- 1] 5 (calm_world sample_embeddings) =
     (Inr [\<lparr>vc_memory = ''m1'', vc_similarity = - 1\<rparr>], tick (calm_world sample_embeddings))"
  by (simp add: sv_search_def trim_eval query_def exec_def calm_world_def sample_embeddings_def
      candidates_def cosine_similarity_def limit_rows_def)

lemma vector_search_best_witness:
  "distinct (map vc_memory [\<lparr>vc_memory = ''m1'', vc_similarity = - 1 :: real\<rparr>]) \<and>
   (\<exists>e. embedding_map sample_embeddings (''t1'', ''m1'') = Some e \<and> cosine_similarity [- 1] e = - 1)"
  using vector_search_best [OF sample_embeddings_ok sample_vector_search_run] by (simp add: calm_world_def) metis

definition sample_upserts :: "vector_upsert list" where
  "sample_upserts = [\<lparr>vu_tenant = ''t1'', vu_memory = ''m1'', vu_embedding = [2, 0]\<rparr>,
     \<lparr>vu_tenant = ''t1'', vu_memory = ''m1'', vu_embedding = [3, 4]\<rparr>]"

lemma sample_batch_run: "fst (sv_upsert_batch sample_upserts (calm_world sample_embeddings)) = Inr ()"
  by (simp add: sv_upsert_batch_def sample_upserts_def trim_eval in_tx_def in_tx_if_def bind_act_def return_act_def
      now_act_def exec_def fail_act_def upsert_embedding_stmt_def embedding_key_def
      calm_world_def sample_embeddings_def tick_def)

lemma vector_batch_functional_witness:
  "embedding_map (tabs (snd (sv_upsert_batch sample_upserts (calm_world sample_embeddings)))) (''t1'', ''m1'') =
     Some [3, 4]"
  using vector_batch_functional [OF sample_embeddings_ok prod.collapse [symmetric], of sample_upserts]
  by (simp add: sample_batch_run) (simp add: sample_upserts_def embed_put_def)

end
