(* ===== verification/FactText.thy ===== *)
theory FactText
  imports Domain Sha256
begin

text \<open>
  Parsed facts of \<open>core/memory\<close> and their normal forms: the relations of entity facts and the families
  they belong to (\<open>entity_facts.go\<close>), tags, kinds and sources (\<open>store.go\<close>), and the identities that make
  storing a fact or a raw turn idempotent (\<open>parser_identity.go\<close>).
\<close>

record parsed_fact =
  pf_content :: string
  pf_query_view :: string
  pf_kind :: memory_kind
  pf_tags :: "string list"
  pf_entity :: string
  pf_relation :: string
  pf_value :: string
  pf_answer_metadata :: answer_metadata

section \<open>Texts\<close>

definition normalize_fact_content :: "string \<Rightarrow> string" where
  "normalize_fact_content s = collapse s"

definition resolve_kind :: "memory_kind \<Rightarrow> memory_kind" where
  "resolve_kind k = (if k \<in> {KindObservation, KindSummary, KindEvent} then k else KindRawTurn)"

definition append_derived_source :: "string \<Rightarrow> string \<Rightarrow> string" where
  "append_derived_source base suffix =
     (let b = trim_space base; s = trim_space suffix in
      if s = [] then b else if b = [] then s else b @ '':'' @ s)"

text \<open>\<open>mergeTags\<close>: the base tags as they are, then the extra ones, lower-cased and trimmed, that no tag
  before them equals; sorted.\<close>

fun merge_extra :: "string list \<Rightarrow> string list \<Rightarrow> string list \<Rightarrow> string list" where
  "merge_extra seen out [] = out"
| "merge_extra seen out (t # ts) =
     (let g = trim_space (to_lower t) in
      if g = [] \<or> g \<in> set seen then merge_extra seen out ts
      else merge_extra (g # seen) (out @ [g]) ts)"

definition merge_tags :: "string list \<Rightarrow> string list \<Rightarrow> string list" where
  "merge_tags base extra =
     sort (merge_extra (filter (\<lambda>g. g \<noteq> []) (map (\<lambda>t. trim_space (to_lower t)) base)) base extra)"

section \<open>Relations of entity facts\<close>

definition canonical_relations :: "string list" where
  "canonical_relations = [''activity'', ''attribute'', ''belief'', ''book'', ''event'', ''goal'', ''identity'',
     ''place'', ''plan'', ''preference'', ''relationship'', ''relationship status'', ''role'', ''trait'', ''value'']"

definition relation_families :: "(string \<times> string list) list" where
  "relation_families =
    [(''activity'', [''activity'', ''preference'']),
     (''attribute'', [''attribute'', ''trait'', ''value'', ''belief'']),
     (''belief'', [''belief'', ''value'', ''trait'', ''attribute'']),
     (''book'', [''book'']),
     (''event'', [''event'']),
     (''goal'', [''goal'', ''plan'']),
     (''identity'', [''identity'', ''role'', ''trait'', ''attribute'']),
     (''place'', [''place'']),
     (''plan'', [''plan'', ''goal'']),
     (''preference'', [''preference'', ''activity'']),
     (''relationship'', [''relationship'', ''relationship status'']),
     (''relationship status'', [''relationship status'', ''relationship'']),
     (''role'', [''role'', ''identity'']),
     (''trait'', [''trait'', ''attribute'', ''belief'', ''value'']),
     (''value'', [''value'', ''belief'', ''trait'', ''attribute''])]"

definition relation_has_any :: "string \<Rightarrow> string list \<Rightarrow> bool" where
  "relation_has_any relation needles \<longleftrightarrow> relation \<noteq> [] \<and>
     (\<exists>n \<in> set needles. let m = trim_space (to_lower n) in m \<noteq> [] \<and> str_contains relation m)"

text \<open>The cases of the switch in their order: the first one that has a needle in the relation decides.\<close>

definition relation_cases :: "(string \<times> string list) list" where
  "relation_cases =
    [(''event'', [''event'', ''attend'', ''attendance'', ''joined'', ''join'', ''participat'', ''met '',
        ''encounter'', ''happen'', ''occur'', ''celebrat'', ''conference'', ''meetup'',
        ''event date'', ''event type'', ''time'', ''created'', ''received'']),
     (''book'', [''book'', ''read'', ''novel'', ''author'', ''story'']),
     (''place'', [''place'', ''location'', ''city'', ''country'', ''moved'', ''move'', ''lives'',
        ''live'', ''reside'', ''visited'', ''visit'', ''travel'']),
     (''relationship status'', [''relationship status'', ''marital'', ''single'', ''married'', ''dating'',
        ''divorc'', ''engaged'', ''widowed'', ''separated'']),
     (''relationship'', [''relationship'', ''family'', ''friend'', ''partner'', ''spouse'', ''wife'',
        ''husband'', ''boyfriend'', ''girlfriend'', ''mentor'', ''child'', ''parent'']),
     (''role'', [''role'', ''job'', ''profession'', ''career'', ''occupation'', ''works as'']),
     (''plan'', [''plan'', ''goal'', ''intention'', ''intent'', ''purpose'', ''aim'', ''hopes'',
        ''hope'', ''will '', ''going to'']),
     (''goal'', [''goal'', ''dream'', ''aspiration'', ''milestone'']),
     (''preference'', [''preference'', ''favorite'', ''likes'', ''like '', ''prefers'', ''prefer'',
        ''loves'', ''love'', ''enjoys'', ''enjoy'']),
     (''activity'', [''activity'', ''hobby'', ''interest'', ''prefer'', ''preference'', ''desire'',
        ''passion'', ''motivation'', ''coping'', ''practice'', ''play'', ''enjoy'',
        ''like '', ''likes'', ''love'', ''action'', ''appreciat'']),
     (''belief'', [''belief'', ''believes'', ''thinks'', ''opinion'', ''stance'', ''worldview'']),
     (''value'', [''value'', ''values'', ''principle'', ''priority'', ''ethic'']),
     (''trait'', [''trait'', ''personality'', ''character'', ''tendency'', ''temperament'']),
     (''identity'', [''identity'', ''name'', ''belief'', ''opinion'', ''value'', ''emotion'', ''feeling'',
        ''feels'', ''state'', ''characteristic'', ''quality'', ''attribute'', ''description'',
        ''assessment'', ''evaluation'', ''sentiment'', ''perception'', ''support'',
        ''appearance'', ''gender'', ''orientation''])]"

fun first_case :: "string \<Rightarrow> (string \<times> string list) list \<Rightarrow> string" where
  "first_case relation [] = ''attribute''"
| "first_case relation ((name, needles) # cs) =
     (if relation_has_any relation needles then name else first_case relation cs)"

definition dash_to_blank :: "char \<Rightarrow> char" where
  "dash_to_blank c = (if c = CHR ''_'' \<or> c = CHR ''-'' then CHR '' '' else c)"

definition normalize_entity_fact_relation :: "string \<Rightarrow> string" where
  "normalize_entity_fact_relation value =
     (let relation = join_with '' '' (Prelude.fields (map dash_to_blank (trim_space (to_lower value)))) in
      if relation = [] then []
      else if relation \<in> set canonical_relations then relation
      else first_case relation relation_cases)"

definition normalize_entity_fact_entity :: "string \<Rightarrow> string" where
  "normalize_entity_fact_entity v = to_lower (collapse v)"

definition normalize_entity_fact_value :: "string \<Rightarrow> string" where
  "normalize_entity_fact_value v = collapse v"

definition normalize_entity_fact_raw_relation :: "string \<Rightarrow> string" where
  "normalize_entity_fact_raw_relation v = to_lower (collapse v)"

fun add_relation :: "string \<Rightarrow> string list \<Rightarrow> string list" where
  "add_relation r out =
     (let relation = normalize_entity_fact_relation r in
      if relation = [] \<or> relation \<in> set out then out else out @ [relation])"

definition expand_one :: "string \<Rightarrow> string list \<Rightarrow> string list" where
  "expand_one relation out =
     (let normalized = normalize_entity_fact_relation relation in
      if normalized = [] then out
      else let out1 = add_relation normalized out in
           case map_of relation_families normalized of
             None \<Rightarrow> out1
           | Some family \<Rightarrow> fold add_relation family out1)"

definition expand_entity_fact_relations :: "string list \<Rightarrow> string list" where
  "expand_entity_fact_relations relations = fold expand_one relations []"

definition parsed_fact_has_entity_triple :: "parsed_fact \<Rightarrow> bool" where
  "parsed_fact_has_entity_triple f \<longleftrightarrow>
     trim_space (pf_entity f) \<noteq> [] \<and> trim_space (pf_relation f) \<noteq> [] \<and> trim_space (pf_value f) \<noteq> []"

definition normalized_relation_tuple_key :: "parsed_fact \<Rightarrow> string option" where
  "normalized_relation_tuple_key f =
     (let entity = normalize_entity_fact_entity (pf_entity f);
          relation = normalize_entity_fact_relation (pf_relation f);
          value = normalize_entity_fact_value (pf_value f) in
      if entity = [] \<or> relation = [] \<or> value = [] then None
      else Some (entity @ ''|'' @ relation @ ''|'' @ value))"

definition entity_fact_uses_singleton_invalidation :: "string \<Rightarrow> bool" where
  "entity_fact_uses_singleton_invalidation relation \<longleftrightarrow>
     normalize_entity_fact_relation relation \<in> {''identity'', ''role'', ''relationship status'', ''place''}"

section \<open>Identities\<close>

record fact_identity =
  fi_canonical_key :: string
  fi_source_turn_hash :: string
  fi_source_fact_index :: int
  fi_extractor :: string
  fi_extractor_version :: string

text \<open>What \<open>hashIdentityParts\<close> writes into the hash, and the hash.\<close>

definition identity_bytes :: "string list \<Rightarrow> string" where
  "identity_bytes parts = concat (map (\<lambda>p. trim_space p @ [CHR 0x00]) parts)"

definition hash_identity_parts :: "string list \<Rightarrow> string" where
  "hash_identity_parts parts = hex_encode (take 16 (sha256 (bytes_of_string (identity_bytes parts))))"

text \<open>\<open>strconv.Itoa\<close>.\<close>

function digits_text :: "nat \<Rightarrow> string" where
  "digits_text n = (if n < 10 then [char_of (48 + n)] else digits_text (n div 10) @ [char_of (48 + n mod 10)])"
  by pat_completeness auto
termination by (relation "measure id") auto

declare digits_text.simps [simp del]

definition itoa :: "int \<Rightarrow> string" where
  "itoa i = (if i < 0 then ''-'' @ digits_text (nat (- i)) else digits_text (nat i))"

definition build_source_turn_hash :: "string \<Rightarrow> string" where
  "build_source_turn_hash content = hash_identity_parts [''turn'', normalize_fact_content content]"

definition build_raw_turn_identity :: "string \<Rightarrow> fact_identity" where
  "build_raw_turn_identity content =
     (let h = build_source_turn_hash content in
      \<lparr>fi_canonical_key = hash_identity_parts [''raw_turn'', h], fi_source_turn_hash = h,
       fi_source_fact_index = - 1, fi_extractor = ''raw_turn'', fi_extractor_version = ''v1''\<rparr>)"

definition normalize_extractor_name :: "string \<Rightarrow> string" where
  "normalize_extractor_name v = (let s = trim_space (to_lower v) in if s = [] then ''parser'' else s)"

definition normalize_extractor_version :: "string \<Rightarrow> string" where
  "normalize_extractor_version v = (let s = trim_space v in if s = [] then ''v1'' else s)"

definition fact_identity_parts :: "string \<Rightarrow> int \<Rightarrow> parsed_fact \<Rightarrow> string \<Rightarrow> string \<Rightarrow> string list" where
  "fact_identity_parts source index f extractor version =
     [''parsed_fact'', build_source_turn_hash source, itoa index, kind_text (resolve_kind (pf_kind f)),
      normalize_fact_content (pf_content f), normalize_entity_fact_entity (pf_entity f),
      normalize_entity_fact_relation (pf_relation f), normalize_entity_fact_value (pf_value f),
      normalize_extractor_name extractor, normalize_extractor_version version]"

definition build_parsed_fact_identity :: "string \<Rightarrow> int \<Rightarrow> parsed_fact \<Rightarrow> string \<Rightarrow> string \<Rightarrow> fact_identity" where
  "build_parsed_fact_identity source index f extractor version =
     \<lparr>fi_canonical_key = hash_identity_parts (fact_identity_parts source index f extractor version),
      fi_source_turn_hash = build_source_turn_hash source, fi_source_fact_index = index,
      fi_extractor = normalize_extractor_name extractor,
      fi_extractor_version = normalize_extractor_version version\<rparr>"

definition apply_identity_to_memory :: "memory \<Rightarrow> fact_identity \<Rightarrow> memory" where
  "apply_identity_to_memory m i =
     m\<lparr>m_canonical_key := fi_canonical_key i, m_source_turn_hash := fi_source_turn_hash i,
       m_source_fact_index := fi_source_fact_index i, m_extractor := fi_extractor i,
       m_extractor_version := fi_extractor_version i\<rparr>"

definition apply_implicit_memory_identity :: "memory \<Rightarrow> memory" where
  "apply_implicit_memory_identity m =
     (if m_kind m \<noteq> KindRawTurn then m
      else if trim_space (m_canonical_key m) \<noteq> [] then
        (if m_source_fact_index m = 0 then m\<lparr>m_source_fact_index := - 1\<rparr> else m)
      else apply_identity_to_memory m (build_raw_turn_identity (m_content m)))"

definition embedding_lookup_text_for_memory :: "memory \<Rightarrow> string" where
  "embedding_lookup_text_for_memory m =
     (let content = normalize_fact_content (m_content m); view = normalize_fact_content (m_query_view m) in
      if view = [] then content else content @ [CHR 0x0A] @ view)"

section \<open>Lemmas\<close>

lemma first_case_canonical: "\<forall>(n, _) \<in> set cs. n \<in> A \<Longrightarrow> ''attribute'' \<in> A \<Longrightarrow> first_case r cs \<in> A"
  by (induction cs) auto

lemma relation_cases_canonical: "\<forall>(n, _) \<in> set relation_cases. n \<in> set canonical_relations"
  by (simp add: relation_cases_def canonical_relations_def)

lemma relation_canonical:
  "normalize_entity_fact_relation v = [] \<or> normalize_entity_fact_relation v \<in> set canonical_relations"
  using first_case_canonical [OF relation_cases_canonical, of "join_with '' '' (Prelude.fields (map dash_to_blank (trim_space (to_lower v))))"]
  by (simp add: normalize_entity_fact_relation_def Let_def) (simp add: canonical_relations_def)

text \<open>A canonical relation is its own normal form.\<close>

lemmas lower_eval = to_lower_def lower_char_def trim_space_def trim_left_def trim_right_def is_space_def

definition plain_char :: "char \<Rightarrow> bool" where
  "plain_char c \<longleftrightarrow> (let n = (of_char c :: nat) in n = 32 \<or> 97 \<le> n \<and> n \<le> 122)"

lemma plain_char_fixed: "plain_char c \<Longrightarrow> lower_char c = c \<and> dash_to_blank c = c"
  by (auto simp: plain_char_def lower_char_def dash_to_blank_def Let_def)

lemma plain_text_fixed: "\<forall>c \<in> set s. plain_char c \<Longrightarrow> to_lower s = s \<and> map dash_to_blank s = s"
  by (auto simp: to_lower_def plain_char_fixed intro!: map_idI)

definition canonical_words :: "string list list" where
  "canonical_words = [[''activity''], [''attribute''], [''belief''], [''book''], [''event''], [''goal''], [''identity''],
     [''place''], [''plan''], [''preference''], [''relationship''], [''relationship'', ''status''], [''role''],
     [''trait''], [''value'']]"

lemma canonical_joined: "canonical_relations = map (join_with '' '') canonical_words"
  by (simp add: canonical_relations_def canonical_words_def)

lemma canonical_words_plain:
  "list_all (list_all (\<lambda>w. w \<noteq> [] \<and> list_all (\<lambda>c. plain_char c \<and> \<not> is_space c) w)) canonical_words"
  by (simp add: canonical_words_def plain_char_def is_space_def)

lemma join_chars: "c \<in> set (join_with sep ws) \<Longrightarrow> c \<in> set sep \<or> (\<exists>w \<in> set ws. c \<in> set w)"
  by (induction sep ws rule: join_with.induct) auto

lemma canonical_fixed:
  assumes "r \<in> set canonical_relations"
  shows "join_with '' '' (Prelude.fields (map dash_to_blank (trim_space (to_lower r)))) = r"
proof -
  obtain ws where r: "r = join_with '' '' ws" and ws: "ws \<in> set canonical_words"
    using assms by (auto simp: canonical_joined)
  have w: "word w" "\<forall>c \<in> set w. plain_char c" if "w \<in> set ws" for w
    using canonical_words_plain ws that by (auto simp: list_all_iff word_def)
  have blank: "plain_char (CHR '' '')" by (simp add: plain_char_def)
  have "\<forall>c \<in> set r. plain_char c"
  proof
    fix c assume "c \<in> set r"
    then have "c \<in> set '' '' \<or> (\<exists>w \<in> set ws. c \<in> set w)" unfolding r by (rule join_chars)
    then show "plain_char c" using w(2) blank by auto
  qed
  then have fixed: "to_lower r = r" "map dash_to_blank r = r" using plain_text_fixed by blast+
  have "trim_space r = r" unfolding r by (rule trim_space_join) (rule w(1))
  moreover have "join_with '' '' (Prelude.fields r) = r" unfolding r by (simp add: fields_join w(1))
  ultimately show ?thesis by (simp only: fixed)
qed

lemma normalize_relation_idem [simp]:
  "normalize_entity_fact_relation (normalize_entity_fact_relation v) = normalize_entity_fact_relation v"
proof -
  have "normalize_entity_fact_relation r = r" if "r \<in> set canonical_relations" for r
  proof -
    have "r \<noteq> []" using that by (auto simp: canonical_relations_def)
    then show ?thesis
      unfolding normalize_entity_fact_relation_def canonical_fixed [OF that] Let_def using that by simp
  qed
  moreover have "normalize_entity_fact_relation [] = []"
    by (simp add: normalize_entity_fact_relation_def lower_eval)
  ultimately show ?thesis using relation_canonical [of v] by metis
qed

lemma blank_relation_iff:
  "normalize_entity_fact_relation v = [] \<longleftrightarrow>
   Prelude.fields (map dash_to_blank (trim_space (to_lower v))) = []"
proof -
  let ?r = "join_with '' '' (Prelude.fields (map dash_to_blank (trim_space (to_lower v))))"
  have ne: "[] \<notin> set canonical_relations" and att: "''attribute'' \<in> set canonical_relations"
    by (simp_all add: canonical_relations_def)
  have "first_case ?r relation_cases \<in> set canonical_relations"
    by (rule first_case_canonical [OF relation_cases_canonical att])
  with ne have "first_case ?r relation_cases \<noteq> []" by metis
  moreover have "?r = [] \<longleftrightarrow> Prelude.fields (map dash_to_blank (trim_space (to_lower v))) = []"
    by (rule join_eq_Nil) (auto dest: fields_words simp: word_def)
  ultimately show ?thesis using ne unfolding normalize_entity_fact_relation_def Let_def
    by (simp split: if_splits)
qed

text \<open>The strings hashed for an identity.\<close>

definition nul_free :: "string \<Rightarrow> bool" where
  "nul_free s \<longleftrightarrow> CHR 0x00 \<notin> set s"

lemma set_trim_space: "set (trim_space s) \<subseteq> set s"
  unfolding trim_space_def trim_right_def trim_left_def by (auto dest!: set_dropWhileD)

lemma identity_bytes_Cons: "identity_bytes (p # ps) = trim_space p @ CHR 0x00 # identity_bytes ps"
  by (simp add: identity_bytes_def)

lemma split_at_first: "x \<notin> set as \<Longrightarrow> x \<notin> set bs \<Longrightarrow> as @ x # cs = bs @ x # ds \<Longrightarrow> as = bs \<and> cs = ds"
proof (induction as arbitrary: bs)
  case Nil
  then show ?case by (cases bs) auto
next
  case (Cons a as)
  then show ?case by (cases bs) auto
qed

lemma identity_bytes_inj:
  assumes "\<forall>p \<in> set ps. nul_free p" "\<forall>q \<in> set qs. nul_free q" "identity_bytes ps = identity_bytes qs"
  shows "map trim_space ps = map trim_space qs"
  using assms
proof (induction ps arbitrary: qs)
  case Nil
  then show ?case by (cases qs) (simp_all add: identity_bytes_def)
next
  case (Cons p ps)
  from Cons.prems(3) obtain q qs' where qs: "qs = q # qs'"
    by (cases qs) (simp_all add: identity_bytes_def)
  have "CHR 0x00 \<notin> set (trim_space p)" "CHR 0x00 \<notin> set (trim_space q)"
    using Cons.prems(1,2) set_trim_space unfolding qs by (auto simp: nul_free_def)
  moreover have "trim_space p @ CHR 0x00 # identity_bytes ps = trim_space q @ CHR 0x00 # identity_bytes qs'"
    using Cons.prems(3) by (simp only: qs identity_bytes_Cons)
  ultimately have "trim_space p = trim_space q" "identity_bytes ps = identity_bytes qs'"
    using split_at_first by metis+
  with Cons.IH [of qs'] Cons.prems(1,2) show ?case by (simp add: qs)
qed

text \<open>A digest has 32 bytes.\<close>

lemma length_hash_round [simp]: "length (hash_round kw s) = length s"
  by (auto simp: hash_round_def Let_def split: list.splits)

lemma length_hash_rounds [simp]: "length (fold hash_round kws s) = length s"
  by (induction kws arbitrary: s) simp_all

lemma length_compress [simp]: "length (compress b s) = length s"
  by (simp add: compress_def)

lemma length_hash_blocks [simp]: "length (hash_blocks ws s) = length s"
  by (induction ws s rule: hash_blocks.induct) simp_all

lemma length_sha256 [simp]: "length (sha256 bs) = 32"
proof -
  have l: "length (hash_blocks ws initial_hash) = 8" for ws by simp
  have "sum_list (map (length \<circ> (\<lambda>x. bytes_be 4 (unat x))) xs) = 4 * length xs" for xs :: "w32 list"
    by (induction xs) (simp_all add: bytes_be_def)
  from this [of "hash_blocks (words_of_bytes (pad_message bs)) initial_hash"] show ?thesis
    unfolding sha256_def length_concat map_map l by simp
qed

lemma length_hex_encode [simp]: "length (hex_encode bs) = 2 * length bs"
  by (induction bs) (simp_all add: hex_encode_def)

lemma hash_identity_word: "word (hash_identity_parts ps) \<and> length (hash_identity_parts ps) = 32"
proof -
  have l: "length (hash_identity_parts ps) = 32" by (simp add: hash_identity_parts_def)
  moreover have "\<forall>c \<in> set (hash_identity_parts ps). \<not> is_space c"
    by (auto simp: hash_identity_parts_def dest: hex_encode_not_space)
  ultimately show ?thesis by (auto simp: word_def)
qed

text \<open>The members of a family, and what expanding a list of relations yields.\<close>

definition family_of :: "string \<Rightarrow> string set" where
  "family_of r = (case map_of relation_families r of None \<Rightarrow> {} | Some f \<Rightarrow> set f)"

lemma add_relation_spec:
  "set (add_relation r out) = set out \<union> ({normalize_entity_fact_relation r} - {[]})"
  "distinct out \<Longrightarrow> distinct (add_relation r out)"
  by (auto simp: Let_def)

lemma fold_add_relation:
  "set (fold add_relation rs out) = set out \<union> (normalize_entity_fact_relation ` set rs - {[]})"
  "distinct out \<Longrightarrow> distinct (fold add_relation rs out)"
proof (induction rs arbitrary: out)
  case (Cons r rs)
  { case 1 show ?case using Cons.IH(1) [of "add_relation r out"] add_relation_spec(1) [of r out] by auto }
  { case 2 then show ?case using Cons.IH(2) [of "add_relation r out"] add_relation_spec(2) by simp }
qed simp_all

lemma families_canonical:
  "map fst relation_families = canonical_relations"
  "list_all (\<lambda>(r, f). r \<in> set f \<and> set f \<subseteq> set canonical_relations) relation_families"
  by (simp_all add: relation_families_def canonical_relations_def)

lemma family_of_canonical:
  assumes "r \<in> set canonical_relations"
  shows "r \<in> family_of r" "family_of r \<subseteq> set canonical_relations"
    "\<exists>f. map_of relation_families r = Some f \<and> set f = family_of r"
proof -
  from assms have "r \<in> fst ` set relation_families" by (metis families_canonical(1) image_set)
  then obtain f where f: "map_of relation_families r = Some f" by (metis map_of_eq_None_iff not_Some_eq)
  then have "(r, f) \<in> set relation_families" by (rule map_of_SomeD)
  with families_canonical(2) have "r \<in> set f" "set f \<subseteq> set canonical_relations" by (auto simp: list_all_iff)
  with f show "r \<in> family_of r" "family_of r \<subseteq> set canonical_relations"
    "\<exists>f. map_of relation_families r = Some f \<and> set f = family_of r" by (auto simp: family_of_def)
qed

lemma canonical_normalized:
  assumes "r \<in> set canonical_relations" shows "normalize_entity_fact_relation r = r"
proof -
  have "r \<noteq> []" using assms by (auto simp: canonical_relations_def)
  then show ?thesis
    unfolding normalize_entity_fact_relation_def canonical_fixed [OF assms] Let_def using assms by simp
qed

lemma canonical_nonempty: "[] \<notin> set canonical_relations"
  by (simp add: canonical_relations_def)

lemma family_normalized:
  assumes "r \<in> set canonical_relations"
  shows "normalize_entity_fact_relation ` family_of r - {[]} = family_of r"
proof -
  have sub: "family_of r \<subseteq> set canonical_relations" by (rule family_of_canonical(2) [OF assms])
  then have "normalize_entity_fact_relation ` family_of r = (\<lambda>x. x) ` family_of r"
    by (intro image_cong refl canonical_normalized) blast
  moreover have "[] \<notin> family_of r" using sub canonical_nonempty by blast
  ultimately show ?thesis by simp
qed

lemma expand_step:
  "set (expand_one r out) = set out \<union> family_of (normalize_entity_fact_relation r) \<and>
   (distinct out \<longrightarrow> distinct (expand_one r out))"
proof -
  let ?n = "normalize_entity_fact_relation r"
  have "[] \<notin> fst ` set relation_families" by (simp add: relation_families_def)
  then have nil: "family_of [] = {}" by (simp add: family_of_def map_of_eq_None_iff [THEN iffD2])
  consider "?n = []" | "?n \<in> set canonical_relations" using relation_canonical by blast
  then show ?thesis
  proof cases
    case 1
    then show ?thesis by (simp add: expand_one_def nil)
  next
    case 2
    then obtain f where f: "map_of relation_families ?n = Some f" "set f = family_of ?n"
      using family_of_canonical(3) by blast
    have "?n \<noteq> []" using 2 canonical_nonempty by metis
    then have F: "expand_one r out = fold add_relation f (add_relation ?n out)"
      using f by (simp add: expand_one_def del: add_relation.simps)
    have "set (expand_one r out) = set out \<union> ({?n} - {[]}) \<union> family_of ?n"
      unfolding F fold_add_relation(1) add_relation_spec(1) f(2) family_normalized [OF 2]
      by (simp only: normalize_relation_idem)
    moreover have "?n \<in> family_of ?n" by (rule family_of_canonical(1) [OF 2])
    ultimately show ?thesis unfolding F using fold_add_relation(2) add_relation_spec(2) by blast
  qed
qed

lemma expand_spec:
  "set (expand_entity_fact_relations rs) = \<Union> (family_of ` normalize_entity_fact_relation ` set rs) \<and>
   distinct (expand_entity_fact_relations rs)"
proof -
  have "set (fold expand_one rs out) = set out \<union> \<Union> (family_of ` normalize_entity_fact_relation ` set rs) \<and>
      (distinct out \<longrightarrow> distinct (fold expand_one rs out))" for out
  proof (induction rs arbitrary: out)
    case (Cons r rs)
    show ?case using Cons.IH [of "expand_one r out"] expand_step [of r out] by auto
  qed simp
  from this [of "[]"] show ?thesis unfolding expand_entity_fact_relations_def by simp
qed

section \<open>Properties\<close>

text \<open>Normalising the white space and case of a relation first makes no difference.\<close>

lemma normal_relation_key: "normalize_entity_fact_relation (to_lower (collapse r)) = normalize_entity_fact_relation r"
proof -
  let ?F = "\<lambda>w. Prelude.fields (map dash_to_blank w)"
  have blank: "is_space c \<Longrightarrow> is_space (dash_to_blank c)" for c by (simp add: dash_to_blank_def)
  have "Prelude.fields (trim_space (to_lower (collapse r))) = map (map lower_char) (Prelude.fields (collapse r))"
    by (simp add: str_norm) (simp add: to_lower_def fields_to_lower)
  also have "Prelude.fields (collapse r) = Prelude.fields (trim_space r)"
    unfolding collapse_def by (rule fields_join) (rule fields_words)
  also have "map (map lower_char) (Prelude.fields (trim_space r)) = Prelude.fields (trim_space (to_lower r))"
    by (simp only: trim_space_to_lower) (simp add: to_lower_def fields_to_lower)
  finally have "concat (map ?F (Prelude.fields (trim_space (to_lower (collapse r))))) =
      concat (map ?F (Prelude.fields (trim_space (to_lower r))))" by (rule arg_cong)
  then have "?F (trim_space (to_lower (collapse r))) = ?F (trim_space (to_lower r))"
    using fields_map_blank [of dash_to_blank "trim_space (to_lower (collapse r))"]
      fields_map_blank [of dash_to_blank "trim_space (to_lower r)"] blank by metis
  then show ?thesis by (simp add: normalize_entity_fact_relation_def)
qed
text \<open>Relations have a normal form: a relation text becomes empty (exactly when it has no word) or one
  of the fifteen canonical relations, and normalising again changes nothing. Expanding a list of
  relations yields, each once, exactly the families of their normal forms, and every canonical relation
  belongs to its own family.\<close>

theorem relation_normal_form:
  "(normalize_entity_fact_relation v \<in> insert [] (set canonical_relations)) \<and>
   (normalize_entity_fact_relation v = [] \<longleftrightarrow> Prelude.fields (map dash_to_blank (trim_space (to_lower v))) = []) \<and>
   normalize_entity_fact_relation (normalize_entity_fact_relation v) = normalize_entity_fact_relation v \<and>
   distinct (expand_entity_fact_relations rs) \<and>
   set (expand_entity_fact_relations rs) = \<Union> (family_of ` normalize_entity_fact_relation ` set rs) \<and>
   {r. r \<in> set canonical_relations \<and> r \<notin> family_of r} = {}"
  using relation_canonical blank_relation_iff expand_spec family_of_canonical(1) by auto

text \<open>A relation called \<open>sentiment\<close> is filed as an event, because the needle \<open>time\<close> of the first case
  occurs in it; the case for identities that lists it is never reached.\<close>

lemma sentiment_is_event: "normalize_entity_fact_relation ''sentiment'' = ''event''"
proof -
  have "word ''sentiment''" by (simp add: word_def is_space_def)
  then have "Prelude.fields ''sentiment'' = [''sentiment'']" using fields_join [of "[''sentiment'']"] by simp
  then show ?thesis
    by (simp add: normalize_entity_fact_relation_def lower_eval dash_to_blank_def canonical_relations_def
        relation_cases_def relation_has_any_def has_prefix_def)
qed

text \<open>The bytes hashed for an identity are unambiguous: for parts without NUL bytes they determine the
  parts up to surrounding white space, so two different facts (in turn, index, kind, content, entity,
  relation, value, extractor or version) can share a canonical key only through a collision of the
  truncated SHA-256.\<close>

theorem identity_unambiguous:
  assumes "\<forall>p \<in> set ps. nul_free p" and "\<forall>q \<in> set qs. nul_free q"
  shows "identity_bytes ps = identity_bytes qs \<longleftrightarrow> map trim_space ps = map trim_space qs"
proof
  assume "map trim_space ps = map trim_space qs"
  then have "map (\<lambda>p. p @ [CHR 0x00]) (map trim_space ps) = map (\<lambda>p. p @ [CHR 0x00]) (map trim_space qs)"
    by (rule arg_cong)
  then show "identity_bytes ps = identity_bytes qs" by (simp add: identity_bytes_def comp_def)
qed (rule identity_bytes_inj [OF assms])

text \<open>Raw turns are identified by their content: storing prepares a raw turn without a key with the key
  of its white-space normalised content (32 hexadecimal digits), index -1 and the raw-turn extractor,
  so turns that differ only in white space get the same key; preparing again, or preparing a memory of
  another kind, changes nothing.\<close>

theorem implicit_identity_functional:
  "apply_implicit_memory_identity (apply_implicit_memory_identity m) = apply_implicit_memory_identity m \<and>
   (m_kind m \<noteq> KindRawTurn \<longrightarrow> apply_implicit_memory_identity m = m) \<and>
   (m_kind m = KindRawTurn \<and> trim_space (m_canonical_key m) = [] \<longrightarrow>
      m_canonical_key (apply_implicit_memory_identity m) =
        hash_identity_parts [''raw_turn'', hash_identity_parts [''turn'', collapse (m_content m)]] \<and>
      length (m_canonical_key (apply_implicit_memory_identity m)) = 32 \<and>
      m_source_fact_index (apply_implicit_memory_identity m) = - 1)"
proof -
  have "trim_space (hash_identity_parts ps) \<noteq> []" for ps
    using hash_identity_word [of ps] trim_space_word by (auto simp: word_def)
  then show ?thesis
    using hash_identity_word
    by (auto simp: apply_implicit_memory_identity_def apply_identity_to_memory_def build_raw_turn_identity_def
        build_source_turn_hash_def normalize_fact_content_def Let_def)
qed

section \<open>Witnesses\<close>

lemma identity_unambiguous_witness:
  "identity_bytes ['' turn'', ''a''] = identity_bytes [''turn '', ''a''] \<and>
   identity_bytes [''turn'', ''a''] \<noteq> identity_bytes [''tur'', ''na'']"
  using identity_unambiguous [of "['' turn'', ''a'']" "[''turn '', ''a'']"]
    identity_unambiguous [of "[''turn'', ''a'']" "[''tur'', ''na'']"]
  by (simp add: nul_free_def lower_eval)

lemma implicit_identity_functional_witness:
  "length (m_canonical_key (apply_implicit_memory_identity (zero_memory\<lparr>m_kind := KindRawTurn, m_content := ''hi''\<rparr>))) = 32"
proof -
  let ?m = "zero_memory\<lparr>m_kind := KindRawTurn, m_content := ''hi''\<rparr>"
  have "m_kind ?m = KindRawTurn \<and> trim_space (m_canonical_key ?m) = []"
    by (simp add: zero_memory_def lower_eval)
  with implicit_identity_functional [of ?m] show ?thesis by blast
qed

end
