(* ===== verification/EntityRepo.thy ===== *)
theory EntityRepo
  imports MemoryRepo FactText
begin

text \<open>
  The entity facts of \<open>repository/sqlite/entity_facts.go\<close> with their SQL: storing one fact or a batch,
  where a fact of a memory that is already there is updated in place, listing the facts of an entity and
  relation, and invalidating the facts a newer value supersedes. At the end, the interface of
  \<open>domain.EntityFactRepository\<close> with its optional extensions and the contract its clients rely on.
\<close>

section \<open>Normal forms\<close>

definition normalize_fact_key :: "string \<Rightarrow> string" where
  "normalize_fact_key v = to_lower (collapse v)"

definition null_string :: "string \<Rightarrow> string option" where
  "null_string v = (let s = trim_space v in if s = [] then None else Some s)"

definition format_time_or_empty :: "gotime \<Rightarrow> stamp" where
  "format_time_or_empty t = (if is_zero t then NoStamp else Stamp t)"

definition format_time_or_empty_ptr :: "gotime option \<Rightarrow> stamp" where
  "format_time_or_empty_ptr v = (case v of None \<Rightarrow> NoStamp | Some t \<Rightarrow> format_time_or_empty t)"

definition parse_time_or_zero :: "stamp \<Rightarrow> gotime" where
  "parse_time_or_zero s = (case s of NoStamp \<Rightarrow> zero_time | Stamp t \<Rightarrow> t)"

definition prepare_entity_fact_for_store :: "entity_fact \<Rightarrow> gotime \<Rightarrow> entity_fact db_act" where
  "prepare_entity_fact_for_store f now =
     (let t = trim_space (f_tenant f); entity = normalize_fact_key (f_entity f);
          relation = normalize_fact_key (f_relation f);
          raw = normalize_entity_fact_raw_relation (f_relation_raw f);
          v = normalize_entity_fact_value (f_value f) in
      if t = [] \<or> entity = [] \<or> relation = [] \<or> v = [] then fail_act ErrInvalidInput
      else bind_act (if f_id f = [] then new_id ''ef'' else return_act (f_id f)) (\<lambda>i.
        let created = (if is_zero (f_created_at f) then now else f_created_at f);
            observed = (if is_zero (f_observed_at f) then created else f_observed_at f) in
        return_act (f\<lparr>f_id := i, f_tenant := t, f_entity := entity, f_relation := relation,
          f_relation_raw := (if raw = [] then relation else raw), f_value := v,
          f_memory := trim_space (f_memory f), f_created_at := created, f_observed_at := observed,
          f_valid_from := (if is_zero (f_valid_from f) then observed else f_valid_from f)\<rparr>)))"

section \<open>Statements\<close>

text \<open>The values bound to \<open>InsertEntityFactSQL\<close>.\<close>

definition fact_row_of :: "entity_fact \<Rightarrow> fact_row" where
  "fact_row_of f = \<lparr>fr_id = f_id f, fr_tenant = f_tenant f, fr_entity = f_entity f, fr_relation = f_relation f,
     fr_relation_raw = f_relation_raw f, fr_value = f_value f, fr_memory = null_string (f_memory f),
     fr_observed_at = format_time_or_empty (f_observed_at f), fr_valid_from = format_time_or_empty (f_valid_from f),
     fr_valid_to = format_time_or_empty_ptr (f_valid_to f), fr_invalidated_by = trim_space (f_invalidated_by f),
     fr_created_at = Stamp (f_created_at f)\<rparr>"

text \<open>\<open>InsertEntityFactSQL\<close>: a row whose key is taken keeps its identifier and creation time; the other
  columns take the new values unless these are empty.\<close>

definition refact_row :: "fact_row \<Rightarrow> fact_row \<Rightarrow> fact_row" where
  "refact_row new r = r\<lparr>
     fr_relation_raw := (if fr_relation_raw new \<noteq> [] then fr_relation_raw new else fr_relation_raw r),
     fr_observed_at := (if fr_observed_at new \<noteq> NoStamp then fr_observed_at new else fr_observed_at r),
     fr_valid_from := (if fr_valid_from new \<noteq> NoStamp then fr_valid_from new else fr_valid_from r),
     fr_valid_to := (if fr_valid_to new \<noteq> NoStamp then fr_valid_to new else fr_valid_to r),
     fr_invalidated_by := (if fr_invalidated_by new \<noteq> [] then fr_invalidated_by new else fr_invalidated_by r)\<rparr>"

definition insert_fact_stmt :: "fact_row \<Rightarrow> database \<Rightarrow> err + (unit \<times> database)" where
  "insert_fact_stmt new db =
     (if fr_id new \<in> fr_id ` set (db_facts db) then Inl ErrConstraint
      else if fr_memory new \<noteq> None \<and> fact_key new \<in> fact_key ` set (db_facts db)
      then Inr ((), db\<lparr>db_facts := update_where (\<lambda>r. fact_key r = fact_key new) (refact_row new) (db_facts db)\<rparr>)
      else if (case fr_memory new of None \<Rightarrow> False | Some i \<Rightarrow> i \<notin> m_id ` set (db_memories db))
      then Inl ErrConstraint
      else Inr ((), db\<lparr>db_facts := db_facts db @ [new]\<rparr>))"

definition invalidate_facts_stmt ::
  "string \<Rightarrow> string \<Rightarrow> string \<Rightarrow> string \<Rightarrow> string \<Rightarrow> stamp \<Rightarrow> database \<Rightarrow> err + (unit \<times> database)" where
  "invalidate_facts_stmt t entity relation active by valid_to db =
     Inr ((), db\<lparr>db_facts := update_where
       (\<lambda>r. fr_tenant r = t \<and> fr_entity r = entity \<and> fr_relation r = relation \<and>
            fr_invalidated_by r = [] \<and> fr_valid_to r = NoStamp \<and> fr_value r \<noteq> active)
       (\<lambda>r. r\<lparr>fr_valid_to := valid_to, fr_invalidated_by := by\<rparr>) (db_facts db)\<rparr>)"

section \<open>Operations\<close>

definition fact_repo_store :: "entity_fact \<Rightarrow> entity_fact db_act" where
  "fact_repo_store f = bind_act now_act (\<lambda>now. bind_act (prepare_entity_fact_for_store f now) (\<lambda>p.
     bind_act (exec (insert_fact_stmt (fact_row_of p))) (\<lambda>_. return_act p)))"

definition fact_repo_store_batch :: "entity_fact list \<Rightarrow> entity_fact list db_act" where
  "fact_repo_store_batch fs =
     (if fs = [] then return_act []
      else bind_act now_act (\<lambda>now. in_tx (map_act (\<lambda>f.
        bind_act (prepare_entity_fact_for_store f now) (\<lambda>p.
        bind_act (exec (insert_fact_stmt (fact_row_of p))) (\<lambda>_. return_act p))) fs)))"

definition scan_entity_fact :: "fact_row \<Rightarrow> err + entity_fact" where
  "scan_entity_fact r =
     (case parse_stored_time (fr_created_at r) of Inl e \<Rightarrow> Inl e | Inr created \<Rightarrow>
        Inr \<lparr>f_id = fr_id r, f_tenant = fr_tenant r, f_entity = fr_entity r, f_relation = fr_relation r,
          f_relation_raw = fr_relation_raw r, f_value = fr_value r,
          f_memory = (case fr_memory r of None \<Rightarrow> [] | Some i \<Rightarrow> trim_space i), f_created_at = created,
          f_observed_at = parse_time_or_zero (fr_observed_at r), f_valid_from = parse_time_or_zero (fr_valid_from r),
          f_valid_to = (let v = parse_time_or_zero (fr_valid_to r) in if is_zero v then None else Some v),
          f_invalidated_by = fr_invalidated_by r, f_confidence = 0\<rparr>)"

definition fact_repo_list :: "string \<Rightarrow> string \<Rightarrow> string \<Rightarrow> int \<Rightarrow> entity_fact list db_act" where
  "fact_repo_list tenant e rel limit =
     (let t = trim_space tenant; entity = normalize_fact_key e; relation = normalize_fact_key rel in
      if t = [] \<or> entity = [] \<or> relation = [] then fail_act ErrInvalidInput
      else bind_act (query (\<lambda>db. limit_rows (if limit \<le> 0 then 100 else limit) (order_desc fr_created_at
             (filter (\<lambda>r. fr_tenant r = t \<and> fr_entity r = entity \<and> fr_relation r = relation) (db_facts db)))))
           (\<lambda>rows. lift_act (map_result scan_entity_fact rows)))"

definition fact_repo_invalidate ::
  "string \<Rightarrow> string \<Rightarrow> string \<Rightarrow> string \<Rightarrow> string \<Rightarrow> gotime \<Rightarrow> unit db_act" where
  "fact_repo_invalidate tenant e rel active_value invalidated_by valid_to =
     (let t = trim_space tenant; entity = normalize_fact_key e; relation = normalize_fact_key rel;
          active = normalize_entity_fact_value active_value; by = trim_space invalidated_by in
      if t = [] \<or> entity = [] \<or> relation = [] \<or> active = [] \<or> by = [] \<or> is_zero valid_to then fail_act ErrInvalidInput
      else exec (invalidate_facts_stmt t entity relation active by (Stamp valid_to)))"

section \<open>Facts keep their normal form\<close>

lemma collapse_Nil_iff_words [simp]: "normalize_fact_key (normalize_fact_key v) = normalize_fact_key v"
  by (simp add: normalize_fact_key_def str_norm)

lemma prepare_fact_run:
  assumes "prepare_entity_fact_for_store f now w = (Inr p, w')"
  shows "tabs w' = tabs w \<and> fact_row_ok (fact_row_of p) \<and> f_tenant p = trim_space (f_tenant f) \<and>
    f_entity p = normalize_fact_key (f_entity f) \<and> f_relation p = normalize_fact_key (f_relation f) \<and>
    f_value p = collapse (f_value f) \<and> f_memory p = trim_space (f_memory f)"
proof -
  let ?t = "trim_space (f_tenant f)" and ?e = "normalize_fact_key (f_entity f)"
    and ?r = "normalize_fact_key (f_relation f)" and ?v = "normalize_entity_fact_value (f_value f)"
  from assms have ne: "\<not> (?t = [] \<or> ?e = [] \<or> ?r = [] \<or> ?v = [])"
    by (auto simp: prepare_entity_fact_for_store_def Let_def fail_act_success split: if_splits)
  with assms obtain i w1 where i: "(if f_id f = [] then new_id ''ef'' else return_act (f_id f)) w = (Inr i, w1)"
    and p: "w' = w1" "f_id p = i" "f_tenant p = ?t" "f_entity p = ?e" "f_relation p = ?r" "f_value p = ?v"
      "f_memory p = trim_space (f_memory f)"
    by (auto simp: prepare_entity_fact_for_store_def Let_def return_act_success elim!: bind_actE)
  have "i \<noteq> [] \<and> tabs w1 = tabs w"
  proof (cases "f_id f = []")
    case True
    with i have n: "new_id ''ef'' w = (Inr i, w1)" by simp
    show ?thesis using new_id_word [OF n] new_idE(2) [OF n] by (simp add: word_def is_space_def)
  next
    case False
    with i show ?thesis by (simp add: return_act_success)
  qed
  with ne p show ?thesis
    by (simp add: fact_row_ok_def fact_row_of_def normalize_fact_key_def normalize_entity_fact_value_def str_norm)
qed

lemma refact_row_same [simp]:
  "fr_id (refact_row n r) = fr_id r" "fact_key (refact_row n r) = fact_key r" "fact_row_ok (refact_row n r) = fact_row_ok r"
  "fr_memory (refact_row n r) = fr_memory r" "fr_tenant (refact_row n r) = fr_tenant r" "fr_entity (refact_row n r) = fr_entity r"
  "fr_relation (refact_row n r) = fr_relation r" "fr_value (refact_row n r) = fr_value r"
  by (simp_all add: refact_row_def fact_key_def fact_row_ok_def)

lemma facts_ok_update:
  assumes "facts_ok rs"
    and same: "\<And>r. fr_id (f r) = fr_id r" "\<And>r. fact_key (f r) = fact_key r" "\<And>r. fact_row_ok (f r) = fact_row_ok r"
  shows "facts_ok (update_where p f rs)"
proof -
  have mem: "fr_memory (f r) = fr_memory r" for r using same(2) [of r] by (simp add: fact_key_def)
  have "map fact_key (filter (\<lambda>r. fr_memory r \<noteq> None) (update_where p f rs)) =
      map fact_key (filter (\<lambda>r. fr_memory r \<noteq> None) rs)"
    by (induction rs) (auto simp: same mem)
  moreover have "map fr_id (update_where p f rs) = map fr_id rs" by (rule map_update_where) (rule same)
  ultimately show ?thesis using assms by (auto simp: facts_ok_def set_update_where)
qed

lemma store_ok_update_facts:
  assumes ok: "store_ok db"
    and same: "\<And>r. fr_id (f r) = fr_id r" "\<And>r. fact_key (f r) = fact_key r" "\<And>r. fact_row_ok (f r) = fact_row_ok r"
  shows "store_ok (db\<lparr>db_facts := update_where p f (db_facts db)\<rparr>)"
proof -
  have mem: "fr_memory (f r) = fr_memory r" for r using same(2) [of r] by (simp add: fact_key_def)
  have "(\<forall>r \<in> set (update_where p f rs). \<forall>i. fr_memory r = Some i \<longrightarrow> P i) = (\<forall>r \<in> set rs. \<forall>i. fr_memory r = Some i \<longrightarrow> P i)"
    for P rs by (induction rs) (auto simp: mem)
  with ok facts_ok_update [of "db_facts db" f p] same show ?thesis by (simp add: store_ok_def)
qed

lemma insert_fact_ok:
  assumes ok: "store_ok db" and new: "fact_row_ok new" and run: "insert_fact_stmt new db = Inr (u, db')"
  shows "store_ok db'"
proof -
  have F: "facts_ok (db_facts db)" using ok by (simp add: store_ok_def)
  from run have id: "fr_id new \<notin> fr_id ` set (db_facts db)" by (auto simp: insert_fact_stmt_def split: if_splits)
  show ?thesis
  proof (cases "fr_memory new \<noteq> None \<and> fact_key new \<in> fact_key ` set (db_facts db)")
    case True
    with run id have "db' = db\<lparr>db_facts := update_where (\<lambda>r. fact_key r = fact_key new) (refact_row new) (db_facts db)\<rparr>"
      by (simp add: insert_fact_stmt_def)
    with store_ok_update_facts [OF ok, of "refact_row new"] show ?thesis by simp
  next
    case False
    with run id have db': "db' = db\<lparr>db_facts := db_facts db @ [new]\<rparr>"
      and mem: "\<And>i. fr_memory new = Some i \<Longrightarrow> i \<in> m_id ` set (db_memories db)"
      by (auto simp: insert_fact_stmt_def split: if_splits option.splits)
    have "facts_ok (db_facts db @ [new])" using F id new False by (auto simp: facts_ok_def)
    with ok mem show ?thesis by (auto simp: store_ok_def db')
  qed
qed

lemma invalidate_facts_ok:
  "store_ok db \<Longrightarrow> invalidate_facts_stmt t e r a b v db = Inr (u, db') \<Longrightarrow> store_ok db'"
  using store_ok_update_facts [of db "\<lambda>r. r\<lparr>fr_valid_to := v, fr_invalidated_by := b\<rparr>"]
  by (auto simp: invalidate_facts_stmt_def fact_key_def fact_row_ok_def)

lemma keeps_insert_fact: "fact_row_ok new \<Longrightarrow> keeps db_ok (exec (insert_fact_stmt new))"
  by (rule keeps_exec) (auto simp: db_ok_def insert_fact_ok, auto simp: insert_fact_stmt_def split: if_splits)

lemma keeps_invalidate_facts: "keeps db_ok (exec (invalidate_facts_stmt t e r a b v))"
  by (rule keeps_exec) (auto simp: db_ok_def invalidate_facts_ok, auto simp: invalidate_facts_stmt_def)

lemma keeps_prepare_fact [act_keeps]: "keeps P (prepare_entity_fact_for_store f now)"
  unfolding prepare_entity_fact_for_store_def Let_def by (intro act_keeps)

lemma fact_repo_keeps [act_keeps]:
  "keeps db_ok (fact_repo_store f)" "keeps db_ok (fact_repo_store_batch fs)"
  "keeps db_ok (fact_repo_invalidate t e r a b v)"
proof -
  have one: "keeps db_ok (bind_act (prepare_entity_fact_for_store f now) (\<lambda>p.
        bind_act (exec (insert_fact_stmt (fact_row_of p))) (\<lambda>_. return_act p)))" for f now
    by (rule keeps_bind_result) (auto intro!: act_keeps keeps_insert_fact dest: prepare_fact_run)
  show "keeps db_ok (fact_repo_store f)" "keeps db_ok (fact_repo_store_batch fs)"
    unfolding fact_repo_store_def fact_repo_store_batch_def by (intro act_keeps one)+
  show "keeps db_ok (fact_repo_invalidate t e r a b v)"
    unfolding fact_repo_invalidate_def Let_def by (intro act_keeps keeps_invalidate_facts)
qed

lemma fact_repo_list_reads [act_atomic]: "reads (fact_repo_list t e r n)"
  unfolding fact_repo_list_def Let_def by (intro act_atomic)

section \<open>Which values are active\<close>

text \<open>The slot of a fact is its tenant, entity and relation in normal form; a row is active until it is
  invalidated.\<close>

definition slot_of :: "string \<Rightarrow> string \<Rightarrow> string \<Rightarrow> string \<times> string \<times> string" where
  "slot_of t e r = (trim_space t, normalize_fact_key e, normalize_fact_key r)"

definition fact_slot :: "entity_fact \<Rightarrow> string \<times> string \<times> string" where
  "fact_slot f = slot_of (f_tenant f) (f_entity f) (f_relation f)"

definition row_slot :: "fact_row \<Rightarrow> string \<times> string \<times> string" where
  "row_slot r = (fr_tenant r, fr_entity r, fr_relation r)"

definition row_active :: "fact_row \<Rightarrow> bool" where
  "row_active r \<longleftrightarrow> fr_invalidated_by r = [] \<and> fr_valid_to r = NoStamp"

definition active_values :: "database \<Rightarrow> string \<times> string \<times> string \<Rightarrow> string set" where
  "active_values db k = fr_value ` {r \<in> set (db_facts db). row_slot r = k \<and> row_active r}"

lemma fact_row_of_simps [simp]:
  "fr_tenant (fact_row_of f) = f_tenant f" "fr_entity (fact_row_of f) = f_entity f"
  "fr_relation (fact_row_of f) = f_relation f" "fr_value (fact_row_of f) = f_value f"
  "fr_id (fact_row_of f) = f_id f" "fr_memory (fact_row_of f) = null_string (f_memory f)"
  by (simp_all add: fact_row_of_def)

lemma refact_active: "row_active (refact_row n r) \<Longrightarrow> row_active r"
  by (auto simp: row_active_def refact_row_def split: if_splits)

lemma active_update:
  assumes "\<And>r. row_slot (f r) = row_slot r" "\<And>r. fr_value (f r) = fr_value r" "\<And>r. row_active (f r) \<Longrightarrow> row_active r"
  shows "active_values (db\<lparr>db_facts := update_where p f (db_facts db)\<rparr>) k \<subseteq> active_values db k"
proof
  fix v assume "v \<in> active_values (db\<lparr>db_facts := update_where p f (db_facts db)\<rparr>) k"
  then obtain x where "x \<in> set (update_where p f (db_facts db))" "v = fr_value x" "row_slot x = k" "row_active x"
    by (auto simp: active_values_def)
  moreover from this(1) obtain y where "y \<in> set (db_facts db)" "x = f y \<or> x = y" by (auto simp: set_update_where)
  ultimately have "y \<in> set (db_facts db)" "v = fr_value y" "row_slot y = k" "row_active y" using assms by auto
  then show "v \<in> active_values db k" by (auto simp: active_values_def)
qed

lemma insert_fact_active:
  assumes "insert_fact_stmt new db = Inr (u, db')"
  shows "active_values db' k \<subseteq> active_values db k \<union> (if k = row_slot new then {fr_value new} else {})"
proof (cases "fr_memory new \<noteq> None \<and> fact_key new \<in> fact_key ` set (db_facts db)")
  case True
  with assms have "db' = db\<lparr>db_facts := update_where (\<lambda>r. fact_key r = fact_key new) (refact_row new) (db_facts db)\<rparr>"
    by (auto simp: insert_fact_stmt_def split: if_splits)
  moreover have "row_slot (refact_row new r) = row_slot r" for r by (simp add: row_slot_def)
  ultimately have "active_values db' k \<subseteq> active_values db k"
    using active_update [of "refact_row new"] refact_active by simp
  then show ?thesis by blast
next
  case False
  with assms have "db_facts db' = db_facts db @ [new]" by (auto simp: insert_fact_stmt_def split: if_splits)
  then show ?thesis by (auto simp: active_values_def)
qed

lemma active_rows_update:
  assumes "\<And>r. \<not> row_active (f r)"
  shows "{r \<in> set (update_where p f rs). row_slot r = k \<and> row_active r} = {r \<in> set rs. row_slot r = k \<and> row_active r \<and> \<not> p r}"
  using assms by (induction rs) auto

lemma invalidate_active:
  assumes run: "invalidate_facts_stmt t e r a b v db = Inr (u, db')" and b: "b \<noteq> []"
  shows "active_values db' k = (if k = (t, e, r) then active_values db k \<inter> {a} else active_values db k)"
proof -
  let ?p = "\<lambda>x. fr_tenant x = t \<and> fr_entity x = e \<and> fr_relation x = r \<and>
            fr_invalidated_by x = [] \<and> fr_valid_to x = NoStamp \<and> fr_value x \<noteq> a"
  let ?f = "\<lambda>x. x\<lparr>fr_valid_to := v, fr_invalidated_by := b\<rparr>"
  have db': "db_facts db' = update_where ?p ?f (db_facts db)" using run by (auto simp: invalidate_facts_stmt_def)
  have "\<not> row_active (?f x)" for x using b by (simp add: row_active_def)
  then have "active_values db' k = fr_value ` {x \<in> set (db_facts db). row_slot x = k \<and> row_active x \<and> \<not> ?p x}"
    unfolding active_values_def db' by (simp add: active_rows_update)
  also have "\<dots> = (if k = (t, e, r) then active_values db k \<inter> {a} else active_values db k)"
    by (auto simp: active_values_def row_slot_def row_active_def)
  finally show ?thesis .
qed

lemma insert_fact_cases:
  assumes "insert_fact_stmt new db = Inr (u, db')"
  shows "if fr_memory new \<noteq> None \<and> fact_key new \<in> fact_key ` set (db_facts db)
         then map fr_id (db_facts db') = map fr_id (db_facts db) \<and>
              map fact_key (db_facts db') = map fact_key (db_facts db) \<and> fr_id new \<notin> fr_id ` set (db_facts db')
         else db_facts db' = db_facts db @ [new]"
proof (cases "fr_memory new \<noteq> None \<and> fact_key new \<in> fact_key ` set (db_facts db)")
  case True
  let ?rows = "update_where (\<lambda>r. fact_key r = fact_key new) (refact_row new) (db_facts db)"
  have upd: "map fr_id ?rows = map fr_id (db_facts db)" "map fact_key ?rows = map fact_key (db_facts db)"
    by (rule map_update_where, simp)+
  from True assms have "fr_id new \<notin> fr_id ` set (db_facts db)" and db': "db_facts db' = ?rows"
    by (auto simp: insert_fact_stmt_def split: if_splits)
  with upd(1) have "fr_id new \<notin> fr_id ` set (db_facts db')" by (metis list.set_map)
  with True db' upd show ?thesis by simp
next
  case False
  with assms show ?thesis by (auto simp: insert_fact_stmt_def split: if_splits)
qed

lemma fact_store_run:
  assumes "fact_repo_store f w = (Inr p, w')"
  shows "insert_fact_stmt (fact_row_of p) (tabs w) = Inr ((), tabs w') \<and> fact_row_ok (fact_row_of p) \<and>
    fact_slot p = fact_slot f \<and> f_value p = collapse (f_value f) \<and> f_memory p = trim_space (f_memory f) \<and>
    row_slot (fact_row_of p) = fact_slot f"
proof -
  from assms obtain now w1 w2 w3 u where n: "now_act w = (Inr now, w1)"
    and p: "prepare_entity_fact_for_store f now w1 = (Inr p, w2)"
    and x: "exec (insert_fact_stmt (fact_row_of p)) w2 = (Inr u, w3)" and w': "w' = w3"
    by (auto simp: fact_repo_store_def return_act_success elim!: bind_actE)
  note P = prepare_fact_run [OF p]
  have t: "tabs w2 = tabs w" using P now_actE(2) [OF n] by simp
  from exec_successD [OF x] P show ?thesis by (simp add: t w' fact_slot_def slot_of_def row_slot_def)
qed

text \<open>Storing an entity fact: on an error nothing has changed; on success the fact returned is the given
  one in normal form, and it was appended as a row, unless its memory already holds this fact. Then
  the row there is updated in place and keeps its identifier, so that the identifier that is returned
  (and that later invalidations record) names no row.\<close>

theorem fact_store_functional:
  assumes "fact_repo_store f w = (r, w')"
  shows "case r of
      Inl _ \<Rightarrow> tabs w' = tabs w
    | Inr p \<Rightarrow> fact_slot p = fact_slot f \<and> f_value p = collapse (f_value f) \<and> f_memory p = trim_space (f_memory f) \<and>
        fact_row_ok (fact_row_of p) \<and>
        (if null_string (f_memory f) \<noteq> None \<and> fact_key (fact_row_of p) \<in> fact_key ` set (db_facts (tabs w))
         then map fr_id (db_facts (tabs w')) = map fr_id (db_facts (tabs w)) \<and>
              map fact_key (db_facts (tabs w')) = map fact_key (db_facts (tabs w)) \<and>
              f_id p \<notin> fr_id ` set (db_facts (tabs w'))
         else db_facts (tabs w') = db_facts (tabs w) @ [fact_row_of p])"
proof (cases r)
  case (Inl e)
  have "reads (prepare_entity_fact_for_store f now)" for now
    unfolding prepare_entity_fact_for_store_def Let_def by (intro act_atomic)
  then have "atomic (fact_repo_store f)"
    unfolding fact_repo_store_def by (intro atomic_bind reads_basic atomic_bind_return atomic_exec)
  from atomicD [OF this assms [unfolded Inl]] Inl show ?thesis by simp
next
  case (Inr p)
  note P = fact_store_run [OF assms [unfolded Inr]]
  have "null_string (f_memory p) = null_string (f_memory f)" using P by (simp add: null_string_def)
  with insert_fact_cases [of "fact_row_of p" "tabs w" "()" "tabs w'", unfolded fact_row_of_simps] P show ?thesis
    by (simp add: Inr)
qed

lemma fact_list_run:
  assumes "fact_repo_list t e r n w = (Inr fs, w')"
  shows "tabs w' = tabs w \<and> map_result scan_entity_fact (limit_rows (if n \<le> 0 then 100 else n)
    (order_desc fr_created_at (filter (\<lambda>x. row_slot x = slot_of t e r) (db_facts (tabs w))))) = Inr fs"
proof -
  have "(\<lambda>x. fr_tenant x = a \<and> fr_entity x = b \<and> fr_relation x = c) = (\<lambda>x. row_slot x = (a, b, c))" for a b c
    by (auto simp: row_slot_def)
  with assms show ?thesis
    by (auto simp: fact_repo_list_def Let_def slot_of_def fail_act_success lift_act_success bind_act_success query_success
        split: if_splits)
qed

lemma scan_fact: "scan_entity_fact r = Inr f \<Longrightarrow>
   f_value f = fr_value r \<and> f_tenant f = fr_tenant r \<and> f_entity f = fr_entity r \<and> f_relation f = fr_relation r \<and>
   f_memory f = (case fr_memory r of None \<Rightarrow> [] | Some i \<Rightarrow> trim_space i) \<and> f_invalidated_by f = fr_invalidated_by r"
  by (auto simp: scan_entity_fact_def split: sum.splits)

lemma fact_list_facts:
  assumes "fact_repo_list t e r n w = (Inr fs, w')"
  shows "length fs \<le> nat (if n \<le> 0 then 100 else n) \<and> (\<forall>g \<in> set fs. \<exists>x \<in> set (db_facts (tabs w)).
      row_slot x = slot_of t e r \<and> scan_entity_fact x = Inr g) \<and>
    (length (filter (\<lambda>x. row_slot x = slot_of t e r) (db_facts (tabs w))) \<le> nat (if n \<le> 0 then 100 else n) \<longrightarrow>
     (\<forall>x \<in> set (db_facts (tabs w)). row_slot x = slot_of t e r \<longrightarrow> (\<exists>g \<in> set fs. scan_entity_fact x = Inr g)))"
proof -
  let ?n = "if n \<le> 0 then 100 else n" and ?hit = "filter (\<lambda>x. row_slot x = slot_of t e r) (db_facts (tabs w))"
  let ?rows = "limit_rows ?n (order_desc fr_created_at ?hit)"
  from fact_list_run [OF assms] have m: "map_result scan_entity_fact ?rows = Inr fs" by blast
  note S = map_result_success [OF m]
  have "set ?rows \<subseteq> set ?hit" using set_limit_rows [of ?n "order_desc fr_created_at ?hit"] by simp
  moreover have "\<exists>x \<in> set ?rows. scan_entity_fact x = Inr g" if "g \<in> set fs" for g
    using that S by (metis in_set_conv_nth)
  moreover have "set ?rows = set ?hit" if "length ?hit \<le> nat ?n"
    using that by (simp add: limit_rows_def)
  moreover have "\<exists>g \<in> set fs. scan_entity_fact x = Inr g" if "x \<in> set ?rows" for x
    using that S by (metis in_set_conv_nth)
  moreover have "length fs \<le> nat ?n" using S by (simp add: limit_rows_def)
  ultimately show ?thesis by fastforce
qed

text \<open>C32 A stored fact can be read back: after storing it, listing its entity and relation, in any
  spelling that has the same normal form, returns at most as many facts as asked for, all of this tenant,
  entity and relation, and, when the limit covers them all, one with the value and the memory of the
  stored fact.\<close>

theorem fact_store_list_roundtrip:
  assumes "fact_repo_store f w = (Inr p, w1)" and "tabs w2 = tabs w1" and "store_ok (tabs w)"
    and "fact_repo_list t e r n w2 = (Inr fs, w3)" and "slot_of t e r = fact_slot f"
  shows "length fs \<le> nat (if n \<le> 0 then 100 else n) \<and> (\<forall>g \<in> set fs. fact_slot g = fact_slot f) \<and>
    (length (filter (\<lambda>x. row_slot x = fact_slot f) (db_facts (tabs w1))) \<le> nat (if n \<le> 0 then 100 else n) \<longrightarrow>
      (\<exists>g \<in> set fs. f_value g = collapse (f_value f) \<and> f_memory g = trim_space (f_memory f)))"
proof -
  note P = fact_store_run [OF assms(1)]
  have ok: "store_ok (tabs w1)" using insert_fact_ok [OF assms(3)] P by blast
  note L = fact_list_facts [OF assms(4), unfolded assms(2,5)]
  have "fact_slot g = fact_slot f" if "g \<in> set fs" for g
  proof -
    from that L obtain x where x: "x \<in> set (db_facts (tabs w1))" "row_slot x = fact_slot f" "scan_entity_fact x = Inr g" by blast
    then have "fact_row_ok x" using ok by (simp add: store_ok_def facts_ok_def)
    with x scan_fact [OF x(3)] show ?thesis
      by (auto simp: fact_slot_def slot_of_def row_slot_def fact_row_ok_def normalize_fact_key_def)
  qed
  moreover have "\<exists>x \<in> set (db_facts (tabs w1)). row_slot x = fact_slot f \<and> fr_value x = collapse (f_value f) \<and>
      fr_memory x = null_string (f_memory f)"
  proof -
    let ?new = "fact_row_of p"
    have "fact_key ?new \<in> fact_key ` set (db_facts (tabs w1))"
      using insert_fact_cases [of ?new "tabs w" "()" "tabs w1"] P by (auto split: if_splits) (metis image_eqI image_set)
    then obtain x where "x \<in> set (db_facts (tabs w1))" "fact_key x = fact_key ?new" by (metis imageE)
    moreover have "null_string (f_memory p) = null_string (f_memory f)" using P by (simp add: null_string_def)
    ultimately show ?thesis using P by (auto simp: fact_key_def row_slot_def intro!: bexI [of _ x])
  qed
  moreover have "(case null_string (f_memory f) of None \<Rightarrow> [] | Some i \<Rightarrow> trim_space i) = trim_space (f_memory f)"
    by (simp add: null_string_def Let_def)
  ultimately obtain x where x: "x \<in> set (db_facts (tabs w1))" "row_slot x = fact_slot f" "fr_value x = collapse (f_value f)"
      "(case fr_memory x of None \<Rightarrow> [] | Some i \<Rightarrow> trim_space i) = trim_space (f_memory f)"
    and "\<forall>g \<in> set fs. fact_slot g = fact_slot f" by auto
  moreover have "f_value g = collapse (f_value f) \<and> f_memory g = trim_space (f_memory f)" if "scan_entity_fact x = Inr g" for g
    using scan_fact [OF that] x by simp
  ultimately show ?thesis using L by blast
qed

lemma invalidate_rows:
  assumes "invalidate_facts_stmt t e r a b v db = Inr (u, db')"
  shows "map fr_id (db_facts db') = map fr_id (db_facts db) \<and> map fact_key (db_facts db') = map fact_key (db_facts db)"
proof -
  have "map fr_id (update_where p (\<lambda>x. x\<lparr>fr_valid_to := v, fr_invalidated_by := b\<rparr>) rs) = map fr_id rs"
    "map fact_key (update_where p (\<lambda>x. x\<lparr>fr_valid_to := v, fr_invalidated_by := b\<rparr>) rs) = map fact_key rs" for p rs
    by (rule map_update_where, simp add: fact_key_def)+
  with assms show ?thesis by (auto simp: invalidate_facts_stmt_def)
qed

text \<open>Invalidating a relation leaves, in the slot of the given tenant, entity and relation, exactly the
  given value active if it was, and touches no other slot; no fact is added or removed and all keep their
  identifiers, keys and memories. On an error nothing has changed.\<close>

theorem fact_invalidate_functional:
  assumes "fact_repo_invalidate t e r a b v w = (res, w')"
  shows "case res of
      Inl _ \<Rightarrow> tabs w' = tabs w
    | Inr _ \<Rightarrow> map fr_id (db_facts (tabs w')) = map fr_id (db_facts (tabs w)) \<and>
        map fact_key (db_facts (tabs w')) = map fact_key (db_facts (tabs w)) \<and>
        (\<lambda>k. active_values (tabs w') k) = (\<lambda>k. if k = slot_of t e r then active_values (tabs w) k \<inter> {collapse a}
                                            else active_values (tabs w) k)"
proof (cases res)
  case (Inl x)
  have "atomic (fact_repo_invalidate t e r a b v)"
    unfolding fact_repo_invalidate_def Let_def by (intro act_atomic atomic_reads [OF reads_basic(2)])
  from atomicD [OF this assms [unfolded Inl]] Inl show ?thesis by simp
next
  case (Inr u)
  with assms have some: "trim_space b \<noteq> []" and
    x: "exec (invalidate_facts_stmt (trim_space t) (normalize_fact_key e) (normalize_fact_key r)
        (normalize_entity_fact_value a) (trim_space b) (Stamp v)) w = (Inr u, w')"
    by (auto simp: fact_repo_invalidate_def Let_def fail_act_success split: if_splits)
  note run = exec_successD [OF x]
  note rows = invalidate_rows [OF run]
  from invalidate_active [OF run some] rows show ?thesis
    by (simp add: Inr slot_of_def normalize_entity_fact_value_def fun_eq_iff)
qed

section \<open>The interface\<close>

text \<open>\<open>domain.EntityFactRepository\<close>; the two optional extensions are found by type assertion.\<close>

record fact_store =
  fs_store :: "entity_fact \<Rightarrow> entity_fact db_act"
  fs_store_batch :: "(entity_fact list \<Rightarrow> entity_fact list db_act) option"
  fs_list :: "string \<Rightarrow> string \<Rightarrow> string \<Rightarrow> int \<Rightarrow> entity_fact list db_act"
  fs_invalidate :: "(string \<Rightarrow> string \<Rightarrow> string \<Rightarrow> string \<Rightarrow> string \<Rightarrow> gotime \<Rightarrow> unit db_act) option"

definition sqlite_fact_store :: fact_store where
  "sqlite_fact_store = \<lparr>fs_store = fact_repo_store, fs_store_batch = Some fact_repo_store_batch,
     fs_list = fact_repo_list, fs_invalidate = Some fact_repo_invalidate\<rparr>"

definition no_facts :: "database \<Rightarrow> database" where
  "no_facts db = db\<lparr>db_facts := []\<rparr>"

text \<open>The values a batch of facts gives to a slot, and what storing returns for a fact.\<close>

definition batch_values :: "entity_fact list \<Rightarrow> string \<times> string \<times> string \<Rightarrow> string set" where
  "batch_values fs k = (\<lambda>f. collapse (f_value f)) ` {f \<in> set fs. fact_slot f = k}"

definition same_fact :: "entity_fact \<Rightarrow> entity_fact \<Rightarrow> bool" where
  "same_fact f p \<longleftrightarrow> fact_slot p = fact_slot f \<and> collapse (f_value p) = collapse (f_value f)"

lemma same_fact_singleton:
  "same_fact f p \<Longrightarrow> entity_fact_uses_singleton_invalidation (f_relation p) = entity_fact_uses_singleton_invalidation (f_relation f)"
  using normal_relation_key [of "f_relation p"] normal_relation_key [of "f_relation f"]
  by (simp add: same_fact_def fact_slot_def slot_of_def normalize_fact_key_def entity_fact_uses_singleton_invalidation_def)

text \<open>The contract: every operation keeps the invariant and all tables but its own (of which \<open>live\<close> is
  the view: the active values of each slot); storing adds at most the stored values, invalidating leaves at
  most the given one.\<close>

locale fact_repository =
  fixes fs :: fact_store and live :: "database \<Rightarrow> string \<times> string \<times> string \<Rightarrow> string set"
  assumes store_keeps: "keeps db_ok (fs_store fs f)"
    and batch_keeps: "fs_store_batch fs = Some b \<Longrightarrow> keeps db_ok (b facts)"
    and list_reads: "reads (fs_list fs t e r n)"
    and invalidate_keeps: "fs_invalidate fs = Some iv \<Longrightarrow> keeps db_ok (iv t e r a x v)"
    and store_frame: "keeps (\<lambda>db. no_facts db = D) (fs_store fs f)"
    and batch_frame: "fs_store_batch fs = Some b \<Longrightarrow> keeps (\<lambda>db. no_facts db = D) (b facts)"
    and invalidate_frame: "fs_invalidate fs = Some iv \<Longrightarrow> keeps (\<lambda>db. no_facts db = D) (iv t e r a x v)"
    and store_live: "yields (\<lambda>db. db = t0) (fs_store fs f)
      (\<lambda>p db. same_fact f p \<and> (\<forall>k. live db k \<subseteq> live t0 k \<union> batch_values [f] k))"
    and batch_live: "fs_store_batch fs = Some b \<Longrightarrow> yields (\<lambda>db. db = t0) (b facts)
      (\<lambda>ps db. list_all2 same_fact facts ps \<and> (\<forall>k. live db k \<subseteq> live t0 k \<union> batch_values facts k))"
    and invalidate_live: "fs_invalidate fs = Some iv \<Longrightarrow> yields (\<lambda>db. db = t0) (iv t e r a x v)
      (\<lambda>_ db. \<forall>k. live db k \<subseteq> (if k = slot_of t e r then live t0 k \<inter> {collapse a} else live t0 k))"

lemma fact_repo_frames:
  "keeps (\<lambda>db. no_facts db = D) (fact_repo_store f)" "keeps (\<lambda>db. no_facts db = D) (fact_repo_store_batch facts)"
  "keeps (\<lambda>db. no_facts db = D) (fact_repo_invalidate t e r a b v)"
proof -
  have ins: "keeps (\<lambda>db. no_facts db = D) (exec (insert_fact_stmt x))" for x
    by (rule keeps_exec) (auto simp: no_facts_def insert_fact_stmt_def split: if_splits)
  show "keeps (\<lambda>db. no_facts db = D) (fact_repo_store f)" "keeps (\<lambda>db. no_facts db = D) (fact_repo_store_batch facts)"
    unfolding fact_repo_store_def fact_repo_store_batch_def by (intro act_keeps ins)+
  show "keeps (\<lambda>db. no_facts db = D) (fact_repo_invalidate t e r a b v)"
    unfolding fact_repo_invalidate_def Let_def
    by (intro act_keeps keeps_exec) (auto simp: no_facts_def invalidate_facts_stmt_def)
qed

lemma store_step_live:
  assumes p: "prepare_entity_fact_for_store f now w = (Inr p, w1)" and x: "exec (insert_fact_stmt (fact_row_of p)) w1 = (Inr u, w2)"
  shows "same_fact f p \<and> active_values (tabs w2) k \<subseteq> active_values (tabs w) k \<union> batch_values [f] k"
proof -
  note P = prepare_fact_run [OF p]
  have "insert_fact_stmt (fact_row_of p) (tabs w) = Inr (u, tabs w2)" using exec_successD [OF x] P by simp
  from insert_fact_active [OF this, of k] P show ?thesis
    by (auto simp: same_fact_def fact_slot_def slot_of_def row_slot_def batch_values_def split: if_splits)
qed

lemma batch_live_sqlite:
  "yields (\<lambda>db. db = t0) (fact_repo_store_batch facts)
     (\<lambda>ps db. list_all2 same_fact facts ps \<and> (\<forall>k. active_values db k \<subseteq> active_values t0 k \<union> batch_values facts k))"
proof -
  let ?I = "\<lambda>ds ys db. list_all2 same_fact ds ys \<and> (\<forall>k. active_values db k \<subseteq> active_values t0 k \<union> batch_values ds k)"
  have step: "yields (?I ds ys) (bind_act (prepare_entity_fact_for_store f now) (\<lambda>p.
        bind_act (exec (insert_fact_stmt (fact_row_of p))) (\<lambda>_. return_act p))) (\<lambda>y. ?I (ds @ [f]) (ys @ [y]))"
    for now ds f ys
  proof (rule yieldsI)
    fix w p w' assume I: "?I ds ys (tabs w)" and run: "bind_act (prepare_entity_fact_for_store f now) (\<lambda>p.
        bind_act (exec (insert_fact_stmt (fact_row_of p))) (\<lambda>_. return_act p)) w = (Inr p, w')"
    then obtain w1 u where p: "prepare_entity_fact_for_store f now w = (Inr p, w1)"
      and x: "exec (insert_fact_stmt (fact_row_of p)) w1 = (Inr u, w')"
      by (auto simp: return_act_success elim!: bind_actE)
    have "batch_values (ds @ [f]) k = batch_values ds k \<union> batch_values [f] k" for k
      by (auto simp: batch_values_def)
    with I store_step_live [OF p x] show "?I (ds @ [f]) (ys @ [p]) (tabs w')"
      by (simp add: list_all2_appendI) blast
  qed
  show ?thesis
    unfolding fact_repo_store_batch_def
  proof (intro yields_if)
    show "yields (\<lambda>db. db = t0) (return_act []) (\<lambda>ps db. ?I facts ps db)" if "facts = []"
      using that by (intro yields_return) auto
    show "yields (\<lambda>db. db = t0) (bind_act now_act (\<lambda>now. in_tx (map_act (\<lambda>f.
        bind_act (prepare_entity_fact_for_store f now) (\<lambda>p.
        bind_act (exec (insert_fact_stmt (fact_row_of p))) (\<lambda>_. return_act p))) facts))) (\<lambda>ps db. ?I facts ps db)"
    proof (rule yields_bind [where Q = "\<lambda>_. ?I [] []"])
      show "yields (\<lambda>db. db = t0) now_act (\<lambda>_. ?I [] [])" by (rule yields_now) (simp add: batch_values_def)
      show "yields (?I [] []) (in_tx (map_act (\<lambda>f.
        bind_act (prepare_entity_fact_for_store f now) (\<lambda>p.
        bind_act (exec (insert_fact_stmt (fact_row_of p))) (\<lambda>_. return_act p))) facts)) (\<lambda>ps db. ?I facts ps db)" for now
        using yields_map [of ?I, OF step, where zs = "[]" and ys = "[]" and xs = facts] by (intro yields_in_tx) simp
    qed
  qed
qed

interpretation fri: fact_repository sqlite_fact_store active_values
proof unfold_locales
  fix t0 and f :: entity_fact
  have "yields (\<lambda>db. db = t0) (fact_repo_store f)
      (\<lambda>p db. same_fact f p \<and> (\<forall>k. active_values db k \<subseteq> active_values t0 k \<union> batch_values [f] k))"
  proof (rule yieldsI)
    fix w p w' assume t: "tabs w = t0" and run: "fact_repo_store f w = (Inr p, w')"
    from fact_store_run [OF run] insert_fact_active [of "fact_row_of p" "tabs w" "()" "tabs w'"] t
    show "same_fact f p \<and> (\<forall>k. active_values (tabs w') k \<subseteq> active_values t0 k \<union> batch_values [f] k)"
      by (fastforce simp: same_fact_def batch_values_def split: if_splits)
  qed
  then show "yields (\<lambda>db. db = t0) (fs_store sqlite_fact_store f)
      (\<lambda>p db. same_fact f p \<and> (\<forall>k. active_values db k \<subseteq> active_values t0 k \<union> batch_values [f] k))"
    by (simp add: sqlite_fact_store_def)
next
  fix iv t0 t e r a x v
  assume "fs_invalidate sqlite_fact_store = Some iv"
  then have iv: "iv = fact_repo_invalidate" by (simp add: sqlite_fact_store_def)
  show "yields (\<lambda>db. db = t0) (iv t e r a x v)
      (\<lambda>_ db. \<forall>k. active_values db k \<subseteq> (if k = slot_of t e r then active_values t0 k \<inter> {collapse a} else active_values t0 k))"
    unfolding iv
  proof (rule yieldsI)
    fix w u w' assume t: "tabs w = t0" and run: "fact_repo_invalidate t e r a x v w = (Inr u, w')"
    from run have some: "trim_space x \<noteq> []" and
      "exec (invalidate_facts_stmt (trim_space t) (normalize_fact_key e) (normalize_fact_key r)
        (normalize_entity_fact_value a) (trim_space x) (Stamp v)) w = (Inr u, w')"
      by (auto simp: fact_repo_invalidate_def Let_def fail_act_success split: if_splits)
    from invalidate_active [OF exec_successD [OF this(2)] some] t
    show "\<forall>k. active_values (tabs w') k \<subseteq> (if k = slot_of t e r then active_values t0 k \<inter> {collapse a} else active_values t0 k)"
      by (simp add: slot_of_def normalize_entity_fact_value_def)
  qed
next
  fix b t0 and facts
  assume "fs_store_batch sqlite_fact_store = Some b"
  then have "b = fact_repo_store_batch" by (simp add: sqlite_fact_store_def)
  with batch_live_sqlite show "yields (\<lambda>db. db = t0) (b facts)
      (\<lambda>ps db. list_all2 same_fact facts ps \<and> (\<forall>k. active_values db k \<subseteq> active_values t0 k \<union> batch_values facts k))"
    by blast
qed (simp_all add: sqlite_fact_store_def act_keeps fact_repo_frames fact_repo_list_reads)

section \<open>Witnesses\<close>

definition sample_fact :: entity_fact where
  "sample_fact = \<lparr>f_id = [], f_tenant = ''t1'', f_entity = ''User'', f_relation = ''place'', f_relation_raw = ''lives'',
     f_value = ''Rome'', f_memory = ''m1'', f_created_at = zero_time, f_observed_at = zero_time,
     f_valid_from = zero_time, f_valid_to = None, f_invalidated_by = [], f_confidence = 0\<rparr>"

lemma sample_words: "normalize_fact_key ''User'' = ''user''" "normalize_fact_key ''user'' = ''user''"
  "normalize_fact_key ''place'' = ''place''" "normalize_entity_fact_raw_relation ''lives'' = ''lives''"
  "collapse ''Rome'' = ''Rome''" "trim_space ''t1'' = ''t1''" "trim_space ''m1'' = ''m1''" "trim_space ''ef_1'' = ''ef_1''"
  by code_simp+

lemma sample_slot: "fact_slot sample_fact = (''t1'', ''user'', ''place'')" "slot_of ''t1'' ''user'' ''place'' = (''t1'', ''user'', ''place'')"
  "slot_of ''t1'' ''User'' ''place'' = (''t1'', ''user'', ''place'')"
  by (simp_all add: fact_slot_def slot_of_def sample_fact_def sample_words)

lemma sample_value: "collapse (f_value sample_fact) = ''Rome''"
  by (simp add: sample_fact_def sample_words)

lemma sample_fact_run: "\<exists>p w1. fact_repo_store sample_fact (calm_world sample_store) = (Inr p, w1) \<and> fault_free w1 \<and>
    length (db_facts (tabs w1)) = 1"
  by (simp add: fact_repo_store_def prepare_entity_fact_for_store_def sample_fact_def 
      normalize_entity_fact_value_def sample_words
      bind_act_def now_act_def new_id_def random_act_def return_act_def exec_def insert_fact_stmt_def calm_world_def
      sample_store_def empty_database_def fact_row_of_def null_string_def sample_memory_def Let_def fault_free_def)

lemma fact_store_functional_witness:
  "\<exists>p. fact_slot p = (''t1'', ''user'', ''place'') \<and> f_value p = ''Rome'' \<and> fact_row_ok (fact_row_of p)"
proof -
  obtain p w1 where "fact_repo_store sample_fact (calm_world sample_store) = (Inr p, w1)" using sample_fact_run by blast
  from fact_store_functional [OF this] show ?thesis
    by (intro exI [of _ p]) (simp add: sample_slot sample_value)
qed

lemma fact_list_returns:
  assumes "fault_free w" "trim_space t \<noteq> []" "normalize_fact_key e \<noteq> []" "normalize_fact_key r \<noteq> []"
    and "\<forall>x \<in> set (db_facts (tabs w)). fr_created_at x \<noteq> NoStamp"
  shows "\<exists>fs. fact_repo_list t e r n w = (Inr fs, tick w)"
proof -
  have "\<exists>fs. map_result scan_entity_fact xs = Inr fs" if "\<forall>x \<in> set xs. fr_created_at x \<noteq> NoStamp" for xs
  proof -
    have "\<exists>g. scan_entity_fact x = Inr g" if "fr_created_at x \<noteq> NoStamp" for x
      using that by (cases "fr_created_at x") (simp_all add: scan_entity_fact_def parse_stored_time_def)
    then have "\<forall>x \<in> set xs. \<exists>g. scan_entity_fact x = Inr g" using that by blast
    then obtain g where "\<And>x. x \<in> set xs \<Longrightarrow> scan_entity_fact x = Inr (g x)" by (metis bchoice)
    then have "map_result scan_entity_fact xs = Inr (map g xs)" by (rule map_result_total)
    then show ?thesis by blast
  qed
  moreover have "\<forall>x \<in> set (limit_rows k (order_desc fr_created_at (filter q (db_facts (tabs w))))). fr_created_at x \<noteq> NoStamp"
    for k q using assms(5) set_limit_rows by fastforce
  ultimately show ?thesis
    using assms(1-4) by (simp add: fact_repo_list_def Let_def bind_act_def query_fault_free lift_act_def)
qed

lemma fact_store_list_roundtrip_witness:
  "\<exists>p w1 fs w3. fact_repo_store sample_fact (calm_world sample_store) = (Inr p, w1) \<and>
     fact_repo_list ''t1'' ''user'' ''place'' 5 w1 = (Inr fs, w3) \<and> (\<exists>g \<in> set fs. f_value g = ''Rome'')"
proof -
  obtain p w1 where run: "fact_repo_store sample_fact (calm_world sample_store) = (Inr p, w1)" and ff: "fault_free w1"
    and len: "length (db_facts (tabs w1)) = 1" using sample_fact_run by blast
  have ok: "store_ok (tabs w1)" using insert_fact_ok [OF sample_store_ok(2)] fact_store_run [OF run] by blast
  obtain fs w3 where l: "fact_repo_list ''t1'' ''user'' ''place'' 5 w1 = (Inr fs, w3)"
    using fact_list_returns [OF ff, of "''t1''" "''user''" "''place''" 5] ok
    by (auto simp: sample_words store_ok_def facts_ok_def fact_row_ok_def)
  have "slot_of ''t1'' ''user'' ''place'' = fact_slot sample_fact"
    by (simp add: sample_slot)
  from fact_store_list_roundtrip [OF run refl sample_store_ok(2) l this]
  have "length (filter (\<lambda>x. row_slot x = fact_slot sample_fact) (db_facts (tabs w1))) \<le> 5 \<longrightarrow>
      (\<exists>g \<in> set fs. f_value g = ''Rome'')" by (auto simp: sample_fact_def sample_words)
  moreover have "length (filter (\<lambda>x. row_slot x = fact_slot sample_fact) (db_facts (tabs w1))) \<le> 5"
    using length_filter_le [of _ "db_facts (tabs w1)"] len by (metis le_trans one_le_numeral)
  ultimately show ?thesis using run l by blast
qed

lemma fact_invalidate_functional_witness:
  "\<exists>w'. fact_repo_invalidate ''t1'' ''User'' ''place'' ''Rome'' ''ef_1'' 5 (calm_world sample_store) = (Inr (), w') \<and>
     active_values (tabs w') (''t1'', ''user'', ''place'') \<subseteq> {''Rome''}"
proof -
  obtain w' where run: "fact_repo_invalidate ''t1'' ''User'' ''place'' ''Rome'' ''ef_1'' 5 (calm_world sample_store) = (Inr (), w')"
    by (simp add: fact_repo_invalidate_def normalize_entity_fact_value_def sample_words
        exec_def invalidate_facts_stmt_def calm_world_def is_zero_def zero_time_def Let_def)
  from fact_invalidate_functional [OF run] show ?thesis
    using run by (intro exI [of _ w']) (simp add: sample_slot sample_words fun_eq_iff)
qed

end
