(* ===== verification/FactPrep.thy ===== *)
theory FactPrep
  imports FactText Options
begin

text \<open>
  From parsed facts to facts that may be stored (\<open>store.go\<close>, \<open>fact_quality.go\<close>): cleaning, completing the
  entity triple, the question view, splitting compound facts, removing duplicates, choosing the best facts
  of the heuristic parser, and the facts derived from a raw turn. Regular expressions and the text
  heuristics built on them are an argument, the record \<open>fact_texts\<close>.
\<close>

section \<open>Text heuristics\<close>

record fact_texts =
  tx_parse :: "string \<Rightarrow> int \<Rightarrow> err + parsed_fact list"
  tx_anchor :: "string \<Rightarrow> string option"
  tx_canonical :: "string \<Rightarrow> string \<Rightarrow> string"
  tx_time_tag :: "string \<Rightarrow> bool"
  tx_infer :: "string \<Rightarrow> memory_kind \<Rightarrow> string \<times> string \<times> string"
  tx_infer_entity :: "string \<Rightarrow> string"
  tx_infer_value :: "string \<Rightarrow> string"
  tx_admits :: "string \<Rightarrow> parsed_fact \<Rightarrow> bool"
  tx_generic_view :: "string \<Rightarrow> bool"
  tx_answer :: "string \<Rightarrow> parsed_fact \<Rightarrow> answer_metadata"
  tx_informative :: "string \<Rightarrow> bool"
  tx_speech :: "string \<Rightarrow> bool"
  tx_chatter :: "string \<Rightarrow> bool"
  tx_temporal :: "string \<Rightarrow> parsed_fact \<Rightarrow> bool"
  tx_anchored :: "string \<Rightarrow> string \<Rightarrow> bool"
  tx_clauses :: "string \<Rightarrow> string list"
  tx_identity :: "string \<Rightarrow> string"
  tx_role :: "string \<Rightarrow> string"

text \<open>\<open>strings.Trim\<close> with a set of characters.\<close>

definition trim_chars :: "string \<Rightarrow> string \<Rightarrow> string" where
  "trim_chars cs s = rev (dropWhile (\<lambda>c. c \<in> set cs) (rev (dropWhile (\<lambda>c. c \<in> set cs) s)))"

definition blanks :: string where
  "blanks = [CHR '' '', CHR 0x09, CHR 0x0D, CHR 0x0A]"

section \<open>Contents and views\<close>

definition min_parsed_fact_content_length :: nat where
  "min_parsed_fact_content_length = 25"

text \<open>\<open>len([]rune(content))\<close> is the length of an ASCII text.\<close>

definition should_store_parsed_fact_content :: "fact_texts \<Rightarrow> string \<Rightarrow> bool" where
  "should_store_parsed_fact_content tx s =
     (let content = normalize_fact_content s in
      if content = [] then False
      else if min_parsed_fact_content_length \<le> length content then True
      else tx_informative tx content)"

definition filter_specific_query_view_text :: "fact_texts \<Rightarrow> string \<Rightarrow> string" where
  "filter_specific_query_view_text tx s =
     (if trim_space s = [] then []
      else join_with [CHR 0x0A] (filter (\<lambda>l. l \<noteq> [] \<and> \<not> tx_generic_view tx (to_lower l))
             (map normalize_fact_content (split_at (CHR 0x0A) s))))"

definition add_view :: "string \<Rightarrow> string list \<Rightarrow> string list" where
  "add_view s parts =
     (let t = normalize_fact_content s in
      if t = [] \<or> to_lower t \<in> to_lower ` set parts then parts else parts @ [t])"

definition question_lines :: "string \<Rightarrow> string \<Rightarrow> string \<Rightarrow> string list" where
  "question_lines relation entity v =
     (if relation = ''activity'' \<or> relation = ''preference'' then
        (if relation = ''preference'' then [''what does '' @ entity @ '' like'', ''what does '' @ entity @ '' prefer''] else []) @
        (if v \<noteq> [] then [''what does '' @ entity @ '' enjoy '' @ v] else [])
      else if relation = ''event'' then
        (if v \<noteq> [] then [''when did '' @ entity @ '' '' @ v, ''what event did '' @ entity @ '' attend '' @ v] else [])
      else if relation = ''place'' then
        [''where does '' @ entity @ '' live''] @ (if v \<noteq> [] then [''where did '' @ entity @ '' go '' @ v] else [])
      else if relation = ''book'' then [''what did '' @ entity @ '' read'']
      else if relation = ''identity'' then [''what is '' @ entity @ '' identity'', ''how does '' @ entity @ '' identify'']
      else if relation = ''role'' then [''what is '' @ entity @ '' job'']
      else if relation = ''relationship'' then
        [''who is connected to '' @ entity, ''what relationships does '' @ entity @ '' have'']
      else if relation = ''relationship status'' then [''what is '' @ entity @ '' relationship status'']
      else if relation = ''belief'' then [''what does '' @ entity @ '' believe'']
      else if relation = ''value'' then [''what does '' @ entity @ '' value'']
      else if relation = ''trait'' then [''what is '' @ entity @ '' like'']
      else if relation = ''plan'' then
        [''what is '' @ entity @ '' planning''] @ (if v \<noteq> [] then [''when will '' @ entity @ '' '' @ v] else [])
      else if relation = ''goal'' then [''what is '' @ entity @ '' goal'', ''what is '' @ entity @ '' trying to achieve'']
      else [])"

definition build_fact_question_view :: "fact_texts \<Rightarrow> parsed_fact \<Rightarrow> string" where
  "build_fact_question_view tx f =
     (let e0 = trim_space (pf_entity f);
          entity = join_with '' '' (Prelude.fields (if e0 = [] then tx_infer_entity tx (pf_content f) else e0)) in
      if entity = [] then []
      else let v0 = normalize_entity_fact_value (pf_value f);
               v = (if v0 = [] then tx_infer_value tx (pf_content f) else v0) in
           filter_specific_query_view_text tx (join_with [CHR 0x0A]
             (fold add_view (question_lines (normalize_entity_fact_relation (pf_relation f)) entity v) [])))"

section \<open>Duplicates\<close>

definition dedupe_cut :: string where
  "dedupe_cut = blanks @ ''.,;:!?'' @ [CHR 0x22, CHR 0x27]"

definition prepared_fact_dedupe_key :: "parsed_fact \<Rightarrow> string" where
  "prepared_fact_dedupe_key f =
     (let content = to_lower (trim_chars dedupe_cut (trim_space (pf_content f))) in
      case normalized_relation_tuple_key f of Some k \<Rightarrow> content @ ''|'' @ k | None \<Rightarrow> content)"

definition dedupe_prepared_facts :: "parsed_fact list \<Rightarrow> parsed_fact list" where
  "dedupe_prepared_facts fs = uniq_on prepared_fact_dedupe_key [] fs"

section \<open>Compound facts\<close>

definition split_compound_fact_clauses :: "fact_texts \<Rightarrow> string \<Rightarrow> string \<Rightarrow> string list option" where
  "split_compound_fact_clauses tx content0 entity0 =
     (let content = normalize_fact_content content0; entity = normalize_fact_content entity0 in
      if content = [] \<or> entity = [] then None
      else let parts = tx_clauses tx content in
        if length parts < 2 \<or> 3 < length parts then None
        else let clauses = map (\<lambda>p. normalize_fact_content (trim_chars (blanks @ '',;'') p)) parts in
          if \<exists>c \<in> set clauses. c = [] \<or> \<not> has_prefix (to_lower c) (to_lower entity @ '' '') then None
          else Some clauses)"

definition complete_entity :: "fact_texts \<Rightarrow> parsed_fact \<Rightarrow> parsed_fact" where
  "complete_entity tx f =
     (if trim_space (pf_entity f) = [] \<and> (trim_space (pf_relation f) \<noteq> [] \<or> trim_space (pf_value f) \<noteq> [])
      then let e = tx_infer_entity tx (pf_content f) in f\<lparr>pf_entity := (if trim_space e = [] then ''user'' else e)\<rparr>
      else f)"

definition with_views :: "fact_texts \<Rightarrow> string \<Rightarrow> bool \<Rightarrow> parsed_fact \<Rightarrow> parsed_fact" where
  "with_views tx source retain f =
     (let g = f\<lparr>pf_query_view := filter_specific_query_view_text tx (build_fact_question_view tx f)\<rparr> in
      if retain then g\<lparr>pf_answer_metadata := tx_answer tx source g\<rparr> else g)"

definition clause_fact :: "fact_texts \<Rightarrow> parsed_fact \<Rightarrow> string \<Rightarrow> parsed_fact" where
  "clause_fact tx f clause =
     (let c = f\<lparr>pf_content := clause\<rparr>; (e, r, v) = tx_infer tx clause (pf_kind c);
          c1 = (if trim_space e \<noteq> [] then c\<lparr>pf_entity := e\<rparr>
                else if trim_space (pf_entity c) = [] then c\<lparr>pf_entity := tx_infer_entity tx clause\<rparr> else c);
          c2 = (if trim_space r \<noteq> [] then c1\<lparr>pf_relation := r\<rparr> else c1);
          c3 = (if trim_space v \<noteq> [] then c2\<lparr>pf_value := v\<rparr> else c2) in
      complete_entity tx c3)"

definition expand_compound_prepared_facts :: "fact_texts \<Rightarrow> string \<Rightarrow> parsed_fact \<Rightarrow> bool \<Rightarrow> parsed_fact list" where
  "expand_compound_prepared_facts tx source f retain =
     (let e0 = trim_space (pf_entity f); entity = (if e0 = [] then tx_infer_entity tx (pf_content f) else e0) in
      case split_compound_fact_clauses tx (pf_content f) entity of
        None \<Rightarrow> [f]
      | Some clauses \<Rightarrow>
          if length clauses < 2 then [f]
          else let cs = map (clause_fact tx f) clauses in
            if \<exists>c \<in> set cs. \<not> tx_admits tx source c then [f]
            else map (with_views tx source retain) cs)"

section \<open>Preparing\<close>

definition complete_triple :: "fact_texts \<Rightarrow> parsed_fact \<Rightarrow> parsed_fact" where
  "complete_triple tx f =
     (if parsed_fact_has_entity_triple f then f
      else let (e, r, v) = tx_infer tx (pf_content f) (pf_kind f) in
        f\<lparr>pf_entity := (if trim_space (pf_entity f) = [] then e else pf_entity f),
          pf_relation := (if trim_space (pf_relation f) = [] then r else pf_relation f),
          pf_value := (if trim_space (pf_value f) = [] then v else pf_value f)\<rparr>)"

definition prepare_parsed_fact :: "fact_texts \<Rightarrow> string \<Rightarrow> bool \<Rightarrow> parsed_fact \<Rightarrow> parsed_fact list" where
  "prepare_parsed_fact tx source retain f =
     (let content0 = normalize_fact_content (tx_canonical tx source (pf_content f)) in
      if \<not> should_store_parsed_fact_content tx content0 then []
      else let content = (case tx_anchor tx source of
              Some anchor \<Rightarrow> (if \<not> tx_time_tag tx (to_lower content0) then ''On '' @ anchor @ '', '' @ content0 else content0)
            | None \<Rightarrow> content0);
            g = complete_entity tx (complete_triple tx (f\<lparr>pf_content := content\<rparr>)) in
        if \<not> tx_admits tx source g then []
        else expand_compound_prepared_facts tx source (with_views tx source retain g) retain)"

definition prepare_parsed_facts_for_store :: "fact_texts \<Rightarrow> string \<Rightarrow> parsed_fact list \<Rightarrow> bool \<Rightarrow> parsed_fact list" where
  "prepare_parsed_facts_for_store tx source fs retain =
     (if fs = [] then []
      else dedupe_prepared_facts (concat (map (prepare_parsed_fact tx source retain) fs)))"

section \<open>Choosing\<close>

definition should_drop_heuristic_speech_fact :: "fact_texts \<Rightarrow> parsed_fact \<Rightarrow> bool" where
  "should_drop_heuristic_speech_fact tx f =
     (let content = to_lower (normalize_fact_content (pf_content f)) in
      if \<not> tx_speech tx content then False
      else if str_contains content ''said that'' then True
      else let v0 = normalize_entity_fact_value (pf_value f);
               candidate = to_lower (normalize_fact_content (if v0 = [] then tx_infer_value tx (pf_content f) else v0)) in
        if candidate = [] then True
        else if tx_chatter tx candidate then True
        else length (Prelude.fields candidate) < 3)"

definition heuristic_fact_confidence_score :: "fact_texts \<Rightarrow> string \<Rightarrow> parsed_fact \<Rightarrow> int" where
  "heuristic_fact_confidence_score tx source f =
     (let content = normalize_fact_content (pf_content f) in
      if content = [] then - 100
      else let relation = normalize_entity_fact_relation (pf_relation f);
               e0 = trim_space (pf_entity f); entity = (if e0 = [] then tx_infer_entity tx content else e0);
               v0 = normalize_entity_fact_value (pf_value f); v = (if v0 = [] then tx_infer_value tx content else v0) in
        (if relation \<noteq> [] \<and> relation \<noteq> ''unknown'' then 4 else 0) + (if entity \<noteq> [] then 2 else 0) +
        (if 2 \<le> length (Prelude.fields v) then 2 else 0) + (if trim_space (pf_query_view f) \<noteq> [] then 1 else 0) +
        (if tx_temporal tx content f \<and> tx_anchored tx source content then 1 else 0) -
        (if tx_speech tx (to_lower content) then 5 else 0) - (if 220 < length content then 1 else 0))"

definition optimize_prepared_facts_for_parser ::
  "fact_texts \<Rightarrow> string \<Rightarrow> parsed_fact list \<Rightarrow> string \<Rightarrow> int \<Rightarrow> parsed_fact list" where
  "optimize_prepared_facts_for_parser tx source fs provider0 max_facts =
     (if fs = [] then []
      else let heuristic = (to_lower (trim_space provider0) = ''heuristic'');
               filtered = dedupe_prepared_facts (filter (\<lambda>f. \<not> (heuristic \<and> should_drop_heuristic_speech_fact tx f)) fs) in
        if \<not> heuristic \<or> length filtered \<le> 1 then filtered
        else let sorted = sort_key (\<lambda>f. (- heuristic_fact_confidence_score tx source f, length (pf_content f))) filtered;
                 limit = (if 0 < max_facts \<and> max_facts < 2 then max_facts else 2) in
          if limit \<le> 0 \<or> int (length sorted) \<le> limit then sorted else take (nat limit) sorted)"

section \<open>Facts derived from a raw turn\<close>

fun filter_canonical_from :: "structured_options \<Rightarrow> int \<Rightarrow> int \<Rightarrow> parsed_fact list \<Rightarrow> parsed_fact list" where
  "filter_canonical_from opts observations events [] = []"
| "filter_canonical_from opts observations events (f # fs) =
     (if pf_kind f = KindEvent then
        (if \<not> so_dual_write_events opts \<or> 1 \<le> events then filter_canonical_from opts observations events fs
         else f # filter_canonical_from opts observations (events + 1) fs)
      else
        (if \<not> so_dual_write_observations opts \<or> max 1 (so_max_observations opts) \<le> observations
         then filter_canonical_from opts observations events fs
         else f # filter_canonical_from opts (observations + 1) events fs))"

definition filter_canonical_structured_facts :: "parsed_fact list \<Rightarrow> structured_options \<Rightarrow> parsed_fact list" where
  "filter_canonical_structured_facts fs opts = filter_canonical_from opts 0 0 fs"

definition structured_canonical_parse_limit :: "structured_options \<Rightarrow> int" where
  "structured_canonical_parse_limit opts =
     max 1 (so_max_observations opts) + (if so_dual_write_observations opts then max 1 (so_max_observations opts) else 0) +
     (if so_dual_write_events opts then 1 else 0)"

definition embedding_text_for_parsed_fact :: "fact_texts \<Rightarrow> parsed_fact \<Rightarrow> string" where
  "embedding_text_for_parsed_fact tx f =
     (let content = normalize_fact_content (pf_content f);
          view = filter_specific_query_view_text tx (normalize_fact_content (pf_query_view f)) in
      if view = [] then content else content @ [CHR 0x0A] @ view)"

section \<open>Values of entity facts\<close>

definition normalize_entity_fact_value_for_relation :: "fact_texts \<Rightarrow> string \<Rightarrow> string \<Rightarrow> string \<Rightarrow> string" where
  "normalize_entity_fact_value_for_relation tx relation0 value0 content0 =
     (let relation = normalize_entity_fact_relation relation0; v0 = normalize_entity_fact_value value0;
          content = normalize_fact_content content0; v = (if v0 = [] then tx_infer_value tx content else v0);
          both = v @ '' '' @ content in
      if relation = ''relationship status'' then
        (let lowered = to_lower (trim_space both) in
         if str_contains lowered ''single'' then ''single''
         else if str_contains lowered ''married'' then ''married''
         else if str_contains lowered ''divorc'' then ''divorced''
         else if str_contains lowered ''engaged'' then ''engaged''
         else if str_contains lowered ''widowed'' then ''widowed''
         else if str_contains lowered ''separated'' then ''separated''
         else if str_contains lowered ''dating'' \<or> str_contains lowered ''in a relationship'' then ''dating''
         else v)
      else if relation = ''identity'' then
        (let m = tx_identity tx (to_lower both) in if m \<noteq> [] then trim_space m else v)
      else if relation = ''role'' then
        (let m = tx_role tx (to_lower both) in if m \<noteq> [] then trim_space m else v)
      else v)"

definition build_entity_fact_record :: "fact_texts \<Rightarrow> memory \<Rightarrow> parsed_fact \<Rightarrow> entity_fact option" where
  "build_entity_fact_record tx m f =
     (if trim_space (m_id m) = [] then None
      else let entity = normalize_entity_fact_entity (pf_entity f);
               raw = normalize_entity_fact_raw_relation (pf_relation f);
               relation = normalize_entity_fact_relation (pf_relation f);
               v = normalize_entity_fact_value_for_relation tx relation (pf_value f) (pf_content f) in
        if entity = [] \<or> relation = [] \<or> v = [] then None
        else Some \<lparr>f_id = [], f_tenant = m_tenant m, f_entity = entity, f_relation = relation,
          f_relation_raw = (if raw = [] then relation else raw), f_value = v, f_memory = m_id m,
          f_created_at = zero_time, f_observed_at = zero_time, f_valid_from = zero_time, f_valid_to = None,
          f_invalidated_by = [], f_confidence = 0\<rparr>)"

section \<open>Lemmas\<close>

lemma dedupe_keys:
  "distinct (map prepared_fact_dedupe_key (dedupe_prepared_facts fs))"
  "prepared_fact_dedupe_key ` set (dedupe_prepared_facts fs) = prepared_fact_dedupe_key ` set fs"
  "set (dedupe_prepared_facts fs) \<subseteq> set fs"
  unfolding dedupe_prepared_facts_def by (rule distinct_uniq_on, rule keys_uniq_on, rule set_uniq_on)

lemma prepare_parsed_fact_admitted:
  "g \<in> set (prepare_parsed_fact tx source retain f) \<Longrightarrow> \<exists>h. tx_admits tx source h \<and> g = with_views tx source retain h"
  by (auto simp: prepare_parsed_fact_def expand_compound_prepared_facts_def Let_def split: if_splits option.splits)

text \<open>Facts prepared for storing have pairwise different keys (content without case and outer punctuation,
  and normalised triple), every one of them has passed admission and then got its question view and its
  answer span; nothing is prepared from nothing.\<close>

theorem prepared_facts_functional:
  "distinct (map prepared_fact_dedupe_key (prepare_parsed_facts_for_store tx source fs retain)) \<and>
   {g \<in> set (prepare_parsed_facts_for_store tx source fs retain).
      \<nexists>h. tx_admits tx source h \<and> g = with_views tx source retain h} = {} \<and>
   prepare_parsed_facts_for_store tx source [] retain = []"
proof -
  let ?all = "concat (map (prepare_parsed_fact tx source retain) fs)"
  have "\<exists>h. tx_admits tx source h \<and> g = with_views tx source retain h"
    if "g \<in> set (prepare_parsed_facts_for_store tx source fs retain)" for g
  proof -
    have "g \<in> set ?all" using that dedupe_keys(3) [of ?all] by (auto simp: prepare_parsed_facts_for_store_def split: if_splits)
    then show ?thesis using prepare_parsed_fact_admitted by auto
  qed
  then show ?thesis using dedupe_keys(1) [of ?all] by (auto simp: prepare_parsed_facts_for_store_def)
qed

lemma take_at_most: "0 < n \<Longrightarrow> (if n \<le> 0 \<or> int (length xs) \<le> n then xs else take (nat n) xs) = take (nat n) xs"
  by auto

lemma optimize_heuristic:
  assumes "to_lower (trim_space provider) = ''heuristic''" "fs \<noteq> []"
  shows "optimize_prepared_facts_for_parser tx source fs provider n =
    (let filtered = dedupe_prepared_facts (filter (\<lambda>f. \<not> should_drop_heuristic_speech_fact tx f) fs) in
     if length filtered \<le> 1 then filtered
     else let sorted = sort_key (\<lambda>f. (- heuristic_fact_confidence_score tx source f, length (pf_content f))) filtered;
              limit = (if 0 < n \<and> n < 2 then n else 2) in
       if limit \<le> 0 \<or> int (length sorted) \<le> limit then sorted else take (nat limit) sorted)"
  unfolding optimize_prepared_facts_for_parser_def
  using assms by (simp only: Let_def refl if_False not_True_eq_False simp_thms)

text \<open>Of the facts of the heuristic parser at most two are kept, or one if one is asked for, none of them
  mere speech and no two with the same key; whatever is left out is speech, a duplicate of a candidate, or
  scores no higher than every fact kept. Facts of other parsers are all kept, but for duplicates.\<close>

theorem optimized_facts_functional:
  assumes "to_lower (trim_space provider) = ''heuristic''"
  shows "let kept = optimize_prepared_facts_for_parser tx source fs provider n in
      length kept \<le> 2 \<and> (n = 1 \<longrightarrow> length kept \<le> 1) \<and> set kept \<subseteq> set fs \<and> distinct (map prepared_fact_dedupe_key kept) \<and>
      (\<forall>f \<in> set kept. \<not> should_drop_heuristic_speech_fact tx f) \<and>
      (\<forall>g \<in> set fs. \<not> should_drop_heuristic_speech_fact tx g \<longrightarrow>
         (\<exists>h \<in> set fs. prepared_fact_dedupe_key h = prepared_fact_dedupe_key g \<and>
           (h \<in> set kept \<or> (\<forall>f \<in> set kept. heuristic_fact_confidence_score tx source h \<le> heuristic_fact_confidence_score tx source f))))"
proof -
  let ?kept = "optimize_prepared_facts_for_parser tx source fs provider n"
  let ?c = "filter (\<lambda>f. \<not> should_drop_heuristic_speech_fact tx f) fs" and ?d = "dedupe_prepared_facts"
  let ?key = "\<lambda>f. (- heuristic_fact_confidence_score tx source f, length (pf_content f))"
  let ?limit = "nat (if 0 < n \<and> n < 2 then n else 2)"
  have kept: "(length (?d ?c) \<le> 1 \<and> ?kept = ?d ?c) \<or> ?kept = take ?limit (sort_key ?key (?d ?c))"
  proof (cases "fs = []")
    case True
    then show ?thesis by (simp add: optimize_prepared_facts_for_parser_def dedupe_prepared_facts_def)
  next
    case False
    have "0 < (if 0 < n \<and> n < 2 then n else 2)" by simp
    note take = take_at_most [OF this, of "sort_key ?key (?d ?c)"]
    have "?kept = (if length (?d ?c) \<le> 1 then ?d ?c else take ?limit (sort_key ?key (?d ?c)))"
      unfolding optimize_heuristic [OF assms False] Let_def take ..
    then show ?thesis by (cases "length (?d ?c) \<le> 1") (simp_all only: if_True if_False simp_thms)
  qed
  have "set (take ?limit (sort_key ?key (?d ?c))) \<subseteq> set (?d ?c)" 
    using set_take_subset [of ?limit "sort_key ?key (?d ?c)"] by (simp only: set_sort)
  with kept have sub: "set ?kept \<subseteq> set (?d ?c)" by (elim disjE conjE) (simp_all only: subset_refl)
  have "distinct (map prepared_fact_dedupe_key (sort_key ?key (?d ?c)))"
    using dedupe_keys(1) [of ?c] mset_eq_imp_distinct_iff [of "map prepared_fact_dedupe_key (sort_key ?key (?d ?c))"
      "map prepared_fact_dedupe_key (?d ?c)"] by (simp only: mset_map mset_sort)
  then have "distinct (map prepared_fact_dedupe_key ?kept)"
    using kept dedupe_keys(1) [of ?c] distinct_take [of "map prepared_fact_dedupe_key (sort_key ?key (?d ?c))" ?limit]
    by (elim disjE conjE) (simp_all only: take_map)
  moreover have "length ?kept \<le> 2 \<and> (n = 1 \<longrightarrow> length ?kept \<le> 1)" using kept by auto
  moreover have "\<exists>h \<in> set fs. prepared_fact_dedupe_key h = prepared_fact_dedupe_key g \<and>
      (h \<in> set ?kept \<or> (\<forall>f \<in> set ?kept. heuristic_fact_confidence_score tx source h \<le> heuristic_fact_confidence_score tx source f))"
    if "g \<in> set fs" "\<not> should_drop_heuristic_speech_fact tx g" for g
  proof -
    have "prepared_fact_dedupe_key g \<in> prepared_fact_dedupe_key ` set (?d ?c)" using that dedupe_keys(2) [of ?c] by simp
    then obtain h where h: "h \<in> set (?d ?c)" "prepared_fact_dedupe_key h = prepared_fact_dedupe_key g" by (metis imageE)
    moreover have "h \<in> set fs" using h(1) dedupe_keys(3) [of ?c] by auto
    moreover have "heuristic_fact_confidence_score tx source h \<le> heuristic_fact_confidence_score tx source f"
      if "f \<in> set ?kept" "h \<notin> set ?kept" for f
    proof -
      from kept h(1) that have "?kept = take ?limit (sort_key ?key (?d ?c))" by auto
      with that h(1) have "?key f \<le> ?key h" using sort_key_min [of f ?limit ?key "?d ?c" h] by simp
      then show ?thesis by auto
    qed
    ultimately show ?thesis by blast
  qed
  ultimately show ?thesis using sub dedupe_keys(3) [of ?c] unfolding Let_def by auto
qed

lemma filter_canonical_counts:
  "0 \<le> observations \<Longrightarrow> 0 \<le> events \<Longrightarrow>
   int (length (filter (\<lambda>f. pf_kind f = KindEvent) (filter_canonical_from opts observations events fs))) \<le>
     (if so_dual_write_events opts then max 0 (1 - events) else 0) \<and>
   int (length (filter (\<lambda>f. pf_kind f \<noteq> KindEvent) (filter_canonical_from opts observations events fs))) \<le>
     (if so_dual_write_observations opts then max 0 (max 1 (so_max_observations opts) - observations) else 0) \<and>
   set (filter_canonical_from opts observations events fs) \<subseteq> set fs"
proof (induction fs arbitrary: observations events)
  case (Cons f fs)
  have subset: "set xs \<subseteq> set fs \<Longrightarrow> set xs \<subseteq> set (f # fs)" "set xs \<subseteq> set fs \<Longrightarrow> set (f # xs) \<subseteq> set (f # fs)" for xs by auto
  show ?case
  proof (cases "pf_kind f = KindEvent")
    case True
    show ?thesis
    proof (cases "\<not> so_dual_write_events opts \<or> 1 \<le> events")
      case skip: True
      with True Cons.IH [OF Cons.prems] show ?thesis using subset(1) by simp
    next
      case False
      with True Cons.IH [of observations "events + 1"] Cons.prems show ?thesis
        using subset(2) [of "filter_canonical_from opts observations (events + 1) fs"] by simp
    qed
  next
    case no: False
    show ?thesis
    proof (cases "\<not> so_dual_write_observations opts \<or> max 1 (so_max_observations opts) \<le> observations")
      case True
      with no Cons.IH [OF Cons.prems] show ?thesis using subset(1) by simp
    next
      case False
      define L where "L = max 1 (so_max_observations opts)"
      let ?rest = "filter_canonical_from opts (observations + 1) events fs"
      from False no have eq: "filter_canonical_from opts observations events (f # fs) = f # ?rest" by auto
      have "observations < L" and obs: "so_dual_write_observations opts" using False unfolding L_def by linarith+
      then have "max 0 (L - (observations + 1)) + 1 = max 0 (L - observations)" by simp
      with obs no Cons.IH [of "observations + 1" events] Cons.prems show ?thesis
        unfolding eq L_def [symmetric] using subset(2) [of ?rest] by simp
    qed
  qed
qed simp

text \<open>The facts derived from a raw turn are some of the prepared ones: at most one event, and only if events
  are written, and at most the configured number of observations (but at least one), and only if
  observations are written; so there are never more than the number of facts asked from the parser.\<close>

theorem derived_facts_bounded:
  "set (filter_canonical_structured_facts fs opts) \<subseteq> set fs \<and>
   int (length (filter (\<lambda>f. pf_kind f = KindEvent) (filter_canonical_structured_facts fs opts))) \<le>
     (if so_dual_write_events opts then 1 else 0) \<and>
   int (length (filter (\<lambda>f. pf_kind f \<noteq> KindEvent) (filter_canonical_structured_facts fs opts))) \<le>
     (if so_dual_write_observations opts then max 1 (so_max_observations opts) else 0) \<and>
   int (length (filter_canonical_structured_facts fs opts)) \<le> structured_canonical_parse_limit opts"
proof -
  have "length (filter_canonical_structured_facts fs opts) =
      length (filter (\<lambda>f. pf_kind f = KindEvent) (filter_canonical_structured_facts fs opts)) +
      length (filter (\<lambda>f. pf_kind f \<noteq> KindEvent) (filter_canonical_structured_facts fs opts))"
    by (simp add: sum_length_filter_compl)
  with filter_canonical_counts [of 0 0 opts fs] show ?thesis
    by (auto simp: filter_canonical_structured_facts_def structured_canonical_parse_limit_def split: if_splits)
qed

section \<open>Witnesses\<close>

text \<open>Simple heuristics, for concrete runs.\<close>

definition sample_texts :: fact_texts where
  "sample_texts = \<lparr>tx_parse = (\<lambda>_ _. Inr []), tx_anchor = (\<lambda>_. None), tx_canonical = (\<lambda>_ c. c), tx_time_tag = (\<lambda>_. False),
     tx_infer = (\<lambda>_ _. ([], [], [])), tx_infer_entity = (\<lambda>_. []), tx_infer_value = (\<lambda>_. []), tx_admits = (\<lambda>_ _. True),
     tx_generic_view = (\<lambda>_. False), tx_answer = (\<lambda>_ _. empty_metadata), tx_informative = (\<lambda>_. True),
     tx_speech = (\<lambda>_. False), tx_chatter = (\<lambda>_. False), tx_temporal = (\<lambda>_ _. False), tx_anchored = (\<lambda>_ _. False),
     tx_clauses = (\<lambda>c. [c]), tx_identity = (\<lambda>_. []), tx_role = (\<lambda>_. [])\<rparr>"

definition sample_parsed_fact :: parsed_fact where
  "sample_parsed_fact = \<lparr>pf_content = ''Ann lives in Rome'', pf_query_view = [], pf_kind = KindObservation, pf_tags = [''city''],
     pf_entity = ''Ann'', pf_relation = ''place'', pf_value = ''Rome'', pf_answer_metadata = empty_metadata\<rparr>"

lemma optimized_facts_functional_witness:
  "length (optimize_prepared_facts_for_parser sample_texts [] [sample_parsed_fact, sample_parsed_fact\<lparr>pf_value := ''Bern''\<rparr>]
     '' Heuristic'' 1) \<le> 1"
proof -
  have "to_lower (trim_space '' Heuristic'') = ''heuristic''" by code_simp
  from optimized_facts_functional [OF this, of sample_texts "[]" _ 1] show ?thesis by (simp add: Let_def)
qed

end
