(* ===== verification/MemoryService.thy ===== *)
theory MemoryService
  imports VectorStore TenantService EntityRepo FactPrep
begin

text \<open>
  The memory service of \<open>core/memory\<close> over the SQLite repository: admission of inputs, tiers, scoring and
  embedding of contents, the vector index and its recorded states, reading and deleting single memories,
  asynchronous ingest. Embedder, scorer and fact parser are models behind a network: each call may return
  anything and something else every time, so it is a function of the call and of the number of effects so
  far. Storing synchronously is in \<open>StoreService\<close>.
\<close>

section \<open>Collaborators\<close>

definition remote :: "(nat \<Rightarrow> err + 'a) \<Rightarrow> ('t, 'a) act" where
  "remote f w = (f (steps w), tick w)"

record embedder =
  em_embed :: "string \<Rightarrow> nat \<Rightarrow> err + real list"
  em_batch :: "(string list \<Rightarrow> nat \<Rightarrow> err + real list list) option"

record scorer =
  sc_score :: "string \<Rightarrow> nat \<Rightarrow> err + real"
  sc_batch :: "(string list \<Rightarrow> nat \<Rightarrow> err + real list) option"

record store_input =
  si_tenant :: string
  si_content :: string
  si_tier :: memory_tier
  si_kind :: memory_kind
  si_tags :: "string list"
  si_source :: string
  si_created_by :: memory_created_by
  si_answer_metadata :: answer_metadata

record prepared_input =
  pi_idx :: nat
  pi_input :: store_input
  pi_tier :: memory_tier
  pi_kind :: memory_kind

text \<open>The service: nil interfaces are \<open>None\<close>, \<open>ms_error_text\<close> is \<open>err.Error()\<close>.\<close>

record service =
  ms_engine :: fts_engine
  ms_vector :: "vector_store option"
  ms_embedder :: "embedder option"
  ms_scorer :: "scorer option"
  ms_parser :: parser_options
  ms_structured :: structured_options
  ms_multi_hop :: multi_hop_options
  ms_entity :: "fact_store option"
  ms_info_parser :: "(string \<Rightarrow> int \<Rightarrow> nat \<Rightarrow> err + parsed_fact list) option"
  ms_texts :: fact_texts
  ms_error_text :: "err \<Rightarrow> string"

section \<open>Tiers\<close>

definition semantic_tag_signals :: "string list" where
  "semantic_tag_signals = [''preference'', ''preferences'', ''profile'', ''identity'', ''always'', ''user'']"

definition semantic_content_signals :: "string list" where
  "semantic_content_signals = [''user prefers'', ''i prefer'', ''always'', ''never'', ''remember this'',
     ''my name is'', ''i live in'', ''call me'']"

definition should_promote_to_semantic :: "store_input \<Rightarrow> bool" where
  "should_promote_to_semantic inp \<longleftrightarrow>
     si_created_by inp = ByUser \<or> si_created_by inp = BySystem \<or>
     (\<exists>tag \<in> set (si_tags inp). to_lower (trim_space tag) \<in> set semantic_tag_signals) \<or>
     (\<exists>signal \<in> set semantic_content_signals. str_contains (to_lower (trim_space (si_content inp))) signal)"

definition resolve_tier :: "store_input \<Rightarrow> memory_tier" where
  "resolve_tier inp =
     (case si_tier inp of
        TierWorking \<Rightarrow> TierWorking | TierEpisodic \<Rightarrow> TierEpisodic | TierSemantic \<Rightarrow> TierSemantic
      | TierAuto \<Rightarrow> (if should_promote_to_semantic inp then TierSemantic else TierEpisodic)
      | TierOther s \<Rightarrow> (if s = [] then (if should_promote_to_semantic inp then TierSemantic else TierEpisodic)
                       else TierOther s))"

section \<open>Admission\<close>

definition ensure_tenant_exists :: "string \<Rightarrow> unit db_act" where
  "ensure_tenant_exists t =
     bind_act (tenant_repo_exists t) (\<lambda>e. if \<not> e then fail_act ErrNotFound else return_act ())"

fun prepare_inputs_from :: "string list \<Rightarrow> nat \<Rightarrow> store_input list \<Rightarrow> prepared_input list db_act" where
  "prepare_inputs_from checked i [] = return_act []"
| "prepare_inputs_from checked i (inp # ins) =
     (let t = trim_space (si_tenant inp) in
      if t = [] \<or> trim_space (si_content inp) = [] then fail_act ErrInvalidInput
      else bind_act (if t \<in> set checked then return_act () else ensure_tenant_exists t) (\<lambda>_.
           let inp1 = inp\<lparr>si_tenant := t\<rparr> in
           bind_act (prepare_inputs_from (t # checked) (i + 1) ins) (\<lambda>rest.
           return_act (\<lparr>pi_idx = i, pi_input = inp1, pi_tier = resolve_tier inp1,
                        pi_kind = resolve_kind (si_kind inp1)\<rparr> # rest))))"

definition err_not_initialized :: err where
  "err_not_initialized = ErrMsg ''memory service dependencies are not initialized''"

definition prepare_store_inputs :: "service \<Rightarrow> store_input list \<Rightarrow> prepared_input list db_act" where
  "prepare_store_inputs sv inputs =
     (if ms_scorer sv = None \<or> ms_embedder sv = None \<or> ms_vector sv = None then fail_act err_not_initialized
      else prepare_inputs_from [] 0 inputs)"

section \<open>Scores and embeddings\<close>

definition clamp_score :: "real \<Rightarrow> real" where
  "clamp_score s = (let a = (if s < 0 then 0 else s) in if a > 1 then 1 else a)"

definition score_contents :: "scorer \<Rightarrow> string list \<Rightarrow> real list db_act" where
  "score_contents sc contents =
     (let single = bind_act (map_act (\<lambda>c. remote (sc_score sc c)) contents) (\<lambda>xs. return_act (map clamp_score xs)) in
      if contents = [] then return_act []
      else case sc_batch sc of
        None \<Rightarrow> single
      | Some batch \<Rightarrow> try_act (remote (batch contents)) (\<lambda>r. case r of
            Inl _ \<Rightarrow> single
          | Inr scores \<Rightarrow> if length scores \<noteq> length contents
              then fail_act (ErrMsg ''batch importance score count mismatch'')
              else return_act (map clamp_score scores)))"

definition embed_one :: "embedder \<Rightarrow> string \<Rightarrow> real list db_act" where
  "embed_one em c = bind_act (remote (em_embed em c)) (\<lambda>v.
     if v = [] then fail_act (ErrMsg ''embedding vector is empty'') else return_act v)"

definition embed_contents :: "embedder \<Rightarrow> string list \<Rightarrow> real list list db_act" where
  "embed_contents em contents =
     (let single = map_act (embed_one em) contents in
      if contents = [] then return_act []
      else case em_batch em of
        None \<Rightarrow> single
      | Some batch \<Rightarrow> try_act (remote (batch contents)) (\<lambda>r. case r of
            Inl _ \<Rightarrow> single
          | Inr vs \<Rightarrow> if length vs \<noteq> length contents
              then fail_act (ErrMsg ''batch embedding count mismatch'')
              else if [] \<in> set vs then fail_act (ErrMsg ''batch embedding vector is empty'')
              else return_act vs))"

section \<open>Index states and vectors\<close>

definition mark_state :: "service \<Rightarrow> string \<Rightarrow> string list \<Rightarrow> index_op \<Rightarrow> index_state \<Rightarrow> err option \<Rightarrow> unit db_act" where
  "mark_state sv t ids op st e = ignore_act (mark_index_state t ids op st
     (case e of None \<Rightarrow> [] | Some x \<Rightarrow> trim_space (ms_error_text sv x)))"

fun upsert_loop :: "service \<Rightarrow> vector_store \<Rightarrow> string \<Rightarrow> string list \<Rightarrow> (memory \<times> real list) list \<Rightarrow> unit db_act" where
  "upsert_loop sv vs t indexed [] =
     (if indexed \<noteq> [] then mark_state sv t indexed OpUpsert IxIndexed None else return_act ())"
| "upsert_loop sv vs t indexed ((m, e) # rest) =
     try_act (vs_upsert vs (m_tenant m) (m_id m) e) (\<lambda>r. case r of
         Inl x \<Rightarrow>
           bind_act (if indexed \<noteq> [] then mark_state sv t indexed OpUpsert IxIndexed None else return_act ()) (\<lambda>_.
           bind_act (mark_state sv t (m_id m # map (\<lambda>p. m_id (fst p)) rest) OpUpsert IxFailed (Some x)) (\<lambda>_.
           fail_act x))
       | Inr _ \<Rightarrow> upsert_loop sv vs t (indexed @ [m_id m]) rest)"

definition vector_upserts :: "memory list \<Rightarrow> real list list \<Rightarrow> vector_upsert list" where
  "vector_upserts stored embs = map (\<lambda>(m, e). \<lparr>vu_tenant = m_tenant m, vu_memory = m_id m, vu_embedding = e\<rparr>)
     (zip stored embs)"

definition upsert_stored_embeddings :: "service \<Rightarrow> vector_store \<Rightarrow> memory list \<Rightarrow> real list list \<Rightarrow> unit db_act" where
  "upsert_stored_embeddings sv vs stored embs =
     (if length stored \<noteq> length embs then fail_act (ErrMsg ''upsert embedding mismatch'')
      else if stored = [] then return_act ()
      else let ids = map m_id stored; t = m_tenant (hd stored) in
        bind_act (mark_state sv t ids OpUpsert IxPending None) (\<lambda>_.
        case vs_upsert_batch vs of
          Some batch \<Rightarrow> try_act (batch (vector_upserts stored embs)) (\<lambda>r. case r of
              Inl x \<Rightarrow> bind_act (mark_state sv t ids OpUpsert IxFailed (Some x)) (\<lambda>_. fail_act x)
            | Inr _ \<Rightarrow> mark_state sv t ids OpUpsert IxIndexed None)
        | None \<Rightarrow> upsert_loop sv vs t [] (zip stored embs)))"

section \<open>Storing\<close>

definition store_in_repo :: "memory list \<Rightarrow> memory list db_act" where
  "store_in_repo ms = (if ms = [] then return_act [] else repo_store_batch (map apply_implicit_memory_identity ms))"

definition memory_of_input :: "prepared_input \<Rightarrow> real \<Rightarrow> memory" where
  "memory_of_input p score =
     zero_memory\<lparr>m_tenant := si_tenant (pi_input p), m_content := si_content (pi_input p), m_tier := pi_tier p,
       m_kind := pi_kind p, m_tags := si_tags (pi_input p), m_source := si_source (pi_input p),
       m_created_by := si_created_by (pi_input p), m_importance := score\<rparr>"

definition parser_item :: "service \<Rightarrow> prepared_input \<Rightarrow> bool" where
  "parser_item sv p \<longleftrightarrow> po_enabled (ms_parser sv) \<and> pi_kind p = KindRawTurn \<and> ms_info_parser sv \<noteq> None"

section \<open>Reading and deleting\<close>

definition service_get :: "string \<Rightarrow> string \<Rightarrow> memory option db_act" where
  "service_get t i =
     (if trim_space t = [] \<or> trim_space i = [] then fail_act ErrInvalidInput
      else bind_act (ensure_tenant_exists t) (\<lambda>_. bind_act (repo_get_by_ids t [i]) (\<lambda>items.
           return_act (case items of [] \<Rightarrow> None | m # _ \<Rightarrow> Some m))))"

definition service_list :: "service \<Rightarrow> string \<Rightarrow> int \<Rightarrow> memory list db_act" where
  "service_list sv t limit =
     (if trim_space t = [] then fail_act ErrInvalidInput
      else bind_act (ensure_tenant_exists t) (\<lambda>_. repo_search (ms_engine sv) t [] (if limit \<le> 0 then 50 else limit)))"

definition service_delete :: "service \<Rightarrow> string \<Rightarrow> string \<Rightarrow> unit db_act" where
  "service_delete sv t i =
     (if trim_space t = [] \<or> trim_space i = [] then fail_act ErrInvalidInput
      else bind_act (ensure_tenant_exists t) (\<lambda>_.
        case ms_vector sv of
          None \<Rightarrow> fail_act (ErrMsg ''memory service vector store is not initialized'')
        | Some vs \<Rightarrow>
            bind_act (mark_state sv t [i] OpDelete IxPending None) (\<lambda>_.
            try_act (repo_delete t i) (\<lambda>r. case r of
              Inl x \<Rightarrow> bind_act (mark_state sv t [i] OpDelete IxFailed (Some x)) (\<lambda>_. fail_act x)
            | Inr _ \<Rightarrow> try_act (vs_delete vs t i) (\<lambda>r. case r of
                Inl x \<Rightarrow> bind_act (mark_state sv t [i] OpDelete IxFailed (Some x)) (\<lambda>_. fail_act x)
              | Inr _ \<Rightarrow> mark_state sv t [i] OpDelete IxTombstoned None)))))"

section \<open>Asynchronous ingest and jobs\<close>

definition ingest_item_of :: "service \<Rightarrow> prepared_input \<Rightarrow> ingest_item" where
  "ingest_item_of sv p = \<lparr>ii_memory = apply_implicit_memory_identity (memory_of_input p 0),
     ii_queue_parser = parser_item sv p, ii_queue_vector = True\<rparr>"

definition ingest_batch_async :: "service \<Rightarrow> store_input list \<Rightarrow> int \<Rightarrow> ingest_receipt db_act" where
  "ingest_batch_async sv inputs max_attempts =
     (if inputs = [] then fail_act ErrInvalidInput
      else bind_act (prepare_store_inputs sv inputs) (\<lambda>items.
           store_batch_async_ingest (map (ingest_item_of sv) items) max_attempts))"

definition ingest_async :: "service \<Rightarrow> store_input \<Rightarrow> int \<Rightarrow> ingest_receipt db_act" where
  "ingest_async sv inp max_attempts = ingest_batch_async sv [inp] max_attempts"

definition service_get_postprocess_job :: "string \<Rightarrow> postprocess_job db_act" where
  "service_get_postprocess_job raw =
     (let i = trim_space raw in
      if i = [] then fail_act ErrInvalidInput
      else bind_act (get_postprocess_job i) (\<lambda>j. case j of None \<Rightarrow> fail_act ErrNotFound | Some job \<Rightarrow> return_act job))"

definition service_list_postprocess_jobs :: "job_filter \<Rightarrow> postprocess_job list db_act" where
  "service_list_postprocess_jobs flt =
     (let t = trim_space (jf_tenant flt) in
      if t = [] then list_postprocess_jobs flt
      else bind_act (ensure_tenant_exists t) (\<lambda>_. list_postprocess_jobs (flt\<lparr>jf_tenant := t\<rparr>)))"

end
