(* ===== verification/EntityFacts.thy ===== *)
theory EntityFacts
  imports MemoryService
begin

text \<open>
  Entity facts in the memory service (\<open>entity_facts.go\<close>): finding the memory that already states a fact,
  storing facts, and invalidating the facts that a newer value of a relation with a single value
  supersedes. The lemmas hold over any repository that keeps the contract \<open>fact_repository\<close>.
\<close>

section \<open>Operations\<close>

definition filter_active_entity_facts :: "entity_fact list \<Rightarrow> entity_fact list" where
  "filter_active_entity_facts fs = filter (\<lambda>f. trim_space (f_invalidated_by f) = [] \<and>
     (case f_valid_to f of None \<Rightarrow> True | Some v \<Rightarrow> is_zero v)) fs"

definition find_memory_by_canonical_key :: "string \<Rightarrow> string \<Rightarrow> memory option db_act" where
  "find_memory_by_canonical_key t key =
     (if trim_space key = [] then return_act None else repo_find_by_canonical_key t key)"

text \<open>\<open>slices.SortFunc\<close> leaves the order of memories with the same update time open; the model takes the
  first of them.\<close>

definition find_memory_by_relation_tuple :: "service \<Rightarrow> string \<Rightarrow> parsed_fact \<Rightarrow> memory option db_act" where
  "find_memory_by_relation_tuple sv t f =
     (case ms_entity sv of None \<Rightarrow> return_act None | Some er \<Rightarrow>
        let entity = normalize_entity_fact_entity (pf_entity f);
            relation = normalize_entity_fact_relation (pf_relation f);
            v = normalize_entity_fact_value (pf_value f) in
        if entity = [] \<or> relation = [] \<or> v = [] then return_act None
        else bind_act (fs_list er t entity relation 16) (\<lambda>records0.
          let records = (if mh_graph_singleton_invalidation (ms_multi_hop sv)
                         then filter_active_entity_facts records0 else records0);
              ids = uniq_trimmed (map f_memory (filter (\<lambda>r. normalize_entity_fact_value (f_value r) = v) records)) in
          if ids = [] then return_act None
          else bind_act (repo_get_by_ids t ids) (\<lambda>memories.
               return_act (case order_desc m_updated_at memories of [] \<Rightarrow> None | m # _ \<Rightarrow> Some m))))"

text \<open>The two lookups that precede the storing of a parsed fact.\<close>

definition find_stored_fact :: "service \<Rightarrow> string \<Rightarrow> string \<Rightarrow> parsed_fact \<Rightarrow> memory option db_act" where
  "find_stored_fact sv t key f = bind_act (find_memory_by_canonical_key t key) (\<lambda>found.
     case found of Some m \<Rightarrow> return_act (Some m) | None \<Rightarrow> find_memory_by_relation_tuple sv t f)"

definition superseded_at :: "entity_fact \<Rightarrow> gotime" where
  "superseded_at f =
     (if \<not> is_zero (f_valid_from f) then f_valid_from f
      else if \<not> is_zero (f_observed_at f) then f_observed_at f else f_created_at f)"

definition invalidate_superseded_entity_facts :: "service \<Rightarrow> fact_store \<Rightarrow> entity_fact list \<Rightarrow> unit db_act" where
  "invalidate_superseded_entity_facts sv er facts =
     (if \<not> mh_graph_singleton_invalidation (ms_multi_hop sv) \<or> facts = [] then return_act ()
      else case fs_invalidate er of None \<Rightarrow> return_act () | Some invalidate \<Rightarrow>
        fold_act (\<lambda>f _. if \<not> entity_fact_uses_singleton_invalidation (f_relation f) then return_act ()
          else bind_act (if is_zero (superseded_at f) then now_act else return_act (superseded_at f)) (\<lambda>valid_to.
               invalidate (f_tenant f) (f_entity f) (f_relation f) (f_value f) (f_id f) valid_to)) facts ())"

definition entity_fact_dedupe_key :: "entity_fact \<Rightarrow> string" where
  "entity_fact_dedupe_key f =
     f_tenant f @ ''|'' @ f_entity f @ ''|'' @ f_relation f @ ''|'' @ f_value f @ ''|'' @ f_memory f"

definition unique_entity_facts :: "entity_fact list \<Rightarrow> entity_fact list" where
  "unique_entity_facts fs = uniq_on entity_fact_dedupe_key [] fs"

definition store_entity_facts :: "service \<Rightarrow> entity_fact list \<Rightarrow> unit db_act" where
  "store_entity_facts sv facts =
     (case ms_entity sv of None \<Rightarrow> return_act () | Some er \<Rightarrow>
        if facts = [] then return_act ()
        else let unique = unique_entity_facts facts in
          case fs_store_batch er of
            Some batch \<Rightarrow> bind_act (batch unique) (invalidate_superseded_entity_facts sv er)
          | None \<Rightarrow> fold_act (\<lambda>f _. bind_act (fs_store er f) (\<lambda>stored.
              invalidate_superseded_entity_facts sv er [stored])) unique ())"

section \<open>Over any repository of facts\<close>

text \<open>The service uses the repository \<open>fs\<close>, or none.\<close>

definition uses_facts :: "service \<Rightarrow> fact_store \<Rightarrow> bool" where
  "uses_facts sv fs \<longleftrightarrow> ms_entity sv = None \<or> ms_entity sv = Some fs"

text \<open>The values that the facts of a relation with a single value leave for a slot.\<close>

definition allowed_values :: "entity_fact list \<Rightarrow> string \<times> string \<times> string \<Rightarrow> string set" where
  "allowed_values facts k = {v. \<forall>f \<in> set facts. entity_fact_uses_singleton_invalidation (f_relation f) \<longrightarrow>
     fact_slot f = k \<longrightarrow> v = collapse (f_value f)}"

context fact_repository
begin

lemma find_fact_reads: "uses_facts sv fs \<Longrightarrow> reads (find_stored_fact sv t key f)"
  unfolding find_stored_fact_def find_memory_by_canonical_key_def find_memory_by_relation_tuple_def
    repo_find_by_canonical_key_def repo_get_by_ids_def Let_def uses_facts_def
  by (elim disjE; simp only: option.case)
    (auto intro!: reads_bind reads_if reads_basic list_reads split: option.split)+

lemma keeps_invalidate:
  assumes "\<And>iv t e r a x v. fs_invalidate fs = Some iv \<Longrightarrow> keeps P (iv t e r a x v)"
  shows "keeps P (invalidate_superseded_entity_facts sv fs facts)"
proof (cases "fs_invalidate fs")
  case None
  then show ?thesis unfolding invalidate_superseded_entity_facts_def None option.case by (intro act_keeps)
next
  case (Some iv)
  show ?thesis
    unfolding invalidate_superseded_entity_facts_def Some option.case by (intro act_keeps assms [OF Some])
qed

lemma keeps_store_entity_facts:
  assumes "uses_facts sv fs" and "\<And>f. keeps P (fs_store fs f)" and "\<And>b facts. fs_store_batch fs = Some b \<Longrightarrow> keeps P (b facts)"
    and "\<And>iv t e r a x v. fs_invalidate fs = Some iv \<Longrightarrow> keeps P (iv t e r a x v)"
  shows "keeps P (store_entity_facts sv facts)"
proof (cases "ms_entity sv")
  case None
  then show ?thesis unfolding store_entity_facts_def None option.case by (intro act_keeps)
next
  case (Some er)
  with assms(1) have er: "er = fs" by (simp add: uses_facts_def)
  show ?thesis
  proof (cases "fs_store_batch fs")
    case None
    show ?thesis
      unfolding store_entity_facts_def Some er None option.case Let_def by (intro act_keeps assms(2) keeps_invalidate assms(4))
  next
    case (Some b)
    show ?thesis
      unfolding store_entity_facts_def \<open>ms_entity sv = Some er\<close> er Some option.case Let_def
      by (intro act_keeps assms(3) [OF Some] keeps_invalidate assms(4))
  qed
qed

lemma store_entity_facts_ok: "uses_facts sv fs \<Longrightarrow> keeps db_ok (store_entity_facts sv facts)"
  by (rule keeps_store_entity_facts) (auto intro: store_keeps batch_keeps invalidate_keeps)

lemma store_entity_facts_frame: "uses_facts sv fs \<Longrightarrow> keeps (\<lambda>db. no_facts db = D) (store_entity_facts sv facts)"
  by (rule keeps_store_entity_facts) (auto intro: store_frame batch_frame invalidate_frame)

lemma invalidate_loop_live:
  assumes iv: "fs_invalidate fs = Some iv"
  shows "yields (\<lambda>db. \<forall>k. live db k \<subseteq> B k) (fold_act (\<lambda>f _. if \<not> entity_fact_uses_singleton_invalidation (f_relation f)
        then return_act ()
        else bind_act (if is_zero (superseded_at f) then now_act else return_act (superseded_at f)) (\<lambda>valid_to.
             iv (f_tenant f) (f_entity f) (f_relation f) (f_value f) (f_id f) valid_to)) facts ())
     (\<lambda>_ db. \<forall>k. live db k \<subseteq> B k \<inter> allowed_values facts k)"
proof -
  let ?step = "\<lambda>f (_ :: unit). if \<not> entity_fact_uses_singleton_invalidation (f_relation f) then return_act ()
        else bind_act (if is_zero (superseded_at f) then now_act else return_act (superseded_at f)) (\<lambda>valid_to.
             iv (f_tenant f) (f_entity f) (f_relation f) (f_value f) (f_id f) valid_to)"
  let ?I = "\<lambda>ds (_ :: unit) db. \<forall>k. live db k \<subseteq> B k \<inter> allowed_values ds k"
  have snoc: "allowed_values (ds @ [f]) k = allowed_values ds k \<inter>
      (if entity_fact_uses_singleton_invalidation (f_relation f) \<and> fact_slot f = k then {collapse (f_value f)} else UNIV)" for ds f k
    by (auto simp: allowed_values_def)
  have "yields (?I ds u) (?step f u) (?I (ds @ [f]))" for ds f and u :: unit
  proof (cases "entity_fact_uses_singleton_invalidation (f_relation f)")
    case False
    then show ?thesis by (simp add: snoc yields_return)
  next
    case True
    have inv: "yields (?I ds u) (iv (f_tenant f) (f_entity f) (f_relation f) (f_value f) (f_id f) v) (?I (ds @ [f]))" for v
    proof (rule yieldsI)
      fix w r w' assume I: "?I ds u (tabs w)" and run: "iv (f_tenant f) (f_entity f) (f_relation f) (f_value f) (f_id f) v w = (Inr r, w')"
      have step: "live (tabs w') k \<subseteq> B k \<inter> allowed_values (ds @ [f]) k" for k
      proof -
        have l: "live (tabs w') k \<subseteq> (if k = fact_slot f then live (tabs w) k \<inter> {collapse (f_value f)} else live (tabs w) k)"
          using yieldsD [OF invalidate_live [OF iv] run refl] unfolding fact_slot_def by (rule spec)
        have "live (tabs w) k \<subseteq> B k \<inter> allowed_values ds k" using I by (rule spec)
        moreover have "live (tabs w') k \<subseteq> live (tabs w) k" using l by (simp split: if_splits)
        moreover have "live (tabs w') k \<subseteq> {collapse (f_value f)}" if "fact_slot f = k" using l that by simp
        ultimately show ?thesis unfolding snoc by (intro Int_greatest) (blast, blast, simp split: if_split)
      qed
      show "?I (ds @ [f]) r (tabs w')" by (rule allI) (rule step)
    qed
    have "yields (?I ds u) (if is_zero (superseded_at f) then now_act else return_act (superseded_at f)) (\<lambda>_. ?I ds u)"
      by (intro act_yields yields_now yields_return)
    from yields_bind [OF this inv] True show ?thesis by simp
  qed
  then have "yields (?I [] ()) (fold_act ?step facts ()) (?I ([] @ facts))" by (rule yields_fold_history)
  then show ?thesis by (simp add: allowed_values_def)
qed

lemma invalidate_superseded_live:
  assumes "mh_graph_singleton_invalidation (ms_multi_hop sv)" and "fs_invalidate fs \<noteq> None"
  shows "yields (\<lambda>db. \<forall>k. live db k \<subseteq> B k) (invalidate_superseded_entity_facts sv fs facts)
     (\<lambda>_ db. \<forall>k. live db k \<subseteq> B k \<inter> allowed_values facts k)"
proof (cases "facts = []")
  case True
  then show ?thesis by (simp add: invalidate_superseded_entity_facts_def yields_return allowed_values_def)
next
  case False
  with assms obtain iv where iv: "fs_invalidate fs = Some iv" by blast
  have eq: "invalidate_superseded_entity_facts sv fs facts = fold_act (\<lambda>f _. if \<not> entity_fact_uses_singleton_invalidation (f_relation f)
        then return_act ()
        else bind_act (if is_zero (superseded_at f) then now_act else return_act (superseded_at f)) (\<lambda>valid_to.
             iv (f_tenant f) (f_entity f) (f_relation f) (f_value f) (f_id f) valid_to)) facts ()"
    using False assms(1) iv by (simp add: invalidate_superseded_entity_facts_def)
  show ?thesis unfolding eq by (rule invalidate_loop_live [OF iv])
qed

text \<open>What storing facts returns has the same slots and values, so it allows the same values.\<close>

lemma allowed_same: "list_all2 same_fact facts ps \<Longrightarrow> allowed_values ps k = allowed_values facts k"
proof (induction rule: list_all2_induct)
  case (Cons f fs p ps)
  have "allowed_values (x # xs) k = allowed_values xs k \<inter>
      (if entity_fact_uses_singleton_invalidation (f_relation x) \<and> fact_slot x = k then {collapse (f_value x)} else UNIV)" for x xs
    by (auto simp: allowed_values_def)
  with Cons same_fact_singleton [OF Cons(1)] show ?case by (simp add: same_fact_def)
qed simp

lemma store_entity_facts_live:
  assumes er: "ms_entity sv = Some fs" and b: "fs_store_batch fs = Some b"
    and on: "mh_graph_singleton_invalidation (ms_multi_hop sv)" "fs_invalidate fs \<noteq> None" and ne: "facts \<noteq> []"
  shows "yields (\<lambda>db. db = t0) (store_entity_facts sv facts)
     (\<lambda>_ db. \<forall>k. live db k \<subseteq> (live t0 k \<union> batch_values facts k) \<inter> allowed_values (unique_entity_facts facts) k)"
proof -
  let ?u = "unique_entity_facts facts"
  have sub: "batch_values ?u k \<subseteq> batch_values facts k" for k
    using set_uniq_on [of entity_fact_dedupe_key "[]" facts] by (auto simp: batch_values_def unique_entity_facts_def)
  have eq: "store_entity_facts sv facts = bind_act (b ?u) (invalidate_superseded_entity_facts sv fs)"
    using er b ne by (simp add: store_entity_facts_def Let_def)
  show ?thesis
    unfolding eq
  proof (rule yieldsI)
    fix w x w' assume t: "tabs w = t0" and run: "bind_act (b ?u) (invalidate_superseded_entity_facts sv fs) w = (Inr x, w')"
    then obtain ps w1 where st: "b ?u w = (Inr ps, w1)" and inv: "invalidate_superseded_entity_facts sv fs ps w1 = (Inr x, w')"
      by (elim bind_actE)
    from yieldsD [OF batch_live [OF b] st t] have ps: "list_all2 same_fact ?u ps"
      and l: "\<forall>k. live (tabs w1) k \<subseteq> live t0 k \<union> batch_values ?u k" by simp_all
    from yieldsD [OF invalidate_superseded_live [OF on] inv l]
    have "live (tabs w') k \<subseteq> (live t0 k \<union> batch_values ?u k) \<inter> allowed_values ps k" for k by (rule spec)
    with sub allowed_same [OF ps] show "\<forall>k. live (tabs w') k \<subseteq> (live t0 k \<union> batch_values facts k) \<inter> allowed_values ?u k" by blast
  qed
qed

end

section \<open>Properties\<close>

text \<open>C31 A new value supersedes the old ones: with singleton invalidation on, once facts are stored, a slot
  (tenant, entity, relation) whose relation has a single value (identity, role, relationship status,
  place) has no active value but that of the stored fact. If the facts stored together give two values
  for it, each invalidates the other and none is left active. No other slot gains a value.\<close>

theorem singleton_facts_superseded:
  assumes "ms_entity sv = Some sqlite_fact_store" and "mh_graph_singleton_invalidation (ms_multi_hop sv)"
    and "store_entity_facts sv facts w = (Inr u, w')"
    and "f \<in> set (unique_entity_facts facts)" and "entity_fact_uses_singleton_invalidation (f_relation f)"
  shows "active_values (tabs w') (fact_slot f) \<subseteq> {collapse (f_value f)} \<and>
    (\<forall>g \<in> set (unique_entity_facts facts). fact_slot g = fact_slot f \<longrightarrow> collapse (f_value g) \<noteq> collapse (f_value f) \<longrightarrow>
       entity_fact_uses_singleton_invalidation (f_relation g) \<longrightarrow> active_values (tabs w') (fact_slot f) = {}) \<and>
    (\<forall>k. active_values (tabs w') k \<subseteq> active_values (tabs w) k \<union> batch_values facts k)"
proof -
  have b: "fs_store_batch sqlite_fact_store = Some fact_repo_store_batch" "fs_invalidate sqlite_fact_store \<noteq> None"
    by (simp_all add: sqlite_fact_store_def)
  have "facts \<noteq> []" using assms(4) by (auto simp: unique_entity_facts_def)
  from yieldsD [OF fri.store_entity_facts_live [OF assms(1) b(1) assms(2) b(2) this] assms(3) refl]
  have L: "active_values (tabs w') k \<subseteq> active_values (tabs w) k \<union> batch_values facts k"
    "active_values (tabs w') k \<subseteq> allowed_values (unique_entity_facts facts) k" for k by blast+
  have "allowed_values (unique_entity_facts facts) (fact_slot f) \<subseteq> {collapse (f_value g)}"
    if "g \<in> set (unique_entity_facts facts)" "fact_slot g = fact_slot f" "entity_fact_uses_singleton_invalidation (f_relation g)" for g
    using that by (auto simp: allowed_values_def)
  with assms(4,5) L show ?thesis by blast
qed

lemma get_by_ids_run:
  assumes "repo_get_by_ids t ids w = (Inr ms, w')"
  shows "tabs w' = tabs w \<and> set ms \<subseteq> {m \<in> set (db_memories (tabs w)). m_tenant m = t \<and> m_id m \<in> set (uniq_trimmed ids)}"
  using assms by (auto simp: repo_get_by_ids_def Let_def act_success split: if_splits)

text \<open>The memory found for a parsed fact by its triple is a memory of this tenant, and an entity fact of
  the repository with the same entity, relation and value, not invalidated when singleton invalidation
  is on, comes from it. Nothing changes by looking.\<close>

theorem tuple_lookup_sound:
  assumes "ms_entity sv = Some sqlite_fact_store" and "store_ok (tabs w)"
    and "find_memory_by_relation_tuple sv t f w = (Inr found, w')"
  shows "tabs w' = tabs w \<and> (case found of None \<Rightarrow> True | Some m \<Rightarrow>
      m \<in> set (db_memories (tabs w)) \<and> m_tenant m = t \<and> (\<exists>r \<in> set (db_facts (tabs w)).
        fr_memory r \<noteq> None \<and> trim_space (the (fr_memory r)) = m_id m \<and>
        row_slot r = slot_of t (pf_entity f) (normalize_entity_fact_relation (pf_relation f)) \<and>
        fr_value r = collapse (pf_value f) \<and> (mh_graph_singleton_invalidation (ms_multi_hop sv) \<longrightarrow> trim_space (fr_invalidated_by r) = [])))"
proof -
  let ?v = "normalize_entity_fact_value (pf_value f)" and ?rel = "normalize_entity_fact_relation (pf_relation f)"
    and ?e = "normalize_entity_fact_entity (pf_entity f)" and ?on = "mh_graph_singleton_invalidation (ms_multi_hop sv)"
  let ?keep = "\<lambda>rs. if ?on then filter_active_entity_facts rs else rs"
  let ?ids = "\<lambda>rs. uniq_trimmed (map f_memory (filter (\<lambda>r. normalize_entity_fact_value (f_value r) = ?v) (?keep rs)))"
  have list: "fs_list sqlite_fact_store = fact_repo_list" by (simp add: sqlite_fact_store_def)
  have "reads (find_memory_by_relation_tuple sv t f)"
    unfolding find_memory_by_relation_tuple_def assms(1) option.case list Let_def repo_get_by_ids_def by (intro act_atomic)
  from readsD [OF this assms(3)] have t: "tabs w' = tabs w" .
  show ?thesis
  proof (cases found)
    case None
    with t show ?thesis by simp
  next
    case (Some m)
    with assms(1,3) obtain rs w1 ms where l: "fact_repo_list t ?e ?rel 16 w = (Inr rs, w1)"
      and g: "repo_get_by_ids t (?ids rs) w1 = (Inr ms, w')"
      and m: "(case order_desc m_updated_at ms of [] \<Rightarrow> None | m # _ \<Rightarrow> Some m) = Some m"
      unfolding find_memory_by_relation_tuple_def assms(1) option.case list Let_def
      by (auto simp: return_act_success elim!: bind_actE split: if_splits)
    from m obtain rest where "order_desc m_updated_at ms = m # rest" by (auto split: list.splits)
    then have m: "m \<in> set ms" using set_order_desc [of m_updated_at ms] by (metis list.set_intros(1))
    have t1: "tabs w1 = tabs w" using fact_list_run [OF l] by blast
    from get_by_ids_run [OF g] m have mem: "m \<in> set (db_memories (tabs w))" "m_tenant m = t" "m_id m \<in> set (?ids rs)"
      by (auto simp: t1)
    then obtain g where g: "g \<in> set (?keep rs)" "normalize_entity_fact_value (f_value g) = ?v" "m_id m = trim_space (f_memory g)"
      "m_id m \<noteq> []" by (auto simp: set_uniq_trimmed)
    then have "g \<in> set rs" and on: "?on \<longrightarrow> trim_space (f_invalidated_by g) = []"
      by (auto simp: filter_active_entity_facts_def split: if_splits)
    with fact_list_facts [OF l] obtain r where r: "r \<in> set (db_facts (tabs w))" "row_slot r = slot_of t ?e ?rel" "scan_entity_fact r = Inr g"
      by blast
    have "fact_row_ok r" using assms(2) r(1) by (simp add: store_ok_def facts_ok_def)
    then have "fr_value r = collapse (pf_value f)"
      using scan_fact [OF r(3)] g(2) by (simp add: fact_row_ok_def normalize_entity_fact_value_def)
    moreover have "row_slot r = slot_of t (pf_entity f) ?rel"
      using r(2) by (simp add: slot_of_def normalize_fact_key_def normalize_entity_fact_entity_def str_norm)
    moreover have "fr_memory r \<noteq> None \<and> trim_space (the (fr_memory r)) = m_id m"
      using scan_fact [OF r(3)] g(3,4) by (auto split: option.splits)
    ultimately show ?thesis using t mem r(1) on scan_fact [OF r(3)] Some by auto
  qed
qed

section \<open>Witnesses\<close>

definition sample_facts_service :: service where
  "sample_facts_service = \<lparr>ms_engine = \<lparr>fe_match = (\<lambda>_ _. True), fe_bm25 = (\<lambda>_ _ _. 0)\<rparr>, ms_vector = None,
     ms_embedder = None, ms_scorer = None, ms_parser = default_parser_options,
     ms_structured = default_structured_options, ms_multi_hop = default_multi_hop_options,
     ms_entity = Some sqlite_fact_store, ms_info_parser = None, ms_texts = sample_texts, ms_error_text = (\<lambda>_. [])\<rparr>"

lemma sample_relation: "entity_fact_uses_singleton_invalidation ''place''" "normalize_entity_fact_relation ''place'' = ''place''"
  "normalize_entity_fact_value ''Rome'' = ''Rome''" "normalize_entity_fact_entity ''User'' = ''user''"
  by code_simp+

lemma sample_new_id: "trim_space (CHR ''e'' # CHR ''f'' # CHR ''_'' # hex_encode [2]) = ''ef_02''"
  by code_simp

lemma sample_facts_run:
  "\<exists>w'. store_entity_facts sample_facts_service [sample_fact] (calm_world sample_store) = (Inr (), w')"
  by (simp add: store_entity_facts_def sample_facts_service_def sqlite_fact_store_def unique_entity_facts_def
      fact_repo_store_batch_def prepare_entity_fact_for_store_def sample_fact_def in_tx_def in_tx_if_def
      normalize_entity_fact_value_def sample_words invalidate_superseded_entity_facts_def default_multi_hop_options_def
      bind_act_def now_act_def new_id_def random_act_def return_act_def exec_def insert_fact_stmt_def calm_world_def
      sample_store_def empty_database_def fact_row_of_def null_string_def sample_memory_def Let_def fault_free_def
      sample_relation sample_new_id superseded_at_def fact_repo_invalidate_def invalidate_facts_stmt_def is_zero_def zero_time_def)

lemma singleton_facts_superseded_witness:
  "\<exists>w'. store_entity_facts sample_facts_service [sample_fact] (calm_world sample_store) = (Inr (), w') \<and>
     active_values (tabs w') (''t1'', ''user'', ''place'') \<subseteq> {''Rome''}"
proof -
  obtain w' where run: "store_entity_facts sample_facts_service [sample_fact] (calm_world sample_store) = (Inr (), w')"
    using sample_facts_run by blast
  have "active_values (tabs w') (fact_slot sample_fact) \<subseteq> {collapse (f_value sample_fact)}"
    using singleton_facts_superseded [OF _ _ run, of sample_fact]
    by (simp add: sample_facts_service_def default_multi_hop_options_def unique_entity_facts_def sample_relation,
        simp add: sample_fact_def sample_relation)
  with run show ?thesis by (auto simp: sample_slot sample_value)
qed

definition sample_fact_store :: database where
  "sample_fact_store = sample_store\<lparr>db_facts := [\<lparr>fr_id = ''ef_1'', fr_tenant = ''t1'', fr_entity = ''user'',
     fr_relation = ''place'', fr_relation_raw = [], fr_value = ''Rome'', fr_memory = Some ''m1'', fr_observed_at = NoStamp,
     fr_valid_from = NoStamp, fr_valid_to = NoStamp, fr_invalidated_by = [], fr_created_at = Stamp 1\<rparr>]\<rparr>"

lemma sample_fact_store_ok: "store_ok (tabs (calm_world sample_fact_store))"
proof -
  have words: "to_lower (collapse ''user'') = ''user''" "to_lower (collapse ''place'') = ''place''" by code_simp+
  show ?thesis
    using sample_store_ok(2)
    by (simp add: store_ok_def sample_fact_store_def calm_world_def facts_ok_def fact_row_ok_def fact_key_def words sample_words,
        simp add: sample_store_def sample_memory_def)
qed

lemma sample_lookup_run: "\<exists>w'. find_memory_by_relation_tuple sample_facts_service ''t1'' (sample_parsed_fact\<lparr>pf_entity := ''User''\<rparr>)
    (calm_world sample_fact_store) = (Inr (Some sample_memory), w')"
  by (simp add: order_desc_def find_memory_by_relation_tuple_def sample_facts_service_def sqlite_fact_store_def sample_parsed_fact_def
      sample_relation Let_def fact_repo_list_def sample_words bind_act_def query_def calm_world_def sample_fact_store_def
      lift_act_def scan_entity_fact_def parse_stored_time_def parse_time_or_zero_def default_multi_hop_options_def
      filter_active_entity_facts_def return_act_def uniq_trimmed_def repo_get_by_ids_def sample_store_def empty_database_def
      limit_rows_def is_zero_def zero_time_def sample_memory_def zero_memory_def exec_def)

lemma tuple_lookup_sound_witness:
  "\<exists>w'. find_memory_by_relation_tuple sample_facts_service ''t1'' (sample_parsed_fact\<lparr>pf_entity := ''User''\<rparr>)
     (calm_world sample_fact_store) = (Inr (Some sample_memory), w') \<and>
   (\<exists>r \<in> set (db_facts sample_fact_store). fr_memory r \<noteq> None)"
proof -
  obtain w' where run: "find_memory_by_relation_tuple sample_facts_service ''t1'' (sample_parsed_fact\<lparr>pf_entity := ''User''\<rparr>)
     (calm_world sample_fact_store) = (Inr (Some sample_memory), w')" using sample_lookup_run by blast
  have "ms_entity sample_facts_service = Some sqlite_fact_store" by (simp add: sample_facts_service_def)
  from tuple_lookup_sound [OF this sample_fact_store_ok run] run show ?thesis
    by (auto simp: calm_world_def)
qed

end
