(* ===== verification/ParserStore.thy ===== *)
theory ParserStore
  imports EntityFacts
begin

text \<open>
  Storing turns with their parsed facts (\<open>store.go\<close>, \<open>store_batch_parser.go\<close>): parsing with the fallback to
  the heuristic parser, one turn at a time, a whole batch with one call to the embedder, and the facts
  derived from a stored turn. The goroutines that parse a batch only call the parser, whose answers are
  arbitrary; the model parses in order.
\<close>

section \<open>Parsing\<close>

record parse_result =
  pr_facts :: "parsed_fact list"
  pr_extractor :: string
  pr_version :: string

definition is_heuristic :: "string \<Rightarrow> bool" where
  "is_heuristic provider \<longleftrightarrow> to_lower (trim_space provider) = ''heuristic''"

definition primary_limit :: "parser_options \<Rightarrow> int" where
  "primary_limit po = (if is_heuristic (po_provider po) \<and> po_store_raw_turn po \<and> 1 < po_max_facts po then 1
     else po_max_facts po)"

definition fallback_limit :: "parser_options \<Rightarrow> int" where
  "fallback_limit po = (if po_store_raw_turn po \<and> 1 < po_max_facts po then 1 else po_max_facts po)"

text \<open>The facts worth keeping of a parse; none of an error.\<close>

definition usable_facts :: "service \<Rightarrow> string \<Rightarrow> string \<Rightarrow> int \<Rightarrow> err + parsed_fact list \<Rightarrow> parsed_fact list" where
  "usable_facts sv content provider limit r =
     (case r of Inl _ \<Rightarrow> [] | Inr facts \<Rightarrow>
        if facts = [] then []
        else optimize_prepared_facts_for_parser (ms_texts sv) content
               (prepare_parsed_facts_for_store (ms_texts sv) content facts (po_answer_span_retention (ms_parser sv)))
               provider limit)"

definition parse_facts_with_fallback ::
  "service \<Rightarrow> (string \<Rightarrow> int \<Rightarrow> nat \<Rightarrow> err + parsed_fact list) \<Rightarrow> string \<Rightarrow> parse_result db_act" where
  "parse_facts_with_fallback sv parse content =
     (let po = ms_parser sv in
      try_act (remote (parse content (po_max_facts po))) (\<lambda>primary.
        let facts = usable_facts sv content (po_provider po) (primary_limit po) primary in
        if facts \<noteq> [] then return_act \<lparr>pr_facts = facts, pr_extractor = po_provider po, pr_version = po_model po\<rparr>
        else let fallback = tx_parse (ms_texts sv) content (po_max_facts po);
                 others = usable_facts sv content ''heuristic'' (fallback_limit po) fallback in
          if others \<noteq> [] then return_act \<lparr>pr_facts = others, pr_extractor = ''heuristic'', pr_version = ''v1''\<rparr>
          else case primary of Inl e \<Rightarrow> fail_act e | Inr _ \<Rightarrow>
               (case fallback of Inl e \<Rightarrow> fail_act e | Inr _ \<Rightarrow>
                  return_act \<lparr>pr_facts = [], pr_extractor = po_provider po, pr_version = po_model po\<rparr>)))"

section \<open>Storing one memory\<close>

text \<open>Collaborators that \<open>prepareStoreInputs\<close> has found not to be nil.\<close>

record parts =
  pt_scorer :: scorer
  pt_embedder :: embedder
  pt_vector :: vector_store

type_synonym embedding_cache = "(string \<times> real list) list"

definition precompute_parser_embeddings ::
  "fact_texts \<Rightarrow> embedder \<Rightarrow> string \<Rightarrow> parsed_fact list \<Rightarrow> embedding_cache db_act" where
  "precompute_parser_embeddings tx em raw facts =
     (case em_batch em of None \<Rightarrow> return_act [] | Some batch \<Rightarrow>
        let texts = uniq (filter (\<lambda>t. t \<noteq> []) (raw # map (embedding_text_for_parsed_fact tx) facts)) in
        if texts = [] then return_act []
        else bind_act (remote (batch texts)) (\<lambda>es.
          if length es \<noteq> length texts then fail_act (ErrMsg ''batch embedding count mismatch'')
          else if [] \<in> set es then fail_act (ErrMsg ''batch embedding vector is empty'')
          else return_act (zip texts es)))"

definition store_one_precomputed :: "service \<Rightarrow> parts \<Rightarrow> memory \<Rightarrow> real list \<Rightarrow> memory db_act" where
  "store_one_precomputed sv pt m embedding =
     (if embedding = [] then fail_act (ErrMsg ''embedding must not be empty'')
      else bind_act (remote (sc_score (pt_scorer pt) (m_content m))) (\<lambda>importance.
           bind_act (store_in_repo [m\<lparr>m_importance := importance\<rparr>]) (\<lambda>stored.
           case stored of
             [s] \<Rightarrow> bind_act (upsert_stored_embeddings sv (pt_vector pt) [s] [embedding]) (\<lambda>_. return_act s)
           | _ \<Rightarrow> fail_act (ErrMsg ''store returned another number of records for a single memory''))))"

definition store_one_memory :: "service \<Rightarrow> parts \<Rightarrow> memory \<Rightarrow> memory db_act" where
  "store_one_memory sv pt m = bind_act (remote (em_embed (pt_embedder pt) (embedding_lookup_text_for_memory m)))
     (store_one_precomputed sv pt m)"

definition store_one_with_optional_embedding :: "service \<Rightarrow> parts \<Rightarrow> memory \<Rightarrow> embedding_cache \<Rightarrow> memory db_act" where
  "store_one_with_optional_embedding sv pt m embs =
     (case map_of embs (embedding_lookup_text_for_memory m) of
        Some e \<Rightarrow> (if e \<noteq> [] then store_one_precomputed sv pt m e else store_one_memory sv pt m)
      | None \<Rightarrow> store_one_memory sv pt m)"

section \<open>Parsed facts\<close>

text \<open>The turn a fact comes from, and the extractor that found it.\<close>

record turn =
  tn_tenant :: string
  tn_content :: string
  tn_tags :: "string list"
  tn_source :: string
  tn_extractor :: string
  tn_version :: string

definition parsed_fact_identity :: "turn \<Rightarrow> nat \<Rightarrow> parsed_fact \<Rightarrow> fact_identity" where
  "parsed_fact_identity tn i f = build_parsed_fact_identity (tn_content tn) (int i) f (tn_extractor tn) (tn_version tn)"

definition parsed_fact_kind :: "parsed_fact \<Rightarrow> memory_kind" where
  "parsed_fact_kind f = (let k = resolve_kind (pf_kind f) in
     if k \<noteq> KindEvent \<and> k \<noteq> KindObservation then KindObservation else k)"

definition parsed_fact_memory :: "turn \<Rightarrow> nat \<Rightarrow> parsed_fact \<Rightarrow> memory" where
  "parsed_fact_memory tn i f = apply_identity_to_memory
     (zero_memory\<lparr>m_tenant := tn_tenant tn, m_content := normalize_fact_content (pf_content f),
        m_query_view := pf_query_view f, m_tier := TierSemantic, m_kind := parsed_fact_kind f,
        m_tags := merge_tags (tn_tags tn) (pf_tags f @ [''memory_op:add'', ''memory_state:active'']),
        m_source := append_derived_source (tn_source tn) ''parser'', m_created_by := BySystem,
        m_answer_metadata := pf_answer_metadata f\<rparr>)
     (parsed_fact_identity tn i f)"

definition apply_parsed_fact ::
  "service \<Rightarrow> parts \<Rightarrow> turn \<Rightarrow> nat \<Rightarrow> parsed_fact \<Rightarrow> embedding_cache \<Rightarrow> memory option db_act" where
  "apply_parsed_fact sv pt tn i f embs =
     (if \<not> should_store_parsed_fact_content (ms_texts sv) (normalize_fact_content (pf_content f)) then return_act None
      else bind_act (find_stored_fact sv (tn_tenant tn) (fi_canonical_key (parsed_fact_identity tn i f)) f) (\<lambda>found.
        case found of Some m \<Rightarrow> return_act (Some m)
        | None \<Rightarrow> bind_act (store_one_with_optional_embedding sv pt (parsed_fact_memory tn i f) embs)
            (\<lambda>m. return_act (Some m))))"

text \<open>Store a parsed fact and its entity fact.\<close>

definition store_parsed_fact ::
  "service \<Rightarrow> parts \<Rightarrow> turn \<Rightarrow> embedding_cache \<Rightarrow> nat \<times> parsed_fact \<Rightarrow> memory option db_act" where
  "store_parsed_fact sv pt tn embs p = bind_act (apply_parsed_fact sv pt tn (fst p) (snd p) embs) (\<lambda>found.
     case found of None \<Rightarrow> return_act None | Some m \<Rightarrow>
       (case build_entity_fact_record (ms_texts sv) m (snd p) of
          None \<Rightarrow> return_act (Some m)
        | Some ef \<Rightarrow> bind_act (store_entity_facts sv [ef]) (\<lambda>_. return_act (Some m))))"

definition first_some :: "'a option list \<Rightarrow> 'a option" where
  "first_some xs = (case filter (\<lambda>x. x \<noteq> None) xs of [] \<Rightarrow> None | x # _ \<Rightarrow> x)"

definition raw_turn_memory :: "prepared_input \<Rightarrow> memory" where
  "raw_turn_memory p = (memory_of_input p 0)\<lparr>m_answer_metadata := si_answer_metadata (pi_input p)\<rparr>"

definition store_with_parser ::
  "service \<Rightarrow> parts \<Rightarrow> (string \<Rightarrow> int \<Rightarrow> nat \<Rightarrow> err + parsed_fact list) \<Rightarrow> prepared_input \<Rightarrow> memory db_act" where
  "store_with_parser sv pt parse p =
     (let inp = pi_input p; content = si_content inp in
      try_act (parse_facts_with_fallback sv parse content) (\<lambda>r.
      case r of
        Inl _ \<Rightarrow> store_one_memory sv pt (raw_turn_memory p)
      | Inr parsed \<Rightarrow>
          try_act (precompute_parser_embeddings (ms_texts sv) (pt_embedder pt) content (pr_facts parsed)) (\<lambda>q.
          let embs = (case q of Inl _ \<Rightarrow> [] | Inr xs \<Rightarrow> xs);
              tn = \<lparr>tn_tenant = si_tenant inp, tn_content = content, tn_tags = si_tags inp, tn_source = si_source inp,
                    tn_extractor = pr_extractor parsed, tn_version = pr_version parsed\<rparr> in
          bind_act (if po_store_raw_turn (ms_parser sv)
                    then bind_act (store_one_with_optional_embedding sv pt
                           (apply_identity_to_memory (raw_turn_memory p) (build_raw_turn_identity content)) embs)
                           (\<lambda>m. return_act (Some m))
                    else return_act None) (\<lambda>raw.
          bind_act (map_act (store_parsed_fact sv pt tn embs) (enumerate 0 (pr_facts parsed))) (\<lambda>stored.
          case raw of Some m \<Rightarrow> return_act m
          | None \<Rightarrow> (case first_some stored of Some m \<Rightarrow> return_act m
              | None \<Rightarrow> store_one_with_optional_embedding sv pt (raw_turn_memory p) embs))))))"

definition store_batch_with_parser_sequential ::
  "service \<Rightarrow> parts \<Rightarrow> (string \<Rightarrow> int \<Rightarrow> nat \<Rightarrow> err + parsed_fact list) \<Rightarrow> prepared_input list \<Rightarrow> memory list db_act" where
  "store_batch_with_parser_sequential sv pt parse items = map_act (store_with_parser sv pt parse) items"

section \<open>Derived facts\<close>

definition write_canonical_structured_derived :: "service \<Rightarrow> parts \<Rightarrow> memory \<Rightarrow> unit db_act" where
  "write_canonical_structured_derived sv pt stored =
     (let so = ms_structured sv; tx = ms_texts sv in
      if \<not> so_enabled so \<or> m_kind stored \<noteq> KindRawTurn then return_act ()
      else if \<not> so_dual_write_observations so \<and> \<not> so_dual_write_events so then return_act ()
      else bind_act (lift_act (tx_parse tx (m_content stored) (structured_canonical_parse_limit so))) (\<lambda>parsed.
        let facts = filter_canonical_structured_facts
              (prepare_parsed_facts_for_store tx (m_content stored) parsed (po_answer_span_retention (ms_parser sv))) so in
        if facts = [] then return_act ()
        else try_act (precompute_parser_embeddings tx (pt_embedder pt) (m_content stored) facts) (\<lambda>q.
          let embs = (case q of Inl _ \<Rightarrow> [] | Inr xs \<Rightarrow> xs);
              tn = \<lparr>tn_tenant = m_tenant stored, tn_content = m_content stored, tn_tags = m_tags stored,
                    tn_source = m_source stored, tn_extractor = ''heuristic'', tn_version = ''v1''\<rparr> in
          bind_act (map_act (store_parsed_fact sv pt tn embs) (enumerate 0 facts)) (\<lambda>_. return_act ()))))"

section \<open>A batch\<close>

text \<open>The fields \<open>dropped\<close> and \<open>replacedBy\<close> of a pending write are never set and are left out; an index into
  the pending writes refers to the memory that is stored for it.\<close>

record pending_write =
  pw_memory :: memory
  pw_embedding :: "real list"
  pw_tuple :: string

datatype memory_ref = RefPending nat | RefExisting memory

text \<open>The last pending write that satisfies a condition.\<close>

fun find_last_from :: "nat \<Rightarrow> ('a \<Rightarrow> bool) \<Rightarrow> 'a list \<Rightarrow> nat option" where
  "find_last_from i p [] = None"
| "find_last_from i p (x # xs) = (case find_last_from (Suc i) p xs of Some j \<Rightarrow> Some j | None \<Rightarrow> if p x then Some i else None)"

definition find_pending_memory_by_canonical_key :: "pending_write list \<Rightarrow> string \<Rightarrow> string \<Rightarrow> nat option" where
  "find_pending_memory_by_canonical_key pending t key =
     (if trim_space key = [] then None
      else find_last_from 0 (\<lambda>w. m_tenant (pw_memory w) = t \<and> m_canonical_key (pw_memory w) = key) pending)"

definition find_pending_memory_by_relation_tuple :: "pending_write list \<Rightarrow> string \<Rightarrow> string \<Rightarrow> nat option" where
  "find_pending_memory_by_relation_tuple pending t key =
     (if trim_space key = [] then None
      else find_last_from 0 (\<lambda>w. m_tenant (pw_memory w) = t \<and> pw_tuple w = key) pending)"

definition find_pending_fact :: "pending_write list \<Rightarrow> string \<Rightarrow> string \<Rightarrow> parsed_fact \<Rightarrow> nat option" where
  "find_pending_fact pending t key f =
     (case find_pending_memory_by_canonical_key pending t key of
        Some i \<Rightarrow> Some i
      | None \<Rightarrow> (case normalized_relation_tuple_key f of
            Some tuple \<Rightarrow> find_pending_memory_by_relation_tuple pending t tuple
          | None \<Rightarrow> None))"

definition apply_parsed_fact_with_pending ::
  "service \<Rightarrow> turn \<Rightarrow> nat \<Rightarrow> parsed_fact \<Rightarrow> embedding_cache \<Rightarrow> pending_write list \<Rightarrow>
   (memory_ref option \<times> pending_write list) db_act" where
  "apply_parsed_fact_with_pending sv tn i f embs pending =
     (let key = fi_canonical_key (parsed_fact_identity tn i f) in
      if \<not> should_store_parsed_fact_content (ms_texts sv) (normalize_fact_content (pf_content f))
      then return_act (None, pending)
      else case find_pending_fact pending (tn_tenant tn) key f of
        Some j \<Rightarrow> return_act (Some (RefPending j), pending)
      | None \<Rightarrow> bind_act (find_stored_fact sv (tn_tenant tn) key f) (\<lambda>found.
          case found of Some m \<Rightarrow> return_act (Some (RefExisting m), pending)
          | None \<Rightarrow> (case map_of embs (embedding_text_for_parsed_fact (ms_texts sv) f) of
              Some e \<Rightarrow> (if e = [] then fail_act (ErrMsg ''missing precomputed embedding for parsed fact content'')
                else return_act (Some (RefPending (length pending)), pending @ [\<lparr>pw_memory = parsed_fact_memory tn i f,
                  pw_embedding = e, pw_tuple = (case normalized_relation_tuple_key f of Some k \<Rightarrow> k | None \<Rightarrow> [])\<rparr>]))
            | None \<Rightarrow> fail_act (ErrMsg ''missing precomputed embedding for parsed fact content''))))"

definition stage_raw_memory :: "embedding_cache \<Rightarrow> prepared_input \<Rightarrow> pending_write list \<Rightarrow> (nat \<times> pending_write list) db_act" where
  "stage_raw_memory embs p pending =
     (let m = apply_identity_to_memory (memory_of_input p 0) (build_raw_turn_identity (si_content (pi_input p))) in
      case map_of embs (m_content m) of
        Some e \<Rightarrow> (if e = [] then fail_act (ErrMsg ''missing precomputed embedding for parser batch content'')
          else return_act (length pending, pending @ [\<lparr>pw_memory = m, pw_embedding = e, pw_tuple = []\<rparr>]))
      | None \<Rightarrow> fail_act (ErrMsg ''missing precomputed embedding for parser batch content''))"

text \<open>The state of the loop over the batch: pending writes, the entity facts still to be built, and the first
  fact found for the current turn.\<close>

type_synonym staging = "pending_write list \<times> (memory_ref \<times> parsed_fact) list \<times> memory_ref option"

definition stage_fact :: "service \<Rightarrow> turn \<Rightarrow> embedding_cache \<Rightarrow> nat \<times> parsed_fact \<Rightarrow> staging \<Rightarrow> staging db_act" where
  "stage_fact sv tn embs p st =
     (case st of (pending, efs, first) \<Rightarrow>
        bind_act (apply_parsed_fact_with_pending sv tn (fst p) (snd p) embs pending) (\<lambda>(ref, pending').
        return_act (case ref of None \<Rightarrow> (pending', efs, first)
          | Some r \<Rightarrow> (pending', if parsed_fact_has_entity_triple (snd p) then efs @ [(r, snd p)] else efs,
              case first of None \<Rightarrow> Some r | Some x \<Rightarrow> Some x))))"

definition stage_turn ::
  "service \<Rightarrow> embedding_cache \<Rightarrow> prepared_input \<times> (err + parse_result) \<Rightarrow>
   pending_write list \<times> (memory_ref \<times> parsed_fact) list \<times> memory_ref list \<Rightarrow>
   (pending_write list \<times> (memory_ref \<times> parsed_fact) list \<times> memory_ref list) db_act" where
  "stage_turn sv embs x st =
     (case (x, st) of ((p, parsed), (pending, efs, refs)) \<Rightarrow>
        (case parsed of
           Inl _ \<Rightarrow> bind_act (stage_raw_memory embs p pending) (\<lambda>(i, pending1).
             return_act (pending1, efs, refs @ [RefPending i]))
         | Inr pr \<Rightarrow>
             let inp = pi_input p; tn = \<lparr>tn_tenant = si_tenant inp, tn_content = si_content inp, tn_tags = si_tags inp,
                   tn_source = si_source inp, tn_extractor = pr_extractor pr, tn_version = pr_version pr\<rparr> in
             bind_act (if po_store_raw_turn (ms_parser sv)
                       then bind_act (stage_raw_memory embs p pending) (\<lambda>(i, pending1). return_act (Some (RefPending i), pending1))
                       else return_act (None, pending)) (\<lambda>(raw, pending1).
             bind_act (fold_act (stage_fact sv tn embs) (enumerate 0 (pr_facts pr)) (pending1, efs, None))
               (\<lambda>(pending2, efs2, first).
             case raw of Some r \<Rightarrow> return_act (pending2, efs2, refs @ [r])
             | None \<Rightarrow> (case first of Some r \<Rightarrow> return_act (pending2, efs2, refs @ [r])
                 | None \<Rightarrow> bind_act (stage_raw_memory embs p pending2) (\<lambda>(i, pending3).
                     return_act (pending3, efs2, refs @ [RefPending i])))))))"

definition resolve_ref :: "memory list \<Rightarrow> memory_ref \<Rightarrow> memory option" where
  "resolve_ref stored r = (case r of RefExisting m \<Rightarrow> Some m
     | RefPending i \<Rightarrow> if i < length stored then Some (stored ! i) else None)"

definition write_pending :: "service \<Rightarrow> parts \<Rightarrow> pending_write list \<Rightarrow> memory list db_act" where
  "write_pending sv pt pending =
     bind_act (score_contents (pt_scorer pt) (map (\<lambda>w. m_content (pw_memory w)) pending)) (\<lambda>scores.
     if length scores \<noteq> length pending then fail_act (ErrMsg ''parser batch importance score count mismatch'')
     else if pending = [] then return_act []
     else bind_act (store_in_repo (map2 (\<lambda>w s. (pw_memory w)\<lparr>m_importance := s\<rparr>) pending scores)) (\<lambda>stored.
          if length stored \<noteq> length pending then fail_act (ErrMsg ''parser batch store result mismatch'')
          else bind_act (upsert_stored_embeddings sv (pt_vector pt) stored (map pw_embedding pending)) (\<lambda>_.
               return_act stored)))"

definition pending_entity_facts :: "fact_texts \<Rightarrow> memory list \<Rightarrow> (memory_ref \<times> parsed_fact) list \<Rightarrow> entity_fact list" where
  "pending_entity_facts tx stored efs = concat (map (\<lambda>(r, f). case resolve_ref stored r of None \<Rightarrow> []
     | Some m \<Rightarrow> (case build_entity_fact_record tx m f of None \<Rightarrow> [] | Some ef \<Rightarrow> [ef])) efs)"

definition batch_texts :: "fact_texts \<Rightarrow> (prepared_input \<times> (err + parse_result)) list \<Rightarrow> string list" where
  "batch_texts tx parsed = uniq (filter (\<lambda>t. t \<noteq> []) (concat (map (\<lambda>(p, r). si_content (pi_input p) #
     (case r of Inl _ \<Rightarrow> [] | Inr pr \<Rightarrow> map (embedding_text_for_parsed_fact tx) (pr_facts pr))) parsed)))"

definition store_staged :: "service \<Rightarrow> parts \<Rightarrow> embedding_cache \<Rightarrow> (prepared_input \<times> (err + parse_result)) list \<Rightarrow> memory list db_act" where
  "store_staged sv pt embs parsed =
     bind_act (fold_act (stage_turn sv embs) parsed ([], [], [])) (\<lambda>(pending, efs, refs).
     bind_act (write_pending sv pt pending) (\<lambda>stored.
     bind_act (store_entity_facts sv (pending_entity_facts (ms_texts sv) stored efs)) (\<lambda>_.
     case those (map (resolve_ref stored) refs) of
       Some out \<Rightarrow> return_act out
     | None \<Rightarrow> fail_act (ErrMsg ''parser batch result resolution failed''))))"

definition store_batch_with_parser ::
  "service \<Rightarrow> parts \<Rightarrow> (string \<Rightarrow> int \<Rightarrow> nat \<Rightarrow> err + parsed_fact list) \<Rightarrow> prepared_input list \<Rightarrow> memory list db_act" where
  "store_batch_with_parser sv pt parse items =
     (if items = [] then return_act []
      else if length items = 1 then store_batch_with_parser_sequential sv pt parse items
      else case em_batch (pt_embedder pt) of
        None \<Rightarrow> store_batch_with_parser_sequential sv pt parse items
      | Some batch \<Rightarrow>
          bind_act (map_act (\<lambda>p. try_act (parse_facts_with_fallback sv parse (si_content (pi_input p)))
            (\<lambda>r. return_act (p, r))) items) (\<lambda>parsed.
          let texts = batch_texts (ms_texts sv) parsed in
          try_act (remote (batch texts)) (\<lambda>r. case r of
              Inl _ \<Rightarrow> store_batch_with_parser_sequential sv pt parse items
            | Inr es \<Rightarrow> if length es \<noteq> length texts \<or> [] \<in> set es then store_batch_with_parser_sequential sv pt parse items
                else store_staged sv pt (zip texts es) parsed)))"

end
