(* ===== verification/StoreService.thy ===== *)
theory StoreService
  imports ParserStore
begin

text \<open>
  \<open>Store\<close> and \<open>StoreBatch\<close> of the memory service: turns go through the parser when it is on, everything else
  is scored, embedded and stored as it is, and both end up in the results at the place of their input.
\<close>

definition store_batch_without_parser :: "service \<Rightarrow> parts \<Rightarrow> prepared_input list \<Rightarrow> memory list db_act" where
  "store_batch_without_parser sv pt items =
     (if items = [] then return_act []
      else let contents = map (\<lambda>p. si_content (pi_input p)) items in
        bind_act (score_contents (pt_scorer pt) contents) (\<lambda>scores.
        if length scores \<noteq> length items then fail_act (ErrMsg ''importance score count mismatch'')
        else bind_act (embed_contents (pt_embedder pt) contents) (\<lambda>embs.
          bind_act (store_in_repo (map2 memory_of_input items scores)) (\<lambda>stored.
          if length stored \<noteq> length embs then fail_act (ErrMsg ''store result mismatch'')
          else bind_act (upsert_stored_embeddings sv (pt_vector pt) stored embs) (\<lambda>_.
               bind_act (map_act (write_canonical_structured_derived sv pt) stored) (\<lambda>_. return_act stored))))))"

text \<open>\<open>results[items[i].idx] = stored[i]\<close>; \<open>stored\<close> has one entry per item.\<close>

definition put_results :: "prepared_input list \<Rightarrow> memory list \<Rightarrow> memory list \<Rightarrow> memory list" where
  "put_results items stored rs = fold (\<lambda>(p, m) rs. rs[pi_idx p := m]) (zip items stored) rs"

definition store_batch :: "service \<Rightarrow> store_input list \<Rightarrow> memory list db_act" where
  "store_batch sv inputs =
     (if inputs = [] then return_act []
      else bind_act (prepare_store_inputs sv inputs) (\<lambda>items.
        case (ms_scorer sv, ms_embedder sv, ms_vector sv) of
          (Some sc, Some em, Some vs) \<Rightarrow>
            let pt = \<lparr>pt_scorer = sc, pt_embedder = em, pt_vector = vs\<rparr>;
                parsed = filter (parser_item sv) items; plain = filter (\<lambda>p. \<not> parser_item sv p) items;
                empty = replicate (length items) zero_memory in
            bind_act (case ms_info_parser sv of
                None \<Rightarrow> return_act empty
              | Some parse \<Rightarrow> if parsed = [] then return_act empty
                  else bind_act (store_batch_with_parser sv pt parse parsed) (\<lambda>stored. return_act (put_results parsed stored empty)))
              (\<lambda>rs.
            if plain = [] then return_act rs
            else bind_act (store_batch_without_parser sv pt plain) (\<lambda>stored. return_act (put_results plain stored rs)))
        | _ \<Rightarrow> fail_act err_not_initialized))"

definition service_store :: "service \<Rightarrow> store_input \<Rightarrow> memory db_act" where
  "service_store sv inp = bind_act (store_batch sv [inp]) (\<lambda>stored.
     case stored of [m] \<Rightarrow> return_act m | _ \<Rightarrow> fail_act (ErrMsg ''store batch returned another number of records''))"

end
