(* ===== verification/ServiceFrames.thy ===== *)
theory ServiceFrames
  imports StoreService
begin

text \<open>
  What the operations of the memory service leave alone, and the invariants they keep: scoring and
  embedding change no table, and whatever the four steps of storing keep (the repository, the vector
  index, the entity facts, the lookups) is kept by every path that stores turns and parsed facts.
\<close>

section \<open>Frames\<close>

text \<open>The database without its embeddings, and without its index jobs.\<close>

definition no_vectors :: "database \<Rightarrow> database" where
  "no_vectors db = db\<lparr>db_embeddings := []\<rparr>"

definition no_index :: "database \<Rightarrow> database" where
  "no_index db = db\<lparr>db_index_jobs := []\<rparr>"

lemma no_vectors_simps:
  assumes "no_vectors t = no_vectors t'"
  shows "db_tenants t = db_tenants t'" "db_memories t = db_memories t'" "db_fts t = db_fts t'"
    "db_facts t = db_facts t'" "db_index_jobs t = db_index_jobs t'" "db_jobs t = db_jobs t'"
  using assms by (simp_all add: no_vectors_def) (metis database.ext_inject database.update_convs(4) database.surjective)+

lemma no_index_simps:
  assumes "no_index t = no_index t'"
  shows "db_tenants t = db_tenants t'" "db_memories t = db_memories t'" "db_fts t = db_fts t'"
    "db_facts t = db_facts t'" "db_embeddings t = db_embeddings t'" "db_jobs t = db_jobs t'"
  using assms by (simp_all add: no_index_def) (metis database.ext_inject database.update_convs(6) database.surjective)+

lemma no_facts_embeddings: "no_facts t = no_facts t' \<Longrightarrow> db_embeddings t = db_embeddings t'"
  by (simp add: no_facts_def) (metis database.ext_inject database.update_convs(5) database.surjective)

lemma no_facts_jobs: "no_facts t = no_facts t' \<Longrightarrow> db_jobs t = db_jobs t'"
  by (simp add: no_facts_def) (metis database.ext_inject database.update_convs(5) database.surjective)

lemma no_facts_memories: "no_facts t = no_facts t' \<Longrightarrow> db_memories t = db_memories t'"
  by (simp add: no_facts_def) (metis database.ext_inject database.update_convs(5) database.surjective)

lemma keeps_remote [act_keeps]: "keeps P (remote f)"
  by (simp add: keeps_def remote_def)

lemma remote_success [act_success]: "remote f w = (Inr x, w') \<longleftrightarrow> f (steps w) = Inr x \<and> w' = tick w"
  by (auto simp: remote_def)

lemma reads_remote [act_atomic]: "reads (remote f)"
  by (simp add: reads_def remote_def)

lemma keeps_mark_frame: "keeps (\<lambda>t. no_index t = D) (mark_index_state t ids op st msg)"
  unfolding mark_index_state_def upsert_memory_index_job_tx_def Let_def
  by (intro act_keeps keeps_exec)
    (auto simp: no_index_def update_index_stmt_def upsert_index_stmt_def Let_def split: if_splits)

lemma keeps_mark_state_frame [act_keeps]: "keeps (\<lambda>t. no_index t = D) (mark_state sv t ids op st e)"
  unfolding mark_state_def by (intro act_keeps keeps_mark_frame)

lemma keeps_mark_state_ok [act_keeps]: "keeps db_ok (mark_state sv t ids op st e)"
  unfolding mark_state_def by (intro act_keeps)

lemma keeps_score [act_keeps]: "keeps P (score_contents sc cs)"
  unfolding score_contents_def Let_def by (intro act_keeps) (auto split: option.split sum.split intro!: act_keeps)

lemma keeps_embed [act_keeps]: "keeps P (embed_contents em cs)"
  unfolding embed_contents_def embed_one_def Let_def
  by (intro act_keeps) (auto split: option.split sum.split intro!: act_keeps)

lemma keeps_case_sum [act_keeps]:
  "(\<And>e. keeps P (f e)) \<Longrightarrow> (\<And>x. keeps P (g x)) \<Longrightarrow> keeps P (case r of Inl e \<Rightarrow> f e | Inr x \<Rightarrow> g x)"
  by (cases r) simp_all

lemma keeps_case_prod [act_keeps]:
  "(\<And>x y. p = (x, y) \<Longrightarrow> keeps P (f x y)) \<Longrightarrow> keeps P (case p of (x, y) \<Rightarrow> f x y)"
  by (cases p) simp

lemma keeps_ensure_tenant [act_keeps]: "keeps P (ensure_tenant_exists t)"
  unfolding ensure_tenant_exists_def by (intro act_keeps reads_keeps act_atomic)

text \<open>Statements that leave the embeddings alone.\<close>

lemma exec_embeddings:
  "keeps (\<lambda>t. db_embeddings t = E) (exec (insert_memory_stmt m))"
  "keeps (\<lambda>t. db_embeddings t = E) (exec (insert_fts_stmt f))"
  "keeps (\<lambda>t. db_embeddings t = E) (exec (upsert_index_stmt x))"
  "keeps (\<lambda>t. db_embeddings t = E) (exec (upsert_job_stmt j))"
  by (rule keeps_exec, auto simp: insert_memory_stmt_def insert_fts_stmt_def upsert_index_stmt_def
      upsert_job_stmt_def Let_def split: if_splits sum.splits)+

lemma keeps_insert_embeddings [act_keeps]:
  "keeps (\<lambda>t. db_embeddings t = E) (insert_memory_tx m)"
  "keeps (\<lambda>t. db_embeddings t = E) (upsert_postprocess_job_tx j now)"
  unfolding insert_memory_tx_def upsert_memory_index_job_tx_def upsert_postprocess_job_tx_def Let_def
  by (intro act_keeps exec_embeddings)+

lemma keeps_prepare_memory [act_keeps]: "keeps P (prepare_memory_for_store m now)"
  unfolding prepare_memory_for_store_def by (intro act_keeps)

lemma keeps_store_embeddings [act_keeps]:
  "keeps (\<lambda>t. db_embeddings t = E) (repo_store_batch ms)"
  "keeps (\<lambda>t. db_embeddings t = E) (store_batch_async_ingest items n)"
  unfolding repo_store_batch_def store_one_def store_batch_async_ingest_def ingest_one_def ingest_job_def Let_def
  by (intro act_keeps)+

lemma keeps_store_in_repo_embeddings: "keeps (\<lambda>t. db_embeddings t = E) (store_in_repo ms)"
  unfolding store_in_repo_def by (intro act_keeps)

text \<open>Storing memories leaves the job queue alone.\<close>

lemma keeps_store_in_repo_jobs: "keeps (\<lambda>t. db_jobs t = D) (store_in_repo ms)"
proof -
  have "keeps (\<lambda>t. db_jobs t = D) (exec (insert_memory_stmt m))" "keeps (\<lambda>t. db_jobs t = D) (exec (insert_fts_stmt f))"
    "keeps (\<lambda>t. db_jobs t = D) (exec (upsert_index_stmt x))" for m f x
    by (rule keeps_exec, auto simp: insert_memory_stmt_def insert_fts_stmt_def upsert_index_stmt_def Let_def split: if_splits)+
  then show ?thesis
    unfolding store_in_repo_def repo_store_batch_def store_one_def insert_memory_tx_def upsert_memory_index_job_tx_def Let_def
    by (intro act_keeps)
qed

lemma keeps_prepare_inputs [act_keeps]: "keeps P (prepare_inputs_from checked i ins)"
  by (induction ins arbitrary: checked i) (auto simp: Let_def intro!: act_keeps)

lemma keeps_prepare_store [act_keeps]: "keeps P (prepare_store_inputs sv ins)"
  unfolding prepare_store_inputs_def by (intro act_keeps)

section \<open>Paths that store parsed facts\<close>

text \<open>The steps that the parser paths are made of keep \<open>P\<close>.\<close>

definition steps_keep :: "(database \<Rightarrow> bool) \<Rightarrow> service \<Rightarrow> parts \<Rightarrow> bool" where
  "steps_keep P sv pt \<longleftrightarrow> (\<forall>ms. keeps P (store_in_repo ms)) \<and>
     (\<forall>stored embs. keeps P (upsert_stored_embeddings sv (pt_vector pt) stored embs)) \<and>
     (\<forall>facts. keeps P (store_entity_facts sv facts)) \<and> (\<forall>t key f. keeps P (find_stored_fact sv t key f))"

lemma keeps_case_option [act_keeps]:
  "keeps P n \<Longrightarrow> (\<And>x. keeps P (s x)) \<Longrightarrow> keeps P (case r of None \<Rightarrow> n | Some x \<Rightarrow> s x)"
  by (cases r) simp_all

lemma keeps_parse [act_keeps]: "keeps P (parse_facts_with_fallback sv parse c)"
  unfolding parse_facts_with_fallback_def Let_def by (intro act_keeps)

lemma keeps_precompute [act_keeps]: "keeps P (precompute_parser_embeddings tx em raw facts)"
  unfolding precompute_parser_embeddings_def Let_def by (intro act_keeps)

lemma keeps_case_list [act_keeps]:
  "keeps P n \<Longrightarrow> (\<And>y ys. keeps P (c y ys)) \<Longrightarrow> keeps P (case xs of [] \<Rightarrow> n | y # ys \<Rightarrow> c y ys)"
  by (cases xs) simp_all

lemma steps_keepD:
  assumes "steps_keep P sv pt"
  shows "keeps P (store_in_repo ms)" "keeps P (upsert_stored_embeddings sv (pt_vector pt) stored embs)"
    "keeps P (store_entity_facts sv facts)" "keeps P (find_stored_fact sv t key f)"
  using assms by (simp_all add: steps_keep_def)

lemma keeps_store_one:
  assumes "steps_keep P sv pt"
  shows "keeps P (store_one_precomputed sv pt m e)" "keeps P (store_one_memory sv pt m)"
    "keeps P (store_one_with_optional_embedding sv pt m embs)"
  unfolding store_one_with_optional_embedding_def store_one_memory_def store_one_precomputed_def
  by (intro act_keeps steps_keepD [OF assms])+

lemma keeps_store_parsed_fact:
  assumes "steps_keep P sv pt"
  shows "keeps P (store_parsed_fact sv pt tn embs p)"
  unfolding store_parsed_fact_def apply_parsed_fact_def
  by (intro act_keeps steps_keepD [OF assms] keeps_store_one [OF assms])

lemma keeps_store_with_parser:
  assumes "steps_keep P sv pt"
  shows "keeps P (store_with_parser sv pt parse p)"
  unfolding store_with_parser_def Let_def
  by (intro act_keeps keeps_store_one [OF assms] keeps_store_parsed_fact [OF assms])

lemma keeps_write_canonical:
  assumes "steps_keep P sv pt"
  shows "keeps P (write_canonical_structured_derived sv pt m)"
  unfolding write_canonical_structured_derived_def Let_def
  by (intro act_keeps keeps_store_parsed_fact [OF assms])

lemma keeps_stage_raw [act_keeps]: "keeps P (stage_raw_memory embs p pending)"
  unfolding stage_raw_memory_def Let_def by (intro act_keeps)

lemma keeps_stage_turn:
  assumes "steps_keep P sv pt"
  shows "keeps P (stage_turn sv embs x st)"
  unfolding stage_turn_def stage_fact_def apply_parsed_fact_with_pending_def Let_def
  by (intro act_keeps steps_keepD [OF assms])

lemma keeps_store_staged:
  assumes "steps_keep P sv pt"
  shows "keeps P (store_staged sv pt embs parsed)"
  unfolding store_staged_def write_pending_def
  by (intro act_keeps steps_keepD [OF assms] keeps_stage_turn [OF assms])

lemma keeps_batch_with_parser:
  assumes "steps_keep P sv pt"
  shows "keeps P (store_batch_with_parser sv pt parse items)"
  unfolding store_batch_with_parser_def store_batch_with_parser_sequential_def Let_def
  by (intro act_keeps keeps_store_with_parser [OF assms] keeps_store_staged [OF assms])

lemma keeps_batch_without_parser:
  assumes "steps_keep P sv pt"
  shows "keeps P (store_batch_without_parser sv pt items)"
  unfolding store_batch_without_parser_def Let_def
  by (intro act_keeps steps_keepD [OF assms] keeps_write_canonical [OF assms])

lemma keeps_store_batch:
  assumes "ms_vector sv = Some vs" and "\<And>pt. pt_vector pt = vs \<Longrightarrow> steps_keep P sv pt"
  shows "keeps P (store_batch sv inputs)"
proof (cases "ms_scorer sv = None \<or> ms_embedder sv = None")
  case True
  then show ?thesis unfolding store_batch_def prepare_store_inputs_def by (auto intro!: act_keeps simp: act_success)
next
  case False
  then obtain sc em where "ms_scorer sv = Some sc" "ms_embedder sv = Some em" by auto
  then show ?thesis
    unfolding store_batch_def Let_def assms(1) option.case prod.case
    by (simp only: option.case) (intro act_keeps keeps_batch_with_parser keeps_batch_without_parser assms(2); simp)
qed

lemma keeps_service_store: "(\<And>inputs. keeps P (store_batch sv inputs)) \<Longrightarrow> keeps P (service_store sv inp)"
  unfolding service_store_def by (intro act_keeps)

end
