(* ===== verification/ServiceLaws.thy ===== *)
theory ServiceLaws
  imports ServiceFrames
begin

text \<open>
  What the memory service guarantees over any vector store that keeps the contract of
  \<open>vector_index\<close> and leaves the other tables alone (\<open>indexed_store\<close>), and, through the interpretation,
  over the SQLite store: every operation preserves the invariant of the database on every outcome, a
  stored batch is in the repository and in the vector index, and a deleted memory is in neither.
\<close>

section \<open>What scoring, embedding and admission return\<close>

lemma clamp_score_range: "0 \<le> clamp_score s \<and> clamp_score s \<le> 1"
  by (simp add: clamp_score_def Let_def)

lemma single_scores:
  "bind_act (map_act (\<lambda>c. remote (sc_score sc c)) cs) (\<lambda>xs. return_act (map clamp_score xs)) w = (Inr scores, w') \<Longrightarrow>
   length scores = length cs \<and> set scores \<subseteq> {0..1}"
  using clamp_score_range by (auto elim!: bind_actE dest!: return_actE(1) map_act_length)

lemma score_contents_run:
  assumes "score_contents sc cs w = (Inr scores, w')"
  shows "length scores = length cs \<and> set scores \<subseteq> {0..1}"
proof (cases "cs = [] \<or> sc_batch sc = None")
  case True
  then consider "cs = []" | "sc_batch sc = None" "cs \<noteq> []" by (cases "cs = []") auto
  then show ?thesis
  proof cases
    case 2
    with assms show ?thesis
      by (intro single_scores [of sc cs w scores w']) (simp add: score_contents_def Let_def)
  qed (use assms in \<open>simp add: score_contents_def act_success\<close>)
next
  case False
  then obtain b where b: "sc_batch sc = Some b" by blast
  show ?thesis
  proof (cases "b cs (steps w)")
    case (Inl e)
    with assms False b show ?thesis
      using single_scores [of sc cs "tick w"] by (simp add: score_contents_def try_act_def remote_def)
  next
    case (Inr xs)
    with assms False b show ?thesis
      using clamp_score_range by (auto simp: score_contents_def try_act_def remote_def act_success split: if_splits)
  qed
qed

lemma embed_one_run: "embed_one em c w = (Inr v, w') \<Longrightarrow> v \<noteq> []"
  by (auto simp: embed_one_def act_success split: if_splits)

lemma single_embeds: "map_act (embed_one em) cs w = (Inr vs, w') \<Longrightarrow> length vs = length cs \<and> [] \<notin> set vs"
proof (induction cs arbitrary: vs w)
  case (Cons c cs)
  then obtain v w1 us where "embed_one em c w = (Inr v, w1)" "map_act (embed_one em) cs w1 = (Inr us, w')" "vs = v # us"
    by (auto simp: act_success)
  with Cons.IH [of w1 us] embed_one_run [of em c w v w1] show ?case by simp
qed (simp add: act_success)

lemma embed_contents_run:
  assumes "embed_contents em cs w = (Inr vs, w')"
  shows "length vs = length cs \<and> [] \<notin> set vs"
proof (cases "cs = [] \<or> em_batch em = None")
  case True
  then consider "cs = []" | "em_batch em = None" "cs \<noteq> []" by (cases "cs = []") auto
  then show ?thesis
  proof cases
    case 2
    with assms show ?thesis
      by (intro single_embeds [of em cs w vs w']) (simp add: embed_contents_def Let_def)
  qed (use assms in \<open>simp add: embed_contents_def act_success\<close>)
next
  case False
  then obtain b where b: "em_batch em = Some b" by blast
  show ?thesis
  proof (cases "b cs (steps w)")
    case (Inl e)
    with assms False b show ?thesis
      using single_embeds [of em cs "tick w"] by (simp add: embed_contents_def try_act_def remote_def)
  next
    case (Inr xs)
    with assms False b show ?thesis
      by (auto simp: embed_contents_def try_act_def remote_def act_success split: if_splits)
  qed
qed

text \<open>An admitted input: its tenant exists and is trimmed, its content is not blank, and tier and kind
  are resolved.\<close>

definition admitted :: "database \<Rightarrow> nat \<Rightarrow> store_input \<Rightarrow> prepared_input \<Rightarrow> bool" where
  "admitted db i inp p \<longleftrightarrow>
     trim_space (si_tenant inp) \<in> t_id ` set (db_tenants db) \<and> trim_space (si_tenant inp) \<noteq> [] \<and>
     trim_space (si_content inp) \<noteq> [] \<and>
     p = \<lparr>pi_idx = i, pi_input = inp\<lparr>si_tenant := trim_space (si_tenant inp)\<rparr>,
          pi_tier = resolve_tier (inp\<lparr>si_tenant := trim_space (si_tenant inp)\<rparr>), pi_kind = resolve_kind (si_kind inp)\<rparr>"

lemma ensure_tenant_run:
  "ensure_tenant_exists t w = (Inr u, w') \<Longrightarrow> t \<in> t_id ` set (db_tenants (tabs w)) \<and> tabs w' = tabs w"
  unfolding ensure_tenant_exists_def
  by (erule bind_actE) (auto dest!: tenant_exists_run simp: act_success split: if_splits)

lemma prepare_inputs_run:
  "prepare_inputs_from checked i ins w = (Inr items, w') \<Longrightarrow> set checked \<subseteq> t_id ` set (db_tenants (tabs w)) \<Longrightarrow>
   tabs w' = tabs w \<and> length items = length ins \<and>
   (\<forall>k < length ins. admitted (tabs w) (i + k) (ins ! k) (items ! k))"
proof (induction ins arbitrary: checked i w items)
  case Nil
  then show ?case by (simp add: act_success)
next
  case (Cons inp ins)
  let ?t = "trim_space (si_tenant inp)"
  from Cons.prems(1) have ne: "?t \<noteq> []" "trim_space (si_content inp) \<noteq> []"
    by (auto simp: Let_def act_success split: if_splits)
  with Cons.prems(1) obtain u w1 rest where
    e: "(if ?t \<in> set checked then return_act () else ensure_tenant_exists ?t) w = (Inr u, w1)"
    and r: "prepare_inputs_from (?t # checked) (i + 1) ins w1 = (Inr rest, w')"
    and items: "items = \<lparr>pi_idx = i, pi_input = inp\<lparr>si_tenant := ?t\<rparr>,
          pi_tier = resolve_tier (inp\<lparr>si_tenant := ?t\<rparr>), pi_kind = resolve_kind (si_kind inp)\<rparr> # rest"
    by (auto simp: Let_def elim!: bind_actE simp: return_act_success)
  have t: "?t \<in> t_id ` set (db_tenants (tabs w)) \<and> tabs w1 = tabs w"
    using e Cons.prems(2) ensure_tenant_run [of ?t w u w1] by (auto simp: act_success split: if_splits)
  then have "set (?t # checked) \<subseteq> t_id ` set (db_tenants (tabs w1))" using Cons.prems(2) by simp
  from Cons.IH [OF r this] t have IH: "tabs w' = tabs w" "length rest = length ins"
    "\<forall>k < length ins. admitted (tabs w) (i + 1 + k) (ins ! k) (rest ! k)" by simp_all
  have "admitted (tabs w) (i + k) ((inp # ins) ! k) (items ! k)" if "k < length (inp # ins)" for k
    using that IH(3) t ne by (cases k) (simp_all add: items admitted_def)
  then show ?case using IH by (simp add: items)
qed

lemma put_results_from:
  "map pi_idx items = [k..<k + length items] \<Longrightarrow> length stored = length items \<Longrightarrow> length rs = k + length items \<Longrightarrow>
   put_results items stored rs = take k rs @ stored"
  unfolding put_results_def
proof (induction items arbitrary: k stored rs)
  case Nil
  then show ?case by simp
next
  case (Cons p items)
  then obtain m ms where st: "stored = m # ms" by (cases stored) auto
  have k: "pi_idx p = k" "map pi_idx items = [Suc k..<Suc k + length items]"
    using Cons.prems(1) by (simp_all del: upt_Suc add: upt_conv_Cons)
  have "fold (\<lambda>(p, m) rs. rs[pi_idx p := m]) (zip items ms) (rs[k := m]) = take (Suc k) (rs[k := m]) @ ms"
    using Cons.IH [OF k(2), of ms "rs[k := m]"] Cons.prems by (simp add: st)
  moreover have "k < length rs" using Cons.prems(3) by simp
  then have "take (Suc k) (rs[k := m]) = take k rs @ [m]" by (simp add: take_Suc_conv_app_nth)
  ultimately show ?case by (simp add: st k(1))
qed

section \<open>Stores that leave the other tables alone\<close>

text \<open>The upsert of one stored memory, what a stored batch looks like, and the memories without one.\<close>

definition up :: "memory \<times> real list \<Rightarrow> vector_upsert" where
  "up p = \<lparr>vu_tenant = m_tenant (fst p), vu_memory = m_id (fst p), vu_embedding = snd p\<rparr>"

definition stored_as :: "prepared_input list \<Rightarrow> real list \<Rightarrow> gotime \<Rightarrow> memory list \<Rightarrow> bool" where
  "stored_as items scores now stored \<longleftrightarrow> length scores = length items \<and> set scores \<subseteq> {0..1} \<and>
     list_all2 (prepared now) (map apply_implicit_memory_identity (map2 memory_of_input items scores)) stored"

definition without :: "string \<Rightarrow> string \<Rightarrow> memory list \<Rightarrow> memory list" where
  "without t i = filter (\<lambda>m. \<not> (m_tenant m = t \<and> m_id m = i))"

lemma without_idem [simp]: "without t i (without t i M) = without t i M"
  by (simp add: without_def)

locale indexed_store = vector_index +
  assumes frame: "db_embeddings t' = db_embeddings t \<Longrightarrow> good t \<Longrightarrow> good t' \<and> vec t' = vec t"
    and cascade: "db_embeddings t' = filter (\<lambda>r. er_memory r \<noteq> i) (db_embeddings t) \<Longrightarrow> good t \<Longrightarrow>
      good t' \<and> (\<forall>tn m. m \<noteq> i \<longrightarrow> vec t' (tn, m) = vec t (tn, m))"
    and upsert_frame: "keeps (\<lambda>t. no_vectors t = D) (vs_upsert vs tn m e)"
    and delete_frame: "keeps (\<lambda>t. no_vectors t = D) (vs_delete vs tn m)"
    and batch_frame: "vs_upsert_batch vs = Some b \<Longrightarrow> keeps (\<lambda>t. no_vectors t = D) (b us)"
    and batch_vec: "vs_upsert_batch vs = Some b \<Longrightarrow> yields (\<lambda>t. t = t0 \<and> good t0) (b us)
      (\<lambda>_ t. good t \<and> vec t = fold embed_put us (vec t0))"
begin

definition ok :: "database \<Rightarrow> bool" where
  "ok t \<longleftrightarrow> good t \<and> db_ok t"

lemma keeps_ok_frame:
  assumes "\<And>D. keeps (\<lambda>t. no_index t = D) m" "keeps db_ok m"
  shows "keeps ok m"
  unfolding keeps_def
proof (intro allI impI)
  fix w :: "database world" assume w: "ok (tabs w)"
  have "no_index (tabs (snd (m w))) = no_index (tabs w)" using keepsD [OF assms(1)] by blast
  then have "good (tabs (snd (m w)))" using frame no_index_simps(5) w by (metis ok_def)
  then show "ok (tabs (snd (m w)))" using keepsD [OF assms(2)] w by (simp add: ok_def)
qed

lemma keeps_ok_embeddings:
  assumes "\<And>E. keeps (\<lambda>t. db_embeddings t = E) m" "keeps db_ok m"
  shows "keeps ok m"
  unfolding keeps_def
proof (intro allI impI)
  fix w :: "database world" assume w: "ok (tabs w)"
  have "db_embeddings (tabs (snd (m w))) = db_embeddings (tabs w)" using keepsD [OF assms(1)] by blast
  then have "good (tabs (snd (m w)))" using frame w by (metis ok_def)
  then show "ok (tabs (snd (m w)))" using keepsD [OF assms(2)] w by (simp add: ok_def)
qed

lemma keeps_ok_mark: "keeps ok (mark_state sv t ids op st e)"
  by (rule keeps_ok_frame) (rule act_keeps)+

lemma ok_eq: "ok = (\<lambda>t. good t \<and> db_ok t)"
  by (simp add: fun_eq_iff ok_def)

lemma keeps_ok_delete: "keeps ok (repo_delete t i)"
proof (rule keeps_atomic)
  show "yields ok (repo_delete t i) (\<lambda>_. ok)"
  proof (rule yieldsI)
    fix w u w' assume w: "ok (tabs w)" and run: "repo_delete t i w = (Inr u, w')"
    then have "memory_deleted t i (tabs w) (tabs w')"
      using yieldsD [OF yields_delete run, of "tabs w"] by (simp add: ok_def db_ok_def store_ok_def)
    then have "db_embeddings (tabs w') = filter (\<lambda>r. er_memory r \<noteq> i) (db_embeddings (tabs w))"
      by (auto simp: memory_deleted_def)
    moreover have "db_ok (tabs w')" using yieldsD [OF yields_db_ok_delete run] w by (simp add: ok_def)
    ultimately show "ok (tabs w')" using cascade w by (metis ok_def)
  qed
qed (rule repo_atomic)

lemma keeps_ok_store: "keeps ok (store_in_repo ms)"
proof (rule keeps_ok_embeddings)
  show "keeps db_ok (store_in_repo ms)" unfolding store_in_repo_def by (intro act_keeps)
  show "keeps (\<lambda>t. db_embeddings t = E) (store_in_repo ms)" for E
    by (rule keeps_store_in_repo_embeddings)
qed

lemma keeps_ok_upsert_loop: "keeps ok (upsert_loop sv vs t indexed ps)"
proof (induction ps arbitrary: indexed)
  case Nil
  show ?case unfolding upsert_loop.simps by (intro act_keeps keeps_ok_mark)
next
  case (Cons p ps)
  obtain m e where p: "p = (m, e)" by (cases p)
  show ?case
    unfolding p upsert_loop.simps
  proof (rule keeps_try)
    show "keeps ok (vs_upsert vs (m_tenant m) (m_id m) e)" using upsert_keeps by (simp only: ok_eq)
    show "keeps ok (case r of
        Inl x \<Rightarrow> bind_act (if indexed \<noteq> [] then mark_state sv t indexed OpUpsert IxIndexed None else return_act ()) (\<lambda>_.
           bind_act (mark_state sv t (m_id m # map (\<lambda>p. m_id (fst p)) ps) OpUpsert IxFailed (Some x)) (\<lambda>_. fail_act x))
       | Inr _ \<Rightarrow> upsert_loop sv vs t (indexed @ [m_id m]) ps)" for r :: "err + unit"
      by (cases r) (auto intro!: act_keeps keeps_ok_mark Cons.IH)
  qed
qed

lemma keeps_ok_batch: "vs_upsert_batch vs = Some b \<Longrightarrow> keeps ok (b us)"
  using batch_keeps by (simp only: ok_eq)

lemma keeps_ok_upsert_stored: "keeps ok (upsert_stored_embeddings sv vs stored embs)"
proof (cases "vs_upsert_batch vs")
  case None
  then show ?thesis
    unfolding upsert_stored_embeddings_def Let_def None option.case
    by (intro act_keeps keeps_ok_mark keeps_ok_upsert_loop)
next
  case (Some b)
  show ?thesis
    unfolding upsert_stored_embeddings_def Let_def Some option.case
    by (intro act_keeps keeps_ok_mark keeps_ok_batch [OF Some])
qed

lemma keeps_ok_service_delete:
  assumes "ms_vector sv = Some vs"
  shows "keeps ok (service_delete sv t i)"
proof -
  have "keeps ok (vs_delete vs t i)" using delete_keeps by (simp only: ok_eq)
  then show ?thesis
    unfolding service_delete_def assms option.case
    by (intro act_keeps keeps_ok_mark)
      (auto split: sum.split intro!: act_keeps keeps_ok_mark keeps_ok_delete)
qed

lemma keeps_ok_ingest: "keeps ok (ingest_batch_async sv inputs n)"
proof (rule keeps_ok_embeddings)
  show "keeps db_ok (ingest_batch_async sv inputs n)"
    unfolding ingest_batch_async_def by (intro act_keeps)
  show "keeps (\<lambda>t. db_embeddings t = E) (ingest_batch_async sv inputs n)" for E
    unfolding ingest_batch_async_def by (intro act_keeps)
qed

text \<open>Invariant, memories and vectors at once: \<open>K M V t\<close>.\<close>

definition K :: "memory list \<Rightarrow> (string \<times> string \<Rightarrow> real list option) \<Rightarrow> database \<Rightarrow> bool" where
  "K M V t \<longleftrightarrow> ok t \<and> db_memories t = M \<and> vec t = V"

lemma keeps_K_mark: "keeps (K M V) (mark_state sv t ids op st e)"
  unfolding keeps_def
proof (intro allI impI)
  fix w :: "database world" assume K: "K M V (tabs w)"
  let ?w' = "snd (mark_state sv t ids op st e w)"
  have n: "no_index (tabs ?w') = no_index (tabs w)"
    using keepsD [OF keeps_mark_state_frame [of "no_index (tabs w)"]] by blast
  have "ok (tabs ?w')" using keepsD [OF keeps_ok_mark] K by (simp add: K_def)
  moreover have "vec (tabs ?w') = vec (tabs w)"
    using frame [OF no_index_simps(5) [OF n]] K by (simp add: K_def ok_def)
  ultimately show "K M V (tabs ?w')" using no_index_simps(2) [OF n] K by (simp add: K_def)
qed

lemma yields_K_step:
  assumes k: "keeps (\<lambda>t. good t \<and> db_ok t) m" and f: "\<And>D. keeps (\<lambda>t. no_vectors t = D) m"
    and v: "\<And>t0. yields (\<lambda>t. t = t0 \<and> good t0) m (\<lambda>_ t. good t \<and> vec t = F (vec t0))"
  shows "yields (K M V) m (\<lambda>_. K M (F V))"
proof (rule yieldsI)
  fix w x w' assume K: "K M V (tabs w)" and run: "m w = (Inr x, w')"
  have "good (tabs w') \<and> db_ok (tabs w')" using keeps_run [OF k run] K by (simp add: K_def ok_def)
  moreover have "no_vectors (tabs w') = no_vectors (tabs w)" using keeps_run [OF f run] by blast
  then have "db_memories (tabs w') = db_memories (tabs w)" by (rule no_vectors_simps)
  moreover have "vec (tabs w') = F (vec (tabs w))" using yieldsD [OF v run, of "tabs w"] K by (simp add: K_def ok_def)
  ultimately show "K M (F V) (tabs w')" using K by (simp add: K_def ok_def)
qed

lemma yields_K_upsert: "yields (K M V) (vs_upsert vs (vu_tenant u) (vu_memory u) (vu_embedding u)) (\<lambda>_. K M (embed_put u V))"
  by (rule yields_K_step [OF upsert_keeps upsert_frame]) (use upsert_vec in \<open>simp only: embed_put_def\<close>)

lemma yields_K_batch:
  "vs_upsert_batch vs = Some b \<Longrightarrow> yields (K M V) (b us) (\<lambda>_. K M (fold embed_put us V))"
  by (rule yields_K_step [OF batch_keeps batch_frame batch_vec])

lemma yields_K_mark: "yields (K M V) (mark_state sv t ids op st e) (\<lambda>_. K M V)"
  by (rule yields_keeps [OF keeps_K_mark])

lemma yields_try_fail:
  assumes "yields P m (\<lambda>_. Q)" "yields Q n R" "\<And>e w x w'. f e w \<noteq> (Inr x, w')"
  shows "yields P (try_act m (\<lambda>r. case r of Inl e \<Rightarrow> f e | Inr _ \<Rightarrow> n)) R"
proof (rule yieldsI)
  fix w x w' assume P: "P (tabs w)" and run: "try_act m (\<lambda>r. case r of Inl e \<Rightarrow> f e | Inr _ \<Rightarrow> n) w = (Inr x, w')"
  obtain r w1 where m: "m w = (r, w1)" by (cases "m w")
  show "R x (tabs w')"
  proof (cases r)
    case (Inl e)
    with run m have "f e w1 = (Inr x, w')" by (simp add: try_act_def)
    with assms(3) show ?thesis by blast
  next
    case (Inr y)
    with run m have "n w1 = (Inr x, w')" by (simp add: try_act_def)
    with yieldsD [OF assms(1)] m Inr P yieldsD [OF assms(2)] show ?thesis by blast
  qed
qed

lemma bind_fails: "bind_act m (\<lambda>_. fail_act e) w \<noteq> (Inr x, w')"
  by (simp add: act_success)

lemma bind_bind_fails: "bind_act m (\<lambda>_. bind_act n (\<lambda>_. fail_act e)) w \<noteq> (Inr x, w')"
  by (simp add: act_success)

lemma yields_K_upsert_loop:
  "yields (K M V) (upsert_loop sv vs t indexed ps) (\<lambda>_. K M (fold embed_put (map up ps) V))"
proof (induction ps arbitrary: indexed V)
  case Nil
  show ?case unfolding upsert_loop.simps by (auto intro!: act_yields yields_K_mark yields_return)
next
  case (Cons p ps)
  obtain m e where p: "p = (m, e)" by (cases p)
  have u: "yields (K M V) (vs_upsert vs (m_tenant m) (m_id m) e) (\<lambda>_. K M (embed_put (up p) V))"
    using yields_K_upsert [of M V "up p"] by (simp add: up_def p)
  show ?case
    unfolding p upsert_loop.simps
    by (rule yields_try_fail [OF u, unfolded p]) (use Cons.IH in \<open>simp_all add: bind_bind_fails\<close>)
qed

lemma yields_K_upsert_stored:
  "yields (K M V) (upsert_stored_embeddings sv vs stored embs)
     (\<lambda>_. K M (fold embed_put (vector_upserts stored embs) V))"
proof -
  have ups: "vector_upserts stored embs = map up (zip stored embs)"
    by (simp add: vector_upserts_def up_def split_beta comp_def)
  have main: "yields (K M V) (case vs_upsert_batch vs of
          Some batch \<Rightarrow> try_act (batch (vector_upserts stored embs)) (\<lambda>r. case r of
              Inl x \<Rightarrow> bind_act (mark_state sv t ids OpUpsert IxFailed (Some x)) (\<lambda>_. fail_act x)
            | Inr _ \<Rightarrow> mark_state sv t ids OpUpsert IxIndexed None)
        | None \<Rightarrow> upsert_loop sv vs t [] (zip stored embs))
     (\<lambda>_. K M (fold embed_put (vector_upserts stored embs) V))" for t ids
  proof (cases "vs_upsert_batch vs")
    case None
    then show ?thesis using yields_K_upsert_loop by (simp add: ups)
  next
    case (Some b)
    show ?thesis
      unfolding Some option.case
      by (rule yields_try_fail [OF yields_K_batch [OF Some] yields_K_mark]) (rule bind_fails)
  qed
  have empty: "stored = [] \<Longrightarrow> vector_upserts stored embs = []" by (simp add: vector_upserts_def)
  have nil: "vector_upserts [] [] = []" by (simp add: vector_upserts_def)
  show ?thesis
    unfolding upsert_stored_embeddings_def Let_def
    by (intro act_yields yields_bind [OF yields_K_mark main]) (auto intro!: yields_return simp: empty nil)
qed

text \<open>Storing without the parser: what a run that succeeds has done.\<close>

lemma K_store:
  assumes run: "store_in_repo ms w = (Inr stored, w')" and ok: "ok (tabs w)"
  shows "\<exists>now. list_all2 (prepared now) (map apply_implicit_memory_identity ms) stored \<and>
    K (db_memories (tabs w) @ stored) (vec (tabs w)) (tabs w')"
proof -
  have ok': "ok (tabs w')" using keeps_run [OF keeps_ok_store run] ok by blast
  have e: "db_embeddings (tabs w') = db_embeddings (tabs w)"
    using keeps_run [OF keeps_store_in_repo_embeddings run refl] .
  have "good (tabs w)" using ok by (simp add: ok_def)
  with frame [OF e] have v: "vec (tabs w') = vec (tabs w)" by blast
  show ?thesis
  proof (cases "ms = []")
    case True
    with run ok show ?thesis by (simp add: store_in_repo_def act_success K_def)
  next
    case False
    with run have "repo_store_batch (map apply_implicit_memory_identity ms) w = (Inr stored, w')"
      by (simp add: store_in_repo_def)
    from yieldsD [OF yields_store_batch this, of "tabs w"] ok obtain now
      where "memories_added now (map apply_implicit_memory_identity ms) stored (tabs w) (tabs w')"
      by (auto simp: ok_def db_ok_def)
    with ok' v show ?thesis by (auto simp: memories_added_def K_def)
  qed
qed

lemma plain_stored:
  assumes off: "\<not> so_enabled (ms_structured sv)" and ne: "items \<noteq> []" and ok: "ok (tabs w)"
    and v: "pt_vector pt = vs"
    and run: "store_batch_without_parser sv pt items w = (Inr stored, w')"
  shows "\<exists>scores embs now. stored_as items scores now stored \<and> length embs = length items \<and> [] \<notin> set embs \<and>
    K (db_memories (tabs w) @ stored) (fold embed_put (vector_upserts stored embs) (vec (tabs w))) (tabs w')"
proof -
  let ?c = "map (\<lambda>p. si_content (pi_input p)) items"
  from run ne obtain scores w1 where sc: "score_contents (pt_scorer pt) ?c w = (Inr scores, w1)"
    and r1: "(if length scores \<noteq> length items then fail_act (ErrMsg ''importance score count mismatch'')
        else bind_act (embed_contents (pt_embedder pt) ?c) (\<lambda>embs.
          bind_act (store_in_repo (map2 memory_of_input items scores)) (\<lambda>stored.
          if length stored \<noteq> length embs then fail_act (ErrMsg ''store result mismatch'')
          else bind_act (upsert_stored_embeddings sv vs stored embs) (\<lambda>_.
               bind_act (map_act (write_canonical_structured_derived sv pt) stored) (\<lambda>_. return_act stored))))) w1
      = (Inr stored, w')"
    unfolding store_batch_without_parser_def Let_def v by (auto elim: bind_actE)
  have scores: "length scores = length items" "set scores \<subseteq> {0..1}" using score_contents_run [OF sc] by simp_all
  from r1 scores(1) obtain embs w2 st w3 u w4 us w5 where em: "embed_contents (pt_embedder pt) ?c w1 = (Inr embs, w2)"
    and st: "store_in_repo (map2 memory_of_input items scores) w2 = (Inr st, w3)"
    and len: "length st = length embs"
    and up: "upsert_stored_embeddings sv vs st embs w3 = (Inr u, w4)"
    and der: "map_act (write_canonical_structured_derived sv pt) st w4 = (Inr us, w5)" and "stored = st" "w' = w5"
    by (auto elim!: bind_actE simp: fail_act_success return_act_success split: if_splits)
  have embs: "length embs = length items" "[] \<notin> set embs" using embed_contents_run [OF em] by simp_all
  have t2: "tabs w2 = tabs w"
    using keeps_run [OF keeps_score sc, of "\<lambda>t. t = tabs w"] keeps_run [OF keeps_embed em, of "\<lambda>t. t = tabs w"] by simp
  from K_store [OF st] ok t2 obtain now
    where pr: "list_all2 (prepared now) (map apply_implicit_memory_identity (map2 memory_of_input items scores)) st"
      and K3: "K (db_memories (tabs w) @ st) (vec (tabs w)) (tabs w3)" by auto
  have K4: "K (db_memories (tabs w) @ st) (fold embed_put (vector_upserts st embs) (vec (tabs w))) (tabs w4)"
    using yieldsD [OF yields_K_upsert_stored up K3] .
  have "keeps P (map_act (write_canonical_structured_derived sv pt) st)" for P :: "database \<Rightarrow> bool"
    using off unfolding write_canonical_structured_derived_def by (auto intro!: act_keeps)
  from keeps_run [OF this der, of "\<lambda>t. t = tabs w4"] have "tabs w' = tabs w4" using \<open>w' = w5\<close> by simp
  with scores embs pr K4 \<open>stored = st\<close> show ?thesis unfolding stored_as_def by auto
qed

text \<open>Deleting: whatever happens, the memories are those from before or all of them but the deleted one;
  and what a successful run has done.\<close>

lemma deleted_run:
  assumes run: "repo_delete t i w = (Inr u, w')" and ok: "ok (tabs w)"
  shows "ok (tabs w') \<and> db_memories (tabs w') = without t i (db_memories (tabs w)) \<and>
    (\<exists>m \<in> set (db_memories (tabs w)). m_tenant m = t \<and> m_id m = i) \<and>
    (\<forall>tn m. m \<noteq> i \<longrightarrow> vec (tabs w') (tn, m) = vec (tabs w) (tn, m))"
proof -
  have del: "memory_deleted t i (tabs w) (tabs w')"
    using yieldsD [OF yields_delete run, of "tabs w"] ok by (simp add: ok_def db_ok_def store_ok_def)
  have "ok (tabs w')" using keeps_run [OF keeps_ok_delete run] ok by blast
  moreover have e: "db_embeddings (tabs w') = filter (\<lambda>r. er_memory r \<noteq> i) (db_embeddings (tabs w))"
    using del by (auto simp: memory_deleted_def)
  have "good (tabs w)" using ok by (simp add: ok_def)
  with cascade [OF e] have "\<forall>tn m. m \<noteq> i \<longrightarrow> vec (tabs w') (tn, m) = vec (tabs w) (tn, m)" by blast
  moreover have "db_memories (tabs w') = without t i (db_memories (tabs w)) \<and>
      (\<exists>m \<in> set (db_memories (tabs w)). m_tenant m = t \<and> m_id m = i)"
    using del by (auto simp: memory_deleted_def without_def)
  ultimately show ?thesis by blast
qed

definition J :: "string \<Rightarrow> string \<Rightarrow> memory list \<Rightarrow> database \<Rightarrow> bool" where
  "J t i M db \<longleftrightarrow> ok db \<and> db_memories db \<in> {M, without t i M}"

lemma keeps_J_mark: "keeps (J t i M) (mark_state sv tn ids op st e)"
  unfolding keeps_def
proof (intro allI impI)
  fix w :: "database world" assume J: "J t i M (tabs w)"
  let ?w' = "snd (mark_state sv tn ids op st e w)"
  have "no_index (tabs ?w') = no_index (tabs w)"
    using keepsD [OF keeps_mark_state_frame [of "no_index (tabs w)"]] by blast
  from no_index_simps(2) [OF this] show "J t i M (tabs ?w')"
    using keepsD [OF keeps_ok_mark] J by (simp add: J_def)
qed

lemma keeps_J_vs_delete: "keeps (J t i M) (vs_delete vs tn m)"
  unfolding keeps_def
proof (intro allI impI)
  fix w :: "database world" assume J: "J t i M (tabs w)"
  let ?w' = "snd (vs_delete vs tn m w)"
  have "no_vectors (tabs ?w') = no_vectors (tabs w)" using keepsD [OF delete_frame] by blast
  from no_vectors_simps(2) [OF this] show "J t i M (tabs ?w')"
    using keepsD [OF delete_keeps, of w] J by (simp add: J_def ok_def)
qed

lemma keeps_J_delete: "keeps (J t i M) (repo_delete t i)"
proof (rule keeps_atomic)
  show "yields (J t i M) (repo_delete t i) (\<lambda>_. J t i M)"
  proof (rule yieldsI)
    fix w u w' assume J: "J t i M (tabs w)" and run: "repo_delete t i w = (Inr u, w')"
    have "ok (tabs w)" using J by (simp add: J_def)
    from deleted_run [OF run this] J show "J t i M (tabs w')" by (auto simp: J_def)
  qed
qed (rule repo_atomic)

lemma keeps_J_service_delete:
  assumes "ms_vector sv = Some vs"
  shows "keeps (J t i M) (service_delete sv t i)"
  unfolding service_delete_def assms option.case
  by (intro act_keeps keeps_J_mark keeps_J_delete keeps_J_vs_delete)

lemma K_vs_delete: "yields (K M V) (vs_delete vs t i) (\<lambda>_. K M (V((t, i) := None)))"
  by (rule yields_K_step [OF delete_keeps delete_frame delete_vec])

lemma service_deleted:
  assumes v: "ms_vector sv = Some vs" and run: "service_delete sv t i w = (Inr u, w')" and ok: "ok (tabs w)"
  shows "(\<exists>m \<in> set (db_memories (tabs w)). m_tenant m = t \<and> m_id m = i) \<and>
    (\<exists>V. K (without t i (db_memories (tabs w))) (V((t, i) := None)) (tabs w') \<and>
       (\<forall>tn m. m \<noteq> i \<longrightarrow> V (tn, m) = vec (tabs w) (tn, m)))"
proof -
  from run have ne: "\<not> (trim_space t = [] \<or> trim_space i = [])"
    by (auto simp: service_delete_def fail_act_success)
  let ?fail = "\<lambda>x. bind_act (mark_state sv t [i] OpDelete IxFailed (Some x)) (\<lambda>_. fail_act x)"
  from run obtain w1 u2 w2 where e: "ensure_tenant_exists t w = (Inr (), w1)"
    and mk: "mark_state sv t [i] OpDelete IxPending None w1 = (Inr u2, w2)"
    and rest: "try_act (repo_delete t i) (\<lambda>r. case r of Inl x \<Rightarrow> ?fail x
            | Inr _ \<Rightarrow> try_act (vs_delete vs t i) (\<lambda>r. case r of Inl x \<Rightarrow> ?fail x
              | Inr _ \<Rightarrow> mark_state sv t [i] OpDelete IxTombstoned None)) w2 = (Inr u, w')"
    unfolding service_delete_def v option.case if_not_P [OF ne] by (auto elim!: bind_actE)
  have "tabs w1 = tabs w" using ensure_tenant_run [OF e] by blast
  then have K2: "K (db_memories (tabs w)) (vec (tabs w)) (tabs w2)"
    using yieldsD [OF yields_K_mark mk] ok by (simp add: K_def)
  obtain r w3 where d: "repo_delete t i w2 = (r, w3)" by (cases "repo_delete t i w2")
  have "\<exists>u3. r = Inr u3"
    using rest d by (cases r) (auto simp: try_act_def bind_fails)
  then obtain u3 where r: "r = Inr u3" ..
  from deleted_run [OF d [unfolded r]] K2 have
    D: "K (without t i (db_memories (tabs w))) (vec (tabs w3)) (tabs w3)"
    "\<exists>m \<in> set (db_memories (tabs w)). m_tenant m = t \<and> m_id m = i"
    "\<forall>tn m. m \<noteq> i \<longrightarrow> vec (tabs w3) (tn, m) = vec (tabs w) (tn, m)"
    by (auto simp: K_def)
  have "try_act (vs_delete vs t i) (\<lambda>r. case r of Inl x \<Rightarrow> ?fail x
              | Inr _ \<Rightarrow> mark_state sv t [i] OpDelete IxTombstoned None) w3 = (Inr u, w')"
    using rest d r by (simp add: try_act_def)
  from yieldsD [OF yields_try_fail [OF K_vs_delete yields_K_mark bind_fails] this D(1)] D(2,3)
  show ?thesis by blast
qed

end

text \<open>With a repository of entity facts beside the vector store, every step of storing keeps the invariant.\<close>

locale fact_service = indexed_store + facts: fact_repository fs live
  for fs :: fact_store and live :: "database \<Rightarrow> string \<times> string \<times> string \<Rightarrow> string set"
begin

lemma keeps_ok_facts:
  assumes "uses_facts sv fs"
  shows "keeps ok (store_entity_facts sv fx)"
proof (rule keeps_ok_embeddings)
  show "keeps (\<lambda>t. db_embeddings t = E) (store_entity_facts sv fx)" for E
    unfolding keeps_def
  proof (intro allI impI)
    fix w :: "database world" assume E: "db_embeddings (tabs w) = E"
    have "no_facts (tabs (snd (store_entity_facts sv fx w))) = no_facts (tabs w)"
      using keepsD [OF facts.store_entity_facts_frame [OF assms]] by blast
    from no_facts_embeddings [OF this] E
    show "db_embeddings (tabs (snd (store_entity_facts sv fx w))) = E" by (rule trans)
  qed
qed (rule facts.store_entity_facts_ok [OF assms])

lemma steps_keep_ok: "uses_facts sv fs \<Longrightarrow> pt_vector pt = vs \<Longrightarrow> steps_keep ok sv pt"
  unfolding steps_keep_def
  using keeps_ok_store keeps_ok_upsert_stored keeps_ok_facts facts.find_fact_reads by (auto intro: reads_keeps)

lemma keeps_ok_store_batch: "uses_facts sv fs \<Longrightarrow> ms_vector sv = Some vs \<Longrightarrow> keeps ok (store_batch sv inputs)"
  by (rule keeps_store_batch) (auto intro: steps_keep_ok)

end

section \<open>The SQLite vector store\<close>

lemma filter_embeddings_map:
  "map_of (map (\<lambda>r. (embedding_key r, er_embedding r)) (filter (\<lambda>r. er_memory r \<noteq> i) rs)) (tn, m) =
   (if m = i then None else map_of (map (\<lambda>r. (embedding_key r, er_embedding r)) rs) (tn, m))"
  by (induction rs) (auto simp: embedding_key_def)

lemma sv_frames:
  "keeps (\<lambda>t. no_vectors t = D) (sv_upsert tn m e)"
  "keeps (\<lambda>t. no_vectors t = D) (sv_delete tn m)"
  "keeps (\<lambda>t. no_vectors t = D) (sv_upsert_batch us)"
proof -
  have up: "keeps (\<lambda>t. no_vectors t = D) (exec (upsert_embedding_stmt tn m e now))" for tn m e now
    by (rule keeps_exec) (auto simp: no_vectors_def upsert_embedding_stmt_def split: if_splits)
  show "keeps (\<lambda>t. no_vectors t = D) (sv_upsert tn m e)" "keeps (\<lambda>t. no_vectors t = D) (sv_upsert_batch us)"
    unfolding sv_upsert_def sv_upsert_batch_def by (intro act_keeps up)+
  show "keeps (\<lambda>t. no_vectors t = D) (sv_delete tn m)"
    unfolding sv_delete_def
    by (intro act_keeps keeps_exec) (auto simp: no_vectors_def delete_embedding_stmt_def)
qed

interpretation svi: indexed_store sqlite_vector_store embedding_map embeddings_ok cosine_similarity
proof unfold_locales
  fix t t' :: database and i
  assume "db_embeddings t' = filter (\<lambda>r. er_memory r \<noteq> i) (db_embeddings t)" "embeddings_ok t"
  then show "embeddings_ok t' \<and> (\<forall>tn m. m \<noteq> i \<longrightarrow> embedding_map t' (tn, m) = embedding_map t (tn, m))"
    by (simp add: embeddings_ok_def embedding_map_def filter_embeddings_map distinct_map_filter)
next
  fix b us and t0 :: database
  assume "vs_upsert_batch sqlite_vector_store = Some b"
  then have b: "b = sv_upsert_batch" by (simp add: sqlite_vector_store_def)
  show "yields (\<lambda>t. t = t0 \<and> embeddings_ok t0) (b us)
      (\<lambda>_ t. embeddings_ok t \<and> embedding_map t = fold embed_put us (embedding_map t0))"
    unfolding b by (rule sv_upsert_batch_effect)
  show "keeps (\<lambda>t. no_vectors t = D) (b us)" for D unfolding b by (rule sv_frames)
qed (simp_all add: embeddings_ok_def embedding_map_def sqlite_vector_store_def sv_frames)

interpretation sfi: fact_service sqlite_vector_store embedding_map embeddings_ok cosine_similarity sqlite_fact_store active_values
  by unfold_locales

section \<open>Properties\<close>

definition service_ok :: "database \<Rightarrow> bool" where
  "service_ok db \<longleftrightarrow> embeddings_ok db \<and> db_ok db"

lemma svi_ok: "svi.ok = service_ok"
  by (simp add: fun_eq_iff svi.ok_def service_ok_def)

text \<open>C6 Whatever its outcome, no operation of the memory service breaks the invariant of the database
  (unique memories of existing tenants, a full-text table and index jobs that match them, well-formed
  entity facts, no embedding of a memory that is gone, a well-formed job queue): storing with and without
  parser, one turn or a batch, with derived facts, whatever scorer, embedder and parser answer; deleting,
  reading, listing and asynchronous ingest.\<close>

theorem service_keeps_invariant:
  assumes "ms_vector sv = Some sqlite_vector_store" and "uses_facts sv sqlite_fact_store" and "service_ok (tabs w)"
  shows "service_ok (tabs (snd (store_batch sv inputs w))) \<and> service_ok (tabs (snd (service_store sv inp w))) \<and>
    service_ok (tabs (snd (service_delete sv t i w))) \<and> service_ok (tabs (snd (service_get t i w))) \<and>
    service_ok (tabs (snd (service_list sv t n w))) \<and> service_ok (tabs (snd (ingest_batch_async sv inputs n w)))"
proof -
  note sb = sfi.keeps_ok_store_batch [unfolded svi_ok, OF assms(2,1)]
  have rd: "keeps P (service_get t i)" "keeps P (service_list sv t n)" for P
    unfolding service_get_def service_list_def repo_get_by_ids_def repo_search_def repo_search_with_filters_def Let_def
    by (intro act_keeps)+
  show ?thesis
    using sb keeps_service_store [OF sb] svi.keeps_ok_service_delete [unfolded svi_ok, OF assms(1)] rd
      svi.keeps_ok_ingest [unfolded svi_ok] assms(3) by (blast intro: keepsD)
qed

text \<open>A prepared memory, compared with the admitted input it comes from.\<close>

lemma resolve_tier_other: "resolve_tier inp \<noteq> TierOther []"
  by (auto simp: resolve_tier_def split: memory_tier.split)

lemma resolve_kind_other: "resolve_kind k \<noteq> KindOther []"
  by (simp add: resolve_kind_def)

lemma implicit_identity_frame [simp]:
  "m_tenant (apply_implicit_memory_identity m) = m_tenant m" "m_content (apply_implicit_memory_identity m) = m_content m"
  "m_tier (apply_implicit_memory_identity m) = m_tier m" "m_kind (apply_implicit_memory_identity m) = m_kind m"
  "m_importance (apply_implicit_memory_identity m) = m_importance m" "m_tags (apply_implicit_memory_identity m) = m_tags m"
  by (simp_all add: apply_implicit_memory_identity_def apply_identity_to_memory_def)

definition carries :: "store_input \<Rightarrow> memory \<Rightarrow> bool" where
  "carries inp m \<longleftrightarrow> m_tenant m = trim_space (si_tenant inp) \<and> m_content m = si_content inp \<and>
     m_tier m = resolve_tier (inp\<lparr>si_tenant := trim_space (si_tenant inp)\<rparr>) \<and> m_kind m = resolve_kind (si_kind inp) \<and>
     m_tags m = si_tags inp"

lemma prepared_carries:
  assumes "admitted db i inp p" "prepared now (apply_implicit_memory_identity (memory_of_input p score)) m"
  shows "carries inp m \<and> m_importance m = score"
  using assms resolve_tier_other resolve_kind_other
  by (simp add: admitted_def prepared_def carries_def memory_of_input_def)

lemma prepare_store_run:
  assumes "prepare_store_inputs sv ins w = (Inr items, w')"
  shows "tabs w' = tabs w \<and> length items = length ins \<and> (\<forall>k < length ins. admitted (tabs w) k (ins ! k) (items ! k)) \<and>
    map pi_idx items = [0..<length items]"
proof -
  have "prepare_inputs_from [] 0 ins w = (Inr items, w')"
    using assms by (auto simp: prepare_store_inputs_def act_success split: if_splits)
  from prepare_inputs_run [OF this] have
    P: "tabs w' = tabs w" "length items = length ins" "\<forall>k < length ins. admitted (tabs w) k (ins ! k) (items ! k)" by auto
  have "map pi_idx items = [0..<length items]"
    by (rule nth_equalityI) (use P(2,3) in \<open>auto simp: admitted_def\<close>)
  with P show ?thesis by blast
qed

lemma store_batch_plain_run:
  assumes v: "ms_vector sv = Some vs" and off: "\<not> (po_enabled (ms_parser sv) \<and> ms_info_parser sv \<noteq> None)"
    and run: "store_batch sv inputs w = (Inr stored, w')" and ne: "inputs \<noteq> []"
  shows "\<exists>pt items st w1. prepare_store_inputs sv inputs w = (Inr items, w1) \<and> pt_vector pt = vs \<and>
    store_batch_without_parser sv pt items w1 = (Inr st, w') \<and>
    stored = put_results items st (replicate (length items) zero_memory) \<and> items \<noteq> []"
proof -
  have none: "filter (parser_item sv) ps = []" "filter (\<lambda>p. \<not> parser_item sv p) ps = ps" for ps
    using off by (auto simp: parser_item_def filter_empty_conv filter_id_conv)
  obtain items w1 where p: "prepare_store_inputs sv inputs w = (Inr items, w1)"
    using run ne by (auto simp: store_batch_def elim!: bind_actE)
  then obtain sc em where se: "ms_scorer sv = Some sc" "ms_embedder sv = Some em"
    by (auto simp: prepare_store_inputs_def act_success split: if_splits)
  let ?pt = "\<lparr>pt_scorer = sc, pt_embedder = em, pt_vector = vs\<rparr>"
  have items: "items \<noteq> []" using prepare_store_run [OF p] ne by auto
  have "bind_act (store_batch_without_parser sv ?pt items)
      (\<lambda>stored. return_act (put_results items stored (replicate (length items) zero_memory))) w1 = (Inr stored, w')"
    using run ne items
    unfolding store_batch_def Let_def none v se bind_act_def [of "prepare_store_inputs sv inputs"]
    by (cases "ms_info_parser sv") (simp_all add: p bind_act_def return_act_def)
  with p items show ?thesis by (intro exI [of _ ?pt]) (auto simp: act_success)
qed

lemma stored_nth:
  assumes "stored_as items scores now st" "k < length items" "admitted db k inp (items ! k)"
  shows "carries inp (st ! k) \<and> 0 \<le> m_importance (st ! k) \<and> m_importance (st ! k) \<le> 1"
proof -
  from assms have "prepared now (apply_implicit_memory_identity (memory_of_input (items ! k) (scores ! k))) (st ! k)"
    by (auto simp: stored_as_def list_all2_conv_all_nth)
  moreover have "scores ! k \<in> {0..1}"
    using assms(1,2) nth_mem [of k scores] unfolding stored_as_def by (metis subsetD)
  ultimately show ?thesis using prepared_carries [OF assms(3)] by auto
qed

lemma fold_embed_put_mem:
  assumes "\<forall>u \<in> set us. vu_embedding u \<noteq> []" "u \<in> set us"
  shows "\<exists>e. fold embed_put us V (vu_tenant u, vu_memory u) = Some e \<and> e \<noteq> []"
  using assms
proof (induction us arbitrary: V rule: rev_induct)
  case (snoc x us)
  then show ?case by (auto simp: embed_put_def)
qed simp

text \<open>C5 With neither the parser nor the structured dual write in use, a batch that is stored ends up in
  the repository and in the vector index (with either of them on, further memories derived from the
  contents are appended, which this property does not describe): the result has one memory per input, in order, with the trimmed tenant, the content and tags, the resolved
  tier and kind and an importance between 0 and 1; these memories are appended to the table, all others
  stay; each of them has a vector, and the vector index is otherwise unchanged; the invariant holds on.\<close>

theorem store_batch_indexed:
  assumes "ms_vector sv = Some sqlite_vector_store" and "\<not> (po_enabled (ms_parser sv) \<and> ms_info_parser sv \<noteq> None)"
    and "\<not> so_enabled (ms_structured sv)" and "service_ok (tabs w)"
    and "store_batch sv inputs w = (Inr stored, w')"
  shows "length stored = length inputs \<and> db_memories (tabs w') = db_memories (tabs w) @ stored \<and> service_ok (tabs w') \<and>
    (\<forall>k < length inputs. carries (inputs ! k) (stored ! k) \<and> 0 \<le> m_importance (stored ! k) \<and> m_importance (stored ! k) \<le> 1 \<and>
       (\<exists>e. embedding_map (tabs w') (m_tenant (stored ! k), m_id (stored ! k)) = Some e \<and> e \<noteq> [])) \<and>
    (\<forall>tn i. i \<notin> m_id ` set stored \<longrightarrow> embedding_map (tabs w') (tn, i) = embedding_map (tabs w) (tn, i))"
proof (cases "inputs = []")
  case True
  with assms show ?thesis by (simp add: store_batch_def act_success)
next
  case False
  from store_batch_plain_run [OF assms(1,2,5) False] obtain pt items st w1
    where p: "prepare_store_inputs sv inputs w = (Inr items, w1)" and pt: "pt_vector pt = sqlite_vector_store"
      and run: "store_batch_without_parser sv pt items w1 = (Inr st, w')"
      and res: "stored = put_results items st (replicate (length items) zero_memory)" and ne: "items \<noteq> []" by blast
  note P = prepare_store_run [OF p]
  have "svi.ok (tabs w1)" using P assms(4) by (simp add: svi_ok)
  from svi.plain_stored [OF assms(3) ne this pt run] obtain scores embs now
    where sa: "stored_as items scores now st" and emb: "length embs = length items" "[] \<notin> set embs"
      and K: "svi.K (db_memories (tabs w1) @ st) (fold embed_put (vector_upserts st embs) (embedding_map (tabs w1))) (tabs w')"
    by blast
  have len: "length st = length items" using sa by (auto simp: stored_as_def dest: list_all2_lengthD)
  have st: "stored = st" using put_results_from [of items 0 st] P len by (simp add: res)
  have ups: "vu_embedding u \<noteq> [] \<and> vu_memory u \<in> m_id ` set st" if "u \<in> set (vector_upserts st embs)" for u
    using that emb(2) by (auto simp: vector_upserts_def dest: set_zip_leftD set_zip_rightD)
  have "\<exists>e. embedding_map (tabs w') (m_tenant (st ! k), m_id (st ! k)) = Some e \<and> e \<noteq> []" if "k < length inputs" for k
  proof -
    let ?u = "\<lparr>vu_tenant = m_tenant (st ! k), vu_memory = m_id (st ! k), vu_embedding = embs ! k\<rparr>"
    have "(st ! k, embs ! k) \<in> set (zip st embs)" using that P len emb(1) by (auto simp: in_set_zip)
    then have "?u \<in> set (vector_upserts st embs)" by (force simp: vector_upserts_def)
    from fold_embed_put_mem [OF _ this] ups K show ?thesis by (auto simp: svi.K_def)
  qed
  moreover have "carries (inputs ! k) (st ! k) \<and> 0 \<le> m_importance (st ! k) \<and> m_importance (st ! k) \<le> 1"
    if "k < length inputs" for k using stored_nth [OF sa, of k "tabs w" "inputs ! k"] that P by simp
  moreover have "embedding_map (tabs w') (tn, i) = embedding_map (tabs w) (tn, i)" if "i \<notin> m_id ` set st" for tn i
  proof -
    have "fold embed_put us V (tn, i) = V (tn, i)" if "\<forall>u \<in> set us. vu_memory u \<noteq> i" for us V
      using that by (induction us arbitrary: V) (auto simp: embed_put_def)
    moreover have "\<forall>u \<in> set (vector_upserts st embs). vu_memory u \<noteq> i" using ups that by blast
    ultimately have "fold embed_put (vector_upserts st embs) V (tn, i) = V (tn, i)" for V by blast
    then show ?thesis using K P by (simp add: svi.K_def)
  qed
  ultimately show ?thesis using st len P K by (auto simp: svi.K_def svi_ok)
qed

text \<open>Deleting through the service removes a memory from the repository and from the vector index: on
  success the memory was there, exactly it is gone from the table and it has no vector; vectors of other
  memories stay. On an error (an unknown tenant or memory, a failing statement) the table still holds
  either all memories or all but this one, and in either case the invariant holds.\<close>

theorem service_delete_functional:
  assumes "ms_vector sv = Some sqlite_vector_store" and "service_ok (tabs w)"
    and "service_delete sv t i w = (r, w')"
  shows "service_ok (tabs w') \<and> (case r of
      Inr _ \<Rightarrow> (\<exists>m \<in> set (db_memories (tabs w)). m_tenant m = t \<and> m_id m = i) \<and>
        db_memories (tabs w') = without t i (db_memories (tabs w)) \<and> embedding_map (tabs w') (t, i) = None \<and>
        (\<forall>tn m. m \<noteq> i \<longrightarrow> embedding_map (tabs w') (tn, m) = embedding_map (tabs w) (tn, m))
    | Inl _ \<Rightarrow> db_memories (tabs w') \<in> {db_memories (tabs w), without t i (db_memories (tabs w))})"
proof (cases r)
  case (Inl e)
  have "svi.J t i (db_memories (tabs w)) (tabs w)" using assms(2) by (simp add: svi.J_def svi_ok)
  from keeps_run [OF svi.keeps_J_service_delete [OF assms(1)] assms(3) this] Inl
  show ?thesis by (simp add: svi.J_def svi_ok)
next
  case (Inr u)
  have "svi.ok (tabs w)" using assms(2) by (simp add: svi_ok)
  from svi.service_deleted [OF assms(1) assms(3) [unfolded Inr] this] Inr show ?thesis
    by (auto simp: svi.K_def svi_ok)
qed

text \<open>Reading is confined to the tenant: \<open>Get\<close> succeeds only for an existing tenant and returns the
  memory of this tenant with the trimmed identifier, or nothing exactly when there is none, wherever
  else the identifier occurs; it changes nothing.\<close>

theorem service_get_isolated:
  assumes "service_get t i w = (Inr r, w')"
  shows "tabs w' = tabs w \<and> t \<in> t_id ` set (db_tenants (tabs w)) \<and> (case r of
      Some m \<Rightarrow> m \<in> set (db_memories (tabs w)) \<and> m_tenant m = t \<and> m_id m = trim_space i
    | None \<Rightarrow> {m \<in> set (db_memories (tabs w)). m_tenant m = t \<and> m_id m = trim_space i} = {})"
proof -
  from assms have ne: "trim_space i \<noteq> []" "trim_space t \<noteq> []"
    by (auto simp: service_get_def fail_act_success split: if_splits)
  with assms obtain u w1 items where e: "ensure_tenant_exists t w = (Inr u, w1)"
    and g: "repo_get_by_ids t [i] w1 = (Inr items, w')" and r: "r = (case items of [] \<Rightarrow> None | m # _ \<Rightarrow> Some m)"
    by (auto simp: service_get_def return_act_success elim!: bind_actE)
  have u: "uniq_trimmed [i] = [trim_space i]" using ne by (simp add: uniq_trimmed_def)
  from g ne have items: "set items = {m \<in> set (db_memories (tabs w1)). m_tenant m = t \<and> m_id m = trim_space i}"
    "tabs w' = tabs w1"
    by (auto simp: repo_get_by_ids_def u act_success)
  with ensure_tenant_run [OF e] show ?thesis
    by (cases items) (auto simp: r)
qed

text \<open>The keys (tenant, memory, type) of the jobs an asynchronous ingest asks for.\<close>

definition wanted_jobs :: "service \<Rightarrow> memory list \<Rightarrow> (string \<times> string \<times> job_type) set" where
  "wanted_jobs sv ps = {(m_tenant p, m_id p, VectorUpsert) | p. p \<in> set ps} \<union>
     {(m_tenant p, m_id p, ParserExtract) | p. p \<in> set ps \<and> m_kind p = KindRawTurn \<and>
        po_enabled (ms_parser sv) \<and> ms_info_parser sv \<noteq> None}"

text \<open>C7 Asynchronous ingest through the service: on success every input has become a memory of its
  (existing, trimmed) tenant, in order, with the resolved tier and kind, and the receipt names these
  memories. The jobs asked for are a vector job for each of them and a parser job for exactly those that
  are raw turns, and this only when the parser is on and has an extractor: each of these is queued, due at
  once with no attempt counted, and every other row of the queue is as it was. On an error nothing has
  changed.\<close>

theorem service_ingest_functional:
  assumes "db_ok (tabs w)" and "ingest_batch_async sv inputs n w = (r, w')"
  shows "case r of
      Inl _ \<Rightarrow> tabs w' = tabs w
    | Inr receipt \<Rightarrow> \<exists>ps. length ps = length inputs \<and> db_memories (tabs w') = db_memories (tabs w) @ ps \<and>
        ir_memory_ids receipt = map m_id ps \<and>
        (\<forall>k < length inputs. carries (inputs ! k) (ps ! k) \<and> m_tenant (ps ! k) \<in> t_id ` set (db_tenants (tabs w))) \<and>
        (\<forall>key \<in> wanted_jobs sv ps. queued_at (ir_accepted_at receipt) key (db_jobs (tabs w'))) \<and>
        rows_off (wanted_jobs sv ps) (db_jobs (tabs w')) = rows_off (wanted_jobs sv ps) (db_jobs (tabs w))"
proof (cases r)
  case (Inl e)
  have "reads (prepare_inputs_from c i ins)" for c i ins
  proof (induction ins arbitrary: c i)
    case (Cons inp ins)
    show ?case unfolding prepare_inputs_from.simps Let_def ensure_tenant_exists_def by (intro act_atomic Cons.IH)
  qed (simp add: act_atomic)
  then have "atomic (ingest_batch_async sv inputs n)"
    unfolding ingest_batch_async_def prepare_store_inputs_def
    by (intro atomic_if atomic_bind repo_atomic reads_if reads_basic atomic_reads [OF reads_basic(2)])
  from atomicD [OF this assms(2) [unfolded Inl]] Inl show ?thesis by simp
next
  case (Inr receipt)
  with assms(2) obtain items w1 where p: "prepare_store_inputs sv inputs w = (Inr items, w1)"
    and g: "store_batch_async_ingest (map (ingest_item_of sv) items) n w1 = (Inr receipt, w')"
    by (auto simp: ingest_batch_async_def fail_act_success elim!: bind_actE split: if_splits)
  note P = prepare_store_run [OF p]
  from yieldsD [OF yields_ingest g, of "tabs w"] P assms(1) obtain ps
    where ing: "ingested (ir_accepted_at receipt) (map (ingest_item_of sv) items) ps (tabs w) (tabs w')"
      and ids: "ir_memory_ids receipt = map m_id ps" by auto
  have pr: "list_all2 (prepared (ir_accepted_at receipt)) (map ii_memory (map (ingest_item_of sv) items)) ps"
    and mem: "db_memories (tabs w') = db_memories (tabs w) @ ps"
    using ing by (simp_all add: ingested_def memories_added_def)
  have len: "length ps = length inputs" using pr P by (auto dest: list_all2_lengthD)
  let ?items = "map (ingest_item_of sv) items"
  have C: "carries (inputs ! k) (ps ! k) \<and> m_tenant (ps ! k) \<in> t_id ` set (db_tenants (tabs w)) \<and>
      item_keys (?items ! k) (ps ! k) = wanted_jobs sv [ps ! k]"
    if k: "k < length inputs" for k
  proof -
    have adm: "admitted (tabs w) k (inputs ! k) (items ! k)" using P k by blast
    have "prepared (ir_accepted_at receipt) (apply_implicit_memory_identity (memory_of_input (items ! k) 0)) (ps ! k)"
      using pr k P by (auto simp: list_all2_conv_all_nth ingest_item_of_def)
    from prepared_carries [OF adm this] adm P k show ?thesis
      by (auto simp: carries_def admitted_def item_keys_def wanted_jobs_def ingest_item_of_def parser_item_def)
  qed
  have "ingest_keys ?items ps = (\<Union>k \<in> {..<length ps}. item_keys (?items ! k) (ps ! k))"
    using P len by (force simp: ingest_keys_def set_zip)
  also have "\<dots> = (\<Union>k \<in> {..<length ps}. wanted_jobs sv [ps ! k])" using C len by simp
  also have "\<dots> = wanted_jobs sv ps" by (force simp: wanted_jobs_def in_set_conv_nth)
  finally have K: "ingest_keys ?items ps = wanted_jobs sv ps" .
  have "queued_at (ir_accepted_at receipt) key (db_jobs (tabs w'))" if "key \<in> wanted_jobs sv ps" for key
    using ing that [folded K] by (force simp: ingest_keys_def ingested_def item_queued_def item_keys_def split: if_splits)
  moreover have "rows_off (wanted_jobs sv ps) (db_jobs (tabs w')) = rows_off (wanted_jobs sv ps) (db_jobs (tabs w))"
    using ing unfolding K [symmetric] by (simp add: ingested_def)
  ultimately show ?thesis using Inr len mem ids C by (auto intro!: exI [of _ ps])
qed

section \<open>Witnesses\<close>

definition sample_service :: service where
  "sample_service = \<lparr>ms_engine = \<lparr>fe_match = (\<lambda>_ _. True), fe_bm25 = (\<lambda>_ _ _. 0)\<rparr>,
     ms_vector = Some sqlite_vector_store,
     ms_embedder = Some \<lparr>em_embed = (\<lambda>_ _. Inr [1]), em_batch = None\<rparr>,
     ms_scorer = Some \<lparr>sc_score = (\<lambda>_ _. Inr 2), sc_batch = None\<rparr>,
     ms_parser = default_parser_options, ms_structured = default_structured_options,
     ms_multi_hop = default_multi_hop_options, ms_entity = Some sqlite_fact_store, ms_info_parser = None,
     ms_texts = sample_texts, ms_error_text = (\<lambda>_. [])\<rparr>"

definition sample_input :: store_input where
  "sample_input = \<lparr>si_tenant = '' t1'', si_content = ''x'', si_tier = TierWorking, si_kind = KindEvent, si_tags = [],
     si_source = [], si_created_by = ByUser, si_answer_metadata = empty_metadata\<rparr>"

lemma sample_service_ok: "service_ok (tabs (calm_world sample_store))"
  using sample_store_ok by (simp add: service_ok_def) (simp add: embeddings_ok_def calm_world_def sample_store_def empty_database_def)

lemmas run_eval = bind_act_def try_act_def ignore_act_def return_act_def fail_act_def query_def exec_def now_act_def
  new_id_def random_act_def in_tx_def in_tx_if_def tick_def calm_world_def remote_def

lemma sample_admit: "prepare_store_inputs sample_service [sample_input] (calm_world sample_store) =
   (Inr [\<lparr>pi_idx = 0, pi_input = sample_input\<lparr>si_tenant := ''t1''\<rparr>, pi_tier = TierWorking, pi_kind = KindEvent\<rparr>],
    tick (calm_world sample_store))"
  by (simp add: prepare_store_inputs_def sample_service_def sample_input_def lower_eval ensure_tenant_exists_def
      tenant_repo_exists_def run_eval sample_store_def empty_database_def resolve_tier_def resolve_kind_def Let_def)

definition sample_prepared :: prepared_input where
  "sample_prepared = \<lparr>pi_idx = 0, pi_input = sample_input\<lparr>si_tenant := ''t1''\<rparr>, pi_tier = TierWorking, pi_kind = KindEvent\<rparr>"

lemma hex_eval: "hex_encode [w] = [hex_digit (unat w div 16), hex_digit (unat w mod 16)]"
  by (simp add: hex_encode_def)

lemma sample_put_run: "\<exists>m w'. store_in_repo [memory_of_input sample_prepared 1]
     (tick (tick (tick (calm_world sample_store)))) = (Inr [m], w') \<and>
     m \<in> set (db_memories (tabs w')) \<and> m_tenant m = ''t1'' \<and> trim_space (m_id m) \<noteq> []"
  by (simp add: store_in_repo_def repo_store_batch_def store_one_def prepare_memory_for_store_def insert_memory_tx_def
      upsert_memory_index_job_tx_def insert_memory_stmt_def insert_fts_stmt_def upsert_index_stmt_def
      memory_of_input_def apply_implicit_memory_identity_def sample_input_def zero_memory_def sample_prepared_def
      run_eval sample_store_def empty_database_def Let_def lower_eval hex_eval sample_memory_def sample_index_row_def)

lemma env_mark: "env_act (mark_state sv t ids op st e)"
  unfolding mark_state_def mark_index_state_def Let_def upsert_memory_index_job_tx_def
  by (intro act_env)

lemma mark_state_returns: "fst (mark_state sv t ids op st e w) = Inr ()"
  by (simp add: mark_state_def ignore_act_def try_act_def return_act_def split: prod.split)

lemma vector_put_run:
  assumes "fault_free w" and "m \<in> set (db_memories (tabs w))" and "trim_space (m_tenant m) \<noteq> []"
    and "trim_space (m_id m) \<noteq> []" and "e \<noteq> []"
  shows "fst (sv_upsert_batch (vector_upserts [m] [e]) w) = Inr ()"
  using assms
  by (simp add: sv_upsert_batch_def vector_upserts_def in_tx_def in_tx_if_def bind_act_def now_act_def
     return_act_def fail_act_def exec_def fault_free_def upsert_embedding_stmt_def)

lemma sample_upsert_run:
  assumes "fault_free w" and "m \<in> set (db_memories (tabs w))" and "m_tenant m = ''t1''" and "trim_space (m_id m) \<noteq> []"
  shows "fst (upsert_stored_embeddings sample_service sqlite_vector_store [m] [[1]] w) = Inr ()"
proof -
  let ?mark = "mark_state sample_service (m_tenant m) [m_id m] OpUpsert IxPending None"
  obtain w1 where w1: "?mark w = (Inr (), w1)"
    using mark_state_returns [of sample_service "m_tenant m" "[m_id m]"] by (metis prod.collapse)
  have "fault_free w1" using env_run [OF env_mark w1] assms(1) by simp
  moreover have "m \<in> set (db_memories (tabs w1))"
    using no_index_simps(2) [OF keeps_run [OF keeps_mark_state_frame w1 refl]] assms(2) by simp
  ultimately have "fst (sv_upsert_batch (vector_upserts [m] [[1]]) w1) = Inr ()"
    using assms(3,4) by (intro vector_put_run) (simp_all add: lower_eval)
  then obtain w2 where "sv_upsert_batch (vector_upserts [m] [[1]]) w1 = (Inr (), w2)" by (metis prod.collapse)
  then show ?thesis
    using w1 mark_state_returns
    by (simp add: upsert_stored_embeddings_def bind_act_def try_act_def sqlite_vector_store_def Let_def)
qed

lemma sample_store_run: "\<exists>m w'. store_batch sample_service [sample_input] (calm_world sample_store) = (Inr [m], w')"
proof -
  let ?w = "tick (tick (tick (calm_world sample_store)))"
  obtain m w1 where put: "store_in_repo [memory_of_input sample_prepared 1] ?w = (Inr [m], w1)"
    and m: "m \<in> set (db_memories (tabs w1))" "m_tenant m = ''t1''" "trim_space (m_id m) \<noteq> []"
    using sample_put_run by blast
  have "env_act (store_in_repo ms)" for ms
    unfolding store_in_repo_def repo_store_batch_def store_one_def prepare_memory_for_store_def insert_memory_tx_def
      upsert_memory_index_job_tx_def by (intro act_env)
  from env_run [OF this put] have "fault_free w1" by (simp add: calm_world_def fault_free_def)
  from sample_upsert_run [OF this m] obtain w2
    where up: "upsert_stored_embeddings sample_service sqlite_vector_store [m] [[1]] w1 = (Inr (), w2)"
    by (metis prod.collapse)
  have score: "score_contents \<lparr>sc_score = \<lambda>_ _. Inr 2, sc_batch = None\<rparr> [''x''] w = (Inr [1], tick w)" for w :: "database world"
    by (simp add: score_contents_def run_eval clamp_score_def)
  have embed: "embed_contents \<lparr>em_embed = \<lambda>_ _. Inr [1], em_batch = None\<rparr> [''x''] w = (Inr [[1]], tick w)" for w :: "database world"
    by (simp add: embed_contents_def embed_one_def run_eval)
  have derive: "write_canonical_structured_derived sample_service pt m w2 = (Inr (), w2)" for pt
    by (simp add: write_canonical_structured_derived_def sample_service_def default_structured_options_def return_act_def)
  have content: "si_content (pi_input sample_prepared) = ''x''" by (simp add: sample_prepared_def sample_input_def)
  have "store_batch_without_parser sample_service \<lparr>pt_scorer = \<lparr>sc_score = (\<lambda>_ _. Inr 2), sc_batch = None\<rparr>,
      pt_embedder = \<lparr>em_embed = (\<lambda>_ _. Inr [1]), em_batch = None\<rparr>, pt_vector = sqlite_vector_store\<rparr> [sample_prepared] (tick (calm_world sample_store))
      = (Inr [m], w2)"
    using put up derive
    by (simp add: store_batch_without_parser_def Let_def content bind_act_def score embed return_act_def)
  moreover have "\<not> parser_item sample_service sample_prepared" "pi_idx sample_prepared = 0"
    by (simp_all add: parser_item_def sample_service_def default_parser_options_def sample_prepared_def)
  ultimately show ?thesis
    using sample_admit [folded sample_prepared_def]
    by (auto simp add: store_batch_def bind_act_def return_act_def Let_def put_results_def sample_service_def)
qed

lemma service_keeps_invariant_witness:
  "service_ok (tabs (snd (service_delete sample_service ''t1'' ''m1'' (calm_world sample_store))))"
  using service_keeps_invariant [of sample_service "calm_world sample_store"] sample_service_ok
  by (simp add: sample_service_def uses_facts_def)

lemma store_batch_indexed_witness:
  "\<exists>m w'. store_batch sample_service [sample_input] (calm_world sample_store) = (Inr [m], w') \<and>
     carries sample_input m \<and> embedding_map (tabs w') (m_tenant m, m_id m) \<noteq> None"
proof -
  obtain m w' where run: "store_batch sample_service [sample_input] (calm_world sample_store) = (Inr [m], w')"
    using sample_store_run by blast
  from store_batch_indexed [OF _ _ _ sample_service_ok run]
  show ?thesis using run
    by (auto simp: sample_service_def default_parser_options_def default_structured_options_def)
qed

lemma service_delete_functional_witness:
  "case fst (service_delete sample_service ''t1'' ''m1'' (calm_world sample_store)) of
      Inl _ \<Rightarrow> True
    | Inr _ \<Rightarrow> db_memories (tabs (snd (service_delete sample_service ''t1'' ''m1'' (calm_world sample_store)))) =
        without ''t1'' ''m1'' (db_memories (tabs (calm_world sample_store)))"
proof -
  have vector: "ms_vector sample_service = Some sqlite_vector_store" by (simp add: sample_service_def)
  from service_delete_functional [OF vector sample_service_ok prod.collapse [symmetric], of "''t1''" "''m1''"]
  show ?thesis by (auto split: sum.splits)
qed

lemma sample_service_get_run: "service_get ''t1'' ''m1'' (calm_world sample_store) =
    (Inr (Some sample_memory), tick (tick (calm_world sample_store)))"
  by (simp add: service_get_def ensure_tenant_exists_def tenant_repo_exists_def repo_get_by_ids_def uniq_trimmed_def
     lower_eval run_eval sample_store_def sample_memory_def empty_database_def zero_memory_def)

lemma service_get_isolated_witness: "sample_memory \<in> set (db_memories (tabs (calm_world sample_store)))"
  using service_get_isolated [OF sample_service_get_run] by simp

lemma service_ingest_functional_witness:
  "case fst (ingest_batch_async sample_service [sample_input] 0 (calm_world sample_store)) of
      Inl _ \<Rightarrow> tabs (snd (ingest_batch_async sample_service [sample_input] 0 (calm_world sample_store))) = sample_store
    | Inr receipt \<Rightarrow> length (ir_memory_ids receipt) = 1"
  using service_ingest_functional [OF sample_store_ok(1) prod.collapse [symmetric], of sample_service "[sample_input]" 0]
  by (auto simp: calm_world_def split: sum.splits)

end
