(* ===== verification/Worker.thy ===== *)
theory Worker
  imports ServiceLaws JobQueue
begin

text \<open>
  The postprocess workers (\<open>postprocess_worker.go\<close>): claiming jobs, running them (embedding a memory,
  extracting the facts of a turn), marking them done, to be retried, or dead, and the delays between
  retries. A worker is modelled for a service whose embedder and vector store are there. Several
  workers share the tables and interleave at their transactions; what that leaves true of the queue is
  in \<open>JobQueue\<close>.
\<close>

section \<open>Delays\<close>

text \<open>\<open>d / 2\<close> on an \<open>int64\<close>, rounded towards zero.\<close>

definition half :: "int \<Rightarrow> int" where
  "half d = (if d < 0 then - (- d div 2) else d div 2)"

text \<open>The rounds of the loop that are left, the bound, and the delay so far.\<close>

fun delay_loop :: "nat \<Rightarrow> int \<Rightarrow> int \<Rightarrow> int" where
  "delay_loop 0 mx delay = (if delay > mx then mx else delay)"
| "delay_loop (Suc n) mx delay =
     (if delay \<ge> mx then mx else if delay > half mx then mx else delay_loop n mx (wrap64 (delay * 2)))"

definition retry_delay :: "int \<Rightarrow> int \<Rightarrow> int \<Rightarrow> int" where
  "retry_delay attempt base mx = (if attempt \<le> 1 then base else delay_loop (nat (attempt - 1)) mx base)"

section \<open>Jobs\<close>

definition handle_vector_upsert :: "service \<Rightarrow> parts \<Rightarrow> postprocess_job \<Rightarrow> unit db_act" where
  "handle_vector_upsert sv pt job =
     (let t = j_tenant job; i = j_memory job; mark = mark_state sv t [i] OpUpsert in
      bind_act (repo_get_by_ids t [i]) (\<lambda>memories.
      case memories of
        [] \<Rightarrow> return_act ()
      | memory # _ \<Rightarrow>
          try_act (remote (em_embed (pt_embedder pt) (embedding_lookup_text_for_memory memory))) (\<lambda>r. case r of
            Inl e \<Rightarrow> bind_act (mark IxFailed (Some e)) (\<lambda>_. fail_act e)
          | Inr v \<Rightarrow> bind_act (mark IxPending None) (\<lambda>_.
              try_act (vs_upsert (pt_vector pt) t i v) (\<lambda>r. case r of
                Inl e \<Rightarrow> bind_act (mark IxFailed (Some e)) (\<lambda>_. fail_act e)
              | Inr _ \<Rightarrow> mark IxIndexed None)))))"

text \<open>The memory of a parsed fact, without its vector, and whether it was created.\<close>

definition apply_parsed_fact_metadata_only ::
  "service \<Rightarrow> turn \<Rightarrow> nat \<Rightarrow> parsed_fact \<Rightarrow> (memory \<times> bool) option db_act" where
  "apply_parsed_fact_metadata_only sv tn i f =
     (if \<not> should_store_parsed_fact_content (ms_texts sv) (normalize_fact_content (pf_content f)) then return_act None
      else bind_act (find_stored_fact sv (tn_tenant tn) (fi_canonical_key (parsed_fact_identity tn i f)) f) (\<lambda>found.
        case found of Some m \<Rightarrow> return_act (Some (m, False))
        | None \<Rightarrow>
            bind_act (case ms_scorer sv of None \<Rightarrow> return_act 0
                | Some sc \<Rightarrow> remote (sc_score sc (normalize_fact_content (pf_content f)))) (\<lambda>importance.
            bind_act (store_in_repo [(parsed_fact_memory tn i f)\<lparr>m_importance := importance\<rparr>]) (\<lambda>stored.
            case stored of [s] \<Rightarrow> return_act (Some (s, True))
            | _ \<Rightarrow> fail_act (ErrMsg ''parsed fact store returned another number of records'')))))"

text \<open>\<open>seenVectorMemory\<close> holds the memories of the jobs collected so far.\<close>

definition vector_job :: "postprocess_job \<Rightarrow> int \<Rightarrow> memory \<Rightarrow> job_enqueue" where
  "vector_job job max_attempts m = \<lparr>je_ingest = j_ingest job, je_tenant = m_tenant m, je_memory = m_id m,
     je_type = VectorUpsert, je_max_attempts = max_attempts\<rparr>"

definition extract_fact ::
  "service \<Rightarrow> int \<Rightarrow> postprocess_job \<Rightarrow> turn \<Rightarrow> nat \<times> parsed_fact \<Rightarrow> entity_fact list \<times> job_enqueue list \<Rightarrow>
   (entity_fact list \<times> job_enqueue list) db_act" where
  "extract_fact sv max_attempts job tn p st =
     bind_act (apply_parsed_fact_metadata_only sv tn (fst p) (snd p)) (\<lambda>r.
     case r of None \<Rightarrow> return_act st
     | Some (m, created) \<Rightarrow> return_act
         (case build_entity_fact_record (ms_texts sv) m (snd p) of None \<Rightarrow> fst st | Some ef \<Rightarrow> fst st @ [ef],
          if created \<and> m_id m \<notin> je_memory ` set (snd st) then snd st @ [vector_job job max_attempts m] else snd st))"

definition handle_parser_extract :: "service \<Rightarrow> worker_options \<Rightarrow> postprocess_job \<Rightarrow> unit db_act" where
  "handle_parser_extract sv opts job =
     (case ms_info_parser sv of None \<Rightarrow> return_act () | Some parse \<Rightarrow>
      if \<not> po_enabled (ms_parser sv) then return_act ()
      else bind_act (repo_get_by_ids (j_tenant job) [j_memory job]) (\<lambda>memories.
        case memories of
          [] \<Rightarrow> return_act ()
        | raw # _ \<Rightarrow>
            if m_kind raw \<noteq> KindRawTurn then return_act ()
            else bind_act (parse_facts_with_fallback sv parse (m_content raw)) (\<lambda>parsed.
              let tn = \<lparr>tn_tenant = m_tenant raw, tn_content = m_content raw, tn_tags = m_tags raw, tn_source = m_source raw,
                    tn_extractor = pr_extractor parsed, tn_version = pr_version parsed\<rparr> in
              bind_act (fold_act (extract_fact sv (wo_max_attempts opts) job tn) (enumerate 0 (pr_facts parsed)) ([], []))
                (\<lambda>(facts, jobs).
              bind_act (store_entity_facts sv facts) (\<lambda>_.
              if jobs = [] then return_act ()
              else bind_act (enqueue_postprocess_jobs jobs (wo_max_attempts opts)) (\<lambda>_. return_act ()))))))"

definition execute_postprocess_job :: "service \<Rightarrow> parts \<Rightarrow> worker_options \<Rightarrow> postprocess_job \<Rightarrow> unit db_act" where
  "execute_postprocess_job sv pt opts job =
     (if j_type job = VectorUpsert then handle_vector_upsert sv pt job
      else if j_type job = ParserExtract then handle_parser_extract sv opts job
      else fail_act (ErrMsg ''unsupported postprocess job type''))"

text \<open>The state of a job after a failed run at time \<open>now\<close>, and when it is due again.\<close>

definition failure_of :: "worker_options \<Rightarrow> postprocess_job \<Rightarrow> gotime \<Rightarrow> job_status \<times> gotime" where
  "failure_of opts job now =
     (let attempts = j_attempts job + 1;
          max_attempts = (if j_max_attempts job \<le> 0 then wo_max_attempts opts else j_max_attempts job) in
      if attempts \<ge> max_attempts then (DeadLetter, now)
      else (Failed, now + retry_delay attempts (wo_retry_base opts) (wo_retry_max opts)))"

definition process_postprocess_job :: "service \<Rightarrow> parts \<Rightarrow> worker_options \<Rightarrow> postprocess_job \<Rightarrow> unit db_act" where
  "process_postprocess_job sv pt opts job =
     try_act (execute_postprocess_job sv pt opts job) (\<lambda>r.
     bind_act now_act (\<lambda>now.
     case r of
       Inr _ \<Rightarrow> ignore_act (mark_postprocess_job_succeeded (j_id job) now)
     | Inl e \<Rightarrow> (case failure_of opts job now of (status, next_available) \<Rightarrow>
         ignore_act (mark_postprocess_job_failed (j_id job) now next_available (j_attempts job + 1) status
           (trim_space (ms_error_text sv e))))))"

section \<open>The loop\<close>

text \<open>\<open>ctx.Err()\<close>: the context may be cancelled at any effect.\<close>

definition cancelled :: "(nat \<Rightarrow> bool) \<Rightarrow> bool db_act" where
  "cancelled stopped w = (Inr (stopped (steps w)), w)"

fun process_claimed ::
  "(nat \<Rightarrow> bool) \<Rightarrow> service \<Rightarrow> parts \<Rightarrow> worker_options \<Rightarrow> postprocess_job list \<Rightarrow> unit db_act" where
  "process_claimed stopped sv pt opts [] = return_act ()"
| "process_claimed stopped sv pt opts (job # jobs) = bind_act (cancelled stopped) (\<lambda>c.
     if c then return_act ()
     else bind_act (process_postprocess_job sv pt opts job) (\<lambda>_. process_claimed stopped sv pt opts jobs))"

text \<open>One turn of the loop; with nothing claimed the worker sleeps, which has no effect on the tables.\<close>

definition worker_turn :: "(nat \<Rightarrow> bool) \<Rightarrow> service \<Rightarrow> parts \<Rightarrow> string \<Rightarrow> worker_options \<Rightarrow> unit db_act" where
  "worker_turn stopped sv pt owner opts =
     bind_act now_act (\<lambda>now.
     try_act (claim_postprocess_jobs \<lparr>co_owner = owner, co_limit = wo_batch_size opts, co_now = now,
         co_lease_until = now + wo_lease opts\<rparr>) (\<lambda>r.
     case r of Inl _ \<Rightarrow> return_act () | Inr jobs \<Rightarrow> process_claimed stopped sv pt opts jobs))"

text \<open>The first \<open>n\<close> turns of a worker that runs until it is cancelled.\<close>

fun run_postprocess_worker_loop ::
  "nat \<Rightarrow> (nat \<Rightarrow> bool) \<Rightarrow> service \<Rightarrow> parts \<Rightarrow> string \<Rightarrow> worker_options \<Rightarrow> unit db_act" where
  "run_postprocess_worker_loop 0 stopped sv pt owner opts = return_act ()"
| "run_postprocess_worker_loop (Suc n) stopped sv pt owner opts = bind_act (cancelled stopped) (\<lambda>c.
     if c then return_act ()
     else bind_act (worker_turn stopped sv pt owner opts) (\<lambda>_.
          run_postprocess_worker_loop n stopped sv pt owner opts))"

section \<open>Bounds of the delays\<close>

lemma delay_loop_min:
  "0 < d \<Longrightarrow> d \<le> mx \<Longrightarrow> mx < 2 ^ 63 \<Longrightarrow> delay_loop n mx d = min mx (d * 2 ^ n)"
proof (induction n arbitrary: d)
  case (Suc n)
  show ?case
  proof (cases "d > mx div 2")
    case True
    have "mx \<le> d * 2" using True by linarith
    also have "\<dots> \<le> d * 2 ^ Suc n"
    proof -
      have "(1 :: int) \<le> 2 ^ n" by simp
      from mult_left_mono [OF this, of "d * 2"] show ?thesis using Suc.prems(1) by (simp add: mult.assoc)
    qed
    finally show ?thesis using True Suc.prems by (simp add: half_def)
  next
    case False
    then have d2: "d * 2 \<le> mx" by linarith
    then have "wrap64 (d * 2) = d * 2" using Suc.prems by (intro wrap64_id) (simp add: in_int64_def)
    moreover have "\<not> d \<ge> mx" using d2 Suc.prems(1) by linarith
    ultimately show ?thesis
      using False Suc.IH [of "d * 2"] d2 Suc.prems by (simp add: half_def mult.assoc mult.left_commute)
  qed
qed simp

lemma retry_delay_min:
  assumes "0 < base" "base \<le> mx" "mx < 2 ^ 63"
  shows "retry_delay n base mx = min mx (base * 2 ^ nat (n - 1))"
  using assms delay_loop_min [of base mx "nat (n - 1)"] by (simp add: retry_delay_def)

section \<open>What a worker leaves alone\<close>

lemma keeps_extract_fact:
  assumes "\<And>ms. keeps P (store_in_repo ms)" "\<And>t key f. keeps P (find_stored_fact sv t key f)"
  shows "keeps P (extract_fact sv n job tn p st)"
  unfolding extract_fact_def apply_parsed_fact_metadata_only_def Let_def by (intro act_keeps assms)

lemma keeps_get_ids [act_keeps]: "keeps P (repo_get_by_ids t ids)"
  unfolding repo_get_by_ids_def Let_def by (intro act_keeps)

lemma keeps_parser_job:
  assumes "\<And>ms. keeps P (store_in_repo ms)" "\<And>t key f. keeps P (find_stored_fact sv t key f)"
    and "\<And>facts. keeps P (store_entity_facts sv facts)"
    and "\<And>jobs. \<forall>e \<in> set jobs. je_type e = VectorUpsert \<Longrightarrow> keeps P (enqueue_postprocess_jobs jobs (wo_max_attempts opts))"
  shows "keeps P (handle_parser_extract sv opts job)"
proof -
  have jobs: "\<forall>e \<in> set js. je_type e = VectorUpsert"
    if "fold_act (extract_fact sv n job tn) ps st w = (Inr (fs, js), w')" "\<forall>e \<in> set (snd st). je_type e = VectorUpsert"
    for n tn ps st w fs js w'
    using that
  proof (induction ps arbitrary: st w)
    case (Cons p ps)
    from Cons.prems(1) obtain st1 w1 where e: "extract_fact sv n job tn p st w = (Inr st1, w1)"
      and rest: "fold_act (extract_fact sv n job tn) ps st1 w1 = (Inr (fs, js), w')"
      by (auto elim!: bind_actE)
    from e obtain r w2 where "(case r of None \<Rightarrow> return_act st | Some (m, created) \<Rightarrow> return_act
         (case build_entity_fact_record (ms_texts sv) m (snd p) of None \<Rightarrow> fst st | Some ef \<Rightarrow> fst st @ [ef],
          if created \<and> m_id m \<notin> je_memory ` set (snd st) then snd st @ [vector_job job n m] else snd st)) w2 = (Inr st1, w1)"
      unfolding extract_fact_def by (auto elim: bind_actE)
    then have "\<forall>e \<in> set (snd st1). je_type e = VectorUpsert"
      using Cons.prems(2) by (cases r) (auto simp: return_act_success vector_job_def split: if_splits)
    from Cons.IH [OF rest this] show ?case .
  qed (auto simp: act_success)
  show ?thesis
    unfolding handle_parser_extract_def Let_def
    by (intro act_keeps keeps_extract_fact assms) (use jobs in fastforce)
qed

section \<open>The row of a job while it runs\<close>

lemma keeps_enqueue_row:
  assumes "jr_type r \<noteq> VectorUpsert" "\<forall>e \<in> set jobs. je_type e = VectorUpsert"
  shows "keeps (\<lambda>t. r \<in> set (db_jobs t)) (enqueue_postprocess_jobs jobs n)"
proof -
  have ups: "keeps (\<lambda>t. r \<in> set (db_jobs t)) (exec (upsert_job_stmt new))" if "jr_type new = VectorUpsert" for new
    using assms(1) that
    by (intro keeps_exec) (auto simp: upsert_job_stmt_def upsert_job_rows_def set_update_where job_key_def image_iff
        split: sum.splits if_splits)
  show ?thesis
    unfolding enqueue_postprocess_jobs_def enqueue_one_def upsert_postprocess_job_tx_def Let_def
    by (intro act_keeps ups) (use assms(2) in simp_all)
qed

lemma keeps_mark_state_jobs: "keeps (\<lambda>t. r \<in> set (db_jobs t)) (mark_state sv t ids op st e)"
  unfolding keeps_def
proof (intro allI impI)
  fix w :: "database world" assume r: "r \<in> set (db_jobs (tabs w))"
  have "no_index (tabs (snd (mark_state sv t ids op st e w))) = no_index (tabs w)"
    using keepsD [OF keeps_mark_state_frame [of "no_index (tabs w)"]] by blast
  from no_index_simps(6) [OF this] r show "r \<in> set (db_jobs (tabs (snd (mark_state sv t ids op st e w))))" by simp
qed

lemma queue_keeps_embeddings:
  "keeps (\<lambda>t. db_embeddings t = E) (enqueue_postprocess_jobs jobs n)"
  "keeps (\<lambda>t. db_embeddings t = E) (claim_postprocess_jobs copts)"
  "keeps (\<lambda>t. db_embeddings t = E) (mark_postprocess_job_succeeded i now)"
  "keeps (\<lambda>t. db_embeddings t = E) (mark_postprocess_job_failed i now na a st msg)"
proof -
  have up: "keeps (\<lambda>t. db_embeddings t = E) (exec (update_job_stmt i f))" for i f
    by (rule keeps_exec) (auto simp: update_job_stmt_def)
  show "keeps (\<lambda>t. db_embeddings t = E) (enqueue_postprocess_jobs jobs n)"
    "keeps (\<lambda>t. db_embeddings t = E) (claim_postprocess_jobs copts)"
    "keeps (\<lambda>t. db_embeddings t = E) (mark_postprocess_job_succeeded i now)"
    "keeps (\<lambda>t. db_embeddings t = E) (mark_postprocess_job_failed i now na a st msg)"
    unfolding enqueue_postprocess_jobs_def enqueue_one_def claim_postprocess_jobs_def claim_loop_def
      mark_postprocess_job_succeeded_def mark_postprocess_job_failed_def Let_def
    by (intro act_keeps up keeps_list_by_ids)+
qed

lemma keeps_cancelled [act_keeps]: "keeps P (cancelled stopped)"
  by (simp add: keeps_def cancelled_def)

context fact_service
begin

lemma keeps_facts_jobs:
  assumes "uses_facts sv fs"
  shows "keeps (\<lambda>t. db_jobs t = D) (store_entity_facts sv fx)"
  unfolding keeps_def
proof (intro allI impI)
  fix w :: "database world" assume D: "db_jobs (tabs w) = D"
  have "no_facts (tabs (snd (store_entity_facts sv fx w))) = no_facts (tabs w)"
    using keepsD [OF facts.store_entity_facts_frame [OF assms]] by blast
  from no_facts_jobs [OF this] D show "db_jobs (tabs (snd (store_entity_facts sv fx w))) = D" by (rule trans)
qed

lemma keeps_row: "(\<And>D. keeps (\<lambda>t. db_jobs t = D) m) \<Longrightarrow> keeps (\<lambda>t. r \<in> set (db_jobs t)) m"
  by (auto simp: keeps_def)

lemma execute_keeps_row:
  assumes "uses_facts sv fs" "pt_vector pt = vs" "jr_type r = j_type job"
  shows "keeps (\<lambda>t. r \<in> set (db_jobs t)) (execute_postprocess_job sv pt opts job)"
proof -
  have up: "keeps (\<lambda>t. r \<in> set (db_jobs t)) (vs_upsert vs t i v)" for t i v
    unfolding keeps_def
  proof (intro allI impI)
    fix w :: "database world" assume r: "r \<in> set (db_jobs (tabs w))"
    have "no_vectors (tabs (snd (vs_upsert vs t i v w))) = no_vectors (tabs w)" using keepsD [OF upsert_frame] by blast
    from no_vectors_simps(6) [OF this] r show "r \<in> set (db_jobs (tabs (snd (vs_upsert vs t i v w))))" by simp
  qed
  have "keeps (\<lambda>t. r \<in> set (db_jobs t)) (handle_vector_upsert sv pt job)"
    unfolding handle_vector_upsert_def Let_def assms(2) by (intro act_keeps up keeps_mark_state_jobs)
  moreover have "keeps (\<lambda>t. r \<in> set (db_jobs t)) (handle_parser_extract sv opts job)" if "j_type job = ParserExtract"
    using that assms(3)
    by (intro keeps_parser_job keeps_row [OF keeps_store_in_repo_jobs] keeps_row [OF keeps_facts_jobs [OF assms(1)]]
        reads_keeps [OF facts.find_fact_reads [OF assms(1)]] keeps_enqueue_row) simp_all
  ultimately show ?thesis
    unfolding execute_postprocess_job_def by (cases "j_type job = ParserExtract") (simp_all add: keeps_fail)
qed

lemma execute_keeps_ok:
  assumes "uses_facts sv fs" "pt_vector pt = vs"
  shows "keeps ok (execute_postprocess_job sv pt opts job)"
proof -
  have "keeps ok (vs_upsert vs t i v)" for t i v using upsert_keeps by (simp only: ok_eq)
  then have "keeps ok (handle_vector_upsert sv pt job)"
    unfolding handle_vector_upsert_def Let_def assms(2) by (intro act_keeps keeps_ok_mark)
  moreover have "keeps ok (handle_parser_extract sv opts job)"
    by (intro keeps_parser_job steps_keepD [OF steps_keep_ok [OF assms]] keeps_ok_embeddings queue_keeps_embeddings queue_keeps_db_ok)
  ultimately show ?thesis unfolding execute_postprocess_job_def by (intro act_keeps)
qed

lemma process_keeps_ok:
  assumes "uses_facts sv fs" "pt_vector pt = vs"
  shows "keeps ok (process_postprocess_job sv pt opts job)"
  unfolding process_postprocess_job_def Let_def
  by (intro act_keeps execute_keeps_ok [OF assms] keeps_ok_embeddings queue_keeps_embeddings queue_keeps_db_ok)

lemma worker_keeps_ok:
  assumes "uses_facts sv fs" "pt_vector pt = vs"
  shows "keeps ok (run_postprocess_worker_loop n stopped sv pt owner opts)"
proof -
  have jobs: "keeps ok (process_claimed stopped sv pt opts jobs)" for jobs
    by (induction jobs) (auto intro!: act_keeps process_keeps_ok [OF assms])
  have "keeps ok (claim_postprocess_jobs copts)" for copts
    by (intro keeps_ok_embeddings queue_keeps_embeddings queue_keeps_db_ok)
  then have "keeps ok (worker_turn stopped sv pt owner opts)"
    unfolding worker_turn_def by (intro act_keeps jobs)
  then show ?thesis by (induction n) (auto intro!: act_keeps)
qed

end

section \<open>The environment of a run\<close>

lemma env_steps [act_env]: "env_act (remote f)" "env_act (lift_act r)" "env_act (cancelled stopped)"
  by (simp_all add: env_act_def remote_def lift_act_def cancelled_def)

lemma env_cases [act_env]:
  "env_act n \<Longrightarrow> (\<And>x. env_act (s x)) \<Longrightarrow> env_act (case opt of None \<Rightarrow> n | Some x \<Rightarrow> s x)"
  "env_act n \<Longrightarrow> (\<And>y ys. env_act (c y ys)) \<Longrightarrow> env_act (case xs of [] \<Rightarrow> n | y # ys \<Rightarrow> c y ys)"
  "(\<And>e. env_act (l e)) \<Longrightarrow> (\<And>x. env_act (g x)) \<Longrightarrow> env_act (case r of Inl e \<Rightarrow> l e | Inr x \<Rightarrow> g x)"
  "(\<And>x y. env_act (h x y)) \<Longrightarrow> env_act (case p of (x, y) \<Rightarrow> h x y)"
  by (auto split: option.split list.split sum.split prod.split)

lemma env_repo [act_env]:
  "env_act (repo_get_by_ids t ids)" "env_act (store_in_repo ms)" "env_act (sv_upsert t i v)" "env_act (mark_state sv t ids op st e)"
  "env_act (fact_repo_store f)" "env_act (fact_repo_store_batch fs)" "env_act (fact_repo_invalidate t en r a b until)"
  "env_act (fact_repo_list t en r n)" "env_act (enqueue_postprocess_jobs jobs n)"
  unfolding repo_get_by_ids_def store_in_repo_def repo_store_batch_def store_one_def prepare_memory_for_store_def insert_memory_tx_def
    upsert_memory_index_job_tx_def sv_upsert_def mark_state_def mark_index_state_def fact_repo_store_def fact_repo_store_batch_def
    fact_repo_invalidate_def fact_repo_list_def prepare_entity_fact_for_store_def enqueue_postprocess_jobs_def enqueue_one_def
    upsert_postprocess_job_tx_def Let_def
  by (intro act_env)+

lemma env_facts:
  assumes "uses_facts sv sqlite_fact_store"
  shows "env_act (find_stored_fact sv t key f)" "env_act (store_entity_facts sv fx)"
proof -
  have fs: "fs_store sqlite_fact_store = fact_repo_store" "fs_store_batch sqlite_fact_store = Some fact_repo_store_batch"
    "fs_list sqlite_fact_store = fact_repo_list" "fs_invalidate sqlite_fact_store = Some fact_repo_invalidate"
    by (simp_all add: sqlite_fact_store_def)
  consider "ms_entity sv = None" | "ms_entity sv = Some sqlite_fact_store" using assms by (auto simp: uses_facts_def)
  then show "env_act (find_stored_fact sv t key f)" "env_act (store_entity_facts sv fx)"
    unfolding find_stored_fact_def find_memory_by_canonical_key_def find_memory_by_relation_tuple_def
      repo_find_by_canonical_key_def store_entity_facts_def invalidate_superseded_entity_facts_def Let_def
    by (cases; simp only: option.case fs; intro act_env)+
qed

lemma env_execute:
  assumes "uses_facts sv sqlite_fact_store" "pt_vector pt = sqlite_vector_store"
  shows "env_act (execute_postprocess_job sv pt opts job)"
proof -
  have "vs_upsert sqlite_vector_store = sv_upsert" by (simp add: sqlite_vector_store_def)
  then show ?thesis
    unfolding execute_postprocess_job_def handle_vector_upsert_def handle_parser_extract_def extract_fact_def
      apply_parsed_fact_metadata_only_def parse_facts_with_fallback_def Let_def assms(2)
    by (simp only:) (intro act_env env_facts [OF assms(1)])
qed

section \<open>Marking a job\<close>

lemma mark_job:
  assumes "r \<in> set (db_jobs (tabs w))" "word (jr_id r)" "\<not> is_zero now" "\<not> is_zero na" "0 \<le> a" "st = Failed \<or> st = DeadLetter"
  shows "succeed_row (Stamp now) r \<in> set (db_jobs (tabs (snd (mark_postprocess_job_succeeded (jr_id r) now w)))) \<or>
      r \<in> set (db_jobs (tabs (snd (mark_postprocess_job_succeeded (jr_id r) now w)))) \<and> \<not> fault_free w"
    and "fail_row st a (Stamp na) (trim_space msg) (Stamp now) r \<in>
      set (db_jobs (tabs (snd (mark_postprocess_job_failed (jr_id r) now na a st msg w)))) \<or>
      r \<in> set (db_jobs (tabs (snd (mark_postprocess_job_failed (jr_id r) now na a st msg w)))) \<and> \<not> fault_free w"
proof -
  have i: "trim_space (jr_id r) = jr_id r" "jr_id r \<noteq> []" using assms(2) by (auto simp: trim_space_word word_def)
  have n: "count_where (\<lambda>x. jr_id x = jr_id r) (db_jobs (tabs w)) \<noteq> 0" using assms(1) by (auto simp: count_where_zero_iff)
  have up: "f r \<in> set (update_where (\<lambda>x. jr_id x = jr_id r) f (db_jobs (tabs w)))" for f
    using assms(1) by (force simp: set_update_where)
  show "succeed_row (Stamp now) r \<in> set (db_jobs (tabs (snd (mark_postprocess_job_succeeded (jr_id r) now w)))) \<or>
      r \<in> set (db_jobs (tabs (snd (mark_postprocess_job_succeeded (jr_id r) now w)))) \<and> \<not> fault_free w"
    using i n up assms(1,3)
    by (auto simp: mark_postprocess_job_succeeded_def bind_act_def exec_def update_job_stmt_def return_act_def fail_act_def
        fault_free_def)
  show "fail_row st a (Stamp na) (trim_space msg) (Stamp now) r \<in>
      set (db_jobs (tabs (snd (mark_postprocess_job_failed (jr_id r) now na a st msg w)))) \<or>
      r \<in> set (db_jobs (tabs (snd (mark_postprocess_job_failed (jr_id r) now na a st msg w)))) \<and> \<not> fault_free w"
    using i n up assms
    by (auto simp: mark_postprocess_job_failed_def bind_act_def exec_def update_job_stmt_def return_act_def fail_act_def
        fault_free_def Let_def)
qed

section \<open>Properties\<close>

text \<open>C40 The delay before a retry: the loop of the code, which doubles a 64-bit duration while comparing it with half
  of the maximum, computes the base times a power of two for the failed attempts so far, cut at the maximum. It
  never overflows, is never below the base and never shrinks from one attempt to the next.\<close>

theorem retry_delay_doubles:
  assumes "0 < base" "base \<le> mx" "in_int64 mx" "1 \<le> n"
  shows "retry_delay n base mx = min mx (base * 2 ^ nat (n - 1)) \<and> base \<le> retry_delay n base mx \<and>
    retry_delay n base mx \<le> retry_delay (n + 1) base mx \<and> in_int64 (retry_delay n base mx)"
proof -
  have mx: "mx < 2 ^ 63" using assms(3) by (simp add: in_int64_def)
  note eq = retry_delay_min [OF assms(1,2) mx, of n]
  let ?p = "base * 2 ^ nat (n - 1)"
  have p: "base * 1 \<le> ?p" using assms(1) by (intro mult_left_mono) simp_all
  have "nat (n + 1 - 1) = Suc (nat (n - 1))" using assms(4) by simp
  then have next_eq: "retry_delay (n + 1) base mx = min mx (2 * ?p)" using retry_delay_min [OF assms(1,2) mx, of "n + 1"] by simp
  have "min mx q \<le> min mx (2 * q) \<and> base \<le> min mx q \<and> in_int64 (min mx q)" if "base \<le> q" for q
    using that assms(1,2) mx by (auto simp: in_int64_def min_def)
  from this [of ?p] p show ?thesis unfolding eq next_eq by simp
qed

text \<open>C33 A job that a worker has run ends up marked by how its execution ended: when it returned without an
  error, as succeeded, with no lease and no error text; when it returned an error, with one more attempt and
  with the text of this error, as dead if its attempts are used up, and as failed and due again after the
  retry delay if not. Only an error of the database can leave it running. Its identity is kept.\<close>

theorem process_job_functional:
  assumes "pt_vector pt = sqlite_vector_store" "uses_facts sv sqlite_fact_store" "service_ok (tabs w)"
    and "r \<in> set (db_jobs (tabs w))" and "\<And>n. 0 < clock w n"
    and "0 < wo_retry_base opts" "wo_retry_base opts \<le> wo_retry_max opts" "in_int64 (wo_retry_max opts)"
  shows "let rows = set (db_jobs (tabs (snd (process_postprocess_job sv pt opts (job_of_row r) w)))) in
    (\<exists>now > 0. case fst (execute_postprocess_job sv pt opts (job_of_row r) w) of
        Inr _ \<Rightarrow> succeed_row (Stamp now) r \<in> rows
      | Inl e \<Rightarrow>
          (if jr_attempts r + 1 \<ge> jr_max_attempts r
           then fail_row DeadLetter (jr_attempts r + 1) (Stamp now) (trim_space (ms_error_text sv e)) (Stamp now) r \<in> rows
           else fail_row Failed (jr_attempts r + 1)
                  (Stamp (now + retry_delay (jr_attempts r + 1) (wo_retry_base opts) (wo_retry_max opts)))
                  (trim_space (ms_error_text sv e)) (Stamp now) r \<in> rows)) \<or>
    (\<not> fault_free w \<and> r \<in> rows)"
proof -
  let ?job = "job_of_row r"
  have ok: "job_row_ok r" using assms(3,4) by (auto simp: service_ok_def db_ok_def job_table_ok_def)
  obtain res w1 where ex: "execute_postprocess_job sv pt opts ?job w = (res, w1)" by fastforce
  have r1: "r \<in> set (db_jobs (tabs w1))"
    using keeps_run [OF sfi.execute_keeps_row [OF assms(2,1)] ex assms(4)] by (simp add: job_of_row_def)
  note env = env_execute [OF assms(2,1)]
  let ?now = "clock w1 (steps w1)"
  have now: "0 < ?now" using env_clock [OF env ex] assms(5) by simp
  have ff: "fault_free (tick w1) = fault_free w" using env_run [OF env ex] by simp
  have "0 < retry_delay (jr_attempts r + 1) (wo_retry_base opts) (wo_retry_max opts)"
    using retry_delay_min [OF assms(6,7)] assms(6-8) by (simp add: in_int64_def)
  then have nz: "\<not> is_zero ?now" "\<not> is_zero (?now + retry_delay (jr_attempts r + 1) (wo_retry_base opts) (wo_retry_max opts))"
    using now by (simp_all add: is_zero_def zero_time_def)
  have a: "0 \<le> jr_attempts r + 1" "0 < jr_max_attempts r" "word (jr_id r)" using ok by (simp_all add: job_row_ok_def)
  have r2: "r \<in> set (db_jobs (tabs (tick w1)))" using r1 by simp
  note mark = mark_job [OF r2 a(3) nz(1)]
  show ?thesis
  proof (cases res)
    case (Inr u)
    have "snd (process_postprocess_job sv pt opts ?job w) = snd (mark_postprocess_job_succeeded (jr_id r) ?now (tick w1))"
      using ex Inr by (simp add: process_postprocess_job_def try_act_def bind_act_def now_act_def ignore_act_def return_act_def
          job_of_row_def split: prod.split)
    then show ?thesis using mark(1) [OF nz(1) a(1)] now ff ex Inr unfolding Let_def by auto
  next
    case (Inl e)
    let ?f = "failure_of opts ?job ?now" and ?msg = "trim_space (ms_error_text sv e)"
    have run: "snd (process_postprocess_job sv pt opts ?job w) =
        snd (mark_postprocess_job_failed (jr_id r) ?now (snd ?f) (jr_attempts r + 1) (fst ?f) ?msg (tick w1))"
      using ex Inl by (simp add: process_postprocess_job_def try_act_def bind_act_def now_act_def ignore_act_def return_act_def
          job_of_row_def split: prod.split)
    have f: "?f = (if jr_attempts r + 1 \<ge> jr_max_attempts r then (DeadLetter, ?now)
        else (Failed, ?now + retry_delay (jr_attempts r + 1) (wo_retry_base opts) (wo_retry_max opts)))"
      using a(2) by (simp add: failure_of_def job_of_row_def Let_def)
    have res: "fst (execute_postprocess_job sv pt opts ?job w) = Inl e" using ex Inl by simp
    have tt: "trim_space ?msg = ?msg" by (simp add: str_norm)
    show ?thesis
      using mark(2) [OF nz(1) a(1), of DeadLetter ?msg] mark(2) [OF nz(2) a(1), of Failed ?msg] now ff
      unfolding Let_def run f res tt by (cases "jr_attempts r + 1 \<ge> jr_max_attempts r") (simp_all, blast+)
  qed
qed

text \<open>C35 A worker never breaks the invariant of the database, however long it runs, whatever jobs it finds,
  whenever it is cancelled, and whatever embedder, scorer and parser answer.\<close>

theorem worker_keeps_invariant:
  assumes "pt_vector pt = sqlite_vector_store" "uses_facts sv sqlite_fact_store" "service_ok (tabs w)"
  shows "service_ok (tabs (snd (run_postprocess_worker_loop n stopped sv pt owner opts w)))"
  using keepsD [OF sfi.worker_keeps_ok [OF assms(2,1), unfolded svi_ok] assms(3)] .

end
