(* ===== verification/WorkerLaws.thy ===== *)
theory WorkerLaws
  imports Worker
begin

text \<open>
  What the jobs of a postprocess worker achieve: a vector job gives the memory the vector that the
  embedder returned; a parser job leaves a memory for every fact it finds worth storing, appending those that
  were not there, and queues a vector job for each memory it created, and for no other.
\<close>

section \<open>Runs of enqueue events\<close>

definition queued :: "string \<times> string \<times> job_type \<Rightarrow> job_row list \<Rightarrow> bool" where
  "queued k rows \<longleftrightarrow> (\<exists>r \<in> set rows. job_key r = k \<and> jr_status r = Queued)"

lemma enqueue_event:
  assumes "queue_step rows (EvEnqueue k) rows'"
  shows "queued k rows' \<and> rows_off {k} rows' = rows_off {k} rows \<and> (\<forall>k'. queued k' rows \<longrightarrow> queued k' rows')"
proof -
  from assms obtain new where new: "job_key new = k" "jr_status new = Queued" "upsert_job_rows new rows = Inr rows'"
    by (auto elim: queue_enqueueE)
  have off: "rows_off {k} rows' = rows_off {k} rows" using rows_off_upsert [OF new(3), of "{k}"] new(1) by simp
  show ?thesis
  proof (cases "\<exists>r \<in> set rows. job_key r = k")
    case True
    with new have rows': "rows' = update_where (\<lambda>r. job_key r = k) (requeue_row new) rows"
      by (auto simp: upsert_job_rows_def split: if_splits)
    have key: "job_key (requeue_row new r) = job_key r" for r by (simp add: requeue_row_def job_key_def)
    obtain r where "r \<in> set rows" "job_key r = k" using True by blast
    then have q: "queued k rows'" unfolding queued_def rows' set_update_where
      by (intro bexI [of _ "requeue_row new r"]) (auto simp: requeue_row_def job_key_def)
    moreover have "queued k' rows'" if "queued k' rows" "k' \<noteq> k" for k'
      using that unfolding queued_def rows' set_update_where by blast
    ultimately show ?thesis using off by blast
  next
    case False
    with new have "rows' = rows @ [new]" by (auto simp: upsert_job_rows_def split: if_splits)
    with new off show ?thesis by (auto simp: queued_def)
  qed
qed

lemma enqueue_events:
  "queue_run rows (map EvEnqueue ks) rows' \<Longrightarrow> (\<forall>k \<in> set ks. queued k rows') \<and>
   rows_off (set ks) rows' = rows_off (set ks) rows \<and> (\<forall>k. queued k rows \<longrightarrow> queued k rows')"
proof (induction ks arbitrary: rows)
  case (Cons k ks)
  then obtain mid where one: "queue_step rows (EvEnqueue k) mid" and rest: "queue_run mid (map EvEnqueue ks) rows'"
    by (auto simp: queue_run_Cons)
  note E = enqueue_event [OF one] and IH = Cons.IH [OF rest]
  have "rows_off (set (k # ks)) rows' = rows_off (set (k # ks)) mid" "rows_off (set (k # ks)) mid = rows_off (set (k # ks)) rows"
    using rows_off_mono [of "set ks" rows' mid "set (k # ks)"] rows_off_mono [of "{k}" mid rows "set (k # ks)"] E IH by auto
  with E IH show ?case unfolding list.set(2) by (auto simp del: split_paired_All)
qed simp

lemma get_by_ids_all:
  assumes "repo_get_by_ids t [i] w = (Inr ms, w')" "db_ok (tabs w)"
  shows "tabs w' = tabs w \<and> set ms = {m \<in> set (db_memories (tabs w)). m_tenant m = t \<and> m_id m = trim_space i}"
proof -
  have "m_id m \<noteq> []" if "m \<in> set (db_memories (tabs w))" for m
    using assms(2) that by (simp add: db_ok_def store_ok_def memory_row_ok_def)
  with assms(1) show ?thesis
    by (auto simp: repo_get_by_ids_def Let_def act_success uniq_trimmed_def split: if_splits)
qed

section \<open>The memories of a parser job\<close>

text \<open>The turn that a raw memory holds, with the extractor that read it.\<close>

definition turn_of :: "memory \<Rightarrow> parse_result \<Rightarrow> turn" where
  "turn_of raw pr = \<lparr>tn_tenant = m_tenant raw, tn_content = m_content raw, tn_tags = m_tags raw, tn_source = m_source raw,
     tn_extractor = pr_extractor pr, tn_version = pr_version pr\<rparr>"

text \<open>A parsed fact with its place in the list, its key and whether it is to be stored; a memory made from one of the
  facts of a turn; and a memory that an entity fact of the repository ties to the same triple.\<close>

definition fact_key :: "turn \<Rightarrow> nat \<times> parsed_fact \<Rightarrow> string" where
  "fact_key tn p = fi_canonical_key (parsed_fact_identity tn (fst p) (snd p))"

definition storable :: "fact_texts \<Rightarrow> nat \<times> parsed_fact \<Rightarrow> bool" where
  "storable tx p \<longleftrightarrow> should_store_parsed_fact_content tx (normalize_fact_content (pf_content (snd p)))"

definition derived_from :: "fact_texts \<Rightarrow> turn \<Rightarrow> parsed_fact list \<Rightarrow> memory \<Rightarrow> bool" where
  "derived_from tx tn facts m \<longleftrightarrow> m_tenant m = tn_tenant tn \<and> m_tier m = TierSemantic \<and> m_id m \<noteq> [] \<and>
     (\<exists>p \<in> set (enumerate 0 facts). storable tx p \<and> m_kind m = parsed_fact_kind (snd p) \<and>
        m_content m = normalize_fact_content (pf_content (snd p)) \<and> m_canonical_key m = fact_key tn p)"

definition told_by :: "fact_row list \<Rightarrow> string \<Rightarrow> parsed_fact \<Rightarrow> memory \<Rightarrow> bool" where
  "told_by rows t f m \<longleftrightarrow> (\<exists>r \<in> set rows. fr_memory r \<noteq> None \<and> trim_space (the (fr_memory r)) = m_id m \<and>
     row_slot r = slot_of t (pf_entity f) (normalize_entity_fact_relation (pf_relation f)) \<and> fr_value r = collapse (pf_value f))"

text \<open>A fact has its memory among \<open>mems\<close>: one with its key, or one that \<open>T\<close> ties to it.\<close>

definition remembered_in :: "(parsed_fact \<Rightarrow> memory \<Rightarrow> bool) \<Rightarrow> turn \<Rightarrow> memory list \<Rightarrow> nat \<times> parsed_fact \<Rightarrow> bool" where
  "remembered_in T tn mems p \<longleftrightarrow>
     (\<exists>m \<in> set mems. m_tenant m = tn_tenant tn \<and> (m_canonical_key m = fact_key tn p \<or> T (snd p) m))"

lemma remembered_in_mono: "remembered_in T tn mems p \<Longrightarrow> set mems \<subseteq> set mems' \<Longrightarrow> remembered_in T tn mems' p"
  by (auto simp: remembered_in_def)

lemma parsed_fact_kind_range: "parsed_fact_kind f \<in> {KindEvent, KindObservation}"
  by (auto simp: parsed_fact_kind_def Let_def)

lemma derived_prepared:
  assumes "prepared now (apply_implicit_memory_identity ((parsed_fact_memory tn i f)\<lparr>m_importance := s\<rparr>)) m"
    "(i, f) \<in> set (enumerate 0 facts)" "storable tx (i, f)"
  shows "derived_from tx tn facts m \<and> m_canonical_key m = fact_key tn (i, f)"
proof -
  let ?m = "(parsed_fact_memory tn i f)\<lparr>m_importance := s\<rparr>"
  have m: "m_tenant ?m = tn_tenant tn" "m_tier ?m = TierSemantic" "m_kind ?m = parsed_fact_kind f"
    "m_content ?m = normalize_fact_content (pf_content f)" "m_canonical_key ?m = fact_key tn (i, f)"
    by (simp_all add: parsed_fact_memory_def apply_identity_to_memory_def fact_key_def)
  have k: "parsed_fact_kind f = KindEvent \<or> parsed_fact_kind f = KindObservation" using parsed_fact_kind_range [of f] by simp
  then have "apply_implicit_memory_identity ?m = ?m" unfolding apply_implicit_memory_identity_def m by auto
  with assms(1) have p: "prepared now ?m m" by simp
  then have "m_tenant m = tn_tenant tn" "m_content m = normalize_fact_content (pf_content f)" "m_tier m = TierSemantic"
    "m_kind m = parsed_fact_kind f" "m_id m \<noteq> []" "m_canonical_key m = fact_key tn (i, f)"
    using k unfolding prepared_def m by (auto simp: memory_row_ok_def)
  with assms(2,3) show ?thesis unfolding derived_from_def by auto
qed

lemma keeps_store_in_repo_facts: "keeps (\<lambda>t. db_facts t = D) (store_in_repo ms)"
proof -
  have "keeps (\<lambda>t. db_facts t = D) (exec (insert_memory_stmt m))" "keeps (\<lambda>t. db_facts t = D) (exec (insert_fts_stmt f))"
    "keeps (\<lambda>t. db_facts t = D) (exec (upsert_index_stmt x))" for m f x
    by (rule keeps_exec, auto simp: insert_memory_stmt_def insert_fts_stmt_def upsert_index_stmt_def Let_def split: if_splits)+
  then show ?thesis
    unfolding store_in_repo_def repo_store_batch_def store_one_def insert_memory_tx_def upsert_memory_index_job_tx_def Let_def
    by (intro act_keeps)
qed

lemma found_in_list: "Some x = List.find P xs \<Longrightarrow> x \<in> set xs \<and> P x"
  by (auto simp: find_Some_iff in_set_conv_nth dest!: sym [of "Some x"])

lemma found_by_key:
  assumes "find_memory_by_canonical_key t key w = (Inr (Some m), w')"
  shows "m \<in> set (db_memories (tabs w)) \<and> m_tenant m = t \<and> m_canonical_key m = key"
  using assms
  by (auto simp: find_memory_by_canonical_key_def repo_find_by_canonical_key_def act_success
      dest: found_in_list split: if_splits)

context fact_service
begin

text \<open>The memories created so far, and the jobs collected for them.\<close>

definition L :: "fact_texts \<Rightarrow> turn \<Rightarrow> parsed_fact list \<Rightarrow> database \<Rightarrow> memory list \<Rightarrow> database \<Rightarrow> bool" where
  "L tx tn facts db0 ms db \<longleftrightarrow> K (db_memories db0 @ ms) (vec db0) db \<and> db_jobs db = db_jobs db0 \<and>
     (\<forall>m \<in> set ms. derived_from tx tn facts m)"

text \<open>What a successful lookup by triple tells of the memory it finds.\<close>

definition lookup_tells :: "service \<Rightarrow> (fact_row list \<Rightarrow> string \<Rightarrow> parsed_fact \<Rightarrow> memory \<Rightarrow> bool) \<Rightarrow> bool" where
  "lookup_tells sv T \<longleftrightarrow> (\<forall>t f w m w'. ok (tabs w) \<longrightarrow> find_memory_by_relation_tuple sv t f w = (Inr (Some m), w') \<longrightarrow>
     m \<in> set (db_memories (tabs w)) \<and> m_tenant m = t \<and> T (db_facts (tabs w)) t f m)"

lemma found_fact:
  assumes "lookup_tells sv T" "ok (tabs w)" "uses_facts sv fs" "find_stored_fact sv t key f w = (Inr (Some m), w')"
  shows "m \<in> set (db_memories (tabs w)) \<and> m_tenant m = t \<and> (m_canonical_key m = key \<or> T (db_facts (tabs w)) t f m)"
proof -
  from assms(4) obtain found w1 where a: "find_memory_by_canonical_key t key w = (Inr found, w1)"
    and b: "(case found of Some m \<Rightarrow> return_act (Some m) | None \<Rightarrow> find_memory_by_relation_tuple sv t f) w1 = (Inr (Some m), w')"
    unfolding find_stored_fact_def by (auto elim: bind_actE)
  have "reads (find_memory_by_canonical_key t key)"
    unfolding find_memory_by_canonical_key_def repo_find_by_canonical_key_def by (intro act_atomic)
  from readsD [OF this a] have t1: "tabs w1 = tabs w" .
  show ?thesis
  proof (cases found)
    case None
    with b assms(1,2) t1 show ?thesis unfolding lookup_tells_def by (metis option.simps(4))
  next
    case (Some x)
    with b a found_by_key show ?thesis by (auto simp: return_act_success)
  qed
qed

lemma metadata_only_run:
  assumes uses: "uses_facts sv fs" and T: "lookup_tells sv T"
    and run: "apply_parsed_fact_metadata_only sv tn i f w = (Inr r, w')"
    and L: "L (ms_texts sv) tn facts db0 ms (tabs w)" and f: "(i, f) \<in> set (enumerate 0 facts)"
  shows "(case r of Some (m, True) \<Rightarrow> L (ms_texts sv) tn facts db0 (ms @ [m]) (tabs w')
      | _ \<Rightarrow> L (ms_texts sv) tn facts db0 ms (tabs w')) \<and> db_facts (tabs w') = db_facts (tabs w) \<and>
    (storable (ms_texts sv) (i, f) \<longrightarrow>
       remembered_in (T (db_facts (tabs w)) (tn_tenant tn)) tn (db_memories (tabs w')) (i, f))"
proof (cases "storable (ms_texts sv) (i, f)")
  case False
  with run L show ?thesis by (simp add: apply_parsed_fact_metadata_only_def storable_def act_success)
next
  case True
  let ?key = "fi_canonical_key (parsed_fact_identity tn i f)"
  from True run obtain found w1 where look: "find_stored_fact sv (tn_tenant tn) ?key f w = (Inr found, w1)"
    and rest: "(case found of Some m \<Rightarrow> return_act (Some (m, False))
        | None \<Rightarrow>
            bind_act (case ms_scorer sv of None \<Rightarrow> return_act 0
                | Some sc \<Rightarrow> remote (sc_score sc (normalize_fact_content (pf_content f)))) (\<lambda>importance.
            bind_act (store_in_repo [(parsed_fact_memory tn i f)\<lparr>m_importance := importance\<rparr>]) (\<lambda>stored.
            case stored of [s] \<Rightarrow> return_act (Some (s, True))
            | _ \<Rightarrow> fail_act (ErrMsg ''parsed fact store returned another number of records'')))) w1 = (Inr r, w')"
    unfolding apply_parsed_fact_metadata_only_def by (auto simp: storable_def elim: bind_actE)
  have t1: "tabs w1 = tabs w" using readsD [OF facts.find_fact_reads [OF uses] look] .
  have ok: "ok (tabs w)" using L by (simp add: L_def K_def)
  show ?thesis
  proof (cases found)
    case (Some m)
    with rest have w': "w' = w1" "r = Some (m, False)" by (auto simp: act_success)
    from found_fact [OF T ok uses look [unfolded Some]] have
      "remembered_in (T (db_facts (tabs w)) (tn_tenant tn)) tn (db_memories (tabs w)) (i, f)"
      unfolding remembered_in_def fact_key_def fst_conv snd_conv by blast
    with L t1 w' show ?thesis by simp
  next
    case None
    with rest obtain s w2 stored w3 where
      sc: "(case ms_scorer sv of None \<Rightarrow> return_act 0
                | Some sc \<Rightarrow> remote (sc_score sc (normalize_fact_content (pf_content f)))) w1 = (Inr s, w2)"
      and st: "store_in_repo [(parsed_fact_memory tn i f)\<lparr>m_importance := s\<rparr>] w2 = (Inr stored, w3)"
      and fin: "(case stored of [s] \<Rightarrow> return_act (Some (s, True))
            | _ \<Rightarrow> fail_act (ErrMsg ''parsed fact store returned another number of records'')) w3 = (Inr r, w')"
      by (auto elim!: bind_actE)
    have t2: "tabs w2 = tabs w" using sc t1 by (auto simp: act_success split: option.splits)
    then have ok2: "ok (tabs w2)" using ok by simp
    from K_store [OF st ok2] obtain now
      where pr: "list_all2 (prepared now) (map apply_implicit_memory_identity [(parsed_fact_memory tn i f)\<lparr>m_importance := s\<rparr>]) stored"
        and K3: "K (db_memories (tabs w2) @ stored) (vec (tabs w2)) (tabs w3)" by blast
    from pr obtain m where m: "stored = [m]" "prepared now (apply_implicit_memory_identity ((parsed_fact_memory tn i f)\<lparr>m_importance := s\<rparr>)) m"
      by (auto simp: list_all2_Cons1)
    note D = derived_prepared [OF m(2) f True]
    have r: "r = Some (m, True)" "w' = w3" using fin m(1) by (simp_all add: act_success)
    have "db_jobs (tabs w3) = db_jobs (tabs w2)" using keeps_run [OF keeps_store_in_repo_jobs st refl] .
    then have "L (ms_texts sv) tn facts db0 (ms @ [m]) (tabs w3)" using K3 L t2 m(1) D by (auto simp: L_def K_def)
    moreover have "db_facts (tabs w3) = db_facts (tabs w)" using keeps_run [OF keeps_store_in_repo_facts st refl] t2 by simp
    moreover have "m \<in> set (db_memories (tabs w3))" using K3 m(1) by (simp add: K_def)
    ultimately show ?thesis using r D by (auto simp: remembered_in_def derived_from_def)
  qed
qed

text \<open>The fold over the facts: one vector job for each memory created, in order, and a memory for each fact.\<close>

definition folded :: "service \<Rightarrow> (fact_row list \<Rightarrow> string \<Rightarrow> parsed_fact \<Rightarrow> memory \<Rightarrow> bool) \<Rightarrow> turn \<Rightarrow> parsed_fact list \<Rightarrow>
    postprocess_job \<Rightarrow> int \<Rightarrow> database \<Rightarrow> (nat \<times> parsed_fact) list \<Rightarrow> entity_fact list \<times> job_enqueue list \<Rightarrow> database \<Rightarrow> bool" where
  "folded sv T tn facts job n db0 done st db \<longleftrightarrow> (\<exists>ms. L (ms_texts sv) tn facts db0 ms db \<and> db_facts db = db_facts db0 \<and>
     snd st = map (vector_job job n) ms \<and> (\<forall>p \<in> set done. storable (ms_texts sv) p \<longrightarrow>
       remembered_in (T (db_facts db0) (tn_tenant tn)) tn (db_memories db0 @ ms) p))"

lemma extract_fact_run:
  assumes uses: "uses_facts sv fs" and T: "lookup_tells sv T" and f: "p \<in> set (enumerate 0 facts)"
  shows "yields (folded sv T tn facts job n db0 done st) (extract_fact sv n job tn p st)
    (folded sv T tn facts job n db0 (done @ [p]))"
proof (rule yieldsI)
  fix w st' w'
  assume "folded sv T tn facts job n db0 done st (tabs w)" and run: "extract_fact sv n job tn p st w = (Inr st', w')"
  then obtain ms where L: "L (ms_texts sv) tn facts db0 ms (tabs w)" and F: "db_facts (tabs w) = db_facts db0"
    and jobs: "snd st = map (vector_job job n) ms"
    and R: "\<forall>p \<in> set done. storable (ms_texts sv) p \<longrightarrow>
       remembered_in (T (db_facts db0) (tn_tenant tn)) tn (db_memories db0 @ ms) p" by (auto simp: folded_def)
  from run obtain r w1 where a: "apply_parsed_fact_metadata_only sv tn (fst p) (snd p) w = (Inr r, w1)"
    and fin: "(case r of None \<Rightarrow> return_act st | Some (m, created) \<Rightarrow> return_act
         (case build_entity_fact_record (ms_texts sv) m (snd p) of None \<Rightarrow> fst st | Some ef \<Rightarrow> fst st @ [ef],
          if created \<and> m_id m \<notin> je_memory ` set (snd st) then snd st @ [vector_job job n m] else snd st)) w1 = (Inr st', w')"
    unfolding extract_fact_def by (auto elim: bind_actE)
  have f': "(fst p, snd p) \<in> set (enumerate 0 facts)" using f by simp
  note M = metadata_only_run [OF uses T a L f']
  have F1: "db_facts (tabs w1) = db_facts db0" using M F by simp
  have new: "storable (ms_texts sv) p \<longrightarrow> remembered_in (T (db_facts db0) (tn_tenant tn)) tn (db_memories (tabs w1)) p"
    using M F by simp
  show "folded sv T tn facts job n db0 (done @ [p]) st' (tabs w')"
  proof (cases "\<exists>m. r = Some (m, True)")
    case True
    then obtain m where r: "r = Some (m, True)" by blast
    with M have L': "L (ms_texts sv) tn facts db0 (ms @ [m]) (tabs w1)" by simp
    then have mems: "distinct (map m_id (db_memories (tabs w1)))" "db_memories (tabs w1) = db_memories db0 @ ms @ [m]"
      unfolding L_def K_def ok_def db_ok_def store_ok_def append_assoc by blast+
    then have "m_id m \<notin> m_id ` set ms" by simp
    then have "m_id m \<notin> je_memory ` set (snd st)" using jobs by (auto simp: vector_job_def)
    with fin r have s: "snd st' = snd st @ [vector_job job n m]" "w' = w1" by (auto simp: return_act_success)
    have "\<forall>q \<in> set (done @ [p]). storable (ms_texts sv) q \<longrightarrow>
        remembered_in (T (db_facts db0) (tn_tenant tn)) tn (db_memories db0 @ ms @ [m]) q"
      using R new remembered_in_mono [of _ tn "db_memories db0 @ ms" _ "db_memories db0 @ ms @ [m]"]
      by (auto simp: mems(2))
    with L' F1 s jobs show ?thesis unfolding folded_def by (intro exI [of _ "ms @ [m]"]) simp
  next
    case False
    then consider "r = None" | m where "r = Some (m, False)" by (cases r) auto
    then have s: "L (ms_texts sv) tn facts db0 ms (tabs w1) \<and> snd st' = snd st \<and> w' = w1"
      using M fin by cases (auto simp: return_act_success)
    then have "db_memories (tabs w1) = db_memories db0 @ ms" by (simp add: L_def K_def)
    with new R have "\<forall>q \<in> set (done @ [p]). storable (ms_texts sv) q \<longrightarrow>
        remembered_in (T (db_facts db0) (tn_tenant tn)) tn (db_memories db0 @ ms) q" by auto
    with s F1 jobs show ?thesis unfolding folded_def by (intro exI [of _ ms]) simp
  qed
qed

lemma extract_facts_run:
  assumes "uses_facts sv fs" and "lookup_tells sv T" and ok: "ok (tabs w)"
    and run: "fold_act (extract_fact sv n job tn) (enumerate 0 facts) ([], []) w = (Inr (efs, jobs), w')"
  shows "folded sv T tn facts job n (tabs w) (enumerate 0 facts) (efs, jobs) (tabs w')"
proof -
  have "folded sv T tn facts job n (tabs w) [] ([], []) (tabs w)" using ok by (auto simp: folded_def L_def K_def)
  from yieldsD [OF yields_fold_history [where I = "folded sv T tn facts job n (tabs w)", OF extract_fact_run [OF assms(1,2)]] run this]
  show ?thesis by simp
qed

lemma entity_facts_leave:
  assumes uses: "uses_facts sv fs" and run: "store_entity_facts sv fx w = (Inr u, w')" and L: "L tx tn facts db0 ms (tabs w)"
  shows "L tx tn facts db0 ms (tabs w')"
proof -
  have n: "no_facts (tabs w') = no_facts (tabs w)" using keeps_run [OF facts.store_entity_facts_frame [OF uses] run] by blast
  have "db_memories (tabs w') = db_memories (tabs w)" "vec (tabs w') = vec (tabs w)"
    using frame [OF no_facts_embeddings [OF n]] L no_facts_memories [OF n] by (auto simp: L_def K_def ok_def)
  moreover have "ok (tabs w')" using keeps_run [OF keeps_ok_facts [OF uses] run] L by (simp add: L_def K_def)
  ultimately show ?thesis using L no_facts_jobs [OF n] by (simp add: L_def K_def)
qed

text \<open>What a parser job that found the facts of a turn has done.\<close>

definition extracted :: "service \<Rightarrow> (fact_row list \<Rightarrow> string \<Rightarrow> parsed_fact \<Rightarrow> memory \<Rightarrow> bool) \<Rightarrow> turn \<Rightarrow> parsed_fact list \<Rightarrow>
    database \<Rightarrow> memory list \<Rightarrow> database \<Rightarrow> bool" where
  "extracted sv T tn facts db0 ms db \<longleftrightarrow> K (db_memories db0 @ ms) (vec db0) db \<and>
     (\<forall>m \<in> set ms. derived_from (ms_texts sv) tn facts m) \<and>
     (\<forall>p \<in> set (enumerate 0 facts). storable (ms_texts sv) p \<longrightarrow>
       remembered_in (T (db_facts db0) (tn_tenant tn)) tn (db_memories db0 @ ms) p) \<and>
     queue_run (db_jobs db0) (map EvEnqueue (map (\<lambda>m. (m_tenant m, m_id m, VectorUpsert)) ms)) (db_jobs db)"

lemma parse_result_run:
  assumes uses: "uses_facts sv fs" and T: "lookup_tells sv T" and ok: "ok (tabs w2)"
    and fo: "fold_act (extract_fact sv (wo_max_attempts opts) job tn) (enumerate 0 facts) ([], []) w2 = (Inr (efs, jobs), w3)"
    and se: "store_entity_facts sv efs w3 = (Inr v, w4)"
    and fin: "(if jobs = [] then return_act ()
              else bind_act (enqueue_postprocess_jobs jobs (wo_max_attempts opts)) (\<lambda>_. return_act ())) w4 = (Inr u, w')"
  shows "\<exists>ms. extracted sv T tn facts (tabs w2) ms (tabs w')"
proof -
  from extract_facts_run [OF uses T ok fo] obtain ms
    where L: "L (ms_texts sv) tn facts (tabs w2) ms (tabs w3)" and jobs: "jobs = map (vector_job job (wo_max_attempts opts)) ms"
      and R: "\<forall>p \<in> set (enumerate 0 facts). storable (ms_texts sv) p \<longrightarrow>
        remembered_in (T (db_facts (tabs w2)) (tn_tenant tn)) tn (db_memories (tabs w2) @ ms) p"
    by (auto simp: folded_def)
  note L4 = entity_facts_leave [OF uses se L]
  have "K (db_memories (tabs w2) @ ms) (vec (tabs w2)) (tabs w') \<and>
    queue_run (db_jobs (tabs w2)) (map EvEnqueue (map (\<lambda>m. (m_tenant m, m_id m, VectorUpsert)) ms)) (db_jobs (tabs w'))"
  proof (cases "jobs = []")
    case True
    with fin jobs L4 show ?thesis by (simp add: act_success L_def)
  next
    case False
    with fin obtain js where e: "enqueue_postprocess_jobs jobs (wo_max_attempts opts) w4 = (Inr js, w')"
      by (auto simp: return_act_success elim!: bind_actE)
    have jok: "jobs_ok (tabs w4)" using L4 unfolding L_def K_def ok_def db_ok_def by blast
    note E = enqueue_run [OF e jok]
    then have T: "tabs w' = (tabs w4)\<lparr>db_jobs := db_jobs (tabs w')\<rparr>" by blast
    have keys: "map (\<lambda>e. EvEnqueue (enqueue_key e)) jobs = map EvEnqueue (map (\<lambda>m. (m_tenant m, m_id m, VectorUpsert)) ms)"
      by (simp add: jobs vector_job_def enqueue_key_def)
    have "ok (tabs w')"
      using keeps_run [OF keeps_ok_embeddings [OF queue_keeps_embeddings(1) queue_keeps_db_ok(1)] e] L4 by (simp add: L_def K_def)
    moreover have "db_memories (tabs w') = db_memories (tabs w4)" "db_embeddings (tabs w') = db_embeddings (tabs w4)"
      using arg_cong [OF T, of db_memories] arg_cong [OF T, of db_embeddings] by simp_all
    moreover have "vec (tabs w') = vec (tabs w4)" using frame [OF calculation(3)] L4 by (simp add: L_def K_def ok_def)
    ultimately show ?thesis using E L4 unfolding keys by (simp add: L_def K_def)
  qed
  with L R show ?thesis unfolding extracted_def by (intro exI [of _ ms]) (simp add: L_def)
qed

lemma parser_job_run:
  assumes uses: "uses_facts sv fs" and T: "lookup_tells sv T" and ok: "ok (tabs w)"
    and run: "handle_parser_extract sv opts job w = (Inr u, w')"
    and on: "ms_info_parser sv = Some parse" "po_enabled (ms_parser sv)"
    and raw: "raw \<in> set (db_memories (tabs w))" "m_tenant raw = j_tenant job" "m_id raw = trim_space (j_memory job)"
      "m_kind raw = KindRawTurn"
  shows "\<exists>w0 pr w1 ms. tabs w0 = tabs w \<and> parse_facts_with_fallback sv parse (m_content raw) w0 = (Inr pr, w1) \<and>
    extracted sv T (turn_of raw pr) (pr_facts pr) (tabs w) ms (tabs w')"
proof -
  from run obtain mems w0 where g: "repo_get_by_ids (j_tenant job) [j_memory job] w = (Inr mems, w0)"
    and rest: "(case mems of [] \<Rightarrow> return_act ()
        | raw # _ \<Rightarrow>
            if m_kind raw \<noteq> KindRawTurn then return_act ()
            else bind_act (parse_facts_with_fallback sv parse (m_content raw)) (\<lambda>parsed.
              bind_act (fold_act (extract_fact sv (wo_max_attempts opts) job (turn_of raw parsed)) (enumerate 0 (pr_facts parsed)) ([], []))
                (\<lambda>(facts, jobs).
              bind_act (store_entity_facts sv facts) (\<lambda>_.
              if jobs = [] then return_act ()
              else bind_act (enqueue_postprocess_jobs jobs (wo_max_attempts opts)) (\<lambda>_. return_act ()))))) w0 = (Inr u, w')"
    unfolding handle_parser_extract_def on(1) option.case Let_def turn_of_def using on(2) by (auto elim: bind_actE)
  have dok: "db_ok (tabs w)" using ok by (simp add: ok_def)
  note G = get_by_ids_all [OF g dok]
  have dist: "distinct (map m_id (db_memories (tabs w)))" using dok by (simp add: db_ok_def store_ok_def)
  have "set mems = {raw}"
    using G raw inj_onD [OF distinct_map [THEN iffD1, OF dist, THEN conjunct2]] by auto
  then obtain more where mems: "mems = raw # more" by (cases mems) auto
  from rest raw(4) obtain pr w1 efs jobs w3 v w4 where p: "parse_facts_with_fallback sv parse (m_content raw) w0 = (Inr pr, w1)"
    and fo: "fold_act (extract_fact sv (wo_max_attempts opts) job (turn_of raw pr)) (enumerate 0 (pr_facts pr)) ([], []) w1 = (Inr (efs, jobs), w3)"
    and se: "store_entity_facts sv efs w3 = (Inr v, w4)"
    and fin: "(if jobs = [] then return_act ()
              else bind_act (enqueue_postprocess_jobs jobs (wo_max_attempts opts)) (\<lambda>_. return_act ())) w4 = (Inr u, w')"
    unfolding mems by (auto elim!: bind_actE split: prod.splits)
  have t1: "tabs w1 = tabs w" using keeps_run [OF keeps_parse p, of "\<lambda>t. t = tabs w"] G by simp
  then have "ok (tabs w1)" using ok by simp
  from parse_result_run [OF uses T this fo se fin] p G t1 show ?thesis by auto
qed

end

context indexed_store
begin

lemma vector_job_run:
  assumes pt: "pt_vector pt = vs" and ok: "ok (tabs w)" and run: "handle_vector_upsert sv pt job w = (Inr u, w')"
  shows "{m \<in> set (db_memories (tabs w)). m_tenant m = j_tenant job \<and> m_id m = trim_space (j_memory job)} = {} \<and> tabs w' = tabs w \<or>
    (\<exists>m n v. m \<in> set (db_memories (tabs w)) \<and> m_tenant m = j_tenant job \<and> m_id m = trim_space (j_memory job) \<and>
       em_embed (pt_embedder pt) (embedding_lookup_text_for_memory m) n = Inr v \<and>
       K (db_memories (tabs w)) ((vec (tabs w))((j_tenant job, j_memory job) \<mapsto> v)) (tabs w'))"
proof -
  let ?t = "j_tenant job" and ?i = "j_memory job"
  let ?mark = "mark_state sv ?t [?i] OpUpsert"
  let ?text = "embedding_lookup_text_for_memory"
  from run obtain mems w1 where g: "repo_get_by_ids ?t [?i] w = (Inr mems, w1)"
    and rest: "(case mems of [] \<Rightarrow> return_act () | m # _ \<Rightarrow>
          try_act (remote (em_embed (pt_embedder pt) (?text m))) (\<lambda>r. case r of
            Inl e \<Rightarrow> bind_act (?mark IxFailed (Some e)) (\<lambda>_. fail_act e)
          | Inr v \<Rightarrow> bind_act (?mark IxPending None) (\<lambda>_.
              try_act (vs_upsert vs ?t ?i v) (\<lambda>r. case r of
                Inl e \<Rightarrow> bind_act (?mark IxFailed (Some e)) (\<lambda>_. fail_act e)
              | Inr _ \<Rightarrow> ?mark IxIndexed None)))) w1 = (Inr u, w')"
    unfolding handle_vector_upsert_def Let_def pt by (auto elim: bind_actE)
  have "db_ok (tabs w)" using ok by (simp add: ok_def)
  note G = get_by_ids_all [OF g this]
  show ?thesis
  proof (cases mems)
    case Nil
    with rest have "w' = w1" by (simp add: act_success)
    with G Nil show ?thesis by simp
  next
    case (Cons m ms)
    let ?r = "em_embed (pt_embedder pt) (?text m) (steps w1)"
    have "\<exists>v. ?r = Inr v" using rest Cons by (cases ?r) (auto simp: try_act_def remote_def bind_fails)
    then obtain v where v: "?r = Inr v" ..
    have body: "bind_act (?mark IxPending None) (\<lambda>_.
              try_act (vs_upsert vs ?t ?i v) (\<lambda>r. case r of
                Inl e \<Rightarrow> bind_act (?mark IxFailed (Some e)) (\<lambda>_. fail_act e)
              | Inr _ \<Rightarrow> ?mark IxIndexed None)) (tick w1) = (Inr u, w')"
      using rest Cons v by (simp add: try_act_def remote_def)
    have up: "yields (K M V) (vs_upsert vs ?t ?i v) (\<lambda>_. K M (V((?t, ?i) \<mapsto> v)))" for M V
      by (rule yields_K_step [OF upsert_keeps upsert_frame upsert_vec])
    have "K (db_memories (tabs w)) (vec (tabs w)) (tabs (tick w1))" using G ok by (simp add: K_def)
    from yieldsD [OF yields_bind [OF yields_K_mark yields_try_fail [OF up yields_K_mark bind_fails]] body this]
    have "K (db_memories (tabs w)) ((vec (tabs w))((?t, ?i) \<mapsto> v)) (tabs w')" .
    moreover have "m \<in> set mems" using Cons by simp
    ultimately show ?thesis using G v by blast
  qed
qed

end

section \<open>Parser jobs over the SQLite fact repository\<close>

lemma sqlite_lookup_tells:
  assumes "uses_facts sv sqlite_fact_store"
  shows "sfi.lookup_tells sv told_by"
  unfolding sfi.lookup_tells_def
proof (intro allI impI)
  fix t f w m w'
  assume ok: "svi.ok (tabs w)" and run: "find_memory_by_relation_tuple sv t f w = (Inr (Some m), w')"
  have "ms_entity sv = Some sqlite_fact_store"
    using assms run by (auto simp: uses_facts_def find_memory_by_relation_tuple_def return_act_success)
  moreover have "store_ok (tabs w)" using ok by (simp add: svi_ok service_ok_def db_ok_def)
  ultimately have "m \<in> set (db_memories (tabs w)) \<and> m_tenant m = t \<and> (\<exists>r \<in> set (db_facts (tabs w)).
        fr_memory r \<noteq> None \<and> trim_space (the (fr_memory r)) = m_id m \<and>
        row_slot r = slot_of t (pf_entity f) (normalize_entity_fact_relation (pf_relation f)) \<and>
        fr_value r = collapse (pf_value f))"
    using tuple_lookup_sound [OF _ _ run] by auto
  then show "m \<in> set (db_memories (tabs w)) \<and> m_tenant m = t \<and> told_by (db_facts (tabs w)) t f m"
    by (simp add: told_by_def)
qed

lemma only_memory:
  assumes "db_ok db" "m \<in> set (db_memories db)" "m_tenant m = t" "m_id m = i"
  shows "List.find (\<lambda>m. m_tenant m = t \<and> m_id m = i) (db_memories db) = Some m"
proof -
  have dist: "distinct (map m_id (db_memories db))" using assms(1) by (simp add: db_ok_def store_ok_def)
  have "List.find (\<lambda>m. m_tenant m = t \<and> m_id m = i) (db_memories db) \<noteq> None"
    using assms(2-4) by (auto simp: find_None_iff)
  then obtain x where x: "List.find (\<lambda>m. m_tenant m = t \<and> m_id m = i) (db_memories db) = Some x" by blast
  from found_in_list [OF this [symmetric]] have "x \<in> set (db_memories db)" "m_id x = i" by auto
  then have "x = m" using inj_onD [OF distinct_map [THEN iffD1, OF dist, THEN conjunct2]] assms(2,4) by auto
  with x show ?thesis by simp
qed

lemma parser_job_idle:
  assumes run: "handle_parser_extract sv opts job w = (Inr u, w')" and ok: "db_ok (tabs w)"
    and off: "ms_info_parser sv = None \<or> \<not> po_enabled (ms_parser sv) \<or>
      (\<forall>m \<in> set (db_memories (tabs w)). m_tenant m = j_tenant job \<and> m_id m = trim_space (j_memory job) \<longrightarrow> m_kind m \<noteq> KindRawTurn)"
  shows "tabs w' = tabs w"
proof (cases "ms_info_parser sv = None \<or> \<not> po_enabled (ms_parser sv)")
  case True
  then show ?thesis using run by (auto simp: handle_parser_extract_def act_success split: option.splits)
next
  case False
  then obtain parse where parse: "ms_info_parser sv = Some parse" "po_enabled (ms_parser sv)" by auto
  from run obtain mems w1 where g: "repo_get_by_ids (j_tenant job) [j_memory job] w = (Inr mems, w1)"
    unfolding handle_parser_extract_def parse(1) option.case using parse(2) by (auto elim: bind_actE)
  note G = get_by_ids_all [OF g ok]
  have "\<forall>m \<in> set mems. m_kind m \<noteq> KindRawTurn" using G off False by auto
  then have "tabs w' = tabs w1" using run g parse
    by (cases mems) (auto simp: handle_parser_extract_def bind_act_def return_act_def)
  then show ?thesis using G by simp
qed

section \<open>Properties\<close>

text \<open>A vector job that succeeds has given its memory the vector that the embedder returned for the text of
  the memory, or the memory is gone and nothing has changed; no memory and no other vector changes, and the
  invariant holds.\<close>

theorem vector_job_functional:
  assumes "pt_vector pt = sqlite_vector_store" and "service_ok (tabs w)" and "handle_vector_upsert sv pt job w = (Inr u, w')"
  shows "{m \<in> set (db_memories (tabs w)). m_tenant m = j_tenant job \<and> m_id m = trim_space (j_memory job)} = {} \<and> tabs w' = tabs w \<or>
    (\<exists>m n v. m \<in> set (db_memories (tabs w)) \<and> m_tenant m = j_tenant job \<and> m_id m = trim_space (j_memory job) \<and>
       em_embed (pt_embedder pt) (embedding_lookup_text_for_memory m) n = Inr v \<and>
       db_memories (tabs w') = db_memories (tabs w) \<and> service_ok (tabs w') \<and>
       embedding_map (tabs w') = (embedding_map (tabs w))((j_tenant job, j_memory job) \<mapsto> v))"
proof -
  have "svi.ok (tabs w)" using assms(2) by (simp add: svi_ok)
  from svi.vector_job_run [OF assms(1) this assms(3)] show ?thesis unfolding svi.K_def svi_ok by blast
qed

text \<open>C34 A parser job that succeeds, for a memory that is a raw turn, with the parser on: it has parsed the turn, and
  every fact found that is worth storing has a memory of the tenant in the table, one with the key of this fact or
  one that an entity fact of the repository already tied to the same triple; the new memories are appended, each
  semantic and made from such a fact, with its content, kind and key; exactly for the new ones a vector job is
  queued, and every other row of the queue is as it was (so a memory that an earlier, failed run of the job had
  created gets no vector job). Vectors and older memories are untouched. When the parser is off, or the memory is
  gone or no raw turn, the job changes nothing.\<close>

theorem parser_job_functional:
  assumes "uses_facts sv sqlite_fact_store" and "service_ok (tabs w)" and "handle_parser_extract sv opts job w = (Inr u, w')"
  shows "service_ok (tabs w') \<and>
    (case ms_info_parser sv of None \<Rightarrow> tabs w' = tabs w
     | Some parse \<Rightarrow>
        (case List.find (\<lambda>m. m_tenant m = j_tenant job \<and> m_id m = trim_space (j_memory job)) (db_memories (tabs w)) of
           None \<Rightarrow> tabs w' = tabs w
         | Some raw \<Rightarrow>
            if \<not> po_enabled (ms_parser sv) \<or> m_kind raw \<noteq> KindRawTurn then tabs w' = tabs w
            else (\<exists>w0 pr w1 ms. tabs w0 = tabs w \<and> parse_facts_with_fallback sv parse (m_content raw) w0 = (Inr pr, w1) \<and>
              db_memories (tabs w') = db_memories (tabs w) @ ms \<and> embedding_map (tabs w') = embedding_map (tabs w) \<and>
              (\<forall>m \<in> set ms. derived_from (ms_texts sv) (turn_of raw pr) (pr_facts pr) m) \<and>
              (\<forall>p \<in> set (enumerate 0 (pr_facts pr)). storable (ms_texts sv) p \<longrightarrow>
                 remembered_in (told_by (db_facts (tabs w)) (m_tenant raw)) (turn_of raw pr) (db_memories (tabs w')) p) \<and>
              (\<forall>m \<in> set ms. queued (m_tenant m, m_id m, VectorUpsert) (db_jobs (tabs w'))) \<and>
              rows_off ((\<lambda>m. (m_tenant m, m_id m, VectorUpsert)) ` set ms) (db_jobs (tabs w')) =
                rows_off ((\<lambda>m. (m_tenant m, m_id m, VectorUpsert)) ` set ms) (db_jobs (tabs w)))))"
proof -
  let ?p = "\<lambda>m. m_tenant m = j_tenant job \<and> m_id m = trim_space (j_memory job)"
  have ok: "svi.ok (tabs w)" and dok: "db_ok (tabs w)" using assms(2) by (simp_all add: svi_ok service_ok_def)
  have idle: "tabs w' = tabs w" if "ms_info_parser sv = None \<or> \<not> po_enabled (ms_parser sv) \<or>
      (\<forall>m \<in> set (db_memories (tabs w)). ?p m \<longrightarrow> m_kind m \<noteq> KindRawTurn)"
    using parser_job_idle [OF assms(3) dok that] .
  show ?thesis
  proof (cases "\<exists>parse raw. ms_info_parser sv = Some parse \<and> po_enabled (ms_parser sv) \<and>
      List.find ?p (db_memories (tabs w)) = Some raw \<and> m_kind raw = KindRawTurn")
    case False
    have "\<forall>m \<in> set (db_memories (tabs w)). ?p m \<longrightarrow> m_kind m \<noteq> KindRawTurn"
      if "ms_info_parser sv = Some parse" "po_enabled (ms_parser sv)" for parse
    proof (intro ballI impI)
      fix m assume "m \<in> set (db_memories (tabs w))" "?p m"
      then have "List.find ?p (db_memories (tabs w)) = Some m" using only_memory [OF dok] by blast
      with False that show "m_kind m \<noteq> KindRawTurn" by blast
    qed
    then have "tabs w' = tabs w" using idle by (cases "ms_info_parser sv") auto
    with assms(2) False show ?thesis by (auto split: option.split)
  next
    case True
    then obtain parse raw where on: "ms_info_parser sv = Some parse" "po_enabled (ms_parser sv)"
      and raw: "List.find ?p (db_memories (tabs w)) = Some raw" "m_kind raw = KindRawTurn" by blast
    from found_in_list [OF raw(1) [symmetric]]
    have mem: "raw \<in> set (db_memories (tabs w))" "m_tenant raw = j_tenant job" "m_id raw = trim_space (j_memory job)" by auto
    from sfi.parser_job_run [OF assms(1) sqlite_lookup_tells [OF assms(1)] ok assms(3) on mem raw(2)]
    obtain w0 pr w1 ms where p: "tabs w0 = tabs w" "parse_facts_with_fallback sv parse (m_content raw) w0 = (Inr pr, w1)"
      and x: "sfi.extracted sv told_by (turn_of raw pr) (pr_facts pr) (tabs w) ms (tabs w')" by blast
    have q: "queue_run (db_jobs (tabs w)) (map EvEnqueue (map (\<lambda>m. (m_tenant m, m_id m, VectorUpsert)) ms)) (db_jobs (tabs w'))"
      using x unfolding sfi.extracted_def by blast
    note E = enqueue_events [OF q]
    have K: "service_ok (tabs w')" "db_memories (tabs w') = db_memories (tabs w) @ ms"
      "embedding_map (tabs w') = embedding_map (tabs w)"
      using x by (simp_all add: sfi.extracted_def svi.K_def svi_ok)
    have tn: "tn_tenant (turn_of raw pr) = m_tenant raw" by (simp add: turn_of_def)
    have X: "\<forall>m \<in> set ms. derived_from (ms_texts sv) (turn_of raw pr) (pr_facts pr) m"
      "\<forall>p \<in> set (enumerate 0 (pr_facts pr)). storable (ms_texts sv) p \<longrightarrow>
         remembered_in (told_by (db_facts (tabs w)) (m_tenant raw)) (turn_of raw pr) (db_memories (tabs w')) p"
      using x unfolding sfi.extracted_def tn K(2) by blast+
    have Q: "\<forall>m \<in> set ms. queued (m_tenant m, m_id m, VectorUpsert) (db_jobs (tabs w'))"
      "rows_off ((\<lambda>m. (m_tenant m, m_id m, VectorUpsert)) ` set ms) (db_jobs (tabs w')) =
        rows_off ((\<lambda>m. (m_tenant m, m_id m, VectorUpsert)) ` set ms) (db_jobs (tabs w))"
      using E by simp_all
    have go: "\<not> (\<not> po_enabled (ms_parser sv) \<or> m_kind raw \<noteq> KindRawTurn)" using on(2) raw(2) by simp
    show ?thesis unfolding on raw(1) option.case if_not_P [OF go] using p K X Q by blast
  qed
qed

section \<open>Witnesses\<close>

definition sample_parts :: parts where
  "sample_parts = \<lparr>pt_scorer = \<lparr>sc_score = (\<lambda>_ _. Inr 2), sc_batch = None\<rparr>,
     pt_embedder = \<lparr>em_embed = (\<lambda>_ _. Inr [1]), em_batch = None\<rparr>, pt_vector = sqlite_vector_store\<rparr>"

definition sample_work :: database where
  "sample_work = sample_store\<lparr>db_jobs := [sample_claimed]\<rparr>"

lemma sample_work_ok: "service_ok (tabs (calm_world sample_work))"
  using sample_service_ok sample_tables_ok(2)
  by (simp add: service_ok_def db_ok_def store_ok_def embeddings_ok_def sample_work_def calm_world_def)

lemma retry_delay_doubles_witness: "retry_delay 3 500 10000 = 2000"
proof -
  have "in_int64 10000" by (simp add: in_int64_def)
  from retry_delay_doubles [OF _ _ this, of 500 3] show ?thesis by simp
qed

lemma worker_keeps_invariant_witness:
  "service_ok (tabs (snd (run_postprocess_worker_loop 3 (\<lambda>_. False) sample_service sample_parts ''w'' default_worker_options
     (calm_world sample_work))))"
  using worker_keeps_invariant [OF _ _ sample_work_ok, of sample_parts sample_service]
  by (simp add: sample_parts_def sample_service_def uses_facts_def)

lemma sample_get_m1: "repo_get_by_ids ''t1'' [''m1''] (calm_world sample_work) = (Inr [sample_memory], tick (calm_world sample_work))"
  by (simp add: repo_get_by_ids_def uniq_trimmed_def lower_eval run_eval sample_work_def sample_store_def sample_memory_def
      empty_database_def zero_memory_def)

lemma sample_vector_job_run:
  "\<exists>w'. handle_vector_upsert sample_service sample_parts (job_of_row sample_claimed) (calm_world sample_work) = (Inr (), w')"
proof -
  let ?w = "tick (tick (calm_world sample_work))"
  have job: "j_tenant (job_of_row sample_claimed) = ''t1''" "j_memory (job_of_row sample_claimed) = ''m1''"
    by (simp_all add: job_of_row_def sample_claimed_def sample_job_def claim_row_def)
  let ?mark = "mark_state sample_service ''t1'' [''m1''] OpUpsert IxPending None"
  obtain w1 where w1: "?mark ?w = (Inr (), w1)"
    using mark_state_returns [of sample_service "''t1''" "[''m1'']"] by (metis prod.collapse)
  have ff: "fault_free w1" using env_run [OF env_mark w1] by (simp add: calm_world_def fault_free_def)
  have "sample_memory \<in> set (db_memories (tabs w1))"
    using no_index_simps(2) [OF keeps_run [OF keeps_mark_state_frame w1 refl]]
    by (simp add: calm_world_def sample_work_def sample_store_def)
  then have "''m1'' \<in> m_id ` set (db_memories (tabs w1))" by (force simp: sample_memory_def)
  then have "fst (sv_upsert ''t1'' ''m1'' [1] w1) = Inr ()"
    using ff by (auto simp add: sv_upsert_def bind_act_def now_act_def exec_fault_free upsert_embedding_stmt_def lower_eval
        sample_memory_def zero_memory_def fail_act_def)
  then obtain w2 where up: "sv_upsert ''t1'' ''m1'' [1] w1 = (Inr (), w2)" by (metis prod.collapse)
  have "fst (mark_state sample_service ''t1'' [''m1''] OpUpsert IxIndexed None w2) = Inr ()" by (rule mark_state_returns)
  then obtain w3 where "mark_state sample_service ''t1'' [''m1''] OpUpsert IxIndexed None w2 = (Inr (), w3)" by (metis prod.collapse)
  then show ?thesis
    using w1 up by (simp add: handle_vector_upsert_def job bind_act_def sample_get_m1 try_act_def remote_def sample_parts_def
        sqlite_vector_store_def Let_def)
qed

lemma process_job_functional_witness:
  "\<exists>now > 0. succeed_row (Stamp now) sample_claimed \<in> set (db_jobs (tabs (snd (process_postprocess_job sample_service
     sample_parts default_worker_options (job_of_row sample_claimed) (calm_world sample_work)))))"
proof -
  have pos: "0 < clock (calm_world sample_work) n" for n by (simp add: calm_world_def)
  have ff: "fault_free (calm_world sample_work)" by (simp add: calm_world_def fault_free_def)
  have mem: "sample_claimed \<in> set (db_jobs (tabs (calm_world sample_work)))" by (simp add: calm_world_def sample_work_def)
  have pt: "pt_vector sample_parts = sqlite_vector_store" "uses_facts sample_service sqlite_fact_store"
    by (simp_all add: sample_parts_def sample_service_def uses_facts_def)
  have d: "0 < wo_retry_base default_worker_options" "wo_retry_base default_worker_options \<le> wo_retry_max default_worker_options"
    "in_int64 (wo_retry_max default_worker_options)" by (simp_all add: default_worker_options_def in_int64_def)
  have "j_type (job_of_row sample_claimed) = VectorUpsert"
    by (simp add: job_of_row_def sample_claimed_def sample_job_def claim_row_def)
  then have res: "fst (execute_postprocess_job sample_service sample_parts default_worker_options (job_of_row sample_claimed)
      (calm_world sample_work)) = Inr ()"
    using sample_vector_job_run by (auto simp: execute_postprocess_job_def)
  from process_job_functional [OF pt sample_work_ok mem pos d, unfolded res sum.case Let_def] ff
  show ?thesis by blast
qed

lemma vector_job_functional_witness:
  "\<exists>w'. handle_vector_upsert sample_service sample_parts (job_of_row sample_claimed) (calm_world sample_work) = (Inr (), w') \<and>
     embedding_map (tabs w') (''t1'', ''m1'') = Some [1]"
proof -
  have job: "j_tenant (job_of_row sample_claimed) = ''t1''" "j_memory (job_of_row sample_claimed) = ''m1''"
    by (simp_all add: job_of_row_def sample_claimed_def sample_job_def claim_row_def)
  have mem: "sample_memory \<in> set (db_memories (tabs (calm_world sample_work)))" "m_tenant sample_memory = ''t1''" "m_id sample_memory = trim_space ''m1''"
    by (simp_all add: calm_world_def sample_work_def sample_store_def sample_memory_def zero_memory_def lower_eval)
  obtain w' where run: "handle_vector_upsert sample_service sample_parts (job_of_row sample_claimed) (calm_world sample_work) = (Inr (), w')"
    using sample_vector_job_run by blast
  from vector_job_functional [OF _ sample_work_ok run] mem run show ?thesis
    unfolding job by (auto simp: sample_parts_def)
qed

definition sample_parser_service :: service where
  "sample_parser_service = sample_service\<lparr>ms_parser := default_parser_options\<lparr>po_enabled := True\<rparr>,
     ms_info_parser := Some (\<lambda>_ _ _. Inr [])\<rparr>"

lemma sample_parser_job_run:
  "\<exists>w'. handle_parser_extract sample_parser_service default_worker_options (job_of_row sample_claimed) (calm_world sample_work) = (Inr (), w')"
proof -
  have job: "j_tenant (job_of_row sample_claimed) = ''t1''" "j_memory (job_of_row sample_claimed) = ''m1''"
    by (simp_all add: job_of_row_def sample_claimed_def sample_job_def claim_row_def)
  have raw: "m_kind sample_memory = KindRawTurn" by (simp add: sample_memory_def)
  have sv: "ms_info_parser sample_parser_service = Some (\<lambda>_ _ _. Inr [])" "po_enabled (ms_parser sample_parser_service)"
    "tx_parse (ms_texts sample_parser_service) c n = Inr []" "ms_entity sample_parser_service = Some sqlite_fact_store" for c n
    by (simp_all add: sample_parser_service_def sample_service_def sample_texts_def)
  have "\<exists>p w'. parse_facts_with_fallback sample_parser_service (\<lambda>_ _ _. Inr []) c w = (Inr p, w') \<and> pr_facts p = []" for c w
    by (simp add: parse_facts_with_fallback_def try_act_def remote_def usable_facts_def sv return_act_def Let_def)
  then obtain p w' where "parse_facts_with_fallback sample_parser_service (\<lambda>_ _ _. Inr []) (m_content sample_memory)
      (tick (calm_world sample_work)) = (Inr p, w')" "pr_facts p = []" by blast
  then show ?thesis
    by (simp add: handle_parser_extract_def job bind_act_def sample_get_m1 raw sv return_act_def store_entity_facts_def)
qed

lemma parser_job_functional_witness:
  "\<exists>w'. handle_parser_extract sample_parser_service default_worker_options (job_of_row sample_claimed) (calm_world sample_work) = (Inr (), w') \<and>
     service_ok (tabs w') \<and> (\<exists>ms. db_memories (tabs w') = sample_memory # ms \<and>
       (\<forall>m \<in> set ms. queued (m_tenant m, m_id m, VectorUpsert) (db_jobs (tabs w'))))"
proof -
  obtain w' where run: "handle_parser_extract sample_parser_service default_worker_options (job_of_row sample_claimed) (calm_world sample_work) = (Inr (), w')"
    using sample_parser_job_run by blast
  have uses: "uses_facts sample_parser_service sqlite_fact_store"
    by (simp add: uses_facts_def sample_parser_service_def sample_service_def)
  have sv: "ms_info_parser sample_parser_service = Some (\<lambda>_ _ _. Inr [])" "po_enabled (ms_parser sample_parser_service)"
    by (simp_all add: sample_parser_service_def)
  have mems: "db_memories (tabs (calm_world sample_work)) = [sample_memory]"
    by (simp add: calm_world_def sample_work_def sample_store_def)
  have find: "List.find (\<lambda>m. m_tenant m = j_tenant (job_of_row sample_claimed) \<and> m_id m = trim_space (j_memory (job_of_row sample_claimed)))
      [sample_memory] = Some sample_memory" "m_kind sample_memory = KindRawTurn"
    by (simp_all add: job_of_row_def sample_claimed_def sample_job_def claim_row_def sample_memory_def zero_memory_def lower_eval)
  have go: "\<not> (\<not> po_enabled (ms_parser sample_parser_service) \<or> m_kind sample_memory \<noteq> KindRawTurn)" using sv(2) find(2) by simp
  from parser_job_functional [OF uses sample_work_ok run, unfolded sv(1) option.case mems find(1) if_not_P [OF go]] run
  show ?thesis by (intro exI [of _ w']) auto
qed

end
