(* ===== verification/Regex.thy ===== *)
theory Regex
  imports FtsText
begin

text \<open>
  Go's \<open>regexp\<close> for the patterns the program compiles. A pattern is a term of the datatype
  \<open>regex\<close>, written with the combinators below so that it reads like its source text, and a match is
  found the way RE2 defines it: the leftmost start, and there the first way to match in the order of
  a backtracking search (the left alternative first, repetition greedy). \<open>ways\<close> is that search. The
  text is a byte string; classes, \<open>\b\<close> and \<open>(?i)\<close> are those of ASCII.
\<close>

section \<open>Patterns\<close>

datatype regex =
    Eps
  | Cls "char \<Rightarrow> bool"
  | Seq regex regex
  | Alt regex regex
  | Star regex
  | Grp nat regex
  | WordBnd
  | TextStart
  | TextEnd

type_synonym captures = "(nat \<times> string) list"

definition no_match :: regex where
  "no_match = Cls (\<lambda>_. False)"

definition opt :: "regex \<Rightarrow> regex" where
  "opt r = Alt r Eps"

definition plus1 :: "regex \<Rightarrow> regex" where
  "plus1 r = Seq r (Star r)"

fun times :: "nat \<Rightarrow> regex \<Rightarrow> regex" where
  "times 0 r = Eps"
| "times (Suc n) r = Seq r (times n r)"

text \<open>\<open>r{0,n}\<close>, greedy.\<close>

fun upto_n :: "nat \<Rightarrow> regex \<Rightarrow> regex" where
  "upto_n 0 r = Eps"
| "upto_n (Suc n) r = Alt (Seq r (upto_n n r)) Eps"

fun seqs :: "regex list \<Rightarrow> regex" where
  "seqs [] = Eps"
| "seqs [r] = r"
| "seqs (r # rs) = Seq r (seqs rs)"

fun alts :: "regex list \<Rightarrow> regex" where
  "alts [] = no_match"
| "alts [r] = r"
| "alts (r # rs) = Alt r (alts rs)"

text \<open>A literal text in which \<open>?\<close> makes the character before it optional, and a list of such texts
  separated by bars: \<open>bars ''events?|trip''\<close> is \<open>events?|trip\<close>.\<close>

fun lit :: "string \<Rightarrow> regex" where
  "lit [] = Eps"
| "lit [c] = Cls (\<lambda>x. x = c)"
| "lit (c # d # s) =
     (if d = CHR ''?'' then Seq (opt (Cls (\<lambda>x. x = c))) (lit s)
      else Seq (Cls (\<lambda>x. x = c)) (lit (d # s)))"

definition bars :: "string \<Rightarrow> regex" where
  "bars s = alts (map lit (split_at (CHR ''|'') s))"

definition whole :: "string \<Rightarrow> regex" where
  "whole s = seqs [WordBnd, bars s, WordBnd]"

definition spaces1 :: regex where
  "spaces1 = plus1 (Cls re_space)"

definition spaces0 :: regex where
  "spaces0 = Star (Cls re_space)"

definition upper_letter :: "char \<Rightarrow> bool" where
  "upper_letter c \<longleftrightarrow> re_alpha c \<and> lower_char c \<noteq> c"

definition lower_letter :: "char \<Rightarrow> bool" where
  "lower_letter c \<longleftrightarrow> re_alpha c \<and> lower_char c = c"

text \<open>The flag \<open>(?i)\<close>: a class also takes the other case of its letters.\<close>

definition upper_of :: "char \<Rightarrow> char" where
  "upper_of c = (let n = (of_char c :: nat) in if 97 \<le> n \<and> n \<le> 122 then char_of (n - 32) else c)"

fun fold_case :: "regex \<Rightarrow> regex" where
  "fold_case (Cls P) = Cls (\<lambda>c. P c \<or> P (lower_char c) \<or> P (upper_of c))"
| "fold_case (Seq a b) = Seq (fold_case a) (fold_case b)"
| "fold_case (Alt a b) = Alt (fold_case a) (fold_case b)"
| "fold_case (Star a) = Star (fold_case a)"
| "fold_case (Grp i a) = Grp i (fold_case a)"
| "fold_case r = r"

section \<open>Matching\<close>

definition at_boundary :: "char option \<Rightarrow> string \<Rightarrow> bool" where
  "at_boundary p s \<longleftrightarrow>
     (case p of None \<Rightarrow> False | Some c \<Rightarrow> word_char c) \<noteq> (case s of [] \<Rightarrow> False | c # _ \<Rightarrow> word_char c)"

text \<open>The character before the text that is left after \<open>n\<close> more characters of \<open>s\<close>.\<close>

definition prev_after :: "char option \<Rightarrow> string \<Rightarrow> nat \<Rightarrow> char option" where
  "prev_after p s n = (case take n s of [] \<Rightarrow> p | c # cs \<Rightarrow> Some (last (c # cs)))"

text \<open>\<open>ways r p s\<close>: how \<open>r\<close> matches a prefix of \<open>s\<close>, which follows the character \<open>p\<close>: the length of
  the prefix and the groups captured, best first. A round of \<open>Star\<close> that takes nothing is not
  repeated.\<close>

function ways :: "regex \<Rightarrow> char option \<Rightarrow> string \<Rightarrow> (nat \<times> captures) list" where
  "ways Eps p s = [(0, [])]"
| "ways (Cls P) p s = (case s of [] \<Rightarrow> [] | c # _ \<Rightarrow> if P c then [(1, [])] else [])"
| "ways (Seq a b) p s =
     concat (map (\<lambda>(n, cs). map (\<lambda>(m, ds). (n + m, cs @ ds)) (ways b (prev_after p s n) (drop n s)))
       (ways a p s))"
| "ways (Alt a b) p s = ways a p s @ ways b p s"
| "ways (Star a) p s =
     concat (map (\<lambda>(n, cs). if 0 < n \<and> n \<le> length s
         then map (\<lambda>(m, ds). (n + m, cs @ ds)) (ways (Star a) (prev_after p s n) (drop n s)) else [])
       (ways a p s)) @ [(0, [])]"
| "ways (Grp i a) p s = map (\<lambda>(n, cs). (n, (i, take n s) # cs)) (ways a p s)"
| "ways WordBnd p s = (if at_boundary p s then [(0, [])] else [])"
| "ways TextStart p s = (if p = None then [(0, [])] else [])"
| "ways TextEnd p s = (if s = [] then [(0, [])] else [])"
  by pat_completeness auto
termination
  by (relation "measures [\<lambda>(r, p, s). size r, \<lambda>(r, p, s). length s]") auto

declare ways.simps(5) [simp del]

lemma ways_star:
  "(n, cs) \<in> set (ways (Star a) p s) \<longleftrightarrow> n = 0 \<and> cs = [] \<or>
     (\<exists>n1 c1 n2 c2. (n1, c1) \<in> set (ways a p s) \<and> 0 < n1 \<and> n1 \<le> length s \<and>
       (n2, c2) \<in> set (ways (Star a) (prev_after p s n1) (drop n1 s)) \<and> n = n1 + n2 \<and> cs = c1 @ c2)"
  unfolding ways.simps(5) [of a p s] by (auto split: if_splits) fastforce+

text \<open>The leftmost match: where it starts, how long it is and what it captured.\<close>

fun re_find :: "regex \<Rightarrow> char option \<Rightarrow> string \<Rightarrow> (nat \<times> nat \<times> captures) option" where
  "re_find r p s =
     (case ways r p s of
        (n, cs) # _ \<Rightarrow> Some (0, n, cs)
      | [] \<Rightarrow> (case s of [] \<Rightarrow> None
                | c # s' \<Rightarrow> (case re_find r (Some c) s' of None \<Rightarrow> None
                             | Some (i, n, cs) \<Rightarrow> Some (Suc i, n, cs))))"

declare re_find.simps [simp del]

text \<open>\<open>MatchString\<close> and \<open>FindStringSubmatch\<close>: the captured groups, the whole match as group 0.\<close>

definition re_match :: "regex \<Rightarrow> string \<Rightarrow> bool" where
  "re_match r s = (re_find r None s \<noteq> None)"

definition re_submatch :: "regex \<Rightarrow> string \<Rightarrow> captures option" where
  "re_submatch r s = (case re_find r None s of None \<Rightarrow> None
     | Some (i, n, cs) \<Rightarrow> Some ((0, take n (drop i s)) # cs))"

definition group :: "nat \<Rightarrow> captures \<Rightarrow> string" where
  "group i cs = (case map_of cs i of None \<Rightarrow> [] | Some w \<Rightarrow> w)"

definition re_find_string :: "regex \<Rightarrow> string \<Rightarrow> string" where
  "re_find_string r s = (case re_find r None s of None \<Rightarrow> [] | Some (i, n, _) \<Rightarrow> take n (drop i s))"

text \<open>All successive matches: what is skipped before each, the match and its groups; then the rest.
  No pattern used this way matches the empty text (\<open>min_len\<close> below), so the scan ends at one.\<close>

function re_scan :: "regex \<Rightarrow> char option \<Rightarrow> string \<Rightarrow> (string \<times> string \<times> captures) list \<times> string" where
  "re_scan r p s =
     (case re_find r p s of
        None \<Rightarrow> ([], s)
      | Some (i, n, cs) \<Rightarrow>
          if n = 0 \<or> length s < i + n then ([], s)
          else (let (ms, rest) = re_scan r (prev_after p s (i + n)) (drop (i + n) s) in
                ((take i s, take n (drop i s), cs) # ms, rest)))"
  by pat_completeness auto
termination
  by (relation "measure (\<lambda>(r, p, s). length s)") auto

declare re_scan.simps [simp del]

definition re_find_all :: "regex \<Rightarrow> string \<Rightarrow> string list" where
  "re_find_all r s = map (\<lambda>(_, m, _). m) (fst (re_scan r None s))"

definition re_find_all_sub :: "regex \<Rightarrow> string \<Rightarrow> captures list" where
  "re_find_all_sub r s = map (\<lambda>(_, m, cs). (0, m) # cs) (fst (re_scan r None s))"

definition re_split :: "regex \<Rightarrow> string \<Rightarrow> string list" where
  "re_split r s = (let (ms, rest) = re_scan r None s in map fst ms @ [rest])"

text \<open>\<open>ReplaceAllString\<close> with a replacement that refers to no group.\<close>

definition re_replace_all :: "regex \<Rightarrow> string \<Rightarrow> string \<Rightarrow> string" where
  "re_replace_all r s rep = (let (ms, rest) = re_scan r None s in concat (map (\<lambda>(g, _, _). g @ rep) ms) @ rest)"

section \<open>Laws\<close>

lemma ways_le: "(n, cs) \<in> set (ways r p s) \<Longrightarrow> n \<le> length s"
proof (induction r p s arbitrary: n cs rule: ways.induct)
  case (2 P p s)
  then show ?case by (auto split: list.splits if_splits)
next
  case (3 a b p s)
  then obtain n1 c1 n2 c2 where 1: "(n1, c1) \<in> set (ways a p s)"
    "(n2, c2) \<in> set (ways b (prev_after p s n1) (drop n1 s))" "n = n1 + n2"
    by auto
  have "n1 \<le> length s" "n2 \<le> length (drop n1 s)"
    using 3 1 by blast+
  then show ?case using 1 by simp
next
  case (5 a p s)
  show ?case
  proof (cases "n = 0")
    case False
    with "5.prems" obtain n1 c1 n2 c2 where 1: "(n1, c1) \<in> set (ways a p s)" "0 < n1" "n1 \<le> length s"
      "(n2, c2) \<in> set (ways (Star a) (prev_after p s n1) (drop n1 s))" "n = n1 + n2"
      by (subst (asm) ways_star) auto
    have "n2 \<le> length (drop n1 s)" using 5 1 by blast
    then show ?thesis using 1 by simp
  qed simp
qed (auto split: if_splits)

text \<open>The least number of characters of a match.\<close>

fun min_len :: "regex \<Rightarrow> nat" where
  "min_len (Cls P) = 1"
| "min_len (Seq a b) = min_len a + min_len b"
| "min_len (Alt a b) = min (min_len a) (min_len b)"
| "min_len (Grp i a) = min_len a"
| "min_len _ = 0"

lemma ways_min_len: "(n, cs) \<in> set (ways r p s) \<Longrightarrow> min_len r \<le> n"
proof (induction r p s arbitrary: n cs rule: ways.induct)
  case (3 a b p s)
  then obtain n1 c1 n2 c2 where 1: "(n1, c1) \<in> set (ways a p s)"
    "(n2, c2) \<in> set (ways b (prev_after p s n1) (drop n1 s))" "n = n1 + n2"
    by auto
  have "min_len a \<le> n1" "min_len b \<le> n2" using 3 1 by blast+
  then show ?case using 1 by simp
next
  case (4 a b p s)
  then show ?case by (auto simp: min_def dest: le_trans) (meson le_trans linear)+
qed (auto split: list.splits if_splits)

lemma re_find_spec:
  "re_find r p s = Some (i, n, cs) \<Longrightarrow>
     i + n \<le> length s \<and> (n, cs) \<in> set (ways r (prev_after p s i) (drop i s))"
proof (induction s arbitrary: p i)
  case Nil
  then show ?case
    using ways_le [of n cs r p "[]"]
    by (auto simp: re_find.simps [of r p "[]"] prev_after_def split: list.splits)
next
  case (Cons c s)
  show ?case
  proof (cases "ways r p (c # s)")
    case (Cons w ws)
    then show ?thesis using Cons.prems ways_le [of n cs r p "c # s"]
      by (auto simp: re_find.simps [of r p "c # s"] prev_after_def)
  next
    case Nil
    with Cons.prems obtain j where "re_find r (Some c) s = Some (j, n, cs)" "i = Suc j"
      by (auto simp: re_find.simps [of r p "c # s"] split: option.splits)
    moreover have "prev_after (Some c) s j = prev_after p (c # s) (Suc j)"
      by (cases "take j s") (auto simp: prev_after_def)
    ultimately show ?thesis using Cons.IH [of "Some c" j] by simp
  qed
qed

text \<open>Scanning loses nothing: the gaps, the matches and the rest make up the text again, so what
  \<open>Split\<close> returns is the text without its separators.\<close>

lemma re_scan_text:
  "concat (map (\<lambda>(g, m, _). g @ m) (fst (re_scan r p s))) @ snd (re_scan r p s) = s"
proof (induction r p s rule: re_scan.induct)
  case (1 r p s)
  show ?case
  proof (cases "re_find r p s")
    case None
    then show ?thesis by (simp add: re_scan.simps [of r p s])
  next
    case (Some x)
    obtain i n cs where x: "x = (i, n, cs)" by (cases x)
    have split: "take i s @ take n (drop i s) @ drop (i + n) s = s"
      by (metis append_take_drop_id drop_drop add.commute)
    show ?thesis
    proof (cases "n = 0 \<or> length s < i + n")
      case True
      then show ?thesis using Some x by (auto simp: re_scan.simps [of r p s])
    next
      case False
      then show ?thesis
        using "1.IH" [OF Some [unfolded x] refl refl False] Some x split
        by (simp add: re_scan.simps [of r p s] Let_def case_prod_beta)
    qed
  qed
qed

lemma re_scan_parts:
  "(g, m, cs) \<in> set (fst (re_scan r p s)) \<Longrightarrow> set g \<subseteq> set s \<and> set m \<subseteq> set s"
  "set (snd (re_scan r p s)) \<subseteq> set s"
proof -
  have s: "set s = (\<Union>x \<in> set (fst (re_scan r p s)). case x of (g, m, _) \<Rightarrow> set g \<union> set m) \<union>
      set (snd (re_scan r p s))"
    by (subst (1) re_scan_text [of r p s, symmetric]) (auto simp del: re_scan.simps)
  show "set g \<subseteq> set s \<and> set m \<subseteq> set s" if "(g, m, cs) \<in> set (fst (re_scan r p s))"
    unfolding s using that by blast
  show "set (snd (re_scan r p s)) \<subseteq> set s"
    unfolding s by blast
qed

lemma re_find_all_parts: "m \<in> set (re_find_all r s) \<Longrightarrow> set m \<subseteq> set s"
  using re_scan_parts(1) [of _ m _ r None s] by (auto simp: re_find_all_def)

lemma re_split_parts: "w \<in> set (re_split r s) \<Longrightarrow> set w \<subseteq> set s"
  using re_scan_parts(1) [of w _ _ r None s] re_scan_parts(2) [of r None s]
  by (auto simp: re_split_def case_prod_beta Let_def) blast

end
