(* ===== verification/RankText.thy ===== *)
theory RankText
  imports Regex
begin

text \<open>
  The text scores of ranking: tokens of a text (\<open>normalizedRankingTokenList\<close>) and what is computed
  from the tokens of a query and of a memory (\<open>search_ranking_utils.go\<close>, \<open>lexicalContentScore\<close> of
  \<open>search_graph.go\<close> and the rerank scores of \<open>search_ranking_scoring.go\<close>). A Go set of tokens is the
  list of its elements without repetition; a \<open>float64\<close> is a real number, rounding is not modelled.
  Every score is proved to lie between 0 and 1.
\<close>

section \<open>Tokens\<close>

definition ranking_stopwords :: "string list" where
  "ranking_stopwords = [''a'', ''an'', ''the'', ''what'', ''when'', ''where'', ''who'', ''why'', ''how'',
     ''which'', ''whose'', ''did'', ''does'', ''do'', ''is'', ''are'', ''was'', ''were'', ''to'', ''of'',
     ''in'', ''on'', ''at'', ''for'', ''with'', ''about'', ''tell'', ''me'', ''it'', ''this'', ''that'',
     ''and'', ''or'', ''if'', ''be'', ''been'', ''being'', ''as'', ''from'', ''by'']"

definition normalized_ranking_token_list :: "string \<Rightarrow> string list" where
  "normalized_ranking_token_list text =
     (let raw = runs word_char (to_lower (trim_space text));
          filtered = filter (\<lambda>t. 2 \<le> length t \<and> t \<notin> set ranking_stopwords) raw in
      if filtered \<noteq> [] then filtered else filter (\<lambda>t. 2 \<le> length t) raw)"

definition normalized_ranking_tokens :: "string \<Rightarrow> string list" where
  "normalized_ranking_tokens text = uniq (normalized_ranking_token_list text)"

text \<open>How many elements of one token set are in another.\<close>

definition matches :: "string list \<Rightarrow> string list \<Rightarrow> nat" where
  "matches qs ds = length (filter (\<lambda>t. t \<in> set ds) qs)"

section \<open>Averages\<close>

definition clamp01 :: "real \<Rightarrow> real" where
  "clamp01 v = (if v < 0 then 0 else if v > 1 then 1 else v)"

fun weight_sums :: "real list \<Rightarrow> real list \<Rightarrow> real \<times> real" where
  "weight_sums (v # vs) (w # ws) =
     (let (tw, t) = weight_sums vs ws in if w \<le> 0 then (tw, t) else (tw + w, t + w * clamp01 v))"
| "weight_sums _ _ = (0, 0)"

definition weighted_average :: "real list \<Rightarrow> real list \<Rightarrow> real" where
  "weighted_average vs ws =
     (if vs = [] \<or> length vs \<noteq> length ws then 0
      else let (tw, t) = weight_sums vs ws in if tw = 0 then 0 else clamp01 (t / tw))"

section \<open>Scores of a text against a q\<close>

definition query_overlap_score :: "string list \<Rightarrow> string list \<Rightarrow> real" where
  "query_overlap_score qs ds =
     (if qs = [] \<or> ds = [] then 0 else of_nat (matches qs ds) / of_nat (length qs))"

definition lexical_content_score :: "string \<Rightarrow> string \<Rightarrow> real" where
  "lexical_content_score q content =
     (let qs = normalized_ranking_tokens q; ds = normalized_ranking_tokens content;
          m = matches qs ds in
      if qs = [] \<or> ds = [] \<or> m = 0 then 0
      else let recall = of_nat m / of_nat (length qs);
               un = int (length qs) + int (length ds) - int m;
               jaccard = (if un > 0 then of_nat m / of_int un else 0) in
           clamp01 (7 / 10 * recall + 3 / 10 * jaccard))"

definition bigrams :: "string list \<Rightarrow> string list" where
  "bigrams ts = map2 (\<lambda>a b. a @ '' '' @ b) (butlast ts) (tl ts)"

definition ordered_bigram_coverage :: "string \<Rightarrow> string \<Rightarrow> real" where
  "ordered_bigram_coverage q content =
     (let qs = normalized_ranking_token_list q; ds = normalized_ranking_token_list content in
      if length qs < 2 \<or> length ds < 2 then 0
      else clamp01 (of_nat (matches (bigrams qs) (bigrams ds)) / of_nat (length qs - 1)))"

definition find_token_position_after :: "string list \<Rightarrow> string \<Rightarrow> int \<Rightarrow> int" where
  "find_token_position_after tokens target start =
     (if target = [] \<or> start \<ge> int (length tokens) then - 1
      else case find (\<lambda>i. tokens ! i = target) [nat (max 0 start)..<length tokens] of
             None \<Rightarrow> - 1 | Some i \<Rightarrow> int i)"

record proximity =
  px_prev :: int
  px_matched :: nat
  px_gap :: int

definition proximity_step :: "string list \<Rightarrow> string \<Rightarrow> proximity \<Rightarrow> proximity" where
  "proximity_step content token p =
     (let pos = find_token_position_after content token (px_prev p + 1) in
      if pos < 0 then p
      else \<lparr>px_prev = pos, px_matched = Suc (px_matched p),
            px_gap = (if px_prev p \<ge> 0 \<and> pos > px_prev p then px_gap p + (pos - px_prev p - 1) else px_gap p)\<rparr>)"

definition query_token_proximity_score :: "string \<Rightarrow> string \<Rightarrow> real" where
  "query_token_proximity_score q content =
     (let qs = normalized_ranking_token_list q; ds = normalized_ranking_token_list content;
          unique = uniq qs;
          p = fold (proximity_step ds) unique \<lparr>px_prev = - 1, px_matched = 0, px_gap = 0\<rparr>;
          coverage = of_nat (px_matched p) / of_nat (length unique) in
      if qs = [] \<or> ds = [] \<or> px_matched p = 0 then 0
      else if px_matched p = 1 then clamp01 (coverage * (1 / 2))
      else let avg_gap = of_int (px_gap p) / of_nat (px_matched p - 1);
               compactness = 1 / (1 + avg_gap) in
           clamp01 (65 / 100 * coverage + 35 / 100 * compactness))"

text \<open>The inverse document frequencies of the query's tokens among the candidates, and the share of
  their weight that a text covers. A missing entry of the map is the weight 1.\<close>

type_synonym idf_map = "string \<Rightarrow> real option"

definition math_log1p_safe :: "real \<Rightarrow> real" where
  "math_log1p_safe v = ln (1 + v)"

definition doc_frequency :: "string \<Rightarrow> memory list \<Rightarrow> nat" where
  "doc_frequency t ms = length (filter (\<lambda>m.
     t \<in> set (normalized_ranking_tokens (m_content m @ [newline] @ m_query_view m))) ms)"

definition build_local_idf_map :: "string \<Rightarrow> memory list \<Rightarrow> idf_map" where
  "build_local_idf_map q ms =
     (let qs = uniq (normalized_ranking_token_list q); n = of_nat (length ms) in
      if qs = [] \<or> ms = [] then Map.empty
      else map_of (map (\<lambda>t. (t, math_log1p_safe
             ((n - of_nat (doc_frequency t ms) + 1 / 2) / (of_nat (doc_frequency t ms) + 1 / 2)) + 1)) qs))"

definition idf_weight :: "idf_map \<Rightarrow> string \<Rightarrow> real" where
  "idf_weight idf t = (let w = (case idf t of None \<Rightarrow> 0 | Some w \<Rightarrow> w) in if w \<le> 0 then 1 else w)"

definition idf_coverage_score :: "string \<Rightarrow> string \<Rightarrow> idf_map \<Rightarrow> real" where
  "idf_coverage_score q content idf =
     (let qs = normalized_ranking_tokens q; ds = normalized_ranking_tokens content;
          total = sum_list (map (idf_weight idf) qs);
          matched = sum_list (map (idf_weight idf) (filter (\<lambda>t. t \<in> set ds) qs)) in
      if qs = [] \<or> ds = [] then 0 else if total = 0 then 0 else clamp01 (matched / total))"

definition pairwise_rerank_score :: "string \<Rightarrow> memory \<Rightarrow> idf_map \<Rightarrow> real" where
  "pairwise_rerank_score q m idf =
     (let content = trim_space (m_content m); view = trim_space (m_query_view m);
          doc = (if view = [] then content
                 else (if content = [] then [] else content @ [newline]) @ view) in
      weighted_average
        [lexical_content_score q doc, ordered_bigram_coverage q doc,
         query_token_proximity_score q doc, lexical_content_score q view,
         idf_coverage_score q doc idf, idf_coverage_score q view idf]
        [28 / 100, 16 / 100, 15 / 100, 11 / 100, 20 / 100, 10 / 100])"

section \<open>Laws\<close>

definition unit_score :: "real \<Rightarrow> bool" where
  "unit_score x \<longleftrightarrow> 0 \<le> x \<and> x \<le> 1"

lemma clamp01_unit [simp]: "unit_score (clamp01 v)"
  by (simp add: clamp01_def unit_score_def)

lemma clamp01_id: "unit_score v \<Longrightarrow> clamp01 v = v"
  by (simp add: clamp01_def unit_score_def)

lemma clamp01_idem [simp]: "clamp01 (clamp01 v) = clamp01 v"
  by (simp add: clamp01_id)

lemma clamp01_mono: "v \<le> w \<Longrightarrow> clamp01 v \<le> clamp01 w"
  by (simp add: clamp01_def)

lemma unit_zero [simp]: "unit_score 0" "unit_score 1"
  by (simp_all add: unit_score_def)

lemma weighted_average_unit [simp]: "unit_score (weighted_average vs ws)"
  by (simp add: weighted_average_def case_prod_beta Let_def)

text \<open>The average of values in the unit interval is not clamped: it is the quotient of the weighted
  sums, so it never leaves the range of its values.\<close>

lemma weight_sums_bounds:
  "\<forall>v \<in> set vs. l \<le> clamp01 v \<and> clamp01 v \<le> h \<Longrightarrow>
   0 \<le> fst (weight_sums vs ws) \<and> l * fst (weight_sums vs ws) \<le> snd (weight_sums vs ws) \<and>
   snd (weight_sums vs ws) \<le> h * fst (weight_sums vs ws)"
proof (induction vs ws rule: weight_sums.induct)
  case (1 v vs w ws)
  then have ih: "0 \<le> fst (weight_sums vs ws)" "l * fst (weight_sums vs ws) \<le> snd (weight_sums vs ws)"
    "snd (weight_sums vs ws) \<le> h * fst (weight_sums vs ws)" and v: "l \<le> clamp01 v" "clamp01 v \<le> h"
    by simp_all
  have "0 < w \<Longrightarrow> l * w \<le> w * clamp01 v \<and> w * clamp01 v \<le> h * w"
    using v by (simp add: mult.commute)
  then show ?case using ih
    by (auto simp: case_prod_beta Let_def distrib_left intro: add_mono add_nonneg_nonneg)
qed auto

lemma weighted_average_between:
  assumes "\<forall>v \<in> set vs. l \<le> clamp01 v \<and> clamp01 v \<le> h" and "fst (weight_sums vs ws) \<noteq> 0"
    and "length vs = length ws" and "unit_score l" and "unit_score h"
  shows "l \<le> weighted_average vs ws \<and> weighted_average vs ws \<le> h"
proof -
  obtain tw t where tw: "weight_sums vs ws = (tw, t)" by (cases "weight_sums vs ws")
  have "vs \<noteq> []" using assms(2,3) by (cases vs; cases ws) auto
  have b: "0 \<le> tw" "l * tw \<le> t" "t \<le> h * tw"
    using weight_sums_bounds [OF assms(1), of ws] tw by simp_all
  have "0 < tw" using b assms(2) tw by simp
  then have "l \<le> t / tw" "t / tw \<le> h" using b by (simp_all add: field_simps)
  moreover from this have "clamp01 (t / tw) = t / tw"
    using assms(4,5) by (simp add: clamp01_id unit_score_def)
  ultimately show ?thesis
    using \<open>vs \<noteq> []\<close> assms(3) \<open>0 < tw\<close> by (simp add: weighted_average_def tw)
qed

lemma matches_le: "matches qs ds \<le> length qs"
  by (simp add: matches_def)

lemma matches_all: "set qs \<subseteq> set ds \<Longrightarrow> matches qs ds = length qs"
  by (simp add: matches_def filter_id_conv subset_iff)

lemma query_overlap_unit [simp]: "unit_score (query_overlap_score qs ds)"
  using matches_le [of qs ds] by (simp add: query_overlap_score_def unit_score_def field_simps)

lemma lexical_content_unit [simp]: "unit_score (lexical_content_score q c)"
  by (simp add: lexical_content_score_def Let_def)

lemma ordered_bigram_unit [simp]: "unit_score (ordered_bigram_coverage q c)"
  by (simp add: ordered_bigram_coverage_def Let_def)

lemma proximity_unit [simp]: "unit_score (query_token_proximity_score q c)"
  by (simp add: query_token_proximity_score_def Let_def)

lemma idf_coverage_unit [simp]: "unit_score (idf_coverage_score q c idf)"
  by (simp add: idf_coverage_score_def Let_def)

lemma pairwise_unit [simp]: "unit_score (pairwise_rerank_score q m idf)"
  by (simp add: pairwise_rerank_score_def Let_def)

text \<open>Ranking tokens are lower-case words of at least two characters.\<close>

lemma ranking_token:
  assumes "t \<in> set (normalized_ranking_token_list s)"
  shows "2 \<le> length t \<and> (\<forall>c \<in> set t. word_char c \<and> \<not> upper_char c)"
proof -
  have t: "t \<in> set (runs word_char (to_lower (trim_space s)))" and "2 \<le> length t"
    using assms by (auto simp: normalized_ranking_token_list_def Let_def split: if_splits)
  then show ?thesis
    using runs_chars [OF t] lower_char_not_upper by (auto simp: to_lower_def)
qed

lemma ranking_tokens_case: "normalized_ranking_token_list (to_lower s) = normalized_ranking_token_list s"
  by (simp add: normalized_ranking_token_list_def str_norm)

lemma lexical_content_case:
  "lexical_content_score (to_lower q) (to_lower c) = lexical_content_score q c"
  by (simp add: lexical_content_score_def normalized_ranking_tokens_def ranking_tokens_case)

text \<open>The same text scores 1, texts with no word in common score 0.\<close>

lemma lexical_content_self:
  assumes "normalized_ranking_token_list q \<noteq> []"
  shows "lexical_content_score q q = 1"
proof -
  let ?q = "normalized_ranking_tokens q"
  have "?q \<noteq> []" using assms by (simp add: normalized_ranking_tokens_def)
  moreover have "matches ?q ?q = length ?q" by (rule matches_all) simp
  ultimately show ?thesis by (simp add: lexical_content_score_def Let_def clamp01_def)
qed

text \<open>The local inverse document frequencies are above 1, so the fallback weight is never used for
  a token of the query, and covering every token gives 1.\<close>

lemma doc_frequency_le: "doc_frequency t ms \<le> length ms"
  by (simp add: doc_frequency_def)

lemma idf_positive:
  assumes "ms \<noteq> []" "t \<in> set (normalized_ranking_token_list q)"
  shows "\<exists>w. build_local_idf_map q ms t = Some w \<and> 1 < w"
proof -
  let ?f = "\<lambda>t. math_log1p_safe ((of_nat (length ms) - of_nat (doc_frequency t ms) + 1 / 2) /
    (of_nat (doc_frequency t ms) + 1 / 2)) + 1"
  have "0 < (real (length ms) - real (doc_frequency t ms) + 1 / 2) / (real (doc_frequency t ms) + 1 / 2)"
    using doc_frequency_le [of t ms] by (intro divide_pos_pos) (auto simp: add_pos_nonneg intro: add_nonneg_pos)
  then have "1 < ?f t" by (simp add: math_log1p_safe_def)
  moreover have "map_of (map (\<lambda>t. (t, ?f t)) xs) t = Some (?f t)" if "t \<in> set xs" for xs
    using that by (induction xs) auto
  ultimately show ?thesis
    using assms by (auto simp: build_local_idf_map_def Let_def)
qed

lemma idf_weight_pos: "0 < idf_weight idf t"
  by (simp add: idf_weight_def Let_def)

lemma idf_total_pos: "qs \<noteq> [] \<Longrightarrow> 0 < sum_list (map (idf_weight idf) qs)"
proof (induction qs)
  case (Cons a qs)
  have "0 \<le> sum_list (map (idf_weight idf) qs)"
    by (rule sum_list_nonneg) (auto intro: less_imp_le [OF idf_weight_pos])
  then show ?case by (simp add: add_pos_nonneg idf_weight_pos)
qed simp

lemma idf_coverage_full:
  assumes "normalized_ranking_tokens q \<noteq> []"
    and "set (normalized_ranking_tokens q) \<subseteq> set (normalized_ranking_tokens c)"
  shows "idf_coverage_score q c idf = 1"
proof -
  have "filter (\<lambda>t. t \<in> set (normalized_ranking_tokens c)) (normalized_ranking_tokens q) = normalized_ranking_tokens q"
    using assms(2) by (auto simp: filter_id_conv)
  moreover have "normalized_ranking_tokens c \<noteq> []" using assms by auto
  ultimately show ?thesis
    using assms(1) idf_total_pos [OF assms(1), of idf] by (simp add: idf_coverage_score_def Let_def clamp01_def)
qed

end
