(* ===== verification/Routing.thy ===== *)
theory Routing
  imports RankText FactText Options
begin

text \<open>
  How a query is read (\<open>query_routing.go\<close>): the profile (\<open>classifyQuery\<close>), the answer type, the
  recognition of aggregation questions and of names, the plan (\<open>buildQueryPlan\<close>) and the factor a
  memory gets because it fits the plan (\<open>routeBoost\<close>). Each pattern is written next to the operation
  that uses it, with the combinators of \<open>Regex\<close>. Also here, because the profile needs it, is
  \<open>condenseSearchQuery\<close> of \<open>search_expansion.go\<close>.
\<close>

section \<open>Profiles\<close>

record query_profile =
  qp_temporal :: bool
  qp_person :: bool
  qp_multi_hop :: bool

record query_plan =
  pl_intent :: string
  pl_confidence :: real
  pl_answer_type :: string
  pl_entities :: "string list"
  pl_relations :: "string list"
  pl_time_constraints :: "string list"
  pl_required_evidence :: string
  pl_temporal :: bool
  pl_person :: bool
  pl_multi_hop :: bool
  pl_fallback_path :: "string list"

definition temporal_pattern :: regex where
  "temporal_pattern = whole ''when|what time|date|day|month|year|before|after|first|last|earlier|later|yesterday|today|tomorrow''"

definition person_pattern :: regex where
  "person_pattern = whole ''who|name|which person|whose''"

definition multi_hop_pattern :: regex where
  "multi_hop_pattern = whole ''before|after|first|last|both|either|then|and|while|followed|prior|previously''"

definition search_split_pattern :: regex where
  "search_split_pattern = fold_case (whole ''before|after|then|and|while'')"

definition search_token_stripper :: regex where
  "search_token_stripper = plus1 (Cls (\<lambda>c. \<not> (re_alpha c \<or> re_digit c \<or> c \<in> {CHR 0x27, CHR ''-'', CHR '' ''})))"

definition search_stopwords :: "string list" where
  "search_stopwords = [''a'', ''an'', ''the'', ''what'', ''when'', ''where'', ''who'', ''why'', ''how'',
     ''which'', ''whose'', ''did'', ''does'', ''do'', ''is'', ''are'', ''was'', ''were'', ''to'', ''of'',
     ''in'', ''on'', ''at'', ''for'', ''with'', ''about'', ''tell'', ''me'', ''wasn'' @ [CHR 0x27] @ ''t'',
     ''weren'' @ [CHR 0x27] @ ''t'', ''before'', ''after'', ''then'', ''and'']"

definition condense_search_query :: "string \<Rightarrow> string" where
  "condense_search_query q =
     join_with '' '' (filter (\<lambda>t. t \<notin> set search_stopwords)
       (Prelude.fields (re_replace_all search_token_stripper (to_lower (trim_space q)) '' '')))"

definition is_likely_multi_hop_query :: "string \<Rightarrow> bool" where
  "is_likely_multi_hop_query qry =
     (let q = to_lower (trim_space qry) in
      q \<noteq> [] \<and> re_match multi_hop_pattern q \<and>
      (str_contains q ''both'' \<or> str_contains q ''either'' \<or>
       2 \<le> length (filter (\<lambda>part. 2 \<le> length (Prelude.fields (condense_search_query part)))
               (re_split search_split_pattern q))))"

definition classify_query :: "string \<Rightarrow> query_profile" where
  "classify_query qry =
     (let q = to_lower (trim_space qry) in
      if q = [] then \<lparr>qp_temporal = False, qp_person = False, qp_multi_hop = False\<rparr>
      else \<lparr>qp_temporal = re_match temporal_pattern q, qp_person = re_match person_pattern q,
            qp_multi_hop = is_likely_multi_hop_query q\<rparr>)"

section \<open>Entities, relations and times of a query\<close>

text \<open>\<open>\b[A-Z][a-z]+(?:\s+[A-Z][a-z]+)?\b\<close>.\<close>

definition capital_word :: regex where
  "capital_word = Seq (Cls upper_letter) (plus1 (Cls lower_letter))"

definition entity_name_pattern :: regex where
  "entity_name_pattern = seqs [WordBnd, capital_word, opt (Seq spaces1 capital_word), WordBnd]"

definition extract_multi_hop_route_entities :: "string \<Rightarrow> string list" where
  "extract_multi_hop_route_entities qry =
     uniq (filter (\<lambda>e. e \<noteq> []) (map normalize_entity_fact_entity (re_find_all entity_name_pattern qry)))"

text \<open>\<open>(?i)\[time:[^\]]+\]|\b\d{4}\b|\b(?:jan|feb|...|dec)[a-z]*\b\<close>.\<close>

definition time_tag_pattern :: regex where
  "time_tag_pattern = fold_case (alts
     [seqs [lit ''[time:'', plus1 (Cls (\<lambda>c. c \<noteq> CHR '']'')), lit '']''],
      seqs [WordBnd, times 4 (Cls re_digit), WordBnd],
      seqs [WordBnd, bars ''jan|feb|mar|apr|may|jun|jul|aug|sep|oct|nov|dec'', Star (Cls lower_letter), WordBnd]])"

definition extract_time_hints :: "string \<Rightarrow> string list" where
  "extract_time_hints qry =
     (if trim_space qry = [] then []
      else uniq_trimmed (re_find_all time_tag_pattern (to_lower qry)))"

definition entity_hint_stopwords :: "string list" where
  "entity_hint_stopwords = [''what'', ''when'', ''where'', ''who'', ''why'', ''how'', ''which'', ''whose'',
     ''did'', ''does'', ''do'', ''is'', ''are'', ''was'', ''were'', ''the'', ''a'', ''an'']"

definition aggregation_entity_stopwords :: "string list" where
  "aggregation_entity_stopwords = [''a'', ''an'', ''the'', ''all'', ''any'', ''what'', ''which'', ''list'',
     ''show'', ''does'', ''did'', ''do'', ''activity'', ''activities'', ''event'', ''events'', ''thing'',
     ''things'', ''place'', ''places'', ''book'', ''books'', ''hobby'', ''hobbies'', ''interest'', ''interests'']"

definition aggregation_intent_pattern :: regex where
  "aggregation_intent_pattern =
     fold_case (whole ''what all|list|activities?|events?|places?|books?|hobbies?|interests?'')"

text \<open>\<open>([a-z][a-z0-9'\-]*(?:\s+[a-z][a-z0-9'\-]*){0,2})\<close>, the group that all four entity patterns share.\<close>

definition name_word :: regex where
  "name_word = Seq (Cls lower_letter)
     (Star (Cls (\<lambda>c. lower_letter c \<or> re_digit c \<or> c = CHR 0x27 \<or> c = CHR ''-'')))"

definition name_group :: regex where
  "name_group = Grp 1 (Seq name_word (upto_n 2 (Seq spaces1 name_word)))"

definition aggregation_entity_patterns :: "regex list" where
  "aggregation_entity_patterns = map fold_case
     [seqs [WordBnd, bars ''does|did'', spaces1, name_group, spaces1, lit ''do'', WordBnd],
      seqs [WordBnd, name_group, Cls (\<lambda>c. c = CHR 0x27), lit ''s'', spaces1,
        bars ''activities?|events?|hobbies?|interests?|places?|books?'', WordBnd],
      seqs [WordBnd, name_group, spaces1, bars ''attended|participated|did|does'', WordBnd],
      seqs [WordBnd, bars ''does|did|do|for|of'', spaces1, name_group, WordBnd]]"

definition normalize_aggregation_entity_candidate :: "string \<Rightarrow> string" where
  "normalize_aggregation_entity_candidate raw =
     (let ts = dropWhile (\<lambda>t. t \<in> set aggregation_entity_stopwords) (Prelude.fields (to_lower (trim_space raw)))
      in join_with '' '' (rev (dropWhile (\<lambda>t. t \<in> {''do'', ''does'', ''did''}) (rev ts))))"

definition is_likely_entity :: "string \<Rightarrow> bool" where
  "is_likely_entity entity =
     (let e = to_lower (join_with '' '' (Prelude.fields (trim_space entity))) in
      e \<noteq> [] \<and> (\<forall>t \<in> set (Prelude.fields e). t \<notin> set aggregation_entity_stopwords))"

fun first_entity :: "regex list \<Rightarrow> string \<Rightarrow> string" where
  "first_entity [] q = []"
| "first_entity (r # rs) q =
     (case re_submatch r q of
        None \<Rightarrow> first_entity rs q
      | Some cs \<Rightarrow>
          (let e = normalize_aggregation_entity_candidate (group 1 cs) in
           if is_likely_entity e then e else first_entity rs q))"

definition extract_aggregation_entity :: "string \<Rightarrow> string" where
  "extract_aggregation_entity qry = first_entity aggregation_entity_patterns qry"

definition is_explicit_aggregation_set_query :: "string \<Rightarrow> bool" where
  "is_explicit_aggregation_set_query q \<longleftrightarrow> trim_space q \<noteq> [] \<and>
     list_ex (str_contains q)
       [''what all'', ''list'', ''all activities'', ''all events'', ''all places'', ''all books'',
        ''all hobbies'', ''all interests'', ''activities does'', ''events does'', ''places does'',
        ''books does'', ''hobbies does'', ''interests does'']"

definition infer_aggregation_relation :: "string \<Rightarrow> string" where
  "infer_aggregation_relation q =
     (if list_ex (str_contains q) [''event'', ''attended'', ''participated'', ''joined''] then ''event''
      else if list_ex (str_contains q) [''book'', ''read''] then ''book''
      else if list_ex (str_contains q) [''place'', ''visited'', ''went''] then ''place''
      else if list_ex (str_contains q) [''favorite'', ''prefer'', ''likes'', ''enjoys''] then ''preference''
      else if list_ex (str_contains q) [''activit'', ''hobb'', ''interest'', ''thing'', ''done''] then ''activity''
      else [])"

text \<open>The entity and the relation of an aggregation question, if it is one.\<close>

definition classify_aggregation_query :: "string \<Rightarrow> (string \<times> string) option" where
  "classify_aggregation_query qry =
     (let q = trim_space qry; lowered = to_lower q;
          entity = extract_aggregation_entity q; relation = infer_aggregation_relation lowered in
      if q = [] \<or> \<not> re_match aggregation_intent_pattern lowered \<or>
         \<not> is_explicit_aggregation_set_query lowered \<or> entity = [] \<or> relation = [] then None
      else Some (normalize_entity_fact_entity entity, normalize_entity_fact_relation relation))"

definition classify_entity_hint_query :: "string \<Rightarrow> query_profile \<Rightarrow> string option" where
  "classify_entity_hint_query qry profile =
     (let q = trim_space qry in
      if q = [] \<or> qp_temporal profile \<or> qp_multi_hop profile \<or> classify_aggregation_query q \<noteq> None
      then None
      else find (\<lambda>m. let c = to_lower (trim_space m) in c \<noteq> [] \<and> c \<notin> set entity_hint_stopwords)
             (re_find_all entity_name_pattern q))"

section \<open>The answer type\<close>

definition boolean_query_pattern :: regex where
  "boolean_query_pattern = seqs [TextStart,
     bars ''is|are|was|were|do|does|did|can|could|would|should|has|have|had|will'', WordBnd]"

definition quote_query_pattern :: regex where
  "quote_query_pattern = whole ''quote|quoted|say|said|poster|posters|sign|signs|slogan|written|wrote|exact words?''"

definition list_query_pattern :: regex where
  "list_query_pattern = whole ''what all|list|which activities|which events|which places|which books|which hobbies|which interests''"

definition location_query_pattern :: regex where
  "location_query_pattern = whole ''where|what country|what city|what town|what state|which person|who|whose''"

definition duration_query_pattern :: regex where
  "duration_query_pattern = whole ''how long|duration|for how many|for how long''"

definition relative_temporal_pattern :: regex where
  "relative_temporal_pattern = whole ''before|after|earlier|later|last|next|yesterday|today|tomorrow|ago|week before|month before|year before''"

definition open_domain_binary_pattern :: regex where
  "open_domain_binary_pattern = whole ''would|could|likely|probably|might|consider|interested|leaning|support|value|belief''"

definition open_domain_label_pattern :: regex where
  "open_domain_label_pattern = whole ''political|leaning|religious|religion|faith|spiritual|financial status|class|personality|trait|traits''"

definition open_domain_choice_pattern :: regex where
  "open_domain_choice_pattern = whole ''or|rather than|instead of|between''"

definition classify_answer_type :: "string \<Rightarrow> query_profile \<Rightarrow> string" where
  "classify_answer_type qry profile =
     (let q = to_lower (trim_space qry) in
      if q = [] then ''single_fact''
      else if qp_temporal profile then
        (if re_match duration_query_pattern q then ''temporal_duration''
         else if re_match relative_temporal_pattern q then ''temporal_relative''
         else ''temporal_absolute'')
      else if re_match open_domain_label_pattern q then ''open_domain_label''
      else if re_match open_domain_choice_pattern q \<and> re_match open_domain_binary_pattern q
        then ''open_domain_choice''
      else if re_match boolean_query_pattern q \<and> re_match open_domain_binary_pattern q
        then ''open_domain_binary''
      else if re_match quote_query_pattern q then ''single_fact_quote''
      else if re_match list_query_pattern q then ''single_fact_list''
      else if re_match boolean_query_pattern q then ''single_fact_boolean''
      else if re_match location_query_pattern q then ''single_fact_location_or_person''
      else if re_match open_domain_binary_pattern q then ''open_domain_binary''
      else ''single_fact'')"

section \<open>The plan\<close>

definition hinted_entities :: "string \<Rightarrow> query_profile \<Rightarrow> string list" where
  "hinted_entities qry profile = (case classify_entity_hint_query qry profile of
     None \<Rightarrow> [] | Some e \<Rightarrow> [normalize_entity_fact_entity e])"

definition build_query_plan :: "string \<Rightarrow> query_profile \<Rightarrow> query_plan" where
  "build_query_plan qry profile =
     (let answer_type = classify_answer_type qry profile;
          plan = \<lparr>pl_intent = ''hybrid_vector_fallback'', pl_confidence = 55 / 100,
            pl_answer_type = answer_type, pl_entities = [], pl_relations = [],
            pl_time_constraints = extract_time_hints qry, pl_required_evidence = ''any_relevant_memory'',
            pl_temporal = qp_temporal profile, pl_person = qp_person profile,
            pl_multi_hop = qp_multi_hop profile, pl_fallback_path = []\<rparr>;
          both = [''direct_fact_lookup'', ''hybrid_vector_fallback''] in
      case classify_aggregation_query qry of
        Some (entity, relation) \<Rightarrow>
          plan\<lparr>pl_intent := ''aggregation_lookup'', pl_confidence := 88 / 100, pl_entities := [entity],
            pl_relations := [relation], pl_required_evidence := ''set_of_entity_relation_facts'',
            pl_fallback_path := both\<rparr>
      | None \<Rightarrow>
          if qp_multi_hop profile then
            plan\<lparr>pl_intent := ''graph_entity_expansion'', pl_confidence := 74 / 100,
              pl_entities := extract_multi_hop_route_entities qry,
              pl_required_evidence := ''multi_hop_supporting_facts'', pl_fallback_path := both\<rparr>
          else if qp_temporal profile then
            plan\<lparr>pl_intent := ''temporal_lookup'', pl_confidence := 72 / 100,
              pl_required_evidence := ''time_anchored_fact'', pl_fallback_path := both\<rparr>
          else if qp_person profile then
            plan\<lparr>pl_intent := ''direct_fact_lookup'', pl_confidence := 68 / 100,
              pl_required_evidence := ''entity_attribute_fact'',
              pl_entities := hinted_entities qry profile,
              pl_fallback_path := [''hybrid_vector_fallback'']\<rparr>
          else if has_prefix answer_type ''open_domain_'' then
            plan\<lparr>pl_intent := ''profile_summary_lookup'', pl_confidence := 66 / 100,
              pl_required_evidence := ''profile_summary_or_supported_facts'',
              pl_entities := hinted_entities qry profile, pl_fallback_path := both\<rparr>
          else plan\<lparr>pl_entities := hinted_entities qry profile,
                 pl_fallback_path := [''direct_fact_lookup'']\<rparr>)"

definition first_nonblank :: "string list \<Rightarrow> string" where
  "first_nonblank xs = (case filter (\<lambda>e. e \<noteq> []) (map trim_space xs) of [] \<Rightarrow> [] | e # _ \<Rightarrow> e)"

definition primary_entity :: "query_plan \<Rightarrow> string" where
  "primary_entity plan = first_nonblank (pl_entities plan)"

definition primary_relation :: "query_plan \<Rightarrow> string" where
  "primary_relation plan = first_nonblank (pl_relations plan)"

section \<open>The boost of a memory\<close>

definition temporal_metadata :: "answer_metadata \<Rightarrow> bool" where
  "temporal_metadata a \<longleftrightarrow> trim_space (am_temporal_anchor a) \<noteq> [] \<or>
     trim_space (am_relative_time_phrase a) \<noteq> [] \<or> trim_space (am_resolved_time_start a) \<noteq> []"

definition temporal_types :: "string list" where
  "temporal_types = [''temporal_absolute'', ''temporal_relative'', ''temporal_duration'']"

definition open_domain_types :: "string list" where
  "open_domain_types = [''open_domain_binary'', ''open_domain_choice'', ''open_domain_label'']"

definition profile_boost :: "memory \<Rightarrow> query_profile \<Rightarrow> real" where
  "profile_boost m profile =
     (if qp_temporal profile
      then (case m_kind m of KindEvent \<Rightarrow> 125 / 100 | KindObservation \<Rightarrow> 115 / 100
              | KindSummary \<Rightarrow> 105 / 100 | KindRawTurn \<Rightarrow> 95 / 100 | KindOther _ \<Rightarrow> 1) *
           (if re_match time_tag_pattern (to_lower (m_content m)) then 105 / 100 else 1)
      else 1) *
     (if qp_person profile
      then (case m_kind m of KindObservation \<Rightarrow> 110 / 100 | KindSummary \<Rightarrow> 105 / 100 | _ \<Rightarrow> 1) *
           (if str_contains (m_content m) '':'' then 103 / 100 else 1)
      else 1) *
     (if qp_multi_hop profile
      then (case m_kind m of KindSummary \<Rightarrow> 108 / 100 | KindEvent \<Rightarrow> 108 / 100 | _ \<Rightarrow> 1) *
           (if str_contains (to_lower (m_content m)) ''[dialog:'' then 102 / 100 else 1)
      else 1)"

definition answer_type_boost :: "memory \<Rightarrow> string \<Rightarrow> retrieval_options \<Rightarrow> real" where
  "answer_type_boost m t behavior =
     (if t = ''single_fact_boolean'' \<or> t = ''single_fact_quote'' then
        (case m_kind m of KindRawTurn \<Rightarrow> 115 / 100 | KindEvent \<Rightarrow> 112 / 100 | KindSummary \<Rightarrow> 93 / 100 | _ \<Rightarrow> 1)
      else if t = ''single_fact_list'' then
        (case m_kind m of KindSummary \<Rightarrow> 114 / 100 | KindObservation \<Rightarrow> 110 / 100
           | KindEvent \<Rightarrow> 106 / 100 | KindRawTurn \<Rightarrow> 92 / 100 | _ \<Rightarrow> 1)
      else if t = ''single_fact_location_or_person'' then
        (case m_kind m of KindObservation \<Rightarrow> 114 / 100 | KindEvent \<Rightarrow> 109 / 100
           | KindSummary \<Rightarrow> 95 / 100 | KindRawTurn \<Rightarrow> 94 / 100 | _ \<Rightarrow> 1)
      else if t \<in> set temporal_types then
        (case m_kind m of KindEvent \<Rightarrow> 115 / 100 | KindRawTurn \<Rightarrow> 108 / 100 | KindSummary \<Rightarrow> 94 / 100 | _ \<Rightarrow> 1) *
        (if temporal_metadata (m_answer_metadata m) then 108 / 100 else 1)
      else if t \<in> set open_domain_types then
        (case m_kind m of KindSummary \<Rightarrow> 118 / 100 | KindObservation \<Rightarrow> 106 / 100
           | KindRawTurn \<Rightarrow> 94 / 100 | _ \<Rightarrow> 1) *
        (if ro_profile_support_links behavior \<and> am_support_lines (m_answer_metadata m) \<noteq> []
         then 105 / 100 else 1)
      else 1)"

definition answer_kind_boost :: "memory \<Rightarrow> string \<Rightarrow> real" where
  "answer_kind_boost m t =
     (let kind = trim_space (am_answer_kind (m_answer_metadata m)) in
      if t = ''single_fact_quote'' then (if kind = ''quote'' then 112 / 100 else 1)
      else if t = ''single_fact_boolean'' then (if kind = ''boolean'' then 110 / 100 else 1)
      else if t = ''single_fact_location_or_person'' then (if kind = ''entity'' then 108 / 100 else 1)
      else if t \<in> set open_domain_types then
        (if am_support_lines (m_answer_metadata m) \<noteq> [] \<or> am_support_memory_ids (m_answer_metadata m) \<noteq> []
         then 104 / 100 else 1)
      else 1)"

definition route_boost :: "memory \<Rightarrow> query_profile \<Rightarrow> query_plan \<Rightarrow> retrieval_options \<Rightarrow> real" where
  "route_boost m profile plan behavior =
     (let boost = profile_boost m profile *
            (if ro_answer_type_routing behavior then answer_type_boost m (pl_answer_type plan) behavior else 1) *
            answer_kind_boost m (pl_answer_type plan) in
      if boost < 8 / 10 then 8 / 10 else if boost > 135 / 100 then 135 / 100 else boost)"

definition normalized_route_boost :: "real \<Rightarrow> real" where
  "normalized_route_boost v = clamp01 ((v - 8 / 10) / (135 / 100 - 8 / 10))"

section \<open>Laws\<close>

lemma normalize_entity_idem [simp]:
  "normalize_entity_fact_entity (normalize_entity_fact_entity e) = normalize_entity_fact_entity e"
  by (simp add: normalize_entity_fact_entity_def str_norm)

text \<open>A query is read by its trimmed text in lower case.\<close>

lemma classify_query_case: "classify_query (to_lower (trim_space q)) = classify_query q"
  by (simp add: classify_query_def Let_def str_norm)

lemma classify_answer_type_case: "classify_answer_type (to_lower (trim_space q)) p = classify_answer_type q p"
  by (simp add: classify_answer_type_def Let_def str_norm)

definition answer_types :: "string list" where
  "answer_types = [''single_fact'', ''single_fact_quote'', ''single_fact_list'', ''single_fact_boolean'',
     ''single_fact_location_or_person''] @ temporal_types @ open_domain_types"

lemma answer_type_cases: "classify_answer_type q p \<in> set answer_types"
  by (simp add: classify_answer_type_def answer_types_def temporal_types_def open_domain_types_def Let_def)

lemma answer_type_temporal:
  "qp_temporal p \<Longrightarrow> to_lower (trim_space q) \<noteq> [] \<Longrightarrow> classify_answer_type q p \<in> set temporal_types"
  by (simp add: classify_answer_type_def temporal_types_def Let_def)

lemma first_entity_likely: "first_entity rs q = [] \<or> is_likely_entity (first_entity rs q)"
  by (induction rs) (auto simp: Let_def split: option.splits)

lemma likely_entity_normal: "is_likely_entity e \<Longrightarrow> normalize_entity_fact_entity e \<noteq> []"
  by (simp add: is_likely_entity_def normalize_entity_fact_entity_def collapse_def Let_def)

lemma inferred_relation: "infer_aggregation_relation q \<noteq> [] \<Longrightarrow> infer_aggregation_relation q \<in> set canonical_relations"
  unfolding infer_aggregation_relation_def canonical_relations_def
  by (simp only: split: if_splits) simp_all

lemma aggregation_parts:
  assumes "classify_aggregation_query q = Some (e, r)"
  shows "e \<noteq> [] \<and> normalize_entity_fact_entity e = e \<and> r \<in> set canonical_relations"
proof -
  let ?t = "trim_space q"
  have "extract_aggregation_entity ?t \<noteq> []" "infer_aggregation_relation (to_lower ?t) \<noteq> []"
    and e: "e = normalize_entity_fact_entity (extract_aggregation_entity ?t)"
    and r: "r = normalize_entity_fact_relation (infer_aggregation_relation (to_lower ?t))"
    using assms by (simp_all add: classify_aggregation_query_def Let_def split: if_splits)
  then show ?thesis
    using first_entity_likely [of aggregation_entity_patterns ?t] inferred_relation canonical_normalized
    by (simp add: extract_aggregation_entity_def likely_entity_normal)
qed

definition plan_ok :: "query_plan \<Rightarrow> bool" where
  "plan_ok pl \<longleftrightarrow> 55 / 100 \<le> pl_confidence pl \<and> pl_confidence pl \<le> 88 / 100 \<and>
     pl_answer_type pl \<in> set answer_types \<and>
     distinct (pl_time_constraints pl) \<and> (\<forall>t \<in> set (pl_time_constraints pl). t \<noteq> [] \<and> trim_space t = t) \<and>
     distinct (pl_entities pl) \<and> (\<forall>e \<in> set (pl_entities pl). normalize_entity_fact_entity e = e) \<and>
     set (pl_relations pl) \<subseteq> set canonical_relations \<and>
     (pl_intent pl = ''aggregation_lookup'' \<longleftrightarrow> pl_relations pl \<noteq> []) \<and>
     (pl_intent pl = ''aggregation_lookup'' \<longrightarrow> length (pl_entities pl) = 1 \<and> length (pl_relations pl) = 1 \<and>
        [] \<notin> set (pl_entities pl)) \<and>
     pl_fallback_path pl \<noteq> []"

lemma time_hints_ok:
  "distinct (extract_time_hints q) \<and> (\<forall>t \<in> set (extract_time_hints q). t \<noteq> [] \<and> trim_space t = t)"
  by (auto simp: extract_time_hints_def set_uniq_trimmed)

lemma hinted_ok:
  "distinct (hinted_entities q p) \<and> (\<forall>e \<in> set (hinted_entities q p). normalize_entity_fact_entity e = e)"
  by (auto simp: hinted_entities_def split: option.splits)

lemma route_entities_ok:
  "distinct (extract_multi_hop_route_entities q) \<and>
   (\<forall>e \<in> set (extract_multi_hop_route_entities q). normalize_entity_fact_entity e = e \<and> e \<noteq> [])"
  by (auto simp: extract_multi_hop_route_entities_def)

text \<open>C30 Every plan is well formed: its confidence is between 0.55 and 0.88, its answer type is one of
  the eleven that the ranking knows, its time constraints and entities are distinct and in normal form,
  its relations are canonical, there is a fallback path, and the plan is an aggregation lookup exactly
  if it names a relation, in which case it names exactly one non-empty entity and one relation.\<close>

theorem plan_well_formed: "plan_ok (build_query_plan qry profile)"
proof (cases "classify_aggregation_query qry")
  case None
  then show ?thesis
    using answer_type_cases [of qry profile] time_hints_ok [of qry] hinted_ok [of qry profile] route_entities_ok [of qry]
    by (simp add: build_query_plan_def plan_ok_def Let_def)
next
  case (Some er)
  obtain e r where er: "er = (e, r)" by (cases er)
  show ?thesis
    using aggregation_parts [OF Some [unfolded er]] answer_type_cases [of qry profile] time_hints_ok [of qry]
    by (auto simp: Some er build_query_plan_def plan_ok_def Let_def)
qed

lemma route_boost_range: "8 / 10 \<le> route_boost m p pl b \<and> route_boost m p pl b \<le> 135 / 100"
  by (simp add: route_boost_def Let_def)

lemma normalized_route_boost_unit [simp]: "unit_score (normalized_route_boost v)"
  by (simp add: normalized_route_boost_def)

lemma normalized_route_boost_exact:
  "8 / 10 \<le> v \<Longrightarrow> v \<le> 135 / 100 \<Longrightarrow> normalized_route_boost v = (v - 8 / 10) * 20 / 11"
  by (simp add: normalized_route_boost_def clamp01_def field_simps)

lemma temporal_boost_order:
  assumes "qp_temporal p" "pl_answer_type pl \<in> set temporal_types"
  shows "route_boost (m\<lparr>m_kind := KindRawTurn\<rparr>) p pl b \<le> route_boost (m\<lparr>m_kind := KindEvent\<rparr>) p pl b"
proof -
  let ?raw = "m\<lparr>m_kind := KindRawTurn\<rparr>" and ?ev = "m\<lparr>m_kind := KindEvent\<rparr>"
  have t: "pl_answer_type pl \<notin> {''single_fact_boolean'', ''single_fact_quote'', ''single_fact_list'',
      ''single_fact_location_or_person''}" "pl_answer_type pl \<notin> set open_domain_types"
    using assms(2) by (auto simp: temporal_types_def open_domain_types_def)
  have 1: "0 \<le> profile_boost ?raw p \<and> profile_boost ?raw p \<le> profile_boost ?ev p"
    using assms(1) by (simp add: profile_boost_def)
  have 2: "0 \<le> answer_type_boost ?raw (pl_answer_type pl) b \<and>
      answer_type_boost ?raw (pl_answer_type pl) b \<le> answer_type_boost ?ev (pl_answer_type pl) b"
    using assms(2) t by (simp add: answer_type_boost_def)
  have 3: "answer_kind_boost ?raw t = answer_kind_boost ?ev t" "0 \<le> answer_kind_boost ?ev t" for t
    by (simp_all add: answer_kind_boost_def Let_def)
  have "profile_boost ?raw p * (if c then answer_type_boost ?raw (pl_answer_type pl) b else 1) * answer_kind_boost ?raw t
      \<le> profile_boost ?ev p * (if c then answer_type_boost ?ev (pl_answer_type pl) b else 1) * answer_kind_boost ?ev t" for c t
    using 1 2 3 by (cases c) (simp_all add: mult_mono mult_right_mono)
  moreover have "(if x < 8 / 10 then 8 / 10 else if x > 135 / 100 then 135 / 100 else x)
      \<le> (if y < 8 / 10 then 8 / 10 else if y > 135 / 100 then 135 / 100 else y)" if "x \<le> y" for x y :: real
    using that by simp
  ultimately show ?thesis unfolding route_boost_def Let_def by blast
qed

text \<open>The route boost of a memory is a factor between 0.8 and 1.35, which the normalisation maps
  linearly to the unit interval; and a memory of kind event is never boosted less than the same memory
  kept as a raw turn when the query asks for a time.\<close>

theorem route_boost_bounds:
  "8 / 10 \<le> route_boost m (classify_query qry) (build_query_plan qry (classify_query qry)) b \<and>
   route_boost m (classify_query qry) (build_query_plan qry (classify_query qry)) b \<le> 135 / 100 \<and>
   normalized_route_boost (route_boost m p pl b) = (route_boost m p pl b - 8 / 10) * 20 / 11 \<and>
   (qp_temporal (classify_query qry) \<longrightarrow>
      route_boost (m\<lparr>m_kind := KindRawTurn\<rparr>) (classify_query qry) (build_query_plan qry (classify_query qry)) b
      \<le> route_boost (m\<lparr>m_kind := KindEvent\<rparr>) (classify_query qry) (build_query_plan qry (classify_query qry)) b)"
proof -
  let ?p = "classify_query qry" and ?pl = "build_query_plan qry (classify_query qry)"
  have type: "pl_answer_type ?pl = classify_answer_type qry ?p"
    by (simp add: build_query_plan_def Let_def split: option.splits)
  have "to_lower (trim_space qry) \<noteq> []" if "qp_temporal ?p"
    using that by (auto simp: classify_query_def Let_def split: if_splits)
  then have "qp_temporal ?p \<longrightarrow> pl_answer_type ?pl \<in> set temporal_types"
    unfolding type using answer_type_temporal by blast
  then show ?thesis
    using route_boost_range normalized_route_boost_exact [of "route_boost m p pl b"] temporal_boost_order by blast
qed

theorem route_boost_bounds_witness:
  "route_boost (zero_memory\<lparr>m_kind := KindRawTurn\<rparr>) (classify_query ''when'')
     (build_query_plan ''when'' (classify_query ''when'')) default_retrieval_options
   \<le> route_boost (zero_memory\<lparr>m_kind := KindEvent\<rparr>) (classify_query ''when'')
     (build_query_plan ''when'' (classify_query ''when'')) default_retrieval_options"
proof -
  have "qp_temporal (classify_query ''when'')" by code_simp
  then show ?thesis
    using route_boost_bounds [of zero_memory "''when''" default_retrieval_options] by blast
qed

end
