(* ===== verification/FactWords.thy ===== *)
theory FactWords
  imports Routing FactPrep
begin

text \<open>
  The heuristics of \<open>entity_facts.go\<close> that read an entity, a relation and a value out of the text of
  a fact (\<open>inferEntityRelationValue\<close> and what it calls), with their patterns, and the
  searches of Go's \<open>strings\<close> they need.
\<close>

section \<open>strings\<close>

text \<open>\<open>strings.Index\<close> and \<open>strings.LastIndex\<close>, \<open>None\<close> for \<open>-1\<close>.\<close>

fun index_of :: "string \<Rightarrow> string \<Rightarrow> nat option" where
  "index_of [] sub = (if sub = [] then Some 0 else None)"
| "index_of (c # s) sub =
     (if has_prefix (c # s) sub then Some 0
      else (case index_of s sub of None \<Rightarrow> None | Some i \<Rightarrow> Some (Suc i)))"

fun last_index_of :: "string \<Rightarrow> string \<Rightarrow> nat option" where
  "last_index_of [] sub = (if sub = [] then Some 0 else None)"
| "last_index_of (c # s) sub =
     (case last_index_of s sub of Some i \<Rightarrow> Some (Suc i)
      | None \<Rightarrow> if has_prefix (c # s) sub then Some 0 else None)"

definition has_suffix :: "string \<Rightarrow> string \<Rightarrow> bool" where
  "has_suffix s p \<longleftrightarrow> has_prefix (rev s) (rev p)"

section \<open>Patterns\<close>

text \<open>\<open>(?i)^on\s+[^,]{3,80},\s*\<close>.\<close>

definition not_comma :: regex where
  "not_comma = Cls (\<lambda>c. c \<noteq> CHR '','')"

definition fact_leading_date_pattern :: regex where
  "fact_leading_date_pattern = fold_case (seqs [TextStart, lit ''on'', spaces1,
     seqs [times 3 not_comma, upto_n 77 not_comma], lit '','', spaces0])"

text \<open>\<open>^([A-Z][A-Za-z0-9'\-]*(?:\s+[A-Z][A-Za-z0-9'\-]*){0,2})\b\<close>.\<close>

definition cap_name :: regex where
  "cap_name = Seq (Cls upper_letter)
     (Star (Cls (\<lambda>c. re_alpha c \<or> re_digit c \<or> c = CHR 0x27 \<or> c = CHR ''-'')))"

definition fact_entity_prefix_pattern :: regex where
  "fact_entity_prefix_pattern =
     seqs [TextStart, Grp 1 (Seq cap_name (upto_n 2 (Seq spaces1 cap_name))), WordBnd]"

definition fact_first_person_pattern :: regex where
  "fact_first_person_pattern = fold_case (seqs [TextStart,
     bars ''i|i'm|i am|i've|i have|i'd|i will|i'll|my|mine'', WordBnd])"

text \<open>\<open>(?i)\b(?:...)\s+([^.,;]+)\<close>, the form of the value patterns.\<close>

definition value_group :: regex where
  "value_group = Grp 1 (plus1 (Cls (\<lambda>c. c \<notin> {CHR ''.'', CHR '','', CHR '';''})))"

definition value_pattern :: "regex \<Rightarrow> regex" where
  "value_pattern verbs = fold_case (seqs [WordBnd, verbs, spaces1, value_group])"

definition fact_activity_value_pattern :: regex where
  "fact_activity_value_pattern = value_pattern (alts
     [bars ''enjoys?|likes?|loves?|practices?|plays?|uses?|using|does|doing|did|interested in'',
      seqs [lit ''hobbies?'', spaces1, lit ''include''], bars ''chooses?|prefers?''])"

definition fact_event_value_pattern :: regex where
  "fact_event_value_pattern = value_pattern (bars ''attended|participated in|joined|went to|visited'')"

definition fact_book_value_pattern :: regex where
  "fact_book_value_pattern = value_pattern (alts [Seq (lit ''read'') (opt (lit ''ing'')), bars ''reads?|books?''])"

definition fact_place_value_pattern :: regex where
  "fact_place_value_pattern = value_pattern (bars ''lives? in|moved to|went to|visited'')"

definition fact_plan_value_pattern :: regex where
  "fact_plan_value_pattern = value_pattern (bars ''plans? to|planning to|going to|will'')"

definition fact_relationship_pattern :: regex where
  "fact_relationship_pattern = fold_case (whole
     ''husband|wife|partner|boyfriend|girlfriend|spouse|friend|friends|mentor|mentors|parent|mother|father|son|daughter|child|children|kids?'')"

definition fact_status_pattern :: regex where
  "fact_status_pattern = fold_case (whole
     ''single|married|divorced|engaged|dating|widowed|separated|in a relationship'')"

definition fact_preference_pattern :: regex where
  "fact_preference_pattern = fold_case (whole ''favorite|prefers?|likes?|loves?|enjoys?'')"

definition fact_belief_pattern :: regex where
  "fact_belief_pattern = fold_case (whole
     ''believes?|believed|thinks?|thought|values?|valued|cares? about|stands? for'')"

definition fact_trait_pattern :: regex where
  "fact_trait_pattern = fold_case (whole
     ''personality|trait|traits|tendency|tendencies|character|characteristic|known for'')"

definition fact_leading_verb_pattern :: regex where
  "fact_leading_verb_pattern = fold_case (seqs [TextStart,
     bars ''is|was|attended|participated in|joined|went to|visited|likes?|loves?|enjoys?|practices?|plays?|uses?|using|does|chooses?|prefers?'',
     spaces1])"

definition fact_value_stop_pattern :: regex where
  "fact_value_stop_pattern = fold_case (seqs [WordBnd,
     alts [bars ''because|since|while|although|but'',
           seqs [lit ''and'', spaces1, bars ''it|that|this'', WordBnd]], WordBnd])"

definition identity_value_pattern :: regex where
  "identity_value_pattern = fold_case (seqs [WordBnd,
     alts [bars ''gay|lesbian|bisexual|queer|asexual|straight|heterosexual|non-binary'',
           Seq (lit ''transgender'') (opt (Seq spaces1 (bars ''man|woman''))),
           bars ''genderqueer|genderfluid|agender|intersex''], WordBnd])"

definition role_value_pattern :: regex where
  "role_value_pattern = fold_case (whole
     ''teacher|student|engineer|developer|designer|doctor|nurse|lawyer|manager|writer|artist|researcher|photographer|chef|therapist|architect|consultant|analyst|accountant|counselor'')"

section \<open>Entity, relation and value of a fact\<close>

definition infer_entity_from_fact :: "string \<Rightarrow> string" where
  "infer_entity_from_fact content =
     (let candidate = re_replace_all fact_leading_date_pattern (trim_space content) [] in
      if re_match fact_first_person_pattern candidate then ''user''
      else case re_submatch fact_entity_prefix_pattern candidate of
             None \<Rightarrow> [] | Some cs \<Rightarrow> collapse (group 1 cs))"

definition infer_relation_from_fact :: "string \<Rightarrow> memory_kind \<Rightarrow> string" where
  "infer_relation_from_fact content kind =
     (let l = to_lower content; has = list_ex (str_contains l) in
      if kind = KindEvent then ''event''
      else if has [''attended'', ''participated'', ''joined'', ''event''] then ''event''
      else if has [''book'', ''read''] then ''book''
      else if has [''place'', ''lives in'', ''moved to'', ''visited''] then ''place''
      else if re_match fact_status_pattern l then ''relationship status''
      else if re_match fact_relationship_pattern l then ''relationship''
      else if has [''plan to'', ''planning to'', ''going to'', '' will ''] then ''plan''
      else if has [''goal'', ''dream'', ''aim'', ''aspire''] then ''goal''
      else if re_match fact_preference_pattern l then ''preference''
      else if re_match fact_belief_pattern l then ''belief''
      else if re_match fact_trait_pattern l then ''trait''
      else if re_match identity_value_pattern l then ''identity''
      else if has [''works as'', ''job''] \<or> re_match role_value_pattern l then ''role''
      else if has [''activit'', ''hobb'', ''interest''] then ''activity''
      else if has [''enjoy'', ''like '', ''likes '', ''love '', ''practice'', ''play '', ''choose '', ''chooses '',
                   ''prefer '', ''use '', ''uses '', ''using ''] then ''activity''
      else [])"

definition cleanup_entity_fact_value :: "string \<Rightarrow> string" where
  "cleanup_entity_fact_value v =
     (let v0 = collapse v in
      if v0 = [] then []
      else let v1 = (case re_find fact_value_stop_pattern None v0 of
                 None \<Rightarrow> v0 | Some (i, _, _) \<Rightarrow> trim_space (take i v0));
               v2 = trim_chars dedupe_cut v1;
               v3 = (if has_prefix (to_lower v2) ''to '' \<and> 3 < length v2 then trim_space (drop 3 v2) else v2);
               v4 = (if has_prefix (to_lower v3) ''the '' \<and> 4 < length v3 then trim_space (drop 4 v3) else v3) in
           collapse v4)"

definition value_selector :: "string \<Rightarrow> regex" where
  "value_selector relation =
     (if relation = ''event'' then fact_event_value_pattern
      else if relation = ''book'' then fact_book_value_pattern
      else if relation = ''place'' then fact_place_value_pattern
      else if relation = ''plan'' then fact_plan_value_pattern
      else fact_activity_value_pattern)"

definition infer_value_from_fact :: "string \<Rightarrow> string \<Rightarrow> string \<Rightarrow> string" where
  "infer_value_from_fact content relation entity =
     (case re_submatch (value_selector relation) content of
        Some cs \<Rightarrow> cleanup_entity_fact_value (group 1 cs)
      | None \<Rightarrow>
          (let v = trim_space content;
               v1 = (if entity \<noteq> [] \<and> has_prefix (to_lower v) (to_lower entity @ '' '')
                     then trim_space (drop (length entity) v) else v) in
           cleanup_entity_fact_value (re_replace_all fact_leading_verb_pattern v1 [])))"

definition infer_entity_relation_value :: "string \<Rightarrow> memory_kind \<Rightarrow> string \<times> string \<times> string" where
  "infer_entity_relation_value content kind =
     (let c = collapse content;
          entity = infer_entity_from_fact c;
          relation = infer_relation_from_fact c kind;
          v = infer_value_from_fact c relation entity in
      if c = [] \<or> entity = [] \<or> relation = [] \<or> v = [] then ([], [], []) else (entity, relation, v))"

section \<open>Laws\<close>

lemma inferred_relation_canonical:
  "infer_relation_from_fact c k = [] \<or> infer_relation_from_fact c k \<in> set canonical_relations"
proof -
  have both: "x \<in> A \<Longrightarrow> y \<in> A \<Longrightarrow> (if b then x else y) \<in> A" for x y :: string and A b by simp
  have "infer_relation_from_fact c k \<in> set ([] # canonical_relations)"
    unfolding infer_relation_from_fact_def Let_def by (intro both) (simp_all add: canonical_relations_def)
  then show ?thesis by simp
qed

lemma inferred_entity_tidy: "collapse (infer_entity_from_fact c) = infer_entity_from_fact c"
proof -
  have "collapse ''user'' = ''user''" by code_simp
  moreover have "collapse [] = []" by (simp add: collapse_def)
  ultimately show ?thesis
    by (simp add: infer_entity_from_fact_def Let_def collapse_idem split: option.splits)
qed

lemma cleaned_value_tidy: "collapse (cleanup_entity_fact_value v) = cleanup_entity_fact_value v"
proof -
  have "collapse [] = []" by (simp add: collapse_def)
  then show ?thesis by (simp add: cleanup_entity_fact_value_def Let_def)
qed

text \<open>What the heuristics read out of a text is all or nothing: either nothing at all, or an
  entity, a relation of the canonical list and a value, none of them empty, with the white space of the
  entity and of the value normalised, so that the triple is one \<open>buildEntityFactRecord\<close> accepts.\<close>

theorem inferred_triple_complete:
  "infer_entity_relation_value c k = ([], [], []) \<or>
   (case infer_entity_relation_value c k of (e, r, v) \<Rightarrow>
      e \<noteq> [] \<and> collapse e = e \<and> r \<in> set canonical_relations \<and> v \<noteq> [] \<and> collapse v = v \<and>
      (k = KindEvent \<longrightarrow> r = ''event''))"
proof -
  let ?c = "collapse c" and ?e = "infer_entity_from_fact (collapse c)" and ?r = "infer_relation_from_fact (collapse c) k"
  have v: "collapse (infer_value_from_fact a b d) = infer_value_from_fact a b d" for a b d
    by (simp add: infer_value_from_fact_def Let_def cleaned_value_tidy split: option.splits)
  have r: "k = KindEvent \<longrightarrow> ?r = ''event''" by (simp add: infer_relation_from_fact_def Let_def)
  show ?thesis
    using inferred_relation_canonical [of ?c k] inferred_entity_tidy [of ?c] v r
    by (auto simp: infer_entity_relation_value_def Let_def)
qed

theorem inferred_triple_complete_witness:
  "infer_entity_relation_value ''Alice joined the chess club because of Bob'' KindObservation
     = (''Alice'', ''event'', ''chess club'') \<and>
   (case infer_entity_relation_value ''Alice joined the chess club because of Bob'' KindObservation of
      (e, r, v) \<Rightarrow> r \<in> set canonical_relations)"
proof -
  have "infer_entity_relation_value ''Alice joined the chess club because of Bob'' KindObservation
     = (''Alice'', ''event'', ''chess club'')" by code_simp
  then show ?thesis
    using inferred_triple_complete [of "''Alice joined the chess club because of Bob''" KindObservation] by auto
qed

end
