(* ===== verification/TurnText.thy ===== *)
theory TurnText
  imports FactWords
begin

text \<open>
  Turns of a conversation (\<open>structured_observations.go\<close>): tags, speakers and times of an annotated
  turn, the observations and events derived from it, the rewriting of what a speaker says into a
  statement about the speaker, and \<open>normalizeTurnTimeAnchor\<close> with the part of \<open>time.Parse\<close> that its
  layouts use. Also \<open>isInformativeFact\<close> of \<open>info_parser_heuristic.go\<close>, which decides whether a
  text is worth keeping.
\<close>

section \<open>Informative texts\<close>

definition low_signal_fact_pattern :: regex where
  "low_signal_fact_pattern = fold_case (seqs [TextStart,
     bars ''hi|hello|hey|thanks|thank you|ok|okay|cool|great|nice|wow|got it|sure|sounds good|no problem'',
     opt (Cls (\<lambda>c. c = CHR ''.'' \<or> c = CHR ''!'')), TextEnd])"

definition question_like_fact_pattern :: regex where
  "question_like_fact_pattern = fold_case (seqs [TextStart,
     bars ''what|who|when|where|why|how|which|whose|did|does|do|is|are|was|were|can|could|would|should|have|has|had|will'',
     WordBnd])"

text \<open>\<open>.*\<close>: anything but a newline.\<close>

definition any_text :: regex where
  "any_text = Star (Cls (\<lambda>c. c \<noteq> newline))"

definition short_chatter_fact_pattern :: regex where
  "short_chatter_fact_pattern = fold_case (seqs [TextStart,
     alts [bars ''phew|wow|woah|whoa|awesome|amazing|lovely|beautiful|gorgeous|super stoked|so excited|really appreciate it|appreciate it|love it|glad you agree|totally agree|absolutely'',
           seqs [lit ''yeah,?'', opt (bars '' definitely| that's true| for sure'')],
           seqs [lit ''wow,? great pic'', any_text], seqs [lit ''thank goodness'', any_text]],
     TextEnd])"

definition digits1 :: regex where
  "digits1 = plus1 (Cls re_digit)"

text \<open>\<open>\d{a,b}\<close>.\<close>

definition digits_between :: "nat \<Rightarrow> nat \<Rightarrow> regex" where
  "digits_between a b = Seq (times a (Cls re_digit)) (upto_n (b - a) (Cls re_digit))"

definition short_numeric_pattern :: regex where
  "short_numeric_pattern = fold_case (seqs [TextStart, digits1, opt (Seq (lit ''.'') digits1),
     opt (bars ''%|k|m|bn''), TextEnd])"

definition short_duration_pattern :: regex where
  "short_duration_pattern = fold_case (seqs [TextStart, digits1, spaces0, bars ''year|month|week|day|hour'',
     opt (lit ''s''), TextEnd])"

definition slash_or_dash :: regex where
  "slash_or_dash = Cls (\<lambda>c. c = CHR ''/'' \<or> c = CHR ''-'')"

definition short_date_fragment_pattern :: regex where
  "short_date_fragment_pattern = fold_case (alts
     [seqs [TextStart, bars ''jan|feb|mar|apr|may|jun|jul|aug|sep|sept|oct|nov|dec'', Star (Cls lower_letter),
        opt (lit ''.''), spaces0, opt (seqs [digits_between 1 2, opt (lit '',''), spaces0]),
        opt (digits_between 2 4), TextEnd],
      seqs [TextStart, digits_between 1 2, slash_or_dash, digits_between 2 4,
        opt (Seq slash_or_dash (digits_between 2 4)), TextEnd]])"

definition short_status_pattern :: regex where
  "short_status_pattern = fold_case (seqs [TextStart,
     bars ''single|married|divorced|widowed|engaged|retired|deceased'', TextEnd])"

definition short_identity_gender_pattern :: regex where
  "short_identity_gender_pattern = fold_case (seqs [TextStart,
     alts [lit ''non-binary'', Seq (lit ''transgender'') (opt (Seq spaces0 (bars ''man|woman''))),
           bars ''cisgender|genderqueer|genderfluid|agender|intersex''], TextEnd])"

definition short_identity_orientation_pattern :: regex where
  "short_identity_orientation_pattern = fold_case (seqs [TextStart,
     bars ''gay|lesbian|bisexual|queer|asexual|heterosexual|straight'', TextEnd])"

definition short_role_gazetteer :: "string list" where
  "short_role_gazetteer = [''accountant'', ''analyst'', ''architect'', ''artist'', ''chef'', ''consultant'',
     ''counselor'', ''designer'', ''developer'', ''doctor'', ''engineer'', ''lawyer'', ''manager'', ''nurse'',
     ''photographer'', ''researcher'', ''student'', ''teacher'', ''therapist'', ''writer'']"

definition is_high_signal_short_fact :: "string \<Rightarrow> bool" where
  "is_high_signal_short_fact text =
     (let t = to_lower (trim_space text) in
      t \<noteq> [] \<and>
      (re_match short_numeric_pattern t \<or> re_match short_duration_pattern t \<or>
       re_match short_date_fragment_pattern t \<or> re_match short_status_pattern t \<or>
       re_match short_identity_gender_pattern t \<or> re_match short_identity_orientation_pattern t \<or>
       t \<in> set short_role_gazetteer))"

definition is_informative_fact :: "string \<Rightarrow> bool" where
  "is_informative_fact text =
     (let t = trim_space text; n = to_lower t; toks = Prelude.fields n in
      if t = [] \<or> re_match low_signal_fact_pattern t then False
      else if has_suffix n ''?'' \<or> re_match question_like_fact_pattern n then False
      else if length toks \<le> 6 \<and> re_match short_chatter_fact_pattern n then False
      else 3 \<le> length toks \<or> is_high_signal_short_fact n)"

section \<open>Turns\<close>

record parsed_turn =
  pt_time :: string
  pt_speaker_a :: string
  pt_speaker_b :: string
  pt_speaker :: string
  pt_utterance :: string

definition no_turn :: parsed_turn where
  "no_turn = \<lparr>pt_time = [], pt_speaker_a = [], pt_speaker_b = [], pt_speaker = [], pt_utterance = []\<rparr>"

text \<open>\<open>\[(\w+):([^\]]+)\]\<close>.\<close>

definition turn_tag_pattern :: regex where
  "turn_tag_pattern = seqs [lit ''['', Grp 1 (plus1 (Cls word_char)), lit '':'',
     Grp 2 (plus1 (Cls (\<lambda>c. c \<noteq> CHR '']''))), lit '']'']"

definition speaker_name :: regex where
  "speaker_name = Seq (Cls re_alpha) (upto_n 80 (Cls speaker_char))"

definition turn_speaker_line_regex :: regex where
  "turn_speaker_line_regex = seqs [TextStart, spaces0, Grp 1 speaker_name, lit '':'', spaces0,
     Grp 2 (plus1 (Cls (\<lambda>c. c \<noteq> newline))), spaces0, TextEnd]"

definition turn_speaker_only_regex :: regex where
  "turn_speaker_only_regex = seqs [TextStart, speaker_name, TextEnd]"

definition note_tag :: "captures \<Rightarrow> parsed_turn \<Rightarrow> parsed_turn" where
  "note_tag cs turn =
     (let key = to_lower (trim_space (group 1 cs)); val = trim_space (group 2 cs) in
      if key = ''time'' then turn\<lparr>pt_time := val\<rparr>
      else if key = ''speaker_a'' then turn\<lparr>pt_speaker_a := val\<rparr>
      else if key = ''speaker_b'' then turn\<lparr>pt_speaker_b := val\<rparr>
      else turn)"

definition parse_annotated_turn :: "string \<Rightarrow> parsed_turn option" where
  "parse_annotated_turn content =
     (let tags = re_find_all_sub turn_tag_pattern content;
          turn = fold note_tag tags no_turn;
          rest = collapse (re_replace_all turn_tag_pattern content []) in
      if tags = [] \<or> rest = [] then None
      else case re_submatch turn_speaker_line_regex rest of
          Some cs \<Rightarrow>
            (let utterance = trim_space (group 2 cs) in
             if utterance = [] then None
             else Some (turn\<lparr>pt_speaker := trim_space (group 1 cs), pt_utterance := utterance\<rparr>))
        | None \<Rightarrow> Some (turn\<lparr>pt_utterance := rest\<rparr>))"

text \<open>\<open>splitParserFactWithMarker\<close> and \<open>splitParserFactWithParens\<close>.\<close>

definition timed_turn :: "string \<Rightarrow> string \<Rightarrow> string \<Rightarrow> parsed_turn option" where
  "timed_turn speaker time utterance =
     (if time = [] \<or> utterance = [] then None
      else Some (no_turn\<lparr>pt_speaker := speaker, pt_time := time, pt_utterance := utterance\<rparr>))"

definition split_parser_fact_with_marker :: "string \<Rightarrow> string \<Rightarrow> parsed_turn option" where
  "split_parser_fact_with_marker content marker =
     (case index_of content marker of
        None \<Rightarrow> None
      | Some idx \<Rightarrow>
          (let speaker = trim_space (take idx content);
               rest = trim_space (drop (idx + length marker) content) in
           if idx = 0 \<or> \<not> re_match turn_speaker_only_regex speaker then None
           else case last_index_of rest '':'' of
               None \<Rightarrow> None
             | Some sep \<Rightarrow>
                 if sep = 0 \<or> length rest - 1 \<le> sep then None
                 else timed_turn speaker (trim_space (take sep rest)) (trim_space (drop (sep + 1) rest))))"

definition split_parser_fact_with_parens :: "string \<Rightarrow> parsed_turn option" where
  "split_parser_fact_with_parens content =
     (case index_of content '' ('' of
        None \<Rightarrow> None
      | Some opn \<Rightarrow>
          (let speaker = trim_space (take opn content) in
           if opn = 0 \<or> \<not> re_match turn_speaker_only_regex speaker then None
           else case index_of (drop (opn + 2) content) ''):'' of
               None \<Rightarrow> None
             | Some c \<Rightarrow>
                 timed_turn speaker (trim_space (take c (drop (opn + 2) content)))
                   (trim_space (drop (opn + 2 + c + 2) content))))"

definition parse_turn_style_fact :: "string \<Rightarrow> parsed_turn option" where
  "parse_turn_style_fact content =
     (let t = trim_space content in
      case split_parser_fact_with_marker t '' said at '' of
        Some turn \<Rightarrow> Some turn
      | None \<Rightarrow> (case split_parser_fact_with_marker t '' at '' of
          Some turn \<Rightarrow> Some turn
        | None \<Rightarrow> (case split_parser_fact_with_parens t of
            Some turn \<Rightarrow> Some turn
          | None \<Rightarrow> parse_annotated_turn content)))"

section \<open>Observations and events\<close>

definition split_observation_sentences :: "string \<Rightarrow> string list" where
  "split_observation_sentences content =
     filter (\<lambda>s. s \<noteq> []) (map (\<lambda>p. trim_space (trim_chars [CHR 0x22, CHR 0x27] p))
       (runs (\<lambda>c. c \<notin> {CHR ''.'', CHR ''!'', CHR ''?''}) content))"

definition add_observation :: "string \<Rightarrow> string list \<Rightarrow> string list" where
  "add_observation s out =
     (let t = trim_space s in
      if length t < 16 \<or> to_lower t \<in> set (map to_lower out) then out else out @ [t])"

fun observe_each :: "nat \<Rightarrow> (string \<Rightarrow> string) \<Rightarrow> string list \<Rightarrow> string list \<Rightarrow> string list" where
  "observe_each mx f out [] = out"
| "observe_each mx f out (s # ss) =
     (let out' = add_observation (f s) out in if mx \<le> length out' then out' else observe_each mx f out' ss)"

definition derive_turn_observations :: "parsed_turn \<Rightarrow> nat \<Rightarrow> string list" where
  "derive_turn_observations turn mx =
     (let spoken = pt_speaker turn \<noteq> []; timed = pt_time turn \<noteq> []; u = pt_utterance turn;
          first = (if u = [] then []
                   else add_observation
                     (if spoken \<and> timed then pt_speaker turn @ '' said at '' @ pt_time turn @ '': '' @ u
                      else if spoken then pt_speaker turn @ '' said: '' @ u else u) []);
          each = (\<lambda>s. if spoken \<and> timed then pt_speaker turn @ '' ('' @ pt_time turn @ ''): '' @ s
                      else if spoken then pt_speaker turn @ '': '' @ s else s) in
      take mx (observe_each mx each first (split_observation_sentences u)))"

fun long_sentences :: "nat \<Rightarrow> string list \<Rightarrow> string list \<Rightarrow> string list" where
  "long_sentences mx out [] = out"
| "long_sentences mx out (s # ss) =
     (if length s < 20 \<or> to_lower s \<in> set (map to_lower out) then long_sentences mx out ss
      else if mx \<le> Suc (length out) then out @ [s] else long_sentences mx (out @ [s]) ss)"

definition derive_sentence_observations :: "string \<Rightarrow> nat \<Rightarrow> string list" where
  "derive_sentence_observations content mx =
     (let parts = split_observation_sentences content in
      if length parts \<le> 1 then [] else long_sentences mx [] parts)"

definition derive_observations :: "string \<Rightarrow> int \<Rightarrow> err + string list" where
  "derive_observations content mx =
     (if mx \<le> 0 then Inl (ErrMsg ''max observations must be > 0'')
      else let n = collapse content in
           if n = [] then Inr []
           else case parse_annotated_turn n of
               Some turn \<Rightarrow> Inr (derive_turn_observations turn (nat mx))
             | None \<Rightarrow> Inr (derive_sentence_observations n (nat mx)))"

definition derive_event :: "string \<Rightarrow> string option" where
  "derive_event content =
     (case parse_annotated_turn (collapse content) of
        None \<Rightarrow> None
      | Some turn \<Rightarrow>
          if pt_time turn = [] \<or> pt_utterance turn = [] then None
          else Some (trim_space ((if pt_speaker turn = [] then ''speaker'' else pt_speaker turn) @ '' at '' @
                 pt_time turn @ '': '' @ pt_utterance turn)))"

section \<open>Statements about the speaker\<close>

definition conversation_leads :: "string list" where
  "conversation_leads = [''yeah,'', ''yep,'', ''wow,'', ''hey,'', ''hi,'']"

function strip_conversation_lead :: "string \<Rightarrow> string" where
  "strip_conversation_lead s =
     (let out = trim_space s in
      case find (has_prefix (to_lower out)) conversation_leads of
        None \<Rightarrow> out
      | Some p \<Rightarrow> if p = [] \<or> out = [] then out else strip_conversation_lead (drop (length p) out))"
  by pat_completeness auto
termination
proof (relation "measure length", goal_cases)
  case 1
  show ?case by simp
next
  case (2 s out p)
  have "length (trim_space s) \<le> length s"
    unfolding trim_space_def trim_right_def trim_left_def
    by (metis length_rev length_dropWhile_le le_trans)
  moreover have "0 < length p" "0 < length (trim_space s)" using 2 by auto
  ultimately have "length (trim_space s) - length p < length s" by linarith
  then show ?case using 2 by simp
qed

declare strip_conversation_lead.simps [simp del]

definition lower_first_ascii :: "string \<Rightarrow> string" where
  "lower_first_ascii s = (case s of [] \<Rightarrow> [] | c # r \<Rightarrow> lower_char c # r)"

definition anchor_speaker_to_utterance :: "string \<Rightarrow> string \<Rightarrow> string" where
  "anchor_speaker_to_utterance speaker utterance =
     (let cleaned = strip_conversation_lead utterance in
      if cleaned = [] then []
      else if has_prefix (to_lower cleaned) (to_lower speaker @ '' '') then normalize_fact_content cleaned
      else normalize_fact_content (speaker @ '' '' @ lower_first_ascii cleaned))"

definition first_person_forms :: "(string \<times> string) list" where
  "first_person_forms = [(''i am '', '' is ''), (''i'm '', '' is ''), (''i was '', '' was ''),
     (''i have '', '' has ''), (''i've '', '' has ''), (''i had '', '' had ''), (''i will '', '' will ''),
     (''i'll '', '' will ''), (''i can '', '' can ''), (''i could '', '' could ''),
     (''i should '', '' should ''), (''i would '', '' would ''), (''i'd '', '' would ''), (''i '', '' ''),
     (''my '', CHR 0x27 # ''s '')]"

definition rewrite_speaker_perspective :: "string \<Rightarrow> string \<Rightarrow> string" where
  "rewrite_speaker_perspective speaker utterance =
     (let sp = trim_space speaker; u = trim_space utterance; lower = to_lower u in
      if sp = [] \<or> u = [] then u
      else case find (\<lambda>(p, _). has_prefix lower p) first_person_forms of
          Some (p, verb) \<Rightarrow> sp @ verb @ drop (length p) u
        | None \<Rightarrow>
            if has_prefix lower (to_lower sp @ '' '') then u
            else (let a = anchor_speaker_to_utterance sp u in if a = [] then u else a))"

definition canonicalize_turn_statement :: "parsed_turn \<Rightarrow> string" where
  "canonicalize_turn_statement turn =
     (let u = normalize_fact_content (pt_utterance turn) in
      if \<not> is_informative_fact u then []
      else if trim_space (pt_speaker turn) = [] then u
      else normalize_fact_content (rewrite_speaker_perspective (pt_speaker turn) u))"

definition canonicalize_turn_style_fact :: "string \<Rightarrow> string \<Rightarrow> string" where
  "canonicalize_turn_style_fact src txt =
     (case parse_turn_style_fact txt of
        Some turn \<Rightarrow> canonicalize_turn_statement turn
      | None \<Rightarrow> (case parse_annotated_turn src of
          Some turn \<Rightarrow> if collapse txt = collapse src then canonicalize_turn_statement turn else txt
        | None \<Rightarrow> txt))"

section \<open>Time anchors\<close>

text \<open>\<open>time.Parse\<close> for the elements of the layouts in use. An element reads a prefix of the value and
  notes it; a layout is read element by element and must use up the value.\<close>

datatype layout_element =
    Text string | Day | ZeroDay | ZeroMonth | MonthName | LongMonthName | LongYear
  | Hour12 | Hour24 | ZeroMinute | LowerPM

record clock_reading =
  cr_year :: nat
  cr_month :: nat
  cr_day :: nat

definition short_month_names :: "string list" where
  "short_month_names = [''Jan'', ''Feb'', ''Mar'', ''Apr'', ''May'', ''Jun'', ''Jul'', ''Aug'', ''Sep'',
     ''Oct'', ''Nov'', ''Dec'']"

definition long_month_names :: "string list" where
  "long_month_names = [''January'', ''February'', ''March'', ''April'', ''May'', ''June'', ''July'',
     ''August'', ''September'', ''October'', ''November'', ''December'']"

definition digit_value :: "char \<Rightarrow> nat" where
  "digit_value c = of_char c - 48"

text \<open>\<open>skip\<close>: a blank of the layout stands for any number of blanks, at least one unless the value
  ends.\<close>

fun skip_text :: "string \<Rightarrow> string \<Rightarrow> string option" where
  "skip_text v [] = Some v"
| "skip_text v (c # p) =
     (if c = CHR '' '' then
        (if v \<noteq> [] \<and> hd v \<noteq> CHR '' '' then None
         else skip_text (dropWhile (\<lambda>x. x = CHR '' '') v) p)
      else case v of [] \<Rightarrow> None | d # v' \<Rightarrow> if d = c then skip_text v' p else None)"

text \<open>\<open>getnum\<close>.\<close>

definition get_num :: "bool \<Rightarrow> string \<Rightarrow> (nat \<times> string) option" where
  "get_num fixed v =
     (case v of
        [] \<Rightarrow> None
      | [c] \<Rightarrow> if re_digit c \<and> \<not> fixed then Some (digit_value c, []) else None
      | c # d # r \<Rightarrow>
          if \<not> re_digit c then None
          else if re_digit d then Some (10 * digit_value c + digit_value d, r)
          else if fixed then None else Some (digit_value c, d # r))"

fun lookup_name :: "nat \<Rightarrow> string list \<Rightarrow> string \<Rightarrow> (nat \<times> string) option" where
  "lookup_name i [] v = None"
| "lookup_name i (n # ns) v =
     (if length n \<le> length v \<and> to_lower (take (length n) v) = to_lower n then Some (i, drop (length n) v)
      else lookup_name (Suc i) ns v)"

definition read_element :: "layout_element \<Rightarrow> string \<times> clock_reading \<Rightarrow> (string \<times> clock_reading) option" where
  "read_element e s =
     (case s of (v, r) \<Rightarrow>
       (case e of
          Text p \<Rightarrow> map_option (\<lambda>v'. (v', r)) (skip_text v p)
        | Day \<Rightarrow> map_option (\<lambda>(n, v'). (v', r\<lparr>cr_day := n\<rparr>)) (get_num False v)
        | ZeroDay \<Rightarrow> map_option (\<lambda>(n, v'). (v', r\<lparr>cr_day := n\<rparr>)) (get_num True v)
        | ZeroMonth \<Rightarrow> (case get_num True v of None \<Rightarrow> None
            | Some (n, v') \<Rightarrow> if n = 0 \<or> 12 < n then None else Some (v', r\<lparr>cr_month := n\<rparr>))
        | MonthName \<Rightarrow> map_option (\<lambda>(n, v'). (v', r\<lparr>cr_month := n\<rparr>)) (lookup_name 1 short_month_names v)
        | LongMonthName \<Rightarrow> map_option (\<lambda>(n, v'). (v', r\<lparr>cr_month := n\<rparr>)) (lookup_name 1 long_month_names v)
        | LongYear \<Rightarrow>
            if 4 \<le> length v \<and> list_all re_digit (take 4 v)
            then Some (drop 4 v, r\<lparr>cr_year := foldl (\<lambda>n c. 10 * n + digit_value c) 0 (take 4 v)\<rparr>) else None
        | Hour12 \<Rightarrow> (case get_num False v of None \<Rightarrow> None | Some (n, v') \<Rightarrow> if 12 < n then None else Some (v', r))
        | Hour24 \<Rightarrow> (case get_num False v of None \<Rightarrow> None | Some (n, v') \<Rightarrow> if 24 \<le> n then None else Some (v', r))
        | ZeroMinute \<Rightarrow> (case get_num True v of None \<Rightarrow> None | Some (n, v') \<Rightarrow> if 60 \<le> n then None else Some (v', r))
        | LowerPM \<Rightarrow> if take 2 v = ''pm'' \<or> take 2 v = ''am'' then Some (drop 2 v, r) else None))"

fun read_layout :: "layout_element list \<Rightarrow> string \<times> clock_reading \<Rightarrow> (string \<times> clock_reading) option" where
  "read_layout [] s = Some s"
| "read_layout (e # es) s = (case read_element e s of None \<Rightarrow> None | Some s' \<Rightarrow> read_layout es s')"

definition days_in :: "nat \<Rightarrow> nat \<Rightarrow> nat" where
  "days_in month year =
     (if month = 2 then (if year mod 4 = 0 \<and> (year mod 100 \<noteq> 0 \<or> year mod 400 = 0) then 29 else 28)
      else if month \<in> {4, 6, 9, 11} then 30 else 31)"

definition time_parse :: "layout_element list \<Rightarrow> string \<Rightarrow> clock_reading option" where
  "time_parse layout v =
     (case read_layout layout (v, \<lparr>cr_year = 0, cr_month = 1, cr_day = 1\<rparr>) of
        None \<Rightarrow> None
      | Some (rest, r) \<Rightarrow>
          if rest \<noteq> [] \<or> cr_day r < 1 \<or> days_in (cr_month r) (cr_year r) < cr_day r then None else Some r)"

definition anchor_layouts :: "layout_element list list" where
  "anchor_layouts =
     (let clock = [Hour12, Text '':'', ZeroMinute, Text '' '', LowerPM, Text '' on ''];
          tight = [Hour12, Text '':'', ZeroMinute, LowerPM, Text '' on ''] in
      [clock @ [Day, Text '' '', MonthName, Text '', '', LongYear],
       clock @ [Day, Text '' '', MonthName, Text '' '', LongYear],
       clock @ [Day, Text '' '', LongMonthName, Text '', '', LongYear],
       clock @ [Day, Text '' '', LongMonthName, Text '' '', LongYear],
       tight @ [Day, Text '' '', MonthName, Text '', '', LongYear],
       tight @ [Day, Text '' '', LongMonthName, Text '', '', LongYear],
       [Day, Text '' '', MonthName, Text '', '', LongYear],
       [Day, Text '' '', MonthName, Text '' '', LongYear],
       [Day, Text '' '', LongMonthName, Text '', '', LongYear],
       [Day, Text '' '', LongMonthName, Text '' '', LongYear],
       [MonthName, Text '' '', Day, Text '', '', LongYear],
       [LongMonthName, Text '' '', Day, Text '', '', LongYear],
       [LongYear, Text ''-'', ZeroMonth, Text ''-'', ZeroDay, Text '' '', Hour24, Text '':'', ZeroMinute],
       [LongYear, Text ''-'', ZeroMonth, Text ''-'', ZeroDay]])"

text \<open>\<open>Format("2 Jan 2006")\<close>.\<close>

definition format_date :: "clock_reading \<Rightarrow> string" where
  "format_date r =
     (let y = digits_text (cr_year r) in
      digits_text (cr_day r) @ '' '' @ short_month_names ! (cr_month r - 1) @ '' '' @
      replicate (4 - length y) (CHR ''0'') @ y)"

fun first_reading :: "layout_element list list \<Rightarrow> string \<Rightarrow> clock_reading option" where
  "first_reading [] v = None"
| "first_reading (l # ls) v = (case time_parse l v of None \<Rightarrow> first_reading ls v | Some r \<Rightarrow> Some r)"

definition normalize_turn_time_anchor :: "string \<Rightarrow> string option" where
  "normalize_turn_time_anchor raw =
     (let t = trim_space raw in
      if t = [] then None else map_option format_date (first_reading anchor_layouts t))"

definition source_time_anchor :: "string \<Rightarrow> string option" where
  "source_time_anchor content =
     (case parse_annotated_turn content of
        None \<Rightarrow> None
      | Some turn \<Rightarrow>
          (let raw = collapse (pt_time turn) in
           if raw = [] then None
           else case normalize_turn_time_anchor raw of Some n \<Rightarrow> Some n | None \<Rightarrow> Some raw))"

end
