(* ===== verification/FactQuality.thy ===== *)
theory FactQuality
  imports TurnText
begin

text \<open>
  Whether a parsed fact is worth storing (\<open>fact_quality.go\<close>): speech, reactions, bare emotions and
  parser scaffolding are turned away, and a fact must have a subject, a predicate, a specific value and,
  if it is about a time, an anchor (\<open>passesCanonicalFactAdmission\<close>).
\<close>

section \<open>Patterns\<close>

definition vague_fact_value_pattern :: regex where
  "vague_fact_value_pattern = fold_case (whole
     ''it|this|that|these|those|something|anything|everything|nothing|stuff|things?|one|ones|there|here|them'')"

definition vague_fact_tail_pattern :: regex where
  "vague_fact_tail_pattern = fold_case (seqs [WordBnd, bars ''do|did|does|doing|done'', spaces1,
     bars ''it|that|this|something|anything'', WordBnd])"

definition offer_fact_pattern :: regex where
  "offer_fact_pattern = fold_case (whole
     ''let me know|need any help|happy to help|hope that helps|glad you agree|sounds good'')"

definition generic_speech_pattern :: regex where
  "generic_speech_pattern = fold_case (whole ''said that'')"

definition parser_scaffold_pattern :: regex where
  "parser_scaffold_pattern = fold_case (seqs [WordBnd, alts
     [seqs [lit ''dialogue'', opt (seqs [spaces1, lit ''d'', digits1, opt (Seq (lit '':'') digits1)]), spaces1, lit ''occurred''],
      seqs [lit ''dialogue'', spaces1, lit ''turn'', spaces1, lit ''occurred''],
      Seq (lit ''conversation'') (alts [seqs [spaces1, lit ''took'', spaces1, lit ''place''], Seq spaces1 (lit ''occurred'')]),
      seqs [alts
        [seqs [lit ''made'', opt (Seq spaces1 (bars ''this|a'')), spaces1, lit ''statement''],
         seqs [lit ''uttered'', spaces1, lit ''a'', spaces1, lit ''statement''],
         Seq (lit ''spoke'') (opt (seqs [spaces1, lit ''to'', spaces1, speaker_name]))],
        spaces1, lit ''said'', spaces1, lit ''that'']],
     WordBnd])"

definition line_text :: regex where
  "line_text = plus1 (Cls (\<lambda>c. c \<noteq> newline))"

definition generic_query_view_pattern :: regex where
  "generic_query_view_pattern = fold_case (seqs [TextStart, alts
     [Seq (lit ''what about '') line_text, seqs [lit ''what did '', line_text, lit '' do''],
      seqs [lit ''what does '', line_text, lit '' do''], seqs [lit ''what activities does '', line_text, lit '' do'']],
     TextEnd])"

definition reaction_fact_pattern :: regex where
  "reaction_fact_pattern = fold_case (whole
     ''that sounds like fun|sounds great|looks great|looks amazing|looks awesome|take a look|look at this|look at that|check this out|you both look|you look|love the red and blue'')"

definition chatter_lead_pattern :: regex where
  "chatter_lead_pattern = fold_case (seqs [TextStart,
     bars ''yeah|yep|yup|wow|oh|ah|hey|hi|hello|thanks|thank you|cool|nice|great|awesome|amazing|absolutely|definitely|totally'',
     WordBnd])"

definition bare_emotion_fact_pattern :: regex where
  "bare_emotion_fact_pattern = fold_case (whole ''is|was|feels?|felt|seems?|seemed|became'')"

definition relative_time_pattern :: regex where
  "relative_time_pattern = fold_case (whole
     ''yesterday|today|tomorrow|tonight|last|next|earlier|later|before|after|soon|eventually|someday'')"

definition future_plan_pattern :: regex where
  "future_plan_pattern = fold_case (seqs [WordBnd,
     alts [lit ''will'', seqs [lit ''plan'', opt (bars ''s|ning''), lit '' to''], lit ''going to''], WordBnd])"

definition subject_pronoun_pattern :: regex where
  "subject_pronoun_pattern = fold_case (seqs [TextStart, bars ''i|you|we|they|he|she|it'', WordBnd])"

definition predicate_signal_pattern :: regex where
  "predicate_signal_pattern = fold_case (whole
     ''is|was|has|had|lives? in|moved to|relocated|relocates|works? as|study|studies|studied|reads|reading|read|likes?|loves?|enjoys?|uses?|using|prefers?|avoids?|plans? to|going to|will|attended|participated in|joined|went to|visited|met|married|dating|supports?'')"

definition emotion_word_pattern :: regex where
  "emotion_word_pattern = fold_case (whole
     ''happy|thankful|grateful|excited|proud|glad|thrilled|relieved|nervous|sad|upset|angry|emotional|empowered|liberated|accepted|inspired|motivated|fulfilled|comforted'')"

definition emotion_anchor_pattern :: regex where
  "emotion_anchor_pattern = fold_case (whole ''about|for|because|after|during|when|while|to'')"

definition date_months :: regex where
  "date_months = bars ''jan|january|feb|february|mar|march|apr|april|may|jun|june|jul|july|aug|august|sep|sept|september|oct|october|nov|november|dec|december''"

definition absolute_date_pattern :: regex where
  "absolute_date_pattern = fold_case (seqs [WordBnd, alts
     [seqs [times 4 (Cls re_digit), lit ''-'', times 2 (Cls re_digit), lit ''-'', times 2 (Cls re_digit)],
      seqs [digits_between 1 2, spaces1, date_months, spaces1, times 4 (Cls re_digit)],
      seqs [date_months, spaces1, digits_between 1 2, opt (lit '',''), spaces1, times 4 (Cls re_digit)]], WordBnd])"

section \<open>Values and tokens\<close>

definition specific_value_prefixes :: "string list" where
  "specific_value_prefixes = [''is '', ''was '', ''has '', ''had '', ''will '', ''can '', ''could '', ''would '',
     ''should '', ''likes '', ''like '', ''loves '', ''love '', ''enjoys '', ''enjoy '', ''prefers '', ''prefer '',
     ''uses '', ''use '', ''using '', ''plans to '', ''plan to '', ''going to '', ''went to '', ''attended '',
     ''joined '', ''moved to '', ''lives in '', ''works as '', ''read '', ''reads '', ''met '']"

definition infer_specific_value_candidate :: "string \<Rightarrow> string" where
  "infer_specific_value_candidate content =
     (let c0 = normalize_fact_content content;
          c1 = re_replace_all fact_leading_date_pattern c0 [];
          entity = infer_entity_from_fact c1;
          c2 = (if has_prefix (to_lower c1) (to_lower entity @ '' '') then trim_space (drop (length entity) c1) else c1) in
      if c0 = [] \<or> entity = [] then []
      else case find (has_prefix (to_lower c2)) specific_value_prefixes of
          Some p \<Rightarrow> trim_space (drop (length p) c2)
        | None \<Rightarrow> cleanup_entity_fact_value c2)"

definition time_words :: "string list" where
  "time_words = [''am'', ''pm'', ''on'', ''at'', ''jan'', ''january'', ''feb'', ''february'', ''mar'', ''march'', ''apr'',
     ''april'', ''may'', ''jun'', ''june'', ''jul'', ''july'', ''aug'', ''august'', ''sep'', ''sept'', ''september'', ''oct'',
     ''october'', ''nov'', ''november'', ''dec'', ''december'']"

definition is_time_only_fact_value :: "string \<Rightarrow> bool" where
  "is_time_only_fact_value v0 =
     (let v = normalize_fact_content v0; toks = Prelude.fields (to_lower v) in
      if v = [] then False
      else if normalize_turn_time_anchor v \<noteq> None then True
      else toks \<noteq> [] \<and>
        (\<forall>t \<in> set toks. let w = trim_chars (dedupe_cut @ ''()'') t in
           w = [] \<or> w \<in> set time_words \<or> list_all (\<lambda>c. re_digit c \<or> c = CHR '':'' \<or> c = CHR ''-'') w))"

text \<open>The words that are left of a text after those of a list and, for emotions, the emotion words.\<close>

definition tokens_without :: "(string \<Rightarrow> bool) \<Rightarrow> string \<Rightarrow> nat" where
  "tokens_without skip text =
     length (filter (\<lambda>t. t \<noteq> [] \<and> \<not> skip t)
       (map (trim_chars dedupe_cut) (Prelude.fields (to_lower (trim_space text)))))"

definition reaction_words :: "string list" where
  "reaction_words = [''yeah'', ''yep'', ''yup'', ''wow'', ''oh'', ''ah'', ''hey'', ''hi'', ''hello'', ''thanks'', ''thank'',
     ''you'', ''cool'', ''nice'', ''great'', ''awesome'', ''amazing'', ''absolutely'', ''definitely'', ''totally'',
     ''really'', ''very'', ''so'', ''just'', ''that'', ''this'', ''it'', ''look'', ''take'', ''a'', ''the'', ''at'', ''on'',
     ''to'', ''and'']"

definition count_non_reaction_tokens :: "string \<Rightarrow> nat" where
  "count_non_reaction_tokens text = tokens_without (\<lambda>t. t \<in> set reaction_words) text"

definition emotion_fillers :: "string list" where
  "emotion_fillers = [''is'', ''was'', ''feel'', ''feels'', ''felt'', ''seems'', ''seemed'', ''became'', ''become'', ''am'',
     ''are'', ''so'', ''really'', ''very'', ''pretty'', ''quite'', ''super'', ''totally'', ''extremely'', ''deeply'', ''and'',
     ''but'', ''just'', ''kind'', ''of'', ''a'', ''an'', ''the'', ''my'', ''our'', ''their'', ''her'', ''his'', ''for'', ''to'',
     ''about'', ''because'', ''after'', ''during'', ''when'', ''while'']"

definition count_non_emotion_tokens :: "string \<Rightarrow> nat" where
  "count_non_emotion_tokens text =
     tokens_without (\<lambda>t. re_match emotion_word_pattern t \<or> t \<in> set emotion_fillers) text"

section \<open>Admission\<close>

definition has_specific_fact_predicate :: "string \<Rightarrow> string \<Rightarrow> bool" where
  "has_specific_fact_predicate content0 relation0 =
     (let relation = normalize_entity_fact_relation relation0; content = normalize_fact_content content0 in
      relation \<noteq> [] \<and> relation \<noteq> ''unknown'' \<or>
      content \<noteq> [] \<and> \<not> re_match generic_speech_pattern content \<and> re_match predicate_signal_pattern content)"

definition weak_single_token_values :: "string list" where
  "weak_single_token_values = [''good'', ''great'', ''nice'', ''fine'', ''okay'', ''ok'', ''sure'', ''absolutely'',
     ''definitely'', ''yes'', ''no'', ''maybe'', ''later'', ''soon'', ''there'', ''here'', ''something'', ''anything'']"

definition has_specific_fact_value :: "string \<Rightarrow> string \<Rightarrow> bool" where
  "has_specific_fact_value content v0 =
     (let v = normalize_entity_fact_value v0;
          candidate = (if v = [] then infer_specific_value_candidate content else v);
          lower = to_lower candidate in
      if candidate = [] then False
      else if re_match vague_fact_value_pattern lower \<or> re_match vague_fact_tail_pattern lower then False
      else if 2 \<le> length (Prelude.fields lower) then True
      else if lower \<in> set weak_single_token_values then False
      else if 3 \<le> length lower \<and> \<not> str_contains lower '' '' then True
      else is_high_signal_short_fact lower \<or> re_match identity_value_pattern lower \<or> re_match role_value_pattern lower)"

definition is_bare_emotion_fact :: "string \<Rightarrow> bool" where
  "is_bare_emotion_fact content0 =
     (let content = normalize_fact_content content0; lower = to_lower content;
          c0 = to_lower (infer_specific_value_candidate content);
          candidate = (if c0 = [] then lower else c0) in
      if content = [] then False
      else if \<not> re_match bare_emotion_fact_pattern lower \<or> \<not> re_match emotion_word_pattern lower then False
      else if str_contains candidate ''for you'' \<or> str_contains candidate ''for u'' then True
      else if re_match emotion_anchor_pattern candidate \<and>
              list_ex (str_contains candidate) [''to '', ''about '', ''after '', ''because '', ''during ''] \<and>
              2 \<le> count_non_emotion_tokens candidate then False
      else count_non_emotion_tokens candidate \<le> 1)"

definition is_speech_or_reaction_fact :: "string \<Rightarrow> bool" where
  "is_speech_or_reaction_fact content0 =
     (let content = normalize_fact_content content0; lower = to_lower content;
          candidate = to_lower (infer_specific_value_candidate content) in
      if content = [] then False
      else if re_match parser_scaffold_pattern lower \<or> re_match reaction_fact_pattern lower then True
      else re_match generic_speech_pattern lower \<and>
        (candidate = [] \<or> re_match reaction_fact_pattern candidate \<or> is_time_only_fact_value candidate \<or>
         re_match chatter_lead_pattern candidate \<or> count_non_reaction_tokens candidate \<le> 1))"

definition is_parser_scaffold_fact :: "string \<Rightarrow> string \<Rightarrow> bool" where
  "is_parser_scaffold_fact content0 v0 =
     (let content = normalize_fact_content content0; lower = to_lower content;
          v = normalize_entity_fact_value v0;
          candidate = (if v = [] then infer_specific_value_candidate content else v) in
      if content = [] then False
      else if re_match parser_scaffold_pattern lower then True
      else re_match generic_speech_pattern lower \<and> is_time_only_fact_value candidate)"

definition has_resolved_fact_subject :: "string \<Rightarrow> string \<Rightarrow> string \<Rightarrow> bool" where
  "has_resolved_fact_subject src content entity0 =
     (let e0 = collapse entity0; entity = collapse (if e0 = [] then infer_entity_from_fact content else e0) in
      if entity = [] then False
      else if \<not> re_match subject_pronoun_pattern (to_lower entity) then True
      else parse_annotated_turn src = None)"

definition is_temporal_fact :: "string \<Rightarrow> parsed_fact \<Rightarrow> bool" where
  "is_temporal_fact content0 f =
     (let lower = to_lower (normalize_fact_content content0) in
      re_match relative_time_pattern lower \<or> re_match future_plan_pattern lower \<or>
      pf_kind f = KindEvent \<and> re_match time_tag_pattern lower)"

definition has_absolute_or_anchored_time :: "string \<Rightarrow> string \<Rightarrow> bool" where
  "has_absolute_or_anchored_time src content \<longleftrightarrow>
     re_match time_tag_pattern (to_lower content) \<or> re_match absolute_date_pattern (to_lower content) \<or>
     source_time_anchor src \<noteq> None"

definition passes_canonical_fact_admission :: "string \<Rightarrow> parsed_fact \<Rightarrow> bool" where
  "passes_canonical_fact_admission src f =
     (let content = normalize_fact_content (pf_content f);
          e0 = trim_space (pf_entity f);
          entity = join_with '' '' (Prelude.fields (if e0 = [] then infer_entity_from_fact content else e0)) in
      if content = [] \<or> \<not> is_informative_fact content then False
      else if re_match generic_speech_pattern (to_lower content) then False
      else if re_match offer_fact_pattern content then False
      else if is_parser_scaffold_fact content (pf_value f) then False
      else if is_speech_or_reaction_fact content then False
      else if is_bare_emotion_fact content then False
      else if \<not> has_resolved_fact_subject src content entity then False
      else if \<not> has_specific_fact_predicate content (pf_relation f) then False
      else if \<not> has_specific_fact_value content (pf_value f) then False
      else \<not> (is_temporal_fact content f \<and> \<not> has_absolute_or_anchored_time src content))"

end
