(* ===== verification/HeuristicParser.thy ===== *)
theory HeuristicParser
  imports FactQuality
begin

text \<open>
  The answer metadata of a fact (\<open>answer_metadata.go\<close>), the heuristic parser
  (\<open>info_parser_heuristic.go\<close>), the reading of a language model's reply (\<open>info_parser_common.go\<close>),
  and \<open>source_texts\<close>: the heuristics that the store path takes as an argument (\<open>fact_texts\<close>), as the
  code defines them. \<open>json.Unmarshal\<close> into the struct of the reply is an argument.
\<close>

section \<open>Answer metadata\<close>

definition answer_tag_pattern :: regex where
  "answer_tag_pattern = seqs [lit ''['', plus1 (Cls (\<lambda>c. c \<noteq> CHR '']'')), lit '']'']"

definition answer_speaker_prefix :: regex where
  "answer_speaker_prefix = seqs [TextStart, spaces0, speaker_name,
     opt (seqs [spaces0, lit ''('', plus1 (Cls (\<lambda>c. c \<noteq> CHR '')'')), lit '')'']), lit '':'', spaces0]"

definition quoted :: "char \<Rightarrow> nat \<Rightarrow> regex" where
  "quoted q i = seqs [Cls (\<lambda>c. c = q), Grp i (plus1 (Cls (\<lambda>c. c \<noteq> q))), Cls (\<lambda>c. c = q)]"

definition answer_quoted_span_pattern :: regex where
  "answer_quoted_span_pattern = Alt (quoted (CHR 0x22) 1) (quoted (CHR 0x27) 2)"

definition time_units :: regex where
  "time_units = bars ''years?|months?|weeks?|days?''"

definition answer_relative_time_pattern :: regex where
  "answer_relative_time_pattern = fold_case (seqs [WordBnd, alts
     [bars ''yesterday|today|tomorrow'', seqs [lit ''last'', spaces1, plus1 (Cls word_char)],
      seqs [lit ''next'', spaces1, plus1 (Cls word_char)],
      seqs [digits1, spaces1, time_units, spaces1, lit ''ago''],
      bars ''week before|month before|year before''], WordBnd])"

definition answer_duration_pattern :: regex where
  "answer_duration_pattern = fold_case (seqs [WordBnd, digits1, spaces1, time_units, WordBnd])"

definition answer_year_pattern :: regex where
  "answer_year_pattern = seqs [WordBnd, bars ''19|20'', times 2 (Cls re_digit), WordBnd]"

definition answer_month_pattern :: regex where
  "answer_month_pattern = fold_case (seqs [WordBnd, bars ''jan|feb|mar|apr|may|jun|jul|aug|sep|oct|nov|dec'',
     Star (Cls lower_letter), WordBnd])"

definition strip_answer_surface_noise :: "string \<Rightarrow> string" where
  "strip_answer_surface_noise raw =
     join_with '' '' (Prelude.fields (re_replace_all answer_speaker_prefix
       (re_replace_all answer_tag_pattern (trim_space raw) '' '') []))"

fun best_sentence :: "string list \<Rightarrow> string list \<Rightarrow> string \<times> real \<Rightarrow> string" where
  "best_sentence toks [] b = fst b"
| "best_sentence toks (s # ss) b =
     (let sc = query_overlap_score toks (normalized_ranking_tokens s) in
      best_sentence toks ss (if sc > snd b then (s, sc) else b))"

definition best_source_sentence :: "string \<Rightarrow> parsed_fact \<Rightarrow> string" where
  "best_source_sentence src f =
     (let content = trim_space (strip_answer_surface_noise src);
          sentences = split_observation_sentences content;
          toks = normalized_ranking_tokens (join_with '' '' [pf_content f, pf_value f, pf_query_view f]);
          best = best_sentence toks sentences ([], - 1) in
      if content = [] then []
      else if sentences = [] then normalize_fact_content content
      else if best \<noteq> [] then normalize_fact_content best else normalize_fact_content content)"

definition infer_answer_kind :: "parsed_fact \<Rightarrow> string \<Rightarrow> string" where
  "infer_answer_kind f sentence =
     (let lowered = to_lower (trim_space (pf_content f @ '' '' @ sentence));
          relation = to_lower (trim_space (pf_relation f)) in
      if re_match answer_quoted_span_pattern sentence then ''quote''
      else if relation = ''reason'' \<or> relation = ''outcome'' \<or>
          list_ex (str_contains lowered) [''because '', '' so '', ''made '', ''realize''] then ''reason''
      else if relation \<in> {''family'', ''relationship'', ''relationship status'', ''place'', ''role'', ''identity'',
          ''artifact'', ''organization'', ''media''} then ''entity''
      else if relation = ''event'' \<or>
          trim_space (pf_value f) \<noteq> [] \<and> length (Prelude.fields (pf_value f)) \<le> 5 then ''entity''
      else if re_match answer_relative_time_pattern lowered \<or> re_match time_tag_pattern lowered then ''time''
      else if str_contains lowered '' yes '' \<or> str_contains lowered '' no '' \<or>
          has_prefix lowered ''yes '' \<or> has_prefix lowered ''no '' then ''boolean''
      else ''span'')"

definition infer_surface_span :: "parsed_fact \<Rightarrow> string \<Rightarrow> string" where
  "infer_surface_span f sentence =
     (let spans = (case re_submatch answer_quoted_span_pattern sentence of
            None \<Rightarrow> [] | Some cs \<Rightarrow> filter (\<lambda>m. m \<noteq> []) [trim_space (group 1 cs), trim_space (group 2 cs)]) in
      case spans of
        m # _ \<Rightarrow> normalize_fact_content m
      | [] \<Rightarrow> (case filter (\<lambda>v. v \<noteq> []) (map normalize_fact_content [pf_value f, pf_content f, sentence]) of
          [] \<Rightarrow> [] | v # _ \<Rightarrow> v))"

definition infer_temporal_anchor :: "string \<Rightarrow> parsed_fact \<Rightarrow> string \<Rightarrow> string" where
  "infer_temporal_anchor src f sentence =
     (case source_time_anchor src of
        Some a \<Rightarrow> a
      | None \<Rightarrow> (case filter (\<lambda>c. c \<noteq> [] \<and> re_match time_tag_pattern (to_lower c))
            (map normalize_fact_content [sentence, pf_content f]) of [] \<Rightarrow> [] | c # _ \<Rightarrow> c))"

definition infer_relative_time_phrase :: "string \<Rightarrow> string \<Rightarrow> string" where
  "infer_relative_time_phrase content sentence =
     (case filter (\<lambda>m. trim_space m \<noteq> []) (map (re_find_string answer_relative_time_pattern) [sentence, content]) of
        [] \<Rightarrow> [] | m # _ \<Rightarrow> normalize_fact_content m)"

definition infer_time_granularity :: "string \<Rightarrow> string \<Rightarrow> string" where
  "infer_time_granularity content sentence =
     (let lowered = to_lower (join_with '' '' [content, sentence]) in
      if re_match answer_duration_pattern lowered then ''duration''
      else if re_match answer_year_pattern lowered \<and> \<not> re_match answer_month_pattern lowered then ''year''
      else if re_match answer_month_pattern lowered then ''month''
      else if re_match answer_relative_time_pattern lowered then ''relative''
      else if re_match time_tag_pattern lowered then ''date''
      else [])"

definition resolves_time :: "string \<Rightarrow> bool" where
  "resolves_time v \<longleftrightarrow> re_match answer_duration_pattern v \<or> re_match answer_year_pattern v \<or>
     re_match answer_month_pattern v \<or> re_match time_tag_pattern (to_lower v)"

definition infer_resolved_time_start :: "string \<Rightarrow> string \<Rightarrow> parsed_fact \<Rightarrow> string \<Rightarrow> string" where
  "infer_resolved_time_start anchor phrase f sentence =
     (case filter (\<lambda>v. v \<noteq> [] \<and> resolves_time v)
         (map normalize_fact_content [anchor, phrase, sentence, pf_content f, pf_value f]) of
        [] \<Rightarrow> [] | v # _ \<Rightarrow> v)"

definition infer_answer_metadata :: "string \<Rightarrow> parsed_fact \<Rightarrow> answer_metadata" where
  "infer_answer_metadata src f =
     (let sentence = best_source_sentence src f;
          anchor = infer_temporal_anchor src f sentence;
          phrase = infer_relative_time_phrase (pf_content f) sentence;
          granularity = infer_time_granularity (pf_content f) sentence;
          start = infer_resolved_time_start anchor phrase f sentence in
      \<lparr>am_answer_kind = infer_answer_kind f sentence, am_source_sentence = sentence,
       am_surface_span = infer_surface_span f sentence, am_temporal_anchor = anchor,
       am_relative_time_phrase = phrase, am_resolved_time_start = start,
       am_resolved_time_end = (if granularity = ''duration'' then start else []),
       am_time_granularity = granularity, am_support_memory_ids = [], am_support_lines = []\<rparr>)"

section \<open>The heuristic parser\<close>

definition add_fact :: "memory_kind \<Rightarrow> string list \<Rightarrow> string \<Rightarrow> parsed_fact list \<Rightarrow> parsed_fact list" where
  "add_fact kind tags text0 out =
     (let text = collapse text0 in
      if \<not> is_informative_fact text \<or> to_lower text \<in> set (map (to_lower \<circ> pf_content) out) then out
      else case infer_entity_relation_value text kind of (e, r, v) \<Rightarrow>
        out @ [\<lparr>pf_content = text, pf_query_view = [], pf_kind = kind, pf_tags = tags, pf_entity = e,
                pf_relation = r, pf_value = v, pf_answer_metadata = empty_metadata\<rparr>])"

fun add_facts :: "nat \<Rightarrow> string list \<Rightarrow> parsed_fact list \<Rightarrow> parsed_fact list" where
  "add_facts mx [] out = out"
| "add_facts mx (o' # os) out =
     (let out' = add_fact KindObservation [''observation'', ''parser''] o' out in
      if mx \<le> length out' then out' else add_facts mx os out')"

definition heuristic_parse :: "string \<Rightarrow> int \<Rightarrow> err + parsed_fact list" where
  "heuristic_parse content mx =
     (if mx \<le> 0 then Inl (ErrMsg ''max facts must be > 0'')
      else let n = collapse content in
        if n = [] then Inr []
        else let out0 = (case derive_event n of None \<Rightarrow> []
                     | Some e \<Rightarrow> add_fact KindEvent [''event'', ''parser''] e []) in
          case derive_observations n mx of
            Inl e \<Rightarrow> Inl e
          | Inr os \<Rightarrow>
              (let out1 = add_facts (nat mx) os out0;
                   out2 = (if out1 = [] \<and> is_informative_fact n
                           then add_fact KindObservation [''observation'', ''parser''] n out1 else out1) in
               Inr (take (nat mx) out2)))"

section \<open>The reply of a language model\<close>

record reply_fact =
  rf_content :: string
  rf_kind :: string
  rf_tags :: "string list"
  rf_entity :: string
  rf_relation :: string
  rf_value :: string

definition decode_parser_json :: "(string \<Rightarrow> reply_fact list option) \<Rightarrow> string \<Rightarrow> err + reply_fact list" where
  "decode_parser_json unmarshal raw0 =
     (let raw = trim_space raw0 in
      if raw = [] then Inl (ErrMsg ''empty parser response'')
      else case unmarshal raw of
          Some fs \<Rightarrow> Inr fs
        | None \<Rightarrow>
            (case (index_of raw ''{'', last_index_of raw ''}'') of
               (Some i, Some j) \<Rightarrow>
                 if j < i then Inl (ErrMsg ''parser returned non-JSON response'')
                 else (case unmarshal (take (j + 1 - i) (drop i raw)) of
                     Some fs \<Rightarrow> Inr fs | None \<Rightarrow> Inl (ErrMsg ''decode parser JSON''))
             | _ \<Rightarrow> Inl (ErrMsg ''parser returned non-JSON response'')))"

definition normalize_fact_kind :: "string \<Rightarrow> memory_kind" where
  "normalize_fact_kind kind = (if to_lower (trim_space kind) = ''event'' then KindEvent else KindObservation)"

definition normalize_fact_tags :: "string list \<Rightarrow> memory_kind \<Rightarrow> string list" where
  "normalize_fact_tags tags kind =
     merge_tags [] (tags @ (if kind = KindEvent then [''event'', ''parser''] else [''observation'', ''parser'']))"

definition reply_parsed_fact :: "string \<Rightarrow> reply_fact \<Rightarrow> parsed_fact" where
  "reply_parsed_fact text f =
     (let kind = normalize_fact_kind (rf_kind f);
          e0 = collapse (rf_entity f); r0 = collapse (rf_relation f); v0 = collapse (rf_value f);
          (ei, ri, vi) = infer_entity_relation_value text kind;
          missing = e0 = [] \<or> r0 = [] \<or> v0 = [];
          e1 = (if missing \<and> e0 = [] then ei else e0);
          r1 = (if missing \<and> r0 = [] then ri else r0);
          v1 = (if missing \<and> v0 = [] then vi else v0);
          e2 = (if e1 = [] \<and> (r1 \<noteq> [] \<or> v1 \<noteq> [])
                then (let e = infer_entity_from_fact text in if e = [] then ''user'' else e) else e1) in
      \<lparr>pf_content = text, pf_query_view = [], pf_kind = kind, pf_tags = normalize_fact_tags (rf_tags f) kind,
       pf_entity = e2, pf_relation = r1, pf_value = v1, pf_answer_metadata = empty_metadata\<rparr>)"

fun collect_reply_facts :: "nat \<Rightarrow> reply_fact list \<Rightarrow> parsed_fact list \<Rightarrow> parsed_fact list" where
  "collect_reply_facts mx [] out = out"
| "collect_reply_facts mx (f # fs) out =
     (let text = collapse (rf_content f) in
      if \<not> is_informative_fact text \<or> to_lower text \<in> set (map (to_lower \<circ> pf_content) out)
      then collect_reply_facts mx fs out
      else let out' = out @ [reply_parsed_fact text f] in
           if mx \<le> length out' then out' else collect_reply_facts mx fs out')"

definition parse_parser_facts :: "(string \<Rightarrow> reply_fact list option) \<Rightarrow> string \<Rightarrow> int \<Rightarrow> err + parsed_fact list" where
  "parse_parser_facts unmarshal raw mx =
     (if mx \<le> 0 then Inl (ErrMsg ''max facts must be > 0'')
      else case decode_parser_json unmarshal raw of
          Inl e \<Rightarrow> Inl e
        | Inr fs \<Rightarrow> Inr (collect_reply_facts (nat mx) fs []))"

text \<open>The parsers that ask a language model (\<open>info_parser_ollama.go\<close>, \<open>info_parser_openrouter.go\<close>):
  prompting the model and receiving its reply is an argument.\<close>

definition model_parse ::
  "(string \<Rightarrow> int \<Rightarrow> err + string) \<Rightarrow> (string \<Rightarrow> reply_fact list option) \<Rightarrow> string \<Rightarrow> int \<Rightarrow> err + parsed_fact list" where
  "model_parse generate unmarshal content mx =
     (if mx \<le> 0 then Inl (ErrMsg ''max facts must be > 0'')
      else let c = collapse content in
        if c = [] then Inr []
        else case generate c mx of Inl e \<Rightarrow> Inl e | Inr raw \<Rightarrow> parse_parser_facts unmarshal raw mx)"

text \<open>\<open>containsOllamaModel\<close>: a model is offered under its name or under a tagged name.\<close>

definition contains_ollama_model :: "string list \<Rightarrow> string \<Rightarrow> bool" where
  "contains_ollama_model names want =
     (let w = to_lower (trim_space want) in
      list_ex (\<lambda>n. let m = to_lower (trim_space n) in
        m = w \<or> has_prefix m (w @ '':'') \<or> has_prefix w (m @ '':'')) names)"

section \<open>The heuristics of the store path\<close>

definition fact_compound_split_pattern :: regex where
  "fact_compound_split_pattern = fold_case (seqs [spaces1, lit ''and'', spaces1])"

definition source_texts :: "(string \<Rightarrow> int \<Rightarrow> err + parsed_fact list) \<Rightarrow> fact_texts" where
  "source_texts parse =
     \<lparr>tx_parse = parse, tx_anchor = source_time_anchor, tx_canonical = canonicalize_turn_style_fact,
      tx_time_tag = (\<lambda>s. re_match time_tag_pattern s), tx_infer = infer_entity_relation_value,
      tx_infer_entity = infer_entity_from_fact, tx_infer_value = infer_specific_value_candidate,
      tx_admits = passes_canonical_fact_admission,
      tx_generic_view = re_match generic_query_view_pattern, tx_answer = infer_answer_metadata,
      tx_informative = is_informative_fact, tx_speech = re_match generic_speech_pattern,
      tx_chatter = re_match chatter_lead_pattern, tx_temporal = is_temporal_fact,
      tx_anchored = has_absolute_or_anchored_time, tx_clauses = re_split fact_compound_split_pattern,
      tx_identity = re_find_string identity_value_pattern, tx_role = re_find_string role_value_pattern\<rparr>"

section \<open>What a parser returns\<close>

definition parsed_ok :: "parsed_fact \<Rightarrow> bool" where
  "parsed_ok f \<longleftrightarrow> is_informative_fact (pf_content f) \<and> collapse (pf_content f) = pf_content f \<and>
     (pf_kind f = KindEvent \<or> pf_kind f = KindObservation) \<and>
     (pf_entity f = [] \<longrightarrow> pf_relation f = [] \<and> pf_value f = [])"

definition parsed_facts_ok :: "nat \<Rightarrow> parsed_fact list \<Rightarrow> bool" where
  "parsed_facts_ok mx fs \<longleftrightarrow> length fs \<le> mx \<and> distinct (map (to_lower \<circ> pf_content) fs) \<and> (\<forall>f \<in> set fs. parsed_ok f)"

definition facts_distinct_ok :: "parsed_fact list \<Rightarrow> bool" where
  "facts_distinct_ok fs \<longleftrightarrow> distinct (map (to_lower \<circ> pf_content) fs) \<and> (\<forall>f \<in> set fs. parsed_ok f)"

lemma parsed_facts_ok_take: "facts_distinct_ok fs \<Longrightarrow> parsed_facts_ok mx (take mx fs)"
  by (auto simp: facts_distinct_ok_def parsed_facts_ok_def take_map [symmetric] intro: distinct_take dest: in_set_takeD)

lemma infer_all_or_nothing:
  "infer_entity_relation_value c k = (e, r, v) \<Longrightarrow> e = [] \<Longrightarrow> r = [] \<and> v = []"
  by (auto simp: infer_entity_relation_value_def Let_def split: if_splits)

lemma add_fact_ok:
  assumes "facts_distinct_ok out" "k = KindEvent \<or> k = KindObservation"
  shows "facts_distinct_ok (add_fact k tags t out)"
proof -
  obtain e r v where t: "infer_entity_relation_value (collapse t) k = (e, r, v)"
    by (cases "infer_entity_relation_value (collapse t) k") auto
  show ?thesis
    using assms infer_all_or_nothing [OF t]
    by (auto simp: add_fact_def facts_distinct_ok_def parsed_ok_def Let_def t)
qed

lemma add_facts_ok: "facts_distinct_ok out \<Longrightarrow> facts_distinct_ok (add_facts mx os out)"
  by (induction mx os out rule: add_facts.induct) (simp_all add: Let_def add_fact_ok)

lemma reply_fact_ok:
  assumes "is_informative_fact t" "collapse t = t"
  shows "parsed_ok (reply_parsed_fact t f)"
proof -
  obtain e r v where i: "infer_entity_relation_value t (normalize_fact_kind (rf_kind f)) = (e, r, v)"
    by (cases "infer_entity_relation_value t (normalize_fact_kind (rf_kind f))") auto
  show ?thesis
    using assms infer_all_or_nothing [OF i]
    by (auto simp: reply_parsed_fact_def parsed_ok_def normalize_fact_kind_def Let_def i [unfolded normalize_fact_kind_def])
qed

lemma collect_reply_ok:
  "parsed_facts_ok mx out \<Longrightarrow> length out < mx \<Longrightarrow> parsed_facts_ok mx (collect_reply_facts mx fs out)"
proof (induction mx fs out rule: collect_reply_facts.induct)
  case (2 mx f fs out)
  let ?t = "collapse (rf_content f)" and ?out = "out @ [reply_parsed_fact (collapse (rf_content f)) f]"
  show ?case
  proof (cases "\<not> is_informative_fact ?t \<or> to_lower ?t \<in> set (map (to_lower \<circ> pf_content) out)")
    case True
    then show ?thesis using 2 by (simp add: Let_def)
  next
    case False
    have "pf_content (reply_parsed_fact ?t f) = ?t" by (simp add: reply_parsed_fact_def Let_def case_prod_beta)
    then have "parsed_facts_ok mx ?out"
      using False "2.prems" reply_fact_ok [of ?t f] by (auto simp: parsed_facts_ok_def)
    then show ?thesis using False 2 by (simp add: Let_def)
  qed
qed simp

text \<open>C28 Whichever parser is used, the heuristic one or a language model whose reply is decoded, the
  number of facts asked for must be positive, and a parse that succeeds returns at most that many facts:
  with pairwise different contents (up to case), each of them informative and in normal form, of kind
  event or observation, and with an entity whenever it has a relation or a value.\<close>

theorem parsers_return_good_facts:
  "(mx \<le> 0 \<longrightarrow> heuristic_parse c mx = Inl (ErrMsg ''max facts must be > 0'') \<and>
      model_parse generate unmarshal c mx = Inl (ErrMsg ''max facts must be > 0'')) \<and>
   (0 < mx \<longrightarrow> (\<exists>fs. heuristic_parse c mx = Inr fs \<and> parsed_facts_ok (nat mx) fs)) \<and>
   (\<forall>fs. model_parse generate unmarshal c mx = Inr fs \<longrightarrow> parsed_facts_ok (nat mx) fs)"
proof (intro conjI impI allI)
  assume "0 < mx"
  have nil: "facts_distinct_ok []" by (simp add: facts_distinct_ok_def)
  have e: "facts_distinct_ok (case derive_event (collapse c) of None \<Rightarrow> [] | Some e \<Rightarrow> add_fact KindEvent [''event'', ''parser''] e [])"
    using nil add_fact_ok by (simp split: option.splits)
  obtain os where os: "derive_observations (collapse c) mx = Inr os"
    using \<open>0 < mx\<close> by (cases "derive_observations (collapse c) mx")
      (auto simp: derive_observations_def Let_def split: if_splits option.splits)
  show "\<exists>fs. heuristic_parse c mx = Inr fs \<and> parsed_facts_ok (nat mx) fs"
  proof (cases "collapse c = []")
    case True
    then show ?thesis using \<open>0 < mx\<close> by (simp add: heuristic_parse_def parsed_facts_ok_def)
  next
    case False
    define out1 where "out1 = add_facts (nat mx) os (case derive_event (collapse c) of None \<Rightarrow> []
      | Some e \<Rightarrow> add_fact KindEvent [''event'', ''parser''] e [])"
    define out2 where "out2 = (if out1 = [] \<and> is_informative_fact (collapse c)
      then add_fact KindObservation [''observation'', ''parser''] (collapse c) out1 else out1)"
    have "facts_distinct_ok out1" unfolding out1_def using e by (rule add_facts_ok)
    then have "facts_distinct_ok out2" using nil add_fact_ok by (simp add: out2_def)
    moreover have "heuristic_parse c mx = Inr (take (nat mx) out2)"
      using False \<open>0 < mx\<close> by (simp add: heuristic_parse_def Let_def os out1_def out2_def)
    ultimately show ?thesis using parsed_facts_ok_take by blast
  qed
next
  fix fs assume fs: "model_parse generate unmarshal c mx = Inr fs"
  then have "0 < mx" by (simp add: model_parse_def split: if_splits)
  have start: "parsed_facts_ok (nat mx) []" by (simp add: parsed_facts_ok_def)
  show "parsed_facts_ok (nat mx) fs"
    using fs \<open>0 < mx\<close> start collect_reply_ok [OF start]
    by (auto simp: model_parse_def parse_parser_facts_def Let_def split: if_splits sum.splits)
qed (simp_all add: heuristic_parse_def model_parse_def)

theorem parsers_return_good_facts_witness:
  "\<exists>fs. heuristic_parse ''Alice joined the chess club'' 2 = Inr fs \<and> parsed_facts_ok 2 fs \<and> length fs = 1"
proof -
  have "case heuristic_parse ''Alice joined the chess club'' 2 of Inl _ \<Rightarrow> False | Inr fs \<Rightarrow> length fs = 1"
    by code_simp
  then show ?thesis
    using parsers_return_good_facts [of 2 "''Alice joined the chess club''"] by (auto split: sum.splits)
qed

end
