(* ===== verification/Ranking.thy ===== *)
theory Ranking
  imports Routing
begin

text \<open>
  Ranking: \<open>core/scoring\<close>, the fusion of dense and lexical candidates by reciprocal ranks
  (\<open>fuseCandidatesByRRF\<close>), the scores of \<open>rankMemories\<close> and the two reranking passes
  (\<open>rerankScoredCandidates\<close>, \<open>applyEarlyRankRerank\<close>) of \<open>search_ranking_scoring.go\<close> and
  \<open>search_ranking_utils.go\<close>. A Go map keyed by memory ids is a map; the candidates' order is made
  explicit because the code sorts them by a total order. A \<open>float64\<close> is a real number.
\<close>

section \<open>core/scoring\<close>

definition min_max :: "real \<Rightarrow> real \<Rightarrow> real \<Rightarrow> real" where
  "min_max v mn mx = (if mx \<le> mn then 0 else if v < mn then 0 else if v > mx then 1 else (v - mn) / (mx - mn))"

definition recency :: "real \<Rightarrow> real \<Rightarrow> real" where
  "recency decay hours =
     (let d = (if decay \<le> 0 \<or> decay \<ge> 1 then 98 / 100 else decay); h = (if hours < 0 then 0 else hours) in d powr h)"

definition relevance :: "real \<Rightarrow> real" where
  "relevance similarity = (if similarity < 0 then 0 else if similarity > 1 then 1 else similarity)"

record weights =
  w_recency :: real
  w_relevance :: real
  w_importance :: real

definition default_weights :: weights where
  "default_weights = \<lparr>w_recency = 1, w_relevance = 1, w_importance = 1\<rparr>"

definition weighted_score :: "weights \<Rightarrow> real \<Rightarrow> real \<Rightarrow> real \<Rightarrow> real" where
  "weighted_score w r rel imp = w_recency w * r + w_relevance w * rel + w_importance w * imp"

section \<open>Candidates\<close>

record lexical_candidate =
  lc_memory :: memory
  lc_score :: real

record scored_memory =
  sm_memory :: memory
  sm_score :: real

record candidate_signal =
  cs_dense_score :: real
  cs_dense_rank :: int
  cs_lexical_score :: real
  cs_lexical_rank :: int
  cs_rrf_score :: real

definition no_signal :: candidate_signal where
  "no_signal = \<lparr>cs_dense_score = 0, cs_dense_rank = 0, cs_lexical_score = 0, cs_lexical_rank = 0, cs_rrf_score = 0\<rparr>"

definition rank_to_normalized :: "int \<Rightarrow> int \<Rightarrow> real" where
  "rank_to_normalized rank limit =
     (if rank \<le> 0 then 0 else if limit \<le> 1 then 1
      else clamp01 (1 - of_int (rank - 1) / of_int (limit - 1)))"

definition reciprocal_rank_fusion_k :: int where
  "reciprocal_rank_fusion_k = 60"

definition rrf_to_normalized :: "real \<Rightarrow> real" where
  "rrf_to_normalized rrf =
     (if rrf \<le> 0 then 0
      else let base = 1 / of_int (reciprocal_rank_fusion_k + 1) in clamp01 (rrf / (rrf + base)))"

section \<open>Fusion\<close>

text \<open>The loop over one ranked list: the first rank of each identifier and its best score.\<close>

type_synonym rank_scores = "string \<Rightarrow> (int \<times> real) option"

definition note_rank :: "int \<times> string \<times> real \<Rightarrow> rank_scores \<Rightarrow> rank_scores" where
  "note_rank x best =
     (case x of (rank, mid, score) \<Rightarrow>
        if mid = [] then best
        else case best mid of
            None \<Rightarrow> best(mid \<mapsto> (rank, score))
          | Some (r, s) \<Rightarrow>
              if rank < r then best(mid \<mapsto> (rank, score))
              else if score > s then best(mid \<mapsto> (r, score)) else best)"

fun ranked_from :: "int \<Rightarrow> (string \<times> real) list \<Rightarrow> (int \<times> string \<times> real) list" where
  "ranked_from i [] = []"
| "ranked_from i ((mid, s) # xs) = (i, trim_space mid, s) # ranked_from (i + 1) xs"

definition best_ranks :: "(string \<times> real) list \<Rightarrow> rank_scores" where
  "best_ranks xs = fold note_rank (ranked_from 1 xs) Map.empty"

definition reciprocal_rank :: "rank_scores \<Rightarrow> string \<Rightarrow> real" where
  "reciprocal_rank best mid = (case best mid of None \<Rightarrow> 0 | Some (r, _) \<Rightarrow> 1 / of_int (reciprocal_rank_fusion_k + r))"

definition fusion_signal :: "rank_scores \<Rightarrow> rank_scores \<Rightarrow> string \<Rightarrow> candidate_signal" where
  "fusion_signal dense lexical mid =
     \<lparr>cs_dense_score = (case dense mid of None \<Rightarrow> 0 | Some (_, s) \<Rightarrow> clamp01 s),
      cs_dense_rank = (case dense mid of None \<Rightarrow> 0 | Some (r, _) \<Rightarrow> r),
      cs_lexical_score = (case lexical mid of None \<Rightarrow> 0 | Some (_, s) \<Rightarrow> clamp01 s),
      cs_lexical_rank = (case lexical mid of None \<Rightarrow> 0 | Some (r, _) \<Rightarrow> r),
      cs_rrf_score = clamp01 (rrf_to_normalized (reciprocal_rank dense mid + reciprocal_rank lexical mid))\<rparr>"

definition fuse_candidates_by_rrf ::
  "vector_candidate list \<Rightarrow> lexical_candidate list \<Rightarrow> int \<Rightarrow> string list \<times> (string \<Rightarrow> candidate_signal)" where
  "fuse_candidates_by_rrf dense lexical limit =
     (let lim = (if limit \<le> 0 then 10 else limit);
          ds = map (\<lambda>c. (vc_memory c, vc_similarity c)) dense;
          ls = map (\<lambda>c. (m_id (lc_memory c), clamp01 (lc_score c))) lexical;
          db = best_ranks ds; lb = best_ranks ls;
          rrf = (\<lambda>mid. reciprocal_rank db mid + reciprocal_rank lb mid);
          ids = take (nat lim) (sort_key (\<lambda>mid. (- rrf mid, mid)) (uniq_trimmed (map fst (ds @ ls)))) in
      (ids, \<lambda>mid. if mid \<in> set ids then fusion_signal db lb mid else no_signal))"

section \<open>The candidate window\<close>

definition candidate_window :: "int \<Rightarrow> query_profile \<Rightarrow> query_plan \<Rightarrow> bool \<Rightarrow> search_tuning \<Rightarrow> int" where
  "candidate_window top_k profile plan has_filters t =
     (let k = (if top_k \<le> 0 then 10 else top_k);
          n0 = k * st_window_multiplier t;
          n1 = (if n0 < st_window_min t then st_window_min t else n0);
          n2 = (if qp_multi_hop profile then n1 + st_window_multi_hop_boost t
                else if qp_temporal profile then n1 + st_window_temporal_boost t else n1);
          n3 = (if has_filters then n2 + st_window_filter_boost t else n2);
          n4 = (if pl_confidence plan < st_plan_confidence_threshold t then n3 + k * 2 else n3);
          mx = (if qp_multi_hop profile \<or> has_filters then max (st_window_max t) 320 else st_window_max t) in
      if n4 > mx then mx else n4)"

section \<open>Scores\<close>

definition retrieval_signal_weights :: "candidate_signal \<Rightarrow> real list" where
  "retrieval_signal_weights s =
     (let dense = \<not> (cs_dense_score s = 0 \<and> cs_dense_rank s = 0) in
      map (max 0) [if dense then 34 / 100 else 0, 12 / 100, if dense then 8 / 100 else 0, 20 / 100,
                   10 / 100, 10 / 100, 6 / 100])"

definition relation_hint_tokens :: "string \<Rightarrow> string list" where
  "relation_hint_tokens relation =
     (let r = to_lower (trim_space relation) in
      if r = ''activity'' then [''activity'', ''activities'', ''hobby'', ''interest'', ''enjoys'', ''likes'', ''does'']
      else if r = ''event'' then [''event'', ''attended'', ''joined'', ''participated'', ''met'', ''happened'']
      else if r = ''place'' then [''place'', ''visited'', ''went'', ''travel'', ''trip'', ''location'']
      else if r = ''book'' then [''book'', ''read'', ''reading'', ''novel'']
      else if r = ''role'' then [''role'', ''job'', ''works'', ''position'']
      else if r = ''identity'' then [''name'', ''identity'', ''is'', ''called'']
      else if relation = [] then [] else [to_lower relation])"

definition entity_relation_signal :: "query_plan \<Rightarrow> string \<Rightarrow> real" where
  "entity_relation_signal plan content =
     (let entity = to_lower (trim_space (primary_entity plan)); lowered = to_lower content;
          relation = trim_space (primary_relation plan) in
      if entity = [] \<or> \<not> str_contains lowered entity then 0
      else if relation = [] then 65 / 100
      else if list_ex (str_contains lowered) (relation_hint_tokens relation) then 1 else 65 / 100)"

definition is_canonical_fact_memory :: "memory \<Rightarrow> bool" where
  "is_canonical_fact_memory m \<longleftrightarrow> trim_space (m_canonical_key m) \<noteq> [] \<and> \<not> m_source_fact_index m < 0 \<and>
     (m_kind m = KindObservation \<or> m_kind m = KindEvent)"

definition apply_low_evidence_penalty :: "real \<Rightarrow> real \<Rightarrow> real \<Rightarrow> real \<Rightarrow> real" where
  "apply_low_evidence_penalty tot raw_relevance overlap rrf =
     (if rrf \<ge> 75 / 100 then clamp01 tot
      else if raw_relevance < 30 / 100 \<and> overlap < 15 / 100 \<and> rrf < 65 / 100 then clamp01 (tot * (25 / 100))
      else if raw_relevance < 55 / 100 \<and> overlap < 20 / 100 \<and> rrf < 55 / 100 then clamp01 (tot * (45 / 100))
      else clamp01 tot)"

definition conversational_noise_pattern :: regex where
  "conversational_noise_pattern = fold_case (whole
     ''said that|totally agree|absolutely|thanks|thank you|yeah|yep|wow|great|sounds good'')"

definition factoid_query_pattern :: regex where
  "factoid_query_pattern = fold_case (seqs [TextStart, spaces0, bars ''what|who|which|whose|where|when'', WordBnd])"

definition kind_multiplier :: "memory \<Rightarrow> bool \<Rightarrow> query_plan \<Rightarrow> real" where
  "kind_multiplier m has_non_raw plan =
     (case m_kind m of
        KindObservation \<Rightarrow> 108 / 100
      | KindEvent \<Rightarrow> 106 / 100
      | KindSummary \<Rightarrow> 96 / 100 * (if has_prefix (pl_answer_type plan) ''open_domain_'' then 110 / 100 else 1)
      | KindRawTurn \<Rightarrow>
          if has_non_raw
          then 86 / 100 *
            (if pl_answer_type plan = ''single_fact_boolean'' \<or> pl_answer_type plan = ''single_fact_quote''
             then 118 / 100 else 1) *
            (if re_match conversational_noise_pattern (to_lower (m_content m)) then 80 / 100 else 1)
          else 1
      | KindOther _ \<Rightarrow> 1)"

definition answer_type_multiplier :: "memory \<Rightarrow> query_plan \<Rightarrow> retrieval_options \<Rightarrow> real" where
  "answer_type_multiplier m plan behavior =
     (let t = pl_answer_type plan; a = m_answer_metadata m in
      if \<not> ro_answer_type_routing behavior then 1
      else if t = ''single_fact_quote'' then
        (if am_answer_kind a = ''quote'' \<or> re_match quote_query_pattern (to_lower (m_content m)) then 114 / 100 else 1)
      else if t = ''single_fact_boolean'' then (if am_answer_kind a = ''boolean'' then 112 / 100 else 1)
      else if t = ''single_fact_location_or_person'' then (if am_answer_kind a = ''entity'' then 110 / 100 else 1)
      else if t \<in> set open_domain_types then
        (if ro_profile_support_links behavior \<and> am_support_lines a \<noteq> [] then 108 / 100 else 1)
      else 1)"

definition apply_single_hop_precision_boost ::
  "real \<Rightarrow> real \<Rightarrow> real \<Rightarrow> memory \<Rightarrow> bool \<Rightarrow> query_plan \<Rightarrow> retrieval_options \<Rightarrow> real" where
  "apply_single_hop_precision_boost tot overlap dependency m has_non_raw plan behavior =
     (let adjusted = clamp01 (76 / 100 * clamp01 tot + 14 / 100 * clamp01 overlap + 10 / 100 * clamp01 dependency) in
      clamp01 (adjusted *
        ((if is_canonical_fact_memory m then 112 / 100 else 1) *
         (if dependency \<ge> 50 / 100 then 104 / 100 else 1) *
         kind_multiplier m has_non_raw plan * answer_type_multiplier m plan behavior)))"

definition should_use_relevance_first :: "string \<Rightarrow> query_profile \<Rightarrow> bool" where
  "should_use_relevance_first qry profile =
     (if qp_multi_hop profile \<or> qp_temporal profile then False
      else let q = trim_space qry in
           q \<noteq> [] \<and> (qp_person profile \<or> re_match factoid_query_pattern q))"

definition should_expand_grounded_context :: "query_profile \<Rightarrow> bool" where
  "should_expand_grounded_context profile \<longleftrightarrow> qp_temporal profile \<or> qp_multi_hop profile"

definition should_apply_pairwise_rerank :: "query_profile \<Rightarrow> multi_hop_options \<Rightarrow> bool" where
  "should_apply_pairwise_rerank profile mh =
     (if qp_temporal profile then False else if qp_multi_hop profile then mh_pairwise_rerank mh else True)"

text \<open>The first loop of \<open>rankMemories\<close>: the raw values of a memory. \<open>Time.Sub\<close> saturates at the
  range of a duration.\<close>

definition time_sub :: "gotime \<Rightarrow> gotime \<Rightarrow> int" where
  "time_sub a b = max (- (2 ^ 63)) (min (2 ^ 63 - 1) (a - b))"

definition last_access :: "memory \<Rightarrow> gotime" where
  "last_access m =
     (let a = m_last_accessed_at m; b = (if is_zero a then m_updated_at m else a) in
      if is_zero b then m_created_at m else b)"

definition recency_raw :: "gotime \<Rightarrow> memory \<Rightarrow> real" where
  "recency_raw now m =
     (let hours = of_int (time_sub now (last_access m)) / (3600 * 10 ^ 9);
          h = (if hours < 0 then 0 else hours) in recency (995 / 1000) h)"

definition raw_relevance :: "candidate_signal \<Rightarrow> int \<Rightarrow> query_profile \<Rightarrow> query_plan \<Rightarrow> retrieval_options \<Rightarrow> memory \<Rightarrow> real" where
  "raw_relevance s limit profile plan behavior m =
     weighted_average
       [cs_dense_score s, cs_lexical_score s, rank_to_normalized (cs_dense_rank s) limit,
        rank_to_normalized (cs_lexical_rank s) limit, cs_rrf_score s,
        entity_relation_signal plan (m_content m), normalized_route_boost (route_boost m profile plan behavior)]
       (retrieval_signal_weights s)"

definition importance_raw :: "memory \<Rightarrow> real" where
  "importance_raw m = clip_unit (m_importance m)"

definition least_of :: "real list \<Rightarrow> real" where
  "least_of xs = fold min xs 1"

definition greatest_of :: "real list \<Rightarrow> real" where
  "greatest_of xs = fold max xs 0"

definition spread :: "real list \<Rightarrow> real \<Rightarrow> real" where
  "spread xs v = min_max v (least_of xs) (greatest_of xs)"

text \<open>The second loop: the total of a memory, given the raw values of all of them.\<close>

definition match_total ::
  "real \<Rightarrow> real \<Rightarrow> real \<Rightarrow> real \<Rightarrow> real \<Rightarrow> real \<Rightarrow> match_weights \<Rightarrow> real" where
  "match_total rec rel imp overlap dependency route w =
     weighted_average
       [rec, rel, imp,
        if dependency > 0 then clamp01 (8 / 10 * overlap + 2 / 10 * dependency) else overlap, route]
       [mw_recency w, mw_relevance w, mw_importance w, mw_query_overlap w, mw_routing w]"

definition wal_total :: "real \<Rightarrow> real \<Rightarrow> real \<Rightarrow> bool \<Rightarrow> wal_weights \<Rightarrow> real" where
  "wal_total rec rel imp relevance_first w =
     weighted_average [rec, rel, imp]
       (if relevance_first
        then [ww_recency w * (20 / 100), ww_relevance w * (175 / 100), ww_importance w * (25 / 100)]
        else [ww_recency w, ww_relevance w, ww_importance w])"

definition rank_total ::
  "real \<Rightarrow> real \<Rightarrow> real \<Rightarrow> real \<Rightarrow> candidate_signal \<Rightarrow> memory \<Rightarrow> bool \<Rightarrow> string \<Rightarrow> query_profile \<Rightarrow> query_plan \<Rightarrow>
   ranking_options \<Rightarrow> retrieval_options \<Rightarrow> real" where
  "rank_total rec rel imp raw s m has_non_raw qry profile plan ranking behavior =
     (let overlap = query_overlap_score (normalized_ranking_tokens qry) (normalized_ranking_tokens (m_content m));
          dependency = ordered_bigram_coverage qry (m_content m);
          single = \<not> qp_temporal profile \<and> \<not> qp_multi_hop profile in
      if rk_algorithm ranking = ''match''
      then match_total rec rel imp overlap dependency
             (normalized_route_boost (route_boost m profile plan behavior)) (rk_match ranking)
      else let t0 = wal_total rec rel imp (should_use_relevance_first qry profile) (rk_wal ranking);
               t1 = (if single then apply_single_hop_precision_boost t0 overlap dependency m has_non_raw plan behavior
                     else t0);
               t2 = (if single then apply_low_evidence_penalty t1 raw overlap (cs_rrf_score s) else t1) in
           if qp_temporal profile \<or> qp_person profile \<or> qp_multi_hop profile
           then clamp01 ((if t2 = 0 then 1 else t2) * route_boost m profile plan behavior)
           else t2)"

definition rank_memories ::
  "gotime \<Rightarrow> memory list \<Rightarrow> (string \<Rightarrow> candidate_signal) \<Rightarrow> int \<Rightarrow> string \<Rightarrow> query_profile \<Rightarrow> query_plan \<Rightarrow>
   ranking_options \<Rightarrow> retrieval_options \<Rightarrow> scored_memory list" where
  "rank_memories now ms signals limit qry profile plan ranking behavior =
     (let has_non_raw = list_ex (\<lambda>m. m_kind m \<noteq> KindRawTurn) ms;
          raw = (\<lambda>m. raw_relevance (signals (m_id m)) limit profile plan behavior m);
          recs = map (recency_raw now) ms; rels = map (\<lambda>m. relevance (raw m)) ms; imps = map importance_raw ms in
      map (\<lambda>m. \<lparr>sm_memory = m, sm_score =
             rank_total (spread recs (recency_raw now m)) (spread rels (relevance (raw m)))
               (spread imps (importance_raw m)) (raw m) (signals (m_id m)) m has_non_raw qry profile plan
               ranking behavior\<rparr>) ms)"

section \<open>Orders and reranking\<close>

definition score_order :: "scored_memory \<Rightarrow> real \<times> string" where
  "score_order x = (- sm_score x, m_id (sm_memory x))"

definition sort_scored_by_score :: "scored_memory list \<Rightarrow> scored_memory list" where
  "sort_scored_by_score xs = sort_key score_order xs"

text \<open>\<open>slices.SortFunc\<close> with a comparison that leaves equal scores alone is not stable: where equal
  scores end up is the argument \<open>tie\<close>.\<close>

definition sort_by_score :: "(string \<Rightarrow> nat) \<Rightarrow> scored_memory list \<Rightarrow> scored_memory list" where
  "sort_by_score tie xs = sort_key (\<lambda>x. (- sm_score x, tie (m_id (sm_memory x)))) xs"

definition rerank_window :: "rerank_options \<Rightarrow> int \<Rightarrow> nat \<Rightarrow> nat" where
  "rerank_window opts top_k n =
     (let w0 = positive_or (rr_window default_rerank_options) (rr_window opts);
          w1 = (if top_k > w0 then top_k else w0) in nat (min w1 (int n)))"

definition rerank_scored_candidates :: "rerank_options \<Rightarrow> scored_memory list \<Rightarrow> string \<Rightarrow> int \<Rightarrow> scored_memory list" where
  "rerank_scored_candidates opts items qry top_k =
     (if \<not> rr_enabled opts \<or> length items < 2 then items
      else let window = rerank_window opts top_k (length items);
               b0 = clip_unit (rr_blend opts);
               blend = (if b0 = 0 then rr_blend default_rerank_options else b0);
               head = take window items;
               idf = build_local_idf_map qry (map sm_memory head) in
           sort_scored_by_score (map (\<lambda>x. x\<lparr>sm_score := clamp01
               ((1 - blend) * sm_score x + blend * pairwise_rerank_score qry (sm_memory x) idf)\<rparr>) head) @
           drop window items)"

definition early_rank_rerank_window :: "retrieval_options \<Rightarrow> int \<Rightarrow> int \<Rightarrow> query_profile \<Rightarrow> query_plan \<Rightarrow> int" where
  "early_rank_rerank_window behavior scored_len top_k profile plan =
     (if scored_len \<le> 1 then scored_len
      else let t = normalize_search_tuning (ro_search_tuning behavior);
               w0 = st_early_rerank_base t;
               w1 = (if top_k > 0 \<and> top_k * 4 > w0 then top_k * 4 else w0);
               w2 = (if qp_temporal profile \<or> qp_multi_hop profile then w1 + top_k else w1);
               w3 = (if pl_confidence plan < st_plan_confidence_threshold t then w2 + max 8 (top_k * 2) else w2);
               w4 = (if w3 > st_early_rerank_max t then st_early_rerank_max t else w3);
               w5 = (if w4 > scored_len then scored_len else w4) in
           if w5 < 2 then 2 else w5)"

definition answer_type_signal :: "memory \<Rightarrow> string \<Rightarrow> retrieval_options \<Rightarrow> real" where
  "answer_type_signal m t behavior =
     (let a = m_answer_metadata m; k = m_kind m; lowered = to_lower (m_content m) in
      if t = ''single_fact_boolean'' then
        (if am_answer_kind a = ''boolean'' then 18 / 100 else 0) +
        (if k = KindRawTurn \<or> k = KindEvent then 10 / 100 else 0)
      else if t = ''single_fact_quote'' then
        (if am_answer_kind a = ''quote'' \<or> re_match quote_query_pattern lowered then 22 / 100 else 0) -
        (if k = KindSummary then 8 / 100 else 0)
      else if t = ''single_fact_list'' then
        (if k = KindSummary \<or> k = KindObservation \<or> k = KindEvent then 12 / 100 else 0)
      else if t = ''single_fact_location_or_person'' then
        (if am_answer_kind a = ''entity'' then 15 / 100 else 0) - (if k = KindSummary then 6 / 100 else 0)
      else if t \<in> set temporal_types then
        (if k = KindEvent \<or> k = KindRawTurn then 12 / 100 else 0) +
        (if temporal_metadata a then 18 / 100 else 0) +
        (if re_match time_tag_pattern lowered then 8 / 100 else 0)
      else if t \<in> set open_domain_types then
        (if k = KindSummary then 18 / 100 else 0) +
        (if ro_profile_support_links behavior \<and> (am_support_lines a \<noteq> [] \<or> am_support_memory_ids a \<noteq> [])
         then 15 / 100 else 0)
      else 0)"

definition early_rank_signal :: "string list \<Rightarrow> query_plan \<Rightarrow> memory \<Rightarrow> retrieval_options \<Rightarrow> real" where
  "early_rank_signal query_tokens plan m behavior =
     (let lowered = to_lower (m_content m); entity = primary_entity plan in
      clamp01
        (query_overlap_score query_tokens (normalized_ranking_tokens (m_content m)) +
         (if entity \<noteq> [] \<and> str_contains lowered (to_lower entity) then 10 / 100 else 0) +
         (if list_ex (\<lambda>h. h \<noteq> [] \<and> str_contains lowered (to_lower h)) (pl_time_constraints plan) then 10 / 100 else 0) +
         answer_type_signal m (pl_answer_type plan) behavior +
         (if ro_profile_support_links behavior \<and> am_support_lines (m_answer_metadata m) \<noteq> [] then 3 / 100 else 0)))"

definition apply_early_rank_rerank ::
  "retrieval_options \<Rightarrow> scored_memory list \<Rightarrow> string \<Rightarrow> query_plan \<Rightarrow> int \<Rightarrow> query_profile \<Rightarrow> scored_memory list" where
  "apply_early_rank_rerank behavior scored qry plan top_k profile =
     (let window = early_rank_rerank_window behavior (int (length scored)) top_k profile plan;
          tokens = normalized_ranking_tokens qry in
      if length scored \<le> 1 \<or> window \<le> 1 then scored
      else sort_scored_by_score (map (\<lambda>x. x\<lparr>sm_score := clamp01
               (72 / 100 * sm_score x + 28 / 100 * early_rank_signal tokens plan (sm_memory x) behavior)\<rparr>)
               (take (nat window) scored)) @ drop (nat window) scored)"

definition prefer_canonical_units :: "scored_memory list \<Rightarrow> scored_memory list" where
  "prefer_canonical_units items =
     (let promoted = filter (\<lambda>x. m_kind (sm_memory x) \<noteq> KindRawTurn) items;
          raw = filter (\<lambda>x. m_kind (sm_memory x) = KindRawTurn) items in
      if promoted = [] \<or> raw = [] then items else promoted @ raw)"

end
