(* ===== verification/SearchQueries.thy ===== *)
theory SearchQueries
  imports Ranking HeuristicParser
begin

text \<open>
  The queries a search runs (\<open>search_expansion.go\<close>): the query itself, its condensed form and its
  rewrites, and the queries added when the first results are weak or the question has several hops; the
  sub-queries of a language model (\<open>multi_hop_decomposer.go\<close>); and the seeds, relation hints and scores
  of the graph bridge (\<open>search_graph.go\<close>). The properties: the lists have no repetition up to case and
  respect their limits.
\<close>

section \<open>Rewrites\<close>

definition build_intent_aware_rewrites :: "string \<Rightarrow> string list" where
  "build_intent_aware_rewrites qry =
     (let l = to_lower (trim_space qry); has = list_ex (str_contains l) in
      if l = [] then []
      else (if has_prefix l ''why '' \<or> has ['' reason ''] then [qry @ '' motivation because''] else []) @
           (if has [''symbolize'', ''symbolise'', ''meaning''] then [qry @ '' reminder represents means''] else []) @
           (if has [''when '', '' date '', ''time ''] then [qry @ '' date time year month''] else []) @
           (if has [''who '', ''whose ''] then [qry @ '' person identity name''] else []))"

text \<open>The closure \<open>add\<close> of \<open>buildSearchQueries\<close>.\<close>

definition add_query :: "string \<Rightarrow> string list \<Rightarrow> string list" where
  "add_query text qs =
     (let t = normalize_fact_content text in
      if t = [] \<or> to_lower t \<in> set (map to_lower qs) then qs else qs @ [t])"

definition build_search_queries :: "string \<Rightarrow> query_profile \<Rightarrow> string list" where
  "build_search_queries qry profile =
     fold add_query
       ([qry, condense_search_query qry] @
        concat (map (\<lambda>r. [r, condense_search_query r]) (build_intent_aware_rewrites qry)) @
        (case classify_aggregation_query qry of None \<Rightarrow> [] | Some (e, r) \<Rightarrow> [e @ '' '' @ r]) @
        (if qp_temporal profile \<or> qp_multi_hop profile
         then map condense_search_query (re_split search_split_pattern qry) else [])) []"

fun append_unique_from :: "string list \<Rightarrow> string list \<Rightarrow> string list \<Rightarrow> string list" where
  "append_unique_from seen out [] = out"
| "append_unique_from seen out (q # qs) =
     (let key = to_lower (trim_space q) in
      if key = [] \<or> key \<in> set seen then append_unique_from seen out qs
      else append_unique_from (key # seen) (out @ [q]) qs)"

definition append_unique_search_queries :: "string list \<Rightarrow> string list \<Rightarrow> string list" where
  "append_unique_search_queries base extra =
     append_unique_from (map (\<lambda>q. to_lower (trim_space q)) base) base extra"

section \<open>Weak first results\<close>

definition best_lexical_candidate_score :: "lexical_candidate list \<Rightarrow> real" where
  "best_lexical_candidate_score cs = fold (\<lambda>c best. if lc_score c > best then lc_score c else best) cs 0"

definition backoff_add :: "int \<Rightarrow> string \<Rightarrow> string list \<Rightarrow> string list" where
  "backoff_add mx text out =
     (if mx \<le> int (length out) then out
      else let t = condense_search_query text in
           if t = [] then out else append_unique_search_queries out [t])"

definition build_low_confidence_backoff_queries :: "string \<Rightarrow> query_profile \<Rightarrow> int \<Rightarrow> string list" where
  "build_low_confidence_backoff_queries qry profile mx =
     (if mx \<le> 0 then []
      else fold (backoff_add mx)
        ([qry] @
         (case classify_entity_hint_query qry profile of None \<Rightarrow> [] | Some e \<Rightarrow> [e]) @
         (case classify_aggregation_query qry of None \<Rightarrow> [] | Some (e, r) \<Rightarrow> [e @ '' '' @ r]) @
         (if qp_temporal profile then [qry @ '' date time''] else []) @
         (if qp_multi_hop profile then re_split search_split_pattern qry else [])) [])"

definition is_all_digits :: "string \<Rightarrow> bool" where
  "is_all_digits t \<longleftrightarrow> t \<noteq> [] \<and> list_all re_digit t"

text \<open>The order of the candidates: best score first, by identifier where the scores are equal.\<close>

definition order_lexical :: "lexical_candidate list \<Rightarrow> lexical_candidate list" where
  "order_lexical cs = sort_key (\<lambda>c. (- lc_score c, m_id (lc_memory c))) cs"

definition prf_tokens :: "string list \<Rightarrow> memory \<Rightarrow> string list" where
  "prf_tokens base m =
     filter (\<lambda>t. 3 \<le> length t \<and> t \<notin> set base \<and> t \<notin> set search_stopwords \<and> \<not> is_all_digits t)
       (normalized_ranking_token_list (m_content m @ [newline] @ m_query_view m))"

text \<open>The statistics of a token over the feedback documents: occurrences and documents with it.\<close>

definition prf_score :: "string list list \<Rightarrow> string \<Rightarrow> real" where
  "prf_score docs t = 75 / 100 * of_nat (length (filter (\<lambda>d. t \<in> set d) docs)) +
     25 / 100 * of_nat (sum_list (map (\<lambda>d. count_list d t) docs))"

definition build_pseudo_relevance_queries ::
  "string \<Rightarrow> query_profile \<Rightarrow> lexical_candidate list \<Rightarrow> int \<Rightarrow> string list" where
  "build_pseudo_relevance_queries qry profile lexical mx =
     (if mx \<le> 0 \<or> length lexical < 6 \<or> qp_multi_hop profile then []
      else let ordered = order_lexical lexical; best = lc_score (hd ordered);
               base = normalized_ranking_tokens qry in
        if best < 20 / 100 \<or> best \<ge> 75 / 100 \<or> base = [] then []
        else let docs = map (\<lambda>c. prf_tokens base (lc_memory c)) (take 8 ordered);
                 frequent = filter (\<lambda>t. 3 \<le> length (filter (\<lambda>d. t \<in> set d) docs)) (uniq (concat docs));
                 extra = take 2 (sort_key (\<lambda>t. (- prf_score docs t, t)) frequent);
                 refined = condense_search_query (qry @ '' '' @ join_with '' '' extra) in
          if extra = [] \<or> refined = [] \<or> to_lower refined = to_lower (condense_search_query qry) then []
          else [refined])"

definition build_adaptive_search_queries ::
  "string \<Rightarrow> query_profile \<Rightarrow> query_plan \<Rightarrow> lexical_candidate list \<Rightarrow> search_tuning \<Rightarrow> string list" where
  "build_adaptive_search_queries qry profile plan lexical t =
     (let mx = st_max_extra_queries t in
      if \<not> st_expansion_enabled t \<or> mx \<le> 0 then []
      else if lexical \<noteq> [] \<and> pl_confidence plan \<ge> st_plan_confidence_threshold t \<and>
        best_lexical_candidate_score lexical \<ge> st_weak_lexical_threshold t then []
      else let out0 = append_unique_search_queries [] (build_pseudo_relevance_queries qry profile lexical mx);
               remaining = mx - int (length out0);
               out1 = (if remaining > 0 then append_unique_search_queries out0
                         (build_low_confidence_backoff_queries qry profile remaining) else out0) in
           take (nat mx) out1)"

section \<open>Several hops\<close>

text \<open>Raw turns and memories without a kind are no first-hop evidence.\<close>

definition hop_evidence :: "lexical_candidate \<Rightarrow> bool" where
  "hop_evidence c \<longleftrightarrow> kind_text (m_kind (lc_memory c)) \<noteq> [] \<and> m_kind (lc_memory c) \<noteq> KindRawTurn"

definition best_evidence_score :: "lexical_candidate list \<Rightarrow> real" where
  "best_evidence_score cs = best_lexical_candidate_score (filter hop_evidence cs)"

definition should_expand_multi_hop_queries :: "string \<Rightarrow> lexical_candidate list \<Rightarrow> bool" where
  "should_expand_multi_hop_queries qry lexical =
     (3 \<le> length (normalized_ranking_tokens qry) \<and>
      best_evidence_score lexical > 0 \<and> best_evidence_score lexical < 90 / 100)"

definition extract_multi_hop_novel_tokens :: "string list \<Rightarrow> string \<Rightarrow> string list" where
  "extract_multi_hop_novel_tokens base content =
     (if base = [] then []
      else sort (filter (\<lambda>t. 3 \<le> length t \<and> t \<notin> set base \<and> t \<notin> set search_stopwords \<and> \<not> is_all_digits t)
             (normalized_ranking_tokens content)))"

fun iterate_hops :: "string \<Rightarrow> string list \<Rightarrow> real \<Rightarrow> nat \<Rightarrow> lexical_candidate list \<Rightarrow> string list \<Rightarrow> string list" where
  "iterate_hops qry base least mx [] out = out"
| "iterate_hops qry base least mx (c # cs) out =
     (if mx \<le> length out then out
      else if lc_score c < least \<or> \<not> hop_evidence c then iterate_hops qry base least mx cs out
      else let extra = extract_multi_hop_novel_tokens base (m_content (lc_memory c));
               refined = condense_search_query (qry @ '' '' @ join_with '' '' (take 4 extra)) in
           if length extra < 2 \<or> trim_space refined = [] \<or> to_lower refined \<in> set (map to_lower out)
           then iterate_hops qry base least mx cs out
           else iterate_hops qry base least mx cs (out @ [refined]))"

definition build_iterative_multi_hop_queries :: "string \<Rightarrow> lexical_candidate list \<Rightarrow> int \<Rightarrow> string list" where
  "build_iterative_multi_hop_queries qry lexical mx =
     (if mx \<le> 0 \<or> lexical = [] \<or> \<not> should_expand_multi_hop_queries qry lexical then []
      else let ordered = order_lexical lexical;
               least = max (18 / 100) (best_evidence_score ordered * (80 / 100)) in
           iterate_hops qry (normalized_ranking_tokens qry) least (nat mx) ordered [])"

section \<open>Sub-queries of a language model\<close>

fun sanitize_from :: "int \<Rightarrow> string list \<Rightarrow> string list \<Rightarrow> string list" where
  "sanitize_from mx out [] = out"
| "sanitize_from mx out (q # qs) =
     (let c = condense_search_query (trim_space q) in
      if c = [] \<or> to_lower c \<in> set (map to_lower out) then sanitize_from mx out qs
      else if mx \<le> int (Suc (length out)) then out @ [c] else sanitize_from mx (out @ [c]) qs)"

definition sanitize_decomposed_queries :: "string list \<Rightarrow> int \<Rightarrow> string list" where
  "sanitize_decomposed_queries qs mx = sanitize_from mx [] qs"

text \<open>\<open>tryDecode\<close>: the JSON object with \<open>sub_queries\<close>, then the JSON array, if not empty; decoding them is
  an argument. The reply as a whole, then what is between the outer braces, then between the outer
  brackets.\<close>

definition between :: "string \<Rightarrow> string \<Rightarrow> string \<Rightarrow> string option" where
  "between s l r = (case (index_of s l, last_index_of s r) of
     (Some i, Some j) \<Rightarrow> if i < j then Some (take (j + 1 - i) (drop i s)) else None | _ \<Rightarrow> None)"

definition parse_multi_hop_decomposition :: "(string \<Rightarrow> string list option) \<Rightarrow> string \<Rightarrow> int \<Rightarrow> err + string list" where
  "parse_multi_hop_decomposition decode raw mx =
     (let t = trim_space raw;
          attempts = [Some t, between t ''{'' ''}'', between t ''['' '']''] in
      if t = [] then Inl (ErrMsg ''empty decomposition response'')
      else case find (\<lambda>a. a \<noteq> None) (map (\<lambda>a. case a of None \<Rightarrow> None | Some s \<Rightarrow> decode s) attempts) of
          Some (Some qs) \<Rightarrow> Inr (sanitize_decomposed_queries qs mx)
        | _ \<Rightarrow> Inl (ErrMsg ''decomposition response is not valid JSON''))"

definition decompose ::
  "(string \<Rightarrow> int \<Rightarrow> err + string) \<Rightarrow> (string \<Rightarrow> string list option) \<Rightarrow> string \<Rightarrow> int \<Rightarrow> err + string list" where
  "decompose generate decode qry mx =
     (let q = trim_space qry in
      if mx \<le> 0 then Inl (ErrMsg ''max queries must be > 0'')
      else if q = [] then Inr []
      else case generate q mx of
          Inl e \<Rightarrow> Inl e
        | Inr raw \<Rightarrow> parse_multi_hop_decomposition decode raw mx)"

text \<open>\<open>buildLLMMultiHopQueries\<close> with the service's decomposer, if it has one.\<close>

definition build_llm_multi_hop_queries ::
  "(string \<Rightarrow> int \<Rightarrow> err + string list) option \<Rightarrow> multi_hop_options \<Rightarrow> string \<Rightarrow> err + string list" where
  "build_llm_multi_hop_queries decomposer mh qry =
     (case decomposer of
        None \<Rightarrow> Inr []
      | Some d \<Rightarrow>
          if \<not> mh_llm_decomposition mh then Inr []
          else case d qry (positive_or (mh_max_decomposition_queries default_multi_hop_options)
                 (mh_max_decomposition_queries mh)) of
              Inl e \<Rightarrow> Inl e
            | Inr qs \<Rightarrow> Inr (filter (\<lambda>c. c \<noteq> [] \<and> to_lower c \<noteq> to_lower (condense_search_query qry))
                 (map condense_search_query qs)))"

section \<open>The graph bridge\<close>

definition add_seed :: "string \<Rightarrow> string list \<Rightarrow> string list" where
  "add_seed e seeds =
     (let n = normalize_entity_fact_entity e in if n = [] \<or> n \<in> set seeds then seeds else seeds @ [n])"

definition graph_entity_bridge_seeds :: "string \<Rightarrow> query_plan \<Rightarrow> lexical_candidate list \<Rightarrow> int \<Rightarrow> string list" where
  "graph_entity_bridge_seeds qry plan lexical limit =
     (let seeds = fold add_seed
            (pl_entities plan @ re_find_all entity_name_pattern qry @
             map (\<lambda>c. infer_entity_from_fact (m_content (lc_memory c))) (take 8 (order_lexical lexical))) [] in
      take (nat (if limit \<le> 0 then 4 else limit)) seeds)"

definition relation_hint_terms :: "(string \<times> string list) list" where
  "relation_hint_terms =
     [(''activity'', [''activity'', ''activities'', ''hobby'', ''hobbies'', ''interest'', ''interests'', ''participat'', ''partake'']),
      (''preference'', [''favorite'', ''favorites'', ''prefer'', ''prefers'', ''likes'', ''enjoy'', ''love'', ''loves'']),
      (''event'', [''event'', ''events'', ''attend'', ''attended'', ''join'', ''joined'', ''meet'', ''met'', ''happen'', ''happened'']),
      (''plan'', [''plan'', ''planned'', ''planning'', ''goal'', ''goals'']),
      (''goal'', [''dream'', ''dreams'', ''aspire'', ''aspiring'', ''aim'', ''aims'']),
      (''identity'', [''name'', ''identity'', ''called'']),
      (''role'', [''role'', ''job'', ''work'', ''works'', ''position'']),
      (''relationship'', [''relationship'', ''friend'', ''friends'', ''family'', ''parent'', ''child'', ''children'', ''kids'', ''mentor'', ''partner'']),
      (''relationship status'', [''status'', ''single'', ''married'', ''divorced'', ''engaged'', ''dating'']),
      (''belief'', [''believe'', ''belief'', ''beliefs'', ''think'', ''thinks'', ''opinion'', ''stance'']),
      (''value'', [''value'', ''values'', ''principle'', ''principles'', ''care about'']),
      (''trait'', [''trait'', ''traits'', ''personality'', ''character'', ''tendency'', ''tendencies'']),
      (''place'', [''place'', ''places'', ''live'', ''lives'', ''move'', ''moved'', ''travel'', ''trip'', ''location'', ''where'']),
      (''book'', [''book'', ''books'', ''read'', ''reading'', ''novel''])]"

definition graph_relation_hints :: "string \<Rightarrow> query_plan \<Rightarrow> string list" where
  "graph_relation_hints qry plan =
     (let lowered = to_lower (trim_space qry);
          hints = fold add_relation
            (pl_relations plan @ map fst (filter (\<lambda>(_, ts). list_ex (str_contains lowered) ts) relation_hint_terms)) [] in
      if hints = [] then [''activity'', ''preference'', ''event'', ''plan'', ''goal'', ''identity'', ''role'',
        ''relationship'', ''relationship status'', ''place'', ''book'']
      else hints)"

definition graph_bridge_candidate_score :: "string \<Rightarrow> string \<Rightarrow> string list \<Rightarrow> real \<Rightarrow> real \<Rightarrow> real" where
  "graph_bridge_candidate_score qry content entities path weight =
     (let hit = (if list_ex (str_contains (to_lower content)) entities then 1 else 0);
          base = clamp01 (72 / 100 * lexical_content_score qry content + 28 / 100 * hit);
          p = clamp01 path; w = clamp01 weight in
      if p = 0 \<or> w = 0 then base else clamp01 ((1 - w) * base + w * p))"

section \<open>Laws\<close>

text \<open>Lists without repetition up to case.\<close>

definition fresh_texts :: "string list \<Rightarrow> bool" where
  "fresh_texts qs \<longleftrightarrow> distinct (map to_lower qs)"

lemma add_query_fresh: "fresh_texts qs \<Longrightarrow> fresh_texts (add_query t qs)"
  by (auto simp: add_query_def fresh_texts_def Let_def)

lemma add_query_tidy:
  "\<forall>t \<in> set qs. t \<noteq> [] \<and> collapse t = t \<Longrightarrow> \<forall>t \<in> set (add_query x qs). t \<noteq> [] \<and> collapse t = t"
  by (auto simp: add_query_def Let_def normalize_fact_content_def)

lemma add_query_keeps: "\<exists>more. add_query t qs = qs @ more"
  by (auto simp: add_query_def Let_def)

lemma fold_add_query:
  "fresh_texts qs \<Longrightarrow> \<forall>t \<in> set qs. t \<noteq> [] \<and> collapse t = t \<Longrightarrow>
   fresh_texts (fold add_query ts qs) \<and> (\<forall>t \<in> set (fold add_query ts qs). t \<noteq> [] \<and> collapse t = t) \<and>
   (\<exists>more. fold add_query ts qs = qs @ more)"
proof (induction ts arbitrary: qs)
  case (Cons t ts)
  obtain more where more: "add_query t qs = qs @ more" using add_query_keeps by blast
  have "fresh_texts (add_query t qs)" "\<forall>u \<in> set (add_query t qs). u \<noteq> [] \<and> collapse u = u"
    using add_query_fresh [OF Cons.prems(1)] add_query_tidy [OF Cons.prems(2)] by blast+
  from Cons.IH [OF this] show ?case by (auto simp: more)
qed auto

lemma search_queries_ok:
  "fresh_texts (build_search_queries q p) \<and> (\<forall>t \<in> set (build_search_queries q p). t \<noteq> [] \<and> collapse t = t) \<and>
   (collapse q \<noteq> [] \<longrightarrow> build_search_queries q p \<noteq> [] \<and> hd (build_search_queries q p) = collapse q)"
proof -
  have nil: "fresh_texts []" "\<forall>t \<in> set []. t \<noteq> [] \<and> collapse t = t" by (simp_all add: fresh_texts_def)
  define rest where "rest = [condense_search_query q] @
    concat (map (\<lambda>r. [r, condense_search_query r]) (build_intent_aware_rewrites q)) @
    (case classify_aggregation_query q of None \<Rightarrow> [] | Some (e, r) \<Rightarrow> [e @ '' '' @ r]) @
    (if qp_temporal p \<or> qp_multi_hop p then map condense_search_query (re_split search_split_pattern q) else [])"
  have qs: "build_search_queries q p = fold add_query rest (add_query q [])"
    by (simp add: build_search_queries_def rest_def)
  have first: "add_query q [] = (if collapse q = [] then [] else [collapse q])"
    by (simp add: add_query_def Let_def normalize_fact_content_def)
  have "fresh_texts (add_query q [])" "\<forall>u \<in> set (add_query q []). u \<noteq> [] \<and> collapse u = u"
    using add_query_fresh [OF nil(1)] add_query_tidy [OF nil(2)] by blast+
  note all = fold_add_query [OF this, of rest]
  obtain more where more: "fold add_query rest (add_query q []) = add_query q [] @ more" using all by blast
  have "collapse q \<noteq> [] \<longrightarrow> fold add_query rest (add_query q []) \<noteq> [] \<and>
      hd (fold add_query rest (add_query q [])) = collapse q" unfolding more by (simp add: first)
  with all show ?thesis unfolding qs by blast
qed

lemma append_unique_keys:
  "distinct (map (\<lambda>q. to_lower (trim_space q)) out) \<Longrightarrow> (\<lambda>q. to_lower (trim_space q)) ` set out \<subseteq> set seen \<Longrightarrow>
   distinct (map (\<lambda>q. to_lower (trim_space q)) (append_unique_from seen out qs))"
  by (induction seen out qs rule: append_unique_from.induct) (auto simp: Let_def)

lemma append_unique_distinct:
  "distinct (map (\<lambda>q. to_lower (trim_space q)) base) \<Longrightarrow>
   distinct (map (\<lambda>q. to_lower (trim_space q)) (append_unique_search_queries base extra))"
  unfolding append_unique_search_queries_def by (rule append_unique_keys) auto

lemma append_unique_length: "length (append_unique_from seen out qs) \<le> length out + length qs"
  by (induction seen out qs rule: append_unique_from.induct) (auto simp: Let_def)

lemma backoff_add_ok:
  "distinct (map (\<lambda>q. to_lower (trim_space q)) out) \<Longrightarrow> int (length out) \<le> mx \<Longrightarrow>
   distinct (map (\<lambda>q. to_lower (trim_space q)) (backoff_add mx t out)) \<and> int (length (backoff_add mx t out)) \<le> mx"
  using append_unique_distinct [of out "[condense_search_query t]"]
    append_unique_length [of "map (\<lambda>q. to_lower (trim_space q)) out" out "[condense_search_query t]"]
  by (auto simp: backoff_add_def Let_def append_unique_search_queries_def)

lemma backoff_ok:
  "distinct (map (\<lambda>q. to_lower (trim_space q)) (build_low_confidence_backoff_queries q p mx)) \<and>
   int (length (build_low_confidence_backoff_queries q p mx)) \<le> max 0 mx"
proof -
  have "distinct (map (\<lambda>q. to_lower (trim_space q)) (fold (backoff_add mx) ts out)) \<and>
      int (length (fold (backoff_add mx) ts out)) \<le> mx"
    if "distinct (map (\<lambda>q. to_lower (trim_space q)) out)" "int (length out) \<le> mx" for ts out
    using that by (induction ts arbitrary: out) (simp_all add: backoff_add_ok)
  note bounded = this [of "[]"]
  show ?thesis
  proof (cases "mx \<le> 0")
    case False
    then have "\<exists>ts. build_low_confidence_backoff_queries q p mx = fold (backoff_add mx) ts []"
      unfolding build_low_confidence_backoff_queries_def by (simp only: if_False) blast
    then obtain ts where "build_low_confidence_backoff_queries q p mx = fold (backoff_add mx) ts []" ..
    moreover have "int (length ([]::string list)) \<le> mx" using False by simp
    ultimately show ?thesis using bounded [of ts] by simp
  qed (simp add: build_low_confidence_backoff_queries_def)
qed

lemma adaptive_ok:
  "distinct (map (\<lambda>q. to_lower (trim_space q)) (build_adaptive_search_queries q p pl lxs t)) \<and>
   length (build_adaptive_search_queries q p pl lxs t) \<le> nat (st_max_extra_queries t)"
proof -
  have "distinct (map (\<lambda>q. to_lower (trim_space q)) (append_unique_search_queries (append_unique_search_queries [] a) b))" for a b
    by (intro append_unique_distinct) simp
  moreover have "distinct (map (\<lambda>q. to_lower (trim_space q)) (append_unique_search_queries [] a))" for a
    by (intro append_unique_distinct) simp
  ultimately show ?thesis
    unfolding build_adaptive_search_queries_def Let_def by (auto simp: take_map [symmetric] intro: distinct_take)
qed

lemma iterate_hops_ok:
  "fresh_texts out \<Longrightarrow> length out \<le> mx \<Longrightarrow>
   fresh_texts (iterate_hops q base least mx cs out) \<and> length (iterate_hops q base least mx cs out) \<le> mx"
proof (induction q base least mx cs out rule: iterate_hops.induct)
  case (2 q base least mx c cs out)
  show ?case
    using 2 by (simp add: Let_def fresh_texts_def)
qed simp

lemma iterative_ok:
  "fresh_texts (build_iterative_multi_hop_queries q lxs mx) \<and>
   length (build_iterative_multi_hop_queries q lxs mx) \<le> nat mx"
  unfolding build_iterative_multi_hop_queries_def Let_def
  by (auto simp: fresh_texts_def [of "[]"] iterate_hops_ok)

lemma sanitize_ok:
  "fresh_texts out \<Longrightarrow> int (length out) < mx \<Longrightarrow>
   fresh_texts (sanitize_from mx out qs) \<and> int (length (sanitize_from mx out qs)) \<le> mx"
proof (induction mx out qs rule: sanitize_from.induct)
  case (2 mx out q qs)
  then show ?case by (auto simp: Let_def fresh_texts_def)
qed simp

definition seed_ok :: "string \<Rightarrow> bool" where
  "seed_ok e \<longleftrightarrow> e \<noteq> [] \<and> normalize_entity_fact_entity e = e"

lemma add_seed_ok:
  "distinct seeds \<Longrightarrow> list_all seed_ok seeds \<Longrightarrow>
   distinct (fold add_seed es seeds) \<and> list_all seed_ok (fold add_seed es seeds)"
proof (induction es arbitrary: seeds)
  case (Cons e es)
  have "normalize_entity_fact_entity e \<noteq> [] \<Longrightarrow> seed_ok (normalize_entity_fact_entity e)" by (simp add: seed_ok_def)
  then have "distinct (add_seed e seeds)" "list_all seed_ok (add_seed e seeds)"
    using Cons.prems by (simp_all add: add_seed_def Let_def)
  then show ?case using Cons.IH by simp
qed simp

lemma seeds_ok:
  "distinct (graph_entity_bridge_seeds q pl lxs k) \<and>
   list_all seed_ok (graph_entity_bridge_seeds q pl lxs k) \<and>
   int (length (graph_entity_bridge_seeds q pl lxs k)) \<le> (if k \<le> 0 then 4 else k)"
proof -
  have "\<exists>es. graph_entity_bridge_seeds q pl lxs k = take (nat (if k \<le> 0 then 4 else k)) (fold add_seed es [])"
    unfolding graph_entity_bridge_seeds_def Let_def by blast
  then obtain es where es: "graph_entity_bridge_seeds q pl lxs k = take (nat (if k \<le> 0 then 4 else k)) (fold add_seed es [])" ..
  have "distinct (fold add_seed es []) \<and> list_all seed_ok (fold add_seed es [])"
    by (rule add_seed_ok) simp_all
  then show ?thesis unfolding es by (auto simp: list_all_iff dest: in_set_takeD)
qed

lemma bridge_score_unit [simp]: "unit_score (graph_bridge_candidate_score q c es p w)"
  by (simp add: graph_bridge_candidate_score_def Let_def)

text \<open>C29 The query builders respect their limits and never ask the same thing twice: the first queries
  are pairwise different up to case, not empty, with single spaces between words and none around them, and
  start with the query itself in this form; the
  adaptive queries number at most the configured maximum and differ up to case and outer white space;
  the follow-up queries of a question with several hops and the sub-queries taken over from a language
  model are at most as many as asked for and differ up to case; and the seeds of the graph bridge are
  distinct, not empty, in the normal form of entity names, and at most the limit.\<close>

theorem search_queries_bounded:
  "fresh_texts (build_search_queries q p) \<and>
   (\<forall>u \<in> set (build_search_queries q p). u \<noteq> [] \<and> collapse u = u) \<and>
   (collapse q \<noteq> [] \<longrightarrow> build_search_queries q p \<noteq> [] \<and> hd (build_search_queries q p) = collapse q) \<and>
   distinct (map (\<lambda>q. to_lower (trim_space q)) (build_adaptive_search_queries q p pl lxs t)) \<and>
   length (build_adaptive_search_queries q p pl lxs t) \<le> nat (st_max_extra_queries t) \<and>
   fresh_texts (build_iterative_multi_hop_queries q lxs mx) \<and>
   length (build_iterative_multi_hop_queries q lxs mx) \<le> nat mx \<and>
   (0 < mx \<longrightarrow> fresh_texts (sanitize_decomposed_queries qs mx) \<and>
      length (sanitize_decomposed_queries qs mx) \<le> nat mx) \<and>
   distinct (graph_entity_bridge_seeds q pl lxs k) \<and>
   (\<forall>e \<in> set (graph_entity_bridge_seeds q pl lxs k). e \<noteq> [] \<and> normalize_entity_fact_entity e = e) \<and>
   int (length (graph_entity_bridge_seeds q pl lxs k)) \<le> (if k \<le> 0 then 4 else k)"
proof -
  have "fresh_texts []" by (simp add: fresh_texts_def)
  then show ?thesis
    using search_queries_ok [of q p] adaptive_ok [of q p pl lxs t] iterative_ok [of q lxs mx] seeds_ok [of q pl lxs k]
      sanitize_ok [of "[]" mx qs]
    by (auto simp: sanitize_decomposed_queries_def list_all_iff seed_ok_def)
qed

theorem search_queries_bounded_witness:
  "hd (build_search_queries '' who  is Ann'' (classify_query [])) = ''who is Ann'' \<and>
   list_all (\<lambda>u. collapse u = u) (build_search_queries '' who  is Ann'' (classify_query [])) \<and>
   length (sanitize_decomposed_queries [''a b'', ''Tea time'', ''tea TIME'', ''two''] 2) \<le> 2"
proof -
  have "collapse '' who  is Ann'' = ''who is Ann''" by code_simp
  then show ?thesis
    using search_queries_bounded [where q = "'' who  is Ann''" and p = "classify_query []"
        and qs = "[''a b'', ''Tea time'', ''tea TIME'', ''two'']" and mx = 2]
    by (simp add: list_all_iff)
qed

end
