(* ===== verification/RankLaws.thy ===== *)
theory RankLaws
  imports Ranking
begin

text \<open>
  What ranking guarantees: every score lies in the unit interval, the two reranking passes permute the
  head of the list and leave the tail alone, the loops of the fusion compute the reference definition
  of reciprocal rank fusion, and the windows are bounded.
\<close>

section \<open>Components of the score\<close>

lemma min_max_unit [simp]: "unit_score (min_max v mn mx)"
  by (auto simp: min_max_def unit_score_def field_simps)

lemma recency_unit: "unit_score (recency d h)"
proof -
  have "x powr y \<le> 1" if "0 < x" "x \<le> 1" "0 \<le> y" for x y :: real
    using powr_le1 [of y x] that by simp
  then show ?thesis by (simp add: recency_def Let_def unit_score_def)
qed

lemma recency_antimono: "h \<le> h' \<Longrightarrow> recency d h' \<le> recency d h"
proof -
  have "x powr b \<le> x powr a" if "0 < x" "x \<le> 1" "a \<le> b" for x a b :: real
    using powr_mono' [of a b x] that by simp
  then show "h \<le> h' \<Longrightarrow> recency d h' \<le> recency d h" by (simp add: recency_def Let_def)
qed

lemma relevance_unit [simp]: "unit_score (relevance x)"
  by (simp add: relevance_def unit_score_def)

lemma importance_unit [simp]: "unit_score (importance_raw m)"
  using clip_unit_range by (simp add: importance_raw_def unit_score_def)

lemma raw_relevance_unit [simp]: "unit_score (raw_relevance s l p pl b m)"
  by (simp add: raw_relevance_def)

lemma rank_normalized_unit [simp]: "unit_score (rank_to_normalized r l)"
  by (simp add: rank_to_normalized_def)

lemma entity_relation_unit [simp]: "unit_score (entity_relation_signal pl c)"
  by (simp add: entity_relation_signal_def Let_def unit_score_def)

lemma penalty_unit [simp]: "unit_score (apply_low_evidence_penalty t r ov f)"
  by (simp add: apply_low_evidence_penalty_def)

text \<open>The spread of values in the unit interval is their position between the least and the greatest:
  the initial values 1 and 0 of the loop's extremes never show.\<close>

lemma fold_min: "fold min xs (a::real) = Min (insert a (set xs))"
  by (metis List.finite_set Min.set_eq_fold list.simps(15))

lemma fold_max: "fold max xs (a::real) = Max (insert a (set xs))"
  by (metis List.finite_set Max.set_eq_fold list.simps(15))

lemma least_of_unit:
  assumes "xs \<noteq> []" "\<forall>x \<in> set xs. unit_score x" shows "least_of xs = Min (set xs)"
proof -
  have "Min (set xs) \<in> set xs" using assms by simp
  then have "Min (set xs) \<le> 1" using assms(2) by (auto simp: unit_score_def)
  then have "min 1 (Min (set xs)) = Min (set xs)" by simp
  then show ?thesis using assms(1) by (simp add: least_of_def fold_min Min_insert)
qed

lemma greatest_of_unit:
  assumes "xs \<noteq> []" "\<forall>x \<in> set xs. unit_score x" shows "greatest_of xs = Max (set xs)"
proof -
  have "Max (set xs) \<in> set xs" using assms by simp
  then have "0 \<le> Max (set xs)" using assms(2) by (auto simp: unit_score_def)
  then have "max 0 (Max (set xs)) = Max (set xs)" by simp
  then show ?thesis using assms(1) by (simp add: greatest_of_def fold_max Max_insert)
qed

lemma spread_least: "x \<in> set xs \<Longrightarrow> \<forall>y \<in> set xs. unit_score y \<Longrightarrow> \<forall>y \<in> set xs. x \<le> y \<Longrightarrow> spread xs x = 0"
proof -
  assume x: "x \<in> set xs" and u: "\<forall>y \<in> set xs. unit_score y" and l: "\<forall>y \<in> set xs. x \<le> y"
  have "least_of xs = x" using least_of_unit [of xs] u l x by (simp add: Min_eqI empty_iff list.set_sel)
      (metis List.finite_set Min_eqI empty_iff list.set(1))
  then show "spread xs x = 0" by (simp add: spread_def min_max_def)
qed

lemma spread_greatest:
  assumes "x \<in> set xs" "\<forall>y \<in> set xs. unit_score y" "\<forall>y \<in> set xs. y \<le> x" "\<exists>y \<in> set xs. y < x"
  shows "spread xs x = 1"
proof -
  have ne: "xs \<noteq> []" using assms(1) by auto
  have g: "greatest_of xs = x"
    using assms greatest_of_unit [OF ne assms(2)] by (metis List.finite_set Max_eqI)
  have "least_of xs < x"
    using assms(4) least_of_unit [OF ne assms(2)] by (metis List.finite_set Min_le le_less_trans)
  then show ?thesis by (simp add: spread_def min_max_def g)
qed

section \<open>Totals\<close>

lemma rank_total_unit [simp]: "unit_score (rank_total r rel imp raw s m h q p pl k b)"
  by (simp add: rank_total_def match_total_def wal_total_def Let_def)

lemma rank_memories_unit: "x \<in> set (rank_memories now ms sg l q p pl k b) \<Longrightarrow> unit_score (sm_score x)"
  by (auto simp: rank_memories_def Let_def)

lemma rank_memories_memories [simp]: "map sm_memory (rank_memories now ms sg l q p pl k b) = ms"
  by (simp add: rank_memories_def Let_def comp_def)

section \<open>Reranking\<close>

lemma sort_scored_perm [simp]: "mset (sort_scored_by_score xs) = mset xs"
  by (simp add: sort_scored_by_score_def)

lemma sort_scored_set [simp]: "set (sort_scored_by_score xs) = set xs"
  by (simp add: sort_scored_by_score_def)

lemma sort_scored_sorted: "sorted_wrt (\<lambda>x y. sm_score x \<ge> sm_score y) (sort_scored_by_score xs)"
proof -
  have "sorted (map score_order (sort_scored_by_score xs))" by (simp add: sort_scored_by_score_def)
  then have "sorted_wrt (\<lambda>x y. score_order x \<le> score_order y) (sort_scored_by_score xs)"
    by (simp add: sorted_map)
  then show ?thesis by (rule sorted_wrt_mono_rel [rotated]) (auto simp: score_order_def less_eq_prod_def)
qed

text \<open>A pass that gives the head new scores and sorts it.\<close>

definition rescored :: "(scored_memory \<Rightarrow> real) \<Rightarrow> nat \<Rightarrow> scored_memory list \<Rightarrow> scored_memory list" where
  "rescored f n xs = sort_scored_by_score (map (\<lambda>x. x\<lparr>sm_score := clamp01 (f x)\<rparr>) (take n xs)) @ drop n xs"

lemma rescored_memories: "mset (map sm_memory (rescored f n xs)) = mset (map sm_memory xs)"
proof -
  have "mset (map sm_memory (sort_scored_by_score ys)) = mset (map sm_memory ys)" for ys
    by (metis mset_map sort_scored_perm)
  from this [of "map (\<lambda>x. x\<lparr>sm_score := clamp01 (f x)\<rparr>) (take n xs)"]
  have "mset (map sm_memory (rescored f n xs)) = mset (map sm_memory (take n xs)) + mset (map sm_memory (drop n xs))"
    by (simp only: rescored_def map_append mset_append map_map) (simp add: comp_def)
  also have "\<dots> = mset (map sm_memory xs)"
    by (metis append_take_drop_id map_append mset_append)
  finally show ?thesis .
qed

lemma rescored_unit:
  "\<forall>x \<in> set xs. unit_score (sm_score x) \<Longrightarrow> \<forall>x \<in> set (rescored f n xs). unit_score (sm_score x)"
  by (auto simp: rescored_def dest: in_set_dropD)

lemma length_sort_scored [simp]: "length (sort_scored_by_score xs) = length xs"
  by (simp add: sort_scored_by_score_def)

lemma rescored_tail: "drop n (rescored f n xs) = drop n xs"
  by (cases "n \<le> length xs") (simp_all add: rescored_def)

lemma rescored_head: "sorted_wrt (\<lambda>x y. sm_score x \<ge> sm_score y) (take n (rescored f n xs))"
proof -
  have "take n (rescored f n xs) = sort_scored_by_score (map (\<lambda>x. x\<lparr>sm_score := clamp01 (f x)\<rparr>) (take n xs))"
    by (cases "n \<le> length xs") (simp_all add: rescored_def)
  then show ?thesis by (simp add: sort_scored_sorted)
qed

lemma rerank_scored_as:
  "\<exists>f n. rerank_scored_candidates o' xs q k = rescored f n xs \<or> rerank_scored_candidates o' xs q k = xs"
  unfolding rerank_scored_candidates_def rescored_def Let_def by (auto split: if_splits)

lemma early_rerank_as:
  "\<exists>f n. apply_early_rank_rerank b xs q pl k p = rescored f n xs \<or> apply_early_rank_rerank b xs q pl k p = xs"
  unfolding apply_early_rank_rerank_def rescored_def Let_def by (auto split: if_splits)

lemma rerank_scored_memories: "mset (map sm_memory (rerank_scored_candidates o' xs q k)) = mset (map sm_memory xs)"
  using rerank_scored_as rescored_memories by metis

lemma early_rerank_memories: "mset (map sm_memory (apply_early_rank_rerank b xs q pl k p)) = mset (map sm_memory xs)"
  using early_rerank_as rescored_memories by metis

lemma rerank_scored_unit:
  "\<forall>x \<in> set xs. unit_score (sm_score x) \<Longrightarrow> \<forall>x \<in> set (rerank_scored_candidates o' xs q k). unit_score (sm_score x)"
  using rerank_scored_as [of o' xs q k] rescored_unit by metis

lemma early_rerank_unit:
  "\<forall>x \<in> set xs. unit_score (sm_score x) \<Longrightarrow> \<forall>x \<in> set (apply_early_rank_rerank b xs q pl k p). unit_score (sm_score x)"
  using early_rerank_as [of b xs q pl k p] rescored_unit by metis

lemma sort_by_score_perm [simp]: "mset (sort_by_score tie xs) = mset xs" "set (sort_by_score tie xs) = set xs"
  by (simp_all add: sort_by_score_def)

section \<open>Fusion\<close>

text \<open>The reference: an identifier's rank is one more than the first position it has in the list, its
  score the greatest of its scores.\<close>

definition occurrences :: "string \<Rightarrow> (string \<times> real) list \<Rightarrow> real list" where
  "occurrences mid xs = map snd (filter (\<lambda>x. trim_space (fst x) = mid) xs)"

definition first_rank :: "string \<Rightarrow> (string \<times> real) list \<Rightarrow> int" where
  "first_rank mid xs = int (length (takeWhile (\<lambda>x. trim_space (fst x) \<noteq> mid) xs)) + 1"

lemma note_ranks:
  assumes "\<forall>k r s. best k = Some (r, s) \<longrightarrow> r < i" "mid \<noteq> []"
  shows "fold note_rank (ranked_from i xs) best mid =
    (case best mid of
       Some (r, s) \<Rightarrow> Some (r, fold max (occurrences mid xs) s)
     | None \<Rightarrow> (case occurrences mid xs of [] \<Rightarrow> None
                | s # ss \<Rightarrow> Some (i - 1 + first_rank mid xs, fold max ss s)))"
  using assms(1)
proof (induction xs arbitrary: i best)
  case Nil
  then show ?case by (auto simp: occurrences_def split: option.splits)
next
  case (Cons x xs)
  obtain y s where x: "x = (y, s)" by (cases x)
  let ?b = "note_rank (i, trim_space y, s) best"
  have b: "\<forall>k r s. ?b k = Some (r, s) \<longrightarrow> r < i + 1"
    using Cons.prems by (auto simp: note_rank_def split: option.splits if_splits) fastforce+
  note ih = Cons.IH [OF b]
  show ?case
  proof (cases "trim_space y = mid")
    case False
    then have "?b mid = best mid" using Cons.prems by (auto simp: note_rank_def split: option.splits)
    then show ?thesis using ih False
      by (auto simp: x occurrences_def first_rank_def split: option.splits list.splits)
  next
    case True
    then have "?b mid = (case best mid of None \<Rightarrow> Some (i, s) | Some (r, s') \<Rightarrow> Some (r, max s s'))"
      using Cons.prems assms(2) by (fastforce simp: note_rank_def max_def split: option.splits)
    then show ?thesis using ih True
      by (auto simp: x occurrences_def first_rank_def max.commute split: option.splits list.splits)
  qed
qed

lemma best_ranks_reference:
  assumes "mid \<noteq> []"
  shows "best_ranks xs mid =
    (if mid \<in> set (map (trim_space \<circ> fst) xs) then Some (first_rank mid xs, Max (set (occurrences mid xs))) else None)"
proof -
  have iff: "occurrences mid xs = [] \<longleftrightarrow> mid \<notin> set (map (trim_space \<circ> fst) xs)"
    by (auto simp: occurrences_def filter_empty_conv)
  have "best_ranks xs mid = (case occurrences mid xs of [] \<Rightarrow> None | s # ss \<Rightarrow> Some (first_rank mid xs, fold max ss s))"
    using note_ranks [of Map.empty 1 mid xs] assms by (simp add: best_ranks_def split: list.splits)
  then show ?thesis using iff by (auto simp: fold_max split: list.splits)
qed

lemma best_ranks_blank: "best_ranks xs [] = None"
proof -
  have "fold note_rank (ranked_from i xs) best [] = None" if "best [] = None" for i best
    using that by (induction xs arbitrary: i best rule: ranked_from.induct)
      (auto simp: note_rank_def split: option.splits)
  then show ?thesis by (simp add: best_ranks_def)
qed

text \<open>The reference score of reciprocal rank fusion: the sum over the lists an identifier is in of
  \<open>1 / (60 + rank)\<close>.\<close>

definition rank_term :: "string \<Rightarrow> (string \<times> real) list \<Rightarrow> real" where
  "rank_term mid xs = (if mid \<noteq> [] \<and> mid \<in> set (map (trim_space \<circ> fst) xs)
     then 1 / of_int (60 + first_rank mid xs) else 0)"

lemma reciprocal_rank_reference: "reciprocal_rank (best_ranks xs) mid = rank_term mid xs"
  by (cases "mid = []")
    (simp_all add: reciprocal_rank_def rank_term_def best_ranks_reference best_ranks_blank reciprocal_rank_fusion_k_def)

definition dense_pairs :: "vector_candidate list \<Rightarrow> (string \<times> real) list" where
  "dense_pairs cs = map (\<lambda>c. (vc_memory c, vc_similarity c)) cs"

definition lexical_pairs :: "lexical_candidate list \<Rightarrow> (string \<times> real) list" where
  "lexical_pairs cs = map (\<lambda>c. (m_id (lc_memory c), clamp01 (lc_score c))) cs"

definition rrf_score :: "vector_candidate list \<Rightarrow> lexical_candidate list \<Rightarrow> string \<Rightarrow> real" where
  "rrf_score dense lexical mid = rank_term mid (dense_pairs dense) + rank_term mid (lexical_pairs lexical)"

definition fused_ids :: "vector_candidate list \<Rightarrow> lexical_candidate list \<Rightarrow> string set" where
  "fused_ids dense lexical =
     {trim_space i | i. i \<in> vc_memory ` set dense \<union> (\<lambda>c. m_id (lc_memory c)) ` set lexical} - {[]}"

lemma fuse_ids:
  "fst (fuse_candidates_by_rrf dense lexical limit) =
   take (nat (if limit \<le> 0 then 10 else limit))
     (sort_key (\<lambda>mid. (- rrf_score dense lexical mid, mid))
       (uniq_trimmed (map fst (dense_pairs dense @ lexical_pairs lexical))))"
  by (simp add: fuse_candidates_by_rrf_def Let_def reciprocal_rank_reference rrf_score_def dense_pairs_def
      lexical_pairs_def)

lemma fuse_signal:
  "snd (fuse_candidates_by_rrf dense lexical limit) mid =
   (if mid \<in> set (fst (fuse_candidates_by_rrf dense lexical limit))
    then fusion_signal (best_ranks (dense_pairs dense)) (best_ranks (lexical_pairs lexical)) mid else no_signal)"
  by (simp add: fuse_candidates_by_rrf_def Let_def dense_pairs_def lexical_pairs_def)

lemma set_pairs_trimmed:
  "set (uniq_trimmed (map fst (dense_pairs dense @ lexical_pairs lexical))) = fused_ids dense lexical"
  by (auto simp: set_uniq_trimmed fused_ids_def dense_pairs_def lexical_pairs_def image_iff)

text \<open>C27 Fusion computes reciprocal rank fusion: the identifiers it returns are distinct, at most the
  limit, and among the trimmed identifiers of the two lists; they come in the order of decreasing
  reference score, by identifier where the scores are equal; one that is left out has no better score
  than any that is returned; and when fewer than the limit come back, none was left out. The loops
  over the two lists with their maps of best ranks compute exactly the reference: the sum over the
  lists of 1 / (60 + first position).\<close>

theorem fusion_is_reference:
  "distinct (fst (fuse_candidates_by_rrf dense lexical limit)) \<and>
   int (length (fst (fuse_candidates_by_rrf dense lexical limit))) \<le> (if limit \<le> 0 then 10 else limit) \<and>
   set (fst (fuse_candidates_by_rrf dense lexical limit)) \<subseteq> fused_ids dense lexical \<and>
   sorted_wrt (\<lambda>a b. rrf_score dense lexical a > rrf_score dense lexical b \<or>
       rrf_score dense lexical a = rrf_score dense lexical b \<and> a < b)
     (fst (fuse_candidates_by_rrf dense lexical limit)) \<and>
   (\<forall>a \<in> set (fst (fuse_candidates_by_rrf dense lexical limit)).
      \<forall>b \<in> fused_ids dense lexical - set (fst (fuse_candidates_by_rrf dense lexical limit)).
        rrf_score dense lexical b \<le> rrf_score dense lexical a) \<and>
   (int (length (fst (fuse_candidates_by_rrf dense lexical limit))) < (if limit \<le> 0 then 10 else limit) \<longrightarrow>
      set (fst (fuse_candidates_by_rrf dense lexical limit)) = fused_ids dense lexical)"
proof -
  define lim where "lim = (if limit \<le> 0 then 10 else limit)"
  define key where "key = (\<lambda>mid. (- rrf_score dense lexical mid, mid))"
  define all_ids where "all_ids = sort_key key (uniq_trimmed (map fst (dense_pairs dense @ lexical_pairs lexical)))"
  have lim: "0 < lim" by (simp add: lim_def)
  have ids: "fst (fuse_candidates_by_rrf dense lexical limit) = take (nat lim) all_ids"
    by (simp add: fuse_ids lim_def key_def all_ids_def)
  have set_all: "set all_ids = fused_ids dense lexical" unfolding all_ids_def set_sort by (rule set_pairs_trimmed)
  have dist: "distinct all_ids" by (simp add: all_ids_def)
  have "sorted (map key all_ids)" by (simp add: all_ids_def)
  then have "sorted_wrt (\<lambda>a b. key a \<le> key b) all_ids" by (simp add: sorted_map)
  moreover have "sorted_wrt (\<noteq>) all_ids" using dist by (simp add: distinct_conv_nth sorted_wrt_iff_nth_less)
  ultimately have sorted: "sorted_wrt (\<lambda>a b. key a < key b) all_ids"
    by (auto simp: sorted_wrt_iff_nth_less key_def order.strict_iff_order)
  have key_less: "rrf_score dense lexical a > rrf_score dense lexical b \<or>
      rrf_score dense lexical a = rrf_score dense lexical b \<and> a < b" if "key a < key b" for a b
    using that by (auto simp: key_def less_prod_def)
  have split: "all_ids = take (nat lim) all_ids @ drop (nat lim) all_ids" by simp
  have "sorted_wrt (\<lambda>a b. key a < key b) (take (nat lim) all_ids @ drop (nat lim) all_ids)" using sorted by simp
  then have below: "\<forall>a \<in> set (take (nat lim) all_ids). \<forall>b \<in> set (drop (nat lim) all_ids). key a < key b"
    and tk: "sorted_wrt (\<lambda>a b. key a < key b) (take (nat lim) all_ids)"
    unfolding sorted_wrt_append by blast+
  have rest: "fused_ids dense lexical - set (take (nat lim) all_ids) = set (drop (nat lim) all_ids)"
  proof -
    have "distinct (take (nat lim) all_ids @ drop (nat lim) all_ids)" using dist by simp
    then have "set (take (nat lim) all_ids) \<inter> set (drop (nat lim) all_ids) = {}" by (simp only: distinct_append)
    moreover have "fused_ids dense lexical = set (take (nat lim) all_ids) \<union> set (drop (nat lim) all_ids)"
      by (metis set_all split set_append)
    ultimately show ?thesis by blast
  qed
  show ?thesis unfolding ids lim_def [symmetric]
  proof (intro conjI)
    show "sorted_wrt (\<lambda>a b. rrf_score dense lexical a > rrf_score dense lexical b \<or>
        rrf_score dense lexical a = rrf_score dense lexical b \<and> a < b) (take (nat lim) all_ids)"
      using tk by (rule sorted_wrt_mono_rel [rotated]) (rule key_less)
    show "\<forall>a \<in> set (take (nat lim) all_ids). \<forall>b \<in> fused_ids dense lexical - set (take (nat lim) all_ids).
        rrf_score dense lexical b \<le> rrf_score dense lexical a"
      unfolding rest using below key_less by fastforce
    show "int (length (take (nat lim) all_ids)) < lim \<longrightarrow> set (take (nat lim) all_ids) = fused_ids dense lexical"
      using set_all lim by (auto simp: min_def split: if_splits)
  qed (use dist set_all lim in \<open>auto dest: in_set_takeD\<close>)
qed

theorem fusion_is_reference_witness:
  "set (fst (fuse_candidates_by_rrf [\<lparr>vc_memory = ''a'', vc_similarity = 1 / 2\<rparr>] [] 3)) = {''a''}"
proof -
  let ?f = "fst (fuse_candidates_by_rrf [\<lparr>vc_memory = ''a'', vc_similarity = 1 / 2\<rparr>] [] 3)"
  have "trim_space ''a'' = ''a''" by code_simp
  then have ids: "fused_ids [\<lparr>vc_memory = ''a'', vc_similarity = 1 / 2\<rparr>] [] = {''a''}" by (auto simp: fused_ids_def)
  have "card (set ?f) \<le> card {''a''}"
    using fusion_is_reference [of "[\<lparr>vc_memory = ''a'', vc_similarity = 1 / 2\<rparr>]" "[]" 3] unfolding ids
    by (intro card_mono) simp_all
  then have "length ?f \<le> 1"
    using fusion_is_reference [of "[\<lparr>vc_memory = ''a'', vc_similarity = 1 / 2\<rparr>]" "[]" 3] by (simp add: distinct_card)
  then show ?thesis
    using fusion_is_reference [of "[\<lparr>vc_memory = ''a'', vc_similarity = 1 / 2\<rparr>]" "[]" 3] unfolding ids by simp
qed

section \<open>Windows\<close>

lemma window_bounds:
  assumes "tuning_ok t"
  shows "st_window_min t \<le> candidate_window k p pl hf t \<and>
    candidate_window k p pl hf t \<le> (if qp_multi_hop p \<or> hf then max (st_window_max t) 320 else st_window_max t)"
proof -
  let ?k = "if k \<le> 0 then 10 else k"
  define n1 where "n1 = (if ?k * st_window_multiplier t < st_window_min t then st_window_min t else ?k * st_window_multiplier t)"
  define n2 where "n2 = (if qp_multi_hop p then n1 + st_window_multi_hop_boost t
    else if qp_temporal p then n1 + st_window_temporal_boost t else n1)"
  define n3 where "n3 = (if hf then n2 + st_window_filter_boost t else n2)"
  define n4 where "n4 = (if pl_confidence pl < st_plan_confidence_threshold t then n3 + ?k * 2 else n3)"
  define mx where "mx = (if qp_multi_hop p \<or> hf then max (st_window_max t) 320 else st_window_max t)"
  have "st_window_min t \<le> n1" by (simp add: n1_def)
  moreover have "n1 \<le> n2" using assms by (simp add: n2_def tuning_ok_def)
  moreover have "n2 \<le> n3" using assms by (simp add: n3_def tuning_ok_def)
  moreover have "n3 \<le> n4" by (simp add: n4_def)
  moreover have "st_window_min t \<le> mx" using assms by (auto simp: mx_def tuning_ok_def)
  moreover have "candidate_window k p pl hf t = (if n4 > mx then mx else n4)"
    by (simp only: candidate_window_def Let_def n1_def n2_def n3_def n4_def mx_def)
  ultimately show ?thesis unfolding mx_def [symmetric] by simp
qed

text \<open>The number of candidates a search collects lies between the normalised minimum and the
  normalised maximum of the tuning, except that a multi-hop question or a filter raises the maximum to
  at least 320; and the window of the early rerank covers at least two results, at most the configured
  maximum and at most the results there are.\<close>

theorem windows_bounded:
  "0 < candidate_window k p pl hf (normalize_search_tuning t) \<and>
   st_window_min (normalize_search_tuning t) \<le> candidate_window k p pl hf (normalize_search_tuning t) \<and>
   candidate_window k p pl hf (normalize_search_tuning t)
     \<le> (if qp_multi_hop p \<or> hf then max (st_window_max (normalize_search_tuning t)) 320
        else st_window_max (normalize_search_tuning t)) \<and>
   (1 < n \<longrightarrow> 2 \<le> early_rank_rerank_window b n k p pl \<and> early_rank_rerank_window b n k p pl \<le> n \<and>
      early_rank_rerank_window b n k p pl
        \<le> max 2 (st_early_rerank_max (normalize_search_tuning (ro_search_tuning b))))"
proof -
  have t: "tuning_ok (normalize_search_tuning t')" for t' by (rule normalize_search_tuning_ok)
  have "0 < st_window_min (normalize_search_tuning t)" using t [of t] by (simp add: tuning_ok_def)
  then have 1: "0 < candidate_window k p pl hf (normalize_search_tuning t)"
    using window_bounds [OF t [of t], of k p pl hf] by linarith
  have 2: "2 \<le> early_rank_rerank_window b n k p pl \<and> early_rank_rerank_window b n k p pl \<le> n \<and>
      early_rank_rerank_window b n k p pl
        \<le> max 2 (st_early_rerank_max (normalize_search_tuning (ro_search_tuning b)))" if "1 < n"
    using that unfolding early_rank_rerank_window_def Let_def by (simp add: max_def)
  show ?thesis using 1 2 window_bounds [OF t] by blast
qed

theorem windows_bounded_witness:
  "early_rank_rerank_window default_retrieval_options 7 10
     \<lparr>qp_temporal = True, qp_person = False, qp_multi_hop = False\<rparr> (build_query_plan [] (classify_query [])) = 7 \<and>
   2 \<le> early_rank_rerank_window default_retrieval_options 7 10
     \<lparr>qp_temporal = True, qp_person = False, qp_multi_hop = False\<rparr> (build_query_plan [] (classify_query []))"
  using windows_bounded [of 10 "\<lparr>qp_temporal = True, qp_person = False, qp_multi_hop = False\<rparr>"
      "build_query_plan [] (classify_query [])" True
      default_search_tuning 7 default_retrieval_options]
  by (simp add: early_rank_rerank_window_def normalize_search_tuning_def Let_def default_options
      positive_or_def nonneg_or_def unit_or_def max_def)

section \<open>The memory that is last in everything\<close>

text \<open>A question that asks for a time turns the ranking of the weakest memory around: the memory
  that is last in recency, in relevance and in importance has the total 0, which the code replaces by 1
  before it applies the route boost, so that its score is at least 0.8 (unless the algorithm is
  \<open>match\<close> or the memories are ranked without a profile).\<close>

theorem last_in_all_is_promoted:
  assumes "m \<in> set ms" and "qp_temporal profile" and "rk_algorithm ranking \<noteq> ''match''"
    and "\<forall>m' \<in> set ms. recency_raw now m \<le> recency_raw now m'"
    and "\<forall>m' \<in> set ms. raw_relevance (sg (m_id m)) cap profile plan b m \<le> raw_relevance (sg (m_id m')) cap profile plan b m'"
    and "\<forall>m' \<in> set ms. importance_raw m \<le> importance_raw m'"
  shows "\<exists>x \<in> set (rank_memories now ms sg cap qry profile plan ranking b). sm_memory x = m \<and> 8 / 10 \<le> sm_score x"
proof -
  have rel: "relevance (raw_relevance s l p pl b' m') = raw_relevance s l p pl b' m'" for s l p pl b' m'
    using raw_relevance_unit [of s l p pl b' m'] by (simp add: relevance_def unit_score_def)
  let ?raw = "\<lambda>m. raw_relevance (sg (m_id m)) cap profile plan b m"
  have 1: "spread (map (recency_raw now) ms) (recency_raw now m) = 0"
    using assms(1,4) by (intro spread_least) (auto simp: recency_raw_def Let_def recency_unit)
  have 2: "spread (map (\<lambda>m. relevance (?raw m)) ms) (relevance (?raw m)) = 0"
    using assms(1,5) by (intro spread_least) (auto simp: rel)
  have 3: "spread (map importance_raw ms) (importance_raw m) = 0"
    using assms(1,6) by (intro spread_least) auto
  have zero: "weighted_average [0, 0, 0] [a, c, d] = 0" for a c d
    by (simp add: weighted_average_def Let_def clamp01_def)
  have total: "rank_total 0 0 0 (?raw m) (sg (m_id m)) m hn qry profile plan ranking b
      = clamp01 (route_boost m profile plan b)" for hn
    using assms(2,3) by (simp add: rank_total_def wal_total_def zero Let_def)
  have "8 / 10 \<le> clamp01 (route_boost m profile plan b)"
    using route_boost_range [of m profile plan b] by (simp add: clamp01_def)
  then show ?thesis
    using assms(1) by (force simp: rank_memories_def Let_def 1 2 3 total)
qed

theorem last_in_all_is_promoted_witness:
  "\<exists>x \<in> set (rank_memories 0 [zero_memory, zero_memory\<lparr>m_id := ''b'', m_importance := 1\<rparr>] (\<lambda>_. no_signal) 50
       ''when'' (classify_query ''when'') (build_query_plan ''when'' (classify_query ''when''))
       default_ranking_options default_retrieval_options).
     sm_memory x = zero_memory \<and> 8 / 10 \<le> sm_score x"
proof -
  have t: "qp_temporal (classify_query ''when'')" by code_simp
  have "route_boost (zero_memory\<lparr>m_id := i, m_importance := v\<rparr>) p pl b = route_boost zero_memory p pl b" for i v p pl b
    by (simp add: route_boost_def profile_boost_def answer_type_boost_def answer_kind_boost_def)
  then have raw: "raw_relevance s l p pl b (zero_memory\<lparr>m_id := i, m_importance := v\<rparr>) = raw_relevance s l p pl b zero_memory"
    for s l p pl b i v
    by (simp add: raw_relevance_def)
  have rec: "recency_raw 0 (zero_memory\<lparr>m_id := i, m_importance := v\<rparr>) = recency_raw 0 zero_memory" for i v
    by (simp add: recency_raw_def last_access_def Let_def)
  have imp: "importance_raw zero_memory \<le> importance_raw (zero_memory\<lparr>m_id := ''b'', m_importance := 1\<rparr>)"
    by (simp add: importance_raw_def zero_memory_def clip_unit_def)
  show ?thesis
    by (rule last_in_all_is_promoted [where ms = "[zero_memory, zero_memory\<lparr>m_id := ''b'', m_importance := 1\<rparr>]"])
      (use t raw rec imp in \<open>simp_all add: default_ranking_options_def\<close>)
qed

end
