(* ===== verification/Search.thy ===== *)
theory Search
  imports SearchQueries QueryCache ServiceFrames RankLaws
begin

text \<open>
  Retrieval (\<open>search.go\<close>, \<open>search_entity.go\<close>, \<open>search_graph.go\<close>, \<open>search_setup.go\<close>,
  \<open>search_ranking_utils.go\<close>): \<open>SearchWithFilters\<close> with every candidate source, over the repositories and
  the vector store of the other theories. A search also changes the cache of query embeddings, which is
  state of the service and not of the database, so a search action maps a cache and a world to a result,
  a cache and a world. The path and neighbourhood queries of a graph database are optional arguments
  (SQLite has neither), and so is the model that decomposes queries.
\<close>

section \<open>Options and actions\<close>

datatype retrieval_kind = RetrieveAuto | RetrieveVector | RetrieveEntity

record search_options =
  sx_min_score :: real
  sx_tiers :: "memory_tier list"
  sx_kinds :: "memory_kind list"
  sx_retrieval :: string
  sx_disable_touch :: bool

definition default_search_options :: search_options where
  "default_search_options = \<lparr>sx_min_score = 0, sx_tiers = [], sx_kinds = [], sx_retrieval = [], sx_disable_touch = False\<rparr>"

record path_query =
  pq_seeds :: "string list"
  pq_relations :: "string list"
  pq_max_hops :: int
  pq_limit :: int
  pq_temporal_validity :: bool

record path_candidate =
  pc_memory :: string
  pc_score :: real

text \<open>The rest of the service's fields. \<open>sq_ties\<close> says where the sort that is not stable leaves equal
  scores, each time it runs.\<close>

record searcher =
  sq_retrieval :: retrieval_options
  sq_ranking :: ranking_options
  sq_rerank :: rerank_options
  sq_prefer_canonical :: bool
  sq_decomposer :: "(string \<Rightarrow> int \<Rightarrow> nat \<Rightarrow> err + string list) option"
  sq_paths :: "(string \<Rightarrow> path_query \<Rightarrow> path_candidate list db_act) option"
  sq_neighbourhood :: "(string \<Rightarrow> string list \<Rightarrow> int \<Rightarrow> entity_fact list db_act) option"
  sq_ties :: "nat \<Rightarrow> string \<Rightarrow> nat"

type_synonym 'a search_act = "query_cache option \<Rightarrow> db_world \<Rightarrow> ((err + 'a) \<times> query_cache option) \<times> db_world"

definition on_db :: "'a db_act \<Rightarrow> 'a search_act" where
  "on_db m c w = (case m w of (r, w1) \<Rightarrow> ((r, c), w1))"

definition bind_search :: "'a search_act \<Rightarrow> ('a \<Rightarrow> 'b search_act) \<Rightarrow> 'b search_act" where
  "bind_search m f c w = (case m c w of ((Inl e, c1), w1) \<Rightarrow> ((Inl e, c1), w1) | ((Inr x, c1), w1) \<Rightarrow> f x c1 w1)"

definition return_search :: "'a \<Rightarrow> 'a search_act" where
  "return_search x c w = ((Inr x, c), w)"

definition fail_search :: "err \<Rightarrow> 'a search_act" where
  "fail_search e c w = ((Inl e, c), w)"

definition step_count :: "nat db_act" where
  "step_count w = (Inr (steps w), w)"

section \<open>Filters\<close>

definition normalize_search_retrieval_kind :: "string \<Rightarrow> retrieval_kind option" where
  "normalize_search_retrieval_kind kind =
     (let k = to_lower (trim_space kind) in
      if k = [] \<or> k = ''auto'' then Some RetrieveAuto
      else if k = ''vector'' then Some RetrieveVector
      else if k = ''entity'' then Some RetrieveEntity else None)"

definition build_tier_filter :: "memory_tier list \<Rightarrow> err + memory_tier list" where
  "build_tier_filter ts =
     (if set ts \<subseteq> {TierWorking, TierEpisodic, TierSemantic} then Inr (uniq ts) else Inl ErrInvalidInput)"

definition build_kind_filter :: "memory_kind list \<Rightarrow> err + memory_kind list" where
  "build_kind_filter ks =
     (if set ks \<subseteq> {KindRawTurn, KindObservation, KindSummary, KindEvent} then Inr (uniq ks) else Inl ErrInvalidInput)"

definition passes :: "memory_tier list \<Rightarrow> memory_kind list \<Rightarrow> memory \<Rightarrow> bool" where
  "passes tf kf m \<longleftrightarrow> (kf = [] \<or> m_kind m \<in> set kf) \<and> (tf = [] \<or> m_tier m \<in> set tf)"

definition should_apply_implicit_canonical_kinds :: "service \<Rightarrow> searcher \<Rightarrow> search_options \<Rightarrow> bool" where
  "should_apply_implicit_canonical_kinds sv sq opts \<longleftrightarrow>
     sq_prefer_canonical sq \<and> ms_entity sv \<noteq> None \<and> sx_kinds opts = []"

section \<open>Candidates\<close>

definition lookup_limit :: "int \<Rightarrow> int" where
  "lookup_limit top_k = (let l = top_k div 10; l1 = (if l < 8 then 8 else l) in if l1 > 24 then 24 else l1)"

text \<open>The active facts of an entity under a relation.\<close>

definition relation_facts :: "service \<Rightarrow> fact_store \<Rightarrow> string \<Rightarrow> string \<Rightarrow> int \<Rightarrow> string \<Rightarrow> entity_fact list db_act" where
  "relation_facts sv fs t entity limit relation =
     bind_act (fs_list fs t entity relation limit) (\<lambda>facts.
       return_act (if mh_graph_singleton_invalidation (ms_multi_hop sv) then filter_active_entity_facts facts else facts))"

definition indexed_scores :: "int \<Rightarrow> string \<Rightarrow> memory_tier list \<Rightarrow> memory_kind list \<Rightarrow> memory list \<Rightarrow> lexical_candidate list" where
  "indexed_scores top_k q tf kf ms =
     map (\<lambda>(i, m). \<lparr>lc_memory = m, lc_score =
         clamp01 (8 / 10 * rank_to_normalized (int i + 1) top_k + 2 / 10 * lexical_content_score q (m_content m))\<rparr>)
       (filter (\<lambda>(i, m). passes tf kf m) (enumerate 0 ms))"

definition collect_lexical_candidates ::
  "service \<Rightarrow> string \<Rightarrow> string list \<Rightarrow> int \<Rightarrow> search_options \<Rightarrow> memory_tier list \<Rightarrow> memory_kind list \<Rightarrow>
   lexical_candidate list db_act" where
  "collect_lexical_candidates sv t queries top_k opts tf kf =
     bind_act (map_act (\<lambda>q. bind_act (repo_search_with_filters (ms_engine sv) t q top_k
         \<lparr>sf_tiers = sx_tiers opts, sf_kinds = sx_kinds opts\<rparr>) (\<lambda>ms.
         return_act (indexed_scores top_k q tf kf ms))) queries) (\<lambda>css. return_act (concat css))"

definition hint_relations :: "string list" where
  "hint_relations = [''activity'', ''preference'', ''event'', ''plan'', ''goal'', ''identity'', ''role'', ''relationship'',
     ''relationship status'', ''belief'', ''value'', ''trait'', ''place'', ''book'']"

definition collect_entity_hint_candidates ::
  "service \<Rightarrow> string \<Rightarrow> string \<Rightarrow> string \<Rightarrow> int \<Rightarrow> memory_tier list \<Rightarrow> memory_kind list \<Rightarrow>
   lexical_candidate list db_act" where
  "collect_entity_hint_candidates sv t qry entity0 top_k tf kf =
     (let entity = normalize_entity_fact_entity entity0 in
      case ms_entity sv of
        None \<Rightarrow> return_act []
      | Some fs \<Rightarrow>
          if entity = [] then return_act []
          else bind_act (map_act (relation_facts sv fs t entity (lookup_limit top_k)) hint_relations) (\<lambda>fss.
               let ids = uniq_trimmed (map f_memory (concat fss)) in
               if ids = [] then return_act []
               else bind_act (repo_get_by_ids t ids) (\<lambda>ms.
                    let cs = map (\<lambda>m. \<lparr>lc_memory = m, lc_score = lexical_content_score qry (m_content m)\<rparr>)
                               (filter (passes tf kf) ms);
                        good = filter (\<lambda>c. \<not> lc_score c < 12 / 100) cs;
                        mx = (if top_k div 2 < 8 then 8 else top_k div 2) in
                    return_act (take (nat mx) (order_lexical good)))))"

text \<open>The scores of the paths by memory: identifiers in order of appearance, each with its best score
  among those that reach the minimum.\<close>

fun note_paths :: "real \<Rightarrow> path_candidate list \<Rightarrow> (string \<times> real) list \<Rightarrow> (string \<times> real) list" where
  "note_paths least [] acc = acc"
| "note_paths least (c # cs) acc =
     (let i = trim_space (pc_memory c); s = clamp01 (pc_score c) in
      if i = [] \<or> s < least then note_paths least cs acc
      else note_paths least cs (case map_of acc i of
          None \<Rightarrow> acc @ [(i, s)]
        | Some old \<Rightarrow> if s > old then AList.update i s acc else acc))"

definition path_scores :: "service \<Rightarrow> searcher \<Rightarrow> string \<Rightarrow> string list \<Rightarrow> string list \<Rightarrow> (string \<times> real) list db_act" where
  "path_scores sv sq t entities relations =
     (let mh = ms_multi_hop sv in
      case sq_paths sq of
        None \<Rightarrow> return_act []
      | Some paths \<Rightarrow>
          if \<not> mh_graph_path mh then return_act []
          else bind_act (paths t \<lparr>pq_seeds = entities, pq_relations = relations, pq_max_hops = mh_graph_max_hops mh,
                 pq_limit = positive_or (mh_graph_path_limit default_multi_hop_options) (mh_graph_path_limit mh),
                 pq_temporal_validity = mh_graph_temporal_validity mh\<rparr>) (\<lambda>cs.
               return_act (note_paths (mh_graph_min_score mh) cs [])))"

definition neighbour_facts :: "searcher \<Rightarrow> string \<Rightarrow> string list \<Rightarrow> int \<Rightarrow> entity_fact list db_act" where
  "neighbour_facts sq t entities limit =
     (case sq_neighbourhood sq of
        None \<Rightarrow> return_act []
      | Some nb \<Rightarrow> nb t entities (min 256 (max 32 limit)))"

definition collect_graph_entity_bridge_candidates ::
  "service \<Rightarrow> searcher \<Rightarrow> string \<Rightarrow> string \<Rightarrow> query_plan \<Rightarrow> lexical_candidate list \<Rightarrow> int \<Rightarrow> memory_tier list \<Rightarrow>
   memory_kind list \<Rightarrow> bool \<Rightarrow> lexical_candidate list db_act" where
  "collect_graph_entity_bridge_candidates sv sq t qry plan lexical top_k tf kf force =
     (let mh = ms_multi_hop sv;
          entities = graph_entity_bridge_seeds qry plan lexical (mh_graph_seed_limit mh);
          relations = expand_entity_fact_relations (graph_relation_hints qry plan);
          limit = lookup_limit top_k in
      case ms_entity sv of
        None \<Rightarrow> return_act []
      | Some fs \<Rightarrow>
          if \<not> force \<and> pl_intent plan \<noteq> ''graph_entity_expansion'' \<or> entities = [] then return_act []
          else bind_act (path_scores sv sq t entities relations) (\<lambda>paths.
            bind_act (map_act (\<lambda>(e, r). relation_facts sv fs t e limit r) (List.product entities relations)) (\<lambda>fss.
            bind_act (neighbour_facts sq t entities (limit * int (length relations) * 2)) (\<lambda>nfs.
            let ids = uniq_trimmed (map fst paths @ map f_memory (concat fss @ nfs)) in
            if ids = [] then return_act []
            else bind_act (repo_get_by_ids t ids) (\<lambda>ms.
              let path = (\<lambda>m. case map_of paths (m_id m) of None \<Rightarrow> 0 | Some s \<Rightarrow> s);
                  cs = map (\<lambda>m. \<lparr>lc_memory = m, lc_score =
                      graph_bridge_candidate_score qry (m_content m) entities (path m) (mh_graph_weight mh)\<rparr>)
                    (filter (passes tf kf) ms);
                  good = filter (\<lambda>c. \<not> lc_score c < (if path (lc_memory c) > 0 then mh_graph_min_score mh else 16 / 100)) cs in
              return_act (take (nat (max 12 top_k)) (order_lexical good)))))))"

definition filter_dense_candidates_by_metadata ::
  "string \<Rightarrow> vector_candidate list \<Rightarrow> memory_tier list \<Rightarrow> memory_kind list \<Rightarrow> vector_candidate list db_act" where
  "filter_dense_candidates_by_metadata t cs tf kf =
     (let ids = uniq_trimmed (map vc_memory cs) in
      if ids = [] then return_act []
      else bind_act (repo_get_by_ids t ids) (\<lambda>ms.
           let allowed = map m_id (filter (passes tf kf) ms) in
           return_act (filter (\<lambda>c. vc_memory c \<in> set allowed) cs)))"

definition collect_dense_candidates ::
  "vector_store \<Rightarrow> string \<Rightarrow> real list list \<Rightarrow> int \<Rightarrow> memory_tier list \<Rightarrow> memory_kind list \<Rightarrow> vector_candidate list db_act" where
  "collect_dense_candidates vs t embeddings top_k tf kf =
     (let filtering = kf \<noteq> [] \<or> tf \<noteq> []; k = (if filtering then min 600 (top_k * 3) else top_k) in
      bind_act (map_act (\<lambda>e. bind_act (vs_search vs t e k) (\<lambda>cs.
          if filtering then filter_dense_candidates_by_metadata t cs tf kf else return_act cs)) embeddings)
        (\<lambda>css. return_act (concat css)))"

section \<open>Grounded context\<close>

definition append_memory :: "memory \<Rightarrow> memory list \<Rightarrow> memory list" where
  "append_memory m out = (if trim_space (m_id m) = [] \<or> m_id m \<in> set (map m_id out) then out else out @ [m])"

definition append_first :: "(memory \<Rightarrow> bool) \<Rightarrow> memory list \<Rightarrow> memory list \<Rightarrow> memory list" where
  "append_first p ms out = (case find p ms of None \<Rightarrow> out | Some m \<Rightarrow> append_memory m out)"

definition expand_one_memory :: "string \<Rightarrow> int \<Rightarrow> memory \<Rightarrow> memory list \<Rightarrow> memory list db_act" where
  "expand_one_memory t top_k m out0 =
     (let out = append_memory m out0 in
      if 0 < top_k \<and> top_k \<le> int (length out) then return_act out
      else if m_kind m = KindRawTurn \<or> trim_space (m_source_turn_hash m) = [] then return_act out
      else bind_act (repo_list_by_source_turn_hash t (m_source_turn_hash m) 4) (\<lambda>siblings.
           let others = filter (\<lambda>x. m_id x \<noteq> m_id m) siblings in
           return_act (append_first (\<lambda>x. m_kind x = KindEvent \<or> m_kind x = KindObservation) others
             (append_first (\<lambda>x. m_kind x = KindRawTurn) others out))))"

definition expand_grounded_context_memories :: "string \<Rightarrow> memory list \<Rightarrow> int \<Rightarrow> memory list db_act" where
  "expand_grounded_context_memories t ms top_k =
     (if ms = [] then return_act ms else fold_act (expand_one_memory t top_k) ms [])"

section \<open>Ranking the memories found\<close>

definition rank_and_sort ::
  "searcher \<Rightarrow> memory list \<Rightarrow> (string \<Rightarrow> candidate_signal) \<Rightarrow> int \<Rightarrow> string \<Rightarrow> query_profile \<Rightarrow> query_plan \<Rightarrow>
   scored_memory list db_act" where
  "rank_and_sort sq ms signals limit qry profile plan =
     bind_act now_act (\<lambda>now. bind_act step_count (\<lambda>n.
       return_act (sort_by_score (sq_ties sq n)
         (rank_memories now ms signals limit qry profile plan (sq_ranking sq) (sq_retrieval sq)))))"

definition pairwise_pass :: "service \<Rightarrow> searcher \<Rightarrow> string \<Rightarrow> int \<Rightarrow> query_profile \<Rightarrow> scored_memory list \<Rightarrow> scored_memory list" where
  "pairwise_pass sv sq qry top_k profile xs =
     (if should_apply_pairwise_rerank profile (ms_multi_hop sv)
      then rerank_scored_candidates (sq_rerank sq) xs qry top_k else xs)"

definition early_pass :: "searcher \<Rightarrow> string \<Rightarrow> query_plan \<Rightarrow> int \<Rightarrow> query_profile \<Rightarrow> scored_memory list \<Rightarrow> scored_memory list" where
  "early_pass sq qry plan top_k profile xs =
     (if ro_early_rank_rerank (sq_retrieval sq) \<and> \<not> qp_multi_hop profile
      then apply_early_rank_rerank (sq_retrieval sq) xs qry plan top_k profile else xs)"

definition touch_results :: "string \<Rightarrow> search_options \<Rightarrow> memory list \<Rightarrow> unit db_act" where
  "touch_results t opts ms =
     (if sx_disable_touch opts \<or> ms = [] then return_act () else ignore_act (repo_touch t (map m_id ms)))"

section \<open>Aggregation questions\<close>

text \<open>\<open>searchByEntityFacts\<close>: \<open>None\<close> when the question is not handled this way.\<close>

definition raw_last :: "memory list \<Rightarrow> memory list" where
  "raw_last ms = filter (\<lambda>m. m_kind m \<noteq> KindRawTurn) ms @ filter (\<lambda>m. m_kind m = KindRawTurn) ms"

definition finish_entity_search ::
  "string \<Rightarrow> int \<Rightarrow> search_options \<Rightarrow> memory_kind list \<Rightarrow> memory list \<Rightarrow> memory list option db_act" where
  "finish_entity_search t top_k opts kf ranked =
     (if ranked = [] then return_act None
      else bind_act (if kf = [] then expand_grounded_context_memories t (raw_last ranked) top_k
                     else return_act ranked) (\<lambda>expanded.
           let out = (if int (length expanded) > top_k then take (nat top_k) expanded else expanded) in
           bind_act (touch_results t opts out) (\<lambda>_. return_act (Some out))))"

definition search_by_entity_facts ::
  "service \<Rightarrow> searcher \<Rightarrow> string \<Rightarrow> string \<Rightarrow> int \<Rightarrow> search_options \<Rightarrow> memory_tier list \<Rightarrow> memory_kind list \<Rightarrow>
   query_plan \<Rightarrow> memory list option db_act" where
  "search_by_entity_facts sv sq t qry top_k opts tf kf plan =
     (let entity = primary_entity plan; relation = primary_relation plan;
          expanded = expand_entity_fact_relations [relation];
          relations = (if expanded = [] then [relation] else expanded);
          limit = (if top_k * 6 < 20 then 20 else top_k * 6) in
      case ms_entity sv of
        None \<Rightarrow> return_act None
      | Some fs \<Rightarrow>
          if pl_intent plan \<noteq> ''aggregation_lookup'' \<or> entity = [] \<or> relation = [] then return_act None
          else bind_act (map_act (relation_facts sv fs t entity limit) relations) (\<lambda>fss.
            let ids = uniq_trimmed (map f_memory (concat fss)) in
            if ids = [] then return_act None
            else bind_act (repo_get_by_ids t ids) (\<lambda>ms.
              let found = filter (passes tf kf) ms; profile = classify_query qry;
                  signals = (\<lambda>i. case map_of (map (\<lambda>m. (m_id m, lexical_content_score qry (m_content m))) (rev found)) i of
                    None \<Rightarrow> no_signal | Some s \<Rightarrow> no_signal\<lparr>cs_lexical_score := s, cs_rrf_score := 1\<rparr>) in
              if found = [] then return_act None
              else bind_act (rank_and_sort sq found signals (max top_k (int (length found))) qry profile plan) (\<lambda>scored.
                finish_entity_search t top_k opts kf
                  (map sm_memory (filter (\<lambda>x. \<not> sm_score x < sx_min_score opts)
                    (pairwise_pass sv sq qry top_k profile scored)))))))"

section \<open>SearchWithFilters\<close>

record gathered =
  ga_lexical :: "lexical_candidate list"
  ga_queries :: "string list"

text \<open>The lexical side: hints, the first queries, the adaptive ones, those of several hops, the bridge.\<close>

definition gather_hints ::
  "service \<Rightarrow> string \<Rightarrow> string \<Rightarrow> query_profile \<Rightarrow> int \<Rightarrow> memory_tier list \<Rightarrow> memory_kind list \<Rightarrow> lexical_candidate list db_act" where
  "gather_hints sv t qry profile ck tf kf =
     (case classify_entity_hint_query qry profile of
        None \<Rightarrow> return_act []
      | Some e \<Rightarrow> collect_entity_hint_candidates sv t qry e ck tf kf)"

definition gather_more ::
  "(string list \<Rightarrow> lexical_candidate list db_act) \<Rightarrow> string list \<Rightarrow> gathered \<Rightarrow> gathered db_act" where
  "gather_more collect qs g =
     (if qs = [] then return_act g
      else bind_act (collect qs) (\<lambda>cs. return_act
        \<lparr>ga_lexical = ga_lexical g @ cs, ga_queries = append_unique_search_queries (ga_queries g) qs\<rparr>))"

definition decomposed_queries :: "service \<Rightarrow> searcher \<Rightarrow> string \<Rightarrow> string list db_act" where
  "decomposed_queries sv sq qry =
     try_act (remote (\<lambda>n. build_llm_multi_hop_queries (map_option (\<lambda>d q k. d q k n) (sq_decomposer sq))
         (ms_multi_hop sv) qry))
       (\<lambda>r. return_act (case r of Inl _ \<Rightarrow> [] | Inr qs \<Rightarrow> qs))"

definition gather_hops ::
  "service \<Rightarrow> searcher \<Rightarrow> (string list \<Rightarrow> lexical_candidate list db_act) \<Rightarrow> string \<Rightarrow> gathered \<Rightarrow> gathered db_act" where
  "gather_hops sv sq collect qry g0 =
     bind_act (decomposed_queries sv sq qry) (\<lambda>qs.
     bind_act (gather_more collect qs g0) (\<lambda>g1.
       if mh_token_expansion_fallback (ms_multi_hop sv)
       then gather_more collect (build_iterative_multi_hop_queries qry (ga_lexical g1) 2) g1
       else return_act g1))"

definition gather_lexical ::
  "service \<Rightarrow> searcher \<Rightarrow> string \<Rightarrow> string \<Rightarrow> int \<Rightarrow> search_options \<Rightarrow> memory_tier list \<Rightarrow> memory_kind list \<Rightarrow>
   retrieval_kind \<Rightarrow> query_profile \<Rightarrow> query_plan \<Rightarrow> gathered db_act" where
  "gather_lexical sv sq t qry ck opts tf kf rk profile plan =
     (let tuning = normalize_search_tuning (ro_search_tuning (sq_retrieval sq));
          queries = build_search_queries qry profile;
          collect = (\<lambda>qs. collect_lexical_candidates sv t qs ck opts tf kf);
          bridge = ms_entity sv \<noteq> None \<and> mh_entity_fact_bridge (ms_multi_hop sv) \<and>
            (qp_multi_hop profile \<or> rk = RetrieveEntity) in
      bind_act (if ms_entity sv = None then return_act [] else gather_hints sv t qry profile ck tf kf) (\<lambda>hints.
      bind_act (collect queries) (\<lambda>initial.
      let g0 = \<lparr>ga_lexical = hints @ initial, ga_queries = queries\<rparr> in
      bind_act (gather_more collect (build_adaptive_search_queries qry profile plan initial tuning) g0) (\<lambda>g1.
      bind_act (if qp_multi_hop profile then gather_hops sv sq collect qry g1 else return_act g1) (\<lambda>g2.
      if bridge
      then bind_act (collect_graph_entity_bridge_candidates sv sq t qry plan (ga_lexical g2) ck tf kf (rk = RetrieveEntity))
             (\<lambda>cs. return_act (g2\<lparr>ga_lexical := ga_lexical g2 @ cs\<rparr>))
      else return_act g2)))))"

definition gather_dense ::
  "service \<Rightarrow> string \<Rightarrow> string list \<Rightarrow> int \<Rightarrow> memory_tier list \<Rightarrow> memory_kind list \<Rightarrow> retrieval_kind \<Rightarrow>
   vector_candidate list search_act" where
  "gather_dense sv t queries ck tf kf rk =
     (case (ms_vector sv, ms_embedder sv) of
        (Some vs, Some em) \<Rightarrow>
          if rk = RetrieveEntity then return_search []
          else bind_search (\<lambda>c w. embed_search_queries (embed_contents em) c queries w) (\<lambda>es.
               on_db (collect_dense_candidates vs t es ck tf kf))
      | _ \<Rightarrow> return_search [])"

text \<open>From the ranked memories to the answer.\<close>

definition finish_search ::
  "string \<Rightarrow> int \<Rightarrow> search_options \<Rightarrow> memory_tier list \<Rightarrow> memory_kind list \<Rightarrow> query_profile \<Rightarrow> scored_memory list \<Rightarrow>
   memory list db_act" where
  "finish_search t top_k opts tf kf profile scored =
     (let good = filter (\<lambda>x. passes tf kf (sm_memory x) \<and> \<not> sm_score x < sx_min_score opts) scored;
          ordered = map sm_memory (if kf = [] then prefer_canonical_units good else good) in
      bind_act (if kf = [] \<and> should_expand_grounded_context profile
                then expand_grounded_context_memories t ordered top_k else return_act ordered) (\<lambda>expanded.
      let out = (if int (length expanded) > top_k then take (nat top_k) expanded else expanded) in
      bind_act (touch_results t opts out) (\<lambda>_.
      bind_act (ignore_act (tenant_repo_memory_count t)) (\<lambda>_. return_act out))))"

definition order_dense :: "vector_candidate list \<Rightarrow> vector_candidate list" where
  "order_dense cs = sort_key (\<lambda>c. (- vc_similarity c, vc_memory c)) cs"

definition rank_and_finish ::
  "service \<Rightarrow> searcher \<Rightarrow> string \<Rightarrow> string \<Rightarrow> int \<Rightarrow> int \<Rightarrow> search_options \<Rightarrow> memory_tier list \<Rightarrow> memory_kind list \<Rightarrow>
   query_profile \<Rightarrow> query_plan \<Rightarrow> lexical_candidate list \<Rightarrow> vector_candidate list \<Rightarrow> memory list db_act" where
  "rank_and_finish sv sq t qry top_k ck opts tf kf profile plan lexical dense =
     (if lexical = [] \<and> dense = [] then return_act []
      else let (ids, signals) = fuse_candidates_by_rrf (order_dense dense) (order_lexical lexical) ck in
        if ids = [] then return_act []
        else bind_act (repo_get_by_ids t ids) (\<lambda>ms.
          if ms = [] then return_act []
          else bind_act (rank_and_sort sq ms signals ck qry profile plan) (\<lambda>scored.
            finish_search t top_k opts tf kf profile
              (early_pass sq qry plan top_k profile (pairwise_pass sv sq qry top_k profile scored)))))"

definition search_core ::
  "service \<Rightarrow> searcher \<Rightarrow> string \<Rightarrow> string \<Rightarrow> int \<Rightarrow> search_options \<Rightarrow> memory_tier list \<Rightarrow> memory_kind list \<Rightarrow>
   retrieval_kind \<Rightarrow> memory list search_act" where
  "search_core sv sq t qry top_k0 opts tf kf rk =
     (let top_k = (if top_k0 \<le> 0 then 10 else top_k0);
          profile = classify_query qry; plan = build_query_plan qry profile;
          ck = candidate_window top_k profile plan (sx_kinds opts \<noteq> [] \<or> sx_tiers opts \<noteq> [])
                 (normalize_search_tuning (ro_search_tuning (sq_retrieval sq))) in
      bind_search (on_db (if rk = RetrieveVector then return_act None
          else search_by_entity_facts sv sq t qry top_k opts tf kf plan)) (\<lambda>handled.
      case handled of
        Some ms \<Rightarrow> return_search ms
      | None \<Rightarrow>
          bind_search (on_db (gather_lexical sv sq t qry ck opts tf kf rk profile plan)) (\<lambda>g.
          bind_search (gather_dense sv t (ga_queries g) ck tf kf rk) (\<lambda>dense.
          on_db (rank_and_finish sv sq t qry top_k ck opts tf kf profile plan (ga_lexical g) dense)))))"

text \<open>The checks at the start, and the search with given options.\<close>

definition search_checks ::
  "string \<Rightarrow> string \<Rightarrow> search_options \<Rightarrow> err + (memory_tier list \<times> memory_kind list \<times> retrieval_kind)" where
  "search_checks t qry opts =
     (if trim_space t = [] \<or> trim_space qry = [] then Inl ErrInvalidInput
      else if sx_min_score opts < 0 \<or> sx_min_score opts > 1 then Inl ErrInvalidInput
      else case build_tier_filter (sx_tiers opts) of
          Inl e \<Rightarrow> Inl e
        | Inr tf \<Rightarrow> (case build_kind_filter (sx_kinds opts) of
            Inl e \<Rightarrow> Inl e
          | Inr kf \<Rightarrow> (case normalize_search_retrieval_kind (sx_retrieval opts) of
              None \<Rightarrow> Inl ErrInvalidInput
            | Some rk \<Rightarrow> Inr (tf, kf, rk))))"

definition search_once :: "service \<Rightarrow> searcher \<Rightarrow> string \<Rightarrow> string \<Rightarrow> int \<Rightarrow> search_options \<Rightarrow> memory list search_act" where
  "search_once sv sq t qry top_k opts =
     (case search_checks t qry opts of
        Inl e \<Rightarrow> fail_search e
      | Inr (tf, kf, rk) \<Rightarrow>
          bind_search (on_db (ensure_tenant_exists t)) (\<lambda>_. search_core sv sq t qry top_k opts tf kf rk))"

definition canonical_kinds :: "memory_kind list" where
  "canonical_kinds = [KindObservation, KindEvent, KindSummary]"

text \<open>\<open>SearchWithFilters\<close>. Its only recursive call has kinds in the options, so it does not recurse
  again.\<close>

definition search_with_filters :: "service \<Rightarrow> searcher \<Rightarrow> string \<Rightarrow> string \<Rightarrow> int \<Rightarrow> search_options \<Rightarrow> memory list search_act" where
  "search_with_filters sv sq t qry top_k opts =
     (case search_checks t qry opts of
        Inl e \<Rightarrow> fail_search e
      | Inr (tf, kf, rk) \<Rightarrow>
          bind_search (on_db (ensure_tenant_exists t)) (\<lambda>_.
            if should_apply_implicit_canonical_kinds sv sq opts
            then bind_search (search_once sv sq t qry top_k (opts\<lparr>sx_kinds := canonical_kinds\<rparr>)) (\<lambda>ms.
                   if ms \<noteq> [] then return_search ms else search_core sv sq t qry top_k opts tf kf rk)
            else search_core sv sq t qry top_k opts tf kf rk))"

definition search_default :: "service \<Rightarrow> searcher \<Rightarrow> string \<Rightarrow> string \<Rightarrow> int \<Rightarrow> memory list search_act" where
  "search_default sv sq t qry top_k = search_with_filters sv sq t qry top_k default_search_options"

section \<open>The debug report\<close>

record ranking_debug =
  rd_rank :: nat
  rd_memory :: string
  rd_kind :: string
  rd_tier :: string
  rd_lexical :: real
  rd_overlap :: real
  rd_route :: real

definition ranking_debug_of :: "searcher \<Rightarrow> string \<Rightarrow> memory list \<Rightarrow> ranking_debug list" where
  "ranking_debug_of sq qry ms =
     (let profile = classify_query qry; plan = build_query_plan qry profile; toks = normalized_ranking_tokens qry in
      map (\<lambda>(i, m). \<lparr>rd_rank = i + 1, rd_memory = m_id m, rd_kind = kind_text (m_kind m), rd_tier = tier_text (m_tier m),
        rd_lexical = clamp01 (lexical_content_score qry (m_content m)),
        rd_overlap = clamp01 (query_overlap_score toks (normalized_ranking_tokens (m_content m))),
        rd_route = clamp01 (normalized_route_boost (route_boost m profile plan (sq_retrieval sq)))\<rparr>) (enumerate 0 ms))"

definition search_with_filters_debug ::
  "service \<Rightarrow> searcher \<Rightarrow> string \<Rightarrow> string \<Rightarrow> int \<Rightarrow> search_options \<Rightarrow>
   (memory list \<times> query_plan \<times> ranking_debug list) search_act" where
  "search_with_filters_debug sv sq t qry top_k opts =
     bind_search (search_with_filters sv sq t qry top_k opts) (\<lambda>ms.
       let plan = build_query_plan qry (classify_query qry) in
       return_search (ms, plan\<lparr>pl_confidence := clamp01 (pl_confidence plan)\<rparr>, ranking_debug_of sq qry ms))"

end
