(* ===== verification/SearchLaws.thy ===== *)
theory SearchLaws
  imports Search
begin

text \<open>
  What a search promises: where its results come from, what it does to the database, and how it fails.
  Until it records the accesses a search only reads, so the rules below are for runs that start from
  known tables: an error leaves them alone, and a success satisfies a condition on the result and the
  tables.
\<close>

section \<open>Runs from known tables\<close>

definition gives :: "database \<Rightarrow> 'a db_act \<Rightarrow> ('a \<Rightarrow> database \<Rightarrow> bool) \<Rightarrow> bool" where
  "gives D m Q \<longleftrightarrow> (\<forall>w r w'. tabs w = D \<longrightarrow> m w = (r, w') \<longrightarrow>
     (case r of Inl _ \<Rightarrow> tabs w' = D | Inr x \<Rightarrow> Q x (tabs w')))"

definition finds :: "database \<Rightarrow> 'a db_act \<Rightarrow> ('a \<Rightarrow> bool) \<Rightarrow> bool" where
  "finds D m R \<longleftrightarrow> gives D m (\<lambda>x D'. D' = D \<and> R x)"

named_theorems act_finds \<open>what reading actions return\<close>

lemma givesD:
  assumes "gives D m Q" "m w = (r, w')" "tabs w = D"
  shows "case r of Inl _ \<Rightarrow> tabs w' = D | Inr x \<Rightarrow> Q x (tabs w')"
  using assms by (simp add: gives_def)

lemma outcome_mono:
  "(case r of Inl _ \<Rightarrow> P | Inr x \<Rightarrow> Q x D') \<Longrightarrow> (\<And>x. Q x D' \<Longrightarrow> Q' x D') \<Longrightarrow>
   (case r of Inl _ \<Rightarrow> P | Inr x \<Rightarrow> Q' x D')"
  by (cases r) simp_all

lemma gives_mono:
  assumes "gives D m Q" "\<And>x D'. Q x D' \<Longrightarrow> Q' x D'"
  shows "gives D m Q'"
  unfolding gives_def using givesD [OF assms(1)] assms(2) by (blast intro: outcome_mono)

lemma finds_mono: "finds D m R \<Longrightarrow> (\<And>x. R x \<Longrightarrow> R' x) \<Longrightarrow> finds D m R'"
  unfolding finds_def by (erule gives_mono) simp

lemma gives_return: "Q x D \<Longrightarrow> gives D (return_act x) Q"
  by (simp add: gives_def return_act_def)

lemma finds_return: "R x \<Longrightarrow> finds D (return_act x) R"
  by (simp add: finds_def gives_return)

lemma gives_fail: "gives D (fail_act e) Q"
  by (simp add: gives_def fail_act_def)

lemma finds_fail: "finds D (fail_act e) R"
  by (simp add: finds_def gives_fail)

lemma finds_bind_gives:
  assumes "finds D m R" "\<And>x. R x \<Longrightarrow> gives D (f x) Q"
  shows "gives D (bind_act m f) Q"
  unfolding gives_def
proof (intro allI impI)
  fix w r w'
  assume w: "tabs w = D" and run: "bind_act m f w = (r, w')"
  obtain r1 w1 where m: "m w = (r1, w1)" by (cases "m w")
  have first: "case r1 of Inl _ \<Rightarrow> tabs w1 = D | Inr x \<Rightarrow> tabs w1 = D \<and> R x"
    using givesD [OF assms(1) [unfolded finds_def] m w] .
  show "case r of Inl _ \<Rightarrow> tabs w' = D | Inr x \<Rightarrow> Q x (tabs w')"
  proof (cases r1)
    case (Inl e)
    then show ?thesis using run m first by (auto simp: bind_act_def)
  next
    case (Inr x)
    then have "f x w1 = (r, w')" using run m by (simp add: bind_act_def)
    with Inr first show ?thesis using givesD [OF assms(2)] by auto
  qed
qed

lemma finds_bind: "finds D m R \<Longrightarrow> (\<And>x. R x \<Longrightarrow> finds D (f x) S) \<Longrightarrow> finds D (bind_act m f) S"
  unfolding finds_def [of _ "bind_act m f"] by (erule finds_bind_gives) (simp add: finds_def)

lemma finds_reads: "reads m \<Longrightarrow> finds D m (\<lambda>_. True)"
  by (auto simp: finds_def gives_def reads_def split: sum.splits) (metis snd_conv)+

lemma finds_query: "R (f D) \<Longrightarrow> finds D (query f) R"
  by (auto simp: finds_def gives_def query_def exec_def split: if_splits)

lemma finds_map_act:
  assumes "\<And>x. x \<in> set xs \<Longrightarrow> finds D (f x) R"
  shows "finds D (map_act f xs) (\<lambda>ys. \<forall>y \<in> set ys. R y)"
  using assms
proof (induction xs)
  case (Cons x xs)
  show ?case
    unfolding map_act.simps
    by (rule finds_bind [OF Cons.prems], simp, rule finds_bind [OF Cons.IH], simp add: Cons.prems)
      (rule finds_return, simp)
qed (simp add: finds_return)

lemma finds_fold_act:
  assumes "\<And>x s. x \<in> set xs \<Longrightarrow> R s \<Longrightarrow> finds D (f x s) R" "R s"
  shows "finds D (fold_act f xs s) R"
  using assms
proof (induction xs arbitrary: s)
  case (Cons x xs)
  have "finds D (f x s) R" using Cons.prems by simp
  moreover have "finds D (fold_act f xs s') R" if "R s'" for s' using Cons that by simp
  ultimately show ?case by (simp add: finds_bind)
qed (simp add: finds_return)

lemma finds_if: "(b \<Longrightarrow> finds D m R) \<Longrightarrow> (\<not> b \<Longrightarrow> finds D n R) \<Longrightarrow> finds D (if b then m else n) R"
  by simp

lemma gives_if: "(b \<Longrightarrow> gives D m Q) \<Longrightarrow> (\<not> b \<Longrightarrow> gives D n Q) \<Longrightarrow> gives D (if b then m else n) Q"
  by simp

lemma finds_ignore: "reads m \<Longrightarrow> finds D (ignore_act m) (\<lambda>_. True)"
  by (auto simp: finds_def gives_def ignore_act_def try_act_def return_act_def reads_def split: prod.splits)
    (metis snd_conv)

text \<open>After a write only what cannot fail may follow.\<close>

definition unfailing :: "'a db_act \<Rightarrow> bool" where
  "unfailing m \<longleftrightarrow> (\<forall>w. \<exists>x w'. m w = (Inr x, w'))"

lemma unfailing_return: "unfailing (return_act x)"
  by (simp add: unfailing_def return_act_def)

lemma unfailing_ignore: "unfailing (bind_act (ignore_act m) (\<lambda>_. return_act x))"
  unfolding unfailing_def
proof
  fix w
  obtain r w1 where "m w = (r, w1)" by (cases "m w")
  then show "\<exists>y w'. bind_act (ignore_act m) (\<lambda>_. return_act x) w = (Inr y, w')"
    by (simp add: bind_act_def ignore_act_def try_act_def return_act_def)
qed

lemma gives_bind:
  assumes "gives D m Q" "\<And>x D'. Q x D' \<Longrightarrow> gives D' (f x) S" "\<And>x. unfailing (f x)"
  shows "gives D (bind_act m f) S"
  unfolding gives_def
proof (intro allI impI)
  fix w r w'
  assume w: "tabs w = D" and run: "bind_act m f w = (r, w')"
  obtain r1 w1 where m: "m w = (r1, w1)" by (cases "m w")
  show "case r of Inl _ \<Rightarrow> tabs w' = D | Inr x \<Rightarrow> S x (tabs w')"
  proof (cases r1)
    case (Inl e)
    then show ?thesis using run m givesD [OF assms(1) m w] by (auto simp: bind_act_def)
  next
    case (Inr x)
    then have q: "Q x (tabs w1)" and rest: "f x w1 = (r, w')"
      using run m givesD [OF assms(1) m w] by (simp_all add: bind_act_def)
    obtain y where "r = Inr y" using assms(3) [of x] rest by (auto simp: unfailing_def) (metis Pair_inject)
    then show ?thesis using givesD [OF assms(2) [OF q] rest refl] by simp
  qed
qed

section \<open>Runs with the cache\<close>

definition search_gives :: "database \<Rightarrow> 'a search_act \<Rightarrow> ('a \<Rightarrow> database \<Rightarrow> bool) \<Rightarrow> bool" where
  "search_gives D m Q \<longleftrightarrow> (\<forall>c w r c' w'. tabs w = D \<longrightarrow> m c w = ((r, c'), w') \<longrightarrow>
     (case r of Inl _ \<Rightarrow> tabs w' = D | Inr x \<Rightarrow> Q x (tabs w')))"

lemma search_givesD:
  assumes "search_gives D m Q" "m c w = ((r, c'), w')" "tabs w = D"
  shows "case r of Inl _ \<Rightarrow> tabs w' = D | Inr x \<Rightarrow> Q x (tabs w')"
  using assms by (simp add: search_gives_def)

lemma search_gives_on_db: "gives D m Q \<Longrightarrow> search_gives D (on_db m) Q"
  by (auto simp: search_gives_def gives_def on_db_def split: prod.splits)

lemma search_gives_return: "Q x D \<Longrightarrow> search_gives D (return_search x) Q"
  by (simp add: search_gives_def return_search_def)

lemma search_gives_fail: "search_gives D (fail_search e) Q"
  by (simp add: search_gives_def fail_search_def)

lemma search_gives_mono:
  assumes "search_gives D m Q" "\<And>x D'. Q x D' \<Longrightarrow> Q' x D'"
  shows "search_gives D m Q'"
  unfolding search_gives_def using search_givesD [OF assms(1)] assms(2) by (blast intro: outcome_mono)

lemma search_gives_bind:
  assumes "search_gives D m Q" "\<And>x D'. Q x D' \<Longrightarrow> search_gives D' (f x) S"
    and "\<And>x D'. Q x D' \<Longrightarrow> D' \<noteq> D \<Longrightarrow> \<exists>y. f x = return_search y"
  shows "search_gives D (bind_search m f) S"
  unfolding search_gives_def
proof (intro allI impI)
  fix c w r c' w'
  assume w: "tabs w = D" and run: "bind_search m f c w = ((r, c'), w')"
  obtain r1 c1 w1 where m: "m c w = ((r1, c1), w1)" by (cases "m c w") auto
  have first: "case r1 of Inl _ \<Rightarrow> tabs w1 = D | Inr x \<Rightarrow> Q x (tabs w1)"
    using search_givesD [OF assms(1) m w] .
  show "case r of Inl _ \<Rightarrow> tabs w' = D | Inr x \<Rightarrow> S x (tabs w')"
  proof (cases r1)
    case (Inl e)
    then show ?thesis using run m first by (auto simp: bind_search_def)
  next
    case (Inr x)
    then have rest: "f x c1 w1 = ((r, c'), w')" and q: "Q x (tabs w1)"
      using run m first by (simp_all add: bind_search_def)
    have goal: "case r of Inl _ \<Rightarrow> tabs w' = tabs w1 | Inr y \<Rightarrow> S y (tabs w')"
      using search_givesD [OF assms(2) [OF q] rest] by simp
    show ?thesis
    proof (cases "tabs w1 = D")
      case False
      then obtain y where "f x = return_search y" using assms(3) [OF q] by blast
      then have "r = Inr y" using rest by (simp add: return_search_def)
      with goal show ?thesis by simp
    qed (use goal in \<open>simp split: sum.splits\<close>)
  qed
qed

section \<open>Where results come from\<close>

definition found_in :: "database \<Rightarrow> string \<Rightarrow> memory list \<Rightarrow> bool" where
  "found_in D t ms \<longleftrightarrow> distinct (map m_id ms) \<and>
     (\<forall>m \<in> set ms. m \<in> set (db_memories D) \<and> m_tenant m = t \<and> trim_space (m_id m) \<noteq> [])"

definition same_turn :: "memory \<Rightarrow> memory \<Rightarrow> bool" where
  "same_turn m m' \<longleftrightarrow> trim_space (m_source_turn_hash m') \<noteq> [] \<and> m_source_turn_hash m = m_source_turn_hash m'"

text \<open>Every memory of the list passes the filter or is from the turn of an earlier one that does.\<close>

definition anchored :: "(memory \<Rightarrow> bool) \<Rightarrow> memory list \<Rightarrow> bool" where
  "anchored p ms \<longleftrightarrow> (\<forall>n. \<forall>m \<in> set (take n ms). p m \<or> (\<exists>m' \<in> set (take n ms). p m' \<and> same_turn m m'))"

lemma anchored_all: "\<forall>m \<in> set ms. p m \<Longrightarrow> anchored p ms"
  by (auto simp: anchored_def dest: in_set_takeD)

lemma anchored_take: "anchored p ms \<Longrightarrow> anchored p (take k ms)"
  by (auto simp: anchored_def min_def)

lemma anchoredD: "anchored p ms \<Longrightarrow> m \<in> set ms \<Longrightarrow> p m \<or> (\<exists>m' \<in> set ms. p m' \<and> same_turn m m')"
  unfolding anchored_def by (metis order_refl take_all)

lemma anchored_snoc:
  assumes "anchored p ms" "p m \<or> (\<exists>m' \<in> set ms. p m' \<and> same_turn m m')"
  shows "anchored p (ms @ [m])"
  unfolding anchored_def
proof (intro allI ballI)
  fix n x
  assume x: "x \<in> set (take n (ms @ [m]))"
  show "p x \<or> (\<exists>m' \<in> set (take n (ms @ [m])). p m' \<and> same_turn x m')"
  proof (cases "n \<le> length ms")
    case True
    with x assms(1) show ?thesis by (simp add: anchored_def)
  next
    case False
    then have all: "take n (ms @ [m]) = ms @ [m]" by (intro take_all) simp
    have "x \<in> set ms \<or> x = m" using x unfolding all by auto
    then show ?thesis unfolding all using assms(2) anchoredD [OF assms(1), of x] by auto
  qed
qed

lemma found_in_take: "found_in D t ms \<Longrightarrow> found_in D t (take k ms)"
  by (auto simp: found_in_def take_map [symmetric] intro: distinct_take dest: in_set_takeD)

lemma found_in_filter: "found_in D t ms \<Longrightarrow> found_in D t (filter p ms)"
  by (simp add: found_in_def distinct_map_filter)

lemma found_in_perm:
  assumes "found_in D t ms" "mset ms' = mset ms"
  shows "found_in D t ms'"
proof -
  have "set ms' = set ms" using assms(2) by (metis set_mset_mset)
  moreover have "distinct (map m_id ms') = distinct (map m_id ms)"
    using assms(2) by (metis mset_eq_imp_distinct_iff mset_map)
  ultimately show ?thesis using assms(1) by (simp add: found_in_def)
qed

lemma finds_get_by_ids:
  assumes "store_ok D"
  shows "finds D (repo_get_by_ids t ids) (found_in D t)"
  unfolding finds_def gives_def
proof (intro allI impI)
  fix w r w'
  assume w: "tabs w = D" and run: "repo_get_by_ids t ids w = (r, w')"
  have r: "reads (repo_get_by_ids t ids)" unfolding repo_get_by_ids_def Let_def by (intro act_atomic)
  show "case r of Inl _ \<Rightarrow> tabs w' = D | Inr x \<Rightarrow> tabs w' = D \<and> found_in D t x"
  proof (cases r)
    case (Inr ms)
    have "map m_id ms = filter (\<lambda>i. \<exists>m \<in> set (db_memories (tabs w)). m_tenant m = t \<and> m_id m = i) (uniq_trimmed ids) \<and>
        set ms = {m \<in> set (db_memories (tabs w)). m_tenant m = t \<and> m_id m \<in> set (uniq_trimmed ids)} \<and> tabs w' = tabs w"
      using get_by_ids_functional [of w t ids ms w'] assms w run Inr by simp
    then show ?thesis using w Inr by (auto simp: found_in_def set_uniq_trimmed)
  qed (use readsD [OF r run] w in simp)
qed

section \<open>Grounded context\<close>

lemma append_memory_found:
  assumes "found_in D t out" "anchored p out" "m \<in> set (db_memories D)" "m_tenant m = t"
    and "p m \<or> (\<exists>m' \<in> set out. p m' \<and> same_turn m m')"
  shows "found_in D t (append_memory m out) \<and> anchored p (append_memory m out)"
  using assms by (auto simp: append_memory_def found_in_def intro: anchored_snoc)

lemma append_memory_mono: "set out \<subseteq> set (append_memory m out)"
  by (auto simp: append_memory_def)

lemma append_memory_in:
  assumes "store_ok D" "found_in D t out" "m \<in> set (db_memories D)" "trim_space (m_id m) \<noteq> []"
  shows "m \<in> set (append_memory m out)"
proof (cases "m_id m \<in> set (map m_id out)")
  case True
  then obtain x where "x \<in> set out" "m_id x = m_id m" by auto
  then have "x = m" using assms by (auto simp: store_ok_def found_in_def distinct_map dest: inj_onD)
  with \<open>x \<in> set out\<close> show ?thesis by (simp add: append_memory_def)
qed (use assms in \<open>simp add: append_memory_def\<close>)

lemma append_first_found:
  assumes "found_in D t out" "anchored p out"
    and "\<And>x. x \<in> set xs \<Longrightarrow> x \<in> set (db_memories D) \<and> m_tenant x = t \<and> (\<exists>m' \<in> set out. p m' \<and> same_turn x m')"
  shows "found_in D t (append_first f xs out) \<and> anchored p (append_first f xs out) \<and> set out \<subseteq> set (append_first f xs out)"
proof (cases "find f xs")
  case (Some x)
  then have "x \<in> set xs" by (auto simp: find_Some_iff)
  with assms append_memory_found [of D t out p x] append_memory_mono [of out x] show ?thesis
    by (simp add: append_first_def Some)
qed (use assms in \<open>simp add: append_first_def\<close>)

lemma finds_siblings:
  "finds D (repo_list_by_source_turn_hash t h n)
     (\<lambda>xs. \<forall>x \<in> set xs. x \<in> set (db_memories D) \<and> m_tenant x = t \<and> m_source_turn_hash x = h)"
  unfolding repo_list_by_source_turn_hash_def
  by (intro finds_if finds_return finds_query) (auto dest: subsetD [OF set_limit_rows])

lemma finds_expand_one:
  assumes ok: "store_ok D" and m: "m \<in> set (db_memories D)" "m_tenant m = t" "trim_space (m_id m) \<noteq> []" "p m"
    and out: "found_in D t out" "anchored p out"
  shows "finds D (expand_one_memory t k m out) (\<lambda>out'. found_in D t out' \<and> anchored p out')"
proof -
  let ?out = "append_memory m out"
  have o: "found_in D t ?out" "anchored p ?out" using append_memory_found [of D t out p m] m out by simp_all
  have i: "m \<in> set ?out" using append_memory_in [OF ok out(1) m(1,3)] .
  have step: "found_in D t (append_first f others (append_first g others ?out)) \<and>
      anchored p (append_first f others (append_first g others ?out))"
    if xs: "\<forall>x \<in> set xs. x \<in> set (db_memories D) \<and> m_tenant x = t \<and> m_source_turn_hash x = m_source_turn_hash m"
      and h: "trim_space (m_source_turn_hash m) \<noteq> []" and others: "others = filter q xs" for f g q xs others
  proof -
    have sib: "x \<in> set (db_memories D) \<and> m_tenant x = t \<and> (\<exists>m' \<in> set o'. p m' \<and> same_turn x m')"
      if "x \<in> set others" "m \<in> set o'" for x o'
      using that xs h m(4) others by (auto simp: same_turn_def)
    have 1: "found_in D t (append_first g others ?out) \<and> anchored p (append_first g others ?out) \<and>
        set ?out \<subseteq> set (append_first g others ?out)"
      using o sib i by (intro append_first_found) simp_all
    then have "m \<in> set (append_first g others ?out)" using i by blast
    with 1 sib append_first_found [of D t "append_first g others ?out" p others f] show ?thesis by blast
  qed
  show ?thesis
    unfolding expand_one_memory_def Let_def
    by (intro finds_if finds_return finds_bind [OF finds_siblings]) (use o step in auto)
qed

lemma finds_expand:
  assumes "store_ok D" "found_in D t ms" "\<forall>m \<in> set ms. p m"
  shows "finds D (expand_grounded_context_memories t ms k) (\<lambda>out. found_in D t out \<and> anchored p out)"
proof -
  have "finds D (fold_act (expand_one_memory t k) ms []) (\<lambda>out. found_in D t out \<and> anchored p out)"
  proof (rule finds_fold_act)
    fix m out assume "m \<in> set ms" "found_in D t out \<and> anchored p out"
    then show "finds D (expand_one_memory t k m out) (\<lambda>out'. found_in D t out' \<and> anchored p out')"
      using assms by (intro finds_expand_one) (auto simp: found_in_def)
  qed (simp add: found_in_def anchored_def)
  then show ?thesis
    using assms by (auto simp: expand_grounded_context_memories_def anchored_all intro: finds_return)
qed

section \<open>Recording the accesses, and the end of a search\<close>

text \<open>All that a search changes in the database: when it is allowed to, the access counters of its
  results.\<close>

definition accessed :: "string \<Rightarrow> search_options \<Rightarrow> memory list \<Rightarrow> database \<Rightarrow> database \<Rightarrow> bool" where
  "accessed t opts ms D D' \<longleftrightarrow> D' = D \<or> (\<not> sx_disable_touch opts \<and> ms \<noteq> [] \<and>
     (\<exists>now. D' = D\<lparr>db_memories := update_where (\<lambda>m. m_tenant m = t \<and> m_id m \<in> set (uniq_trimmed (map m_id ms)))
        (\<lambda>m. m\<lparr>m_last_accessed_at := now, m_last_recalled_at := now,
           m_recall_count := m_recall_count m + 1, m_updated_at := now\<rparr>) (db_memories D)\<rparr>))"

lemma gives_touch: "gives D (touch_results t opts ms) (\<lambda>_ D'. accessed t opts ms D D')"
  unfolding gives_def
proof (intro allI impI)
  fix w r w'
  assume w: "tabs w = D" and run: "touch_results t opts ms w = (r, w')"
  show "case r of Inl _ \<Rightarrow> tabs w' = D | Inr _ \<Rightarrow> accessed t opts ms D (tabs w')"
  proof (cases "sx_disable_touch opts \<or> ms = []")
    case True
    then show ?thesis using run w by (auto simp: touch_results_def return_act_def accessed_def)
  next
    case False
    obtain r1 w1 where t: "repo_touch t (map m_id ms) w = (r1, w1)" by (cases "repo_touch t (map m_id ms) w")
    have "accessed t opts ms D (tabs w1)"
      using t w False
      by (auto simp: repo_touch_def Let_def fail_act_def return_act_def bind_act_def now_act_def exec_def touch_stmt_def
          accessed_def split: if_splits)
    moreover have "r = Inr ()" "w' = w1"
      using run False t by (auto simp: touch_results_def ignore_act_def try_act_def return_act_def)
    ultimately show ?thesis by simp
  qed
qed

text \<open>What is known of the answer to a search.\<close>

definition answer_ok ::
  "database \<Rightarrow> string \<Rightarrow> search_options \<Rightarrow> int \<Rightarrow> memory_tier list \<Rightarrow> memory_kind list \<Rightarrow> memory list \<Rightarrow> database \<Rightarrow> bool" where
  "answer_ok D t opts k tf kf ms D' \<longleftrightarrow> found_in D t ms \<and> int (length ms) \<le> k \<and> anchored (passes tf kf) ms \<and>
     (kf \<noteq> [] \<longrightarrow> (\<forall>m \<in> set ms. passes tf kf m)) \<and> accessed t opts ms D D'"

lemma cut_length: "0 < k \<Longrightarrow> int (length (if int (length xs) > k then take (nat k) xs else xs)) \<le> k"
  by simp

lemma cut_take: "0 < k \<Longrightarrow> (if int (length xs) > k then take (nat k) xs else xs) = take (nat k) xs"
  by auto

text \<open>The order of the ranked memories does not matter to these promises.\<close>

lemma pairwise_pass_memories: "mset (map sm_memory (pairwise_pass sv sq q k p xs)) = mset (map sm_memory xs)"
  by (auto simp: pairwise_pass_def rerank_scored_memories simp del: mset_map)

lemma early_pass_memories: "mset (map sm_memory (early_pass sq q pl k p xs)) = mset (map sm_memory xs)"
  by (auto simp: early_pass_def early_rerank_memories simp del: mset_map)

lemma sort_by_score_memories: "mset (map sm_memory (sort_by_score tie xs)) = mset (map sm_memory xs)"
  by (simp only: mset_map sort_by_score_perm)

lemma prefer_canonical_perm: "mset (prefer_canonical_units xs) = mset xs"
  by (simp add: prefer_canonical_units_def Let_def)

lemma raw_last_perm: "mset (raw_last ms) = mset ms"
  by (simp add: raw_last_def)

lemma finds_rank_and_sort:
  "finds D (rank_and_sort sq ms sg l q p pl) (\<lambda>xs. mset (map sm_memory xs) = mset ms)"
proof -
  have n: "finds D step_count (\<lambda>_. True)" "finds D now_act (\<lambda>_. True)"
    by (auto intro!: finds_reads act_atomic simp: step_count_def reads_def)
  show ?thesis
    unfolding rank_and_sort_def
    by (intro finds_bind [OF n(2)] finds_bind [OF n(1)] finds_return)
      (simp only: sort_by_score_memories rank_memories_memories)
qed

text \<open>The memories from which the answer is cut.\<close>

definition grounded :: "database \<Rightarrow> string \<Rightarrow> memory_tier list \<Rightarrow> memory_kind list \<Rightarrow> memory list \<Rightarrow> bool" where
  "grounded D t tf kf xs \<longleftrightarrow> found_in D t xs \<and> anchored (passes tf kf) xs \<and>
     (kf \<noteq> [] \<longrightarrow> (\<forall>m \<in> set xs. passes tf kf m))"

lemma grounded_all: "found_in D t xs \<Longrightarrow> \<forall>m \<in> set xs. passes tf kf m \<Longrightarrow> grounded D t tf kf xs"
  by (simp add: grounded_def anchored_all)

lemma finds_maybe_expand:
  assumes "store_ok D" "found_in D t xs" "\<forall>m \<in> set xs. passes tf kf m"
    and "found_in D t ys" "\<forall>m \<in> set ys. passes tf kf m" "b \<longrightarrow> kf = []"
  shows "finds D (if b then expand_grounded_context_memories t xs k else return_act ys) (grounded D t tf kf)"
proof (cases b)
  case True
  with assms have "finds D (expand_grounded_context_memories t xs k) (grounded D t tf kf)"
    by (intro finds_mono [OF finds_expand [of D t xs "passes tf kf"]]) (simp_all add: grounded_def)
  with True show ?thesis by simp
qed (use assms in \<open>simp add: finds_return grounded_all\<close>)

lemma touched_answer:
  assumes "grounded D t tf kf xs" "0 < k" "accessed t opts (take (nat k) xs) D D'"
  shows "answer_ok D t opts k tf kf (take (nat k) xs) D'"
  using assms by (auto simp: grounded_def answer_ok_def found_in_take anchored_take dest: in_set_takeD)

lemma gives_finish_search:
  assumes ok: "store_ok D" and k: "0 < k" and f: "found_in D t (map sm_memory scored)"
  shows "gives D (finish_search t k opts tf kf profile scored) (answer_ok D t opts k tf kf)"
proof -
  let ?good = "filter (\<lambda>x. passes tf kf (sm_memory x) \<and> \<not> sm_score x < sx_min_score opts) scored"
  define ordered where "ordered = map sm_memory (if kf = [] then prefer_canonical_units ?good else ?good)"
  have good: "found_in D t (map sm_memory ?good)"
    using f by (auto simp: found_in_def distinct_map_filter distinct_map inj_on_def)
  have perm: "mset ordered = mset (map sm_memory ?good)"
    by (cases "kf = []") (simp_all add: prefer_canonical_perm ordered_def)
  have o: "found_in D t ordered" by (rule found_in_perm [OF good perm])
  have p: "\<forall>m \<in> set ordered. passes tf kf m" using mset_eq_setD [OF perm] by auto
  have last: "gives D (bind_act (touch_results t opts (take (nat k) xs))
      (\<lambda>_. bind_act (ignore_act (tenant_repo_memory_count t)) (\<lambda>_. return_act (take (nat k) xs))))
      (answer_ok D t opts k tf kf)" if "grounded D t tf kf xs" for xs
  proof (rule gives_bind [OF gives_touch])
    fix u D' assume "accessed t opts (take (nat k) xs) D D'"
    then show "gives D' (bind_act (ignore_act (tenant_repo_memory_count t)) (\<lambda>_. return_act (take (nat k) xs)))
        (answer_ok D t opts k tf kf)"
      by (intro finds_bind_gives [OF finds_ignore [OF reads_tenant(2)]] gives_return touched_answer [OF that k])
  qed (rule unfailing_ignore)
  show ?thesis
    unfolding finish_search_def Let_def cut_take [OF k] ordered_def [symmetric]
    by (rule finds_bind_gives [OF finds_maybe_expand [OF ok o p o p]]) (simp_all add: last)
qed

lemma gives_finish_entity:
  assumes ok: "store_ok D" and k: "0 < k" and f: "found_in D t ranked" and p: "\<forall>m \<in> set ranked. passes tf kf m"
  shows "gives D (finish_entity_search t k opts kf ranked)
    (\<lambda>r D'. case r of None \<Rightarrow> D' = D | Some ms \<Rightarrow> answer_ok D t opts k tf kf ms D')"
    (is "gives D _ ?Q")
proof -
  have rl: "found_in D t (raw_last ranked)" "\<forall>m \<in> set (raw_last ranked). passes tf kf m"
    using found_in_perm [OF f raw_last_perm] p by (auto simp: raw_last_def)
  have last: "gives D (bind_act (touch_results t opts (take (nat k) xs)) (\<lambda>_. return_act (Some (take (nat k) xs)))) ?Q"
    if "grounded D t tf kf xs" for xs
  proof (rule gives_bind [OF gives_touch])
    fix u D' assume "accessed t opts (take (nat k) xs) D D'"
    then show "gives D' (return_act (Some (take (nat k) xs))) ?Q"
      by (intro gives_return) (simp add: touched_answer [OF that k])
  qed (rule unfailing_return)
  have "gives D (bind_act (if kf = [] then expand_grounded_context_memories t (raw_last ranked) k else return_act ranked)
      (\<lambda>xs. bind_act (touch_results t opts (take (nat k) xs)) (\<lambda>_. return_act (Some (take (nat k) xs))))) ?Q"
    by (rule finds_bind_gives [OF finds_maybe_expand [OF ok rl f p]]) (simp_all add: last)
  then show ?thesis
    unfolding finish_entity_search_def Let_def cut_take [OF k]
    by (cases "ranked = []") (simp_all add: gives_return)
qed

text \<open>\<open>topK\<close> with its default.\<close>

definition result_limit :: "int \<Rightarrow> int" where
  "result_limit k = (if k \<le> 0 then 10 else k)"

section \<open>The checks\<close>

lemma search_checks_Inr:
  assumes "search_checks t q opts = Inr (tf, kf, rk)"
  shows "tf = uniq (sx_tiers opts)" "kf = uniq (sx_kinds opts)" "trim_space t \<noteq> []" "trim_space q \<noteq> []"
  using assms
  by (auto simp: search_checks_def build_tier_filter_def build_kind_filter_def split: if_splits option.splits)

lemma search_checks_canonical:
  assumes "search_checks t q opts = Inr (tf, kf, rk)"
  shows "search_checks t q (opts\<lparr>sx_kinds := canonical_kinds\<rparr>) = Inr (tf, canonical_kinds, rk)"
  using assms
  by (auto simp: search_checks_def build_tier_filter_def build_kind_filter_def canonical_kinds_def
      split: if_splits option.splits)

text \<open>An answer to the search among the canonical kinds is an answer to the search without kinds.\<close>

lemma answer_of_canonical:
  assumes "answer_ok D t (opts\<lparr>sx_kinds := canonical_kinds\<rparr>) k tf canonical_kinds ms D'"
  shows "answer_ok D t opts k tf [] ms D'"
proof -
  have "\<forall>m \<in> set ms. passes tf [] m"
    using assms by (auto simp: answer_ok_def passes_def canonical_kinds_def)
  with assms show ?thesis by (simp add: answer_ok_def anchored_all accessed_def)
qed

lemma answer_Nil: "answer_ok D t opts k tf kf [] D' \<Longrightarrow> D' = D"
  by (simp add: answer_ok_def accessed_def)

section \<open>The interface to the stores\<close>

text \<open>What a search asks of the vector store, the fact repository and, where there is one, the graph
  database: that looking things up does not change the database.\<close>

locale retrieval =
  fixes sv :: service and sq :: searcher
  assumes vector_reads: "ms_vector sv = Some vs \<Longrightarrow> reads (vs_search vs t e k)"
    and facts_read: "ms_entity sv = Some fs \<Longrightarrow> reads (fs_list fs t en r n)"
    and paths_read: "sq_paths sq = Some ps \<Longrightarrow> reads (ps t pq)"
    and neighbours_read: "sq_neighbourhood sq = Some nb \<Longrightarrow> reads (nb t es n)"
begin

lemma reads_relation_facts: "ms_entity sv = Some fs \<Longrightarrow> reads (relation_facts sv fs t en n r)"
  unfolding relation_facts_def by (intro act_atomic facts_read)

lemma reads_get_by_ids: "reads (repo_get_by_ids t ids)"
  unfolding repo_get_by_ids_def Let_def by (intro act_atomic)

lemma reads_map_act: "(\<And>x. x \<in> set xs \<Longrightarrow> reads (f x)) \<Longrightarrow> reads (map_act f xs)"
  by (induction xs) (auto intro!: act_atomic)

lemma reads_lexical: "reads (collect_lexical_candidates sv t qs k opts tf kf)"
  unfolding collect_lexical_candidates_def repo_search_with_filters_def Let_def
  by (intro act_atomic reads_map_act)

lemma reads_hints: "reads (collect_entity_hint_candidates sv t q e k tf kf)"
  unfolding collect_entity_hint_candidates_def Let_def
  by (cases "ms_entity sv") (auto intro!: act_atomic reads_map_act reads_relation_facts reads_get_by_ids)

lemma reads_paths: "reads (path_scores sv sq t es rs)"
  unfolding path_scores_def Let_def
  by (cases "sq_paths sq") (auto intro!: act_atomic paths_read)

lemma reads_neighbours: "reads (neighbour_facts sq t es n)"
  unfolding neighbour_facts_def by (cases "sq_neighbourhood sq") (auto intro!: act_atomic neighbours_read)

lemma reads_bridge: "reads (collect_graph_entity_bridge_candidates sv sq t q pl lx k tf kf force)"
  unfolding collect_graph_entity_bridge_candidates_def Let_def
  by (cases "ms_entity sv")
    (auto intro!: act_atomic reads_map_act reads_relation_facts reads_get_by_ids reads_paths reads_neighbours
      split: prod.splits)

lemma reads_gather_more: "(\<And>qs. reads (collect qs)) \<Longrightarrow> reads (gather_more collect qs g)"
  unfolding gather_more_def by (intro act_atomic)

lemma reads_decomposed: "reads (decomposed_queries sv sq q)"
  by (simp add: decomposed_queries_def reads_def try_act_def remote_def return_act_def)

lemma reads_gather_hops: "(\<And>qs. reads (collect qs)) \<Longrightarrow> reads (gather_hops sv sq collect q g)"
  unfolding gather_hops_def by (intro act_atomic reads_gather_more reads_decomposed)

lemma reads_gather_hints: "reads (gather_hints sv t q p k tf kf)"
  unfolding gather_hints_def by (cases "classify_entity_hint_query q p") (simp_all add: reads_hints act_atomic)

lemma reads_gather_lexical: "reads (gather_lexical sv sq t q k opts tf kf rk p pl)"
  unfolding gather_lexical_def Let_def
  by (intro act_atomic reads_gather_hints reads_gather_more reads_gather_hops reads_lexical reads_bridge)

lemma reads_dense: "ms_vector sv = Some vs \<Longrightarrow> reads (collect_dense_candidates vs t es k tf kf)"
  unfolding collect_dense_candidates_def filter_dense_candidates_by_metadata_def Let_def
  by (intro act_atomic reads_map_act vector_reads reads_get_by_ids)

lemma search_gives_dense: "search_gives D (gather_dense sv t qs k tf kf rk) (\<lambda>_ D'. D' = D)"
proof (cases "rk \<noteq> RetrieveEntity \<and> ms_vector sv \<noteq> None \<and> ms_embedder sv \<noteq> None")
  case True
  then obtain vs em where s: "ms_vector sv = Some vs" "ms_embedder sv = Some em" by blast
  have keep: "keeps (\<lambda>x. x = D) (embed_contents em xs)" for xs by (rule keeps_embed)
  have "search_gives D (\<lambda>c w. embed_search_queries (embed_contents em) c qs w) (\<lambda>_ D'. D' = D)"
    unfolding search_gives_def embed_search_queries_def Let_def
    using keeps_run [OF keep] by (auto split: sum.splits prod.splits if_splits)
  moreover have "search_gives D (on_db (collect_dense_candidates vs t es k tf kf)) (\<lambda>_ D'. D' = D)" for es
    using finds_reads [OF reads_dense [OF s(1)]] by (intro search_gives_on_db) (simp add: finds_def)
  ultimately show ?thesis
    using True by (auto simp: gather_dense_def s intro: search_gives_bind)
qed (auto simp: gather_dense_def search_gives_return split: option.splits)

lemma gives_rank_and_finish:
  assumes "store_ok D" "0 < k"
  shows "gives D (rank_and_finish sv sq t q k ck opts tf kf p pl lx ds) (answer_ok D t opts k tf kf)"
proof -
  have none: "answer_ok D t opts k tf kf [] D"
    using assms(2) by (simp add: answer_ok_def found_in_def anchored_def accessed_def)
  have rank: "gives D (finish_search t k opts tf kf p (early_pass sq q pl k p (pairwise_pass sv sq q k p scored)))
      (answer_ok D t opts k tf kf)"
    if "found_in D t ms" "mset (map sm_memory scored) = mset ms" for ms scored
  proof (rule gives_finish_search [OF assms])
    have "mset (map sm_memory (early_pass sq q pl k p (pairwise_pass sv sq q k p scored))) = mset ms"
      using that(2) by (simp only: early_pass_memories pairwise_pass_memories)
    then show "found_in D t (map sm_memory (early_pass sq q pl k p (pairwise_pass sv sq q k p scored)))"
      by (rule found_in_perm [OF that(1)])
  qed
  show ?thesis
    unfolding rank_and_finish_def Let_def
    by (auto simp: none split: prod.splits intro!: gives_if gives_return
        finds_bind_gives [OF finds_get_by_ids [OF assms(1)]] finds_bind_gives [OF finds_rank_and_sort] rank)
qed

lemma gives_by_entity_facts:
  assumes "store_ok D" "0 < k"
  shows "gives D (search_by_entity_facts sv sq t q k opts tf kf pl)
    (\<lambda>r D'. case r of None \<Rightarrow> D' = D | Some ms \<Rightarrow> answer_ok D t opts k tf kf ms D')"
    (is "gives D _ ?Q")
proof -
  have none: "?Q None D" by simp
  have rank: "gives D (finish_entity_search t k opts kf (map sm_memory
      (filter (\<lambda>x. \<not> sm_score x < sx_min_score opts) (pairwise_pass sv sq q k p scored)))) ?Q"
    if f: "found_in D t ms" and perm: "mset (map sm_memory scored) = mset (filter (passes tf kf) ms)" for ms scored p
  proof -
    let ?xs = "pairwise_pass sv sq q k p scored"
    have m: "mset (map sm_memory ?xs) = mset (filter (passes tf kf) ms)"
      using perm by (simp only: pairwise_pass_memories)
    have x: "found_in D t (map sm_memory ?xs)" by (rule found_in_perm [OF found_in_filter [OF f] m])
    have "set (map sm_memory ?xs) = set (filter (passes tf kf) ms)" using mset_eq_setD [OF m] .
    then have ok: "\<forall>m \<in> set (map sm_memory (filter (\<lambda>x. \<not> sm_score x < sx_min_score opts) ?xs)). passes tf kf m"
      by auto
    have "found_in D t (map sm_memory (filter (\<lambda>x. \<not> sm_score x < sx_min_score opts) ?xs))"
      using x by (auto simp: found_in_def distinct_map_filter distinct_map inj_on_def)
    then show ?thesis using assms ok by (intro gives_finish_entity)
  qed
  show ?thesis
  proof (cases "ms_entity sv")
    case (Some fs)
    show ?thesis
      unfolding search_by_entity_facts_def Let_def Some option.case
      by (intro gives_if gives_return none finds_bind_gives [OF finds_reads [OF reads_map_act]]
          finds_bind_gives [OF finds_get_by_ids [OF assms(1)]] finds_bind_gives [OF finds_rank_and_sort] rank
          reads_relation_facts [OF Some])
  qed (simp add: search_by_entity_facts_def gives_return)
qed

lemma search_gives_core:
  assumes "store_ok D"
  shows "search_gives D (search_core sv sq t q k opts tf kf rk) (answer_ok D t opts (result_limit k) tf kf)"
proof -
  have k: "0 < result_limit k" by (simp add: result_limit_def)
  have lex: "search_gives D (on_db (gather_lexical sv sq t q ck opts tf kf rk p pl)) (\<lambda>_ D'. D' = D)" for ck p pl
    using finds_reads [OF reads_gather_lexical] by (intro search_gives_on_db) (simp add: finds_def)
  have rest: "search_gives D (bind_search (on_db (gather_lexical sv sq t q ck opts tf kf rk p pl)) (\<lambda>g.
      bind_search (gather_dense sv t (ga_queries g) ck tf kf rk) (\<lambda>dense.
      on_db (rank_and_finish sv sq t q (result_limit k) ck opts tf kf p pl (ga_lexical g) dense))))
      (answer_ok D t opts (result_limit k) tf kf)" for ck p pl
    by (rule search_gives_bind [OF lex], rule search_gives_bind [OF search_gives_dense])
      (simp_all add: search_gives_on_db gives_rank_and_finish assms k)
  have first: "search_gives D (on_db (if rk = RetrieveVector then return_act None
      else search_by_entity_facts sv sq t q (result_limit k) opts tf kf pl))
    (\<lambda>r D'. case r of None \<Rightarrow> D' = D | Some ms \<Rightarrow> answer_ok D t opts (result_limit k) tf kf ms D')" for pl
    using gives_by_entity_facts [OF assms k] by (intro search_gives_on_db gives_if gives_return) auto
  show ?thesis
    unfolding search_core_def Let_def result_limit_def [symmetric]
    by (rule search_gives_bind [OF first])
      (auto simp: rest search_gives_return split: option.splits)
qed

lemma search_gives_tenant: "search_gives D (on_db (ensure_tenant_exists t)) (\<lambda>_ D'. D' = D)"
proof -
  have "reads (ensure_tenant_exists t)" unfolding ensure_tenant_exists_def by (intro act_atomic)
  from finds_reads [OF this] show ?thesis by (intro search_gives_on_db) (simp add: finds_def)
qed

lemma search_gives_once:
  assumes "store_ok D" "search_checks t q opts = Inr (tf, kf, rk)"
  shows "search_gives D (search_once sv sq t q k opts) (answer_ok D t opts (result_limit k) tf kf)"
  unfolding search_once_def assms(2) sum.case prod.case
  by (rule search_gives_bind [OF search_gives_tenant]) (simp_all add: search_gives_core assms(1))

lemma search_gives_with_filters:
  assumes "store_ok D" "search_checks t q opts = Inr (tf, kf, rk)"
  shows "search_gives D (search_with_filters sv sq t q k opts) (answer_ok D t opts (result_limit k) tf kf)"
proof -
  let ?opts = "opts\<lparr>sx_kinds := canonical_kinds\<rparr>"
  have core: "search_gives D (search_core sv sq t q k opts tf kf rk) (answer_ok D t opts (result_limit k) tf kf)"
    by (rule search_gives_core [OF assms(1)])
  have canonical: "search_gives D (bind_search (search_once sv sq t q k ?opts) (\<lambda>ms.
      if ms \<noteq> [] then return_search ms else search_core sv sq t q k opts tf kf rk)) (answer_ok D t opts (result_limit k) tf kf)"
    if i: "should_apply_implicit_canonical_kinds sv sq opts"
  proof (rule search_gives_bind [OF search_gives_once [OF assms(1) search_checks_canonical [OF assms(2)]]])
    have kf: "kf = []"
      using i search_checks_Inr(2) [OF assms(2)] by (simp add: should_apply_implicit_canonical_kinds_def)
    fix ms D' assume a: "answer_ok D t ?opts (result_limit k) tf canonical_kinds ms D'"
    show "search_gives D' (if ms \<noteq> [] then return_search ms else search_core sv sq t q k opts tf kf rk)
        (answer_ok D t opts (result_limit k) tf kf)"
      using core answer_of_canonical [OF a] answer_Nil [of D t ?opts "result_limit k" tf canonical_kinds D'] a
      by (cases "ms = []") (simp_all add: kf search_gives_return)
    show "\<exists>y. (if ms \<noteq> [] then return_search ms else search_core sv sq t q k opts tf kf rk) = return_search y"
      if "D' \<noteq> D"
      using that a answer_Nil [of D t ?opts "result_limit k" tf canonical_kinds D'] by (cases "ms = []") auto
  qed
  show ?thesis
    unfolding search_with_filters_def assms(2) sum.case prod.case
    by (rule search_gives_bind [OF search_gives_tenant]) (simp_all add: core canonical)
qed

lemma search_with_filters_outcome:
  assumes "store_ok (tabs w)" "search_with_filters sv sq t q k opts c w = ((r, c'), w')"
  shows "case r of Inl _ \<Rightarrow> tabs w' = tabs w
    | Inr ms \<Rightarrow> answer_ok (tabs w) t opts (result_limit k) (uniq (sx_tiers opts)) (uniq (sx_kinds opts)) ms (tabs w')"
proof (cases "search_checks t q opts")
  case (Inl e)
  then have "r = Inl e" "w' = w" using assms(2) by (simp_all add: search_with_filters_def fail_search_def)
  then show ?thesis by simp
next
  case (Inr x)
  then obtain tf kf rk where x: "search_checks t q opts = Inr (tf, kf, rk)" by (cases x) auto
  show ?thesis
    using search_givesD [OF search_gives_with_filters [OF assms(1) x] assms(2) refl]
    unfolding search_checks_Inr(1,2) [OF x] .
qed

end

interpretation lite: retrieval "s\<lparr>ms_vector := Some sqlite_vector_store, ms_entity := Some sqlite_fact_store\<rparr>"
  "q\<lparr>sq_paths := None, sq_neighbourhood := None\<rparr>" for s q
proof (unfold_locales)
  show "reads (vs_search vs t e k)"
    if "ms_vector (s\<lparr>ms_vector := Some sqlite_vector_store, ms_entity := Some sqlite_fact_store\<rparr>) = Some vs" for vs t e k
    using that by (auto simp: sqlite_vector_store_def sv_search_def intro!: act_atomic)
  show "reads (fs_list fs t en r n)"
    if "ms_entity (s\<lparr>ms_vector := Some sqlite_vector_store, ms_entity := Some sqlite_fact_store\<rparr>) = Some fs" for fs t en r n
    using that by (auto simp: sqlite_fact_store_def fact_repo_list_reads)
qed simp_all

section \<open>Promises\<close>

definition obeys :: "search_options \<Rightarrow> memory \<Rightarrow> bool" where
  "obeys opts m \<longleftrightarrow> (sx_kinds opts = [] \<or> m_kind m \<in> set (sx_kinds opts)) \<and>
     (sx_tiers opts = [] \<or> m_tier m \<in> set (sx_tiers opts))"

lemma obeys_passes: "passes (uniq (sx_tiers opts)) (uniq (sx_kinds opts)) = obeys opts"
  by (auto simp: fun_eq_iff passes_def obeys_def)

text \<open>C24 Whatever the query, the options and the answers of embedder and language model, a search of a
  tenant returns different memories of that tenant only, as the store holds them before the search, and
  at most as many as asked for (10 when the number is not positive). Each obeys the tier and kind
  filters; the one exception are the memories that ground an answer when no kinds are asked for, which
  come from the same turn as a result that obeys them.\<close>

theorem search_results_safe:
  assumes "retrieval sv sq" "store_ok (tabs w)"
    and "search_with_filters sv sq t q k opts c w = ((Inr ms, c'), w')"
  shows "distinct (map m_id ms) \<and> int (length ms) \<le> (if k \<le> 0 then 10 else k) \<and>
    (\<forall>m \<in> set ms. m \<in> set (db_memories (tabs w)) \<and> m_tenant m = t \<and>
       (obeys opts m \<or> sx_kinds opts = [] \<and> (\<exists>m' \<in> set ms. obeys opts m' \<and> same_turn m m')))"
proof -
  have a: "answer_ok (tabs w) t opts (result_limit k) (uniq (sx_tiers opts)) (uniq (sx_kinds opts)) ms (tabs w')"
    using retrieval.search_with_filters_outcome [OF assms] by simp
  then have "anchored (obeys opts) ms" "sx_kinds opts \<noteq> [] \<longrightarrow> (\<forall>m \<in> set ms. obeys opts m)"
    by (simp_all add: answer_ok_def obeys_passes)
  with a anchoredD [of "obeys opts" ms] show ?thesis
    by (auto simp: answer_ok_def found_in_def result_limit_def)
qed


definition valid_request :: "string \<Rightarrow> string \<Rightarrow> search_options \<Rightarrow> bool" where
  "valid_request t q opts \<longleftrightarrow> trim_space t \<noteq> [] \<and> trim_space q \<noteq> [] \<and>
     0 \<le> sx_min_score opts \<and> sx_min_score opts \<le> 1 \<and>
     set (sx_tiers opts) \<subseteq> {TierWorking, TierEpisodic, TierSemantic} \<and>
     set (sx_kinds opts) \<subseteq> {KindRawTurn, KindObservation, KindSummary, KindEvent} \<and>
     to_lower (trim_space (sx_retrieval opts)) \<in> {[], ''auto'', ''vector'', ''entity''}"

lemma checks_valid:
  "valid_request t q opts \<Longrightarrow> \<exists>rk. search_checks t q opts = Inr (uniq (sx_tiers opts), uniq (sx_kinds opts), rk)"
  "\<not> valid_request t q opts \<Longrightarrow> search_checks t q opts = Inl ErrInvalidInput"
  by (auto simp: valid_request_def search_checks_def build_tier_filter_def build_kind_filter_def
      normalize_search_retrieval_kind_def Let_def)

text \<open>C26 A search that cannot be answered is refused before anything is looked up: a request with a
  blank tenant or query, a minimum score outside the unit interval, a tier or kind that does not exist
  or an unknown way of retrieval is invalid input and touches nothing, not even the cache; and a valid
  request for a tenant that does not exist is not found after the one lookup of the tenant (unless the
  database fails just there).\<close>

theorem search_rejections:
  "(\<not> valid_request t q opts \<longrightarrow> search_with_filters sv sq t q k opts c w = ((Inl ErrInvalidInput, c), w)) \<and>
   (valid_request t q opts \<and> t \<notin> t_id ` set (db_tenants (tabs w)) \<longrightarrow>
      search_with_filters sv sq t q k opts c w =
        ((Inl (if faulty w (steps w) then ErrDriver else ErrNotFound), c), tick w))"
proof (intro conjI impI)
  assume "\<not> valid_request t q opts"
  from checks_valid(2) [OF this]
  show "search_with_filters sv sq t q k opts c w = ((Inl ErrInvalidInput, c), w)"
    by (simp add: search_with_filters_def fail_search_def)
next
  assume v: "valid_request t q opts \<and> t \<notin> t_id ` set (db_tenants (tabs w))"
  from checks_valid(1) [of t q opts] v obtain rk
    where "search_checks t q opts = Inr (uniq (sx_tiers opts), uniq (sx_kinds opts), rk)" by blast
  moreover have "ensure_tenant_exists t w = (Inl (if faulty w (steps w) then ErrDriver else ErrNotFound), tick w)"
    using v by (auto simp: ensure_tenant_exists_def tenant_repo_exists_def valid_request_def bind_act_def query_def
        exec_def fail_act_def tick_def)
  ultimately show "search_with_filters sv sq t q k opts c w =
      ((Inl (if faulty w (steps w) then ErrDriver else ErrNotFound), c), tick w)"
    by (simp add: search_with_filters_def bind_search_def on_db_def)
qed

end
