(* ===== verification/SearchSample.thy ===== *)
theory SearchSample
  imports SearchLaws
begin

text \<open>
  A search that finds something, run symbolically: a service without vectors, entity facts or language
  model, asked for the one memory of the sample store. \<open>surely m x\<close>: in a world without faults that
  holds the sample store, \<open>m\<close> returns \<open>x\<close> and leaves the world so.
\<close>

definition calm :: "db_world \<Rightarrow> bool" where
  "calm w \<longleftrightarrow> tabs w = sample_store \<and> (\<forall>n. \<not> faulty w n)"

definition surely :: "'a db_act \<Rightarrow> 'a \<Rightarrow> bool" where
  "surely m x \<longleftrightarrow> (\<forall>w. calm w \<longrightarrow> (\<exists>w'. calm w' \<and> m w = (Inr x, w')))"

lemma surely_return: "surely (return_act x) x"
  by (simp add: surely_def return_act_def)

lemma surely_bind: "surely m x \<Longrightarrow> surely (f x) y \<Longrightarrow> surely (bind_act m f) y"
  unfolding surely_def by (fastforce simp: bind_act_def)

lemma surely_query: "f sample_store = x \<Longrightarrow> surely (query f) x"
  by (auto simp: surely_def calm_def query_def exec_def)

lemma surely_map_act: "(\<And>x. surely (f x) (g x)) \<Longrightarrow> surely (map_act f xs) (map g xs)"
  by (induction xs) (auto intro!: surely_return surely_bind)

lemma surelyD: "surely m x \<Longrightarrow> calm w \<Longrightarrow> \<exists>w'. calm w' \<and> m w = (Inr x, w')"
  by (simp add: surely_def)

definition lookup_service :: service where
  "lookup_service = \<lparr>ms_engine = \<lparr>fe_match = (\<lambda>_ _. True), fe_bm25 = (\<lambda>_ _ _. 0)\<rparr>, ms_vector = None,
     ms_embedder = None, ms_scorer = None, ms_parser = default_parser_options,
     ms_structured = default_structured_options, ms_multi_hop = default_multi_hop_options, ms_entity = None,
     ms_info_parser = None, ms_texts = sample_texts, ms_error_text = (\<lambda>_. [])\<rparr>"

definition lookup_searcher :: searcher where
  "lookup_searcher = \<lparr>sq_retrieval = default_retrieval_options, sq_ranking = default_ranking_options,
     sq_rerank = default_rerank_options, sq_prefer_canonical = False, sq_decomposer = None, sq_paths = None,
     sq_neighbourhood = None, sq_ties = (\<lambda>_ _. 0)\<rparr>"

lemma lookup_retrieval: "retrieval lookup_service lookup_searcher"
  by unfold_locales (simp_all add: lookup_service_def lookup_searcher_def)

text \<open>Every text finds the memory.\<close>

lemma surely_found:
  assumes "0 < k"
  shows "surely (repo_search_with_filters (ms_engine lookup_service) ''t1'' q k \<lparr>sf_tiers = [], sf_kinds = []\<rparr>) [sample_memory]"
proof -
  have t: "trim_space ''t1'' \<noteq> []" by (simp add: trim_eval)
  have 1: "recent_rows ''t1'' \<lparr>sf_tiers = [], sf_kinds = []\<rparr> sample_store = [sample_memory]"
    by (simp add: recent_rows_def sample_store_def empty_database_def sample_memory_def memory_filter_def
        normalize_kinds_for_filter_def normalize_tiers_for_filter_def order_desc_def)
  have 2: "fts_search_rows (ms_engine lookup_service) ''t1'' x \<lparr>sf_tiers = [], sf_kinds = []\<rparr> sample_store = [sample_memory]" for x
    by (simp add: fts_search_rows_def fts_join_def lookup_service_def sample_store_def empty_database_def fts_of_def
        sample_memory_def memory_filter_def normalize_kinds_for_filter_def normalize_tiers_for_filter_def order_desc_def)
  have 3: "limit_rows k [sample_memory] = [sample_memory]" using assms by (simp add: limit_rows_def)
  show ?thesis
    using t assms by (simp add: repo_search_with_filters_def Let_def) (rule surely_query, simp add: 1 2 3)
qed

definition only_sample :: "lexical_candidate list \<Rightarrow> bool" where
  "only_sample cs \<longleftrightarrow> (\<forall>c \<in> set cs. lc_memory c = sample_memory)"

lemma indexed_sample: "only_sample (indexed_scores k q [] [] [sample_memory]) \<and> indexed_scores k q [] [] [sample_memory] \<noteq> []"
  by (simp add: indexed_scores_def passes_def only_sample_def)

lemma surely_collect:
  assumes "0 < k"
  shows "\<exists>cs. surely (collect_lexical_candidates lookup_service ''t1'' qs k default_search_options [] []) cs \<and>
    only_sample cs \<and> (qs \<noteq> [] \<longrightarrow> cs \<noteq> [])"
proof (intro exI conjI)
  let ?css = "map (\<lambda>q. indexed_scores k q [] [] [sample_memory]) qs"
  have "surely (map_act (\<lambda>q. bind_act (repo_search_with_filters (ms_engine lookup_service) ''t1'' q k
      \<lparr>sf_tiers = [], sf_kinds = []\<rparr>) (\<lambda>ms. return_act (indexed_scores k q [] [] ms))) qs) ?css"
    by (intro surely_map_act surely_bind [OF surely_found [OF assms]] surely_return)
  then show "surely (collect_lexical_candidates lookup_service ''t1'' qs k default_search_options [] []) (concat ?css)"
    unfolding collect_lexical_candidates_def default_search_options_def search_options.simps
    by (rule surely_bind) (rule surely_return)
  show "only_sample (concat ?css)" using indexed_sample by (auto simp: only_sample_def)
  show "qs \<noteq> [] \<longrightarrow> concat ?css \<noteq> []" using indexed_sample by (cases qs) auto
qed

lemma surely_more:
  assumes "0 < k" "only_sample (ga_lexical g)" "ga_lexical g \<noteq> []"
  shows "\<exists>g'. surely (gather_more (\<lambda>qs. collect_lexical_candidates lookup_service ''t1'' qs k default_search_options [] []) qs g) g' \<and>
    only_sample (ga_lexical g') \<and> ga_lexical g' \<noteq> []"
proof (cases "qs = []")
  case False
  obtain cs where cs: "surely (collect_lexical_candidates lookup_service ''t1'' qs k default_search_options [] []) cs"
    "only_sample cs" using surely_collect [OF assms(1), of qs] by blast
  show ?thesis
    unfolding gather_more_def if_not_P [OF False]
    by (intro exI conjI, rule surely_bind [OF cs(1)], rule surely_return)
      (use assms cs in \<open>auto simp: only_sample_def\<close>)
qed (use assms in \<open>auto simp: gather_more_def intro: surely_return\<close>)

lemma surely_gather:
  assumes "0 < k" "\<not> qp_multi_hop p" "build_search_queries q p \<noteq> []"
  shows "\<exists>g. surely (gather_lexical lookup_service lookup_searcher ''t1'' q k default_search_options [] [] rk p pl) g \<and>
    only_sample (ga_lexical g) \<and> ga_lexical g \<noteq> []"
proof -
  obtain initial where i: "surely (collect_lexical_candidates lookup_service ''t1'' (build_search_queries q p) k default_search_options [] []) initial"
    "only_sample initial" "initial \<noteq> []" using surely_collect [OF assms(1)] assms(3) by blast
  have e: "ms_entity lookup_service = None" by (simp add: lookup_service_def)
  let ?qs = "build_adaptive_search_queries q p pl initial
    (normalize_search_tuning (ro_search_tuning (sq_retrieval lookup_searcher)))"
  obtain g where g: "surely (gather_more (\<lambda>qs. collect_lexical_candidates lookup_service ''t1'' qs k default_search_options [] [])
      ?qs \<lparr>ga_lexical = [] @ initial, ga_queries = build_search_queries q p\<rparr>) g" "only_sample (ga_lexical g)" "ga_lexical g \<noteq> []"
    using surely_more [OF assms(1), of "\<lparr>ga_lexical = [] @ initial, ga_queries = build_search_queries q p\<rparr>" ?qs] i by auto
  have "surely (gather_lexical lookup_service lookup_searcher ''t1'' q k default_search_options [] [] rk p pl) g"
    unfolding gather_lexical_def Let_def
    by (rule surely_bind [where x = "[]"], simp add: e surely_return)
      (rule surely_bind [OF i(1)], rule surely_bind [OF g(1)], simp add: assms(2) e surely_bind surely_return)
  with g show ?thesis by blast
qed

lemma uniq_constant: "xs \<noteq> [] \<Longrightarrow> \<forall>x \<in> set xs. x = a \<Longrightarrow> uniq xs = [a]"
proof (induction xs)
  case (Cons x xs)
  have "set (uniq_from [a] xs) = {}" using Cons.prems by auto
  then have "uniq_from [a] xs = []" by (simp only: set_empty)
  with Cons.prems show ?case by simp
qed simp

lemma fused_sample:
  assumes "only_sample cs" "cs \<noteq> []" "0 < k"
  shows "fst (fuse_candidates_by_rrf [] cs k) = [''m1'']"
proof -
  have m: "m_id sample_memory = ''m1''" "trim_space ''m1'' = ''m1''" by (simp_all add: sample_memory_def trim_eval)
  have "uniq_trimmed (map fst (dense_pairs [] @ lexical_pairs cs)) = [''m1'']"
    unfolding uniq_trimmed_def using assms m
    by (intro uniq_constant) (auto simp: dense_pairs_def lexical_pairs_def only_sample_def filter_empty_conv)
  then show ?thesis using assms(3) by (simp add: fuse_ids)
qed

lemma sample_ranked:
  "calm w \<Longrightarrow> \<exists>x w'. sm_memory x = sample_memory \<and> unit_score (sm_score x) \<and> calm w' \<and>
     rank_and_sort lookup_searcher [sample_memory] sg l q p pl w = (Inr [x], w')"
proof -
  assume w: "calm w"
  let ?xs = "rank_memories (clock w (steps w)) [sample_memory] sg l q p pl (sq_ranking lookup_searcher) (sq_retrieval lookup_searcher)"
  have m: "map sm_memory ?xs = [sample_memory]" by (rule rank_memories_memories)
  obtain x where x: "?xs = [x]" "sm_memory x = sample_memory" using m unfolding map_eq_Cons_conv by blast
  have "x \<in> set ?xs" unfolding x(1) by simp
  then have "unit_score (sm_score x)" by (rule rank_memories_unit)
  moreover have "rank_and_sort lookup_searcher [sample_memory] sg l q p pl w = (Inr [x], tick w)" "calm (tick w)"
    using w x(1) by (simp_all add: rank_and_sort_def bind_act_def now_act_def step_count_def return_act_def
        sort_by_score_def calm_def)
  ultimately show ?thesis using x(2) by blast
qed

lemma window_positive: "0 < candidate_window k p pl hf (normalize_search_tuning t)"
proof -
  have t: "tuning_ok (normalize_search_tuning t)" by (rule normalize_search_tuning_ok)
  then have "0 < st_window_min (normalize_search_tuning t)" by (simp add: tuning_ok_def)
  with window_bounds [OF t, of k p pl hf] show ?thesis by linarith
qed

lemma sample_finished:
  assumes "sm_memory x = sample_memory" "unit_score (sm_score x)" "0 < k"
    and "\<not> should_expand_grounded_context p"
  shows "\<exists>w'. finish_search ''t1'' k default_search_options [] [] p [x] w = (Inr [sample_memory], w')"
proof -
  have good: "filter (\<lambda>x. passes [] [] (sm_memory x) \<and> \<not> sm_score x < sx_min_score default_search_options) [x] = [x]"
    using assms(2) by (simp add: passes_def default_search_options_def unit_score_def)
  have p: "prefer_canonical_units [x] = [x]" by (simp add: prefer_canonical_units_def)
  have t: "\<exists>w1. touch_results ''t1'' default_search_options [sample_memory] w = (Inr (), w1)" for w
    by (simp add: touch_results_def default_search_options_def ignore_act_def try_act_def return_act_def split: prod.split)
  obtain w1 where w1: "touch_results ''t1'' default_search_options [sample_memory] w = (Inr (), w1)" using t by blast
  obtain w2 where w2: "ignore_act (tenant_repo_memory_count ''t1'') w1 = (Inr (), w2)"
    by (cases "tenant_repo_memory_count ''t1'' w1") (simp add: ignore_act_def try_act_def return_act_def)
  have "finish_search ''t1'' k default_search_options [] [] p [x] w = (Inr [sample_memory], w2)"
    unfolding finish_search_def good Let_def
    using assms(1,3,4) w1 w2 by (simp add: p bind_act_def return_act_def)
  then show ?thesis by blast
qed

lemma sample_search_for:
  assumes p: "\<not> qp_multi_hop (classify_query q)" "\<not> qp_temporal (classify_query q)" and q: "collapse q \<noteq> []"
    and k: "search_checks ''t1'' q default_search_options = Inr ([], [], RetrieveAuto)"
  shows "\<exists>c' w'. search_with_filters lookup_service lookup_searcher ''t1'' q 3 default_search_options None
     (calm_world sample_store) = ((Inr [sample_memory], c'), w')"
proof -
  let ?q = q and ?w = "calm_world sample_store" and ?p = "classify_query q"
  let ?pl = "build_query_plan ?q ?p"
  let ?ck = "candidate_window 3 ?p ?pl False (normalize_search_tuning (ro_search_tuning (sq_retrieval lookup_searcher)))"
  have q: "build_search_queries ?q ?p \<noteq> []" using search_queries_ok q by blast
  have ck: "0 < ?ck"
    by (rule window_positive)
  have w: "calm ?w" by (simp add: calm_def calm_world_def)
  have te: "surely (ensure_tenant_exists ''t1'') ()"
    unfolding ensure_tenant_exists_def tenant_repo_exists_def
    by (rule surely_bind [where x = True]) (simp_all add: surely_return trim_eval surely_query sample_store_def)
  obtain w1 where w1: "calm w1" "ensure_tenant_exists ''t1'' ?w = (Inr (), w1)"
    using surelyD [OF te w] by (elim exE conjE) (rule that)
  obtain g where g: "surely (gather_lexical lookup_service lookup_searcher ''t1'' ?q ?ck default_search_options [] []
      RetrieveAuto ?p ?pl) g" "only_sample (ga_lexical g)" "ga_lexical g \<noteq> []"
    using surely_gather [OF ck p(1) q] by blast
  obtain w2 where w2: "calm w2" "gather_lexical lookup_service lookup_searcher ''t1'' ?q ?ck default_search_options [] []
      RetrieveAuto ?p ?pl w1 = (Inr g, w2)"
    using surelyD [OF g(1) w1(1)] by (elim exE conjE) (rule that)
  have o: "only_sample (order_lexical (ga_lexical g))" "order_lexical (ga_lexical g) \<noteq> []"
    using g(2,3) by (auto simp: only_sample_def order_lexical_def) (metis set_empty set_sort)
  obtain sg where f: "fuse_candidates_by_rrf (order_dense []) (order_lexical (ga_lexical g)) ?ck = ([''m1''], sg)"
    using fused_sample [OF o ck] by (cases "fuse_candidates_by_rrf [] (order_lexical (ga_lexical g)) ?ck") (auto simp: order_dense_def)
  have get: "surely (repo_get_by_ids ''t1'' [''m1'']) [sample_memory]"
    unfolding repo_get_by_ids_def Let_def
    by (simp add: uniq_trimmed_def trim_eval)
      (rule surely_bind [OF surely_query [where x = "[sample_memory]"]],
       simp_all add: sample_store_def sample_memory_def empty_database_def surely_return)
  obtain w3 where w3: "calm w3" "repo_get_by_ids ''t1'' [''m1''] w2 = (Inr [sample_memory], w3)"
    using surelyD [OF get w2(1)] by (elim exE conjE) (rule that)
  obtain x w4 where x: "sm_memory x = sample_memory" "unit_score (sm_score x)"
    "rank_and_sort lookup_searcher [sample_memory] sg ?ck ?q ?p ?pl w3 = (Inr [x], w4)"
    using sample_ranked [OF w3(1)] by blast
  have one: "early_pass lookup_searcher ?q ?pl 3 ?p (pairwise_pass lookup_service lookup_searcher ?q 3 ?p [x]) = [x]"
    by (simp add: early_pass_def pairwise_pass_def rerank_scored_candidates_def apply_early_rank_rerank_def)
  obtain w5 where w5: "finish_search ''t1'' 3 default_search_options [] [] ?p [x] w4 = (Inr [sample_memory], w5)"
    using sample_finished [OF x(1,2), of 3 ?p w4] p by (auto simp: should_expand_grounded_context_def)
  have finish: "rank_and_finish lookup_service lookup_searcher ''t1'' ?q 3 ?ck default_search_options [] [] ?p ?pl
      (ga_lexical g) [] w2 = (Inr [sample_memory], w5)"
    using g(3) w3(2) x(3) w5 by (simp add: rank_and_finish_def f bind_act_def one)
  have e: "ms_entity lookup_service = None" "ms_vector lookup_service = None" by (simp_all add: lookup_service_def)
  have "search_core lookup_service lookup_searcher ''t1'' ?q 3 default_search_options [] [] RetrieveAuto None w1
      = ((Inr [sample_memory], None), w5)"
    using w2(2) finish
    by (simp add: search_core_def Let_def default_search_options_def bind_search_def on_db_def search_by_entity_facts_def
        e return_act_def gather_dense_def return_search_def)
  then have "search_with_filters lookup_service lookup_searcher ''t1'' ?q 3 default_search_options None ?w
      = ((Inr [sample_memory], None), w5)"
    using w1(2)
    by (simp add: search_with_filters_def k bind_search_def on_db_def should_apply_implicit_canonical_kinds_def
        lookup_searcher_def)
  then show ?thesis by blast
qed

lemma sample_search:
  "\<exists>c' w'. search_with_filters lookup_service lookup_searcher ''t1'' ''likes tea'' 3 default_search_options None
     (calm_world sample_store) = ((Inr [sample_memory], c'), w')"
proof (rule sample_search_for)
  show "\<not> qp_multi_hop (classify_query ''likes tea'')" "\<not> qp_temporal (classify_query ''likes tea'')" by code_simp+
  show "collapse ''likes tea'' \<noteq> []" by code_simp
  show "search_checks ''t1'' ''likes tea'' default_search_options = Inr ([], [], RetrieveAuto)" by code_simp
qed

section \<open>Witnesses\<close>

theorem search_results_safe_witness:
  "\<exists>ms c' w'. search_with_filters lookup_service lookup_searcher ''t1'' ''likes tea'' 3 default_search_options None
     (calm_world sample_store) = ((Inr ms, c'), w') \<and> ms = [sample_memory] \<and> int (length ms) \<le> 3 \<and>
     (\<forall>m \<in> set ms. m \<in> set (db_memories sample_store) \<and> m_tenant m = ''t1'')"
proof -
  obtain c' w' where run: "search_with_filters lookup_service lookup_searcher ''t1'' ''likes tea'' 3
      default_search_options None (calm_world sample_store) = ((Inr [sample_memory], c'), w')"
    using sample_search by (elim exE) (rule that)
  have t: "tabs (calm_world sample_store) = sample_store" by (simp add: calm_world_def)
  show ?thesis
    using search_results_safe [OF lookup_retrieval sample_store_ok(2) run] unfolding t
    by (intro exI [of _ "[sample_memory]"] exI [of _ c'] exI [of _ w'] conjI run) simp_all
qed


theorem search_rejections_witness:
  "search_with_filters lookup_service lookup_searcher ''t1'' ''tea'' 3
     (default_search_options\<lparr>sx_tiers := [TierOther ''warm'']\<rparr>) None (calm_world sample_store)
     = ((Inl ErrInvalidInput, None), calm_world sample_store) \<and>
   search_with_filters lookup_service lookup_searcher ''t2'' ''tea'' 3 default_search_options None
     (calm_world sample_store) = ((Inl ErrNotFound, None), tick (calm_world sample_store))"
proof -
  have "\<not> valid_request ''t1'' ''tea'' (default_search_options\<lparr>sx_tiers := [TierOther ''warm'']\<rparr>)"
    by (simp add: valid_request_def)
  moreover have "valid_request ''t2'' ''tea'' default_search_options" by code_simp
  moreover have "''t2'' \<notin> t_id ` set (db_tenants (tabs (calm_world sample_store)))"
    by (simp add: calm_world_def sample_store_def)
  moreover have "\<not> faulty (calm_world sample_store) n" for n by (simp add: calm_world_def)
  ultimately show ?thesis using search_rejections by presburger
qed

end
