(* ===== verification/Auth.thy ===== *)
theory Auth
  imports World
begin

text \<open>
  Authentication (\<open>internal/auth\<close>): signing tokens for a tenant, checking a bearer token and the
  middleware that puts the authenticated tenant into the context of a request. The JWT library is an
  argument: decoding a token gives the family of its signing method and its claims, and verification
  checks the signature with a secret and the times of the claims.
\<close>

record tenant_claims =
  tc_tenant :: string
  tc_issuer :: string
  tc_issued_at :: gotime
  tc_expires_at :: gotime

text \<open>\<open>jw_decode\<close> says whether the method is \<open>*SigningMethodHMAC\<close>; \<open>jw_verify token secret now\<close>;
  \<open>jw_numeric_date\<close> is \<open>NewNumericDate\<close>; \<open>jw_sign secret claims\<close> signs with HS256.\<close>

record jwt_library =
  jw_decode :: "string \<Rightarrow> (bool \<times> tenant_claims) option"
  jw_verify :: "string \<Rightarrow> string \<Rightarrow> gotime \<Rightarrow> bool"
  jw_sign :: "string \<Rightarrow> tenant_claims \<Rightarrow> err + string"
  jw_numeric_date :: "gotime \<Rightarrow> gotime"

section \<open>Checking a token\<close>

record jwt_authenticator =
  ja_secret :: string
  ja_issuer :: string

definition new_jwt_authenticator :: "string \<Rightarrow> string \<Rightarrow> err + jwt_authenticator" where
  "new_jwt_authenticator secret issuer =
     (if trim_space secret = [] then Inl (ErrMsg ''jwt secret is required'')
      else Inr \<lparr>ja_secret = secret, ja_issuer = trim_space issuer\<rparr>)"

definition err_unauthorized :: err where
  "err_unauthorized = ErrMsg ''unauthorized''"

definition authenticate :: "jwt_library \<Rightarrow> jwt_authenticator \<Rightarrow> gotime \<Rightarrow> string \<Rightarrow> err + string" where
  "authenticate lib a now raw =
     (let tok = trim_space raw in
      if tok = [] then Inl err_unauthorized
      else case jw_decode lib tok of
        None \<Rightarrow> Inl err_unauthorized
      | Some (hmac, claims) \<Rightarrow>
          if \<not> hmac \<or> \<not> jw_verify lib tok (ja_secret a) now then Inl err_unauthorized
          else if trim_space (tc_tenant claims) = [] then Inl err_unauthorized
          else if ja_issuer a \<noteq> [] \<and> tc_issuer claims \<noteq> [] \<and> tc_issuer claims \<noteq> ja_issuer a
            then Inl err_unauthorized
          else Inr (tc_tenant claims))"

section \<open>The context of a request\<close>

record request_context =
  rc_tenant :: "string option"

definition tenant_id_from_gin :: "request_context \<Rightarrow> string option" where
  "tenant_id_from_gin gc = (case rc_tenant gc of None \<Rightarrow> None | Some t \<Rightarrow> if t \<noteq> [] then Some t else None)"

text \<open>The middleware: nothing when it aborts with 401, else the context for the handlers.\<close>

definition bearer_middleware ::
  "jwt_library \<Rightarrow> jwt_authenticator \<Rightarrow> gotime \<Rightarrow> string \<Rightarrow> request_context \<Rightarrow> request_context option" where
  "bearer_middleware lib a now header gc =
     (if \<not> has_prefix header ''Bearer '' then None
      else case authenticate lib a now (trim_space (drop 7 header)) of
        Inl _ \<Rightarrow> None
      | Inr t \<Rightarrow> Some (gc\<lparr>rc_tenant := Some t\<rparr>))"

section \<open>Signing tokens\<close>

definition generate_tenant_token ::
  "jwt_library \<Rightarrow> string \<Rightarrow> string \<Rightarrow> string \<Rightarrow> int \<Rightarrow> gotime \<Rightarrow> err + string" where
  "generate_tenant_token lib secret0 issuer0 tenant0 ttl0 now =
     (let secret = trim_space secret0; issuer = trim_space issuer0; t = trim_space tenant0;
          ttl = (if ttl0 \<le> 0 then 24 * 3600 * second else ttl0) in
      if secret = [] then Inl (ErrMsg ''secret is required'')
      else if t = [] then Inl (ErrMsg ''tenant_id is required'')
      else jw_sign lib secret \<lparr>tc_tenant = t, tc_issuer = issuer,
             tc_issued_at = jw_numeric_date lib now, tc_expires_at = jw_numeric_date lib (now + ttl)\<rparr>)"

section \<open>What authentication guarantees\<close>

text \<open>The documented behaviour of the library: a signed token is a word, decodes to its claims under an
  HMAC method, and verifies with the secret it was signed with, and no other, until it expires.\<close>

definition jwt_contract :: "jwt_library \<Rightarrow> bool" where
  "jwt_contract lib \<longleftrightarrow> (\<forall>s c tok. jw_sign lib s c = Inr tok \<longrightarrow>
     word tok \<and> jw_decode lib tok = Some (True, c) \<and>
     (\<forall>s' now. jw_verify lib tok s' now \<longleftrightarrow> s' = s \<and> now < tc_expires_at c))"

lemma authenticate_success:
  "authenticate lib a now raw = Inr t \<longleftrightarrow>
     (\<exists>claims. trim_space raw \<noteq> [] \<and> jw_decode lib (trim_space raw) = Some (True, claims) \<and>
        jw_verify lib (trim_space raw) (ja_secret a) now \<and> t = tc_tenant claims \<and> trim_space t \<noteq> [] \<and>
        (ja_issuer a = [] \<or> tc_issuer claims = [] \<or> tc_issuer claims = ja_issuer a))"
  by (auto simp: authenticate_def Let_def split: option.splits)

lemma middleware_success:
  "bearer_middleware lib a now h gc = Some gc' \<Longrightarrow>
     \<exists>t. gc' = gc\<lparr>rc_tenant := Some t\<rparr> \<and> tenant_id_from_gin gc' = Some t \<and> trim_space t \<noteq> []"
  by (auto simp: bearer_middleware_def tenant_id_from_gin_def authenticate_success split: if_splits sum.splits)

lemma trim_space_blanks:
  assumes "list_all is_space b1" "list_all is_space b2" "word w"
  shows "trim_space (b1 @ w @ b2) = w"
proof -
  from assms(3) obtain c cs where w: "w = c # cs" and c: "\<not> is_space c" by (cases w) (auto simp: word_def)
  have "trim_left (b1 @ w @ b2) = w @ b2"
    using assms(1) c by (induction b1) (auto simp: trim_left_def w)
  moreover have "trim_right (w @ b2) = trim_right w"
    using dropWhile_append2 [of "rev b2" is_space "rev w"] assms(2) by (simp add: trim_right_def list_all_iff)
  ultimately show ?thesis
    using trim_space_word [OF assms(3)] by (simp add: trim_space_def) (simp add: trim_left_def w c)
qed

text \<open>C20 A token that the service signs for a tenant authenticates exactly this tenant: sent in a
  \<open>Bearer\<close> header, with any blanks around it, it puts the trimmed tenant into the context of the request,
  as long as it has not expired, if the authenticator has the same issuer and exactly the trimmed secret;
  otherwise, and so whenever the configured secret has blanks around it, the request is aborted.\<close>

theorem token_roundtrip:
  assumes "jwt_contract lib" and "new_jwt_authenticator secret issuer = Inr a"
    and "generate_tenant_token lib secret0 issuer t ttl now = Inr tok"
    and "list_all is_space b1" and "list_all is_space b2"
  shows "bearer_middleware lib a now' (''Bearer '' @ b1 @ tok @ b2) gc =
    (if secret = trim_space secret0 \<and> now' < jw_numeric_date lib (now + (if ttl \<le> 0 then 24 * 3600 * second else ttl))
     then Some (gc\<lparr>rc_tenant := Some (trim_space t)\<rparr>) else None)"
proof -
  let ?exp = "jw_numeric_date lib (now + (if ttl \<le> 0 then 24 * 3600 * second else ttl))"
  let ?c = "\<lparr>tc_tenant = trim_space t, tc_issuer = trim_space issuer,
     tc_issued_at = jw_numeric_date lib now, tc_expires_at = ?exp\<rparr>"
  from assms(3) have sign: "jw_sign lib (trim_space secret0) ?c = Inr tok" and t: "trim_space t \<noteq> []"
    by (auto simp: generate_tenant_token_def Let_def split: if_splits)
  from assms(1) sign have w: "word tok" and d: "jw_decode lib tok = Some (True, ?c)"
    and v: "jw_verify lib tok s now' \<longleftrightarrow> s = trim_space secret0 \<and> now' < ?exp" for s
    unfolding jwt_contract_def by fastforce+
  from assms(2) have a: "ja_secret a = secret" "ja_issuer a = trim_space issuer"
    by (auto simp: new_jwt_authenticator_def split: if_splits)
  have ne: "tok \<noteq> []" using w by (auto simp: word_def)
  show ?thesis
    using t by (simp add: bearer_middleware_def has_prefix_def trim_space_blanks [OF assms(4,5) w]
        trim_space_word [OF w] authenticate_def Let_def ne d v a)
qed

lemmas blank_eval = trim_space_def trim_left_def trim_right_def is_space_def

definition sample_jwt :: jwt_library where
  "sample_jwt = \<lparr>jw_decode = (\<lambda>tok. if tok = ''tok'' then Some (True, \<lparr>tc_tenant = ''t1'', tc_issuer = [],
       tc_issued_at = 0, tc_expires_at = 24 * 3600 * second\<rparr>) else None),
     jw_verify = (\<lambda>tok s now. s = ''key'' \<and> now < 24 * 3600 * second),
     jw_sign = (\<lambda>s c. if s = ''key'' \<and> c = \<lparr>tc_tenant = ''t1'', tc_issuer = [], tc_issued_at = 0,
       tc_expires_at = 24 * 3600 * second\<rparr> then Inr ''tok'' else Inl ErrDriver),
     jw_numeric_date = (\<lambda>t. t - t mod second)\<rparr>"

lemma sample_jwt_contract: "jwt_contract sample_jwt"
  by (auto simp: jwt_contract_def sample_jwt_def word_def is_space_def split: if_splits)

lemma token_roundtrip_witness:
  "bearer_middleware sample_jwt \<lparr>ja_secret = ''key'', ja_issuer = []\<rparr> 5 (''Bearer tok '') \<lparr>rc_tenant = None\<rparr> =
     Some \<lparr>rc_tenant = Some ''t1''\<rparr>"
proof -
  have new: "new_jwt_authenticator ''key'' [] = Inr \<lparr>ja_secret = ''key'', ja_issuer = []\<rparr>"
    by (simp add: new_jwt_authenticator_def blank_eval)
  have gen: "generate_tenant_token sample_jwt ''key '' [] ''t1'' 0 0 = Inr ''tok''"
    by (simp add: generate_tenant_token_def sample_jwt_def blank_eval)
  show ?thesis
    using token_roundtrip [OF sample_jwt_contract new gen, of "[]" "'' ''" 5 "\<lparr>rc_tenant = None\<rparr>"]
    by (simp add: sample_jwt_def blank_eval)
qed

end
