(* ===== verification/GoNumbers.thy ===== *)
theory GoNumbers
  imports TurnText
begin

text \<open>
  The conversions between texts and numbers of Go's \<open>strconv\<close> that the outer layers use: \<open>Atoi\<close> on 64-bit
  integers, \<open>ParseBool\<close>, \<open>ParseFloat\<close> on decimal notation (a \<open>float64\<close> is a real; the notations for
  infinities, NaN and hexadecimal floats are not accepted), and \<open>Quote\<close>, which \<open>%q\<close> prints.
\<close>

definition digits_value :: "string \<Rightarrow> nat" where
  "digits_value ds = foldl (\<lambda>n c. 10 * n + digit_value c) 0 ds"

definition signed_text :: "string \<Rightarrow> bool \<times> string" where
  "signed_text s = (case s of
     c # r \<Rightarrow> if c = CHR ''-'' then (True, r) else if c = CHR ''+'' then (False, r) else (False, s)
   | [] \<Rightarrow> (False, []))"

definition atoi :: "string \<Rightarrow> int option" where
  "atoi s =
     (let (neg, ds) = signed_text s;
          n = (if neg then - int (digits_value ds) else int (digits_value ds)) in
      if ds \<noteq> [] \<and> list_all re_digit ds \<and> in_int64 n then Some n else None)"

definition parse_bool :: "string \<Rightarrow> bool option" where
  "parse_bool s =
     (if s \<in> {''1'', ''t'', ''T'', ''TRUE'', ''true'', ''True''} then Some True
      else if s \<in> {''0'', ''f'', ''F'', ''FALSE'', ''false'', ''False''} then Some False
      else None)"

text \<open>The mantissa: digits with at most one point, at least one digit.\<close>

definition mantissa_value :: "string \<Rightarrow> real option" where
  "mantissa_value s =
     (let whole = takeWhile re_digit s; rest = dropWhile re_digit s;
          frac = (case rest of [] \<Rightarrow> [] | _ # r \<Rightarrow> r) in
      if (rest = [] \<or> hd rest = CHR ''.'' \<and> list_all re_digit frac) \<and> whole @ frac \<noteq> []
      then Some (real (digits_value (whole @ frac)) / 10 ^ length frac) else None)"

definition exponent_value :: "string \<Rightarrow> int option" where
  "exponent_value s =
     (case signed_text s of (neg, ds) \<Rightarrow>
        if ds \<noteq> [] \<and> list_all re_digit ds
        then Some (if neg then - int (digits_value ds) else int (digits_value ds)) else None)"

definition scale_decimal :: "real \<Rightarrow> int \<Rightarrow> real" where
  "scale_decimal x e = (if 0 \<le> e then x * 10 ^ nat e else x / 10 ^ nat (- e))"

text \<open>What rounds to infinity is out of range.\<close>

definition parse_float :: "string \<Rightarrow> real option" where
  "parse_float s =
     (let (neg, t) = signed_text s;
          m = takeWhile (\<lambda>c. c \<noteq> CHR ''e'' \<and> c \<noteq> CHR ''E'') t; e = drop (length m) t in
      case (mantissa_value m, if e = [] then Some 0 else exponent_value (tl e)) of
        (Some x, Some k) \<Rightarrow>
          (let y = scale_decimal x k in
           if y \<ge> 2 ^ 1024 - 2 ^ 970 then None else Some (if neg then - y else y))
      | _ \<Rightarrow> None)"

definition quote_char :: "char \<Rightarrow> string" where
  "quote_char c =
     (let n = (of_char c :: nat) in
      if c = CHR 0x22 then [CHR 0x5C, CHR 0x22]
      else if c = CHR 0x5C then [CHR 0x5C, CHR 0x5C]
      else if 32 \<le> n \<and> n < 127 then [c]
      else if n = 7 then [CHR 0x5C, CHR ''a''] else if n = 8 then [CHR 0x5C, CHR ''b'']
      else if n = 12 then [CHR 0x5C, CHR ''f''] else if n = 10 then [CHR 0x5C, CHR ''n'']
      else if n = 13 then [CHR 0x5C, CHR ''r''] else if n = 9 then [CHR 0x5C, CHR ''t'']
      else if n = 11 then [CHR 0x5C, CHR ''v'']
      else [CHR 0x5C, CHR ''x'', hex_digit (n div 16), hex_digit (n mod 16)])"

definition quote_text :: "string \<Rightarrow> string" where
  "quote_text s = [CHR 0x22] @ concat (map quote_char s) @ [CHR 0x22]"

section \<open>Reading back what was printed\<close>

lemma digit_char: "n < 10 \<Longrightarrow> re_digit (char_of (48 + n)) \<and> digit_value (char_of (48 + n)) = n"
  by (simp add: re_digit_def digit_value_def of_char_of)

lemma digits_text_digits: "list_all re_digit (digits_text n) \<and> digits_text n \<noteq> []"
proof (induction n rule: digits_text.induct)
  case (1 n)
  then show ?case by (subst (1 2) digits_text.simps) (auto simp: digit_char)
qed

lemma digits_value_text [simp]: "digits_value (digits_text n) = n"
proof (induction n rule: digits_text.induct)
  case (1 n)
  then show ?case
    by (subst digits_text.simps) (auto simp: digits_value_def digit_char)
qed

lemma signed_digits: "list_all re_digit ds \<Longrightarrow> signed_text ds = (False, ds)"
  by (cases ds) (auto simp: signed_text_def re_digit_def)

lemma signed_minus: "signed_text (CHR ''-'' # ds) = (True, ds)"
  by (simp add: signed_text_def)

lemma atoi_itoa: "in_int64 n \<Longrightarrow> atoi (itoa n) = Some n"
  using digits_text_digits [of "nat n"] digits_text_digits [of "nat (- n)"]
  by (cases "n < 0") (simp_all add: atoi_def itoa_def signed_digits signed_minus Let_def)

lemma atoi_in_int64: "atoi s = Some n \<Longrightarrow> in_int64 n"
  by (auto simp: atoi_def Let_def split: prod.splits if_splits)

end
