(* ===== verification/Api.thy ===== *)
theory Api
  imports Auth GoNumbers SearchLaws
begin

text \<open>
  The HTTP interface: \<open>api/handlers\<close> with the payloads of \<open>api/dto\<close>, and the routes of \<open>api/router.go\<close>
  under \<open>/v1\<close> behind the middleware of \<open>internal/auth\<close>. Routing and JSON are libraries: a request is a
  constructor for its route with the decoded body (\<open>None\<close> when \<open>ShouldBindJSON\<close> fails) and the values of
  its path and query parameters; a response is a status and a typed body. The telemetry that the
  handlers report is left out.
\<close>

section \<open>Payloads\<close>

text \<open>The fields of \<open>AnswerMetadataDTO\<close> are those of \<open>MemoryAnswerMetadata\<close>.\<close>

type_synonym metadata_dto = answer_metadata

record store_memory_request =
  sr_tenant :: string
  sr_content :: string
  sr_tags :: "string list"
  sr_tier :: string
  sr_kind :: string
  sr_source :: string
  sr_created_by :: string
  sr_answer_metadata :: "metadata_dto option"

record search_memory_request =
  qr_tenant :: string
  qr_query :: string
  qr_top_k :: int
  qr_min_score :: real
  qr_tiers :: "string list"
  qr_kinds :: "string list"
  qr_retrieval_kind :: string
  qr_disable_touch :: bool
  qr_debug :: bool

record memory_response =
  mr_id :: string
  mr_tenant :: string
  mr_content :: string
  mr_tier :: string
  mr_tags :: "string list"
  mr_source :: string
  mr_created_by :: string
  mr_kind :: string
  mr_recall_count :: int
  mr_answer_metadata :: "metadata_dto option"
  mr_created_at :: gotime
  mr_updated_at :: gotime
  mr_last_accessed_at :: gotime
  mr_last_recalled_at :: gotime

record search_plan_debug =
  pd_intent :: string
  pd_confidence :: real
  pd_answer_type :: string
  pd_entities :: "string list"
  pd_relations :: "string list"
  pd_time_constraints :: "string list"
  pd_required_evidence :: string
  pd_fallback_path :: "string list"

record postprocess_job_response =
  jp_id :: string
  jp_ingest :: string
  jp_tenant :: string
  jp_memory :: string
  jp_type :: string
  jp_status :: string
  jp_attempts :: int
  jp_max_attempts :: int
  jp_available_at :: gotime
  jp_lease_owner :: string
  jp_leased_until :: gotime
  jp_last_error :: string
  jp_created_at :: gotime
  jp_updated_at :: gotime

datatype body =
    NoBody
  | ErrorBody string
  | StoredBody string gotime
  | StoredBatchBody "(string \<times> gotime) list"
  | IngestBody ingest_receipt
  | SearchBody "memory_response list" "(search_plan_debug \<times> ranking_debug list) option"
  | JobBody postprocess_job_response
  | JobsBody "postprocess_job_response list"
  | TenantBody string string gotime
  | StatsBody string int

datatype response = Response (status_code: nat) (response_body: body)

section \<open>Errors\<close>

definition err_invalid_json_body :: err where
  "err_invalid_json_body = ErrMsg ''invalid JSON body''"

definition err_empty_batch_items :: err where
  "err_empty_batch_items = ErrMsg ''items must not be empty''"

definition status_for_error :: "(err \<Rightarrow> string) \<Rightarrow> err \<Rightarrow> nat" where
  "status_for_error txt e =
     (case e of
        ErrInvalidInput \<Rightarrow> 400
      | ErrNotFound \<Rightarrow> 404
      | ErrTenantMismatch \<Rightarrow> 403
      | _ \<Rightarrow> if str_contains (to_lower (txt e)) ''constraint failed'' then 409 else 500)"

definition status_for_bind_error :: "(err \<Rightarrow> string) \<Rightarrow> err \<Rightarrow> nat" where
  "status_for_bind_error txt e =
     (if e = err_invalid_json_body \<or> e = err_empty_batch_items \<or> e = ErrInvalidInput then 400
      else status_for_error txt e)"

definition write_error :: "(err \<Rightarrow> string) \<Rightarrow> err \<Rightarrow> response" where
  "write_error txt e =
     (let status = status_for_error txt e in
      Response status (ErrorBody (if status = 409 then ''conflict''
        else if status = 500 then ''internal server error'' else txt e)))"

definition write_bind_error :: "(err \<Rightarrow> string) \<Rightarrow> err \<Rightarrow> response" where
  "write_bind_error txt e =
     (if status_for_bind_error txt e = 400
      then Response 400 (ErrorBody (if e = err_invalid_json_body then ''invalid JSON body''
        else if e = err_empty_batch_items then ''items must not be empty'' else txt e))
      else write_error txt e)"

section \<open>Access\<close>

definition enforce_tenant_access :: "request_context \<Rightarrow> string \<Rightarrow> err + unit" where
  "enforce_tenant_access gc requested =
     (let t = trim_space requested in
      if t = [] then Inl ErrInvalidInput
      else case tenant_id_from_gin gc of
        None \<Rightarrow> Inr ()
      | Some a \<Rightarrow> if a \<noteq> t then Inl ErrTenantMismatch else Inr ())"

section \<open>Parsing\<close>

definition parse_tier :: "string \<Rightarrow> err + memory_tier" where
  "parse_tier raw =
     (let t = to_lower (trim_space raw) in
      if t = [] \<or> t = tier_text TierAuto then Inr TierAuto
      else if t = tier_text TierWorking then Inr TierWorking
      else if t = tier_text TierEpisodic then Inr TierEpisodic
      else if t = tier_text TierSemantic then Inr TierSemantic
      else Inl ErrInvalidInput)"

definition parse_created_by :: "string \<Rightarrow> err + memory_created_by" where
  "parse_created_by raw =
     (let t = to_lower (trim_space raw) in
      if t = [] \<or> t = created_by_text ByAuto then Inr ByAuto
      else if t = created_by_text ByUser then Inr ByUser
      else if t = created_by_text BySystem then Inr BySystem
      else Inl ErrInvalidInput)"

definition parse_kind :: "string \<Rightarrow> err + memory_kind" where
  "parse_kind raw =
     (let t = to_lower (trim_space raw) in
      if t = [] \<or> t = kind_text KindRawTurn then Inr KindRawTurn
      else if t = kind_text KindObservation then Inr KindObservation
      else if t = kind_text KindSummary then Inr KindSummary
      else if t = kind_text KindEvent then Inr KindEvent
      else Inl ErrInvalidInput)"

text \<open>The loops that parse a list of names, with the values seen so far; they differ in the names.\<close>

fun parse_each :: "(string \<Rightarrow> 'a option) \<Rightarrow> 'a list \<Rightarrow> string list \<Rightarrow> err + 'a list" where
  "parse_each p out [] = Inr out"
| "parse_each p out (raw # rest) =
     (case p raw of
        None \<Rightarrow> Inl ErrInvalidInput
      | Some x \<Rightarrow> parse_each p (if x \<in> set out then out else out @ [x]) rest)"

definition parse_search_tiers :: "string list \<Rightarrow> err + memory_tier list" where
  "parse_search_tiers = parse_each (\<lambda>raw. case parse_tier raw of
     Inl _ \<Rightarrow> None | Inr t \<Rightarrow> if t = TierAuto then None else Some t) []"

definition parse_search_kinds :: "string list \<Rightarrow> err + memory_kind list" where
  "parse_search_kinds = parse_each (\<lambda>raw. case parse_kind raw of Inl _ \<Rightarrow> None | Inr k \<Rightarrow> Some k) []"

definition parse_search_retrieval_kind :: "string \<Rightarrow> err + string" where
  "parse_search_retrieval_kind raw =
     (let t = to_lower (trim_space raw) in
      if t = [] \<or> t = ''auto'' then Inr ''auto''
      else if t = ''vector'' then Inr ''vector''
      else if t = ''entity'' then Inr ''entity''
      else Inl ErrInvalidInput)"

definition nonblank_parts :: "string \<Rightarrow> string list" where
  "nonblank_parts v = filter (\<lambda>p. p \<noteq> []) (map trim_space (split_at CHR '','' v))"

definition flatten_csv_query :: "string list \<Rightarrow> string \<Rightarrow> string list" where
  "flatten_csv_query values csv =
     concat (map nonblank_parts values) @ (if trim_space csv = [] then [] else nonblank_parts csv)"

definition parse_postprocess_statuses :: "string list \<Rightarrow> string \<Rightarrow> err + job_status list" where
  "parse_postprocess_statuses values csv = parse_each (\<lambda>raw.
     let s = to_lower (trim_space raw) in
     if s = ''queued'' then Some Queued else if s = ''running'' then Some Running
     else if s = ''succeeded'' then Some Succeeded else if s = ''failed'' then Some Failed
     else if s = ''dead_letter'' then Some DeadLetter else None) [] (flatten_csv_query values csv)"

definition parse_postprocess_types :: "string list \<Rightarrow> string \<Rightarrow> err + job_type list" where
  "parse_postprocess_types values csv = parse_each (\<lambda>raw.
     let s = to_lower (trim_space raw) in
     if s = ''parser_extract'' then Some ParserExtract
     else if s = ''vector_upsert'' then Some VectorUpsert else None) [] (flatten_csv_query values csv)"

section \<open>Conversions\<close>

definition from_answer_metadata_dto :: "metadata_dto option \<Rightarrow> answer_metadata" where
  "from_answer_metadata_dto d = (case d of None \<Rightarrow> empty_metadata | Some x \<Rightarrow> x)"

definition to_answer_metadata_dto :: "answer_metadata \<Rightarrow> metadata_dto option" where
  "to_answer_metadata_dto m =
     (if trim_space (am_answer_kind m) = [] \<and> trim_space (am_source_sentence m) = [] \<and>
         trim_space (am_surface_span m) = [] \<and> trim_space (am_temporal_anchor m) = [] \<and>
         trim_space (am_relative_time_phrase m) = [] \<and> trim_space (am_resolved_time_start m) = [] \<and>
         trim_space (am_resolved_time_end m) = [] \<and> trim_space (am_time_granularity m) = [] \<and>
         am_support_memory_ids m = [] \<and> am_support_lines m = []
      then None else Some m)"

definition parse_store_input :: "store_memory_request \<Rightarrow> err + store_input" where
  "parse_store_input req =
     (case parse_tier (sr_tier req) of Inl e \<Rightarrow> Inl e | Inr tier \<Rightarrow>
      (case parse_created_by (sr_created_by req) of Inl e \<Rightarrow> Inl e | Inr by \<Rightarrow>
       (case parse_kind (sr_kind req) of Inl e \<Rightarrow> Inl e | Inr kind \<Rightarrow>
        Inr \<lparr>si_tenant = sr_tenant req, si_content = sr_content req, si_tier = tier, si_kind = kind,
             si_tags = sr_tags req, si_source = sr_source req, si_created_by = by,
             si_answer_metadata = from_answer_metadata_dto (sr_answer_metadata req)\<rparr>)))"

definition memory_response_of :: "memory \<Rightarrow> memory_response" where
  "memory_response_of m = \<lparr>mr_id = m_id m, mr_tenant = m_tenant m, mr_content = m_content m,
     mr_tier = tier_text (m_tier m), mr_tags = m_tags m, mr_source = m_source m,
     mr_created_by = created_by_text (m_created_by m), mr_kind = kind_text (m_kind m),
     mr_recall_count = m_recall_count m, mr_answer_metadata = to_answer_metadata_dto (m_answer_metadata m),
     mr_created_at = m_created_at m, mr_updated_at = m_updated_at m,
     mr_last_accessed_at = m_last_accessed_at m, mr_last_recalled_at = m_last_recalled_at m\<rparr>"

definition plan_debug_of :: "query_plan \<Rightarrow> search_plan_debug" where
  "plan_debug_of p = \<lparr>pd_intent = pl_intent p, pd_confidence = pl_confidence p, pd_answer_type = pl_answer_type p,
     pd_entities = pl_entities p, pd_relations = pl_relations p, pd_time_constraints = pl_time_constraints p,
     pd_required_evidence = pl_required_evidence p, pd_fallback_path = pl_fallback_path p\<rparr>"

definition job_type_name :: "job_type \<Rightarrow> string" where
  "job_type_name x = (case x of ParserExtract \<Rightarrow> ''parser_extract'' | VectorUpsert \<Rightarrow> ''vector_upsert''
     | OtherJobType s \<Rightarrow> s)"

definition job_status_name :: "job_status \<Rightarrow> string" where
  "job_status_name x = (case x of Queued \<Rightarrow> ''queued'' | Running \<Rightarrow> ''running'' | Succeeded \<Rightarrow> ''succeeded''
     | Failed \<Rightarrow> ''failed'' | DeadLetter \<Rightarrow> ''dead_letter'' | OtherStatus s \<Rightarrow> s)"

definition to_postprocess_job_response :: "postprocess_job \<Rightarrow> postprocess_job_response" where
  "to_postprocess_job_response j = \<lparr>jp_id = j_id j, jp_ingest = j_ingest j, jp_tenant = j_tenant j,
     jp_memory = j_memory j, jp_type = job_type_name (j_type j), jp_status = job_status_name (j_status j),
     jp_attempts = j_attempts j, jp_max_attempts = j_max_attempts j, jp_available_at = j_available_at j,
     jp_lease_owner = j_lease_owner j, jp_leased_until = j_leased_until j, jp_last_error = j_last_error j,
     jp_created_at = j_created_at j, jp_updated_at = j_updated_at j\<rparr>"

section \<open>Binding\<close>

definition bind_store_input ::
  "request_context \<Rightarrow> store_memory_request option \<Rightarrow> err + store_input" where
  "bind_store_input gc body =
     (case body of
        None \<Rightarrow> Inl err_invalid_json_body
      | Some req \<Rightarrow> (case enforce_tenant_access gc (sr_tenant req) of
            Inl e \<Rightarrow> Inl e
          | Inr _ \<Rightarrow> parse_store_input req))"

fun bind_items :: "request_context \<Rightarrow> store_memory_request list \<Rightarrow> err + store_input list" where
  "bind_items gc [] = Inr []"
| "bind_items gc (item # items) =
     (case enforce_tenant_access gc (sr_tenant item) of Inl e \<Rightarrow> Inl e | Inr _ \<Rightarrow>
      (case parse_store_input item of Inl e \<Rightarrow> Inl e | Inr inp \<Rightarrow>
       (case bind_items gc items of Inl e \<Rightarrow> Inl e | Inr inps \<Rightarrow> Inr (inp # inps))))"

definition bind_store_batch_inputs ::
  "request_context \<Rightarrow> store_memory_request list option \<Rightarrow> err + store_input list" where
  "bind_store_batch_inputs gc body =
     (case body of
        None \<Rightarrow> Inl err_invalid_json_body
      | Some items \<Rightarrow> if items = [] then Inl err_empty_batch_items else bind_items gc items)"

section \<open>Handlers\<close>

text \<open>A handler answers in any case; like a search, it may change the cache of query embeddings.\<close>

type_synonym handler = "query_cache option \<Rightarrow> db_world \<Rightarrow> (response \<times> query_cache option) \<times> db_world"

definition respond :: "response \<Rightarrow> handler" where
  "respond r c w = ((r, c), w)"

text \<open>Call the service; an error is written as such, a result as the given response.\<close>

definition answer :: "(err \<Rightarrow> string) \<Rightarrow> 'a search_act \<Rightarrow> ('a \<Rightarrow> response) \<Rightarrow> handler" where
  "answer txt m k c w =
     (case m c w of ((r, c1), w1) \<Rightarrow>
        (((case r of Inl e \<Rightarrow> write_error txt e | Inr x \<Rightarrow> k x), c1), w1))"

record memory_handler =
  mh_service :: service
  mh_searcher :: searcher
  mh_max_attempts :: int

definition new_memory_handler :: "service \<Rightarrow> searcher \<Rightarrow> int list \<Rightarrow> memory_handler" where
  "new_memory_handler sv sq attempts = \<lparr>mh_service = sv, mh_searcher = sq,
     mh_max_attempts = (if attempts \<noteq> [] \<and> hd attempts > 0 then hd attempts else 5)\<rparr>"

abbreviation error_text :: "memory_handler \<Rightarrow> err \<Rightarrow> string" where
  "error_text h \<equiv> ms_error_text (mh_service h)"

definition handle_store :: "memory_handler \<Rightarrow> request_context \<Rightarrow> store_memory_request option \<Rightarrow> handler" where
  "handle_store h gc body =
     (case bind_store_input gc body of
        Inl e \<Rightarrow> respond (write_bind_error (error_text h) e)
      | Inr inp \<Rightarrow> answer (error_text h) (on_db (service_store (mh_service h) inp))
          (\<lambda>m. Response 201 (StoredBody (m_id m) (m_created_at m))))"

definition handle_store_batch ::
  "memory_handler \<Rightarrow> request_context \<Rightarrow> store_memory_request list option \<Rightarrow> handler" where
  "handle_store_batch h gc body =
     (case bind_store_batch_inputs gc body of
        Inl e \<Rightarrow> respond (write_bind_error (error_text h) e)
      | Inr inputs \<Rightarrow> answer (error_text h) (on_db (store_batch (mh_service h) inputs))
          (\<lambda>ms. Response 201 (StoredBatchBody (map (\<lambda>m. (m_id m, m_created_at m)) ms))))"

definition handle_ingest :: "memory_handler \<Rightarrow> request_context \<Rightarrow> store_memory_request option \<Rightarrow> handler" where
  "handle_ingest h gc body =
     (case bind_store_input gc body of
        Inl e \<Rightarrow> respond (write_bind_error (error_text h) e)
      | Inr inp \<Rightarrow> answer (error_text h) (on_db (ingest_async (mh_service h) inp (mh_max_attempts h)))
          (\<lambda>receipt. Response 202 (IngestBody receipt)))"

definition handle_ingest_batch ::
  "memory_handler \<Rightarrow> request_context \<Rightarrow> store_memory_request list option \<Rightarrow> handler" where
  "handle_ingest_batch h gc body =
     (case bind_store_batch_inputs gc body of
        Inl e \<Rightarrow> respond (write_bind_error (error_text h) e)
      | Inr inputs \<Rightarrow> answer (error_text h) (on_db (ingest_batch_async (mh_service h) inputs (mh_max_attempts h)))
          (\<lambda>receipt. Response 202 (IngestBody receipt)))"

definition bad_request :: "string \<Rightarrow> response" where
  "bad_request msg = Response 400 (ErrorBody msg)"

text \<open>The checks of the search handler in their order, up to the call of the service.\<close>

definition search_request_options ::
  "(err \<Rightarrow> string) \<Rightarrow> request_context \<Rightarrow> search_memory_request \<Rightarrow> response + search_options" where
  "search_request_options txt gc req =
     (if qr_min_score req < 0 \<or> qr_min_score req > 1 then Inl (bad_request ''invalid min_score'')
      else case parse_search_tiers (qr_tiers req) of Inl e \<Rightarrow> Inl (bad_request (txt e)) | Inr tiers \<Rightarrow>
       (case parse_search_kinds (qr_kinds req) of Inl e \<Rightarrow> Inl (bad_request (txt e)) | Inr kinds \<Rightarrow>
        (case parse_search_retrieval_kind (qr_retrieval_kind req) of Inl e \<Rightarrow> Inl (bad_request (txt e)) | Inr rk \<Rightarrow>
         (case enforce_tenant_access gc (qr_tenant req) of Inl e \<Rightarrow> Inl (write_error txt e) | Inr _ \<Rightarrow>
          Inr \<lparr>sx_min_score = qr_min_score req, sx_tiers = tiers, sx_kinds = kinds, sx_retrieval = rk,
               sx_disable_touch = qr_disable_touch req\<rparr>))))"

definition search_answer ::
  "memory list \<Rightarrow> (query_plan \<times> ranking_debug list) option \<Rightarrow> response" where
  "search_answer items debug = Response 200 (SearchBody (map memory_response_of items)
     (map_option (\<lambda>(plan, ranking). (plan_debug_of plan, ranking)) debug))"

definition handle_search :: "memory_handler \<Rightarrow> request_context \<Rightarrow> search_memory_request option \<Rightarrow> handler" where
  "handle_search h gc body =
     (case body of
        None \<Rightarrow> respond (bad_request ''invalid JSON body'')
      | Some req \<Rightarrow> (case search_request_options (error_text h) gc req of
          Inl r \<Rightarrow> respond r
        | Inr opts \<Rightarrow>
            if qr_debug req
            then answer (error_text h) (search_with_filters_debug (mh_service h) (mh_searcher h)
                   (qr_tenant req) (qr_query req) (qr_top_k req) opts)
                   (\<lambda>(items, plan, ranking). search_answer items (Some (plan, ranking)))
            else answer (error_text h) (search_with_filters (mh_service h) (mh_searcher h)
                   (qr_tenant req) (qr_query req) (qr_top_k req) opts)
                   (\<lambda>items. search_answer items None)))"

definition handle_delete :: "memory_handler \<Rightarrow> request_context \<Rightarrow> string \<Rightarrow> string \<Rightarrow> handler" where
  "handle_delete h gc memory_id t =
     (case enforce_tenant_access gc t of
        Inl e \<Rightarrow> respond (write_error (error_text h) e)
      | Inr _ \<Rightarrow> answer (error_text h) (on_db (service_delete (mh_service h) t memory_id))
          (\<lambda>_. Response 204 NoBody))"

definition handle_get_postprocess_job :: "memory_handler \<Rightarrow> request_context \<Rightarrow> string \<Rightarrow> handler" where
  "handle_get_postprocess_job h gc job_id =
     answer (error_text h) (on_db (service_get_postprocess_job job_id))
       (\<lambda>job. case enforce_tenant_access gc (j_tenant job) of
          Inl e \<Rightarrow> write_error (error_text h) e
        | Inr _ \<Rightarrow> Response 200 (JobBody (to_postprocess_job_response job)))"

text \<open>The query string: \<open>QueryArray\<close> is the list of values of a key, \<open>Query\<close> the first of them.\<close>

record jobs_query =
  jq_tenant :: "string list"
  jq_limit :: "string list"
  jq_status :: "string list"
  jq_type :: "string list"

definition query_value :: "string list \<Rightarrow> string" where
  "query_value vs = (case vs of [] \<Rightarrow> [] | v # _ \<Rightarrow> v)"

definition jobs_limit :: "string \<Rightarrow> int option" where
  "jobs_limit raw0 =
     (let raw = trim_space raw0 in
      if raw = [] then Some 50
      else case atoi raw of None \<Rightarrow> None | Some n \<Rightarrow> if n \<le> 0 then None else Some n)"

definition handle_list_postprocess_jobs :: "memory_handler \<Rightarrow> request_context \<Rightarrow> jobs_query \<Rightarrow> handler" where
  "handle_list_postprocess_jobs h gc q =
     (let t = trim_space (query_value (jq_tenant q)) in
      case enforce_tenant_access gc t of
        Inl e \<Rightarrow> respond (write_error (error_text h) e)
      | Inr _ \<Rightarrow> (case jobs_limit (query_value (jq_limit q)) of
          None \<Rightarrow> respond (bad_request ''invalid limit'')
        | Some limit \<Rightarrow> (case parse_postprocess_statuses (jq_status q) (query_value (jq_status q)) of
            Inl e \<Rightarrow> respond (bad_request (error_text h e))
          | Inr statuses \<Rightarrow> (case parse_postprocess_types (jq_type q) (query_value (jq_type q)) of
              Inl e \<Rightarrow> respond (bad_request (error_text h e))
            | Inr types \<Rightarrow>
                answer (error_text h) (on_db (service_list_postprocess_jobs
                  \<lparr>jf_tenant = t, jf_statuses = statuses, jf_types = types, jf_limit = limit\<rparr>))
                  (\<lambda>jobs. Response 200 (JobsBody (map to_postprocess_job_response jobs)))))))"

definition handle_create_tenant :: "memory_handler \<Rightarrow> request_context \<Rightarrow> (string \<times> string) option \<Rightarrow> handler" where
  "handle_create_tenant h gc body =
     (case body of
        None \<Rightarrow> respond (bad_request ''invalid JSON body'')
      | Some (i, name) \<Rightarrow> (case enforce_tenant_access gc i of
          Inl e \<Rightarrow> respond (write_error (error_text h) e)
        | Inr _ \<Rightarrow> answer (error_text h)
            (on_db (tenant_create \<lparr>t_id = i, t_name = name, t_created_at = zero_time\<rparr>))
            (\<lambda>t. Response 201 (TenantBody (t_id t) (t_name t) (t_created_at t)))))"

definition handle_tenant_stats :: "memory_handler \<Rightarrow> request_context \<Rightarrow> string \<Rightarrow> handler" where
  "handle_tenant_stats h gc t =
     (case enforce_tenant_access gc t of
        Inl e \<Rightarrow> respond (write_error (error_text h) e)
      | Inr _ \<Rightarrow> answer (error_text h) (on_db (tenant_stats t)) (\<lambda>n. Response 200 (StatsBody t n)))"

section \<open>Routes\<close>

datatype api_request =
    PostMemory "store_memory_request option"
  | PostMemoryBatch "store_memory_request list option"
  | PostIngest "store_memory_request option"
  | PostIngestBatch "store_memory_request list option"
  | PostSearch "search_memory_request option"
  | GetJobs jobs_query
  | GetJob string
  | DeleteMemory string string
  | PostTenant "(string \<times> string) option"
  | GetTenantStats string

definition dispatch :: "memory_handler \<Rightarrow> request_context \<Rightarrow> api_request \<Rightarrow> handler" where
  "dispatch h gc req =
     (case req of
        PostMemory b \<Rightarrow> handle_store h gc b
      | PostMemoryBatch b \<Rightarrow> handle_store_batch h gc b
      | PostIngest b \<Rightarrow> handle_ingest h gc b
      | PostIngestBatch b \<Rightarrow> handle_ingest_batch h gc b
      | PostSearch b \<Rightarrow> handle_search h gc b
      | GetJobs q \<Rightarrow> handle_list_postprocess_jobs h gc q
      | GetJob i \<Rightarrow> handle_get_postprocess_job h gc i
      | DeleteMemory i t \<Rightarrow> handle_delete h gc i t
      | PostTenant b \<Rightarrow> handle_create_tenant h gc b
      | GetTenantStats t \<Rightarrow> handle_tenant_stats h gc t)"

text \<open>The group \<open>/v1\<close>: with authentication, the middleware runs first, at the time of the request.\<close>

definition serve_v1 ::
  "jwt_library \<Rightarrow> jwt_authenticator option \<Rightarrow> memory_handler \<Rightarrow> gotime \<Rightarrow> string \<Rightarrow> api_request \<Rightarrow> handler" where
  "serve_v1 lib auth h now header req =
     (case auth of
        None \<Rightarrow> dispatch h \<lparr>rc_tenant = None\<rparr> req
      | Some a \<Rightarrow> (case bearer_middleware lib a now header \<lparr>rc_tenant = None\<rparr> of
          None \<Rightarrow> respond (Response 401 (ErrorBody ''unauthorized''))
        | Some gc \<Rightarrow> dispatch h gc req))"

end
