(* ===== verification/ApiLaws.thy ===== *)
theory ApiLaws
  imports Api SearchSample ServiceLaws
begin

text \<open>
  What the HTTP interface guarantees on top of the services: with authentication, requests for another
  tenant are refused before they have any effect and answers hold the data of the tenant asked for only;
  every answer has the status of its body, and internal errors are not shown; no request breaks the
  invariant of the database.
\<close>

section \<open>Requests and answers\<close>

text \<open>The tenants a request names.\<close>

definition request_tenants :: "api_request \<Rightarrow> string list" where
  "request_tenants req =
     (case req of
        PostMemory (Some r) \<Rightarrow> [sr_tenant r]
      | PostMemoryBatch (Some rs) \<Rightarrow> map sr_tenant rs
      | PostIngest (Some r) \<Rightarrow> [sr_tenant r]
      | PostIngestBatch (Some rs) \<Rightarrow> map sr_tenant rs
      | PostSearch (Some q) \<Rightarrow> [qr_tenant q]
      | GetJobs q \<Rightarrow> [query_value (jq_tenant q)]
      | DeleteMemory i t \<Rightarrow> [t]
      | PostTenant (Some (i, name)) \<Rightarrow> [i]
      | GetTenantStats t \<Rightarrow> [t]
      | _ \<Rightarrow> [])"

lemma respond_run: "respond r c w = ((r', c'), w') \<longleftrightarrow> r' = r \<and> c' = c \<and> w' = w"
  by (auto simp: respond_def)

lemma answer_run:
  "answer txt m k c w = ((r, c'), w') \<longleftrightarrow>
     (\<exists>e. m c w = ((Inl e, c'), w') \<and> r = write_error txt e) \<or> (\<exists>y. m c w = ((Inr y, c'), w') \<and> r = k y)"
  by (auto simp: answer_def split: prod.splits sum.splits)

lemma on_db_run: "on_db m c w = ((x, c'), w') \<longleftrightarrow> m w = (x, w') \<and> c' = c"
  by (auto simp: on_db_def split: prod.splits)

lemmas handle_defs = handle_store_def handle_store_batch_def handle_ingest_def handle_ingest_batch_def
  handle_search_def handle_delete_def handle_get_postprocess_job_def handle_list_postprocess_jobs_def
  handle_create_tenant_def handle_tenant_stats_def

section \<open>Refusals\<close>

definition allowed :: "string \<Rightarrow> string \<Rightarrow> bool" where
  "allowed a t \<longleftrightarrow> trim_space t = a"

lemma enforce_authenticated:
  assumes "tenant_id_from_gin gc = Some a" "trim_space a \<noteq> []"
  shows "enforce_tenant_access gc t = (if trim_space t = [] then Inl ErrInvalidInput
     else if allowed a t then Inr () else Inl ErrTenantMismatch)"
  using assms by (auto simp: enforce_tenant_access_def allowed_def Let_def)

lemma refusal_statuses:
  "status_for_error txt ErrInvalidInput = 400" "status_for_error txt ErrTenantMismatch = 403"
  "status_for_bind_error txt ErrInvalidInput = 400" "status_for_bind_error txt ErrTenantMismatch = 403"
  by (simp_all add: status_for_error_def status_for_bind_error_def err_invalid_json_body_def err_empty_batch_items_def)

lemma refusal_responses:
  "status_code (write_error txt ErrInvalidInput) = 400" "status_code (write_error txt ErrTenantMismatch) = 403"
  "status_code (write_bind_error txt ErrInvalidInput) = 400" "status_code (write_bind_error txt ErrTenantMismatch) = 403"
  by (simp_all add: write_error_def write_bind_error_def refusal_statuses)

lemma parse_store_input_error: "parse_store_input req = Inl e \<Longrightarrow> e = ErrInvalidInput"
  by (auto simp: parse_store_input_def parse_tier_def parse_created_by_def parse_kind_def Let_def split: if_splits)

lemma bind_items_refused:
  assumes "tenant_id_from_gin gc = Some a" "trim_space a \<noteq> []" "item \<in> set items" "\<not> allowed a (sr_tenant item)"
  shows "\<exists>e \<in> {ErrInvalidInput, ErrTenantMismatch}. bind_items gc items = Inl e"
  using assms(3,4)
proof (induction items)
  case (Cons x xs)
  then show ?case
    using enforce_authenticated [OF assms(1,2), of "sr_tenant x"]
    by (auto dest: parse_store_input_error split: sum.splits if_splits)
qed simp

lemma dispatch_refused:
  assumes "tenant_id_from_gin gc = Some a" "trim_space a \<noteq> []" "t \<in> set (request_tenants req)" "\<not> allowed a t"
  shows "\<exists>r. dispatch h gc req = respond r \<and> status_code r \<in> {400, 403}"
proof -
  note e = enforce_authenticated [OF assms(1,2)]
  have one: "\<exists>x \<in> {ErrInvalidInput, ErrTenantMismatch}. enforce_tenant_access gc t' = Inl x" if "\<not> allowed a t'" for t'
    using that by (simp add: e)
  have single: "\<exists>x \<in> {ErrInvalidInput, ErrTenantMismatch}. bind_store_input gc (Some r) = Inl x"
    if "\<not> allowed a (sr_tenant r)" for r
    using one [OF that] by (auto simp: bind_store_input_def)
  have batch: "\<exists>x \<in> {ErrInvalidInput, ErrTenantMismatch}. bind_store_batch_inputs gc (Some rs) = Inl x"
    if "t \<in> sr_tenant ` set rs" for rs
    using bind_items_refused [OF assms(1,2)] that assms(4) by (auto simp: bind_store_batch_inputs_def)
  have search: "\<exists>r. search_request_options tx gc q = Inl r \<and> status_code r \<in> {400, 403}"
    if "\<not> allowed a (qr_tenant q)" for tx q
    using one [OF that] by (auto simp: search_request_options_def bad_request_def refusal_responses split: sum.splits)
  have trimmed: "\<not> allowed a (trim_space t') \<longleftrightarrow> \<not> allowed a t'" for t' by (simp add: allowed_def)
  note simps = refusal_responses respond_run
  show ?thesis
  proof (cases req)
    case (PostMemory b)
    with assms(3,4) single show ?thesis
      by (cases b) (fastforce simp: request_tenants_def dispatch_def handle_store_def simps)+
  next
    case (PostMemoryBatch b)
    with assms(3) batch show ?thesis
      by (cases b) (fastforce simp: request_tenants_def dispatch_def handle_store_batch_def simps)+
  next
    case (PostIngest b)
    with assms(3,4) single show ?thesis
      by (cases b) (fastforce simp: request_tenants_def dispatch_def handle_ingest_def simps)+
  next
    case (PostIngestBatch b)
    with assms(3) batch show ?thesis
      by (cases b) (fastforce simp: request_tenants_def dispatch_def handle_ingest_batch_def simps)+
  next
    case (PostSearch b)
    with assms(3,4) obtain q where b: "b = Some q" "\<not> allowed a (qr_tenant q)"
      by (cases b) (auto simp: request_tenants_def)
    then obtain r where "search_request_options (error_text h) gc q = Inl r" "status_code r \<in> {400, 403}"
      using search by blast
    with PostSearch b show ?thesis by (auto simp: dispatch_def handle_search_def simps)
  next
    case (GetJobs q)
    with assms(3,4) one [of "trim_space t"] show ?thesis
      by (auto simp: request_tenants_def dispatch_def handle_list_postprocess_jobs_def simps trimmed Let_def)
  next
    case (GetJob i)
    with assms(3) show ?thesis by (simp add: request_tenants_def)
  next
    case (DeleteMemory i t')
    with assms(3,4) one [of t] show ?thesis
      by (auto simp: request_tenants_def dispatch_def handle_delete_def simps)
  next
    case (PostTenant b)
    with assms(3,4) one [of t] show ?thesis
      by (cases b) (auto simp: request_tenants_def dispatch_def handle_create_tenant_def simps)
  next
    case (GetTenantStats t')
    with assms(3,4) one [of t] show ?thesis
      by (auto simp: request_tenants_def dispatch_def handle_tenant_stats_def simps)
  qed
qed

text \<open>C8 Under authentication, a request without a valid token is answered with 401, and a request that
  names any tenant other than the authenticated one (a batch included, in which one item suffices) with
  400 or 403; in both cases nothing has happened: no statement was run, no row and no cache entry has
  changed.\<close>

theorem foreign_requests_refused:
  assumes "serve_v1 lib (Some a) h now header req c w = ((r, c'), w')"
  shows "case bearer_middleware lib a now header \<lparr>rc_tenant = None\<rparr> of
      None \<Rightarrow> status_code r = 401 \<and> c' = c \<and> w' = w
    | Some gc \<Rightarrow> \<exists>T. tenant_id_from_gin gc = Some T \<and>
        ((\<exists>t \<in> set (request_tenants req). trim_space t \<noteq> T) \<longrightarrow> status_code r \<in> {400, 403} \<and> c' = c \<and> w' = w)"
proof (cases "bearer_middleware lib a now header \<lparr>rc_tenant = None\<rparr>")
  case None
  with assms show ?thesis by (simp add: serve_v1_def respond_run)
next
  case (Some gc)
  from middleware_success [OF Some] obtain T where T: "tenant_id_from_gin gc = Some T" "trim_space T \<noteq> []" by blast
  have "status_code r \<in> {400, 403} \<and> c' = c \<and> w' = w" if "t \<in> set (request_tenants req)" "trim_space t \<noteq> T" for t
    using dispatch_refused [OF T that(1), of h] that(2) assms Some
    by (auto simp: serve_v1_def allowed_def respond_run)
  with Some T show ?thesis by auto
qed

section \<open>Answers\<close>

text \<open>What an answer may say under authentication as \<open>T\<close>, given the database in which the request is
  served: every item is a row of the database that carries the tenant asked for, and a number is the
  count of that tenant's rows. The tenant asked for is the one of the request as it stands there; access
  control compares names with blanks trimmed.\<close>

definition own_answer :: "database \<Rightarrow> string \<Rightarrow> api_request \<Rightarrow> body \<Rightarrow> bool" where
  "own_answer D T req b \<longleftrightarrow>
     (case b of
        SearchBody ms d \<Rightarrow> (\<exists>q. req = PostSearch (Some q) \<and> trim_space (qr_tenant q) = T \<and>
          (\<forall>x \<in> set ms. \<exists>m \<in> set (db_memories D). m_tenant m = qr_tenant q \<and> x = memory_response_of m))
      | JobsBody js \<Rightarrow> (\<exists>q. req = GetJobs q \<and> trim_space (query_value (jq_tenant q)) = T) \<and>
          (\<forall>x \<in> set js. \<exists>row \<in> set (db_jobs D). jr_tenant row = T \<and> x = to_postprocess_job_response (job_of_row row))
      | JobBody x \<Rightarrow> (\<exists>i. req = GetJob i \<and> (\<exists>row \<in> set (db_jobs D). jr_id row = trim_space i \<and>
          trim_space (jr_tenant row) = T \<and> x = to_postprocess_job_response (job_of_row row)))
      | TenantBody i s n \<Rightarrow> (\<exists>name. req = PostTenant (Some (i, name))) \<and> trim_space i = T
      | StatsBody t n \<Rightarrow> req = GetTenantStats t \<and> trim_space t = T \<and> t \<in> t_id ` set (db_tenants D) \<and>
          n = int (length (filter (\<lambda>m. m_tenant m = t) (db_memories D)))
      | _ \<Rightarrow> True)"

lemma own_answer_simps [simp]:
  "own_answer D T req NoBody" "own_answer D T req (ErrorBody e)" "own_answer D T req (StoredBody i n)"
  "own_answer D T req (StoredBatchBody xs)" "own_answer D T req (IngestBody receipt)"
  by (simp_all add: own_answer_def)

lemma write_error_own [simp]: "own_answer D T req (response_body (write_error txt e))"
  by (simp add: write_error_def Let_def)

lemma write_bind_error_own [simp]: "own_answer D T req (response_body (write_bind_error txt e))"
  by (simp add: write_bind_error_def)

lemma bad_request_own [simp]: "own_answer D T req (response_body (bad_request msg))"
  by (simp add: bad_request_def)

lemma search_refused_own:
  "search_request_options txt gc q = Inl r \<Longrightarrow> own_answer D T req (response_body r)"
  by (auto simp: search_request_options_def split: if_splits sum.splits)

lemma search_request_access:
  "search_request_options txt gc q = Inr opts \<Longrightarrow> enforce_tenant_access gc (qr_tenant q) = Inr ()"
  by (auto simp: search_request_options_def split: if_splits sum.splits)

lemma listed_jobs_rows:
  assumes "jobs_ok (tabs w)" "list_postprocess_jobs flt w = (Inr js, w')" "trim_space (jf_tenant flt) \<noteq> []"
  shows "\<forall>j \<in> set js. \<exists>row \<in> set (db_jobs (tabs w)). jr_tenant row = trim_space (jf_tenant flt) \<and> j = job_of_row row"
proof -
  from assms(2) have "\<not> faulty w (steps w)"
    by (auto simp: list_postprocess_jobs_def act_success elim!: bind_actE)
  from list_jobs_functional [OF assms(1) this, of flt] assms(2)
  obtain rows where "js = map job_of_row rows" "set rows \<subseteq> {r \<in> set (db_jobs (tabs w)). list_filter flt r}" by auto
  with assms(3) show ?thesis by (auto simp: list_filter_def)
qed

lemma service_listed_jobs_rows:
  assumes "jobs_ok (tabs w)" "service_list_postprocess_jobs flt w = (Inr js, w')" "trim_space (jf_tenant flt) \<noteq> []"
  shows "\<forall>j \<in> set js. \<exists>row \<in> set (db_jobs (tabs w)). jr_tenant row = trim_space (jf_tenant flt) \<and> j = job_of_row row"
proof -
  from assms(2,3) obtain u w1 where e: "ensure_tenant_exists (trim_space (jf_tenant flt)) w = (Inr u, w1)"
    and l: "list_postprocess_jobs (flt\<lparr>jf_tenant := trim_space (jf_tenant flt)\<rparr>) w1 = (Inr js, w')"
    by (auto simp: service_list_postprocess_jobs_def Let_def elim!: bind_actE)
  have t: "tabs w1 = tabs w" using ensure_tenant_run [OF e] by simp
  with assms(1) have "jobs_ok (tabs w1)" by simp
  from listed_jobs_rows [OF this l] assms(3) t show ?thesis by simp
qed

lemma looked_up_job_row:
  assumes "jobs_ok (tabs w)" "service_get_postprocess_job i w = (Inr j, w')"
  shows "\<exists>row \<in> set (db_jobs (tabs w)). jr_id row = trim_space i \<and> j = job_of_row row"
proof -
  from assms(2) obtain w1 where "get_postprocess_job (trim_space i) w = (Inr (Some j), w1)"
    by (auto simp: service_get_postprocess_job_def Let_def act_success elim!: bind_actE
        split: if_splits option.splits)
  then obtain row rest where row: "filter (\<lambda>r. jr_id r = trim_space i) (db_jobs (tabs w)) = row # rest"
    "scan_postprocess_job row = Inr j"
    by (auto simp: get_postprocess_job_def Let_def act_success elim!: bind_actE split: if_splits list.splits)
  from row(1) have "row \<in> set (db_jobs (tabs w)) \<and> jr_id row = trim_space i"
    by (auto simp: filter_eq_Cons_iff)
  with row(2) scan_job_ok job_table_okD(3) [OF assms(1)] show ?thesis by (intro bexI [of _ row]) auto
qed

lemma tenant_stats_run:
  assumes "tenant_stats i w = (Inr n, w')"
  shows "i \<in> t_id ` set (db_tenants (tabs w)) \<and>
    n = int (length (filter (\<lambda>m. m_tenant m = i) (db_memories (tabs w)))) \<and> tabs w' = tabs w"
  using assms
  by (auto simp: tenant_stats_def tenant_repo_exists_def tenant_repo_memory_count_def memory_count_def
      count_where_def act_success image_iff elim!: bind_actE split: if_splits)

text \<open>With or without debug information, the handler runs one search.\<close>

lemma handle_search_run:
  assumes "handle_search h gc (Some q) c w = ((r, c'), w')" "search_request_options (error_text h) gc q = Inr opts"
  shows "(\<exists>e. search_with_filters (mh_service h) (mh_searcher h) (qr_tenant q) (qr_query q) (qr_top_k q) opts c w = ((Inl e, c'), w') \<and>
      r = write_error (error_text h) e) \<or>
    (\<exists>ms d. search_with_filters (mh_service h) (mh_searcher h) (qr_tenant q) (qr_query q) (qr_top_k q) opts c w = ((Inr ms, c'), w') \<and>
      r = search_answer ms d)"
proof -
  obtain x c1 w1 where x: "search_with_filters (mh_service h) (mh_searcher h) (qr_tenant q) (qr_query q) (qr_top_k q) opts c w = ((x, c1), w1)"
    by (metis prod.collapse)
  show ?thesis
    using assms x by (cases x) (auto simp: handle_search_def answer_run search_with_filters_debug_def bind_search_def
        return_search_def Let_def split: if_splits)
qed

lemma access_granted:
  assumes "tenant_id_from_gin gc = Some a" "trim_space a \<noteq> []" "enforce_tenant_access gc t = Inr u"
  shows "trim_space t = a"
  using assms(3) by (simp add: enforce_authenticated [OF assms(1,2)] allowed_def split: if_splits)

lemma tenant_create_id: "tenant_create t w = (Inr t', w') \<Longrightarrow> t_id t' = t_id t"
  by (auto simp: tenant_create_def tenant_repo_create_def act_success split: if_splits elim!: bind_actE)

lemma dispatch_answers_own:
  assumes gc: "tenant_id_from_gin gc = Some a" "trim_space a \<noteq> []"
    and "retrieval (mh_service h) (mh_searcher h)" "db_ok (tabs w)"
    and run: "dispatch h gc req c w = ((r, c'), w')"
  shows "own_answer (tabs w) a req (response_body r)"
proof -
  note own = access_granted [OF gc]
  have found: "\<forall>m \<in> set ms. m \<in> set (db_memories (tabs w)) \<and> m_tenant m = qr_tenant q"
    if "search_with_filters (mh_service h) (mh_searcher h) (qr_tenant q) s k opts c w = ((Inr ms, c1), w1)"
    for q s k opts ms c1 w1
    using retrieval.search_with_filters_outcome [OF assms(3) _ that] assms(4)
    by (auto simp: db_ok_def answer_ok_def found_in_def)
  have jobs: "jobs_ok (tabs w)" using assms(4) by (simp add: db_ok_def)
  show ?thesis
  proof (cases req)
    case (PostSearch b)
    show ?thesis
    proof (cases b)
      case None
      with run PostSearch show ?thesis by (simp add: dispatch_def handle_search_def respond_run)
    next
      case (Some q)
      show ?thesis
      proof (cases "search_request_options (error_text h) gc q")
        case (Inl r0)
        with run PostSearch Some show ?thesis
          by (simp add: dispatch_def handle_search_def respond_run search_refused_own)
      next
        case (Inr opts)
        from run PostSearch Some have "handle_search h gc (Some q) c w = ((r, c'), w')" by (simp add: dispatch_def)
        from handle_search_run [OF this Inr] show ?thesis
        proof
          assume "\<exists>ms d. search_with_filters (mh_service h) (mh_searcher h) (qr_tenant q) (qr_query q) (qr_top_k q) opts c w =
              ((Inr ms, c'), w') \<and> r = search_answer ms d"
          then obtain ms d where "r = search_answer ms d"
            "\<forall>m \<in> set ms. m \<in> set (db_memories (tabs w)) \<and> m_tenant m = qr_tenant q" using found by blast
          with PostSearch Some own [OF search_request_access [OF Inr]] show ?thesis
            by (auto simp: search_answer_def own_answer_def)
        qed auto
      qed
    qed
  next
    case (GetJobs q)
    have listed: "own_answer (tabs w) a req (JobsBody (map to_postprocess_job_response js))"
      if "service_list_postprocess_jobs \<lparr>jf_tenant = trim_space (query_value (jq_tenant q)), jf_statuses = ss,
          jf_types = ts, jf_limit = n\<rparr> w = (Inr js, w')" (is "service_list_postprocess_jobs ?flt w = _")
        "enforce_tenant_access gc (trim_space (query_value (jq_tenant q))) = Inr u" for ss ts n js u
    proof -
      have "trim_space (query_value (jq_tenant q)) = a" using own [OF that(2)] by (simp add: str_norm)
      then have t: "trim_space (jf_tenant ?flt) = a" using own [OF that(2)] by simp
      have "a \<noteq> []" using gc(2) by (auto simp: blank_eval)
      note rows = service_listed_jobs_rows [OF jobs that(1), unfolded t, OF this]
      have "\<forall>j \<in> set js. \<exists>row \<in> set (db_jobs (tabs w)). jr_tenant row = a \<and>
          to_postprocess_job_response j = to_postprocess_job_response (job_of_row row)"
      proof
        fix j assume "j \<in> set js"
        from bspec [OF rows this] obtain row where "row \<in> set (db_jobs (tabs w))" "jr_tenant row = a" "j = job_of_row row"
          by blast
        then show "\<exists>row \<in> set (db_jobs (tabs w)). jr_tenant row = a \<and>
            to_postprocess_job_response j = to_postprocess_job_response (job_of_row row)" by (intro bexI [of _ row]) simp_all
      qed
      then show ?thesis using own [OF that(2)] GetJobs by (simp add: own_answer_def)
    qed
    from run GetJobs show ?thesis
      by (auto simp: dispatch_def handle_list_postprocess_jobs_def respond_run answer_run on_db_run
          Let_def split: sum.splits option.splits intro: listed [unfolded GetJobs])
  next
    case (GetJob i)
    have job: "own_answer (tabs w) a req (JobBody (to_postprocess_job_response j))"
      if "service_get_postprocess_job i w = (Inr j, w')" "enforce_tenant_access gc (j_tenant j) = Inr u" for j u
      using looked_up_job_row [OF jobs that(1)] own [OF that(2)] GetJob
      by (auto simp: own_answer_def job_of_row_def)
    from run GetJob consider e where "r = write_error (error_text h) e"
      | j where "service_get_postprocess_job i w = (Inr j, w')" "r = (case enforce_tenant_access gc (j_tenant j) of
          Inl e \<Rightarrow> write_error (error_text h) e | Inr _ \<Rightarrow> Response 200 (JobBody (to_postprocess_job_response j)))"
      by (auto simp: dispatch_def handle_get_postprocess_job_def answer_run on_db_run)
    then show ?thesis
    proof cases
      case (2 j)
      then show ?thesis using job [OF 2(1)] by (cases "enforce_tenant_access gc (j_tenant j)") simp_all
    qed simp
  next
    case (PostTenant b)
    from run PostTenant consider e where "r = write_error (error_text h) e"
      | msg where "r = bad_request msg"
      | i name t u where "req = PostTenant (Some (i, name))" "enforce_tenant_access gc i = Inr u"
        "tenant_create \<lparr>t_id = i, t_name = name, t_created_at = zero_time\<rparr> w = (Inr t, w')"
        "r = Response 201 (TenantBody (t_id t) (t_name t) (t_created_at t))"
      by (auto simp: dispatch_def handle_create_tenant_def respond_run answer_run on_db_run
          split: sum.splits option.splits)
    then show ?thesis
    proof cases
      case (3 i name t u)
      then show ?thesis using tenant_create_id [OF 3(3)] own [OF 3(2)] by (simp add: own_answer_def)
    qed simp_all
  next
    case (GetTenantStats t)
    have counted: "own_answer (tabs w) a req (StatsBody t n)"
      if "tenant_stats t w = (Inr n, w')" "enforce_tenant_access gc t = Inr u" for n u
      using tenant_stats_run [OF that(1)] own [OF that(2)] GetTenantStats by (simp add: own_answer_def)
    from run GetTenantStats show ?thesis
      by (auto simp: dispatch_def handle_tenant_stats_def respond_run answer_run on_db_run intro: counted [unfolded GetTenantStats]
          split: sum.splits)
  qed (use run in \<open>auto simp: dispatch_def handle_defs respond_run answer_run
      on_db_run split: sum.splits option.splits prod.splits\<close>)
qed

text \<open>C9 Under authentication every answer is about the tenant asked for, which up to surrounding blanks
  is the authenticated one: the memories found by a search are rows of that very tenant; the jobs listed
  are rows of the authenticated tenant, and a job looked up is the row with that identifier, of a tenant
  whose trimmed name is the authenticated one; the tenant created is the one of the request; and the number of the
  statistics is the count of that tenant's memories. All this whatever identifier or query the request
  holds and whatever the embedder and the language models reply. Blanks are trimmed for the comparison
  only, so a token for a tenant also opens the tenants whose names differ from it in surrounding
  blanks.\<close>

theorem answers_own_tenant:
  assumes "retrieval (mh_service h) (mh_searcher h)" and "db_ok (tabs w)"
    and "bearer_middleware lib a now header \<lparr>rc_tenant = None\<rparr> = Some \<lparr>rc_tenant = Some T\<rparr>"
    and "serve_v1 lib (Some a) h now header req c w = ((r, c'), w')"
  shows "own_answer (tabs w) T req (response_body r)"
proof -
  from middleware_success [OF assms(3)] have "tenant_id_from_gin \<lparr>rc_tenant = Some T\<rparr> = Some T" "trim_space T \<noteq> []"
    by (auto simp: tenant_id_from_gin_def)
  moreover have "dispatch h \<lparr>rc_tenant = Some T\<rparr> req c w = ((r, c'), w')"
    using assms(3,4) by (simp add: serve_v1_def)
  ultimately show ?thesis using dispatch_answers_own assms(1,2) by blast
qed

section \<open>Statuses\<close>

definition response_ok :: "response \<Rightarrow> bool" where
  "response_ok r \<longleftrightarrow> (case response_body r of
      ErrorBody msg \<Rightarrow> status_code r \<in> {400, 401, 403, 404, 409, 500} \<and>
        (status_code r = 409 \<longrightarrow> msg = ''conflict'') \<and> (status_code r = 500 \<longrightarrow> msg = ''internal server error'')
    | NoBody \<Rightarrow> status_code r = 204
    | StoredBody _ _ \<Rightarrow> status_code r = 201
    | StoredBatchBody _ \<Rightarrow> status_code r = 201
    | TenantBody _ _ _ \<Rightarrow> status_code r = 201
    | IngestBody _ \<Rightarrow> status_code r = 202
    | _ \<Rightarrow> status_code r = 200)"

lemma status_for_error_range: "status_for_error txt e \<in> {400, 403, 404, 409, 500}"
  by (simp add: status_for_error_def split: err.split)

lemma response_ok_errors [simp]:
  "response_ok (write_error tx e)" "response_ok (write_bind_error tx e)" "response_ok (bad_request msg)"
  using status_for_error_range [of tx e]
  by (auto simp: response_ok_def write_error_def write_bind_error_def bad_request_def Let_def)

lemma response_ok_bodies [simp]:
  "response_ok (Response 204 NoBody)" "response_ok (Response 201 (StoredBody i n))"
  "response_ok (Response 201 (StoredBatchBody xs))" "response_ok (Response 201 (TenantBody i s n))"
  "response_ok (Response 202 (IngestBody receipt))" "response_ok (Response 200 (SearchBody ms d))"
  "response_ok (Response 200 (JobBody j))" "response_ok (Response 200 (JobsBody js))"
  "response_ok (Response 200 (StatsBody t k))" "response_ok (Response 401 (ErrorBody msg))"
  by (simp_all add: response_ok_def)

lemma answer_response_ok: "(\<And>x. response_ok (k x)) \<Longrightarrow> response_ok (fst (fst (answer txt m k c w)))"
  by (simp add: answer_def split: prod.split sum.split)

lemma respond_response: "fst (fst (respond r c w)) = r"
  by (simp add: respond_def)

lemma search_refused_ok: "search_request_options txt gc q = Inl r \<Longrightarrow> response_ok r"
  by (auto simp: search_request_options_def split: if_splits sum.splits)

lemma dispatch_response_ok: "response_ok (fst (fst (dispatch h gc req c w)))"
proof (cases req)
  case (PostSearch b)
  then show ?thesis
    by (cases b) (auto simp: dispatch_def handle_search_def respond_response search_refused_ok search_answer_def
        intro!: answer_response_ok split: sum.split)
qed (auto simp: dispatch_def handle_defs respond_response Let_def intro!: answer_response_ok
    split: sum.split option.split)

text \<open>Every answer is of a well-formed kind: success has the status of its payload (201 for what was
  created, 202 for what was accepted, 204 for a deletion, 200 for what was read), failure one of six
  statuses with an error text; and conflicts and internal errors never show the text of the error that
  caused them.\<close>

theorem responses_well_formed: "response_ok (fst (fst (serve_v1 lib auth h now header req c w)))"
  by (simp add: serve_v1_def dispatch_response_ok respond_response split: option.split)

section \<open>The invariant of the database\<close>

lemma accessed_ok:
  assumes "accessed t opts ms D D'" "service_ok D"
  shows "service_ok D'"
  using assms touch_stmt_ok [of D t "uniq_trimmed (map m_id ms)"]
  by (auto simp: accessed_def service_ok_def db_ok_def embeddings_ok_def touch_stmt_def)

lemma search_keeps_ok:
  assumes "retrieval sv sq" "service_ok (tabs w)" "search_with_filters sv sq t q k opts c w = ((r, c'), w')"
  shows "service_ok (tabs w')"
  using retrieval.search_with_filters_outcome [OF assms(1) _ assms(3)] assms(2) accessed_ok
  by (auto simp: service_ok_def db_ok_def answer_ok_def split: sum.splits)

lemma keeps_ok_tenant_create: "keeps service_ok (tenant_create t)"
proof -
  have "keeps (\<lambda>D. db_embeddings D = E) (tenant_create t)" for E
    unfolding tenant_create_def tenant_repo_create_def
    by (intro act_keeps keeps_exec) (auto simp: insert_tenant_stmt_def split: if_splits)
  moreover have "keeps db_ok (tenant_create t)"
    unfolding tenant_create_def by (intro act_keeps keeps_tenant_create)
  ultimately show ?thesis
    unfolding keeps_def service_ok_def embeddings_ok_def by metis
qed

lemma handler_keeps:
  assumes "keeps P m" "answer txt (on_db m) k c w = ((r, c'), w')" "P (tabs w)"
  shows "P (tabs w')"
  using assms by (auto simp: answer_run on_db_run dest: keeps_run)

lemma keeps_job_lookups:
  "keeps P (service_get_postprocess_job s)" "keeps P (service_list_postprocess_jobs flt)" "keeps P (tenant_stats t)"
  unfolding service_get_postprocess_job_def service_list_postprocess_jobs_def tenant_stats_def Let_def
  by (intro act_keeps keeps_get_job keeps_list_jobs reads_keeps [OF reads_tenant(1)] reads_keeps [OF reads_tenant(2)])+

lemma dispatch_keeps_ok:
  assumes sv: "ms_vector (mh_service h) = Some sqlite_vector_store" "uses_facts (mh_service h) sqlite_fact_store"
    and "retrieval (mh_service h) (mh_searcher h)" and ok: "service_ok (tabs w)"
    and run: "dispatch h gc req c w = ((r, c'), w')"
  shows "service_ok (tabs w')"
proof -
  have sb: "keeps service_ok (store_batch (mh_service h) inputs)" for inputs
    by (rule sfi.keeps_ok_store_batch [unfolded svi_ok, OF sv(2,1)])
  have ks: "keeps service_ok (service_store (mh_service h) i)" "keeps service_ok (service_delete (mh_service h) t s)"
    "keeps service_ok (ingest_batch_async (mh_service h) inputs n)" "keeps service_ok (ingest_async (mh_service h) i n)"
    "keeps service_ok (service_get_postprocess_job s)" "keeps service_ok (service_list_postprocess_jobs flt)"
    "keeps service_ok (tenant_stats t)" for i inputs t s n flt
    using keeps_service_store [OF sb] svi.keeps_ok_service_delete [unfolded svi_ok, OF sv(1)]
      svi.keeps_ok_ingest [unfolded svi_ok] keeps_job_lookups
    by (simp_all add: ingest_async_def)
  note rules = sb ks keeps_ok_tenant_create
  show ?thesis
  proof (cases req)
    case (PostSearch b)
    show ?thesis
    proof (cases "b = None \<or> (\<exists>r0. search_request_options (error_text h) gc (the b) = Inl r0)")
      case True
      with run ok PostSearch show ?thesis
        by (cases b) (auto simp: dispatch_def handle_search_def respond_run)
    next
      case False
      then obtain q opts where "b = Some q" and opts: "search_request_options (error_text h) gc q = Inr opts"
        by (cases b; cases "search_request_options (error_text h) gc (the b)") auto
      with run PostSearch have "handle_search h gc (Some q) c w = ((r, c'), w')" by (simp add: dispatch_def)
      from handle_search_run [OF this opts] show ?thesis using search_keeps_ok [OF assms(3) ok] by blast
    qed
  qed (use run ok in \<open>auto simp: dispatch_def handle_defs respond_run Let_def split: option.splits sum.splits
      dest!: handler_keeps [where P = service_ok, rotated] intro: rules\<close>)
qed

text \<open>C10 No request breaks the invariant of the database, with or without authentication, whatever it holds
  and wherever it fails: memories stay unique and of existing tenants, the full-text table, the index jobs
  and the embeddings match them, entity facts and the job queue stay well formed.\<close>

theorem requests_keep_invariant:
  assumes "ms_vector (mh_service h) = Some sqlite_vector_store" and "uses_facts (mh_service h) sqlite_fact_store"
    and "retrieval (mh_service h) (mh_searcher h)" and "service_ok (tabs w)"
  shows "service_ok (tabs (snd (serve_v1 lib auth h now header req c w)))"
proof -
  have d: "service_ok (tabs (snd (dispatch h gc req c w)))" for gc
    using dispatch_keeps_ok [OF assms, of gc req c] by (metis prod.collapse)
  show ?thesis
    using d assms(4) by (auto simp: serve_v1_def respond_def split: option.split)
qed

section \<open>Requests to a sample service\<close>

definition sample_authenticator :: jwt_authenticator where
  "sample_authenticator = \<lparr>ja_secret = ''key'', ja_issuer = []\<rparr>"

definition sample_handler :: memory_handler where
  "sample_handler = new_memory_handler sample_service lookup_searcher []"

lemma sample_login:
  "bearer_middleware sample_jwt sample_authenticator 5 ''Bearer tok'' \<lparr>rc_tenant = None\<rparr> = Some \<lparr>rc_tenant = Some ''t1''\<rparr>"
  by (simp add: bearer_middleware_def has_prefix_def authenticate_def sample_jwt_def sample_authenticator_def blank_eval)

lemma sample_retrieval: "retrieval (mh_service sample_handler) (mh_searcher sample_handler)"
  using lite.retrieval_axioms [of sample_service lookup_searcher]
  by (simp add: sample_handler_def new_memory_handler_def sample_service_def lookup_searcher_def retrieval_def)

lemma foreign_requests_refused_witness:
  "case serve_v1 sample_jwt (Some sample_authenticator) sample_handler 5 ''Bearer tok'' (DeleteMemory ''m1'' ''t2'') None
      (calm_world sample_store) of ((r, c'), w') \<Rightarrow> status_code r \<in> {400, 403} \<and> w' = calm_world sample_store"
proof -
  obtain r c' w' where run: "serve_v1 sample_jwt (Some sample_authenticator) sample_handler 5 ''Bearer tok''
      (DeleteMemory ''m1'' ''t2'') None (calm_world sample_store) = ((r, c'), w')" by (metis prod.collapse)
  from foreign_requests_refused [OF run] run show ?thesis
    by (simp add: sample_login tenant_id_from_gin_def request_tenants_def blank_eval)
qed

lemma sample_stats_run: "fst (fst (serve_v1 sample_jwt (Some sample_authenticator) sample_handler 5 ''Bearer tok''
    (GetTenantStats ''t1'') None (calm_world sample_store))) = Response 200 (StatsBody ''t1'' 1)"
  by (simp add: serve_v1_def sample_login dispatch_def handle_tenant_stats_def enforce_tenant_access_def
      tenant_id_from_gin_def blank_eval answer_def on_db_def tenant_stats_def tenant_repo_exists_def
      tenant_repo_memory_count_def run_eval sample_store_def memory_count_def count_where_def sample_memory_def
      empty_database_def zero_memory_def)

lemma answers_own_tenant_witness:
  "fst (fst (serve_v1 sample_jwt (Some sample_authenticator) sample_handler 5 ''Bearer tok''
      (GetTenantStats ''t1'') None (calm_world sample_store))) = Response 200 (StatsBody ''t1'' 1) \<and>
   own_answer sample_store ''t1'' (GetTenantStats ''t1'') (StatsBody ''t1'' 1)"
proof -
  obtain r c' w' where run: "serve_v1 sample_jwt (Some sample_authenticator) sample_handler 5 ''Bearer tok''
      (GetTenantStats ''t1'') None (calm_world sample_store) = ((r, c'), w')" by (metis prod.collapse)
  have "db_ok (tabs (calm_world sample_store))" using sample_service_ok by (simp add: service_ok_def)
  from answers_own_tenant [OF sample_retrieval this sample_login run]
  show ?thesis using sample_stats_run run by (simp add: calm_world_def)
qed

lemma requests_keep_invariant_witness:
  "service_ok (tabs (snd (serve_v1 sample_jwt (Some sample_authenticator) sample_handler 5 ''Bearer tok''
      (DeleteMemory ''m1'' ''t1'') None (calm_world sample_store))))"
  using requests_keep_invariant [OF _ _ sample_retrieval sample_service_ok]
  by (simp add: sample_handler_def new_memory_handler_def sample_service_def uses_facts_def)

end
