(* ===== verification/Telemetry.thy ===== *)
theory Telemetry
  imports GoNumbers World
begin

text \<open>
  The telemetry of the HTTP interface (\<open>telemetry/service.go\<close>): counters, a ring of request counts by
  minute, a ring of the latest events, and counts by tenant. Every method holds its locks while it works, so a run is
  a sequence of calls; an operation takes the reading of the clock that it uses when its observation has no
  time. Times are not before 1970 (the index of an older minute would be negative and panic). The properties: the
  rings and counters show what a list of everything that happened would show.
\<close>

section \<open>State\<close>

record telemetry_event =
  te_at :: gotime
  te_type :: string
  te_method :: string
  te_path :: string
  te_tenant :: string
  te_status :: int
  te_latency_ms :: int
  te_detail :: string

definition no_event :: telemetry_event where
  "no_event = \<lparr>te_at = zero_time, te_type = [], te_method = [], te_path = [], te_tenant = [], te_status = 0,
     te_latency_ms = 0, te_detail = []\<rparr>"

record tenant_counts =
  tc_writes :: int
  tc_searches :: int

record telemetry =
  tl_active :: int
  tl_store_count :: int
  tl_batch_store_count :: int
  tl_search_count :: int
  tl_ring :: "(int \<times> int) list"
  tl_events :: "telemetry_event list"
  tl_head :: nat
  tl_size :: nat
  tl_tenants :: "(string \<times> tenant_counts) list"

definition new_telemetry_service :: "int \<Rightarrow> int \<Rightarrow> telemetry" where
  "new_telemetry_service window events =
     \<lparr>tl_active = 0, tl_store_count = 0, tl_batch_store_count = 0, tl_search_count = 0,
      tl_ring = replicate (nat (if window \<le> 0 then 30 else window)) (0, 0),
      tl_events = replicate (nat (if events \<le> 0 then 256 else events)) no_event,
      tl_head = 0, tl_size = 0, tl_tenants = []\<rparr>"

record request_observation =
  qo_at :: gotime
  qo_method :: string
  qo_path :: string
  qo_tenant :: string
  qo_status :: int
  qo_latency :: int

text \<open>\<open>StoreObservation\<close> and \<open>SearchObservation\<close> have the same fields.\<close>

record observation =
  ob_at :: gotime
  ob_tenant :: string
  ob_status :: int
  ob_latency :: int

text \<open>The writes by tenant are a map; the list is the order in which it is iterated.\<close>

record batch_observation =
  bo_at :: gotime
  bo_writes :: "(string \<times> int) list"
  bo_status :: int
  bo_latency :: int

definition is_success_status :: "int \<Rightarrow> bool" where
  "is_success_status status \<longleftrightarrow> status \<ge> 200 \<and> status < 400"

definition should_track_request_path :: "string \<Rightarrow> bool" where
  "should_track_request_path path = has_prefix (trim_space path) ''/v1/''"

definition milliseconds :: "int \<Rightarrow> int" where
  "milliseconds d = (if d < 0 then - (- d div millisecond) else d div millisecond)"

definition time_or :: "gotime \<Rightarrow> gotime \<Rightarrow> gotime" where
  "time_or now t = (if is_zero t then now else t)"

section \<open>Recording\<close>

definition append_event :: "gotime \<Rightarrow> telemetry_event \<Rightarrow> telemetry \<Rightarrow> telemetry" where
  "append_event now e s =
     (let n = length (tl_events s) in
      if n = 0 then s
      else s\<lparr>tl_events := (tl_events s)[tl_head s := e\<lparr>te_at := time_or now (te_at e)\<rparr>],
             tl_head := (tl_head s + 1) mod n,
             tl_size := (if tl_size s < n then tl_size s + 1 else tl_size s)\<rparr>)"

definition minute_of :: "gotime \<Rightarrow> int" where
  "minute_of t = t div second div 60"

definition record_request_minute :: "gotime \<Rightarrow> telemetry \<Rightarrow> telemetry" where
  "record_request_minute now s =
     (let window = length (tl_ring s); minute = minute_of now; i = nat (minute mod int window) in
      if window = 0 then s
      else case tl_ring s ! i of (m, n) \<Rightarrow>
        s\<lparr>tl_ring := (tl_ring s)[i := (if m \<noteq> minute then (minute, 1) else (m, n + 1))]\<rparr>)"

definition counts_for :: "string \<Rightarrow> (string \<times> tenant_counts) list \<Rightarrow> tenant_counts" where
  "counts_for t cs = (case map_of cs t of None \<Rightarrow> \<lparr>tc_writes = 0, tc_searches = 0\<rparr> | Some c \<Rightarrow> c)"

fun put_counts :: "string \<Rightarrow> tenant_counts \<Rightarrow> (string \<times> tenant_counts) list \<Rightarrow> (string \<times> tenant_counts) list" where
  "put_counts t c [] = [(t, c)]"
| "put_counts t c ((u, d) # cs) = (if u = t then (t, c) # cs else (u, d) # put_counts t c cs)"

definition add_tenant_writes :: "string \<Rightarrow> int \<Rightarrow> telemetry \<Rightarrow> telemetry" where
  "add_tenant_writes t n s =
     (if n \<le> 0 \<or> t = [] then s
      else let c = counts_for t (tl_tenants s) in
        s\<lparr>tl_tenants := put_counts t (c\<lparr>tc_writes := tc_writes c + n\<rparr>) (tl_tenants s)\<rparr>)"

definition add_tenant_searches :: "string \<Rightarrow> int \<Rightarrow> telemetry \<Rightarrow> telemetry" where
  "add_tenant_searches t n s =
     (if n \<le> 0 \<or> t = [] then s
      else let c = counts_for t (tl_tenants s) in
        s\<lparr>tl_tenants := put_counts t (c\<lparr>tc_searches := tc_searches c + n\<rparr>) (tl_tenants s)\<rparr>)"

definition request_started :: "telemetry \<Rightarrow> telemetry" where
  "request_started s = s\<lparr>tl_active := tl_active s + 1\<rparr>"

definition request_finished :: "telemetry \<Rightarrow> telemetry" where
  "request_finished s = s\<lparr>tl_active := tl_active s - 1\<rparr>"

definition record_request :: "gotime \<Rightarrow> request_observation \<Rightarrow> telemetry \<Rightarrow> telemetry" where
  "record_request reading ob s =
     (let now = time_or reading (qo_at ob); p = trim_space (qo_path ob); path = (if p = [] then ''/'' else p);
          s1 = (if should_track_request_path path then record_request_minute now s else s) in
      if should_track_request_path path
      then append_event reading \<lparr>te_at = now, te_type = ''request'', te_method = trim_space (qo_method ob), te_path = path,
        te_tenant = trim_space (qo_tenant ob), te_status = qo_status ob, te_latency_ms = milliseconds (qo_latency ob),
        te_detail = []\<rparr> s1
      else s1)"

definition record_store :: "gotime \<Rightarrow> observation \<Rightarrow> telemetry \<Rightarrow> telemetry" where
  "record_store reading ob s =
     (let now = time_or reading (ob_at ob); t = trim_space (ob_tenant ob);
          s1 = (if is_success_status (ob_status ob)
                then add_tenant_writes t 1 (s\<lparr>tl_store_count := tl_store_count s + 1\<rparr>) else s) in
      append_event reading \<lparr>te_at = now, te_type = ''store'', te_method = ''POST'', te_path = ''/v1/memory'',
        te_tenant = t, te_status = ob_status ob, te_latency_ms = milliseconds (ob_latency ob), te_detail = []\<rparr> s1)"

text \<open>The loop over the writes: the items, the number of tenants, the last of them, and the state.\<close>

fun batch_writes ::
  "bool \<Rightarrow> (string \<times> int) list \<Rightarrow> int \<times> nat \<times> string \<times> telemetry \<Rightarrow> int \<times> nat \<times> string \<times> telemetry" where
  "batch_writes success [] acc = acc"
| "batch_writes success ((raw, n) # ws) (items, k, t, s) =
     (let i = trim_space raw in
      if n \<le> 0 \<or> i = [] then batch_writes success ws (items, k, t, s)
      else batch_writes success ws
        (items + n, k + 1, i, (if success then add_tenant_writes i n s else s)))"

definition record_batch_store :: "gotime \<Rightarrow> batch_observation \<Rightarrow> telemetry \<Rightarrow> telemetry" where
  "record_batch_store reading ob s =
     (let now = time_or reading (bo_at ob); success = is_success_status (bo_status ob);
          (items0, k, t0, s1) = batch_writes success (bo_writes ob) (0, 0, [], s);
          items = (if \<not> success then 0 else items0);
          t = (if k \<noteq> 1 then [] else t0);
          s2 = (if success then s1\<lparr>tl_batch_store_count := tl_batch_store_count s1 + 1\<rparr> else s1) in
      append_event reading \<lparr>te_at = now, te_type = ''batch_store'', te_method = ''POST'', te_path = ''/v1/memory/batch'',
        te_tenant = t, te_status = bo_status ob, te_latency_ms = milliseconds (bo_latency ob),
        te_detail = (if items > 0 then ''items='' @ itoa items else [])\<rparr> s2)"

definition record_search :: "gotime \<Rightarrow> observation \<Rightarrow> telemetry \<Rightarrow> telemetry" where
  "record_search reading ob s =
     (let now = time_or reading (ob_at ob); t = trim_space (ob_tenant ob);
          s1 = (if is_success_status (ob_status ob)
                then add_tenant_searches t 1 (s\<lparr>tl_search_count := tl_search_count s + 1\<rparr>) else s) in
      append_event reading \<lparr>te_at = now, te_type = ''search'', te_method = ''POST'', te_path = ''/v1/memory/search'',
        te_tenant = t, te_status = ob_status ob, te_latency_ms = milliseconds (ob_latency ob), te_detail = []\<rparr> s1)"

section \<open>Snapshots\<close>

definition requests_per_minute :: "gotime \<Rightarrow> telemetry \<Rightarrow> (int \<times> int) list" where
  "requests_per_minute now s =
     (let window = length (tl_ring s); current = minute_of now in
      if window = 0 then []
      else map (\<lambda>minute. case tl_ring s ! nat (minute mod int window) of (m, n) \<Rightarrow> (minute, if m = minute then n else 0))
        [current - int window + 1..current])"

definition recent_events :: "int \<Rightarrow> telemetry \<Rightarrow> telemetry_event list" where
  "recent_events limit s =
     (let l = nat (if limit \<le> 0 then 20 else limit); k = (if l > tl_size s then tl_size s else l); n = length (tl_events s) in
      map (\<lambda>i. tl_events s ! ((tl_head s + n - 1 - i) mod n)) [0..<k])"

record tenant_stat =
  tt_tenant :: string
  tt_writes :: int
  tt_searches :: int

definition top_tenants :: "int \<Rightarrow> bool \<Rightarrow> telemetry \<Rightarrow> tenant_stat list" where
  "top_tenants limit by_writes s =
     (let stats = map (\<lambda>(t, c). \<lparr>tt_tenant = t, tt_writes = tc_writes c, tt_searches = tc_searches c\<rparr>) (tl_tenants s) in
      take (nat (if limit \<le> 0 then 5 else limit)) (sort_key (\<lambda>x.
        if by_writes then (- tt_writes x, - tt_searches x, tt_tenant x)
        else (- tt_searches x, - tt_writes x, tt_tenant x)) stats))"

record snapshot =
  sn_generated_at :: gotime
  sn_active_requests :: int
  sn_store_count :: int
  sn_batch_store_count :: int
  sn_search_count :: int
  sn_requests_per_minute :: "(int \<times> int) list"
  sn_recent_events :: "telemetry_event list"
  sn_top_by_writes :: "tenant_stat list"
  sn_top_by_searches :: "tenant_stat list"

definition snapshot_of :: "gotime \<Rightarrow> int \<Rightarrow> int \<Rightarrow> telemetry \<Rightarrow> snapshot" where
  "snapshot_of now events tenants s =
     (let n = (if tenants \<le> 0 then 5 else tenants) in
      \<lparr>sn_generated_at = now, sn_active_requests = tl_active s, sn_store_count = tl_store_count s,
       sn_batch_store_count = tl_batch_store_count s, sn_search_count = tl_search_count s,
       sn_requests_per_minute = requests_per_minute now s,
       sn_recent_events = recent_events (if events \<le> 0 then 20 else events) s,
       sn_top_by_writes = top_tenants n True s, sn_top_by_searches = top_tenants n False s\<rparr>)"

section \<open>Runs\<close>

datatype telemetry_call =
    RequestStarted | RequestFinished
  | RecordRequest gotime request_observation
  | RecordStore gotime observation
  | RecordBatchStore gotime batch_observation
  | RecordSearch gotime observation

fun telemetry_step :: "telemetry_call \<Rightarrow> telemetry \<Rightarrow> telemetry" where
  "telemetry_step RequestStarted = request_started"
| "telemetry_step RequestFinished = request_finished"
| "telemetry_step (RecordRequest reading ob) = record_request reading ob"
| "telemetry_step (RecordStore reading ob) = record_store reading ob"
| "telemetry_step (RecordBatchStore reading ob) = record_batch_store reading ob"
| "telemetry_step (RecordSearch reading ob) = record_search reading ob"

definition telemetry_run :: "int \<Rightarrow> int \<Rightarrow> telemetry_call list \<Rightarrow> telemetry" where
  "telemetry_run window events calls = fold telemetry_step calls (new_telemetry_service window events)"

end
