(* ===== verification/TelemetryLaws.thy ===== *)
theory TelemetryLaws
  imports Telemetry
begin

text \<open>
  The rings and counters of the telemetry service refine the list of everything that happened: the event
  ring holds the latest events, the request ring the counts of the last minutes, the counters the totals.
\<close>

section \<open>The ring of events\<close>

definition ring_ok :: "telemetry \<Rightarrow> bool" where
  "ring_ok s \<longleftrightarrow> 0 < length (tl_events s) \<and> tl_head s < length (tl_events s) \<and> tl_size s \<le> length (tl_events s) \<and>
     (tl_size s < length (tl_events s) \<longrightarrow> tl_head s = tl_size s)"

text \<open>The events in the ring, the latest first.\<close>

definition latest :: "telemetry \<Rightarrow> telemetry_event list" where
  "latest s = map (\<lambda>i. tl_events s ! ((tl_head s + length (tl_events s) - 1 - i) mod length (tl_events s))) [0..<tl_size s]"

lemma ring_new: "ring_ok (new_telemetry_service w n)" "latest (new_telemetry_service w n) = []"
  by (simp_all add: ring_ok_def latest_def new_telemetry_service_def)

lemma ring_index:
  fixes h n i :: nat
  assumes "h < n" "i < n"
  shows "(h + n - 1 - i) mod n = (if i < h then h - 1 - i else h + n - 1 - i)"
proof (cases "i < h")
  case True
  then have eq: "h + n - 1 - i = (h - 1 - i) + n" using assms by linarith
  have "(h + n - 1 - i) mod n = ((h - 1 - i) + n) mod n" by (simp only: eq)
  also have "\<dots> = (h - 1 - i) mod n" by (rule mod_add_self2)
  also have "\<dots> = h - 1 - i" using assms by simp
  finally show ?thesis using True by simp
next
  case False
  then show ?thesis using assms by simp
qed

lemma append_event_ring:
  assumes "ring_ok s"
  shows "ring_ok (append_event now e s) \<and>
    latest (append_event now e s) = take (length (tl_events s)) (e\<lparr>te_at := time_or now (te_at e)\<rparr> # latest s)"
proof
  let ?n = "length (tl_events s)" and ?s = "append_event now e s" and ?e = "e\<lparr>te_at := time_or now (te_at e)\<rparr>"
  have ok: "0 < ?n" "tl_head s < ?n" "tl_size s \<le> ?n" "tl_size s < ?n \<longrightarrow> tl_head s = tl_size s"
    using assms by (auto simp: ring_ok_def)
  have parts: "tl_events ?s = (tl_events s)[tl_head s := ?e]" "tl_head ?s = (tl_head s + 1) mod ?n"
    "tl_size ?s = (if tl_size s < ?n then tl_size s + 1 else tl_size s)"
    using ok by (simp_all add: append_event_def Let_def)
  show "ring_ok ?s" using ok by (auto simp: ring_ok_def parts mod_Suc split: if_splits)
  show "latest ?s = take ?n (?e # latest s)"
  proof (rule nth_equalityI)
    show len: "length (latest ?s) = length (take ?n (?e # latest s))"
      using ok by (auto simp: latest_def parts)
    fix i assume "i < length (latest ?s)"
    then have i: "i < tl_size ?s" by (simp add: latest_def)
    then have i': "i < ?n" "i \<le> tl_size s" using ok parts(3) by (auto split: if_splits)
    have h: "tl_head ?s < ?n" using ok by (simp add: parts)
    have idx: "(tl_head ?s + ?n - 1 - i) mod ?n = (if i = 0 then tl_head s else (tl_head s + ?n - 1 - (i - 1)) mod ?n)"
      using ring_index [OF h i'(1)] ring_index [OF ok(2), of "i - 1"] ok(2) i'
      by (auto simp: parts mod_Suc split: if_splits)
    have ne: "(tl_head s + ?n - 1 - (i - 1)) mod ?n \<noteq> tl_head s" if "i \<noteq> 0"
      using ring_index [OF ok(2), of "i - 1"] that i' ok by (auto split: if_splits)
    show "latest ?s ! i = take ?n (?e # latest s) ! i"
    proof (cases i)
      case 0
      then show ?thesis using i idx ok by (simp add: latest_def parts(1) del: mod_less)
    next
      case (Suc j)
      then show ?thesis using i i' idx ne ok by (simp add: latest_def parts(1))
    qed
  qed
qed

text \<open>The other fields have no effect on the ring.\<close>

lemma ring_frame:
  assumes "tl_events s' = tl_events s" "tl_head s' = tl_head s" "tl_size s' = tl_size s"
  shows "ring_ok s' \<longleftrightarrow> ring_ok s" "latest s' = latest s"
  using assms by (simp_all add: ring_ok_def latest_def)

lemma events_frame [simp]:
  "tl_events (record_request_minute t s) = tl_events s" "tl_head (record_request_minute t s) = tl_head s"
  "tl_size (record_request_minute t s) = tl_size s"
  "tl_events (add_tenant_writes i n s) = tl_events s" "tl_head (add_tenant_writes i n s) = tl_head s"
  "tl_size (add_tenant_writes i n s) = tl_size s"
  "tl_events (add_tenant_searches i n s) = tl_events s" "tl_head (add_tenant_searches i n s) = tl_head s"
  "tl_size (add_tenant_searches i n s) = tl_size s"
  by (simp_all add: record_request_minute_def add_tenant_writes_def add_tenant_searches_def Let_def split: prod.split)

lemma batch_writes_frame:
  assumes "batch_writes b ws (n, k, t, s) = (n', k', t', s')"
  shows "tl_events s' = tl_events s \<and> tl_head s' = tl_head s \<and> tl_size s' = tl_size s \<and> tl_ring s' = tl_ring s \<and>
    tl_active s' = tl_active s \<and> tl_store_count s' = tl_store_count s \<and>
    tl_batch_store_count s' = tl_batch_store_count s \<and> tl_search_count s' = tl_search_count s"
  using assms
proof (induction ws arbitrary: n k t s)
  case (Cons w ws)
  then show ?case
    by (cases w) (auto simp: Let_def add_tenant_writes_def split: if_splits)
qed simp

text \<open>What a call adds to the log: its event.\<close>

definition logged_event :: "gotime \<Rightarrow> gotime \<Rightarrow> string \<Rightarrow> string \<Rightarrow> string \<Rightarrow> string \<Rightarrow> int \<Rightarrow> int \<Rightarrow> string \<Rightarrow> telemetry_event" where
  "logged_event reading t kind verb path tenant status latency detail =
     \<lparr>te_at = time_or reading (time_or reading t), te_type = kind, te_method = verb, te_path = path, te_tenant = tenant,
      te_status = status, te_latency_ms = milliseconds latency, te_detail = detail\<rparr>"

text \<open>The items that count in a batch: positive numbers of tenants that are not blank.\<close>

definition counted :: "(string \<times> int) list \<Rightarrow> (string \<times> int) list" where
  "counted ws = filter (\<lambda>(t, n). 0 < n \<and> t \<noteq> []) (map (\<lambda>(t, n). (trim_space t, n)) ws)"

fun call_events :: "telemetry_call \<Rightarrow> telemetry_event list" where
  "call_events RequestStarted = []"
| "call_events RequestFinished = []"
| "call_events (RecordRequest reading ob) =
     (if should_track_request_path (qo_path ob)
      then [logged_event reading (qo_at ob) ''request'' (trim_space (qo_method ob)) (trim_space (qo_path ob))
        (trim_space (qo_tenant ob)) (qo_status ob) (qo_latency ob) []] else [])"
| "call_events (RecordStore reading ob) =
     [logged_event reading (ob_at ob) ''store'' ''POST'' ''/v1/memory'' (trim_space (ob_tenant ob)) (ob_status ob) (ob_latency ob) []]"
| "call_events (RecordBatchStore reading ob) =
     (let ws = counted (bo_writes ob) in
      [logged_event reading (bo_at ob) ''batch_store'' ''POST'' ''/v1/memory/batch''
        (if length ws = 1 then fst (hd ws) else []) (bo_status ob) (bo_latency ob)
        (if is_success_status (bo_status ob) \<and> ws \<noteq> [] then ''items='' @ itoa (sum_list (map snd ws)) else [])])"
| "call_events (RecordSearch reading ob) =
     [logged_event reading (ob_at ob) ''search'' ''POST'' ''/v1/memory/search'' (trim_space (ob_tenant ob)) (ob_status ob) (ob_latency ob) []]"

lemma batch_writes_counted:
  assumes "batch_writes b ws (n, k, t, s) = (n', k', t', s')"
  shows "n' = n + sum_list (map snd (counted ws)) \<and> k' = k + length (counted ws) \<and>
    t' = (if counted ws = [] then t else fst (last (counted ws))) \<and>
    s' = (if b then fold (\<lambda>(i, m). add_tenant_writes i m) (counted ws) s else s)"
  using assms
proof (induction ws arbitrary: n k t s)
  case (Cons w ws)
  obtain raw m where w: "w = (raw, m)" by force
  show ?case
  proof (cases "m \<le> 0 \<or> trim_space raw = []")
    case True
    then have "counted (w # ws) = counted ws" by (auto simp: w counted_def)
    moreover have "batch_writes b ws (n, k, t, s) = (n', k', t', s')"
      using Cons.prems True w by (auto simp: Let_def)
    note Cons.IH [OF this]
    ultimately show ?thesis by (simp only:)
  next
    case False
    let ?s = "if b then add_tenant_writes (trim_space raw) m s else s"
    have c: "counted (w # ws) = (trim_space raw, m) # counted ws" using False w by (simp add: counted_def)
    have "batch_writes b ws (n + m, k + 1, trim_space raw, ?s) = (n', k', t', s')"
      using Cons.prems False w by (simp add: Let_def)
    from Cons.IH [OF this] c show ?thesis by auto
  qed
qed (simp add: counted_def)

lemma counted_pos: "counted ws \<noteq> [] \<Longrightarrow> 0 < sum_list (map snd (counted ws))"
proof (induction ws)
  case (Cons w ws)
  obtain t n where w: "w = (t, n)" by force
  show ?case
  proof (cases "0 < n \<and> trim_space t \<noteq> []")
    case True
    then have "counted (w # ws) = (trim_space t, n) # counted ws" by (simp add: w counted_def)
    with True Cons show ?thesis by (cases "counted ws = []") auto
  next
    case False
    then have "counted (w # ws) = counted ws" by (auto simp: w counted_def)
    with Cons show ?thesis by simp
  qed
qed (simp add: counted_def)

lemma tracked_path: "should_track_request_path p \<Longrightarrow> trim_space p \<noteq> []"
  by (auto simp: should_track_request_path_def has_prefix_def)

lemma tracked_slash: "\<not> should_track_request_path ''/''"
  by code_simp

lemma tracked_trim: "should_track_request_path (trim_space p) \<longleftrightarrow> should_track_request_path p"
  by (simp add: should_track_request_path_def str_norm)

lemma telemetry_step_ring:
  assumes "ring_ok s"
  shows "ring_ok (telemetry_step call s) \<and> length (tl_events (telemetry_step call s)) = length (tl_events s) \<and>
    latest (telemetry_step call s) = take (length (tl_events s)) (rev (call_events call) @ latest s)"
proof -
  have short: "take (length (tl_events s)) (latest s) = latest s"
    using assms by (simp add: latest_def ring_ok_def)
  have app: "ring_ok (append_event now e s') \<and> length (tl_events (append_event now e s')) = length (tl_events s) \<and>
      latest (append_event now e s') = take (length (tl_events s)) (e\<lparr>te_at := time_or now (te_at e)\<rparr> # latest s)"
    if "tl_events s' = tl_events s" "tl_head s' = tl_head s" "tl_size s' = tl_size s" for now e s'
    using append_event_ring [of s' now e] ring_frame [OF that] assms that(1)
    by (simp add: append_event_def Let_def)
  show ?thesis
  proof (cases call)
    case (RecordBatchStore reading ob)
    let ?b = "is_success_status (bo_status ob)"
    obtain n k t s1 where bw: "batch_writes ?b (bo_writes ob) (0, 0, [], s) = (n, k, t, s1)" by (metis prod_cases4)
    let ?ws = "counted (bo_writes ob)"
    let ?s2 = "if ?b then s1\<lparr>tl_batch_store_count := tl_batch_store_count s1 + 1\<rparr> else s1"
    have c: "n = sum_list (map snd ?ws)" "k = length ?ws" "t = (if ?ws = [] then [] else fst (last ?ws))"
      using batch_writes_counted [OF bw] by simp_all
    have one: "(if k \<noteq> 1 then [] else t) = (if length ?ws = 1 then fst (hd ?ws) else [])"
      unfolding c by (auto simp: last_conv_nth hd_conv_nth)
    have det: "(if (if \<not> ?b then 0 else n) > 0 then ''items='' @ itoa (if \<not> ?b then 0 else n) else []) =
        (if ?b \<and> ?ws \<noteq> [] then ''items='' @ itoa (sum_list (map snd ?ws)) else [])"
      using c(1) counted_pos [of "bo_writes ob"] by (cases "?ws = []") auto
    have fr: "tl_events ?s2 = tl_events s" "tl_head ?s2 = tl_head s" "tl_size ?s2 = tl_size s"
      using batch_writes_frame [OF bw] by simp_all
    have run: "telemetry_step call s = append_event reading \<lparr>te_at = time_or reading (bo_at ob), te_type = ''batch_store'',
        te_method = ''POST'', te_path = ''/v1/memory/batch'', te_tenant = (if length ?ws = 1 then fst (hd ?ws) else []),
        te_status = bo_status ob, te_latency_ms = milliseconds (bo_latency ob),
        te_detail = (if ?b \<and> ?ws \<noteq> [] then ''items='' @ itoa (sum_list (map snd ?ws)) else [])\<rparr> ?s2"
      unfolding RecordBatchStore telemetry_step.simps record_batch_store_def bw Let_def prod.case one det ..
    show ?thesis unfolding run using app [OF fr] by (simp add: RecordBatchStore logged_event_def Let_def)
  next
    case (RecordRequest reading ob)
    then show ?thesis
      using app [of "record_request_minute _ s"] tracked_path tracked_slash short assms
      by (cases "should_track_request_path (qo_path ob)")
        (simp_all add: record_request_def logged_event_def tracked_trim Let_def)
  next
    case (RecordStore reading ob)
    then show ?thesis
      using app [of s] app [of "add_tenant_writes _ 1 (s\<lparr>tl_store_count := _\<rparr>)"]
      by (cases "is_success_status (ob_status ob)") (simp_all add: record_store_def logged_event_def Let_def)
  next
    case (RecordSearch reading ob)
    then show ?thesis
      using app [of s] app [of "add_tenant_searches _ 1 (s\<lparr>tl_search_count := _\<rparr>)"]
      by (cases "is_success_status (ob_status ob)") (simp_all add: record_search_def logged_event_def Let_def)
  qed (use short assms in \<open>simp_all add: request_started_def request_finished_def ring_ok_def latest_def\<close>)
qed

definition run_events :: "telemetry_call list \<Rightarrow> telemetry_event list" where
  "run_events calls = concat (map call_events calls)"

lemma take_append_latest: "take n (es @ take n xs) = take n (es @ xs)"
  by (simp add: min_def)

lemma fold_steps_ring:
  assumes "ring_ok s"
  shows "ring_ok (fold telemetry_step calls s) \<and> length (tl_events (fold telemetry_step calls s)) = length (tl_events s) \<and>
    latest (fold telemetry_step calls s) = take (length (tl_events s)) (rev (run_events calls) @ latest s)"
  using assms
proof (induction calls arbitrary: s)
  case Nil
  then show ?case by (simp add: latest_def ring_ok_def run_events_def)
next
  case (Cons call calls)
  from telemetry_step_ring [OF Cons.prems, of call] Cons.IH [of "telemetry_step call s"]
  show ?case by (simp add: run_events_def take_append_latest del: take_append)
qed

lemma recent_is_latest: "recent_events limit s = take (nat (if limit \<le> 0 then 20 else limit)) (latest s)"
  by (auto simp: recent_events_def latest_def Let_def take_map min_def)

text \<open>C17 The event list of a snapshot is the log of everything that happened, the latest first, cut at the size of
  the buffer and at the number asked for (20 when that is not positive): whatever the calls are, an event
  that was recorded is shown unless as many later ones were, in the order in which they were recorded, with
  what was observed; the wrap-around of the ring never shows.\<close>

theorem telemetry_shows_latest_events:
  "sn_recent_events (snapshot_of now limit tenants (telemetry_run window buffer calls)) =
     take (nat (if limit \<le> 0 then 20 else limit)) (take (nat (if buffer \<le> 0 then 256 else buffer)) (rev (run_events calls)))"
proof -
  have "latest (telemetry_run window buffer calls) = take (nat (if buffer \<le> 0 then 256 else buffer)) (rev (run_events calls))"
    using fold_steps_ring [OF ring_new(1), of calls window buffer] ring_new(2) [of window buffer]
    by (simp add: telemetry_run_def new_telemetry_service_def)
  then show ?thesis by (simp add: snapshot_of_def recent_is_latest Let_def)
qed

section \<open>The ring of minutes\<close>

text \<open>The buckets after the minutes of a list (the latest first) were recorded.\<close>

definition bucket :: "nat \<Rightarrow> int list \<Rightarrow> nat \<Rightarrow> int \<times> int" where
  "bucket w ms i = (case find (\<lambda>m. nat (m mod int w) = i) ms of
     None \<Rightarrow> (0, 0) | Some m \<Rightarrow> (m, int (count_list ms m)))"

definition minutes_ok :: "int list \<Rightarrow> telemetry \<Rightarrow> bool" where
  "minutes_ok ms s \<longleftrightarrow> tl_ring s = map (bucket (length (tl_ring s)) ms) [0..<length (tl_ring s)]"

lemma find_latest:
  fixes ms :: "int list"
  assumes "sorted_wrt (\<ge>) ms" "m \<in> set ms" "P m"
  shows "\<exists>m'. find P ms = Some m' \<and> m \<le> m'"
  using assms by (induction ms) auto

lemma find_member: "find P ms = Some m \<Longrightarrow> m \<in> set ms \<and> P m"
  by (auto simp: find_Some_iff)

lemma bucket_next:
  assumes "sorted_wrt (\<ge>) (m # ms)" "nat (m mod int w) = i" "bucket w ms i = (m0, n0)"
  shows "bucket w (m # ms) i = (if m0 \<noteq> m then (m, 1) else (m0, n0 + 1))"
proof -
  have new: "bucket w (m # ms) i = (m, int (count_list ms m) + 1)" using assms(2) by (simp add: bucket_def)
  show ?thesis
  proof (cases "m \<in> set ms")
    case True
    then obtain m' where f: "find (\<lambda>m. nat (m mod int w) = i) ms = Some m'" "m \<le> m'"
      using find_latest [of ms m "\<lambda>m. nat (m mod int w) = i"] assms(1,2) by auto
    then have "m' = m" using assms(1) find_member [OF f(1)] by force
    with f assms(3) new show ?thesis by (auto simp: bucket_def)
  next
    case False
    then have c: "count_list ms m = 0" by (simp add: count_list_0_iff)
    show ?thesis
    proof (cases "find (\<lambda>m. nat (m mod int w) = i) ms")
      case None
      with assms(3) new c show ?thesis by (auto simp: bucket_def)
    next
      case (Some m')
      with False find_member [OF Some] assms(3) new c show ?thesis by (auto simp: bucket_def)
    qed
  qed
qed

lemma record_minute_ok:
  assumes "minutes_ok ms s" "sorted_wrt (\<ge>) (minute_of t # ms)" "0 < length (tl_ring s)"
  shows "minutes_ok (minute_of t # ms) (record_request_minute t s) \<and>
    length (tl_ring (record_request_minute t s)) = length (tl_ring s)"
proof -
  let ?w = "length (tl_ring s)" and ?m = "minute_of t"
  let ?i = "nat (?m mod int ?w)"
  have i: "?i < ?w" using assms(3) by (simp add: nat_less_iff)
  have old: "tl_ring s ! k = bucket ?w ms k" if "k < ?w" for k
    using assms(1) that unfolding minutes_ok_def by (metis nth_map_upt add_0 diff_zero)
  obtain m0 n0 where b: "bucket ?w ms ?i = (m0, n0)" by force
  have ring: "tl_ring (record_request_minute t s) = (tl_ring s)[?i := bucket ?w (?m # ms) ?i]"
    using bucket_next [OF assms(2) refl b] assms(3) old [OF i] b
    by (simp add: record_request_minute_def Let_def)
  have other: "bucket ?w (?m # ms) k = bucket ?w ms k" if "k \<noteq> ?i" for k
  proof -
    have "count_list (?m # ms) m' = count_list ms m'" if "find (\<lambda>m. nat (m mod int ?w) = k) ms = Some m'" for m'
      using find_member [OF that] \<open>k \<noteq> ?i\<close> by auto
    with that show ?thesis by (auto simp: bucket_def split: option.split)
  qed
  show ?thesis
    using i old other by (auto simp: minutes_ok_def ring nth_list_update intro!: nth_equalityI)
qed

fun call_minutes :: "telemetry_call \<Rightarrow> int list" where
  "call_minutes (RecordRequest reading ob) =
     (if should_track_request_path (qo_path ob) then [minute_of (time_or reading (qo_at ob))] else [])"
| "call_minutes _ = []"

text \<open>The minutes of the requests that count, in the order of the calls.\<close>

definition run_minutes :: "telemetry_call list \<Rightarrow> int list" where
  "run_minutes calls = concat (map call_minutes calls)"

lemma ring_frame_minutes [simp]:
  "tl_ring (append_event now e s) = tl_ring s" "tl_ring (add_tenant_writes i n s) = tl_ring s"
  "tl_ring (add_tenant_searches i n s) = tl_ring s"
  by (simp_all add: append_event_def add_tenant_writes_def add_tenant_searches_def Let_def)

lemma minutes_ok_append [simp]: "minutes_ok ms (append_event now e s) \<longleftrightarrow> minutes_ok ms s"
  by (simp add: minutes_ok_def)

lemma telemetry_step_minutes:
  assumes "minutes_ok ms s" "sorted_wrt (\<ge>) (rev (call_minutes call) @ ms)" "0 < length (tl_ring s)"
  shows "minutes_ok (rev (call_minutes call) @ ms) (telemetry_step call s) \<and>
    length (tl_ring (telemetry_step call s)) = length (tl_ring s)"
proof -
  have same: "minutes_ok ms s'" if "tl_ring s' = tl_ring s" for s' :: telemetry
    using assms(1) that by (simp add: minutes_ok_def)
  show ?thesis
  proof (cases call)
    case (RecordRequest reading ob)
    show ?thesis
    proof (cases "should_track_request_path (qo_path ob)")
      case True
      with assms(2) RecordRequest
      have "sorted_wrt (\<ge>) (minute_of (time_or reading (qo_at ob)) # ms)" by simp
      from record_minute_ok [OF assms(1) this assms(3)] True RecordRequest tracked_path [OF True] show ?thesis
        by (simp add: record_request_def tracked_trim Let_def)
    next
      case False
      with RecordRequest tracked_slash show ?thesis
        using assms(1) by (simp add: record_request_def tracked_trim Let_def)
    qed
  next
    case (RecordBatchStore reading ob)
    obtain n k t s1 where bw: "batch_writes (is_success_status (bo_status ob)) (bo_writes ob) (0, 0, [], s) = (n, k, t, s1)"
      by (metis prod_cases4)
    from batch_writes_frame [OF bw] have "tl_ring (telemetry_step call s) = tl_ring s"
      by (simp add: RecordBatchStore record_batch_store_def bw Let_def)
    then show ?thesis by (simp add: RecordBatchStore same)
  qed (auto simp: request_started_def request_finished_def record_store_def record_search_def Let_def intro!: same)
qed

lemma fold_steps_minutes:
  assumes "minutes_ok ms s" "sorted_wrt (\<ge>) (rev (run_minutes calls) @ ms)" "0 < length (tl_ring s)"
  shows "minutes_ok (rev (run_minutes calls) @ ms) (fold telemetry_step calls s) \<and>
    length (tl_ring (fold telemetry_step calls s)) = length (tl_ring s)"
  using assms
proof (induction calls arbitrary: s ms)
  case (Cons call calls)
  have "sorted_wrt (\<ge>) (rev (call_minutes call) @ ms)"
    using Cons.prems(2) by (simp add: run_minutes_def sorted_wrt_append)
  from telemetry_step_minutes [OF Cons.prems(1) this Cons.prems(3)] Cons.prems
    Cons.IH [of "rev (call_minutes call) @ ms" "telemetry_step call s"]
  show ?case by (simp add: run_minutes_def)
qed (simp add: run_minutes_def)

lemma minutes_new: "minutes_ok [] (new_telemetry_service w n)"
proof -
  have "bucket k [] = (\<lambda>_. (0, 0))" for k by (simp add: fun_eq_iff bucket_def)
  then show ?thesis by (simp add: minutes_ok_def new_telemetry_service_def map_replicate_const)
qed

lemma bucket_bar:
  assumes "sorted ms" "\<forall>x \<in> set ms. x \<le> c" "0 < w" "c - int w < m" "m \<le> c"
  shows "(case bucket w (rev ms) (nat (m mod int w)) of (m', n) \<Rightarrow> (m, if m' = m then n else 0)) = (m, int (count_list ms m))"
proof (cases "find (\<lambda>x. nat (x mod int w) = nat (m mod int w)) (rev ms)")
  case None
  then have "m \<notin> set ms" by (auto simp: find_None_iff)
  then have "count_list ms m = 0" by (rule count_notin)
  with None show ?thesis by (simp add: bucket_def)
next
  case (Some x)
  from find_member [OF Some] have x: "x \<in> set ms" "nat (x mod int w) = nat (m mod int w)" by simp_all
  have "x = m" if mem: "m \<in> set ms"
  proof -
    have "sorted_wrt (\<ge>) (rev ms)" using assms(1) by (simp add: sorted_wrt_rev)
    from find_latest [OF this, of m "\<lambda>x. nat (x mod int w) = nat (m mod int w)"] mem Some have "m \<le> x" by auto
    moreover have "x < m + int w" using assms(2,4) x(1) by fastforce
    moreover have "(x - m) mod int w = 0"
    proof -
      have "0 \<le> x mod int w" "0 \<le> m mod int w" using assms(3) by simp_all
      with x(2) have "x mod int w = m mod int w" by linarith
      then show ?thesis by (simp add: mod_eq_dvd_iff mod_eq_0_iff_dvd)
    qed
    ultimately show ?thesis by (simp add: mod_pos_pos_trivial)
  qed
  then have "count_list ms m = 0" if "x \<noteq> m" using that count_notin [of m ms] by blast
  then show ?thesis using Some x(1) by (cases "x = m") (auto simp: bucket_def)
qed

text \<open>C18 When requests are recorded in the order of their times, none of them after the snapshot, the chart of a
  snapshot has a bar for each minute of the window, the last one for the present minute, and each bar counts
  exactly the requests to the API in that minute, however often the ring has been reused.\<close>

theorem telemetry_counts_minutes:
  assumes "sorted (run_minutes calls)" and "\<forall>m \<in> set (run_minutes calls). 0 \<le> m \<and> m \<le> minute_of now"
  shows "sn_requests_per_minute (snapshot_of now limit tenants (telemetry_run window buffer calls)) =
    map (\<lambda>m. (m, int (count_list (run_minutes calls) m)))
      [minute_of now - (if window \<le> 0 then 30 else window) + 1..minute_of now]"
proof -
  let ?s = "telemetry_run window buffer calls" and ?ms = "rev (run_minutes calls)"
  define w where "w = nat (if window \<le> 0 then 30 else window)"
  have w: "int w = (if window \<le> 0 then 30 else window)" "0 < w" by (simp_all add: w_def)
  have "sorted_wrt (\<ge>) (?ms @ [])" using assms(1) by (simp add: sorted_wrt_rev)
  from fold_steps_minutes [OF minutes_new this]
  have ok: "minutes_ok ?ms ?s" "length (tl_ring ?s) = w"
    by (simp_all add: telemetry_run_def new_telemetry_service_def w_def)
  have ring: "tl_ring ?s ! i = bucket w ?ms i" if "i < w" for i
    using ok that unfolding minutes_ok_def by (metis nth_map_upt add_0 diff_zero)
  have bar: "(case tl_ring ?s ! nat (m mod int w) of (m', n) \<Rightarrow> (m, if m' = m then n else 0)) =
      (m, int (count_list (run_minutes calls) m))" if "minute_of now - int w < m" "m \<le> minute_of now" for m
  proof -
    have "nat (m mod int w) < w" using w(2) by (simp add: nat_less_iff)
    then show ?thesis
      using bucket_bar [OF assms(1), of "minute_of now" w m] assms(2) that w(2) by (simp add: ring)
  qed
  show ?thesis
    unfolding w(1) [symmetric]
    using ok(2) bar by (auto simp: snapshot_of_def requests_per_minute_def Let_def)
qed

theorem telemetry_counts_minutes_witness:
  "\<exists>ob. sn_requests_per_minute (snapshot_of (200 * second) 0 0 (telemetry_run 3 0 [RecordRequest (130 * second) ob])) =
    [(1, 0), (2, 1), (3, 0)]"
proof -
  define ob where "ob = \<lparr>qo_at = zero_time, qo_method = ''GET'', qo_path = ''/v1/x'', qo_tenant = [], qo_status = 200, qo_latency = 0\<rparr>"
  define now where "now = 200 * second"
  define calls where "calls = [RecordRequest (130 * second) ob]"
  have m: "run_minutes calls = [2]" unfolding calls_def ob_def by code_simp
  have n: "minute_of now = 3" unfolding now_def by code_simp
  have u: "[1..3::int] = [1, 2, 3]" by (simp add: upto_rec1)
  have "sn_requests_per_minute (snapshot_of now 0 0 (telemetry_run 3 0 calls)) = [(1, 0), (2, 1), (3, 0)]"
    using telemetry_counts_minutes [of calls now 0 0 3 0] by (simp add: m n u)
  then show ?thesis unfolding calls_def now_def by blast
qed

section \<open>Totals\<close>

text \<open>What a call adds to the writes and searches of a tenant.\<close>

fun call_writes :: "string \<Rightarrow> telemetry_call \<Rightarrow> int" where
  "call_writes t (RecordStore reading ob) =
     (if is_success_status (ob_status ob) \<and> trim_space (ob_tenant ob) = t then 1 else 0)"
| "call_writes t (RecordBatchStore reading ob) =
     (if is_success_status (bo_status ob) then sum_list (map snd (filter (\<lambda>(u, n). u = t) (counted (bo_writes ob)))) else 0)"
| "call_writes t call = 0"

fun call_searches :: "string \<Rightarrow> telemetry_call \<Rightarrow> int" where
  "call_searches t (RecordSearch reading ob) =
     (if is_success_status (ob_status ob) \<and> trim_space (ob_tenant ob) = t then 1 else 0)"
| "call_searches t call = 0"

fun stored_ok :: "telemetry_call \<Rightarrow> bool" where
  "stored_ok (RecordStore reading ob) = is_success_status (ob_status ob)"
| "stored_ok call = False"

fun batch_ok :: "telemetry_call \<Rightarrow> bool" where
  "batch_ok (RecordBatchStore reading ob) = is_success_status (bo_status ob)"
| "batch_ok call = False"

fun searched_ok :: "telemetry_call \<Rightarrow> bool" where
  "searched_ok (RecordSearch reading ob) = is_success_status (ob_status ob)"
| "searched_ok call = False"

lemma counts_put: "counts_for t (put_counts u c cs) = (if t = u then c else counts_for t cs)"
  by (induction u c cs rule: put_counts.induct) (auto simp: counts_for_def)

lemma put_counts_names: "fst ` set (put_counts u c cs) = insert u (fst ` set cs)"
  by (induction u c cs rule: put_counts.induct) auto

lemma put_counts_distinct: "distinct (map fst cs) \<Longrightarrow> distinct (map fst (put_counts u c cs))"
proof (induction u c cs rule: put_counts.induct)
  case (2 t c u d cs)
  then show ?case using put_counts_names [of t c cs] by auto
qed simp

definition counts_of :: "string \<Rightarrow> telemetry \<Rightarrow> int \<times> int" where
  "counts_of t s = (let c = counts_for t (tl_tenants s) in (tc_writes c, tc_searches c))"

definition totals :: "telemetry \<Rightarrow> int \<times> int \<times> int \<times> int" where
  "totals s = (tl_active s, tl_store_count s, tl_batch_store_count s, tl_search_count s)"

lemma totals_frame [simp]:
  "totals (append_event now e s) = totals s" "tl_tenants (append_event now e s) = tl_tenants s"
  "totals (record_request_minute now s) = totals s" "tl_tenants (record_request_minute now s) = tl_tenants s"
  "totals (add_tenant_writes t n s) = totals s" "totals (add_tenant_searches t n s) = totals s"
  by (simp_all add: append_event_def record_request_minute_def add_tenant_writes_def add_tenant_searches_def
      totals_def Let_def split: prod.splits)

lemma counts_frame [simp]:
  "counts_of t (append_event now e s) = counts_of t s" "counts_of t (record_request_minute now s) = counts_of t s"
  by (simp_all add: counts_of_def)

lemma counts_of_writes [simp]:
  "t \<noteq> [] \<Longrightarrow> counts_of t (add_tenant_writes u n s) =
    (fst (counts_of t s) + (if u = t \<and> 0 < n then n else 0), snd (counts_of t s))"
  by (auto simp: counts_of_def add_tenant_writes_def counts_put Let_def)

lemma counts_of_searches [simp]:
  "t \<noteq> [] \<Longrightarrow> counts_of t (add_tenant_searches u n s) =
    (fst (counts_of t s), snd (counts_of t s) + (if u = t \<and> 0 < n then n else 0))"
  by (auto simp: counts_of_def add_tenant_searches_def counts_put Let_def)

lemma counts_update [simp]:
  "counts_of t (s\<lparr>tl_store_count := n\<rparr>) = counts_of t s" "counts_of t (s\<lparr>tl_batch_store_count := n\<rparr>) = counts_of t s"
  "counts_of t (s\<lparr>tl_search_count := n\<rparr>) = counts_of t s" "counts_of t (s\<lparr>tl_active := n\<rparr>) = counts_of t s"
  by (simp_all add: counts_of_def)

lemma fold_writes_counts:
  assumes "t \<noteq> []" "\<forall>x \<in> set xs. 0 < snd x"
  shows "counts_of t (fold (\<lambda>(i, m). add_tenant_writes i m) xs s) =
    (fst (counts_of t s) + sum_list (map snd (filter (\<lambda>(u, n). u = t) xs)), snd (counts_of t s))"
  using assms(2)
proof (induction xs arbitrary: s)
  case (Cons x xs)
  then show ?case using assms(1) by (cases x) (auto split: prod.splits)
qed simp

lemma counted_positive: "\<forall>x \<in> set (counted ws). 0 < snd x"
  by (auto simp: counted_def)

lemma telemetry_step_counts:
  "t \<noteq> [] \<Longrightarrow> counts_of t (telemetry_step call s) =
    (fst (counts_of t s) + call_writes t call, snd (counts_of t s) + call_searches t call)"
proof (cases call)
  case (RecordBatchStore reading ob)
  assume t: "t \<noteq> []"
  obtain n k i s' where b: "batch_writes (is_success_status (bo_status ob)) (bo_writes ob) (0, 0, [], s) = (n, k, i, s')"
    using prod_cases4 by blast
  from batch_writes_counted [OF b] fold_writes_counts [OF t counted_positive] b RecordBatchStore
  show ?thesis by (auto simp: record_batch_store_def Let_def)
qed (auto simp: record_request_def record_store_def record_search_def request_started_def request_finished_def Let_def)

lemma telemetry_step_totals:
  "totals (telemetry_step call s) = (case totals s of (a, b, c, d) \<Rightarrow>
    (a + of_bool (call = RequestStarted) - of_bool (call = RequestFinished), b + of_bool (stored_ok call),
     c + of_bool (batch_ok call), d + of_bool (searched_ok call)))"
proof (cases call)
  case (RecordBatchStore reading ob)
  obtain n k i s' where b: "batch_writes (is_success_status (bo_status ob)) (bo_writes ob) (0, 0, [], s) = (n, k, i, s')"
    using prod_cases4 by blast
  from batch_writes_frame [OF b] have "totals s' = totals s" by (simp add: totals_def)
  with b RecordBatchStore show ?thesis by (auto simp: record_batch_store_def totals_def Let_def append_event_def)
qed (auto simp: record_request_def record_store_def record_search_def request_started_def request_finished_def Let_def
    totals_def append_event_def record_request_minute_def add_tenant_writes_def add_tenant_searches_def split: prod.splits)

text \<open>The tenants that a call counts.\<close>

fun call_tenants :: "telemetry_call \<Rightarrow> string list" where
  "call_tenants (RecordStore reading ob) =
     (if is_success_status (ob_status ob) \<and> trim_space (ob_tenant ob) \<noteq> [] then [trim_space (ob_tenant ob)] else [])"
| "call_tenants (RecordBatchStore reading ob) =
     (if is_success_status (bo_status ob) then map fst (counted (bo_writes ob)) else [])"
| "call_tenants (RecordSearch reading ob) =
     (if is_success_status (ob_status ob) \<and> trim_space (ob_tenant ob) \<noteq> [] then [trim_space (ob_tenant ob)] else [])"
| "call_tenants call = []"

definition names_ok :: "string set \<Rightarrow> telemetry \<Rightarrow> bool" where
  "names_ok ts s \<longleftrightarrow> distinct (map fst (tl_tenants s)) \<and> fst ` set (tl_tenants s) = ts \<and> [] \<notin> ts"

lemma names_frame [simp]:
  "names_ok ts (append_event now e s) \<longleftrightarrow> names_ok ts s" "names_ok ts (record_request_minute now s) \<longleftrightarrow> names_ok ts s"
  "names_ok ts (s\<lparr>tl_store_count := n\<rparr>) \<longleftrightarrow> names_ok ts s" "names_ok ts (s\<lparr>tl_batch_store_count := n\<rparr>) \<longleftrightarrow> names_ok ts s"
  "names_ok ts (s\<lparr>tl_search_count := n\<rparr>) \<longleftrightarrow> names_ok ts s" "names_ok ts (s\<lparr>tl_active := n\<rparr>) \<longleftrightarrow> names_ok ts s"
  by (simp_all add: names_ok_def)

lemma names_add:
  assumes "names_ok ts s" "u \<noteq> []" "0 < n"
  shows "names_ok (insert u ts) (add_tenant_writes u n s)" "names_ok (insert u ts) (add_tenant_searches u n s)"
  using assms put_counts_distinct put_counts_names
  by (simp_all add: names_ok_def add_tenant_writes_def add_tenant_searches_def Let_def)

lemma names_add_blank [simp]: "add_tenant_writes [] n s = s" "add_tenant_searches [] n s = s"
  by (simp_all add: add_tenant_writes_def add_tenant_searches_def)

lemma names_fold:
  assumes "\<forall>x \<in> set xs. 0 < snd x \<and> fst x \<noteq> []" "names_ok ts s"
  shows "names_ok (fst ` set xs \<union> ts) (fold (\<lambda>(i, m). add_tenant_writes i m) xs s)"
  using assms
proof (induction xs arbitrary: ts s)
  case (Cons x xs)
  obtain i m where x: "x = (i, m)" by force
  from Cons.prems x names_add(1) have "names_ok (insert i ts) (add_tenant_writes i m s)" by auto
  from Cons.IH [OF _ this] Cons.prems x show ?case by simp
qed simp

lemma telemetry_step_names:
  assumes "names_ok ts s"
  shows "names_ok (set (call_tenants call) \<union> ts) (telemetry_step call s)"
proof (cases call)
  case (RecordBatchStore reading ob)
  obtain n k i s' where b: "batch_writes (is_success_status (bo_status ob)) (bo_writes ob) (0, 0, [], s) = (n, k, i, s')"
    using prod_cases4 by blast
  have "\<forall>x \<in> set (counted (bo_writes ob)). 0 < snd x \<and> fst x \<noteq> []" by (auto simp: counted_def)
  from names_fold [OF this assms] batch_writes_counted [OF b] assms b RecordBatchStore
  show ?thesis by (auto simp: record_batch_store_def Let_def)
next
  case (RecordStore reading ob)
  with assms names_add(1) [of ts "s\<lparr>tl_store_count := tl_store_count s + 1\<rparr>" "trim_space (ob_tenant ob)" 1]
  show ?thesis by (cases "trim_space (ob_tenant ob) = []") (simp_all add: record_store_def Let_def)
next
  case (RecordSearch reading ob)
  with assms names_add(2) [of ts "s\<lparr>tl_search_count := tl_search_count s + 1\<rparr>" "trim_space (ob_tenant ob)" 1]
  show ?thesis by (cases "trim_space (ob_tenant ob) = []") (simp_all add: record_search_def Let_def)
qed (use assms in \<open>auto simp: record_request_def request_started_def request_finished_def Let_def\<close>)

lemma fold_steps_counts:
  assumes "t \<noteq> []"
  shows "counts_of t (fold telemetry_step calls s) =
    (fst (counts_of t s) + sum_list (map (call_writes t) calls), snd (counts_of t s) + sum_list (map (call_searches t) calls))"
  by (induction calls arbitrary: s) (simp_all add: telemetry_step_counts [OF assms])

lemma fold_steps_names:
  "names_ok ts s \<Longrightarrow> names_ok (set (concat (map call_tenants calls)) \<union> ts) (fold telemetry_step calls s)"
proof (induction calls arbitrary: ts s)
  case (Cons call calls)
  from Cons.IH [OF telemetry_step_names [OF Cons.prems], of call] show ?case
    by (simp add: Un_assoc Un_left_commute Un_commute)
qed simp

lemma fold_steps_totals:
  "totals (fold telemetry_step calls s) = (case totals s of (a, b, c, d) \<Rightarrow>
    (a + sum_list (map (\<lambda>x. of_bool (x = RequestStarted) - of_bool (x = RequestFinished)) calls),
     b + int (length (filter stored_ok calls)), c + int (length (filter batch_ok calls)),
     d + int (length (filter searched_ok calls))))"
  by (induction calls arbitrary: s) (auto simp: telemetry_step_totals split: prod.splits)

text \<open>The statistics of the tenants, from the calls alone.\<close>

definition tenant_totals :: "telemetry_call list \<Rightarrow> tenant_stat list" where
  "tenant_totals calls = map (\<lambda>t. \<lparr>tt_tenant = t, tt_writes = sum_list (map (call_writes t) calls),
     tt_searches = sum_list (map (call_searches t) calls)\<rparr>) (remdups (concat (map call_tenants calls)))"

lemma run_tenant_stats:
  "mset (map (\<lambda>(t, c). \<lparr>tt_tenant = t, tt_writes = tc_writes c, tt_searches = tc_searches c\<rparr>)
    (tl_tenants (telemetry_run window buffer calls))) = mset (tenant_totals calls)"
proof -
  let ?s = "telemetry_run window buffer calls" and ?f = "\<lambda>t. \<lparr>tt_tenant = t, tt_writes = sum_list (map (call_writes t) calls),
     tt_searches = sum_list (map (call_searches t) calls)\<rparr>"
  have "names_ok {} (new_telemetry_service window buffer)" by (simp add: names_ok_def new_telemetry_service_def)
  from fold_steps_names [OF this, of calls]
  have names: "names_ok (set (concat (map call_tenants calls))) ?s" by (simp add: telemetry_run_def)
  then have m: "mset (map fst (tl_tenants ?s)) = mset (remdups (concat (map call_tenants calls)))"
    by (intro set_eq_iff_mset_eq_distinct [THEN iffD1]) (auto simp: names_ok_def)
  have "(\<lambda>(t, c). \<lparr>tt_tenant = t, tt_writes = tc_writes c, tt_searches = tc_searches c\<rparr>) x = (?f \<circ> fst) x"
    if "x \<in> set (tl_tenants ?s)" for x
  proof -
    obtain t c where x: "x = (t, c)" by force
    with that names have "t \<noteq> []" "map_of (tl_tenants ?s) t = Some c" by (force simp: names_ok_def)+
    moreover have "counts_of t (new_telemetry_service window buffer) = (0, 0)"
      by (simp add: counts_of_def counts_for_def new_telemetry_service_def)
    ultimately have "(tc_writes c, tc_searches c) =
        (sum_list (map (call_writes t) calls), sum_list (map (call_searches t) calls))"
      using fold_steps_counts [of t calls "new_telemetry_service window buffer"]
      by (simp add: telemetry_run_def counts_of_def counts_for_def)
    with x show ?thesis by simp
  qed
  then have "mset (map (\<lambda>(t, c). \<lparr>tt_tenant = t, tt_writes = tc_writes c, tt_searches = tc_searches c\<rparr>) (tl_tenants ?s)) =
    mset (map (?f \<circ> fst) (tl_tenants ?s))" by (intro arg_cong [where f = mset] map_cong [OF refl])
  also have "mset (map (?f \<circ> fst) (tl_tenants ?s)) = image_mset ?f (mset (map fst (tl_tenants ?s)))"
    by (simp add: multiset.map_comp)
  finally show ?thesis unfolding m by (simp only: tenant_totals_def mset_map)
qed

lemma sort_stats_unique:
  assumes "mset xs = mset ys" "inj_on f (set ys)"
  shows "sort_key f xs = sort_key f ys"
  using assms by (intro sort_key_inj_key_eq) (simp_all flip: set_mset_mset)

lemma run_totals:
  "totals (telemetry_run window buffer calls) =
    (int (count_list calls RequestStarted) - int (count_list calls RequestFinished),
     int (length (filter stored_ok calls)), int (length (filter batch_ok calls)), int (length (filter searched_ok calls)))"
proof -
  have "sum_list (map (\<lambda>x. of_bool (x = RequestStarted) - of_bool (x = RequestFinished)) calls) =
      int (count_list calls RequestStarted) - int (count_list calls RequestFinished)"
    by (induction calls) auto
  then show ?thesis by (simp add: telemetry_run_def fold_steps_totals) (simp add: totals_def new_telemetry_service_def)
qed

text \<open>The numbers of a snapshot are those of the calls, whatever their order: the active requests are those
  started and not finished, the three counters are the successful observations of their kinds, and the two lists of
  tenants are the first of the tenants ordered by their writes, or by their searches, then by the other number and by
  the name: blank tenants and rejected requests count nowhere, and the order does not depend on the iteration of the
  map.\<close>

theorem telemetry_totals:
  "let sn = snapshot_of now limit k (telemetry_run window buffer calls); n = nat (if k \<le> 0 then 5 else k) in
    sn_active_requests sn = int (count_list calls RequestStarted) - int (count_list calls RequestFinished) \<and>
    sn_store_count sn = int (length (filter stored_ok calls)) \<and>
    sn_batch_store_count sn = int (length (filter batch_ok calls)) \<and>
    sn_search_count sn = int (length (filter searched_ok calls)) \<and>
    sn_top_by_writes sn =
      take n (sort_key (\<lambda>x. (- tt_writes x, - tt_searches x, tt_tenant x)) (tenant_totals calls)) \<and>
    sn_top_by_searches sn =
      take n (sort_key (\<lambda>x. (- tt_searches x, - tt_writes x, tt_tenant x)) (tenant_totals calls))"
proof -
  have i: "inj_on (\<lambda>x. (- tt_writes x, - tt_searches x, tt_tenant x)) (set (tenant_totals calls))"
    "inj_on (\<lambda>x. (- tt_searches x, - tt_writes x, tt_tenant x)) (set (tenant_totals calls))"
    by (auto simp: inj_on_def tenant_totals_def)
  show ?thesis
    using run_totals [of window buffer calls] sort_stats_unique [OF run_tenant_stats i(1)] sort_stats_unique [OF run_tenant_stats i(2)]
    by (simp add: snapshot_of_def top_tenants_def totals_def Let_def)
qed

end
