(* ===== verification/ApiTelemetry.thy ===== *)
theory ApiTelemetry
  imports ApiLaws TelemetryLaws
begin

text \<open>
  The telemetry of the HTTP interface as the interface uses it: the middleware around a request
  (\<open>api/middleware/telemetry.go\<close>) and what the handlers for storing and searching record when they return
  (\<open>api/handlers/memory.go\<close>). The observed handlers are the handlers of Api with the status they record at each of
  their returns; a run of requests is served one after the other. The theorem: observing a request does not change its
  answer, and the numbers of the telemetry are those of the answers that were given.
\<close>

text \<open>The clock readings of a request: when the handler records, when the request is recorded, and the two latencies.\<close>

record timing =
  tm_recorded :: gotime
  tm_latency :: int
  tm_finished :: gotime
  tm_total_latency :: int

section \<open>What a handler records\<close>

fun count_write :: "string \<Rightarrow> (string \<times> int) list \<Rightarrow> (string \<times> int) list" where
  "count_write t [] = [(t, 1)]"
| "count_write t ((u, n) # ws) = (if u = t then (u, n + 1) # ws else (u, n) # count_write t ws)"

text \<open>The map of the writes by tenant, in an order in which it may be iterated.\<close>

definition count_tenant_writes :: "store_input list \<Rightarrow> (string \<times> int) list" where
  "count_tenant_writes inputs =
     fold (\<lambda>inp ws. let t = trim_space (si_tenant inp) in if t = [] then ws else count_write t ws) inputs []"

fun put_write :: "string \<Rightarrow> int \<Rightarrow> (string \<times> int) list \<Rightarrow> (string \<times> int) list" where
  "put_write t n [] = [(t, n)]"
| "put_write t n ((u, m) # ws) = (if u = t then (t, n) # ws else (u, m) # put_write t n ws)"

definition record_store_telemetry :: "timing \<Rightarrow> string \<Rightarrow> nat \<Rightarrow> telemetry_call" where
  "record_store_telemetry tm t status = RecordStore (tm_recorded tm)
     \<lparr>ob_at = tm_recorded tm, ob_tenant = trim_space t, ob_status = int status, ob_latency = tm_latency tm\<rparr>"

definition record_batch_store_telemetry :: "timing \<Rightarrow> (string \<times> int) list \<Rightarrow> nat \<Rightarrow> telemetry_call" where
  "record_batch_store_telemetry tm writes status = RecordBatchStore (tm_recorded tm)
     \<lparr>bo_at = tm_recorded tm,
      bo_writes = fold (\<lambda>(raw, n) ws. let t = trim_space raw in if t = [] \<or> n \<le> 0 then ws else put_write t n ws) writes [],
      bo_status = int status, bo_latency = tm_latency tm\<rparr>"

definition record_search_telemetry :: "timing \<Rightarrow> string \<Rightarrow> nat \<Rightarrow> telemetry_call" where
  "record_search_telemetry tm t status = RecordSearch (tm_recorded tm)
     \<lparr>ob_at = tm_recorded tm, ob_tenant = trim_space t, ob_status = int status, ob_latency = tm_latency tm\<rparr>"

text \<open>An observed handler returns, after the answer, the tenant it sets for the middleware, \<open>[]\<close> for none, and what it
  records.\<close>

type_synonym observed =
  "query_cache option \<Rightarrow> db_world \<Rightarrow> ((response \<times> query_cache option) \<times> db_world) \<times> string \<times> telemetry_call list"

definition unobserved :: "handler \<Rightarrow> observed" where
  "unobserved m c w = (m c w, [], [])"

definition set_telemetry_tenant :: "string \<Rightarrow> string" where
  "set_telemetry_tenant t = trim_space t"

text \<open>Call the service: the status recorded is that of the error, or the given one.\<close>

definition observed_answer ::
  "(err \<Rightarrow> string) \<Rightarrow> 'a search_act \<Rightarrow> ('a \<Rightarrow> response) \<Rightarrow> nat \<Rightarrow> string \<Rightarrow> (nat \<Rightarrow> telemetry_call) \<Rightarrow> observed" where
  "observed_answer txt m k ok t rec c w =
     (case m c w of ((r, c1), w1) \<Rightarrow>
        ((((case r of Inl e \<Rightarrow> write_error txt e | Inr x \<Rightarrow> k x), c1), w1), t,
         [rec (case r of Inl e \<Rightarrow> status_for_error txt e | Inr _ \<Rightarrow> ok)]))"

definition observe_store :: "timing \<Rightarrow> memory_handler \<Rightarrow> request_context \<Rightarrow> store_memory_request option \<Rightarrow> observed" where
  "observe_store tm h gc b c w =
     (let txt = error_text h in
      case bind_store_input gc b of
        Inl e \<Rightarrow> (respond (write_bind_error txt e) c w, [], [record_store_telemetry tm [] (status_for_bind_error txt e)])
      | Inr inp \<Rightarrow> observed_answer txt (on_db (service_store (mh_service h) inp))
          (\<lambda>m. Response 201 (StoredBody (m_id m) (m_created_at m))) 201
          (set_telemetry_tenant (trim_space (si_tenant inp)))
          (record_store_telemetry tm (trim_space (si_tenant inp))) c w)"

definition observe_store_batch ::
  "timing \<Rightarrow> memory_handler \<Rightarrow> request_context \<Rightarrow> store_memory_request list option \<Rightarrow> observed" where
  "observe_store_batch tm h gc b c w =
     (let txt = error_text h in
      case bind_store_batch_inputs gc b of
        Inl e \<Rightarrow> (respond (write_bind_error txt e) c w, [], [record_batch_store_telemetry tm [] (status_for_bind_error txt e)])
      | Inr inputs \<Rightarrow> observed_answer txt (on_db (store_batch (mh_service h) inputs))
          (\<lambda>ms. Response 201 (StoredBatchBody (map (\<lambda>m. (m_id m, m_created_at m)) ms))) 201
          (case count_tenant_writes inputs of [(t, n)] \<Rightarrow> set_telemetry_tenant t | _ \<Rightarrow> [])
          (record_batch_store_telemetry tm (count_tenant_writes inputs)) c w)"

definition observe_search :: "timing \<Rightarrow> memory_handler \<Rightarrow> request_context \<Rightarrow> search_memory_request option \<Rightarrow> observed" where
  "observe_search tm h gc b c w =
     (let txt = error_text h in
      case b of
        None \<Rightarrow> (respond (bad_request ''invalid JSON body'') c w, [], [record_search_telemetry tm [] 400])
      | Some req \<Rightarrow>
         (let t = trim_space (qr_tenant req); rec = record_search_telemetry tm t in
          case search_request_options txt gc req of
            Inl r \<Rightarrow> (respond r c w, set_telemetry_tenant t, [rec (status_code r)])
          | Inr opts \<Rightarrow>
              if qr_debug req
              then observed_answer txt (search_with_filters_debug (mh_service h) (mh_searcher h)
                     (qr_tenant req) (qr_query req) (qr_top_k req) opts)
                     (\<lambda>(items, plan, ranking). search_answer items (Some (plan, ranking))) 200
                     (set_telemetry_tenant t) rec c w
              else observed_answer txt (search_with_filters (mh_service h) (mh_searcher h)
                     (qr_tenant req) (qr_query req) (qr_top_k req) opts)
                     (\<lambda>items. search_answer items None) 200 (set_telemetry_tenant t) rec c w))"

definition observe_request :: "timing \<Rightarrow> memory_handler \<Rightarrow> request_context \<Rightarrow> api_request \<Rightarrow> observed" where
  "observe_request tm h gc req =
     (case req of
        PostMemory b \<Rightarrow> observe_store tm h gc b
      | PostMemoryBatch b \<Rightarrow> observe_store_batch tm h gc b
      | PostSearch b \<Rightarrow> observe_search tm h gc b
      | _ \<Rightarrow> unobserved (dispatch h gc req))"

section \<open>The middleware\<close>

text \<open>Method, path of the URL, and the pattern of the route.\<close>

definition route_of :: "api_request \<Rightarrow> string \<times> string \<times> string" where
  "route_of req =
     (case req of
        PostMemory _ \<Rightarrow> (''POST'', ''/v1/memory'', ''/v1/memory'')
      | PostMemoryBatch _ \<Rightarrow> (''POST'', ''/v1/memory/batch'', ''/v1/memory/batch'')
      | PostIngest _ \<Rightarrow> (''POST'', ''/v1/memory/ingest'', ''/v1/memory/ingest'')
      | PostIngestBatch _ \<Rightarrow> (''POST'', ''/v1/memory/ingest/batch'', ''/v1/memory/ingest/batch'')
      | PostSearch _ \<Rightarrow> (''POST'', ''/v1/memory/search'', ''/v1/memory/search'')
      | GetJobs _ \<Rightarrow> (''GET'', ''/v1/memory/jobs'', ''/v1/memory/jobs'')
      | GetJob i \<Rightarrow> (''GET'', ''/v1/memory/jobs/'' @ i, ''/v1/memory/jobs/:id'')
      | DeleteMemory i _ \<Rightarrow> (''DELETE'', ''/v1/memory/'' @ i, ''/v1/memory/:id'')
      | PostTenant _ \<Rightarrow> (''POST'', ''/v1/tenants'', ''/v1/tenants'')
      | GetTenantStats t \<Rightarrow> (''GET'', ''/v1/tenants/'' @ t @ ''/stats'', ''/v1/tenants/:id/stats''))"

definition telemetry_middleware ::
  "timing \<Rightarrow> api_request \<Rightarrow> ((response \<times> query_cache option) \<times> db_world) \<times> string \<times> telemetry_call list \<Rightarrow>
   ((response \<times> query_cache option) \<times> db_world) \<times> telemetry_call list" where
  "telemetry_middleware tm req out =
     (case route_of req of (verb, url, full_path) \<Rightarrow> case out of (((resp, c), w), t, calls) \<Rightarrow>
      let tracked = should_track_request_path url;
          p = trim_space full_path; path = (if p = [] then url else p) in
      (((resp, c), w),
       (if tracked then [RequestStarted] else []) @ calls @
       (if should_track_request_path path
        then [RecordRequest (tm_finished tm) \<lparr>qo_at = tm_finished tm, qo_method = verb, qo_path = path,
                qo_tenant = trim_space t, qo_status = int (status_code resp), qo_latency = tm_total_latency tm\<rparr>]
        else []) @
       (if tracked then [RequestFinished] else [])))"

definition serve_observed ::
  "jwt_library \<Rightarrow> jwt_authenticator option \<Rightarrow> memory_handler \<Rightarrow> gotime \<Rightarrow> timing \<Rightarrow> string \<Rightarrow> api_request \<Rightarrow>
   query_cache option \<Rightarrow> db_world \<Rightarrow> ((response \<times> query_cache option) \<times> db_world) \<times> telemetry_call list" where
  "serve_observed lib auth h now tm header req c w = telemetry_middleware tm req
     (case auth of
        None \<Rightarrow> observe_request tm h \<lparr>rc_tenant = None\<rparr> req c w
      | Some a \<Rightarrow> (case bearer_middleware lib a now header \<lparr>rc_tenant = None\<rparr> of
          None \<Rightarrow> (respond (Response 401 (ErrorBody ''unauthorized'')) c w, [], [])
        | Some gc \<Rightarrow> observe_request tm h gc req c w))"

text \<open>Requests one after the other: the requests with their answers, and what is recorded.\<close>

fun serve_all ::
  "jwt_library \<Rightarrow> jwt_authenticator option \<Rightarrow> memory_handler \<Rightarrow> (gotime \<times> timing \<times> string \<times> api_request) list \<Rightarrow>
   query_cache option \<Rightarrow> db_world \<Rightarrow> (api_request \<times> response) list \<times> telemetry_call list" where
  "serve_all lib auth h [] c w = ([], [])"
| "serve_all lib auth h ((now, tm, header, req) # rs) c w =
     (case serve_observed lib auth h now tm header req c w of (((resp, c1), w1), calls) \<Rightarrow>
      case serve_all lib auth h rs c1 w1 of (served, recorded) \<Rightarrow> ((req, resp) # served, calls @ recorded))"

text \<open>The answers alone, as Api gives them.\<close>

fun serve_plain ::
  "jwt_library \<Rightarrow> jwt_authenticator option \<Rightarrow> memory_handler \<Rightarrow> (gotime \<times> timing \<times> string \<times> api_request) list \<Rightarrow>
   query_cache option \<Rightarrow> db_world \<Rightarrow> (api_request \<times> response) list" where
  "serve_plain lib auth h [] c w = []"
| "serve_plain lib auth h ((now, tm, header, req) # rs) c w =
     (case serve_v1 lib auth h now header req c w of ((resp, c1), w1) \<Rightarrow>
      (req, resp) # serve_plain lib auth h rs c1 w1)"

section \<open>The numbers that the answers imply\<close>

fun stored_answer :: "api_request \<times> response \<Rightarrow> bool" where
  "stored_answer (PostMemory _, r) = (status_code r = 201)"
| "stored_answer _ = False"

fun batch_answer :: "api_request \<times> response \<Rightarrow> bool" where
  "batch_answer (PostMemoryBatch _, r) = (status_code r = 201)"
| "batch_answer _ = False"

fun search_answered :: "api_request \<times> response \<Rightarrow> bool" where
  "search_answered (PostSearch _, r) = (status_code r = 200)"
| "search_answered _ = False"

text \<open>The memories of a tenant that an answer accepts, and its searches.\<close>

fun accepted_items :: "string \<Rightarrow> api_request \<times> response \<Rightarrow> int" where
  "accepted_items t (PostMemory (Some q), r) = (if status_code r = 201 \<and> trim_space (sr_tenant q) = t then 1 else 0)"
| "accepted_items t (PostMemoryBatch (Some qs), r) =
     (if status_code r = 201 then int (length (filter (\<lambda>q. trim_space (sr_tenant q) = t) qs)) else 0)"
| "accepted_items t _ = 0"

fun answered_searches :: "string \<Rightarrow> api_request \<times> response \<Rightarrow> int" where
  "answered_searches t (PostSearch (Some q), r) = (if status_code r = 200 \<and> trim_space (qr_tenant q) = t then 1 else 0)"
| "answered_searches t _ = 0"

section \<open>Observation changes no answer\<close>

lemma observed_answer_fst: "fst (observed_answer txt m k ok t rec c w) = answer txt m k c w"
  by (simp add: observed_answer_def answer_def split: prod.splits)

lemma observe_request_answer: "fst (observe_request tm h gc req c w) = dispatch h gc req c w"
  by (cases req) (auto simp: observe_request_def dispatch_def unobserved_def observe_store_def observe_store_batch_def
      observe_search_def handle_store_def handle_store_batch_def handle_search_def observed_answer_fst Let_def
      split: sum.splits option.splits)

lemma telemetry_middleware_fst: "fst (telemetry_middleware tm req out) = fst out"
  by (cases out) (auto simp: telemetry_middleware_def Let_def split: prod.splits)

lemma serve_observed_answer: "fst (serve_observed lib auth h now tm header req c w) = serve_v1 lib auth h now header req c w"
  by (auto simp: serve_observed_def serve_v1_def telemetry_middleware_fst observe_request_answer split: option.splits)

section \<open>The writes of a batch\<close>

definition writes_ok :: "(string \<times> int) list \<Rightarrow> bool" where
  "writes_ok ws \<longleftrightarrow> distinct (map fst ws) \<and> (\<forall>(t, n) \<in> set ws. trim_space t = t \<and> t \<noteq> [] \<and> 0 < n)"

definition writes_of :: "string \<Rightarrow> (string \<times> int) list \<Rightarrow> int" where
  "writes_of t ws = sum_list (map snd (filter (\<lambda>(u, n). u = t) ws))"

lemma count_write_names: "fst ` set (count_write t ws) = insert t (fst ` set ws)"
  by (induction t ws rule: count_write.induct) auto

lemma count_write_ok: "writes_ok ws \<Longrightarrow> trim_space t = t \<Longrightarrow> t \<noteq> [] \<Longrightarrow> writes_ok (count_write t ws)"
proof (induction t ws rule: count_write.induct)
  case (2 t u n ws)
  then show ?case using count_write_names [of t ws] by (auto simp: writes_ok_def)
qed (simp add: writes_ok_def)

lemma count_write_of: "writes_of t (count_write u ws) = writes_of t ws + (if u = t then 1 else 0)"
  by (induction u ws rule: count_write.induct) (auto simp: writes_of_def)

lemma count_tenant_writes_props:
  "writes_ok (count_tenant_writes inputs) \<and> (t \<noteq> [] \<longrightarrow>
    writes_of t (count_tenant_writes inputs) = int (length (filter (\<lambda>inp. trim_space (si_tenant inp) = t) inputs)))"
proof -
  let ?f = "\<lambda>inp ws. let t = trim_space (si_tenant inp) in if t = [] then ws else count_write t ws"
  have "writes_ok (fold ?f inputs ws) \<and> (t \<noteq> [] \<longrightarrow> writes_of t (fold ?f inputs ws) =
      writes_of t ws + int (length (filter (\<lambda>inp. trim_space (si_tenant inp) = t) inputs)))" if "writes_ok ws" for ws
    using that by (induction inputs arbitrary: ws) (auto simp: Let_def count_write_ok count_write_of)
  from this [of "[]"] show ?thesis by (simp add: count_tenant_writes_def writes_ok_def writes_of_def)
qed

lemma put_write_new: "t \<notin> fst ` set ws \<Longrightarrow> put_write t n ws = ws @ [(t, n)]"
  by (induction t n ws rule: put_write.induct) auto

lemma copied_writes:
  assumes "writes_ok ws"
  shows "fold (\<lambda>(raw, n) ws. let t = trim_space raw in if t = [] \<or> n \<le> 0 then ws else put_write t n ws) ws [] = ws"
proof -
  have "fold (\<lambda>(raw, n) ws. let t = trim_space raw in if t = [] \<or> n \<le> 0 then ws else put_write t n ws) ws acc = acc @ ws"
    if "writes_ok ws" "fst ` set acc \<inter> fst ` set ws = {}" for acc
    using that
  proof (induction ws arbitrary: acc)
    case (Cons w ws)
    obtain t n where w: "w = (t, n)" by force
    with Cons.prems have t: "trim_space t = t" "t \<noteq> []" "0 < n" "t \<notin> fst ` set acc" "writes_ok ws" "t \<notin> fst ` set ws"
      by (auto simp: writes_ok_def)
    from Cons.IH [of "acc @ [(t, n)]"] t Cons.prems(2) show ?case by (auto simp: w put_write_new Let_def)
  qed simp
  from this [of "[]"] assms show ?thesis by simp
qed

lemma counted_writes: "writes_ok ws \<Longrightarrow> counted ws = ws"
  by (induction ws) (auto simp: counted_def writes_ok_def)

lemma record_batch_writes:
  "t \<noteq> [] \<Longrightarrow> call_writes t (record_batch_store_telemetry tm (count_tenant_writes inputs) status) =
    (if is_success_status (int status) then int (length (filter (\<lambda>inp. trim_space (si_tenant inp) = t) inputs)) else 0)"
  using count_tenant_writes_props [of inputs t]
  by (simp add: record_batch_store_telemetry_def copied_writes counted_writes writes_of_def)

section \<open>The calls of a request\<close>

lemma bound_tenants:
  "bind_store_input gc (Some q) = Inr inp \<Longrightarrow> si_tenant inp = sr_tenant q"
  "bind_items gc qs = Inr inputs \<Longrightarrow> map si_tenant inputs = map sr_tenant qs"
  subgoal by (auto simp: bind_store_input_def parse_store_input_def split: sum.splits)
  subgoal by (induction gc qs arbitrary: inputs rule: bind_items.induct)
      (auto simp: parse_store_input_def split: sum.splits)
  done

lemma error_statuses:
  "\<not> is_success_status (int (status_for_error txt e))" "\<not> is_success_status (int (status_for_bind_error txt e))"
  "status_for_error txt e \<noteq> 200" "status_for_error txt e \<noteq> 201" "status_for_bind_error txt e \<noteq> 201"
  "status_code (write_error txt e) = status_for_error txt e"
  "status_code (write_bind_error txt e) = status_for_bind_error txt e"
  "\<not> status_for_error txt e < 400"
  using status_for_error_range [of "txt" e]
  by (auto simp: is_success_status_def status_for_bind_error_def write_error_def write_bind_error_def Let_def)

lemma search_refused_status:
  "search_request_options txt gc q = Inl r \<Longrightarrow> \<not> is_success_status (int (status_code r)) \<and> status_code r \<noteq> 200"
  using error_statuses(1)
  by (fastforce simp: search_request_options_def bad_request_def error_statuses(3,6) is_success_status_def
      split: if_splits sum.splits)

text \<open>What the calls of a handler add to the numbers.\<close>

definition agrees :: "api_request \<Rightarrow> response \<Rightarrow> telemetry_call list \<Rightarrow> bool" where
  "agrees req resp calls \<longleftrightarrow>
     length (filter stored_ok calls) = of_bool (stored_answer (req, resp)) \<and>
     length (filter batch_ok calls) = of_bool (batch_answer (req, resp)) \<and>
     length (filter searched_ok calls) = of_bool (search_answered (req, resp)) \<and>
     (\<forall>t. t \<noteq> [] \<longrightarrow> sum_list (map (call_writes t) calls) = accepted_items t (req, resp) \<and>
        sum_list (map (call_searches t) calls) = answered_searches t (req, resp))"

lemma length_filter_tenants:
  assumes "map si_tenant inputs = map sr_tenant qs"
  shows "length (filter (\<lambda>inp. trim_space (si_tenant inp) = t) inputs) = length (filter (\<lambda>q. trim_space (sr_tenant q) = t) qs)"
proof -
  have "length (filter (\<lambda>x. trim_space x = t) (map si_tenant inputs)) = length (filter (\<lambda>x. trim_space x = t) (map sr_tenant qs))"
    using assms by simp
  then show ?thesis by (simp add: filter_map comp_def)
qed

lemma store_agrees:
  assumes "observe_store tm h gc b c w = (((resp, c'), w'), t, calls)"
  shows "agrees (PostMemory b) resp calls"
proof (cases "bind_store_input gc b")
  case (Inl e)
  with assms show ?thesis
    by (cases b) (auto simp: observe_store_def respond_def record_store_telemetry_def agrees_def error_statuses Let_def)
next
  case (Inr inp)
  then obtain q where q: "b = Some q" by (cases b) (auto simp: bind_store_input_def)
  with Inr have "si_tenant inp = sr_tenant q" by (auto dest: bound_tenants(1))
  with assms Inr q show ?thesis
    by (auto simp: observe_store_def observed_answer_def record_store_telemetry_def agrees_def error_statuses
        is_success_status_def Let_def split: prod.splits sum.splits)
qed

lemma batch_agrees:
  assumes "observe_store_batch tm h gc b c w = (((resp, c'), w'), t, calls)"
  shows "agrees (PostMemoryBatch b) resp calls"
proof (cases "bind_store_batch_inputs gc b")
  case (Inl e)
  then have e: "resp = write_bind_error (error_text h) e"
    "calls = [record_batch_store_telemetry tm [] (status_for_bind_error (error_text h) e)]"
    using assms by (auto simp: observe_store_batch_def respond_def Let_def)
  then show ?thesis
    by (cases b) (simp_all add: record_batch_store_telemetry_def agrees_def error_statuses)
next
  case (Inr inputs)
  then obtain qs where q: "b = Some qs" by (cases b) (auto simp: bind_store_batch_inputs_def)
  with Inr have "map si_tenant inputs = map sr_tenant qs"
    by (auto simp: bind_store_batch_inputs_def split: if_splits dest: bound_tenants(2))
  note len = length_filter_tenants [OF this]
  obtain r c1 w1 where m: "on_db (store_batch (mh_service h) inputs) c w = ((r, c1), w1)" by (metis surj_pair)
  let ?status = "case r of Inl e \<Rightarrow> status_for_error (error_text h) e | Inr _ \<Rightarrow> 201"
  have calls: "calls = [record_batch_store_telemetry tm (count_tenant_writes inputs) ?status]"
    "status_code resp = ?status" "is_success_status (int ?status) \<longleftrightarrow> ?status = 201"
    using assms Inr m by (auto simp: observe_store_batch_def observed_answer_def error_statuses is_success_status_def
        Let_def split: sum.splits)
  have "stored_ok (record_batch_store_telemetry tm ws st) = False" "searched_ok (record_batch_store_telemetry tm ws st) = False"
    "batch_ok (record_batch_store_telemetry tm ws st) = is_success_status (int st)"
    "call_searches u (record_batch_store_telemetry tm ws st) = 0" for ws st u
    by (simp_all add: record_batch_store_telemetry_def)
  with calls show ?thesis by (simp add: agrees_def record_batch_writes len q)
qed

lemma search_answer_agrees:
  assumes "observed_answer (error_text h) m k 200 u (record_search_telemetry tm (trim_space (qr_tenant q))) c w =
      (((resp, c'), w'), t, calls)" "\<And>x. status_code (k x) = 200"
  shows "agrees (PostSearch (Some q)) resp calls"
  using assms
  by (auto simp: observed_answer_def record_search_telemetry_def agrees_def error_statuses is_success_status_def
      split: prod.splits sum.splits)

lemma search_agrees:
  assumes "observe_search tm h gc b c w = (((resp, c'), w'), t, calls)"
  shows "agrees (PostSearch b) resp calls"
proof (cases b)
  case None
  with assms show ?thesis
    by (auto simp: observe_search_def respond_def bad_request_def record_search_telemetry_def agrees_def is_success_status_def)
next
  case (Some q)
  show ?thesis
  proof (cases "search_request_options (error_text h) gc q")
    case (Inl r)
    from search_refused_status [OF Inl] assms Some Inl show ?thesis
      by (auto simp: observe_search_def respond_def record_search_telemetry_def agrees_def Let_def)
  next
    case (Inr opts)
    show ?thesis
    proof (cases "qr_debug q")
      case True
      with assms Some Inr show ?thesis
        by (auto simp: observe_search_def search_answer_def Let_def intro!: search_answer_agrees split: prod.splits)
    next
      case False
      with assms Some Inr show ?thesis
        by (auto simp: observe_search_def search_answer_def Let_def intro!: search_answer_agrees)
    qed
  qed
qed

lemma observe_agrees:
  assumes "observe_request tm h gc req c w = (((resp, c'), w'), t, calls)"
  shows "agrees req resp calls"
  using assms
  by (cases req) (auto simp: observe_request_def unobserved_def agrees_def
      dest: store_agrees batch_agrees search_agrees)

section \<open>The requests of a run\<close>

lemma tracked_path_prefix: "should_track_request_path (''/v1/'' @ y)"
proof -
  have "\<exists>z. trim_space (''/v1/'' @ y) = ''/v1/'' @ z"
    by (simp add: trim_space_def trim_left_def trim_right_Cons is_space_def)
  then show ?thesis by (auto simp: should_track_request_path_def has_prefix_def)
qed

lemma tracked_url: "should_track_request_path (fst (snd (route_of req)))"
proof -
  have "\<exists>y. fst (snd (route_of req)) = ''/v1/'' @ y" by (cases req) (simp_all add: route_of_def)
  then show ?thesis using tracked_path_prefix by auto
qed

lemma tracked_full_path: "should_track_request_path (trim_space (snd (snd (route_of req))))"
proof -
  have "\<exists>y. snd (snd (route_of req)) = ''/v1/'' @ y" by (cases req) (simp_all add: route_of_def)
  then show ?thesis using tracked_path_prefix tracked_trim by auto
qed

lemma middleware_calls:
  assumes "telemetry_middleware tm req (((resp, c), w), t, calls) = (out, recorded)"
  shows "\<exists>ob. recorded = RequestStarted # calls @ [RecordRequest (tm_finished tm) ob, RequestFinished]"
proof -
  obtain verb url full_path where r: "route_of req = (verb, url, full_path)" by (metis prod_cases3)
  from tracked_url [of req] tracked_full_path [of req] r
  have "should_track_request_path url" "should_track_request_path (trim_space full_path)" by simp_all
  moreover from this(2) have "trim_space full_path \<noteq> []" by (auto dest: tracked_path)
  ultimately show ?thesis using assms by (auto simp: telemetry_middleware_def r Let_def)
qed

lemma handler_calls_plain:
  assumes "observe_request tm h gc req c w = (out, t, calls)"
  shows "RequestStarted \<notin> set calls \<and> RequestFinished \<notin> set calls"
proof -
  have "snd (snd (observe_request tm h gc req c w)) = calls" using assms by simp
  moreover have "RequestStarted \<notin> set (snd (snd (observe_request tm h gc req c w))) \<and>
      RequestFinished \<notin> set (snd (snd (observe_request tm h gc req c w)))"
    by (cases req) (auto simp: observe_request_def unobserved_def observe_store_def observe_store_batch_def
        observe_search_def observed_answer_def record_store_telemetry_def record_batch_store_telemetry_def
        record_search_telemetry_def Let_def split: sum.splits option.splits prod.splits)
  ultimately show ?thesis by simp
qed

lemma unauthorized_agrees: "agrees req (Response 401 (ErrorBody ''unauthorized'')) []"
proof -
  let ?p = "(req, Response 401 (ErrorBody ''unauthorized''))"
  have "accepted_items t ?p = 0" for t by (induction t ?p rule: accepted_items.induct) auto
  moreover have "answered_searches t ?p = 0" for t by (induction t ?p rule: answered_searches.induct) auto
  moreover have "\<not> stored_answer ?p" "\<not> batch_answer ?p" "\<not> search_answered ?p" by (cases req; simp)+
  ultimately show ?thesis by (simp add: agrees_def)
qed

lemma agrees_wrapped:
  "agrees req resp calls \<Longrightarrow> agrees req resp (RequestStarted # calls @ [RecordRequest now ob, RequestFinished])"
  by (simp add: agrees_def)

lemma serve_agrees:
  assumes "serve_observed lib auth h now tm header req c w = (((resp, c'), w'), calls)"
  shows "agrees req resp calls \<and> count_list calls RequestStarted = 1 \<and> count_list calls RequestFinished = 1"
proof -
  obtain r c1 w1 t inner where inner: "(((r, c1), w1), t, inner) = (case auth of
        None \<Rightarrow> observe_request tm h \<lparr>rc_tenant = None\<rparr> req c w
      | Some a \<Rightarrow> (case bearer_middleware lib a now header \<lparr>rc_tenant = None\<rparr> of
          None \<Rightarrow> (respond (Response 401 (ErrorBody ''unauthorized'')) c w, [], [])
        | Some gc \<Rightarrow> observe_request tm h gc req c w))" by (metis surj_pair)
  have observed: "agrees req r inner \<and> RequestStarted \<notin> set inner \<and> RequestFinished \<notin> set inner"
    if "(((r, c1), w1), t, inner) = observe_request tm h gc req c w" for gc
    using observe_agrees [OF that [symmetric]] handler_calls_plain [OF that [symmetric]] by simp
  from inner have "agrees req r inner \<and> RequestStarted \<notin> set inner \<and> RequestFinished \<notin> set inner"
    using unauthorized_agrees [of req] observed by (simp add: respond_def split: option.splits)
  moreover from assms have "telemetry_middleware tm req (((r, c1), w1), t, inner) = (((resp, c'), w'), calls)"
    by (simp add: serve_observed_def inner)
  ultimately show ?thesis
    using middleware_calls [of tm req r c1 w1 t inner "((resp, c'), w')" calls]
      telemetry_middleware_fst [of tm req "(((r, c1), w1), t, inner)"] by (auto intro: agrees_wrapped simp: count_notin)
qed

lemma serve_all_agrees:
  assumes "serve_all lib auth h rs c w = (served, calls)"
  shows "served = serve_plain lib auth h rs c w \<and>
    count_list calls RequestStarted = count_list calls RequestFinished \<and>
    length (filter stored_ok calls) = length (filter stored_answer served) \<and>
    length (filter batch_ok calls) = length (filter batch_answer served) \<and>
    length (filter searched_ok calls) = length (filter search_answered served) \<and>
    (\<forall>t. t \<noteq> [] \<longrightarrow> sum_list (map (call_writes t) calls) = sum_list (map (accepted_items t) served) \<and>
      sum_list (map (call_searches t) calls) = sum_list (map (answered_searches t) served))"
  using assms
proof (induction rs arbitrary: c w served calls)
  case (Cons r rs)
  obtain now tm header req where r: "r = (now, tm, header, req)" by (metis prod_cases4)
  obtain resp c1 w1 calls1 where one: "serve_observed lib auth h now tm header req c w = (((resp, c1), w1), calls1)"
    by (metis surj_pair)
  obtain served2 calls2 where rest: "serve_all lib auth h rs c1 w1 = (served2, calls2)" by force
  have plain: "serve_v1 lib auth h now header req c w = ((resp, c1), w1)"
    using serve_observed_answer [of lib auth h now tm header req c w] one by simp
  have out: "served = (req, resp) # served2" "calls = calls1 @ calls2"
    using Cons.prems by (simp_all add: r one rest)
  from Cons.IH [OF rest] serve_agrees [OF one] plain show ?case
    by (auto simp: out r agrees_def)
qed simp

text \<open>C16 What the telemetry reports is what was answered, and observing requests changes no answer: after any run of
  requests, with authentication or without, whatever fails, no request is active, the counters for stores, batches and
  searches are the numbers of requests answered with 201, 201 and 200, and the writes and searches of a tenant are
  the memories and searches that requests in its name, blanks aside, had answered so; refused and failing requests
  count nowhere.\<close>

theorem telemetry_reports_answers:
  "case serve_all lib auth h rs c w of (served, calls) \<Rightarrow>
    let s = telemetry_run window buffer calls; sn = snapshot_of now limit k s in
      served = serve_plain lib auth h rs c w \<and> sn_active_requests sn = 0 \<and>
      sn_store_count sn = int (length (filter stored_answer served)) \<and>
      sn_batch_store_count sn = int (length (filter batch_answer served)) \<and>
      sn_search_count sn = int (length (filter search_answered served)) \<and>
      (\<forall>i t. counts_of (i # t) s = (sum_list (map (accepted_items (i # t)) served),
        sum_list (map (answered_searches (i # t)) served)))"
proof -
  obtain served calls where run: "serve_all lib auth h rs c w = (served, calls)" by force
  from serve_all_agrees [OF run] have all: "served = serve_plain lib auth h rs c w"
    "count_list calls RequestStarted = count_list calls RequestFinished"
    "length (filter stored_ok calls) = length (filter stored_answer served)"
    "length (filter batch_ok calls) = length (filter batch_answer served)"
    "length (filter searched_ok calls) = length (filter search_answered served)"
    "t \<noteq> [] \<Longrightarrow> sum_list (map (call_writes t) calls) = sum_list (map (accepted_items t) served)"
    "t \<noteq> [] \<Longrightarrow> sum_list (map (call_searches t) calls) = sum_list (map (answered_searches t) served)" for t by auto
  have counts: "counts_of (i # t) (telemetry_run window buffer calls) =
      (sum_list (map (accepted_items (i # t)) served), sum_list (map (answered_searches (i # t)) served))" for i t
    using fold_steps_counts [of "i # t" calls "new_telemetry_service window buffer"] all(6,7) [of "i # t"]
    by (simp add: telemetry_run_def counts_of_def counts_for_def new_telemetry_service_def)
  from run_totals [of window buffer calls] all(1-5) counts show ?thesis
    by (simp add: run snapshot_of_def totals_def Let_def)
qed

end
