(* ===== verification/Lexical.thy ===== *)
theory Lexical
  imports VectorStore Regex Sha256
begin

text \<open>
  The providers that need no model: the lexical embedder (\<open>embeddings/mock/embedder.go\<close>, the default
  one), the heuristic importance scorer (\<open>scorer/heuristic\<close>) and the constant one (\<open>scorer/mock\<close>). A
  \<open>float64\<close> is a real, so the order in which a Go map is traversed does not matter; tokens are hashed
  with 32-bit FNV-1a as in the code.
\<close>

section \<open>The lexical embedder\<close>

definition default_dimension :: nat where
  "default_dimension = 256"

definition lexical_token :: regex where
  "lexical_token = plus1 (Cls word_char)"

definition lexical_tokens :: "string \<Rightarrow> string list" where
  "lexical_tokens text0 =
     (let text = to_lower (trim_space text0) in
      if text = [] then [] else re_find_all lexical_token text)"

text \<open>The map of token counts, as the count of a token.\<close>

definition term_frequency :: "string list \<Rightarrow> string \<Rightarrow> nat" where
  "term_frequency tokens t = length (filter (\<lambda>x. x = t) tokens)"

definition hash_token :: "string \<Rightarrow> 32 word" where
  "hash_token t = foldl (\<lambda>h b. (h XOR ucast b) * 16777619) 2166136261 (bytes_of_string t)"

definition token_slot :: "string \<Rightarrow> nat" where
  "token_slot t = unat (hash_token t mod of_nat default_dimension)"

definition normalize_vector :: "real list \<Rightarrow> real list" where
  "normalize_vector v = (let norm = dot v v in if norm = 0 then v else map (\<lambda>x. x / sqrt norm) v)"

definition lexical_embedding :: "string \<Rightarrow> real list" where
  "lexical_embedding text =
     (let tokens = lexical_tokens text; zeros = replicate default_dimension 0 in
      if tokens = [] then zeros
      else normalize_vector (fold (\<lambda>t v. v[token_slot t := v ! token_slot t + (1 + ln (real (term_frequency tokens t)))])
             (uniq tokens) zeros))"

definition lexical_batch :: "string list \<Rightarrow> real list list" where
  "lexical_batch texts = map lexical_embedding texts"

section \<open>The scorers\<close>

definition key_signals :: "string list" where
  "key_signals = [''prefer'', ''always'', ''important'', ''never'', ''remember'', ''must'']"

definition heuristic_score :: "string \<Rightarrow> real" where
  "heuristic_score text0 =
     (let text = to_lower (trim_space text0); tokens = re_find_all lexical_token text; n = length tokens;
          tf = (\<lambda>t. real (term_frequency tokens t) / real n) in
      if text = [] then 0
      else if tokens = [] then 0
      else let tfidf = (\<Sum>t\<leftarrow>uniq tokens. tf t * (1 + ln (1 + 1 / tf t))) / real (length (uniq tokens));
               boost = (\<Sum>s\<leftarrow>key_signals. if str_contains text s then 8 / 100 else 0);
               score = tfidf + boost in
           if score > 1 then 1 else if score < 0 then 0 else score)"

definition heuristic_batch :: "string list \<Rightarrow> real list" where
  "heuristic_batch texts = map heuristic_score texts"

definition mock_score :: "string \<Rightarrow> real" where
  "mock_score text = (if text = [] then 0 else 1 / 2)"

section \<open>Vectors of token counts\<close>

definition count_weight :: "string list \<Rightarrow> string \<Rightarrow> real" where
  "count_weight tokens t = 1 + ln (real (term_frequency tokens t))"

lemma term_frequency_pos: "t \<in> set tokens \<Longrightarrow> 0 < term_frequency tokens t"
  by (auto simp: term_frequency_def filter_empty_conv)

lemma count_weight_ge: "t \<in> set tokens \<Longrightarrow> 1 \<le> count_weight tokens t"
  using term_frequency_pos [of t tokens] by (simp add: count_weight_def)

lemma token_slot_less: "token_slot t < default_dimension"
proof -
  have "unat (h mod 256) < 256" for h :: "32 word"
    by (simp add: unat_mod)
  then show ?thesis by (simp add: token_slot_def default_dimension_def)
qed

lemma bumps:
  assumes "\<And>t. f t < length v"
  shows "length (fold (\<lambda>t v. v[f t := v ! f t + g t]) ts v) = length v \<and>
    (\<forall>i < length v. fold (\<lambda>t v. v[f t := v ! f t + g t]) ts v ! i = v ! i + (\<Sum>t\<leftarrow>filter (\<lambda>t. f t = i) ts. (g t :: real)))"
  using assms
proof (induction ts arbitrary: v)
  case (Cons t ts)
  have "f u < length (v[f t := v ! f t + g t])" for u using Cons.prems by simp
  from Cons.IH [OF this] Cons.prems show ?case by (auto simp: nth_list_update)
qed simp

lemma lexical_coordinates:
  assumes "lexical_tokens text = tokens" "tokens \<noteq> []"
  shows "lexical_embedding text = normalize_vector
    (map (\<lambda>i. \<Sum>t\<leftarrow>filter (\<lambda>t. token_slot t = i) (uniq tokens). count_weight tokens t) [0..<default_dimension])"
proof -
  let ?f = "\<lambda>ts v. fold (\<lambda>t v. v[token_slot t := v ! token_slot t + count_weight tokens t]) ts v"
  have "?f (uniq tokens) (replicate default_dimension 0) =
      map (\<lambda>i. \<Sum>t\<leftarrow>filter (\<lambda>t. token_slot t = i) (uniq tokens). count_weight tokens t) [0..<default_dimension]"
    using bumps [of token_slot "replicate default_dimension 0" "count_weight tokens" "uniq tokens"]
    by (intro nth_equalityI) (simp_all add: token_slot_less)
  with assms show ?thesis by (simp add: lexical_embedding_def Let_def count_weight_def)
qed

lemma lexical_coordinates_sum:
  assumes "lexical_tokens text = tokens" "tokens \<noteq> []"
  shows "lexical_embedding text = normalize_vector
    (map (\<lambda>i. \<Sum>t \<in> {t \<in> set tokens. token_slot t = i}. count_weight tokens t) [0..<default_dimension])"
  unfolding lexical_coordinates [OF assms]
  by (simp add: sum_list_distinct_conv_sum_set)

lemma dot_scale: "dot (map (\<lambda>x. x / c) v) (map (\<lambda>x. x / c) v) = dot v v / c\<^sup>2"
  by (induction v) (simp_all add: power2_eq_square add_divide_distrib)

lemma dot_ge_square: "x \<in> set v \<Longrightarrow> x * x \<le> dot v v"
proof (induction v)
  case (Cons y v)
  have "0 \<le> dot v v" "0 \<le> y * y" by simp_all
  with Cons show ?case by (cases "x = y") (simp_all add: add_increasing)
qed simp

lemma normalize_vector_unit: "dot v v \<noteq> 0 \<Longrightarrow> dot (normalize_vector v) (normalize_vector v) = 1"
  using dot_self_nonneg [of v] by (simp add: normalize_vector_def Let_def dot_scale)

lemma normalize_vector_nonneg: "\<forall>x \<in> set v. 0 \<le> x \<Longrightarrow> \<forall>x \<in> set (normalize_vector v). 0 \<le> x"
  by (simp add: normalize_vector_def Let_def)

lemma length_normalize [simp]: "length (normalize_vector v) = length v"
  by (simp add: normalize_vector_def Let_def)

lemma dot_nonneg: "\<forall>x \<in> set v. 0 \<le> x \<Longrightarrow> \<forall>x \<in> set w. 0 \<le> x \<Longrightarrow> 0 \<le> dot v w"
proof (induction v arbitrary: w)
  case (Cons x v)
  then show ?case by (cases w) simp_all
qed simp

lemma lexical_embedding_shape:
  "length (lexical_embedding s) = default_dimension \<and> (\<forall>x \<in> set (lexical_embedding s). 0 \<le> x) \<and>
   dot (lexical_embedding s) (lexical_embedding s) = (if lexical_tokens s = [] then 0 else 1)"
proof (cases "lexical_tokens s = []")
  case True
  have "dot (replicate n 0) (replicate n 0) = 0" for n by (induction n) simp_all
  with True show ?thesis by (simp add: lexical_embedding_def)
next
  case False
  let ?ts = "lexical_tokens s"
  let ?w = "\<lambda>i. \<Sum>t \<in> {t \<in> set ?ts. token_slot t = i}. count_weight ?ts t"
  let ?v = "map ?w [0..<default_dimension]"
  have e: "lexical_embedding s = normalize_vector ?v" by (rule lexical_coordinates_sum [OF refl False])
  have ge: "0 \<le> count_weight ?ts t" if "t \<in> set ?ts" for t using count_weight_ge [OF that] by simp
  have nonneg: "\<forall>x \<in> set ?v. 0 \<le> x" by (auto intro!: sum_nonneg ge)
  obtain t where t: "t \<in> set ?ts" using False by (cases ?ts) auto
  have "count_weight ?ts t \<le> ?w (token_slot t)"
    using t ge by (intro member_le_sum) auto
  with count_weight_ge [OF t] have "1 \<le> ?w (token_slot t)" by linarith
  then have "1 * 1 \<le> ?w (token_slot t) * ?w (token_slot t)" by (intro mult_mono) auto
  moreover have "?w (token_slot t) \<in> set ?v" using token_slot_less by auto
  ultimately have "dot ?v ?v \<noteq> 0" using dot_ge_square by fastforce
  with e nonneg False show ?thesis
    using normalize_vector_nonneg [OF nonneg] by (simp add: normalize_vector_unit)
qed

lemma lexical_embedding_mset:
  assumes "mset (lexical_tokens s) = mset (lexical_tokens s')"
  shows "lexical_embedding s = lexical_embedding s'"
proof (cases "lexical_tokens s = []")
  case True
  with assms have "lexical_tokens s' = []" by simp
  with True show ?thesis by (simp add: lexical_embedding_def)
next
  case False
  with assms have ne: "lexical_tokens s' \<noteq> []" by auto
  have "term_frequency ts t = count (mset ts) t" for ts t
    unfolding term_frequency_def by (induction ts) auto
  then have "count_weight (lexical_tokens s) = count_weight (lexical_tokens s')"
    using assms by (simp add: fun_eq_iff count_weight_def)
  moreover have "set (lexical_tokens s) = set (lexical_tokens s')" using assms by (rule mset_eq_setD)
  ultimately show ?thesis
    using lexical_coordinates_sum [OF refl False] lexical_coordinates_sum [OF refl ne] by simp
qed

text \<open>C23 The default embedder: every text has a vector of 256 coordinates, none negative, of length 1, or
  0 for a text without an ASCII word; texts with the same words, each occurring equally often in both, in
  whatever order, case and punctuation, have the same vector, and their similarity is 1 (the counts matter: a
  word weighs 1 plus the logarithm of its count); no two texts have a
  negative similarity, and a text without words has similarity 0 to every text, itself included.\<close>

theorem lexical_embedding_laws:
  "length (lexical_embedding s) = 256 \<and> (\<forall>x \<in> set (lexical_embedding s). 0 \<le> x) \<and>
   dot (lexical_embedding s) (lexical_embedding s) = (if lexical_tokens s = [] then 0 else 1) \<and>
   0 \<le> cosine_similarity (lexical_embedding s) (lexical_embedding s') \<and>
   (lexical_tokens s = [] \<longrightarrow> cosine_similarity (lexical_embedding s) (lexical_embedding s') = 0) \<and>
   (mset (lexical_tokens s) = mset (lexical_tokens s') \<longrightarrow> lexical_embedding s = lexical_embedding s' \<and>
     (lexical_tokens s \<noteq> [] \<longrightarrow> cosine_similarity (lexical_embedding s) (lexical_embedding s') = 1))"
proof -
  note shape = lexical_embedding_shape
  have len: "length (lexical_embedding x) = 256" for x using shape [of x] by (simp add: default_dimension_def)
  have "0 \<le> dot (lexical_embedding s) (lexical_embedding s')"
    using shape [of s] shape [of s'] by (simp add: dot_nonneg)
  then have "0 \<le> cosine_similarity (lexical_embedding s) (lexical_embedding s')"
    using len [of s] len [of s'] by (simp add: cosine_similarity_def Let_def)
  moreover have "lexical_tokens s = [] \<longrightarrow> cosine_similarity (lexical_embedding s) (lexical_embedding s') = 0"
    using shape [of s] len [of s] len [of s'] by (simp add: cosine_similarity_def)
  moreover have "lexical_tokens s \<noteq> [] \<longrightarrow> cosine_similarity (lexical_embedding s) (lexical_embedding s) = 1"
    using shape [of s] by (intro impI cosine_self) simp
  ultimately show ?thesis using shape [of s] len [of s] lexical_embedding_mset [of s s'] by auto
qed

section \<open>What the heuristic scorer measures\<close>

lemma heuristic_score_range: "0 \<le> heuristic_score s \<and> heuristic_score s \<le> 1"
  by (simp add: heuristic_score_def Let_def)

text \<open>The heuristic importance lies in the unit interval; and for a text of n different words without
  one of the six key signals it is (1 + ln (1 + n)) / n, cut at 1. It falls with the length of the text,
  and a single word gets the highest importance there is.\<close>

theorem heuristic_score_distinct:
  "0 \<le> heuristic_score s \<and> heuristic_score s \<le> 1 \<and>
   (lexical_tokens s = ts \<and> ts \<noteq> [] \<and> distinct ts \<and> (\<forall>k \<in> set key_signals. \<not> str_contains (to_lower (trim_space s)) k) \<longrightarrow>
      heuristic_score s = min 1 ((1 + ln (1 + real (length ts))) / real (length ts)) \<and>
      (length ts = 1 \<longrightarrow> heuristic_score s = 1))"
proof -
  have "heuristic_score s = min 1 ((1 + ln (1 + real (length ts))) / real (length ts))"
    if ts: "lexical_tokens s = ts" "ts \<noteq> []" "distinct ts"
      and k: "\<forall>k \<in> set key_signals. \<not> str_contains (to_lower (trim_space s)) k"
  proof -
    let ?n = "real (length ts)"
    have n: "0 < ?n" using ts(2) by simp
    have ne: "to_lower (trim_space s) \<noteq> []" and toks: "re_find_all lexical_token (to_lower (trim_space s)) = ts"
      using ts(1,2) by (auto simp: lexical_tokens_def Let_def split: if_splits)
    have one: "term_frequency ts t = 1" if "t \<in> set ts" for t
      using that ts(3) by (induction ts) (auto simp: term_frequency_def filter_empty_conv)
    have u: "uniq ts = ts" using ts(3) by (simp add: uniq_from_distinct)
    have "(\<Sum>t\<leftarrow>ts. real (term_frequency ts t) / ?n * (1 + ln (1 + 1 / (real (term_frequency ts t) / ?n)))) =
        (\<Sum>t\<leftarrow>ts. 1 / ?n * (1 + ln (1 + ?n)))"
      by (rule arg_cong [of _ _ sum_list], rule map_cong) (simp_all add: one)
    also have "\<dots> = 1 + ln (1 + ?n)" using n by (simp add: sum_list_triv)
    finally have tfidf: "(\<Sum>t\<leftarrow>ts. real (term_frequency ts t) / ?n * (1 + ln (1 + 1 / (real (term_frequency ts t) / ?n)))) = 1 + ln (1 + ?n)" .
    have boost: "(\<Sum>k\<leftarrow>key_signals. if str_contains (to_lower (trim_space s)) k then 8 / 100 else 0) = (0::real)"
      using k by (simp add: key_signals_def)
    have pos: "0 \<le> (1 + ln (1 + ?n)) / ?n" using n by simp
    have clip: "0 \<le> q \<Longrightarrow> (if q > 1 then 1 else if q < 0 then 0 else q) = min 1 q" for q :: real by simp
    have "heuristic_score s = (let q = (1 + ln (1 + ?n)) / ?n in if q > 1 then 1 else if q < 0 then 0 else q)"
      using ne ts(2) unfolding heuristic_score_def Let_def toks u tfidf boost by simp
    then show ?thesis unfolding Let_def clip [OF pos] .
  qed
  moreover have "min 1 ((1 + ln (1 + real (1::nat))) / real (1::nat)) = 1" by simp
  ultimately show ?thesis using heuristic_score_range [of s] by (metis One_nat_def)
qed

lemma sample_tokens: "lexical_tokens ''b a'' = [''b'', ''a'']" "lexical_tokens ''A, b!'' = [''a'', ''b'']" "lexical_tokens ''Ok'' = [''ok'']"
  by code_simp+

lemma lexical_embedding_laws_witness:
  "lexical_embedding ''b a'' = lexical_embedding ''A, b!''"
  using lexical_embedding_laws [of "''b a''" "''A, b!''"] by (simp add: sample_tokens)

lemma heuristic_score_distinct_witness: "heuristic_score ''Ok'' = 1"
proof -
  have "\<forall>k \<in> set key_signals. \<not> str_contains (to_lower (trim_space ''Ok'')) k" by code_simp
  with heuristic_score_distinct [of "''Ok''" "[''ok'']"] show ?thesis by (simp add: sample_tokens)
qed

end
