(* ===== verification/BatchPool.thy ===== *)
theory BatchPool
  imports World
begin

text \<open>
  The way a batch of model calls runs in parallel (\<open>BatchScore\<close> of \<open>scorer/ollama\<close> and
  \<open>scorer/openrouter\<close>, \<open>BatchEmbed\<close> of \<open>embeddings/openrouter\<close>): one goroutine per task, a semaphore that
  lets a few of them work at a time, a channel that keeps the first error, a context that this error
  cancels, and a slice into which each task writes its own entries. The goroutines are a step relation;
  a schedule is a sequence of steps. \<open>work i\<close> is what task \<open>i\<close> computes: the entries it writes or an
  error; under a cancelled context a call may also fail with any error.
\<close>

section \<open>Goroutines\<close>

datatype task_state = Waiting | Holding | Finished

record 'v pool =
  pl_tasks :: "task_state list"
  pl_used :: nat
  pl_cancelled :: bool
  pl_caller_gone :: bool
  pl_error :: "err option"
  pl_out :: "'v list"

definition write_entries :: "(nat \<times> 'v) list \<Rightarrow> 'v list \<Rightarrow> 'v list" where
  "write_entries ws out = fold (\<lambda>(j, v) o'. o'[j := v]) ws out"

definition start_pool :: "nat \<Rightarrow> 'v list \<Rightarrow> 'v pool" where
  "start_pool n out = \<lparr>pl_tasks = replicate n Waiting, pl_used = 0, pl_cancelled = False,
     pl_caller_gone = False, pl_error = None, pl_out = out\<rparr>"

text \<open>The first \<open>select\<close> of a goroutine; its two ends; and the caller's context, which may be cancelled
  at any time.\<close>

definition take_slot :: "nat \<Rightarrow> 'v pool \<Rightarrow> 'v pool" where
  "take_slot i s = s\<lparr>pl_tasks := (pl_tasks s)[i := Holding], pl_used := pl_used s + 1\<rparr>"

definition leave :: "nat \<Rightarrow> 'v pool \<Rightarrow> 'v pool" where
  "leave i s = s\<lparr>pl_tasks := (pl_tasks s)[i := Finished]\<rparr>"

definition deliver :: "nat \<Rightarrow> (nat \<times> 'v) list \<Rightarrow> 'v pool \<Rightarrow> 'v pool" where
  "deliver i ws s = s\<lparr>pl_tasks := (pl_tasks s)[i := Finished], pl_used := pl_used s - 1,
     pl_out := write_entries ws (pl_out s)\<rparr>"

definition report :: "nat \<Rightarrow> err \<Rightarrow> 'v pool \<Rightarrow> 'v pool" where
  "report i e s =
     (let s1 = s\<lparr>pl_tasks := (pl_tasks s)[i := Finished], pl_used := pl_used s - 1\<rparr> in
      if pl_error s = None then s1\<lparr>pl_error := Some e, pl_cancelled := True\<rparr> else s1)"

inductive pool_step :: "nat \<Rightarrow> (nat \<Rightarrow> err + (nat \<times> 'v) list) \<Rightarrow> 'v pool \<Rightarrow> 'v pool \<Rightarrow> bool"
  for parallel work where
  acquire: "i < length (pl_tasks s) \<Longrightarrow> pl_tasks s ! i = Waiting \<Longrightarrow> pl_used s < parallel \<Longrightarrow>
     pool_step parallel work s (take_slot i s)"
| skip: "i < length (pl_tasks s) \<Longrightarrow> pl_tasks s ! i = Waiting \<Longrightarrow> pl_cancelled s \<Longrightarrow>
     pool_step parallel work s (leave i s)"
| succeed: "i < length (pl_tasks s) \<Longrightarrow> pl_tasks s ! i = Holding \<Longrightarrow> work i = Inr ws \<Longrightarrow>
     pool_step parallel work s (deliver i ws s)"
| fail: "i < length (pl_tasks s) \<Longrightarrow> pl_tasks s ! i = Holding \<Longrightarrow> work i = Inl e \<or> pl_cancelled s \<Longrightarrow>
     pool_step parallel work s (report i e s)"
| abandon: "\<not> pl_caller_gone s \<Longrightarrow>
     pool_step parallel work s (s\<lparr>pl_cancelled := True, pl_caller_gone := True\<rparr>)"

text \<open>After \<open>wg.Wait()\<close>.\<close>

definition pool_done :: "'v pool \<Rightarrow> bool" where
  "pool_done s \<longleftrightarrow> (\<forall>t \<in> set (pl_tasks s). t = Finished)"

definition pool_result :: "'v pool \<Rightarrow> err + 'v list" where
  "pool_result s = (case pl_error s of Some e \<Rightarrow> Inl e | None \<Rightarrow> Inr (pl_out s))"

text \<open>One task after the other, as the reference.\<close>

fun in_sequence :: "(nat \<Rightarrow> err + (nat \<times> 'v) list) \<Rightarrow> nat list \<Rightarrow> 'v list \<Rightarrow> err + 'v list" where
  "in_sequence work [] out = Inr out"
| "in_sequence work (i # is) out =
     (case work i of Inl e \<Rightarrow> Inl e | Inr ws \<Rightarrow> in_sequence work is (write_entries ws out))"

abbreviation schedule_of :: "nat \<Rightarrow> (nat \<Rightarrow> err + (nat \<times> 'v) list) \<Rightarrow> 'v pool \<Rightarrow> 'v pool \<Rightarrow> bool" where
  "schedule_of parallel work \<equiv> (pool_step parallel work)\<^sup>*\<^sup>*"

text \<open>What a batch may return: the result of any complete schedule in which the caller stayed or went.\<close>

definition pool_outcome ::
  "nat \<Rightarrow> (nat \<Rightarrow> err + (nat \<times> 'v) list) \<Rightarrow> nat \<Rightarrow> 'v list \<Rightarrow> bool \<Rightarrow> err + 'v list \<Rightarrow> bool" where
  "pool_outcome parallel work n out gone r \<longleftrightarrow>
     (\<exists>s. schedule_of parallel work (start_pool n out) s \<and> pool_done s \<and> pl_caller_gone s = gone \<and> r = pool_result s)"

section \<open>Writing entries\<close>

lemma length_write_entries [simp]: "length (write_entries ws out) = length out"
  unfolding write_entries_def by (induction ws arbitrary: out) (auto simp: case_prod_unfold)

lemma write_entries_other: "j \<notin> fst ` set ws \<Longrightarrow> write_entries ws out ! j = out ! j"
  unfolding write_entries_def by (induction ws arbitrary: out) (auto simp: case_prod_unfold)

lemma write_entries_Cons: "write_entries (p # ws) out = write_entries ws (out[fst p := snd p])"
  by (simp add: write_entries_def case_prod_unfold)

lemma write_entries_own:
  "distinct (map fst ws) \<Longrightarrow> (j, v) \<in> set ws \<Longrightarrow> j < length out \<Longrightarrow> write_entries ws out ! j = v"
proof (induction ws arbitrary: out)
  case (Cons p ws)
  show ?case
  proof (cases "(j, v) \<in> set ws")
    case True
    moreover have "distinct (map fst ws)" using Cons.prems(1) by simp
    moreover have "j < length (out[fst p := snd p])" using Cons.prems(3) by simp
    ultimately show ?thesis unfolding write_entries_Cons by (intro Cons.IH)
  next
    case False
    with Cons.prems(2) have p: "p = (j, v)" by simp
    with Cons.prems(1) have "j \<notin> fst ` set ws" by simp
    with p Cons.prems(3) show ?thesis by (simp add: write_entries_Cons write_entries_other)
  qed
qed simp

section \<open>Any number of tasks that write different entries\<close>

locale task_pool =
  fixes parallel n :: nat and work :: "nat \<Rightarrow> err + (nat \<times> 'v) list" and out :: "'v list"
  assumes slots: "0 < parallel"
    and once: "i < n \<Longrightarrow> work i = Inr ws \<Longrightarrow> distinct (map fst ws)"
    and inside: "i < n \<Longrightarrow> work i = Inr ws \<Longrightarrow> j \<in> fst ` set ws \<Longrightarrow> j < length out"
    and apart: "i < n \<Longrightarrow> i' < n \<Longrightarrow> work i = Inr ws \<Longrightarrow> work i' = Inr ws' \<Longrightarrow> j \<in> fst ` set ws \<Longrightarrow>
      j \<in> fst ` set ws' \<Longrightarrow> i = i'"
begin

definition written :: "nat set \<Rightarrow> 'v list \<Rightarrow> bool" where
  "written F o' \<longleftrightarrow> length o' = length out \<and>
     (\<forall>i \<in> F. \<exists>ws. work i = Inr ws \<and> (\<forall>(j, v) \<in> set ws. o' ! j = v)) \<and>
     (\<forall>j < length out. (\<forall>i \<in> F. \<forall>ws. work i = Inr ws \<longrightarrow> j \<notin> fst ` set ws) \<longrightarrow> o' ! j = out ! j)"

lemma written_start: "written {} out"
  by (simp add: written_def)

lemma written_next:
  assumes "written F o'" "F \<subseteq> {..<n}" "i < n" "work i = Inr ws"
  shows "written (insert i F) (write_entries ws o')"
proof -
  have own: "write_entries ws o' ! j = v" if jv: "(j, v) \<in> set ws" for j v
  proof (rule write_entries_own [OF once [OF assms(3,4)] jv])
    show "j < length o'"
      using inside [OF assms(3,4), of j] imageI [OF jv, of fst] assms(1) by (simp add: written_def)
  qed
  have other: "write_entries ws o' ! j = v" if "k \<in> F" "work k = Inr ws'" "(j, v) \<in> set ws'" "o' ! j = v" for k ws' j v
  proof (cases "j \<in> fst ` set ws")
    case True
    moreover have "j \<in> fst ` set ws'" using imageI [OF that(3), of fst] by simp
    moreover have "k < n" using that(1) assms(2) by auto
    ultimately have "k = i" using apart [OF _ assms(3) that(2) assms(4)] by blast
    with that assms(4) own show ?thesis by simp
  next
    case False
    with that show ?thesis by (simp add: write_entries_other)
  qed
  show ?thesis
    unfolding written_def
  proof (intro conjI ballI allI impI)
    show "length (write_entries ws o') = length out" using assms(1) by (simp add: written_def)
  next
    fix k assume k: "k \<in> insert i F"
    show "\<exists>ws'. work k = Inr ws' \<and> (\<forall>(j, v) \<in> set ws'. write_entries ws o' ! j = v)"
    proof (cases "k = i")
      case True
      with own assms(4) show ?thesis by auto
    next
      case False
      with k assms(1) obtain ws' where "work k = Inr ws'" "\<forall>(j, v) \<in> set ws'. o' ! j = v"
        by (auto simp: written_def)
      moreover from k False have "k \<in> F" by simp
      ultimately show ?thesis using other by (intro exI [of _ ws']) auto
    qed
  next
    fix j assume "j < length out" and "\<forall>k \<in> insert i F. \<forall>ws'. work k = Inr ws' \<longrightarrow> j \<notin> fst ` set ws'"
    then show "write_entries ws o' ! j = out ! j"
      using assms(1,4) by (simp add: write_entries_other written_def)
  qed
qed

text \<open>Which tasks are done determines what is written.\<close>

lemma written_unique:
  assumes "written F o1" "written F o2"
  shows "o1 = o2"
proof (rule nth_equalityI)
  show "length o1 = length o2" using assms by (simp add: written_def)
  fix j assume "j < length o1"
  then have j: "j < length out" using assms(1) by (simp add: written_def)
  show "o1 ! j = o2 ! j"
  proof (cases "\<forall>i \<in> F. \<forall>ws. work i = Inr ws \<longrightarrow> j \<notin> fst ` set ws")
    case True
    with assms j show ?thesis by (simp add: written_def)
  next
    case False
    then obtain i ws p where i: "i \<in> F" "work i = Inr ws" and p: "p \<in> set ws" "j = fst p" by blast
    have "o' ! j = snd p" if "written F o'" for o'
    proof -
      from that i obtain ws' where "work i = Inr ws'" "\<forall>(j, v) \<in> set ws'. o' ! j = v"
        unfolding written_def by blast
      with i(2) p show ?thesis by (auto simp: case_prod_unfold)
    qed
    with assms show ?thesis by simp
  qed
qed

lemma in_sequence_written:
  assumes "written F o'" "F \<subseteq> {..<n}" "set is \<subseteq> {..<n}" "\<forall>i \<in> set is. \<exists>ws. work i = Inr ws"
  shows "\<exists>o''. in_sequence work is o' = Inr o'' \<and> written (F \<union> set is) o''"
  using assms
proof (induction "is" arbitrary: F o')
  case (Cons i "is")
  then obtain ws where ws: "work i = Inr ws" by auto
  with Cons.prems have "written (insert i F) (write_entries ws o')" by (intro written_next) auto
  from Cons.IH [OF this] Cons.prems ws show ?case by auto
qed simp

lemma in_sequence_error:
  "\<exists>i \<in> set is. \<exists>e. work i = Inl e \<Longrightarrow> \<exists>i \<in> set is. \<exists>e. work i = Inl e \<and> in_sequence work is o' = Inl e"
proof (induction "is" arbitrary: o')
  case (Cons i "is")
  show ?case
  proof (cases "work i")
    case (Inr ws)
    with Cons.prems have "\<exists>i \<in> set is. \<exists>e. work i = Inl e" by auto
    from Cons.IH [OF this, of "write_entries ws o'"] Inr show ?thesis by auto
  qed simp
qed simp

subsection \<open>Invariants of every schedule\<close>

definition done_tasks :: "'v pool \<Rightarrow> nat set" where
  "done_tasks s = {i. i < n \<and> pl_tasks s ! i = Finished}"

definition pool_ok :: "'v pool \<Rightarrow> bool" where
  "pool_ok s \<longleftrightarrow> length (pl_tasks s) = n \<and> pl_used s = card {i. i < n \<and> pl_tasks s ! i = Holding} \<and>
     pl_used s \<le> parallel \<and> (pl_cancelled s \<longleftrightarrow> pl_error s \<noteq> None \<or> pl_caller_gone s) \<and>
     (\<not> pl_caller_gone s \<longrightarrow> (case pl_error s of
         None \<Rightarrow> written (done_tasks s) (pl_out s)
       | Some e \<Rightarrow> \<exists>i < n. work i = Inl e))"

lemma pool_ok_start: "pool_ok (start_pool n out)"
proof -
  have "done_tasks (start_pool n out) = {}" by (auto simp: done_tasks_def start_pool_def)
  moreover have "{i. i < n \<and> replicate n Waiting ! i = Holding} = {}" by auto
  ultimately show ?thesis using written_start by (simp add: pool_ok_def) (simp add: start_pool_def)
qed

lemma holding_update:
  assumes "i < n" "length ts = n"
  shows "{k. k < n \<and> ts[i := t] ! k = Holding} =
    (if t = Holding then insert i {k. k < n \<and> ts ! k = Holding} else {k. k < n \<and> ts ! k = Holding} - {i})"
  using assms by (auto simp: nth_list_update)

lemma done_after:
  assumes "i < n" "length (pl_tasks s) = n"
  shows "pl_tasks s ! i = Waiting \<Longrightarrow> done_tasks (take_slot i s) = done_tasks s"
    "done_tasks (leave i s) = insert i (done_tasks s)" "done_tasks (deliver i ws s) = insert i (done_tasks s)"
  using assms by (auto simp: done_tasks_def take_slot_def leave_def deliver_def nth_list_update)

lemma pool_fields:
  "pl_tasks (take_slot i s) = (pl_tasks s)[i := Holding]" "pl_used (take_slot i s) = pl_used s + 1"
  "pl_cancelled (take_slot i s) = pl_cancelled s" "pl_caller_gone (take_slot i s) = pl_caller_gone s"
  "pl_error (take_slot i s) = pl_error s" "pl_out (take_slot i s) = pl_out s"
  "pl_tasks (leave i s) = (pl_tasks s)[i := Finished]" "pl_used (leave i s) = pl_used s"
  "pl_cancelled (leave i s) = pl_cancelled s" "pl_caller_gone (leave i s) = pl_caller_gone s"
  "pl_error (leave i s) = pl_error s" "pl_out (leave i s) = pl_out s"
  "pl_tasks (deliver i ws s) = (pl_tasks s)[i := Finished]" "pl_used (deliver i ws s) = pl_used s - 1"
  "pl_cancelled (deliver i ws s) = pl_cancelled s" "pl_caller_gone (deliver i ws s) = pl_caller_gone s"
  "pl_error (deliver i ws s) = pl_error s" "pl_out (deliver i ws s) = write_entries ws (pl_out s)"
  by (simp_all add: take_slot_def leave_def deliver_def)

lemma pool_ok_step:
  assumes "pool_step parallel work s s'" "pool_ok s"
  shows "pool_ok s'"
  using assms
proof (induction rule: pool_step.induct)
  case (acquire i s)
  then have i: "i < n" "length (pl_tasks s) = n" by (simp_all add: pool_ok_def)
  then show ?case
    using acquire unfolding pool_ok_def pool_fields done_after(1) [OF i acquire(2)] holding_update [OF i] by simp
next
  case (skip i s)
  then have i: "i < n" "length (pl_tasks s) = n" by (simp_all add: pool_ok_def)
  show ?case
    using skip unfolding pool_ok_def pool_fields holding_update [OF i] by (auto split: option.splits)
next
  case (succeed i s ws)
  then have i: "i < n" "length (pl_tasks s) = n" by (simp_all add: pool_ok_def)
  have "written (insert i (done_tasks s)) (write_entries ws (pl_out s))" if "written (done_tasks s) (pl_out s)"
    using written_next [OF that _ i(1) succeed(3)] by (auto simp: done_tasks_def)
  with succeed i show ?case
    unfolding pool_ok_def pool_fields done_after(3) [OF i] holding_update [OF i]
    by (auto split: option.splits)
next
  case (fail i s e)
  then have i: "i < n" "length (pl_tasks s) = n" by (simp_all add: pool_ok_def)
  show ?case
    using fail i
    by (cases "pl_error s") (auto simp: pool_ok_def report_def Let_def holding_update)
next
  case (abandon s)
  then show ?case by (auto simp: pool_ok_def)
qed

lemma pool_ok_schedule: "schedule_of parallel work (start_pool n out) s \<Longrightarrow> pool_ok s"
  by (induction rule: rtranclp_induct) (auto intro: pool_ok_start pool_ok_step)

text \<open>Never more tasks at work than slots.\<close>

lemma slots_respected:
  "schedule_of parallel work (start_pool n out) s \<Longrightarrow> card {i. i < n \<and> pl_tasks s ! i = Holding} \<le> parallel"
  using pool_ok_schedule [of s] unfolding pool_ok_def by linarith

text \<open>When all tasks are done and the caller has not gone, the result is that of the sequential loop, or,
  when a task fails, the error of a failing task.\<close>

lemma result_sequential:
  assumes "schedule_of parallel work (start_pool n out) s" "pool_done s" "\<not> pl_caller_gone s"
  shows "case in_sequence work [0..<n] out of
      Inr o' \<Rightarrow> pool_result s = Inr o'
    | Inl _ \<Rightarrow> \<exists>i < n. \<exists>e. work i = Inl e \<and> pool_result s = Inl e"
proof -
  have ok: "pool_ok s" by (rule pool_ok_schedule [OF assms(1)])
  then have all: "done_tasks s = {..<n}"
    using assms(2) by (auto simp: done_tasks_def pool_done_def pool_ok_def)
  show ?thesis
  proof (cases "\<exists>i < n. \<exists>e. work i = Inl e")
    case True
    then have "\<exists>i \<in> set [0..<n]. \<exists>e. work i = Inl e" by auto
    from in_sequence_error [OF this, of out] obtain e where seq: "in_sequence work [0..<n] out = Inl e" by blast
    have "pl_error s \<noteq> None"
    proof
      assume "pl_error s = None"
      with ok assms(3) all have "written {..<n} (pl_out s)" by (simp add: pool_ok_def)
      then have "\<forall>i < n. \<exists>ws. work i = Inr ws" unfolding written_def by blast
      with True show False by fastforce
    qed
    with ok assms(3) seq show ?thesis by (auto simp: pool_ok_def pool_result_def)
  next
    case False
    then have fine: "\<forall>i \<in> set [0..<n]. \<exists>ws. work i = Inr ws"
      by (metis atLeastLessThan_iff set_upt sumE)
    from in_sequence_written [OF written_start _ _ fine] obtain o'
      where seq: "in_sequence work [0..<n] out = Inr o'" and w: "written {..<n} o'"
      by (auto simp: atLeast0LessThan)
    from ok assms(3) False all have none: "pl_error s = None" and w': "written {..<n} (pl_out s)"
      by (auto simp: pool_ok_def split: option.splits)
    from written_unique [OF w w'] seq none show ?thesis by (simp add: pool_result_def)
  qed
qed

text \<open>Every schedule ends: each goroutine takes at most two steps, the caller at most one; and as long as a
  task is not done, a step is possible.\<close>

definition steps_left :: "'v pool \<Rightarrow> nat" where
  "steps_left s = sum_list (map (\<lambda>t. case t of Waiting \<Rightarrow> 2 | Holding \<Rightarrow> 1 | Finished \<Rightarrow> 0) (pl_tasks s)) +
     (if pl_caller_gone s then 0 else 1)"

lemma sum_list_decrease:
  fixes f :: "'b \<Rightarrow> nat"
  shows "i < length ts \<Longrightarrow> f t < f (ts ! i) \<Longrightarrow> sum_list (map f (ts[i := t])) < sum_list (map f ts)"
proof (induction ts arbitrary: i)
  case (Cons x ts)
  then show ?case by (cases i) auto
qed simp

lemma step_decreases: "pool_step parallel work s s' \<Longrightarrow> steps_left s' < steps_left s"
  by (induction rule: pool_step.induct)
    (auto simp: steps_left_def take_slot_def leave_def deliver_def report_def Let_def intro!: sum_list_decrease)

lemma step_possible:
  assumes "pool_ok s" "\<not> pool_done s"
  shows "\<exists>s'. pool_step parallel work s s' \<and> pl_caller_gone s' = pl_caller_gone s"
proof -
  from assms(2) obtain i where i: "i < length (pl_tasks s)" "pl_tasks s ! i \<noteq> Finished"
    by (auto simp: pool_done_def in_set_conv_nth)
  show ?thesis
  proof (cases "\<exists>k < length (pl_tasks s). pl_tasks s ! k = Holding")
    case True
    then obtain k where k: "k < length (pl_tasks s)" "pl_tasks s ! k = Holding" by blast
    show ?thesis
    proof (cases "work k")
      case (Inl e)
      have "pool_step parallel work s (report k e s)" by (rule pool_step.fail [OF k]) (simp add: Inl)
      then show ?thesis by (rule exI [of _ "report k e s", OF conjI]) (simp add: report_def Let_def)
    next
      case (Inr ws)
      have "pool_step parallel work s (deliver k ws s)" by (rule pool_step.succeed [OF k]) (rule Inr)
      then show ?thesis
        by (rule exI [of _ "deliver k ws s", OF conjI]) (simp add: pool_fields)
    qed
  next
    case False
    then have "{k. k < n \<and> pl_tasks s ! k = Holding} = {}" using assms(1) by (auto simp: pool_ok_def)
    then have "pl_used s < parallel" using assms(1) slots by (simp only: pool_ok_def card.empty)
    moreover have w: "pl_tasks s ! i = Waiting" using i False by (cases "pl_tasks s ! i") auto
    ultimately have "pool_step parallel work s (take_slot i s)" by (intro pool_step.acquire i w)
    then show ?thesis by (rule exI [of _ "take_slot i s", OF conjI]) (simp add: pool_fields)
  qed
qed

lemma outcome_sequential:
  assumes "pool_outcome parallel work n out False r"
  shows "case in_sequence work [0..<n] out of Inr o' \<Rightarrow> r = Inr o' | Inl _ \<Rightarrow> \<exists>i < n. \<exists>e. work i = Inl e \<and> r = Inl e"
  using assms result_sequential by (auto simp: pool_outcome_def)

lemma outcome_written:
  assumes "pool_outcome parallel work n out False r"
  shows "case r of Inr o' \<Rightarrow> written {..<n} o' | Inl e \<Rightarrow> \<exists>i < n. work i = Inl e"
proof (cases "\<exists>i \<in> set [0..<n]. \<exists>e. work i = Inl e")
  case True
  from in_sequence_error [OF True, of out] outcome_sequential [OF assms]
  obtain i e where "i < n" "work i = Inl e" "r = Inl e" by (auto split: sum.splits)
  then show ?thesis by auto
next
  case False
  then have "\<forall>i \<in> set [0..<n]. \<exists>ws. work i = Inr ws" by (metis sumE)
  from in_sequence_written [OF written_start _ _ this] outcome_sequential [OF assms] show ?thesis
    by (auto simp: atLeast0LessThan)
qed

lemma completes: "pool_ok s \<Longrightarrow> \<exists>s'. schedule_of parallel work s s' \<and> pool_done s' \<and> pl_caller_gone s' = pl_caller_gone s"
proof (induction "steps_left s" arbitrary: s rule: less_induct)
  case less
  show ?case
  proof (cases "pool_done s")
    case False
    from step_possible [OF less.prems False] obtain s1
      where s1: "pool_step parallel work s s1" "pl_caller_gone s1 = pl_caller_gone s" by blast
    from less.hyps [OF step_decreases [OF s1(1)] pool_ok_step [OF s1(1) less.prems]] s1 show ?thesis
      by (metis converse_rtranclp_into_rtranclp)
  qed blast
qed

lemma outcome_exists: "\<exists>r. pool_outcome parallel work n out False r"
  using completes [OF pool_ok_start] unfolding pool_outcome_def by (auto simp: start_pool_def)

lemma schedules_end: "wf {(s', s). pool_step parallel work s s'}"
  by (rule wf_subset [OF wf_measure [of steps_left]]) (auto dest: step_decreases)

end

text \<open>The slice keeps its length in every schedule.\<close>

lemma pool_outcome_length:
  assumes "pool_outcome parallel work n out gone (Inr o')"
  shows "length o' = length out"
proof -
  have "length (pl_out s) = length out" if "schedule_of parallel work (start_pool n out) s" for s
    using that
  proof (induction rule: rtranclp_induct)
    case (step s s')
    from step.hyps(2) have "length (pl_out s') = length (pl_out s)"
      by (cases rule: pool_step.cases) (auto simp: take_slot_def leave_def deliver_def report_def Let_def)
    with step.IH show ?case by simp
  qed (simp add: start_pool_def)
  with assms show ?thesis by (auto simp: pool_outcome_def pool_result_def split: option.splits)
qed

text \<open>If the caller's context is cancelled, every goroutine may leave in the first \<open>select\<close>: then the batch
  succeeds with a slice into which nothing was written.\<close>

lemma pool_outcome_abandoned: "pool_outcome parallel work n out True (Inr out)"
proof -
  let ?a = "(start_pool n out)\<lparr>pl_cancelled := True, pl_caller_gone := True\<rparr>"
  let ?s = "\<lambda>k. ?a\<lparr>pl_tasks := replicate k Finished @ replicate (n - k) Waiting\<rparr>"
  have "schedule_of parallel work ?a (?s k)" if "k \<le> n" for k
    using that
  proof (induction k)
    case 0
    then show ?case by (simp add: start_pool_def)
  next
    case (Suc k)
    then have n: "n - k = Suc (n - Suc k)" by simp
    have "(replicate k Finished @ replicate (n - k) Waiting)[k := Finished] = replicate (Suc k) Finished @ replicate (n - Suc k) Waiting"
      unfolding n by (simp add: list_update_append replicate_append_same)
    then have "leave k (?s k) = ?s (Suc k)" by (simp add: leave_def)
    moreover have "pool_step parallel work (?s k) (leave k (?s k))"
      using Suc.prems by (intro pool_step.skip) (auto simp: nth_append)
    ultimately show ?case using Suc by (metis Suc_leD rtranclp.rtrancl_into_rtrancl)
  qed
  from this [of n] have "schedule_of parallel work ?a (?s n)" by simp
  moreover have "pool_step parallel work (start_pool n out) ?a"
    by (rule pool_step.abandon) (simp add: start_pool_def)
  ultimately have "schedule_of parallel work (start_pool n out) (?s n)" by (rule converse_rtranclp_into_rtranclp [rotated])
  moreover have "pool_done (?s n)" by (simp add: pool_done_def)
  moreover have "pool_result (?s n) = Inr out" by (simp add: pool_result_def start_pool_def)
  ultimately show ?thesis unfolding pool_outcome_def by (intro exI [of _ "?s n"]) simp
qed

end
