(* ===== verification/ModelScorer.thy ===== *)
theory ModelScorer
  imports GoNumbers
begin

text \<open>
  Reading the scores a language model replies (\<open>scorer/ollama/scorer.go\<close>, \<open>scorer/openrouter/scorer.go\<close>):
  a single score, and the list of scores of a batch, as JSON or as the last numbers of the text. Sending
  the prompt and receiving the reply is an argument, and so is \<open>json.Unmarshal\<close> into the reply's struct.
\<close>

section \<open>Cleaning a reply\<close>

text \<open>\<open>(?is)<think>.*?</think>\<close> replaced by a blank: from the first opening tag that is closed to the
  first closing tag after it.\<close>

function strip_think_blocks :: "string \<Rightarrow> string" where
  "strip_think_blocks s =
     (case index_of (to_lower s) ''<think>'' of
        None \<Rightarrow> s
      | Some i \<Rightarrow> (case index_of (to_lower (drop (i + 7) s)) ''</think>'' of
            None \<Rightarrow> s
          | Some j \<Rightarrow> take i s @ '' '' @
              (if s = [] then [] else strip_think_blocks (drop (i + 7 + j + 8) s))))"
  by pat_completeness auto
termination by (relation "measure length") auto

declare strip_think_blocks.simps [simp del]

definition think_tag_pattern :: regex where
  "think_tag_pattern = fold_case (lit ''</?think>'')"

definition sanitize_model_output :: "string \<Rightarrow> string" where
  "sanitize_model_output raw =
     (let out = trim_space raw in
      if out = [] then []
      else trim_space (re_replace_all think_tag_pattern (strip_think_blocks out) '' ''))"

section \<open>Scores\<close>

definition number_pattern :: regex where
  "number_pattern = Seq (opt (Cls (\<lambda>c. c = CHR ''-'' \<or> c = CHR ''+'')))
     (alts [seqs [plus1 (Cls re_digit), opt (Cls (\<lambda>c. c = CHR ''.'')), Star (Cls re_digit)],
            Seq (Cls (\<lambda>c. c = CHR ''.'')) (plus1 (Cls re_digit))])"

definition err_parse_float :: err where
  "err_parse_float = ErrMsg ''strconv.ParseFloat''"

definition clamp_model_score :: "real \<Rightarrow> real" where
  "clamp_model_score v = (if v < 0 then 0 else if v > 1 then 1 else v)"

definition parse_score :: "string \<Rightarrow> err + real" where
  "parse_score raw =
     (let trimmed = sanitize_model_output raw; ms = re_find_all number_pattern trimmed in
      if trimmed = [] then Inl (ErrMsg ''empty scorer response'')
      else if ms = [] then Inl (ErrMsg ''no numeric score found'')
      else case parse_float (last ms) of
        None \<Rightarrow> Inl err_parse_float
      | Some p \<Rightarrow> Inr (if p < 0 then 0 else if p > 1 then 1 else p))"

text \<open>\<open>Score\<close> of either client: the empty text is worth nothing and is not sent.\<close>

definition model_score :: "(string \<Rightarrow> err + string) \<Rightarrow> string \<Rightarrow> err + real" where
  "model_score generate content0 =
     (let content = trim_space content0 in
      if content = [] then Inr 0
      else case generate content of Inl e \<Rightarrow> Inl e | Inr raw \<Rightarrow> parse_score raw)"

definition parse_scores_json :: "(string \<Rightarrow> real list option) \<Rightarrow> string \<Rightarrow> real list option" where
  "parse_scores_json unmarshal inp =
     (case unmarshal inp of None \<Rightarrow> None | Some xs \<Rightarrow> if xs = [] then None else Some (map clamp_model_score xs))"

fun parse_each_score :: "string list \<Rightarrow> err + real list" where
  "parse_each_score [] = Inr []"
| "parse_each_score (m # ms) =
     (case parse_float m of
        None \<Rightarrow> Inl err_parse_float
      | Some v \<Rightarrow> (case parse_each_score ms of Inl e \<Rightarrow> Inl e | Inr vs \<Rightarrow> Inr (clamp_model_score v # vs)))"

definition count_checked :: "nat \<Rightarrow> real list \<Rightarrow> err + real list" where
  "count_checked want xs = (if length xs \<noteq> want then Inl (ErrMsg ''score count mismatch'') else Inr xs)"

definition parse_score_list :: "(string \<Rightarrow> real list option) \<Rightarrow> string \<Rightarrow> nat \<Rightarrow> err + real list" where
  "parse_score_list unmarshal raw want =
     (let trimmed = sanitize_model_output raw;
          ms = re_find_all number_pattern trimmed;
          braced = (case index_of trimmed ''{'' of
              None \<Rightarrow> None
            | Some i \<Rightarrow> (case last_index_of trimmed ''}'' of
                None \<Rightarrow> None
              | Some j \<Rightarrow> if j > i then parse_scores_json unmarshal (drop i (take (j + 1) trimmed)) else None)) in
      if want = 0 then Inr []
      else if trimmed = [] then Inl (ErrMsg ''empty scorer response'')
      else case parse_scores_json unmarshal trimmed of
        Some xs \<Rightarrow> count_checked want xs
      | None \<Rightarrow> (case braced of
          Some xs \<Rightarrow> count_checked want xs
        | None \<Rightarrow>
            if length ms < want then Inl (ErrMsg ''expected more scores'')
            else parse_each_score (drop (length ms - want) ms)))"

definition score_batch ::
  "(string list \<Rightarrow> err + string) \<Rightarrow> (string \<Rightarrow> real list option) \<Rightarrow> string list \<Rightarrow> err + real list" where
  "score_batch generate unmarshal texts =
     (if texts = [] then Inr []
      else case generate texts of Inl e \<Rightarrow> Inl e | Inr raw \<Rightarrow> parse_score_list unmarshal raw (length texts))"

section \<open>Laws\<close>

lemma clamp_model_range: "0 \<le> clamp_model_score v \<and> clamp_model_score v \<le> 1"
  by (simp add: clamp_model_score_def)

lemma parse_each_score_range:
  "parse_each_score ms = Inr xs \<Longrightarrow> length xs = length ms \<and> (\<forall>x \<in> set xs. 0 \<le> x \<and> x \<le> 1)"
  by (induction ms arbitrary: xs) (auto simp: clamp_model_range split: option.splits sum.splits)

lemma parse_scores_json_range: "parse_scores_json u s = Some xs \<Longrightarrow> \<forall>x \<in> set xs. 0 \<le> x \<and> x \<le> 1"
  by (auto simp: parse_scores_json_def clamp_model_range split: option.splits if_splits)

lemma parse_score_list_range:
  assumes "parse_score_list u raw n = Inr xs"
  shows "length xs = n \<and> (\<forall>x \<in> set xs. 0 \<le> x \<and> x \<le> 1)"
  using assms
  by (auto simp: parse_score_list_def count_checked_def Let_def dest: parse_each_score_range parse_scores_json_range
      split: if_splits option.splits)

text \<open>Whatever the model replies, a score that is accepted lies in the unit interval, and an accepted
  list has exactly as many scores as texts were sent; a blank text has score 0 and is not sent.\<close>

theorem model_scores_valid:
  "(\<forall>x. model_score generate s = Inr x \<longrightarrow> 0 \<le> x \<and> x \<le> 1) \<and>
   (trim_space s = [] \<longrightarrow> model_score generate s = Inr 0) \<and>
   (\<forall>xs. score_batch generates unmarshal texts = Inr xs \<longrightarrow>
      length xs = length texts \<and> (\<forall>x \<in> set xs. 0 \<le> x \<and> x \<le> 1))"
  by (auto simp: model_score_def parse_score_def score_batch_def Let_def dest: parse_score_list_range
      split: if_splits option.splits sum.splits)

lemma model_scores_valid_witness:
  "score_batch (\<lambda>_. Inr ''x'') (\<lambda>_. Some [2]) [''a''] = Inr [1] \<and> (0::real) \<le> 1"
proof -
  have "sanitize_model_output ''x'' = ''x''" by code_simp
  then have "score_batch (\<lambda>_. Inr ''x'') (\<lambda>_. Some [2]) [''a''] = Inr [1]"
    by (simp add: score_batch_def parse_score_list_def parse_scores_json_def count_checked_def clamp_model_score_def)
  with model_scores_valid [of "\<lambda>_. Inr []" "[]" "\<lambda>_. Inr ''x''" "\<lambda>_. Some [2]" "[''a'']"]
  show ?thesis by simp
qed

end
