(* ===== verification/Providers.thy ===== *)
theory Providers
  imports BatchPool ModelScorer HeuristicParser
begin

text \<open>
  The clients of model servers: importance scores in batches (\<open>scorer/ollama/scorer.go\<close>,
  \<open>scorer/openrouter/scorer.go\<close>) and embeddings (\<open>embeddings/openrouter/embedder.go\<close> in parallel chunks,
  \<open>embeddings/ollama/embedder.go\<close> with retries on ever shorter texts). The exchange with the server is an
  argument. Runes are the bytes of an ASCII text.
\<close>

section \<open>Batches of scores\<close>

definition bounded_parallel :: "nat \<Rightarrow> nat \<Rightarrow> nat" where
  "bounded_parallel limit n = (let p = (if limit < 1 then 1 else limit) in if p > n then n else p)"

definition ollama_max_parallel_scores :: nat where
  "ollama_max_parallel_scores = 4"

definition ollama_score_work :: "(string \<Rightarrow> err + string) \<Rightarrow> string list \<Rightarrow> nat \<Rightarrow> err + (nat \<times> real) list" where
  "ollama_score_work generate texts i =
     (case model_score generate (texts ! i) of Inl e \<Rightarrow> Inl e | Inr x \<Rightarrow> Inr [(i, x)])"

definition ollama_batch_score ::
  "(string \<Rightarrow> err + string) \<Rightarrow> string list \<Rightarrow> bool \<Rightarrow> err + real list \<Rightarrow> bool" where
  "ollama_batch_score generate texts gone r \<longleftrightarrow>
     (if texts = [] then r = Inr []
      else pool_outcome (bounded_parallel ollama_max_parallel_scores (length texts))
             (ollama_score_work generate texts) (length texts) (replicate (length texts) 0) gone r)"

text \<open>\<open>chunkTexts\<close> and \<open>chunkScoringTexts\<close> are the same function.\<close>

function chunks_from :: "nat \<Rightarrow> nat \<Rightarrow> 'a list \<Rightarrow> (nat \<times> 'a list) list" where
  "chunks_from start k ts =
     (if ts = [] \<or> k = 0 then [] else (start, take k ts) # chunks_from (start + k) k (drop k ts))"
  by pat_completeness auto
termination by (relation "measure (\<lambda>(s, k, ts). length ts)") auto

declare chunks_from.simps [simp del]

definition chunk_texts :: "'a list \<Rightarrow> nat \<Rightarrow> (nat \<times> 'a list) list" where
  "chunk_texts texts k = (if k = 0 \<or> length texts \<le> k then [(0, texts)] else chunks_from 0 k texts)"

definition open_router_max_batch :: nat where
  "open_router_max_batch = 50"

definition open_router_max_parallel :: nat where
  "open_router_max_parallel = 8"

definition active_indices :: "string list \<Rightarrow> nat list" where
  "active_indices texts = filter (\<lambda>i. trim_space (texts ! i) \<noteq> []) [0..<length texts]"

definition open_router_score_work ::
  "(string list \<Rightarrow> err + string) \<Rightarrow> (string \<Rightarrow> real list option) \<Rightarrow> nat list \<Rightarrow> (nat \<times> string list) list \<Rightarrow>
   nat \<Rightarrow> err + (nat \<times> real) list" where
  "open_router_score_work generate unmarshal active chunks k =
     (case chunks ! k of (start, ts) \<Rightarrow>
        (case score_batch generate unmarshal ts of
           Inl e \<Rightarrow> Inl e
         | Inr scores \<Rightarrow> Inr (map (\<lambda>i. (active ! (start + i), clamp_model_score (scores ! i))) [0..<length scores])))"

definition open_router_batch_score ::
  "(string list \<Rightarrow> err + string) \<Rightarrow> (string \<Rightarrow> real list option) \<Rightarrow> string list \<Rightarrow> bool \<Rightarrow> err + real list \<Rightarrow> bool" where
  "open_router_batch_score generate unmarshal texts gone r \<longleftrightarrow>
     (let active = active_indices texts; zeros = replicate (length texts) 0;
          chunks = chunk_texts (map (\<lambda>i. texts ! i) active) open_router_max_batch in
      if texts = [] then r = Inr []
      else if active = [] then r = Inr zeros
      else pool_outcome (bounded_parallel open_router_max_parallel (length chunks))
             (open_router_score_work generate unmarshal active chunks) (length chunks) zeros gone r)"

section \<open>Batches of embeddings\<close>

text \<open>The loop over the reply's data: every item has an embedding and the index of its text; an index out
  of range is replaced by the position of the item.\<close>

fun place_vectors :: "nat \<Rightarrow> nat \<Rightarrow> (real list \<times> int) list \<Rightarrow> real list list \<Rightarrow> err + real list list" where
  "place_vectors n i [] out = Inr out"
| "place_vectors n i ((v, idx) # items) out =
     (if v = [] then Inl (ErrMsg ''openrouter embeddings response has empty embedding'')
      else place_vectors n (i + 1) items (out[(if idx < 0 \<or> int n \<le> idx then i else nat idx) := v]))"

definition none_missing :: "real list list \<Rightarrow> err + real list list" where
  "none_missing out =
     (if [] \<in> set out then Inl (ErrMsg ''openrouter embeddings response missing embedding'') else Inr out)"

definition embed_batch ::
  "(string list \<Rightarrow> err + (real list \<times> int) list) \<Rightarrow> string list \<Rightarrow> err + real list list" where
  "embed_batch post texts =
     (case post texts of Inl e \<Rightarrow> Inl e
      | Inr data \<Rightarrow>
          if length data \<noteq> length texts then Inl (ErrMsg ''openrouter embeddings count mismatch'')
          else case place_vectors (length texts) 0 data (replicate (length texts) []) of
            Inl e \<Rightarrow> Inl e | Inr out \<Rightarrow> none_missing out)"

definition embed_work ::
  "(string list \<Rightarrow> err + (real list \<times> int) list) \<Rightarrow> (nat \<times> string list) list \<Rightarrow> nat \<Rightarrow> err + (nat \<times> real list) list" where
  "embed_work post chunks k =
     (case chunks ! k of (start, ts) \<Rightarrow>
        (case embed_batch post ts of Inl e \<Rightarrow> Inl e
         | Inr vs \<Rightarrow> Inr (map (\<lambda>i. (start + i, vs ! i)) [0..<length vs])))"

definition open_router_batch_embed ::
  "(string list \<Rightarrow> err + (real list \<times> int) list) \<Rightarrow> string list \<Rightarrow> bool \<Rightarrow> err + real list list \<Rightarrow> bool" where
  "open_router_batch_embed post texts gone r \<longleftrightarrow>
     (let chunks = chunk_texts texts open_router_max_batch in
      if texts = [] then r = Inr []
      else if length texts \<le> open_router_max_batch then r = embed_batch post texts
      else \<exists>r0. pool_outcome (bounded_parallel open_router_max_parallel (length chunks)) (embed_work post chunks)
             (length chunks) (replicate (length texts) []) gone r0 \<and>
             r = (case r0 of Inl e \<Rightarrow> Inl e | Inr out \<Rightarrow> none_missing out))"

section \<open>Embeddings with retries\<close>

definition truncate_to_runes :: "string \<Rightarrow> nat \<Rightarrow> string" where
  "truncate_to_runes s n = take n s"

definition truncate_texts_to_runes :: "string list \<Rightarrow> nat \<Rightarrow> string list \<times> bool" where
  "truncate_texts_to_runes texts n =
     (map (\<lambda>t. if length t \<le> n then t else truncate_to_runes t n) texts, list_ex (\<lambda>t. \<not> length t \<le> n) texts)"

definition max_text_runes :: "string list \<Rightarrow> nat" where
  "max_text_runes texts = fold (\<lambda>t m. if length t > m then length t else m) texts 0"

definition retry_limits :: "nat list" where
  "retry_limits = [4096, 3072, 2048, 1536, 1024, 768, 512, 384, 256, 192, 128, 96]"

definition is_context_length_err :: "(err \<Rightarrow> string) \<Rightarrow> err \<Rightarrow> bool" where
  "is_context_length_err msg e =
     (let m = to_lower (msg e) in
      str_contains m ''input length exceeds the context length'' \<or> str_contains m ''context length exceeded'')"

definition batch_embed_request ::
  "(string list \<Rightarrow> err + real list list) \<Rightarrow> string list \<Rightarrow> err + real list list" where
  "batch_embed_request post texts =
     (case post texts of Inl e \<Rightarrow> Inl e
      | Inr vs \<Rightarrow>
          if length vs \<noteq> length texts then Inl (ErrMsg ''ollama embed response count mismatch'')
          else if [] \<in> set vs then Inl (ErrMsg ''ollama embed response has empty embedding'')
          else Inr vs)"

text \<open>The requests of one batch may be answered differently each time: \<open>post k\<close> answers the k-th. The
  result comes with the texts that were sent last.\<close>

fun retry_truncated ::
  "(err \<Rightarrow> string) \<Rightarrow> (nat \<Rightarrow> string list \<Rightarrow> err + real list list) \<Rightarrow> string list \<Rightarrow> nat list \<Rightarrow> nat \<Rightarrow> string list \<Rightarrow>
   err \<Rightarrow> (err + real list list) \<times> string list" where
  "retry_truncated msg post texts [] k sent e = (Inl e, sent)"
| "retry_truncated msg post texts (n # ns) k sent e =
     (if max_text_runes texts \<le> n \<or> \<not> snd (truncate_texts_to_runes texts n)
      then retry_truncated msg post texts ns k sent e
      else let short = fst (truncate_texts_to_runes texts n) in
        case batch_embed_request (post k) short of
          Inr vs \<Rightarrow> (Inr vs, short)
        | Inl e' \<Rightarrow> if is_context_length_err msg e' then retry_truncated msg post texts ns (k + 1) short e'
                   else (Inl e', short))"

definition ollama_batch_embed ::
  "(err \<Rightarrow> string) \<Rightarrow> (nat \<Rightarrow> string list \<Rightarrow> err + real list list) \<Rightarrow> string list \<Rightarrow> (err + real list list) \<times> string list" where
  "ollama_batch_embed msg post texts =
     (if texts = [] then (Inr [], [])
      else case batch_embed_request (post 0) texts of
        Inr vs \<Rightarrow> (Inr vs, texts)
      | Inl e \<Rightarrow> if is_context_length_err msg e then retry_truncated msg post texts retry_limits 1 texts e
                else (Inl e, texts))"

definition ollama_embed ::
  "(err \<Rightarrow> string) \<Rightarrow> (nat \<Rightarrow> string list \<Rightarrow> err + real list list) \<Rightarrow> string \<Rightarrow> err + real list" where
  "ollama_embed msg post s =
     (case fst (ollama_batch_embed msg post [s]) of Inl e \<Rightarrow> Inl e | Inr vs \<Rightarrow> Inr (vs ! 0))"

section \<open>Chunks\<close>

definition chunk_width :: "nat \<Rightarrow> 'a list \<Rightarrow> nat" where
  "chunk_width k ts = (if k = 0 \<or> length ts \<le> k then length ts else k)"

lemma chunks_from_nth:
  "0 < k \<Longrightarrow> m < length (chunks_from s k ts) \<Longrightarrow> chunks_from s k ts ! m = (s + m * k, take k (drop (m * k) ts))"
proof (induction s k ts arbitrary: m rule: chunks_from.induct)
  case (1 s k ts)
  show ?case
  proof (cases "ts = []")
    case True
    with 1 show ?thesis by (simp add: chunks_from.simps)
  next
    case False
    then have u: "chunks_from s k ts = (s, take k ts) # chunks_from (s + k) k (drop k ts)"
      using 1(2) by (simp add: chunks_from.simps [of s k ts])
    show ?thesis
      using 1 False unfolding u by (cases m) (simp_all add: ac_simps)
  qed
qed

lemma chunk_texts_nth:
  assumes "m < length (chunk_texts ts k)"
  shows "chunk_texts ts k ! m = (m * chunk_width k ts, take (chunk_width k ts) (drop (m * chunk_width k ts) ts))"
  using assms chunks_from_nth [of k m 0 ts]
  by (auto simp: chunk_texts_def chunk_width_def split: if_splits)

lemma chunk_texts_nonempty: "chunk_texts ts k \<noteq> []"
  by (auto simp: chunk_texts_def chunks_from.simps)

lemma bounded_parallel_pos: "0 < n \<Longrightarrow> 0 < bounded_parallel limit n"
  by (simp add: bounded_parallel_def Let_def)

text \<open>An entry of a chunk is an entry of the whole, and no two chunks share one.\<close>

lemma chunk_entry:
  assumes "m < length (chunk_texts ts k)" "chunk_texts ts k ! m = (start, us)" "i < length us"
  shows "start + i < length ts" "i < chunk_width k ts" "start = m * chunk_width k ts" "us ! i = ts ! (start + i)"
  using assms chunk_texts_nth [OF assms(1)] by auto

lemma chunk_entries_apart:
  assumes "m < length (chunk_texts ts k)" "chunk_texts ts k ! m = (start, us)" "i < length us"
    and "m' < length (chunk_texts ts k)" "chunk_texts ts k ! m' = (start', us')" "i' < length us'"
    and "start + i = start' + i'"
  shows "m = m'"
proof -
  let ?c = "chunk_width k ts"
  note e = chunk_entry [OF assms(1-3)] and e' = chunk_entry [OF assms(4-6)]
  have "(m * ?c + i) div ?c = m" "(m' * ?c + i') div ?c = m'" using e(2) e'(2) by simp_all
  with assms(7) e(3) e'(3) show ?thesis by simp
qed

section \<open>The pools\<close>

interpretation ollama_pool: task_pool "bounded_parallel limit (length (t # ts))" "length (t # ts)"
  "ollama_score_work generate (t # ts)" "replicate (length (t # ts)) 0" for limit generate t ts
  by unfold_locales
    (auto simp: bounded_parallel_pos ollama_score_work_def split: sum.splits)

lemma score_batch_length: "score_batch g u ts = Inr xs \<Longrightarrow> length xs = length ts"
  by (auto simp: score_batch_def dest: parse_score_list_range split: if_splits sum.splits)

lemma active_indices_props: "distinct (active_indices texts)" "i \<in> set (active_indices texts) \<Longrightarrow> i < length texts"
  by (simp_all add: active_indices_def)

interpretation score_pool: task_pool
  "bounded_parallel limit (length (chunk_texts (map (\<lambda>i. texts ! i) (active_indices texts)) k))"
  "length (chunk_texts (map (\<lambda>i. texts ! i) (active_indices texts)) k)"
  "open_router_score_work generate unmarshal (active_indices texts) (chunk_texts (map (\<lambda>i. texts ! i) (active_indices texts)) k)"
  "replicate (length texts) 0" for limit k generate unmarshal texts
proof unfold_locales
  let ?a = "active_indices texts" and ?cs = "chunk_texts (map (\<lambda>i. texts ! i) (active_indices texts)) k"
  let ?work = "open_router_score_work generate unmarshal ?a ?cs"
  have run: "\<exists>start us xs. ?cs ! m = (start, us) \<and> length xs = length us \<and>
      ws = map (\<lambda>i. (?a ! (start + i), clamp_model_score (xs ! i))) [0..<length us]"
    if "?work m = Inr ws" for m ws
    using that score_batch_length [of generate unmarshal "snd (?cs ! m)"]
    by (cases "?cs ! m") (auto simp: open_router_score_work_def split: sum.splits)
  show "0 < bounded_parallel limit (length ?cs)" by (simp add: bounded_parallel_pos chunk_texts_nonempty)
  show "distinct (map fst ws)" if m: "m < length ?cs" "?work m = Inr ws" for m ws
  proof -
    from run [OF m(2)] obtain start us xs where c: "?cs ! m = (start, us)"
      and ws: "ws = map (\<lambda>i. (?a ! (start + i), clamp_model_score (xs ! i))) [0..<length us]" by blast
    have "start + i < length ?a" if "i < length us" for i using chunk_entry(1) [OF m(1) c that] by simp
    then have "inj_on (\<lambda>i. ?a ! (start + i)) {..<length us}"
      using active_indices_props(1) [of texts] by (auto simp: inj_on_def nth_eq_iff_index_eq)
    then show ?thesis by (simp add: ws distinct_map comp_def atLeast0LessThan)
  qed
  show "j < length (replicate (length texts) 0)" if m: "m < length ?cs" "?work m = Inr ws" "j \<in> fst ` set ws" for m ws j
  proof -
    from run [OF m(2)] m(3) obtain start us i where c: "?cs ! m = (start, us)" and i: "i < length us" "j = ?a ! (start + i)"
      by auto
    have "start + i < length ?a" using chunk_entry(1) [OF m(1) c i(1)] by simp
    with i(2) show ?thesis using active_indices_props(2) [of "?a ! (start + i)" texts] by simp
  qed
  show "m = m'" if m: "m < length ?cs" "m' < length ?cs" "?work m = Inr ws" "?work m' = Inr ws'"
    "j \<in> fst ` set ws" "j \<in> fst ` set ws'" for m m' ws ws' j
  proof -
    from run [OF m(3)] m(5) obtain start us i where c: "?cs ! m = (start, us)" and i: "i < length us" "j = ?a ! (start + i)"
      by auto
    from run [OF m(4)] m(6) obtain start' us' i' where c': "?cs ! m' = (start', us')"
      and i': "i' < length us'" "j = ?a ! (start' + i')" by auto
    have "start + i < length ?a" "start' + i' < length ?a"
      using chunk_entry(1) [OF m(1) c i(1)] chunk_entry(1) [OF m(2) c' i'(1)] by simp_all
    with i(2) i'(2) have "start + i = start' + i'"
      using active_indices_props(1) [of texts] by (simp add: nth_eq_iff_index_eq)
    then show ?thesis by (rule chunk_entries_apart [OF m(1) c i(1) m(2) c' i'(1)])
  qed
qed

lemma place_vectors_length: "place_vectors n i items out = Inr out' \<Longrightarrow> length out' = length out"
  by (induction n i items out rule: place_vectors.induct) (auto split: if_splits)

lemma embed_batch_length: "embed_batch post ts = Inr vs \<Longrightarrow> length vs = length ts \<and> [] \<notin> set vs"
  by (auto simp: embed_batch_def none_missing_def dest!: place_vectors_length split: sum.splits if_splits)

interpretation embed_pool: task_pool "bounded_parallel limit (length (chunk_texts texts k))"
  "length (chunk_texts texts k)" "embed_work post (chunk_texts texts k)" "replicate (length texts) []" for limit k post texts
proof unfold_locales
  let ?cs = "chunk_texts texts k" and ?work = "embed_work post (chunk_texts texts k)"
  have run: "\<exists>start us vs. ?cs ! m = (start, us) \<and> ws = map (\<lambda>i. (start + i, vs ! i)) [0..<length us]"
    if "?work m = Inr ws" for m ws
    using that embed_batch_length [of post "snd (?cs ! m)"]
    by (cases "?cs ! m") (auto simp: embed_work_def split: sum.splits)
  show "0 < bounded_parallel limit (length ?cs)" by (simp add: bounded_parallel_pos chunk_texts_nonempty)
  show "distinct (map fst ws)" if "m < length ?cs" "?work m = Inr ws" for m ws
    using run [OF that(2)] by (auto simp: distinct_map comp_def inj_on_def)
  show "j < length (replicate (length texts) [])" if "m < length ?cs" "?work m = Inr ws" "j \<in> fst ` set ws" for m ws j
    using run [OF that(2)] that(3) chunk_entry(1) [OF that(1)] by auto
  show "m = m'" if "m < length ?cs" "m' < length ?cs" "?work m = Inr ws" "?work m' = Inr ws'"
    "j \<in> fst ` set ws" "j \<in> fst ` set ws'" for m m' ws ws' j
    using run [OF that(3)] run [OF that(4)] that(5,6) chunk_entries_apart [OF that(1) _ _ that(2)] by auto
qed

section \<open>What a batch returns\<close>

lemma checked_result:
  "Inr vs = (case r of Inl e \<Rightarrow> Inl e | Inr out \<Rightarrow> none_missing out) \<longleftrightarrow> r = Inr vs \<and> [] \<notin> set vs"
  by (cases r) (auto simp: none_missing_def)

lemma ollama_scores_written:
  assumes "ollama_batch_score generate texts False (Inr xs)" "i < length texts"
  shows "model_score generate (texts ! i) = Inr (xs ! i)"
proof -
  from assms(2) obtain t ts where ts: "texts = t # ts" by (cases texts) auto
  with assms(1) have "ollama_pool.written generate t ts {..<length texts} xs"
    using ollama_pool.outcome_written [of ollama_max_parallel_scores t ts generate "Inr xs"]
    by (simp add: ollama_batch_score_def)
  then have "\<exists>ws. ollama_score_work generate texts i = Inr ws \<and> (\<forall>(j, v) \<in> set ws. xs ! j = v)"
    using assms(2) unfolding ollama_pool.written_def ts by blast
  then show ?thesis by (auto simp: ollama_score_work_def split: sum.splits)
qed

text \<open>C21 Parallelism of the Ollama scorer does not show: however the goroutines of a batch are scheduled, as long as the caller
  waits, a batch that returns scores returns for each text, at its place, the score that scoring it alone
  gives; a batch that fails fails with the error of one of its texts; a batch with no failing text does not
  fail; and every batch can be completed.\<close>

theorem batch_scores_like_single:
  "(\<exists>r. ollama_batch_score generate texts False r) \<and>
   (ollama_batch_score generate texts False (Inr xs) \<longrightarrow>
      length xs = length texts \<and> (\<forall>i < length texts. model_score generate (texts ! i) = Inr (xs ! i))) \<and>
   (ollama_batch_score generate texts False (Inl e) \<longrightarrow> (\<exists>t \<in> set texts. model_score generate t = Inl e))"
proof (intro conjI impI allI)
  show "\<exists>r. ollama_batch_score generate texts False r"
    using ollama_pool.outcome_exists by (cases texts) (simp_all add: ollama_batch_score_def)
next
  assume "ollama_batch_score generate texts False (Inr xs)"
  then show "length xs = length texts"
    using pool_outcome_length by (fastforce simp: ollama_batch_score_def split: if_splits)
next
  fix i assume "ollama_batch_score generate texts False (Inr xs)" "i < length texts"
  then show "model_score generate (texts ! i) = Inr (xs ! i)" by (rule ollama_scores_written)
next
  assume e: "ollama_batch_score generate texts False (Inl e)"
  then obtain t ts where ts: "texts = t # ts" by (cases texts) (auto simp: ollama_batch_score_def)
  with e obtain i where "i < length texts" "ollama_score_work generate texts i = Inl e"
    using ollama_pool.outcome_written [of ollama_max_parallel_scores t ts generate "Inl e"]
    by (auto simp: ollama_batch_score_def)
  then show "\<exists>t \<in> set texts. model_score generate t = Inl e"
    by (intro bexI [of _ "texts ! i"]) (auto simp: ollama_score_work_def split: sum.splits)
qed

text \<open>C22 A batch of scores of the Ollama scorer comes to an end, whatever the schedule: with n texts no schedule has more than 2 n + 1
  steps, never more tasks than four (its limit) hold a slot, and as long as a task is not done some task can go on, so that
  none waits for ever, with the caller there or gone.\<close>

theorem batches_end:
  assumes "texts \<noteq> []"
    and "(pool_step (bounded_parallel ollama_max_parallel_scores (length texts)) (ollama_score_work generate texts) ^^ k)
      (start_pool (length texts) (replicate (length texts) 0)) s"
  shows "k \<le> 2 * length texts + 1 \<and> card {i. i < length texts \<and> pl_tasks s ! i = Holding} \<le> 4 \<and>
    (pool_done s \<or> (\<exists>s'. pool_step (bounded_parallel ollama_max_parallel_scores (length texts))
      (ollama_score_work generate texts) s s' \<and> pl_caller_gone s' = pl_caller_gone s))"
proof -
  from assms(1) obtain t ts where ts: "texts = t # ts" by (cases texts) auto
  let ?start = "start_pool (length texts) (replicate (length texts) (0::real))"
  let ?step = "pool_step (bounded_parallel ollama_max_parallel_scores (length texts)) (ollama_score_work generate texts)"
  have run: "?step\<^sup>*\<^sup>* ?start s" using assms(2) by (rule relpowp_imp_rtranclp)
  have down: "task_pool.steps_left s' + j \<le> task_pool.steps_left s0" if "(?step ^^ j) s0 s'" for j s0 s'
    using that
  proof (induction j arbitrary: s')
    case (Suc j)
    then obtain m where "(?step ^^ j) s0 m" "?step m s'" by auto
    with Suc.IH [of m] ollama_pool.step_decreases [of ollama_max_parallel_scores t ts generate m s'] show ?case
      by (simp add: ts)
  qed simp
  have "ollama_pool.steps_left ?start = 2 * length texts + 1"
    by (simp add: ollama_pool.steps_left_def start_pool_def sum_list_replicate)
  with down [OF assms(2)] have k: "k \<le> 2 * length texts + 1" by simp
  have ok: "ollama_pool.pool_ok ollama_max_parallel_scores t ts generate s"
    using ollama_pool.pool_ok_schedule [of ollama_max_parallel_scores t ts generate s] run by (simp add: ts)
  have "card {i. i < length texts \<and> pl_tasks s ! i = Holding} \<le> bounded_parallel ollama_max_parallel_scores (length texts)"
    using ollama_pool.slots_respected [of ollama_max_parallel_scores t ts generate s] run by (simp add: ts)
  then have "card {i. i < length texts \<and> pl_tasks s ! i = Holding} \<le> 4"
    by (simp add: bounded_parallel_def ollama_max_parallel_scores_def Let_def split: if_splits)
  with k ollama_pool.step_possible [OF ok] show ?thesis by (auto simp: ts)
qed

theorem batches_end_witness:
  "\<exists>s. (pool_step (bounded_parallel 4 1) (ollama_score_work (\<lambda>_. Inr ''0.5'') [''x'']) ^^ 1) (start_pool 1 [0]) s \<and>
    \<not> pool_done s \<and> (\<exists>s'. pool_step (bounded_parallel 4 1) (ollama_score_work (\<lambda>_. Inr ''0.5'') [''x'']) s s')"
proof -
  let ?work = "ollama_score_work (\<lambda>_. Inr ''0.5'') [''x'']" and ?start = "start_pool 1 [0::real]"
  have "pool_step (bounded_parallel 4 1) ?work ?start (take_slot 0 ?start)"
    by (rule pool_step.acquire) (simp_all add: start_pool_def bounded_parallel_def)
  then have run: "(pool_step (bounded_parallel 4 1) ?work ^^ 1) ?start (take_slot 0 ?start)"
    by (subst relpowp_1)
  have "\<not> pool_done (take_slot 0 ?start)" by (simp add: pool_done_def take_slot_def start_pool_def)
  with batches_end [of "[''x'']" 1 "\<lambda>_. Inr ''0.5''" "take_slot 0 ?start"] run show ?thesis
    by (auto simp: ollama_max_parallel_scores_def simp del: relpowp_1)
qed

text \<open>When the caller's context is cancelled, a batch of scores may return success with importance 0 for
  every text, whatever the model says; a batch of embeddings is checked again after the tasks have ended,
  so in every schedule, with the caller there or gone, one that succeeds has a vector for each text.\<close>

theorem cancelled_batches:
  "ollama_batch_score generate texts True (Inr (replicate (length texts) 0)) \<and>
   open_router_batch_score generates unmarshal texts True (Inr (replicate (length texts) 0)) \<and>
   (open_router_batch_embed post texts gone (Inr vs) \<longrightarrow> length vs = length texts \<and> [] \<notin> set vs)"
proof (intro conjI impI)
  show "ollama_batch_score generate texts True (Inr (replicate (length texts) 0))"
    by (simp add: ollama_batch_score_def pool_outcome_abandoned)
  show "open_router_batch_score generates unmarshal texts True (Inr (replicate (length texts) 0))"
    by (simp add: open_router_batch_score_def Let_def pool_outcome_abandoned)
next
  assume r: "open_router_batch_embed post texts gone (Inr vs)"
  have "length vs = length texts \<and> [] \<notin> set vs"
  proof (cases "texts = [] \<or> length texts \<le> open_router_max_batch")
    case True
    then show ?thesis
    proof (cases "texts = []")
      case False
      with True r have "embed_batch post texts = Inr vs" by (simp add: open_router_batch_embed_def Let_def)
      then show ?thesis by (rule embed_batch_length)
    qed (use r in \<open>simp add: open_router_batch_embed_def Let_def\<close>)
  next
    case False
    with r show ?thesis
      by (auto simp: open_router_batch_embed_def Let_def checked_result dest: pool_outcome_length)
  qed
  then show "length vs = length texts" "[] \<notin> set vs" by simp_all
qed

section \<open>Truncation\<close>

lemma truncated_texts: "fst (truncate_texts_to_runes texts n) = map (take n) texts"
  by (simp add: truncate_texts_to_runes_def truncate_to_runes_def)

lemma max_runes_fold: "fold (\<lambda>t m. if length t > m then length t else m) ts m \<le> n \<longleftrightarrow> m \<le> n \<and> (\<forall>t \<in> set ts. length t \<le> n)"
  by (induction ts arbitrary: m) auto

lemma max_text_runes_le: "max_text_runes texts \<le> n \<longleftrightarrow> (\<forall>t \<in> set texts. length t \<le> n)"
  by (simp add: max_text_runes_def max_runes_fold)

lemma batch_embed_request_ok: "batch_embed_request post ts = Inr vs \<Longrightarrow> length vs = length ts \<and> [] \<notin> set vs"
  by (auto simp: batch_embed_request_def split: sum.splits if_splits)

lemma retry_truncated_result:
  assumes "retry_truncated msg post texts ns k sent e = (r, sent')"
  shows "(\<forall>vs. r = Inr vs \<longrightarrow> length vs = length texts \<and> [] \<notin> set vs) \<and>
    (sent' = sent \<or> (\<exists>n \<in> set ns. n < max_text_runes texts \<and> sent' = map (take n) texts))"
  using assms
proof (induction msg post texts ns k sent e rule: retry_truncated.induct)
  case (2 msg post texts n ns k sent e)
  show ?case
  proof (cases "max_text_runes texts \<le> n \<or> \<not> snd (truncate_texts_to_runes texts n)")
    case True
    with 2 show ?thesis by auto
  next
    case False
    let ?short = "fst (truncate_texts_to_runes texts n)"
    show ?thesis
    proof (cases "batch_embed_request (post k) ?short")
      case (Inr vs)
      with 2(3) False batch_embed_request_ok [OF Inr] show ?thesis
        by (auto simp: truncated_texts Let_def)
    next
      case (Inl e')
      with 2 False show ?thesis by (fastforce simp: truncated_texts Let_def split: if_splits)
    qed
  qed
qed auto

text \<open>A batch of embeddings from Ollama succeeds only with one non-empty vector for each text, and the
  texts that were embedded are the given ones, each cut to at most the same number of runes, one of the
  twelve limits, which is below the length of the longest; when the first request is accepted they are the
  given ones uncut.\<close>

theorem ollama_embeddings_complete:
  assumes "ollama_batch_embed msg post texts = (r, sent)"
  shows "(\<forall>vs. r = Inr vs \<longrightarrow> length vs = length texts \<and> [] \<notin> set vs) \<and>
    (sent = texts \<or> (\<exists>n \<in> set retry_limits. n < max_text_runes texts \<and> sent = map (take n) texts)) \<and>
    (\<forall>vs. texts \<noteq> [] \<and> batch_embed_request (post 0) texts = Inr vs \<longrightarrow> r = Inr vs \<and> sent = texts)"
proof (cases "texts = []")
  case True
  with assms show ?thesis by (auto simp: ollama_batch_embed_def)
next
  case False
  show ?thesis
  proof (cases "batch_embed_request (post 0) texts")
    case (Inr vs)
    with assms False batch_embed_request_ok [OF Inr] show ?thesis by (auto simp: ollama_batch_embed_def)
  next
    case (Inl e)
    with assms False retry_truncated_result [of msg post texts retry_limits 1 texts e r sent] show ?thesis
      by (auto simp: ollama_batch_embed_def split: if_splits)
  qed
qed

section \<open>Batches that run\<close>

lemma batch_scores_like_single_witness:
  "ollama_batch_score (\<lambda>_. Inl ErrDriver) ['' ''] False (Inr [0])"
proof -
  have blank: "model_score (\<lambda>_. Inl ErrDriver) '' '' = Inr 0"
    by (simp add: model_score_def trim_space_def trim_left_def trim_right_def is_space_def)
  from batch_scores_like_single [of "\<lambda>_. Inl ErrDriver" "['' '']"]
  obtain r where r: "ollama_batch_score (\<lambda>_. Inl ErrDriver) ['' ''] False r" by blast
  show ?thesis
  proof (cases r)
    case (Inl e)
    with r batch_scores_like_single [of "\<lambda>_. Inl ErrDriver" "['' '']" _ e] blank show ?thesis by simp
  next
    case (Inr xs)
    with r batch_scores_like_single [of "\<lambda>_. Inl ErrDriver" "['' '']" xs] blank
    have "length xs = 1 \<and> xs ! 0 = 0" by simp
    then have "xs = [0]" by (cases xs) auto
    with r Inr show ?thesis by simp
  qed
qed

lemma cancelled_batches_witness:
  "open_router_batch_embed (\<lambda>_. Inr [([1], 7)]) [''a''] True (Inr [[1]]) \<and> [] \<notin> set [[1::real]]"
proof -
  have run: "open_router_batch_embed (\<lambda>_. Inr [([1], 7)]) [''a''] True (Inr [[1]])"
    by (simp add: open_router_batch_embed_def open_router_max_batch_def embed_batch_def none_missing_def)
  with cancelled_batches [of "\<lambda>_. Inl ErrDriver" "[''a'']" "\<lambda>_. Inl ErrDriver" "\<lambda>_. None" "\<lambda>_. Inr [([1], 7)]" True "[[1]]"]
  show ?thesis by blast
qed

lemma ollama_embeddings_complete_witness:
  "fst (ollama_batch_embed (\<lambda>_. []) (\<lambda>_ _. Inr [[1]]) [''a'']) = Inr [[1]] \<and> length [[1::real]] = length [''a'']"
proof -
  have run: "ollama_batch_embed (\<lambda>_. []) (\<lambda>_ _. Inr [[1]]) [''a''] = (Inr [[1]], [''a''])"
    by (simp add: ollama_batch_embed_def batch_embed_request_def)
  from ollama_embeddings_complete [OF this] run show ?thesis by simp
qed

end
