(* ===== verification/Config.thy ===== *)
theory Config
  imports GoNumbers World
begin

text \<open>
  The configuration (\<open>internal/config\<close>): its sections, the built-in defaults, the overrides from the
  environment, validation, and \<open>Load\<close>. What the operating system, the YAML library and \<open>url.ParseRequestURI\<close>
  answer are arguments: the environment \<open>env\<close> (a variable and its text), \<open>read_file\<close>, \<open>decode\<close> (which overwrites
  the settings that a document names), and \<open>parse_uri\<close> (the error of a text that is no request URI).
  The properties: the environment can set every setting except the search section, each variable its own,
  and every variable that cannot be read is reported; the defaults are valid.
\<close>

section \<open>Sections\<close>

record server_config =
  cfg_server_host :: string
  cfg_server_port :: int

record postprocess_config =
  cfg_postprocess_enabled :: bool
  cfg_postprocess_poll_interval_ms :: int
  cfg_postprocess_batch_size :: int
  cfg_postprocess_worker_count :: int
  cfg_postprocess_lease_ms :: int
  cfg_postprocess_max_attempts :: int
  cfg_postprocess_retry_base_ms :: int
  cfg_postprocess_retry_max_ms :: int

record structured_memory_config =
  cfg_structured_enabled :: bool
  cfg_structured_dual_write_observations :: bool
  cfg_structured_dual_write_events :: bool
  cfg_structured_max_observations :: int

record scoring_weights_config =
  cfg_wal_recency :: real
  cfg_wal_relevance :: real
  cfg_wal_importance :: real

record match_scoring_weights_config =
  cfg_match_recency :: real
  cfg_match_relevance :: real
  cfg_match_importance :: real
  cfg_match_query_overlap :: real
  cfg_match_routing :: real

record retrieval_scoring_config =
  cfg_scoring_algorithm :: string
  cfg_scoring_wal :: scoring_weights_config
  cfg_scoring_match :: match_scoring_weights_config

record retrieval_search_config =
  cfg_search_adaptive_query_expansion_enabled :: bool
  cfg_search_adaptive_query_max_extra_queries :: int
  cfg_search_adaptive_query_weak_lexical_threshold :: real
  cfg_search_adaptive_query_plan_confidence_threshold :: real
  cfg_search_candidate_window_multiplier :: int
  cfg_search_candidate_window_min :: int
  cfg_search_candidate_window_max :: int
  cfg_search_candidate_window_temporal_boost :: int
  cfg_search_candidate_window_multi_hop_boost :: int
  cfg_search_candidate_window_filter_boost :: int
  cfg_search_early_rerank_base_window :: int
  cfg_search_early_rerank_max_window :: int

record retrieval_multi_hop_config =
  cfg_multi_hop_entity_fact_bridge_enabled :: bool
  cfg_multi_hop_llm_decomposition_enabled :: bool
  cfg_multi_hop_decomposition_provider :: string
  cfg_multi_hop_openrouter_model :: string
  cfg_multi_hop_ollama_base_url :: string
  cfg_multi_hop_ollama_model :: string
  cfg_multi_hop_ollama_timeout_ms :: int
  cfg_multi_hop_max_decomposition_queries :: int
  cfg_multi_hop_enable_pairwise_rerank :: bool
  cfg_multi_hop_token_expansion_fallback :: bool
  cfg_multi_hop_graph_path_enabled :: bool
  cfg_multi_hop_graph_max_hops :: int
  cfg_multi_hop_graph_seed_limit :: int
  cfg_multi_hop_graph_path_limit :: int
  cfg_multi_hop_graph_min_score :: real
  cfg_multi_hop_graph_weight :: real
  cfg_multi_hop_graph_temporal_validity :: bool
  cfg_multi_hop_graph_singleton_invalidation :: bool

record retrieval_config =
  cfg_retrieval_scoring :: retrieval_scoring_config
  cfg_retrieval_search :: retrieval_search_config
  cfg_retrieval_multi_hop :: retrieval_multi_hop_config
  cfg_retrieval_answer_type_routing_enabled :: bool
  cfg_retrieval_early_rank_rerank_enabled :: bool
  cfg_retrieval_temporal_resolver_enabled :: bool
  cfg_retrieval_open_domain_alternative_resolver_enabled :: bool

record parser_config =
  cfg_parser_enabled :: bool
  cfg_parser_provider :: string
  cfg_parser_ollama_base_url :: string
  cfg_parser_ollama_model :: string
  cfg_parser_openrouter_model :: string
  cfg_parser_ollama_timeout_ms :: int
  cfg_parser_store_raw_turn :: bool
  cfg_parser_max_facts :: int
  cfg_parser_dedupe_threshold :: real
  cfg_parser_update_threshold :: real
  cfg_parser_answer_span_retention_enabled :: bool

record profile_layer_config =
  cfg_profile_layer_support_links_enabled :: bool

record database_config =
  cfg_database_sqlite_dsn :: string

record qdrant_config =
  cfg_qdrant_base_url :: string
  cfg_qdrant_api_key :: string
  cfg_qdrant_collection :: string
  cfg_qdrant_timeout_ms :: int

record pgvector_config =
  cfg_pgvector_dsn :: string
  cfg_pgvector_table :: string
  cfg_pgvector_auto_migrate :: bool
  cfg_pgvector_max_open_conns :: int
  cfg_pgvector_max_idle_conns :: int

record neo4j_config =
  cfg_neo4j_uri :: string
  cfg_neo4j_username :: string
  cfg_neo4j_password :: string
  cfg_neo4j_database :: string
  cfg_neo4j_timeout_ms :: int
  cfg_neo4j_batch_size :: int

record embedding_config =
  cfg_embedding_provider :: string
  cfg_embedding_fallback_provider :: string
  cfg_embedding_model_path :: string
  cfg_embedding_tokenizer_path :: string
  cfg_embedding_ollama_base_url :: string
  cfg_embedding_ollama_model :: string
  cfg_embedding_ollama_timeout_seconds :: int

record openrouter_config =
  cfg_openrouter_base_url :: string
  cfg_openrouter_api_key :: string
  cfg_openrouter_embedding_model :: string
  cfg_openrouter_scoring_model :: string
  cfg_openrouter_timeout_ms :: int

record ollama_config =
  cfg_ollama_base_url :: string
  cfg_ollama_model :: string
  cfg_ollama_timeout_ms :: int

record auth_config =
  cfg_auth_enabled :: bool
  cfg_auth_jwt_secret :: string
  cfg_auth_issuer :: string

record logging_config =
  cfg_logging_dev_verbose :: bool
  cfg_logging_progress :: bool

record config =
  cfg_server :: server_config
  cfg_vector_backend :: string
  cfg_entity_fact_backend :: string
  cfg_default_tenant_id :: string
  cfg_importance_scorer :: string
  cfg_postprocess :: postprocess_config
  cfg_structured_memory :: structured_memory_config
  cfg_retrieval :: retrieval_config
  cfg_parser :: parser_config
  cfg_profile_layer :: profile_layer_config
  cfg_database :: database_config
  cfg_qdrant :: qdrant_config
  cfg_pgvector :: pgvector_config
  cfg_neo4j :: neo4j_config
  cfg_embedding :: embedding_config
  cfg_openrouter :: openrouter_config
  cfg_ollama :: ollama_config
  cfg_auth :: auth_config
  cfg_logging :: logging_config

section \<open>Defaults\<close>

definition defaults :: config where
  "defaults =
    \<lparr>cfg_server =
      \<lparr>cfg_server_host = ''127.0.0.1'', cfg_server_port = 8080\<rparr>,
     cfg_vector_backend = ''sqlite'', cfg_entity_fact_backend = ''sqlite'',
     cfg_default_tenant_id = [], cfg_importance_scorer = ''heuristic'',
     cfg_postprocess =
      \<lparr>cfg_postprocess_enabled = True, cfg_postprocess_poll_interval_ms = 250,
       cfg_postprocess_batch_size = 32, cfg_postprocess_worker_count = 2,
       cfg_postprocess_lease_ms = 30000, cfg_postprocess_max_attempts = 5,
       cfg_postprocess_retry_base_ms = 500, cfg_postprocess_retry_max_ms = 60000\<rparr>,
     cfg_structured_memory =
      \<lparr>cfg_structured_enabled = False, cfg_structured_dual_write_observations = False,
       cfg_structured_dual_write_events = False, cfg_structured_max_observations = 3\<rparr>,
     cfg_retrieval =
      \<lparr>cfg_retrieval_scoring =
        \<lparr>cfg_scoring_algorithm = ''wal'',
         cfg_scoring_wal =
          \<lparr>cfg_wal_recency = 1 / 10, cfg_wal_relevance = 8 / 10, cfg_wal_importance = 1 / 10\<rparr>,
         cfg_scoring_match =
          \<lparr>cfg_match_recency = 5 / 100, cfg_match_relevance = 70 / 100,
           cfg_match_importance = 10 / 100, cfg_match_query_overlap = 10 / 100,
           cfg_match_routing = 5 / 100\<rparr>\<rparr>,
       cfg_retrieval_search =
        \<lparr>cfg_search_adaptive_query_expansion_enabled = False,
         cfg_search_adaptive_query_max_extra_queries = 2,
         cfg_search_adaptive_query_weak_lexical_threshold = 62 / 100,
         cfg_search_adaptive_query_plan_confidence_threshold = 0,
         cfg_search_candidate_window_multiplier = 5, cfg_search_candidate_window_min = 50,
         cfg_search_candidate_window_max = 200, cfg_search_candidate_window_temporal_boost = 40,
         cfg_search_candidate_window_multi_hop_boost = 80,
         cfg_search_candidate_window_filter_boost = 30, cfg_search_early_rerank_base_window = 25,
         cfg_search_early_rerank_max_window = 25\<rparr>,
       cfg_retrieval_multi_hop =
        \<lparr>cfg_multi_hop_entity_fact_bridge_enabled = True,
         cfg_multi_hop_llm_decomposition_enabled = False,
         cfg_multi_hop_decomposition_provider = ''openrouter'',
         cfg_multi_hop_openrouter_model = ''openai/gpt-oss-120b:nitro'',
         cfg_multi_hop_ollama_base_url = ''http://127.0.0.1:11434'',
         cfg_multi_hop_ollama_model = ''deepseek-r1:7b'', cfg_multi_hop_ollama_timeout_ms = 2000,
         cfg_multi_hop_max_decomposition_queries = 3, cfg_multi_hop_enable_pairwise_rerank = True,
         cfg_multi_hop_token_expansion_fallback = True, cfg_multi_hop_graph_path_enabled = False,
         cfg_multi_hop_graph_max_hops = 2, cfg_multi_hop_graph_seed_limit = 12,
         cfg_multi_hop_graph_path_limit = 128, cfg_multi_hop_graph_min_score = 12 / 100,
         cfg_multi_hop_graph_weight = 25 / 100, cfg_multi_hop_graph_temporal_validity = False,
         cfg_multi_hop_graph_singleton_invalidation = True\<rparr>,
       cfg_retrieval_answer_type_routing_enabled = True,
       cfg_retrieval_early_rank_rerank_enabled = True,
       cfg_retrieval_temporal_resolver_enabled = True,
       cfg_retrieval_open_domain_alternative_resolver_enabled = False\<rparr>,
     cfg_parser =
      \<lparr>cfg_parser_enabled = False, cfg_parser_provider = ''heuristic'',
       cfg_parser_ollama_base_url = ''http://127.0.0.1:11434'',
       cfg_parser_ollama_model = ''deepseek-r1:7b'',
       cfg_parser_openrouter_model = ''openai/gpt-oss-120b:nitro'',
       cfg_parser_ollama_timeout_ms = 20000, cfg_parser_store_raw_turn = True,
       cfg_parser_max_facts = 4, cfg_parser_dedupe_threshold = 88 / 100,
       cfg_parser_update_threshold = 94 / 100, cfg_parser_answer_span_retention_enabled = False\<rparr>,
     cfg_profile_layer =
      \<lparr>cfg_profile_layer_support_links_enabled = False\<rparr>,
     cfg_database =
      \<lparr>cfg_database_sqlite_dsn = ''file:pali.db?cache=shared''\<rparr>,
     cfg_qdrant =
      \<lparr>cfg_qdrant_base_url = ''http://127.0.0.1:6333'', cfg_qdrant_api_key = [],
       cfg_qdrant_collection = ''pali_memories'', cfg_qdrant_timeout_ms = 2000\<rparr>,
     cfg_pgvector =
      \<lparr>cfg_pgvector_dsn = [], cfg_pgvector_table = ''pali_memories'',
       cfg_pgvector_auto_migrate = True, cfg_pgvector_max_open_conns = 10,
       cfg_pgvector_max_idle_conns = 5\<rparr>,
     cfg_neo4j =
      \<lparr>cfg_neo4j_uri = ''bolt://127.0.0.1:7687'', cfg_neo4j_username = ''neo4j'',
       cfg_neo4j_password = [], cfg_neo4j_database = ''neo4j'', cfg_neo4j_timeout_ms = 2000,
       cfg_neo4j_batch_size = 256\<rparr>,
     cfg_embedding =
      \<lparr>cfg_embedding_provider = ''lexical'', cfg_embedding_fallback_provider = ''lexical'',
       cfg_embedding_model_path = ''./models/all-MiniLM-L6-v2/model.onnx'',
       cfg_embedding_tokenizer_path = ''./models/all-MiniLM-L6-v2/tokenizer.json'',
       cfg_embedding_ollama_base_url = ''http://127.0.0.1:11434'',
       cfg_embedding_ollama_model = ''mxbai-embed-large'',
       cfg_embedding_ollama_timeout_seconds = 10\<rparr>,
     cfg_openrouter =
      \<lparr>cfg_openrouter_base_url = ''https://openrouter.ai/api/v1'', cfg_openrouter_api_key = [],
       cfg_openrouter_embedding_model = ''openai/text-embedding-3-small:nitro'',
       cfg_openrouter_scoring_model = ''openai/gpt-oss-120b:nitro'',
       cfg_openrouter_timeout_ms = 10000\<rparr>,
     cfg_ollama =
      \<lparr>cfg_ollama_base_url = ''http://127.0.0.1:11434'', cfg_ollama_model = ''deepseek-r1:7b'',
       cfg_ollama_timeout_ms = 2000\<rparr>,
     cfg_auth =
      \<lparr>cfg_auth_enabled = False, cfg_auth_jwt_secret = [], cfg_auth_issuer = ''pali''\<rparr>,
     cfg_logging =
      \<lparr>cfg_logging_dev_verbose = False, cfg_logging_progress = True\<rparr>\<rparr>"

section \<open>Overrides from the environment\<close>

text \<open>A variable, by the type of its setting, and the assignment to the setting.\<close>

datatype override =
    OverrideString string "string \<Rightarrow> config \<Rightarrow> config"
  | OverrideInt string "int \<Rightarrow> config \<Rightarrow> config"
  | OverrideBool string "bool \<Rightarrow> config \<Rightarrow> config"
  | OverrideFloat string "real \<Rightarrow> config \<Rightarrow> config"

definition env_overrides :: "override list" where
  "env_overrides =
    [OverrideString ''PALI_SERVER_HOST''
       (\<lambda>v. cfg_server_update (cfg_server_host_update (\<lambda>_. v))),
     OverrideInt ''PALI_SERVER_PORT''
       (\<lambda>v. cfg_server_update (cfg_server_port_update (\<lambda>_. v))),
     OverrideString ''PALI_VECTOR_BACKEND'' (\<lambda>v. cfg_vector_backend_update (\<lambda>_. v)),
     OverrideString ''PALI_ENTITY_FACT_BACKEND''
       (\<lambda>v. cfg_entity_fact_backend_update (\<lambda>_. v)),
     OverrideString ''PALI_DEFAULT_TENANT_ID''
       (\<lambda>v. cfg_default_tenant_id_update (\<lambda>_. v)),
     OverrideString ''PALI_IMPORTANCE_SCORER''
       (\<lambda>v. cfg_importance_scorer_update (\<lambda>_. v)),
     OverrideBool ''PALI_POSTPROCESS_ENABLED''
       (\<lambda>v. cfg_postprocess_update (cfg_postprocess_enabled_update (\<lambda>_. v))),
     OverrideInt ''PALI_POSTPROCESS_POLL_INTERVAL_MS''
       (\<lambda>v. cfg_postprocess_update (cfg_postprocess_poll_interval_ms_update (\<lambda>_. v))),
     OverrideInt ''PALI_POSTPROCESS_BATCH_SIZE''
       (\<lambda>v. cfg_postprocess_update (cfg_postprocess_batch_size_update (\<lambda>_. v))),
     OverrideInt ''PALI_POSTPROCESS_WORKER_COUNT''
       (\<lambda>v. cfg_postprocess_update (cfg_postprocess_worker_count_update (\<lambda>_. v))),
     OverrideInt ''PALI_POSTPROCESS_LEASE_MS''
       (\<lambda>v. cfg_postprocess_update (cfg_postprocess_lease_ms_update (\<lambda>_. v))),
     OverrideInt ''PALI_POSTPROCESS_MAX_ATTEMPTS''
       (\<lambda>v. cfg_postprocess_update (cfg_postprocess_max_attempts_update (\<lambda>_. v))),
     OverrideInt ''PALI_POSTPROCESS_RETRY_BASE_MS''
       (\<lambda>v. cfg_postprocess_update (cfg_postprocess_retry_base_ms_update (\<lambda>_. v))),
     OverrideInt ''PALI_POSTPROCESS_RETRY_MAX_MS''
       (\<lambda>v. cfg_postprocess_update (cfg_postprocess_retry_max_ms_update (\<lambda>_. v))),
     OverrideBool ''PALI_STRUCTURED_MEMORY_ENABLED''
       (\<lambda>v. cfg_structured_memory_update (cfg_structured_enabled_update (\<lambda>_. v))),
     OverrideBool ''PALI_STRUCTURED_MEMORY_DUAL_WRITE_OBSERVATIONS''
       (\<lambda>v. cfg_structured_memory_update (cfg_structured_dual_write_observations_update (\<lambda>_. v))),
     OverrideBool ''PALI_STRUCTURED_MEMORY_DUAL_WRITE_EVENTS''
       (\<lambda>v. cfg_structured_memory_update (cfg_structured_dual_write_events_update (\<lambda>_. v))),
     OverrideInt ''PALI_STRUCTURED_MEMORY_MAX_OBSERVATIONS''
       (\<lambda>v. cfg_structured_memory_update (cfg_structured_max_observations_update (\<lambda>_. v))),
     OverrideBool ''PALI_RETRIEVAL_ANSWER_TYPE_ROUTING_ENABLED''
       (\<lambda>v. cfg_retrieval_update (cfg_retrieval_answer_type_routing_enabled_update (\<lambda>_. v))),
     OverrideBool ''PALI_RETRIEVAL_EARLY_RANK_RERANK_ENABLED''
       (\<lambda>v. cfg_retrieval_update (cfg_retrieval_early_rank_rerank_enabled_update (\<lambda>_. v))),
     OverrideBool ''PALI_RETRIEVAL_TEMPORAL_RESOLVER_ENABLED''
       (\<lambda>v. cfg_retrieval_update (cfg_retrieval_temporal_resolver_enabled_update (\<lambda>_. v))),
     OverrideBool ''PALI_RETRIEVAL_OPEN_DOMAIN_ALTERNATIVE_RESOLVER_ENABLED''
       (\<lambda>v. cfg_retrieval_update (cfg_retrieval_open_domain_alternative_resolver_enabled_update (\<lambda>_. v))),
     OverrideString ''PALI_RETRIEVAL_SCORING_ALGORITHM''
       (\<lambda>v. cfg_retrieval_update (cfg_retrieval_scoring_update (cfg_scoring_algorithm_update (\<lambda>_. v)))),
     OverrideFloat ''PALI_RETRIEVAL_SCORING_WAL_RECENCY''
       (\<lambda>v. cfg_retrieval_update (cfg_retrieval_scoring_update (cfg_scoring_wal_update (cfg_wal_recency_update (\<lambda>_. v))))),
     OverrideFloat ''PALI_RETRIEVAL_SCORING_WAL_RELEVANCE''
       (\<lambda>v. cfg_retrieval_update (cfg_retrieval_scoring_update (cfg_scoring_wal_update (cfg_wal_relevance_update (\<lambda>_. v))))),
     OverrideFloat ''PALI_RETRIEVAL_SCORING_WAL_IMPORTANCE''
       (\<lambda>v. cfg_retrieval_update (cfg_retrieval_scoring_update (cfg_scoring_wal_update (cfg_wal_importance_update (\<lambda>_. v))))),
     OverrideFloat ''PALI_RETRIEVAL_SCORING_MATCH_RECENCY''
       (\<lambda>v. cfg_retrieval_update (cfg_retrieval_scoring_update (cfg_scoring_match_update (cfg_match_recency_update (\<lambda>_. v))))),
     OverrideFloat ''PALI_RETRIEVAL_SCORING_MATCH_RELEVANCE''
       (\<lambda>v. cfg_retrieval_update (cfg_retrieval_scoring_update (cfg_scoring_match_update (cfg_match_relevance_update (\<lambda>_. v))))),
     OverrideFloat ''PALI_RETRIEVAL_SCORING_MATCH_IMPORTANCE''
       (\<lambda>v. cfg_retrieval_update (cfg_retrieval_scoring_update (cfg_scoring_match_update (cfg_match_importance_update (\<lambda>_. v))))),
     OverrideFloat ''PALI_RETRIEVAL_SCORING_MATCH_QUERY_OVERLAP''
       (\<lambda>v. cfg_retrieval_update (cfg_retrieval_scoring_update (cfg_scoring_match_update (cfg_match_query_overlap_update (\<lambda>_. v))))),
     OverrideFloat ''PALI_RETRIEVAL_SCORING_MATCH_ROUTING''
       (\<lambda>v. cfg_retrieval_update (cfg_retrieval_scoring_update (cfg_scoring_match_update (cfg_match_routing_update (\<lambda>_. v))))),
     OverrideBool ''PALI_RETRIEVAL_MULTI_HOP_ENTITY_FACT_BRIDGE_ENABLED''
       (\<lambda>v. cfg_retrieval_update (cfg_retrieval_multi_hop_update (cfg_multi_hop_entity_fact_bridge_enabled_update (\<lambda>_. v)))),
     OverrideBool ''PALI_RETRIEVAL_MULTI_HOP_LLM_DECOMPOSITION_ENABLED''
       (\<lambda>v. cfg_retrieval_update (cfg_retrieval_multi_hop_update (cfg_multi_hop_llm_decomposition_enabled_update (\<lambda>_. v)))),
     OverrideString ''PALI_RETRIEVAL_MULTI_HOP_DECOMPOSITION_PROVIDER''
       (\<lambda>v. cfg_retrieval_update (cfg_retrieval_multi_hop_update (cfg_multi_hop_decomposition_provider_update (\<lambda>_. v)))),
     OverrideString ''PALI_RETRIEVAL_MULTI_HOP_OPENROUTER_MODEL''
       (\<lambda>v. cfg_retrieval_update (cfg_retrieval_multi_hop_update (cfg_multi_hop_openrouter_model_update (\<lambda>_. v)))),
     OverrideString ''PALI_RETRIEVAL_MULTI_HOP_OLLAMA_BASE_URL''
       (\<lambda>v. cfg_retrieval_update (cfg_retrieval_multi_hop_update (cfg_multi_hop_ollama_base_url_update (\<lambda>_. v)))),
     OverrideString ''PALI_RETRIEVAL_MULTI_HOP_OLLAMA_MODEL''
       (\<lambda>v. cfg_retrieval_update (cfg_retrieval_multi_hop_update (cfg_multi_hop_ollama_model_update (\<lambda>_. v)))),
     OverrideInt ''PALI_RETRIEVAL_MULTI_HOP_OLLAMA_TIMEOUT_MS''
       (\<lambda>v. cfg_retrieval_update (cfg_retrieval_multi_hop_update (cfg_multi_hop_ollama_timeout_ms_update (\<lambda>_. v)))),
     OverrideInt ''PALI_RETRIEVAL_MULTI_HOP_MAX_DECOMPOSITION_QUERIES''
       (\<lambda>v. cfg_retrieval_update (cfg_retrieval_multi_hop_update (cfg_multi_hop_max_decomposition_queries_update (\<lambda>_. v)))),
     OverrideBool ''PALI_RETRIEVAL_MULTI_HOP_ENABLE_PAIRWISE_RERANK''
       (\<lambda>v. cfg_retrieval_update (cfg_retrieval_multi_hop_update (cfg_multi_hop_enable_pairwise_rerank_update (\<lambda>_. v)))),
     OverrideBool ''PALI_RETRIEVAL_MULTI_HOP_TOKEN_EXPANSION_FALLBACK''
       (\<lambda>v. cfg_retrieval_update (cfg_retrieval_multi_hop_update (cfg_multi_hop_token_expansion_fallback_update (\<lambda>_. v)))),
     OverrideBool ''PALI_RETRIEVAL_MULTI_HOP_GRAPH_PATH_ENABLED''
       (\<lambda>v. cfg_retrieval_update (cfg_retrieval_multi_hop_update (cfg_multi_hop_graph_path_enabled_update (\<lambda>_. v)))),
     OverrideInt ''PALI_RETRIEVAL_MULTI_HOP_GRAPH_MAX_HOPS''
       (\<lambda>v. cfg_retrieval_update (cfg_retrieval_multi_hop_update (cfg_multi_hop_graph_max_hops_update (\<lambda>_. v)))),
     OverrideInt ''PALI_RETRIEVAL_MULTI_HOP_GRAPH_SEED_LIMIT''
       (\<lambda>v. cfg_retrieval_update (cfg_retrieval_multi_hop_update (cfg_multi_hop_graph_seed_limit_update (\<lambda>_. v)))),
     OverrideInt ''PALI_RETRIEVAL_MULTI_HOP_GRAPH_PATH_LIMIT''
       (\<lambda>v. cfg_retrieval_update (cfg_retrieval_multi_hop_update (cfg_multi_hop_graph_path_limit_update (\<lambda>_. v)))),
     OverrideFloat ''PALI_RETRIEVAL_MULTI_HOP_GRAPH_MIN_SCORE''
       (\<lambda>v. cfg_retrieval_update (cfg_retrieval_multi_hop_update (cfg_multi_hop_graph_min_score_update (\<lambda>_. v)))),
     OverrideFloat ''PALI_RETRIEVAL_MULTI_HOP_GRAPH_WEIGHT''
       (\<lambda>v. cfg_retrieval_update (cfg_retrieval_multi_hop_update (cfg_multi_hop_graph_weight_update (\<lambda>_. v)))),
     OverrideBool ''PALI_RETRIEVAL_MULTI_HOP_GRAPH_TEMPORAL_VALIDITY''
       (\<lambda>v. cfg_retrieval_update (cfg_retrieval_multi_hop_update (cfg_multi_hop_graph_temporal_validity_update (\<lambda>_. v)))),
     OverrideBool ''PALI_RETRIEVAL_MULTI_HOP_GRAPH_SINGLETON_INVALIDATION''
       (\<lambda>v. cfg_retrieval_update (cfg_retrieval_multi_hop_update (cfg_multi_hop_graph_singleton_invalidation_update (\<lambda>_. v)))),
     OverrideBool ''PALI_PARSER_ENABLED''
       (\<lambda>v. cfg_parser_update (cfg_parser_enabled_update (\<lambda>_. v))),
     OverrideString ''PALI_PARSER_PROVIDER''
       (\<lambda>v. cfg_parser_update (cfg_parser_provider_update (\<lambda>_. v))),
     OverrideString ''PALI_PARSER_OLLAMA_BASE_URL''
       (\<lambda>v. cfg_parser_update (cfg_parser_ollama_base_url_update (\<lambda>_. v))),
     OverrideString ''PALI_PARSER_OLLAMA_MODEL''
       (\<lambda>v. cfg_parser_update (cfg_parser_ollama_model_update (\<lambda>_. v))),
     OverrideString ''PALI_PARSER_OPENROUTER_MODEL''
       (\<lambda>v. cfg_parser_update (cfg_parser_openrouter_model_update (\<lambda>_. v))),
     OverrideInt ''PALI_PARSER_OLLAMA_TIMEOUT_MS''
       (\<lambda>v. cfg_parser_update (cfg_parser_ollama_timeout_ms_update (\<lambda>_. v))),
     OverrideBool ''PALI_PARSER_STORE_RAW_TURN''
       (\<lambda>v. cfg_parser_update (cfg_parser_store_raw_turn_update (\<lambda>_. v))),
     OverrideInt ''PALI_PARSER_MAX_FACTS''
       (\<lambda>v. cfg_parser_update (cfg_parser_max_facts_update (\<lambda>_. v))),
     OverrideFloat ''PALI_PARSER_DEDUPE_THRESHOLD''
       (\<lambda>v. cfg_parser_update (cfg_parser_dedupe_threshold_update (\<lambda>_. v))),
     OverrideFloat ''PALI_PARSER_UPDATE_THRESHOLD''
       (\<lambda>v. cfg_parser_update (cfg_parser_update_threshold_update (\<lambda>_. v))),
     OverrideBool ''PALI_PARSER_ANSWER_SPAN_RETENTION_ENABLED''
       (\<lambda>v. cfg_parser_update (cfg_parser_answer_span_retention_enabled_update (\<lambda>_. v))),
     OverrideBool ''PALI_PROFILE_LAYER_SUPPORT_LINKS_ENABLED''
       (\<lambda>v. cfg_profile_layer_update (cfg_profile_layer_support_links_enabled_update (\<lambda>_. v))),
     OverrideString ''PALI_DATABASE_SQLITE_DSN''
       (\<lambda>v. cfg_database_update (cfg_database_sqlite_dsn_update (\<lambda>_. v))),
     OverrideString ''PALI_QDRANT_BASE_URL''
       (\<lambda>v. cfg_qdrant_update (cfg_qdrant_base_url_update (\<lambda>_. v))),
     OverrideString ''PALI_QDRANT_API_KEY''
       (\<lambda>v. cfg_qdrant_update (cfg_qdrant_api_key_update (\<lambda>_. v))),
     OverrideString ''PALI_QDRANT_COLLECTION''
       (\<lambda>v. cfg_qdrant_update (cfg_qdrant_collection_update (\<lambda>_. v))),
     OverrideInt ''PALI_QDRANT_TIMEOUT_MS''
       (\<lambda>v. cfg_qdrant_update (cfg_qdrant_timeout_ms_update (\<lambda>_. v))),
     OverrideString ''PALI_PGVECTOR_DSN''
       (\<lambda>v. cfg_pgvector_update (cfg_pgvector_dsn_update (\<lambda>_. v))),
     OverrideString ''PALI_PGVECTOR_TABLE''
       (\<lambda>v. cfg_pgvector_update (cfg_pgvector_table_update (\<lambda>_. v))),
     OverrideBool ''PALI_PGVECTOR_AUTO_MIGRATE''
       (\<lambda>v. cfg_pgvector_update (cfg_pgvector_auto_migrate_update (\<lambda>_. v))),
     OverrideInt ''PALI_PGVECTOR_MAX_OPEN_CONNS''
       (\<lambda>v. cfg_pgvector_update (cfg_pgvector_max_open_conns_update (\<lambda>_. v))),
     OverrideInt ''PALI_PGVECTOR_MAX_IDLE_CONNS''
       (\<lambda>v. cfg_pgvector_update (cfg_pgvector_max_idle_conns_update (\<lambda>_. v))),
     OverrideString ''PALI_NEO4J_URI''
       (\<lambda>v. cfg_neo4j_update (cfg_neo4j_uri_update (\<lambda>_. v))),
     OverrideString ''PALI_NEO4J_USERNAME''
       (\<lambda>v. cfg_neo4j_update (cfg_neo4j_username_update (\<lambda>_. v))),
     OverrideString ''PALI_NEO4J_PASSWORD''
       (\<lambda>v. cfg_neo4j_update (cfg_neo4j_password_update (\<lambda>_. v))),
     OverrideString ''PALI_NEO4J_DATABASE''
       (\<lambda>v. cfg_neo4j_update (cfg_neo4j_database_update (\<lambda>_. v))),
     OverrideInt ''PALI_NEO4J_TIMEOUT_MS''
       (\<lambda>v. cfg_neo4j_update (cfg_neo4j_timeout_ms_update (\<lambda>_. v))),
     OverrideInt ''PALI_NEO4J_BATCH_SIZE''
       (\<lambda>v. cfg_neo4j_update (cfg_neo4j_batch_size_update (\<lambda>_. v))),
     OverrideString ''PALI_EMBEDDING_PROVIDER''
       (\<lambda>v. cfg_embedding_update (cfg_embedding_provider_update (\<lambda>_. v))),
     OverrideString ''PALI_EMBEDDING_FALLBACK_PROVIDER''
       (\<lambda>v. cfg_embedding_update (cfg_embedding_fallback_provider_update (\<lambda>_. v))),
     OverrideString ''PALI_EMBEDDING_MODEL_PATH''
       (\<lambda>v. cfg_embedding_update (cfg_embedding_model_path_update (\<lambda>_. v))),
     OverrideString ''PALI_EMBEDDING_TOKENIZER_PATH''
       (\<lambda>v. cfg_embedding_update (cfg_embedding_tokenizer_path_update (\<lambda>_. v))),
     OverrideString ''PALI_EMBEDDING_OLLAMA_BASE_URL''
       (\<lambda>v. cfg_embedding_update (cfg_embedding_ollama_base_url_update (\<lambda>_. v))),
     OverrideString ''PALI_EMBEDDING_OLLAMA_MODEL''
       (\<lambda>v. cfg_embedding_update (cfg_embedding_ollama_model_update (\<lambda>_. v))),
     OverrideInt ''PALI_EMBEDDING_OLLAMA_TIMEOUT_SECONDS''
       (\<lambda>v. cfg_embedding_update (cfg_embedding_ollama_timeout_seconds_update (\<lambda>_. v))),
     OverrideString ''PALI_OPENROUTER_BASE_URL''
       (\<lambda>v. cfg_openrouter_update (cfg_openrouter_base_url_update (\<lambda>_. v))),
     OverrideString ''PALI_OPENROUTER_API_KEY''
       (\<lambda>v. cfg_openrouter_update (cfg_openrouter_api_key_update (\<lambda>_. v))),
     OverrideString ''PALI_OPENROUTER_EMBEDDING_MODEL''
       (\<lambda>v. cfg_openrouter_update (cfg_openrouter_embedding_model_update (\<lambda>_. v))),
     OverrideString ''PALI_OPENROUTER_SCORING_MODEL''
       (\<lambda>v. cfg_openrouter_update (cfg_openrouter_scoring_model_update (\<lambda>_. v))),
     OverrideInt ''PALI_OPENROUTER_TIMEOUT_MS''
       (\<lambda>v. cfg_openrouter_update (cfg_openrouter_timeout_ms_update (\<lambda>_. v))),
     OverrideString ''PALI_OLLAMA_BASE_URL''
       (\<lambda>v. cfg_ollama_update (cfg_ollama_base_url_update (\<lambda>_. v))),
     OverrideString ''PALI_OLLAMA_MODEL''
       (\<lambda>v. cfg_ollama_update (cfg_ollama_model_update (\<lambda>_. v))),
     OverrideInt ''PALI_OLLAMA_TIMEOUT_MS''
       (\<lambda>v. cfg_ollama_update (cfg_ollama_timeout_ms_update (\<lambda>_. v))),
     OverrideBool ''PALI_AUTH_ENABLED''
       (\<lambda>v. cfg_auth_update (cfg_auth_enabled_update (\<lambda>_. v))),
     OverrideString ''PALI_AUTH_JWT_SECRET''
       (\<lambda>v. cfg_auth_update (cfg_auth_jwt_secret_update (\<lambda>_. v))),
     OverrideString ''PALI_AUTH_ISSUER''
       (\<lambda>v. cfg_auth_update (cfg_auth_issuer_update (\<lambda>_. v))),
     OverrideBool ''PALI_LOGGING_DEV_VERBOSE''
       (\<lambda>v. cfg_logging_update (cfg_logging_dev_verbose_update (\<lambda>_. v))),
     OverrideBool ''PALI_LOGGING_PROGRESS''
       (\<lambda>v. cfg_logging_update (cfg_logging_progress_update (\<lambda>_. v)))]"

text \<open>One override: the settings so far and the complaints so far.\<close>

definition override_string ::
  "(string \<Rightarrow> string option) \<Rightarrow> string \<Rightarrow> (string \<Rightarrow> config \<Rightarrow> config) \<Rightarrow> config \<times> string list \<Rightarrow> config \<times> string list" where
  "override_string env name assign s =
     (case s of (cfg, errs) \<Rightarrow>
      (case env name of None \<Rightarrow> (cfg, errs) | Some v \<Rightarrow> (assign (trim_space v) cfg, errs)))"

definition override_read ::
  "(string \<Rightarrow> string option) \<Rightarrow> (string \<Rightarrow> 'a option) \<Rightarrow> string \<Rightarrow> string \<Rightarrow> ('a \<Rightarrow> config \<Rightarrow> config) \<Rightarrow>
   config \<times> string list \<Rightarrow> config \<times> string list" where
  "override_read env read kind name assign s =
     (case s of (cfg, errs) \<Rightarrow>
      (case env name of
         None \<Rightarrow> (cfg, errs)
       | Some v \<Rightarrow>
           (case read (trim_space v) of
              None \<Rightarrow> (cfg, errs @ [name @ ''='' @ quote_text v @ '' must be '' @ kind])
            | Some x \<Rightarrow> (assign x cfg, errs))))"

fun apply_override :: "(string \<Rightarrow> string option) \<Rightarrow> override \<Rightarrow> config \<times> string list \<Rightarrow> config \<times> string list" where
  "apply_override env (OverrideString name assign) = override_string env name assign"
| "apply_override env (OverrideInt name assign) = override_read env atoi ''an integer'' name assign"
| "apply_override env (OverrideBool name assign) = override_read env parse_bool ''a boolean'' name assign"
| "apply_override env (OverrideFloat name assign) = override_read env parse_float ''a number'' name assign"

definition getenv :: "(string \<Rightarrow> string option) \<Rightarrow> string \<Rightarrow> string" where
  "getenv env name = (case env name of None \<Rightarrow> [] | Some v \<Rightarrow> v)"

definition apply_legacy_environment_fallbacks :: "(string \<Rightarrow> string option) \<Rightarrow> config \<Rightarrow> config" where
  "apply_legacy_environment_fallbacks env cfg =
     (let cfg1 = (if trim_space (cfg_openrouter_api_key (cfg_openrouter cfg)) = []
                  then cfg\<lparr>cfg_openrouter := (cfg_openrouter cfg)
                         \<lparr>cfg_openrouter_api_key := trim_space (getenv env ''OPENROUTER_API_KEY'')\<rparr>\<rparr> else cfg) in
      if trim_space (cfg_neo4j_password (cfg_neo4j cfg1)) = []
      then cfg1\<lparr>cfg_neo4j := (cfg_neo4j cfg1)\<lparr>cfg_neo4j_password := trim_space (getenv env ''NEO4J_PASSWORD'')\<rparr>\<rparr>
      else cfg1)"

definition apply_environment :: "(string \<Rightarrow> string option) \<Rightarrow> config \<Rightarrow> err + config" where
  "apply_environment env cfg =
     (case fold (apply_override env) env_overrides (apply_legacy_environment_fallbacks env cfg, []) of
        (cfg', errs) \<Rightarrow>
          if errs = [] then Inr cfg'
          else Inl (ErrMsg (''invalid environment override(s): '' @ join_with ''; '' errs)))"

section \<open>Validation\<close>

definition normalize_provider :: "string \<Rightarrow> string" where
  "normalize_provider s = to_lower (trim_space s)"

definition normalize_importance_scorer :: "string \<Rightarrow> string" where
  "normalize_importance_scorer s =
     (let n = to_lower (trim_space s) in if n = [] then ''heuristic'' else n)"

definition normalize_ranking_algorithm :: "string \<Rightarrow> string" where
  "normalize_ranking_algorithm s =
     (let n = to_lower (trim_space s) in if n = [] then ''wal'' else n)"

definition normalize_parser_provider :: "string \<Rightarrow> string" where
  "normalize_parser_provider s =
     (let n = to_lower (trim_space s) in if n = [] then ''heuristic'' else n)"

definition normalize_multi_hop_decomposition_provider :: "string \<Rightarrow> string" where
  "normalize_multi_hop_decomposition_provider s =
     (let n = to_lower (trim_space s) in if n = ''disabled'' then ''none'' else n)"

definition is_supported_embedding_provider :: "string \<Rightarrow> bool" where
  "is_supported_embedding_provider p \<longleftrightarrow> p \<in> {''lexical'', ''mock'', ''onnx'', ''ollama'', ''openrouter''}"

definition is_supported_importance_scorer :: "string \<Rightarrow> bool" where
  "is_supported_importance_scorer p \<longleftrightarrow> p \<in> {''heuristic'', ''ollama'', ''openrouter''}"

definition is_supported_ranking_algorithm :: "string \<Rightarrow> bool" where
  "is_supported_ranking_algorithm a \<longleftrightarrow> a \<in> {''wal'', ''match''}"

definition is_supported_parser_provider :: "string \<Rightarrow> bool" where
  "is_supported_parser_provider p \<longleftrightarrow> p \<in> {''heuristic'', ''ollama'', ''openrouter''}"

definition is_supported_multi_hop_decomposition_provider :: "string \<Rightarrow> bool" where
  "is_supported_multi_hop_decomposition_provider p \<longleftrightarrow> p \<in> {[], ''openrouter'', ''ollama'', ''none''}"

text \<open>Validation is a sequence of checks; the first that fails is returned.\<close>

definition check :: "bool \<Rightarrow> string \<Rightarrow> string option" where
  "check bad msg = (if bad then Some msg else None)"

definition check_uri :: "(string \<Rightarrow> string option) \<Rightarrow> string \<Rightarrow> string \<Rightarrow> string option" where
  "check_uri parse_uri uri msg = map_option (\<lambda>e. msg @ e) (parse_uri uri)"

definition only_if :: "bool \<Rightarrow> string option \<Rightarrow> string option" where
  "only_if b r = (if b then r else None)"

fun first_error :: "string option list \<Rightarrow> string option" where
  "first_error [] = None"
| "first_error (Some e # rs) = Some e"
| "first_error (None # rs) = first_error rs"

definition validate_scoring_weights :: "scoring_weights_config \<Rightarrow> string \<Rightarrow> string option" where
  "validate_scoring_weights w path = first_error [
    check (cfg_wal_recency w < 0 \<or> cfg_wal_relevance w < 0 \<or> cfg_wal_importance w < 0)
      (path @ '' weights must be >= 0''),
    check (cfg_wal_recency w + cfg_wal_relevance w + cfg_wal_importance w = 0)
      (path @ '' weights must not all be zero'')]"

definition validate_match_scoring_weights :: "match_scoring_weights_config \<Rightarrow> string \<Rightarrow> string option" where
  "validate_match_scoring_weights w path =
    (let values = [cfg_match_recency w, cfg_match_relevance w, cfg_match_importance w,
           cfg_match_query_overlap w, cfg_match_routing w] in
     first_error [
      check (list_ex (\<lambda>v. v < 0) values) (path @ '' weights must be >= 0''),
      check (foldl (+) 0 values = 0) (path @ '' weights must not all be zero'')])"

definition validate_open_router_config ::
  "(string \<Rightarrow> string option) \<Rightarrow> openrouter_config \<Rightarrow> bool \<Rightarrow> bool \<Rightarrow> string option" where
  "validate_open_router_config parse_uri o' require_embedding_model require_scoring_model = first_error [
    check (trim_space (cfg_openrouter_api_key o') = [])
      ''openrouter.api_key is required when using openrouter providers (or set OPENROUTER_API_KEY)'',
    check (trim_space (cfg_openrouter_base_url o') = [])
      ''openrouter.base_url is required when using openrouter providers'',
    check_uri parse_uri (cfg_openrouter_base_url o') ''invalid openrouter.base_url: '',
    check (cfg_openrouter_timeout_ms o' < 0) ''openrouter.timeout_ms must be >= 0'',
    check (require_embedding_model \<and> trim_space (cfg_openrouter_embedding_model o') = [])
      ''openrouter.embedding_model is required when embedding.provider=openrouter'',
    check (require_scoring_model \<and> trim_space (cfg_openrouter_scoring_model o') = [])
      ''openrouter.scoring_model is required when importance_scorer=openrouter'']"

definition validate_server :: "config \<Rightarrow> string option" where
  "validate_server cfg =
   first_error [
    check (cfg_server_port (cfg_server cfg) \<le> 0 \<or> cfg_server_port (cfg_server cfg) > 65535)
      (''invalid server.port: '' @ itoa (cfg_server_port (cfg_server cfg))),
    check (cfg_vector_backend cfg \<notin> {''sqlite'', ''qdrant'', ''pgvector''})
      (''invalid vector_backend: '' @ quote_text (cfg_vector_backend cfg)),
    check (cfg_entity_fact_backend cfg \<notin> {''sqlite'', ''neo4j''})
      (''invalid entity_fact_backend: '' @ quote_text (cfg_entity_fact_backend cfg))]"

definition validate_embedding :: "(string \<Rightarrow> string option) \<Rightarrow> config \<Rightarrow> string option" where
  "validate_embedding parse_uri cfg =
    (let e = cfg_embedding cfg;
         provider = normalize_provider (cfg_embedding_provider e);
         fallback = normalize_provider (cfg_embedding_fallback_provider e) in
     first_error [
    check (\<not> is_supported_embedding_provider provider)
      (''invalid embedding.provider: '' @ quote_text (cfg_embedding_provider e)),
    check (fallback \<noteq> [] \<and> \<not> is_supported_embedding_provider fallback)
      (''invalid embedding.fallback_provider: '' @ quote_text (cfg_embedding_fallback_provider e)),
    only_if (provider = ''onnx'') (first_error [
      check (trim_space (cfg_embedding_model_path e) = [])
        ''embedding.model_path is required when embedding.provider=onnx'',
      check (trim_space (cfg_embedding_tokenizer_path e) = [])
        ''embedding.tokenizer_path is required when embedding.provider=onnx'']),
    only_if (provider = ''ollama'') (first_error [
      check (trim_space (cfg_embedding_ollama_model e) = [])
        ''embedding.ollama_model is required when embedding.provider=ollama'',
      check (cfg_embedding_ollama_timeout_seconds e < 0) ''embedding.ollama_timeout_seconds must be >= 0'']),
    only_if (provider = ''openrouter'') (validate_open_router_config parse_uri (cfg_openrouter cfg) True False)])"

definition validate_scorer :: "(string \<Rightarrow> string option) \<Rightarrow> config \<Rightarrow> string option" where
  "validate_scorer parse_uri cfg =
    (let scorer = normalize_importance_scorer (cfg_importance_scorer cfg) in
     first_error [
    check (\<not> is_supported_importance_scorer scorer)
      (''invalid importance_scorer: '' @ quote_text (cfg_importance_scorer cfg)),
    only_if (scorer = ''ollama'') (first_error [
      check (trim_space (cfg_ollama_model (cfg_ollama cfg)) = [])
        ''ollama.model is required when importance_scorer=ollama'',
      check (cfg_ollama_timeout_ms (cfg_ollama cfg) < 0) ''ollama.timeout_ms must be >= 0'']),
    only_if (scorer = ''openrouter'') (validate_open_router_config parse_uri (cfg_openrouter cfg) False True)])"

definition validate_scoring :: "config \<Rightarrow> string option" where
  "validate_scoring cfg =
    (let r = cfg_retrieval_scoring (cfg_retrieval cfg);
         algorithm = normalize_ranking_algorithm (cfg_scoring_algorithm r) in
     first_error [
    check (\<not> is_supported_ranking_algorithm algorithm)
      (''invalid retrieval.scoring.algorithm: '' @ quote_text (cfg_scoring_algorithm r)),
    validate_scoring_weights (cfg_scoring_wal r) ''retrieval.scoring.wal'',
    validate_match_scoring_weights (cfg_scoring_match r) ''retrieval.scoring.match''])"

definition validate_search :: "retrieval_search_config \<Rightarrow> string option" where
  "validate_search s =
   first_error [
    check (cfg_search_adaptive_query_max_extra_queries s \<le> 0)
      ''retrieval.search.adaptive_query_max_extra_queries must be > 0'',
    check (cfg_search_adaptive_query_weak_lexical_threshold s < 0 \<or> cfg_search_adaptive_query_weak_lexical_threshold s > 1)
      ''retrieval.search.adaptive_query_weak_lexical_threshold must be in [0,1]'',
    check (cfg_search_adaptive_query_plan_confidence_threshold s < 0 \<or> cfg_search_adaptive_query_plan_confidence_threshold s > 1)
      ''retrieval.search.adaptive_query_plan_confidence_threshold must be in [0,1]'',
    check (cfg_search_candidate_window_multiplier s \<le> 0)
      ''retrieval.search.candidate_window_multiplier must be > 0'',
    check (cfg_search_candidate_window_min s \<le> 0)
      ''retrieval.search.candidate_window_min must be > 0'',
    check (cfg_search_candidate_window_max s \<le> 0)
      ''retrieval.search.candidate_window_max must be > 0'',
    check (cfg_search_candidate_window_max s < cfg_search_candidate_window_min s)
      ''retrieval.search.candidate_window_max must be >= retrieval.search.candidate_window_min'',
    check (cfg_search_candidate_window_temporal_boost s < 0)
      ''retrieval.search.candidate_window_temporal_boost must be >= 0'',
    check (cfg_search_candidate_window_multi_hop_boost s < 0)
      ''retrieval.search.candidate_window_multi_hop_boost must be >= 0'',
    check (cfg_search_candidate_window_filter_boost s < 0)
      ''retrieval.search.candidate_window_filter_boost must be >= 0'',
    check (cfg_search_early_rerank_base_window s \<le> 0)
      ''retrieval.search.early_rerank_base_window must be > 0'',
    check (cfg_search_early_rerank_max_window s \<le> 0)
      ''retrieval.search.early_rerank_max_window must be > 0'',
    check (cfg_search_early_rerank_max_window s < cfg_search_early_rerank_base_window s)
      ''retrieval.search.early_rerank_max_window must be >= retrieval.search.early_rerank_base_window'']"

definition validate_decomposition :: "(string \<Rightarrow> string option) \<Rightarrow> config \<Rightarrow> string option" where
  "validate_decomposition parse_uri cfg =
    (let m = cfg_retrieval_multi_hop (cfg_retrieval cfg);
         provider = normalize_multi_hop_decomposition_provider (cfg_multi_hop_decomposition_provider m) in
     first_error [
    check (cfg_multi_hop_ollama_timeout_ms m < 0) ''retrieval.multi_hop.ollama_timeout_ms must be >= 0'',
    check (cfg_multi_hop_max_decomposition_queries m \<le> 0)
      ''retrieval.multi_hop.max_decomposition_queries must be > 0'',
    check (\<not> is_supported_multi_hop_decomposition_provider provider)
      (''invalid retrieval.multi_hop.decomposition_provider: '' @ quote_text (cfg_multi_hop_decomposition_provider m)),
    only_if (cfg_multi_hop_llm_decomposition_enabled m) (first_error [
      only_if (provider \<in> {[], ''openrouter''}) (first_error [
        validate_open_router_config parse_uri (cfg_openrouter cfg) False False,
        check (trim_space (cfg_multi_hop_openrouter_model m) = [] \<and> trim_space (cfg_openrouter_scoring_model (cfg_openrouter cfg)) = [])
          ''retrieval.multi_hop.openrouter_model or openrouter.scoring_model is required when retrieval.multi_hop.llm_decomposition_enabled=true and decomposition_provider=openrouter'']),
      only_if (provider = ''ollama'') (first_error [
        check (trim_space (cfg_multi_hop_ollama_base_url m) = [])
          ''retrieval.multi_hop.ollama_base_url is required when retrieval.multi_hop.llm_decomposition_enabled=true and decomposition_provider=ollama'',
        check_uri parse_uri (cfg_multi_hop_ollama_base_url m)
          ''invalid retrieval.multi_hop.ollama_base_url: '',
        check (trim_space (cfg_multi_hop_ollama_model m) = [])
          ''retrieval.multi_hop.ollama_model is required when retrieval.multi_hop.llm_decomposition_enabled=true and decomposition_provider=ollama'']),
      only_if (provider = ''none'') (first_error [
        check True
          ''retrieval.multi_hop.decomposition_provider=none cannot be used when retrieval.multi_hop.llm_decomposition_enabled=true''])])])"

definition validate_backends :: "(string \<Rightarrow> string option) \<Rightarrow> config \<Rightarrow> string option" where
  "validate_backends parse_uri cfg =
    (let q = cfg_qdrant cfg;
         g = cfg_pgvector cfg;
         n = cfg_neo4j cfg in
     first_error [
    check (cfg_vector_backend cfg = ''sqlite'' \<and> trim_space (cfg_database_sqlite_dsn (cfg_database cfg)) = [])
      ''database.sqlite_dsn is required when vector_backend=sqlite'',
    only_if (cfg_vector_backend cfg = ''qdrant'') (first_error [
      check (trim_space (cfg_qdrant_base_url q) = [])
        ''qdrant.base_url is required when vector_backend=qdrant'',
      check_uri parse_uri (cfg_qdrant_base_url q) ''invalid qdrant.base_url: '',
      check (trim_space (cfg_qdrant_collection q) = [])
        ''qdrant.collection is required when vector_backend=qdrant'',
      check (cfg_qdrant_timeout_ms q < 0) ''qdrant.timeout_ms must be >= 0'']),
    only_if (cfg_vector_backend cfg = ''pgvector'') (first_error [
      check (trim_space (cfg_pgvector_dsn g) = []) ''pgvector.dsn is required when vector_backend=pgvector'',
      check_uri parse_uri (cfg_pgvector_dsn g) ''invalid pgvector.dsn: '',
      check (trim_space (cfg_pgvector_table g) = [])
        ''pgvector.table is required when vector_backend=pgvector'',
      check (cfg_pgvector_max_open_conns g < 0) ''pgvector.max_open_conns must be >= 0'',
      check (cfg_pgvector_max_idle_conns g < 0) ''pgvector.max_idle_conns must be >= 0'']),
    only_if (cfg_entity_fact_backend cfg = ''neo4j'') (first_error [
      check (trim_space (cfg_neo4j_uri n) = []) ''neo4j.uri is required when entity_fact_backend=neo4j'',
      check_uri parse_uri (cfg_neo4j_uri n) ''invalid neo4j.uri: '',
      check (trim_space (cfg_neo4j_username n) = [])
        ''neo4j.username is required when entity_fact_backend=neo4j'',
      check (trim_space (cfg_neo4j_password n) = [])
        ''neo4j.password is required when entity_fact_backend=neo4j (or set NEO4J_PASSWORD)'',
      check (cfg_neo4j_timeout_ms n < 0) ''neo4j.timeout_ms must be >= 0'',
      check (cfg_neo4j_batch_size n \<le> 0) ''neo4j.batch_size must be > 0''])])"

definition validate_graph :: "retrieval_multi_hop_config \<Rightarrow> string option" where
  "validate_graph m =
   first_error [
    check (cfg_multi_hop_graph_max_hops m < 1 \<or> cfg_multi_hop_graph_max_hops m > 4)
      ''retrieval.multi_hop.graph_max_hops must be in [1,4]'',
    check (cfg_multi_hop_graph_seed_limit m \<le> 0) ''retrieval.multi_hop.graph_seed_limit must be > 0'',
    check (cfg_multi_hop_graph_path_limit m \<le> 0) ''retrieval.multi_hop.graph_path_limit must be > 0'',
    check (cfg_multi_hop_graph_min_score m < 0 \<or> cfg_multi_hop_graph_min_score m > 1)
      ''retrieval.multi_hop.graph_min_score must be in [0,1]'',
    check (cfg_multi_hop_graph_weight m < 0 \<or> cfg_multi_hop_graph_weight m > 1)
      ''retrieval.multi_hop.graph_weight must be in [0,1]'']"

definition validate_auth :: "auth_config \<Rightarrow> string option" where
  "validate_auth a =
   first_error [
    check (cfg_auth_enabled a \<and> trim_space (cfg_auth_jwt_secret a) = [])
      ''auth.jwt_secret is required when auth.enabled=true'']"

definition validate_postprocess :: "postprocess_config \<Rightarrow> string option" where
  "validate_postprocess p =
   first_error [
    check (cfg_postprocess_poll_interval_ms p \<le> 0) ''postprocess.poll_interval_ms must be > 0'',
    check (cfg_postprocess_batch_size p \<le> 0) ''postprocess.batch_size must be > 0'',
    check (cfg_postprocess_worker_count p \<le> 0) ''postprocess.worker_count must be > 0'',
    check (cfg_postprocess_lease_ms p \<le> 0) ''postprocess.lease_ms must be > 0'',
    check (cfg_postprocess_max_attempts p \<le> 0) ''postprocess.max_attempts must be > 0'',
    check (cfg_postprocess_retry_base_ms p \<le> 0) ''postprocess.retry_base_ms must be > 0'',
    check (cfg_postprocess_retry_max_ms p \<le> 0) ''postprocess.retry_max_ms must be > 0'',
    check (cfg_postprocess_retry_base_ms p > cfg_postprocess_retry_max_ms p)
      ''postprocess.retry_base_ms must be <= postprocess.retry_max_ms'']"

definition validate_structured :: "structured_memory_config \<Rightarrow> string option" where
  "validate_structured s =
   first_error [
    check (cfg_structured_max_observations s < 0) ''structured_memory.max_observations must be >= 0'',
    check ((cfg_structured_dual_write_observations s \<or> cfg_structured_dual_write_events s) \<and> cfg_structured_max_observations s = 0)
      ''structured_memory.max_observations must be > 0 when dual_write_observations=true or dual_write_events=true'']"

definition validate_parser :: "(string \<Rightarrow> string option) \<Rightarrow> config \<Rightarrow> string option" where
  "validate_parser parse_uri cfg =
    (let p = cfg_parser cfg;
         provider = normalize_parser_provider (cfg_parser_provider p) in
     first_error [
    check (cfg_parser_max_facts p \<le> 0) ''parser.max_facts must be > 0'',
    check (cfg_parser_ollama_timeout_ms p < 0) ''parser.ollama_timeout_ms must be >= 0'',
    check (cfg_parser_dedupe_threshold p < 0 \<or> cfg_parser_dedupe_threshold p > 1)
      ''parser.dedupe_threshold must be in [0,1]'',
    check (cfg_parser_update_threshold p < 0 \<or> cfg_parser_update_threshold p > 1)
      ''parser.update_threshold must be in [0,1]'',
    check (cfg_parser_dedupe_threshold p > cfg_parser_update_threshold p)
      ''parser.dedupe_threshold must be <= parser.update_threshold'',
    only_if (cfg_parser_enabled p) (first_error [
      check (\<not> is_supported_parser_provider provider)
        (''invalid parser.provider: '' @ quote_text (cfg_parser_provider p)),
      only_if (provider = ''ollama'') (first_error [
        check (trim_space (cfg_parser_ollama_base_url p) = [])
          ''parser.ollama_base_url is required when parser.provider=ollama'',
        check_uri parse_uri (cfg_parser_ollama_base_url p) ''invalid parser.ollama_base_url: '',
        check (trim_space (cfg_parser_ollama_model p) = [])
          ''parser.ollama_model is required when parser.provider=ollama'']),
      only_if (provider = ''openrouter'') (first_error [
        validate_open_router_config parse_uri (cfg_openrouter cfg) False False,
        check (trim_space (cfg_parser_openrouter_model p) = [] \<and> trim_space (cfg_openrouter_scoring_model (cfg_openrouter cfg)) = [])
          ''parser.openrouter_model or openrouter.scoring_model is required when parser.provider=openrouter''])])])"

definition validate :: "(string \<Rightarrow> string option) \<Rightarrow> config \<Rightarrow> err option" where
  "validate parse_uri cfg = map_option ErrMsg (first_error [
     validate_server cfg, validate_embedding parse_uri cfg, validate_scorer parse_uri cfg, validate_scoring cfg,
     validate_search (cfg_retrieval_search (cfg_retrieval cfg)), validate_decomposition parse_uri cfg,
     validate_backends parse_uri cfg, validate_graph (cfg_retrieval_multi_hop (cfg_retrieval cfg)),
     validate_auth (cfg_auth cfg), validate_postprocess (cfg_postprocess cfg),
     validate_structured (cfg_structured_memory cfg), validate_parser parse_uri cfg])"

section \<open>Loading\<close>

definition finish_load ::
  "(string \<Rightarrow> string option) \<Rightarrow> (string \<Rightarrow> string option) \<Rightarrow> config \<Rightarrow> err + config" where
  "finish_load env parse_uri cfg =
     (case apply_environment env cfg of
        Inl e \<Rightarrow> Inl e
      | Inr cfg' \<Rightarrow> (case validate parse_uri cfg' of Some e \<Rightarrow> Inl e | None \<Rightarrow> Inr cfg'))"

definition load ::
  "(string \<Rightarrow> string + string) \<Rightarrow> (string \<Rightarrow> config \<Rightarrow> string + config) \<Rightarrow> (string \<Rightarrow> string option) \<Rightarrow>
   (string \<Rightarrow> string option) \<Rightarrow> string \<Rightarrow> err + config" where
  "load read_file decode env parse_uri path =
     (if path = [] then finish_load env parse_uri defaults
      else case read_file path of
        Inl e \<Rightarrow> Inl (ErrMsg (''read config '' @ quote_text path @ '': '' @ e))
      | Inr b \<Rightarrow>
          (case decode b defaults of
             Inl e \<Rightarrow> Inl (ErrMsg (''parse config: '' @ e))
           | Inr cfg \<Rightarrow> finish_load env parse_uri cfg))"

section \<open>What validation has checked\<close>

lemma first_error_none [simp]: "first_error rs = None \<longleftrightarrow> list_all (\<lambda>r. r = None) rs"
  by (induction rs rule: first_error.induct) auto

lemma check_none [simp]: "check b m = None \<longleftrightarrow> \<not> b"
  by (simp add: check_def)

lemma only_if_none [simp]: "only_if b r = None \<longleftrightarrow> (b \<longrightarrow> r = None)"
  by (simp add: only_if_def)

lemma check_uri_none [simp]: "check_uri parse_uri u m = None \<longleftrightarrow> parse_uri u = None"
  by (simp add: check_uri_def)

lemma validate_none:
  "validate parse_uri cfg = None \<longleftrightarrow>
     validate_server cfg = None \<and> validate_embedding parse_uri cfg = None \<and> validate_scorer parse_uri cfg = None \<and>
     validate_scoring cfg = None \<and> validate_search (cfg_retrieval_search (cfg_retrieval cfg)) = None \<and>
     validate_decomposition parse_uri cfg = None \<and> validate_backends parse_uri cfg = None \<and>
     validate_graph (cfg_retrieval_multi_hop (cfg_retrieval cfg)) = None \<and> validate_auth (cfg_auth cfg) = None \<and>
     validate_postprocess (cfg_postprocess cfg) = None \<and> validate_structured (cfg_structured_memory cfg) = None \<and>
     validate_parser parse_uri cfg = None"
  by (simp add: validate_def)

end
