(* ===== verification/Wiring.thy ===== *)
theory Wiring
  imports Options Config Auth
begin

text \<open>
  From a configuration to a running program: the constructors of the providers, \<open>internal/wiring\<close>, the
  choice of the embedder with its fallback (\<open>embeddings/factory.go\<close>), \<open>NewService\<close> with its options
  (\<open>core/memory/service.go\<close>), and the two entry points that put all of it together and take it down again:
  the HTTP router (\<open>api/router.go\<close>) and the MCP runtime (\<open>startup/mcp.go\<close>). What is outside answers through
  \<open>outside\<close>: the databases, the model servers, the ONNX runtime, and URI parsing. Opening and closing are
  events, in the order in which they happen.
\<close>

section \<open>Outside\<close>

datatype resource = MainDatabase | FactDatabase | VectorDatabase | Workers

record client =
  cl_base_url :: string
  cl_api_key :: string
  cl_model :: string
  cl_timeout :: int

record neo4j_options =
  no_uri :: string
  no_username :: string
  no_password :: string
  no_database :: string
  no_timeout :: int
  no_batch_size :: int

record pgvector_options =
  pg_dsn :: string
  pg_table :: string
  pg_auto_migrate :: bool
  pg_max_open :: int
  pg_max_idle :: int

text \<open>The answers of the outside: an error, or none.\<close>

record outside =
  os_parse_uri :: "string \<Rightarrow> string option"
  os_sqlite :: "string \<Rightarrow> err option"
  os_neo4j :: "neo4j_options \<Rightarrow> err option"
  os_pgvector :: "string \<Rightarrow> err option"
  os_onnx :: "string \<Rightarrow> string \<Rightarrow> err option"
  os_ollama :: "client \<Rightarrow> err option"
  os_static :: "err option"
  os_close :: "resource \<Rightarrow> err option"

definition outside_answer :: "err option \<Rightarrow> 'a \<Rightarrow> err + 'a" where
  "outside_answer r x = (case r of Some e \<Rightarrow> Inl e | None \<Rightarrow> Inr x)"

definition and_then :: "err + 'a \<Rightarrow> ('a \<Rightarrow> err + 'b) \<Rightarrow> err + 'b" where
  "and_then r f = (case r of Inl e \<Rightarrow> Inl e | Inr x \<Rightarrow> f x)"

text \<open>\<open>time.Duration(n) * unit\<close>, on 64 bits.\<close>

definition duration :: "int \<Rightarrow> int \<Rightarrow> int" where
  "duration n unit = wrap64 (n * unit)"

definition trim_slash :: "string \<Rightarrow> string" where
  "trim_slash s = (if s \<noteq> [] \<and> last s = CHR ''/'' then butlast s else s)"

definition or_default :: "string \<Rightarrow> string \<Rightarrow> string" where
  "or_default d s = (if s = [] then d else s)"

definition timeout_or :: "int \<Rightarrow> int \<Rightarrow> int" where
  "timeout_or d t = (if t \<le> 0 then d else t)"

section \<open>Constructors of the providers\<close>

definition new_ollama_client :: "outside \<Rightarrow> string \<Rightarrow> string \<Rightarrow> int \<Rightarrow> err + client" where
  "new_ollama_client out base model timeout =
     (let c = \<lparr>cl_base_url = trim_slash (or_default ''http://127.0.0.1:11434'' (trim_space base)), cl_api_key = [],
               cl_model = or_default ''deepseek-r1:7b'' (trim_space model), cl_timeout = timeout_or (2 * second) timeout\<rparr> in
      outside_answer (os_ollama out c) c)"

definition new_ollama_embedder :: "outside \<Rightarrow> string \<Rightarrow> string \<Rightarrow> int \<Rightarrow> err + client" where
  "new_ollama_embedder out base model timeout =
     (let c = \<lparr>cl_base_url = trim_slash (or_default ''http://127.0.0.1:11434'' (trim_space base)), cl_api_key = [],
               cl_model = or_default ''all-minilm'' (trim_space model), cl_timeout = timeout_or (10 * second) timeout\<rparr> in
      outside_answer (os_ollama out c) c)"

definition new_ollama_info_parser :: "outside \<Rightarrow> string \<Rightarrow> string \<Rightarrow> int \<Rightarrow> err + client" where
  "new_ollama_info_parser out base model timeout =
     (let c = \<lparr>cl_base_url = trim_slash (or_default ''http://127.0.0.1:11434'' (trim_space base)), cl_api_key = [],
               cl_model = or_default ''deepseek-r1:7b'' (trim_space model), cl_timeout = timeout_or (20 * second) timeout\<rparr> in
      outside_answer (os_ollama out c) c)"

definition new_open_router_client :: "string \<Rightarrow> string \<Rightarrow> string \<Rightarrow> int \<Rightarrow> err + client" where
  "new_open_router_client base key model timeout =
     (if trim_space key = [] then Inl (ErrMsg ''openrouter api key is required'')
      else if trim_space model = [] then Inl (ErrMsg ''openrouter scoring model is required'')
      else Inr \<lparr>cl_base_url = or_default ''https://openrouter.ai/api/v1'' (trim_slash (trim_space base)),
                cl_api_key = trim_space key, cl_model = trim_space model, cl_timeout = timeout_or (10 * second) timeout\<rparr>)"

definition new_open_router_embedder :: "string \<Rightarrow> string \<Rightarrow> string \<Rightarrow> int \<Rightarrow> err + client" where
  "new_open_router_embedder base key model timeout =
     (if trim_space key = [] then Inl (ErrMsg ''openrouter api key is required'')
      else if trim_space model = [] then Inl (ErrMsg ''openrouter embedding model is required'')
      else Inr \<lparr>cl_base_url = or_default ''https://openrouter.ai/api/v1'' (trim_slash (trim_space base)),
                cl_api_key = trim_space key, cl_model = trim_space model, cl_timeout = timeout_or (10 * second) timeout\<rparr>)"

definition new_qdrant_client :: "outside \<Rightarrow> string \<Rightarrow> string \<Rightarrow> string \<Rightarrow> int \<Rightarrow> err + client" where
  "new_qdrant_client out base key collection timeout =
     (let url = trim_slash (or_default ''http://127.0.0.1:6333'' (trim_space base)) in
      case os_parse_uri out url of
        Some e \<Rightarrow> Inl (ErrMsg (''invalid qdrant base url: '' @ e))
      | None \<Rightarrow> Inr \<lparr>cl_base_url = url, cl_api_key = trim_space key,
                 cl_model = or_default ''pali_memories'' (trim_space collection), cl_timeout = timeout_or (2 * second) timeout\<rparr>)"

definition normalize_identifier :: "string \<Rightarrow> string" where
  "normalize_identifier s =
     (let v = trim_space s in
      if list_all (\<lambda>c. let n = (of_char c :: nat) in 97 \<le> n \<and> n \<le> 122 \<or> 65 \<le> n \<and> n \<le> 90 \<or> 48 \<le> n \<and> n \<le> 57 \<or> n = 95) v
      then v else [])"

definition new_pgvector_store :: "outside \<Rightarrow> pgvector_options \<Rightarrow> err + pgvector_options" where
  "new_pgvector_store out opts =
     (let dsn = trim_space (pg_dsn opts) in
      if dsn = [] then Inl (ErrMsg ''pgvector dsn is required'')
      else outside_answer (os_pgvector out dsn)
        (opts\<lparr>pg_dsn := dsn, pg_table := or_default ''pali_memories'' (normalize_identifier (pg_table opts))\<rparr>))"

definition new_neo4j_repository :: "outside \<Rightarrow> neo4j_options \<Rightarrow> err + neo4j_options" where
  "new_neo4j_repository out opts =
     (let o' = \<lparr>no_uri = trim_space (no_uri opts), no_username = trim_space (no_username opts),
                no_password = trim_space (no_password opts), no_database = or_default ''neo4j'' (trim_space (no_database opts)),
                no_timeout = timeout_or (2 * second) (no_timeout opts),
                no_batch_size = (if no_batch_size opts \<le> 0 then 256 else no_batch_size opts)\<rparr> in
      if no_uri o' = [] \<or> no_username o' = [] \<or> no_password o' = [] then Inl ErrInvalidInput
      else outside_answer (os_neo4j out o') o')"

section \<open>Choosing providers\<close>

datatype vector_choice = SqliteVectors | QdrantVectors client | PgVectors pgvector_options
datatype fact_choice = SqliteFacts | Neo4jFacts neo4j_options
datatype scorer_choice = ScoreHeuristic | ScoreOllama client | ScoreOpenRouter client
datatype parser_choice = ParseHeuristic | ParseOllama client | ParseOpenRouter client
datatype decomposer_choice = DecomposeOllama client | DecomposeOpenRouter client
datatype embedder_choice = EmbedLexical | EmbedOnnx string string | EmbedOllama client | EmbedOpenRouter client

definition build_vector_store :: "outside \<Rightarrow> config \<Rightarrow> err + vector_choice" where
  "build_vector_store out cfg =
     (let backend = or_default ''sqlite'' (to_lower (trim_space (cfg_vector_backend cfg))); q = cfg_qdrant cfg; p = cfg_pgvector cfg in
      if backend = ''sqlite'' then Inr SqliteVectors
      else if backend = ''qdrant''
      then and_then (new_qdrant_client out (cfg_qdrant_base_url q) (cfg_qdrant_api_key q) (cfg_qdrant_collection q)
             (duration (cfg_qdrant_timeout_ms q) millisecond)) (Inr \<circ> QdrantVectors)
      else if backend = ''pgvector''
      then and_then (new_pgvector_store out \<lparr>pg_dsn = cfg_pgvector_dsn p, pg_table = cfg_pgvector_table p,
             pg_auto_migrate = cfg_pgvector_auto_migrate p, pg_max_open = cfg_pgvector_max_open_conns p,
             pg_max_idle = cfg_pgvector_max_idle_conns p\<rparr>) (Inr \<circ> PgVectors)
      else Inl (ErrMsg (''unsupported vector_backend: '' @ quote_text (cfg_vector_backend cfg))))"

definition build_entity_fact_repository :: "outside \<Rightarrow> config \<Rightarrow> err + fact_choice" where
  "build_entity_fact_repository out cfg =
     (let backend = or_default ''sqlite'' (to_lower (trim_space (cfg_entity_fact_backend cfg))); n = cfg_neo4j cfg in
      if backend = ''sqlite'' then Inr SqliteFacts
      else if backend = ''neo4j''
      then and_then (new_neo4j_repository out \<lparr>no_uri = cfg_neo4j_uri n, no_username = cfg_neo4j_username n,
             no_password = cfg_neo4j_password n, no_database = cfg_neo4j_database n,
             no_timeout = duration (cfg_neo4j_timeout_ms n) millisecond, no_batch_size = cfg_neo4j_batch_size n\<rparr>)
             (Inr \<circ> Neo4jFacts)
      else Inl (ErrMsg (''unsupported entity_fact_backend: '' @ quote_text (cfg_entity_fact_backend cfg))))"

definition open_router_timeout :: "config \<Rightarrow> int" where
  "open_router_timeout cfg = duration (cfg_openrouter_timeout_ms (cfg_openrouter cfg)) millisecond"

definition build_importance_scorer :: "outside \<Rightarrow> config \<Rightarrow> err + scorer_choice" where
  "build_importance_scorer out cfg =
     (let scorer = or_default ''heuristic'' (to_lower (trim_space (cfg_importance_scorer cfg)));
          l = cfg_ollama cfg; r = cfg_openrouter cfg in
      if scorer = ''heuristic'' then Inr ScoreHeuristic
      else if scorer = ''ollama''
      then and_then (new_ollama_client out (cfg_ollama_base_url l) (cfg_ollama_model l)
             (duration (cfg_ollama_timeout_ms l) millisecond)) (Inr \<circ> ScoreOllama)
      else if scorer = ''openrouter''
      then and_then (new_open_router_client (cfg_openrouter_base_url r) (cfg_openrouter_api_key r)
             (cfg_openrouter_scoring_model r) (open_router_timeout cfg)) (Inr \<circ> ScoreOpenRouter)
      else Inl (ErrMsg (''unsupported importance_scorer: '' @ quote_text (cfg_importance_scorer cfg))))"

definition build_info_parser :: "outside \<Rightarrow> config \<Rightarrow> err + parser_choice option" where
  "build_info_parser out cfg =
     (let p = cfg_parser cfg; r = cfg_openrouter cfg;
          provider = or_default ''heuristic'' (to_lower (trim_space (cfg_parser_provider p))) in
      if \<not> cfg_parser_enabled p then Inr None
      else if provider = ''heuristic'' then Inr (Some ParseHeuristic)
      else if provider = ''ollama''
      then and_then (new_ollama_info_parser out (cfg_parser_ollama_base_url p) (cfg_parser_ollama_model p)
             (duration (cfg_parser_ollama_timeout_ms p) millisecond)) (Inr \<circ> Some \<circ> ParseOllama)
      else if provider = ''openrouter''
      then and_then (new_open_router_client (cfg_openrouter_base_url r) (cfg_openrouter_api_key r)
             (or_default (trim_space (cfg_openrouter_scoring_model r)) (trim_space (cfg_parser_openrouter_model p)))
             (open_router_timeout cfg)) (Inr \<circ> Some \<circ> ParseOpenRouter)
      else Inl (ErrMsg (''unsupported parser provider: '' @ quote_text (cfg_parser_provider p))))"

definition build_multi_hop_query_decomposer :: "outside \<Rightarrow> config \<Rightarrow> err + decomposer_choice option" where
  "build_multi_hop_query_decomposer out cfg =
     (let m = cfg_retrieval_multi_hop (cfg_retrieval cfg); l = cfg_ollama cfg; r = cfg_openrouter cfg;
          provider = or_default ''openrouter'' (to_lower (trim_space (cfg_multi_hop_decomposition_provider m))) in
      if \<not> cfg_multi_hop_llm_decomposition_enabled m then Inr None
      else if provider = ''none'' \<or> provider = ''disabled'' then Inr None
      else if provider = ''openrouter''
      then and_then (new_open_router_client (cfg_openrouter_base_url r) (cfg_openrouter_api_key r)
             (or_default (trim_space (cfg_openrouter_scoring_model r)) (trim_space (cfg_multi_hop_openrouter_model m)))
             (open_router_timeout cfg)) (Inr \<circ> Some \<circ> DecomposeOpenRouter)
      else if provider = ''ollama''
      then (let ms = (if cfg_multi_hop_ollama_timeout_ms m \<le> 0 then cfg_ollama_timeout_ms l else cfg_multi_hop_ollama_timeout_ms m) in
            and_then (new_ollama_client out
               (or_default (trim_space (cfg_ollama_base_url l)) (trim_space (cfg_multi_hop_ollama_base_url m)))
               (or_default (trim_space (cfg_ollama_model l)) (trim_space (cfg_multi_hop_ollama_model m)))
               (duration ms millisecond)) (Inr \<circ> Some \<circ> DecomposeOllama))
      else Inl (ErrMsg (''unsupported retrieval.multi_hop.decomposition_provider: '' @
             quote_text (cfg_multi_hop_decomposition_provider m))))"

definition build_provider :: "outside \<Rightarrow> string \<Rightarrow> config \<Rightarrow> err + embedder_choice" where
  "build_provider out provider cfg =
     (let e = cfg_embedding cfg; r = cfg_openrouter cfg in
      if provider = ''onnx''
      then outside_answer (os_onnx out (cfg_embedding_model_path e) (cfg_embedding_tokenizer_path e))
             (EmbedOnnx (cfg_embedding_model_path e) (cfg_embedding_tokenizer_path e))
      else if provider = ''ollama''
      then and_then (new_ollama_embedder out (cfg_embedding_ollama_base_url e) (cfg_embedding_ollama_model e)
             (duration (cfg_embedding_ollama_timeout_seconds e) second)) (Inr \<circ> EmbedOllama)
      else if provider = ''openrouter''
      then and_then (new_open_router_embedder (cfg_openrouter_base_url r) (cfg_openrouter_api_key r)
             (cfg_openrouter_embedding_model r) (open_router_timeout cfg)) (Inr \<circ> EmbedOpenRouter)
      else if provider \<in> {''lexical'', ''mock'', []} then Inr EmbedLexical
      else Inl (ErrMsg (''unsupported embedding provider: '' @ provider)))"

record build_metadata =
  bm_primary :: string
  bm_resolved :: string
  bm_fallback :: string
  bm_used_fallback :: bool

definition provider_or_default :: "string \<Rightarrow> string" where
  "provider_or_default s = (let n = to_lower (trim_space s) in if n = [] then ''lexical'' else n)"

definition build_with_metadata :: "outside \<Rightarrow> config \<Rightarrow> (err + embedder_choice) \<times> build_metadata" where
  "build_with_metadata out cfg =
     (let primary = provider_or_default (cfg_embedding_provider (cfg_embedding cfg));
          fallback = to_lower (trim_space (cfg_embedding_fallback_provider (cfg_embedding cfg)));
          m = \<lparr>bm_primary = primary, bm_resolved = [], bm_fallback = [], bm_used_fallback = False\<rparr> in
      case build_provider out primary cfg of
        Inr e \<Rightarrow> (Inr e, m\<lparr>bm_resolved := primary\<rparr>)
      | Inl er \<Rightarrow>
          if fallback = [] \<or> fallback = primary then (Inl er, m)
          else (case build_provider out fallback cfg of
                  Inl _ \<Rightarrow> (Inl er, m\<lparr>bm_fallback := fallback\<rparr>)
                | Inr e \<Rightarrow> (Inr e, m\<lparr>bm_resolved := fallback, bm_fallback := fallback, bm_used_fallback := True\<rparr>)))"

end
