(* ===== verification/Startup.thy ===== *)
theory Startup
  imports Wiring
begin

text \<open>
  The options of the memory service as \<open>internal/wiring\<close> derives them from the configuration, \<open>NewService\<close>,
  and the two programs that are assembled: \<open>NewRouterWithConfigPath\<close> (\<open>api/router.go\<close>) and \<open>NewMCPRuntime\<close>
  (\<open>startup/mcp.go\<close>), with what they open and close on every path. The properties: a configuration that
  passed validation builds when the outside answers, and its settings are the ones in force; a start that
  fails closes what it opened, but for the workers of the router.
\<close>

section \<open>The service and its options\<close>

record assembly =
  su_vectors :: vector_choice
  su_embedder :: embedder_choice
  su_scorer :: scorer_choice
  su_structured :: structured_options
  su_retrieval :: retrieval_options
  su_ranking :: ranking_options
  su_rerank :: rerank_options
  su_multi_hop :: multi_hop_options
  su_parser :: parser_options
  su_prefer_canonical :: bool
  su_facts :: "fact_choice option"
  su_info_parser :: "parser_choice option"
  su_decomposer :: "decomposer_choice option"
  su_dev_verbose :: bool
  su_progress :: bool

datatype service_option =
    SetStructured structured_options | SetRanking ranking_options | SetRetrieval retrieval_options
  | SetRerank rerank_options | SetParser parser_options | SetMultiHop multi_hop_options
  | SetCanonicalKinds bool | SetLogger | SetDebug bool bool
  | SetInfoParser parser_choice | SetDecomposer decomposer_choice | SetFacts fact_choice

fun apply_option :: "service_option \<Rightarrow> assembly \<Rightarrow> assembly" where
  "apply_option (SetStructured v) s = s\<lparr>su_structured := apply_structured_options v\<rparr>"
| "apply_option (SetRanking v) s = s\<lparr>su_ranking := normalize_ranking_options v\<rparr>"
| "apply_option (SetRetrieval v) s = s\<lparr>su_retrieval := normalize_retrieval_options v\<rparr>"
| "apply_option (SetRerank v) s = s\<lparr>su_rerank := normalize_rerank_options v\<rparr>"
| "apply_option (SetParser v) s = s\<lparr>su_parser := normalize_parser_options v\<rparr>"
| "apply_option (SetMultiHop v) s = s\<lparr>su_multi_hop := normalize_multi_hop_options v\<rparr>"
| "apply_option (SetCanonicalKinds v) s = s\<lparr>su_prefer_canonical := v\<rparr>"
| "apply_option SetLogger s = s"
| "apply_option (SetDebug verbose progress) s = s\<lparr>su_dev_verbose := verbose, su_progress := progress\<rparr>"
| "apply_option (SetInfoParser v) s = s\<lparr>su_info_parser := Some v\<rparr>"
| "apply_option (SetDecomposer v) s = s\<lparr>su_decomposer := Some v\<rparr>"
| "apply_option (SetFacts v) s = s\<lparr>su_facts := Some v\<rparr>"

definition new_service ::
  "vector_choice \<Rightarrow> embedder_choice \<Rightarrow> scorer_choice \<Rightarrow> service_option list \<Rightarrow> assembly" where
  "new_service vectors embedder scorer options =
     (let s = fold apply_option options
        \<lparr>su_vectors = vectors, su_embedder = embedder, su_scorer = scorer,
         su_structured = default_structured_options, su_retrieval = default_retrieval_options,
         su_ranking = default_ranking_options, su_rerank = default_rerank_options,
         su_multi_hop = default_multi_hop_options, su_parser = default_parser_options,
         su_prefer_canonical = False, su_facts = None, su_info_parser = None, su_decomposer = None,
         su_dev_verbose = False, su_progress = False\<rparr> in
      s\<lparr>su_ranking := normalize_ranking_options (su_ranking s),
        su_retrieval := normalize_retrieval_options (su_retrieval s),
        su_rerank := normalize_rerank_options (su_rerank s),
        su_multi_hop := normalize_multi_hop_options (su_multi_hop s),
        su_parser := normalize_parser_options (su_parser s)\<rparr>)"

definition parser_model :: "config \<Rightarrow> string" where
  "parser_model cfg =
     (let p = cfg_parser cfg in
      if to_lower (trim_space (cfg_parser_provider p)) = ''openrouter''
      then if trim_space (cfg_parser_openrouter_model p) \<noteq> [] then cfg_parser_openrouter_model p
           else cfg_openrouter_scoring_model (cfg_openrouter cfg)
      else cfg_parser_ollama_model p)"

definition structured_options_of :: "config \<Rightarrow> structured_options" where
  "structured_options_of cfg =
     (let s = cfg_structured_memory cfg in
      \<lparr>so_enabled = cfg_structured_enabled s, so_dual_write_observations = cfg_structured_dual_write_observations s,
       so_dual_write_events = cfg_structured_dual_write_events s, so_max_observations = cfg_structured_max_observations s\<rparr>)"

definition ranking_options_of :: "config \<Rightarrow> ranking_options" where
  "ranking_options_of cfg =
     (let r = cfg_retrieval_scoring (cfg_retrieval cfg); w = cfg_scoring_wal r; m = cfg_scoring_match r in
      \<lparr>rk_algorithm = cfg_scoring_algorithm r,
       rk_wal = \<lparr>ww_recency = cfg_wal_recency w, ww_relevance = cfg_wal_relevance w, ww_importance = cfg_wal_importance w\<rparr>,
       rk_match = \<lparr>mw_recency = cfg_match_recency m, mw_relevance = cfg_match_relevance m,
         mw_importance = cfg_match_importance m, mw_query_overlap = cfg_match_query_overlap m,
         mw_routing = cfg_match_routing m\<rparr>\<rparr>)"

definition search_tuning_of :: "config \<Rightarrow> search_tuning" where
  "search_tuning_of cfg =
     (let s = cfg_retrieval_search (cfg_retrieval cfg) in
      \<lparr>st_expansion_enabled = cfg_search_adaptive_query_expansion_enabled s,
       st_max_extra_queries = cfg_search_adaptive_query_max_extra_queries s,
       st_weak_lexical_threshold = cfg_search_adaptive_query_weak_lexical_threshold s,
       st_plan_confidence_threshold = cfg_search_adaptive_query_plan_confidence_threshold s,
       st_window_multiplier = cfg_search_candidate_window_multiplier s,
       st_window_min = cfg_search_candidate_window_min s, st_window_max = cfg_search_candidate_window_max s,
       st_window_temporal_boost = cfg_search_candidate_window_temporal_boost s,
       st_window_multi_hop_boost = cfg_search_candidate_window_multi_hop_boost s,
       st_window_filter_boost = cfg_search_candidate_window_filter_boost s,
       st_early_rerank_base = cfg_search_early_rerank_base_window s,
       st_early_rerank_max = cfg_search_early_rerank_max_window s\<rparr>)"

definition retrieval_options_of :: "config \<Rightarrow> retrieval_options" where
  "retrieval_options_of cfg =
     (let r = cfg_retrieval cfg in
      \<lparr>ro_answer_type_routing = cfg_retrieval_answer_type_routing_enabled r,
       ro_early_rank_rerank = cfg_retrieval_early_rank_rerank_enabled r,
       ro_temporal_resolver = cfg_retrieval_temporal_resolver_enabled r,
       ro_open_domain_resolver = cfg_retrieval_open_domain_alternative_resolver_enabled r,
       ro_profile_support_links = cfg_profile_layer_support_links_enabled (cfg_profile_layer cfg),
       ro_search_tuning = search_tuning_of cfg\<rparr>)"

definition parser_options_of :: "config \<Rightarrow> parser_options" where
  "parser_options_of cfg =
     (let p = cfg_parser cfg in
      \<lparr>po_enabled = cfg_parser_enabled p, po_provider = cfg_parser_provider p, po_model = parser_model cfg,
       po_store_raw_turn = cfg_parser_store_raw_turn p, po_max_facts = cfg_parser_max_facts p,
       po_dedupe_threshold = cfg_parser_dedupe_threshold p, po_update_threshold = cfg_parser_update_threshold p,
       po_answer_span_retention = cfg_parser_answer_span_retention_enabled p\<rparr>)"

definition multi_hop_options_of :: "config \<Rightarrow> multi_hop_options" where
  "multi_hop_options_of cfg =
     (let m = cfg_retrieval_multi_hop (cfg_retrieval cfg) in
      \<lparr>mh_entity_fact_bridge = cfg_multi_hop_entity_fact_bridge_enabled m,
       mh_llm_decomposition = cfg_multi_hop_llm_decomposition_enabled m,
       mh_max_decomposition_queries = cfg_multi_hop_max_decomposition_queries m,
       mh_pairwise_rerank = cfg_multi_hop_enable_pairwise_rerank m,
       mh_token_expansion_fallback = cfg_multi_hop_token_expansion_fallback m,
       mh_graph_path = cfg_multi_hop_graph_path_enabled m, mh_graph_max_hops = cfg_multi_hop_graph_max_hops m,
       mh_graph_seed_limit = cfg_multi_hop_graph_seed_limit m, mh_graph_path_limit = cfg_multi_hop_graph_path_limit m,
       mh_graph_min_score = cfg_multi_hop_graph_min_score m, mh_graph_weight = cfg_multi_hop_graph_weight m,
       mh_graph_temporal_validity = cfg_multi_hop_graph_temporal_validity m,
       mh_graph_singleton_invalidation = cfg_multi_hop_graph_singleton_invalidation m\<rparr>)"

definition build_memory_service_options ::
  "config \<Rightarrow> parser_choice option \<Rightarrow> fact_choice \<Rightarrow> decomposer_choice option \<Rightarrow> service_option list" where
  "build_memory_service_options cfg info_parser facts decomposer =
     [SetStructured (structured_options_of cfg), SetRanking (ranking_options_of cfg),
      SetRetrieval (retrieval_options_of cfg), SetParser (parser_options_of cfg),
      SetMultiHop (multi_hop_options_of cfg),
      SetCanonicalKinds (to_lower (trim_space (cfg_entity_fact_backend cfg)) = ''neo4j''),
      SetLogger, SetDebug (cfg_logging_dev_verbose (cfg_logging cfg)) (cfg_logging_progress (cfg_logging cfg))] @
     (case info_parser of Some p \<Rightarrow> [SetInfoParser p] | None \<Rightarrow> []) @
     (case decomposer of Some d \<Rightarrow> [SetDecomposer d] | None \<Rightarrow> []) @
     [SetFacts facts]"

definition worker_options_of :: "config \<Rightarrow> worker_options" where
  "worker_options_of cfg =
     (let p = cfg_postprocess cfg in
      \<lparr>wo_enabled = cfg_postprocess_enabled p, wo_poll_interval = duration (cfg_postprocess_poll_interval_ms p) millisecond,
       wo_batch_size = cfg_postprocess_batch_size p, wo_worker_count = cfg_postprocess_worker_count p,
       wo_lease = duration (cfg_postprocess_lease_ms p) millisecond, wo_max_attempts = cfg_postprocess_max_attempts p,
       wo_retry_base = duration (cfg_postprocess_retry_base_ms p) millisecond,
       wo_retry_max = duration (cfg_postprocess_retry_max_ms p) millisecond\<rparr>)"

text \<open>The options the workers run with; \<open>None\<close> when none are started.\<close>

definition start_postprocess_workers :: "worker_options \<Rightarrow> worker_options option" where
  "start_postprocess_workers opts =
     (let o' = normalize_worker_options opts in if wo_enabled o' then Some o' else None)"

definition configured_workers :: "config \<Rightarrow> worker_options option" where
  "configured_workers cfg =
     (if cfg_postprocess_enabled (cfg_postprocess cfg) then start_postprocess_workers (worker_options_of cfg) else None)"

section \<open>The providers of a service\<close>

text \<open>The constructors that both programs call in the same order once the stores are open.\<close>

definition build_service ::
  "outside \<Rightarrow> config \<Rightarrow> fact_choice \<Rightarrow> vector_choice \<Rightarrow> err + assembly \<times> build_metadata" where
  "build_service out cfg facts vectors =
     (case build_with_metadata out cfg of (r, meta) \<Rightarrow>
      and_then r (\<lambda>embedder.
      and_then (build_importance_scorer out cfg) (\<lambda>scorer.
      and_then (build_info_parser out cfg) (\<lambda>info_parser.
      and_then (build_multi_hop_query_decomposer out cfg) (\<lambda>decomposer.
        Inr (new_service vectors embedder scorer (build_memory_service_options cfg info_parser facts decomposer), meta))))))"

section \<open>The router\<close>

datatype event = Opened resource | Closed resource

record router =
  rt_setup :: assembly
  rt_metadata :: build_metadata
  rt_workers :: "worker_options option"
  rt_auth :: "jwt_authenticator option"

definition started :: "config \<Rightarrow> event list" where
  "started cfg = (if configured_workers cfg = None then [] else [Opened Workers])"

definition build_authenticator :: "config \<Rightarrow> err + jwt_authenticator option" where
  "build_authenticator cfg =
     (let a = cfg_auth cfg in
      if cfg_auth_enabled a
      then and_then (new_jwt_authenticator (cfg_auth_jwt_secret a) (cfg_auth_issuer a)) (Inr \<circ> Some)
      else Inr None)"

definition new_router :: "outside \<Rightarrow> config \<Rightarrow> (err + router) \<times> event list" where
  "new_router out cfg =
     (let close_all = [Closed VectorDatabase, Closed FactDatabase, Closed MainDatabase];
          opened = [Opened MainDatabase, Opened FactDatabase, Opened VectorDatabase] in
      case os_sqlite out (cfg_database_sqlite_dsn (cfg_database cfg)) of
        Some e \<Rightarrow> (Inl e, [])
      | None \<Rightarrow> (case build_entity_fact_repository out cfg of
          Inl e \<Rightarrow> (Inl e, [Opened MainDatabase, Closed MainDatabase])
        | Inr facts \<Rightarrow> (case build_vector_store out cfg of
            Inl e \<Rightarrow> (Inl e, [Opened MainDatabase, Opened FactDatabase, Closed FactDatabase, Closed MainDatabase])
          | Inr vectors \<Rightarrow> (case build_service out cfg facts vectors of
              Inl e \<Rightarrow> (Inl e, opened @ close_all)
            | Inr (su, meta) \<Rightarrow> (case os_static out of
                Some e \<Rightarrow> (Inl e, opened @ started cfg @ close_all)
              | None \<Rightarrow> (case build_authenticator cfg of
                  Inl e \<Rightarrow> (Inl e, opened @ started cfg @ close_all)
                | Inr auth \<Rightarrow> (Inr \<lparr>rt_setup = su, rt_metadata = meta, rt_workers = configured_workers cfg, rt_auth = auth\<rparr>,
                    opened @ started cfg)))))))"

text \<open>The function that the router returns for its end: what it closes, and the first error.\<close>

definition router_cleanup :: "outside \<Rightarrow> router \<Rightarrow> err option \<times> event list" where
  "router_cleanup out r =
     ((case os_close out VectorDatabase of Some e \<Rightarrow> Some e
       | None \<Rightarrow> (case os_close out FactDatabase of Some e \<Rightarrow> Some e | None \<Rightarrow> os_close out MainDatabase)),
      (if rt_workers r = None then [] else [Closed Workers]) @
      [Closed VectorDatabase, Closed FactDatabase, Closed MainDatabase])"

section \<open>The MCP runtime\<close>

record mcp_runtime =
  mc_setup :: assembly
  mc_workers :: "worker_options option"
  mc_auth_enabled :: bool
  mc_default_tenant :: string

text \<open>The clean-up as it grows: a later addition runs first. Stopping the workers is part of the one that closes the
  fact database; before they are started it stops nothing.\<close>

definition chain_cleanup :: "event list \<Rightarrow> event list \<Rightarrow> event list" where
  "chain_cleanup earlier later = later @ earlier"

definition stop_workers :: "bool \<Rightarrow> event list" where
  "stop_workers running = (if running then [Closed Workers] else [])"

definition mcp_cleanup :: "bool \<Rightarrow> event list" where
  "mcp_cleanup running =
     chain_cleanup (chain_cleanup [Closed MainDatabase] (stop_workers running @ [Closed FactDatabase])) [Closed VectorDatabase]"

definition new_mcp_runtime :: "outside \<Rightarrow> (config \<Rightarrow> err option) \<Rightarrow> config \<Rightarrow> (err + mcp_runtime) \<times> event list" where
  "new_mcp_runtime out register cfg =
     (let opened = [Opened MainDatabase, Opened FactDatabase, Opened VectorDatabase];
          running = configured_workers cfg \<noteq> None in
      case os_sqlite out (cfg_database_sqlite_dsn (cfg_database cfg)) of
        Some e \<Rightarrow> (Inl e, [])
      | None \<Rightarrow> (case build_entity_fact_repository out cfg of
          Inl e \<Rightarrow> (Inl e, [Opened MainDatabase, Closed MainDatabase])
        | Inr facts \<Rightarrow> (case build_vector_store out cfg of
            Inl e \<Rightarrow> (Inl e, [Opened MainDatabase, Opened FactDatabase] @
              chain_cleanup [Closed MainDatabase] (stop_workers False @ [Closed FactDatabase]))
          | Inr vectors \<Rightarrow> (case build_service out cfg facts vectors of
              Inl e \<Rightarrow> (Inl e, opened @ mcp_cleanup False)
            | Inr (su, meta) \<Rightarrow> (case register cfg of
                Some e \<Rightarrow> (Inl e, opened @ started cfg @ mcp_cleanup running)
              | None \<Rightarrow> (Inr \<lparr>mc_setup = su, mc_workers = configured_workers cfg,
                   mc_auth_enabled = cfg_auth_enabled (cfg_auth cfg), mc_default_tenant = cfg_default_tenant_id cfg\<rparr>,
                   opened @ started cfg))))))"

end
