(* ===== verification/ConfigLaws.thy ===== *)
theory ConfigLaws
  imports Config
begin

text \<open>
  The laws of the configuration: what the environment decides, and that the defaults are valid.
  A variable is read by the parser of its setting (\<open>override_value\<close>); the assignments of the table commute
  with the sections the table does not name, and together they overwrite everything else.
\<close>

section \<open>One override\<close>

text \<open>The assignment that a variable asks for: none when it is unset or cannot be read.\<close>

fun override_effect :: "(string \<Rightarrow> string option) \<Rightarrow> override \<Rightarrow> config \<Rightarrow> config" where
  "override_effect env (OverrideString n f) = (case env n of None \<Rightarrow> id | Some v \<Rightarrow> f (trim_space v))"
| "override_effect env (OverrideInt n f) =
     (case Option.bind (env n) (atoi \<circ> trim_space) of None \<Rightarrow> id | Some x \<Rightarrow> f x)"
| "override_effect env (OverrideBool n f) =
     (case Option.bind (env n) (parse_bool \<circ> trim_space) of None \<Rightarrow> id | Some x \<Rightarrow> f x)"
| "override_effect env (OverrideFloat n f) =
     (case Option.bind (env n) (parse_float \<circ> trim_space) of None \<Rightarrow> id | Some x \<Rightarrow> f x)"

fun override_name :: "override \<Rightarrow> string" where
  "override_name (OverrideString n f) = n"
| "override_name (OverrideInt n f) = n"
| "override_name (OverrideBool n f) = n"
| "override_name (OverrideFloat n f) = n"

text \<open>The variable is set to a text that its setting cannot be read from.\<close>

fun unreadable :: "(string \<Rightarrow> string option) \<Rightarrow> override \<Rightarrow> bool" where
  "unreadable env (OverrideString n f) = False"
| "unreadable env (OverrideInt n f) = (\<exists>v. env n = Some v \<and> atoi (trim_space v) = None)"
| "unreadable env (OverrideBool n f) = (\<exists>v. env n = Some v \<and> parse_bool (trim_space v) = None)"
| "unreadable env (OverrideFloat n f) = (\<exists>v. env n = Some v \<and> parse_float (trim_space v) = None)"

lemma apply_override_effect: "fst (apply_override env ov s) = override_effect env ov (fst s)"
  by (cases ov; cases s) (auto simp: override_string_def override_read_def split: option.splits)

lemma apply_override_errors:
  "snd (apply_override env ov s) = snd s \<longleftrightarrow> \<not> unreadable env ov"
  "\<exists>e. snd (apply_override env ov s) = snd s @ e"
  by (cases ov; cases s; auto simp: override_string_def override_read_def split: option.splits)+

lemma fold_overrides_effect:
  "fst (fold (apply_override env) ovs s) = fold (override_effect env) ovs (fst s)"
  by (induction ovs arbitrary: s) (simp_all add: apply_override_effect)

lemma fold_overrides_grow: "\<exists>e. snd (fold (apply_override env) ovs s) = snd s @ e"
proof (induction ovs arbitrary: s)
  case (Cons ov ovs)
  obtain e1 where e1: "snd (apply_override env ov s) = snd s @ e1" using apply_override_errors(2) by blast
  obtain e2 where "snd (fold (apply_override env) ovs (apply_override env ov s)) = snd (apply_override env ov s) @ e2"
    using Cons by blast
  with e1 show ?case by simp
qed simp

lemma fold_overrides_errors:
  "snd (fold (apply_override env) ovs s) = snd s \<longleftrightarrow> list_all (\<lambda>ov. \<not> unreadable env ov) ovs"
proof (induction ovs arbitrary: s)
  case (Cons ov ovs)
  let ?s = "apply_override env ov s"
  show ?case
  proof (cases "unreadable env ov")
    case True
    then obtain e where "snd ?s = snd s @ e" "e \<noteq> []"
      using apply_override_errors [of env ov s] by auto
    moreover obtain e' where "snd (fold (apply_override env) ovs ?s) = snd ?s @ e'"
      using fold_overrides_grow by blast
    ultimately show ?thesis using True by simp
  next
    case False
    then have "snd ?s = snd s" by (simp add: apply_override_errors)
    with Cons [of ?s] False show ?thesis by simp
  qed
qed simp

lemma apply_environment_cases:
  "(\<exists>ov \<in> set env_overrides. unreadable env ov) \<Longrightarrow> \<exists>msg. apply_environment env cfg = Inl (ErrMsg msg)"
  "\<forall>ov \<in> set env_overrides. \<not> unreadable env ov \<Longrightarrow>
   apply_environment env cfg =
     Inr (fold (override_effect env) env_overrides (apply_legacy_environment_fallbacks env cfg))"
  using fold_overrides_errors [of env env_overrides "(apply_legacy_environment_fallbacks env cfg, [])"]
    fold_overrides_effect [of env env_overrides "(apply_legacy_environment_fallbacks env cfg, [])"]
  by (auto simp: apply_environment_def list_all_iff split: prod.splits)

section \<open>All overrides\<close>

text \<open>The variable is set to a text from which the value that \<open>c\<close> has is read.\<close>

fun spells :: "(string \<Rightarrow> string option) \<Rightarrow> config \<Rightarrow> override \<Rightarrow> bool" where
  "spells env c (OverrideString n f) = (\<exists>v. env n = Some v \<and> f (trim_space v) c = c)"
| "spells env c (OverrideInt n f) = (\<exists>v x. env n = Some v \<and> atoi (trim_space v) = Some x \<and> f x c = c)"
| "spells env c (OverrideBool n f) = (\<exists>v x. env n = Some v \<and> parse_bool (trim_space v) = Some x \<and> f x c = c)"
| "spells env c (OverrideFloat n f) = (\<exists>v x. env n = Some v \<and> parse_float (trim_space v) = Some x \<and> f x c = c)"

lemma spells_readable: "spells env c ov \<Longrightarrow> \<not> unreadable env ov"
  by (cases ov) auto

lemma spells_effect: "spells env c ov \<Longrightarrow> override_effect env ov c = c"
  by (cases ov) auto

text \<open>A variable that is set and readable assigns one value, whatever the settings are.\<close>

fun assigns :: "override \<Rightarrow> (config \<Rightarrow> config) \<Rightarrow> bool" where
  "assigns (OverrideString n f) g = (\<exists>x. g = f x)"
| "assigns (OverrideInt n f) g = (\<exists>x. g = f x)"
| "assigns (OverrideBool n f) g = (\<exists>x. g = f x)"
| "assigns (OverrideFloat n f) g = (\<exists>x. g = f x)"

lemma spells_assigns: "spells env c ov \<Longrightarrow> assigns ov (override_effect env ov)"
  by (cases ov) auto

definition with_search :: "config \<Rightarrow> config \<Rightarrow> config" where
  "with_search c d = c\<lparr>cfg_retrieval := (cfg_retrieval c)
     \<lparr>cfg_retrieval_search := cfg_retrieval_search (cfg_retrieval d)\<rparr>\<rparr>"

lemma env_overrides_complete:
  assumes "list_all2 assigns env_overrides gs"
  shows "fold id gs d = fold id gs (with_search c d)"
  using assms
  by (auto simp: env_overrides_def list_all2_Cons1 with_search_def intro!: config.equality server_config.equality)

lemma env_overrides_commute:
  "list_all (\<lambda>ov. \<forall>g. assigns ov g \<longrightarrow> g (with_search c d) = with_search (g c) d) env_overrides"
  by (auto simp: env_overrides_def with_search_def)

lemma fold_spelled:
  assumes "list_all (spells env c) ovs" "set ovs \<subseteq> set env_overrides"
  shows "fold (override_effect env) ovs (with_search c d) = with_search c d"
  using assms
proof (induction ovs)
  case (Cons ov ovs)
  have "override_effect env ov (with_search c d) = with_search (override_effect env ov c) d"
    using Cons.prems env_overrides_commute [of c d] spells_assigns [of env c ov] by (auto simp: list_all_iff)
  then show ?case using Cons spells_effect [of env c ov] by simp
qed simp

text \<open>C19 The environment can set every setting except those of the section \<open>retrieval.search\<close>: when each variable
  of the table spells the value that a configuration has, applying the environment to any configuration
  (whatever the file and the older variables OPENROUTER_API_KEY and NEO4J_PASSWORD gave) yields that
  configuration, with only the search section of the one it was applied to. A variable that cannot be read
  makes the whole fail, whatever the others are.\<close>

theorem environment_decides:
  "((\<forall>ov \<in> set env_overrides. spells env c ov) \<longrightarrow>
     apply_environment env d = Inr (c\<lparr>cfg_retrieval := (cfg_retrieval c)
       \<lparr>cfg_retrieval_search := cfg_retrieval_search (cfg_retrieval d)\<rparr>\<rparr>)) \<and>
   ((\<exists>ov \<in> set env_overrides. unreadable env ov) \<longrightarrow> (\<exists>msg. apply_environment env d = Inl (ErrMsg msg)))"
proof (intro conjI impI)
  assume all: "\<forall>ov \<in> set env_overrides. spells env c ov"
  let ?d = "apply_legacy_environment_fallbacks env d"
  have "fold (override_effect env) env_overrides ?d = fold id (map (override_effect env) env_overrides) ?d"
    by (simp add: fold_map comp_def id_def)
  also have "\<dots> = fold id (map (override_effect env) env_overrides) (with_search c ?d)"
    using all by (intro env_overrides_complete) (auto simp: list_all2_conv_all_nth intro!: spells_assigns)
  also have "\<dots> = fold (override_effect env) env_overrides (with_search c ?d)"
    by (simp add: fold_map comp_def id_def)
  also have "\<dots> = with_search c ?d"
    using all by (intro fold_spelled) (auto simp: list_all_iff)
  also have "\<dots> = with_search c d"
    by (simp add: with_search_def apply_legacy_environment_fallbacks_def Let_def)
  finally show "apply_environment env d = Inr (c\<lparr>cfg_retrieval := (cfg_retrieval c)
       \<lparr>cfg_retrieval_search := cfg_retrieval_search (cfg_retrieval d)\<rparr>\<rparr>)"
    using all spells_readable apply_environment_cases(2) by (metis with_search_def)
qed (rule apply_environment_cases(1))

section \<open>The defaults\<close>

lemma defaults_valid: "validate parse_uri defaults = None"
proof -
  have t: "to_lower (trim_space ''lexical'') = ''lexical''" "to_lower (trim_space ''heuristic'') = ''heuristic''"
    "to_lower (trim_space ''wal'') = ''wal''" "to_lower (trim_space ''openrouter'') = ''openrouter''"
    by code_simp+
  have "trim_space ''file:pali.db?cache=shared'' \<noteq> []" by code_simp
  then show ?thesis unfolding validate_none
    by (simp add: defaults_def validate_server_def validate_embedding_def validate_scorer_def validate_scoring_def
        validate_search_def validate_decomposition_def validate_backends_def validate_graph_def validate_auth_def
        validate_postprocess_def validate_structured_def validate_parser_def normalize_provider_def
        normalize_importance_scorer_def normalize_ranking_algorithm_def normalize_multi_hop_decomposition_provider_def
        normalize_parser_provider_def is_supported_embedding_provider_def is_supported_importance_scorer_def
        is_supported_ranking_algorithm_def is_supported_multi_hop_decomposition_provider_def
        validate_scoring_weights_def validate_match_scoring_weights_def t Let_def)
qed

text \<open>Without a file and without variables the program runs with its defaults, which are valid; whatever the
  file and the environment are, a configuration that is loaded has passed validation.\<close>

theorem load_valid:
  "load read_file decode (\<lambda>_. None) parse_uri [] = Inr defaults \<and>
   (load read_file decode env parse_uri path = Inr cfg \<longrightarrow> validate parse_uri cfg = None)"
proof (intro conjI impI)
  have "override_effect (\<lambda>_. None) ov = id" for ov by (cases ov) auto
  then have "fold (override_effect (\<lambda>_. None)) ovs c = c" for ovs c by (induction ovs) auto
  moreover have "\<forall>ov \<in> set env_overrides. \<not> unreadable (\<lambda>_. None) ov"
    by (intro ballI, rename_tac ov, case_tac ov) auto
  moreover have "apply_legacy_environment_fallbacks (\<lambda>_. None) defaults = defaults"
    by (simp add: apply_legacy_environment_fallbacks_def getenv_def defaults_def Let_def trim_space_def
        trim_left_def trim_right_def)
  ultimately have "apply_environment (\<lambda>_. None) defaults = Inr defaults"
    by (simp add: apply_environment_cases(2))
  then show "load read_file decode (\<lambda>_. None) parse_uri [] = Inr defaults"
    by (simp add: load_def finish_load_def defaults_valid)
next
  assume "load read_file decode env parse_uri path = Inr cfg"
  then show "validate parse_uri cfg = None"
    by (auto simp: load_def finish_load_def split: if_splits sum.splits option.splits)
qed

section \<open>An environment that spells a configuration\<close>

text \<open>The text 1 can be read as any kind of setting.\<close>

definition ones :: config where
  "ones =
    \<lparr>cfg_server =
      \<lparr>cfg_server_host = ''1'', cfg_server_port = 1\<rparr>,
     cfg_vector_backend = ''1'', cfg_entity_fact_backend = ''1'', cfg_default_tenant_id = ''1'',
     cfg_importance_scorer = ''1'',
     cfg_postprocess =
      \<lparr>cfg_postprocess_enabled = True, cfg_postprocess_poll_interval_ms = 1,
       cfg_postprocess_batch_size = 1, cfg_postprocess_worker_count = 1, cfg_postprocess_lease_ms = 1,
       cfg_postprocess_max_attempts = 1, cfg_postprocess_retry_base_ms = 1,
       cfg_postprocess_retry_max_ms = 1\<rparr>,
     cfg_structured_memory =
      \<lparr>cfg_structured_enabled = True, cfg_structured_dual_write_observations = True,
       cfg_structured_dual_write_events = True, cfg_structured_max_observations = 1\<rparr>,
     cfg_retrieval =
      \<lparr>cfg_retrieval_scoring =
        \<lparr>cfg_scoring_algorithm = ''1'',
         cfg_scoring_wal =
          \<lparr>cfg_wal_recency = 1, cfg_wal_relevance = 1, cfg_wal_importance = 1\<rparr>,
         cfg_scoring_match =
          \<lparr>cfg_match_recency = 1, cfg_match_relevance = 1, cfg_match_importance = 1,
           cfg_match_query_overlap = 1, cfg_match_routing = 1\<rparr>\<rparr>,
       cfg_retrieval_search =
        \<lparr>cfg_search_adaptive_query_expansion_enabled = True,
         cfg_search_adaptive_query_max_extra_queries = 1,
         cfg_search_adaptive_query_weak_lexical_threshold = 1,
         cfg_search_adaptive_query_plan_confidence_threshold = 1,
         cfg_search_candidate_window_multiplier = 1, cfg_search_candidate_window_min = 1,
         cfg_search_candidate_window_max = 1, cfg_search_candidate_window_temporal_boost = 1,
         cfg_search_candidate_window_multi_hop_boost = 1, cfg_search_candidate_window_filter_boost = 1,
         cfg_search_early_rerank_base_window = 1, cfg_search_early_rerank_max_window = 1\<rparr>,
       cfg_retrieval_multi_hop =
        \<lparr>cfg_multi_hop_entity_fact_bridge_enabled = True,
         cfg_multi_hop_llm_decomposition_enabled = True, cfg_multi_hop_decomposition_provider = ''1'',
         cfg_multi_hop_openrouter_model = ''1'', cfg_multi_hop_ollama_base_url = ''1'',
         cfg_multi_hop_ollama_model = ''1'', cfg_multi_hop_ollama_timeout_ms = 1,
         cfg_multi_hop_max_decomposition_queries = 1, cfg_multi_hop_enable_pairwise_rerank = True,
         cfg_multi_hop_token_expansion_fallback = True, cfg_multi_hop_graph_path_enabled = True,
         cfg_multi_hop_graph_max_hops = 1, cfg_multi_hop_graph_seed_limit = 1,
         cfg_multi_hop_graph_path_limit = 1, cfg_multi_hop_graph_min_score = 1,
         cfg_multi_hop_graph_weight = 1, cfg_multi_hop_graph_temporal_validity = True,
         cfg_multi_hop_graph_singleton_invalidation = True\<rparr>,
       cfg_retrieval_answer_type_routing_enabled = True, cfg_retrieval_early_rank_rerank_enabled = True,
       cfg_retrieval_temporal_resolver_enabled = True,
       cfg_retrieval_open_domain_alternative_resolver_enabled = True\<rparr>,
     cfg_parser =
      \<lparr>cfg_parser_enabled = True, cfg_parser_provider = ''1'', cfg_parser_ollama_base_url = ''1'',
       cfg_parser_ollama_model = ''1'', cfg_parser_openrouter_model = ''1'',
       cfg_parser_ollama_timeout_ms = 1, cfg_parser_store_raw_turn = True, cfg_parser_max_facts = 1,
       cfg_parser_dedupe_threshold = 1, cfg_parser_update_threshold = 1,
       cfg_parser_answer_span_retention_enabled = True\<rparr>,
     cfg_profile_layer =
      \<lparr>cfg_profile_layer_support_links_enabled = True\<rparr>,
     cfg_database =
      \<lparr>cfg_database_sqlite_dsn = ''1''\<rparr>,
     cfg_qdrant =
      \<lparr>cfg_qdrant_base_url = ''1'', cfg_qdrant_api_key = ''1'', cfg_qdrant_collection = ''1'',
       cfg_qdrant_timeout_ms = 1\<rparr>,
     cfg_pgvector =
      \<lparr>cfg_pgvector_dsn = ''1'', cfg_pgvector_table = ''1'', cfg_pgvector_auto_migrate = True,
       cfg_pgvector_max_open_conns = 1, cfg_pgvector_max_idle_conns = 1\<rparr>,
     cfg_neo4j =
      \<lparr>cfg_neo4j_uri = ''1'', cfg_neo4j_username = ''1'', cfg_neo4j_password = ''1'',
       cfg_neo4j_database = ''1'', cfg_neo4j_timeout_ms = 1, cfg_neo4j_batch_size = 1\<rparr>,
     cfg_embedding =
      \<lparr>cfg_embedding_provider = ''1'', cfg_embedding_fallback_provider = ''1'',
       cfg_embedding_model_path = ''1'', cfg_embedding_tokenizer_path = ''1'',
       cfg_embedding_ollama_base_url = ''1'', cfg_embedding_ollama_model = ''1'',
       cfg_embedding_ollama_timeout_seconds = 1\<rparr>,
     cfg_openrouter =
      \<lparr>cfg_openrouter_base_url = ''1'', cfg_openrouter_api_key = ''1'',
       cfg_openrouter_embedding_model = ''1'', cfg_openrouter_scoring_model = ''1'',
       cfg_openrouter_timeout_ms = 1\<rparr>,
     cfg_ollama =
      \<lparr>cfg_ollama_base_url = ''1'', cfg_ollama_model = ''1'', cfg_ollama_timeout_ms = 1\<rparr>,
     cfg_auth =
      \<lparr>cfg_auth_enabled = True, cfg_auth_jwt_secret = ''1'', cfg_auth_issuer = ''1''\<rparr>,
     cfg_logging =
      \<lparr>cfg_logging_dev_verbose = True, cfg_logging_progress = True\<rparr>\<rparr>"

lemma readings_of_one:
  "trim_space ''1'' = ''1''" "atoi ''1'' = Some 1" "parse_bool ''1'' = Some True" "parse_float ''1'' = Some 1"
  by (simp_all add: trim_space_def trim_left_def trim_right_def is_space_def atoi_def signed_text_def digits_value_def
      digit_value_def re_digit_def in_int64_def parse_bool_def parse_float_def mantissa_value_def scale_decimal_def)

lemma ones_spelled: "list_all (spells (\<lambda>_. Some ''1'') ones) env_overrides"
  by (auto simp: env_overrides_def readings_of_one ones_def)

lemma environment_decides_witness:
  "(\<exists>c. apply_environment (\<lambda>_. Some ''1'') defaults = Inr c \<and> cfg_server_port (cfg_server c) = 1 \<and>
      cfg_search_candidate_window_multiplier (cfg_retrieval_search (cfg_retrieval c)) = 5) \<and>
   (\<exists>msg. apply_environment (\<lambda>n. if n = ''PALI_SERVER_PORT'' then Some ''http'' else None) defaults = Inl (ErrMsg msg))"
proof
  have "\<forall>ov \<in> set env_overrides. spells (\<lambda>_. Some ''1'') ones ov" using ones_spelled by (simp add: list_all_iff)
  with environment_decides [of "\<lambda>_. Some ''1''" ones defaults]
  have "apply_environment (\<lambda>_. Some ''1'') defaults = Inr (with_search ones defaults)" by (simp add: with_search_def)
  moreover have "cfg_server_port (cfg_server (with_search ones defaults)) = 1"
    "cfg_search_candidate_window_multiplier (cfg_retrieval_search (cfg_retrieval (with_search ones defaults))) = 5"
    by (simp_all add: with_search_def ones_def defaults_def)
  ultimately show "\<exists>c. apply_environment (\<lambda>_. Some ''1'') defaults = Inr c \<and> cfg_server_port (cfg_server c) = 1 \<and>
      cfg_search_candidate_window_multiplier (cfg_retrieval_search (cfg_retrieval c)) = 5"
    by (intro exI [of _ "with_search ones defaults"]) simp
next
  have "atoi (trim_space ''http'') = None" by code_simp
  then have "unreadable (\<lambda>n. if n = ''PALI_SERVER_PORT'' then Some ''http'' else None)
      (OverrideInt ''PALI_SERVER_PORT'' (\<lambda>v. cfg_server_update (cfg_server_port_update (\<lambda>_. v))))" by simp
  moreover have "OverrideInt ''PALI_SERVER_PORT'' (\<lambda>v. cfg_server_update (cfg_server_port_update (\<lambda>_. v))) \<in> set env_overrides"
    unfolding env_overrides_def by simp
  ultimately show "\<exists>msg. apply_environment (\<lambda>n. if n = ''PALI_SERVER_PORT'' then Some ''http'' else None) defaults = Inl (ErrMsg msg)"
    using environment_decides [of "\<lambda>n. if n = ''PALI_SERVER_PORT'' then Some ''http'' else None" ones defaults] by blast
qed

lemma load_valid_witness:
  "load (\<lambda>_. Inl ''no such file'') (\<lambda>_ c. Inr c) (\<lambda>_. None) (\<lambda>_. None) [] = Inr defaults \<and> validate (\<lambda>_. None) defaults = None"
  using load_valid [of "\<lambda>_. Inl ''no such file''" "\<lambda>_ c. Inr c" "\<lambda>_. None" "\<lambda>_. None" "[]" defaults] by blast

end
