(* ===== verification/StartupLaws.thy ===== *)
theory StartupLaws
  imports Startup ConfigLaws
begin

text \<open>
  The laws of the assembly: validated configurations build, their settings are in force, and what a start
  that fails leaves open.
\<close>

section \<open>Builders on a validated configuration\<close>

lemma and_then_ok: "(\<exists>y. and_then r f = Inr y) \<longleftrightarrow> (\<exists>x. r = Inr x \<and> (\<exists>y. f x = Inr y))"
  by (cases r) (auto simp: and_then_def)

lemma outside_answer_ok [simp]: "outside_answer None x = Inr x"
  by (simp add: outside_answer_def)

lemma backend_names [simp]:
  "to_lower (trim_space ''sqlite'') = ''sqlite''" "to_lower (trim_space ''qdrant'') = ''qdrant''"
  "to_lower (trim_space ''pgvector'') = ''pgvector''" "to_lower (trim_space ''neo4j'') = ''neo4j''"
  by code_simp+

text \<open>The outside that a configuration names is there, and nothing more is asked: the main database opens; neo4j, or
  pgvector, answers at the configured address when it is a configured backend; an Ollama server answers at the
  address of each client that is configured to use it; and an embedder can be loaded, the configured one
  or its fallback.\<close>

definition ollama_at :: "outside \<Rightarrow> string \<Rightarrow> bool" where
  "ollama_at out base \<longleftrightarrow> (\<forall>c. cl_base_url c = trim_slash (or_default ''http://127.0.0.1:11434'' (trim_space base)) \<longrightarrow>
     os_ollama out c = None)"

definition provider_ready :: "outside \<Rightarrow> config \<Rightarrow> string \<Rightarrow> bool" where
  "provider_ready out cfg provider \<longleftrightarrow>
     (provider = ''onnx'' \<longrightarrow> os_onnx out (cfg_embedding_model_path (cfg_embedding cfg))
        (cfg_embedding_tokenizer_path (cfg_embedding cfg)) = None) \<and>
     (provider = ''ollama'' \<longrightarrow> ollama_at out (cfg_embedding_ollama_base_url (cfg_embedding cfg)))"

definition embedding_ready :: "outside \<Rightarrow> config \<Rightarrow> bool" where
  "embedding_ready out cfg \<longleftrightarrow>
     (let primary = normalize_provider (cfg_embedding_provider (cfg_embedding cfg));
          fallback = normalize_provider (cfg_embedding_fallback_provider (cfg_embedding cfg)) in
      provider_ready out cfg primary \<or>
      fallback \<in> {''lexical'', ''mock'', ''onnx'', ''ollama''} \<and> fallback \<noteq> primary \<and> provider_ready out cfg fallback)"

definition ready :: "outside \<Rightarrow> config \<Rightarrow> bool" where
  "ready out cfg \<longleftrightarrow>
     os_sqlite out (cfg_database_sqlite_dsn (cfg_database cfg)) = None \<and>
     (cfg_entity_fact_backend cfg = ''neo4j'' \<longrightarrow>
        (\<forall>opts. no_uri opts = trim_space (cfg_neo4j_uri (cfg_neo4j cfg)) \<longrightarrow> os_neo4j out opts = None)) \<and>
     (cfg_vector_backend cfg = ''pgvector'' \<longrightarrow> os_pgvector out (trim_space (cfg_pgvector_dsn (cfg_pgvector cfg))) = None) \<and>
     (normalize_importance_scorer (cfg_importance_scorer cfg) = ''ollama'' \<longrightarrow>
        ollama_at out (cfg_ollama_base_url (cfg_ollama cfg))) \<and>
     (cfg_parser_enabled (cfg_parser cfg) \<and> normalize_parser_provider (cfg_parser_provider (cfg_parser cfg)) = ''ollama'' \<longrightarrow>
        ollama_at out (cfg_parser_ollama_base_url (cfg_parser cfg))) \<and>
     (let m = cfg_retrieval_multi_hop (cfg_retrieval cfg) in
      cfg_multi_hop_llm_decomposition_enabled m \<and>
      normalize_multi_hop_decomposition_provider (cfg_multi_hop_decomposition_provider m) = ''ollama'' \<longrightarrow>
        ollama_at out (cfg_multi_hop_ollama_base_url m)) \<and>
     embedding_ready out cfg"

lemma readyD:
  assumes "ready out cfg"
  shows "os_sqlite out (cfg_database_sqlite_dsn (cfg_database cfg)) = None"
    and "cfg_entity_fact_backend cfg = ''neo4j'' \<Longrightarrow> no_uri opts = trim_space (cfg_neo4j_uri (cfg_neo4j cfg)) \<Longrightarrow>
      os_neo4j out opts = None"
    and "cfg_vector_backend cfg = ''pgvector'' \<Longrightarrow> os_pgvector out (trim_space (cfg_pgvector_dsn (cfg_pgvector cfg))) = None"
    and "normalize_importance_scorer (cfg_importance_scorer cfg) = ''ollama'' \<Longrightarrow>
      ollama_at out (cfg_ollama_base_url (cfg_ollama cfg))"
    and "cfg_parser_enabled (cfg_parser cfg) \<Longrightarrow>
      normalize_parser_provider (cfg_parser_provider (cfg_parser cfg)) = ''ollama'' \<Longrightarrow>
      ollama_at out (cfg_parser_ollama_base_url (cfg_parser cfg))"
    and "cfg_multi_hop_llm_decomposition_enabled (cfg_retrieval_multi_hop (cfg_retrieval cfg)) \<Longrightarrow>
      normalize_multi_hop_decomposition_provider (cfg_multi_hop_decomposition_provider (cfg_retrieval_multi_hop (cfg_retrieval cfg))) = ''ollama'' \<Longrightarrow>
      ollama_at out (cfg_multi_hop_ollama_base_url (cfg_retrieval_multi_hop (cfg_retrieval cfg)))"
    and "embedding_ready out cfg"
  using assms by (simp_all add: ready_def Let_def)

text \<open>What \<open>url.ParseRequestURI\<close> says of the address of qdrant as the client uses it: without blanks and without a
  final slash.\<close>

definition qdrant_address_error :: "outside \<Rightarrow> config \<Rightarrow> string option" where
  "qdrant_address_error out cfg =
     (if cfg_vector_backend cfg = ''qdrant''
      then os_parse_uri out (trim_slash (trim_space (cfg_qdrant_base_url (cfg_qdrant cfg)))) else None)"

lemma ollama_atD:
  "ollama_at out base \<Longrightarrow> cl_base_url c = trim_slash (or_default ''http://127.0.0.1:11434'' (trim_space base)) \<Longrightarrow>
     os_ollama out c = None"
  by (simp add: ollama_at_def)

lemma ollama_at_trimmed [simp]: "ollama_at out (trim_space s) = ollama_at out s"
  by (simp add: ollama_at_def str_norm)

text \<open>The constructors of the Ollama clients succeed where the server answers.\<close>

lemma ollama_clients:
  assumes "ollama_at out base"
  shows "\<exists>c. new_ollama_client out base model t = Inr c" "\<exists>c. new_ollama_embedder out base model t = Inr c"
    "\<exists>c. new_ollama_info_parser out base model t = Inr c"
  by (simp_all add: new_ollama_client_def new_ollama_embedder_def new_ollama_info_parser_def ollama_atD [OF assms] Let_def)

lemma vector_store_outcome:
  assumes "ready out cfg" "validate_server cfg = None" "validate_backends (os_parse_uri out) cfg = None"
  shows "case qdrant_address_error out cfg of
      None \<Rightarrow> \<exists>v. build_vector_store out cfg = Inr v
    | Some e \<Rightarrow> build_vector_store out cfg = Inl (ErrMsg (''invalid qdrant base url: '' @ e))"
proof -
  have "cfg_vector_backend cfg \<in> {''sqlite'', ''qdrant'', ''pgvector''}"
    using assms(2) by (simp add: validate_server_def)
  then consider "cfg_vector_backend cfg = ''sqlite''" | "cfg_vector_backend cfg = ''qdrant''"
    | "cfg_vector_backend cfg = ''pgvector''" by blast
  then show ?thesis
  proof cases
    case 1
    then show ?thesis by (simp add: build_vector_store_def or_default_def qdrant_address_error_def Let_def)
  next
    case 2
    with assms(3) have "trim_space (cfg_qdrant_base_url (cfg_qdrant cfg)) \<noteq> []"
      by (simp add: validate_backends_def Let_def)
    with 2 show ?thesis
      by (simp add: build_vector_store_def or_default_def and_then_def new_qdrant_client_def qdrant_address_error_def
          Let_def split: option.split)
  next
    case 3
    with assms(3) have "trim_space (cfg_pgvector_dsn (cfg_pgvector cfg)) \<noteq> []"
      by (simp add: validate_backends_def Let_def)
    with 3 readyD(3) [OF assms(1) 3] show ?thesis
      by (simp add: build_vector_store_def or_default_def and_then_def new_pgvector_store_def qdrant_address_error_def
          Let_def)
  qed
qed

lemma fact_repository_builds:
  assumes "ready out cfg" "validate_server cfg = None" "validate_backends (os_parse_uri out) cfg = None"
  shows "\<exists>v. build_entity_fact_repository out cfg = Inr v"
proof -
  have "cfg_entity_fact_backend cfg \<in> {''sqlite'', ''neo4j''}"
    using assms(2) by (simp add: validate_server_def)
  with assms(3) readyD(2) [OF assms(1)] show ?thesis
    by (auto simp: build_entity_fact_repository_def or_default_def and_then_ok new_neo4j_repository_def
        validate_backends_def Let_def)
qed

lemma normal_names:
  "or_default ''heuristic'' (to_lower (trim_space s)) = normalize_importance_scorer s"
  "or_default ''heuristic'' (to_lower (trim_space s)) = normalize_parser_provider s"
  by (simp_all add: or_default_def normalize_importance_scorer_def normalize_parser_provider_def Let_def)

lemma or_default_blank [simp]:
  "trim_space (or_default (trim_space a) (trim_space b)) = [] \<longleftrightarrow> trim_space a = [] \<and> trim_space b = []"
  by (auto simp: or_default_def str_norm)

lemma or_default_Cons [simp]: "or_default d (x # xs) = x # xs"
  by (simp add: or_default_def)

lemma or_default_nonempty: "s \<noteq> [] \<Longrightarrow> or_default d s = s"
  by (simp add: or_default_def)

lemma to_lower_Nil [simp]: "to_lower [] = []"
  by (simp add: to_lower_def)

lemma scorer_builds:
  assumes "ready out cfg" "validate_scorer (os_parse_uri out) cfg = None"
  shows "\<exists>v. build_importance_scorer out cfg = Inr v"
proof -
  let ?s = "normalize_importance_scorer (cfg_importance_scorer cfg)"
  have "?s \<in> {''heuristic'', ''ollama'', ''openrouter''}"
    using assms(2) by (simp add: validate_scorer_def is_supported_importance_scorer_def Let_def)
  then consider "?s = ''heuristic''" | "?s = ''ollama''" | "?s = ''openrouter''" by blast
  then show ?thesis
  proof cases
    case 2
    with ollama_clients(1) [OF readyD(4) [OF assms(1)]] show ?thesis
      by (simp add: build_importance_scorer_def normal_names(1) and_then_ok Let_def)
  next
    case 3
    with assms(2) show ?thesis
      by (simp add: build_importance_scorer_def normal_names(1) and_then_ok new_open_router_client_def
          validate_scorer_def validate_open_router_config_def Let_def)
  qed (simp add: build_importance_scorer_def normal_names(1) Let_def)
qed

lemma parser_builds:
  assumes "ready out cfg" "validate_parser (os_parse_uri out) cfg = None"
  shows "\<exists>v. build_info_parser out cfg = Inr v"
proof (cases "cfg_parser_enabled (cfg_parser cfg)")
  case True
  let ?s = "normalize_parser_provider (cfg_parser_provider (cfg_parser cfg))"
  have "?s \<in> {''heuristic'', ''ollama'', ''openrouter''}"
    using assms(2) True by (simp add: validate_parser_def is_supported_parser_provider_def Let_def)
  then consider "?s = ''heuristic''" | "?s = ''ollama''" | "?s = ''openrouter''" by blast
  then show ?thesis
  proof cases
    case 2
    with True ollama_clients(3) [OF readyD(5) [OF assms(1)]] show ?thesis
      by (simp add: build_info_parser_def normal_names(2) and_then_ok Let_def)
  next
    case 3
    with True assms(2) show ?thesis
      by (auto simp: build_info_parser_def normal_names(2) and_then_ok new_open_router_client_def
          validate_parser_def validate_open_router_config_def Let_def)
  qed (use True in \<open>simp add: build_info_parser_def normal_names(2) Let_def\<close>)
qed (simp add: build_info_parser_def Let_def)

lemma decomposer_builds:
  assumes "ready out cfg" "validate_decomposition (os_parse_uri out) cfg = None"
  shows "\<exists>v. build_multi_hop_query_decomposer out cfg = Inr v"
proof (cases "cfg_multi_hop_llm_decomposition_enabled (cfg_retrieval_multi_hop (cfg_retrieval cfg))")
  case True
  let ?n = "to_lower (trim_space (cfg_multi_hop_decomposition_provider (cfg_retrieval_multi_hop (cfg_retrieval cfg))))"
  have "?n \<in> {''none'', ''disabled'', [], ''openrouter'', ''ollama''}"
    using assms(2) by (auto simp: validate_decomposition_def normalize_multi_hop_decomposition_provider_def
        is_supported_multi_hop_decomposition_provider_def Let_def split: if_splits)
  then consider "?n = ''none'' \<or> ?n = ''disabled''" | "?n = [] \<or> ?n = ''openrouter''" | "?n = ''ollama''" by blast
  then show ?thesis
  proof cases
    case 1
    then show ?thesis by (elim disjE) (simp_all add: build_multi_hop_query_decomposer_def Let_def)
  next
    case 2
    with True assms(2) show ?thesis
      by (auto simp: build_multi_hop_query_decomposer_def or_default_def and_then_ok new_open_router_client_def
          validate_decomposition_def normalize_multi_hop_decomposition_provider_def
          validate_open_router_config_def Let_def)
  next
    case 3
    have "trim_space (cfg_multi_hop_ollama_base_url (cfg_retrieval_multi_hop (cfg_retrieval cfg))) \<noteq> []"
      using True 3 assms(2) by (simp add: validate_decomposition_def normalize_multi_hop_decomposition_provider_def Let_def)
    moreover have "ollama_at out (trim_space (cfg_multi_hop_ollama_base_url (cfg_retrieval_multi_hop (cfg_retrieval cfg))))"
      using readyD(6) [OF assms(1) True] 3 by (simp add: normalize_multi_hop_decomposition_provider_def Let_def)
    ultimately show ?thesis using 3 True
      by (simp add: build_multi_hop_query_decomposer_def or_default_nonempty and_then_ok ollama_clients Let_def)
  qed
qed (simp add: build_multi_hop_query_decomposer_def Let_def)

lemma provider_builds:
  assumes "provider_ready out cfg p" "p \<in> {''lexical'', ''mock'', ''onnx'', ''ollama''}"
  shows "\<exists>v. build_provider out p cfg = Inr v"
  using assms by (auto simp: build_provider_def provider_ready_def and_then_ok ollama_clients Let_def)

lemma embedder_builds:
  assumes "ready out cfg" "validate_embedding (os_parse_uri out) cfg = None"
  shows "\<exists>v m. build_with_metadata out cfg = (Inr v, m)"
proof -
  let ?primary = "normalize_provider (cfg_embedding_provider (cfg_embedding cfg))"
  let ?fallback = "normalize_provider (cfg_embedding_fallback_provider (cfg_embedding cfg))"
  have sup: "?primary \<in> {''lexical'', ''mock'', ''onnx'', ''ollama'', ''openrouter''}"
    using assms(2) by (simp add: validate_embedding_def is_supported_embedding_provider_def Let_def)
  then have pd: "provider_or_default (cfg_embedding_provider (cfg_embedding cfg)) = ?primary"
    by (auto simp: provider_or_default_def normalize_provider_def Let_def)
  have "\<exists>v. build_provider out ''openrouter'' cfg = Inr v" if "?primary = ''openrouter''"
    using assms(2) that
    by (auto simp: build_provider_def validate_embedding_def and_then_ok new_open_router_embedder_def
        validate_open_router_config_def Let_def)
  with sup have primary: "\<exists>v. build_provider out ?primary cfg = Inr v" if "provider_ready out cfg ?primary"
    using provider_builds [OF that] by auto
  from assms(1) consider "provider_ready out cfg ?primary"
    | "?fallback \<in> {''lexical'', ''mock'', ''onnx'', ''ollama''}" "?fallback \<noteq> ?primary" "provider_ready out cfg ?fallback"
    using readyD(7) by (auto simp: embedding_ready_def Let_def)
  then show ?thesis
  proof cases
    case 1
    with primary show ?thesis by (auto simp: build_with_metadata_def pd Let_def)
  next
    case 2
    from provider_builds [OF 2(3,1)] obtain v where "build_provider out ?fallback cfg = Inr v" by blast
    with 2(1,2) show ?thesis
      by (auto simp: build_with_metadata_def pd normalize_provider_def Let_def split: sum.split)
  qed
qed

lemma service_builds:
  assumes "ready out cfg" "validate (os_parse_uri out) cfg = None"
  shows "\<exists>su m. build_service out cfg facts vectors = Inr (su, m)"
proof -
  note v = assms(2) [unfolded validate_none]
  obtain e m where "build_with_metadata out cfg = (Inr e, m)" using embedder_builds [OF assms(1)] v by auto
  moreover obtain s where "build_importance_scorer out cfg = Inr s" using scorer_builds [OF assms(1)] v by auto
  moreover obtain p where "build_info_parser out cfg = Inr p" using parser_builds [OF assms(1)] v by auto
  moreover obtain d where "build_multi_hop_query_decomposer out cfg = Inr d"
    using decomposer_builds [OF assms(1)] v by auto
  ultimately show ?thesis by (simp add: build_service_def and_then_def)
qed

lemma authenticator_builds:
  assumes "validate_auth (cfg_auth cfg) = None"
  shows "\<exists>a. build_authenticator cfg = Inr a"
  using assms by (auto simp: build_authenticator_def validate_auth_def new_jwt_authenticator_def and_then_ok Let_def)

text \<open>C14 A configuration that passed validation starts when the services it names answer, and no other: the router
  and the MCP runtime are built, with authentication exactly when it is enabled and with workers exactly
  when postprocessing is. There is one exception: the base URL of qdrant is validated as it is written and
  used without blanks and its final slash, and when this leaves no URL (as of \<open>"/"\<close>) both fail to start,
  with the error that says so.\<close>

theorem validated_config_starts:
  assumes "validate (os_parse_uri out) cfg = None" and "ready out cfg"
    and "os_static out = None" and "register cfg = None"
  shows "case qdrant_address_error out cfg of
      None \<Rightarrow> (\<exists>r. fst (new_router out cfg) = Inr r \<and> (rt_auth r \<noteq> None \<longleftrightarrow> cfg_auth_enabled (cfg_auth cfg)) \<and>
          (rt_workers r \<noteq> None \<longleftrightarrow> cfg_postprocess_enabled (cfg_postprocess cfg))) \<and>
        (\<exists>m. fst (new_mcp_runtime out register cfg) = Inr m \<and>
          (mc_workers m \<noteq> None \<longleftrightarrow> cfg_postprocess_enabled (cfg_postprocess cfg)))
    | Some e \<Rightarrow> fst (new_router out cfg) = Inl (ErrMsg (''invalid qdrant base url: '' @ e)) \<and>
        fst (new_mcp_runtime out register cfg) = Inl (ErrMsg (''invalid qdrant base url: '' @ e))"
proof -
  note v = assms(1) [unfolded validate_none]
  have db: "os_sqlite out (cfg_database_sqlite_dsn (cfg_database cfg)) = None" by (rule readyD(1) [OF assms(2)])
  obtain facts where f: "build_entity_fact_repository out cfg = Inr facts"
    using fact_repository_builds [OF assms(2)] v by auto
  have vo: "case qdrant_address_error out cfg of None \<Rightarrow> \<exists>v. build_vector_store out cfg = Inr v
    | Some e \<Rightarrow> build_vector_store out cfg = Inl (ErrMsg (''invalid qdrant base url: '' @ e))"
    using vector_store_outcome [OF assms(2)] v by auto
  show ?thesis
  proof (cases "qdrant_address_error out cfg")
    case (Some e)
    with vo db f show ?thesis by (simp add: new_router_def new_mcp_runtime_def Let_def)
  next
    case None
    with vo obtain vectors where vs: "build_vector_store out cfg = Inr vectors" by auto
    obtain su m where s: "build_service out cfg facts vectors = Inr (su, m)"
      using service_builds [OF assms(2,1)] by blast
    obtain a where a: "build_authenticator cfg = Inr a" using authenticator_builds v by auto
    have "a \<noteq> None \<longleftrightarrow> cfg_auth_enabled (cfg_auth cfg)"
      using a by (auto simp: build_authenticator_def and_then_def Let_def split: if_splits sum.splits)
    moreover have "configured_workers cfg \<noteq> None \<longleftrightarrow> cfg_postprocess_enabled (cfg_postprocess cfg)"
      by (auto simp: configured_workers_def start_postprocess_workers_def worker_options_of_def
          normalize_worker_options_def Let_def)
    ultimately show ?thesis
      using assms(3,4) db f vs s a None by (simp add: new_router_def new_mcp_runtime_def Let_def)
  qed
qed

section \<open>Settings in force\<close>

lemma fold_options:
  "su_structured (new_service v e s (build_memory_service_options cfg p f d)) = apply_structured_options (structured_options_of cfg)"
  "su_ranking (new_service v e s (build_memory_service_options cfg p f d)) =
     normalize_ranking_options (normalize_ranking_options (ranking_options_of cfg))"
  "su_retrieval (new_service v e s (build_memory_service_options cfg p f d)) =
     normalize_retrieval_options (normalize_retrieval_options (retrieval_options_of cfg))"
  "su_multi_hop (new_service v e s (build_memory_service_options cfg p f d)) =
     normalize_multi_hop_options (normalize_multi_hop_options (multi_hop_options_of cfg))"
  "su_parser (new_service v e s (build_memory_service_options cfg p f d)) =
     normalize_parser_options (normalize_parser_options (parser_options_of cfg))"
  "su_vectors (new_service v e s (build_memory_service_options cfg p f d)) = v"
  by (simp_all add: new_service_def build_memory_service_options_def Let_def split: option.splits)

lemma tuning_in_force:
  assumes "validate_search (cfg_retrieval_search (cfg_retrieval cfg)) = None"
  shows "normalize_retrieval_options (retrieval_options_of cfg) = retrieval_options_of cfg"
proof -
  have "tuning_ok (search_tuning_of cfg)"
    using assms by (simp add: validate_search_def tuning_ok_def search_tuning_of_def Let_def not_le not_less)
  then show ?thesis
    by (simp add: normalize_retrieval_options_def retrieval_options_of_def normalize_search_tuning_id Let_def)
qed

lemma multi_hop_in_force:
  assumes "validate_graph (cfg_retrieval_multi_hop (cfg_retrieval cfg)) = None"
    "validate_decomposition parse_uri cfg = None"
  shows "normalize_multi_hop_options (multi_hop_options_of cfg) = multi_hop_options_of cfg"
  using assms
  by (simp add: validate_graph_def validate_decomposition_def normalize_multi_hop_options_def multi_hop_options_of_def
      positive_or_id clip_unit_id Let_def not_le not_less)

lemma weights_in_force:
  assumes "validate_scoring cfg = None"
  shows "rk_wal (normalize_ranking_options (ranking_options_of cfg)) = rk_wal (ranking_options_of cfg)"
    and "rk_match (normalize_ranking_options (ranking_options_of cfg)) = rk_match (ranking_options_of cfg)"
    and "rk_algorithm (normalize_ranking_options (ranking_options_of cfg)) =
      normalize_ranking_algorithm (cfg_scoring_algorithm (cfg_retrieval_scoring (cfg_retrieval cfg)))"
proof -
  have w: "to_lower (trim_space ''wal'') = ''wal''" by code_simp
  show "rk_wal (normalize_ranking_options (ranking_options_of cfg)) = rk_wal (ranking_options_of cfg)"
    "rk_match (normalize_ranking_options (ranking_options_of cfg)) = rk_match (ranking_options_of cfg)"
    using assms by (simp_all add: validate_scoring_def validate_scoring_weights_def validate_match_scoring_weights_def
        normalize_ranking_options_def ranking_options_of_def Let_def)
  show "rk_algorithm (normalize_ranking_options (ranking_options_of cfg)) =
      normalize_ranking_algorithm (cfg_scoring_algorithm (cfg_retrieval_scoring (cfg_retrieval cfg)))"
    using assms w
    by (auto simp: validate_scoring_def normalize_ranking_algorithm_def is_supported_ranking_algorithm_def
        normalize_ranking_options_def ranking_options_of_def default_ranking_options_def to_lower_def Let_def)
qed

lemma thresholds_in_force:
  assumes "validate_parser parse_uri cfg = None"
  shows "po_max_facts (normalize_parser_options (parser_options_of cfg)) = cfg_parser_max_facts (cfg_parser cfg)"
    and "po_dedupe_threshold (normalize_parser_options (parser_options_of cfg)) = cfg_parser_dedupe_threshold (cfg_parser cfg)"
    and "po_update_threshold (normalize_parser_options (parser_options_of cfg)) = cfg_parser_update_threshold (cfg_parser cfg)"
  using assms
  by (simp_all add: validate_parser_def normalize_parser_options_def parser_options_of_def positive_or_id clip_unit_id
      Let_def not_le not_less)

lemma parser_switches_in_force:
  "po_enabled (normalize_parser_options (parser_options_of cfg)) = cfg_parser_enabled (cfg_parser cfg)"
  "po_provider (normalize_parser_options (parser_options_of cfg)) = normalize_parser_provider (cfg_parser_provider (cfg_parser cfg))"
  "po_store_raw_turn (normalize_parser_options (parser_options_of cfg)) = cfg_parser_store_raw_turn (cfg_parser cfg)"
  "po_answer_span_retention (normalize_parser_options (parser_options_of cfg)) =
     cfg_parser_answer_span_retention_enabled (cfg_parser cfg)"
  by (simp_all add: normalize_parser_options_def parser_options_of_def normalize_parser_provider_def
      default_parser_options_def Let_def)

lemma observations_in_force:
  assumes "validate_structured (cfg_structured_memory cfg) = None"
  shows "positive_or (so_max_observations default_structured_options) (cfg_structured_max_observations (cfg_structured_memory cfg)) =
    (if cfg_structured_max_observations (cfg_structured_memory cfg) = 0 then 3
     else cfg_structured_max_observations (cfg_structured_memory cfg))"
  using assms by (simp add: validate_structured_def positive_or_def default_structured_options_def Let_def)

lemma workers_in_force:
  assumes "validate_postprocess (cfg_postprocess cfg) = None"
    and "list_all (\<lambda>ms. ms * millisecond < 2 ^ 63) [cfg_postprocess_poll_interval_ms (cfg_postprocess cfg),
      cfg_postprocess_lease_ms (cfg_postprocess cfg), cfg_postprocess_retry_max_ms (cfg_postprocess cfg)]"
  shows "normalize_worker_options (worker_options_of cfg) = worker_options_of cfg"
    and "worker_options_of cfg =
      \<lparr>wo_enabled = cfg_postprocess_enabled (cfg_postprocess cfg),
       wo_poll_interval = cfg_postprocess_poll_interval_ms (cfg_postprocess cfg) * millisecond,
       wo_batch_size = cfg_postprocess_batch_size (cfg_postprocess cfg),
       wo_worker_count = cfg_postprocess_worker_count (cfg_postprocess cfg),
       wo_lease = cfg_postprocess_lease_ms (cfg_postprocess cfg) * millisecond,
       wo_max_attempts = cfg_postprocess_max_attempts (cfg_postprocess cfg),
       wo_retry_base = cfg_postprocess_retry_base_ms (cfg_postprocess cfg) * millisecond,
       wo_retry_max = cfg_postprocess_retry_max_ms (cfg_postprocess cfg) * millisecond\<rparr>"
proof -
  have d: "duration ms millisecond = ms * millisecond" if "0 < ms" "ms * millisecond < 2 ^ 63" for ms
    using that by (simp add: duration_def wrap64_id in_int64_def)
  from assms show eq: "worker_options_of cfg =
      \<lparr>wo_enabled = cfg_postprocess_enabled (cfg_postprocess cfg),
       wo_poll_interval = cfg_postprocess_poll_interval_ms (cfg_postprocess cfg) * millisecond,
       wo_batch_size = cfg_postprocess_batch_size (cfg_postprocess cfg),
       wo_worker_count = cfg_postprocess_worker_count (cfg_postprocess cfg),
       wo_lease = cfg_postprocess_lease_ms (cfg_postprocess cfg) * millisecond,
       wo_max_attempts = cfg_postprocess_max_attempts (cfg_postprocess cfg),
       wo_retry_base = cfg_postprocess_retry_base_ms (cfg_postprocess cfg) * millisecond,
       wo_retry_max = cfg_postprocess_retry_max_ms (cfg_postprocess cfg) * millisecond\<rparr>"
    by (simp add: validate_postprocess_def worker_options_of_def d [simplified] Let_def not_le not_less)
  have "worker_ok (worker_options_of cfg)"
    using assms(1) by (simp add: eq validate_postprocess_def worker_ok_def Let_def not_le not_less)
  then show "normalize_worker_options (worker_options_of cfg) = worker_options_of cfg" by (rule normalize_worker_id)
qed

lemma new_router_parts:
  assumes "fst (new_router out cfg) = Inr r"
  obtains v e s p f d where "rt_setup r = new_service v e s (build_memory_service_options cfg p f d)"
    and "rt_workers r = configured_workers cfg"
  using assms
  by (auto simp: new_router_def build_service_def and_then_def Let_def split: option.splits sum.splits prod.splits)

text \<open>The settings of a configuration and the fields of the program they belong to, one by one.\<close>

definition service_follows :: "config \<Rightarrow> assembly \<Rightarrow> bool" where
  "service_follows cfg s \<longleftrightarrow>
     (let r = cfg_retrieval cfg; ro = su_retrieval s;
          m = cfg_retrieval_multi_hop r; mh = su_multi_hop s;
          w = cfg_scoring_wal (cfg_retrieval_scoring r); ww = rk_wal (su_ranking s);
          x = cfg_scoring_match (cfg_retrieval_scoring r); mw = rk_match (su_ranking s);
          p = cfg_parser cfg; po = su_parser s in
      ro_answer_type_routing ro = cfg_retrieval_answer_type_routing_enabled r \<and>
      ro_early_rank_rerank ro = cfg_retrieval_early_rank_rerank_enabled r \<and>
      ro_temporal_resolver ro = cfg_retrieval_temporal_resolver_enabled r \<and>
      ro_open_domain_resolver ro = cfg_retrieval_open_domain_alternative_resolver_enabled r \<and>
      ro_profile_support_links ro = cfg_profile_layer_support_links_enabled (cfg_profile_layer cfg) \<and>
      mh_entity_fact_bridge mh = cfg_multi_hop_entity_fact_bridge_enabled m \<and>
      mh_llm_decomposition mh = cfg_multi_hop_llm_decomposition_enabled m \<and>
      mh_max_decomposition_queries mh = cfg_multi_hop_max_decomposition_queries m \<and>
      mh_pairwise_rerank mh = cfg_multi_hop_enable_pairwise_rerank m \<and>
      mh_token_expansion_fallback mh = cfg_multi_hop_token_expansion_fallback m \<and>
      mh_graph_path mh = cfg_multi_hop_graph_path_enabled m \<and>
      mh_graph_max_hops mh = cfg_multi_hop_graph_max_hops m \<and>
      mh_graph_seed_limit mh = cfg_multi_hop_graph_seed_limit m \<and>
      mh_graph_path_limit mh = cfg_multi_hop_graph_path_limit m \<and>
      mh_graph_min_score mh = cfg_multi_hop_graph_min_score m \<and>
      mh_graph_weight mh = cfg_multi_hop_graph_weight m \<and>
      mh_graph_temporal_validity mh = cfg_multi_hop_graph_temporal_validity m \<and>
      mh_graph_singleton_invalidation mh = cfg_multi_hop_graph_singleton_invalidation m \<and>
      rk_algorithm (su_ranking s) = normalize_ranking_algorithm (cfg_scoring_algorithm (cfg_retrieval_scoring r)) \<and>
      ww_recency ww = cfg_wal_recency w \<and> ww_relevance ww = cfg_wal_relevance w \<and>
      ww_importance ww = cfg_wal_importance w \<and>
      mw_recency mw = cfg_match_recency x \<and> mw_relevance mw = cfg_match_relevance x \<and>
      mw_importance mw = cfg_match_importance x \<and> mw_query_overlap mw = cfg_match_query_overlap x \<and>
      mw_routing mw = cfg_match_routing x \<and>
      po_enabled po = cfg_parser_enabled p \<and> po_provider po = normalize_parser_provider (cfg_parser_provider p) \<and>
      po_store_raw_turn po = cfg_parser_store_raw_turn p \<and> po_max_facts po = cfg_parser_max_facts p \<and>
      po_dedupe_threshold po = cfg_parser_dedupe_threshold p \<and>
      po_update_threshold po = cfg_parser_update_threshold p \<and>
      po_answer_span_retention po = cfg_parser_answer_span_retention_enabled p \<and>
      so_enabled (su_structured s) = cfg_structured_enabled (cfg_structured_memory cfg) \<and>
      so_dual_write_observations (su_structured s) = cfg_structured_dual_write_observations (cfg_structured_memory cfg) \<and>
      so_dual_write_events (su_structured s) = cfg_structured_dual_write_events (cfg_structured_memory cfg) \<and>
      so_max_observations (su_structured s) = (if cfg_structured_max_observations (cfg_structured_memory cfg) = 0 then 3
        else cfg_structured_max_observations (cfg_structured_memory cfg)))"

definition tuning_follows :: "config \<Rightarrow> search_tuning \<Rightarrow> bool" where
  "tuning_follows cfg t \<longleftrightarrow>
     (let s = cfg_retrieval_search (cfg_retrieval cfg) in
      st_expansion_enabled t = cfg_search_adaptive_query_expansion_enabled s \<and>
      st_max_extra_queries t = cfg_search_adaptive_query_max_extra_queries s \<and>
      st_weak_lexical_threshold t = cfg_search_adaptive_query_weak_lexical_threshold s \<and>
      st_plan_confidence_threshold t = cfg_search_adaptive_query_plan_confidence_threshold s \<and>
      st_window_multiplier t = cfg_search_candidate_window_multiplier s \<and>
      st_window_min t = cfg_search_candidate_window_min s \<and> st_window_max t = cfg_search_candidate_window_max s \<and>
      st_window_temporal_boost t = cfg_search_candidate_window_temporal_boost s \<and>
      st_window_multi_hop_boost t = cfg_search_candidate_window_multi_hop_boost s \<and>
      st_window_filter_boost t = cfg_search_candidate_window_filter_boost s \<and>
      st_early_rerank_base t = cfg_search_early_rerank_base_window s \<and>
      st_early_rerank_max t = cfg_search_early_rerank_max_window s)"

definition workers_follow :: "config \<Rightarrow> worker_options option \<Rightarrow> bool" where
  "workers_follow cfg workers \<longleftrightarrow>
     (let p = cfg_postprocess cfg in
      case workers of None \<Rightarrow> \<not> cfg_postprocess_enabled p
      | Some wo \<Rightarrow> cfg_postprocess_enabled p \<and> wo_enabled wo \<and>
          wo_poll_interval wo = cfg_postprocess_poll_interval_ms p * millisecond \<and>
          wo_batch_size wo = cfg_postprocess_batch_size p \<and> wo_worker_count wo = cfg_postprocess_worker_count p \<and>
          wo_lease wo = cfg_postprocess_lease_ms p * millisecond \<and>
          wo_max_attempts wo = cfg_postprocess_max_attempts p \<and>
          wo_retry_base wo = cfg_postprocess_retry_base_ms p * millisecond \<and>
          wo_retry_max wo = cfg_postprocess_retry_max_ms p * millisecond)"

text \<open>C13 What a router built from a validated configuration runs with is what the configuration says, field by
  field: the switches and limits of retrieval, the search tuning, the multi-hop settings, the weights of both
  ranking algorithms, the limits and thresholds of the parser and the structured memory are the configured
  values, which the normalisers that every option goes through leave alone; the ranking algorithm and the
  parser's provider are the configured ones without blanks and in lower case; and the workers run with the
  configured numbers and with the configured times in nanoseconds, as long as these fit into 64 bits. The
  one exception: no observations (0) means three.\<close>

theorem validated_settings_in_force:
  assumes "validate (os_parse_uri out) cfg = None" and "fst (new_router out cfg) = Inr r"
  shows "service_follows cfg (rt_setup r) \<and> tuning_follows cfg (ro_search_tuning (su_retrieval (rt_setup r))) \<and>
    (list_all (\<lambda>ms. ms * millisecond < 2 ^ 63) [cfg_postprocess_poll_interval_ms (cfg_postprocess cfg),
        cfg_postprocess_lease_ms (cfg_postprocess cfg), cfg_postprocess_retry_max_ms (cfg_postprocess cfg)] \<longrightarrow>
     workers_follow cfg (rt_workers r))"
proof (intro conjI impI)
  obtain v e s p f d where su: "rt_setup r = new_service v e s (build_memory_service_options cfg p f d)"
    and w: "rt_workers r = configured_workers cfg"
    using new_router_parts [OF assms(2)] .
  have parts: "validate_search (cfg_retrieval_search (cfg_retrieval cfg)) = None"
    "validate_graph (cfg_retrieval_multi_hop (cfg_retrieval cfg)) = None"
    "validate_decomposition (os_parse_uri out) cfg = None" "validate_scoring cfg = None"
    "validate_parser (os_parse_uri out) cfg = None" "validate_postprocess (cfg_postprocess cfg) = None"
    "validate_structured (cfg_structured_memory cfg) = None"
    using assms(1) by (simp_all add: validate_none)
  note force = tuning_in_force [OF parts(1)] multi_hop_in_force [OF parts(2,3)] weights_in_force [OF parts(4)]
    thresholds_in_force [OF parts(5)] observations_in_force [OF parts(7)]
  show "service_follows cfg (rt_setup r)"
    unfolding su service_follows_def Let_def fold_options normalize_ranking_idem normalize_parser_idem
      force parser_switches_in_force
    by (simp add: force retrieval_options_of_def multi_hop_options_of_def ranking_options_of_def
        structured_options_of_def apply_structured_options_def Let_def)
  show "tuning_follows cfg (ro_search_tuning (su_retrieval (rt_setup r)))"
    unfolding su fold_options force
    by (simp add: tuning_follows_def retrieval_options_of_def search_tuning_of_def Let_def)
  show "workers_follow cfg (rt_workers r)"
    if "list_all (\<lambda>ms. ms * millisecond < 2 ^ 63) [cfg_postprocess_poll_interval_ms (cfg_postprocess cfg),
        cfg_postprocess_lease_ms (cfg_postprocess cfg), cfg_postprocess_retry_max_ms (cfg_postprocess cfg)]"
    unfolding w workers_follow_def configured_workers_def start_postprocess_workers_def workers_in_force(1) [OF parts(6) that]
      Let_def
    unfolding workers_in_force(2) [OF parts(6) that] by simp
qed

section \<open>Opening and closing\<close>

fun live :: "resource set \<Rightarrow> event list \<Rightarrow> resource set" where
  "live up [] = up"
| "live up (Opened r # es) = live (insert r up) es"
| "live up (Closed r # es) = live (up - {r}) es"

text \<open>No database is closed while the workers run.\<close>

fun quiet :: "bool \<Rightarrow> event list \<Rightarrow> bool" where
  "quiet running [] = True"
| "quiet running (Opened r # es) = quiet (running \<or> r = Workers) es"
| "quiet running (Closed r # es) = (if r = Workers then quiet False es else \<not> running \<and> quiet running es)"

lemma started_cases: "started cfg = [] \<or> started cfg = [Opened Workers]"
  by (simp add: started_def)

text \<open>All that comes before the workers are started has been built.\<close>

definition assembles :: "outside \<Rightarrow> config \<Rightarrow> bool" where
  "assembles out cfg \<longleftrightarrow> os_sqlite out (cfg_database_sqlite_dsn (cfg_database cfg)) = None \<and>
     (case build_entity_fact_repository out cfg of Inl _ \<Rightarrow> False
      | Inr facts \<Rightarrow> (case build_vector_store out cfg of Inl _ \<Rightarrow> False
         | Inr vectors \<Rightarrow> (case build_service out cfg facts vectors of Inl _ \<Rightarrow> False | Inr _ \<Rightarrow> True)))"

text \<open>C15 What a start and its end leave open. A router that fails leaves nothing open, and closes no database under
  running workers, unless everything up to the service was built and workers are configured: then (the static
  assets or the authenticator failed) the workers have been started, the databases are closed under them, and
  they are left running. A program that has started and is taken down releases everything; the router stops
  its workers before it closes a database. An MCP runtime that fails leaves nothing open either; but when
  workers run, whether the registration of the tools failed or the program ends, it closes the vector database
  before it stops them.\<close>

theorem lifecycle_releases:
  "(fst (new_router out cfg) = Inl e \<longrightarrow>
      (let orphaned = assembles out cfg \<and> configured_workers cfg \<noteq> None in
       live {} (snd (new_router out cfg)) = (if orphaned then {Workers} else {}) \<and>
       quiet False (snd (new_router out cfg)) = (\<not> orphaned) \<and>
       (orphaned \<longrightarrow> os_static out = Some e \<or> build_authenticator cfg = Inl e))) \<and>
   (fst (new_router out cfg) = Inr r \<longrightarrow>
      live {} (snd (new_router out cfg) @ snd (router_cleanup out r)) = {} \<and>
      quiet False (snd (new_router out cfg) @ snd (router_cleanup out r))) \<and>
   (fst (new_mcp_runtime out register cfg) = Inl e \<longrightarrow>
      live {} (snd (new_mcp_runtime out register cfg)) = {} \<and>
      quiet False (snd (new_mcp_runtime out register cfg)) = (\<not> (assembles out cfg \<and> configured_workers cfg \<noteq> None))) \<and>
   (fst (new_mcp_runtime out register cfg) = Inr m \<longrightarrow>
      live {} (snd (new_mcp_runtime out register cfg) @ mcp_cleanup (mc_workers m \<noteq> None)) = {} \<and>
      quiet False (snd (new_mcp_runtime out register cfg) @ mcp_cleanup (mc_workers m \<noteq> None)) = (mc_workers m = None))"
proof (intro conjI impI)
  let ?r = "new_router out cfg" and ?m = "new_mcp_runtime out register cfg"
  note simps = new_router_def started_def assembles_def Let_def
  note msimps = new_mcp_runtime_def started_def assembles_def mcp_cleanup_def chain_cleanup_def stop_workers_def Let_def
  show "let orphaned = assembles out cfg \<and> configured_workers cfg \<noteq> None in
       live {} (snd ?r) = (if orphaned then {Workers} else {}) \<and> quiet False (snd ?r) = (\<not> orphaned) \<and>
       (orphaned \<longrightarrow> os_static out = Some e \<or> build_authenticator cfg = Inl e)" if "fst ?r = Inl e"
    using that by (auto simp: simps split: option.splits sum.splits)
  show "live {} (snd ?r @ snd (router_cleanup out r)) = {}" "quiet False (snd ?r @ snd (router_cleanup out r))"
    if "fst ?r = Inr r"
    using that by (auto simp: simps router_cleanup_def split: option.splits sum.splits prod.splits)
  show "live {} (snd ?m) = {}" "quiet False (snd ?m) = (\<not> (assembles out cfg \<and> configured_workers cfg \<noteq> None))"
    if "fst ?m = Inl e"
    using that by (auto simp: msimps split: option.splits sum.splits prod.splits)
  show "live {} (snd ?m @ mcp_cleanup (mc_workers m \<noteq> None)) = {}"
    "quiet False (snd ?m @ mcp_cleanup (mc_workers m \<noteq> None)) = (mc_workers m = None)"
    if "fst ?m = Inr m"
    using that by (auto simp: msimps split: option.splits sum.splits prod.splits)
qed

section \<open>The defaults start\<close>

definition quiet_world :: "err option \<Rightarrow> outside" where
  "quiet_world assets = \<lparr>os_parse_uri = \<lambda>_. None, os_sqlite = \<lambda>_. None, os_neo4j = \<lambda>_. None, os_pgvector = \<lambda>_. None,
     os_onnx = \<lambda>_ _. None, os_ollama = \<lambda>_. None, os_static = assets, os_close = \<lambda>_. None\<rparr>"

lemma defaults_ready: "ready (quiet_world st) defaults"
proof -
  have "ollama_at (quiet_world st) s" for s by (simp add: ollama_at_def quiet_world_def)
  moreover have "provider_ready (quiet_world st) defaults p" for p
    by (simp add: provider_ready_def ollama_at_def quiet_world_def)
  moreover have "os_sqlite (quiet_world st) d = None" "os_pgvector (quiet_world st) d = None"
    "os_neo4j (quiet_world st) n = None" for d n by (simp_all add: quiet_world_def)
  ultimately show ?thesis by (simp add: ready_def embedding_ready_def Let_def)
qed

lemma defaults_no_qdrant: "qdrant_address_error out defaults = None"
  by (simp add: qdrant_address_error_def defaults_def)

lemma validated_config_starts_witness:
  "(\<exists>r. fst (new_router (quiet_world None) defaults) = Inr r \<and> rt_auth r = None \<and> rt_workers r \<noteq> None) \<and>
   (\<exists>m. fst (new_mcp_runtime (quiet_world None) (\<lambda>_. None) defaults) = Inr m \<and> mc_workers m \<noteq> None)"
proof -
  have r: "cfg_auth_enabled (cfg_auth defaults) = False" "cfg_postprocess_enabled (cfg_postprocess defaults)"
    by (simp_all add: defaults_def)
  have st: "os_static (quiet_world None) = None" by (simp add: quiet_world_def)
  from validated_config_starts [OF defaults_valid defaults_ready st, of "\<lambda>_. None"] r show ?thesis
    by (simp add: defaults_no_qdrant)
qed

lemma defaults_build:
  "\<exists>f vs su m. build_entity_fact_repository (quiet_world st) defaults = Inr f \<and>
     build_vector_store (quiet_world st) defaults = Inr vs \<and> build_service (quiet_world st) defaults f vs = Inr (su, m)"
proof -
  have v: "validate (os_parse_uri (quiet_world st)) defaults = None" by (rule defaults_valid)
  show ?thesis
    using fact_repository_builds [OF defaults_ready] vector_store_outcome [OF defaults_ready]
      service_builds [OF defaults_ready v] v defaults_no_qdrant
    unfolding validate_none by auto
qed

lemma validated_settings_in_force_witness:
  "\<exists>r. fst (new_router (quiet_world None) defaults) = Inr r \<and> service_follows defaults (rt_setup r) \<and>
     tuning_follows defaults (ro_search_tuning (su_retrieval (rt_setup r))) \<and> workers_follow defaults (rt_workers r)"
proof -
  have v: "validate (os_parse_uri (quiet_world None)) defaults = None" by (rule defaults_valid)
  have a: "build_authenticator defaults = Inr None" by (simp add: build_authenticator_def defaults_def Let_def)
  have o': "os_sqlite (quiet_world None) = (\<lambda>_. None)" "os_static (quiet_world None) = None"
    by (simp_all add: quiet_world_def)
  obtain r where r: "fst (new_router (quiet_world None) defaults) = Inr r"
    using defaults_build [of None] a by (auto simp: new_router_def o')
  have "list_all (\<lambda>ms. ms * millisecond < 2 ^ 63) [cfg_postprocess_poll_interval_ms (cfg_postprocess defaults),
      cfg_postprocess_lease_ms (cfg_postprocess defaults), cfg_postprocess_retry_max_ms (cfg_postprocess defaults)]"
    by (simp add: defaults_def)
  with validated_settings_in_force [OF v r] r show ?thesis by auto
qed

lemma lifecycle_releases_witness:
  "fst (new_router (quiet_world (Some ErrDriver)) defaults) = Inl ErrDriver \<and>
   live {} (snd (new_router (quiet_world (Some ErrDriver)) defaults)) = {Workers} \<and>
   (\<exists>m. fst (new_mcp_runtime (quiet_world None) (\<lambda>_. None) defaults) = Inr m \<and>
      \<not> quiet False (snd (new_mcp_runtime (quiet_world None) (\<lambda>_. None) defaults) @ mcp_cleanup (mc_workers m \<noteq> None)))"
proof (intro conjI)
  have en: "configured_workers defaults \<noteq> None"
    by (simp add: configured_workers_def start_postprocess_workers_def worker_options_of_def
        normalize_worker_options_def defaults_def Let_def)
  have o': "os_sqlite (quiet_world st) = (\<lambda>_. None)" "os_static (quiet_world st) = st" for st
    by (simp_all add: quiet_world_def)
  have r: "new_router (quiet_world (Some ErrDriver)) defaults = (Inl ErrDriver,
      [Opened MainDatabase, Opened FactDatabase, Opened VectorDatabase] @ started defaults @
      [Closed VectorDatabase, Closed FactDatabase, Closed MainDatabase])"
    using defaults_build [of "Some ErrDriver"] by (auto simp: new_router_def o' Let_def)
  show "fst (new_router (quiet_world (Some ErrDriver)) defaults) = Inl ErrDriver"
    "live {} (snd (new_router (quiet_world (Some ErrDriver)) defaults)) = {Workers}"
    using en by (auto simp: r started_def)
  obtain m where m: "fst (new_mcp_runtime (quiet_world None) (\<lambda>_. None) defaults) = Inr m" "mc_workers m \<noteq> None"
    using defaults_build [of None] en by (auto simp: new_mcp_runtime_def o' Let_def)
  with lifecycle_releases [of "quiet_world None" defaults ErrDriver undefined "\<lambda>_. None" m]
  show "\<exists>m. fst (new_mcp_runtime (quiet_world None) (\<lambda>_. None) defaults) = Inr m \<and>
      \<not> quiet False (snd (new_mcp_runtime (quiet_world None) (\<lambda>_. None) defaults) @ mcp_cleanup (mc_workers m \<noteq> None))"
    by (intro exI [of _ m]) simp
qed

end
