(* ===== verification/Mcp.thy ===== *)
theory Mcp
  imports Api
begin

text \<open>
  The tools of the MCP server (\<open>mcp/tools/registry.go\<close>) over the memory and tenant services: how the tenant
  of a call is found (input, token, session, configuration, or the only tenant there is), the default
  tenants that sessions keep, and a handler for each tool. The SDK that decodes the input of a call and
  transports its result is a library; a call is a constructor for its tool with the decoded input, a request
  holds what the SDK knows of the session, the token and the metadata. Log lines are left out.
\<close>

section \<open>Requests\<close>

text \<open>A value of a decoded JSON object, as far as a type switch looks at it.\<close>

datatype any = AnyString string | AnyStringer string | AnyOther

type_synonym meta = "string \<Rightarrow> any option"

record session =
  ss_id :: string
  ss_init_meta :: "meta option"

record tool_request =
  tr_session :: "session option"
  tr_meta :: "meta option"
  tr_context_token :: "meta option"
  tr_extra_token :: "meta option"

type_synonym sessions = "string \<Rightarrow> string option"

record toolset =
  ts_service :: service
  ts_searcher :: searcher
  ts_default_tenant :: string
  ts_auth_enabled :: bool

definition new_toolset :: "service \<Rightarrow> searcher \<Rightarrow> string \<Rightarrow> bool \<Rightarrow> toolset \<times> sessions" where
  "new_toolset sv sq default_tenant auth =
     (\<lparr>ts_service = sv, ts_searcher = sq, ts_default_tenant = trim_space default_tenant, ts_auth_enabled = auth\<rparr>,
      Map.empty)"

section \<open>Tenants\<close>

definition string_from_any :: "any option \<Rightarrow> string" where
  "string_from_any v = (case v of Some (AnyString s) \<Rightarrow> trim_space s | Some (AnyStringer s) \<Rightarrow> trim_space s | _ \<Rightarrow> [])"

text \<open>The first key under which there is a text.\<close>

fun first_text :: "meta \<Rightarrow> string list \<Rightarrow> string" where
  "first_text m [] = []"
| "first_text m (k # ks) = (let t = string_from_any (m k) in if t \<noteq> [] then t else first_text m ks)"

definition tenant_from_token_info :: "meta option \<Rightarrow> string" where
  "tenant_from_token_info info =
     (case info of None \<Rightarrow> [] | Some extra \<Rightarrow> first_text extra [''tenant_id'', ''tenantId'', ''tenant''])"

definition tenant_from_meta :: "meta option \<Rightarrow> string" where
  "tenant_from_meta m =
     (case m of None \<Rightarrow> []
      | Some x \<Rightarrow> first_text x [''tenant_id'', ''tenantId'', ''default_tenant_id'', ''defaultTenantId'', ''pali_tenant_id''])"

definition tenant_from_jwt :: "tool_request \<Rightarrow> string" where
  "tenant_from_jwt req =
     (let t = tenant_from_token_info (tr_context_token req) in
      if t \<noteq> [] then t else tenant_from_token_info (tr_extra_token req))"

definition remember_session_tenant :: "tool_request \<Rightarrow> string \<Rightarrow> sessions \<Rightarrow> sessions" where
  "remember_session_tenant req t0 ss =
     (case tr_session req of
        None \<Rightarrow> ss
      | Some s \<Rightarrow>
          (let i = trim_space (ss_id s); t = trim_space t0 in
           if i = [] \<or> t = [] then ss else ss(i \<mapsto> t)))"

definition remembered_tenant :: "tool_request \<Rightarrow> sessions \<Rightarrow> string" where
  "remembered_tenant req ss =
     (case tr_session req of
        None \<Rightarrow> []
      | Some s \<Rightarrow>
          (let i = trim_space (ss_id s) in
           if i = [] then [] else trim_space (case ss i of None \<Rightarrow> [] | Some t \<Rightarrow> t)))"

definition session_tenant :: "tool_request \<Rightarrow> sessions \<Rightarrow> string \<times> sessions" where
  "session_tenant req ss =
     (let t = remembered_tenant req ss;
          init = (case tr_session req of None \<Rightarrow> [] | Some s \<Rightarrow> tenant_from_meta (ss_init_meta s));
          params = tenant_from_meta (tr_meta req) in
      if t \<noteq> [] then (t, ss)
      else if init \<noteq> [] then (init, remember_session_tenant req init ss)
      else if params \<noteq> [] then (params, remember_session_tenant req params ss)
      else ([], ss))"

definition resolve_tenant ::
  "toolset \<Rightarrow> tool_request \<Rightarrow> string \<Rightarrow> sessions \<Rightarrow> db_world \<Rightarrow> ((err + string) \<times> sessions) \<times> db_world" where
  "resolve_tenant ts req explicit ss w =
     (let x = trim_space explicit; j = tenant_from_jwt req; (s, ss1) = session_tenant req ss; d = ts_default_tenant ts in
      if x \<noteq> [] then ((Inr x, remember_session_tenant req x ss), w)
      else if ts_auth_enabled ts \<and> j \<noteq> [] then ((Inr j, remember_session_tenant req j ss), w)
      else if s \<noteq> [] then ((Inr s, ss1), w)
      else if d \<noteq> [] then ((Inr d, remember_session_tenant req d ss), w)
      else case tenant_list 2 w of
        (Inr [t], w1) \<Rightarrow> ((Inr (t_id t), remember_session_tenant req (t_id t) ss), w1)
      | (_, w1) \<Rightarrow> ((Inl ErrInvalidInput, ss), w1))"

section \<open>Inputs\<close>

definition tool_parse_tier :: "string \<Rightarrow> err + memory_tier" where
  "tool_parse_tier raw =
     (let t = to_lower (trim_space raw) in
      if t = [] \<or> t = tier_text TierAuto then Inr TierAuto
      else if t = tier_text TierWorking then Inr TierWorking
      else if t = tier_text TierEpisodic then Inr TierEpisodic
      else if t = tier_text TierSemantic then Inr TierSemantic
      else Inl ErrInvalidInput)"

definition tool_parse_created_by :: "string \<Rightarrow> err + memory_created_by" where
  "tool_parse_created_by raw =
     (let t = to_lower (trim_space raw) in
      if t = [] \<or> t = created_by_text ByAuto then Inr ByAuto
      else if t = created_by_text ByUser then Inr ByUser
      else if t = created_by_text BySystem then Inr BySystem
      else Inl ErrInvalidInput)"

definition tool_parse_memory_kind :: "string \<Rightarrow> err + memory_kind" where
  "tool_parse_memory_kind raw =
     (let t = to_lower (trim_space raw) in
      if t = [] \<or> t = kind_text KindRawTurn then Inr KindRawTurn
      else if t = kind_text KindObservation then Inr KindObservation
      else if t = kind_text KindSummary then Inr KindSummary
      else if t = kind_text KindEvent then Inr KindEvent
      else Inl ErrInvalidInput)"

definition tool_parse_search_tiers :: "string list \<Rightarrow> err + memory_tier list" where
  "tool_parse_search_tiers = parse_each (\<lambda>raw. case tool_parse_tier raw of
     Inl _ \<Rightarrow> None | Inr t \<Rightarrow> if t = TierAuto then None else Some t) []"

definition tool_parse_search_kinds :: "string list \<Rightarrow> err + memory_kind list" where
  "tool_parse_search_kinds =
     parse_each (\<lambda>raw. case tool_parse_memory_kind raw of Inl _ \<Rightarrow> None | Inr k \<Rightarrow> Some k) []"

definition dedupe_tags :: "string list \<Rightarrow> string list" where
  "dedupe_tags tags = uniq (filter (\<lambda>s. s \<noteq> []) (map trim_space tags))"

record memory_store_input =
  mi_tenant :: string
  mi_content :: string
  mi_tier :: string
  mi_kind :: string
  mi_tags :: "string list"
  mi_source :: string
  mi_created_by :: string

record memory_store_preference_input =
  pi_tenant :: string
  pi_key :: string
  pi_value :: string
  pi_tags :: "string list"

record memory_search_input =
  mq_tenant :: string
  mq_query :: string
  mq_top_k :: int
  mq_min_score :: real
  mq_tiers :: "string list"
  mq_kinds :: "string list"

section \<open>Outputs\<close>

record memory_item =
  it_id :: string
  it_tenant :: string
  it_content :: string
  it_tier :: string
  it_kind :: string
  it_tags :: "string list"
  it_source :: string
  it_created_by :: string
  it_importance :: real
  it_recall_count :: int
  it_created_at :: gotime
  it_updated_at :: gotime
  it_last_accessed_at :: gotime
  it_last_recalled_at :: gotime

record memory_store_output =
  mo_id :: string
  mo_tenant :: string
  mo_tier :: string
  mo_source :: string
  mo_created_by :: string
  mo_importance :: real
  mo_created_at :: gotime

datatype tool_output =
    StoreOutput memory_store_output
  | ItemsOutput "memory_item list"
  | DeleteOutput bool
  | TenantCreateOutput string string gotime
  | TenantListOutput "(string \<times> string \<times> gotime) list"
  | TenantStatsOutput string int
  | TenantExistsOutput string bool
  | HealthCheckOutput string gotime
  | CapabilitiesOutput "string list" "string list"
  | NoOutput

datatype tool_result = ToolOk string | ToolError err

definition map_memory_items :: "memory list \<Rightarrow> memory_item list" where
  "map_memory_items ms = map (\<lambda>m. \<lparr>it_id = m_id m, it_tenant = m_tenant m, it_content = m_content m,
     it_tier = tier_text (m_tier m), it_kind = kind_text (m_kind m), it_tags = m_tags m, it_source = m_source m,
     it_created_by = created_by_text (m_created_by m), it_importance = m_importance m,
     it_recall_count = m_recall_count m, it_created_at = m_created_at m, it_updated_at = m_updated_at m,
     it_last_accessed_at = m_last_accessed_at m, it_last_recalled_at = m_last_recalled_at m\<rparr>) ms"

definition store_output :: "memory \<Rightarrow> memory_store_output" where
  "store_output m = \<lparr>mo_id = m_id m, mo_tenant = m_tenant m, mo_tier = tier_text (m_tier m), mo_source = m_source m,
     mo_created_by = created_by_text (m_created_by m), mo_importance = m_importance m, mo_created_at = m_created_at m\<rparr>"

section \<open>Handlers\<close>

text \<open>A tool returns a result with its output, or an error, which the SDK reports as the result of the call.\<close>

type_synonym outcome = "tool_result \<times> tool_output"

type_synonym tool_act =
  "sessions \<Rightarrow> query_cache option \<Rightarrow> db_world \<Rightarrow> (((err + outcome) \<times> sessions) \<times> query_cache option) \<times> db_world"

definition with_tenant ::
  "toolset \<Rightarrow> tool_request \<Rightarrow> string \<Rightarrow> (string \<Rightarrow> outcome search_act) \<Rightarrow> tool_act" where
  "with_tenant ts req explicit k ss c w =
     (case resolve_tenant ts req explicit ss w of
        ((Inl e, ss1), w1) \<Rightarrow> (((Inl e, ss1), c), w1)
      | ((Inr t, ss1), w1) \<Rightarrow> (case k t c w1 of ((r, c1), w2) \<Rightarrow> (((r, ss1), c1), w2)))"

definition without_tenant :: "outcome search_act \<Rightarrow> tool_act" where
  "without_tenant k ss c w = (case k c w of ((r, c1), w1) \<Rightarrow> (((r, ss), c1), w1))"

definition tool_done :: "string \<Rightarrow> tool_output \<Rightarrow> outcome search_act" where
  "tool_done txt out = return_search (ToolOk txt, out)"

definition handle_memory_store :: "toolset \<Rightarrow> tool_request \<Rightarrow> memory_store_input \<Rightarrow> tool_act" where
  "handle_memory_store ts req a = with_tenant ts req (mi_tenant a) (\<lambda>t.
     case tool_parse_tier (mi_tier a) of Inl e \<Rightarrow> fail_search e | Inr tier \<Rightarrow>
     (case tool_parse_created_by (mi_created_by a) of Inl e \<Rightarrow> fail_search e | Inr by \<Rightarrow>
      (case tool_parse_memory_kind (mi_kind a) of Inl e \<Rightarrow> fail_search e | Inr kind \<Rightarrow>
       bind_search (on_db (service_store (ts_service ts)
         \<lparr>si_tenant = t, si_content = mi_content a, si_tier = tier, si_kind = kind, si_tags = mi_tags a,
          si_source = mi_source a, si_created_by = by, si_answer_metadata = empty_metadata\<rparr>)) (\<lambda>m.
       tool_done ''memory stored'' (StoreOutput (store_output m))))))"

definition handle_memory_store_preference ::
  "toolset \<Rightarrow> tool_request \<Rightarrow> memory_store_preference_input \<Rightarrow> tool_act" where
  "handle_memory_store_preference ts req a = with_tenant ts req (pi_tenant a) (\<lambda>t.
     if trim_space (pi_key a) = [] \<or> trim_space (pi_value a) = [] then fail_search ErrInvalidInput
     else bind_search (on_db (service_store (ts_service ts)
       \<lparr>si_tenant = t, si_content = trim_space (pi_key a) @ '': '' @ trim_space (pi_value a), si_tier = TierSemantic,
        si_kind = KindOther [], si_tags = dedupe_tags ([''preferences'', trim_space (pi_key a)] @ pi_tags a),
        si_source = ''memory_store_preference'', si_created_by = ByAuto, si_answer_metadata = empty_metadata\<rparr>)) (\<lambda>m.
     tool_done ''preference stored'' (StoreOutput (store_output m))))"

definition handle_memory_search :: "toolset \<Rightarrow> tool_request \<Rightarrow> memory_search_input \<Rightarrow> tool_act" where
  "handle_memory_search ts req a = with_tenant ts req (mq_tenant a) (\<lambda>t.
     if mq_min_score a < 0 \<or> mq_min_score a > 1 then return_search (ToolError ErrInvalidInput, NoOutput)
     else case tool_parse_search_tiers (mq_tiers a) of Inl e \<Rightarrow> fail_search e | Inr tiers \<Rightarrow>
      (case tool_parse_search_kinds (mq_kinds a) of Inl e \<Rightarrow> fail_search e | Inr kinds \<Rightarrow>
       bind_search (search_with_filters (ts_service ts) (ts_searcher ts) t (mq_query a) (mq_top_k a)
         \<lparr>sx_min_score = mq_min_score a, sx_tiers = tiers, sx_kinds = kinds, sx_retrieval = [], sx_disable_touch = False\<rparr>)
       (\<lambda>ms. tool_done (digits_text (length ms) @ '' memories found'') (ItemsOutput (map_memory_items ms)))))"

definition handle_memory_list :: "toolset \<Rightarrow> tool_request \<Rightarrow> string \<Rightarrow> int \<Rightarrow> tool_act" where
  "handle_memory_list ts req explicit limit = with_tenant ts req explicit (\<lambda>t.
     bind_search (on_db (service_list (ts_service ts) t limit)) (\<lambda>ms.
     tool_done (digits_text (length ms) @ '' memories listed'') (ItemsOutput (map_memory_items ms))))"

definition handle_memory_delete :: "toolset \<Rightarrow> tool_request \<Rightarrow> string \<Rightarrow> string \<Rightarrow> tool_act" where
  "handle_memory_delete ts req explicit i = with_tenant ts req explicit (\<lambda>t.
     bind_search (on_db (service_delete (ts_service ts) t i)) (\<lambda>_. tool_done ''memory deleted'' (DeleteOutput True)))"

definition handle_tenant_create :: "string \<Rightarrow> string \<Rightarrow> tool_act" where
  "handle_tenant_create i name = without_tenant
     (bind_search (on_db (tenant_create \<lparr>t_id = i, t_name = name, t_created_at = zero_time\<rparr>)) (\<lambda>t.
      tool_done ''tenant created'' (TenantCreateOutput (t_id t) (t_name t) (t_created_at t))))"

definition handle_tenant_list :: "int \<Rightarrow> tool_act" where
  "handle_tenant_list limit = without_tenant
     (bind_search (on_db (tenant_list limit)) (\<lambda>ts.
      tool_done (digits_text (length ts) @ '' tenants listed'')
        (TenantListOutput (map (\<lambda>t. (t_id t, t_name t, t_created_at t)) ts))))"

definition tool_tenant_stats :: "toolset \<Rightarrow> tool_request \<Rightarrow> string \<Rightarrow> tool_act" where
  "tool_tenant_stats ts req explicit = with_tenant ts req explicit (\<lambda>t.
     bind_search (on_db (tenant_stats t)) (\<lambda>n. tool_done ''tenant stats loaded'' (TenantStatsOutput t n)))"

definition handle_tenant_exists :: "toolset \<Rightarrow> tool_request \<Rightarrow> string \<Rightarrow> tool_act" where
  "handle_tenant_exists ts req explicit = with_tenant ts req explicit (\<lambda>t.
     bind_search (on_db (tenant_exists t)) (\<lambda>b. tool_done ''tenant existence checked'' (TenantExistsOutput t b)))"

definition handle_health_check :: tool_act where
  "handle_health_check = without_tenant (bind_search (on_db now_act) (\<lambda>now. tool_done ''ok'' (HealthCheckOutput ''ok'' now)))"

text \<open>The names and the order of resolution that the help lists; its example calls are left out.\<close>

definition handle_capabilities_help :: tool_act where
  "handle_capabilities_help = without_tenant (tool_done ''capabilities loaded'' (CapabilitiesOutput
     [''memory_store'', ''memory_store_preference'', ''memory_search'', ''memory_list'', ''memory_delete'',
      ''tenant_create'', ''tenant_list'', ''tenant_stats'', ''tenant_exists'', ''health_check'', ''pali_capabilities'']
     [''tenant_id in tool input'', ''JWT tenant claim (if auth enabled)'', ''MCP session default tenant'',
      ''default_tenant_id from config'', ''error when unresolved'']))"

section \<open>Calls\<close>

datatype tool_call =
    MemoryStoreTool memory_store_input
  | PreferenceTool memory_store_preference_input
  | MemorySearchTool memory_search_input
  | MemoryListTool string int
  | MemoryDeleteTool string string
  | TenantCreateTool string string
  | TenantListTool int
  | TenantStatsTool string
  | TenantExistsTool string
  | HealthCheckTool
  | CapabilitiesTool

definition call_tool :: "toolset \<Rightarrow> tool_request \<Rightarrow> tool_call \<Rightarrow> tool_act" where
  "call_tool ts req tool =
     (case tool of
        MemoryStoreTool a \<Rightarrow> handle_memory_store ts req a
      | PreferenceTool a \<Rightarrow> handle_memory_store_preference ts req a
      | MemorySearchTool a \<Rightarrow> handle_memory_search ts req a
      | MemoryListTool t n \<Rightarrow> handle_memory_list ts req t n
      | MemoryDeleteTool t i \<Rightarrow> handle_memory_delete ts req t i
      | TenantCreateTool i name \<Rightarrow> handle_tenant_create i name
      | TenantListTool n \<Rightarrow> handle_tenant_list n
      | TenantStatsTool t \<Rightarrow> tool_tenant_stats ts req t
      | TenantExistsTool t \<Rightarrow> handle_tenant_exists ts req t
      | HealthCheckTool \<Rightarrow> handle_health_check
      | CapabilitiesTool \<Rightarrow> handle_capabilities_help)"

end
