(* ===== verification/McpLaws.thy ===== *)
theory McpLaws
  imports Mcp ApiLaws
begin

text \<open>
  What the tools of the MCP server guarantee: how the tenant of a call is found and kept by its session,
  that a call shows data of that tenant only, and that no call breaks the invariant of the database.
\<close>

section \<open>Tenants of calls\<close>

lemma trim_idem [simp]: "trim_space (trim_space s) = trim_space s"
  by (simp add: str_norm)

lemma trim_blank [simp]: "trim_space [] = []"
  by (simp add: blank_eval)

lemma first_text_trimmed [simp]: "trim_space (first_text m ks) = first_text m ks"
proof (induction ks)
  case (Cons k ks)
  then show ?case by (auto simp: string_from_any_def Let_def split: option.splits any.splits)
qed simp

lemma tenant_texts_trimmed [simp]:
  "trim_space (tenant_from_jwt req) = tenant_from_jwt req" "trim_space (tenant_from_meta m) = tenant_from_meta m"
  by (auto simp: tenant_from_jwt_def tenant_from_token_info_def tenant_from_meta_def Let_def trim_blank
      simp del: first_text.simps split: option.splits)

text \<open>A session remembers what it is told, and forgets nothing of the others.\<close>

lemma remembered:
  assumes "tr_session req = Some s" "trim_space (ss_id s) \<noteq> []" "trim_space t \<noteq> []"
  shows "remember_session_tenant req t ss = ss(trim_space (ss_id s) \<mapsto> trim_space t)"
  using assms by (simp add: remember_session_tenant_def Let_def)

lemma session_tenant_remembers:
  assumes "tr_session req = Some s" "trim_space (ss_id s) \<noteq> []" "session_tenant req ss = (t, ss1)" "t \<noteq> []"
  shows "\<exists>v. ss1 (trim_space (ss_id s)) = Some v \<and> trim_space v = t"
  using assms(3,4)
  by (auto simp: session_tenant_def remembered_tenant_def assms(1,2) remembered [OF assms(1,2)] Let_def
      split: if_splits option.splits)

lemma resolve_remembers:
  assumes "resolve_tenant ts req x ss w = ((Inr T, ss1), w1)" "tr_session req = Some s"
    "trim_space (ss_id s) \<noteq> []" "trim_space T \<noteq> []"
  shows "\<exists>v. ss1 (trim_space (ss_id s)) = Some v \<and> trim_space v = trim_space T"
proof -
  obtain t ss2 where st: "session_tenant req ss = (t, ss2)" by force
  note r = remembered [OF assms(2,3)]
  have "(ss1 = remember_session_tenant req T ss) \<or> (t = T \<and> t \<noteq> [] \<and> ss1 = ss2)"
    using assms(1) st by (auto simp: resolve_tenant_def Let_def split: if_splits prod.splits sum.splits list.splits)
  then show ?thesis
  proof
    assume "ss1 = remember_session_tenant req T ss"
    then show ?thesis by (simp add: r [OF assms(4)])
  next
    assume "t = T \<and> t \<noteq> [] \<and> ss1 = ss2"
    with session_tenant_remembers [OF assms(2,3) st] show ?thesis by (metis trim_idem)
  qed
qed

lemma resolve_from_session:
  assumes "tr_session req = Some s" "ss (trim_space (ss_id s)) = Some v" "trim_space (ss_id s) \<noteq> []"
    "trim_space v \<noteq> []" "trim_space y = []" "\<not> ts_auth_enabled ts \<or> tenant_from_jwt req = []"
  shows "resolve_tenant ts req y ss w = ((Inr (trim_space v), ss), w)"
  using assms by (auto simp: resolve_tenant_def session_tenant_def remembered_tenant_def Let_def)

text \<open>C11 The tenant of a call is found without touching the database when the input, the token or the session
  names one. The input comes first: a call that names a tenant gets it, whatever tenant the token is for,
  also with authentication. Then the token, when authentication is enabled, whatever the session is. And a
  session keeps the tenant of its last call: the next one that names none, and has no token that counts, is
  for the same tenant.\<close>

theorem tenant_resolution:
  "(trim_space x \<noteq> [] \<longrightarrow> fst (fst (resolve_tenant ts req x ss w)) = Inr (trim_space x) \<and>
      snd (resolve_tenant ts req x ss w) = w) \<and>
   (trim_space x = [] \<and> ts_auth_enabled ts \<and> tenant_from_jwt req \<noteq> [] \<longrightarrow>
      fst (fst (resolve_tenant ts req x ss w)) = Inr (tenant_from_jwt req) \<and> snd (resolve_tenant ts req x ss w) = w) \<and>
   (resolve_tenant ts req x ss w = ((Inr T, ss1), w1) \<and> trim_space T \<noteq> [] \<and>
    tr_session req = Some s \<and> tr_session req' = Some s' \<and> trim_space (ss_id s') = trim_space (ss_id s) \<and>
    trim_space (ss_id s) \<noteq> [] \<and> trim_space y = [] \<and> (\<not> ts_auth_enabled ts \<or> tenant_from_jwt req' = []) \<longrightarrow>
      resolve_tenant ts req' y ss1 w' = ((Inr (trim_space T), ss1), w'))"
proof (intro conjI impI)
  assume a: "resolve_tenant ts req x ss w = ((Inr T, ss1), w1) \<and> trim_space T \<noteq> [] \<and>
    tr_session req = Some s \<and> tr_session req' = Some s' \<and> trim_space (ss_id s') = trim_space (ss_id s) \<and>
    trim_space (ss_id s) \<noteq> [] \<and> trim_space y = [] \<and> (\<not> ts_auth_enabled ts \<or> tenant_from_jwt req' = [])"
  then obtain v where "ss1 (trim_space (ss_id s)) = Some v" "trim_space v = trim_space T"
    using resolve_remembers by blast
  with a resolve_from_session [of req' s' ss1 v y ts w'] show "resolve_tenant ts req' y ss1 w' = ((Inr (trim_space T), ss1), w')"
    by simp
qed (simp_all add: resolve_tenant_def Let_def split: prod.split)

section \<open>What calls show\<close>

text \<open>The tenant argument of a call that has one.\<close>

definition tool_tenant :: "tool_call \<Rightarrow> string option" where
  "tool_tenant tool = (case tool of
      MemoryStoreTool a \<Rightarrow> Some (mi_tenant a) | PreferenceTool a \<Rightarrow> Some (pi_tenant a)
    | MemorySearchTool a \<Rightarrow> Some (mq_tenant a) | MemoryListTool t n \<Rightarrow> Some t | MemoryDeleteTool t i \<Rightarrow> Some t
    | TenantStatsTool t \<Rightarrow> Some t | TenantExistsTool t \<Rightarrow> Some t | _ \<Rightarrow> None)"

text \<open>What the output of such a call may say, given the database it is served in and the tenant it was
  resolved to: its items are memories of that tenant, its number is the count of that tenant's memories,
  and its truth value is whether that tenant exists.\<close>

definition own_output :: "database \<Rightarrow> string \<Rightarrow> tool_output \<Rightarrow> bool" where
  "own_output D t out \<longleftrightarrow>
     (case out of
        ItemsOutput xs \<Rightarrow> (\<exists>ms. xs = map_memory_items ms \<and>
          (\<forall>m \<in> set ms. m \<in> set (db_memories D) \<and> m_tenant m = t))
      | TenantStatsOutput u n \<Rightarrow> u = t \<and> t \<in> t_id ` set (db_tenants D) \<and>
          n = int (length (filter (\<lambda>m. m_tenant m = t) (db_memories D)))
      | TenantExistsOutput u b \<Rightarrow> u = t \<and> (b \<longleftrightarrow> t \<in> t_id ` set (db_tenants D))
      | _ \<Rightarrow> True)"

lemma bind_search_run:
  "bind_search m f c w = ((r, c'), w') \<longleftrightarrow>
     (\<exists>e. m c w = ((Inl e, c'), w') \<and> r = Inl e) \<or> (\<exists>x c1 w1. m c w = ((Inr x, c1), w1) \<and> f x c1 w1 = ((r, c'), w'))"
  by (auto simp: bind_search_def split: prod.splits sum.splits)

lemma tool_done_run: "tool_done txt out c w = ((r, c'), w') \<longleftrightarrow> r = Inr (ToolOk txt, out) \<and> c' = c \<and> w' = w"
  by (auto simp: tool_done_def return_search_def)

lemma fail_search_run: "fail_search e c w = ((r, c'), w') \<longleftrightarrow> r = Inl e \<and> c' = c \<and> w' = w"
  by (auto simp: fail_search_def)

lemma return_search_run: "return_search x c w = ((r, c'), w') \<longleftrightarrow> r = Inr x \<and> c' = c \<and> w' = w"
  by (auto simp: return_search_def)

lemmas tool_runs = bind_search_run tool_done_run fail_search_run return_search_run on_db_run

lemma with_tenant_run:
  assumes "with_tenant ts req x k ss c w = (((r, ss'), c'), w')"
  shows "(\<exists>e. r = Inl e \<and> c' = c \<and> resolve_tenant ts req x ss w = ((Inl e, ss'), w')) \<or>
    (\<exists>t w1. resolve_tenant ts req x ss w = ((Inr t, ss'), w1) \<and> k t c w1 = ((r, c'), w'))"
  using assms by (auto simp: with_tenant_def split: prod.splits sum.splits)

lemma resolve_tables:
  assumes "resolve_tenant ts req x ss w = ((r, ss'), w')"
  shows "tabs w' = tabs w"
proof -
  have "tabs w1 = tabs w" if "tenant_list 2 w = (v, w1)" for v w1
    using reads_tenant(3) [of 2] that by (auto simp: tenant_list_def reads_def dest: spec [of _ w])
  with assms show ?thesis
    by (auto simp: resolve_tenant_def Let_def split: if_splits prod.splits sum.splits list.splits)
qed

lemma listed_own:
  assumes "service_list sv t n w = (Inr ms, w')" "m \<in> set ms"
  shows "m \<in> set (db_memories (tabs w)) \<and> m_tenant m = t"
proof -
  have "to_fts_query [] = []" by code_simp
  moreover from assms(1) obtain u w1 k where "ensure_tenant_exists t w = (Inr u, w1)"
    "repo_search (ms_engine sv) t [] k w1 = (Inr ms, w')"
    by (auto simp: service_list_def fail_act_success elim!: bind_actE split: if_splits)
  ultimately show ?thesis using assms(2) ensure_tenant_run [of t w u w1]
    by (auto simp: repo_search_def repo_search_with_filters_def recent_rows_def order_desc_def act_success
        split: if_splits dest!: subsetD [OF set_limit_rows] elim!: bind_actE)
qed

lemma tenant_known_run:
  assumes "tenant_exists t w = (Inr b, w')"
  shows "b \<longleftrightarrow> t \<in> t_id ` set (db_tenants (tabs w))"
  using assms by (auto simp: tenant_exists_def fail_act_success dest!: tenant_exists_run split: if_splits)

lemma own_output_simps [simp]:
  "own_output D t (StoreOutput m)" "own_output D t NoOutput" "own_output D t (DeleteOutput d)"
  by (simp_all add: own_output_def)

text \<open>The call of a tool with a tenant, once that is resolved.\<close>

lemma call_with_tenant:
  assumes "call_tool ts req tool ss c w = (((Inr (res, out), ss'), c'), w')" "tool_tenant tool = Some x"
    and "retrieval (ts_service ts) (ts_searcher ts)" "db_ok (tabs w)"
  shows "\<exists>t w1. resolve_tenant ts req x ss w = ((Inr t, ss'), w1) \<and> own_output (tabs w) t out"
proof -
  have found: "own_output (tabs w) t (ItemsOutput (map_memory_items ms))"
    if "search_with_filters (ts_service ts) (ts_searcher ts) t q k opts c w1 = ((Inr ms, c1), w2)" "tabs w1 = tabs w"
    for t q k opts ms c c1 w1 w2
    using retrieval.search_with_filters_outcome [OF assms(3) _ that(1)] assms(4) that(2)
    by (auto simp: db_ok_def answer_ok_def found_in_def own_output_def)
  have listed: "own_output (tabs w) t (ItemsOutput (map_memory_items ms))"
    if "service_list sv t n w1 = (Inr ms, w2)" "tabs w1 = tabs w" for sv t n w1 ms w2
    using listed_own [OF that(1)] that(2) by (auto simp: own_output_def)
  have counted: "own_output (tabs w) t (TenantStatsOutput t n)"
    if "tenant_stats t w1 = (Inr n, w2)" "tabs w1 = tabs w" for t n w1 w2
    using tenant_stats_run [OF that(1)] that(2) by (simp add: own_output_def)
  have known: "own_output (tabs w) t (TenantExistsOutput t b)"
    if "tenant_exists t w1 = (Inr b, w2)" "tabs w1 = tabs w" for t b w1 w2
    using tenant_known_run [OF that(1)] that(2) by (simp add: own_output_def)
  show ?thesis
  proof (cases tool)
    case (MemoryStoreTool a)
    from with_tenant_run [OF assms(1) [unfolded MemoryStoreTool call_tool_def handle_memory_store_def, simplified]]
    show ?thesis using assms(2) MemoryStoreTool
      by (cases "tool_parse_tier (mi_tier a)"; cases "tool_parse_created_by (mi_created_by a)";
          cases "tool_parse_memory_kind (mi_kind a)") (auto simp: tool_tenant_def tool_runs)
  next
    case (PreferenceTool a)
    from with_tenant_run [OF assms(1) [unfolded PreferenceTool call_tool_def handle_memory_store_preference_def, simplified]]
    show ?thesis using assms(2) PreferenceTool
      by (auto simp: tool_tenant_def tool_runs split: if_splits)
  next
    case (MemorySearchTool a)
    from with_tenant_run [OF assms(1) [unfolded MemorySearchTool call_tool_def handle_memory_search_def, simplified]]
    show ?thesis using assms(2) MemorySearchTool
      by (cases "tool_parse_search_tiers (mq_tiers a)"; cases "tool_parse_search_kinds (mq_kinds a)")
        (auto simp: tool_tenant_def tool_runs intro: found [OF _ resolve_tables] split: if_splits)
  next
    case (MemoryListTool t n)
    from with_tenant_run [OF assms(1) [unfolded MemoryListTool call_tool_def handle_memory_list_def, simplified]]
    show ?thesis using assms(2) MemoryListTool
      by (auto simp: tool_tenant_def tool_runs intro: listed [OF _ resolve_tables])
  next
    case (MemoryDeleteTool t i)
    from with_tenant_run [OF assms(1) [unfolded MemoryDeleteTool call_tool_def handle_memory_delete_def, simplified]]
    show ?thesis using assms(2) MemoryDeleteTool by (auto simp: tool_tenant_def tool_runs)
  next
    case (TenantStatsTool t)
    from with_tenant_run [OF assms(1) [unfolded TenantStatsTool call_tool_def tool_tenant_stats_def, simplified]]
    show ?thesis using assms(2) TenantStatsTool
      by (auto simp: tool_tenant_def tool_runs intro: counted [OF _ resolve_tables])
  next
    case (TenantExistsTool t)
    from with_tenant_run [OF assms(1) [unfolded TenantExistsTool call_tool_def handle_tenant_exists_def, simplified]]
    show ?thesis using assms(2) TenantExistsTool
      by (auto simp: tool_tenant_def tool_runs intro: known [OF _ resolve_tables])
  qed (use assms(2) in \<open>simp_all add: tool_tenant_def\<close>)
qed

text \<open>C12 A tool that works for a tenant shows data of the one tenant that its call was resolved to: the
  items it finds or lists are memories of that tenant in the database, the number it reports is the count of
  that tenant's memories, and the existence it reports is that tenant's, whatever the query and the language
  models say.\<close>

theorem tools_confined:
  assumes "call_tool ts req tool ss c w = (((Inr (res, out), ss'), c'), w')" and "tool_tenant tool = Some x"
    and "retrieval (ts_service ts) (ts_searcher ts)" and "db_ok (tabs w)"
  shows "\<exists>t. fst (fst (resolve_tenant ts req x ss w)) = Inr t \<and> own_output (tabs w) t out"
  using call_with_tenant [OF assms] by fastforce

section \<open>The invariant\<close>

lemma with_tenant_keeps:
  assumes "with_tenant ts req x k ss c w = (((r, ss'), c'), w')" "service_ok (tabs w)"
    and "\<And>t c1 w1 r c2 w2. service_ok (tabs w1) \<Longrightarrow> k t c1 w1 = ((r, c2), w2) \<Longrightarrow> service_ok (tabs w2)"
  shows "service_ok (tabs w')"
  using with_tenant_run [OF assms(1)] assms(2,3) by (auto dest!: resolve_tables) metis

text \<open>No call of a tool breaks the invariant of the database, whatever the call, its outcome, and what the
  embedder and the language models answer.\<close>

theorem tools_keep_invariant:
  assumes "ms_vector (ts_service ts) = Some sqlite_vector_store" and "uses_facts (ts_service ts) sqlite_fact_store"
    and "retrieval (ts_service ts) (ts_searcher ts)" and "service_ok (tabs w)"
  shows "service_ok (tabs (snd (call_tool ts req tool ss c w)))"
proof -
  obtain r ss' c' w' where run: "call_tool ts req tool ss c w = (((r, ss'), c'), w')" by (metis prod.collapse)
  have sb: "keeps service_ok (store_batch (ts_service ts) inputs)" for inputs
    by (rule sfi.keeps_ok_store_batch [unfolded svi_ok, OF assms(2,1)])
  have ks: "keeps service_ok (service_store (ts_service ts) i)" "keeps service_ok (service_delete (ts_service ts) t s)"
    "keeps service_ok (service_list (ts_service ts) t n)" "keeps service_ok (tenant_stats t)"
    "keeps service_ok (tenant_exists t)" "keeps service_ok (tenant_list n)" "keeps service_ok (tenant_create u)"
    "keeps service_ok now_act" for i t s n u
    using keeps_service_store [OF sb] svi.keeps_ok_service_delete [unfolded svi_ok, OF assms(1)]
      keeps_ok_tenant_create keeps_job_lookups
    by (simp_all add: service_list_def repo_search_def repo_search_with_filters_def tenant_exists_def tenant_list_def
        reads_keeps [OF reads_tenant(1)] reads_keeps [OF reads_tenant(3)] Let_def act_keeps)
  have "service_ok (tabs w')"
  proof (cases tool)
    case (MemorySearchTool a)
    with run have "handle_memory_search ts req a ss c w = (((r, ss'), c'), w')" by (simp add: call_tool_def)
    then show ?thesis unfolding handle_memory_search_def
    proof (rule with_tenant_keeps [OF _ assms(4)])
      fix t c1 w1 r c2 w2
      assume ok: "service_ok (tabs w1)" and k: "(if mq_min_score a < 0 \<or> mq_min_score a > 1 then return_search (ToolError ErrInvalidInput, NoOutput)
         else case tool_parse_search_tiers (mq_tiers a) of Inl e \<Rightarrow> fail_search e | Inr tiers \<Rightarrow>
          (case tool_parse_search_kinds (mq_kinds a) of Inl e \<Rightarrow> fail_search e | Inr kinds \<Rightarrow>
           bind_search (search_with_filters (ts_service ts) (ts_searcher ts) t (mq_query a) (mq_top_k a)
             \<lparr>sx_min_score = mq_min_score a, sx_tiers = tiers, sx_kinds = kinds, sx_retrieval = [], sx_disable_touch = False\<rparr>)
           (\<lambda>ms. tool_done (digits_text (length ms) @ '' memories found'') (ItemsOutput (map_memory_items ms))))) c1 w1 = ((r, c2), w2)"
      from k ok show "service_ok (tabs w2)"
        using search_keeps_ok [OF assms(3) ok] by (auto simp: tool_runs split: if_splits sum.splits)
    qed
  qed (use run assms(4) in \<open>auto simp: call_tool_def handle_memory_store_def handle_memory_store_preference_def
      handle_memory_list_def handle_memory_delete_def handle_tenant_create_def handle_tenant_list_def
      tool_tenant_stats_def handle_tenant_exists_def handle_health_check_def handle_capabilities_help_def
      without_tenant_def tool_runs split: prod.splits
      elim!: with_tenant_keeps dest!: keeps_run [OF ks(1)] keeps_run [OF ks(2)] keeps_run [OF ks(3)] keeps_run [OF ks(4)]
        keeps_run [OF ks(5)] keeps_run [OF ks(6)] keeps_run [OF ks(7)] keeps_run [OF ks(8)] split: if_splits sum.splits\<close>)
  with run show ?thesis by simp
qed

section \<open>Calls to a sample service\<close>

definition sample_toolset :: toolset where
  "sample_toolset = fst (new_toolset sample_service lookup_searcher '' t1 '' True)"

definition sample_call :: "string \<Rightarrow> meta option \<Rightarrow> tool_request" where
  "sample_call i token = \<lparr>tr_session = Some \<lparr>ss_id = i, ss_init_meta = None\<rparr>, tr_meta = None,
     tr_context_token = None, tr_extra_token = token\<rparr>"

definition sample_token :: meta where
  "sample_token = [''tenant'' \<mapsto> AnyString ''t1'']"

lemma sample_toolset_simps:
  "ts_service sample_toolset = sample_service" "ts_searcher sample_toolset = lookup_searcher"
  "ts_auth_enabled sample_toolset" "ts_default_tenant sample_toolset = ''t1''"
  by (simp_all add: sample_toolset_def new_toolset_def blank_eval)

lemma sample_token_tenant: "tenant_from_jwt (sample_call i (Some sample_token)) = ''t1''"
  "tenant_from_jwt (sample_call i None) = []"
  by (simp_all add: tenant_from_jwt_def tenant_from_token_info_def sample_call_def sample_token_def string_from_any_def
      blank_eval Let_def)

definition sample_start :: db_world where
  "sample_start = calm_world sample_store"

lemma tenant_resolution_witness:
  "fst (fst (resolve_tenant sample_toolset (sample_call ''s'' (Some sample_token)) ''t2'' Map.empty sample_start)) = Inr ''t2'' \<and>
   resolve_tenant sample_toolset (sample_call ''s'' None) [] [''s'' \<mapsto> ''t2''] sample_start = ((Inr ''t2'', [''s'' \<mapsto> ''t2'']), sample_start) \<and>
   fst (fst (resolve_tenant sample_toolset (sample_call ''s'' (Some sample_token)) [] [''s'' \<mapsto> ''t2''] sample_start)) = Inr ''t1''"
proof (intro conjI)
  have t: "trim_space ''t2'' = ''t2''" "trim_space ''s'' = ''s''" by (simp_all add: blank_eval)
  have run: "resolve_tenant sample_toolset (sample_call ''s'' (Some sample_token)) ''t2'' Map.empty sample_start =
      ((Inr ''t2'', [''s'' \<mapsto> ''t2'']), sample_start)"
    by (simp add: resolve_tenant_def t remember_session_tenant_def sample_call_def Let_def split: prod.split)
  then show "fst (fst (resolve_tenant sample_toolset (sample_call ''s'' (Some sample_token)) ''t2'' Map.empty sample_start)) = Inr ''t2''"
    by simp
  show "resolve_tenant sample_toolset (sample_call ''s'' None) [] [''s'' \<mapsto> ''t2''] sample_start = ((Inr ''t2'', [''s'' \<mapsto> ''t2'']), sample_start)"
    using tenant_resolution [of "''t2''" sample_toolset "sample_call ''s'' (Some sample_token)" Map.empty sample_start "''t2''"
        "[''s'' \<mapsto> ''t2'']" sample_start "\<lparr>ss_id = ''s'', ss_init_meta = None\<rparr>" "sample_call ''s'' None"
        "\<lparr>ss_id = ''s'', ss_init_meta = None\<rparr>" "[]" sample_start] run t sample_token_tenant(2) [of "''s''"]
    by (simp add: sample_call_def)
  show "fst (fst (resolve_tenant sample_toolset (sample_call ''s'' (Some sample_token)) [] [''s'' \<mapsto> ''t2''] sample_start)) = Inr ''t1''"
    using tenant_resolution [of "[]" sample_toolset "sample_call ''s'' (Some sample_token)" "[''s'' \<mapsto> ''t2'']" sample_start]
    by (simp add: sample_toolset_simps sample_token_tenant)
qed

lemma sample_toolset_retrieval: "retrieval (ts_service sample_toolset) (ts_searcher sample_toolset)"
  using sample_retrieval by (simp add: sample_toolset_simps sample_handler_def new_memory_handler_def)

lemma sample_stats_call:
  "\<exists>w'. call_tool sample_toolset (sample_call ''s'' None) (TenantStatsTool []) Map.empty None (calm_world sample_store) =
     (((Inr (ToolOk ''tenant stats loaded'', TenantStatsOutput ''t1'' 1), [''s'' \<mapsto> ''t1'']), None), w')"
  by (simp add: call_tool_def tool_tenant_stats_def with_tenant_def resolve_tenant_def session_tenant_def
      remembered_tenant_def sample_toolset_simps sample_token_tenant remember_session_tenant_def blank_eval
      sample_call_def tenant_from_meta_def bind_search_def on_db_def tenant_stats_def tenant_repo_exists_def
      tenant_repo_memory_count_def run_eval sample_store_def memory_count_def count_where_def sample_memory_def
      empty_database_def zero_memory_def tool_done_def return_search_def tenant_from_jwt_def
      tenant_from_token_info_def Let_def)

lemma tools_confined_witness:
  "\<exists>t. fst (fst (resolve_tenant sample_toolset (sample_call ''s'' None) [] Map.empty (calm_world sample_store))) = Inr t \<and>
     own_output sample_store t (TenantStatsOutput ''t1'' 1)"
proof -
  have ok: "db_ok (tabs (calm_world sample_store))" using sample_service_ok by (simp add: service_ok_def)
  have tool: "tool_tenant (TenantStatsTool []) = Some []" by (simp add: tool_tenant_def)
  have store: "tabs (calm_world sample_store) = sample_store" by (simp add: calm_world_def)
  from sample_stats_call obtain w' where
    run: "call_tool sample_toolset (sample_call ''s'' None) (TenantStatsTool []) Map.empty None (calm_world sample_store) =
      (((Inr (ToolOk ''tenant stats loaded'', TenantStatsOutput ''t1'' 1), [''s'' \<mapsto> ''t1'']), None), w')" by blast
  from tools_confined [OF run tool sample_toolset_retrieval ok, unfolded store] show ?thesis .
qed

lemma tools_keep_invariant_witness:
  "service_ok (tabs (snd (call_tool sample_toolset (sample_call ''s'' None) (MemoryDeleteTool [] ''m1'') Map.empty None
     (calm_world sample_store))))"
  using tools_keep_invariant [OF _ _ sample_toolset_retrieval sample_service_ok]
  by (simp add: sample_toolset_simps sample_service_def uses_facts_def)

end
