(* ===== verification/Spec2Isabelle.thy ===== *)
theory Spec2Isabelle
  imports QueryCache Options Sha256 TenantService ServiceLaws WorkerLaws HeuristicParser SearchSample
    ApiTelemetry Lexical Providers StartupLaws McpLaws
begin

text \<open>
  A model of pali, a memory service for language-model agents written in Go. Clients store turns of
  conversations for a tenant; the service keeps them in SQLite, indexes them lexically (FTS5) and by
  embeddings, extracts facts from them, in the request or later by postprocess workers, and answers
  queries by fusing several retrievals and ranking what they find.

  THE PROGRAM AND ITS LAYERS. A configuration (\<open>internal/config\<close>) is turned into providers and a memory
  service (\<open>internal/wiring\<close>, \<open>internal/embeddings\<close>, \<open>internal/scorer\<close>), which two programs serve: the HTTP
  interface (\<open>internal/api\<close>, with \<open>internal/auth\<close> and \<open>internal/telemetry\<close>) and the MCP server
  (\<open>internal/mcp\<close>, \<open>internal/startup\<close>). Their requests reach \<open>internal/core/memory\<close> (the memory service) and
  \<open>internal/core/tenant\<close>. Both work on the repositories of \<open>internal/repository/sqlite\<close> through the
  interfaces of \<open>internal/domain\<close>; the memory service also uses a vector store
  (\<open>internal/vectorstore/sqlitevec\<close> is the one in the same database), an embedder, an importance scorer,
  and a fact parser. Workers (\<open>postprocess_worker.go\<close>) claim jobs from a queue in the database that
  asynchronous ingest fills, and run them with the same functions as the store path.

  EFFECTS (World). An operation is an action: it maps a world to an error or a value and the next
  world. A world holds the tables and three oracles about which nothing is assumed: whether the n-th
  effect fails, what the n-th reading of the clock returns, the n-th draw of random bytes. Every
  statement, transaction and external call may therefore fail, and every theorem covers that. A Go
  error is a value of \<open>err\<close>; every early return is a branch. The locales of this theory carry the rules
  for actions that only read, that keep an invariant, and that leave a part of the tables alone.

  THEORIES AND SOURCES.
  Prelude: Go's \<open>strings\<close>, \<open>strconv\<close> and \<open>slices\<close> as far as they are used, on byte strings, with shared
  lemmas on lists and sorting. Domain: the records, enumerations and sentinel errors of
  \<open>internal/domain\<close>. Stamps, Tables: times as SQLite holds them (RFC3339Nano texts compared as text) and
  one list of rows per table. Sha256: the hash that names turns and facts. Regex: matching for the
  regular expressions of the sources, with leftmost-first semantics.
  FtsText, MemoryRepo, JobQueue, EntityRepo, TenantService: \<open>repository/sqlite\<close> (\<open>memory.go\<close>,
  \<open>memory_filters.go\<close>, \<open>memory_jobs.go\<close>, \<open>entity_facts.go\<close>, \<open>tenant.go\<close>, \<open>queries.go\<close>) and \<open>core/tenant\<close>;
  every SQL statement is a function on the tables.
  VectorStore: the interface \<open>domain.VectorStore\<close>, its contract, and \<open>sqlitevec\<close> with its contract proved.
  Options: the options of \<open>service.go\<close> and of the workers, defaults and normalisers.
  MemoryService, StoreService: admission, tiers, scoring, embedding, \<open>Store\<close>, \<open>StoreBatch\<close>, \<open>Ingest\<close>, \<open>Get\<close>,
  \<open>Delete\<close>. ParserStore, FactPrep, FactText, FactQuality, EntityFacts: storing turns with parsed facts.
  TurnText, FactWords, HeuristicParser: reading turns and their speakers and times, the heuristics that
  find entity, relation and value, the heuristic parser and the parsers that ask a language model.
  Worker: claiming, running, retrying and giving up jobs, and the loop of a worker.
  QueryCache: the LRU cache of query embeddings (\<open>query_embedding_cache.go\<close>, \<open>search_setup.go\<close>).
  Routing, RankText, Ranking, SearchQueries, Search: \<open>query_routing.go\<close>, \<open>search_expansion.go\<close>,
  \<open>search_entity.go\<close>, \<open>search_graph.go\<close>, \<open>search_ranking_utils.go\<close>, \<open>search_ranking_scoring.go\<close>,
  \<open>multi_hop_decomposer.go\<close>, \<open>core/scoring\<close> and \<open>search.go\<close>: classification and planning of a query, the
  queries it expands to, candidates, fusion, ranking, reranking, grounding, and the search as a whole.
  Auth, Api: signing and checking tokens, the middleware, and all handlers of the \<open>/v1\<close> group with binding,
  access checks and error mapping (\<open>internal/auth\<close>, \<open>api/handlers\<close>, \<open>api/dto\<close>, \<open>api/router.go\<close>). Telemetry,
  ApiTelemetry: the counters and rings of \<open>telemetry/service.go\<close>, and what middleware and handlers record.
  Mcp: the tools of \<open>mcp/tools/registry.go\<close> and the resolution of the tenant of a call.
  GoNumbers, Config: reading numbers, and the configuration records, defaults, environment overrides,
  validation and loading (\<open>internal/config\<close>). Wiring, Startup: the constructors of the providers, the assembly
  of the service from its options, and start and clean-up of both programs as sequences of openings and
  closings (\<open>wiring/components.go\<close>, \<open>embeddings/factory.go\<close>, \<open>core/memory/service.go\<close>, \<open>api/router.go\<close>,
  \<open>startup/mcp.go\<close>).
  Lexical: the embedder and scorers that need no model. ModelScorer, BatchPool, Providers: reading the scores
  a language model replies, batches whose goroutines are a step relation, and the batches of scores and
  embeddings of OpenRouter and Ollama.
  ApiLaws, McpLaws, ConfigLaws, StartupLaws, TelemetryLaws: the laws of the interfaces, of the configuration
  and of the telemetry.
  ServiceFrames, ServiceLaws, WorkerLaws, RankLaws, SearchLaws, SearchSample: the laws of the services,
  of the workers, of ranking and of search, and runs of them on concrete stores.

  WHAT IS PROVED. Storage: the invariant of the tables (unique identifiers, existing tenants, a full-text
  table that is the image of the memories, embeddings of existing memories) is kept by every operation of
  the repository, the services and the workers, whatever fails. The queue refines a step relation whose
  traces are mutually exclusive; the retry delay is bounded. Isolation: reading, lexical search and the
  whole retrieval return memories of the asking tenant only; a search changes nothing but access times,
  recall counts and, for the memories it recalls, the time of the last update. Contracts: a vector store is a value of an interface (locale \<open>vector_index\<close>),
  interpreted by \<open>sqlitevec\<close>; what the service promises is proved inside the locale and holds for the model
  by interpretation. Functional behaviour: what storing, ingesting, deleting, running a job and
  invalidating a fact leave in the tables, errors included. Interfaces: an authenticated request for another
  tenant is refused and changes nothing, an answer holds rows of the requested tenant and counts of its memories only,
  every request and every tool keeps the invariant; a tool works for exactly the tenant the resolution finds. Configuration: the
  environment decides the settings it names, a validated configuration starts, and the settings in force are
  the validated ones; what a program opened is closed again, with the exceptions listed as findings. Telemetry:
  the rings and counters show what a list of all events would show, and their numbers are those of the answers
  given. Batches: every schedule ends, and parallel scoring returns what scoring one text after the other would. Text: the MATCH expression cannot be steered,
  identities are unambiguous, parsers return admissible facts. Ranking: fusion equals reciprocal rank
  fusion written as a sum, scores and windows are bounded, rejections are exactly the documented ones.

  REPRESENTATION AND BOUNDS. Strings are byte strings; functions on runes are modelled on ASCII, where
  both agree. Times and durations are integers of nanoseconds, \<open>int\<close> is unbounded except in the retry
  delay, where the width of \<open>int64\<close> matters and its wrap-around is written out. \<open>float64\<close> and \<open>float32\<close> are
  reals: rounding, infinities and NaN are not modelled. SHA-256 works on 32-bit words. Loops over data
  are structural recursion or have a measure; the loop of a worker runs a number of turns that is a
  parameter of every theorem about it, and cancellation may come at any effect, so each theorem holds for
  every prefix of an unbounded run. The regular expressions are matched by recursion on the expression
  with the remaining text as bound for the stars; an iteration that consumes nothing ends the star, so
  the text is always fuel enough.

  PARAMETERS. Not under \<open>src/\<close> and therefore arguments of the model: the MATCH engine of FTS5, embedding
  models, language models (as the function from the prompt's inputs to the reply), the HTTP exchange with model
  servers, \<open>json.Unmarshal\<close> and YAML decoding, URI parsing, the environment, the JWT library (with its documented
  behaviour as a contract), the MCP library, the places in which an unstable sort leaves equal scores, and the
  error texts of the driver.

  NOT MODELLED. The traffic with external databases (\<open>neo4j\<close>, \<open>qdrant\<close>, \<open>pgvector\<close>): statements and
  requests in languages of systems whose code is not here; once constructed they are values of the interfaces
  above. The ONNX runtime, and the HTTP requests of the clients of models. Migrations and connection set-up;
  the keys and cascades of the schema are what the statements of the tables assume. Locks: operations are
  atomic up to their effects; goroutines are modelled where their order can show, in the batches. Panics, log
  output, the health check and CORS headers, the dashboard and its templates, the client library \<open>pkg/client\<close>,
  the command lines, the set-up of files on a new machine, prompts, tests and research scripts.
\<close>

end
